(* ===== verification/Prelude.thy ===== *)
theory Prelude
  imports Main "HOL-Library.Word"
begin

text \<open>
  Shared vocabulary of the development.

  \<^item> A JavaScript string is the list of its UTF-16 code units (\<open>jstr\<close>); \<open>js\<close> embeds ASCII
    literals. \<open>String.prototype.trim\<close>, \<open>indexOf\<close>, \<open>slice\<close> and the character classes the
    sources use are modelled here.
  \<^item> A \<open>Uint8Array\<close> is a list of \<open>8 word\<close>; \<open>js_shl\<close>, \<open>js_ushr0\<close> and \<open>js_or\<close> are the 32-bit
    shift and bitwise operators of the language.
  \<^item> A function that may throw returns a sum (\<open>Inl\<close> the error); \<open>rbind\<close> sequences two such
    functions.
  \<^item> The named collections gather the rewrite rules and the preservation lemmas the component
    proofs are made of.
\<close>

named_theorems port_simps \<open>what each storage operation leaves unchanged\<close>
named_theorems inv_intros \<open>preservation of the store invariant by one operation\<close>
named_theorems parse_dests \<open>what a successful bounded read tells\<close>

section \<open>Results with errors\<close>

definition rbind :: "'e + 'a \<Rightarrow> ('a \<Rightarrow> 'e + 'b) \<Rightarrow> 'e + 'b" where
  "rbind m f = (case m of Inl e \<Rightarrow> Inl e | Inr x \<Rightarrow> f x)"

lemma rbind_simps [simp]:
  "rbind (Inl e) f = Inl e"
  "rbind (Inr x) f = f x"
  by (simp_all add: rbind_def)

lemma rbind_Inr_iff: "rbind m f = Inr y \<longleftrightarrow> (\<exists>x. m = Inr x \<and> f x = Inr y)"
  by (cases m) auto

lemma rbind_InrE:
  assumes "rbind m f = Inr y"
  obtains x where "m = Inr x" and "f x = Inr y"
  using assms by (cases m) auto

lemma rbind_Inl_iff: "rbind m f = Inl e \<longleftrightarrow> m = Inl e \<or> (\<exists>x. m = Inr x \<and> f x = Inl e)"
  by (cases m) auto

lemma rbind_cong [fundef_cong]:
  assumes "m = m'" and "\<And>x. m' = Inr x \<Longrightarrow> f x = g x"
  shows "rbind m f = rbind m' g"
  using assms by (cases m') auto

text \<open>\<open>Array.prototype.map\<close> with a function that may throw: the first error wins.\<close>

fun rmap :: "('a \<Rightarrow> 'e + 'b) \<Rightarrow> 'a list \<Rightarrow> 'e + 'b list" where
  "rmap f [] = Inr []"
| "rmap f (x # xs) = rbind (f x) (\<lambda>y. rbind (rmap f xs) (\<lambda>ys. Inr (y # ys)))"

lemma rmap_length: "rmap f xs = Inr ys \<Longrightarrow> length ys = length xs"
  by (induction xs arbitrary: ys) (auto simp: rbind_Inr_iff)

lemma rmap_in_set: "rmap f xs = Inr ys \<Longrightarrow> y \<in> set ys \<Longrightarrow> \<exists>x \<in> set xs. f x = Inr y"
  by (induction xs arbitrary: ys) (auto simp: rbind_Inr_iff)

section \<open>Strings as UTF-16 code units\<close>

type_synonym jstr = "nat list"

definition js :: "string \<Rightarrow> jstr" where
  "js s = map of_char s"

lemma js_append [simp]: "js (xs @ ys) = js xs @ js ys"
  by (simp add: js_def)

lemma length_js [simp]: "length (js s) = length s"
  by (simp add: js_def)

text \<open>ECMAScript white space and line terminators: what \<open>trim\<close> strips and \<open>\s\<close> matches.\<close>

definition is_js_space :: "nat \<Rightarrow> bool" where
  "is_js_space c \<longleftrightarrow>
     (9 \<le> c \<and> c \<le> 13) \<or> c = 32 \<or> c = 160 \<or> c = 5760 \<or> (8192 \<le> c \<and> c \<le> 8202) \<or>
     c = 8232 \<or> c = 8233 \<or> c = 8239 \<or> c = 8287 \<or> c = 12288 \<or> c = 65279"

definition jtrim :: "jstr \<Rightarrow> jstr" where
  "jtrim s = rev (dropWhile is_js_space (rev (dropWhile is_js_space s)))"

lemma dropWhile_hd_false: "xs \<noteq> [] \<Longrightarrow> \<not> P (hd xs) \<Longrightarrow> dropWhile P xs = xs"
  by (cases xs) auto

lemma last_dropWhile: "dropWhile P xs \<noteq> [] \<Longrightarrow> last (dropWhile P xs) = last xs"
  by (induction xs) auto

lemma jtrim_edges:
  assumes "jtrim s \<noteq> []"
  shows "\<not> is_js_space (hd (jtrim s))" and "\<not> is_js_space (last (jtrim s))"
proof -
  define t where "t = dropWhile is_js_space s"
  have r: "dropWhile is_js_space (rev t) \<noteq> []" using assms by (simp add: jtrim_def t_def)
  have "hd (jtrim s) = last (dropWhile is_js_space (rev t))"
    using r by (simp add: jtrim_def t_def hd_rev)
  also have "\<dots> = last (rev t)" using r by (rule last_dropWhile)
  also have "\<dots> = hd t" using r by (cases t) auto
  finally have "hd (jtrim s) = hd t" .
  moreover have "t \<noteq> []" using r by auto
  ultimately show "\<not> is_js_space (hd (jtrim s))"
    by (metis hd_dropWhile t_def)
  show "\<not> is_js_space (last (jtrim s))"
    using r hd_dropWhile [OF r] by (simp add: jtrim_def t_def last_rev)
qed

lemma jtrim_Nil [simp]: "jtrim [] = []"
  by (simp add: jtrim_def)

lemma jtrim_idem: "jtrim (jtrim s) = jtrim s"
proof (cases "jtrim s = []")
  case True
  then show ?thesis by simp
next
  case False
  have "dropWhile is_js_space (jtrim s) = jtrim s"
    using False jtrim_edges(1) by (simp add: dropWhile_hd_false)
  moreover have "dropWhile is_js_space (rev (jtrim s)) = rev (jtrim s)"
    using False jtrim_edges(2) by (simp add: dropWhile_hd_false hd_rev)
  ultimately show ?thesis by (simp add: jtrim_def [of "jtrim s"])
qed

lemma set_jtrim: "set (jtrim s) \<subseteq> set s"
  by (auto simp: jtrim_def dest!: set_dropWhileD)

lemma length_jtrim: "length (jtrim s) \<le> length s"
  unfolding jtrim_def using length_dropWhile_le by (metis le_trans length_rev)

definition is_digit :: "nat \<Rightarrow> bool" where
  "is_digit c \<longleftrightarrow> 48 \<le> c \<and> c \<le> 57"

definition is_upper :: "nat \<Rightarrow> bool" where
  "is_upper c \<longleftrightarrow> 65 \<le> c \<and> c \<le> 90"

definition is_lower :: "nat \<Rightarrow> bool" where
  "is_lower c \<longleftrightarrow> 97 \<le> c \<and> c \<le> 122"

definition is_alpha :: "nat \<Rightarrow> bool" where
  "is_alpha c \<longleftrightarrow> is_upper c \<or> is_lower c"

text \<open>\<open>toLowerCase\<close> / \<open>toUpperCase\<close> on the ASCII range, the only range the callers can reach.\<close>

definition ascii_lower :: "nat \<Rightarrow> nat" where
  "ascii_lower c = (if is_upper c then c + 32 else c)"

definition ascii_upper :: "nat \<Rightarrow> nat" where
  "ascii_upper c = (if is_lower c then c - 32 else c)"

text \<open>\<open>indexOf\<close> of one code unit and of a string; \<open>None\<close> is the \<open>-1\<close> of the language.\<close>

fun index_of :: "'a \<Rightarrow> 'a list \<Rightarrow> nat option" where
  "index_of c [] = None"
| "index_of c (x # xs) = (if x = c then Some 0 else map_option Suc (index_of c xs))"

lemma index_of_None: "index_of c xs = None \<longleftrightarrow> c \<notin> set xs"
  by (induction xs) auto

lemma index_of_Some:
  "index_of c xs = Some i \<Longrightarrow> i < length xs \<and> xs ! i = c \<and> c \<notin> set (take i xs)"
  by (induction xs arbitrary: i) (auto split: if_splits)

lemma index_of_append: "c \<notin> set xs \<Longrightarrow> index_of c (xs @ c # ys) = Some (length xs)"
  by (induction xs) auto

fun starts_with :: "'a list \<Rightarrow> 'a list \<Rightarrow> bool" where
  "starts_with xs [] = True"
| "starts_with [] (p # ps) = False"
| "starts_with (x # xs) (p # ps) = (x = p \<and> starts_with xs ps)"

lemma starts_with_append: "starts_with xs p \<longleftrightarrow> (\<exists>ys. xs = p @ ys)"
  by (induction xs p rule: starts_with.induct) auto

fun contains_sub :: "'a list \<Rightarrow> 'a list \<Rightarrow> bool" where
  "contains_sub [] p = (p = [])"
| "contains_sub (x # xs) p = (starts_with (x # xs) p \<or> contains_sub xs p)"

lemma contains_sub_iff: "contains_sub xs p \<longleftrightarrow> (\<exists>us vs. xs = us @ p @ vs)"
proof (induction xs)
  case Nil
  then show ?case by auto
next
  case (Cons x xs)
  have "(\<exists>us vs. x # xs = us @ p @ vs) \<longleftrightarrow>
        (\<exists>vs. x # xs = p @ vs) \<or> (\<exists>us vs. xs = us @ p @ vs)"
    by (metis append_Cons append_Nil list.sel(3) neq_Nil_conv)
  with Cons.IH show ?case by (simp add: starts_with_append)
qed

section \<open>Bytes and the 32-bit operators\<close>

type_synonym byte = "8 word"

definition js_shl :: "int \<Rightarrow> nat \<Rightarrow> int" where
  "js_shl a n = sint (push_bit n (word_of_int a :: 32 word))"

definition js_ushr0 :: "int \<Rightarrow> int" where
  "js_ushr0 a = uint (word_of_int a :: 32 word)"

definition js_or :: "int \<Rightarrow> int \<Rightarrow> int" where
  "js_or a b = sint (or (word_of_int a) (word_of_int b) :: 32 word)"

definition MAX_SAFE_INTEGER :: int where
  "MAX_SAFE_INTEGER = 9007199254740991"

definition is_safe_integer :: "int \<Rightarrow> bool" where
  "is_safe_integer n \<longleftrightarrow> - MAX_SAFE_INTEGER \<le> n \<and> n \<le> MAX_SAFE_INTEGER"

lemma uint_byte_bounds: "0 \<le> uint (b :: byte)" "uint (b :: byte) < 256"
  using uint_lt2p [of b] by simp_all

lemma sint_word32_small:
  "0 \<le> a \<Longrightarrow> a < 2 ^ 31 \<Longrightarrow> sint (word_of_int a :: 32 word) = a"
  by (simp add: sint_sbintrunc' signed_take_bit_int_eq_self)

lemma uint_word32_small:
  "0 \<le> a \<Longrightarrow> a < 2 ^ 32 \<Longrightarrow> uint (word_of_int a :: 32 word) = a"
  by (simp add: uint_word_of_int)

lemma push_bit_word_of_int:
  "push_bit n (word_of_int a :: 'a::len word) = word_of_int (a * 2 ^ n)"
  by (simp add: push_bit_eq_mult)

lemma unat_byte: "unat (b :: byte) < 256"
  using uint_byte_bounds [of b] by (simp flip: nat_uint_eq add: nat_less_iff)

lemma js_shl_byte:
  assumes "0 \<le> a" and "a < 256" and "n < 24"
  shows "js_shl a n = a * 2 ^ n"
proof -
  have p: "(2::int) ^ n \<le> 2 ^ 23" using assms(3) by (intro power_increasing) auto
  have "a * 2 ^ n \<le> 255 * 2 ^ 23" using assms p by (intro mult_mono) auto
  then have "a * 2 ^ n < 2 ^ 31" by simp
  then show ?thesis
    using assms unfolding js_shl_def push_bit_word_of_int by (intro sint_word32_small) auto
qed

lemma js_ushr0_shl24:
  assumes "0 \<le> a" and "a < 256"
  shows "js_ushr0 (js_shl a 24) = a * 2 ^ 24"
proof -
  have "js_ushr0 (js_shl a 24) = uint (word_of_int (a * 2 ^ 24) :: 32 word)"
    unfolding js_shl_def js_ushr0_def push_bit_word_of_int of_int_sint scast_id ..
  also have "\<dots> = a * 2 ^ 24" using assms by (intro uint_word32_small) auto
  finally show ?thesis .
qed

lemma or_shl8_int:
  assumes "0 \<le> (a::int)" and "0 \<le> b" and "b < 256"
  shows "or (a * 256) b = a * 256 + b"
proof (rule disjunctive_add [symmetric])
  fix n
  have "take_bit 8 b = b" using assms by (simp add: take_bit_int_eq_self)
  then have "bit b n \<Longrightarrow> n < 8" by (metis bit_take_bit_iff)
  moreover have "a * 256 = push_bit 8 a" by (simp add: push_bit_eq_mult)
  ultimately show "\<not> bit (a * 256) n \<or> \<not> bit b n" by (auto simp: bit_push_bit_iff)
qed

lemma or_word_of_int:
  "or (word_of_int a) (word_of_int b) = (word_of_int (or a b) :: 'a::len word)"
  by (rule bit_word_eqI) (simp add: bit_or_iff bit_word_of_int_iff)

lemma js_or_shl8:
  assumes "0 \<le> a" and "a < 256" and "0 \<le> b" and "b < 256"
  shows "js_or (js_shl a 8) b = a * 256 + b"
proof -
  have "js_shl a 8 = a * 256" using js_shl_byte [OF assms(1,2), of 8] by simp
  then have "js_or (js_shl a 8) b = sint (word_of_int (a * 256 + b) :: 32 word)"
    unfolding js_or_def or_word_of_int using or_shl8_int [OF assms(1,3,4)] by simp
  also have "\<dots> = a * 256 + b" using assms by (intro sint_word32_small) auto
  finally show ?thesis .
qed

lemma js_or_zero:
  assumes "0 \<le> v" and "v < 2 ^ 32"
  shows "js_or v 0 = (if v < 2 ^ 31 then v else v - 2 ^ 32)"
proof -
  have "js_or v 0 = sint (word_of_int v :: 32 word)" by (simp add: js_or_def)
  also have "\<dots> = (if v < 2 ^ 31 then v else v - 2 ^ 32)"
  proof (cases "v < 2 ^ 31")
    case False
    have "(word_of_int v :: 32 word) = word_of_int (v - 2 ^ 32)"
      by (rule word_of_int_eq_iff [THEN iffD2]) (simp add: take_bit_eq_mod)
    moreover have "sint (word_of_int x :: 32 word) = signed_take_bit 31 x" for x :: int
      by (simp add: sint_sbintrunc')
    moreover have "signed_take_bit 31 (v - 2 ^ 32) = v - 2 ^ 32"
      using False assms by (intro signed_take_bit_int_eq_self) auto
    ultimately show ?thesis using False by (simp only: if_False)
  qed (simp add: assms sint_word32_small)
  finally show ?thesis .
qed

section \<open>Lists as tables\<close>

text \<open>\<open>Array.prototype.find\<close> and assignment at the \<open>findIndex\<close> of a predicate.\<close>

fun update_first :: "('a \<Rightarrow> bool) \<Rightarrow> ('a \<Rightarrow> 'a) \<Rightarrow> 'a list \<Rightarrow> 'a list" where
  "update_first P f [] = []"
| "update_first P f (x # xs) = (if P x then f x # xs else x # update_first P f xs)"

lemma find_SomeD: "List.find P xs = Some x \<Longrightarrow> x \<in> set xs \<and> P x"
  by (induction xs) (auto split: if_splits)

lemma find_NoneD: "List.find P xs = None \<Longrightarrow> x \<in> set xs \<Longrightarrow> \<not> P x"
  by (induction xs) (auto split: if_splits)

lemma find_append: "List.find P (xs @ ys) =
    (case List.find P xs of Some x \<Rightarrow> Some x | None \<Rightarrow> List.find P ys)"
  by (induction xs) auto

lemma update_first_none: "List.find P xs = None \<Longrightarrow> update_first P f xs = xs"
  by (induction xs) (auto split: if_splits)

lemma set_update_first: "y \<in> set (update_first P f xs) \<Longrightarrow>
    y \<in> set xs \<or> (\<exists>x. List.find P xs = Some x \<and> y = f x)"
  by (induction xs) (auto split: if_splits)

lemma map_update_first: "(\<And>x. List.find P xs = Some x \<Longrightarrow> g (f x) = g x) \<Longrightarrow>
    map g (update_first P f xs) = map g xs"
  by (induction xs) (auto split: if_splits)

lemma length_update_first [simp]: "length (update_first P f xs) = length xs"
  by (induction xs) auto

lemma find_update_first:
  "List.find P xs = Some x \<Longrightarrow> P (f x) \<Longrightarrow> List.find P (update_first P f xs) = Some (f x)"
  by (induction xs) (auto split: if_splits)

lemma update_first_at: "(\<And>x. List.find P xs = Some x \<Longrightarrow> f x = g x) \<Longrightarrow> update_first P f xs = update_first P g xs"
  by (induction xs) (auto split: if_splits)

lemma find_update_other:
  assumes "List.find P xs = Some x" and "\<And>y. P (f y) = P y"
  shows "List.find P (update_first Q f xs) = Some x \<or> List.find P (update_first Q f xs) = Some (f x)"
  using assms(1) by (induction xs) (auto simp: assms(2) split: if_splits)

text \<open>The row found by one predicate is the row updated by another.\<close>

lemma find_update_keyed:
  assumes "List.find P xs = Some x" and "List.find Q xs = Some x" and "P (f x)"
  shows "List.find P (update_first Q f xs) = Some (f x)"
  using assms by (induction xs) (auto split: if_splits dest: find_SomeD)

lemma find_map_keep: "(\<And>y. P (f y) = P y) \<Longrightarrow> List.find P (map f xs) = map_option f (List.find P xs)"
  by (induction xs) auto

lemma in_update_firstI: "List.find P xs = Some x \<Longrightarrow> f x \<in> set (update_first P f xs)"
  by (induction xs) (auto split: if_splits)

lemma update_first_keep: "y \<in> set xs \<Longrightarrow> \<not> P y \<Longrightarrow> y \<in> set (update_first P f xs)"
  by (induction xs) (auto split: if_splits)

text \<open>In a table with distinct keys a row is found by its key.\<close>

lemma find_by_key:
  "distinct (map k xs) \<Longrightarrow> x \<in> set xs \<Longrightarrow> List.find (\<lambda>y. k y = k x) xs = Some x"
proof (induction xs)
  case Nil
  then show ?case by simp
next
  case (Cons y ys)
  show ?case
  proof (cases "k y = k x")
    case True
    then have "x = y" using Cons.prems by (metis image_eqI list.set_map distinct.simps(2) list.simps(9) set_ConsD)
    then show ?thesis by simp
  next
    case False
    then show ?thesis using Cons by auto
  qed
qed

lemma distinct_map_inj: "distinct (map k xs) \<Longrightarrow> x \<in> set xs \<Longrightarrow> y \<in> set xs \<Longrightarrow> k x = k y \<Longrightarrow> x = y"
  by (metis distinct_map inj_onD)

lemma distinct_map_filter_key: "distinct (map k xs) \<Longrightarrow> distinct (map k (filter P xs))"
  by (rule distinct_map_filter)

end
