(* ===== verification/ContactCrypto.thy ===== *)
theory ContactCrypto
  imports Prelude
begin

unbundle bit_operations_syntax

text \<open>
  Contact normalisation, masking and the encodings around the platform's cryptography
  (\<open>services/api/src/modules/community/application/auth/contact-crypto.ts\<close> and
  \<open>.../application/session-token.ts\<close>).

  The platform is a parameter (\<open>webcrypto\<close>): HMAC-SHA-256, SHA-256 and AES-GCM of
  \<open>globalThis.crypto.subtle\<close>, the n-th draw of \<open>getRandomValues\<close>, and the host name the WHATWG
  URL parser gives a domain (\<open>None\<close> when it throws). Everything written in these files around
  it (hex, base64url, the constant-time comparison, the OTP loop) is defined here.
\<close>

record webcrypto =
  wc_hmac :: "byte list \<Rightarrow> jstr \<Rightarrow> byte list"
  wc_sha256 :: "jstr \<Rightarrow> byte list"
  wc_encrypt :: "byte list \<Rightarrow> byte list \<Rightarrow> jstr \<Rightarrow> jstr \<Rightarrow> byte list"
  wc_decrypt :: "byte list \<Rightarrow> byte list \<Rightarrow> jstr \<Rightarrow> byte list \<Rightarrow> jstr option"
  wc_random :: "nat \<Rightarrow> nat \<Rightarrow> byte list"
  wc_hostname :: "jstr \<Rightarrow> jstr option"

record auth_keys =
  key_version :: int
  lookupKey :: "byte list"
  encryptionKey :: "byte list"
  otpKey :: "byte list"

text \<open>\<open>Number.isInteger(keys.version)\<close> holds by the type.\<close>

definition assertAuthKeys :: "auth_keys \<Rightarrow> bool" where
  "assertAuthKeys keys \<longleftrightarrow> \<not> key_version keys < 1 \<and>
     list_all (\<lambda>k. length k = 32) [lookupKey keys, encryptionKey keys, otpKey keys]"

section \<open>Hexadecimal\<close>

definition hex_digit :: "nat \<Rightarrow> nat" where
  "hex_digit n = (if n < 10 then 48 + n else 87 + n)"

definition hex_byte :: "byte \<Rightarrow> jstr" where
  "hex_byte b = [hex_digit (unat b div 16), hex_digit (unat b mod 16)]"

definition hex :: "byte list \<Rightarrow> jstr" where
  "hex bs = concat (map hex_byte bs)"

definition hex_value :: "nat \<Rightarrow> nat option" where
  "hex_value c = (if is_digit c then Some (c - 48)
     else if 97 \<le> c \<and> c \<le> 102 then Some (c - 87)
     else if 65 \<le> c \<and> c \<le> 70 then Some (c - 55) else None)"

text \<open>\<open>Number.parseInt(s, 16)\<close>: leading space, a sign, an optional \<open>0x\<close>, then the longest run of
  hexadecimal digits; \<open>None\<close> is NaN.\<close>

fun hex_run :: "jstr \<Rightarrow> nat list" where
  "hex_run [] = []"
| "hex_run (c # cs) = (case hex_value c of None \<Rightarrow> [] | Some v \<Rightarrow> v # hex_run cs)"

definition parse_unsigned16 :: "jstr \<Rightarrow> int option" where
  "parse_unsigned16 s =
     (let t = (if starts_with s [48, 120] \<or> starts_with s [48, 88] then drop 2 s else s);
          ds = hex_run t
      in if ds = [] then None else Some (int (foldl (\<lambda>a d. 16 * a + d) 0 ds)))"

definition parse_int16 :: "jstr \<Rightarrow> int option" where
  "parse_int16 s =
     (let t = dropWhile is_js_space s in
      if starts_with t [45] then map_option uminus (parse_unsigned16 (drop 1 t))
      else if starts_with t [43] then parse_unsigned16 (drop 1 t)
      else parse_unsigned16 t)"

text \<open>Storing into a \<open>Uint8Array\<close>: NaN becomes 0, a number is taken modulo 256.\<close>

definition to_uint8 :: "int option \<Rightarrow> byte" where
  "to_uint8 v = (case v of None \<Rightarrow> 0 | Some n \<Rightarrow> word_of_int n)"

fun unhex :: "jstr \<Rightarrow> byte list" where
  "unhex (a # b # cs) = to_uint8 (parse_int16 [a, b]) # unhex cs"
| "unhex _ = []"

text \<open>The digits \<open>hex\<close> writes are read back by \<open>unhex\<close>.\<close>

lemma hex_value_digit [simp]: "n < 16 \<Longrightarrow> hex_value (hex_digit n) = Some n"
  by (auto simp: hex_value_def hex_digit_def is_digit_def)

lemma hex_digit_plain: "n < 16 \<Longrightarrow> \<not> is_js_space (hex_digit n) \<and> hex_digit n \<noteq> 45 \<and>
    hex_digit n \<noteq> 43 \<and> hex_digit n \<noteq> 120 \<and> hex_digit n \<noteq> 88"
  by (auto simp: is_js_space_def hex_digit_def)

lemma parse_hex_pair: "m < 16 \<Longrightarrow> n < 16 \<Longrightarrow>
    parse_int16 [hex_digit m, hex_digit n] = Some (int (16 * m + n))"
  using hex_digit_plain [of m] hex_digit_plain [of n]
  by (simp add: parse_int16_def parse_unsigned16_def Let_def)

lemma unat_byte_bounds: "unat (b :: byte) div 16 < 16" "unat (b :: byte) mod 16 < 16"
proof -
  have "unat b < 256" by (rule unat_byte)
  then show "unat b div 16 < 16" by auto
qed simp

lemma unhex_hex [simp]: "unhex (hex bs) = bs"
proof (induction bs)
  case Nil
  then show ?case by (simp add: hex_def)
next
  case (Cons b bs)
  have "to_uint8 (parse_int16 (hex_byte b)) = b"
    using parse_hex_pair [OF unat_byte_bounds [of b]]
    by (simp add: hex_byte_def to_uint8_def)
  then show ?case using Cons by (simp add: hex_def hex_byte_def)
qed

lemma hex_inj: "hex a = hex b \<longleftrightarrow> a = b"
  by (metis unhex_hex)

lemma length_hex [simp]: "length (hex bs) = 2 * length bs"
  by (induction bs) (auto simp: hex_def hex_byte_def)

section \<open>Base64url\<close>

definition b64_char :: "nat \<Rightarrow> nat" where
  "b64_char n = (if n < 26 then 65 + n else if n < 52 then 71 + n
     else if n < 62 then n - 4 else if n = 62 then 43 else 47)"

definition b64_value :: "nat \<Rightarrow> nat option" where
  "b64_value c = (if is_upper c then Some (c - 65) else if is_lower c then Some (c - 71)
     else if is_digit c then Some (c + 4) else if c = 43 then Some 62
     else if c = 47 then Some 63 else None)"

fun btoa :: "nat list \<Rightarrow> jstr" where
  "btoa [] = []"
| "btoa [a] = [b64_char (a div 4), b64_char (a mod 4 * 16), 61, 61]"
| "btoa [a, b] = [b64_char (a div 4), b64_char (a mod 4 * 16 + b div 16),
     b64_char (b mod 16 * 4), 61]"
| "btoa (a # b # c # r) = b64_char (a div 4) # b64_char (a mod 4 * 16 + b div 16) #
     b64_char (b mod 16 * 4 + c div 64) # b64_char (c mod 64) # btoa r"

fun map_opt :: "('a \<Rightarrow> 'b option) \<Rightarrow> 'a list \<Rightarrow> 'b list option" where
  "map_opt f [] = Some []"
| "map_opt f (x # xs) = (case f x of None \<Rightarrow> None | Some y \<Rightarrow> map_option ((#) y) (map_opt f xs))"

fun b64_bytes :: "nat list \<Rightarrow> nat list" where
  "b64_bytes (a # b # c # d # r) = (a * 4 + b div 16) # (b mod 16 * 16 + c div 4) #
     (c mod 4 * 64 + d) # b64_bytes r"
| "b64_bytes [a, b, c] = [a * 4 + b div 16, b mod 16 * 16 + c div 4]"
| "b64_bytes [a, b] = [a * 4 + b div 16]"
| "b64_bytes _ = []"

definition is_ascii_space :: "nat \<Rightarrow> bool" where
  "is_ascii_space c \<longleftrightarrow> c = 9 \<or> c = 10 \<or> c = 12 \<or> c = 13 \<or> c = 32"

text \<open>\<open>atob\<close> (forgiving-base64 decode): \<open>None\<close> when it throws.\<close>

definition atob :: "jstr \<Rightarrow> nat list option" where
  "atob s =
     (let t = filter (\<lambda>c. \<not> is_ascii_space c) s;
          u = (if length t mod 4 = 0
               then (if 2 \<le> length t \<and> drop (length t - 2) t = [61, 61] then take (length t - 2) t
                     else if t \<noteq> [] \<and> last t = 61 then butlast t else t)
               else t)
      in if length u mod 4 = 1 then None else map_option b64_bytes (map_opt b64_value u))"

text \<open>\<open>s.replace(/=+$/u, "")\<close>.\<close>

definition strip_padding :: "jstr \<Rightarrow> jstr" where
  "strip_padding s = rev (dropWhile (\<lambda>c. c = 61) (rev s))"

definition replace_all :: "nat \<Rightarrow> nat \<Rightarrow> jstr \<Rightarrow> jstr" where
  "replace_all a b s = map (\<lambda>c. if c = a then b else c) s"

definition bytesToBase64Url :: "byte list \<Rightarrow> jstr" where
  "bytesToBase64Url bs =
     strip_padding (replace_all 47 95 (replace_all 43 45 (btoa (map unat bs))))"

definition base64UrlToBytes :: "jstr \<Rightarrow> byte list option" where
  "base64UrlToBytes value =
     map_option (map of_nat) (atob (replace_all 95 47 (replace_all 45 43 value)))"

section \<open>Keyed hashes\<close>

definition hmac :: "webcrypto \<Rightarrow> byte list \<Rightarrow> jstr \<Rightarrow> jstr" where
  "hmac wc key value = hex (wc_hmac wc key value)"

definition keyedHash :: "webcrypto \<Rightarrow> byte list \<Rightarrow> jstr \<Rightarrow> jstr" where
  "keyedHash wc key value = hmac wc key value"

text \<open>A number in a template literal: its decimal digits.\<close>

fun nat_decimal :: "nat \<Rightarrow> jstr" where
  "nat_decimal n = (if n < 10 then [48 + n] else nat_decimal (n div 10) @ [48 + n mod 10])"

declare nat_decimal.simps [simp del]

definition decimal_str :: "int \<Rightarrow> jstr" where
  "decimal_str n = (if n < 0 then 45 # nat_decimal (nat (- n)) else nat_decimal (nat n))"

definition lookupDigest :: "webcrypto \<Rightarrow> jstr \<Rightarrow> jstr \<Rightarrow> auth_keys \<Rightarrow> jstr" where
  "lookupDigest wc kind normalized keys =
     hmac wc (lookupKey keys) (decimal_str (key_version keys) @ [0] @ kind @ [0] @ normalized)"

definition otpVerifier :: "webcrypto \<Rightarrow> auth_keys \<Rightarrow> jstr \<Rightarrow> jstr \<Rightarrow> jstr \<Rightarrow> jstr \<Rightarrow> jstr" where
  "otpVerifier wc keys challengeId purpose targetDigest code =
     hmac wc (otpKey keys) (challengeId @ [0] @ purpose @ [0] @ targetDigest @ [0] @ code)"

definition verifierMatches :: "jstr \<Rightarrow> jstr \<Rightarrow> bool" where
  "verifierMatches expectedHex actualHex =
     (let expected = unhex expectedHex; actual = unhex actualHex in
      if length expected = 0 \<or> length expected \<noteq> length actual then False
      else foldl (\<lambda>difference (e, a). difference OR (e XOR a)) 0 (zip expected actual) = 0)"

section \<open>Contacts\<close>

record normalized_email =
  eml_lookup :: jstr
  eml_delivery :: jstr

definition is_local_char :: "nat \<Rightarrow> bool" where
  "is_local_char c \<longleftrightarrow> is_alpha c \<or> is_digit c \<or> c \<in> set (js ''.!#$%&*+/=?^_`{|}~-'') \<or> c = 39"

definition normalizeEmail :: "webcrypto \<Rightarrow> jstr \<Rightarrow> normalized_email option" where
  "normalizeEmail wc input =
     (let trimmed = jtrim input in
      if length trimmed = 0 \<or> length trimmed > 254 \<or> list_ex is_js_space trimmed then None
      else case index_of 64 trimmed of
        None \<Rightarrow> None
      | Some at \<Rightarrow>
          if at = 0 \<or> 64 \<in> set (drop (Suc at) trimmed) then None
          else
            let local_part = take at trimmed; domain = drop (at + 1) trimmed in
            if length local_part = 0 \<or> length local_part > 64 \<or> length domain = 0 \<or>
               length domain > 253 \<or> starts_with local_part [46] \<or> last local_part = 46 \<or>
               contains_sub local_part [46, 46] \<or> \<not> list_all is_local_char local_part
            then None
            else case wc_hostname wc domain of
              None \<Rightarrow> None
            | Some asciiDomain \<Rightarrow>
                if length asciiDomain = 0 \<or> contains_sub asciiDomain [46, 46] \<or>
                   (46 \<notin> set asciiDomain \<and> asciiDomain \<noteq> js ''localhost'')
                then None
                else Some \<lparr>eml_lookup = map ascii_lower local_part @ [64] @ asciiDomain,
                           eml_delivery = local_part @ [64] @ asciiDomain\<rparr>)"

definition is_phone_filler :: "nat \<Rightarrow> bool" where
  "is_phone_filler c \<longleftrightarrow> is_js_space c \<or> c = 40 \<or> c = 41 \<or> c = 45"

text \<open>\<open>/^1[3-9]\d{9}$/u\<close>.\<close>

definition is_mainland_mobile :: "jstr \<Rightarrow> bool" where
  "is_mainland_mobile s \<longleftrightarrow> length s = 11 \<and> list_all is_digit s \<and> s ! 0 = 49 \<and>
     51 \<le> s ! 1 \<and> s ! 1 \<le> 57"

definition normalizePhone :: "jstr \<Rightarrow> jstr option" where
  "normalizePhone input =
     (let compact = filter (\<lambda>c. \<not> is_phone_filler c) (jtrim input) in
      if length compact = 0 then None
      else
        let national = compact;
            national = (if starts_with national (js ''+'') then drop 1 national else national);
            national = (if starts_with national (js ''00'') then drop 2 national else national);
            national = (if starts_with national (js ''86'') \<and> length national = 13
                        then drop 2 national else national)
        in if \<not> is_mainland_mobile national then None else Some (js ''+86'' @ national))"

definition maskEmail :: "jstr \<Rightarrow> jstr" where
  "maskEmail delivery =
     (let at = index_of 64 delivery;
          local_part = (case at of Some (Suc k) \<Rightarrow> take (Suc k) delivery | _ \<Rightarrow> delivery);
          domain = (case at of Some (Suc k) \<Rightarrow> drop (Suc k + 1) delivery | _ \<Rightarrow> [])
      in take 1 local_part @ js ''***@'' @ domain)"

definition maskPhone :: "jstr \<Rightarrow> jstr" where
  "maskPhone e164 =
     (let national = (if starts_with e164 (js ''+86'') then drop 3 e164 else e164)
      in js ''+86 '' @ take 3 national @ js ''****'' @ drop (length national - 4) national)"

section \<open>Encryption of contacts\<close>

definition contact_aad :: "auth_keys \<Rightarrow> jstr \<Rightarrow> jstr" where
  "contact_aad keys kind = kind @ js ''|'' @ decimal_str (key_version keys)"

text \<open>\<open>n\<close> is the index of the draw that makes the initialisation vector.\<close>

definition encryptContact :: "webcrypto \<Rightarrow> nat \<Rightarrow> auth_keys \<Rightarrow> jstr \<Rightarrow> jstr \<Rightarrow> jstr" where
  "encryptContact wc n keys kind plaintext =
     (let iv = wc_random wc n 12;
          encrypted = wc_encrypt wc (encryptionKey keys) iv (contact_aad keys kind) plaintext
      in bytesToBase64Url (iv @ encrypted))"

definition decryptContact :: "webcrypto \<Rightarrow> auth_keys \<Rightarrow> jstr \<Rightarrow> jstr \<Rightarrow> jstr option" where
  "decryptContact wc keys kind encoded =
     (case base64UrlToBytes encoded of
        None \<Rightarrow> None
      | Some packed \<Rightarrow>
          if length packed < 13 + 16 then None
          else wc_decrypt wc (encryptionKey keys) (take 12 packed) (contact_aad keys kind)
                 (drop 12 packed))"

section \<open>One-time codes and tokens\<close>

text \<open>
  \<open>generateEmailOtp\<close>: draw bytes until six digits are accepted. The loop stops only when the
  platform's generator provides six bytes below 250, so it is partial: \<open>None\<close> is a run that
  never returns. The result is the code and the index of the next draw.
\<close>

partial_function (option) otp_loop :: "webcrypto \<Rightarrow> nat \<Rightarrow> jstr \<Rightarrow> (jstr \<times> nat) option" where
  "otp_loop wc n code =
     (if length code < 6
      then (let byte = (case wc_random wc n 1 of [] \<Rightarrow> 0 | b # _ \<Rightarrow> unat b) in
            otp_loop wc (Suc n) (if byte < 250 then code @ [48 + byte mod 10] else code))
      else Some (code, n))"

definition generateEmailOtp :: "webcrypto \<Rightarrow> nat \<Rightarrow> (jstr \<times> nat) option" where
  "generateEmailOtp wc n = otp_loop wc n []"

definition sessionTokenBytes :: nat where
  "sessionTokenBytes = 32"

text \<open>\<open>randomBytes\<close> is the generator injected into the service; \<open>n\<close> is the draw it makes.\<close>

definition generateSessionToken :: "(nat \<Rightarrow> nat \<Rightarrow> byte list) \<Rightarrow> nat \<Rightarrow> jstr" where
  "generateSessionToken randomBytes n = bytesToBase64Url (randomBytes n sessionTokenBytes)"

definition generateOpaqueId :: "jstr \<Rightarrow> (nat \<Rightarrow> nat \<Rightarrow> byte list) \<Rightarrow> nat \<Rightarrow> jstr" where
  "generateOpaqueId prefix randomBytes n = prefix @ js ''-'' @ hex (randomBytes n 16)"

text \<open>\<open>/^[A-Za-z0-9_-]{43}$/\<close>.\<close>

definition isSessionTokenShape :: "jstr \<Rightarrow> bool" where
  "isSessionTokenShape token \<longleftrightarrow> length token = 43 \<and>
     list_all (\<lambda>c. is_alpha c \<or> is_digit c \<or> c = 95 \<or> c = 45) token"

definition hashSessionToken :: "webcrypto \<Rightarrow> jstr \<Rightarrow> jstr" where
  "hashSessionToken wc token = hex (wc_sha256 wc token)"

section \<open>Facts about the encodings\<close>

fun sextets :: "nat list \<Rightarrow> nat list" where
  "sextets [] = []"
| "sextets [a] = [a div 4, a mod 4 * 16]"
| "sextets [a, b] = [a div 4, a mod 4 * 16 + b div 16, b mod 16 * 4]"
| "sextets (a # b # c # r) = a div 4 # (a mod 4 * 16 + b div 16) #
     (b mod 16 * 4 + c div 64) # c mod 64 # sextets r"

fun padding :: "nat list \<Rightarrow> nat" where
  "padding [] = 0"
| "padding [a] = 2"
| "padding [a, b] = 1"
| "padding (a # b # c # r) = padding r"

lemma btoa_sextets: "btoa bs = map b64_char (sextets bs) @ replicate (padding bs) 61"
  by (induction bs rule: btoa.induct) (simp_all add: numeral_2_eq_2)

lemma sextet_pair: "(a::nat) < 256 \<Longrightarrow> b < 256 \<Longrightarrow> a mod 4 * 16 + b div 16 < 64"
  by (auto simp: less_mult_imp_div_less)

lemma sextet_pair': "(b::nat) < 256 \<Longrightarrow> c < 256 \<Longrightarrow> b mod 16 * 4 + c div 64 < 64"
  by (auto simp: less_mult_imp_div_less)

lemma sextets_range: "list_all (\<lambda>b. b < 256) bs \<Longrightarrow> n \<in> set (sextets bs) \<Longrightarrow> n < 64"
proof (induction bs rule: sextets.induct)
  case (4 a b c r)
  then show ?case using sextet_pair [of a b] sextet_pair' [of b c] by auto
next
  case (3 a b)
  then show ?case using sextet_pair [of a b] by auto
qed auto

lemma b64_value_char [simp]: "n < 64 \<Longrightarrow> b64_value (b64_char n) = Some n"
  by (auto simp: b64_value_def b64_char_def is_upper_def is_lower_def is_digit_def)

lemma b64_char_plain: "n < 64 \<Longrightarrow> b64_char n \<noteq> 61 \<and> b64_char n \<noteq> 45 \<and> b64_char n \<noteq> 95 \<and>
    \<not> is_ascii_space (b64_char n)"
  by (auto simp: b64_char_def is_ascii_space_def)

lemma pack_div_mod:
  "(n::nat) < k \<Longrightarrow> (m * k + n) div k = m" "(n::nat) < k \<Longrightarrow> (m * k + n) mod k = n"
  by simp_all

lemma b64_group:
  fixes a b c :: nat
  assumes "b < 256" and "c < 256"
  shows "a div 4 * 4 + (a mod 4 * 16 + b div 16) div 16 = a"
    and "(a mod 4 * 16 + b div 16) mod 16 * 16 + (b mod 16 * 4 + c div 64) div 4 = b"
    and "(b mod 16 * 4 + c div 64) mod 4 * 64 + c mod 64 = c"
proof -
  have "b div 16 < 16" "c div 64 < 4" using assms by auto
  then show "a div 4 * 4 + (a mod 4 * 16 + b div 16) div 16 = a"
    "(a mod 4 * 16 + b div 16) mod 16 * 16 + (b mod 16 * 4 + c div 64) div 4 = b"
    "(b mod 16 * 4 + c div 64) mod 4 * 64 + c mod 64 = c"
    by (simp_all only: pack_div_mod div_mult_mod_eq)
qed

lemma b64_bytes_sextets: "list_all (\<lambda>b. b < 256) bs \<Longrightarrow> b64_bytes (sextets bs) = bs"
proof (induction bs rule: sextets.induct)
  case (3 a b)
  then show ?case using b64_group(1,2) [of b 0 a] by simp
next
  case (4 a b c r)
  then show ?case using b64_group(1,2) [of b c a] b64_group(3) [of b c] by simp
qed simp_all

lemma length_sextets: "length (sextets bs) mod 4 \<noteq> 1"
  by (induction bs rule: sextets.induct) simp_all

lemma map_opt_Some: "(\<And>x. x \<in> set xs \<Longrightarrow> f (g x) = Some x) \<Longrightarrow> map_opt f (map g xs) = Some xs"
  by (induction xs) auto

lemma strip_padding_append:
  "61 \<notin> set xs \<Longrightarrow> strip_padding (xs @ replicate k 61) = xs"
proof -
  assume "61 \<notin> set xs"
  then have "dropWhile (\<lambda>c. c = 61) (rev xs) = rev xs"
    by (cases xs rule: rev_cases) auto
  then show ?thesis by (simp add: strip_padding_def dropWhile_append)
qed

lemma replace_all_append: "replace_all a b (xs @ ys) = replace_all a b xs @ replace_all a b ys"
  by (simp add: replace_all_def)

lemma atob_plain:
  assumes "list_all (\<lambda>b. b < 256) bs"
  shows "atob (map b64_char (sextets bs)) = Some bs"
proof -
  let ?t = "map b64_char (sextets bs)"
  have r: "n < 64" if "n \<in> set (sextets bs)" for n using assms that by (rule sextets_range)
  have f: "filter (\<lambda>c. \<not> is_ascii_space c) ?t = ?t"
    using r b64_char_plain by (auto simp: filter_id_conv)
  have e: "61 \<notin> set ?t" using r b64_char_plain by fastforce
  have d: "drop (length ?t - 2) ?t \<noteq> [61, 61]" using e by (metis in_set_dropD list.set_intros(1))
  have l: "\<not> (?t \<noteq> [] \<and> last ?t = 61)" using e last_in_set by metis
  have m: "map_opt b64_value ?t = Some (sextets bs)" using r by (intro map_opt_Some) simp
  have "(if length ?t mod 4 = 0
      then (if 2 \<le> length ?t \<and> drop (length ?t - 2) ?t = [61, 61] then take (length ?t - 2) ?t
            else if ?t \<noteq> [] \<and> last ?t = 61 then butlast ?t else ?t)
      else ?t) = ?t"
    using d l by (simp only: if_False simp_thms if_cancel)
  then have "atob ?t = (if length ?t mod 4 = 1 then None else map_option b64_bytes (map_opt b64_value ?t))"
    unfolding atob_def f Let_def by (simp only:)
  then show ?thesis
    using m length_sextets [of bs] b64_bytes_sextets [OF assms] by simp
qed

lemma bytes_below_256: "list_all (\<lambda>b. b < 256) (map unat (bs :: byte list))"
  by (simp add: list_all_iff unat_byte)

lemma bytesToBase64Url_chars:
  "bytesToBase64Url bs = replace_all 47 95 (replace_all 43 45 (map b64_char (sextets (map unat bs))))"
proof -
  let ?c = "map b64_char (sextets (map unat bs))"
  have "61 \<notin> set (replace_all 47 95 (replace_all 43 45 ?c))"
    using b64_char_plain sextets_range [OF bytes_below_256] by (fastforce simp: replace_all_def)
  moreover have "replace_all 47 95 (replace_all 43 45 (replicate k 61)) = replicate k 61" for k
    by (simp add: replace_all_def)
  ultimately show ?thesis
    by (simp add: bytesToBase64Url_def btoa_sextets replace_all_append strip_padding_append)
qed

lemma base64url_roundtrip: "base64UrlToBytes (bytesToBase64Url bs) = Some bs"
proof -
  let ?c = "map b64_char (sextets (map unat bs))"
  have "replace_all 95 47 (replace_all 45 43 (replace_all 47 95 (replace_all 43 45 ?c))) = ?c"
    using b64_char_plain sextets_range [OF bytes_below_256]
    by (fastforce simp: replace_all_def intro!: map_idI)
  then have "base64UrlToBytes (bytesToBase64Url bs) = map_option (map of_nat) (atob ?c)"
    by (simp add: base64UrlToBytes_def bytesToBase64Url_chars)
  also have "\<dots> = Some bs"
    by (simp add: atob_plain [OF bytes_below_256] comp_def)
  finally show ?thesis .
qed

lemma length_sextets_3: "length bs = 3 * k + 2 \<Longrightarrow> length (sextets bs) = 4 * k + 3"
proof (induction bs arbitrary: k rule: sextets.induct)
  case (4 a b c r)
  then have "length r = 3 * (k - 1) + 2" and "0 < k" by simp_all
  with "4.IH" [of "k - 1"] show ?case by simp
qed simp_all

lemma b64_char_class: "n < 64 \<Longrightarrow> c = b64_char n \<Longrightarrow> is_alpha c \<or> is_digit c \<or> c = 43 \<or> c = 47"
  by (auto simp: b64_char_def is_alpha_def is_upper_def is_lower_def is_digit_def)

section \<open>A sample platform\<close>

text \<open>A concrete platform and key set on which the witnesses evaluate: a hash returns the bytes of its
  text, encryption appends a 16-byte tag, and the generator's third draw is a byte the one-time code
  loop refuses.\<close>

definition sample_platform :: webcrypto where
  "sample_platform = \<lparr>wc_hmac = \<lambda>_ v. map of_nat v, wc_sha256 = map of_nat,
     wc_encrypt = \<lambda>_ _ _ p. map of_nat p @ replicate 16 0,
     wc_decrypt = \<lambda>_ _ _ c. Some (map unat (take (length c - 16) c)),
     wc_random = \<lambda>n k. replicate k (if n = 2 then 255 else 7), wc_hostname = Some\<rparr>"

definition sample_keys :: auth_keys where
  "sample_keys = \<lparr>key_version = 1, lookupKey = replicate 32 1, encryptionKey = replicate 32 2,
     otpKey = replicate 32 3\<rparr>"

section \<open>What the code relies on\<close>

lemma or_eq_zero_byte: "(x :: byte) OR y = 0 \<longleftrightarrow> x = 0 \<and> y = 0"
  by (auto simp: bit_eq_iff bit_or_iff)

lemma xor_eq_zero_byte: "(x :: byte) XOR y = 0 \<longleftrightarrow> x = y"
  by (auto simp: bit_eq_iff bit_xor_iff)

lemma difference_zero:
  "length xs = length ys \<Longrightarrow>
     foldl (\<lambda>difference (e, a). difference OR (e XOR a)) d (zip xs ys) = (0 :: byte) \<longleftrightarrow>
       d = 0 \<and> xs = ys"
  by (induction xs ys arbitrary: d rule: list_induct2)
     (auto simp: or_eq_zero_byte xor_eq_zero_byte)

lemma verifier_of_hmac:
  "verifierMatches (hmac wc key value) (hmac wc key' value') \<longleftrightarrow>
     wc_hmac wc key value \<noteq> [] \<and> wc_hmac wc key value = wc_hmac wc key' value'"
  using difference_zero [of "wc_hmac wc key value" "wc_hmac wc key' value'" 0]
  by (auto simp: verifierMatches_def hmac_def Let_def)

text \<open>\<open>verifierMatches\<close> is equality of hexadecimal digests in constant-time clothing: on any two
  strings it holds exactly when they decode to the same bytes and there is at least one, the
  accumulated XOR/OR difference being zero only for equal bytes; and on two HMAC digests exactly when
  the HMACs agree.\<close>

theorem verifierMatches_exact:
  "(verifierMatches expected actual \<longleftrightarrow> unhex expected \<noteq> [] \<and> unhex expected = unhex actual) \<and>
   (verifierMatches (hmac wc key value) (hmac wc key' value') \<longleftrightarrow>
      wc_hmac wc key value \<noteq> [] \<and> wc_hmac wc key value = wc_hmac wc key' value')"
  using difference_zero [of "unhex expected" "unhex actual" 0] verifier_of_hmac
  by (auto simp: verifierMatches_def Let_def)

text \<open>A contact that was encrypted for storage decrypts to the same text under the same key set
  and kind: the packing of the initialisation vector and the ciphertext and the unpadded base64url
  text lose nothing. Relied on: AES-GCM decrypts what it encrypted, and its output carries a
  16-byte tag after at least one byte of ciphertext.\<close>

theorem contact_encryption_roundtrip:
  assumes aes: "wc_decrypt wc (encryptionKey keys) (wc_random wc n 12) (contact_aad keys kind)
       (wc_encrypt wc (encryptionKey keys) (wc_random wc n 12) (contact_aad keys kind) plain) = Some plain"
    and iv: "length (wc_random wc n 12) = 12"
    and tag: "17 \<le> length (wc_encrypt wc (encryptionKey keys) (wc_random wc n 12) (contact_aad keys kind) plain)"
  shows "decryptContact wc keys kind (encryptContact wc n keys kind plain) = Some plain"
  using assms by (simp add: decryptContact_def encryptContact_def base64url_roundtrip Let_def)

theorem contact_encryption_roundtrip_witness:
  "decryptContact sample_platform sample_keys [1] (encryptContact sample_platform 0 sample_keys [1] [97, 64, 98]) =
     Some [97, 64, 98]"
  by (rule contact_encryption_roundtrip) (simp_all add: sample_platform_def sample_keys_def)

text \<open>Every token the service mints from 32 random bytes has the shape the transport accepts,
  43 characters of the base64url alphabet without padding.\<close>

theorem session_token_shape:
  assumes "length (randomBytes n sessionTokenBytes) = 32"
  shows "isSessionTokenShape (generateSessionToken randomBytes n)"
proof -
  let ?bs = "map unat (randomBytes n sessionTokenBytes)"
  have "length (sextets ?bs) = 43" using assms length_sextets_3 [of ?bs 10] by simp
  moreover have "is_alpha c \<or> is_digit c \<or> c = 43 \<or> c = 47" if "c \<in> b64_char ` set (sextets ?bs)" for c
    using that b64_char_class sextets_range [OF bytes_below_256] by blast
  ultimately show ?thesis
    by (fastforce simp: isSessionTokenShape_def generateSessionToken_def bytesToBase64Url_chars
        replace_all_def list_all_iff)
qed

theorem session_token_shape_witness:
  "isSessionTokenShape (generateSessionToken (\<lambda>_ k. replicate k 255) 0)"
  by (rule session_token_shape) (simp add: sessionTokenBytes_def)

lemma mobile_plain:
  assumes "is_mainland_mobile s"
  shows "list_all is_digit s" and "length s = 11" and "\<exists>t. s = 49 # t"
  using assms by (cases s; simp add: is_mainland_mobile_def)+

lemma digit_not_filler: "is_digit c \<Longrightarrow> \<not> is_phone_filler c \<and> \<not> is_js_space c"
  by (auto simp: is_digit_def is_phone_filler_def is_js_space_def)

lemma jtrim_no_space: "list_all (\<lambda>c. \<not> is_js_space c) s \<Longrightarrow> jtrim s = s"
proof (cases "s = []")
  case False
  assume a: "list_all (\<lambda>c. \<not> is_js_space c) s"
  have "dropWhile is_js_space s = s" using False a by (intro dropWhile_hd_false) (auto simp: list_all_iff)
  moreover have "dropWhile is_js_space (rev s) = rev s"
    using False a by (intro dropWhile_hd_false) (auto simp: list_all_iff hd_rev)
  ultimately show ?thesis by (simp add: jtrim_def)
qed simp

lemma js_ascii [simp]:
  "js ''+86'' = [43, 56, 54]" "js ''+'' = [43]" "js ''00'' = [48, 48]" "js ''86'' = [56, 54]"
  by (simp_all add: js_def)

lemma normalizePhone_canonical:
  assumes "is_mainland_mobile national"
  shows "normalizePhone (js ''+86'' @ national) = Some (js ''+86'' @ national)"
proof -
  let ?p = "js ''+86'' @ national"
  note m = mobile_plain [OF assms]
  have s: "list_all (\<lambda>c. \<not> is_js_space c) ?p"
    using m(1) digit_not_filler by (auto simp: list_all_iff is_js_space_def)
  have f: "filter (\<lambda>c. \<not> is_phone_filler c) ?p = ?p"
    using m(1) digit_not_filler
    by (auto simp: filter_id_conv list_all_iff is_phone_filler_def is_js_space_def)
  show ?thesis
    using m(2) assms unfolding normalizePhone_def jtrim_no_space [OF s] f Let_def by simp
qed

text \<open>A phone number is stored in one form only: what \<open>normalizePhone\<close> returns is \<open>+86\<close> and a
  mainland mobile number of eleven digits starting \<open>13\<close> to \<open>19\<close>, normalising it again returns it
  unchanged, and its mask shows the first three and last four digits and nothing between.\<close>

theorem normalizePhone_normal_form:
  assumes "normalizePhone input = Some phone"
  shows "(\<exists>national. phone = js ''+86'' @ national \<and> is_mainland_mobile national \<and>
            maskPhone phone = js ''+86 '' @ take 3 national @ js ''****'' @ drop 7 national) \<and>
         normalizePhone phone = Some phone"
proof -
  obtain national where p: "phone = js ''+86'' @ national" and m: "is_mainland_mobile national"
    using assms by (auto simp: normalizePhone_def Let_def split: if_splits)
  have "maskPhone phone = js ''+86 '' @ take 3 national @ js ''****'' @ drop 7 national"
    using mobile_plain(2) [OF m] p by (simp add: maskPhone_def)
  with p m normalizePhone_canonical show ?thesis by blast
qed

theorem normalizePhone_normal_form_witness:
  "normalizePhone (js ''0086 (138) 0013-8000'') = Some (js ''+8613800138000'') \<and>
   normalizePhone (js ''+8613800138000'') = Some (js ''+8613800138000'')"
proof -
  have n: "normalizePhone (js ''0086 (138) 0013-8000'') = Some (js ''+8613800138000'')"
    by (simp add: normalizePhone_def jtrim_def is_js_space_def is_phone_filler_def js_def
        is_mainland_mobile_def is_digit_def Let_def)
  show ?thesis using n normalizePhone_normal_form [OF n] by blast
qed

section \<open>The one-time code loop\<close>

definition otp_byte :: "webcrypto \<Rightarrow> nat \<Rightarrow> nat" where
  "otp_byte wc n = (case wc_random wc n 1 of [] \<Rightarrow> 0 | b # _ \<Rightarrow> unat b)"

lemma otp_loop_step: "length code < 6 \<Longrightarrow> otp_loop wc n code =
    otp_loop wc (Suc n) (if otp_byte wc n < 250 then code @ [48 + otp_byte wc n mod 10] else code)"
  by (subst otp_loop.simps) (simp add: otp_byte_def Let_def)

lemma otp_loop_done: "\<not> length code < 6 \<Longrightarrow> otp_loop wc n code = Some (code, n)"
  by (subst otp_loop.simps) simp

lemma is_digit_mod: "is_digit (48 + b mod 10)"
  by (simp add: is_digit_def)

lemma otp_loop_result:
  assumes "6 \<le> length code + length (filter (\<lambda>i. otp_byte wc i < 250) [n..<n + k])"
    and "length code \<le> 6" and "list_all is_digit code"
  shows "\<exists>c m. otp_loop wc n code = Some (c, m) \<and> length c = 6 \<and> list_all is_digit c \<and> m \<le> n + k"
  using assms
proof (induction k arbitrary: n code)
  case 0
  then show ?case by (auto simp: otp_loop_done)
next
  case (Suc k)
  show ?case
  proof (cases "length code < 6")
    case True
    let ?b = "otp_byte wc n"
    let ?code = "if ?b < 250 then code @ [48 + ?b mod 10] else code"
    have "[n..<n + Suc k] = n # [Suc n..<Suc n + k]" by (simp add: upt_conv_Cons del: upt_Suc)
    then have "6 \<le> length ?code + length (filter (\<lambda>i. otp_byte wc i < 250) [Suc n..<Suc n + k])"
      using Suc.prems(1) by (auto split: if_splits)
    moreover have "length ?code \<le> 6" using True by simp
    moreover have "list_all is_digit ?code" using Suc.prems(3) is_digit_mod by simp
    ultimately have "\<exists>c m. otp_loop wc (Suc n) ?code = Some (c, m) \<and> length c = 6 \<and>
        list_all is_digit c \<and> m \<le> Suc n + k"
      by (rule Suc.IH)
    then show ?thesis using True by (simp only: otp_loop_step) auto
  next
    case False
    then show ?thesis using Suc.prems by (auto simp: otp_loop_done)
  qed
qed

text \<open>\<open>generateEmailOtp\<close> terminates with exactly six decimal digits as soon as the platform's
  generator has produced six bytes below 250 among \<open>k\<close> consecutive draws, and it makes at most
  \<open>k\<close> draws.\<close>

theorem generateEmailOtp_returns:
  assumes "6 \<le> length (filter (\<lambda>i. otp_byte wc i < 250) [n..<n + k])"
  shows "\<exists>code m. generateEmailOtp wc n = Some (code, m) \<and> length code = 6 \<and>
           list_all is_digit code \<and> m \<le> n + k"
  using otp_loop_result [of "[]" wc n k] assms by (simp add: generateEmailOtp_def)

theorem generateEmailOtp_returns_witness:
  "\<exists>code m. generateEmailOtp sample_platform 0 = Some (code, m) \<and> length code = 6 \<and> m \<le> 7"
proof -
  have "6 \<le> length (filter (\<lambda>i. otp_byte sample_platform i < 250) [0..<0 + 7])"
    by (simp add: otp_byte_def sample_platform_def upt_rec)
  from generateEmailOtp_returns [OF this] show ?thesis by auto
qed

end
