(* ===== verification/AuthPort.thy ===== *)
theory AuthPort
  imports Prelude
begin

text \<open>
  The persistence interface of community authentication
  (\<open>services/api/src/modules/community/application/auth/auth-port.ts\<close>): the stored rows as
  records and one authentication transaction (\<open>AuthUnitOfWork\<close>) as a record of operations over
  an abstract store \<open>'s\<close>. A reading operation is a function of the store, a writing one returns
  the store it leaves.

  ISO-8601 timestamps (\<open>Date.prototype.toISOString\<close>) are their epoch milliseconds: the code only
  writes them with \<open>toISOString\<close> and only reads them back with \<open>new Date(..).getTime()\<close> or
  compares two of them. String literal unions are datatypes; \<open>null\<close> is \<open>None\<close>.
\<close>

type_synonym iso = int

datatype auth_channel = Email | Phone
datatype auth_purpose = Sign_in | Register | Link | Replace | Reauthenticate
datatype verification_mode = Local_capture | Simulated | Provider
datatype auth_environment = Development | Production
datatype user_status = Active | Suspended
datatype otp_strategy = Application_otp | Provider_generated
datatype delivery_state = Delivery_pending | Delivery_accepted | Delivery_failed | Delivery_unknown
datatype handoff_purpose = Register_confirm | Reauth

record stored_user =
  usr_id :: jstr
  usr_handle :: jstr
  usr_displayName :: jstr
  usr_status :: user_status

record stored_identity =
  idn_id :: jstr
  idn_userId :: jstr
  idn_kind :: auth_channel
  idn_lookupDigest :: jstr
  idn_ciphertext :: jstr
  idn_lookupKeyVersion :: int
  idn_verificationMode :: verification_mode
  idn_environment :: auth_environment
  idn_version :: int
  idn_verifiedAt :: iso

record stored_challenge =
  chl_id :: jstr
  chl_channel :: auth_channel
  chl_purpose :: auth_purpose
  chl_targetDigest :: jstr
  chl_ciphertext :: jstr
  chl_verifier :: "jstr option"
  chl_strategy :: otp_strategy
  chl_providerMode :: verification_mode
  chl_environment :: auth_environment
  chl_userId :: "jstr option"
  chl_sessionHash :: "jstr option"
  chl_continuationHash :: jstr
  chl_expectedVersion :: "int option"
  chl_reauthHash :: "jstr option"
  chl_providerCorrelation :: "jstr option"
  chl_expiresAt :: iso
  chl_attempts :: int
  chl_resendAvailableAt :: iso
  chl_supersededAt :: "iso option"
  chl_completedAt :: "iso option"
  chl_invalidatedAt :: "iso option"
  chl_deliveryState :: delivery_state
  chl_idempotencyHash :: jstr
  chl_createdAt :: iso

record stored_handoff =
  hnd_id :: jstr
  hnd_tokenHash :: jstr
  hnd_purpose :: handoff_purpose
  hnd_channel :: auth_channel
  hnd_targetDigest :: jstr
  hnd_ciphertext :: jstr
  hnd_providerMode :: verification_mode
  hnd_environment :: auth_environment
  hnd_userId :: "jstr option"
  hnd_sessionHash :: "jstr option"
  hnd_expectedVersion :: "int option"
  hnd_expiresAt :: iso
  hnd_consumedAt :: "iso option"

record stored_receipt =
  rcp_keyHash :: jstr
  rcp_userId :: jstr
  rcp_sessionId :: jstr
  rcp_sessionTokenHash :: jstr
  rcp_purpose :: jstr
  rcp_originSessionId :: jstr
  rcp_closedAt :: "iso option"

record locked_session =
  lck_id :: jstr
  lck_tokenHash :: jstr
  lck_userId :: jstr
  lck_expiresAt :: iso
  lck_revokedAt :: "iso option"

record stored_session =
  ssn_id :: jstr
  ssn_tokenHash :: jstr
  ssn_userId :: jstr
  ssn_issuedAt :: iso
  ssn_expiresAt :: iso
  ssn_authEnvironment :: auth_environment
  ssn_authChannel :: auth_channel

record stored_audit =
  aud_id :: jstr
  aud_userId :: "jstr option"
  aud_action :: jstr
  aud_atIso :: iso

record challenge_filter =
  flt_targetDigest :: jstr
  flt_purpose :: auth_purpose
  flt_channel :: auth_channel

datatype insert_user_result = User_ok | Handle_conflict
datatype insert_result = Insert_ok | Insert_conflict
datatype replace_result = Replace_ok | Replace_stale | Replace_conflict
datatype delete_result = Delete_ok | Delete_stale | Delete_missing | Delete_last_factor
datatype consume_result = Consume_ok | Consume_consumed | Consume_missing

text \<open>\<open>interface AuthUnitOfWork\<close>: the operations of one transaction.\<close>

record 's auth_uow =
  findUser :: "jstr \<Rightarrow> 's \<Rightarrow> stored_user option"
  findIdentity :: "auth_channel \<Rightarrow> jstr \<Rightarrow> 's \<Rightarrow> stored_identity option"
  listIdentities :: "jstr \<Rightarrow> 's \<Rightarrow> stored_identity list"
  insertUser :: "stored_user \<Rightarrow> 's \<Rightarrow> insert_user_result \<times> 's"
  insertIdentity :: "stored_identity \<Rightarrow> 's \<Rightarrow> insert_result \<times> 's"
  replaceIdentity :: "stored_identity \<Rightarrow> int \<Rightarrow> 's \<Rightarrow> replace_result \<times> 's"
  deleteIdentity :: "jstr \<Rightarrow> auth_channel \<Rightarrow> int \<Rightarrow> 's \<Rightarrow> delete_result \<times> 's"
  lockUser :: "jstr \<Rightarrow> 's \<Rightarrow> stored_user option"
  lockDigest :: "jstr \<Rightarrow> 's \<Rightarrow> 's"
  insertChallenge :: "stored_challenge \<Rightarrow> 's \<Rightarrow> insert_result \<times> 's"
  findChallenge :: "jstr \<Rightarrow> 's \<Rightarrow> stored_challenge option"
  findChallengeByIdempotency :: "jstr \<Rightarrow> 's \<Rightarrow> stored_challenge option"
  saveChallenge :: "stored_challenge \<Rightarrow> 's \<Rightarrow> 's"
  openChallenge :: "challenge_filter \<Rightarrow> 's \<Rightarrow> stored_challenge option"
  failureCount :: "jstr \<Rightarrow> jstr \<Rightarrow> iso \<Rightarrow> 's \<Rightarrow> nat"
  addFailure :: "jstr \<Rightarrow> jstr \<Rightarrow> iso \<Rightarrow> 's \<Rightarrow> nat \<times> 's"
  sendCount :: "jstr \<Rightarrow> jstr \<Rightarrow> iso \<Rightarrow> 's \<Rightarrow> nat"
  addSend :: "jstr \<Rightarrow> jstr \<Rightarrow> iso \<Rightarrow> 's \<Rightarrow> 's"
  insertHandoff :: "stored_handoff \<Rightarrow> 's \<Rightarrow> 's"
  findHandoff :: "jstr \<Rightarrow> 's \<Rightarrow> stored_handoff option"
  consumeHandoff :: "jstr \<Rightarrow> iso \<Rightarrow> 's \<Rightarrow> consume_result \<times> 's"
  insertReceipt :: "stored_receipt \<Rightarrow> 's \<Rightarrow> insert_result \<times> 's"
  findReceipt :: "jstr \<Rightarrow> 's \<Rightarrow> stored_receipt option"
  lockSession :: "jstr \<Rightarrow> 's \<Rightarrow> locked_session option"
  lockReceipt :: "jstr \<Rightarrow> 's \<Rightarrow> stored_receipt option"
  lockReceiptsForSession :: "jstr \<Rightarrow> 's \<Rightarrow> stored_receipt list"
  closeReceipt :: "jstr \<Rightarrow> iso \<Rightarrow> 's \<Rightarrow> 's"
  updateReceiptSession :: "jstr \<Rightarrow> jstr \<Rightarrow> jstr \<Rightarrow> 's \<Rightarrow> 's"
  insertSession :: "stored_session \<Rightarrow> 's \<Rightarrow> 's"
  revokeSession :: "jstr \<Rightarrow> iso \<Rightarrow> 's \<Rightarrow> bool \<times> 's"
  revokeOtherSessions :: "jstr \<Rightarrow> jstr \<Rightarrow> iso \<Rightarrow> 's \<Rightarrow> 's"
  invalidateUserProofs :: "jstr \<Rightarrow> iso \<Rightarrow> 's \<Rightarrow> 's"
  insertAudit :: "stored_audit \<Rightarrow> 's \<Rightarrow> 's"
  findSessionUser :: "jstr \<Rightarrow> iso \<Rightarrow> 's \<Rightarrow> stored_user option"
  hasOpenFactorChange :: "jstr \<Rightarrow> auth_channel \<Rightarrow> 's \<Rightarrow> bool"
  countUsers :: "'s \<Rightarrow> nat"

end
