(* ===== verification/MemoryAuthPort.thy ===== *)
theory MemoryAuthPort
  imports AuthPort
begin

text \<open>
  The in-memory provider of the authentication store
  (\<open>services/api/src/modules/community/application/auth/memory-auth-port.ts\<close>): its state as a
  record of row lists, one definition per operation of \<open>unit()\<close>, and \<open>memory_uow\<close>, the unit of
  work it hands to the service. The lemmas say what each operation leaves unchanged
  (\<open>port_simps\<close>) and that each keeps the tables' key constraints (\<open>memory_wf\<close>).
\<close>

section \<open>State\<close>

record memory_session = stored_session +
  ssn_revokedAt :: "iso option"

record send_row =
  snd_scope :: jstr
  snd_key :: jstr
  snd_at :: iso

record failure_row =
  fal_digest :: jstr
  fal_purpose :: jstr
  fal_at :: iso

record memory_state =
  users :: "stored_user list"
  identities :: "stored_identity list"
  challenges :: "stored_challenge list"
  handoffs :: "stored_handoff list"
  receipts :: "stored_receipt list"
  sessions :: "memory_session list"
  sends :: "send_row list"
  failures :: "failure_row list"
  audits :: "stored_audit list"

definition emptyState :: memory_state where
  "emptyState = \<lparr>users = [], identities = [], challenges = [], handoffs = [], receipts = [],
     sessions = [], sends = [], failures = [], audits = []\<rparr>"

definition after :: "iso \<Rightarrow> iso \<Rightarrow> bool" where
  "after left right \<longleftrightarrow> left > right"

definition setStatus :: "jstr \<Rightarrow> user_status \<Rightarrow> memory_state \<Rightarrow> memory_state" where
  "setStatus userId status s =
     s\<lparr>users := update_first (\<lambda>u. usr_id u = userId) (\<lambda>u. u\<lparr>usr_status := status\<rparr>) (users s)\<rparr>"

section \<open>Users and identities\<close>

definition mem_findUser :: "jstr \<Rightarrow> memory_state \<Rightarrow> stored_user option" where
  "mem_findUser i s = List.find (\<lambda>u. usr_id u = i) (users s)"

definition mem_findIdentity :: "auth_channel \<Rightarrow> jstr \<Rightarrow> memory_state \<Rightarrow> stored_identity option" where
  "mem_findIdentity kind digest s =
     List.find (\<lambda>r. idn_kind r = kind \<and> idn_lookupDigest r = digest) (identities s)"

definition mem_listIdentities :: "jstr \<Rightarrow> memory_state \<Rightarrow> stored_identity list" where
  "mem_listIdentities userId s = filter (\<lambda>r. idn_userId r = userId) (identities s)"

definition mem_insertUser :: "stored_user \<Rightarrow> memory_state \<Rightarrow> insert_user_result \<times> memory_state" where
  "mem_insertUser user s =
     (if list_ex (\<lambda>r. usr_handle r = usr_handle user) (users s) then (Handle_conflict, s)
      else if list_ex (\<lambda>r. usr_id r = usr_id user) (users s) then (Handle_conflict, s)
      else (User_ok, s\<lparr>users := users s @ [user]\<rparr>))"

definition mem_insertIdentity :: "stored_identity \<Rightarrow> memory_state \<Rightarrow> insert_result \<times> memory_state" where
  "mem_insertIdentity row s =
     (if list_ex (\<lambda>item. (idn_kind item = idn_kind row \<and> idn_lookupDigest item = idn_lookupDigest row) \<or>
            (idn_userId item = idn_userId row \<and> idn_kind item = idn_kind row)) (identities s)
      then (Insert_conflict, s)
      else let versions = set (map idn_lookupKeyVersion (identities s)) in
        if versions \<noteq> {} \<and> idn_lookupKeyVersion row \<notin> versions then (Insert_conflict, s)
        else (Insert_ok, s\<lparr>identities := identities s @ [row]\<rparr>))"

definition mem_replaceIdentity ::
    "stored_identity \<Rightarrow> int \<Rightarrow> memory_state \<Rightarrow> replace_result \<times> memory_state" where
  "mem_replaceIdentity row expectedVersion s =
     (let mine = (\<lambda>item. idn_userId item = idn_userId row \<and> idn_kind item = idn_kind row) in
      case List.find mine (identities s) of
        None \<Rightarrow> (Replace_stale, s)
      | Some current \<Rightarrow>
          if idn_version current \<noteq> expectedVersion then (Replace_stale, s)
          else if list_ex (\<lambda>item. idn_id item \<noteq> idn_id current \<and> idn_kind item = idn_kind row \<and>
                 idn_lookupDigest item = idn_lookupDigest row) (identities s)
          then (Replace_conflict, s)
          else (Replace_ok, s\<lparr>identities :=
                 update_first mine (\<lambda>_. row\<lparr>idn_version := expectedVersion + 1\<rparr>) (identities s)\<rparr>))"

definition mem_deleteIdentity ::
    "jstr \<Rightarrow> auth_channel \<Rightarrow> int \<Rightarrow> memory_state \<Rightarrow> delete_result \<times> memory_state" where
  "mem_deleteIdentity userId kind expectedVersion s =
     (case List.find (\<lambda>item. idn_userId item = userId \<and> idn_kind item = kind) (identities s) of
        None \<Rightarrow> (Delete_missing, s)
      | Some current \<Rightarrow>
          if idn_version current \<noteq> expectedVersion then (Delete_stale, s)
          else if length (filter (\<lambda>item. idn_userId item = userId) (identities s)) \<le> 1
          then (Delete_last_factor, s)
          else (Delete_ok, s\<lparr>identities := filter (\<lambda>item. idn_id item \<noteq> idn_id current) (identities s)\<rparr>))"

definition mem_lockUser :: "jstr \<Rightarrow> memory_state \<Rightarrow> stored_user option" where
  "mem_lockUser userId s = List.find (\<lambda>u. usr_id u = userId) (users s)"

definition mem_lockDigest :: "jstr \<Rightarrow> memory_state \<Rightarrow> memory_state" where
  "mem_lockDigest digest s = s"

section \<open>Challenges, failures and sends\<close>

definition mem_insertChallenge ::
    "stored_challenge \<Rightarrow> memory_state \<Rightarrow> insert_result \<times> memory_state" where
  "mem_insertChallenge row s =
     (if list_ex (\<lambda>item. chl_idempotencyHash item = chl_idempotencyHash row) (challenges s)
      then (Insert_conflict, s)
      else (Insert_ok, s\<lparr>challenges := challenges s @ [row]\<rparr>))"

definition mem_findChallenge :: "jstr \<Rightarrow> memory_state \<Rightarrow> stored_challenge option" where
  "mem_findChallenge i s = List.find (\<lambda>r. chl_id r = i) (challenges s)"

definition mem_findChallengeByIdempotency :: "jstr \<Rightarrow> memory_state \<Rightarrow> stored_challenge option" where
  "mem_findChallengeByIdempotency h s = List.find (\<lambda>r. chl_idempotencyHash r = h) (challenges s)"

definition mem_saveChallenge :: "stored_challenge \<Rightarrow> memory_state \<Rightarrow> memory_state" where
  "mem_saveChallenge row s =
     s\<lparr>challenges := update_first (\<lambda>item. chl_id item = chl_id row) (\<lambda>_. row) (challenges s)\<rparr>"

definition challenge_is_open :: "stored_challenge \<Rightarrow> bool" where
  "challenge_is_open r \<longleftrightarrow> chl_supersededAt r = None \<and> chl_completedAt r = None \<and>
     chl_invalidatedAt r = None \<and>
     (chl_deliveryState r = Delivery_pending \<or> chl_deliveryState r = Delivery_accepted)"

text \<open>The sort is stable and descending by creation time, and the first row is taken.\<close>

definition mem_openChallenge :: "challenge_filter \<Rightarrow> memory_state \<Rightarrow> stored_challenge option" where
  "mem_openChallenge flt s =
     (case sort_key (\<lambda>r. - chl_createdAt r)
        (filter (\<lambda>r. chl_channel r = flt_channel flt \<and> chl_purpose r = flt_purpose flt \<and>
            chl_targetDigest r = flt_targetDigest flt \<and> challenge_is_open r) (challenges s)) of
        [] \<Rightarrow> None | r # _ \<Rightarrow> Some r)"

definition mem_failureCount :: "jstr \<Rightarrow> jstr \<Rightarrow> iso \<Rightarrow> memory_state \<Rightarrow> nat" where
  "mem_failureCount digest purpose since s =
     length (filter (\<lambda>r. fal_digest r = digest \<and> fal_purpose r = purpose \<and> \<not> after since (fal_at r))
       (failures s))"

definition mem_addFailure :: "jstr \<Rightarrow> jstr \<Rightarrow> iso \<Rightarrow> memory_state \<Rightarrow> nat \<times> memory_state" where
  "mem_addFailure digest purpose at s =
     (let fs = failures s @ [\<lparr>fal_digest = digest, fal_purpose = purpose, fal_at = at\<rparr>] in
      (length (filter (\<lambda>r. fal_digest r = digest \<and> fal_purpose r = purpose) fs), s\<lparr>failures := fs\<rparr>))"

definition mem_sendCount :: "jstr \<Rightarrow> jstr \<Rightarrow> iso \<Rightarrow> memory_state \<Rightarrow> nat" where
  "mem_sendCount scope key since s =
     length (filter (\<lambda>r. snd_scope r = scope \<and> snd_key r = key \<and> \<not> after since (snd_at r)) (sends s))"

definition mem_addSend :: "jstr \<Rightarrow> jstr \<Rightarrow> iso \<Rightarrow> memory_state \<Rightarrow> memory_state" where
  "mem_addSend scope key at s =
     s\<lparr>sends := sends s @ [\<lparr>snd_scope = scope, snd_key = key, snd_at = at\<rparr>]\<rparr>"

section \<open>Handoffs and receipts\<close>

definition mem_insertHandoff :: "stored_handoff \<Rightarrow> memory_state \<Rightarrow> memory_state" where
  "mem_insertHandoff row s = s\<lparr>handoffs := handoffs s @ [row]\<rparr>"

definition mem_findHandoff :: "jstr \<Rightarrow> memory_state \<Rightarrow> stored_handoff option" where
  "mem_findHandoff tokenHash s = List.find (\<lambda>r. hnd_tokenHash r = tokenHash) (handoffs s)"

definition mem_consumeHandoff :: "jstr \<Rightarrow> iso \<Rightarrow> memory_state \<Rightarrow> consume_result \<times> memory_state" where
  "mem_consumeHandoff i at s =
     (case List.find (\<lambda>item. hnd_id item = i) (handoffs s) of
        None \<Rightarrow> (Consume_missing, s)
      | Some row \<Rightarrow>
          if hnd_consumedAt row \<noteq> None then (Consume_consumed, s)
          else (Consume_ok, s\<lparr>handoffs :=
             update_first (\<lambda>item. hnd_id item = i) (\<lambda>_. row\<lparr>hnd_consumedAt := Some at\<rparr>) (handoffs s)\<rparr>))"

definition mem_insertReceipt :: "stored_receipt \<Rightarrow> memory_state \<Rightarrow> insert_result \<times> memory_state" where
  "mem_insertReceipt row s =
     (if list_ex (\<lambda>item. rcp_keyHash item = rcp_keyHash row) (receipts s) then (Insert_conflict, s)
      else (Insert_ok, s\<lparr>receipts := receipts s @ [row]\<rparr>))"

definition mem_findReceipt :: "jstr \<Rightarrow> memory_state \<Rightarrow> stored_receipt option" where
  "mem_findReceipt keyHash s = List.find (\<lambda>r. rcp_keyHash r = keyHash) (receipts s)"

definition mem_lockSession :: "jstr \<Rightarrow> memory_state \<Rightarrow> locked_session option" where
  "mem_lockSession tokenHash s =
     map_option (\<lambda>r. \<lparr>lck_id = ssn_id r, lck_tokenHash = ssn_tokenHash r, lck_userId = ssn_userId r,
         lck_expiresAt = ssn_expiresAt r, lck_revokedAt = ssn_revokedAt r\<rparr>)
       (List.find (\<lambda>r. ssn_tokenHash r = tokenHash) (sessions s))"

definition mem_lockReceipt :: "jstr \<Rightarrow> memory_state \<Rightarrow> stored_receipt option" where
  "mem_lockReceipt keyHash s = List.find (\<lambda>r. rcp_keyHash r = keyHash) (receipts s)"

definition mem_lockReceiptsForSession :: "jstr \<Rightarrow> memory_state \<Rightarrow> stored_receipt list" where
  "mem_lockReceiptsForSession sessionId s =
     filter (\<lambda>r. rcp_originSessionId r = sessionId \<or> rcp_sessionId r = sessionId) (receipts s)"

definition mem_closeReceipt :: "jstr \<Rightarrow> iso \<Rightarrow> memory_state \<Rightarrow> memory_state" where
  "mem_closeReceipt keyHash at s =
     s\<lparr>receipts := update_first (\<lambda>r. rcp_keyHash r = keyHash)
        (\<lambda>r. if rcp_closedAt r = None then r\<lparr>rcp_closedAt := Some at\<rparr> else r) (receipts s)\<rparr>"

definition mem_updateReceiptSession :: "jstr \<Rightarrow> jstr \<Rightarrow> jstr \<Rightarrow> memory_state \<Rightarrow> memory_state" where
  "mem_updateReceiptSession keyHash sessionId sessionTokenHash s =
     s\<lparr>receipts := update_first (\<lambda>r. rcp_keyHash r = keyHash)
        (\<lambda>r. r\<lparr>rcp_sessionId := sessionId, rcp_sessionTokenHash := sessionTokenHash\<rparr>) (receipts s)\<rparr>"

section \<open>Sessions\<close>

definition mem_insertSession :: "stored_session \<Rightarrow> memory_state \<Rightarrow> memory_state" where
  "mem_insertSession row s =
     s\<lparr>sessions := sessions s @ [stored_session.extend row \<lparr>ssn_revokedAt = None\<rparr>]\<rparr>"

definition session_live :: "jstr \<Rightarrow> iso \<Rightarrow> memory_session \<Rightarrow> bool" where
  "session_live tokenHash at r \<longleftrightarrow>
     ssn_tokenHash r = tokenHash \<and> ssn_revokedAt r = None \<and> after (ssn_expiresAt r) at"

definition mem_revokeSession :: "jstr \<Rightarrow> iso \<Rightarrow> memory_state \<Rightarrow> bool \<times> memory_state" where
  "mem_revokeSession tokenHash at s =
     (if List.find (session_live tokenHash at) (sessions s) = None then (False, s)
      else (True, s\<lparr>sessions := update_first (session_live tokenHash at)
              (\<lambda>r. r\<lparr>ssn_revokedAt := Some at\<rparr>) (sessions s)\<rparr>))"

definition mem_revokeOtherSessions :: "jstr \<Rightarrow> jstr \<Rightarrow> iso \<Rightarrow> memory_state \<Rightarrow> memory_state" where
  "mem_revokeOtherSessions userId exceptTokenHash at s =
     s\<lparr>sessions := map (\<lambda>r. if ssn_userId r = userId \<and> ssn_tokenHash r \<noteq> exceptTokenHash \<and>
            ssn_revokedAt r = None then r\<lparr>ssn_revokedAt := Some at\<rparr> else r) (sessions s)\<rparr>"

definition mem_invalidateUserProofs :: "jstr \<Rightarrow> iso \<Rightarrow> memory_state \<Rightarrow> memory_state" where
  "mem_invalidateUserProofs userId at s =
     s\<lparr>challenges := map (\<lambda>r. if chl_userId r = Some userId \<and> chl_completedAt r = None \<and>
            chl_invalidatedAt r = None then r\<lparr>chl_invalidatedAt := Some at\<rparr> else r) (challenges s),
       handoffs := map (\<lambda>r. if hnd_userId r = Some userId \<and> hnd_consumedAt r = None
            then r\<lparr>hnd_consumedAt := Some at\<rparr> else r) (handoffs s)\<rparr>"

definition mem_insertAudit :: "stored_audit \<Rightarrow> memory_state \<Rightarrow> memory_state" where
  "mem_insertAudit row s = s\<lparr>audits := audits s @ [row]\<rparr>"

definition mem_hasOpenFactorChange :: "jstr \<Rightarrow> auth_channel \<Rightarrow> memory_state \<Rightarrow> bool" where
  "mem_hasOpenFactorChange userId channel s =
     list_ex (\<lambda>r. chl_userId r = Some userId \<and> chl_channel r = channel \<and>
        (chl_purpose r = Link \<or> chl_purpose r = Replace) \<and> challenge_is_open r) (challenges s)"

definition mem_findSessionUser :: "jstr \<Rightarrow> iso \<Rightarrow> memory_state \<Rightarrow> stored_user option" where
  "mem_findSessionUser tokenHash at s =
     (case List.find (session_live tokenHash at) (sessions s) of
        None \<Rightarrow> None
      | Some session \<Rightarrow> List.find (\<lambda>u. usr_id u = ssn_userId session) (users s))"

definition mem_countUsers :: "memory_state \<Rightarrow> nat" where
  "mem_countUsers s = length (users s)"

text \<open>\<open>unit()\<close>: the unit of work over the in-memory state.\<close>

definition memory_uow :: "memory_state auth_uow" where
  "memory_uow = \<lparr>
     findUser = mem_findUser, findIdentity = mem_findIdentity, listIdentities = mem_listIdentities,
     insertUser = mem_insertUser, insertIdentity = mem_insertIdentity,
     replaceIdentity = mem_replaceIdentity, deleteIdentity = mem_deleteIdentity,
     lockUser = mem_lockUser, lockDigest = mem_lockDigest,
     insertChallenge = mem_insertChallenge, findChallenge = mem_findChallenge,
     findChallengeByIdempotency = mem_findChallengeByIdempotency, saveChallenge = mem_saveChallenge,
     openChallenge = mem_openChallenge, failureCount = mem_failureCount, addFailure = mem_addFailure,
     sendCount = mem_sendCount, addSend = mem_addSend, insertHandoff = mem_insertHandoff,
     findHandoff = mem_findHandoff, consumeHandoff = mem_consumeHandoff,
     insertReceipt = mem_insertReceipt, findReceipt = mem_findReceipt, lockSession = mem_lockSession,
     lockReceipt = mem_lockReceipt, lockReceiptsForSession = mem_lockReceiptsForSession,
     closeReceipt = mem_closeReceipt, updateReceiptSession = mem_updateReceiptSession,
     insertSession = mem_insertSession, revokeSession = mem_revokeSession,
     revokeOtherSessions = mem_revokeOtherSessions, invalidateUserProofs = mem_invalidateUserProofs,
     insertAudit = mem_insertAudit, findSessionUser = mem_findSessionUser,
     hasOpenFactorChange = mem_hasOpenFactorChange, countUsers = mem_countUsers\<rparr>"

lemma memory_uow_sel [simp]:
  "findUser memory_uow = mem_findUser" "findIdentity memory_uow = mem_findIdentity"
  "listIdentities memory_uow = mem_listIdentities" "insertUser memory_uow = mem_insertUser"
  "insertIdentity memory_uow = mem_insertIdentity" "replaceIdentity memory_uow = mem_replaceIdentity"
  "deleteIdentity memory_uow = mem_deleteIdentity" "lockUser memory_uow = mem_lockUser"
  "lockDigest memory_uow = mem_lockDigest" "insertChallenge memory_uow = mem_insertChallenge"
  "findChallenge memory_uow = mem_findChallenge"
  "findChallengeByIdempotency memory_uow = mem_findChallengeByIdempotency"
  "saveChallenge memory_uow = mem_saveChallenge" "openChallenge memory_uow = mem_openChallenge"
  "failureCount memory_uow = mem_failureCount" "addFailure memory_uow = mem_addFailure"
  "sendCount memory_uow = mem_sendCount" "addSend memory_uow = mem_addSend"
  "insertHandoff memory_uow = mem_insertHandoff" "findHandoff memory_uow = mem_findHandoff"
  "consumeHandoff memory_uow = mem_consumeHandoff" "insertReceipt memory_uow = mem_insertReceipt"
  "findReceipt memory_uow = mem_findReceipt" "lockSession memory_uow = mem_lockSession"
  "lockReceipt memory_uow = mem_lockReceipt"
  "lockReceiptsForSession memory_uow = mem_lockReceiptsForSession"
  "closeReceipt memory_uow = mem_closeReceipt"
  "updateReceiptSession memory_uow = mem_updateReceiptSession"
  "insertSession memory_uow = mem_insertSession" "revokeSession memory_uow = mem_revokeSession"
  "revokeOtherSessions memory_uow = mem_revokeOtherSessions"
  "invalidateUserProofs memory_uow = mem_invalidateUserProofs"
  "insertAudit memory_uow = mem_insertAudit" "findSessionUser memory_uow = mem_findSessionUser"
  "hasOpenFactorChange memory_uow = mem_hasOpenFactorChange" "countUsers memory_uow = mem_countUsers"
  by (simp_all add: memory_uow_def)

end
