(* ===== verification/AuthService.thy ===== *)
theory AuthService
  imports ContactCrypto MemoryAuthPort
begin

text \<open>
  \<open>CommunityAuthService\<close>
  (\<open>services/api/src/modules/community/application/auth/community-auth-service.ts\<close>): sending and
  verifying one-time codes, registration, sign-in, binding and unbinding of login factors, sign-out.

  Every definition is over an arbitrary unit of work \<open>tx\<close>, as the class is over
  \<open>CommunityAuthPort\<close>. The state (\<open>auth_world\<close>) is the store behind the port and the number of
  draws made from the random generators. A transaction body yields an \<open>outcome\<close>: a returned
  \<open>AuthResult\<close> (\<open>Ok\<close> or \<open>Fail\<close>), a thrown \<open>AuthRollback\<close>, another thrown error, or a run that does
  not return (the OTP loop); \<open>transactional\<close> commits or rolls back as the port does. The clock
  reading of an operation is its argument \<open>at\<close>.

  Parameters: the platform (\<open>webcrypto\<close>), the delivery providers, and the validation of a public
  profile by the contracts' schema.
\<close>

section \<open>Types\<close>

datatype auth_reason =
    AUTH_CHANNEL_UNAVAILABLE | AUTH_INVALID_IDENTIFIER | AUTH_INVALID_DISPLAY_NAME
  | AUTH_AGREEMENT_REQUIRED | AUTH_RATE_LIMITED | AUTH_CODE_EXHAUSTED | AUTH_CODE_INVALID
  | AUTH_CODE_EXPIRED | AUTH_CODE_SUPERSEDED | AUTH_PROOF_REJECTED | AUTH_IDENTIFIER_CONFLICT
  | AUTH_LAST_FACTOR | AUTH_STALE_VERSION | AUTH_ACCOUNT_SUSPENDED | AUTH_UNAUTHENTICATED
  | AUTH_DELIVERY_FAILED | AUTH_DELIVERY_UNKNOWN | AUTH_PROVENANCE_REJECTED | AUTH_NOT_CONFIGURED

definition OTP_TTL_MS :: int where "OTP_TTL_MS = 5 * 60 * 1000"
definition RESEND_MS :: int where "RESEND_MS = 60 * 1000"
definition MAX_ATTEMPTS :: nat where "MAX_ATTEMPTS = 5"
definition WINDOW_MS :: int where "WINDOW_MS = 15 * 60 * 1000"
definition TARGET_SENDS :: nat where "TARGET_SENDS = 8"
definition SOURCE_SENDS :: nat where "SOURCE_SENDS = 20"
definition GLOBAL_SENDS :: nat where "GLOBAL_SENDS = 200"
definition HANDOFF_TTL_MS :: int where "HANDOFF_TTL_MS = 10 * 60 * 1000"
definition HANDLE_ALPHABET :: jstr where "HANDLE_ALPHABET = js ''abcdefghjkmnpqrstuvwxyz23456789''"

datatype service_error = Handle_unassigned | Attempts_bounded | Profile_invalid | Provider_threw

datatype 'a outcome =
    Ok 'a
  | Fail auth_reason
  | Rollback auth_reason
  | Raise service_error
  | Diverge

record 's auth_world =
  store :: 's
  draws :: nat

type_synonym ('s, 'a) work = "'s auth_world \<Rightarrow> 'a outcome \<times> 's auth_world"

definition obind :: "'a outcome \<times> 'w \<Rightarrow> ('a \<Rightarrow> 'w \<Rightarrow> 'b outcome \<times> 'w) \<Rightarrow> 'b outcome \<times> 'w" where
  "obind r f = (case r of (out, w) \<Rightarrow>
     (case out of Ok v \<Rightarrow> f v w | Fail e \<Rightarrow> (Fail e, w) | Rollback e \<Rightarrow> (Rollback e, w)
      | Raise e \<Rightarrow> (Raise e, w) | Diverge \<Rightarrow> (Diverge, w)))"

lemma obind_simps [simp]:
  "obind (Ok v, w) f = f v w"
  "obind (Fail e, w) f = (Fail e, w)"
  "obind (Rollback e, w) f = (Rollback e, w)"
  "obind (Raise x, w) f = (Raise x, w)"
  "obind (Diverge, w) f = (Diverge, w)"
  by (simp_all add: obind_def)

lemma obind_OkE:
  assumes "obind r f = (Ok v, w')"
  obtains a w where "r = (Ok a, w)" and "f a w = (Ok v, w')"
  using assms by (cases r; cases "fst r") (auto simp: obind_def)

datatype delivery_outcome = Dlv_accepted jstr | Dlv_failed | Dlv_unknown
datatype delivery_reply = Replied delivery_outcome | Threw jstr
datatype check_reply = Check_pass | Check_fail | Check_malformed | Check_unknown | Check_threw

record auth_delivery =
  sendEmail :: "jstr \<Rightarrow> jstr \<Rightarrow> delivery_reply"
  sendPhone :: "jstr \<Rightarrow> jstr option \<Rightarrow> jstr \<Rightarrow> delivery_reply"
  checkPhone :: "jstr \<Rightarrow> jstr \<Rightarrow> jstr \<Rightarrow> check_reply"

datatype auth_profile = Full_local | Email_first

record auth_options =
  opt_environment :: auth_environment
  opt_profile :: auth_profile
  opt_keys :: auth_keys
  opt_emailMode :: verification_mode
  opt_phoneMode :: "verification_mode option"
  opt_delivery :: auth_delivery
  opt_randomBytes :: "nat \<Rightarrow> nat \<Rightarrow> byte list"
  opt_sessionTtlMs :: int
  opt_profileValid :: "stored_user \<Rightarrow> bool"

record auth_target =
  tgt_digest :: jstr
  tgt_destination :: jstr
  tgt_masked :: jstr
  tgt_ciphertext :: jstr
  tgt_userId :: "jstr option"
  tgt_sessionHash :: "jstr option"
  tgt_expectedVersion :: "int option"
  tgt_reauthHash :: "jstr option"

record challenge_accepted =
  acc_challengeId :: jstr
  acc_resendAvailableAt :: iso
  acc_maskedTarget :: jstr
  acc_continuationToken :: "jstr option"

datatype reservation =
    Replay challenge_accepted
  | Send stored_challenge jstr jstr "jstr option"

record public_profile =
  prf_id :: jstr
  prf_handle :: jstr
  prf_displayName :: jstr

record session_grant =
  grt_token :: jstr
  grt_expiresAt :: iso
  grt_profile :: public_profile

record minted = session_grant +
  mnt_sessionId :: jstr
  mnt_tokenHash :: jstr

datatype verify_value =
    Signed_in minted
  | Registration_required jstr jstr auth_channel
  | Already_registered auth_channel
  | Reauthenticated jstr

datatype factor_state = Factor_unbound | Factor_unavailable | Factor_pending | Factor_verified

record auth_factor =
  fct_channel :: auth_channel
  fct_state :: factor_state
  fct_masked :: "jstr option"
  fct_version :: int
  fct_usable :: bool

record auth_capabilities =
  cap_profile :: auth_profile
  cap_email :: bool
  cap_phone :: bool
  cap_developmentOnly :: bool

record account_security =
  acs_userId :: jstr
  acs_email :: auth_factor
  acs_phone :: auth_factor
  acs_capabilities :: auth_capabilities

text \<open>The string values of the literal types, where they enter a hashed text.\<close>

fun channel_str :: "auth_channel \<Rightarrow> jstr" where
  "channel_str Email = js ''email''"
| "channel_str Phone = js ''phone''"

fun purpose_str :: "auth_purpose \<Rightarrow> jstr" where
  "purpose_str Sign_in = js ''sign_in''"
| "purpose_str Register = js ''register''"
| "purpose_str Link = js ''link''"
| "purpose_str Replace = js ''replace''"
| "purpose_str Reauthenticate = js ''reauthenticate''"

section \<open>Transactions\<close>

definition attemptsBound :: "service_error \<Rightarrow> bool" where
  "attemptsBound e \<longleftrightarrow> e = Attempts_bounded"

text \<open>
  \<open>transactional\<close> over the port's \<open>transaction\<close>: a returned result commits whatever the body wrote,
  a \<open>Fail\<close> included; a thrown error restores the store. The random generators are not part of
  the transaction.
\<close>

definition transactional :: "('s, 'a) work \<Rightarrow> ('s, 'a) work" where
  "transactional body w =
     (case body w of (out, w') \<Rightarrow>
        (case out of
           Ok v \<Rightarrow> (Ok v, w')
         | Fail r \<Rightarrow> (Fail r, w')
         | Rollback r \<Rightarrow> (Fail r, w'\<lparr>store := store w\<rparr>)
         | Raise e \<Rightarrow> ((if attemptsBound e then Fail AUTH_CODE_EXHAUSTED else Raise e),
             w'\<lparr>store := store w\<rparr>)
         | Diverge \<Rightarrow> (Diverge, w'\<lparr>store := store w\<rparr>)))"

definition upd :: "('s \<Rightarrow> 's) \<Rightarrow> 's auth_world \<Rightarrow> 's auth_world" where
  "upd f w = w\<lparr>store := f (store w)\<rparr>"

definition drawn :: "'s auth_world \<Rightarrow> 's auth_world" where
  "drawn w = w\<lparr>draws := Suc (draws w)\<rparr>"

section \<open>Helpers\<close>

definition modeFor :: "auth_options \<Rightarrow> auth_channel \<Rightarrow> verification_mode option" where
  "modeFor opts channel = (if channel = Email then Some (opt_emailMode opts) else opt_phoneMode opts)"

definition channelAvailable :: "auth_options \<Rightarrow> auth_channel \<Rightarrow> bool" where
  "channelAvailable opts channel \<longleftrightarrow> modeFor opts channel \<noteq> None"

definition provenanceOk :: "auth_options \<Rightarrow> stored_identity \<Rightarrow> bool" where
  "provenanceOk opts identity \<longleftrightarrow> idn_environment identity = opt_environment opts \<and>
     Some (idn_verificationMode identity) = modeFor opts (idn_kind identity)"

definition challengeModeOk :: "auth_options \<Rightarrow> stored_challenge \<Rightarrow> bool" where
  "challengeModeOk opts challenge \<longleftrightarrow> chl_environment challenge = opt_environment opts \<and>
     Some (chl_providerMode challenge) = modeFor opts (chl_channel challenge)"

definition handoffModeOk :: "auth_options \<Rightarrow> stored_handoff \<Rightarrow> bool" where
  "handoffModeOk opts handoff \<longleftrightarrow> hnd_environment handoff = opt_environment opts \<and>
     Some (hnd_providerMode handoff) = modeFor opts (hnd_channel handoff)"

definition challengeFresh :: "stored_challenge \<Rightarrow> iso \<Rightarrow> bool" where
  "challengeFresh challenge at \<longleftrightarrow> chl_supersededAt challenge = None \<and>
     chl_invalidatedAt challenge = None \<and> chl_completedAt challenge = None \<and>
     chl_deliveryState challenge = Delivery_accepted \<and> chl_expiresAt challenge > at"

definition staleChallenge :: "stored_challenge \<Rightarrow> iso \<Rightarrow> auth_reason" where
  "staleChallenge challenge at =
     (if chl_supersededAt challenge \<noteq> None then AUTH_CODE_SUPERSEDED
      else if chl_expiresAt challenge \<le> at then AUTH_CODE_EXPIRED
      else AUTH_PROOF_REJECTED)"

definition receiptKey :: "webcrypto \<Rightarrow> auth_options \<Rightarrow> jstr \<Rightarrow> jstr \<Rightarrow> jstr \<Rightarrow> jstr" where
  "receiptKey wc opts idempotencyKey target purpose =
     keyedHash wc (lookupKey (opt_keys opts))
       (js ''receipt'' @ [0] @ purpose @ [0] @ target @ [0] @ idempotencyKey)"

definition generateHandle :: "auth_options \<Rightarrow> nat \<Rightarrow> jstr" where
  "generateHandle opts n =
     js ''u'' @ map (\<lambda>b. HANDLE_ALPHABET ! (unat b mod length HANDLE_ALPHABET)) (opt_randomBytes opts n 12)"

record normalized_contact =
  nrm_lookup :: jstr
  nrm_delivery :: jstr
  nrm_masked :: jstr

definition normalize :: "webcrypto \<Rightarrow> auth_channel \<Rightarrow> jstr \<Rightarrow> normalized_contact option" where
  "normalize wc channel identifier =
     (if channel = Email then
        (case normalizeEmail wc identifier of
           None \<Rightarrow> None
         | Some email \<Rightarrow> Some \<lparr>nrm_lookup = eml_lookup email, nrm_delivery = eml_delivery email,
             nrm_masked = maskEmail (eml_delivery email)\<rparr>)
      else
        (case normalizePhone identifier of
           None \<Rightarrow> None
         | Some phone \<Rightarrow> Some \<lparr>nrm_lookup = phone, nrm_delivery = phone, nrm_masked = maskPhone phone\<rparr>))"

definition mask_for :: "auth_channel \<Rightarrow> jstr \<Rightarrow> jstr" where
  "mask_for channel plain = (if channel = Email then maskEmail plain else maskPhone plain)"

definition identityFrom :: "auth_options \<Rightarrow> stored_challenge \<Rightarrow> jstr \<Rightarrow> iso \<Rightarrow> nat \<Rightarrow> stored_identity" where
  "identityFrom opts challenge userId at n =
     \<lparr>idn_id = generateOpaqueId (js ''login'') (opt_randomBytes opts) n, idn_userId = userId,
      idn_kind = chl_channel challenge, idn_lookupDigest = chl_targetDigest challenge,
      idn_ciphertext = chl_ciphertext challenge,
      idn_lookupKeyVersion = key_version (opt_keys opts),
      idn_verificationMode = chl_providerMode challenge, idn_environment = chl_environment challenge,
      idn_version = 1, idn_verifiedAt = at\<rparr>"

definition capabilities :: "auth_options \<Rightarrow> auth_capabilities" where
  "capabilities opts = \<lparr>cap_profile = opt_profile opts, cap_email = True,
     cap_phone = (opt_phoneMode opts \<noteq> None),
     cap_developmentOnly = (opt_environment opts = Development)\<rparr>"

definition codeAccepted ::
    "webcrypto \<Rightarrow> auth_options \<Rightarrow> stored_challenge \<Rightarrow> jstr \<Rightarrow> bool \<Rightarrow> bool" where
  "codeAccepted wc opts challenge code providerPassed =
     (if chl_strategy challenge = Provider_generated then providerPassed
      else case chl_verifier challenge of
        None \<Rightarrow> False
      | Some verifier \<Rightarrow> verifierMatches verifier
          (otpVerifier wc (opt_keys opts) (chl_id challenge) (purpose_str (chl_purpose challenge))
             (chl_targetDigest challenge) code))"

definition audit ::
    "'s auth_uow \<Rightarrow> auth_options \<Rightarrow> jstr \<Rightarrow> jstr \<Rightarrow> iso \<Rightarrow> 's auth_world \<Rightarrow> 's auth_world" where
  "audit tx opts userId action at w =
     drawn (upd (insertAudit tx
       \<lparr>aud_id = generateOpaqueId (js ''auth-audit'') (opt_randomBytes opts) (draws w),
        aud_userId = Some userId, aud_action = action, aud_atIso = at\<rparr>) w)"

text \<open>\<open>mapPublicUserProfile\<close>: the projection, then the schema's \<open>parse\<close>, which may throw.\<close>

definition mapPublicUserProfile :: "auth_options \<Rightarrow> stored_user \<Rightarrow> public_profile option" where
  "mapPublicUserProfile opts user =
     (if opt_profileValid opts user
      then Some \<lparr>prf_id = usr_id user, prf_handle = usr_handle user, prf_displayName = usr_displayName user\<rparr>
      else None)"

definition mint ::
    "'s auth_uow \<Rightarrow> webcrypto \<Rightarrow> auth_options \<Rightarrow> stored_user \<Rightarrow> auth_channel \<Rightarrow> iso \<Rightarrow> ('s, minted) work" where
  "mint tx wc opts user channel at w =
     (let token = generateSessionToken (opt_randomBytes opts) (draws w);
          tokenHash = hashSessionToken wc token;
          sessionId = generateOpaqueId (js ''session'') (opt_randomBytes opts) (Suc (draws w));
          expiresAt = at + opt_sessionTtlMs opts;
          w1 = drawn (drawn (upd (insertSession tx
            \<lparr>ssn_id = sessionId, ssn_tokenHash = tokenHash, ssn_userId = usr_id user, ssn_issuedAt = at,
             ssn_expiresAt = expiresAt, ssn_authEnvironment = opt_environment opts,
             ssn_authChannel = channel\<rparr>) w))
      in case mapPublicUserProfile opts user of
           None \<Rightarrow> (Raise Profile_invalid, w1)
         | Some profile \<Rightarrow> (Ok \<lparr>grt_token = token, grt_expiresAt = expiresAt, grt_profile = profile,
             mnt_sessionId = sessionId, mnt_tokenHash = tokenHash\<rparr>, w1))"

definition sealReceipt ::
    "'s auth_uow \<Rightarrow> stored_receipt \<Rightarrow> jstr \<Rightarrow> iso \<Rightarrow> 's \<Rightarrow> 's" where
  "sealReceipt tx receipt presentedHash at s =
     (let s1 = (if rcp_closedAt receipt = None then closeReceipt tx (rcp_keyHash receipt) at s else s) in
      if rcp_sessionTokenHash receipt \<noteq> presentedHash
      then snd (revokeSession tx (rcp_sessionTokenHash receipt) at s1) else s1)"

definition reissue ::
    "'s auth_uow \<Rightarrow> webcrypto \<Rightarrow> auth_options \<Rightarrow> stored_receipt \<Rightarrow> stored_user \<Rightarrow> auth_channel \<Rightarrow> iso \<Rightarrow>
       ('s, minted) work" where
  "reissue tx wc opts receipt user channel at w =
     (let bound = lockSession tx (rcp_sessionTokenHash receipt) (store w);
          locked = lockReceipt tx (rcp_keyHash receipt) (store w);
          live = (case bound of None \<Rightarrow> False
                  | Some b \<Rightarrow> lck_revokedAt b = None \<and> lck_expiresAt b > at)
      in case locked of
           None \<Rightarrow> (Rollback AUTH_PROOF_REJECTED, w)
         | Some lk \<Rightarrow>
             if rcp_closedAt lk \<noteq> None \<or> \<not> live then (Rollback AUTH_PROOF_REJECTED, w)
             else (case revokeSession tx (rcp_sessionTokenHash lk) at (store w) of (revoked, s1) \<Rightarrow>
               if \<not> revoked then (Rollback AUTH_PROOF_REJECTED, w\<lparr>store := s1\<rparr>)
               else obind (mint tx wc opts user channel at (w\<lparr>store := s1\<rparr>)) (\<lambda>session w2.
                 (Ok session, upd (updateReceiptSession tx (rcp_keyHash lk) (mnt_sessionId session)
                    (mnt_tokenHash session)) w2))))"

text \<open>The loop of \<open>insertNewUser\<close>: at most eight handles are tried.\<close>

fun insertNewUser_loop ::
    "nat \<Rightarrow> 's auth_uow \<Rightarrow> auth_options \<Rightarrow> jstr \<Rightarrow> ('s, stored_user) work" where
  "insertNewUser_loop 0 tx opts displayName w = (Raise Handle_unassigned, w)"
| "insertNewUser_loop (Suc tries) tx opts displayName w =
     (let user = \<lparr>usr_id = generateOpaqueId (js ''user'') (opt_randomBytes opts) (draws w),
            usr_handle = generateHandle opts (Suc (draws w)), usr_displayName = displayName,
            usr_status = Active\<rparr>;
          w1 = drawn (drawn w)
      in case insertUser tx user (store w1) of (result, s2) \<Rightarrow>
           if result = User_ok then (Ok user, w1\<lparr>store := s2\<rparr>)
           else insertNewUser_loop tries tx opts displayName (w1\<lparr>store := s2\<rparr>))"

definition insertNewUser :: "'s auth_uow \<Rightarrow> auth_options \<Rightarrow> jstr \<Rightarrow> ('s, stored_user) work" where
  "insertNewUser tx opts displayName w = insertNewUser_loop 8 tx opts displayName w"

definition factor_view ::
    "'s auth_uow \<Rightarrow> webcrypto \<Rightarrow> auth_options \<Rightarrow> jstr \<Rightarrow> stored_identity list \<Rightarrow> auth_channel \<Rightarrow> 's \<Rightarrow>
       auth_factor" where
  "factor_view tx wc opts userId ids channel s =
     (case List.find (\<lambda>row. idn_kind row = channel) ids of
        None \<Rightarrow> \<lparr>fct_channel = channel, fct_state = Factor_unbound, fct_masked = None,
          fct_version = 0, fct_usable = False\<rparr>
      | Some identity \<Rightarrow>
          let masked = (case decryptContact wc (opt_keys opts) (channel_str channel) (idn_ciphertext identity) of
                None \<Rightarrow> js ''***'' | Some plain \<Rightarrow> mask_for channel plain);
              state = (if \<not> channelAvailable opts channel then Factor_unavailable
                else if hasOpenFactorChange tx userId channel s then Factor_pending else Factor_verified)
          in \<lparr>fct_channel = channel, fct_state = state, fct_masked = Some masked,
              fct_version = idn_version identity, fct_usable = provenanceOk opts identity\<rparr>)"

definition accountView ::
    "'s auth_uow \<Rightarrow> webcrypto \<Rightarrow> auth_options \<Rightarrow> jstr \<Rightarrow> 's \<Rightarrow> account_security" where
  "accountView tx wc opts userId s =
     (let ids = listIdentities tx userId s in
      \<lparr>acs_userId = userId, acs_email = factor_view tx wc opts userId ids Email s,
       acs_phone = factor_view tx wc opts userId ids Phone s, acs_capabilities = capabilities opts\<rparr>)"

definition issueRegistrationHandoff ::
    "'s auth_uow \<Rightarrow> webcrypto \<Rightarrow> auth_options \<Rightarrow> stored_challenge \<Rightarrow> iso \<Rightarrow> ('s, verify_value) work" where
  "issueRegistrationHandoff tx wc opts challenge at w =
     (let token = generateSessionToken (opt_randomBytes opts) (draws w);
          w1 = drawn (drawn (upd (insertHandoff tx
            \<lparr>hnd_id = generateOpaqueId (js ''handoff'') (opt_randomBytes opts) (Suc (draws w)),
             hnd_tokenHash = hashSessionToken wc token, hnd_purpose = Register_confirm,
             hnd_channel = chl_channel challenge, hnd_targetDigest = chl_targetDigest challenge,
             hnd_ciphertext = chl_ciphertext challenge, hnd_providerMode = chl_providerMode challenge,
             hnd_environment = chl_environment challenge, hnd_userId = None, hnd_sessionHash = None,
             hnd_expectedVersion = None, hnd_expiresAt = at + HANDOFF_TTL_MS, hnd_consumedAt = None\<rparr>) w));
          plain = decryptContact wc (opt_keys opts) (channel_str (chl_channel challenge)) (chl_ciphertext challenge)
      in (Ok (Registration_required token
            (case plain of None \<Rightarrow> js ''***'' | Some p \<Rightarrow> mask_for (chl_channel challenge) p)
            (chl_channel challenge)), w1))"

end
