(* ===== verification/AuthOperations.thy ===== *)
theory AuthOperations
  imports AuthService
begin

text \<open>
  The public operations of \<open>CommunityAuthService\<close>
  (\<open>services/api/src/modules/community/application/auth/community-auth-service.ts\<close>) and the
  transaction bodies they run. An operation that runs several transactions runs them in the code's
  order, and a result that is not \<open>Ok\<close> ends it.
\<close>

section \<open>Sending a code\<close>

definition find_session_user ::
    "'s auth_uow \<Rightarrow> jstr \<Rightarrow> iso \<Rightarrow> ('s, (stored_user \<times> jstr) option) work" where
  "find_session_user tx sessionHash at w =
     (case findSessionUser tx sessionHash at (store w) of
        None \<Rightarrow> (Fail AUTH_UNAUTHENTICATED, w)
      | Some user \<Rightarrow> (Ok (Some (user, sessionHash)), w))"

definition optionalSession ::
    "'s auth_uow \<Rightarrow> webcrypto \<Rightarrow> jstr option \<Rightarrow> iso \<Rightarrow> ('s, (stored_user \<times> jstr) option) work" where
  "optionalSession tx wc token at w =
     (case token of
        None \<Rightarrow> (Ok None, w)
      | Some t \<Rightarrow> transactional (find_session_user tx (hashSessionToken wc t) at) w)"

text \<open>The branch of \<open>resolveTarget\<close> for a re-authentication: the stored factor is the target.\<close>

definition reauthenticate_target ::
    "'s auth_uow \<Rightarrow> webcrypto \<Rightarrow> auth_options \<Rightarrow> auth_channel \<Rightarrow> stored_user \<Rightarrow> jstr \<Rightarrow> ('s, auth_target) work" where
  "reauthenticate_target tx wc opts channel user sessionHash w =
     (case List.find (\<lambda>row. idn_kind row = channel) (listIdentities tx (usr_id user) (store w)) of
        None \<Rightarrow> (Fail AUTH_INVALID_IDENTIFIER, w)
      | Some identity \<Rightarrow>
          if \<not> provenanceOk opts identity then (Fail AUTH_INVALID_IDENTIFIER, w)
          else case decryptContact wc (opt_keys opts) (channel_str channel) (idn_ciphertext identity) of
            None \<Rightarrow> (Fail AUTH_PROOF_REJECTED, w)
          | Some destination \<Rightarrow>
              (Ok \<lparr>tgt_digest = idn_lookupDigest identity, tgt_destination = destination,
                 tgt_masked = mask_for channel destination, tgt_ciphertext = idn_ciphertext identity,
                 tgt_userId = Some (usr_id user), tgt_sessionHash = Some sessionHash,
                 tgt_expectedVersion = Some (idn_version identity), tgt_reauthHash = None\<rparr>, w))"

definition load_handoff :: "'s auth_uow \<Rightarrow> jstr \<Rightarrow> ('s, stored_handoff) work" where
  "load_handoff tx reauthHash w =
     (case findHandoff tx reauthHash (store w) of
        None \<Rightarrow> (Fail AUTH_PROOF_REJECTED, w) | Some row \<Rightarrow> (Ok row, w))"

definition needs_session :: "auth_purpose \<Rightarrow> bool" where
  "needs_session purpose \<longleftrightarrow> purpose = Reauthenticate \<or> purpose = Link \<or> purpose = Replace"

text \<open>The re-authentication a link or replace code must present, checked before the code is sent.\<close>

definition check_reauth ::
    "'s auth_uow \<Rightarrow> webcrypto \<Rightarrow> auth_purpose \<Rightarrow> jstr option \<Rightarrow> (stored_user \<times> jstr) option \<Rightarrow> iso \<Rightarrow>
       ('s, jstr option) work" where
  "check_reauth tx wc purpose reauthToken session at w =
     (if purpose = Link \<or> purpose = Replace then
        (case (session, reauthToken) of
           (Some (user, sessionHash), Some token) \<Rightarrow>
             (let reauthHash = hashSessionToken wc token in
              obind (transactional (load_handoff tx reauthHash) w) (\<lambda>reauth w1.
                if hnd_purpose reauth \<noteq> Reauth \<or> hnd_userId reauth \<noteq> Some (usr_id user) \<or>
                   hnd_sessionHash reauth \<noteq> Some sessionHash \<or> hnd_consumedAt reauth \<noteq> None \<or>
                   hnd_expiresAt reauth \<le> at
                then (Fail AUTH_PROOF_REJECTED, w1) else (Ok (Some reauthHash), w1)))
         | _ \<Rightarrow> (Fail AUTH_PROOF_REJECTED, w))
      else (Ok None, w))"

definition resolveTarget ::
    "'s auth_uow \<Rightarrow> webcrypto \<Rightarrow> auth_options \<Rightarrow> auth_channel \<Rightarrow> auth_purpose \<Rightarrow> jstr option \<Rightarrow> jstr option \<Rightarrow>
       (stored_user \<times> jstr) option \<Rightarrow> iso \<Rightarrow> ('s, auth_target) work" where
  "resolveTarget tx wc opts channel purpose identifier reauthToken session at w =
     (if needs_session purpose \<and> session = None then (Fail AUTH_UNAUTHENTICATED, w)
      else if needs_session purpose \<and> usr_status (fst (the session)) \<noteq> Active
      then (Fail AUTH_ACCOUNT_SUSPENDED, w)
      else if purpose = Reauthenticate
      then transactional (reauthenticate_target tx wc opts channel (fst (the session)) (snd (the session))) w
      else case normalize wc channel (case identifier of None \<Rightarrow> [] | Some i \<Rightarrow> i) of
        None \<Rightarrow> (Fail AUTH_INVALID_IDENTIFIER, w)
      | Some normalized \<Rightarrow>
          obind (check_reauth tx wc purpose reauthToken session at w) (\<lambda>reauthHash w1.
            (Ok \<lparr>tgt_digest = lookupDigest wc (channel_str channel) (nrm_lookup normalized) (opt_keys opts),
               tgt_destination = nrm_delivery normalized, tgt_masked = nrm_masked normalized,
               tgt_ciphertext = encryptContact wc (draws w1) (opt_keys opts) (channel_str channel)
                 (nrm_delivery normalized),
               tgt_userId = map_option (\<lambda>s. usr_id (fst s)) session,
               tgt_sessionHash = map_option snd session, tgt_expectedVersion = None,
               tgt_reauthHash = reauthHash\<rparr>, drawn w1)))"

definition replay_of :: "stored_challenge \<Rightarrow> auth_target \<Rightarrow> reservation" where
  "replay_of challenge target = Replay \<lparr>acc_challengeId = chl_id challenge,
     acc_resendAvailableAt = chl_resendAvailableAt challenge, acc_maskedTarget = tgt_masked target,
     acc_continuationToken = None\<rparr>"

definition send_hash :: "webcrypto \<Rightarrow> auth_options \<Rightarrow> auth_channel \<Rightarrow> auth_purpose \<Rightarrow> jstr \<Rightarrow> auth_target \<Rightarrow> jstr" where
  "send_hash wc opts channel purpose idempotencyKey target =
     keyedHash wc (lookupKey (opt_keys opts))
       (js ''send'' @ [0] @ purpose_str purpose @ [0] @ channel_str channel @ [0] @ tgt_digest target @
        [0] @ idempotencyKey @ [0] @ (case tgt_sessionHash target of None \<Rightarrow> [] | Some h \<Rightarrow> h))"

definition source_hash :: "webcrypto \<Rightarrow> auth_options \<Rightarrow> jstr \<Rightarrow> jstr" where
  "source_hash wc opts source = keyedHash wc (lookupKey (opt_keys opts)) (js ''source'' @ [0] @ source)"

definition sends_exhausted :: "'s auth_uow \<Rightarrow> jstr \<Rightarrow> jstr \<Rightarrow> iso \<Rightarrow> 's \<Rightarrow> bool" where
  "sends_exhausted tx digest sourceKey since s \<longleftrightarrow>
     sendCount tx (js ''target'') digest since s \<ge> TARGET_SENDS \<or>
     sendCount tx (js ''source'') sourceKey since s \<ge> SOURCE_SENDS \<or>
     sendCount tx (js ''global'') (js ''global'') since s \<ge> GLOBAL_SENDS"

text \<open>The code of a new challenge: generated here unless a phone provider generates its own.\<close>

definition make_code :: "webcrypto \<Rightarrow> otp_strategy \<Rightarrow> nat \<Rightarrow> (jstr option \<times> nat) option" where
  "make_code wc strategy n =
     (if strategy = Application_otp
      then map_option (\<lambda>(code, m). (Some code, m)) (generateEmailOtp wc n) else Some (None, n))"

definition new_challenge ::
    "webcrypto \<Rightarrow> auth_options \<Rightarrow> auth_channel \<Rightarrow> auth_purpose \<Rightarrow> auth_target \<Rightarrow> iso \<Rightarrow> verification_mode \<Rightarrow>
       otp_strategy \<Rightarrow> jstr option \<Rightarrow> jstr \<Rightarrow> jstr \<Rightarrow> jstr \<Rightarrow> stored_challenge" where
  "new_challenge wc opts channel purpose target at mode strategy code cid continuationToken idempotencyHash =
     \<lparr>chl_id = cid, chl_channel = channel, chl_purpose = purpose, chl_targetDigest = tgt_digest target,
      chl_ciphertext = tgt_ciphertext target,
      chl_verifier = map_option (otpVerifier wc (opt_keys opts) cid (purpose_str purpose) (tgt_digest target)) code,
      chl_strategy = strategy, chl_providerMode = mode, chl_environment = opt_environment opts,
      chl_userId = tgt_userId target, chl_sessionHash = tgt_sessionHash target,
      chl_continuationHash = hashSessionToken wc continuationToken,
      chl_expectedVersion = tgt_expectedVersion target, chl_reauthHash = tgt_reauthHash target,
      chl_providerCorrelation = None, chl_expiresAt = at + OTP_TTL_MS, chl_attempts = 0,
      chl_resendAvailableAt = at + RESEND_MS, chl_supersededAt = None, chl_completedAt = None,
      chl_invalidatedAt = None, chl_deliveryState = Delivery_pending,
      chl_idempotencyHash = idempotencyHash, chl_createdAt = at\<rparr>"

text \<open>The last part of \<open>reserve\<close>: make the challenge, insert it and count the send.\<close>

definition reserve_insert ::
    "'s auth_uow \<Rightarrow> webcrypto \<Rightarrow> auth_options \<Rightarrow> auth_channel \<Rightarrow> auth_purpose \<Rightarrow> auth_target \<Rightarrow> iso \<Rightarrow> jstr \<Rightarrow>
       jstr \<Rightarrow> ('s, reservation) work" where
  "reserve_insert tx wc opts channel purpose target at idempotencyHash sourceKey w =
     (case modeFor opts channel of
        None \<Rightarrow> (Fail AUTH_CHANNEL_UNAVAILABLE, w)
      | Some mode \<Rightarrow>
          let strategy = (if mode = Provider \<and> channel = Phone then Provider_generated else Application_otp) in
          case make_code wc strategy (draws w) of
            None \<Rightarrow> (Diverge, w)
          | Some (code, n) \<Rightarrow>
              let cid = generateOpaqueId (js ''challenge'') (opt_randomBytes opts) n;
                  continuationToken = generateSessionToken (opt_randomBytes opts) (Suc n);
                  challenge = new_challenge wc opts channel purpose target at mode strategy code cid
                    continuationToken idempotencyHash;
                  w1 = w\<lparr>draws := Suc (Suc n)\<rparr>
              in case insertChallenge tx challenge (store w1) of (inserted, s2) \<Rightarrow>
                let w2 = w1\<lparr>store := s2\<rparr> in
                if inserted = Insert_conflict
                then (case findChallengeByIdempotency tx idempotencyHash s2 of
                        None \<Rightarrow> (Fail AUTH_RATE_LIMITED, w2)
                      | Some raced \<Rightarrow> (Ok (replay_of raced target), w2))
                else (Ok (Send challenge continuationToken (tgt_destination target) code),
                  upd (addSend tx (js ''global'') (js ''global'') at)
                    (upd (addSend tx (js ''source'') sourceKey at)
                      (upd (addSend tx (js ''target'') (tgt_digest target) at) w2))))"

definition reserve ::
    "'s auth_uow \<Rightarrow> webcrypto \<Rightarrow> auth_options \<Rightarrow> auth_channel \<Rightarrow> auth_purpose \<Rightarrow> jstr \<Rightarrow> jstr \<Rightarrow> auth_target \<Rightarrow>
       iso \<Rightarrow> ('s, reservation) work" where
  "reserve tx wc opts channel purpose idempotencyKey source target at w =
     (let since = at - WINDOW_MS;
          idempotencyHash = send_hash wc opts channel purpose idempotencyKey target
      in if failureCount tx (tgt_digest target) (purpose_str purpose) since (store w) \<ge> MAX_ATTEMPTS
         then (Fail AUTH_CODE_EXHAUSTED, w)
         else case findChallengeByIdempotency tx idempotencyHash (store w) of
           Some existing \<Rightarrow>
             (if chl_deliveryState existing = Delivery_failed then (Fail AUTH_DELIVERY_FAILED, w)
              else if chl_deliveryState existing = Delivery_unknown then (Fail AUTH_DELIVERY_UNKNOWN, w)
              else (Ok (replay_of existing target), w))
         | None \<Rightarrow>
             let open_challenge = openChallenge tx \<lparr>flt_targetDigest = tgt_digest target,
                   flt_purpose = purpose, flt_channel = channel\<rparr> (store w);
                 sourceKey = source_hash wc opts source
             in case open_challenge of
                  Some op \<Rightarrow>
                    if chl_resendAvailableAt op > at then (Ok (replay_of op target), w)
                    else if sends_exhausted tx (tgt_digest target) sourceKey since (store w)
                    then (Fail AUTH_RATE_LIMITED, w)
                    else reserve_insert tx wc opts channel purpose target at idempotencyHash sourceKey
                      (upd (saveChallenge tx (op\<lparr>chl_supersededAt := Some at\<rparr>)) w)
                | None \<Rightarrow>
                    if sends_exhausted tx (tgt_digest target) sourceKey since (store w)
                    then (Fail AUTH_RATE_LIMITED, w)
                    else reserve_insert tx wc opts channel purpose target at idempotencyHash sourceKey w)"

text \<open>\<open>deliver\<close>: a thrown timeout or abort is an unknown outcome, any other error a failure.\<close>

definition deliver :: "auth_options \<Rightarrow> stored_challenge \<Rightarrow> jstr \<Rightarrow> jstr option \<Rightarrow> delivery_outcome" where
  "deliver opts challenge destination code =
     (case (if chl_channel challenge = Email
            then (case code of None \<Rightarrow> Replied Dlv_failed
                  | Some c \<Rightarrow> sendEmail (opt_delivery opts) destination c)
            else sendPhone (opt_delivery opts) destination code (chl_id challenge)) of
        Replied outcome \<Rightarrow> outcome
      | Threw name \<Rightarrow> if name = js ''TimeoutError'' \<or> name = js ''AbortError'' then Dlv_unknown else Dlv_failed)"

text \<open>The transaction of \<open>sendChallenge\<close> that records the delivery outcome.\<close>

definition mark_delivery :: "'s auth_uow \<Rightarrow> jstr \<Rightarrow> delivery_outcome \<Rightarrow> ('s, delivery_outcome) work" where
  "mark_delivery tx cid delivery w =
     (case findChallenge tx cid (store w) of
        None \<Rightarrow> (Fail AUTH_PROOF_REJECTED, w)
      | Some current \<Rightarrow>
          (Ok delivery, upd (saveChallenge tx (current\<lparr>
             chl_deliveryState := (case delivery of Dlv_accepted _ \<Rightarrow> Delivery_accepted
               | Dlv_failed \<Rightarrow> Delivery_failed | Dlv_unknown \<Rightarrow> Delivery_unknown),
             chl_providerCorrelation := (case delivery of Dlv_accepted c \<Rightarrow> Some c
               | _ \<Rightarrow> chl_providerCorrelation current),
             chl_invalidatedAt := (case delivery of Dlv_accepted _ \<Rightarrow> None
               | _ \<Rightarrow> Some (chl_createdAt current)),
             chl_resendAvailableAt := (case delivery of Dlv_accepted _ \<Rightarrow> chl_resendAvailableAt current
               | _ \<Rightarrow> chl_createdAt current)\<rparr>)) w))"

definition sendChallenge ::
    "'s auth_uow \<Rightarrow> webcrypto \<Rightarrow> auth_options \<Rightarrow> auth_channel \<Rightarrow> auth_purpose \<Rightarrow> jstr option \<Rightarrow> jstr \<Rightarrow> jstr \<Rightarrow>
       jstr option \<Rightarrow> jstr option \<Rightarrow> iso \<Rightarrow> ('s, challenge_accepted) work" where
  "sendChallenge tx wc opts channel purpose identifier idempotencyKey source sessionToken reauthToken at w =
     (if \<not> channelAvailable opts channel then (Fail AUTH_CHANNEL_UNAVAILABLE, w)
      else obind (optionalSession tx wc sessionToken at w) (\<lambda>session w1.
        obind (resolveTarget tx wc opts channel purpose identifier reauthToken session at w1) (\<lambda>target w2.
          obind (transactional (reserve tx wc opts channel purpose idempotencyKey source target at) w2)
            (\<lambda>reserved w3. case reserved of
               Replay accepted \<Rightarrow> (Ok accepted, w3)
             | Send challenge continuationToken destination code \<Rightarrow>
                 obind (transactional (mark_delivery tx (chl_id challenge)
                     (deliver opts challenge destination code)) w3)
                   (\<lambda>marked w4. case marked of
                      Dlv_unknown \<Rightarrow> (Fail AUTH_DELIVERY_UNKNOWN, w4)
                    | Dlv_failed \<Rightarrow> (Fail AUTH_DELIVERY_FAILED, w4)
                    | Dlv_accepted _ \<Rightarrow> (Ok \<lparr>acc_challengeId = chl_id challenge,
                        acc_resendAvailableAt = chl_resendAvailableAt challenge,
                        acc_maskedTarget = tgt_masked target,
                        acc_continuationToken = Some continuationToken\<rparr>, w4))))))"

section \<open>Verifying a code\<close>

definition load_challenge :: "'s auth_uow \<Rightarrow> jstr \<Rightarrow> jstr \<Rightarrow> ('s, stored_challenge) work" where
  "load_challenge tx challengeId continuationHash w =
     (case findChallenge tx challengeId (store w) of
        None \<Rightarrow> (Fail AUTH_PROOF_REJECTED, w)
      | Some challenge \<Rightarrow>
          if chl_continuationHash challenge \<noteq> continuationHash then (Fail AUTH_PROOF_REJECTED, w)
          else (Ok challenge, w))"

text \<open>The provider's answer for a provider-generated code, asked outside any transaction.\<close>

definition provider_check :: "webcrypto \<Rightarrow> auth_options \<Rightarrow> stored_challenge \<Rightarrow> jstr \<Rightarrow> ('s, bool) work" where
  "provider_check wc opts challenge code w =
     (if chl_strategy challenge = Provider_generated then
        (case decryptContact wc (opt_keys opts) (channel_str (chl_channel challenge)) (chl_ciphertext challenge) of
           None \<Rightarrow> (Fail AUTH_PROOF_REJECTED, w)
         | Some plain \<Rightarrow>
             (case checkPhone (opt_delivery opts) plain code (chl_id challenge) of
                Check_unknown \<Rightarrow> (Fail AUTH_DELIVERY_UNKNOWN, w)
              | Check_malformed \<Rightarrow> (Fail AUTH_DELIVERY_FAILED, w)
              | Check_pass \<Rightarrow> (Ok True, w)
              | Check_fail \<Rightarrow> (Ok False, w)
              | Check_threw \<Rightarrow> (Raise Provider_threw, w)))
      else (Ok False, w))"

definition attempts_exhausted :: "'s auth_uow \<Rightarrow> stored_challenge \<Rightarrow> iso \<Rightarrow> 's \<Rightarrow> bool" where
  "attempts_exhausted tx challenge at s \<longleftrightarrow>
     failureCount tx (chl_targetDigest challenge) (purpose_str (chl_purpose challenge)) (at - WINDOW_MS) s
       \<ge> MAX_ATTEMPTS \<or> chl_attempts challenge \<ge> int MAX_ATTEMPTS"

text \<open>A wrong code: the attempt and the failure are recorded, and stay recorded.\<close>

definition record_failure :: "'s auth_uow \<Rightarrow> stored_challenge \<Rightarrow> iso \<Rightarrow> 's \<Rightarrow> 's" where
  "record_failure tx challenge at s =
     snd (addFailure tx (chl_targetDigest challenge) (purpose_str (chl_purpose challenge)) at
       (saveChallenge tx (challenge\<lparr>chl_attempts := chl_attempts challenge + 1\<rparr>) s))"

definition receipt_row :: "jstr \<Rightarrow> jstr \<Rightarrow> minted \<Rightarrow> jstr \<Rightarrow> stored_receipt" where
  "receipt_row key userId session purpose =
     \<lparr>rcp_keyHash = key, rcp_userId = userId, rcp_sessionId = mnt_sessionId session,
      rcp_sessionTokenHash = mnt_tokenHash session, rcp_purpose = purpose,
      rcp_originSessionId = mnt_sessionId session, rcp_closedAt = None\<rparr>"

text \<open>The end of \<open>finishVerify\<close> for a known identity: mint, receipt, audit.\<close>

definition sign_in_user ::
    "'s auth_uow \<Rightarrow> webcrypto \<Rightarrow> auth_options \<Rightarrow> stored_challenge \<Rightarrow> stored_identity \<Rightarrow> jstr \<Rightarrow> iso \<Rightarrow>
       ('s, verify_value) work" where
  "sign_in_user tx wc opts challenge identity key at w =
     (case lockUser tx (idn_userId identity) (store w) of
        None \<Rightarrow> (Fail AUTH_ACCOUNT_SUSPENDED, w)
      | Some user \<Rightarrow>
          if usr_status user \<noteq> Active then (Fail AUTH_ACCOUNT_SUSPENDED, w)
          else if \<not> provenanceOk opts identity then (Fail AUTH_PROVENANCE_REJECTED, w)
          else obind (mint tx wc opts user (chl_channel challenge) at w) (\<lambda>session w1.
            (Ok (Signed_in session),
             audit tx opts (usr_id user) (js ''sign_in'') at
               (upd (\<lambda>s. snd (insertReceipt tx (receipt_row key (usr_id user) session (js ''sign_in'')) s)) w1))))"

text \<open>The part of \<open>finishVerify\<close> after the code was accepted.\<close>

definition verify_accepted ::
    "'s auth_uow \<Rightarrow> webcrypto \<Rightarrow> auth_options \<Rightarrow> stored_challenge \<Rightarrow> jstr \<Rightarrow> iso \<Rightarrow> ('s, verify_value) work" where
  "verify_accepted tx wc opts challenge key at w =
     (if chl_purpose challenge = Link \<or> chl_purpose challenge = Replace then (Fail AUTH_PROOF_REJECTED, w)
      else let w1 = upd (saveChallenge tx (challenge\<lparr>chl_completedAt := Some at\<rparr>)) w in
        if chl_purpose challenge = Reauthenticate then
          (if chl_userId challenge = None \<or> chl_sessionHash challenge = None
           then (Fail AUTH_PROOF_REJECTED, w1)
           else let token = generateSessionToken (opt_randomBytes opts) (draws w1) in
             (Ok (Reauthenticated token), drawn (drawn (upd (insertHandoff tx
                \<lparr>hnd_id = generateOpaqueId (js ''handoff'') (opt_randomBytes opts) (Suc (draws w1)),
                 hnd_tokenHash = hashSessionToken wc token, hnd_purpose = Reauth,
                 hnd_channel = chl_channel challenge, hnd_targetDigest = chl_targetDigest challenge,
                 hnd_ciphertext = chl_ciphertext challenge, hnd_providerMode = chl_providerMode challenge,
                 hnd_environment = chl_environment challenge, hnd_userId = chl_userId challenge,
                 hnd_sessionHash = chl_sessionHash challenge,
                 hnd_expectedVersion = chl_expectedVersion challenge,
                 hnd_expiresAt = at + HANDOFF_TTL_MS, hnd_consumedAt = None\<rparr>) w1))))
        else let identity = findIdentity tx (chl_channel challenge) (chl_targetDigest challenge) (store w1) in
          if chl_purpose challenge = Register then
            (if identity \<noteq> None then (Ok (Already_registered (chl_channel challenge)), w1)
             else issueRegistrationHandoff tx wc opts challenge at w1)
          else (case identity of
                  None \<Rightarrow> issueRegistrationHandoff tx wc opts challenge at w1
                | Some row \<Rightarrow> sign_in_user tx wc opts challenge row key at w1))"

definition finishVerify ::
    "'s auth_uow \<Rightarrow> webcrypto \<Rightarrow> auth_options \<Rightarrow> jstr \<Rightarrow> jstr \<Rightarrow> jstr \<Rightarrow> jstr \<Rightarrow> bool \<Rightarrow> iso \<Rightarrow>
       ('s, verify_value) work" where
  "finishVerify tx wc opts challengeId code idempotencyKey continuationHash providerPassed at w =
     (case findChallenge tx challengeId (store w) of
        None \<Rightarrow> (Fail AUTH_PROOF_REJECTED, w)
      | Some challenge \<Rightarrow>
          if chl_continuationHash challenge \<noteq> continuationHash then (Fail AUTH_PROOF_REJECTED, w)
          else if \<not> challengeModeOk opts challenge then (Fail AUTH_PROVENANCE_REJECTED, w)
          else
            let key = receiptKey wc opts idempotencyKey (chl_targetDigest challenge)
                  (purpose_str (chl_purpose challenge));
                receipt = findReceipt tx key (store w)
            in if receipt \<noteq> None \<and> chl_purpose challenge = Sign_in then
                 (case lockUser tx (rcp_userId (the receipt)) (store w) of
                    None \<Rightarrow> (Fail AUTH_ACCOUNT_SUSPENDED, w)
                  | Some user \<Rightarrow>
                      if usr_status user \<noteq> Active then (Fail AUTH_ACCOUNT_SUSPENDED, w)
                      else obind (reissue tx wc opts (the receipt) user (chl_channel challenge) at w)
                        (\<lambda>session w1. (Ok (Signed_in session), w1)))
               else if \<not> challengeFresh challenge at then (Fail (staleChallenge challenge at), w)
               else if attempts_exhausted tx challenge at (store w) then (Fail AUTH_CODE_EXHAUSTED, w)
               else if \<not> codeAccepted wc opts challenge code providerPassed
               then (Fail AUTH_CODE_INVALID, upd (record_failure tx challenge at) w)
               else verify_accepted tx wc opts challenge key at w)"

definition verifyChallenge ::
    "'s auth_uow \<Rightarrow> webcrypto \<Rightarrow> auth_options \<Rightarrow> jstr \<Rightarrow> jstr \<Rightarrow> jstr \<Rightarrow> jstr \<Rightarrow> iso \<Rightarrow> ('s, verify_value) work" where
  "verifyChallenge tx wc opts challengeId code continuationToken idempotencyKey at w =
     (let continuationHash = hashSessionToken wc continuationToken in
      obind (transactional (load_challenge tx challengeId continuationHash) w) (\<lambda>loaded w1.
        obind (provider_check wc opts loaded code w1) (\<lambda>providerPassed w2.
          transactional (finishVerify tx wc opts challengeId code idempotencyKey continuationHash
            providerPassed at) w2)))"

section \<open>Registration\<close>

definition validDisplayName :: "jstr \<Rightarrow> bool" where
  "validDisplayName name \<longleftrightarrow> \<not> (jtrim name \<noteq> name \<or> length (jtrim name) < 1 \<or>
     length (jtrim name) > 40 \<or> 0 \<in> set (jtrim name))"

text \<open>The writes of a registration, after the handoff was accepted.\<close>

definition register_user ::
    "'s auth_uow \<Rightarrow> webcrypto \<Rightarrow> auth_options \<Rightarrow> stored_handoff \<Rightarrow> jstr \<Rightarrow> jstr \<Rightarrow> iso \<Rightarrow> ('s, minted) work" where
  "register_user tx wc opts handoff displayName key at w =
     obind (insertNewUser tx opts displayName w) (\<lambda>user w1.
       case insertIdentity tx
           \<lparr>idn_id = generateOpaqueId (js ''login'') (opt_randomBytes opts) (draws w1),
            idn_userId = usr_id user, idn_kind = hnd_channel handoff,
            idn_lookupDigest = hnd_targetDigest handoff, idn_ciphertext = hnd_ciphertext handoff,
            idn_lookupKeyVersion = key_version (opt_keys opts),
            idn_verificationMode = hnd_providerMode handoff, idn_environment = hnd_environment handoff,
            idn_version = 1, idn_verifiedAt = at\<rparr> (store w1) of (inserted, s2) \<Rightarrow>
         let w2 = drawn (w1\<lparr>store := s2\<rparr>) in
         if inserted = Insert_conflict then (Rollback AUTH_IDENTIFIER_CONFLICT, w2)
         else obind (mint tx wc opts user (hnd_channel handoff) at w2) (\<lambda>session w3.
           (Ok session, audit tx opts (usr_id user) (js ''register'') at
              (upd (\<lambda>s. snd (insertReceipt tx (receipt_row key (usr_id user) session (js ''register'')) s)) w3))))"

definition confirmRegistration_body ::
    "'s auth_uow \<Rightarrow> webcrypto \<Rightarrow> auth_options \<Rightarrow> jstr \<Rightarrow> jstr \<Rightarrow> jstr \<Rightarrow> iso \<Rightarrow> ('s, minted) work" where
  "confirmRegistration_body tx wc opts tokenHash displayName idempotencyKey at w =
     (case findHandoff tx tokenHash (store w) of
        None \<Rightarrow> (Fail AUTH_PROOF_REJECTED, w)
      | Some handoff \<Rightarrow>
          if hnd_purpose handoff \<noteq> Register_confirm \<or> \<not> handoffModeOk opts handoff
          then (Fail AUTH_PROOF_REJECTED, w)
          else if hnd_expiresAt handoff \<le> at then (Fail AUTH_CODE_EXPIRED, w)
          else
            let w1 = upd (lockDigest tx (hnd_targetDigest handoff)) w;
                key = receiptKey wc opts idempotencyKey (hnd_targetDigest handoff) (js ''register'')
            in case findReceipt tx key (store w1) of
                 Some receipt \<Rightarrow>
                   (case lockUser tx (rcp_userId receipt) (store w1) of
                      None \<Rightarrow> (Fail AUTH_ACCOUNT_SUSPENDED, w1)
                    | Some user \<Rightarrow>
                        if usr_status user \<noteq> Active then (Fail AUTH_ACCOUNT_SUSPENDED, w1)
                        else reissue tx wc opts receipt user (hnd_channel handoff) at w1)
               | None \<Rightarrow>
                   if hnd_consumedAt handoff \<noteq> None then (Fail AUTH_PROOF_REJECTED, w1)
                   else if findIdentity tx (hnd_channel handoff) (hnd_targetDigest handoff) (store w1) \<noteq> None
                   then (Rollback AUTH_IDENTIFIER_CONFLICT, w1)
                   else case consumeHandoff tx (hnd_id handoff) at (store w1) of (consumed, s2) \<Rightarrow>
                     if consumed \<noteq> Consume_ok then (Fail AUTH_PROOF_REJECTED, w1\<lparr>store := s2\<rparr>)
                     else register_user tx wc opts handoff displayName key at (w1\<lparr>store := s2\<rparr>))"

definition confirmRegistration ::
    "'s auth_uow \<Rightarrow> webcrypto \<Rightarrow> auth_options \<Rightarrow> jstr \<Rightarrow> jstr \<Rightarrow> bool \<Rightarrow> jstr \<Rightarrow> iso \<Rightarrow> ('s, minted) work" where
  "confirmRegistration tx wc opts handoffToken displayName agreement idempotencyKey at w =
     (if \<not> agreement then (Fail AUTH_AGREEMENT_REQUIRED, w)
      else if \<not> validDisplayName displayName then (Fail AUTH_INVALID_DISPLAY_NAME, w)
      else transactional (confirmRegistration_body tx wc opts (hashSessionToken wc handoffToken)
        displayName idempotencyKey at) w)"

definition readAccount_body ::
    "'s auth_uow \<Rightarrow> webcrypto \<Rightarrow> auth_options \<Rightarrow> jstr \<Rightarrow> iso \<Rightarrow> ('s, account_security) work" where
  "readAccount_body tx wc opts tokenHash at w =
     (case findSessionUser tx tokenHash at (store w) of
        None \<Rightarrow> (Fail AUTH_UNAUTHENTICATED, w)
      | Some user \<Rightarrow>
          if usr_status user \<noteq> Active then (Fail AUTH_ACCOUNT_SUSPENDED, w)
          else (Ok (accountView tx wc opts (usr_id user) (store w)), w))"

definition readAccount ::
    "'s auth_uow \<Rightarrow> webcrypto \<Rightarrow> auth_options \<Rightarrow> jstr \<Rightarrow> iso \<Rightarrow> ('s, account_security) work" where
  "readAccount tx wc opts sessionToken at w =
     transactional (readAccount_body tx wc opts (hashSessionToken wc sessionToken) at) w"

end
