(* ===== verification/AuthFactors.thy ===== *)
theory AuthFactors
  imports AuthOperations
begin

text \<open>
  The operations of \<open>CommunityAuthService\<close> that change an account's login factors, and sign-out
  (\<open>completeFactor\<close>, \<open>unlinkFactor\<close> and \<open>signOut\<close> of
  \<open>services/api/src/modules/community/application/auth/community-auth-service.ts\<close>).
\<close>

section \<open>Completing a link or a replacement\<close>

text \<open>\<open>value: { session, account }\<close>, with the account view taken last.\<close>

definition with_account ::
    "'s auth_uow \<Rightarrow> webcrypto \<Rightarrow> auth_options \<Rightarrow> jstr \<Rightarrow> minted outcome \<times> 's auth_world \<Rightarrow>
       (minted \<times> account_security) outcome \<times> 's auth_world" where
  "with_account tx wc opts userId r =
     obind r (\<lambda>session w. (Ok (session, accountView tx wc opts userId (store w)), w))"

text \<open>The checks of \<open>completeFactor\<close> on the presented re-authentication.\<close>

definition reauth_usable ::
    "auth_options \<Rightarrow> stored_handoff option \<Rightarrow> jstr \<Rightarrow> jstr \<Rightarrow> iso \<Rightarrow> bool" where
  "reauth_usable opts reauth userId sessionHash at \<longleftrightarrow>
     (case reauth of
        None \<Rightarrow> False
      | Some h \<Rightarrow> \<not> (hnd_purpose h \<noteq> Reauth \<or> hnd_userId h \<noteq> Some userId \<or>
            hnd_sessionHash h \<noteq> Some sessionHash \<or> hnd_consumedAt h \<noteq> None) \<and>
          \<not> (\<not> handoffModeOk opts h \<or> hnd_expiresAt h \<le> at))"

definition reauth_identity_ok ::
    "'s auth_uow \<Rightarrow> auth_options \<Rightarrow> jstr \<Rightarrow> stored_handoff \<Rightarrow> 's \<Rightarrow> bool" where
  "reauth_identity_ok tx opts userId reauth s \<longleftrightarrow>
     (case List.find (\<lambda>row. idn_kind row = hnd_channel reauth) (listIdentities tx userId s) of
        None \<Rightarrow> False | Some identity \<Rightarrow> provenanceOk opts identity)"

text \<open>Inserting the linked identity, or replacing the current one.\<close>

definition bind_identity ::
    "'s auth_uow \<Rightarrow> auth_options \<Rightarrow> stored_challenge \<Rightarrow> jstr \<Rightarrow> int \<Rightarrow> iso \<Rightarrow> ('s, unit) work" where
  "bind_identity tx opts challenge userId expectedVersion at w =
     (case List.find (\<lambda>row. idn_kind row = chl_channel challenge) (listIdentities tx userId (store w)) of
        None \<Rightarrow>
          if chl_purpose challenge \<noteq> Link \<or> expectedVersion \<noteq> 0 then (Fail AUTH_STALE_VERSION, w)
          else (case insertIdentity tx (identityFrom opts challenge userId at (draws w)) (store w) of
                  (inserted, s1) \<Rightarrow>
                    let w1 = drawn (w\<lparr>store := s1\<rparr>) in
                    if inserted = Insert_conflict then (Rollback AUTH_IDENTIFIER_CONFLICT, w1) else (Ok (), w1))
      | Some current \<Rightarrow>
          if chl_purpose challenge \<noteq> Replace \<or> idn_version current \<noteq> expectedVersion
          then (Fail AUTH_STALE_VERSION, w)
          else if idn_verificationMode current \<noteq> chl_providerMode challenge \<or>
                  idn_environment current \<noteq> chl_environment challenge
          then (Fail AUTH_PROVENANCE_REJECTED, w)
          else (case replaceIdentity tx ((identityFrom opts challenge userId at (draws w))
                      \<lparr>idn_id := idn_id current, idn_version := idn_version current + 1\<rparr>)
                    (idn_version current) (store w) of
                  (replaced, s1) \<Rightarrow>
                    let w1 = drawn (w\<lparr>store := s1\<rparr>) in
                    if replaced = Replace_stale then (Rollback AUTH_STALE_VERSION, w1)
                    else if replaced = Replace_conflict then (Rollback AUTH_IDENTIFIER_CONFLICT, w1)
                    else (Ok (), w1)))"

text \<open>What follows a changed factor: consume the re-authentication, invalidate open proofs, mint a
  session, revoke the others, write the receipt and the audit row.\<close>

definition finish_factor ::
    "'s auth_uow \<Rightarrow> webcrypto \<Rightarrow> auth_options \<Rightarrow> stored_user \<Rightarrow> jstr \<Rightarrow> ('s \<Rightarrow> 's) \<Rightarrow> auth_channel \<Rightarrow> jstr \<Rightarrow>
       jstr \<Rightarrow> iso \<Rightarrow> ('s, minted) work" where
  "finish_factor tx wc opts user handoffId complete channel key purpose at w =
     (case consumeHandoff tx handoffId at (store w) of (consumed, s1) \<Rightarrow>
        if consumed \<noteq> Consume_ok then (Rollback AUTH_PROOF_REJECTED, w\<lparr>store := s1\<rparr>)
        else
          let w1 = upd (invalidateUserProofs tx (usr_id user) at) (upd complete (w\<lparr>store := s1\<rparr>)) in
          obind (mint tx wc opts user channel at w1) (\<lambda>session w2.
            (Ok session, audit tx opts (usr_id user) purpose at
              (upd (\<lambda>s. snd (insertReceipt tx (receipt_row key (usr_id user) session purpose)
                  (revokeOtherSessions tx (usr_id user) (mnt_tokenHash session) at s))) w2))))"

text \<open>The part of \<open>completeFactor\<close> after the code was accepted.\<close>

definition complete_accepted ::
    "'s auth_uow \<Rightarrow> webcrypto \<Rightarrow> auth_options \<Rightarrow> stored_challenge \<Rightarrow> stored_user \<Rightarrow> jstr \<Rightarrow> jstr \<Rightarrow> int \<Rightarrow> jstr \<Rightarrow>
       iso \<Rightarrow> ('s, minted) work" where
  "complete_accepted tx wc opts challenge user sessionHash reauthHash expectedVersion key at w =
     (let reauth = findHandoff tx reauthHash (store w) in
      if \<not> reauth_usable opts reauth (usr_id user) sessionHash at then (Fail AUTH_PROOF_REJECTED, w)
      else if \<not> reauth_identity_ok tx opts (usr_id user) (the reauth) (store w)
      then (Fail AUTH_PROOF_REJECTED, w)
      else case findHandoff tx reauthHash (store w) of
        None \<Rightarrow> (Fail AUTH_PROOF_REJECTED, w)
      | Some freshReauth \<Rightarrow>
          if hnd_consumedAt freshReauth \<noteq> None \<or> hnd_userId freshReauth \<noteq> Some (usr_id user)
          then (Fail AUTH_PROOF_REJECTED, w)
          else if (case findIdentity tx (chl_channel challenge) (chl_targetDigest challenge) (store w) of
                     None \<Rightarrow> False | Some owner \<Rightarrow> idn_userId owner \<noteq> usr_id user)
          then (Rollback AUTH_IDENTIFIER_CONFLICT, w)
          else obind (bind_identity tx opts challenge (usr_id user) expectedVersion at w) (\<lambda>_ w1.
            finish_factor tx wc opts user (hnd_id freshReauth)
              (saveChallenge tx (challenge\<lparr>chl_completedAt := Some at\<rparr>)) (chl_channel challenge) key
              (purpose_str (chl_purpose challenge)) at w1))"

definition completeFactor_body ::
    "'s auth_uow \<Rightarrow> webcrypto \<Rightarrow> auth_options \<Rightarrow> jstr \<Rightarrow> jstr \<Rightarrow> jstr \<Rightarrow> jstr \<Rightarrow> jstr \<Rightarrow> int \<Rightarrow> jstr \<Rightarrow> bool \<Rightarrow> iso \<Rightarrow>
       ('s, minted \<times> account_security) work" where
  "completeFactor_body tx wc opts challengeId code continuationHash sessionHash reauthHash expectedVersion
       idempotencyKey providerPassed at w =
     (case findChallenge tx challengeId (store w) of
        None \<Rightarrow> (Fail AUTH_PROOF_REJECTED, w)
      | Some challenge \<Rightarrow>
          if chl_continuationHash challenge \<noteq> continuationHash \<or>
             (chl_purpose challenge \<noteq> Link \<and> chl_purpose challenge \<noteq> Replace) \<or>
             \<not> challengeFresh challenge at
          then (Fail AUTH_PROOF_REJECTED, w)
          else case findSessionUser tx sessionHash at (store w) of
            None \<Rightarrow> (Fail AUTH_UNAUTHENTICATED, w)
          | Some user \<Rightarrow>
              if chl_userId challenge \<noteq> Some (usr_id user) \<or> chl_sessionHash challenge \<noteq> Some sessionHash
              then (Fail AUTH_UNAUTHENTICATED, w)
              else if usr_status user \<noteq> Active then (Fail AUTH_ACCOUNT_SUSPENDED, w)
              else
                let key = receiptKey wc opts idempotencyKey (chl_targetDigest challenge)
                      (purpose_str (chl_purpose challenge))
                in case findReceipt tx key (store w) of
                     Some receipt \<Rightarrow> with_account tx wc opts (usr_id user)
                       (reissue tx wc opts receipt user (chl_channel challenge) at w)
                   | None \<Rightarrow>
                       if attempts_exhausted tx challenge at (store w) then (Fail AUTH_CODE_EXHAUSTED, w)
                       else if \<not> codeAccepted wc opts challenge code providerPassed
                       then (Fail AUTH_CODE_INVALID, upd (record_failure tx challenge at) w)
                       else with_account tx wc opts (usr_id user)
                         (complete_accepted tx wc opts challenge user sessionHash reauthHash
                           expectedVersion key at w))"

definition completeFactor ::
    "'s auth_uow \<Rightarrow> webcrypto \<Rightarrow> auth_options \<Rightarrow> jstr \<Rightarrow> jstr \<Rightarrow> jstr \<Rightarrow> jstr \<Rightarrow> int \<Rightarrow> jstr \<Rightarrow> jstr \<Rightarrow> iso \<Rightarrow>
       ('s, minted \<times> account_security) work" where
  "completeFactor tx wc opts challengeId code continuationToken reauthToken expectedVersion idempotencyKey
       sessionToken at w =
     (let continuationHash = hashSessionToken wc continuationToken in
      obind (transactional (load_challenge tx challengeId continuationHash) w) (\<lambda>loaded w1.
        obind (provider_check wc opts loaded code w1) (\<lambda>providerPassed w2.
          transactional (completeFactor_body tx wc opts challengeId code continuationHash
            (hashSessionToken wc sessionToken) (hashSessionToken wc reauthToken) expectedVersion
            idempotencyKey providerPassed at) w2)))"

section \<open>Unlinking a factor\<close>

text \<open>The checks of \<open>unlinkFactor\<close> on the presented re-authentication, as the code makes them.\<close>

definition unlink_reauth_usable ::
    "auth_options \<Rightarrow> stored_handoff option \<Rightarrow> jstr \<Rightarrow> jstr \<Rightarrow> bool" where
  "unlink_reauth_usable opts reauth userId sessionHash \<longleftrightarrow>
     (case reauth of
        None \<Rightarrow> False
      | Some h \<Rightarrow> \<not> (hnd_purpose h \<noteq> Reauth \<or> hnd_userId h \<noteq> Some userId \<or>
          hnd_sessionHash h \<noteq> Some sessionHash \<or> hnd_consumedAt h \<noteq> None \<or> \<not> handoffModeOk opts h))"

text \<open>The part of \<open>unlinkFactor\<close> after the receipt lookup.\<close>

definition unlink_target ::
    "'s auth_uow \<Rightarrow> webcrypto \<Rightarrow> auth_options \<Rightarrow> auth_channel \<Rightarrow> stored_user \<Rightarrow> jstr \<Rightarrow> jstr \<Rightarrow> int \<Rightarrow> jstr \<Rightarrow> iso \<Rightarrow>
       ('s, minted) work" where
  "unlink_target tx wc opts channel user sessionHash reauthHash expectedVersion key at w =
     (let reauth = findHandoff tx reauthHash (store w) in
      if \<not> unlink_reauth_usable opts reauth (usr_id user) sessionHash then (Fail AUTH_PROOF_REJECTED, w)
      else case findHandoff tx reauthHash (store w) of
        None \<Rightarrow> (Fail AUTH_PROOF_REJECTED, w)
      | Some freshReauth \<Rightarrow>
          if hnd_consumedAt freshReauth \<noteq> None \<or> hnd_userId freshReauth \<noteq> Some (usr_id user) \<or>
             hnd_purpose freshReauth \<noteq> Reauth
          then (Fail AUTH_PROOF_REJECTED, w)
          else if \<not> reauth_identity_ok tx opts (usr_id user) (the reauth) (store w)
          then (Fail AUTH_PROOF_REJECTED, w)
          else
            let ids = listIdentities tx (usr_id user) (store w) in
            case List.find (\<lambda>row. idn_kind row = channel) ids of
              None \<Rightarrow> (Fail AUTH_INVALID_IDENTIFIER, w)
            | Some target \<Rightarrow>
                if idn_version target \<noteq> expectedVersion then (Fail AUTH_STALE_VERSION, w)
                else
                  let remaining = filter (\<lambda>row. idn_kind row \<noteq> channel \<and> provenanceOk opts row) ids in
                  if length remaining = 0 then (Fail AUTH_LAST_FACTOR, w)
                  else case deleteIdentity tx (usr_id user) channel expectedVersion (store w) of
                    (deleted, s1) \<Rightarrow>
                      if deleted = Delete_last_factor then (Fail AUTH_LAST_FACTOR, w\<lparr>store := s1\<rparr>)
                      else if deleted = Delete_stale then (Fail AUTH_STALE_VERSION, w\<lparr>store := s1\<rparr>)
                      else if deleted \<noteq> Delete_ok then (Fail AUTH_PROOF_REJECTED, w\<lparr>store := s1\<rparr>)
                      else finish_factor tx wc opts user (hnd_id freshReauth) id
                        (idn_kind (hd remaining)) key (js ''unlink'') at (w\<lparr>store := s1\<rparr>))"

definition unlinkFactor_body ::
    "'s auth_uow \<Rightarrow> webcrypto \<Rightarrow> auth_options \<Rightarrow> auth_channel \<Rightarrow> jstr \<Rightarrow> jstr \<Rightarrow> int \<Rightarrow> jstr \<Rightarrow> iso \<Rightarrow>
       ('s, minted \<times> account_security) work" where
  "unlinkFactor_body tx wc opts channel sessionHash reauthHash expectedVersion idempotencyKey at w =
     (case findSessionUser tx sessionHash at (store w) of
        None \<Rightarrow> (Fail AUTH_UNAUTHENTICATED, w)
      | Some user \<Rightarrow>
          if usr_status user \<noteq> Active then (Fail AUTH_ACCOUNT_SUSPENDED, w)
          else
            let key = receiptKey wc opts idempotencyKey (usr_id user) (js ''unlink:'' @ channel_str channel)
            in case findReceipt tx key (store w) of
                 Some receipt \<Rightarrow> with_account tx wc opts (usr_id user)
                   (reissue tx wc opts receipt user channel at w)
               | None \<Rightarrow> with_account tx wc opts (usr_id user)
                   (unlink_target tx wc opts channel user sessionHash reauthHash expectedVersion key at w))"

definition unlinkFactor ::
    "'s auth_uow \<Rightarrow> webcrypto \<Rightarrow> auth_options \<Rightarrow> auth_channel \<Rightarrow> jstr \<Rightarrow> int \<Rightarrow> jstr \<Rightarrow> jstr \<Rightarrow> iso \<Rightarrow>
       ('s, minted \<times> account_security) work" where
  "unlinkFactor tx wc opts channel reauthToken expectedVersion idempotencyKey sessionToken at w =
     transactional (unlinkFactor_body tx wc opts channel (hashSessionToken wc sessionToken)
       (hashSessionToken wc reauthToken) expectedVersion idempotencyKey at) w"

section \<open>Sign-out\<close>

definition seal_all :: "'s auth_uow \<Rightarrow> stored_receipt list \<Rightarrow> jstr \<Rightarrow> iso \<Rightarrow> 's \<Rightarrow> 's" where
  "seal_all tx rs presentedHash at s = foldl (\<lambda>s r. sealReceipt tx r presentedHash at s) s rs"

definition signOut_body :: "'s auth_uow \<Rightarrow> jstr \<Rightarrow> iso \<Rightarrow> ('s, unit) work" where
  "signOut_body tx tokenHash at w =
     (case lockSession tx tokenHash (store w) of
        None \<Rightarrow> (Fail AUTH_UNAUTHENTICATED, w)
      | Some session \<Rightarrow>
          if lck_revokedAt session = None \<and> lck_expiresAt session \<le> at then (Fail AUTH_UNAUTHENTICATED, w)
          else if lck_revokedAt session \<noteq> None then
            (let opn = filter (\<lambda>row. rcp_closedAt row = None)
                   (lockReceiptsForSession tx (lck_id session) (store w)) in
             if length opn = 0 then (Fail AUTH_UNAUTHENTICATED, w)
             else (Ok (), upd (seal_all tx opn tokenHash at) w))
          else (case revokeSession tx tokenHash at (store w) of (revoked, s1) \<Rightarrow>
            if \<not> revoked then (Fail AUTH_UNAUTHENTICATED, w\<lparr>store := s1\<rparr>)
            else (Ok (), upd (\<lambda>s. seal_all tx (lockReceiptsForSession tx (lck_id session) s) tokenHash at s)
              (w\<lparr>store := s1\<rparr>))))"

definition signOut :: "'s auth_uow \<Rightarrow> webcrypto \<Rightarrow> jstr \<Rightarrow> iso \<Rightarrow> ('s, unit) work" where
  "signOut tx wc sessionToken at w = transactional (signOut_body tx (hashSessionToken wc sessionToken) at) w"

end
