(* ===== verification/AuthStore.thy ===== *)
theory AuthStore
  imports AuthFactors
begin

text \<open>
  The contract between the authentication service and the store behind its port, as the locale
  \<open>auth_store_core\<close> and its extension \<open>auth_store\<close>: what each writing operation of \<open>AuthUnitOfWork\<close> keeps of a store invariant \<open>ok\<close>,
  of the accounts it knows and of the row ids not yet in use. Inside the locale every transaction
  body of the service is shown to preserve \<open>ok\<close>, from the contract alone. The in-memory port is
  shown to satisfy it in \<open>AuthInvariant\<close>.
\<close>

definition store_keeps :: "('s \<Rightarrow> bool) \<Rightarrow> (jstr \<Rightarrow> 's \<Rightarrow> bool) \<Rightarrow> 's \<Rightarrow> 's \<Rightarrow> bool" where
  "store_keeps ok known s s' \<longleftrightarrow> ok s' \<and> (\<forall>i. known i s \<longrightarrow> known i s')"

text \<open>The ids a transaction can draw for a new identity row are not in use: at most eight user rows
  of two draws each come before it.\<close>

definition fresh_draws :: "(jstr \<Rightarrow> 's \<Rightarrow> bool) \<Rightarrow> auth_options \<Rightarrow> 's auth_world \<Rightarrow> bool" where
  "fresh_draws fresh opts w \<longleftrightarrow>
     (\<forall>k \<le> 16. fresh (generateOpaqueId (js ''login'') (opt_randomBytes opts) (draws w + k)) (store w))"

lemma upd_store [simp]: "store (upd f w) = f (store w)" "draws (upd f w) = draws w"
  by (simp_all add: upd_def)

lemma drawn_store [simp]: "store (drawn w) = store w" "draws (drawn w) = Suc (draws w)"
  by (simp_all add: drawn_def)

lemma obind_state:
  assumes "P (store (snd r))"
    and "\<And>v w. r = (Ok v, w) \<Longrightarrow> P (store w) \<Longrightarrow> P (store (snd (f v w)))"
  shows "P (store (snd (obind r f)))"
  using assms by (cases r; cases "fst r") (auto simp: obind_def)

lemma transactional_state:
  assumes "P (store w)" and "P (store (snd (body w)))"
  shows "P (store (snd (transactional body w)))"
  using assms by (auto simp: transactional_def split: prod.splits outcome.splits)

locale auth_store_core =
  fixes tx :: "'s auth_uow"
    and ok :: "'s \<Rightarrow> bool"
    and known :: "jstr \<Rightarrow> 's \<Rightarrow> bool"
    and fresh :: "jstr \<Rightarrow> 's \<Rightarrow> bool"
  assumes find_challenge: "ok s \<Longrightarrow> findChallenge tx i s = Some c \<Longrightarrow> chl_attempts c \<le> int MAX_ATTEMPTS"
    and open_challenge: "ok s \<Longrightarrow> openChallenge tx f s = Some c \<Longrightarrow> chl_attempts c \<le> int MAX_ATTEMPTS"
    and lock_user: "lockUser tx i s = Some u \<Longrightarrow> known (usr_id u) s"
    and session_user: "findSessionUser tx h at s = Some u \<Longrightarrow> known (usr_id u) s"
    and insert_user: "ok s \<Longrightarrow> store_keeps ok known s (snd (insertUser tx u s))"
    and insert_user_known: "insertUser tx u s = (User_ok, s') \<Longrightarrow> known (usr_id u) s'"
    and insert_user_fresh: "fresh i s \<Longrightarrow> fresh i (snd (insertUser tx u s))"
    and insert_identity: "ok s \<Longrightarrow> known (idn_userId row) s \<Longrightarrow> fresh (idn_id row) s \<Longrightarrow>
          store_keeps ok known s (snd (insertIdentity tx row s))"
    and replace_identity: "ok s \<Longrightarrow>
          List.find (\<lambda>r. idn_kind r = idn_kind row) (listIdentities tx (idn_userId row) s) = Some cur \<Longrightarrow>
          idn_id row = idn_id cur \<Longrightarrow> store_keeps ok known s (snd (replaceIdentity tx row v s))"
    and delete_identity: "ok s \<Longrightarrow> store_keeps ok known s (snd (deleteIdentity tx i ch v s))"
    and lock_digest: "ok s \<Longrightarrow> store_keeps ok known s (lockDigest tx d s)"
    and lock_digest_fresh: "fresh i s \<Longrightarrow> fresh i (lockDigest tx d s)"
    and insert_challenge: "ok s \<Longrightarrow> chl_attempts c \<le> int MAX_ATTEMPTS \<Longrightarrow>
          store_keeps ok known s (snd (insertChallenge tx c s))"
    and save_challenge: "ok s \<Longrightarrow> chl_attempts c \<le> int MAX_ATTEMPTS \<Longrightarrow>
          store_keeps ok known s (saveChallenge tx c s)"
    and add_failure: "ok s \<Longrightarrow> store_keeps ok known s (snd (addFailure tx d p at s))"
    and insert_handoff: "ok s \<Longrightarrow> store_keeps ok known s (insertHandoff tx hrow s)"
    and consume_handoff: "ok s \<Longrightarrow> store_keeps ok known s (snd (consumeHandoff tx i at s))"
    and consume_handoff_fresh: "fresh i s \<Longrightarrow> fresh i (snd (consumeHandoff tx j at s))"
    and insert_receipt: "ok s \<Longrightarrow> store_keeps ok known s (snd (insertReceipt tx rrow s))"
    and close_receipt: "ok s \<Longrightarrow> store_keeps ok known s (closeReceipt tx k at s)"
    and update_receipt: "ok s \<Longrightarrow> store_keeps ok known s (updateReceiptSession tx k i h s)"
    and insert_session: "ok s \<Longrightarrow> known (ssn_userId srow) s \<Longrightarrow>
          store_keeps ok known s (insertSession tx srow s)"
    and revoke_session: "ok s \<Longrightarrow> store_keeps ok known s (snd (revokeSession tx h at s))"
    and revoke_others: "ok s \<Longrightarrow> store_keeps ok known s (revokeOtherSessions tx i h at s)"
    and invalidate_proofs: "ok s \<Longrightarrow> store_keeps ok known s (invalidateUserProofs tx i at s)"
    and insert_audit: "ok s \<Longrightarrow> store_keeps ok known s (insertAudit tx arow s)"
begin

text \<open>The invariant alone, operation by operation, and the accounts alone.\<close>

lemma keeps_inv: "store_keeps ok known s s' \<Longrightarrow> ok s'"
  by (simp add: store_keeps_def)

lemma keeps_known: "store_keeps ok known s s' \<Longrightarrow> known i s \<Longrightarrow> known i s'"
  by (simp add: store_keeps_def)

lemmas op_inv =
  insert_user [THEN keeps_inv] insert_identity [THEN keeps_inv] replace_identity [THEN keeps_inv]
  delete_identity [THEN keeps_inv] lock_digest [THEN keeps_inv] insert_challenge [THEN keeps_inv]
  save_challenge [THEN keeps_inv] add_failure [THEN keeps_inv]
  insert_handoff [THEN keeps_inv] consume_handoff [THEN keeps_inv] insert_receipt [THEN keeps_inv]
  close_receipt [THEN keeps_inv] update_receipt [THEN keeps_inv] insert_session [THEN keeps_inv]
  revoke_session [THEN keeps_inv] revoke_others [THEN keeps_inv] invalidate_proofs [THEN keeps_inv]
  insert_audit [THEN keeps_inv]

lemma snd_case_pair: "(case p of (r, s) \<Rightarrow> f r s) = f (fst p) (snd p)"
  by (cases p) simp

lemma audit_inv: "ok (store w) \<Longrightarrow> ok (store (audit tx opts u a at w))"
  by (simp add: audit_def op_inv)

lemma mint_inv:
  assumes "ok (store w)" and "known (usr_id user) (store w)"
  shows "ok (store (snd (mint tx wc opts user ch at w)))"
  using assms by (auto simp: mint_def Let_def op_inv split: option.split)

lemma reissue_inv:
  assumes "ok (store w)" and "known (usr_id user) (store w)"
  shows "ok (store (snd (reissue tx wc opts r user ch at w)))"
proof -
  have r: "ok (snd (revokeSession tx h at (store w)))"
      "known (usr_id user) (snd (revokeSession tx h at (store w)))" for h
    using assms revoke_session [of "store w" h at] by (auto dest: keeps_inv keeps_known)
  show ?thesis
    unfolding reissue_def Let_def snd_case_pair using assms(1) r
    by (auto intro!: obind_state [where P = ok] mint_inv simp: op_inv split: option.split)
qed

lemma insert_new_user_inv:
  "ok (store w) \<Longrightarrow> ok (store (snd (insertNewUser_loop n tx opts name w)))"
proof (induction n arbitrary: w)
  case (Suc n)
  have "ok (snd (insertUser tx u (store w)))" for u using Suc.prems by (rule op_inv)
  then show ?case using Suc.IH by (simp add: Let_def snd_case_pair)
qed simp

lemma insert_new_user_known:
  "insertNewUser_loop n tx opts name w = (Ok u, w') \<Longrightarrow> known (usr_id u) (store w')"
  by (induction n arbitrary: w)
     (auto simp: Let_def split: prod.splits if_splits dest: insert_user_known)

lemma insert_new_user_fresh:
  assumes "insertNewUser_loop n tx opts name w = (Ok u, w')"
  shows "\<exists>k \<le> 2 * n. draws w' = draws w + k" and "fresh i (store w) \<Longrightarrow> fresh i (store w')"
proof -
  have "(\<exists>k \<le> 2 * n. draws w' = draws w + k) \<and> (fresh i (store w) \<longrightarrow> fresh i (store w'))"
    using assms
  proof (induction n arbitrary: w)
    case (Suc n)
    let ?u = "\<lparr>usr_id = generateOpaqueId (js ''user'') (opt_randomBytes opts) (draws w),
            usr_handle = generateHandle opts (Suc (draws w)), usr_displayName = name,
            usr_status = Active\<rparr>"
    obtain r s2 where r: "insertUser tx ?u (store w) = (r, s2)" by fastforce
    have f: "fresh i (store w) \<Longrightarrow> fresh i s2" using insert_user_fresh [of i "store w" ?u] r by simp
    show ?case
    proof (cases "r = User_ok")
      case True
      then show ?thesis using Suc.prems r f by (auto simp: Let_def)
    next
      case False
      then have "insertNewUser_loop n tx opts name ((drawn (drawn w))\<lparr>store := s2\<rparr>) = (Ok u, w')"
        using Suc.prems r by (simp add: Let_def)
      from Suc.IH [OF this] f show ?thesis by (auto intro: exI [of _ "Suc (Suc _)"])
    qed
  qed simp
  then show "\<exists>k \<le> 2 * n. draws w' = draws w + k" "fresh i (store w) \<Longrightarrow> fresh i (store w')"
    by auto
qed

section \<open>The transaction bodies\<close>

lemma mark_delivery_inv:
  assumes "ok (store w)"
  shows "ok (store (snd (mark_delivery tx cid d w)))"
  using assms find_challenge [OF assms]
  by (auto simp: mark_delivery_def intro!: op_inv split: option.split)

lemma record_failure_inv:
  assumes "ok s" and "\<not> attempts_exhausted tx c at s"
  shows "ok (record_failure tx c at s)"
  using assms by (auto simp: record_failure_def attempts_exhausted_def intro!: op_inv)

lemma sign_in_user_inv:
  assumes "ok (store w)"
  shows "ok (store (snd (sign_in_user tx wc opts c idn key at w)))"
  using assms lock_user [of "idn_userId idn" "store w"]
  by (auto simp: sign_in_user_def intro!: obind_state [where P = ok] mint_inv audit_inv op_inv
      split: option.split)

lemma issue_handoff_inv:
  "ok (store w) \<Longrightarrow> ok (store (snd (issueRegistrationHandoff tx wc opts c at w)))"
  by (auto simp: issueRegistrationHandoff_def Let_def intro!: op_inv)

lemma verify_accepted_inv:
  assumes "ok (store w)" and "chl_attempts c \<le> int MAX_ATTEMPTS"
  shows "ok (store (snd (verify_accepted tx wc opts c key at w)))"
proof -
  have "ok (saveChallenge tx (c\<lparr>chl_completedAt := Some at\<rparr>) (store w))"
    using assms by (intro op_inv) auto
  then show ?thesis
    using assms(1) unfolding verify_accepted_def Let_def
    by (auto intro!: sign_in_user_inv issue_handoff_inv op_inv split: option.split)
qed

lemma finishVerify_inv:
  assumes "ok (store w)"
  shows "ok (store (snd (finishVerify tx wc opts cid code key ch pp at w)))"
  using assms find_challenge [OF assms] lock_user [of _ "store w"]
  unfolding finishVerify_def Let_def
  by (auto intro!: obind_state [where P = ok] reissue_inv verify_accepted_inv record_failure_inv
      split: option.split)

lemma register_user_inv:
  assumes ok: "ok (store w)" and fr: "fresh_draws fresh opts w"
  shows "ok (store (snd (register_user tx wc opts h name key at w)))"
  unfolding register_user_def insertNewUser_def snd_case_pair
proof (rule obind_state [where P = ok])
  show "ok (store (snd (insertNewUser_loop 8 tx opts name w)))" using ok by (rule insert_new_user_inv)
  fix user w1
  assume r: "insertNewUser_loop 8 tx opts name w = (Ok user, w1)" and ok1: "ok (store w1)"
  let ?row = "\<lparr>idn_id = generateOpaqueId (js ''login'') (opt_randomBytes opts) (draws w1),
            idn_userId = usr_id user, idn_kind = hnd_channel h,
            idn_lookupDigest = hnd_targetDigest h, idn_ciphertext = hnd_ciphertext h,
            idn_lookupKeyVersion = key_version (opt_keys opts),
            idn_verificationMode = hnd_providerMode h, idn_environment = hnd_environment h,
            idn_version = 1, idn_verifiedAt = at\<rparr>"
  have "fresh (idn_id ?row) (store w1)"
    using insert_new_user_fresh(1) [OF r] insert_new_user_fresh(2) [OF r] fr
    by (auto simp: fresh_draws_def)
  then have k: "store_keeps ok known (store w1) (snd (insertIdentity tx ?row (store w1)))"
    using ok1 insert_new_user_known [OF r] by (intro insert_identity) simp_all
  then have "ok (snd (insertIdentity tx ?row (store w1)))"
      "known (usr_id user) (snd (insertIdentity tx ?row (store w1)))"
    using insert_new_user_known [OF r] by (auto dest: keeps_inv keeps_known)
  then show "ok (store (snd (let w2 = drawn (w1\<lparr>store := snd (insertIdentity tx ?row (store w1))\<rparr>)
      in if fst (insertIdentity tx ?row (store w1)) = Insert_conflict
         then (Rollback AUTH_IDENTIFIER_CONFLICT, w2)
         else obind (mint tx wc opts user (hnd_channel h) at w2) (\<lambda>session w3.
           (Ok session, audit tx opts (usr_id user) (js ''register'') at
              (upd (\<lambda>s. snd (insertReceipt tx (receipt_row key (usr_id user) session (js ''register'')) s)) w3))))))"
    by (auto simp: Let_def intro!: obind_state [where P = ok] mint_inv audit_inv op_inv)
qed

lemma confirm_body_inv:
  assumes ok: "ok (store w)" and fr: "fresh_draws fresh opts w"
  shows "ok (store (snd (confirmRegistration_body tx wc opts th name key at w)))"
proof -
  have l: "ok (lockDigest tx d (store w))" for d using ok by (rule op_inv)
  have c: "ok (snd (consumeHandoff tx i at (lockDigest tx d (store w))))" for i d
    using l by (rule op_inv)
  have f: "fresh_draws fresh opts ((upd (lockDigest tx d) w)
      \<lparr>store := snd (consumeHandoff tx i at (lockDigest tx d (store w)))\<rparr>)" for i d
    using fr lock_digest_fresh consume_handoff_fresh by (simp add: fresh_draws_def)
  show ?thesis
    unfolding confirmRegistration_body_def Let_def snd_case_pair
    using ok l c f lock_user
    by (auto intro!: reissue_inv register_user_inv split: option.split)
qed

lemma bind_identity_inv:
  assumes ok: "ok (store w)" and fr: "fresh_draws fresh opts w" and k: "known userId (store w)"
  shows "ok (store (snd (bind_identity tx opts c userId v at w)))"
    and "known userId (store (snd (bind_identity tx opts c userId v at w)))"
proof -
  let ?new = "identityFrom opts c userId at (draws w)"
  have i: "store_keeps ok known (store w) (snd (insertIdentity tx ?new (store w)))"
    using ok k fr by (intro insert_identity) (auto simp: identityFrom_def fresh_draws_def dest: spec [of _ 0])
  have r: "store_keeps ok known (store w) (snd (replaceIdentity tx
      (?new\<lparr>idn_id := idn_id cur, idn_version := idn_version cur + 1\<rparr>) (idn_version cur) (store w)))"
    if "List.find (\<lambda>row. idn_kind row = chl_channel c) (listIdentities tx userId (store w)) = Some cur" for cur
    using ok that by (intro replace_identity) (simp_all add: identityFrom_def)
  show "ok (store (snd (bind_identity tx opts c userId v at w)))"
    unfolding bind_identity_def Let_def snd_case_pair
    using ok i [THEN keeps_inv] r [THEN keeps_inv] by (auto split: option.split)
  show "known userId (store (snd (bind_identity tx opts c userId v at w)))"
    unfolding bind_identity_def Let_def snd_case_pair
    using k i [THEN keeps_known] r [THEN keeps_known] by (auto split: option.split)
qed

lemma finish_factor_inv:
  assumes ok: "ok (store w)" and k: "known (usr_id user) (store w)"
    and c: "\<And>s. ok s \<Longrightarrow> store_keeps ok known s (complete s)"
  shows "ok (store (snd (finish_factor tx wc opts user hid complete ch key p at w)))"
proof -
  let ?s1 = "snd (consumeHandoff tx hid at (store w))"
  let ?s2 = "invalidateUserProofs tx (usr_id user) at (complete ?s1)"
  have 1: "ok ?s1" "known (usr_id user) ?s1"
    using consume_handoff [OF ok] k by (auto dest: keeps_inv keeps_known)
  have 2: "ok ?s2" "known (usr_id user) ?s2"
    using invalidate_proofs [OF keeps_inv [OF c [OF 1(1)]]] c [OF 1(1)] 1
    by (auto dest: keeps_inv keeps_known)
  show ?thesis
    unfolding finish_factor_def Let_def snd_case_pair using ok 1 2
    by (auto intro!: obind_state [where P = ok] mint_inv audit_inv op_inv)
qed

lemma with_account_inv: "ok (store (snd r)) \<Longrightarrow> ok (store (snd (with_account tx wc opts u r)))"
  by (auto simp: with_account_def intro!: obind_state [where P = ok])

lemma complete_accepted_inv:
  assumes ok: "ok (store w)" and fr: "fresh_draws fresh opts w" and k: "known (usr_id user) (store w)"
    and a: "chl_attempts c \<le> int MAX_ATTEMPTS"
  shows "ok (store (snd (complete_accepted tx wc opts c user sh rh v key at w)))"
proof -
  have s: "store_keeps ok known s (saveChallenge tx (c\<lparr>chl_completedAt := Some at\<rparr>) s)" if "ok s" for s
    using that a by (intro save_challenge) simp_all
  have b: "ok (store (snd (obind (bind_identity tx opts c (usr_id user) v at w) (\<lambda>_ w1.
       finish_factor tx wc opts user hid (saveChallenge tx (c\<lparr>chl_completedAt := Some at\<rparr>))
         (chl_channel c) key p at w1))))" for hid p
    using bind_identity_inv [OF ok fr k, of c v at] s
    by (intro obind_state [where P = ok] finish_factor_inv) (auto dest: arg_cong [of _ _ snd])
  show ?thesis
    unfolding complete_accepted_def Let_def using ok b by (auto split: option.split)
qed

lemma completeFactor_body_inv:
  assumes ok: "ok (store w)" and fr: "fresh_draws fresh opts w"
  shows "ok (store (snd (completeFactor_body tx wc opts cid code ch sh rh v key pp at w)))"
  unfolding completeFactor_body_def Let_def
  using ok fr find_challenge [OF ok] session_user [of sh at "store w"]
  by (auto intro!: with_account_inv reissue_inv record_failure_inv complete_accepted_inv
      split: option.split)

lemma unlink_target_inv:
  assumes ok: "ok (store w)" and k: "known (usr_id user) (store w)"
  shows "ok (store (snd (unlink_target tx wc opts ch user sh rh v key at w)))"
proof -
  have d: "ok (snd (deleteIdentity tx i ch v (store w)))"
      "known (usr_id user) (snd (deleteIdentity tx i ch v (store w)))" for i
    using delete_identity [OF ok] k by (auto dest: keeps_inv keeps_known)
  show ?thesis
    unfolding unlink_target_def Let_def snd_case_pair using ok d
    by (auto intro!: finish_factor_inv simp: store_keeps_def split: option.split)
qed

lemma unlinkFactor_body_inv:
  assumes ok: "ok (store w)"
  shows "ok (store (snd (unlinkFactor_body tx wc opts ch sh rh v key at w)))"
  unfolding unlinkFactor_body_def Let_def
  using ok session_user [of sh at "store w"]
  by (auto intro!: with_account_inv reissue_inv unlink_target_inv split: option.split)

lemma seal_all_inv: "ok s \<Longrightarrow> ok (seal_all tx rs h at s)"
proof (induction rs arbitrary: s)
  case (Cons r rs)
  then have "ok (sealReceipt tx r h at s)" by (auto simp: sealReceipt_def Let_def intro!: op_inv)
  then show ?case using Cons.IH by (simp add: seal_all_def)
qed (simp add: seal_all_def)

lemma signOut_body_inv: "ok (store w) \<Longrightarrow> ok (store (snd (signOut_body tx th at w)))"
  unfolding signOut_body_def Let_def snd_case_pair
  by (auto intro!: seal_all_inv op_inv split: option.split)

end

text \<open>The full contract adds the counting of sends, which only \<open>reserve\<close> uses: a store property that
  depends on the sends is an instance of the core alone.\<close>

locale auth_store = auth_store_core +
  assumes add_send: "ok s \<Longrightarrow> store_keeps ok known s (addSend tx sc k at s)"
begin

lemma reserve_insert_inv:
  "ok (store w) \<Longrightarrow> ok (store (snd (reserve_insert tx wc opts ch p tgt at ih sk w)))"
  by (auto simp: reserve_insert_def Let_def snd_case_pair new_challenge_def op_inv add_send [THEN keeps_inv]
      split: option.split prod.split)

lemma reserve_inv:
  assumes "ok (store w)"
  shows "ok (store (snd (reserve tx wc opts ch p key src tgt at w)))"
  using assms open_challenge [OF assms]
  by (auto simp: reserve_def Let_def intro!: reserve_insert_inv op_inv split: option.split)

end

end
