(* ===== verification/AuthInvariant.thy ===== *)
theory AuthInvariant
  imports AuthStore
begin

text \<open>
  The invariant of the in-memory store, that every operation of \<open>memory-auth-port.ts\<close> keeps it, and
  the interpretation of the store contract \<open>auth_store\<close> on that port. The transactions of the
  service over it form the step relation \<open>auth_step\<close>; the invariant holds in every reachable state.
\<close>

section \<open>The invariant\<close>

definition users_wf :: "stored_user list \<Rightarrow> bool" where
  "users_wf us \<longleftrightarrow> distinct (map usr_id us) \<and> distinct (map usr_handle us)"

definition identities_wf :: "stored_identity list \<Rightarrow> bool" where
  "identities_wf ids \<longleftrightarrow> distinct (map idn_id ids) \<and>
     distinct (map (\<lambda>r. (idn_kind r, idn_lookupDigest r)) ids) \<and>
     distinct (map (\<lambda>r. (idn_userId r, idn_kind r)) ids)"

definition mem_known :: "jstr \<Rightarrow> memory_state \<Rightarrow> bool" where
  "mem_known i s \<longleftrightarrow> i \<in> usr_id ` set (users s)"

definition mem_fresh :: "jstr \<Rightarrow> memory_state \<Rightarrow> bool" where
  "mem_fresh i s \<longleftrightarrow> i \<notin> idn_id ` set (identities s)"

definition memory_wf :: "memory_state \<Rightarrow> bool" where
  "memory_wf s \<longleftrightarrow> users_wf (users s) \<and> identities_wf (identities s) \<and>
     (\<forall>r \<in> set (identities s). mem_known (idn_userId r) s) \<and>
     (\<forall>r \<in> set (sessions s). mem_known (ssn_userId r) s) \<and>
     (\<forall>c \<in> set (challenges s). chl_attempts c \<le> int MAX_ATTEMPTS) \<and>
     distinct (map rcp_keyHash (receipts s))"

lemma mem_known_cong [simp]:
  "mem_known i (s\<lparr>identities := a\<rparr>) = mem_known i s" "mem_known i (s\<lparr>challenges := b\<rparr>) = mem_known i s"
  "mem_known i (s\<lparr>handoffs := c\<rparr>) = mem_known i s" "mem_known i (s\<lparr>receipts := d\<rparr>) = mem_known i s"
  "mem_known i (s\<lparr>sessions := e\<rparr>) = mem_known i s" "mem_known i (s\<lparr>sends := f\<rparr>) = mem_known i s"
  "mem_known i (s\<lparr>failures := g\<rparr>) = mem_known i s" "mem_known i (s\<lparr>audits := h\<rparr>) = mem_known i s"
  by (simp_all add: mem_known_def)

lemma mem_find_known: "List.find (\<lambda>u. usr_id u = i) (users s) = Some u \<Longrightarrow> mem_known (usr_id u) s"
  by (auto simp: mem_known_def dest: find_SomeD)

section \<open>Each operation keeps it\<close>

lemma keep_insertUser:
  assumes "memory_wf s"
  shows "store_keeps memory_wf mem_known s (snd (mem_insertUser u s))"
  using assms
  by (auto simp: store_keeps_def memory_wf_def mem_insertUser_def users_wf_def mem_known_def list_ex_iff)

lemma keep_insertIdentity:
  assumes "memory_wf s" and "mem_known (idn_userId row) s" and "mem_fresh (idn_id row) s"
  shows "store_keeps memory_wf mem_known s (snd (mem_insertIdentity row s))"
  using assms
  by (auto simp: store_keeps_def memory_wf_def mem_insertIdentity_def identities_wf_def mem_fresh_def
      list_ex_iff Let_def)

text \<open>Replacing one row of a keyed table by a row no other row collides with.\<close>

lemma distinct_update_first:
  assumes d: "distinct (map k xs)" and f: "List.find P xs = Some x"
    and c: "\<And>y. y \<in> set xs \<Longrightarrow> y \<noteq> x \<Longrightarrow> k y \<noteq> k z"
  shows "distinct (map k (update_first P (\<lambda>_. z) xs))"
  using assms
proof (induction xs)
  case (Cons a xs)
  show ?case
  proof (cases "P a")
    case True
    then have "a = x" using Cons.prems(2) by simp
    have "k z \<notin> k ` set xs"
    proof
      assume "k z \<in> k ` set xs"
      then obtain y where y: "y \<in> set xs" "k y = k z" by auto
      with Cons.prems(1) have "y \<noteq> a" by auto
      with y Cons.prems(3) \<open>a = x\<close> show False by auto
    qed
    with True Cons.prems(1) show ?thesis by simp
  next
    case False
    then have f: "List.find P xs = Some x" using Cons.prems(2) by simp
    have a: "k a \<notin> k ` set xs" and d: "distinct (map k xs)" using Cons.prems(1) by auto
    have ih: "distinct (map k (update_first P (\<lambda>_. z) xs))"
      using d f Cons.prems(3) by (intro Cons.IH) auto
    have "x \<in> set xs" using f by (auto dest: find_SomeD)
    then have "a \<noteq> x" using a by auto
    then have "k a \<noteq> k z" using Cons.prems(3) by auto
    then have "k a \<notin> k ` set (update_first P (\<lambda>_. z) xs)" using a by (auto dest!: set_update_first)
    with False ih show ?thesis by simp
  qed
qed simp

lemma keep_replaceIdentity:
  assumes wf: "memory_wf s"
    and cur: "List.find (\<lambda>r. idn_kind r = idn_kind row) (mem_listIdentities (idn_userId row) s) = Some cur"
    and same: "idn_id row = idn_id cur"
  shows "store_keeps memory_wf mem_known s (snd (mem_replaceIdentity row v s))"
proof -
  let ?mine = "\<lambda>item. idn_userId item = idn_userId row \<and> idn_kind item = idn_kind row"
  let ?row = "row\<lparr>idn_version := v + 1\<rparr>"
  have ids: "identities_wf (identities s)" using wf by (simp add: memory_wf_def)
  have c: "cur \<in> set (identities s)" "?mine cur"
    using find_SomeD [OF cur] by (auto simp: mem_listIdentities_def)
  have f: "List.find ?mine (identities s) = Some cur"
    using find_by_key [of "\<lambda>r. (idn_userId r, idn_kind r)" "identities s" cur] ids c
    by (simp add: identities_wf_def)
  show ?thesis
  proof (cases "idn_version cur \<noteq> v \<or> list_ex (\<lambda>item. idn_id item \<noteq> idn_id cur \<and>
      idn_kind item = idn_kind row \<and> idn_lookupDigest item = idn_lookupDigest row) (identities s)")
    case True
    then show ?thesis using wf f by (auto simp: mem_replaceIdentity_def Let_def store_keeps_def)
  next
    case False
    have other: "idn_id y \<noteq> idn_id cur" "(idn_userId y, idn_kind y) \<noteq> (idn_userId cur, idn_kind cur)"
      if "y \<in> set (identities s)" "y \<noteq> cur" for y
      using that c ids distinct_map_inj [of idn_id "identities s" y cur]
        distinct_map_inj [of "\<lambda>r. (idn_userId r, idn_kind r)" "identities s" y cur]
      by (auto simp: identities_wf_def)
    let ?ids = "update_first ?mine (\<lambda>_. ?row) (identities s)"
    have clash: "(idn_kind y, idn_lookupDigest y) \<noteq> (idn_kind ?row, idn_lookupDigest ?row)"
      if "y \<in> set (identities s)" "y \<noteq> cur" for y
      using other(1) [OF that] that(1) False by (auto simp: list_ex_iff)
    have uk: "(idn_userId y, idn_kind y) \<noteq> (idn_userId ?row, idn_kind ?row)"
      if "y \<in> set (identities s)" "y \<noteq> cur" for y
      using other(2) [OF that] c(2) by simp
    have oi: "idn_id y \<noteq> idn_id ?row" if "y \<in> set (identities s)" "y \<noteq> cur" for y
      using other(1) [OF that] same by simp
    have "identities_wf ?ids"
      using ids distinct_update_first [OF _ f, of idn_id ?row, OF _ oi]
        distinct_update_first [OF _ f, of "\<lambda>r. (idn_kind r, idn_lookupDigest r)" ?row, OF _ clash]
        distinct_update_first [OF _ f, of "\<lambda>r. (idn_userId r, idn_kind r)" ?row, OF _ uk]
      unfolding identities_wf_def by blast
    moreover have "\<forall>r \<in> set ?ids. mem_known (idn_userId r) s"
      using wf c(1,2) by (auto simp: memory_wf_def dest!: set_update_first)
    ultimately show ?thesis
      using wf f False by (simp add: mem_replaceIdentity_def Let_def store_keeps_def memory_wf_def)
  qed
qed

lemma identities_wf_filter: "identities_wf ids \<Longrightarrow> identities_wf (filter P ids)"
  by (simp add: identities_wf_def distinct_map_filter)

lemma keep_deleteIdentity:
  assumes "memory_wf s"
  shows "store_keeps memory_wf mem_known s (snd (mem_deleteIdentity i ch v s))"
  using assms
  by (auto simp: store_keeps_def memory_wf_def mem_deleteIdentity_def identities_wf_filter
      split: option.split)

lemma keep_insertChallenge:
  assumes "memory_wf s" and "chl_attempts c \<le> int MAX_ATTEMPTS"
  shows "store_keeps memory_wf mem_known s (snd (mem_insertChallenge c s))"
  using assms by (auto simp: store_keeps_def memory_wf_def mem_insertChallenge_def list_ex_iff)

lemma keep_saveChallenge:
  assumes "memory_wf s" and "chl_attempts c \<le> int MAX_ATTEMPTS"
  shows "store_keeps memory_wf mem_known s (mem_saveChallenge c s)"
  using assms by (auto simp: store_keeps_def memory_wf_def mem_saveChallenge_def dest!: set_update_first)

text \<open>Operations on tables the invariant does not speak of.\<close>

lemma keep_other_tables:
  assumes "memory_wf s"
  shows "store_keeps memory_wf mem_known s (snd (mem_addFailure d p at s))"
    and "store_keeps memory_wf mem_known s (mem_addSend sc k at s)"
    and "store_keeps memory_wf mem_known s (mem_insertHandoff hrow s)"
    and "store_keeps memory_wf mem_known s (snd (mem_consumeHandoff i at s))"
    and "store_keeps memory_wf mem_known s (mem_lockDigest d s)"
    and "store_keeps memory_wf mem_known s (mem_insertAudit arow s)"
  using assms
  by (auto simp: store_keeps_def memory_wf_def mem_addFailure_def mem_addSend_def mem_insertHandoff_def
      mem_consumeHandoff_def mem_lockDigest_def mem_insertAudit_def Let_def split: option.split)

lemma keep_receipts:
  assumes "memory_wf s"
  shows "store_keeps memory_wf mem_known s (snd (mem_insertReceipt rrow s))"
    and "store_keeps memory_wf mem_known s (mem_closeReceipt k at s)"
    and "store_keeps memory_wf mem_known s (mem_updateReceiptSession k i h s)"
  using assms
  by (auto simp: store_keeps_def memory_wf_def mem_insertReceipt_def mem_closeReceipt_def
      mem_updateReceiptSession_def map_update_first list_ex_iff)

lemma keep_sessions:
  assumes "memory_wf s"
  shows "mem_known (ssn_userId srow) s \<Longrightarrow> store_keeps memory_wf mem_known s (mem_insertSession srow s)"
    and "store_keeps memory_wf mem_known s (snd (mem_revokeSession h at s))"
    and "store_keeps memory_wf mem_known s (mem_revokeOtherSessions i h at s)"
    and "store_keeps memory_wf mem_known s (mem_invalidateUserProofs i at s)"
  using assms
  by (auto simp: store_keeps_def memory_wf_def mem_insertSession_def mem_revokeSession_def
      mem_revokeOtherSessions_def mem_invalidateUserProofs_def stored_session.defs
      dest!: set_update_first find_SomeD)

section \<open>The port satisfies the contract\<close>

lemma mem_find_challenge: "memory_wf s \<Longrightarrow> mem_findChallenge i s = Some c \<Longrightarrow> chl_attempts c \<le> int MAX_ATTEMPTS"
  by (auto simp: memory_wf_def mem_findChallenge_def dest: find_SomeD)

lemma mem_openChallenge_in: "mem_openChallenge f s = Some c \<Longrightarrow> c \<in> set (challenges s) \<and> challenge_is_open c"
proof -
  let ?xs = "filter (\<lambda>r. chl_channel r = flt_channel f \<and> chl_purpose r = flt_purpose f \<and>
            chl_targetDigest r = flt_targetDigest f \<and> challenge_is_open r) (challenges s)"
  assume "mem_openChallenge f s = Some c"
  then have "c \<in> set (sort_key (\<lambda>r. - chl_createdAt r) ?xs)"
    by (simp only: mem_openChallenge_def split: list.splits) auto
  then show ?thesis by simp
qed

lemma mem_session_user: "mem_findSessionUser h at s = Some u \<Longrightarrow> mem_known (usr_id u) s"
  by (auto simp: mem_findSessionUser_def dest: mem_find_known split: option.splits)

lemma mem_user_laws:
  "mem_lockUser i s = Some u \<Longrightarrow> mem_known (usr_id u) s"
  "mem_insertUser u s = (User_ok, s') \<Longrightarrow> mem_known (usr_id u) s'"
  "mem_fresh j s \<Longrightarrow> mem_fresh j (snd (mem_insertUser u s))"
  "mem_fresh j s \<Longrightarrow> mem_fresh j (mem_lockDigest d s)"
  "mem_fresh j s \<Longrightarrow> mem_fresh j (snd (mem_consumeHandoff i at s))"
  by (auto simp: mem_lockUser_def mem_insertUser_def mem_known_def mem_fresh_def
      mem_lockDigest_def mem_consumeHandoff_def dest: find_SomeD split: if_splits option.split)

lemma mem_open_challenge: "memory_wf s \<Longrightarrow> mem_openChallenge f s = Some c \<Longrightarrow> chl_attempts c \<le> int MAX_ATTEMPTS"
  by (auto simp: memory_wf_def dest: mem_openChallenge_in)

lemmas mem_laws = mem_find_challenge mem_open_challenge mem_user_laws mem_session_user

lemmas mem_keeps = keep_insertUser keep_insertIdentity keep_replaceIdentity
    keep_deleteIdentity keep_insertChallenge keep_saveChallenge keep_other_tables keep_receipts
    keep_sessions

interpretation mem: auth_store memory_uow memory_wf mem_known mem_fresh
  by (unfold_locales; unfold memory_uow_sel) (blast intro: mem_laws mem_keeps)+

section \<open>Properties of one table kept by every operation\<close>

lemmas mem_ops =
  mem_insertUser_def mem_insertIdentity_def mem_replaceIdentity_def mem_deleteIdentity_def
  mem_lockDigest_def mem_insertChallenge_def mem_saveChallenge_def mem_addFailure_def mem_addSend_def
  mem_insertHandoff_def mem_consumeHandoff_def mem_insertReceipt_def mem_closeReceipt_def
  mem_updateReceiptSession_def mem_insertSession_def mem_revokeSession_def mem_revokeOtherSessions_def
  mem_invalidateUserProofs_def mem_insertAudit_def setStatus_def

lemma sends_frame [port_simps]:
  "sends (snd (mem_insertUser u s)) = sends s" "sends (snd (mem_insertIdentity idr s)) = sends s"
  "sends (snd (mem_replaceIdentity idr v s)) = sends s" "sends (snd (mem_deleteIdentity i ch v s)) = sends s"
  "sends (mem_lockDigest d s) = sends s" "sends (snd (mem_insertChallenge c s)) = sends s"
  "sends (mem_saveChallenge c s) = sends s" "sends (snd (mem_addFailure d p at s)) = sends s"
  "sends (mem_insertHandoff h s) = sends s" "sends (snd (mem_consumeHandoff i at s)) = sends s"
  "sends (snd (mem_insertReceipt r s)) = sends s" "sends (mem_closeReceipt k at s) = sends s"
  "sends (mem_updateReceiptSession k i d s) = sends s" "sends (mem_insertSession ss s) = sends s"
  "sends (snd (mem_revokeSession d at s)) = sends s" "sends (mem_revokeOtherSessions i d at s) = sends s"
  "sends (mem_invalidateUserProofs i at s) = sends s" "sends (mem_insertAudit a s) = sends s"
  "sends (setStatus i st s) = sends s"
  by (simp_all add: mem_ops Let_def split: option.split)

lemma receipts_frame [port_simps]:
  "receipts (snd (mem_insertUser u s)) = receipts s" "receipts (snd (mem_insertIdentity idr s)) = receipts s"
  "receipts (snd (mem_replaceIdentity idr v s)) = receipts s"
  "receipts (snd (mem_deleteIdentity i ch v s)) = receipts s"
  "receipts (mem_lockDigest d s) = receipts s" "receipts (snd (mem_insertChallenge c s)) = receipts s"
  "receipts (mem_saveChallenge c s) = receipts s" "receipts (snd (mem_addFailure d p at s)) = receipts s"
  "receipts (mem_addSend sc k at s) = receipts s"
  "receipts (mem_insertHandoff h s) = receipts s" "receipts (snd (mem_consumeHandoff i at s)) = receipts s"
  "receipts (mem_insertSession ss s) = receipts s" "receipts (snd (mem_revokeSession d at s)) = receipts s"
  "receipts (mem_revokeOtherSessions i d at s) = receipts s"
  "receipts (mem_invalidateUserProofs i at s) = receipts s" "receipts (mem_insertAudit a s) = receipts s"
  "receipts (setStatus i st s) = receipts s"
  by (simp_all add: mem_ops Let_def split: option.split)

lemma handoffs_frame [port_simps]:
  "handoffs (snd (mem_insertUser u s)) = handoffs s" "handoffs (snd (mem_insertIdentity idr s)) = handoffs s"
  "handoffs (snd (mem_replaceIdentity idr v s)) = handoffs s"
  "handoffs (snd (mem_deleteIdentity i ch v s)) = handoffs s"
  "handoffs (mem_lockDigest d s) = handoffs s" "handoffs (snd (mem_insertChallenge c s)) = handoffs s"
  "handoffs (mem_saveChallenge c s) = handoffs s" "handoffs (snd (mem_addFailure d p at s)) = handoffs s"
  "handoffs (mem_addSend sc k at s) = handoffs s" "handoffs (snd (mem_insertReceipt r s)) = handoffs s"
  "handoffs (mem_closeReceipt k at s) = handoffs s" "handoffs (mem_updateReceiptSession k i d s) = handoffs s"
  "handoffs (mem_insertSession ss s) = handoffs s" "handoffs (snd (mem_revokeSession d at s)) = handoffs s"
  "handoffs (mem_revokeOtherSessions i d at s) = handoffs s" "handoffs (mem_insertAudit a s) = handoffs s"
  "handoffs (setStatus i st s) = handoffs s"
  by (simp_all add: mem_ops Let_def split: option.split)

text \<open>Any property of the store that each writing operation but \<open>addSend\<close> keeps gives another instance
  of the contract's core.\<close>

lemma keep_conj: "store_keeps ok known s s' \<Longrightarrow> P s' \<Longrightarrow> store_keeps (\<lambda>s. ok s \<and> P s) known s s'"
  by (simp add: store_keeps_def)

lemma core_with:
  assumes "\<And>u s. P s \<Longrightarrow> P (snd (mem_insertUser u s))" "\<And>r s. P s \<Longrightarrow> P (snd (mem_insertIdentity r s))"
    "\<And>r v s. P s \<Longrightarrow> P (snd (mem_replaceIdentity r v s))"
    "\<And>i ch v s. P s \<Longrightarrow> P (snd (mem_deleteIdentity i ch v s))" "\<And>d s. P s \<Longrightarrow> P (mem_lockDigest d s)"
    "\<And>c s. P s \<Longrightarrow> P (snd (mem_insertChallenge c s))" "\<And>c s. P s \<Longrightarrow> P (mem_saveChallenge c s)"
    "\<And>d p at s. P s \<Longrightarrow> P (snd (mem_addFailure d p at s))" "\<And>h s. P s \<Longrightarrow> P (mem_insertHandoff h s)"
    "\<And>i at s. P s \<Longrightarrow> P (snd (mem_consumeHandoff i at s))" "\<And>r s. P s \<Longrightarrow> P (snd (mem_insertReceipt r s))"
    "\<And>k at s. P s \<Longrightarrow> P (mem_closeReceipt k at s)" "\<And>k i h s. P s \<Longrightarrow> P (mem_updateReceiptSession k i h s)"
    "\<And>r s. P s \<Longrightarrow> P (mem_insertSession r s)" "\<And>h at s. P s \<Longrightarrow> P (snd (mem_revokeSession h at s))"
    "\<And>i h at s. P s \<Longrightarrow> P (mem_revokeOtherSessions i h at s)"
    "\<And>i at s. P s \<Longrightarrow> P (mem_invalidateUserProofs i at s)" "\<And>r s. P s \<Longrightarrow> P (mem_insertAudit r s)"
  shows "auth_store_core memory_uow (\<lambda>s. memory_wf s \<and> P s) mem_known mem_fresh"
  by (unfold_locales; unfold memory_uow_sel) (blast intro: mem_laws keep_conj mem_keeps assms)+

text \<open>The send limits: a send is preceded, in the fifteen minutes before it, by fewer sends of the same
  scope and key than the scope allows. Only \<open>reserve\<close> records sends.\<close>

definition earlier_sends :: "send_row list \<Rightarrow> send_row \<Rightarrow> send_row list" where
  "earlier_sends us r = filter (\<lambda>x. snd_scope x = snd_scope r \<and> snd_key x = snd_key r \<and>
     \<not> after (snd_at r - WINDOW_MS) (snd_at x)) us"

definition send_limit :: "send_row \<Rightarrow> nat" where
  "send_limit r = (if snd_scope r = js ''target'' then TARGET_SENDS
     else if snd_scope r = js ''source'' then SOURCE_SENDS else GLOBAL_SENDS)"

definition sends_limited :: "send_row list \<Rightarrow> bool" where
  "sends_limited rs \<longleftrightarrow> (\<forall>us r vs. rs = us @ r # vs \<longrightarrow> length (earlier_sends us r) < send_limit r)"

lemma sends_limited_snoc:
  "sends_limited (rs @ [r]) \<longleftrightarrow> sends_limited rs \<and> length (earlier_sends rs r) < send_limit r"
proof -
  have "rs @ [r] = us @ x # vs \<longleftrightarrow> (vs = [] \<and> us = rs \<and> x = r) \<or> (\<exists>vs'. vs = vs' @ [r] \<and> rs = us @ x # vs')" for us x vs
    by (cases vs rule: rev_cases) auto
  then show ?thesis unfolding sends_limited_def by (metis (no_types, lifting))
qed

interpretation limited: auth_store_core memory_uow "\<lambda>s. memory_wf s \<and> sends_limited (sends s)" mem_known mem_fresh
  by (rule core_with) (simp_all add: port_simps)

text \<open>A closed receipt, under a key, and a used handoff, under a token hash.\<close>

definition receipt_closed :: "jstr \<Rightarrow> memory_state \<Rightarrow> bool" where
  "receipt_closed k s \<longleftrightarrow> (\<exists>r. mem_findReceipt k s = Some r \<and> rcp_closedAt r \<noteq> None)"

definition handoff_used :: "jstr \<Rightarrow> memory_state \<Rightarrow> bool" where
  "handoff_used h s \<longleftrightarrow> (\<exists>r. mem_findHandoff h s = Some r \<and> hnd_consumedAt r \<noteq> None)"

lemma closed_insertReceipt: "receipt_closed k s \<Longrightarrow> receipt_closed k (snd (mem_insertReceipt r s))"
  by (auto simp: receipt_closed_def mem_findReceipt_def mem_insertReceipt_def find_append)

lemma closed_updates:
  assumes "receipt_closed k s"
  shows "receipt_closed k (mem_closeReceipt k' at s)"
    and "receipt_closed k (mem_updateReceiptSession k' i h s)"
proof -
  obtain r where r: "List.find (\<lambda>r. rcp_keyHash r = k) (receipts s) = Some r" "rcp_closedAt r \<noteq> None"
    using assms by (auto simp: receipt_closed_def mem_findReceipt_def)
  let ?close = "\<lambda>r. if rcp_closedAt r = None then r\<lparr>rcp_closedAt := Some at\<rparr> else r"
  let ?upd = "\<lambda>r. r\<lparr>rcp_sessionId := i, rcp_sessionTokenHash := h\<rparr>"
  have "rcp_keyHash (?close y) = k \<longleftrightarrow> rcp_keyHash y = k" for y by simp
  from find_update_other [OF r(1), of ?close, OF this, of "\<lambda>r. rcp_keyHash r = k'"] r(2)
  show "receipt_closed k (mem_closeReceipt k' at s)"
    by (auto simp: receipt_closed_def mem_findReceipt_def mem_closeReceipt_def)
  have "rcp_keyHash (?upd y) = k \<longleftrightarrow> rcp_keyHash y = k" for y by simp
  from find_update_other [OF r(1), of ?upd, OF this, of "\<lambda>r. rcp_keyHash r = k'"] r(2)
  show "receipt_closed k (mem_updateReceiptSession k' i h s)"
    by (auto simp: receipt_closed_def mem_findReceipt_def mem_updateReceiptSession_def)
qed

lemma used_insertHandoff: "handoff_used h s \<Longrightarrow> handoff_used h (mem_insertHandoff row s)"
  by (auto simp: handoff_used_def mem_findHandoff_def mem_insertHandoff_def find_append)

lemma used_consumeHandoff:
  assumes "handoff_used h s"
  shows "handoff_used h (snd (mem_consumeHandoff i at s))"
proof -
  obtain r where r: "List.find (\<lambda>r. hnd_tokenHash r = h) (handoffs s) = Some r" "hnd_consumedAt r \<noteq> None"
    using assms by (auto simp: handoff_used_def mem_findHandoff_def)
  show ?thesis
  proof (cases "fst (mem_consumeHandoff i at s) = Consume_ok")
    case False
    then have "snd (mem_consumeHandoff i at s) = s"
      by (auto simp: mem_consumeHandoff_def split: option.splits if_splits)
    with assms show ?thesis by simp
  next
    case True
    then obtain row where row: "List.find (\<lambda>item. hnd_id item = i) (handoffs s) = Some row"
      by (auto simp: mem_consumeHandoff_def split: option.splits)
    have u: "update_first (\<lambda>item. hnd_id item = i) (\<lambda>_. row\<lparr>hnd_consumedAt := Some at\<rparr>) (handoffs s) =
        update_first (\<lambda>item. hnd_id item = i) (\<lambda>y. y\<lparr>hnd_consumedAt := Some at\<rparr>) (handoffs s)"
      using row by (intro update_first_at) simp
    show ?thesis
      using find_update_other [OF r(1), of "\<lambda>y. y\<lparr>hnd_consumedAt := Some at\<rparr>" "\<lambda>item. hnd_id item = i"]
        True row r(2)
      by (auto simp: handoff_used_def mem_findHandoff_def mem_consumeHandoff_def u split: if_splits)
  qed
qed

lemma used_invalidate:
  assumes "handoff_used h s"
  shows "handoff_used h (mem_invalidateUserProofs i at s)"
proof -
  let ?f = "\<lambda>r. if hnd_userId r = Some i \<and> hnd_consumedAt r = None then r\<lparr>hnd_consumedAt := Some at\<rparr> else r"
  have f: "List.find (\<lambda>r. hnd_tokenHash r = h) (map ?f (handoffs s)) =
      map_option ?f (List.find (\<lambda>r. hnd_tokenHash r = h) (handoffs s))"
    by (rule find_map_keep) simp
  obtain r where "List.find (\<lambda>r. hnd_tokenHash r = h) (handoffs s) = Some r" "hnd_consumedAt r \<noteq> None"
    using assms by (auto simp: handoff_used_def mem_findHandoff_def)
  then have "List.find (\<lambda>r. hnd_tokenHash r = h) (map ?f (handoffs s)) = Some r" unfolding f by simp
  with \<open>hnd_consumedAt r \<noteq> None\<close> show ?thesis
    by (simp add: handoff_used_def mem_findHandoff_def mem_invalidateUserProofs_def)
qed

interpretation closed: auth_store memory_uow "\<lambda>s. memory_wf s \<and> receipt_closed k s" mem_known mem_fresh for k
proof (rule auth_store.intro)
  show "auth_store_core memory_uow (\<lambda>s. memory_wf s \<and> receipt_closed k s) mem_known mem_fresh"
    by (rule core_with; (erule closed_insertReceipt closed_updates)?;
        simp add: receipt_closed_def mem_findReceipt_def port_simps)
  show "auth_store_axioms memory_uow (\<lambda>s. memory_wf s \<and> receipt_closed k s) mem_known"
    by (simp add: auth_store_axioms_def keep_conj keep_other_tables receipt_closed_def mem_findReceipt_def port_simps)
qed

interpretation used: auth_store memory_uow "\<lambda>s. memory_wf s \<and> handoff_used h s" mem_known mem_fresh for h
proof (rule auth_store.intro)
  show "auth_store_core memory_uow (\<lambda>s. memory_wf s \<and> handoff_used h s) mem_known mem_fresh"
    by (rule core_with; (erule used_insertHandoff used_consumeHandoff used_invalidate)?;
        simp add: handoff_used_def mem_findHandoff_def port_simps)
  show "auth_store_axioms memory_uow (\<lambda>s. memory_wf s \<and> handoff_used h s) mem_known"
    by (simp add: auth_store_axioms_def keep_conj keep_other_tables handoff_used_def mem_findHandoff_def port_simps)
qed

end
