(* ===== verification/AuthSample.thy ===== *)
theory AuthSample
  imports AuthFactors
begin

text \<open>
  Sample configurations and stores for the witnesses of the authentication properties: a service over
  the sample platform, and an account with a verified email and phone, a live session and a
  re-authentication handoff.
\<close>

definition sample_opts :: auth_options where
  "sample_opts = \<lparr>opt_environment = Development, opt_profile = Full_local, opt_keys = sample_keys,
     opt_emailMode = Local_capture, opt_phoneMode = Some Simulated,
     opt_delivery = \<lparr>sendEmail = \<lambda>_ _. Replied (Dlv_accepted [109]), sendPhone = \<lambda>_ _ _. Replied (Dlv_accepted [109]),
       checkPhone = \<lambda>_ _ _. Check_pass\<rparr>,
     opt_randomBytes = \<lambda>n k. replicate k (of_nat n), opt_sessionTtlMs = 1000, opt_profileValid = \<lambda>_. True\<rparr>"

definition sample_target :: auth_target where
  "sample_target = \<lparr>tgt_digest = [1], tgt_destination = [97], tgt_masked = [42], tgt_ciphertext = [],
     tgt_userId = None, tgt_sessionHash = None, tgt_expectedVersion = None, tgt_reauthHash = None\<rparr>"

definition empty_world :: "memory_state auth_world" where
  "empty_world = \<lparr>store = emptyState, draws = 10\<rparr>"

definition sample_session_hash :: jstr where "sample_session_hash = hashSessionToken sample_platform [7]"
definition sample_reauth_hash :: jstr where "sample_reauth_hash = hashSessionToken sample_platform [8]"

definition sample_user :: stored_user where
  "sample_user = \<lparr>usr_id = [117], usr_handle = [104], usr_displayName = [110], usr_status = Active\<rparr>"

definition sample_email :: stored_identity where
  "sample_email = \<lparr>idn_id = [1], idn_userId = [117], idn_kind = Email, idn_lookupDigest = [1],
     idn_ciphertext = [], idn_lookupKeyVersion = 1, idn_verificationMode = Local_capture,
     idn_environment = Development, idn_version = 1, idn_verifiedAt = 0\<rparr>"

definition sample_phone :: stored_identity where
  "sample_phone = \<lparr>idn_id = [2], idn_userId = [117], idn_kind = Phone, idn_lookupDigest = [2],
     idn_ciphertext = [], idn_lookupKeyVersion = 1, idn_verificationMode = Simulated,
     idn_environment = Development, idn_version = 1, idn_verifiedAt = 0\<rparr>"

definition sample_session :: memory_session where
  "sample_session = \<lparr>ssn_id = [115], ssn_tokenHash = sample_session_hash, ssn_userId = [117], ssn_issuedAt = 0,
     ssn_expiresAt = 10000000, ssn_authEnvironment = Development, ssn_authChannel = Email, ssn_revokedAt = None\<rparr>"

definition sample_reauth :: "iso \<Rightarrow> stored_handoff" where
  "sample_reauth expires = \<lparr>hnd_id = [104], hnd_tokenHash = sample_reauth_hash, hnd_purpose = Reauth,
     hnd_channel = Email, hnd_targetDigest = [1], hnd_ciphertext = [], hnd_providerMode = Local_capture,
     hnd_environment = Development, hnd_userId = Some [117], hnd_sessionHash = Some sample_session_hash,
     hnd_expectedVersion = Some 1, hnd_expiresAt = expires, hnd_consumedAt = None\<rparr>"

definition sample_store :: "iso \<Rightarrow> memory_state" where
  "sample_store expires = emptyState\<lparr>users := [sample_user], identities := [sample_email, sample_phone],
     sessions := [sample_session], handoffs := [sample_reauth expires]\<rparr>"

definition sample_world :: "iso \<Rightarrow> memory_state auth_world" where
  "sample_world expires = \<lparr>store = sample_store expires, draws = 10\<rparr>"

text \<open>A delivered challenge for the sample email contact whose code is \<open>11\<close>.\<close>

definition sample_challenge :: "auth_purpose \<Rightarrow> stored_challenge" where
  "sample_challenge purpose = \<lparr>chl_id = [99], chl_channel = Email, chl_purpose = purpose, chl_targetDigest = [1],
     chl_ciphertext = [], chl_verifier = Some (otpVerifier sample_platform sample_keys [99] (purpose_str purpose) [1] [49, 49]),
     chl_strategy = Application_otp, chl_providerMode = Local_capture, chl_environment = Development,
     chl_userId = None, chl_sessionHash = None, chl_continuationHash = hashSessionToken sample_platform [5],
     chl_expectedVersion = None, chl_reauthHash = None, chl_providerCorrelation = None, chl_expiresAt = 1000,
     chl_attempts = 0, chl_resendAvailableAt = 60, chl_supersededAt = None, chl_completedAt = None,
     chl_invalidatedAt = None, chl_deliveryState = Delivery_accepted, chl_idempotencyHash = [6], chl_createdAt = 0\<rparr>"

definition challenge_world :: "stored_challenge \<Rightarrow> memory_state auth_world" where
  "challenge_world c = \<lparr>store = (sample_store 1000)\<lparr>challenges := [c]\<rparr>, draws = 10\<rparr>"

lemmas sample_defs = sample_challenge_def challenge_world_def sample_opts_def sample_target_def empty_world_def sample_session_hash_def
  sample_reauth_hash_def sample_user_def sample_email_def sample_phone_def sample_session_def
  sample_reauth_def sample_store_def sample_world_def sample_platform_def sample_keys_def emptyState_def

lemma sample_opts_sel [simp]:
  "opt_environment sample_opts = Development" "opt_keys sample_opts = sample_keys"
  "opt_emailMode sample_opts = Local_capture" "opt_phoneMode sample_opts = Some Simulated"
  "opt_randomBytes sample_opts n k = replicate k (of_nat n)" "opt_profileValid sample_opts u"
  by (simp_all add: sample_opts_def)

lemma sample_challenge_sel [simp]:
  "chl_id (sample_challenge p) = [99]" "chl_channel (sample_challenge p) = Email"
  "chl_purpose (sample_challenge p) = p" "chl_targetDigest (sample_challenge p) = [1]"
  "chl_strategy (sample_challenge p) = Application_otp" "chl_attempts (sample_challenge p) = 0"
  "chl_continuationHash (sample_challenge p) = hashSessionToken sample_platform [5]"
  by (simp_all add: sample_challenge_def)

lemma sample_otp: "2 < n \<Longrightarrow> generateEmailOtp sample_platform n = Some ([55, 55, 55, 55, 55, 55], n + 6)"
  by (simp add: generateEmailOtp_def otp_loop.simps sample_platform_def)

lemmas reserve_run_defs = reserve_def reserve_insert_def make_code_def sample_otp empty_world_def emptyState_def
  mem_failureCount_def mem_findChallengeByIdempotency_def mem_openChallenge_def sends_exhausted_def
  mem_sendCount_def TARGET_SENDS_def SOURCE_SENDS_def GLOBAL_SENDS_def MAX_ATTEMPTS_def modeFor_def
  mem_insertChallenge_def

end
