(* ===== verification/AuthRuns.thy ===== *)
theory AuthRuns
  imports AuthInvariant AuthSample
begin

text \<open>
  Runs of the authentication service over the in-memory store: one step per committed or rolled-back
  transaction of \<open>CommunityAuthService\<close>, with any argument and any clock reading, one per draw of
  the random generators outside a transaction, and one for an administrator's \<open>setStatus\<close>. The port
  serialises transactions, so an interleaving of requests is a sequence of these steps.
\<close>

section \<open>Steps and runs\<close>

inductive auth_step ::
    "webcrypto \<Rightarrow> auth_options \<Rightarrow> memory_state auth_world \<Rightarrow> memory_state auth_world \<Rightarrow> bool"
  for wc :: webcrypto and opts :: auth_options where
  draw_step: "auth_step wc opts w (drawn w)"
| status_step: "auth_step wc opts w (upd (setStatus userId status) w)"
| reserve_step: "auth_step wc opts w
    (snd (transactional (reserve memory_uow wc opts channel purpose key source target at) w))"
| mark_step: "auth_step wc opts w (snd (transactional (mark_delivery memory_uow cid delivery) w))"
| verify_step: "auth_step wc opts w
    (snd (transactional (finishVerify memory_uow wc opts cid code key continuationHash passed at) w))"
| confirm_step: "fresh_draws mem_fresh opts w \<Longrightarrow> auth_step wc opts w
    (snd (transactional (confirmRegistration_body memory_uow wc opts tokenHash displayName key at) w))"
| complete_step: "fresh_draws mem_fresh opts w \<Longrightarrow> auth_step wc opts w
    (snd (transactional (completeFactor_body memory_uow wc opts cid code continuationHash sessionHash
       reauthHash expectedVersion key passed at) w))"
| unlink_step: "auth_step wc opts w
    (snd (transactional (unlinkFactor_body memory_uow wc opts channel sessionHash reauthHash
       expectedVersion key at) w))"
| sign_out_step: "auth_step wc opts w (snd (transactional (signOut_body memory_uow tokenHash at) w))"

inductive auth_run ::
    "webcrypto \<Rightarrow> auth_options \<Rightarrow> memory_state auth_world \<Rightarrow> memory_state auth_world \<Rightarrow> bool"
  for wc :: webcrypto and opts :: auth_options where
  run_refl: "auth_run wc opts w w"
| run_step: "auth_run wc opts w w' \<Longrightarrow> auth_step wc opts w' w'' \<Longrightarrow> auth_run wc opts w w''"

lemma run_one: "auth_step wc opts w w' \<Longrightarrow> auth_run wc opts w w'"
  by (rule run_step [OF run_refl])

lemma run_trans: "auth_run wc opts w' w'' \<Longrightarrow> auth_run wc opts w w' \<Longrightarrow> auth_run wc opts w w''"
  by (induction rule: auth_run.induct) (auto intro: run_step)

text \<open>A store property every step keeps holds at the end of a run. The transactions keep it when it is an
  instance of the contract's core; \<open>setStatus\<close> and \<open>reserve\<close> are left to the instance.\<close>

lemma step_keeps:
  assumes core: "auth_store_core memory_uow ok mem_known mem_fresh"
    and status: "\<And>i st s. ok s \<Longrightarrow> ok (setStatus i st s)"
    and res: "\<And>ch p key src tgt at w. ok (store w) \<Longrightarrow>
      ok (store (snd (reserve memory_uow wc opts ch p key src tgt at w)))"
    and step: "auth_step wc opts w w'" and init: "ok (store w)"
  shows "ok (store w')"
  using step init
proof cases
  case (reserve_step channel purpose key source target at)
  then show ?thesis using init res by (simp add: transactional_state)
next
  case (mark_step cid delivery)
  then show ?thesis using init auth_store_core.mark_delivery_inv [OF core] by (simp add: transactional_state)
next
  case (verify_step cid code key continuationHash passed at)
  then show ?thesis using init auth_store_core.finishVerify_inv [OF core] by (simp add: transactional_state)
next
  case (confirm_step tokenHash displayName key at)
  then show ?thesis using init auth_store_core.confirm_body_inv [OF core] by (simp add: transactional_state)
next
  case (complete_step cid code continuationHash sessionHash reauthHash expectedVersion key passed at)
  then show ?thesis using init auth_store_core.completeFactor_body_inv [OF core] by (simp add: transactional_state)
next
  case (unlink_step channel sessionHash reauthHash expectedVersion key at)
  then show ?thesis using init auth_store_core.unlinkFactor_body_inv [OF core] by (simp add: transactional_state)
next
  case (sign_out_step tokenHash at)
  then show ?thesis using init auth_store_core.signOut_body_inv [OF core] by (simp add: transactional_state)
qed (simp_all add: status)

lemma run_keeps:
  assumes core: "auth_store_core memory_uow ok mem_known mem_fresh"
    and status: "\<And>i st s. ok s \<Longrightarrow> ok (setStatus i st s)"
    and res: "\<And>ch p key src tgt at w. ok (store w) \<Longrightarrow>
      ok (store (snd (reserve memory_uow wc opts ch p key src tgt at w)))"
    and run: "auth_run wc opts w w'" and init: "ok (store w)"
  shows "ok (store w')"
  using run init
  by (induction rule: auth_run.induct) (auto intro: step_keeps [OF core status res])

lemma status_wf: "memory_wf s \<Longrightarrow> memory_wf (setStatus i st s)"
proof -
  assume wf: "memory_wf s"
  let ?us = "update_first (\<lambda>u. usr_id u = i) (\<lambda>u. u\<lparr>usr_status := st\<rparr>) (users s)"
  have m: "map usr_id ?us = map usr_id (users s)" "map usr_handle ?us = map usr_handle (users s)"
    by (simp_all add: map_update_first)
  have "usr_id ` set ?us = usr_id ` set (users s)"
    using arg_cong [OF m(1), of set] by (simp only: set_map)
  then show ?thesis using wf by (simp add: memory_wf_def users_wf_def setStatus_def mem_known_def m)
qed

lemma run_wf: "auth_run wc opts w w' \<Longrightarrow> memory_wf (store w) \<Longrightarrow> memory_wf (store w')"
  by (rule run_keeps [OF mem.auth_store_core_axioms status_wf mem.reserve_inv])

lemma empty_wf: "memory_wf emptyState"
  by (simp add: memory_wf_def emptyState_def users_wf_def identities_wf_def)

lemma run_closed:
  assumes "auth_run wc opts w w'" and "memory_wf (store w)" and "receipt_closed k (store w)"
  shows "receipt_closed k (store w')"
proof -
  have st: "memory_wf (setStatus i st s) \<and> receipt_closed k (setStatus i st s)"
    if "memory_wf s \<and> receipt_closed k s" for i st s
    using that by (simp add: status_wf receipt_closed_def mem_findReceipt_def port_simps)
  have "memory_wf (store w') \<and> receipt_closed k (store w')"
    using assms run_keeps [OF closed.auth_store_core_axioms st closed.reserve_inv assms(1)] by simp
  then show ?thesis ..
qed

lemma run_used:
  assumes "auth_run wc opts w w'" and "memory_wf (store w)" and "handoff_used k (store w)"
  shows "handoff_used k (store w')"
proof -
  have st: "memory_wf (setStatus i st s) \<and> handoff_used k (setStatus i st s)"
    if "memory_wf s \<and> handoff_used k s" for i st s
    using that by (simp add: status_wf handoff_used_def mem_findHandoff_def port_simps)
  have "memory_wf (store w') \<and> handoff_used k (store w')"
    using assms run_keeps [OF used.auth_store_core_axioms st used.reserve_inv assms(1)] by simp
  then show ?thesis ..
qed

section \<open>The public operations are runs\<close>

lemma obind_run:
  assumes "auth_run wc opts w (snd r)"
    and "\<And>v w1. r = (Ok v, w1) \<Longrightarrow> auth_run wc opts w1 (snd (f v w1))"
  shows "auth_run wc opts w (snd (obind r f))"
  using assms run_trans by (cases r; cases "fst r") (auto simp: obind_def)

text \<open>A transaction that only reads leaves the world as it is.\<close>

lemma reads_same:
  assumes "\<And>v. snd (body w) = w"
  shows "snd (transactional body w) = w"
  using assms by (auto simp: transactional_def split: prod.splits outcome.splits)

lemma read_bodies:
  "snd (find_session_user tx h at w) = w" "snd (load_handoff tx h w) = w"
  "snd (load_challenge tx i h w) = w" "snd (reauthenticate_target tx wc opts ch u h w) = w"
  "snd (readAccount_body tx wc opts h at w) = w" "snd (provider_check wc opts c code w) = w"
  by (simp_all add: find_session_user_def load_handoff_def load_challenge_def reauthenticate_target_def
      readAccount_body_def provider_check_def split: option.split check_reply.split)

lemma check_reauth_reads: "snd (check_reauth tx wc p t s at w) = w"
proof -
  have "snd (obind (transactional (load_handoff tx h) w) (\<lambda>r w1. if Q r then (Fail e, w1) else (Ok (Some h), w1))) = w"
    for h Q e
    using reads_same [of "load_handoff tx h" w, OF read_bodies(2)]
    by (cases "transactional (load_handoff tx h) w"; cases "fst (transactional (load_handoff tx h) w)") auto
  then show ?thesis by (auto simp: check_reauth_def Let_def split: option.split)
qed

lemma resolveTarget_run: "auth_run wc opts w (snd (resolveTarget memory_uow wc opts ch p i t s at w))"
proof -
  have c: "auth_run wc opts w (snd (obind (check_reauth memory_uow wc p t s at w) (\<lambda>h w1. (Ok (F h w1), drawn w1))))"
    for F :: "jstr option \<Rightarrow> memory_state auth_world \<Rightarrow> auth_target"
    by (rule obind_run) (auto simp: check_reauth_reads intro: run_refl run_one draw_step)
  show ?thesis
    unfolding resolveTarget_def using c
    by (auto simp: reads_same read_bodies intro: run_refl split: option.split)
qed

lemma optionalSession_run: "auth_run wc opts w (snd (optionalSession memory_uow wc t at w))"
  by (auto simp: optionalSession_def reads_same read_bodies intro: run_refl split: option.split)

lemma sendChallenge_run:
  "auth_run wc opts w (snd (sendChallenge memory_uow wc opts ch p i key src t rt at w))"
proof -
  have r: "auth_run wc opts w' (snd (transactional (reserve memory_uow wc opts ch p key src tgt at) w'))" for w' tgt
    by (rule run_one reserve_step)+
  have m: "auth_run wc opts w' (snd (obind (transactional (mark_delivery memory_uow cid d) w')
      (\<lambda>marked w4. case marked of Dlv_unknown \<Rightarrow> (Fail AUTH_DELIVERY_UNKNOWN, w4)
        | Dlv_failed \<Rightarrow> (Fail AUTH_DELIVERY_FAILED, w4) | Dlv_accepted _ \<Rightarrow> (Ok (F w4), w4))))"
    for w' cid d and F :: "memory_state auth_world \<Rightarrow> challenge_accepted"
    by (rule obind_run) (auto intro: run_one mark_step run_refl split: delivery_outcome.split)
  show ?thesis
    unfolding sendChallenge_def
    by (auto intro!: obind_run run_refl optionalSession_run resolveTarget_run r m split: reservation.split)
qed

lemma verifyChallenge_run:
  "auth_run wc opts w (snd (verifyChallenge memory_uow wc opts cid code ct key at w))"
  unfolding verifyChallenge_def Let_def
  by (intro obind_run) (auto simp: reads_same read_bodies intro: run_refl run_one verify_step)

lemma load_same: "transactional (load_challenge tx i h) w = (Ok c, w1) \<Longrightarrow> w1 = w"
  using reads_same [of "load_challenge tx i h" w, OF read_bodies(3)] by simp

lemma check_same: "provider_check wc opts c code w = (Ok b, w1) \<Longrightarrow> w1 = w"
  using read_bodies(6) [of wc opts c code w] by simp

lemma completeFactor_run:
  assumes "fresh_draws mem_fresh opts w"
  shows "auth_run wc opts w (snd (completeFactor memory_uow wc opts cid code ct rt v key st at w))"
  unfolding completeFactor_def Let_def using assms
  by (intro obind_run)
     (auto simp: reads_same read_bodies intro: run_refl run_one complete_step dest!: load_same check_same)

lemma confirmRegistration_run:
  assumes "fresh_draws mem_fresh opts w"
  shows "auth_run wc opts w (snd (confirmRegistration memory_uow wc opts ht name agreement key at w))"
  using assms by (auto simp: confirmRegistration_def intro: run_refl run_one confirm_step)

text \<open>Every public operation of the service over the in-memory store is a run of the step relation:
  what holds along every run holds after any sequence and interleaving of requests. Relied on: the
  16-byte random ids drawn for new identity rows are not in use.\<close>

theorem public_operations_run:
  assumes "fresh_draws mem_fresh opts w"
  shows "auth_run wc opts w (snd (sendChallenge memory_uow wc opts channel purpose identifier key source token reauth at w)) \<and>
    auth_run wc opts w (snd (verifyChallenge memory_uow wc opts cid code continuation key at w)) \<and>
    auth_run wc opts w (snd (confirmRegistration memory_uow wc opts handoff name agreement key at w)) \<and>
    auth_run wc opts w (snd (readAccount memory_uow wc opts session at w)) \<and>
    auth_run wc opts w (snd (completeFactor memory_uow wc opts cid code continuation reauthToken version key session at w)) \<and>
    auth_run wc opts w (snd (unlinkFactor memory_uow wc opts channel reauthToken version key session at w)) \<and>
    auth_run wc opts w (snd (signOut memory_uow wc session at w))"
  using assms
  by (simp add: sendChallenge_run verifyChallenge_run confirmRegistration_run completeFactor_run
      readAccount_def reads_same read_bodies run_refl unlinkFactor_def signOut_def
      run_one [OF unlink_step] run_one [OF sign_out_step])

lemma sample_world_fresh: "fresh_draws mem_fresh sample_opts (sample_world e)"
  by (auto simp: fresh_draws_def mem_fresh_def sample_defs generateOpaqueId_def js_def)

theorem public_operations_run_witness:
  "auth_run sample_platform sample_opts (sample_world 1000)
     (snd (unlinkFactor memory_uow sample_platform sample_opts Phone [8] 1 [1] [7] 100 (sample_world 1000)))"
  using public_operations_run [OF sample_world_fresh] by blast

section \<open>The store invariant along every run\<close>

text \<open>C1: in every state a run reaches from the empty store, handles and user ids are unique, a verified
  contact belongs to one account and an account has one identity per channel, every identity and
  every session belongs to a stored account, no challenge has more than five attempts, and receipts
  have distinct keys. In a run, the random ids drawn for new identity rows are not in use (\<open>fresh_draws\<close>).\<close>

theorem reachable_store_invariant:
  assumes "auth_run wc opts \<lparr>store = emptyState, draws = n\<rparr> w"
  shows "distinct (map usr_id (users (store w))) \<and> distinct (map usr_handle (users (store w))) \<and>
    distinct (map (\<lambda>r. (idn_kind r, idn_lookupDigest r)) (identities (store w))) \<and>
    distinct (map (\<lambda>r. (idn_userId r, idn_kind r)) (identities (store w))) \<and>
    idn_userId ` set (identities (store w)) \<subseteq> usr_id ` set (users (store w)) \<and>
    ssn_userId ` set (sessions (store w)) \<subseteq> usr_id ` set (users (store w)) \<and>
    list_all (\<lambda>c. chl_attempts c \<le> 5) (challenges (store w)) \<and>
    distinct (map rcp_keyHash (receipts (store w)))"
  using run_wf [OF assms] empty_wf
  by (auto simp: memory_wf_def users_wf_def identities_wf_def mem_known_def MAX_ATTEMPTS_def list_all_iff)

lemma sample_run: "auth_run sample_platform sample_opts empty_world
    (snd (sendChallenge memory_uow sample_platform sample_opts Phone Sign_in (Some (js ''13800138000'')) [1] [2] None None 0 empty_world))"
  by (rule sendChallenge_run)

theorem reachable_store_invariant_witness:
  "list_all (\<lambda>c. chl_attempts c \<le> 5) (challenges (store (snd (sendChallenge memory_uow sample_platform sample_opts
     Phone Sign_in (Some (js ''13800138000'')) [1] [2] None None 0 empty_world))))"
  using reachable_store_invariant [OF sample_run [unfolded empty_world_def]] unfolding empty_world_def by blast

section \<open>Send limits\<close>

lemma reserve_insert_sends:
  "sends (store (snd (reserve_insert memory_uow wc opts ch p tgt at ih sk w))) = sends (store w) \<or>
   sends (store (snd (reserve_insert memory_uow wc opts ch p tgt at ih sk w))) = ((sends (store w) @
      [\<lparr>snd_scope = js ''target'', snd_key = tgt_digest tgt, snd_at = at\<rparr>]) @
      [\<lparr>snd_scope = js ''source'', snd_key = sk, snd_at = at\<rparr>]) @
      [\<lparr>snd_scope = js ''global'', snd_key = js ''global'', snd_at = at\<rparr>]"
proof -
  have "sends (snd (mem_insertChallenge c s)) = sends s" for c s by (simp add: port_simps)
  then show ?thesis
    by (auto simp: reserve_insert_def Let_def mem_addSend_def upd_def split: option.split prod.split)
       (metis snd_conv)+
qed

lemma scopes_differ [simp]:
  "js ''target'' \<noteq> js ''source''" "js ''source'' \<noteq> js ''target''" "js ''global'' \<noteq> js ''target''"
  "js ''target'' \<noteq> js ''global''" "js ''global'' \<noteq> js ''source''" "js ''source'' \<noteq> js ''global''"
  by (simp_all add: js_def)

lemma reserve_insert_limited:
  assumes l: "sends_limited (sends (store w))"
    and c: "\<not> sends_exhausted memory_uow (tgt_digest tgt) sk (at - WINDOW_MS) (store w)"
  shows "sends_limited (sends (store (snd (reserve_insert memory_uow wc opts ch p tgt at ih sk w))))"
  using reserve_insert_sends [of wc opts ch p tgt at ih sk w]
proof
  assume e: "sends (store (snd (reserve_insert memory_uow wc opts ch p tgt at ih sk w))) = ((sends (store w) @
      [\<lparr>snd_scope = js ''target'', snd_key = tgt_digest tgt, snd_at = at\<rparr>]) @
      [\<lparr>snd_scope = js ''source'', snd_key = sk, snd_at = at\<rparr>]) @
      [\<lparr>snd_scope = js ''global'', snd_key = js ''global'', snd_at = at\<rparr>]"
  show ?thesis
    unfolding e sends_limited_snoc using l c
    by (simp add: earlier_sends_def send_limit_def sends_exhausted_def mem_sendCount_def not_le)
qed (simp add: l)

lemma reserve_limited:
  assumes "sends_limited (sends (store w))"
  shows "sends_limited (sends (store (snd (reserve memory_uow wc opts ch p key src tgt at w))))"
proof -
  have x: "sends_exhausted memory_uow d k t (mem_saveChallenge c s) = sends_exhausted memory_uow d k t s" for d k t c s
    by (simp add: sends_exhausted_def mem_sendCount_def port_simps)
  have u: "sends_limited (sends (store (upd (mem_saveChallenge c) w)))" for c
    using assms by (simp add: port_simps)
  show ?thesis
    unfolding reserve_def Let_def using assms u
    by (auto intro!: reserve_insert_limited simp: x split: option.split)
qed

text \<open>C9: along every run, each recorded send of a code was preceded, among the sends dated in the
  fifteen minutes before it, by fewer than eight to the same target, fewer than twenty from the same
  source and fewer than two hundred in all. In a run, the random ids drawn for new identity rows are
  not in use (\<open>fresh_draws\<close>).\<close>

theorem reachable_sends_limited:
  assumes "auth_run wc opts \<lparr>store = emptyState, draws = n\<rparr> w"
    and "sends (store w) = us @ r # vs"
  shows "length (earlier_sends us r) < send_limit r"
proof -
  have st: "memory_wf (setStatus i st s) \<and> sends_limited (sends (setStatus i st s))"
    if "memory_wf s \<and> sends_limited (sends s)" for i st s
    using that by (simp add: status_wf port_simps)
  have rs: "memory_wf (store w') \<and> sends_limited (sends (store w'))"
    if "memory_wf (store w0) \<and> sends_limited (sends (store w0))"
      and "w' = snd (reserve memory_uow wc opts ch p key src tgt at w0)" for w0 w' ch p key src tgt at
    using that mem.reserve_inv reserve_limited by simp
  have "memory_wf (store w) \<and> sends_limited (sends (store w))"
    by (rule run_keeps [OF limited.auth_store_core_axioms st rs assms(1)])
       (simp_all add: empty_wf, simp add: sends_limited_def emptyState_def)
  with assms(2) show ?thesis unfolding sends_limited_def by blast
qed

theorem reachable_sends_limited_witness:
  "\<exists>w r vs. auth_run sample_platform sample_opts \<lparr>store = emptyState, draws = 10\<rparr> w \<and>
     sends (store w) = [] @ r # vs \<and> length (earlier_sends [] r) < send_limit r"
proof -
  let ?w = "snd (transactional (reserve memory_uow sample_platform sample_opts Email Sign_in [1] [2] sample_target 0)
      \<lparr>store = emptyState, draws = 10\<rparr>)"
  have run: "auth_run sample_platform sample_opts \<lparr>store = emptyState, draws = 10\<rparr> ?w"
    by (rule run_one [OF reserve_step])
  have s: "sends (store ?w) = [] @ \<lparr>snd_scope = js ''target'', snd_key = tgt_digest sample_target, snd_at = 0\<rparr> #
      tl (sends (store ?w))"
    by (simp add: reserve_run_defs Let_def transactional_def upd_def mem_addSend_def)
  show ?thesis using run s reachable_sends_limited [OF run s] by blast
qed

end
