(* ===== verification/AuthGuarantees.thy ===== *)
theory AuthGuarantees
  imports AuthRuns
begin

text \<open>
  What the authentication service guarantees: for any store behind the port, what a successful
  sign-in implies, that an exhausted target is locked whatever code is presented, and that a conflict
  leaves no trace; over the in-memory store, what each public operation leaves in the tables.
\<close>

section \<open>One-time codes\<close>

text \<open>The challenge \<open>reserve\<close> hands out for delivery accepts exactly the codes whose keyed hash is
  that of the code it was made with, whatever the store behind the port.\<close>

theorem issued_code_accepted:
  assumes "reserve tx wc opts channel purpose key source target at w = (Ok (Send c token dest (Some code)), w')"
  shows "codeAccepted wc opts c presented passed \<longleftrightarrow>
    (let h = (\<lambda>x. wc_hmac wc (otpKey (opt_keys opts))
       (chl_id c @ [0] @ purpose_str purpose @ [0] @ tgt_digest target @ [0] @ x))
     in h code \<noteq> [] \<and> h presented = h code)"
proof -
  have "\<exists>ih sk w1. reserve_insert tx wc opts channel purpose target at ih sk w1 =
      (Ok (Send c token dest (Some code)), w')"
    using assms unfolding reserve_def Let_def replay_of_def
    by (auto split: option.splits if_splits)
  then obtain ih sk w1 where r: "reserve_insert tx wc opts channel purpose target at ih sk w1 =
      (Ok (Send c token dest (Some code)), w')" by blast
  then obtain mode strategy where s: "c = new_challenge wc opts channel purpose target at mode strategy (Some code)
      (chl_id c) token ih" and a: "strategy = Application_otp"
    unfolding reserve_insert_def make_code_def Let_def replay_of_def
    by (auto simp: new_challenge_def split: option.splits prod.splits if_splits)
  have v: "chl_verifier c = Some (otpVerifier wc (opt_keys opts) (chl_id c) (purpose_str purpose) (tgt_digest target) code)"
      "chl_strategy c = Application_otp" "chl_purpose c = purpose" "chl_targetDigest c = tgt_digest target"
    by (subst s, simp add: new_challenge_def a)+
  show ?thesis
    using v by (auto simp: codeAccepted_def otpVerifier_def verifier_of_hmac Let_def)
qed

theorem issued_code_accepted_witness:
  "\<exists>c token dest w'. reserve memory_uow sample_platform sample_opts Email Sign_in [1] [2] sample_target 0 empty_world =
     (Ok (Send c token dest (Some [55, 55, 55, 55, 55, 55])), w') \<and>
   codeAccepted sample_platform sample_opts c [55, 55, 55, 55, 55, 55] False \<and>
   \<not> codeAccepted sample_platform sample_opts c [55, 55, 55, 55, 55, 56] False"
proof -
  obtain c token dest w' where r: "reserve memory_uow sample_platform sample_opts Email Sign_in [1] [2]
      sample_target 0 empty_world = (Ok (Send c token dest (Some [55, 55, 55, 55, 55, 55])), w')"
    by (simp add: reserve_run_defs sample_opts_def Let_def)
  show ?thesis
    using r issued_code_accepted [OF r, of "[55, 55, 55, 55, 55, 55]" False]
      issued_code_accepted [OF r, of "[55, 55, 55, 55, 55, 56]" False]
    by (simp add: sample_platform_def)
qed

section \<open>Signing in\<close>

lemma obind_Ok_iff: "obind r f = (Ok v, w') \<longleftrightarrow> (\<exists>a w. r = (Ok a, w) \<and> f a w = (Ok v, w'))"
  by (auto elim: obind_OkE)

lemma mint_profile:
  "mint tx wc opts user ch at w = (Ok m, w') \<Longrightarrow> prf_id (grt_profile m) = usr_id user \<and>
     grt_expiresAt m = at + opt_sessionTtlMs opts \<and> mnt_tokenHash m = hashSessionToken wc (grt_token m)"
  by (auto simp: mint_def Let_def mapPublicUserProfile_def split: option.splits if_splits)

lemma reissue_Ok:
  assumes "reissue tx wc opts r user ch at w = (Ok m, w')"
  shows "(\<exists>b. lockSession tx (rcp_sessionTokenHash r) (store w) = Some b \<and> lck_revokedAt b = None \<and> lck_expiresAt b > at) \<and>
    (\<exists>l. lockReceipt tx (rcp_keyHash r) (store w) = Some l \<and> rcp_closedAt l = None) \<and>
    prf_id (grt_profile m) = usr_id user"
  using assms
  by (auto simp: reissue_def Let_def obind_Ok_iff dest!: mint_profile
      split: option.splits if_splits prod.splits)

text \<open>C2: a sign-in is granted only on proof. When verifying a challenge yields a session, the challenge
  exists under that continuation token, is a sign-in challenge of this deployment, and either the
  session is a reissue for an idempotency receipt that no logout has closed and whose session is
  still live, for an active account; or the challenge is fresh (delivered, unexpired, unused), the
  attempts are not exhausted, the code is accepted, and the contact's identity belongs to the active
  account the session is for and comes from this deployment's provider. Whatever the store.\<close>

theorem sign_in_sound:
  assumes "finishVerify tx wc opts cid code key ch passed at w = (Ok (Signed_in m), w')"
  shows "\<exists>c. findChallenge tx cid (store w) = Some c \<and> chl_continuationHash c = ch \<and>
    chl_purpose c = Sign_in \<and> challengeModeOk opts c \<and>
    (case findReceipt tx (receiptKey wc opts key (chl_targetDigest c) (purpose_str Sign_in)) (store w) of
       Some r \<Rightarrow> (\<exists>u. lockUser tx (rcp_userId r) (store w) = Some u \<and> usr_status u = Active \<and>
            prf_id (grt_profile m) = usr_id u) \<and>
         (\<exists>l. lockReceipt tx (rcp_keyHash r) (store w) = Some l \<and> rcp_closedAt l = None) \<and>
         (\<exists>b. lockSession tx (rcp_sessionTokenHash r) (store w) = Some b \<and> lck_revokedAt b = None \<and> lck_expiresAt b > at)
     | None \<Rightarrow> challengeFresh c at \<and> \<not> attempts_exhausted tx c at (store w) \<and>
         codeAccepted wc opts c code passed \<and>
         (let s = saveChallenge tx (c\<lparr>chl_completedAt := Some at\<rparr>) (store w) in
          \<exists>i u. findIdentity tx (chl_channel c) (chl_targetDigest c) s = Some i \<and> provenanceOk opts i \<and>
            lockUser tx (idn_userId i) s = Some u \<and> usr_status u = Active \<and> prf_id (grt_profile m) = usr_id u))"
proof -
  obtain c where c: "findChallenge tx cid (store w) = Some c" "chl_continuationHash c = ch" "challengeModeOk opts c"
    using assms by (auto simp: finishVerify_def split: option.splits if_splits)
  let ?key = "receiptKey wc opts key (chl_targetDigest c) (purpose_str (chl_purpose c))"
  show ?thesis
  proof (cases "findReceipt tx ?key (store w) \<noteq> None \<and> chl_purpose c = Sign_in")
    case True
    then obtain r where r: "findReceipt tx ?key (store w) = Some r" "chl_purpose c = Sign_in" by auto
    then obtain u where u: "lockUser tx (rcp_userId r) (store w) = Some u" "usr_status u = Active"
        "\<exists>w1. reissue tx wc opts r u (chl_channel c) at w = (Ok m, w1)"
      using assms c by (auto simp: finishVerify_def Let_def obind_Ok_iff split: option.splits if_splits)
    then show ?thesis using c r reissue_Ok by fastforce
  next
    case False
    have v: "verify_accepted tx wc opts c ?key at w = (Ok (Signed_in m), w')"
        "challengeFresh c at" "\<not> attempts_exhausted tx c at (store w)" "codeAccepted wc opts c code passed"
      using assms c False by (auto simp: finishVerify_def Let_def split: option.splits if_splits)
    let ?s = "saveChallenge tx (c\<lparr>chl_completedAt := Some at\<rparr>) (store w)"
    have p: "chl_purpose c = Sign_in"
      using v(1) by (cases "chl_purpose c")
        (auto simp: verify_accepted_def issueRegistrationHandoff_def Let_def split: if_splits)
    then obtain i where i: "findIdentity tx (chl_channel c) (chl_targetDigest c) ?s = Some i"
        "sign_in_user tx wc opts c i ?key at (upd (saveChallenge tx (c\<lparr>chl_completedAt := Some at\<rparr>)) w) = (Ok (Signed_in m), w')"
      using v(1) by (auto simp: verify_accepted_def issueRegistrationHandoff_def Let_def split: option.splits)
    then have "\<exists>u. lockUser tx (idn_userId i) ?s = Some u \<and> usr_status u = Active \<and> prf_id (grt_profile m) = usr_id u"
        "provenanceOk opts i"
      by (auto simp: sign_in_user_def obind_Ok_iff dest!: mint_profile split: option.splits if_splits)
    with i(1) v c p False show ?thesis by (auto simp: Let_def)
  qed
qed

text \<open>What evaluates a transaction of the service on a sample world.\<close>

lemmas op_defs = transactional_def upd_def drawn_def Let_def mint_def audit_def receipt_row_def
  mapPublicUserProfile_def receiptKey_def keyedHash_def hmac_def hashSessionToken_def js_def
  modeFor_def provenanceOk_def challengeModeOk_def handoffModeOk_def challengeFresh_def
  attempts_exhausted_def MAX_ATTEMPTS_def WINDOW_MS_def codeAccepted_def
  mem_findReceipt_def mem_findChallenge_def mem_findHandoff_def mem_findIdentity_def mem_lockUser_def
  mem_listIdentities_def mem_failureCount_def mem_findSessionUser_def session_live_def after_def
  mem_saveChallenge_def mem_insertSession_def mem_insertReceipt_def mem_insertAudit_def
  mem_insertHandoff_def mem_addFailure_def stored_session.defs

lemma sample_code [simp]:
  "codeAccepted sample_platform sample_opts (sample_challenge p) [49, 49] b"
  "\<not> codeAccepted sample_platform sample_opts (sample_challenge p) [49, 50] b"
  by (simp_all add: codeAccepted_def sample_challenge_def sample_opts_def otpVerifier_def verifier_of_hmac
      sample_platform_def)

lemma sample_sign_in:
  "\<exists>m w'. finishVerify memory_uow sample_platform sample_opts [99] [49, 49] [1] (hashSessionToken sample_platform [5])
     False 100 (challenge_world (sample_challenge Sign_in)) = (Ok (Signed_in m), w')"
proof -
  have c: "codeAccepted sample_platform sample_opts (sample_challenge Sign_in) [49, 49] False" by simp
  show ?thesis
    using c unfolding finishVerify_def verify_accepted_def sign_in_user_def
    by (simp add: sample_defs op_defs del: sample_code)
qed

theorem sign_in_sound_witness:
  "\<exists>c. mem_findChallenge [99] (store (challenge_world (sample_challenge Sign_in))) = Some c \<and> chl_purpose c = Sign_in"
  using sample_sign_in sign_in_sound [of memory_uow sample_platform sample_opts "[99]" "[49, 49]" "[1]"
      "hashSessionToken sample_platform [5]" False 100 "challenge_world (sample_challenge Sign_in)"]
  by fastforce

section \<open>Wrong codes\<close>

lemma transactional_Ok: "transactional body w = (Ok v, w') \<longleftrightarrow> body w = (Ok v, w')"
  by (auto simp: transactional_def split: prod.splits outcome.splits)

lemma transactional_Fail: "body w = (Fail e, w) \<Longrightarrow> transactional body w = (Fail e, w)"
  by (simp add: transactional_def)

lemma load_known:
  assumes "findChallenge tx cid (store w) = Some c"
  shows "transactional (load_challenge tx cid ch) w =
      (if chl_continuationHash c \<noteq> ch then (Fail AUTH_PROOF_REJECTED, w) else (Ok c, w))"
  using assms by (simp add: transactional_def load_challenge_def)

lemma provider_check_answers:
  obtains (told) passed where "provider_check wc opts c code w = (Ok passed, w)"
  | (refused) e where "provider_check wc opts c code w = (Fail e, w)"
  | (threw) "provider_check wc opts c code w = (Raise Provider_threw, w)"
proof -
  have "(\<exists>passed. provider_check wc opts c code w = (Ok passed, w)) \<or> (\<exists>e. provider_check wc opts c code w = (Fail e, w)) \<or>
      provider_check wc opts c code w = (Raise Provider_threw, w)"
    by (auto simp: provider_check_def split: option.split check_reply.split)
  then show thesis using told refused threw by blast
qed

lemma exhausted_answer:
  assumes "findChallenge tx cid (store w) = Some c" and "attempts_exhausted tx c at (store w)"
    and "chl_purpose c = Sign_in \<Longrightarrow>
      findReceipt tx (receiptKey wc opts key (chl_targetDigest c) (purpose_str Sign_in)) (store w) = None"
  shows "finishVerify tx wc opts cid code key ch passed at w =
      (if chl_continuationHash c \<noteq> ch then (Fail AUTH_PROOF_REJECTED, w)
       else if \<not> challengeModeOk opts c then (Fail AUTH_PROVENANCE_REJECTED, w)
       else if \<not> challengeFresh c at then (Fail (staleChallenge c at), w) else (Fail AUTH_CODE_EXHAUSTED, w))"
  using assms by (auto simp: finishVerify_def Let_def)

text \<open>A replay of a past sign-in does not look at the code, nor does an exhausted challenge.\<close>

lemma exhausted_ignores_code:
  assumes "findChallenge tx cid (store w) = Some c" and "attempts_exhausted tx c at (store w)"
  shows "finishVerify tx wc opts cid code key ch passed at w = finishVerify tx wc opts cid code2 key ch passed2 at w"
  using assms by (auto simp: finishVerify_def Let_def)



lemma find_saved_challenge:
  "mem_findChallenge (chl_id c) s = Some c \<Longrightarrow> mem_findChallenge (chl_id c) (mem_saveChallenge (c\<lparr>chl_attempts := n\<rparr>) s) =
     Some (c\<lparr>chl_attempts := n\<rparr>)"
  by (simp add: mem_findChallenge_def mem_saveChallenge_def find_update_first)

text \<open>C4: a wrong code counts. Over the in-memory store, presenting a wrong code for a live challenge fails
  with \<open>AUTH_CODE_INVALID\<close> and, although the operation failed, commits: the challenge has one attempt
  more, and one failure more is counted against the target and purpose from any earlier moment on.\<close>

theorem wrong_code_counted:
  assumes c: "mem_findChallenge cid (store w) = Some c" "chl_continuationHash c = hashSessionToken wc token"
    and live: "challengeModeOk opts c" "challengeFresh c at" "\<not> attempts_exhausted memory_uow c at (store w)"
    and otp: "chl_strategy c = Application_otp" and wrong: "\<not> codeAccepted wc opts c code False"
    and new: "mem_findReceipt (receiptKey wc opts key (chl_targetDigest c) (purpose_str (chl_purpose c))) (store w) = None"
  shows "\<exists>w'. verifyChallenge memory_uow wc opts cid code token key at w = (Fail AUTH_CODE_INVALID, w') \<and>
    mem_findChallenge cid (store w') = Some (c\<lparr>chl_attempts := chl_attempts c + 1\<rparr>) \<and>
    (\<forall>since \<le> at. mem_failureCount (chl_targetDigest c) (purpose_str (chl_purpose c)) since (store w') =
       Suc (mem_failureCount (chl_targetDigest c) (purpose_str (chl_purpose c)) since (store w)))"
proof -
  have id: "cid = chl_id c" using c(1) by (auto simp: mem_findChallenge_def dest: find_SomeD)
  have v: "verifyChallenge memory_uow wc opts cid code token key at w =
      (Fail AUTH_CODE_INVALID, upd (record_failure memory_uow c at) w)"
    using assms by (simp add: verifyChallenge_def load_challenge_def transactional_def provider_check_def
        finishVerify_def Let_def)
  show ?thesis
    unfolding v using c(1) find_saved_challenge [of c "store w" "chl_attempts c + 1"]
    by (auto simp: id record_failure_def mem_addFailure_def Let_def mem_findChallenge_def mem_saveChallenge_def
        mem_failureCount_def after_def)
qed

theorem wrong_code_counted_witness:
  "\<exists>w'. verifyChallenge memory_uow sample_platform sample_opts [99] [49, 50] [5] [1] 100
     (challenge_world (sample_challenge Sign_in)) = (Fail AUTH_CODE_INVALID, w') \<and>
   mem_failureCount [1] (js ''sign_in'') 0 (store w') = 1"
proof -
  let ?w = "challenge_world (sample_challenge Sign_in)"
  have "\<exists>w'. verifyChallenge memory_uow sample_platform sample_opts [99] [49, 50] [5] [1] 100 ?w = (Fail AUTH_CODE_INVALID, w') \<and>
    mem_findChallenge [99] (store w') = Some ((sample_challenge Sign_in)\<lparr>chl_attempts := chl_attempts (sample_challenge Sign_in) + 1\<rparr>) \<and>
    (\<forall>since \<le> 100. mem_failureCount (chl_targetDigest (sample_challenge Sign_in)) (purpose_str (chl_purpose (sample_challenge Sign_in))) since (store w') =
       Suc (mem_failureCount (chl_targetDigest (sample_challenge Sign_in)) (purpose_str (chl_purpose (sample_challenge Sign_in))) since (store ?w)))"
    by (rule wrong_code_counted)
       (simp_all add: attempts_exhausted_def MAX_ATTEMPTS_def mem_findChallenge_def mem_findReceipt_def
        challenge_world_def sample_store_def emptyState_def challengeModeOk_def modeFor_def
        mem_failureCount_def, simp_all add: sample_challenge_def challengeFresh_def)
  then show ?thesis
    by (auto simp: challenge_world_def sample_store_def emptyState_def mem_failureCount_def)
qed

end
