(* ===== verification/AuthTables.thy ===== *)
theory AuthTables
  imports AuthGuarantees
begin

text \<open>
  What the public operations of the authentication service leave in the tables of the in-memory
  store: atomicity of a conflict, one account per registration handoff, a final sign-out, the
  consequences of a changed factor, and two gaps of the code.
\<close>

section \<open>Conflicts leave no trace\<close>

lemma transactional_conflict:
  assumes "transactional body w = (Fail r, w')" and "\<And>w1. body w \<noteq> (Fail r, w1)"
  shows "store w' = store w"
  using assms by (auto simp: transactional_def split: prod.splits outcome.splits if_splits)

definition never_fails_with :: "auth_reason \<Rightarrow> 'a outcome \<times> 'w \<Rightarrow> bool" where
  "never_fails_with e r \<longleftrightarrow> fst r \<noteq> Fail e"

lemma never_obind: "never_fails_with e r \<Longrightarrow> (\<And>v w. never_fails_with e (f v w)) \<Longrightarrow> never_fails_with e (obind r f)"
  by (cases r; cases "fst r") (auto simp: never_fails_with_def)

lemma never_pairs [simp]:
  "never_fails_with e (Ok v, w)" "never_fails_with e (Rollback x, w)" "never_fails_with e (Raise y, w)"
  "never_fails_with e (Fail x, w) \<longleftrightarrow> e \<noteq> x"
  by (auto simp: never_fails_with_def)

lemma never_mint: "never_fails_with e (mint tx wc opts u ch at w)"
  by (auto simp: mint_def Let_def split: option.split)

lemma never_reissue: "never_fails_with e (reissue tx wc opts r u ch at w)"
  by (auto simp: reissue_def Let_def intro!: never_obind never_mint split: option.split prod.split)

lemma never_newUser: "never_fails_with e (insertNewUser_loop n tx opts name w)"
  by (induction n arbitrary: w) (auto simp: Let_def split: prod.split)

lemma never_register: "never_fails_with e (register_user tx wc opts h name key at w)"
  by (auto simp: register_user_def insertNewUser_def Let_def intro!: never_obind never_newUser never_mint split: prod.split)

lemma never_confirm: "never_fails_with AUTH_IDENTIFIER_CONFLICT (confirmRegistration_body tx wc opts th name key at w)"
  by (auto simp: confirmRegistration_body_def Let_def intro!: never_register never_reissue split: option.split prod.split)

lemma never_finish: "never_fails_with e (finish_factor tx wc opts u hid c ch key p at w)"
  by (auto simp: finish_factor_def Let_def intro!: never_obind never_mint split: prod.split)

lemma never_bind: "never_fails_with AUTH_IDENTIFIER_CONFLICT (bind_identity tx opts c u v at w)"
  by (auto simp: bind_identity_def Let_def split: option.split prod.split)

lemma never_complete: "never_fails_with AUTH_IDENTIFIER_CONFLICT
    (completeFactor_body tx wc opts cid code ch sh rh v key pp at w)"
  by (auto simp: completeFactor_body_def complete_accepted_def with_account_def Let_def
      intro!: never_obind never_reissue never_bind never_finish split: option.split)

text \<open>An identifier conflict is atomic. When confirming a registration or completing a factor change
  answers \<open>AUTH_IDENTIFIER_CONFLICT\<close>, the store is exactly what it was: no user, identity, consumed
  handoff or session of the abandoned operation remains. Whatever the store behind the port.\<close>

theorem conflict_leaves_store:
  "(fst (confirmRegistration tx wc opts handoff name agreement key at w) = Fail AUTH_IDENTIFIER_CONFLICT \<longrightarrow>
      store (snd (confirmRegistration tx wc opts handoff name agreement key at w)) = store w) \<and>
   (fst (completeFactor tx wc opts cid code continuation reauthToken version key session at w) =
        Fail AUTH_IDENTIFIER_CONFLICT \<longrightarrow>
      store (snd (completeFactor tx wc opts cid code continuation reauthToken version key session at w)) = store w)"
proof (intro conjI impI)
  assume "fst (confirmRegistration tx wc opts handoff name agreement key at w) = Fail AUTH_IDENTIFIER_CONFLICT"
  then have "transactional (confirmRegistration_body tx wc opts (hashSessionToken wc handoff) name key at) w =
      (Fail AUTH_IDENTIFIER_CONFLICT, snd (confirmRegistration tx wc opts handoff name agreement key at w))"
    by (auto simp: confirmRegistration_def intro!: prod_eqI split: if_splits)
  then show "store (snd (confirmRegistration tx wc opts handoff name agreement key at w)) = store w"
    by (rule transactional_conflict) (metis never_confirm never_fails_with_def fst_conv)
next
  let ?w' = "snd (completeFactor tx wc opts cid code continuation reauthToken version key session at w)"
  assume a: "fst (completeFactor tx wc opts cid code continuation reauthToken version key session at w) =
      Fail AUTH_IDENTIFIER_CONFLICT"
  let ?l = "transactional (load_challenge tx cid (hashSessionToken wc continuation)) w"
  have l: "snd ?l = w" by (simp add: reads_same read_bodies)
  have lf: "fst ?l \<noteq> Fail AUTH_IDENTIFIER_CONFLICT"
    by (auto simp: load_challenge_def transactional_def split: option.split)
  obtain c where c: "?l = (Ok c, w)"
    using a l lf by (cases ?l; cases "fst ?l") (auto simp: completeFactor_def Let_def)
  have p: "snd (provider_check wc opts c code w) = w" by (rule read_bodies)
  have pf: "fst (provider_check wc opts c code w) \<noteq> Fail AUTH_IDENTIFIER_CONFLICT"
    by (auto simp: provider_check_def split: option.split check_reply.split)
  obtain b where b: "provider_check wc opts c code w = (Ok b, w)"
    using a c p pf by (cases "provider_check wc opts c code w"; cases "fst (provider_check wc opts c code w)")
      (auto simp: completeFactor_def Let_def)
  have "transactional (completeFactor_body tx wc opts cid code (hashSessionToken wc continuation)
      (hashSessionToken wc session) (hashSessionToken wc reauthToken) version key b at) w =
      (Fail AUTH_IDENTIFIER_CONFLICT, ?w')"
    using a c b by (auto simp: completeFactor_def Let_def intro: prod_eqI)
  then show "store ?w' = store w"
    by (rule transactional_conflict) (metis never_complete never_fails_with_def fst_conv)
qed

text \<open>What evaluates a transaction of the service on a sample world.\<close>

lemmas table_defs = transactional_def upd_def drawn_def Let_def mint_def audit_def receipt_row_def
  mapPublicUserProfile_def receiptKey_def keyedHash_def hmac_def hashSessionToken_def js_def
  modeFor_def provenanceOk_def challengeModeOk_def handoffModeOk_def
  mem_findReceipt_def mem_findChallenge_def mem_findHandoff_def mem_findIdentity_def mem_lockUser_def
  mem_listIdentities_def mem_findSessionUser_def session_live_def after_def
  mem_saveChallenge_def mem_insertSession_def mem_insertReceipt_def mem_insertAudit_def
  mem_insertHandoff_def mem_lockDigest_def mem_consumeHandoff_def mem_insertUser_def mem_insertIdentity_def
  stored_session.defs

definition registration_world :: "jstr \<Rightarrow> memory_state auth_world" where
  "registration_world digest = \<lparr>store = (sample_store 1000)\<lparr>handoffs := [(sample_reauth 1000)
     \<lparr>hnd_purpose := Register_confirm, hnd_targetDigest := digest, hnd_userId := None, hnd_sessionHash := None\<rparr>]\<rparr>,
     draws = 10\<rparr>"

theorem conflict_leaves_store_witness:
  "fst (confirmRegistration memory_uow sample_platform sample_opts [8] [110] True [1] 100 (registration_world [1])) =
     Fail AUTH_IDENTIFIER_CONFLICT \<and>
   store (snd (confirmRegistration memory_uow sample_platform sample_opts [8] [110] True [1] 100 (registration_world [1]))) =
     store (registration_world [1])"
proof -
  have "fst (confirmRegistration memory_uow sample_platform sample_opts [8] [110] True [1] 100 (registration_world [1])) =
     Fail AUTH_IDENTIFIER_CONFLICT"
    by (simp add: confirmRegistration_def confirmRegistration_body_def registration_world_def validDisplayName_def
        jtrim_def is_js_space_def table_defs sample_defs)
  then show ?thesis using conflict_leaves_store by blast
qed

section \<open>One account per registration handoff\<close>

lemma insertNewUser_handoffs: "handoffs (store (snd (insertNewUser_loop n memory_uow opts name w))) = handoffs (store w)"
  by (induction n arbitrary: w) (simp_all add: Let_def port_simps split: prod.split, metis port_simps snd_conv)

lemma register_user_handoffs:
  "handoffs (store (snd (register_user memory_uow wc opts h name key at w))) = handoffs (store w)"
proof -
  have m: "handoffs (store (snd (mint memory_uow wc opts u ch at w1))) = handoffs (store w1)" for u ch w1
    by (simp add: mint_def Let_def port_simps split: option.split)
  have a: "handoffs (store (audit memory_uow opts u x at w1)) = handoffs (store w1)" for u x w1
    by (simp add: audit_def port_simps)
  show ?thesis
    unfolding register_user_def insertNewUser_def mem.snd_case_pair
    by (rule obind_state [where P = "\<lambda>s. handoffs s = handoffs (store w)"])
       (auto simp: insertNewUser_handoffs Let_def m a port_simps
         intro!: obind_state [where P = "\<lambda>s. handoffs s = handoffs (store w)"])
qed

lemma reissue_users: "users (store (snd (reissue memory_uow wc opts r u ch at w))) = users (store w)"
proof -
  have m: "users (store (snd (mint memory_uow wc opts u ch at w1))) = users (store w1)" for w1
    by (simp add: mint_def Let_def mem_insertSession_def split: option.split)
  show ?thesis
    unfolding reissue_def Let_def mem.snd_case_pair
    by (auto simp: m mem_revokeSession_def mem_updateReceiptSession_def
        intro!: obind_state [where P = "\<lambda>s. users s = users (store w)"] split: option.split)
qed

text \<open>A confirmation either writes no account or uses its handoff up.\<close>

lemma confirm_uses_handoff:
  assumes ids: "distinct (map hnd_id (handoffs (store w)))"
    and new: "users (store (snd (confirmRegistration_body memory_uow wc opts th name key at w))) \<noteq> users (store w)"
  shows "handoff_used th (store (snd (confirmRegistration_body memory_uow wc opts th name key at w)))"
proof -
  let ?c = "\<lambda>i. mem_consumeHandoff i at (mem_lockDigest d s)"
  have l: "mem_lockDigest d s = s" for d s by (simp add: mem_lockDigest_def)
  have cu: "users (snd (mem_consumeHandoff i at s)) = users s" for i s
    by (simp add: mem_consumeHandoff_def split: option.split)
  obtain h where h: "mem_findHandoff th (store w) = Some h"
    using new by (auto simp: confirmRegistration_body_def split: option.splits)
  have used: "handoff_used th (snd (mem_consumeHandoff (hnd_id h) at (store w)))"
    if "fst (mem_consumeHandoff (hnd_id h) at (store w)) = Consume_ok"
  proof -
    have in_h: "h \<in> set (handoffs (store w))" "hnd_tokenHash h = th"
      using h by (auto simp: mem_findHandoff_def dest: find_SomeD)
    have f: "List.find (\<lambda>r. hnd_id r = hnd_id h) (handoffs (store w)) = Some h"
      by (rule find_by_key [OF ids in_h(1)])
    have "mem_findHandoff th (snd (mem_consumeHandoff (hnd_id h) at (store w))) = Some (h\<lparr>hnd_consumedAt := Some at\<rparr>)"
      using h f that find_update_keyed [OF h [unfolded mem_findHandoff_def] f]
      by (auto simp: mem_findHandoff_def mem_consumeHandoff_def in_h split: if_splits)
    then show ?thesis by (simp add: handoff_used_def)
  qed
  let ?key = "receiptKey wc opts key (hnd_targetDigest h) (js ''register'')"
  have "fst (mem_consumeHandoff (hnd_id h) at (store w)) = Consume_ok \<and>
      snd (confirmRegistration_body memory_uow wc opts th name key at w) =
        snd (register_user memory_uow wc opts h name ?key at
          ((upd (mem_lockDigest (hnd_targetDigest h)) w)\<lparr>store := snd (mem_consumeHandoff (hnd_id h) at (store w))\<rparr>))"
    using new unfolding confirmRegistration_body_def Let_def mem.snd_case_pair
    by (auto simp: h l upd_def cu reissue_users split: option.splits if_splits)
  then have "fst (mem_consumeHandoff (hnd_id h) at (store w)) = Consume_ok"
      "handoffs (store (snd (confirmRegistration_body memory_uow wc opts th name key at w))) =
       handoffs (snd (mem_consumeHandoff (hnd_id h) at (store w)))"
    by (simp_all add: register_user_handoffs)
  with used show ?thesis by (simp add: handoff_used_def mem_findHandoff_def)
qed

lemma used_handoff_no_account:
  assumes "handoff_used th (store w)"
  shows "users (store (snd (confirmRegistration_body memory_uow wc opts th name key at w))) = users (store w)"
proof -
  obtain h where h: "mem_findHandoff th (store w) = Some h" "hnd_consumedAt h \<noteq> None"
    using assms by (auto simp: handoff_used_def)
  then show ?thesis
    unfolding confirmRegistration_body_def Let_def mem.snd_case_pair
    by (auto simp: reissue_users mem_lockDigest_def split: option.split)
qed

lemma transactional_store:
  "store (snd (transactional body w)) = store (snd (body w)) \<or> store (snd (transactional body w)) = store w"
  by (auto simp: transactional_def split: prod.split outcome.split)

text \<open>C6: a registration handoff creates at most one account. If confirming a registration changed the
  user table, then after any run of the service no later confirmation with the same handoff token
  changes it, whatever display name, idempotency key and time it presents. Relied on: the random
  ids of the stored handoffs do not collide, and in a run and in the two confirmations the random ids
  drawn for new identity rows are not in use (\<open>fresh_draws\<close>).\<close>

theorem one_account_per_handoff:
  assumes "memory_wf (store w)" and "distinct (map hnd_id (handoffs (store w)))"
    and "users (store (snd (confirmRegistration memory_uow wc opts token name agreement key at w))) \<noteq> users (store w)"
    and "auth_run wc opts (snd (confirmRegistration memory_uow wc opts token name agreement key at w)) w2"
    and "fresh_draws mem_fresh opts w"
  shows "users (store (snd (confirmRegistration memory_uow wc opts token name2 agreement2 key2 at2 w2))) = users (store w2)"
proof -
  let ?th = "hashSessionToken wc token"
  let ?b = "confirmRegistration_body memory_uow wc opts ?th name key at"
  let ?w1 = "snd (confirmRegistration memory_uow wc opts token name agreement key at w)"
  have w1: "?w1 = snd (transactional ?b w)"
    using assms(3) by (auto simp: confirmRegistration_def split: if_splits)
  then have s: "store ?w1 = store (snd (?b w))" using transactional_store [of ?b w] assms(3) by auto
  then have "handoff_used ?th (store ?w1)" using confirm_uses_handoff assms(2,3) by metis
  moreover have "memory_wf (store ?w1)"
    using run_wf [OF confirmRegistration_run [OF assms(5)] assms(1)] .
  ultimately have "handoff_used ?th (store w2)" using run_used [OF assms(4)] by blast
  then have "users (store (snd (confirmRegistration_body memory_uow wc opts ?th name2 key2 at2 w2))) = users (store w2)"
    by (rule used_handoff_no_account)
  then show ?thesis
    using transactional_store [of "confirmRegistration_body memory_uow wc opts ?th name2 key2 at2" w2]
    by (auto simp: confirmRegistration_def)
qed

lemma insertNewUser_first:
  "insertNewUser tx opts name w = (let user = \<lparr>usr_id = generateOpaqueId (js ''user'') (opt_randomBytes opts) (draws w),
            usr_handle = generateHandle opts (Suc (draws w)), usr_displayName = name, usr_status = Active\<rparr>;
          w1 = drawn (drawn w)
      in case insertUser tx user (store w1) of (result, s2) \<Rightarrow>
           if result = User_ok then (Ok user, w1\<lparr>store := s2\<rparr>)
           else insertNewUser_loop 7 tx opts name (w1\<lparr>store := s2\<rparr>))"
proof -
  have "(8 :: nat) = Suc 7" by simp
  then show ?thesis unfolding insertNewUser_def by (simp only: insertNewUser_loop.simps)
qed

lemma sample_ids_fresh: "fresh_draws mem_fresh sample_opts (w\<lparr>store := (sample_store e)\<lparr>handoffs := hs\<rparr>\<rparr>)"
  by (auto simp: fresh_draws_def mem_fresh_def sample_defs generateOpaqueId_def js_def)

lemma sample_handoff_wf: "memory_wf ((sample_store e)\<lparr>handoffs := hs\<rparr>)"
  by (simp add: memory_wf_def users_wf_def identities_wf_def mem_known_def sample_defs)

theorem one_account_per_handoff_witness:
  "length (users (store (snd (confirmRegistration memory_uow sample_platform sample_opts [8] [110] True [1] 100
     (registration_world [9]))))) = 2 \<and>
   length (users (store (snd (confirmRegistration memory_uow sample_platform sample_opts [8] [111] True [2] 101
     (snd (confirmRegistration memory_uow sample_platform sample_opts [8] [110] True [1] 100 (registration_world [9]))))))) = 2"
proof -
  let ?w1 = "snd (confirmRegistration memory_uow sample_platform sample_opts [8] [110] True [1] 100 (registration_world [9]))"
  have u: "length (users (store ?w1)) = 2"
    by (simp add: confirmRegistration_def confirmRegistration_body_def registration_world_def validDisplayName_def
        jtrim_def is_js_space_def table_defs sample_defs register_user_def insertNewUser_first generateHandle_def
        generateOpaqueId_def)
  have "users (store (snd (confirmRegistration memory_uow sample_platform sample_opts [8] [111] True [2] 101 ?w1))) = users (store ?w1)"
  proof (rule one_account_per_handoff)
    show "memory_wf (store (registration_world [9]))" by (simp add: registration_world_def sample_handoff_wf)
    show "distinct (map hnd_id (handoffs (store (registration_world [9]))))" by (simp add: registration_world_def)
    show "users (store ?w1) \<noteq> users (store (registration_world [9]))"
      using u by (auto simp: registration_world_def sample_store_def)
    show "fresh_draws mem_fresh sample_opts (registration_world [9])"
      using sample_ids_fresh [where w = "registration_world [9]"] by (simp add: registration_world_def)
  qed (rule run_refl)
  with u show ?thesis by simp
qed

section \<open>Sign-out is final\<close>

definition receipt_keys :: "memory_state \<Rightarrow> jstr set" where
  "receipt_keys s = rcp_keyHash ` set (receipts s)"

lemma closeReceipt_closes:
  assumes "k \<in> receipt_keys s"
  shows "receipt_closed k (mem_closeReceipt k at s)"
proof -
  obtain x where x: "List.find (\<lambda>r. rcp_keyHash r = k) (receipts s) = Some x"
    using assms by (cases "List.find (\<lambda>r. rcp_keyHash r = k) (receipts s)") (auto simp: receipt_keys_def dest: find_NoneD)
  moreover from x have "rcp_keyHash x = k" by (auto dest: find_SomeD)
  ultimately show ?thesis
    using find_update_first [OF x, of "\<lambda>r. if rcp_closedAt r = None then r\<lparr>rcp_closedAt := Some at\<rparr> else r"]
    by (auto simp: receipt_closed_def mem_findReceipt_def mem_closeReceipt_def)
qed

lemma revoke_closed: "receipt_closed k (snd (mem_revokeSession d at s)) = receipt_closed k s"
  by (simp add: receipt_closed_def mem_findReceipt_def port_simps)

lemma seal_closes:
  assumes "rcp_keyHash r \<in> receipt_keys s" and "rcp_closedAt r \<noteq> None \<Longrightarrow> receipt_closed (rcp_keyHash r) s"
  shows "receipt_closed (rcp_keyHash r) (sealReceipt memory_uow r h at s)"
  using assms closeReceipt_closes by (simp add: sealReceipt_def Let_def revoke_closed)

lemma seal_keeps:
  "receipt_closed k s \<Longrightarrow> receipt_closed k (sealReceipt memory_uow r h at s)"
  "receipt_keys (sealReceipt memory_uow r h at s) = receipt_keys s"
proof -
  show "receipt_closed k s \<Longrightarrow> receipt_closed k (sealReceipt memory_uow r h at s)"
    using closed_updates(1) by (simp add: sealReceipt_def Let_def revoke_closed)
  have "map rcp_keyHash (receipts (sealReceipt memory_uow r h at s)) = map rcp_keyHash (receipts s)"
    by (simp add: sealReceipt_def Let_def port_simps mem_closeReceipt_def map_update_first)
  from arg_cong [OF this, of set] show "receipt_keys (sealReceipt memory_uow r h at s) = receipt_keys s"
    by (simp only: set_map receipt_keys_def)
qed

lemma seal_all_closes:
  assumes "receipt_closed k s \<or> (\<exists>r \<in> set rs. rcp_keyHash r = k)"
    and "\<And>r. r \<in> set rs \<Longrightarrow> rcp_keyHash r \<in> receipt_keys s \<and> (rcp_closedAt r \<noteq> None \<longrightarrow> receipt_closed (rcp_keyHash r) s)"
  shows "receipt_closed k (seal_all memory_uow rs h at s)"
  using assms
proof (induction rs arbitrary: s)
  case (Cons r rs)
  let ?s = "sealReceipt memory_uow r h at s"
  have "receipt_closed (rcp_keyHash r) ?s" using Cons.prems(2) by (intro seal_closes) auto
  then have "receipt_closed k ?s \<or> (\<exists>r \<in> set rs. rcp_keyHash r = k)"
    using Cons.prems(1) seal_keeps(1) by auto
  then have "receipt_closed k (seal_all memory_uow rs h at ?s)"
    using Cons.prems(2) seal_keeps by (intro Cons.IH) auto
  then show ?case by (simp add: seal_all_def)
qed (simp add: seal_all_def)

text \<open>The receipts of a session's lineage are closed by signing it out.\<close>

lemma stored_receipt_closed:
  assumes "memory_wf s" and "r \<in> set (receipts s)" and "rcp_closedAt r \<noteq> None"
  shows "receipt_closed (rcp_keyHash r) s"
  using find_by_key [of rcp_keyHash "receipts s" r] assms
  by (simp add: memory_wf_def receipt_closed_def mem_findReceipt_def)

lemma sign_out_closes:
  assumes wf: "memory_wf (store w)" and out: "signOut_body memory_uow h at w = (Ok (), w')"
    and sess: "mem_lockSession h (store w) = Some session"
    and r: "r \<in> set (mem_lockReceiptsForSession (lck_id session) (store w))"
  shows "receipt_closed (rcp_keyHash r) (store w')"
proof -
  let ?rs = "mem_lockReceiptsForSession (lck_id session) (store w)"
  have sub: "x \<in> set (receipts (store w))" if "x \<in> set ?rs" for x
    using that by (simp add: mem_lockReceiptsForSession_def)
  have k: "rcp_keyHash x \<in> receipt_keys s \<and> (rcp_closedAt x \<noteq> None \<longrightarrow> receipt_closed (rcp_keyHash x) s)"
    if "x \<in> set ?rs" and "receipts s = receipts (store w)" for x s
    using sub [OF that(1)] stored_receipt_closed [OF wf] that(2)
    by (auto simp: receipt_keys_def receipt_closed_def mem_findReceipt_def)
  show ?thesis
  proof (cases "lck_revokedAt session = None")
    case True
    let ?s1 = "snd (mem_revokeSession h at (store w))"
    have "store w' = seal_all memory_uow (mem_lockReceiptsForSession (lck_id session) ?s1) h at ?s1"
      using out sess True by (auto simp: signOut_body_def mem.snd_case_pair Let_def split: if_splits)
    moreover have "mem_lockReceiptsForSession (lck_id session) ?s1 = ?rs"
      by (simp add: mem_lockReceiptsForSession_def port_simps)
    ultimately show ?thesis
      using r k [of _ ?s1] by (auto simp: port_simps intro!: seal_all_closes)
  next
    case False
    let ?o = "filter (\<lambda>row. rcp_closedAt row = None) ?rs"
    have "store w' = seal_all memory_uow ?o h at (store w)"
      using out sess False by (auto simp: signOut_body_def Let_def split: if_splits)
    moreover have "receipt_closed (rcp_keyHash r) (store w) \<or> (\<exists>x \<in> set ?o. rcp_keyHash x = rcp_keyHash r)"
      using r k [OF r refl] by auto
    ultimately show ?thesis using k by (auto intro!: seal_all_closes)
  qed
qed

text \<open>C5: a sign-out is final for the whole receipt lineage. After signing out succeeds for a session
  (live, or already replaced by a reissue), then in every state a run reaches from there, replaying
  any receipt that names that session as its current or original session never reissues a session:
  the reissue rolls back with \<open>AUTH_PROOF_REJECTED\<close>. In a run, the random ids drawn for new identity
  rows are not in use (\<open>fresh_draws\<close>).\<close>

theorem sign_out_final:
  assumes "memory_wf (store w)"
    and "signOut memory_uow wc token at w = (Ok (), w')"
    and "mem_lockSession (hashSessionToken wc token) (store w) = Some session"
    and "r \<in> set (mem_lockReceiptsForSession (lck_id session) (store w))"
    and "auth_run wc opts w' w2"
    and "mem_findReceipt (rcp_keyHash r) (store w2) = Some r2"
  shows "reissue memory_uow wc opts r2 user channel at2 w2 = (Rollback AUTH_PROOF_REJECTED, w2)"
proof -
  have out: "signOut_body memory_uow (hashSessionToken wc token) at w = (Ok (), w')"
    using assms(2) by (auto simp: signOut_def transactional_def split: prod.splits outcome.splits if_splits)
  have "memory_wf (store w')"
    using mem.signOut_body_inv [of w "hashSessionToken wc token" at] assms(1) out by simp
  then have "receipt_closed (rcp_keyHash r) (store w2)"
    using run_closed [OF assms(5)] sign_out_closes [OF assms(1) out assms(3,4)] by blast
  then have "rcp_closedAt r2 \<noteq> None" using assms(6) by (simp add: receipt_closed_def)
  moreover have "mem_lockReceipt (rcp_keyHash r2) (store w2) = Some r2"
    using assms(6) find_SomeD [OF assms(6) [unfolded mem_findReceipt_def]]
    by (simp add: mem_lockReceipt_def mem_findReceipt_def)
  ultimately show ?thesis by (simp add: reissue_def)
qed

definition signed_in_world :: "memory_state auth_world" where
  "signed_in_world = \<lparr>store = (sample_store 1000)\<lparr>receipts := [\<lparr>rcp_keyHash = [3], rcp_userId = [117],
     rcp_sessionId = [115], rcp_sessionTokenHash = sample_session_hash, rcp_purpose = [1],
     rcp_originSessionId = [115], rcp_closedAt = None\<rparr>]\<rparr>, draws = 10\<rparr>"

theorem sign_out_final_witness:
  "\<exists>w' r2. signOut memory_uow sample_platform [7] 100 signed_in_world = (Ok (), w') \<and>
     mem_findReceipt [3] (store w') = Some r2 \<and>
     reissue memory_uow sample_platform sample_opts r2 sample_user Email 200 w' = (Rollback AUTH_PROOF_REJECTED, w')"
proof -
  let ?h = "hashSessionToken sample_platform [7]"
  obtain w' r2 where o: "signOut memory_uow sample_platform [7] 100 signed_in_world = (Ok (), w')"
      "mem_findReceipt [3] (store w') = Some r2"
    by (simp add: signOut_def signOut_body_def signed_in_world_def sample_store_def emptyState_def sample_session_def
        sample_session_hash_def mem_lockSession_def mem_revokeSession_def session_live_def after_def
        mem_lockReceiptsForSession_def seal_all_def sealReceipt_def mem_closeReceipt_def upd_def transactional_def
        mem_findReceipt_def Let_def)
  let ?s = "\<lparr>lck_id = [115], lck_tokenHash = ?h, lck_userId = [117], lck_expiresAt = 10000000, lck_revokedAt = None\<rparr>"
  let ?r = "\<lparr>rcp_keyHash = [3], rcp_userId = [117], rcp_sessionId = [115], rcp_sessionTokenHash = sample_session_hash,
     rcp_purpose = [1], rcp_originSessionId = [115], rcp_closedAt = None\<rparr>"
  have "reissue memory_uow sample_platform sample_opts r2 sample_user Email 200 w' = (Rollback AUTH_PROOF_REJECTED, w')"
  proof (rule sign_out_final [where session = ?s and r = ?r])
    show "memory_wf (store signed_in_world)"
      by (simp add: memory_wf_def users_wf_def identities_wf_def mem_known_def sample_defs signed_in_world_def)
    show "mem_lockSession ?h (store signed_in_world) = Some ?s"
      by (simp add: mem_lockSession_def signed_in_world_def sample_store_def sample_session_def sample_session_hash_def)
    show "?r \<in> set (mem_lockReceiptsForSession (lck_id ?s) (store signed_in_world))"
      by (simp add: mem_lockReceiptsForSession_def signed_in_world_def)
    show "mem_findReceipt (rcp_keyHash ?r) (store w') = Some r2" using o by simp
  qed (use o in \<open>auto intro: run_refl\<close>)
  with o show ?thesis by blast
qed

section \<open>Changing a login factor\<close>

text \<open>What is left of an account's other credentials once a factor has changed: only the new session is
  live, and no earlier challenge or handoff of the account can still be used.\<close>

definition only_session :: "jstr \<Rightarrow> jstr \<Rightarrow> memory_state \<Rightarrow> bool" where
  "only_session userId tokenHash s \<longleftrightarrow>
     (\<forall>r \<in> set (sessions s). ssn_userId r = userId \<and> ssn_revokedAt r = None \<longrightarrow> ssn_tokenHash r = tokenHash)"

definition proofs_closed :: "jstr \<Rightarrow> memory_state \<Rightarrow> bool" where
  "proofs_closed userId s \<longleftrightarrow>
     (\<forall>c \<in> set (challenges s). chl_userId c = Some userId \<longrightarrow> chl_completedAt c \<noteq> None \<or> chl_invalidatedAt c \<noteq> None) \<and>
     (\<forall>h \<in> set (handoffs s). hnd_userId h = Some userId \<longrightarrow> hnd_consumedAt h \<noteq> None)"

lemma invalidate_closes: "proofs_closed i (mem_invalidateUserProofs i at s)"
  by (auto simp: proofs_closed_def mem_invalidateUserProofs_def)

lemma revoke_others_only: "only_session i h (mem_revokeOtherSessions i h at s)"
proof -
  let ?f = "\<lambda>r. if ssn_userId r = i \<and> ssn_tokenHash r \<noteq> h \<and> ssn_revokedAt r = None
      then r\<lparr>ssn_revokedAt := Some at\<rparr> else r"
  have "sessions (mem_revokeOtherSessions i h at s) = map ?f (sessions s)"
    by (simp add: mem_revokeOtherSessions_def)
  moreover have "ssn_userId (?f r) = i \<and> ssn_revokedAt (?f r) = None \<longrightarrow> ssn_tokenHash (?f r) = h" for r
    by auto
  ultimately show ?thesis unfolding only_session_def by (simp only: set_map ball_simps) blast
qed

lemma mint_tables:
  "identities (store (snd (mint memory_uow wc opts u ch at w))) = identities (store w)"
  "challenges (store (snd (mint memory_uow wc opts u ch at w))) = challenges (store w)"
  "handoffs (store (snd (mint memory_uow wc opts u ch at w))) = handoffs (store w)"
  by (simp_all add: mint_def Let_def mem_insertSession_def split: option.split)

lemma finish_factor_Ok:
  assumes "finish_factor memory_uow wc opts user hid complete ch key p at w = (Ok m, w')"
  shows "only_session (usr_id user) (mnt_tokenHash m) (store w')" and "proofs_closed (usr_id user) (store w')"
    and "identities (store w') = identities (complete (snd (mem_consumeHandoff hid at (store w))))"
    and "challenges (store w') = challenges (mem_invalidateUserProofs (usr_id user) at
      (complete (snd (mem_consumeHandoff hid at (store w)))))"
    and "prf_id (grt_profile m) = usr_id user"
proof -
  let ?s1 = "snd (mem_consumeHandoff hid at (store w))"
  let ?w1 = "upd (mem_invalidateUserProofs (usr_id user) at) (upd complete (w\<lparr>store := ?s1\<rparr>))"
  obtain w2 where m: "mint memory_uow wc opts user ch at ?w1 = (Ok m, w2)"
      and w': "w' = audit memory_uow opts (usr_id user) p at (upd (\<lambda>s. snd (mem_insertReceipt
        (receipt_row key (usr_id user) m p) (mem_revokeOtherSessions (usr_id user) (mnt_tokenHash m) at s))) w2)"
    using assms unfolding finish_factor_def mem.snd_case_pair
    by (auto simp: Let_def obind_Ok_iff split: if_splits)
  have o: "only_session i h (snd (mem_insertReceipt r s)) = only_session i h s"
    "only_session i h (mem_insertAudit a s) = only_session i h s" for i h r a s
    by (simp_all add: only_session_def mem_insertReceipt_def mem_insertAudit_def)
  show "only_session (usr_id user) (mnt_tokenHash m) (store w')"
    by (simp add: w' audit_def o revoke_others_only)
  have t: "identities (store w') = identities (store w2)" "challenges (store w') = challenges (store w2)"
      "handoffs (store w') = handoffs (store w2)"
    by (simp_all add: w' audit_def mem_insertReceipt_def mem_insertAudit_def mem_revokeOtherSessions_def)
  moreover have "identities (store w2) = identities (store ?w1)" "challenges (store w2) = challenges (store ?w1)"
      "handoffs (store w2) = handoffs (store ?w1)"
    using mint_tables [of wc opts user ch at ?w1] m by simp_all
  moreover have "proofs_closed (usr_id user) (store ?w1)" by (simp add: invalidate_closes)
  ultimately show "proofs_closed (usr_id user) (store w')"
    and "identities (store w') = identities (complete ?s1)"
    and "challenges (store w') = challenges (mem_invalidateUserProofs (usr_id user) at (complete ?s1))"
    by (simp_all add: proofs_closed_def) (simp_all add: mem_invalidateUserProofs_def)
  show "prf_id (grt_profile m) = usr_id user" using mint_profile [OF m] by simp
qed

lemma consume_identities: "identities (snd (mem_consumeHandoff i at s)) = identities s"
  by (simp add: mem_consumeHandoff_def split: option.split)

text \<open>What an accepted unlink deleted.\<close>

lemma unlink_target_Ok:
  assumes wf: "memory_wf (store w)"
    and out: "unlink_target memory_uow wc opts ch user sh rh v key at w = (Ok m, w')"
  shows "identities (store w') = filter (\<lambda>r. \<not> (idn_userId r = usr_id user \<and> idn_kind r = ch)) (identities (store w))"
    and "\<exists>i \<in> set (identities (store w')). idn_userId i = usr_id user \<and> idn_kind i \<noteq> ch \<and> provenanceOk opts i"
    and "\<exists>i \<in> set (identities (store w)). idn_userId i = usr_id user \<and> idn_kind i = ch \<and> idn_version i = v"
    and "only_session (usr_id user) (mnt_tokenHash m) (store w')" and "proofs_closed (usr_id user) (store w')"
    and "prf_id (grt_profile m) = usr_id user"
proof -
  let ?ids = "mem_listIdentities (usr_id user) (store w)"
  obtain h :: stored_handoff and target where t: "List.find (\<lambda>row. idn_kind row = ch) ?ids = Some target" "idn_version target = v"
      and rem: "filter (\<lambda>row. idn_kind row \<noteq> ch \<and> provenanceOk opts row) ?ids \<noteq> []"
      and ok: "fst (mem_deleteIdentity (usr_id user) ch v (store w)) = Delete_ok"
      and fin: "finish_factor memory_uow wc opts user (hnd_id h) id
        (idn_kind (hd (filter (\<lambda>row. idn_kind row \<noteq> ch \<and> provenanceOk opts row) ?ids))) key (js ''unlink'') at
        (w\<lparr>store := snd (mem_deleteIdentity (usr_id user) ch v (store w))\<rparr>) = (Ok m, w')"
  proof -
    obtain h where h: "mem_findHandoff rh (store w) = Some h"
      using out by (cases "mem_findHandoff rh (store w)") (auto simp: unlink_target_def unlink_reauth_usable_def)
    obtain target where t: "List.find (\<lambda>row. idn_kind row = ch) ?ids = Some target"
      using out h by (cases "List.find (\<lambda>row. idn_kind row = ch) ?ids") (simp_all add: unlink_target_def Let_def split: if_splits)
    show ?thesis
      using out that [OF t, of h] unfolding unlink_target_def mem.snd_case_pair Let_def memory_uow_sel h t option.case
      by (simp split: if_splits)
  qed
  let ?mine = "\<lambda>r. idn_userId r = usr_id user \<and> idn_kind r = ch"
  have tin: "target \<in> set (identities (store w))" "?mine target"
    using find_SomeD [OF t(1)] by (auto simp: mem_listIdentities_def)
  have wfi: "identities_wf (identities (store w))" using wf by (simp add: memory_wf_def)
  have f: "List.find ?mine (identities (store w)) = Some target"
    using find_by_key [of "\<lambda>r. (idn_userId r, idn_kind r)" "identities (store w)" target] wfi tin
    by (simp add: identities_wf_def)
  have same: "r = target" if "r \<in> set (identities (store w))" "?mine r \<or> idn_id r = idn_id target" for r
    using that tin wfi distinct_map_inj [of idn_id "identities (store w)" r target]
      distinct_map_inj [of "\<lambda>r. (idn_userId r, idn_kind r)" "identities (store w)" r target]
    by (auto simp: identities_wf_def)
  have "identities (snd (mem_deleteIdentity (usr_id user) ch v (store w))) =
      filter (\<lambda>item. idn_id item \<noteq> idn_id target) (identities (store w))"
    using ok f t(2) by (auto simp: mem_deleteIdentity_def split: if_splits)
  also have "\<dots> = filter (\<lambda>r. \<not> ?mine r) (identities (store w))"
    using same tin by (intro filter_cong) auto
  finally show ids: "identities (store w') = filter (\<lambda>r. \<not> ?mine r) (identities (store w))"
    using finish_factor_Ok(3) [OF fin] by (simp add: consume_identities)
  obtain i where "i \<in> set ?ids" "idn_kind i \<noteq> ch" "provenanceOk opts i"
    using rem by (auto simp: filter_empty_conv)
  then show "\<exists>i \<in> set (identities (store w')). idn_userId i = usr_id user \<and> idn_kind i \<noteq> ch \<and> provenanceOk opts i"
    by (intro bexI [of _ i]) (auto simp: ids mem_listIdentities_def)
  show "\<exists>i \<in> set (identities (store w)). idn_userId i = usr_id user \<and> idn_kind i = ch \<and> idn_version i = v"
    using tin t(2) by blast
  show "only_session (usr_id user) (mnt_tokenHash m) (store w')" "proofs_closed (usr_id user) (store w')"
    "prf_id (grt_profile m) = usr_id user"
    using finish_factor_Ok [OF fin] by simp_all
qed

lemma unlinkFactor_Ok:
  assumes out: "unlinkFactor memory_uow wc opts ch rt v key token at w = (Ok (m, acc), w')"
    and user: "mem_findSessionUser (hashSessionToken wc token) at (store w) = Some user"
    and new: "mem_findReceipt (receiptKey wc opts key (usr_id user) (js ''unlink:'' @ channel_str ch)) (store w) = None"
  shows "unlink_target memory_uow wc opts ch user (hashSessionToken wc token) (hashSessionToken wc rt) v
    (receiptKey wc opts key (usr_id user) (js ''unlink:'' @ channel_str ch)) at w = (Ok m, w')"
proof -
  have "unlinkFactor_body memory_uow wc opts ch (hashSessionToken wc token) (hashSessionToken wc rt) v key at w = (Ok (m, acc), w')"
    using out by (auto simp: unlinkFactor_def transactional_def split: prod.splits outcome.splits if_splits)
  then show ?thesis
    using user new by (auto simp: unlinkFactor_body_def Let_def with_account_def obind_Ok_iff split: if_splits)
qed

text \<open>C7: unlinking a factor never locks an account out. When \<open>unlinkFactor\<close> succeeds (other than by
  replaying its own receipt), exactly the identity of that channel, at the version the client
  expected, is gone, every other row is untouched, and the account still has an identity of the other
  channel that this deployment accepts; the account's only live session is the new one and every
  earlier challenge or handoff of it is closed.\<close>

theorem unlink_keeps_a_factor:
  assumes "memory_wf (store w)"
    and "unlinkFactor memory_uow wc opts channel reauthToken version key token at w = (Ok (m, account), w')"
    and "mem_findSessionUser (hashSessionToken wc token) at (store w) = Some user"
    and "mem_findReceipt (receiptKey wc opts key (usr_id user) (js ''unlink:'' @ channel_str channel)) (store w) = None"
  shows "identities (store w') =
      filter (\<lambda>r. \<not> (idn_userId r = usr_id user \<and> idn_kind r = channel)) (identities (store w)) \<and>
    (\<exists>i \<in> set (identities (store w)). idn_userId i = usr_id user \<and> idn_kind i = channel \<and> idn_version i = version) \<and>
    (\<exists>i \<in> set (identities (store w')). idn_userId i = usr_id user \<and> idn_kind i \<noteq> channel \<and> provenanceOk opts i) \<and>
    only_session (usr_id user) (mnt_tokenHash m) (store w') \<and> proofs_closed (usr_id user) (store w')"
  using unlink_target_Ok [OF assms(1) unlinkFactor_Ok [OF assms(2-4)]] by blast

lemma sample_unlink:
  "\<exists>m acc w'. unlinkFactor memory_uow sample_platform sample_opts Phone [8] 1 [1] [7] 100 (sample_world e) = (Ok (m, acc), w')"
  by (simp add: unlinkFactor_def transactional_def unlinkFactor_body_def sample_defs mem_findSessionUser_def
      session_live_def after_def receiptKey_def keyedHash_def hmac_def hashSessionToken_def mem_findReceipt_def
      with_account_def unlink_target_def mem_findHandoff_def unlink_reauth_usable_def handoffModeOk_def modeFor_def
      reauth_identity_ok_def mem_listIdentities_def provenanceOk_def mem_deleteIdentity_def finish_factor_def
      mem_consumeHandoff_def mem_invalidateUserProofs_def mint_def upd_def drawn_def obind_def mem_insertSession_def
      mapPublicUserProfile_def mem_revokeOtherSessions_def mem_insertReceipt_def audit_def mem_insertAudit_def Let_def
      receipt_row_def stored_session.defs js_def)

lemma sample_world_user:
  "mem_findSessionUser (hashSessionToken sample_platform [7]) 100 (store (sample_world e)) = Some sample_user"
  by (simp add: mem_findSessionUser_def session_live_def after_def sample_world_def sample_store_def emptyState_def
      sample_session_def sample_session_hash_def sample_user_def)

lemma sample_world_wf: "memory_wf (store (sample_world e))"
  by (simp add: memory_wf_def users_wf_def identities_wf_def mem_known_def sample_defs)

lemma sample_no_receipt: "mem_findReceipt k (store (sample_world e)) = None"
  by (simp add: mem_findReceipt_def sample_world_def sample_store_def emptyState_def)

theorem unlink_keeps_a_factor_witness:
  "\<exists>m account w'. unlinkFactor memory_uow sample_platform sample_opts Phone [8] 1 [1] [7] 100 (sample_world 1000) = (Ok (m, account), w') \<and>
     identities (store w') = [sample_email]"
proof -
  obtain m acc w' where o: "unlinkFactor memory_uow sample_platform sample_opts Phone [8] 1 [1] [7] 100 (sample_world 1000) = (Ok (m, acc), w')"
    using sample_unlink by blast
  from unlink_keeps_a_factor [OF sample_world_wf o sample_world_user sample_no_receipt]
  have "identities (store w') = [sample_email]"
    by (simp add: sample_world_def sample_store_def sample_email_def sample_phone_def sample_user_def)
  with o show ?thesis by blast
qed

text \<open>\<open>unlinkFactor\<close> does not look at the expiry of the re-authentication it is given, though
  \<open>completeFactor\<close> does: with a re-authentication that expired at 1 ms, unlinking at 100 ms passes its
  checks and removes the phone factor, and the checks of \<open>completeFactor\<close> refuse the same one.\<close>

theorem unlink_accepts_expired_reauth:
  "hnd_expiresAt (sample_reauth 1) \<le> 100 \<and>
   mem_findHandoff (hashSessionToken sample_platform [8]) (store (sample_world 1)) = Some (sample_reauth 1) \<and>
   (\<exists>v w'. unlinkFactor memory_uow sample_platform sample_opts Phone [8] 1 [1] [7] 100 (sample_world 1) = (Ok v, w')) \<and>
   unlink_reauth_usable sample_opts (Some (sample_reauth 1)) [117] sample_session_hash \<and>
   \<not> reauth_usable sample_opts (Some (sample_reauth 1)) [117] sample_session_hash 100"
proof (intro conjI)
  show "\<exists>v w'. unlinkFactor memory_uow sample_platform sample_opts Phone [8] 1 [1] [7] 100 (sample_world 1) = (Ok v, w')"
    using sample_unlink [of 1] by blast
  show "hnd_expiresAt (sample_reauth 1) \<le> 100" by (simp add: sample_reauth_def)
  show "mem_findHandoff (hashSessionToken sample_platform [8]) (store (sample_world 1)) = Some (sample_reauth 1)"
    by (simp add: mem_findHandoff_def sample_world_def sample_store_def sample_reauth_def sample_reauth_hash_def)
qed (simp_all add: unlink_reauth_usable_def reauth_usable_def handoffModeOk_def modeFor_def sample_reauth_def)

text \<open>What binding an identity leaves: one row of the account for the channel, with the verified contact.\<close>

lemma bind_identity_Ok:
  assumes "bind_identity memory_uow opts c u v at w = (Ok (), w')"
  shows "\<exists>i \<in> set (identities (store w')). idn_userId i = u \<and> idn_kind i = chl_channel c \<and>
      idn_lookupDigest i = chl_targetDigest c \<and> idn_version i = v + 1"
    and "challenges (store w') = challenges (store w)" and "handoffs (store w') = handoffs (store w)"
proof -
  let ?new = "identityFrom opts c u at (draws w)"
  let ?find = "List.find (\<lambda>row. idn_kind row = chl_channel c) (mem_listIdentities u (store w))"
  have f: "challenges (snd (mem_insertIdentity r s)) = challenges s" "challenges (snd (mem_replaceIdentity r x s)) = challenges s"
    for r s x by (simp_all add: mem_insertIdentity_def mem_replaceIdentity_def Let_def split: option.split)
  show "challenges (store w') = challenges (store w)" "handoffs (store w') = handoffs (store w)"
    using assms unfolding bind_identity_def mem.snd_case_pair Let_def
    by (auto simp: f port_simps split: option.splits if_splits)
  show "\<exists>i \<in> set (identities (store w')). idn_userId i = u \<and> idn_kind i = chl_channel c \<and>
      idn_lookupDigest i = chl_targetDigest c \<and> idn_version i = v + 1"
  proof (cases ?find)
    case None
    then have "v = 0" "fst (mem_insertIdentity ?new (store w)) \<noteq> Insert_conflict"
        "store w' = snd (mem_insertIdentity ?new (store w))"
      using assms unfolding bind_identity_def mem.snd_case_pair Let_def by (auto split: if_splits)
    then have "?new \<in> set (identities (store w'))" "v = 0"
      by (auto simp: mem_insertIdentity_def Let_def split: if_splits)
    then show ?thesis by (intro bexI [of _ ?new]) (auto simp: identityFrom_def)
  next
    case (Some cur)
    let ?row = "?new\<lparr>idn_id := idn_id cur, idn_version := idn_version cur + 1\<rparr>"
    have r: "idn_version cur = v" "fst (mem_replaceIdentity ?row (idn_version cur) (store w)) = Replace_ok"
        "store w' = snd (mem_replaceIdentity ?row (idn_version cur) (store w))"
      using assms Some unfolding bind_identity_def mem.snd_case_pair Let_def
      by (auto split: if_splits) (metis replace_result.exhaust)
    let ?mine = "\<lambda>item. idn_userId item = idn_userId ?row \<and> idn_kind item = idn_kind ?row"
    obtain x where x: "List.find ?mine (identities (store w)) = Some x"
      using r(2) by (auto simp: mem_replaceIdentity_def Let_def split: option.splits)
    then have "identities (store w') =
        update_first ?mine (\<lambda>_. ?row\<lparr>idn_version := idn_version cur + 1\<rparr>) (identities (store w))"
      using r(2,3) by (auto simp: mem_replaceIdentity_def Let_def split: if_splits)
    then have "?row\<lparr>idn_version := idn_version cur + 1\<rparr> \<in> set (identities (store w'))"
      using in_update_firstI [OF x] by simp
    then show ?thesis using r(1)
      by (intro bexI [of _ "?row\<lparr>idn_version := idn_version cur + 1\<rparr>"]) (auto simp: identityFrom_def)
  qed
qed

lemma completeFactor_body_of:
  assumes "completeFactor tx wc opts cid code ct rt v key st at w = (Ok r, w')"
  shows "\<exists>b. completeFactor_body tx wc opts cid code (hashSessionToken wc ct) (hashSessionToken wc st)
      (hashSessionToken wc rt) v key b at w = (Ok r, w') \<and>
    (\<forall>c. findChallenge tx cid (store w) = Some c \<longrightarrow> provider_check wc opts c code w = (Ok b, w))"
proof -
  obtain c w1 b w2 where l: "transactional (load_challenge tx cid (hashSessionToken wc ct)) w = (Ok c, w1)"
      "provider_check wc opts c code w1 = (Ok b, w2)"
      "transactional (completeFactor_body tx wc opts cid code (hashSessionToken wc ct) (hashSessionToken wc st)
        (hashSessionToken wc rt) v key b at) w2 = (Ok r, w')"
    using assms by (auto simp: completeFactor_def Let_def obind_Ok_iff)
  have w: "w1 = w" "w2 = w" using load_same [OF l(1)] check_same [OF l(2)] by simp_all
  have "provider_check wc opts d code w = (Ok b, w)" if "findChallenge tx cid (store w) = Some d" for d
    using l(1,2) that by (auto simp: w load_known [OF that] split: if_splits)
  with l(3) show ?thesis unfolding w by (auto simp: transactional_def split: prod.splits outcome.splits if_splits)
qed

lemma completeFactor_accepted:
  assumes "completeFactor_body memory_uow wc opts cid code ch sh rh v key b at w = (Ok (m, acc), w')"
    and c: "mem_findChallenge cid (store w) = Some c"
    and new: "mem_findReceipt (receiptKey wc opts key (chl_targetDigest c) (purpose_str (chl_purpose c))) (store w) = None"
  shows "\<exists>user. mem_findSessionUser sh at (store w) = Some user \<and> chl_userId c = Some (usr_id user) \<and>
    challengeFresh c at \<and> \<not> attempts_exhausted memory_uow c at (store w) \<and> codeAccepted wc opts c code b \<and> chl_continuationHash c = ch \<and>
    complete_accepted memory_uow wc opts c user sh rh v
      (receiptKey wc opts key (chl_targetDigest c) (purpose_str (chl_purpose c))) at w = (Ok m, w')"
  using assms
  by (auto simp: completeFactor_body_def Let_def with_account_def obind_Ok_iff split: option.splits if_splits)

lemma complete_accepted_parts:
  assumes "complete_accepted memory_uow wc opts c user sh rh v key at w = (Ok m, w')"
  shows "\<exists>h w1. mem_findHandoff rh (store w) = Some h \<and> reauth_usable opts (Some h) (usr_id user) sh at \<and>
    bind_identity memory_uow opts c (usr_id user) v at w = (Ok (), w1) \<and>
    finish_factor memory_uow wc opts user (hnd_id h) (mem_saveChallenge (c\<lparr>chl_completedAt := Some at\<rparr>))
      (chl_channel c) key (purpose_str (chl_purpose c)) at w1 = (Ok m, w')"
proof -
  obtain h where h: "mem_findHandoff rh (store w) = Some h"
    using assms by (cases "mem_findHandoff rh (store w)") (auto simp: complete_accepted_def reauth_usable_def)
  show ?thesis
    using assms unfolding complete_accepted_def Let_def memory_uow_sel h option.case
    by (auto simp: h obind_Ok_iff split: if_splits)
qed

lemma find_after_invalidate:
  assumes c: "mem_findChallenge i s = Some c" and d: "chl_completedAt c \<noteq> None"
  shows "mem_findChallenge i (mem_invalidateUserProofs u at s) = Some c"
proof -
  let ?f = "\<lambda>r. if chl_userId r = Some u \<and> chl_completedAt r = None \<and> chl_invalidatedAt r = None
      then r\<lparr>chl_invalidatedAt := Some at\<rparr> else r"
  have "List.find (\<lambda>r. chl_id r = i) (map ?f (challenges s)) = map_option ?f (List.find (\<lambda>r. chl_id r = i) (challenges s))"
    by (rule find_map_keep) simp
  also have "\<dots> = Some c" using c d by (simp add: mem_findChallenge_def)
  finally show ?thesis by (simp add: mem_findChallenge_def mem_invalidateUserProofs_def)
qed

lemma completed_factor_facts:
  assumes "completeFactor memory_uow wc opts cid code continuation reauthToken version key token at w = (Ok (m, account), w')"
    and "mem_findChallenge cid (store w) = Some c"
    and "mem_findReceipt (receiptKey wc opts key (chl_targetDigest c) (purpose_str (chl_purpose c))) (store w) = None"
  shows "\<exists>user h. mem_findSessionUser (hashSessionToken wc token) at (store w) = Some user \<and>
    chl_userId c = Some (usr_id user) \<and> challengeFresh c at \<and> \<not> attempts_exhausted memory_uow c at (store w) \<and>
    (\<exists>passed. provider_check wc opts c code w = (Ok passed, w) \<and> codeAccepted wc opts c code passed) \<and>
    mem_findHandoff (hashSessionToken wc reauthToken) (store w) = Some h \<and>
    reauth_usable opts (Some h) (usr_id user) (hashSessionToken wc token) at \<and>
    (\<exists>i \<in> set (identities (store w')). idn_userId i = usr_id user \<and> idn_kind i = chl_channel c \<and>
       idn_lookupDigest i = chl_targetDigest c \<and> idn_version i = version + 1) \<and>
    only_session (usr_id user) (mnt_tokenHash m) (store w') \<and> proofs_closed (usr_id user) (store w') \<and>
    (\<forall>at2 v w3. completeFactor memory_uow wc opts cid code continuation reauthToken version key token at2 w' \<noteq> (Ok v, w3))"
proof -
  let ?sh = "hashSessionToken wc token" and ?rh = "hashSessionToken wc reauthToken"
  let ?key = "receiptKey wc opts key (chl_targetDigest c) (purpose_str (chl_purpose c))"
  obtain b user where u: "mem_findSessionUser ?sh at (store w) = Some user" "chl_userId c = Some (usr_id user)"
      "challengeFresh c at" "\<not> attempts_exhausted memory_uow c at (store w)"
      "provider_check wc opts c code w = (Ok b, w)" "codeAccepted wc opts c code b"
      "complete_accepted memory_uow wc opts c user ?sh ?rh version ?key at w = (Ok m, w')"
    using completeFactor_body_of [OF assms(1)] completeFactor_accepted [OF _ assms(2,3)] assms(2) by fastforce
  obtain h w1 where h: "mem_findHandoff ?rh (store w) = Some h" "reauth_usable opts (Some h) (usr_id user) ?sh at"
      and bind: "bind_identity memory_uow opts c (usr_id user) version at w = (Ok (), w1)"
      and fin: "finish_factor memory_uow wc opts user (hnd_id h) (mem_saveChallenge (c\<lparr>chl_completedAt := Some at\<rparr>))
        (chl_channel c) ?key (purpose_str (chl_purpose c)) at w1 = (Ok m, w')"
    using complete_accepted_parts [OF u(7)] by blast
  let ?s1 = "snd (mem_consumeHandoff (hnd_id h) at (store w1))"
  have ids: "identities (store w') = identities (store w1)"
    using finish_factor_Ok(3) [OF fin] by (simp add: consume_identities mem_saveChallenge_def)
  have id: "cid = chl_id c" using assms(2) by (auto simp: mem_findChallenge_def dest: find_SomeD)
  have "challenges ?s1 = challenges (store w)"
    using bind_identity_Ok(2) [OF bind] by (simp add: mem_consumeHandoff_def split: option.split)
  then have "mem_findChallenge cid (mem_saveChallenge (c\<lparr>chl_completedAt := Some at\<rparr>) ?s1) = Some (c\<lparr>chl_completedAt := Some at\<rparr>)"
    using assms(2) by (simp add: id mem_findChallenge_def mem_saveChallenge_def find_update_first)
  then have "mem_findChallenge cid (store w') = Some (c\<lparr>chl_completedAt := Some at\<rparr>)"
    using finish_factor_Ok(4) [OF fin] find_after_invalidate by (simp add: mem_findChallenge_def)
  then have "completeFactor_body memory_uow wc opts cid code ch sh rh v k b at2 w' \<noteq> (Ok r, w3)" for ch sh rh v k b at2 r w3
    by (auto simp: completeFactor_body_def challengeFresh_def)
  then have "\<forall>at2 v w3. completeFactor memory_uow wc opts cid code continuation reauthToken version key token at2 w' \<noteq> (Ok v, w3)"
    by (intro allI notI) (drule completeFactor_body_of, blast)
  with u h bind_identity_Ok(1) [OF bind] finish_factor_Ok(1,2) [OF fin] show ?thesis unfolding ids by blast
qed

text \<open>C8: completing a factor change. When \<open>completeFactor\<close> succeeds (other than by replaying a receipt),
  the challenge was fresh, its attempts not exhausted, its code accepted (with the provider's verdict where
  the provider made the code), issued to the account of the presented session, and the re-authentication unused, unexpired and bound to that session; afterwards the account owns the
  verified contact on that channel one version above the one the client expected, its only live
  session is the new one, and every earlier challenge or handoff of it is closed.\<close>

theorem completed_factor:
  assumes "completeFactor memory_uow wc opts cid code continuation reauthToken version key token at w = (Ok (m, account), w')"
    and "mem_findChallenge cid (store w) = Some c"
    and "mem_findReceipt (receiptKey wc opts key (chl_targetDigest c) (purpose_str (chl_purpose c))) (store w) = None"
  shows "\<exists>user h. mem_findSessionUser (hashSessionToken wc token) at (store w) = Some user \<and>
    chl_userId c = Some (usr_id user) \<and> challengeFresh c at \<and> \<not> attempts_exhausted memory_uow c at (store w) \<and>
    (\<exists>passed. provider_check wc opts c code w = (Ok passed, w) \<and> codeAccepted wc opts c code passed) \<and>
    mem_findHandoff (hashSessionToken wc reauthToken) (store w) = Some h \<and>
    reauth_usable opts (Some h) (usr_id user) (hashSessionToken wc token) at \<and>
    (\<exists>i \<in> set (identities (store w')). idn_userId i = usr_id user \<and> idn_kind i = chl_channel c \<and>
       idn_lookupDigest i = chl_targetDigest c \<and> idn_version i = version + 1) \<and>
    only_session (usr_id user) (mnt_tokenHash m) (store w') \<and> proofs_closed (usr_id user) (store w')"
  using completed_factor_facts [OF assms] by blast

text \<open>
  A response that is lost cannot be recovered from the receipt: repeated on the state the call left, it is refused, since the
  challenge is completed before the receipt would be read. The documentation of the flow promises the opposite.
\<close>

lemma completeFactor_not_replayed:
  assumes "completeFactor memory_uow wc opts cid code continuation reauthToken version key token at w = (Ok (m, account), w')"
    and "mem_findChallenge cid (store w) = Some c"
    and "mem_findReceipt (receiptKey wc opts key (chl_targetDigest c) (purpose_str (chl_purpose c))) (store w) = None"
  shows "completeFactor memory_uow wc opts cid code continuation reauthToken version key token at2 w' \<noteq> (Ok v, w3)"
  using completed_factor_facts [OF assms] by blast

definition replace_challenge :: stored_challenge where
  "replace_challenge = (sample_challenge Replace)\<lparr>chl_userId := Some [117], chl_sessionHash := Some sample_session_hash\<rparr>"

lemma replace_challenge_sel [simp]:
  "chl_id replace_challenge = [99]" "chl_channel replace_challenge = Email" "chl_purpose replace_challenge = Replace"
  "chl_targetDigest replace_challenge = [1]" "chl_strategy replace_challenge = Application_otp"
  "chl_verifier replace_challenge = Some (otpVerifier sample_platform sample_keys [99] (purpose_str Replace) [1] [49, 49])"
  "chl_providerMode replace_challenge = Local_capture" "chl_environment replace_challenge = Development"
  "chl_continuationHash replace_challenge = hashSessionToken sample_platform [5]"
  "chl_userId replace_challenge = Some [117]" "chl_sessionHash replace_challenge = Some sample_session_hash"
  by (simp_all add: replace_challenge_def sample_challenge_def)

lemma replace_code: "codeAccepted sample_platform sample_opts replace_challenge [49, 49] b"
  by (simp add: codeAccepted_def otpVerifier_def verifier_of_hmac sample_platform_def)

lemma sample_complete:
  "\<exists>m acc w'. completeFactor memory_uow sample_platform sample_opts [99] [49, 49] [5] [8] 1 [1] [7] 100
     (challenge_world replace_challenge) = (Ok (m, acc), w')"
proof -
  let ?w = "challenge_world replace_challenge" and ?wc = sample_platform and ?o = sample_opts
  have l: "transactional (load_challenge memory_uow [99] (hashSessionToken ?wc [5])) ?w = (Ok replace_challenge, ?w)"
    by (simp add: transactional_def load_challenge_def mem_findChallenge_def challenge_world_def)
  have p: "provider_check ?wc ?o replace_challenge [49, 49] ?w = (Ok False, ?w)"
    by (simp add: provider_check_def)
  have f: "challengeFresh replace_challenge 100" "\<not> attempts_exhausted memory_uow replace_challenge 100 (store ?w)"
    by (simp_all add: replace_challenge_def sample_challenge_def challengeFresh_def attempts_exhausted_def
        MAX_ATTEMPTS_def mem_failureCount_def challenge_world_def sample_store_def emptyState_def)
  have c: "mem_findChallenge [99] (store ?w) = Some replace_challenge" "mem_findReceipt k (store ?w) = None"
      "mem_findSessionUser (hashSessionToken ?wc [7]) 100 (store ?w) = Some sample_user"
      "mem_findHandoff (hashSessionToken ?wc [8]) (store ?w) = Some (sample_reauth 1000)"
      "mem_listIdentities [117] (store ?w) = [sample_email, sample_phone]"
      "mem_findIdentity Email [1] (store ?w) = Some sample_email" for k
    by (simp_all add: challenge_world_def sample_store_def emptyState_def mem_findChallenge_def mem_findReceipt_def
        mem_findSessionUser_def session_live_def after_def mem_findHandoff_def mem_listIdentities_def mem_findIdentity_def
        sample_session_def sample_user_def sample_reauth_def sample_email_def sample_phone_def
        sample_session_hash_def sample_reauth_hash_def)
  have r: "reauth_usable ?o (Some (sample_reauth 1000)) [117] (hashSessionToken ?wc [7]) 100"
      "reauth_identity_ok memory_uow ?o [117] (sample_reauth 1000) (store ?w)"
    by (simp_all add: reauth_usable_def reauth_identity_ok_def handoffModeOk_def modeFor_def sample_reauth_def
        sample_session_hash_def c, simp add: sample_email_def provenanceOk_def modeFor_def)
  define w1 where "w1 = snd (bind_identity memory_uow ?o replace_challenge [117] 1 100 ?w)"
  have rep: "\<exists>s1. mem_replaceIdentity (row\<lparr>idn_id := [1], idn_version := 2\<rparr>) 1 (store ?w) = (Replace_ok, s1) \<and> handoffs s1 = [sample_reauth 1000]"
    if "idn_userId row = [117]" "idn_kind row = Email" "idn_lookupDigest row = [1]" for row
    using that by (simp add: mem_replaceIdentity_def challenge_world_def sample_store_def emptyState_def sample_email_def
        sample_phone_def)
  have cur: "List.find (\<lambda>row. idn_kind row = Email) (mem_listIdentities [117] (store ?w)) = Some sample_email"
      "idn_version sample_email = 1" "idn_verificationMode sample_email = Local_capture"
      "idn_environment sample_email = Development" "idn_id sample_email = [1]"
    by (simp_all add: c, simp_all add: sample_email_def)
  have "fst (bind_identity memory_uow ?o replace_challenge [117] 1 100 ?w) = Ok () \<and> handoffs (store w1) = [sample_reauth 1000]"
    using rep [of "identityFrom ?o replace_challenge [117] 100 (draws ?w)"]
    by (auto simp: w1_def bind_identity_def cur Let_def identityFrom_def)
  then have b: "bind_identity memory_uow ?o replace_challenge [117] 1 100 ?w = (Ok (), w1)"
      "handoffs (store w1) = [sample_reauth 1000]"
    by (auto simp: w1_def intro: prod_eqI)
  have h: "fst (mem_consumeHandoff [104] 100 (store w1)) = Consume_ok"
    by (simp add: mem_consumeHandoff_def b sample_reauth_def)
  have "\<exists>m w2. finish_factor memory_uow ?wc ?o sample_user [104] k Email key p 100 w1 = (Ok m, w2)" for k key p
    using h by (cases "mem_consumeHandoff [104] 100 (store w1)")
      (simp add: finish_factor_def Let_def mint_def mapPublicUserProfile_def)
  then have a: "\<exists>m w2. complete_accepted memory_uow ?wc ?o replace_challenge sample_user (hashSessionToken ?wc [7])
      (hashSessionToken ?wc [8]) 1 key 100 ?w = (Ok m, w2)" for key
    using r b by (simp add: complete_accepted_def Let_def c c(6) [unfolded One_nat_def] sample_user_def)
      (simp add: sample_reauth_def sample_email_def)
  have u: "usr_id sample_user = [117]" "usr_status sample_user = Active" by (simp_all add: sample_user_def)
  have x: "sample_session_hash = hashSessionToken ?wc [7]" by (rule sample_session_hash_def)
  let ?key = "receiptKey ?wc ?o [1] (chl_targetDigest replace_challenge) (purpose_str Replace)"
  obtain m w2 where m: "complete_accepted memory_uow ?wc ?o replace_challenge sample_user (hashSessionToken ?wc [7])
      (hashSessionToken ?wc [8]) 1 ?key 100 ?w = (Ok m, w2)"
    using a by blast
  let ?body = "completeFactor_body memory_uow ?wc ?o [99] [49, 49] (hashSessionToken ?wc [5]) (hashSessionToken ?wc [7])
      (hashSessionToken ?wc [8]) 1 [1] False 100"
  have "?body ?w = (Ok (m, accountView memory_uow ?wc ?o [117] (store w2)), w2)"
    using f replace_code [of False] m
    by (simp add: completeFactor_body_def with_account_def c u x Let_def del: replace_challenge_sel(4))
  then have "transactional ?body ?w = (Ok (m, accountView memory_uow ?wc ?o [117] (store w2)), w2)"
    by (simp add: transactional_def)
  then show ?thesis by (simp add: completeFactor_def Let_def l p)
qed

theorem completed_factor_witness:
  "\<exists>m account w'. completeFactor memory_uow sample_platform sample_opts [99] [49, 49] [5] [8] 1 [1] [7] 100
     (challenge_world replace_challenge) = (Ok (m, account), w') \<and> only_session [117] (mnt_tokenHash m) (store w')"
proof -
  obtain m acc w' where o: "completeFactor memory_uow sample_platform sample_opts [99] [49, 49] [5] [8] 1 [1] [7] 100
     (challenge_world replace_challenge) = (Ok (m, acc), w')"
    using sample_complete by blast
  have c: "mem_findChallenge [99] (store (challenge_world replace_challenge)) = Some replace_challenge"
      "mem_findReceipt k (store (challenge_world replace_challenge)) = None" for k
    by (simp_all add: mem_findChallenge_def mem_findReceipt_def challenge_world_def sample_store_def emptyState_def)
  from completed_factor [OF o c(1) c(2)] o show ?thesis by auto
qed

section \<open>Recording a delivery\<close>

text \<open>Recording an accepted delivery revives an invalidated challenge. Whatever invalidated a challenge
  between its reservation and its delivery (a factor change or an unlink of its account through
  \<open>invalidateUserProofs\<close>), the transaction of \<open>sendChallenge\<close> that marks the delivery clears
  \<open>invalidatedAt\<close>, and the challenge can be verified again until it expires.\<close>

theorem accepted_delivery_revives:
  assumes "mem_findChallenge cid (store w) = Some c" and "chl_invalidatedAt c = Some t"
    and "chl_supersededAt c = None" and "chl_completedAt c = None" and "at < chl_expiresAt c"
  shows "\<exists>w' c'. transactional (mark_delivery memory_uow cid (Dlv_accepted m)) w = (Ok (Dlv_accepted m), w') \<and>
    \<not> challengeFresh c at \<and> mem_findChallenge cid (store w') = Some c' \<and> challengeFresh c' at"
proof -
  have id: "cid = chl_id c" using assms(1) by (auto simp: mem_findChallenge_def dest: find_SomeD)
  let ?c = "c\<lparr>chl_deliveryState := Delivery_accepted, chl_providerCorrelation := Some m, chl_invalidatedAt := None\<rparr>"
  have f: "mem_findChallenge cid (mem_saveChallenge ?c (store w)) = Some ?c"
    using assms(1) by (simp add: id mem_findChallenge_def mem_saveChallenge_def find_update_first)
  show ?thesis
    using assms f by (intro exI [of _ "upd (mem_saveChallenge ?c) w"] exI [of _ ?c])
      (simp add: transactional_def mark_delivery_def challengeFresh_def)
qed

theorem accepted_delivery_revives_witness:
  "\<exists>w' c'. transactional (mark_delivery memory_uow [99] (Dlv_accepted [1]))
      (challenge_world ((sample_challenge Link)\<lparr>chl_invalidatedAt := Some 50\<rparr>)) = (Ok (Dlv_accepted [1]), w') \<and>
    \<not> challengeFresh ((sample_challenge Link)\<lparr>chl_invalidatedAt := Some 50\<rparr>) 100 \<and>
    mem_findChallenge [99] (store w') = Some c' \<and> challengeFresh c' 100"
  by (rule accepted_delivery_revives [where t = 50])
     (simp_all add: mem_findChallenge_def challenge_world_def sample_challenge_def)

end
