(* ===== verification/MediaBytes.thy ===== *)
theory MediaBytes
  imports Prelude
begin

text \<open>
  Bounded reads over untrusted bytes
  (\<open>services/backend-production/src/publishing/processing/byte-reader.ts\<close> and the error codes of
  \<open>errors.ts\<close>). Offsets and lengths are JavaScript numbers used as integers; a thrown
  \<open>MediaParseError\<close> is \<open>Inl\<close> of its code. The locale \<open>byte_source\<close> is the contract of
  \<open>ByteReader\<close>: the parsers that read through it are shown correct from that contract alone.
\<close>

datatype parse_error = Truncated | Box_invalid | Limit_exceeded | Offset_invalid | Structure_invalid

type_synonym 'a parsed = "parse_error + 'a"

text \<open>\<open>bytes[i]\<close>; \<open>- 1\<close> stands for \<open>undefined\<close>, outside the array.\<close>

definition byte_at :: "byte list \<Rightarrow> int \<Rightarrow> int" where
  "byte_at bytes i = (if 0 \<le> i \<and> i < int (length bytes) then uint (bytes ! nat i) else - 1)"

text \<open>\<open>bytes.subarray(a, b)\<close> for \<open>0 \<le> a\<close> and \<open>0 \<le> b\<close>.\<close>

definition subarray :: "byte list \<Rightarrow> int \<Rightarrow> int \<Rightarrow> byte list" where
  "subarray bytes a b = drop (nat a) (take (nat b) bytes)"

definition u16be :: "byte list \<Rightarrow> int \<Rightarrow> int parsed" where
  "u16be bytes off =
     (if off < 0 \<or> off + 2 > int (length bytes) then Inl Truncated
      else Inr (js_or (js_shl (byte_at bytes off) 8) (byte_at bytes (off + 1))))"

definition u32be :: "byte list \<Rightarrow> int \<Rightarrow> int parsed" where
  "u32be bytes off =
     (if off < 0 \<or> off + 4 > int (length bytes) then Inl Truncated
      else Inr (js_ushr0 (js_shl (byte_at bytes off) 24) + js_shl (byte_at bytes (off + 1)) 16 +
        js_shl (byte_at bytes (off + 2)) 8 + byte_at bytes (off + 3)))"

definition i32be :: "byte list \<Rightarrow> int \<Rightarrow> int parsed" where
  "i32be bytes off = rbind (u32be bytes off) (\<lambda>v. Inr (js_or v 0))"

definition u64be :: "byte list \<Rightarrow> int \<Rightarrow> int parsed" where
  "u64be bytes off =
     rbind (u32be bytes off) (\<lambda>high. rbind (u32be bytes (off + 4)) (\<lambda>low.
       if high \<ge> 0x200000 then Inl Offset_invalid else Inr (high * 0x100000000 + low)))"

definition fourCc :: "byte list \<Rightarrow> int \<Rightarrow> jstr parsed" where
  "fourCc bytes off =
     (if off < 0 \<or> off + 4 > int (length bytes) then Inl Truncated
      else Inr (map (\<lambda>i. nat (byte_at bytes (off + i))) [0, 1, 2, 3]))"

definition asciiEquals :: "byte list \<Rightarrow> int \<Rightarrow> jstr \<Rightarrow> bool" where
  "asciiEquals bytes off text =
     (if off < 0 \<or> off + int (length text) > int (length bytes) then False
      else list_all (\<lambda>i. byte_at bytes (off + int i) = int (text ! i)) [0..<length text])"

section \<open>Readers\<close>

record byte_reader =
  rdr_size :: int
  rdr_read :: "int \<Rightarrow> int \<Rightarrow> byte list parsed"

text \<open>\<open>assertRange\<close>: true when it does not throw.\<close>

definition assertRange :: "int \<Rightarrow> int \<Rightarrow> int \<Rightarrow> bool" where
  "assertRange bound off len \<longleftrightarrow> \<not> (\<not> is_safe_integer off \<or> \<not> is_safe_integer len \<or> off < 0 \<or> len < 0 \<or>
     off + len > bound)"

definition bufferByteReader :: "byte list \<Rightarrow> byte_reader" where
  "bufferByteReader bytes = \<lparr>rdr_size = int (length bytes), rdr_read = \<lambda>off len.
     if \<not> assertRange (int (length bytes)) off len then Inl Truncated
     else Inr (subarray bytes off (off + len))\<rparr>"

text \<open>
  \<open>openFileByteReader\<close>: \<open>handle_read length position\<close> is what \<open>handle.read\<close> of the file system puts
  into the buffer, possibly fewer bytes than asked.
\<close>

function file_read_loop :: "(int \<Rightarrow> int \<Rightarrow> byte list) \<Rightarrow> int \<Rightarrow> int \<Rightarrow> byte list \<Rightarrow> byte list parsed" where
  "file_read_loop handle_read off len filled =
     (if int (length filled) < len then
        (let chunk = handle_read (len - int (length filled)) (off + int (length filled)) in
         if chunk = [] then Inl Truncated else file_read_loop handle_read off len (filled @ chunk))
      else Inr filled)"
  by pat_completeness auto
termination
  by (relation "measure (\<lambda>(_, _, len, filled). nat (len - int (length filled)))") auto

declare file_read_loop.simps [simp del]

definition openFileByteReader :: "bool \<Rightarrow> int \<Rightarrow> (int \<Rightarrow> int \<Rightarrow> byte list) \<Rightarrow> byte_reader parsed" where
  "openFileByteReader isFile bound handle_read =
     (if \<not> isFile then Inl Structure_invalid
      else Inr \<lparr>rdr_size = bound, rdr_read = \<lambda>off len.
        if \<not> assertRange bound off len then Inl Truncated else file_read_loop handle_read off len []\<rparr>)"

text \<open>The contract: exactly the bytes asked for, or \<open>truncated\<close>.\<close>

locale byte_source =
  fixes rd :: byte_reader and content :: "byte list"
  assumes size_content: "rdr_size rd = int (length content)"
    and read_content: "rdr_read rd off len =
      (if assertRange (int (length content)) off len then Inr (take (nat len) (drop (nat off) content)) else Inl Truncated)"
begin

lemma read_Inr:
  assumes "rdr_read rd off len = Inr bs"
  shows "0 \<le> off" and "0 \<le> len" and "off + len \<le> rdr_size rd" and "int (length bs) = len"
    and "bs = take (nat len) (drop (nat off) content)"
  using assms by (auto simp: read_content size_content assertRange_def split: if_splits)

lemma read_Inl: "rdr_read rd off len = Inl e \<Longrightarrow> e = Truncated"
  by (simp add: read_content split: if_splits)

end

lemma subarray_take_drop: "0 \<le> a \<Longrightarrow> 0 \<le> n \<Longrightarrow> subarray bs a (a + n) = take (nat n) (drop (nat a) bs)"
  by (simp add: subarray_def drop_take nat_add_distrib)

interpretation buffer: byte_source "bufferByteReader bytes" bytes for bytes
  by unfold_locales (auto simp: bufferByteReader_def assertRange_def subarray_take_drop)

section \<open>What the reads return\<close>

lemma byte_at_bounds:
  assumes "0 \<le> i" and "i < int (length bytes)"
  shows "0 \<le> byte_at bytes i" and "byte_at bytes i < 256" and "byte_at bytes i = uint (bytes ! nat i)"
  using assms uint_byte_bounds [of "bytes ! nat i"] by (simp_all add: byte_at_def)

text \<open>Big-endian value of a run of bytes.\<close>

definition be_value :: "byte list \<Rightarrow> int" where
  "be_value bs = foldl (\<lambda>v b. v * 256 + uint b) 0 bs"

lemma be_value_snoc: "be_value (bs @ [b]) = be_value bs * 256 + uint b"
  by (simp add: be_value_def)

lemma be_value_bounds: "0 \<le> be_value bs \<and> be_value bs < 256 ^ length bs"
proof (induction bs rule: rev_induct)
  case (snoc b bs)
  then show ?case using uint_byte_bounds [of b] by (simp add: be_value_snoc)
qed (simp add: be_value_def)

lemma be_value_append: "be_value (xs @ ys) = be_value xs * 256 ^ length ys + be_value ys"
proof (induction ys rule: rev_induct)
  case (snoc y ys)
  have "be_value (xs @ ys @ [y]) = be_value (xs @ ys) * 256 + uint y"
    using be_value_snoc [of "xs @ ys" y] by simp
  with snoc show ?case by (simp add: be_value_snoc algebra_simps)
qed (simp add: be_value_def)

definition bytes_at :: "byte list \<Rightarrow> int \<Rightarrow> nat \<Rightarrow> byte list" where
  "bytes_at bytes off n = take n (drop (nat off) bytes)"

lemma bytes_at_eq:
  assumes "0 \<le> off" and "off + int n \<le> int (length bytes)"
  shows "bytes_at bytes off n = map (\<lambda>i. bytes ! (nat off + i)) [0..<n]"
  using assms by (intro nth_equalityI) (auto simp: bytes_at_def)

lemma length_bytes_at: "0 \<le> off \<Longrightarrow> off + int n \<le> int (length bytes) \<Longrightarrow> length (bytes_at bytes off n) = n"
  by (simp add: bytes_at_eq)

lemma u16be_value:
  "u16be bytes off = (if off < 0 \<or> off + 2 > int (length bytes) then Inl Truncated else Inr (be_value (bytes_at bytes off 2)))"
proof (cases "off < 0 \<or> off + 2 > int (length bytes)")
  case False
  then have b: "0 \<le> byte_at bytes (off + i)" "byte_at bytes (off + i) < 256"
      "byte_at bytes (off + i) = uint (bytes ! (nat off + nat i))" if "0 \<le> i" "i < 2" for i
    using that byte_at_bounds [of "off + i" bytes] by (auto simp: nat_add_distrib)
  have "be_value (bytes_at bytes off 2) = byte_at bytes off * 256 + byte_at bytes (off + 1)"
    using False b(3) [of 0] b(3) [of 1] bytes_at_eq [of off 2 bytes]
    by (simp add: be_value_def numeral_2_eq_2)
  then show ?thesis
    using False js_or_shl8 [of "byte_at bytes off" "byte_at bytes (off + 1)"] b(1,2) [of 0] b(1,2) [of 1]
    by (simp add: u16be_def)
qed (simp add: u16be_def)

lemma u32be_value:
  "u32be bytes off = (if off < 0 \<or> off + 4 > int (length bytes) then Inl Truncated else Inr (be_value (bytes_at bytes off 4)))"
proof (cases "off < 0 \<or> off + 4 > int (length bytes)")
  case False
  then have b: "0 \<le> byte_at bytes (off + i)" "byte_at bytes (off + i) < 256"
      "byte_at bytes (off + i) = uint (bytes ! (nat off + nat i))" if "0 \<le> i" "i < 4" for i
    using that byte_at_bounds [of "off + i" bytes] by (auto simp: nat_add_distrib)
  have "be_value (bytes_at bytes off 4) =
      ((byte_at bytes off * 256 + byte_at bytes (off + 1)) * 256 + byte_at bytes (off + 2)) * 256 + byte_at bytes (off + 3)"
    using False b(3) [of 0] b(3) [of 1] b(3) [of 2] b(3) [of 3] bytes_at_eq [of off 4 bytes]
    by (simp add: be_value_def upt_rec numeral_3_eq_3)
  then show ?thesis
    using False js_ushr0_shl24 [of "byte_at bytes off"] js_shl_byte [of "byte_at bytes (off + 1)" 16]
      js_shl_byte [of "byte_at bytes (off + 2)" 8] b(1,2) [of 0] b(1,2) [of 1] b(1,2) [of 2]
    by (simp add: u32be_def)
qed (simp add: u32be_def)

lemma bytes_at_split:
  assumes "0 \<le> off"
  shows "bytes_at bytes off (m + n) = bytes_at bytes off m @ bytes_at bytes (off + int m) n"
  using assms by (simp add: bytes_at_def take_add nat_add_distrib drop_drop add.commute)

lemma u64be_value:
  "u64be bytes off = (if off < 0 \<or> off + 8 > int (length bytes) then Inl Truncated
     else if be_value (bytes_at bytes off 8) \<ge> 2 ^ 53 then Inl Offset_invalid
     else Inr (be_value (bytes_at bytes off 8)))"
proof (cases "off < 0 \<or> off + 8 > int (length bytes)")
  case False
  let ?h = "be_value (bytes_at bytes off 4)" and ?l = "be_value (bytes_at bytes (off + 4) 4)"
  have len: "length (bytes_at bytes (off + 4) 4) = 4" using False by (intro length_bytes_at) auto
  have "bytes_at bytes off 8 = bytes_at bytes off 4 @ bytes_at bytes (off + 4) 4"
    using False bytes_at_split [of off bytes 4 4] by simp
  then have v: "be_value (bytes_at bytes off 8) = ?h * 0x100000000 + ?l"
    using len by (simp add: be_value_append)
  have "0 \<le> ?l" "?l < 0x100000000" using be_value_bounds [of "bytes_at bytes (off + 4) 4"] len by auto
  then have "?h \<ge> 0x200000 \<longleftrightarrow> be_value (bytes_at bytes off 8) \<ge> 2 ^ 53" unfolding v by auto
  with False v show ?thesis by (simp add: u64be_def u32be_value)
next
  case True
  then show ?thesis by (auto simp: u64be_def u32be_value)
qed

lemma u16be_Inr [parse_dests]: "u16be bytes off = Inr v \<Longrightarrow> 0 \<le> off \<and> off + 2 \<le> int (length bytes) \<and> 0 \<le> v \<and> v < 65536"
  using be_value_bounds [of "bytes_at bytes off 2"] length_bytes_at [of off 2 bytes]
  by (auto simp: u16be_value split: if_splits)

lemma u32be_Inr [parse_dests]: "u32be bytes off = Inr v \<Longrightarrow> 0 \<le> off \<and> off + 4 \<le> int (length bytes) \<and> 0 \<le> v \<and> v < 2 ^ 32"
  using be_value_bounds [of "bytes_at bytes off 4"] length_bytes_at [of off 4 bytes]
  by (auto simp: u32be_value split: if_splits)

lemma u64be_Inr [parse_dests]:
  "u64be bytes off = Inr v \<Longrightarrow> 0 \<le> off \<and> off + 8 \<le> int (length bytes) \<and> 0 \<le> v \<and> v \<le> MAX_SAFE_INTEGER"
  using be_value_bounds [of "bytes_at bytes off 8"]
  by (auto simp: u64be_value MAX_SAFE_INTEGER_def split: if_splits)

lemma fourCc_Inr [parse_dests]: "fourCc bytes off = Inr t \<Longrightarrow> 0 \<le> off \<and> off + 4 \<le> int (length bytes) \<and> length t = 4"
  by (auto simp: fourCc_def split: if_splits)

lemma i32be_value:
  "i32be bytes off = (if off < 0 \<or> off + 4 > int (length bytes) then Inl Truncated
     else let v = be_value (bytes_at bytes off 4) in Inr (if v < 2 ^ 31 then v else v - 2 ^ 32))"
proof (cases "off < 0 \<or> off + 4 > int (length bytes)")
  case False
  let ?v = "be_value (bytes_at bytes off 4)"
  have "0 \<le> ?v" "?v < 2 ^ 32"
    using be_value_bounds [of "bytes_at bytes off 4"] length_bytes_at [of off 4 bytes] False by auto
  then have "js_or ?v 0 = (if ?v < 2 ^ 31 then ?v else ?v - 2 ^ 32)" by (rule js_or_zero)
  with False show ?thesis by (simp add: i32be_def u32be_value Let_def)
qed (simp add: i32be_def u32be_value)

lemma fourCc_value:
  "fourCc bytes off = (if off < 0 \<or> off + 4 > int (length bytes) then Inl Truncated
     else Inr (map unat (bytes_at bytes off 4)))"
proof (cases "off < 0 \<or> off + 4 > int (length bytes)")
  case False
  have b: "nat (byte_at bytes (off + int i)) = unat (bytes ! (nat off + i))" if "i < 4" for i
  proof -
    have "byte_at bytes (off + int i) = uint (bytes ! nat (off + int i))" using False that by (simp add: byte_at_def)
    then show ?thesis using False by (simp add: nat_add_distrib)
  qed
  have u: "[0..<4] = [0, 1, 2, 3 :: nat]" by (simp add: upt_rec)
  have "map unat (bytes_at bytes off 4) = map (\<lambda>i. unat (bytes ! (nat off + i))) [0..<4]"
    using False bytes_at_eq [of off 4 bytes] by (simp add: comp_def)
  also have "\<dots> = map (\<lambda>i. nat (byte_at bytes (off + i))) [0, 1, 2, 3]"
    unfolding u using b [of 0] b [of 1] b [of 2] b [of 3] by simp
  finally show ?thesis using False by (simp add: fourCc_def)
qed (simp add: fourCc_def)

text \<open>Writing a value as \<open>n\<close> big-endian bytes.\<close>

fun be_bytes :: "nat \<Rightarrow> int \<Rightarrow> byte list" where
  "be_bytes 0 v = []"
| "be_bytes (Suc n) v = be_bytes n (v div 256) @ [word_of_int v]"

lemma length_be_bytes [simp]: "length (be_bytes n v) = n"
  by (induction n arbitrary: v) auto

lemma be_value_be_bytes: "be_value (be_bytes n v) = v mod 256 ^ n"
proof (induction n arbitrary: v)
  case (Suc n)
  have "uint (word_of_int v :: byte) = v mod 256" by (simp add: uint_word_of_int)
  then have "be_value (be_bytes (Suc n) v) = v div 256 mod 256 ^ n * 256 + v mod 256"
    by (simp add: be_value_snoc Suc.IH)
  also have "\<dots> = v mod (256 * 256 ^ n)"
    using zmod_zmult2_eq [of "256 ^ n" v 256] by (simp add: mult.commute)
  finally show ?case by simp
qed (simp add: be_value_def)

text \<open>The readers of fixed-width integers, written with 32-bit shifts, are big-endian reads of the
  bytes at the offset: out of bounds is \<open>truncated\<close>, a 64-bit value that is not a safe integer is
  \<open>offset_invalid\<close>, the signed read is the two's complement of the unsigned one, and every other
  result is the exact value. No shift overflows.\<close>

theorem big_endian_reads:
  "u16be bytes off = (if off < 0 \<or> off + 2 > int (length bytes) then Inl Truncated else Inr (be_value (bytes_at bytes off 2))) \<and>
   u32be bytes off = (if off < 0 \<or> off + 4 > int (length bytes) then Inl Truncated else Inr (be_value (bytes_at bytes off 4))) \<and>
   i32be bytes off = (if off < 0 \<or> off + 4 > int (length bytes) then Inl Truncated
     else let v = be_value (bytes_at bytes off 4) in Inr (if v < 2 ^ 31 then v else v - 2 ^ 32)) \<and>
   u64be bytes off = (if off < 0 \<or> off + 8 > int (length bytes) then Inl Truncated
     else if is_safe_integer (be_value (bytes_at bytes off 8)) then Inr (be_value (bytes_at bytes off 8))
     else Inl Offset_invalid)"
  using be_value_bounds [of "bytes_at bytes off 8"]
  by (auto simp: u16be_value u32be_value i32be_value u64be_value is_safe_integer_def MAX_SAFE_INTEGER_def)

section \<open>Reading a file in chunks\<close>

text \<open>A file system handle over \<open>content\<close>: at least one byte of what is left, at most what was asked;
  nothing at the end.\<close>

definition handle_reads :: "(int \<Rightarrow> int \<Rightarrow> byte list) \<Rightarrow> byte list \<Rightarrow> bool" where
  "handle_reads h content \<longleftrightarrow> (\<forall>len pos. 0 < len \<longrightarrow> 0 \<le> pos \<longrightarrow>
     (\<exists>k. h len pos = take k (drop (nat pos) content) \<and> int k \<le> len \<and> (pos < int (length content) \<longrightarrow> 0 < k)))"

lemma file_read_loop_content:
  assumes "handle_reads h content" and "0 \<le> off" and "off + len \<le> int (length content)"
    and "filled = take (length filled) (drop (nat off) content)" and "int (length filled) \<le> len"
  shows "file_read_loop h off len filled = Inr (take (nat len) (drop (nat off) content))"
  using assms
proof (induction h off len filled rule: file_read_loop.induct)
  case (1 h off len filled)
  let ?n = "length filled"
  show ?case
  proof (cases "int ?n < len")
    case True
    let ?p = "off + int ?n"
    obtain k where k: "h (len - int ?n) ?p = take k (drop (nat ?p) content)" "int k \<le> len - int ?n"
        "?p < int (length content) \<longrightarrow> 0 < k"
      using 1(2) True 1(3) unfolding handle_reads_def by (smt (verit) of_nat_0_le_iff)
    have d: "drop (nat ?p) content = drop ?n (drop (nat off) content)"
      using 1(3) by (simp add: nat_add_distrib add.commute)
    have lk: "length (take k (drop (nat ?p) content)) = k" and kp: "0 < k"
      using k(2,3) 1(3,4) True by auto
    then have ne: "take k (drop (nat ?p) content) \<noteq> []" by (metis length_0_conv less_numeral_extra(3))
    have f: "filled @ take k (drop (nat ?p) content) = take (?n + k) (drop (nat off) content)"
      unfolding d using 1(5) take_add [of ?n k "drop (nat off) content"] by simp
    have "file_read_loop h off len (filled @ take k (drop (nat ?p) content)) = Inr (take (nat len) (drop (nat off) content))"
    proof (rule 1(1) [OF True refl, unfolded k(1), OF ne 1(2-4)])
      have l: "length (filled @ take k (drop (nat ?p) content)) = ?n + k" using lk by simp
      show "filled @ take k (drop (nat ?p) content) =
          take (length (filled @ take k (drop (nat ?p) content))) (drop (nat off) content)"
        unfolding l by (rule f)
      show "int (length (filled @ take k (drop (nat ?p) content))) \<le> len" unfolding l using k(2) by simp
    qed
    then show ?thesis
      using True ne by (subst file_read_loop.simps) (simp add: k(1) Let_def)
  next
    case False
    then have "len = int ?n" using 1(6) by simp
    then show ?thesis using 1(5) by (subst file_read_loop.simps) simp
  qed
qed

lemma file_source:
  assumes "handle_reads h content" and "openFileByteReader True (int (length content)) h = Inr rd"
  shows "byte_source rd content"
proof
  show "rdr_size rd = int (length content)" using assms(2) by (auto simp: openFileByteReader_def)
  show "rdr_read rd off len =
      (if assertRange (int (length content)) off len then Inr (take (nat len) (drop (nat off) content)) else Inl Truncated)"
    for off len
    using assms file_read_loop_content [OF assms(1), of off len "[]"]
    by (auto simp: openFileByteReader_def assertRange_def)
qed

text \<open>C15: a file reader is a buffer reader. Over any handle that returns at least one and at most the
  requested number of bytes per read (however it splits them), the reader \<open>openFileByteReader\<close> opens on
  a regular file returns, for every offset and length, exactly what \<open>bufferByteReader\<close> over the whole
  content returns, errors included; its loop ends.\<close>

theorem file_reader_is_buffer_reader:
  assumes "handle_reads h content"
  shows "\<exists>rd. openFileByteReader True (int (length content)) h = Inr rd \<and>
    rdr_size rd = rdr_size (bufferByteReader content) \<and>
    (\<forall>off len. rdr_read rd off len = rdr_read (bufferByteReader content) off len)"
proof -
  obtain rd where rd: "openFileByteReader True (int (length content)) h = Inr rd"
    by (simp add: openFileByteReader_def)
  note f = byte_source.size_content [OF file_source [OF assms rd]] byte_source.read_content [OF file_source [OF assms rd]]
  show ?thesis using rd f buffer.size_content buffer.read_content by auto
qed

theorem file_reader_is_buffer_reader_witness:
  "\<exists>rd. openFileByteReader True 3 (\<lambda>len pos. take 1 (drop (nat pos) [1, 2, 3])) = Inr rd \<and>
     rdr_read rd 1 2 = Inr [2, 3]"
proof -
  let ?h = "\<lambda>len pos. take 1 (drop (nat pos) [1, 2, 3 :: byte])"
  have "handle_reads ?h [1, 2, 3]" unfolding handle_reads_def by (intro allI impI exI [of _ 1]) auto
  from file_reader_is_buffer_reader [OF this] obtain rd where "openFileByteReader True 3 ?h = Inr rd"
      "rdr_read rd 1 2 = rdr_read (bufferByteReader [1, 2, 3]) 1 2"
    by auto
  then show ?thesis
    by (auto simp: bufferByteReader_def assertRange_def is_safe_integer_def MAX_SAFE_INTEGER_def subarray_def numeral_eq_Suc)
qed

end
