(* ===== verification/Isobmff.thy ===== *)
theory Isobmff
  imports MediaBytes
begin

text \<open>
  Bounded parsing of ISO BMFF / QuickTime boxes
  (\<open>services/backend-production/src/publishing/processing/isobmff.ts\<close>): box headers, sibling lists,
  paths and the random-access walk of the top level. The loops end because each level holds at most
  \<open>maxBoxesPerLevel\<close> (\<open>maxTopLevelBoxes\<close>) boxes, which is also their termination measure.
\<close>

record box_header =
  box_type :: jstr
  box_start :: int
  box_headerSize :: int
  box_size :: int
  box_end :: int
  box_contentStart :: int

definition maxBoxesPerLevel :: nat where "maxBoxesPerLevel = 4096"
definition maxDepth :: nat where "maxDepth = 8"
definition maxTopLevelBoxes :: nat where "maxTopLevelBoxes = 1024"
definition maxMovieBoxBytes :: int where "maxMovieBoxBytes = 16 * 1024 * 1024"
definition maxMetaBoxBytes :: int where "maxMetaBoxBytes = 4 * 1024 * 1024"
definition maxItems :: int where "maxItems = 4096"
definition maxExtentsPerItem :: int where "maxExtentsPerItem = 64"
definition maxItemBytes :: int where "maxItemBytes = 1024 * 1024"
definition maxReferences :: nat where "maxReferences = 4096"

definition TRAILING_BOX_TYPES :: "jstr list" where
  "TRAILING_BOX_TYPES = [js ''mdat'', js ''free'', js ''skip'', js ''mpvd'']"

text \<open>The header size and the box size, before a \<open>uuid\<close> is accounted for.\<close>

definition box_sizes :: "byte list \<Rightarrow> int \<Rightarrow> int \<Rightarrow> bool \<Rightarrow> int \<Rightarrow> int \<Rightarrow> (int \<times> int) parsed" where
  "box_sizes bytes off parentEnd allowToEnd base size32 =
     (if size32 = 1 then
        (if off + 16 > parentEnd then Inl Truncated
         else rbind (u64be bytes (off - base + 8)) (\<lambda>s. Inr (16, s)))
      else if size32 = 0 then (if \<not> allowToEnd then Inl Box_invalid else Inr (8, parentEnd - off))
      else Inr (8, size32))"

definition parseBoxHeader :: "byte list \<Rightarrow> int \<Rightarrow> int \<Rightarrow> bool \<Rightarrow> int \<Rightarrow> box_header parsed" where
  "parseBoxHeader bytes off parentEnd allowToEnd base =
     (let loc = off - base in
      if off + 8 > parentEnd then Inl Truncated
      else rbind (u32be bytes loc) (\<lambda>size32. rbind (fourCc bytes (loc + 4)) (\<lambda>ty.
        rbind (box_sizes bytes off parentEnd allowToEnd base size32) (\<lambda>(header, sz).
          let headerSize = (if ty = js ''uuid'' then header + 16 else header) in
          if sz < headerSize \<or> off + sz > parentEnd then Inl Box_invalid
          else Inr \<lparr>box_type = ty, box_start = off, box_headerSize = headerSize, box_size = sz,
            box_end = off + sz, box_contentStart = off + headerSize\<rparr>))))"

function listBoxes_loop :: "byte list \<Rightarrow> int \<Rightarrow> int \<Rightarrow> box_header list \<Rightarrow> int \<Rightarrow> box_header list parsed" where
  "listBoxes_loop bytes stop base boxes off =
     (if off < stop then
        (if length boxes \<ge> maxBoxesPerLevel then Inl Limit_exceeded
         else rbind (parseBoxHeader bytes off stop False base) (\<lambda>box.
           listBoxes_loop bytes stop base (boxes @ [box]) (box_end box)))
      else Inr boxes)"
  by pat_completeness auto
termination
  by (relation "measure (\<lambda>(_, _, _, boxes, _). maxBoxesPerLevel - length boxes)") auto

declare listBoxes_loop.simps [simp del]

definition listBoxes :: "byte list \<Rightarrow> int \<Rightarrow> int \<Rightarrow> int \<Rightarrow> box_header list parsed" where
  "listBoxes bytes start stop base =
     (if start < base \<or> stop - base > int (length bytes) \<or> start > stop then Inl Offset_invalid
      else listBoxes_loop bytes stop base [] start)"

fun findBoxPath_loop :: "byte list \<Rightarrow> int \<Rightarrow> box_header \<Rightarrow> jstr list \<Rightarrow> box_header option parsed" where
  "findBoxPath_loop bytes base current [] = Inr (Some current)"
| "findBoxPath_loop bytes base current (ty # path) =
     rbind (listBoxes bytes (box_contentStart current) (box_end current) base) (\<lambda>boxes.
       case List.find (\<lambda>box. box_type box = ty) boxes of
         None \<Rightarrow> Inr None
       | Some child \<Rightarrow> findBoxPath_loop bytes base child path)"

definition findBoxPath :: "byte list \<Rightarrow> box_header \<Rightarrow> jstr list \<Rightarrow> int \<Rightarrow> box_header option parsed" where
  "findBoxPath bytes container path base =
     (if length path > maxDepth then Inl Limit_exceeded
      else findBoxPath_loop bytes base container path)"

function topLevel_loop :: "byte_reader \<Rightarrow> int \<Rightarrow> box_header list \<Rightarrow> int \<Rightarrow> box_header list parsed" where
  "topLevel_loop reader stop boxes off =
     (if off < stop then
        (if length boxes \<ge> maxTopLevelBoxes then Inl Limit_exceeded
         else rbind (rdr_read reader off (min 32 (stop - off))) (\<lambda>head.
           rbind (parseBoxHeader head off stop True off) (\<lambda>box.
             rbind (u32be head 0) (\<lambda>size32.
               if size32 = 0 \<and> box_type box \<notin> set TRAILING_BOX_TYPES then Inl Box_invalid
               else topLevel_loop reader stop (boxes @ [box]) (box_end box)))))
      else Inr boxes)"
  by pat_completeness auto
termination
  by (relation "measure (\<lambda>(_, _, boxes, _). maxTopLevelBoxes - length boxes)") auto

declare topLevel_loop.simps [simp del]

definition readTopLevelBoxes :: "byte_reader \<Rightarrow> int \<Rightarrow> int \<Rightarrow> box_header list parsed" where
  "readTopLevelBoxes reader start stop = topLevel_loop reader stop [] start"

definition readTopLevelBox ::
    "byte_reader \<Rightarrow> jstr \<Rightarrow> int \<Rightarrow> (box_header \<times> byte list) option parsed" where
  "readTopLevelBox reader ty maxBytes =
     rbind (readTopLevelBoxes reader 0 (rdr_size reader)) (\<lambda>boxes.
       case List.find (\<lambda>b. box_type b = ty) boxes of
         None \<Rightarrow> Inr None
       | Some box \<Rightarrow>
           if box_size box > maxBytes then Inl Limit_exceeded
           else rbind (rdr_read reader (box_start box) (box_size box)) (\<lambda>bs. Inr (Some (box, bs))))"

section \<open>Tiling\<close>

text \<open>A header as the parser accepts it, and boxes that lie one after another from \<open>s\<close> to \<open>e\<close>.\<close>

definition box_ok :: "box_header \<Rightarrow> bool" where
  "box_ok b \<longleftrightarrow> length (box_type b) = 4 \<and> box_headerSize b \<in> {8, 16, 24, 32} \<and> box_headerSize b \<le> box_size b \<and>
     box_end b = box_start b + box_size b \<and> box_contentStart b = box_start b + box_headerSize b"

fun tiles :: "int \<Rightarrow> int \<Rightarrow> box_header list \<Rightarrow> bool" where
  "tiles s e [] \<longleftrightarrow> s = e"
| "tiles s e (b # bs) \<longleftrightarrow> box_start b = s \<and> box_ok b \<and> box_end b \<le> e \<and> tiles (box_end b) e bs"

lemma parseBoxHeader_Inr [parse_dests]:
  assumes "parseBoxHeader bytes off parentEnd toEnd base = Inr b"
  shows "box_start b = off \<and> box_ok b \<and> box_end b \<le> parentEnd \<and> base \<le> off \<and> off - base + 8 \<le> int (length bytes)"
proof -
  obtain size32 ty header sz where h: "u32be bytes (off - base) = Inr size32" "fourCc bytes (off - base + 4) = Inr ty"
      "box_sizes bytes off parentEnd toEnd base size32 = Inr (header, sz)"
    using assms by (auto simp: parseBoxHeader_def Let_def rbind_Inr_iff split: if_splits)
  then have "header = 8 \<or> header = 16"
    by (auto simp: box_sizes_def rbind_Inr_iff split: if_splits)
  with h assms u32be_Inr [OF h(1)] fourCc_Inr [OF h(2)] show ?thesis
    by (auto simp: parseBoxHeader_def Let_def box_ok_def split: if_splits)
qed

lemma box_ok_pos: "box_ok b \<Longrightarrow> 8 \<le> box_size b \<and> box_start b < box_end b \<and> box_start b + 8 \<le> box_contentStart b \<and>
    box_contentStart b \<le> box_end b"
  by (auto simp: box_ok_def)


lemma listBoxes_loop_tiles:
  assumes "listBoxes_loop bytes stop base boxes off = Inr result" and "off \<le> stop"
  shows "\<exists>bs. result = boxes @ bs \<and> tiles off stop bs \<and> (length boxes \<le> maxBoxesPerLevel \<longrightarrow> length result \<le> maxBoxesPerLevel)"
  using assms
proof (induction bytes stop base boxes off arbitrary: result rule: listBoxes_loop.induct)
  case (1 bytes stop base boxes off)
  show ?case
  proof (cases "off < stop")
    case True
    with 1(2) obtain box where box: "parseBoxHeader bytes off stop False base = Inr box"
        "listBoxes_loop bytes stop base (boxes @ [box]) (box_end box) = Inr result" and l: "\<not> length boxes \<ge> maxBoxesPerLevel"
      by (auto simp: listBoxes_loop.simps [of _ _ _ boxes] rbind_Inr_iff split: if_splits)
    note b = parseBoxHeader_Inr [OF box(1)]
    obtain bs where "result = (boxes @ [box]) @ bs" "tiles (box_end box) stop bs"
        "length (boxes @ [box]) \<le> maxBoxesPerLevel \<longrightarrow> length result \<le> maxBoxesPerLevel"
      using 1(1) [OF True l box(1) box(2)] b by blast
    then show ?thesis using b l by (intro exI [of _ "box # bs"]) auto
  next
    case False
    then show ?thesis using 1(2,3) by (auto simp: listBoxes_loop.simps [of _ _ _ boxes] intro!: exI [of _ "[]"])
  qed
qed

lemma listBoxes_Inr [parse_dests]:
  assumes "listBoxes bytes start stop base = Inr bs"
  shows "base \<le> start \<and> start \<le> stop \<and> stop - base \<le> int (length bytes) \<and> tiles start stop bs \<and>
    length bs \<le> maxBoxesPerLevel"
proof -
  have g: "base \<le> start" "start \<le> stop" "stop - base \<le> int (length bytes)"
      "listBoxes_loop bytes stop base [] start = Inr bs"
    using assms by (auto simp: listBoxes_def split: if_splits)
  from listBoxes_loop_tiles [OF g(4,2)] g show ?thesis by auto
qed

lemma tiles_le: "tiles s e bs \<Longrightarrow> s \<le> e"
  by (induction bs arbitrary: s) (use box_ok_pos in fastforce)+

lemma tiles_in: "tiles s e bs \<Longrightarrow> b \<in> set bs \<Longrightarrow> s \<le> box_start b \<and> box_end b \<le> e \<and> box_ok b"
proof (induction bs arbitrary: s)
  case (Cons a bs)
  then have "box_start a < box_end a" using box_ok_pos by auto
  with Cons show ?case by fastforce
qed simp

text \<open>C16: \<open>listBoxes\<close> returns only exact tilings: the boxes start at the requested offset, each begins
  where the one before ends, is at least as long as its header and ends inside the bytes, the last
  ends at the requested end, and there are at most 4096.\<close>

theorem listBoxes_tiles_range:
  assumes "listBoxes bytes start stop base = Inr bs"
  shows "tiles start stop bs \<and> length bs \<le> 4096 \<and>
    (\<forall>b \<in> set bs. base \<le> box_start b \<and> box_start b + 8 \<le> box_contentStart b \<and> box_contentStart b \<le> box_end b \<and>
       box_end b - base \<le> int (length bytes))"
proof -
  note l = listBoxes_Inr [OF assms]
  have "base \<le> box_start b \<and> box_start b + 8 \<le> box_contentStart b \<and> box_contentStart b \<le> box_end b \<and>
       box_end b - base \<le> int (length bytes)" if "b \<in> set bs" for b
    using l tiles_in [of start stop bs b] box_ok_pos [of b] that by auto
  with l show ?thesis by (auto simp: maxBoxesPerLevel_def)
qed

section \<open>Every encoded list of boxes is read back\<close>

definition encode_box :: "byte list \<times> byte list \<Rightarrow> byte list" where
  "encode_box b = be_bytes 4 (8 + int (length (snd b))) @ fst b @ snd b"

definition encodable :: "byte list \<times> byte list \<Rightarrow> bool" where
  "encodable b \<longleftrightarrow> length (fst b) = 4 \<and> map unat (fst b) \<noteq> js ''uuid'' \<and> 8 + int (length (snd b)) < 2 ^ 32"

fun headers_from :: "int \<Rightarrow> (byte list \<times> byte list) list \<Rightarrow> box_header list" where
  "headers_from off [] = []"
| "headers_from off (b # bs) =
     \<lparr>box_type = map unat (fst b), box_start = off, box_headerSize = 8, box_size = 8 + int (length (snd b)),
      box_end = off + (8 + int (length (snd b))), box_contentStart = off + 8\<rparr> #
     headers_from (off + (8 + int (length (snd b)))) bs"

lemma parse_encoded:
  assumes e: "encodable b" and at: "drop (nat off) bytes = encode_box b @ rest" and "0 \<le> off"
    and "off + (8 + int (length (snd b))) \<le> stop"
  shows "parseBoxHeader bytes off stop toEnd 0 = Inr \<lparr>box_type = map unat (fst b), box_start = off, box_headerSize = 8,
      box_size = 8 + int (length (snd b)), box_end = off + (8 + int (length (snd b))), box_contentStart = off + 8\<rparr>"
proof -
  let ?n = "8 + int (length (snd b))"
  have l4: "length (fst b) = 4" using e by (simp add: encodable_def)
  have "length (drop (nat off) bytes) \<ge> 8" unfolding at using l4 by (simp add: encode_box_def)
  then have len: "off + 8 \<le> int (length bytes)" using assms(3) by (auto simp: nat_le_iff)
  have "bytes_at bytes off 4 = be_bytes 4 ?n" by (simp add: bytes_at_def at encode_box_def)
  then have size: "u32be bytes off = Inr ?n"
    using len assms(3) e by (simp add: u32be_value be_value_be_bytes encodable_def)
  have "bytes_at bytes (off + 4) 4 = take 4 (drop 4 (drop (nat off) bytes))"
    using assms(3) by (simp add: bytes_at_def nat_add_distrib add.commute)
  also have "\<dots> = fst b" unfolding at using l4 by (simp add: encode_box_def)
  finally have ty: "fourCc bytes (off + 4) = Inr (map unat (fst b))"
    using len assms(3) by (simp add: fourCc_value)
  show ?thesis
    using size ty e assms(4) by (auto simp: parseBoxHeader_def box_sizes_def Let_def encodable_def)
qed

lemma listBoxes_loop_encoded:
  assumes "list_all encodable bs" and "drop (nat off) bytes = concat (map encode_box bs) @ rest" and "0 \<le> off"
    and "stop = off + int (length (concat (map encode_box bs)))" and "length acc + length bs \<le> maxBoxesPerLevel"
  shows "listBoxes_loop bytes stop 0 acc off = Inr (acc @ headers_from off bs)"
  using assms
proof (induction bs arbitrary: acc off)
  case Nil
  then show ?case by (simp add: listBoxes_loop.simps)
next
  case (Cons b bs)
  let ?n = "8 + int (length (snd b))"
  have l: "int (length (encode_box b)) = ?n" using Cons.prems(1) by (simp add: encode_box_def encodable_def)
  have at: "drop (nat off) bytes = encode_box b @ concat (map encode_box bs) @ rest" using Cons.prems(2) by simp
  have stop: "stop = off + ?n + int (length (concat (map encode_box bs)))" using Cons.prems(4) l by simp
  have p: "parseBoxHeader bytes off stop False 0 = Inr (hd (headers_from off (b # bs)))"
    using parse_encoded [OF _ at Cons.prems(3), of stop False] Cons.prems(1) stop by simp
  have "nat (off + ?n) = length (encode_box b) + nat off" using l Cons.prems(3) by simp
  then have "drop (nat (off + ?n)) bytes = drop (length (encode_box b)) (drop (nat off) bytes)"
    by (simp add: drop_drop)
  then have d: "drop (nat (off + ?n)) bytes = concat (map encode_box bs) @ rest" unfolding at by simp
  have "listBoxes_loop bytes stop 0 (acc @ [hd (headers_from off (b # bs))]) (off + ?n) =
      Inr ((acc @ [hd (headers_from off (b # bs))]) @ headers_from (off + ?n) bs)"
    using Cons.prems stop d by (intro Cons.IH) auto
  then show ?case
    using p stop Cons.prems(5) by (subst listBoxes_loop.simps) simp
qed

text \<open>Encoding and listing boxes is the identity on headers: for any up to 4096 boxes with four-byte
  types (not \<open>uuid\<close>) and payloads under 4 GiB, written one after another anywhere in a buffer,
  \<open>listBoxes\<close> over that range returns exactly their types, sizes and offsets.\<close>

theorem listBoxes_encoded:
  assumes "list_all encodable bs" and "length bs \<le> 4096"
  shows "listBoxes (pre @ concat (map encode_box bs) @ post) (int (length pre))
    (int (length pre) + int (length (concat (map encode_box bs)))) 0 = Inr (headers_from (int (length pre)) bs)"
  using listBoxes_loop_encoded [of bs "int (length pre)" "pre @ concat (map encode_box bs) @ post" post _ "[]"] assms
  by (simp add: listBoxes_def maxBoxesPerLevel_def)

definition sample_boxes :: "(byte list \<times> byte list) list" where
  "sample_boxes = [([102, 116, 121, 112], [1, 2]), ([109, 100, 97, 116], [])]"

lemma sample_boxes_encodable: "list_all encodable sample_boxes" "length sample_boxes \<le> 4096"
  by (simp_all add: sample_boxes_def encodable_def js_def)

theorem listBoxes_encoded_witness:
  "listBoxes ([9] @ concat (map encode_box sample_boxes) @ [8]) 1 19 0 = Inr (headers_from 1 sample_boxes)"
  using listBoxes_encoded [OF sample_boxes_encodable, of "[9]" "[8]"]
  by (simp add: sample_boxes_def encode_box_def)

lemma sample_listing:
  "listBoxes (concat (map encode_box sample_boxes)) 0 18 0 = Inr (headers_from 0 sample_boxes)"
  using listBoxes_loop_encoded [of sample_boxes 0 "concat (map encode_box sample_boxes)" "[]" 18 "[]"]
    sample_boxes_encodable
  by (simp add: listBoxes_def maxBoxesPerLevel_def) (simp add: sample_boxes_def encode_box_def)

theorem listBoxes_tiles_range_witness:
  "tiles 0 18 (headers_from 0 sample_boxes) \<and> length (headers_from 0 sample_boxes) \<le> 4096"
  using listBoxes_tiles_range [OF sample_listing] by blast

section \<open>Paths\<close>

lemma findBoxPath_loop_nested:
  assumes "findBoxPath_loop bytes base c path = Inr (Some b)" and "box_ok c"
  shows "box_ok b \<and> (path = [] \<and> b = c \<or> path \<noteq> [] \<and> box_type b = last path \<and>
    box_contentStart c \<le> box_start b \<and> box_end b \<le> box_end c)"
  using assms
proof (induction path arbitrary: c)
  case (Cons ty path)
  obtain boxes where l: "listBoxes bytes (box_contentStart c) (box_end c) base = Inr boxes"
    using Cons.prems(1) by (auto simp: rbind_Inr_iff)
  then obtain child where f: "List.find (\<lambda>box. box_type box = ty) boxes = Some child"
      and r: "findBoxPath_loop bytes base child path = Inr (Some b)"
    using Cons.prems(1) by (auto split: option.splits)
  have i: "box_contentStart c \<le> box_start child" "box_end child \<le> box_end c" "box_ok child" "box_type child = ty"
    using listBoxes_Inr [OF l] find_SomeD [OF f] tiles_in [of "box_contentStart c" "box_end c" boxes child] by auto
  from Cons.IH [OF r i(3)] i box_ok_pos [OF i(3)] show ?case by auto
qed simp

text \<open>A path of at least one box type leads to a box of the last type that lies wholly inside the
  content of the container; paths are at most eight deep.\<close>

theorem findBoxPath_nested:
  assumes "findBoxPath bytes container path base = Inr (Some b)" and "box_ok container" and "path \<noteq> []"
  shows "length path \<le> 8 \<and> box_type b = last path \<and> box_contentStart container \<le> box_start b \<and>
    box_start b + 8 \<le> box_contentStart b \<and> box_contentStart b \<le> box_end b \<and> box_end b \<le> box_end container"
proof -
  have "length path \<le> 8" "findBoxPath_loop bytes base container path = Inr (Some b)"
    using assms(1) by (auto simp: findBoxPath_def maxDepth_def split: if_splits)
  with findBoxPath_loop_nested [OF this(2) assms(2)] assms(3) box_ok_pos [of b] show ?thesis by auto
qed

definition sample_container :: box_header where
  "sample_container = \<lparr>box_type = [0, 0, 0, 0], box_start = - 8, box_headerSize = 8, box_size = 26, box_end = 18,
     box_contentStart = 0\<rparr>"

theorem findBoxPath_nested_witness:
  "\<exists>b. findBoxPath (concat (map encode_box sample_boxes)) sample_container [map nat [109, 100, 97, 116]] 0 = Inr (Some b) \<and>
     box_type b = [109, 100, 97, 116] \<and> box_end b \<le> 18"
proof -
  have "\<exists>b. findBoxPath (concat (map encode_box sample_boxes)) sample_container [[109, 100, 97, 116]] 0 = Inr (Some b)"
    by (simp add: findBoxPath_def maxDepth_def sample_container_def sample_listing) (simp add: sample_boxes_def)
  then obtain b where b: "findBoxPath (concat (map encode_box sample_boxes)) sample_container [[109, 100, 97, 116]] 0 = Inr (Some b)"
    by blast
  have "box_ok sample_container" by (simp add: box_ok_def sample_container_def)
  from findBoxPath_nested [OF b this] b show ?thesis by (auto simp: sample_container_def)
qed

section \<open>The top level, through any reader\<close>

context byte_source begin

lemma topLevel_loop_tiles:
  assumes "topLevel_loop rd stop boxes off = Inr result" and "off \<le> stop"
  shows "\<exists>bs. result = boxes @ bs \<and> tiles off stop bs \<and>
    (length boxes \<le> maxTopLevelBoxes \<longrightarrow> length result \<le> maxTopLevelBoxes)"
  using assms
proof (induction rd stop boxes off arbitrary: result rule: topLevel_loop.induct)
  case (1 reader stop boxes off)
  show ?case
  proof (cases "off < stop")
    case True
    with 1(2) obtain head box size32 where
      box: "rdr_read reader off (min 32 (stop - off)) = Inr head" "parseBoxHeader head off stop True off = Inr box"
        "u32be head 0 = Inr size32" "\<not> (size32 = 0 \<and> box_type box \<notin> set TRAILING_BOX_TYPES)"
        "topLevel_loop reader stop (boxes @ [box]) (box_end box) = Inr result"
      and l: "\<not> length boxes \<ge> maxTopLevelBoxes"
      by (subst (asm) topLevel_loop.simps) (auto simp: rbind_Inr_iff split: if_splits)
    note b = parseBoxHeader_Inr [OF box(2)]
    obtain bs where "result = (boxes @ [box]) @ bs" "tiles (box_end box) stop bs"
        "length (boxes @ [box]) \<le> maxTopLevelBoxes \<longrightarrow> length result \<le> maxTopLevelBoxes"
      using 1(1) [OF True l box(1-5)] b by blast
    then show ?thesis using b l by (intro exI [of _ "box # bs"]) auto
  next
    case False
    then show ?thesis using 1(2,3) by (subst (asm) topLevel_loop.simps) (auto intro!: exI [of _ "[]"])
  qed
qed

lemma readTopLevelBoxes_tiles:
  assumes "readTopLevelBoxes rd start stop = Inr bs" and "start \<le> stop"
  shows "tiles start stop bs" and "length bs \<le> maxTopLevelBoxes"
  using topLevel_loop_tiles [of stop "[]" start bs] assms by (auto simp: readTopLevelBoxes_def)

lemma readTopLevelBox_content:
  assumes "readTopLevelBox rd ty maxBytes = Inr (Some (box, bs))"
  shows "box_type box = ty" and "0 \<le> box_start box" and "box_end box \<le> int (length content)"
    and "int (length bs) = box_size box" and "box_size box \<le> maxBytes"
    and "bs = take (nat (box_size box)) (drop (nat (box_start box)) content)"
proof -
  obtain boxes where l: "readTopLevelBoxes rd 0 (rdr_size rd) = Inr boxes"
    using assms by (auto simp: readTopLevelBox_def rbind_Inr_iff)
  then have f: "List.find (\<lambda>b. box_type b = ty) boxes = Some box" and m: "\<not> box_size box > maxBytes"
      and r: "rdr_read rd (box_start box) (box_size box) = Inr bs"
    using assms by (auto simp: readTopLevelBox_def rbind_Inr_iff split: option.splits if_splits)
  have t: "tiles 0 (rdr_size rd) boxes" using readTopLevelBoxes_tiles(1) [OF l] size_content by simp
  note i = tiles_in [OF t conjunct1 [OF find_SomeD [OF f]]]
  show "box_type box = ty" "0 \<le> box_start box" "box_end box \<le> int (length content)" "box_size box \<le> maxBytes"
    using i m find_SomeD [OF f] size_content by auto
  show "int (length bs) = box_size box" "bs = take (nat (box_size box)) (drop (nat (box_start box)) content)"
    using read_Inr [OF r] by auto
qed

end

text \<open>The random-access walk of a file's top level accepts only exact tilings of the whole file, of at
  most 1024 boxes; the box it reads out of the file is the first of its type's bytes, exactly as long
  as the header says and within the caller's bound.\<close>

theorem top_level_boxes:
  assumes "readTopLevelBoxes (bufferByteReader bytes) 0 (int (length bytes)) = Inr boxes"
    and "readTopLevelBox (bufferByteReader bytes) ty maxBytes = Inr (Some (box, bs))"
  shows "tiles 0 (int (length bytes)) boxes \<and> length boxes \<le> 1024 \<and> box \<in> set boxes \<and> box_type box = ty \<and>
    bs = take (nat (box_size box)) (drop (nat (box_start box)) bytes) \<and> int (length bs) = box_size box \<and>
    box_size box \<le> maxBytes"
proof -
  have "box \<in> set boxes"
    using assms by (auto simp: readTopLevelBox_def bufferByteReader_def rbind_Inr_iff dest: find_SomeD split: option.splits if_splits)
  then show ?thesis
    using buffer.readTopLevelBoxes_tiles [OF assms(1)] buffer.readTopLevelBox_content [OF assms(2)]
    by (auto simp: maxTopLevelBoxes_def)
qed

definition sample_file :: "byte list" where
  "sample_file = [0, 0, 0, 9, 102, 116, 121, 112, 1, 0, 0, 0, 0, 109, 100, 97, 116]"

lemma sample_top_level:
  "readTopLevelBoxes (bufferByteReader sample_file) 0 17 = Inr
    [\<lparr>box_type = [102, 116, 121, 112], box_start = 0, box_headerSize = 8, box_size = 9, box_end = 9, box_contentStart = 8\<rparr>,
     \<lparr>box_type = [109, 100, 97, 116], box_start = 9, box_headerSize = 8, box_size = 8, box_end = 17, box_contentStart = 17\<rparr>]"
proof -
  let ?r = "bufferByteReader sample_file"
  have r: "rdr_read ?r 0 17 = Inr sample_file" "rdr_read ?r 9 8 = Inr [0, 0, 0, 0, 109, 100, 97, 116]"
    by (simp_all add: bufferByteReader_def sample_file_def assertRange_def is_safe_integer_def MAX_SAFE_INTEGER_def subarray_def)
  have u: "u32be sample_file 0 = Inr 9" "u32be [0, 0, 0, 0, 109, 100, 97, 116] 0 = Inr 0"
      "fourCc sample_file 4 = Inr [102, 116, 121, 112]" "fourCc [0, 0, 0, 0, 109, 100, 97, 116] 4 = Inr [109, 100, 97, 116]"
    by (simp_all add: u32be_value fourCc_value bytes_at_def be_value_def sample_file_def)
  have p: "parseBoxHeader sample_file 0 17 True 0 = Inr \<lparr>box_type = [102, 116, 121, 112], box_start = 0, box_headerSize = 8,
       box_size = 9, box_end = 9, box_contentStart = 8\<rparr>"
    "parseBoxHeader [0, 0, 0, 0, 109, 100, 97, 116] 9 17 True 9 = Inr \<lparr>box_type = [109, 100, 97, 116], box_start = 9,
       box_headerSize = 8, box_size = 8, box_end = 17, box_contentStart = 17\<rparr>"
    by (simp_all add: parseBoxHeader_def u box_sizes_def js_def)
  have m: "[109, 100, 97, 116] \<in> set TRAILING_BOX_TYPES" by (simp add: TRAILING_BOX_TYPES_def js_def)
  show ?thesis
    unfolding readTopLevelBoxes_def
    by (subst topLevel_loop.simps, simp add: r u p maxTopLevelBoxes_def, subst topLevel_loop.simps,
        simp add: r u p m maxTopLevelBoxes_def, subst topLevel_loop.simps, simp)
qed

theorem top_level_boxes_witness:
  "\<exists>box. readTopLevelBox (bufferByteReader sample_file) [102, 116, 121, 112] 100 = Inr (Some (box, take 9 sample_file)) \<and>
    box_size box \<le> 100"
proof -
  have l: "int (length sample_file) = 17" by (simp add: sample_file_def)
  have z: "rdr_size (bufferByteReader sample_file) = 17" by (simp add: bufferByteReader_def sample_file_def)
  obtain box where b: "readTopLevelBox (bufferByteReader sample_file) [102, 116, 121, 112] 100 = Inr (Some (box, take 9 sample_file))"
    by (simp add: readTopLevelBox_def z sample_top_level)
       (simp add: bufferByteReader_def sample_file_def assertRange_def is_safe_integer_def MAX_SAFE_INTEGER_def subarray_def)
  from top_level_boxes [OF sample_top_level [folded l] b] b show ?thesis by blast
qed

end
