(* ===== verification/HeifMeta.thy ===== *)
theory HeifMeta
  imports Isobmff
begin

unbundle bit_operations_syntax

text \<open>
  HEIF item metadata and video rotation
  (the second half of \<open>services/backend-production/src/publishing/processing/isobmff.ts\<close>): the
  \<open>iinf\<close>, \<open>iloc\<close> and \<open>iref\<close> boxes of a \<open>meta\<close> box, reading an item's payload, and the display
  rotation of a QuickTime movie. A JavaScript \<open>Map\<close> that is only built once and looked up is an
  association list in insertion order. The read cursor of a loop is its integer argument.
\<close>

section \<open>Primitives\<close>

text \<open>Version and body start of a FullBox.\<close>

definition fullBoxBody :: "byte list \<Rightarrow> box_header \<Rightarrow> int \<Rightarrow> (int \<times> int) parsed" where
  "fullBoxBody bytes box base =
     (if box_contentStart box + 4 > box_end box then Inl Truncated
      else Inr (byte_at bytes (box_contentStart box - base), box_contentStart box + 4))"

definition readSized :: "byte list \<Rightarrow> int \<Rightarrow> int \<Rightarrow> int \<Rightarrow> int parsed" where
  "readSized bytes off sz stop =
     (if off + sz > stop then Inl Truncated
      else if sz = 0 then Inr 0
      else if sz = 4 then u32be bytes off
      else if sz = 8 then u64be bytes off
      else Inl Structure_invalid)"

definition MAX_CSTRING_CHARS :: nat where "MAX_CSTRING_CHARS = 255"

function readCString_loop :: "byte list \<Rightarrow> int \<Rightarrow> int \<Rightarrow> jstr \<Rightarrow> jstr \<times> int" where
  "readCString_loop bytes stop cursor text =
     (if cursor < stop \<and> byte_at bytes cursor \<noteq> 0 then
        readCString_loop bytes stop (cursor + 1)
          (if length text < MAX_CSTRING_CHARS then text @ [nat (byte_at bytes cursor)] else text)
      else (text, cursor))"
  by pat_completeness auto
termination by (relation "measure (\<lambda>(_, stop, cursor, _). nat (stop - cursor))") auto

declare readCString_loop.simps [simp del]

definition readCString :: "byte list \<Rightarrow> int \<Rightarrow> int \<Rightarrow> jstr \<times> int" where
  "readCString bytes off stop =
     (case readCString_loop bytes stop off [] of (text, cursor) \<Rightarrow> (text, min (cursor + 1) stop))"

section \<open>Item metadata\<close>

record heif_item =
  itm_id :: int
  itm_type :: jstr
  itm_contentType :: "jstr option"

record heif_extent =
  ext_offset :: int
  ext_length :: int

record heif_location =
  loc_id :: int
  loc_constructionMethod :: int
  loc_extents :: "heif_extent list"

record heif_reference =
  ref_type :: jstr
  ref_from :: int
  ref_to :: "int list"

record heif_meta =
  hmt_primaryItemId :: "int option"
  hmt_items :: "heif_item list"
  hmt_locations :: "(int \<times> heif_location) list"
  hmt_references :: "heif_reference list"
  hmt_itemData :: "(int \<times> int) option"

definition read_id :: "byte list \<Rightarrow> int \<Rightarrow> int \<Rightarrow> int parsed" where
  "read_id bytes idSize off = (if idSize = 2 then u16be bytes off else u32be bytes off)"

definition parse_infe :: "byte list \<Rightarrow> box_header \<Rightarrow> heif_item parsed" where
  "parse_infe bytes entry =
     rbind (fullBoxBody bytes entry 0) (\<lambda>(version, bodyStart).
       if version < 2 then
         rbind (u16be bytes bodyStart) (\<lambda>i. Inr \<lparr>itm_id = i, itm_type = [], itm_contentType = None\<rparr>)
       else
         let idSize = (if version = 2 then 2 else 4) in
         rbind (read_id bytes idSize bodyStart) (\<lambda>i.
           let typeOffset = bodyStart + idSize + 2 in
           if typeOffset + 4 > box_end entry then Inl Truncated
           else rbind (fourCc bytes typeOffset) (\<lambda>ty.
             let name = readCString bytes (typeOffset + 4) (box_end entry) in
             Inr \<lparr>itm_id = i, itm_type = ty, itm_contentType =
               (if ty = js ''mime'' then Some (fst (readCString bytes (snd name) (box_end entry))) else None)\<rparr>)))"

definition parseItemInfo :: "byte list \<Rightarrow> box_header \<Rightarrow> heif_item list parsed" where
  "parseItemInfo bytes box =
     rbind (fullBoxBody bytes box 0) (\<lambda>(version, bodyStart).
       let countSize = (if version = 0 then 2 else 4) in
       rbind (read_id bytes countSize bodyStart) (\<lambda>count.
         if count > maxItems then Inl Limit_exceeded
         else rbind (listBoxes bytes (bodyStart + countSize) (box_end box) 0) (\<lambda>boxes.
           let entries = filter (\<lambda>entry. box_type entry = js ''infe'') boxes in
           if int (length entries) \<noteq> count then Inl Structure_invalid
           else rmap (parse_infe bytes) entries)))"

text \<open>The sizes an \<open>iloc\<close> box declares, as its loops use them.\<close>

record iloc_layout =
  lay_version :: int
  lay_offsetSize :: int
  lay_lengthSize :: int
  lay_baseOffsetSize :: int
  lay_indexSize :: int
  lay_end :: int

fun parse_extents :: "byte list \<Rightarrow> iloc_layout \<Rightarrow> int \<Rightarrow> nat \<Rightarrow> int \<Rightarrow> (heif_extent list \<times> int) parsed" where
  "parse_extents bytes lay baseOffset 0 cursor = Inr ([], cursor)"
| "parse_extents bytes lay baseOffset (Suc n) cursor =
     (let cursor = cursor + lay_indexSize lay in
      rbind (readSized bytes cursor (lay_offsetSize lay) (lay_end lay)) (\<lambda>off.
        let cursor = cursor + lay_offsetSize lay in
        rbind (readSized bytes cursor (lay_lengthSize lay) (lay_end lay)) (\<lambda>len.
          let cursor = cursor + lay_lengthSize lay; absolute = baseOffset + off in
          if \<not> is_safe_integer absolute then Inl Offset_invalid
          else rbind (parse_extents bytes lay baseOffset n cursor) (\<lambda>(rest, cursor).
            Inr (\<lparr>ext_offset = absolute, ext_length = len\<rparr> # rest, cursor)))))"

definition parse_location :: "byte list \<Rightarrow> iloc_layout \<Rightarrow> int \<Rightarrow> (heif_location \<times> int) parsed" where
  "parse_location bytes lay cursor =
     (let idSize = (if lay_version lay < 2 then 2 else 4) in
      rbind (read_id bytes idSize cursor) (\<lambda>i.
        let cursor = cursor + idSize in
        rbind (if lay_version lay > 0 then rbind (u16be bytes cursor) (\<lambda>v. Inr (v AND 15, cursor + 2))
               else Inr (0, cursor)) (\<lambda>(constructionMethod, cursor).
          let cursor = cursor + 2 in
          rbind (readSized bytes cursor (lay_baseOffsetSize lay) (lay_end lay)) (\<lambda>baseOffset.
            let cursor = cursor + lay_baseOffsetSize lay in
            rbind (u16be bytes cursor) (\<lambda>extentCount.
              let cursor = cursor + 2 in
              if extentCount > maxExtentsPerItem then Inl Limit_exceeded
              else rbind (parse_extents bytes lay baseOffset (nat extentCount) cursor) (\<lambda>(extents, cursor).
                Inr (\<lparr>loc_id = i, loc_constructionMethod = constructionMethod, loc_extents = extents\<rparr>, cursor)))))))"

fun parse_locations ::
    "byte list \<Rightarrow> iloc_layout \<Rightarrow> nat \<Rightarrow> int \<Rightarrow> (int \<times> heif_location) list \<Rightarrow> ((int \<times> heif_location) list \<times> int) parsed" where
  "parse_locations bytes lay 0 cursor locations = Inr (locations, cursor)"
| "parse_locations bytes lay (Suc n) cursor locations =
     rbind (parse_location bytes lay cursor) (\<lambda>(location, cursor).
       if loc_id location \<in> fst ` set locations then Inl Structure_invalid
       else parse_locations bytes lay n cursor (locations @ [(loc_id location, location)]))"

definition parseItemLocations :: "byte list \<Rightarrow> box_header \<Rightarrow> (int \<times> heif_location) list parsed" where
  "parseItemLocations bytes box =
     rbind (fullBoxBody bytes box 0) (\<lambda>(version, bodyStart).
       if version > 2 then Inl Structure_invalid
       else rbind (u16be bytes bodyStart) (\<lambda>sizes.
         let cursor = bodyStart + 2;
             lay = \<lparr>lay_version = version, lay_offsetSize = drop_bit 12 sizes,
               lay_lengthSize = drop_bit 8 sizes AND 15, lay_baseOffsetSize = drop_bit 4 sizes AND 15,
               lay_indexSize = (if version = 0 then 0 else sizes AND 15), lay_end = box_end box\<rparr>
         in if \<not> list_all (\<lambda>s. s = 0 \<or> s = 4 \<or> s = 8)
               [lay_offsetSize lay, lay_lengthSize lay, lay_baseOffsetSize lay, lay_indexSize lay]
            then Inl Structure_invalid
            else let countSize = (if version < 2 then 2 else 4) in
              rbind (read_id bytes countSize cursor) (\<lambda>itemCount.
                if itemCount > maxItems then Inl Limit_exceeded
                else rbind (parse_locations bytes lay (nat itemCount) (cursor + countSize) []) (\<lambda>(locations, cursor).
                  if cursor > box_end box then Inl Truncated else Inr locations))))"

fun read_ids :: "byte list \<Rightarrow> int \<Rightarrow> nat \<Rightarrow> int \<Rightarrow> int list parsed" where
  "read_ids bytes idSize 0 cursor = Inr []"
| "read_ids bytes idSize (Suc n) cursor =
     rbind (read_id bytes idSize cursor) (\<lambda>i. rbind (read_ids bytes idSize n (cursor + idSize)) (\<lambda>rest. Inr (i # rest)))"

fun parse_references :: "byte list \<Rightarrow> int \<Rightarrow> box_header list \<Rightarrow> heif_reference list \<Rightarrow> heif_reference list parsed" where
  "parse_references bytes idSize [] references = Inr references"
| "parse_references bytes idSize (entry # entries) references =
     (if length references \<ge> maxReferences then Inl Limit_exceeded
      else rbind (read_id bytes idSize (box_contentStart entry)) (\<lambda>from_id.
        let cursor = box_contentStart entry + idSize in
        rbind (u16be bytes cursor) (\<lambda>count.
          let cursor = cursor + 2 in
          if cursor + count * idSize > box_end entry then Inl Truncated
          else rbind (read_ids bytes idSize (nat count) cursor) (\<lambda>to_ids.
            parse_references bytes idSize entries
              (references @ [\<lparr>ref_type = box_type entry, ref_from = from_id, ref_to = to_ids\<rparr>])))))"

definition parseItemReferences :: "byte list \<Rightarrow> box_header \<Rightarrow> heif_reference list parsed" where
  "parseItemReferences bytes box =
     rbind (fullBoxBody bytes box 0) (\<lambda>(version, bodyStart).
       rbind (listBoxes bytes bodyStart (box_end box) 0) (\<lambda>entries.
         parse_references bytes (if version = 0 then 2 else 4) entries []))"

definition one_box :: "box_header list \<Rightarrow> jstr \<Rightarrow> box_header option parsed" where
  "one_box children ty =
     (let matches = filter (\<lambda>box. box_type box = ty) children in
      if length matches > 1 then Inl Structure_invalid
      else Inr (case matches of [] \<Rightarrow> None | m # _ \<Rightarrow> Some m))"

definition parseHeifMeta :: "byte list \<Rightarrow> heif_meta parsed" where
  "parseHeifMeta metaBytes =
     rbind (parseBoxHeader metaBytes 0 (int (length metaBytes)) False 0) (\<lambda>meta.
       if box_type meta \<noteq> js ''meta'' then Inl Structure_invalid
       else rbind (fullBoxBody metaBytes meta 0) (\<lambda>(_, bodyStart).
         rbind (listBoxes metaBytes bodyStart (box_end meta) 0) (\<lambda>children.
           rbind (one_box children (js ''pitm'')) (\<lambda>pitm.
             rbind (case pitm of
                 None \<Rightarrow> Inr None
               | Some p \<Rightarrow> rbind (fullBoxBody metaBytes p 0) (\<lambda>(version, start).
                   rbind (read_id metaBytes (if version = 0 then 2 else 4) start) (\<lambda>i. Inr (Some i)))) (\<lambda>primaryItemId.
               rbind (one_box children (js ''iinf'')) (\<lambda>iinf. rbind (one_box children (js ''iloc'')) (\<lambda>iloc.
                 rbind (one_box children (js ''iref'')) (\<lambda>iref. rbind (one_box children (js ''idat'')) (\<lambda>idat.
                   rbind (case iinf of None \<Rightarrow> Inr [] | Some b \<Rightarrow> parseItemInfo metaBytes b) (\<lambda>items.
                     rbind (case iloc of None \<Rightarrow> Inr [] | Some b \<Rightarrow> parseItemLocations metaBytes b) (\<lambda>locations.
                       rbind (case iref of None \<Rightarrow> Inr [] | Some b \<Rightarrow> parseItemReferences metaBytes b) (\<lambda>references.
                         Inr \<lparr>hmt_primaryItemId = primaryItemId, hmt_items = items, hmt_locations = locations,
                           hmt_references = references,
                           hmt_itemData = map_option (\<lambda>b. (box_contentStart b, box_end b)) idat\<rparr>))))))))))))"

section \<open>Item payloads\<close>

fun read_extents :: "byte_reader \<Rightarrow> byte list \<Rightarrow> heif_meta \<Rightarrow> int \<Rightarrow> heif_extent list \<Rightarrow> byte list parsed" where
  "read_extents reader metaBytes meta method [] = Inr []"
| "read_extents reader metaBytes meta method (extent # extents) =
     rbind (if method = 0 then rdr_read reader (ext_offset extent) (ext_length extent)
            else case (method = 1, hmt_itemData meta) of
              (True, Some (data_start, data_end)) \<Rightarrow>
                (let start = data_start + ext_offset extent in
                 if start + ext_length extent > data_end then Inl Offset_invalid
                 else Inr (subarray metaBytes start (start + ext_length extent)))
            | _ \<Rightarrow> Inl Structure_invalid)
       (\<lambda>chunk. rbind (read_extents reader metaBytes meta method extents) (\<lambda>rest. Inr (chunk @ rest)))"

text \<open>The output array has the declared length; chunks are set into it one after another.\<close>

definition readHeifItem :: "byte_reader \<Rightarrow> byte list \<Rightarrow> heif_meta \<Rightarrow> int \<Rightarrow> int \<Rightarrow> byte list parsed" where
  "readHeifItem reader metaBytes meta itemId maxBytes =
     (case map_of (hmt_locations meta) itemId of
        None \<Rightarrow> Inl Structure_invalid
      | Some location \<Rightarrow>
          if loc_extents location = [] then Inl Structure_invalid
          else
            let bound = foldl (\<lambda>sum e. sum + ext_length e) 0 (loc_extents location) in
            if list_ex (\<lambda>e. ext_length e = 0) (loc_extents location) \<or> bound > maxBytes then Inl Limit_exceeded
            else rbind (read_extents reader metaBytes meta (loc_constructionMethod location) (loc_extents location))
              (\<lambda>chunks. Inr (chunks @ replicate (nat bound - length chunks) 0)))"

definition findHeifExifItemId :: "heif_meta \<Rightarrow> int option" where
  "findHeifExifItemId meta =
     (let exifItems = filter (\<lambda>item. itm_type item = js ''Exif'') (hmt_items meta) in
      case exifItems of
        [] \<Rightarrow> None
      | first # _ \<Rightarrow>
          let describing = List.find (\<lambda>item. list_ex (\<lambda>ref. ref_type ref = js ''cdsc'' \<and> ref_from ref = itm_id item \<and>
                (case hmt_primaryItemId meta of None \<Rightarrow> False | Some p \<Rightarrow> p \<in> set (ref_to ref))) (hmt_references meta)) exifItems
          in Some (itm_id (case describing of None \<Rightarrow> first | Some item \<Rightarrow> item)))"

section \<open>Rotation\<close>

definition rotation_of :: "int \<Rightarrow> int \<Rightarrow> int \<Rightarrow> int \<Rightarrow> int option" where
  "rotation_of a b c d =
     (if b = 0 \<and> c = 0 \<and> a = d \<and> a \<noteq> 0 then Some (if a > 0 then 0 else 180)
      else if a = 0 \<and> d = 0 \<and> b = - c \<and> b \<noteq> 0 then Some (if b > 0 then 90 else 270)
      else None)"

definition matrixRotation :: "byte list \<Rightarrow> int \<Rightarrow> int option parsed" where
  "matrixRotation bytes off =
     rbind (i32be bytes off) (\<lambda>a. rbind (i32be bytes (off + 4)) (\<lambda>b.
       rbind (i32be bytes (off + 12)) (\<lambda>c. rbind (i32be bytes (off + 16)) (\<lambda>d. Inr (rotation_of a b c d)))))"

fun track_rotation :: "byte list \<Rightarrow> int option \<Rightarrow> box_header list \<Rightarrow> int option parsed" where
  "track_rotation moovBytes movieRotation [] = Inr None"
| "track_rotation moovBytes movieRotation (trak # traks) =
     rbind (findBoxPath moovBytes trak [js ''mdia'', js ''hdlr''] 0) (\<lambda>hdlr.
       case hdlr of
         None \<Rightarrow> track_rotation moovBytes movieRotation traks
       | Some h \<Rightarrow>
           if box_contentStart h + 12 > box_end h then track_rotation moovBytes movieRotation traks
           else rbind (fourCc moovBytes (box_contentStart h + 8)) (\<lambda>handler.
             if handler \<noteq> js ''vide'' then track_rotation moovBytes movieRotation traks
             else rbind (findBoxPath moovBytes trak [js ''tkhd''] 0) (\<lambda>tkhd.
               case tkhd of
                 None \<Rightarrow> Inl Structure_invalid
               | Some t \<Rightarrow>
                   rbind (fullBoxBody moovBytes t 0) (\<lambda>(version, bodyStart).
                     let matrixOffset = bodyStart + (if version = 1 then 48 else 36) in
                     if matrixOffset + 36 > box_end t then Inl Truncated
                     else rbind (matrixRotation moovBytes matrixOffset) (\<lambda>trackRotation.
                       case (trackRotation, movieRotation) of
                         (Some tr, Some mr) \<Rightarrow> Inr (Some ((tr + mr) mod 360))
                       | _ \<Rightarrow> Inr None)))))"

definition readVideoTrackRotation :: "byte list \<Rightarrow> int option parsed" where
  "readVideoTrackRotation moovBytes =
     rbind (parseBoxHeader moovBytes 0 (int (length moovBytes)) False 0) (\<lambda>moov.
       if box_type moov \<noteq> js ''moov'' then Inl Structure_invalid
       else rbind (listBoxes moovBytes (box_contentStart moov) (box_end moov) 0) (\<lambda>children.
         case List.find (\<lambda>box. box_type box = js ''mvhd'') children of
           None \<Rightarrow> Inl Structure_invalid
         | Some mvhd \<Rightarrow>
             rbind (fullBoxBody moovBytes mvhd 0) (\<lambda>(version, bodyStart).
               let movieMatrixOffset = bodyStart + (if version = 1 then 44 else 32) in
               if movieMatrixOffset + 36 > box_end mvhd then Inl Truncated
               else rbind (matrixRotation moovBytes movieMatrixOffset) (\<lambda>movieRotation.
                 track_rotation moovBytes movieRotation (filter (\<lambda>box. box_type box = js ''trak'') children)))))"

section \<open>Item locations\<close>

definition extent_ok :: "heif_extent \<Rightarrow> bool" where
  "extent_ok e \<longleftrightarrow> 0 \<le> ext_offset e \<and> ext_offset e \<le> MAX_SAFE_INTEGER \<and> 0 \<le> ext_length e \<and> ext_length e \<le> MAX_SAFE_INTEGER"

definition location_ok :: "int \<times> heif_location \<Rightarrow> bool" where
  "location_ok p \<longleftrightarrow> loc_id (snd p) = fst p \<and> 0 \<le> loc_constructionMethod (snd p) \<and> loc_constructionMethod (snd p) \<le> 15 \<and>
     length (loc_extents (snd p)) \<le> 64 \<and> list_all extent_ok (loc_extents (snd p))"

lemma readSized_Inr [parse_dests]: "readSized bytes off sz stop = Inr v \<Longrightarrow> 0 \<le> v \<and> v \<le> MAX_SAFE_INTEGER \<and> off + sz \<le> stop"
  by (auto simp: readSized_def MAX_SAFE_INTEGER_def split: if_splits dest!: u32be_Inr u64be_Inr)

lemma parse_extents_ok:
  assumes "parse_extents bytes lay baseOffset n cursor = Inr (es, c)" and "0 \<le> baseOffset"
  shows "length es = n \<and> list_all extent_ok es"
  using assms
proof (induction n arbitrary: cursor es)
  case (Suc n)
  obtain off len cur rest where r: "readSized bytes (cursor + lay_indexSize lay) (lay_offsetSize lay) (lay_end lay) = Inr off"
      "readSized bytes cur (lay_lengthSize lay) (lay_end lay) = Inr len" "is_safe_integer (baseOffset + off)"
      "es = \<lparr>ext_offset = baseOffset + off, ext_length = len\<rparr> # rest"
      "\<exists>cur'. parse_extents bytes lay baseOffset n cur' = Inr (rest, c)"
    using Suc.prems(1) by (auto simp: Let_def rbind_Inr_iff split: if_splits prod.splits) blast
  then have "length rest = n \<and> list_all extent_ok rest" using Suc.IH Suc.prems(2) by blast
  moreover have "extent_ok \<lparr>ext_offset = baseOffset + off, ext_length = len\<rparr>"
    using readSized_Inr [OF r(1)] readSized_Inr [OF r(2)] r(3) Suc.prems(2)
    by (auto simp: extent_ok_def is_safe_integer_def)
  ultimately show ?case using r(4) by simp
qed simp

lemma and_15: "0 \<le> (v::int) AND 15 \<and> v AND 15 \<le> 15"
proof -
  have "v AND 15 = v mod 16" using take_bit_eq_mask [of 4 v] by (simp add: take_bit_eq_mod mask_eq_exp_minus_1)
  then show ?thesis by simp
qed

lemma parse_location_ok:
  assumes "parse_location bytes lay cursor = Inr (l, c)"
  shows "location_ok (loc_id l, l)"
proof -
  let ?idSize = "if lay_version lay < 2 then 2 else 4"
  obtain i where i: "read_id bytes ?idSize cursor = Inr i"
    using assms by (auto simp: parse_location_def Let_def rbind_Inr_iff)
  obtain m cur where m: "(if lay_version lay > 0 then rbind (u16be bytes (cursor + ?idSize)) (\<lambda>v. Inr (v AND 15, cursor + ?idSize + 2))
        else Inr (0, cursor + ?idSize)) = Inr (m, cur)"
    using assms unfolding parse_location_def Let_def i rbind_simps by (auto simp: rbind_Inr_iff simp del: if_split)
  then have m15: "0 \<le> m \<and> m \<le> 15" using and_15 by (auto simp: rbind_Inr_iff split: if_splits)
  obtain base where base: "readSized bytes (cur + 2) (lay_baseOffsetSize lay) (lay_end lay) = Inr base"
    using assms unfolding parse_location_def Let_def i rbind_simps m prod.case by (auto simp: rbind_Inr_iff)
  let ?cur = "cur + 2 + lay_baseOffsetSize lay"
  obtain count where count: "u16be bytes ?cur = Inr count" "\<not> count > maxExtentsPerItem"
    using assms unfolding parse_location_def Let_def i rbind_simps m prod.case base by (auto simp: rbind_Inr_iff split: if_splits)
  obtain es where es: "parse_extents bytes lay base (nat count) (?cur + 2) = Inr (es, c)"
      "l = \<lparr>loc_id = i, loc_constructionMethod = m, loc_extents = es\<rparr>"
    using assms count(2) unfolding parse_location_def Let_def i rbind_simps m prod.case base count(1)
    by (auto simp: rbind_Inr_iff)
  have "0 \<le> base" "0 \<le> count" using readSized_Inr [OF base] u16be_Inr [OF count(1)] by auto
  with parse_extents_ok [OF es(1)] count(2) m15 show ?thesis
    by (auto simp: location_ok_def maxExtentsPerItem_def es(2))
qed

lemma parse_locations_ok:
  assumes "parse_locations bytes lay n cursor locs = Inr (result, c)"
    and "distinct (map fst locs)" and "list_all location_ok locs"
  shows "distinct (map fst result) \<and> list_all location_ok result \<and> length result = length locs + n"
  using assms
proof (induction n arbitrary: cursor locs)
  case (Suc n)
  obtain l cur where l: "parse_location bytes lay cursor = Inr (l, cur)" "loc_id l \<notin> fst ` set locs"
      "parse_locations bytes lay n cur (locs @ [(loc_id l, l)]) = Inr (result, c)"
    using Suc.prems(1) by (auto simp: rbind_Inr_iff split: if_splits)
  from Suc.IH [OF l(3)] parse_location_ok [OF l(1)] l(2) Suc.prems(2,3) show ?case by auto
qed simp

text \<open>An accepted \<open>iloc\<close> box gives at most 4096 items with distinct ids, each with at most 64 extents
  whose offsets and lengths are non-negative safe integers, so no later offset arithmetic on them is
  rounded.\<close>

theorem item_locations_bounded:
  assumes "parseItemLocations bytes box = Inr locs"
  shows "distinct (map fst locs) \<and> length locs \<le> 4096 \<and> list_all location_ok locs"
proof -
  obtain v b where body: "fullBoxBody bytes box 0 = Inr (v, b)"
    using assms by (auto simp: parseItemLocations_def rbind_Inr_iff)
  obtain sizes where sizes: "u16be bytes b = Inr sizes"
    using assms by (cases "u16be bytes b") (auto simp: parseItemLocations_def body split: if_splits)
  define lay where "lay = \<lparr>lay_version = v, lay_offsetSize = drop_bit 12 sizes,
               lay_lengthSize = drop_bit 8 sizes AND 15, lay_baseOffsetSize = drop_bit 4 sizes AND 15,
               lay_indexSize = (if v = 0 then 0 else sizes AND 15), lay_end = box_end box\<rparr>"
  define cs where "cs = (if v < 2 then 2 else 4 :: int)"
  let ?rest = "rbind (read_id bytes cs (b + 2)) (\<lambda>n. if n > maxItems then Inl Limit_exceeded
      else rbind (parse_locations bytes lay (nat n) (b + 2 + cs) []) (\<lambda>(locations, cursor).
        if cursor > box_end box then Inl Truncated else Inr locations))"
  have "(if v > 2 then Inl Structure_invalid
      else if \<not> list_all (\<lambda>s. s = 0 \<or> s = 4 \<or> s = 8)
        [lay_offsetSize lay, lay_lengthSize lay, lay_baseOffsetSize lay, lay_indexSize lay]
      then Inl Structure_invalid else ?rest) = Inr locs"
    using assms unfolding parseItemLocations_def body sizes rbind_simps prod.case Let_def lay_def [symmetric]
      cs_def [symmetric] .
  then have "?rest = Inr locs" using sum.distinct by (metis (no_types, lifting))
  then obtain n c where l: "parse_locations bytes lay (nat n) (b + 2 + cs) [] = Inr (locs, c)" "n \<le> maxItems"
    by (auto simp: rbind_Inr_iff split: if_splits)
  from parse_locations_ok [OF l(1)] l(2) show ?thesis by (auto simp: maxItems_def)
qed

definition sample_iloc :: "byte list" where
  "sample_iloc = [0, 0, 0, 30, 105, 108, 111, 99, 0, 0, 0, 0, 0x44, 0, 0, 1, 0, 7, 0, 0, 0, 1, 0, 0, 1, 0, 0, 0, 0, 5]"

lemma sample_iloc_parsed:
  "parseItemLocations sample_iloc \<lparr>box_type = js ''iloc'', box_start = 0, box_headerSize = 8, box_size = 30, box_end = 30, box_contentStart = 8\<rparr> =
     Inr [(7, \<lparr>loc_id = 7, loc_constructionMethod = 0, loc_extents = [\<lparr>ext_offset = 256, ext_length = 5\<rparr>]\<rparr>)]"
  by (simp add: parseItemLocations_def fullBoxBody_def sample_iloc_def u16be_value u32be_value bytes_at_def be_value_def
      byte_at_def read_id_def parse_location_def readSized_def maxItems_def maxExtentsPerItem_def is_safe_integer_def
      MAX_SAFE_INTEGER_def)

theorem item_locations_bounded_witness:
  "location_ok (7, \<lparr>loc_id = 7, loc_constructionMethod = 0, loc_extents = [\<lparr>ext_offset = 256, ext_length = 5\<rparr>]\<rparr>)"
  using item_locations_bounded [OF sample_iloc_parsed] by simp

section \<open>Payloads\<close>

definition extent_bytes :: "byte list \<Rightarrow> int \<Rightarrow> heif_extent \<Rightarrow> byte list" where
  "extent_bytes bytes origin e = take (nat (ext_length e)) (drop (nat (origin + ext_offset e)) bytes)"

lemma sum_extents: "foldl (\<lambda>sum e. sum + ext_length e) (a :: int) es = a + sum_list (map ext_length es)"
  by (induction es arbitrary: a) auto

context byte_source begin

lemma read_extents_file:
  assumes "read_extents rd metaBytes meta 0 es = Inr bs"
  shows "bs = concat (map (extent_bytes content 0) es) \<and> int (length bs) = sum_list (map ext_length es) \<and>
    list_all (\<lambda>e. 0 \<le> ext_offset e \<and> ext_offset e + ext_length e \<le> int (length content)) es"
  using assms
proof (induction es arbitrary: bs)
  case (Cons e es)
  obtain chunk rest where r: "rdr_read rd (ext_offset e) (ext_length e) = Inr chunk"
      "read_extents rd metaBytes meta 0 es = Inr rest" "bs = chunk @ rest"
    using Cons.prems by (auto simp: rbind_Inr_iff)
  have c: "chunk = extent_bytes content 0 e" using read_Inr(5) [OF r(1)] by (simp add: extent_bytes_def)
  have "rest = concat (map (extent_bytes content 0) es)" "int (length rest) = sum_list (map ext_length es)"
      "list_all (\<lambda>e. 0 \<le> ext_offset e \<and> ext_offset e + ext_length e \<le> int (length content)) es"
    using Cons.IH [OF r(2)] by auto
  then show ?case
    unfolding r(3) using c read_Inr(1-4) [OF r(1)] size_content by (simp add: algebra_simps)
qed simp

lemma read_extents_idat:
  assumes "read_extents rd metaBytes meta 1 es = Inr bs" and "list_all extent_ok es"
    and "hmt_itemData meta = Some (d0, d1)" and "0 \<le> d0" and "d1 \<le> int (length metaBytes)"
  shows "bs = concat (map (extent_bytes metaBytes d0) es) \<and> int (length bs) = sum_list (map ext_length es) \<and>
    list_all (\<lambda>e. d0 + ext_offset e + ext_length e \<le> d1) es"
  using assms(1,2)
proof (induction es arbitrary: bs)
  case (Cons e es)
  have e: "0 \<le> ext_offset e" "0 \<le> ext_length e" using Cons.prems(2) by (auto simp: extent_ok_def)
  obtain rest where r: "d0 + ext_offset e + ext_length e \<le> d1" "read_extents rd metaBytes meta 1 es = Inr rest"
      "bs = subarray metaBytes (d0 + ext_offset e) (d0 + ext_offset e + ext_length e) @ rest"
    using Cons.prems(1) assms(3) by (auto simp: rbind_Inr_iff Let_def split: if_splits)
  have s: "subarray metaBytes (d0 + ext_offset e) (d0 + ext_offset e + ext_length e) = extent_bytes metaBytes d0 e"
    using subarray_take_drop [of "d0 + ext_offset e" "ext_length e" metaBytes] e assms(4) by (simp add: extent_bytes_def)
  have "int (length (extent_bytes metaBytes d0 e)) = ext_length e"
    using e assms(4,5) r(1) by (simp add: extent_bytes_def)
  moreover have "rest = concat (map (extent_bytes metaBytes d0) es)" "int (length rest) = sum_list (map ext_length es)"
      "list_all (\<lambda>e. d0 + ext_offset e + ext_length e \<le> d1) es"
    using Cons.IH [OF r(2)] Cons.prems(2) by auto
  ultimately show ?case unfolding r(3) s using r(1) by simp
qed simp

lemma readHeifItem_payload:
  assumes "readHeifItem rd metaBytes meta itemId maxBytes = Inr bs" and "map_of (hmt_locations meta) itemId = Some l"
    and "loc_constructionMethod l = 0"
  shows "bs = concat (map (extent_bytes content 0) (loc_extents l)) \<and> int (length bs) = sum_list (map ext_length (loc_extents l)) \<and>
    int (length bs) \<le> maxBytes \<and>
    list_all (\<lambda>e. 0 \<le> ext_offset e \<and> ext_offset e + ext_length e \<le> int (length content)) (loc_extents l)"
proof -
  obtain chunks where c: "read_extents rd metaBytes meta 0 (loc_extents l) = Inr chunks"
      "bs = chunks @ replicate (nat (sum_list (map ext_length (loc_extents l))) - length chunks) 0"
      "sum_list (map ext_length (loc_extents l)) \<le> maxBytes"
    using assms by (auto simp: readHeifItem_def Let_def sum_extents rbind_Inr_iff split: if_splits)
  from read_extents_file [OF c(1)] c(2,3) show ?thesis by auto
qed

end

text \<open>An item read by file offsets is exactly the concatenation of its declared extents of the file,
  every one of them inside the file, as long as they declare together and never longer than the
  caller's bound.\<close>

theorem heif_item_payload:
  assumes "readHeifItem (bufferByteReader content) metaBytes meta itemId maxBytes = Inr bs"
    and "map_of (hmt_locations meta) itemId = Some l" and "loc_constructionMethod l = 0"
  shows "bs = concat (map (extent_bytes content 0) (loc_extents l)) \<and>
    int (length bs) = sum_list (map ext_length (loc_extents l)) \<and> int (length bs) \<le> maxBytes \<and>
    list_all (\<lambda>e. 0 \<le> ext_offset e \<and> ext_offset e + ext_length e \<le> int (length content)) (loc_extents l)"
  by (rule buffer.readHeifItem_payload [OF assms])

theorem heif_item_payload_witness:
  "readHeifItem (bufferByteReader [1, 2, 3, 4]) [] \<lparr>hmt_primaryItemId = None, hmt_items = [],
     hmt_locations = [(7, \<lparr>loc_id = 7, loc_constructionMethod = 0, loc_extents = [\<lparr>ext_offset = 2, ext_length = 2\<rparr>, \<lparr>ext_offset = 0, ext_length = 1\<rparr>]\<rparr>)],
     hmt_references = [], hmt_itemData = None\<rparr> 7 10 = Inr [3, 4, 1] \<and>
   [3, 4, 1] = concat (map (extent_bytes [1, 2, 3, 4] 0) [\<lparr>ext_offset = 2, ext_length = 2\<rparr>, \<lparr>ext_offset = 0, ext_length = 1\<rparr>])"
proof -
  let ?meta = "\<lparr>hmt_primaryItemId = None, hmt_items = [],
     hmt_locations = [(7, \<lparr>loc_id = 7, loc_constructionMethod = 0, loc_extents = [\<lparr>ext_offset = 2, ext_length = 2\<rparr>, \<lparr>ext_offset = 0, ext_length = 1\<rparr>]\<rparr>)],
     hmt_references = [], hmt_itemData = None\<rparr>"
  have r: "readHeifItem (bufferByteReader [1, 2, 3, 4]) [] ?meta 7 10 = Inr [3, 4, 1]"
    by (simp add: readHeifItem_def bufferByteReader_def assertRange_def is_safe_integer_def MAX_SAFE_INTEGER_def subarray_def)
  show ?thesis using r heif_item_payload [OF r] by simp
qed

section \<open>Rotation of matrices\<close>

text \<open>The two-by-two parts of two matrices, multiplied.\<close>

definition compose :: "int \<times> int \<times> int \<times> int \<Rightarrow> int \<times> int \<times> int \<times> int \<Rightarrow> int \<times> int \<times> int \<times> int" where
  "compose m n = (case (m, n) of ((a, b, c, d), (a', b', c', d')) \<Rightarrow>
     (a * a' + b * c', a * b' + b * d', c * a' + d * c', c * b' + d * d'))"

definition rotation :: "int \<times> int \<times> int \<times> int \<Rightarrow> int option" where
  "rotation m = (case m of (a, b, c, d) \<Rightarrow> rotation_of a b c d)"

lemma rotation_cases:
  "rotation (a, b, c, d) = Some r \<longleftrightarrow> (\<exists>k > 0. (r = 0 \<and> (a, b, c, d) = (k, 0, 0, k)) \<or> (r = 90 \<and> (a, b, c, d) = (0, k, - k, 0)) \<or>
     (r = 180 \<and> (a, b, c, d) = (- k, 0, 0, - k)) \<or> (r = 270 \<and> (a, b, c, d) = (0, - k, k, 0)))"
  (is "_ \<longleftrightarrow> ?R")
proof
  assume "rotation (a, b, c, d) = Some r"
  then show ?R
    by (auto simp: rotation_def rotation_of_def split: if_splits intro: exI [of _ a] exI [of _ b] exI [of _ "- a"] exI [of _ "- b"])
next
  assume ?R
  then show "rotation (a, b, c, d) = Some r" by (auto simp: rotation_def rotation_of_def)
qed

lemma rotation_product:
  assumes "rotation m = Some r" and "rotation n = Some q"
  shows "r \<in> {0, 90, 180, 270} \<and> rotation (compose m n) = Some ((r + q) mod 360)"
proof -
  obtain a b c d a' b' c' d' where mn: "m = (a, b, c, d)" "n = (a', b', c', d')" by (cases m; cases n) auto
  obtain k where k: "k > 0" "(r = 0 \<and> m = (k, 0, 0, k)) \<or> (r = 90 \<and> m = (0, k, - k, 0)) \<or>
     (r = 180 \<and> m = (- k, 0, 0, - k)) \<or> (r = 270 \<and> m = (0, - k, k, 0))"
    using assms(1) unfolding mn rotation_cases by blast
  obtain l where l: "l > 0" "(q = 0 \<and> n = (l, 0, 0, l)) \<or> (q = 90 \<and> n = (0, l, - l, 0)) \<or>
     (q = 180 \<and> n = (- l, 0, 0, - l)) \<or> (q = 270 \<and> n = (0, - l, l, 0))"
    using assms(2) unfolding mn rotation_cases by blast
  have p: "0 < k * l" using k l by simp
  have c: "rotation (x, 0, 0, x) = Some (if x > 0 then 0 else 180)" "rotation (0, y, - y, 0) = Some (if y > 0 then 90 else 270)"
    if "x \<noteq> 0" "y \<noteq> 0" for x y :: int
    using that by (simp_all add: rotation_def rotation_of_def)
  have m: "compose (x, 0, 0, x) (y, 0, 0, y) = (x * y, 0, 0, x * y)"
      "compose (x, 0, 0, x) (0, y, - y, 0) = (0, x * y, - (x * y), 0)"
      "compose (0, x, - x, 0) (y, 0, 0, y) = (0, x * y, - (x * y), 0)"
      "compose (0, x, - x, 0) (0, y, - y, 0) = (- (x * y), 0, 0, - (x * y))" for x y :: int
    by (simp_all add: compose_def)
  define x where "x = (if r = 0 \<or> r = 90 then k else - k)"
  define y where "y = (if q = 0 \<or> q = 90 then l else - l)"
  have xy: "x * y > 0 \<longleftrightarrow> ((r = 0 \<or> r = 90) \<longleftrightarrow> (q = 0 \<or> q = 90))" "x * y \<noteq> 0"
    using k(1) l(1) by (auto simp: x_def y_def zero_less_mult_iff mult_less_0_iff)
  have rq: "r = 0 \<or> r = 90 \<or> r = 180 \<or> r = 270" "q = 0 \<or> q = 90 \<or> q = 180 \<or> q = 270" using k(2) l(2) by auto
  have mr: "m = (if r = 0 \<or> r = 180 then (x, 0, 0, x) else (0, x, - x, 0))"
      "n = (if q = 0 \<or> q = 180 then (y, 0, 0, y) else (0, y, - y, 0))"
    using k(2) l(2) by (auto simp: x_def y_def)
  have "rotation (compose m n) = Some ((r + q) mod 360)"
    using rq xy c [of "x * y" "x * y"] c [of "- (x * y)" "x * y"] unfolding mr
    by (elim disjE) (simp_all add: m)
  with rq show ?thesis by auto
qed

definition matrix_at :: "byte list \<Rightarrow> int \<Rightarrow> (int \<times> int \<times> int \<times> int) parsed" where
  "matrix_at bytes off = rbind (i32be bytes off) (\<lambda>a. rbind (i32be bytes (off + 4)) (\<lambda>b.
     rbind (i32be bytes (off + 12)) (\<lambda>c. rbind (i32be bytes (off + 16)) (\<lambda>d. Inr (a, b, c, d)))))"

lemma matrixRotation_at: "matrixRotation bytes off = rbind (matrix_at bytes off) (\<lambda>m. Inr (rotation m))"
  by (simp add: matrixRotation_def matrix_at_def rotation_def rbind_def split: sum.splits)

text \<open>\<open>matrixRotation\<close> accepts exactly the positive multiples of the four right-angle rotations, and
  adding two of its results modulo 360, as \<open>readVideoTrackRotation\<close> does with the track's and the
  movie's, gives the rotation of the product of the two matrices.\<close>

theorem rotation_composes:
  assumes "matrixRotation bytes off = Inr (Some r)" and "matrixRotation bytes' off' = Inr (Some q)"
  shows "\<exists>m n k. matrix_at bytes off = Inr m \<and> matrix_at bytes' off' = Inr n \<and> 0 < k \<and>
    (r, m) \<in> {(0, k, 0, 0, k), (90, 0, k, - k, 0), (180, - k, 0, 0, - k), (270, 0, - k, k, 0)} \<and>
    rotation (compose m n) = Some ((r + q) mod 360)"
proof -
  obtain m n where m: "matrix_at bytes off = Inr m" "rotation m = Some r"
      "matrix_at bytes' off' = Inr n" "rotation n = Some q"
    using assms by (auto simp: matrixRotation_at rbind_Inr_iff)
  obtain k where "k > 0" "(r, m) \<in> {(0, k, 0, 0, k), (90, 0, k, - k, 0), (180, - k, 0, 0, - k), (270, 0, - k, k, 0)}"
    using m(2) rotation_cases by (cases m) auto
  with m rotation_product [OF m(2,4)] show ?thesis by blast
qed

definition sample_matrix :: "byte list" where
  "sample_matrix = [0, 0, 0, 0, 0, 1, 0, 0, 0, 0, 0, 0, 255, 255, 0, 0, 0, 0, 0, 0]"

lemma sample_rotation: "matrixRotation sample_matrix 0 = Inr (Some 90)"
  by (simp add: matrixRotation_def i32be_value bytes_at_def be_value_def sample_matrix_def rotation_of_def)

theorem rotation_composes_witness:
  "\<exists>m. matrix_at sample_matrix 0 = Inr m \<and> rotation (compose m m) = Some 180"
  using rotation_composes [OF sample_rotation sample_rotation] by auto

end
