(* ===== verification/TiffExif.thy ===== *)
theory TiffExif
  imports MediaBytes
begin

text \<open>
  TIFF structures and the Exif summary
  (\<open>services/backend-production/src/publishing/processing/tiff-exif.ts\<close>). A \<open>TiffReader\<close> is the
  record \<open>tiff_reader\<close>: its bytes, byte order and the IFD offsets it has visited; \<open>readIfd\<close> returns the
  reader it leaves. The \<open>Map\<close> of entries is an association list by tag, in insertion order. The
  callers never use a reader after a throw, so a throw drops it.
\<close>

definition maxEntriesPerIfd :: int where "maxEntriesPerIfd = 1024"
definition maxIfds :: nat where "maxIfds = 16"
definition maxAsciiBytes :: int where "maxAsciiBytes = 1024"

definition TYPE_SIZES :: "int \<Rightarrow> int option" where
  "TYPE_SIZES ty = map_of [(1, 1), (2, 1), (3, 2), (4, 4), (5, 8), (6, 1), (7, 1), (8, 2), (9, 4), (10, 8),
     (11, 4), (12, 8), (13, 4)] ty"

record tiff_entry =
  ent_tag :: int
  ent_type :: int
  ent_count :: int
  ent_valueOffset :: int
  ent_byteLength :: int

record tiff_reader =
  tif_bytes :: "byte list"
  tif_littleEndian :: bool
  tif_visited :: "int list"

definition tiff_u16 :: "tiff_reader \<Rightarrow> int \<Rightarrow> int parsed" where
  "tiff_u16 r off =
     (if off < 0 \<or> off + 2 > int (length (tif_bytes r)) then Inl Truncated
      else let a = byte_at (tif_bytes r) off; b = byte_at (tif_bytes r) (off + 1) in
        Inr (if tif_littleEndian r then js_or a (js_shl b 8) else js_or (js_shl a 8) b))"

definition tiff_u32 :: "tiff_reader \<Rightarrow> int \<Rightarrow> int parsed" where
  "tiff_u32 r off =
     (if off < 0 \<or> off + 4 > int (length (tif_bytes r)) then Inl Truncated
      else let a = byte_at (tif_bytes r) off; b = byte_at (tif_bytes r) (off + 1);
               c = byte_at (tif_bytes r) (off + 2); d = byte_at (tif_bytes r) (off + 3) in
        Inr (if tif_littleEndian r then a + js_shl b 8 + js_shl c 16 + js_ushr0 (js_shl d 24)
             else js_ushr0 (js_shl a 24) + js_shl b 16 + js_shl c 8 + d))"

text \<open>\<open>TiffReader.fromHeader\<close>: the reader and the offset of the first IFD.\<close>

definition fromHeader :: "byte list \<Rightarrow> (tiff_reader \<times> int) parsed" where
  "fromHeader bytes =
     rbind (if asciiEquals bytes 0 (js ''II'') then Inr True
            else if asciiEquals bytes 0 (js ''MM'') then Inr False else Inl Structure_invalid) (\<lambda>littleEndian.
       let reader = \<lparr>tif_bytes = bytes, tif_littleEndian = littleEndian, tif_visited = []\<rparr> in
       rbind (tiff_u16 reader 2) (\<lambda>magic.
         if magic \<noteq> 42 then Inl Structure_invalid
         else rbind (tiff_u32 reader 4) (\<lambda>ifd0. Inr (reader, ifd0))))"

type_synonym tiff_entries = "(int \<times> tiff_entry) list"

text \<open>The loop of \<open>readIfd\<close> over \<open>n\<close> more entries from \<open>entryOffset\<close>.\<close>

fun read_entries :: "tiff_reader \<Rightarrow> nat \<Rightarrow> int \<Rightarrow> tiff_entries \<Rightarrow> tiff_entries parsed" where
  "read_entries r 0 entryOffset entries = Inr entries"
| "read_entries r (Suc n) entryOffset entries =
     rbind (tiff_u16 r entryOffset) (\<lambda>tag.
       rbind (tiff_u16 r (entryOffset + 2)) (\<lambda>ty.
         rbind (tiff_u32 r (entryOffset + 4)) (\<lambda>count32.
           case TYPE_SIZES ty of
             None \<Rightarrow> read_entries r n (entryOffset + 12) entries
           | Some unit_size \<Rightarrow>
               if tag \<in> fst ` set entries then read_entries r n (entryOffset + 12) entries
               else let byteLength = unit_size * count32 in
                 rbind (if byteLength \<le> 4 then Inr (entryOffset + 8) else tiff_u32 r (entryOffset + 8)) (\<lambda>valueOffset.
                   read_entries r n (entryOffset + 12) (entries @ [(tag,
                     \<lparr>ent_tag = tag, ent_type = ty, ent_count = count32, ent_valueOffset = valueOffset,
                      ent_byteLength = byteLength\<rparr>)])))))"

definition readIfd :: "tiff_reader \<Rightarrow> int \<Rightarrow> (tiff_entries \<times> tiff_reader) parsed" where
  "readIfd r off =
     (if \<not> is_safe_integer off \<or> off < 8 \<or> off + 2 > int (length (tif_bytes r)) then Inl Offset_invalid
      else if off \<in> set (tif_visited r) then Inl Offset_invalid
      else if length (tif_visited r) \<ge> maxIfds then Inl Limit_exceeded
      else let r = r\<lparr>tif_visited := tif_visited r @ [off]\<rparr> in
        rbind (tiff_u16 r off) (\<lambda>count.
          if count > maxEntriesPerIfd then Inl Limit_exceeded
          else if off + 2 + count * 12 > int (length (tif_bytes r)) then Inl Truncated
          else rbind (read_entries r (nat count) (off + 2) []) (\<lambda>entries. Inr (entries, r))))"

definition valueRange :: "tiff_reader \<Rightarrow> tiff_entry \<Rightarrow> (int \<times> int) parsed" where
  "valueRange r entry =
     (let stop = ent_valueOffset entry + ent_byteLength entry in
      if \<not> is_safe_integer stop \<or> ent_valueOffset entry < 0 \<or> stop > int (length (tif_bytes r))
      then Inl Offset_invalid else Inr (ent_valueOffset entry, stop))"

definition tiff_ascii :: "tiff_reader \<Rightarrow> tiff_entry \<Rightarrow> jstr parsed" where
  "tiff_ascii r entry =
     (if ent_type entry \<noteq> 2 \<or> ent_count entry > maxAsciiBytes then Inl Structure_invalid
      else rbind (valueRange r entry) (\<lambda>(start, stop).
        Inr (map unat (takeWhile (\<lambda>code. code \<noteq> 0) (subarray (tif_bytes r) start stop)))))"

definition tiff_unsigned :: "tiff_reader \<Rightarrow> tiff_entry \<Rightarrow> int parsed" where
  "tiff_unsigned r entry =
     (if ent_count entry < 1 then Inl Structure_invalid
      else if ent_type entry = 3 then rbind (valueRange r entry) (\<lambda>(start, _). tiff_u16 r start)
      else if ent_type entry = 4 \<or> ent_type entry = 13 then rbind (valueRange r entry) (\<lambda>(start, _). tiff_u32 r start)
      else Inl Structure_invalid)"

definition TAG_orientation :: int where "TAG_orientation = 0x0112"
definition TAG_exifIfd :: int where "TAG_exifIfd = 0x8769"
definition TAG_makerNote :: int where "TAG_makerNote = 0x927c"

record exif_summary =
  exf_orientation :: "int option"
  exf_makerNote :: "(int \<times> int) option"

definition readExifSummary :: "byte list \<Rightarrow> exif_summary parsed" where
  "readExifSummary tiff =
     rbind (fromHeader tiff) (\<lambda>(reader, ifd0).
       rbind (readIfd reader ifd0) (\<lambda>(entries, reader).
         rbind (case map_of entries TAG_orientation of
             None \<Rightarrow> Inr None
           | Some e \<Rightarrow> if ent_type e = 3 then rbind (tiff_unsigned reader e) (\<lambda>v. Inr (if v \<ge> 1 \<and> v \<le> 8 then Some v else None))
                       else Inr None) (\<lambda>orientation.
           rbind (case map_of entries TAG_exifIfd of
               None \<Rightarrow> Inr None
             | Some pointer \<Rightarrow> rbind (tiff_unsigned reader pointer) (\<lambda>off. rbind (readIfd reader off) (\<lambda>(exif, reader).
                 case map_of exif TAG_makerNote of
                   None \<Rightarrow> Inr None
                 | Some note \<Rightarrow>
                     if ent_type note = 7 \<or> ent_type note = 1 then rbind (valueRange reader note) (\<lambda>range. Inr (Some range))
                     else Inr None))) (\<lambda>makerNote.
             Inr \<lparr>exf_orientation = orientation, exf_makerNote = makerNote\<rparr>))))"

section \<open>Integers in either byte order\<close>

definition order_bytes :: "tiff_reader \<Rightarrow> byte list \<Rightarrow> byte list" where
  "order_bytes r bs = (if tif_littleEndian r then rev bs else bs)"

lemma js_or_commute: "js_or a b = js_or b a"
  by (simp add: js_or_def or.commute)

lemma tiff_u16_value:
  "tiff_u16 r off = (if off < 0 \<or> off + 2 > int (length (tif_bytes r)) then Inl Truncated
     else Inr (be_value (order_bytes r (bytes_at (tif_bytes r) off 2))))"
proof (cases "off < 0 \<or> off + 2 > int (length (tif_bytes r))")
  case False
  then have b: "0 \<le> byte_at (tif_bytes r) (off + i)" "byte_at (tif_bytes r) (off + i) < 256"
      "byte_at (tif_bytes r) (off + i) = uint (tif_bytes r ! (nat off + nat i))" if "0 \<le> i" "i < 2" for i
    using that byte_at_bounds [of "off + i" "tif_bytes r"] by (auto simp: nat_add_distrib)
  show ?thesis
    using False b [of 0] b [of 1] bytes_at_eq [of off 2 "tif_bytes r"]
      js_or_shl8 [of "byte_at (tif_bytes r) off" "byte_at (tif_bytes r) (off + 1)"]
      js_or_shl8 [of "byte_at (tif_bytes r) (off + 1)" "byte_at (tif_bytes r) off"]
      js_or_commute [of "byte_at (tif_bytes r) off"]
    by (simp add: tiff_u16_def order_bytes_def be_value_def numeral_2_eq_2)
qed (simp add: tiff_u16_def)

lemma tiff_u32_value:
  "tiff_u32 r off = (if off < 0 \<or> off + 4 > int (length (tif_bytes r)) then Inl Truncated
     else Inr (be_value (order_bytes r (bytes_at (tif_bytes r) off 4))))"
proof (cases "off < 0 \<or> off + 4 > int (length (tif_bytes r))")
  case False
  let ?b = "\<lambda>i. byte_at (tif_bytes r) (off + i)"
  have b: "0 \<le> ?b i" "?b i < 256" "?b i = uint (tif_bytes r ! (nat off + nat i))" if "0 \<le> i" "i < 4" for i
    using False that byte_at_bounds [of "off + i" "tif_bytes r"] by (auto simp: nat_add_distrib)
  have s: "js_ushr0 (js_shl (?b i) 24) = ?b i * 2 ^ 24" "js_shl (?b i) 16 = ?b i * 2 ^ 16" "js_shl (?b i) 8 = ?b i * 2 ^ 8"
    if "0 \<le> i" "i < 4" for i
    using js_ushr0_shl24 [OF b(1,2) [OF that]] js_shl_byte [OF b(1,2) [OF that]] by simp_all
  show ?thesis
    using False s [of 0] s [of 1] s [of 2] s [of 3] b(3) [of 0] b(3) [of 1] b(3) [of 2] b(3) [of 3]
      bytes_at_eq [of off 4 "tif_bytes r"]
    by (simp add: tiff_u32_def order_bytes_def be_value_def upt_rec numeral_3_eq_3)
qed (simp add: tiff_u32_def)

lemma length_order_bytes [simp]: "length (order_bytes r bs) = length bs"
  by (simp add: order_bytes_def)

lemma tiff_u16_Inr [parse_dests]:
  "tiff_u16 r off = Inr v \<Longrightarrow> 0 \<le> off \<and> off + 2 \<le> int (length (tif_bytes r)) \<and> 0 \<le> v \<and> v < 65536"
  using be_value_bounds [of "order_bytes r (bytes_at (tif_bytes r) off 2)"] length_bytes_at [of off 2 "tif_bytes r"]
  by (auto simp: tiff_u16_value split: if_splits)

lemma tiff_u32_Inr [parse_dests]:
  "tiff_u32 r off = Inr v \<Longrightarrow> 0 \<le> off \<and> off + 4 \<le> int (length (tif_bytes r)) \<and> 0 \<le> v \<and> v < 2 ^ 32"
  using be_value_bounds [of "order_bytes r (bytes_at (tif_bytes r) off 4)"] length_bytes_at [of off 4 "tif_bytes r"]
  by (auto simp: tiff_u32_value split: if_splits)

section \<open>Directories\<close>

text \<open>What holds of an entry read from a directory whose table lies in \<open>[start, stop)\<close>: its unit size is
  the one of its type, a value of at most four bytes is in the table.\<close>

definition entry_ok :: "int \<Rightarrow> int \<Rightarrow> int \<times> tiff_entry \<Rightarrow> bool" where
  "entry_ok start stop te \<longleftrightarrow> (case te of (tag, e) \<Rightarrow>
     ent_tag e = tag \<and> 0 \<le> tag \<and> tag < 65536 \<and> 0 \<le> ent_count e \<and> ent_count e < 2 ^ 32 \<and>
     (\<exists>unit_size \<in> {1, 2, 4, 8}. TYPE_SIZES (ent_type e) = Some unit_size \<and> ent_byteLength e = unit_size * ent_count e) \<and>
     0 \<le> ent_valueOffset e \<and> ent_valueOffset e < 2 ^ 32 + stop \<and>
     (ent_byteLength e \<le> 4 \<longrightarrow> start \<le> ent_valueOffset e \<and> ent_valueOffset e + 4 \<le> stop))"

lemma TYPE_SIZES_Some: "TYPE_SIZES ty = Some u \<Longrightarrow> u \<in> {1, 2, 4, 8}"
  by (auto simp: TYPE_SIZES_def split: if_splits)

lemma read_entries_ok:
  assumes "read_entries r n pos es = Inr result"
    and "distinct (map fst es)" and "list_all (entry_ok start (pos + 12 * int n)) es" and "start \<le> pos" and "0 \<le> pos"
  shows "distinct (map fst result) \<and> length result \<le> length es + n \<and> list_all (entry_ok start (pos + 12 * int n)) result"
  using assms
proof (induction n arbitrary: pos es)
  case (Suc n)
  obtain tag ty c where h: "tiff_u16 r pos = Inr tag" "tiff_u16 r (pos + 2) = Inr ty" "tiff_u32 r (pos + 4) = Inr c"
    using Suc.prems(1) by (auto simp: rbind_Inr_iff)
  have stop: "pos + 12 * int (Suc n) = (pos + 12) + 12 * int n" by simp
  have skip: ?case if "read_entries r n (pos + 12) es = Inr result"
    using Suc.IH [OF that Suc.prems(2)] Suc.prems(3-5) unfolding stop by simp
  show ?case
  proof (cases "TYPE_SIZES ty")
    case None
    with Suc.prems(1) h skip show ?thesis by simp
  next
    case (Some u)
    show ?thesis
    proof (cases "tag \<in> fst ` set es")
      case True
      with Suc.prems(1) h Some skip show ?thesis by simp
    next
      case False
      obtain v where v: "(if u * c \<le> 4 then Inr (pos + 8) else tiff_u32 r (pos + 8)) = Inr v"
          "read_entries r n (pos + 12) (es @ [(tag, \<lparr>ent_tag = tag, ent_type = ty, ent_count = c,
             ent_valueOffset = v, ent_byteLength = u * c\<rparr>)]) = Inr result"
        using Suc.prems(1) h Some False by (auto simp: rbind_Inr_iff Let_def simp del: if_split)
      have "0 \<le> v" "v < 2 ^ 32 + (pos + 12 + 12 * int n)" "u * c \<le> 4 \<longrightarrow> v = pos + 8"
        using v(1) Suc.prems(5) by (auto split: if_splits dest!: parse_dests)
      then have e: "entry_ok start (pos + 12 + 12 * int n) (tag, \<lparr>ent_tag = tag, ent_type = ty, ent_count = c,
             ent_valueOffset = v, ent_byteLength = u * c\<rparr>)"
        using Some TYPE_SIZES_Some [OF Some] tiff_u16_Inr [OF h(1)] tiff_u32_Inr [OF h(3)] Suc.prems(4)
        by (auto simp: entry_ok_def)
      from Suc.IH [OF v(2)] e False Suc.prems(2-5) show ?thesis unfolding stop by simp
    qed
  qed
qed simp

lemma readIfd_Inr [parse_dests]:
  assumes "readIfd r off = Inr (es, r')"
  shows "off \<notin> set (tif_visited r) \<and> length (tif_visited r) < maxIfds \<and> r' = r\<lparr>tif_visited := tif_visited r @ [off]\<rparr> \<and>
    (\<exists>n \<le> 1024. off + 2 + 12 * int n \<le> int (length (tif_bytes r)) \<and> distinct (map fst es) \<and> length es \<le> n \<and>
       list_all (entry_ok (off + 2) (off + 2 + 12 * int n)) es)"
proof -
  let ?r = "r\<lparr>tif_visited := tif_visited r @ [off]\<rparr>"
  have g: "\<not> (\<not> is_safe_integer off \<or> off < 8 \<or> off + 2 > int (length (tif_bytes r)))" "off \<notin> set (tif_visited r)"
      "\<not> length (tif_visited r) \<ge> maxIfds"
    using assms by (auto simp: readIfd_def split: if_splits)
  then obtain count where c: "tiff_u16 ?r off = Inr count" "\<not> count > maxEntriesPerIfd"
      "\<not> off + 2 + count * 12 > int (length (tif_bytes r))" "read_entries ?r (nat count) (off + 2) [] = Inr es" "r' = ?r"
    using assms by (auto simp: readIfd_def Let_def rbind_Inr_iff split: if_splits)
  have "0 \<le> count" using tiff_u16_Inr [OF c(1)] by simp
  moreover from this have "nat count \<le> 1024" using c(2) by (simp add: maxEntriesPerIfd_def nat_le_iff)
  moreover note read_entries_ok [OF c(4), of "off + 2"]
  ultimately show ?thesis using g c(3,5) by (auto intro!: exI [of _ "nat count"])
qed

text \<open>A directory that is read has at most 1024 entries, one per tag, from a table inside the bytes;
  every entry has a known type, the byte length of its type and count, and a value of at most four
  bytes lies in the table itself. The read marks the offset as visited and changes nothing else of the
  reader; an offset already visited and a seventeenth directory are refused.\<close>

theorem ifd_entries:
  assumes "readIfd r off = Inr (es, r')"
  shows "off \<notin> set (tif_visited r) \<and> length (tif_visited r) < 16 \<and> r' = r\<lparr>tif_visited := tif_visited r @ [off]\<rparr> \<and>
    (\<exists>n \<le> 1024. off + 2 + 12 * int n \<le> int (length (tif_bytes r)) \<and> distinct (map fst es) \<and> length es \<le> n \<and>
       list_all (entry_ok (off + 2) (off + 2 + 12 * int n)) es)"
  using readIfd_Inr [OF assms] by (simp add: maxIfds_def)

text \<open>Directories read one after another by one reader.\<close>

fun read_chain :: "tiff_reader \<Rightarrow> int list \<Rightarrow> tiff_reader parsed" where
  "read_chain r [] = Inr r"
| "read_chain r (off # offs) = rbind (readIfd r off) (\<lambda>(_, r). read_chain r offs)"

lemma read_chain_Inr:
  assumes "read_chain r offs = Inr r'" and "distinct (tif_visited r)" and "length (tif_visited r) \<le> maxIfds"
  shows "tif_visited r' = tif_visited r @ offs \<and> distinct (tif_visited r') \<and> length (tif_visited r') \<le> maxIfds"
  using assms
proof (induction offs arbitrary: r)
  case (Cons off offs)
  obtain es r1 where r1: "readIfd r off = Inr (es, r1)" "read_chain r1 offs = Inr r'"
    using Cons.prems(1) by (auto simp: rbind_Inr_iff)
  from Cons.IH [OF r1(2)] readIfd_Inr [OF r1(1)] Cons.prems(2,3) show ?case by auto
qed simp

text \<open>C17: pointer chains end. Whatever directories one reader of untrusted bytes is sent through, the
  reads that succeed are of pairwise different offsets and there are at most sixteen: a cycle of
  directory pointers is refused at its second visit.\<close>

theorem ifd_chains_end:
  assumes "fromHeader bytes = Inr (r, ifd0)" and "read_chain r offs = Inr r'"
  shows "distinct offs \<and> length offs \<le> 16"
proof -
  have "tif_visited r = []" using assms(1) by (auto simp: fromHeader_def Let_def rbind_Inr_iff split: if_splits)
  with read_chain_Inr [OF assms(2)] show ?thesis by (auto simp: maxIfds_def)
qed

section \<open>The Exif summary\<close>

lemma valueRange_Inr [parse_dests]:
  "valueRange r e = Inr (a, b) \<Longrightarrow> 0 \<le> a \<and> b = a + ent_byteLength e \<and> b \<le> int (length (tif_bytes r))"
  by (auto simp: valueRange_def Let_def split: if_splits)

text \<open>The Exif summary of untrusted bytes names an orientation from 1 to 8 or none, and a MakerNote
  range or none that lies inside the bytes, of at least zero and less than 2^32 bytes.\<close>

theorem exif_summary_bounds:
  assumes "readExifSummary tiff = Inr s"
  shows "(\<forall>v. exf_orientation s = Some v \<longrightarrow> 1 \<le> v \<and> v \<le> 8) \<and>
    (\<forall>a b. exf_makerNote s = Some (a, b) \<longrightarrow> 0 \<le> a \<and> a \<le> b \<and> b \<le> int (length tiff) \<and> b - a < 2 ^ 32)"
proof -
  obtain r0 ifd0 es r where h: "fromHeader tiff = Inr (r0, ifd0)" "readIfd r0 ifd0 = Inr (es, r)"
    using assms by (auto simp: readExifSummary_def rbind_Inr_iff)
  have "tif_bytes r0 = tiff" using h(1) by (auto simp: fromHeader_def Let_def rbind_Inr_iff split: if_splits)
  then have b: "tif_bytes r = tiff" using readIfd_Inr [OF h(2)] by auto
  have note_ok: "0 \<le> x \<and> x \<le> y \<and> y \<le> int (length tiff) \<and> y - x < 2 ^ 32"
    if "readIfd r off = Inr (exif, r')" "map_of exif TAG_makerNote = Some e" "ent_type e = 7 \<or> ent_type e = 1"
       "valueRange r' e = Inr (x, y)" for off exif r' e x y
  proof -
    note read_exif = that(1)
    have t: "tif_bytes r' = tif_bytes r" using readIfd_Inr [OF that(1)] by auto
    obtain n where n: "list_all (entry_ok (off + 2) (off + 2 + 12 * int n)) exif"
      using readIfd_Inr [OF read_exif] by auto
    have "entry_ok (off + 2) (off + 2 + 12 * int n) (TAG_makerNote, e)"
      using n map_of_SomeD [OF that(2)] unfolding list_all_iff by blast
    moreover have "TYPE_SIZES 7 = Some 1" "TYPE_SIZES 1 = Some 1" by (simp_all add: TYPE_SIZES_def)
    ultimately show ?thesis
      using that(3) valueRange_Inr [OF that(4)] t b by (auto simp: entry_ok_def)
  qed
  show ?thesis
    using assms h note_ok
    by (auto simp: readExifSummary_def rbind_Inr_iff split: option.splits if_splits)
qed

section \<open>Reading what is written\<close>

definition order_int :: "bool \<Rightarrow> nat \<Rightarrow> int \<Rightarrow> byte list" where
  "order_int le n v = (if le then rev (be_bytes n v) else be_bytes n v)"

lemma length_order_int [simp]: "length (order_int le n v) = n"
  by (simp add: order_int_def)

lemma bytes_at_split3: "length xs = n \<Longrightarrow> bytes_at (pre @ xs @ post) (int (length pre)) n = xs"
  by (simp add: bytes_at_def)

lemma order_bytes_int: "be_value (order_bytes r (order_int (tif_littleEndian r) n v)) = v mod 256 ^ n"
  by (simp add: order_bytes_def order_int_def be_value_be_bytes)

lemma tiff_u16_written:
  assumes "tif_bytes r = pre @ order_int (tif_littleEndian r) 2 v @ post" and "off = int (length pre)"
    and "0 \<le> v" and "v < 65536"
  shows "tiff_u16 r off = Inr v"
  using assms order_bytes_int [of r 2 v] bytes_at_split3 [of "order_int (tif_littleEndian r) 2 v" 2 pre post]
  by (simp add: tiff_u16_value)

lemma tiff_u32_written:
  assumes "tif_bytes r = pre @ order_int (tif_littleEndian r) 4 v @ post" and "off = int (length pre)"
    and "0 \<le> v" and "v < 2 ^ 32"
  shows "tiff_u32 r off = Inr v"
  using assms order_bytes_int [of r 4 v] bytes_at_split3 [of "order_int (tif_littleEndian r) 4 v" 4 pre post]
  by (simp add: tiff_u32_value)

text \<open>A directory entry as a writer has it: tag, type, count and the value field.\<close>

type_synonym raw_entry = "int \<times> int \<times> int \<times> int"

fun raw_ok :: "raw_entry \<Rightarrow> bool" where
  "raw_ok (tag, ty, c, v) \<longleftrightarrow> 0 \<le> tag \<and> tag < 65536 \<and> 1 \<le> ty \<and> ty \<le> 13 \<and> 0 \<le> c \<and> c < 2 ^ 32 \<and> 0 \<le> v \<and> v < 2 ^ 32"

fun encode_entry :: "bool \<Rightarrow> raw_entry \<Rightarrow> byte list" where
  "encode_entry le (tag, ty, c, v) = order_int le 2 tag @ order_int le 2 ty @ order_int le 4 c @ order_int le 4 v"

fun encode_entries :: "bool \<Rightarrow> raw_entry list \<Rightarrow> byte list" where
  "encode_entries le [] = []"
| "encode_entries le (e # es) = encode_entry le e @ encode_entries le es"

definition encode_ifd :: "bool \<Rightarrow> raw_entry list \<Rightarrow> byte list" where
  "encode_ifd le es = order_int le 2 (int (length es)) @ encode_entries le es"

text \<open>The entry a reader has of it when it stands at \<open>pos\<close>.\<close>

fun entry_at :: "int \<Rightarrow> raw_entry \<Rightarrow> int \<times> tiff_entry" where
  "entry_at pos (tag, ty, c, v) =
     (let len = the (TYPE_SIZES ty) * c in
      (tag, \<lparr>ent_tag = tag, ent_type = ty, ent_count = c, ent_valueOffset = (if len \<le> 4 then pos + 8 else v),
        ent_byteLength = len\<rparr>))"

fun entries_at :: "int \<Rightarrow> raw_entry list \<Rightarrow> tiff_entries" where
  "entries_at pos [] = []"
| "entries_at pos (e # es) = entry_at pos e # entries_at (pos + 12) es"

lemma length_encode_entry [simp]: "length (encode_entry le e) = 12"
  by (cases e) auto

lemma length_encode_entries [simp]: "length (encode_entries le es) = 12 * length es"
  by (induction es) auto

lemma length_encode_ifd [simp]: "length (encode_ifd le es) = 2 + 12 * length es"
  by (simp add: encode_ifd_def)

lemma known_type: "1 \<le> ty \<Longrightarrow> ty \<le> 13 \<Longrightarrow> \<exists>u. TYPE_SIZES ty = Some u"
proof -
  assume "1 \<le> ty" "ty \<le> 13"
  then have "ty \<in> {1..13}" by simp
  also have "{1..13} = {1, 2, 3, 4, 5, 6, 7, 8, 9, 10, 11, 12, 13 :: int}" by (simp add: set_eq_iff) presburger
  finally show ?thesis by (auto simp: TYPE_SIZES_def)
qed

lemma read_entries_written:
  assumes "tif_bytes r = pre @ encode_entries (tif_littleEndian r) es @ post" and "list_all raw_ok es"
    and "distinct (map fst es)" and "fst ` set done \<inter> fst ` set es = {}"
  shows "read_entries r (length es) (int (length pre)) done = Inr (done @ entries_at (int (length pre)) es)"
  using assms
proof (induction es arbitrary: pre "done")
  case (Cons e es)
  obtain tag ty c v where e: "e = (tag, ty, c, v)" by (cases e) auto
  let ?le = "tif_littleEndian r"
  have ok: "raw_ok (tag, ty, c, v)" using Cons.prems(2) e by simp
  then obtain u where u: "TYPE_SIZES ty = Some u" using known_type by auto
  have b: "tif_bytes r = pre @ order_int ?le 2 tag @ order_int ?le 2 ty @ order_int ?le 4 c @ order_int ?le 4 v @
      encode_entries ?le es @ post"
    using Cons.prems(1) by (simp add: e)
  have r1: "tiff_u16 r (int (length pre)) = Inr tag" by (rule tiff_u16_written [OF b]) (use ok in auto)
  have r2: "tiff_u16 r (int (length pre) + 2) = Inr ty"
    by (rule tiff_u16_written [of r "pre @ order_int ?le 2 tag"]) (use ok b in auto)
  have r3: "tiff_u32 r (int (length pre) + 4) = Inr c"
    by (rule tiff_u32_written [of r "pre @ order_int ?le 2 tag @ order_int ?le 2 ty"]) (use ok b in auto)
  have r4: "tiff_u32 r (int (length pre) + 8) = Inr v"
    by (rule tiff_u32_written [of r "pre @ order_int ?le 2 tag @ order_int ?le 2 ty @ order_int ?le 4 c"]) (use ok b in auto)
  have "tag \<notin> fst ` set done" using Cons.prems(4) e by auto
  moreover have "read_entries r (length es) (int (length (pre @ encode_entry ?le e))) (done @ [entry_at (int (length pre)) e]) =
      Inr ((done @ [entry_at (int (length pre)) e]) @ entries_at (int (length (pre @ encode_entry ?le e))) es)"
    by (rule Cons.IH) (use Cons.prems e in \<open>auto simp: Let_def\<close>)
  ultimately show ?case by (cases "u * c \<le> 4") (simp_all add: e r1 r2 r3 r4 u Let_def)
qed simp

lemma ifd_written_raw:
  assumes "tif_bytes r = pre @ encode_ifd (tif_littleEndian r) es @ post" and "list_all raw_ok es"
    and "distinct (map fst es)" and "length es \<le> 1024" and "8 \<le> length pre" and "int (length pre) \<le> MAX_SAFE_INTEGER"
    and "int (length pre) \<notin> set (tif_visited r)" and "length (tif_visited r) < maxIfds"
  shows "readIfd r (int (length pre)) =
    Inr (entries_at (int (length pre) + 2) es, r\<lparr>tif_visited := tif_visited r @ [int (length pre)]\<rparr>)"
proof -
  let ?le = "tif_littleEndian r"
  let ?r = "r\<lparr>tif_visited := tif_visited r @ [int (length pre)]\<rparr>"
  have b: "tif_bytes ?r = pre @ order_int (tif_littleEndian ?r) 2 (int (length es)) @ encode_entries ?le es @ post"
    using assms(1) by (simp add: encode_ifd_def)
  have c: "tiff_u16 ?r (int (length pre)) = Inr (int (length es))"
    by (rule tiff_u16_written [OF b]) (use assms(4) in auto)
  have b2: "tif_bytes ?r = (pre @ order_int ?le 2 (int (length es))) @ encode_entries (tif_littleEndian ?r) es @ post"
    using b by simp
  have "read_entries ?r (length es) (int (length pre) + 2) [] = Inr (entries_at (int (length pre) + 2) es)"
    using read_entries_written [OF b2 assms(2,3), of "[]"] by (simp add: add.commute)
  moreover have "length (tif_bytes r) = length pre + (2 + 12 * length es) + length post" using assms(1) by simp
  ultimately show ?thesis
    using assms(4-8) c
    by (simp add: readIfd_def Let_def is_safe_integer_def MAX_SAFE_INTEGER_def maxIfds_def maxEntriesPerIfd_def)
qed

text \<open>Reading back a written directory. Wherever an encoded directory of at most 1024 entries with
  distinct tags and known types lies in the bytes, in either byte order, \<open>readIfd\<close> at its (unvisited)
  offset returns exactly its entries, in order, with the inline values located in the table.\<close>

theorem ifd_written:
  assumes "tif_bytes r = pre @ encode_ifd (tif_littleEndian r) es @ post" and "list_all raw_ok es"
    and "distinct (map fst es)" and "length es \<le> 1024" and "8 \<le> length pre" and "int (length pre) \<le> MAX_SAFE_INTEGER"
    and "int (length pre) \<notin> set (tif_visited r)" and "length (tif_visited r) < 16"
  shows "readIfd r (int (length pre)) =
    Inr (entries_at (int (length pre) + 2) es, r\<lparr>tif_visited := tif_visited r @ [int (length pre)]\<rparr>)"
  by (rule ifd_written_raw [OF assms(1-7)]) (use assms(8) in \<open>simp add: maxIfds_def\<close>)

text \<open>The TIFF block a camera writes for an orientation alone.\<close>

definition orientation_field :: "bool \<Rightarrow> int \<Rightarrow> raw_entry" where
  "orientation_field le v = (TAG_orientation, 3, 1, if le then v else v * 65536)"

definition orientation_tiff :: "bool \<Rightarrow> int \<Rightarrow> byte list \<Rightarrow> byte list" where
  "orientation_tiff le v rest =
     (if le then [0x49, 0x49] else [0x4D, 0x4D]) @ order_int le 2 42 @ order_int le 4 8 @
     encode_ifd le [orientation_field le v] @ rest"

lemma orientation_header:
  "fromHeader (orientation_tiff le v rest) =
     Inr (\<lparr>tif_bytes = orientation_tiff le v rest, tif_littleEndian = le, tif_visited = []\<rparr>, 8)"
proof -
  let ?r = "\<lparr>tif_bytes = orientation_tiff le v rest, tif_littleEndian = le, tif_visited = []\<rparr>"
  let ?m = "if le then [0x49, 0x49] else [0x4D, 0x4D :: byte]"
  have m: "tiff_u16 ?r 2 = Inr 42"
    by (rule tiff_u16_written [of _ ?m]) (auto simp: orientation_tiff_def)
  have i: "tiff_u32 ?r 4 = Inr 8"
    by (rule tiff_u32_written [of _ "?m @ order_int le 2 42"]) (auto simp: orientation_tiff_def)
  have l: "length (orientation_tiff le v rest) = 22 + length rest"
    by (simp add: orientation_tiff_def)
  have e: "asciiEquals (orientation_tiff le v rest) 0 (js ''II'') = le" "\<not> le \<Longrightarrow> asciiEquals (orientation_tiff le v rest) 0 (js ''MM'')"
    using l by (auto simp: asciiEquals_def byte_at_def js_def orientation_tiff_def upt_rec)
  show ?thesis using e m i by (cases le) (auto simp: fromHeader_def)
qed

definition orientation_entry :: tiff_entry where
  "orientation_entry = \<lparr>ent_tag = TAG_orientation, ent_type = 3, ent_count = 1, ent_valueOffset = 18, ent_byteLength = 2\<rparr>"

definition orientation_reader :: "bool \<Rightarrow> int \<Rightarrow> byte list \<Rightarrow> int list \<Rightarrow> tiff_reader" where
  "orientation_reader le v rest offs = \<lparr>tif_bytes = orientation_tiff le v rest, tif_littleEndian = le, tif_visited = offs\<rparr>"

lemma orientation_ifd:
  assumes "0 \<le> v" and "v < 65536"
  shows "readIfd (orientation_reader le v rest []) 8 =
    Inr ([(TAG_orientation, orientation_entry)], orientation_reader le v rest [8])"
proof -
  let ?r = "orientation_reader le v rest []"
  let ?pre = "(if le then [0x49, 0x49] else [0x4D, 0x4D :: byte]) @ order_int le 2 42 @ order_int le 4 8"
  have sz: "TYPE_SIZES 3 = Some 2" by (simp add: TYPE_SIZES_def)
  have b: "tif_bytes ?r = ?pre @ encode_ifd (tif_littleEndian ?r) [orientation_field le v] @ rest"
    by (simp add: orientation_tiff_def orientation_reader_def)
  have "readIfd ?r (int (length ?pre)) = Inr (entries_at (int (length ?pre) + 2) [orientation_field le v],
      ?r\<lparr>tif_visited := tif_visited ?r @ [int (length ?pre)]\<rparr>)"
    by (rule ifd_written_raw [OF b])
      (use assms in \<open>auto simp: orientation_field_def TAG_orientation_def MAX_SAFE_INTEGER_def maxIfds_def orientation_reader_def\<close>)
  then show ?thesis
    by (cases le) (simp_all add: orientation_field_def orientation_reader_def orientation_entry_def Let_def sz)
qed

lemma orientation_value:
  assumes "0 \<le> v" and "v < 65536"
  shows "tiff_unsigned (orientation_reader le v rest [8]) orientation_entry = Inr v"
proof -
  let ?r = "orientation_reader le v rest [8]"
  let ?pre = "(if le then [0x49, 0x49] else [0x4D, 0x4D :: byte]) @ order_int le 2 42 @ order_int le 4 8"
  have z: "(256 :: byte) = 0" "(65536 :: byte) = 0" by simp_all
  have "order_int le 4 (if le then v else v * 65536) = order_int le 2 v @ [0, 0]"
    using assms by (simp add: order_int_def numeral_eq_Suc z del: word_unat_eq_iff)
  then have "tiff_u16 ?r 18 = Inr v"
    by (intro tiff_u16_written [of _ "?pre @ order_int le 2 1 @ order_int le 2 TAG_orientation @ order_int le 2 3 @ order_int le 4 1" _
          "[0, 0] @ rest"])
      (use assms in \<open>auto simp: orientation_reader_def orientation_tiff_def encode_ifd_def orientation_field_def\<close>)
  then show ?thesis
    by (simp add: tiff_unsigned_def valueRange_def orientation_entry_def is_safe_integer_def MAX_SAFE_INTEGER_def
        orientation_reader_def orientation_tiff_def)
qed

lemma orientation_summary:
  assumes "0 \<le> v" and "v < 65536"
  shows "readExifSummary (orientation_tiff le v rest) =
    Inr \<lparr>exf_orientation = (if 1 \<le> v \<and> v \<le> 8 then Some v else None), exf_makerNote = None\<rparr>"
  using orientation_ifd [OF assms, of le rest] orientation_value [OF assms, of le rest]
  by (simp add: readExifSummary_def orientation_header orientation_reader_def [symmetric] orientation_entry_def
      TAG_orientation_def TAG_exifIfd_def)

text \<open>The orientation written is the orientation read: for either byte order and whatever follows the
  directory, the Exif summary of a TIFF block with one orientation entry gives its value when it is one
  of the eight orientations and none otherwise, and no MakerNote.\<close>

theorem orientation_written:
  assumes "0 \<le> v" and "v < 65536"
  shows "readExifSummary (orientation_tiff le v rest) =
    Inr \<lparr>exf_orientation = (if 1 \<le> v \<and> v \<le> 8 then Some v else None), exf_makerNote = None\<rparr>"
  by (rule orientation_summary [OF assms])

section \<open>Witnesses\<close>

theorem ifd_entries_witness:
  "\<exists>n \<le> 1024. list_all (entry_ok 10 (10 + 12 * int n)) [(TAG_orientation, orientation_entry)]"
  using ifd_entries [OF orientation_ifd [of 6 True "[]"]] by auto

theorem ifd_chains_end_witness:
  "read_chain (orientation_reader True 6 [] []) [8] = Inr (orientation_reader True 6 [] [8]) \<and> length [8 :: int] \<le> 16"
proof -
  have "read_chain (orientation_reader True 6 [] []) [8] = Inr (orientation_reader True 6 [] [8])"
    using orientation_ifd [of 6 True "[]"] by simp
  with ifd_chains_end [OF orientation_header [of True 6 "[]"], folded orientation_reader_def, OF this]
  show ?thesis by simp
qed

theorem exif_summary_bounds_witness:
  "readExifSummary (orientation_tiff False 6 []) = Inr \<lparr>exf_orientation = Some 6, exf_makerNote = None\<rparr> \<and> 6 \<le> (8 :: int)"
  using exif_summary_bounds [OF orientation_summary [of 6 False "[]"]] orientation_summary [of 6 False "[]"] by simp

theorem ifd_written_witness:
  "readIfd (orientation_reader True 0 [] []) 8 = Inr (entries_at 10 [orientation_field True 0], orientation_reader True 0 [] [8])"
proof -
  let ?pre = "[0x49, 0x49 :: byte] @ order_int True 2 42 @ order_int True 4 8"
  have b: "tif_bytes (orientation_reader True 0 [] []) =
      ?pre @ encode_ifd (tif_littleEndian (orientation_reader True 0 [] [])) [orientation_field True 0] @ []"
    by (simp add: orientation_tiff_def orientation_reader_def)
  show ?thesis
    using ifd_written [OF b] by (simp add: orientation_field_def TAG_orientation_def MAX_SAFE_INTEGER_def orientation_reader_def)
qed

theorem orientation_written_witness:
  "readExifSummary (orientation_tiff True 3 [1, 2, 3]) = Inr \<lparr>exf_orientation = Some 3, exf_makerNote = None\<rparr>"
  using orientation_written [of 3 True "[1, 2, 3]"] by simp

end
