(* ===== verification/Jpeg.thy ===== *)
theory Jpeg
  imports MediaBytes
begin

text \<open>
  JPEG marker segments (\<open>services/backend-production/src/publishing/processing/jpeg.ts\<close>). The scan
  goes through the header bytes with a cursor; fill bytes before a marker are skipped by
  \<open>skip_fill\<close>, markers without a payload move the cursor only.
\<close>

record jpeg_segment =
  seg_marker :: int
  seg_dataStart :: int
  seg_dataEnd :: int

definition maxSegments :: nat where "maxSegments = 1024"
definition maxFillBytes :: nat where "maxFillBytes = 64"

text \<open>The inner loop: the cursor at the last \<open>FF\<close> before a marker.\<close>

function skip_fill :: "byte list \<Rightarrow> int \<Rightarrow> nat \<Rightarrow> int parsed" where
  "skip_fill bytes cursor fill =
     (if byte_at bytes (cursor + 1) = 0xff then
        if Suc fill > maxFillBytes then Inl Structure_invalid else skip_fill bytes (cursor + 1) (Suc fill)
      else Inr cursor)"
  by pat_completeness auto
termination by (relation "measure (\<lambda>(_, _, fill). maxFillBytes - fill)") auto

declare skip_fill.simps [simp del]

lemma skip_fill_ge: "skip_fill bytes cursor fill = Inr c \<Longrightarrow> cursor \<le> c"
proof (induction bytes cursor fill rule: skip_fill.induct)
  case (1 bytes cursor fill)
  then show ?case by (subst (asm) (2) skip_fill.simps) (auto split: if_splits)
qed

function segments_loop :: "byte list \<Rightarrow> jpeg_segment list \<Rightarrow> int \<Rightarrow> jpeg_segment list parsed" where
  "segments_loop bytes segments cursor =
     (if length segments \<ge> maxSegments then Inl Limit_exceeded
      else if cursor \<ge> int (length bytes) then Inl Truncated
      else if byte_at bytes cursor \<noteq> 0xff then Inl Structure_invalid
      else rbind (skip_fill bytes cursor 0) (\<lambda>cursor.
        if cursor + 1 \<ge> int (length bytes) then Inl Truncated
        else let marker = byte_at bytes (cursor + 1) in
          if marker = 0xda \<or> marker = 0xd9 then Inr segments
          else if (marker \<ge> 0xd0 \<and> marker \<le> 0xd7) \<or> marker = 0x01 then segments_loop bytes segments (cursor + 2)
          else rbind (u16be bytes (cursor + 2)) (\<lambda>len.
            if len < 2 then Inl Structure_invalid
            else let dataStart = cursor + 4; dataEnd = cursor + 2 + len in
              if dataEnd > int (length bytes) then Inl Truncated
              else segments_loop bytes
                (segments @ [\<lparr>seg_marker = marker, seg_dataStart = dataStart, seg_dataEnd = dataEnd\<rparr>]) dataEnd)))"
  by pat_completeness auto
termination
  by (relation "measure (\<lambda>(bytes, _, cursor). nat (int (length bytes) - cursor))") (auto dest!: skip_fill_ge)

declare segments_loop.simps [simp del]

definition listJpegSegments :: "byte list \<Rightarrow> jpeg_segment list parsed" where
  "listJpegSegments bytes =
     (if length bytes < 4 \<or> byte_at bytes 0 \<noteq> 0xff \<or> byte_at bytes 1 \<noteq> 0xd8 then Inl Structure_invalid
      else segments_loop bytes [] 2)"

definition EXIF_HEADER :: jstr where
  "EXIF_HEADER = js ''Exif'' @ [0, 0]"

definition readJpegExifTiff :: "byte list \<Rightarrow> byte list option parsed" where
  "readJpegExifTiff bytes =
     rbind (listJpegSegments bytes) (\<lambda>segments.
       Inr (case List.find (\<lambda>s. seg_marker s = 0xe1 \<and> asciiEquals bytes (seg_dataStart s) EXIF_HEADER) segments of
         None \<Rightarrow> None
       | Some s \<Rightarrow> Some (subarray bytes (seg_dataStart s + int (length EXIF_HEADER)) (seg_dataEnd s))))"

section \<open>Segments of untrusted bytes\<close>

text \<open>A segment as it lies in the bytes: \<open>FF\<close>, its marker, its two length bytes and its payload.\<close>

definition segment_at :: "byte list \<Rightarrow> jpeg_segment \<Rightarrow> bool" where
  "segment_at bytes s \<longleftrightarrow> 6 \<le> seg_dataStart s \<and> seg_dataStart s \<le> seg_dataEnd s \<and> seg_dataEnd s \<le> int (length bytes) \<and>
     byte_at bytes (seg_dataStart s - 4) = 0xff \<and> byte_at bytes (seg_dataStart s - 3) = seg_marker s \<and>
     u16be bytes (seg_dataStart s - 2) = Inr (seg_dataEnd s - seg_dataStart s + 2)"

text \<open>Segments one after another, none beginning before \<open>from\<close>.\<close>

fun in_order :: "int \<Rightarrow> jpeg_segment list \<Rightarrow> bool" where
  "in_order start [] \<longleftrightarrow> True"
| "in_order start (s # ss) \<longleftrightarrow> start \<le> seg_dataStart s - 4 \<and> in_order (seg_dataEnd s) ss"

lemma in_order_mono: "in_order b ss \<Longrightarrow> a \<le> b \<Longrightarrow> in_order a ss"
  by (cases ss) auto

lemma skip_fill_ff:
  "skip_fill bytes cursor fill = Inr c \<Longrightarrow> byte_at bytes cursor = 0xff \<Longrightarrow> byte_at bytes c = 0xff"
proof (induction bytes cursor fill rule: skip_fill.induct)
  case (1 bytes cursor fill)
  then show ?case by (subst (asm) (2) skip_fill.simps) (auto split: if_splits)
qed

lemma segments_loop_order:
  assumes "segments_loop bytes segments cursor = Inr result" and "2 \<le> cursor"
  shows "\<exists>ss. result = segments @ ss \<and> list_all (segment_at bytes) ss \<and> in_order cursor ss \<and> length result < maxSegments"
  using assms
proof (induction bytes segments cursor arbitrary: result rule: segments_loop.induct)
  case (1 bytes segments cursor)
  from "1.prems"(1) have g: "\<not> length segments \<ge> maxSegments" "\<not> cursor \<ge> int (length bytes)" "\<not> byte_at bytes cursor \<noteq> 0xff"
    by (subst (asm) segments_loop.simps, auto split: if_splits)+
  then obtain c where c: "skip_fill bytes cursor 0 = Inr c"
    using "1.prems"(1) by (subst (asm) segments_loop.simps) (auto simp: rbind_Inr_iff)
  note cge = skip_fill_ge [OF c] and cff = skip_fill_ff [OF c]
  let ?m = "byte_at bytes (c + 1)"
  have c1: "\<not> c + 1 \<ge> int (length bytes)"
    using "1.prems"(1) g c by (subst (asm) segments_loop.simps) (auto split: if_splits)
  consider "?m = 0xda \<or> ?m = 0xd9"
    | "\<not> (?m = 0xda \<or> ?m = 0xd9)" "(?m \<ge> 0xd0 \<and> ?m \<le> 0xd7) \<or> ?m = 0x01"
    | "\<not> (?m = 0xda \<or> ?m = 0xd9)" "\<not> ((?m \<ge> 0xd0 \<and> ?m \<le> 0xd7) \<or> ?m = 0x01)"
    by blast
  then show ?case
  proof cases
    case 1
    then have "result = segments" using "1.prems"(1) g c c1 by (subst (asm) segments_loop.simps) simp
    with g show ?thesis by simp
  next
    case 2
    then have r: "segments_loop bytes segments (c + 2) = Inr result"
      using "1.prems"(1) g c c1 by (subst (asm) segments_loop.simps) (simp del: de_Morgan_disj)
    from "1.IH"(1) [OF g c c1 refl 2 r] "1.prems"(2) cge obtain ss where ss: "result = segments @ ss" "list_all (segment_at bytes) ss"
      "in_order (c + 2) ss" "length result < maxSegments" by auto
    have "in_order cursor ss" using in_order_mono [OF ss(3)] cge by simp
    with ss show ?thesis by blast
  next
    case 3
    obtain len where len: "u16be bytes (c + 2) = Inr len" "\<not> len < 2" "\<not> c + 2 + len > int (length bytes)"
      "segments_loop bytes (segments @ [\<lparr>seg_marker = ?m, seg_dataStart = c + 4, seg_dataEnd = c + 2 + len\<rparr>]) (c + 2 + len) = Inr result"
      using "1.prems"(1) g c c1 3 by (subst (asm) segments_loop.simps) (auto simp: rbind_Inr_iff Let_def split: if_splits)
    let ?s = "\<lparr>seg_marker = ?m, seg_dataStart = c + 4, seg_dataEnd = c + 2 + len\<rparr>"
    from "1.IH"(2) [OF g c c1 refl 3 len(1,2) refl refl len(3,4)] "1.prems"(2) cge len(2) obtain ss where
      ss: "result = (segments @ [?s]) @ ss" "list_all (segment_at bytes) ss"
      "in_order (c + 2 + len) ss" "length result < maxSegments" by auto
    have "segment_at bytes ?s" using len cff g(3) "1.prems"(2) cge by (simp add: segment_at_def add.commute)
    then show ?thesis using ss cge by (intro exI [of _ "?s # ss"]) simp
  qed
qed

text \<open>Every segment listed from untrusted bytes lies in them: it is preceded by \<open>FF\<close>, its marker and
  the length it declares, its payload ends inside the bytes, the segments do not overlap and are in
  file order, and there are at most 1023 of them (the scan refuses the bytes as soon as it holds 1024,
  before it has seen whether the header ends there).\<close>

theorem jpeg_segments_in_order:
  assumes "listJpegSegments bytes = Inr segments"
  shows "list_all (segment_at bytes) segments \<and> in_order 2 segments \<and> length segments \<le> 1023"
proof -
  have "segments_loop bytes [] 2 = Inr segments" using assms by (auto simp: listJpegSegments_def split: if_splits)
  from segments_loop_order [OF this] show ?thesis by (auto simp: maxSegments_def)
qed

section \<open>Written headers\<close>

text \<open>The parts of a header: a segment, or a marker without a payload, each after some fill bytes.\<close>

datatype jpeg_part = Jpeg_segment nat byte "byte list" | Jpeg_standalone nat byte

definition is_standalone :: "int \<Rightarrow> bool" where
  "is_standalone m \<longleftrightarrow> (m \<ge> 0xd0 \<and> m \<le> 0xd7) \<or> m = 0x01"

definition marker_bytes :: "nat \<Rightarrow> byte \<Rightarrow> byte list" where
  "marker_bytes fill m = replicate fill 0xff @ [0xff, m]"

fun encode_part :: "jpeg_part \<Rightarrow> byte list" where
  "encode_part (Jpeg_segment fill m payload) = marker_bytes fill m @ be_bytes 2 (int (length payload) + 2) @ payload"
| "encode_part (Jpeg_standalone fill m) = marker_bytes fill m"

fun part_ok :: "jpeg_part \<Rightarrow> bool" where
  "part_ok (Jpeg_segment fill m payload) \<longleftrightarrow> fill \<le> 64 \<and> uint m \<notin> {0xff, 0xda, 0xd9} \<and> \<not> is_standalone (uint m) \<and>
     length payload \<le> 65533"
| "part_ok (Jpeg_standalone fill m) \<longleftrightarrow> fill \<le> 64 \<and> is_standalone (uint m)"

fun segments_of :: "int \<Rightarrow> jpeg_part list \<Rightarrow> jpeg_segment list" where
  "segments_of pos [] = []"
| "segments_of pos (Jpeg_segment fill m payload # ps) =
     \<lparr>seg_marker = uint m, seg_dataStart = pos + int fill + 4, seg_dataEnd = pos + int fill + 4 + int (length payload)\<rparr> #
     segments_of (pos + int fill + 4 + int (length payload)) ps"
| "segments_of pos (Jpeg_standalone fill m # ps) = segments_of (pos + int fill + 2) ps"

lemma byte_at_nth: "off = int i \<Longrightarrow> i < length bs \<Longrightarrow> byte_at bs off = uint (bs ! i)"
  by (simp add: byte_at_def)

lemma skip_fill_split:
  assumes "bytes = pre @ marker_bytes fill m @ post" and "cursor = int (length pre)" and "n + fill \<le> maxFillBytes"
    and "uint m \<noteq> 0xff"
  shows "skip_fill bytes cursor n = Inr (cursor + int fill)"
  using assms
proof (induction fill arbitrary: pre cursor n)
  case 0
  have "byte_at bytes (cursor + 1) = uint m"
    using 0 byte_at_nth [of "cursor + 1" "length pre + 1" bytes] by (simp add: marker_bytes_def nth_append)
  with 0(4) show ?case by (subst skip_fill.simps) simp
next
  case (Suc fill)
  have "byte_at bytes (cursor + 1) = 0xff"
    using Suc.prems(1,2) byte_at_nth [of "cursor + 1" "length pre + 1" bytes]
    by (cases fill) (simp_all add: marker_bytes_def nth_append)
  moreover have "skip_fill bytes (cursor + 1) (Suc n) = Inr (cursor + 1 + int fill)"
    by (rule Suc.IH [of "pre @ [0xff]"]) (use Suc.prems in \<open>auto simp: marker_bytes_def\<close>)
  ultimately show ?case using Suc.prems(3) by (subst skip_fill.simps) simp
qed

text \<open>The loop at a marker: its fill bytes are skipped and its marker byte is read.\<close>

lemma segments_loop_marker:
  assumes "bytes = pre @ marker_bytes fill m @ post" and "cursor = int (length pre)" and "fill \<le> 64" and "uint m \<noteq> 0xff"
    and "length segments < maxSegments"
  shows "segments_loop bytes segments cursor =
    (let c = cursor + int fill; marker = uint m in
     if marker = 0xda \<or> marker = 0xd9 then Inr segments
     else if is_standalone marker then segments_loop bytes segments (c + 2)
     else rbind (u16be bytes (c + 2)) (\<lambda>len.
       if len < 2 then Inl Structure_invalid
       else if c + 2 + len > int (length bytes) then Inl Truncated
       else segments_loop bytes (segments @ [\<lparr>seg_marker = marker, seg_dataStart = c + 4, seg_dataEnd = c + 2 + len\<rparr>]) (c + 2 + len)))"
proof -
  have s: "skip_fill bytes cursor 0 = Inr (cursor + int fill)"
    by (rule skip_fill_split [OF assms(1,2) _ assms(4)]) (use assms(3) in \<open>simp add: maxFillBytes_def\<close>)
  have l: "int (length bytes) = cursor + int fill + 2 + int (length post)" using assms(1,2) by (simp add: marker_bytes_def)
  have f: "byte_at bytes cursor = 0xff"
    using assms(1,2) byte_at_nth [of cursor "length pre" bytes] by (cases fill) (simp_all add: marker_bytes_def nth_append)
  have m: "byte_at bytes (cursor + int fill + 1) = uint m"
    using assms(1,2) byte_at_nth [of "cursor + int fill + 1" "length pre + fill + 1" bytes] by (simp add: marker_bytes_def nth_append)
  show ?thesis
    using assms(5) by (cases "u16be bytes (cursor + int fill + 2)"; subst segments_loop.simps)
      (simp_all add: s l f m Let_def is_standalone_def)
qed

lemma segments_loop_full: "length segments \<ge> maxSegments \<Longrightarrow> segments_loop bytes segments cursor = Inl Limit_exceeded"
  by (subst segments_loop.simps) simp

lemma segments_loop_written:
  assumes "bytes = pre @ concat (map encode_part ps) @ marker_bytes fill m @ post" and "list_all part_ok ps"
    and "cursor = int (length pre)" and "fill \<le> 64" and "uint m \<in> {0xda, 0xd9}"
  shows "segments_loop bytes segments cursor =
    (if length segments + length (segments_of cursor ps) < maxSegments then Inr (segments @ segments_of cursor ps)
     else Inl Limit_exceeded)"
  using assms
proof (induction ps arbitrary: pre cursor segments)
  case Nil
  show ?case
  proof (cases "length segments < maxSegments")
    case True
    have "bytes = pre @ marker_bytes fill m @ post" using Nil.prems(1) by simp
    from segments_loop_marker [OF this Nil.prems(3,4) _ True] Nil.prems(5) True show ?thesis by auto
  next
    case False
    then show ?thesis by (simp add: segments_loop_full)
  qed
next
  case (Cons p ps)
  show ?case
  proof (cases "length segments < maxSegments")
    case False
    then show ?thesis by (simp add: segments_loop_full)
  next
    case short: True
    show ?thesis
    proof (cases p)
      case (Jpeg_standalone f n)
      let ?rest = "concat (map encode_part ps) @ marker_bytes fill m @ post"
      have ok: "f \<le> 64" "is_standalone (uint n)" using Cons.prems(2) Jpeg_standalone by auto
      then have n: "uint n \<noteq> 0xff" "\<not> (uint n = 0xda \<or> uint n = 0xd9)" by (auto simp: is_standalone_def)
      have b: "bytes = pre @ marker_bytes f n @ ?rest" using Cons.prems(1) Jpeg_standalone by simp
      have "segments_loop bytes segments cursor = segments_loop bytes segments (cursor + int f + 2)"
        using segments_loop_marker [OF b Cons.prems(3) ok(1) n(1) short] ok(2) n(2) by (simp add: Let_def)
      also have "\<dots> = (if length segments + length (segments_of (cursor + int f + 2) ps) < maxSegments
          then Inr (segments @ segments_of (cursor + int f + 2) ps) else Inl Limit_exceeded)"
        by (rule Cons.IH [of "pre @ marker_bytes f n"]) (use Cons.prems b Jpeg_standalone in \<open>auto simp: marker_bytes_def\<close>)
      finally show ?thesis using Jpeg_standalone by simp
    next
      case (Jpeg_segment f n payload)
      let ?rest = "concat (map encode_part ps) @ marker_bytes fill m @ post"
      let ?len = "be_bytes 2 (int (length payload) + 2)"
      let ?c = "cursor + int f"
      let ?seg = "\<lparr>seg_marker = uint n, seg_dataStart = ?c + 4, seg_dataEnd = ?c + 4 + int (length payload)\<rparr>"
      have ok: "f \<le> 64" "uint n \<noteq> 0xff" "\<not> (uint n = 0xda \<or> uint n = 0xd9)" "\<not> is_standalone (uint n)" "length payload \<le> 65533"
        using Cons.prems(2) Jpeg_segment by auto
      have b: "bytes = pre @ marker_bytes f n @ ?len @ payload @ ?rest" using Cons.prems(1) Jpeg_segment by simp
      have "bytes_at bytes (?c + 2) 2 = ?len"
        unfolding b Cons.prems(3) by (simp add: bytes_at_def marker_bytes_def nat_add_distrib)
      moreover have l: "int (length bytes) = ?c + 4 + int (length payload) + int (length ?rest)"
        using b Cons.prems(3) by (simp add: marker_bytes_def)
      ultimately have u: "u16be bytes (?c + 2) = Inr (int (length payload) + 2)"
        using ok(5) Cons.prems(3) by (simp add: u16be_value be_value_be_bytes)
      have "segments_loop bytes segments cursor = segments_loop bytes (segments @ [?seg]) (?c + 4 + int (length payload))"
        using segments_loop_marker [OF b Cons.prems(3) ok(1,2) short] ok(3,4) u l by (simp add: Let_def add_ac)
      also have "\<dots> = (if length (segments @ [?seg]) + length (segments_of (?c + 4 + int (length payload)) ps) < maxSegments
          then Inr ((segments @ [?seg]) @ segments_of (?c + 4 + int (length payload)) ps) else Inl Limit_exceeded)"
        by (rule Cons.IH [of "pre @ marker_bytes f n @ ?len @ payload"]) (use Cons.prems b Jpeg_segment in \<open>auto simp: marker_bytes_def\<close>)
      finally show ?thesis using Jpeg_segment by simp
    qed
  qed
qed

lemma listJpegSegments_written:
  assumes "list_all part_ok ps" and "fill \<le> 64" and "uint m \<in> {0xda, 0xd9}"
  shows "listJpegSegments ([0xff, 0xd8] @ concat (map encode_part ps) @ marker_bytes fill m @ rest) =
    (if length (segments_of 2 ps) < 1024 then Inr (segments_of 2 ps) else Inl Limit_exceeded)"
  using segments_loop_written [OF refl assms(1) _ assms(2,3), of 2 "[0xff, 0xd8]" rest "[]"]
  by (simp add: listJpegSegments_def byte_at_def marker_bytes_def maxSegments_def)

text \<open>The segments of a written header are listed exactly. Whatever fill bytes and payload-free
  markers stand between them, a header of fewer than 1024 segments up to its scan or end marker gives
  the marker and the payload range of each segment in order; one of 1024 or more is refused.\<close>

theorem jpeg_segments_written:
  assumes "list_all part_ok ps" and "fill \<le> 64" and "uint m \<in> {0xda, 0xd9}"
  shows "listJpegSegments ([0xff, 0xd8] @ concat (map encode_part ps) @ marker_bytes fill m @ rest) =
    (if length (segments_of 2 ps) < 1024 then Inr (segments_of 2 ps) else Inl Limit_exceeded)"
  by (rule listJpegSegments_written [OF assms])

definition sample_parts :: "jpeg_part list" where
  "sample_parts = [Jpeg_standalone 1 0xd0, Jpeg_segment 2 0xe1 [7, 8, 9], Jpeg_segment 0 0xdb []]"

lemma sample_parts_ok: "list_all part_ok sample_parts"
  by (simp add: sample_parts_def is_standalone_def)

theorem jpeg_segments_written_witness:
  "listJpegSegments ([0xff, 0xd8] @ concat (map encode_part sample_parts) @ marker_bytes 0 0xda @ [1, 2]) =
     Inr [\<lparr>seg_marker = 0xe1, seg_dataStart = 11, seg_dataEnd = 14\<rparr>, \<lparr>seg_marker = 0xdb, seg_dataStart = 18, seg_dataEnd = 18\<rparr>]"
  using jpeg_segments_written [OF sample_parts_ok, of 0 "0xda" "[1, 2]"] by (simp add: sample_parts_def)

theorem jpeg_segments_in_order_witness:
  "list_all (segment_at ([0xff, 0xd8] @ concat (map encode_part sample_parts) @ marker_bytes 0 0xda @ [1, 2])) (segments_of 2 sample_parts)"
proof -
  have "listJpegSegments ([0xff, 0xd8] @ concat (map encode_part sample_parts) @ marker_bytes 0 0xda @ [1, 2]) = Inr (segments_of 2 sample_parts)"
    using listJpegSegments_written [OF sample_parts_ok, of 0 "0xda" "[1, 2]"] by (simp add: sample_parts_def)
  from jpeg_segments_in_order [OF this] show ?thesis by simp
qed

end
