(* ===== verification/Utf8Decode.thy ===== *)
theory Utf8Decode
  imports MediaBytes
begin

text \<open>
  The standard library's \<open>new TextDecoder("utf-8", { fatal: true })\<close>, used by the parsers of
  \<open>services/backend-production/src/publishing/processing/\<close>: well-formed UTF-8 only (no overlong form,
  no surrogate, nothing above U+10FFFF), to UTF-16 code units, after dropping a leading byte order
  mark. \<open>None\<close> is the thrown \<open>TypeError\<close>.
\<close>

definition cont_byte :: "nat \<Rightarrow> bool" where
  "cont_byte b \<longleftrightarrow> 0x80 \<le> b \<and> b \<le> 0xBF"

definition surrogates :: "nat \<Rightarrow> jstr" where
  "surrogates c = [0xD800 + (c - 0x10000) div 0x400, 0xDC00 + (c - 0x10000) mod 0x400]"

fun utf8_units :: "nat list \<Rightarrow> jstr option" where
  "utf8_units [] = Some []"
| "utf8_units (b0 # bs) =
     (if b0 < 0x80 then map_option (\<lambda>r. b0 # r) (utf8_units bs)
      else if 0xC2 \<le> b0 \<and> b0 \<le> 0xDF then
        (case bs of b1 # r \<Rightarrow>
           if cont_byte b1 then map_option (\<lambda>r. ((b0 - 0xC0) * 64 + (b1 - 0x80)) # r) (utf8_units r) else None
         | _ \<Rightarrow> None)
      else if 0xE0 \<le> b0 \<and> b0 \<le> 0xEF then
        (case bs of b1 # b2 # r \<Rightarrow>
           if cont_byte b1 \<and> cont_byte b2 \<and> (b0 = 0xE0 \<longrightarrow> 0xA0 \<le> b1) \<and> (b0 = 0xED \<longrightarrow> b1 \<le> 0x9F)
           then map_option (\<lambda>r. ((b0 - 0xE0) * 4096 + (b1 - 0x80) * 64 + (b2 - 0x80)) # r) (utf8_units r) else None
         | _ \<Rightarrow> None)
      else if 0xF0 \<le> b0 \<and> b0 \<le> 0xF4 then
        (case bs of b1 # b2 # b3 # r \<Rightarrow>
           if cont_byte b1 \<and> cont_byte b2 \<and> cont_byte b3 \<and> (b0 = 0xF0 \<longrightarrow> 0x90 \<le> b1) \<and> (b0 = 0xF4 \<longrightarrow> b1 \<le> 0x8F)
           then map_option (\<lambda>r. surrogates ((b0 - 0xF0) * 262144 + (b1 - 0x80) * 4096 + (b2 - 0x80) * 64 + (b3 - 0x80)) @ r)
             (utf8_units r) else None
         | _ \<Rightarrow> None)
      else None)"

definition utf8_decode :: "byte list \<Rightarrow> jstr option" where
  "utf8_decode bytes =
     (let codes = map unat bytes in utf8_units (if starts_with codes [0xEF, 0xBB, 0xBF] then drop 3 codes else codes))"

lemma utf8_units_ascii: "list_all (\<lambda>c. c < 0x80) codes \<Longrightarrow> utf8_units codes = Some codes"
  by (induction codes) auto

lemma utf8_decode_ascii:
  assumes "list_all (\<lambda>c. c < 0x80) (map unat bytes)"
  shows "utf8_decode bytes = Some (map unat bytes)"
  using utf8_units_ascii [OF assms] assms by (cases bytes) (auto simp: utf8_decode_def)

end
