(* ===== verification/AppleLivePhoto.thy ===== *)
theory AppleLivePhoto
  imports HeifMeta TiffExif Jpeg Utf8Decode
begin

text \<open>
  Live Photo content identifiers
  (\<open>services/backend-production/src/publishing/processing/apple-live-photo.ts\<close>): the Apple MakerNote of
  a still (from JPEG APP1 or a HEIF item) and the keyed metadata of a QuickTime movie. The stored
  SHA-256 of an identifier is a call to the platform's hash and is not modelled.
\<close>

definition APPLE_CONTENT_IDENTIFIER_TAG :: int where "APPLE_CONTENT_IDENTIFIER_TAG = 0x0011"

definition QUICKTIME_CONTENT_IDENTIFIER_KEY :: jstr where
  "QUICKTIME_CONTENT_IDENTIFIER_KEY = js ''com.apple.quicktime.content.identifier''"

definition APPLE_MAKER_NOTE_HEADER :: jstr where "APPLE_MAKER_NOTE_HEADER = js ''Apple iOS'' @ [0]"
definition APPLE_MAKER_NOTE_IFD_OFFSET :: int where "APPLE_MAKER_NOTE_IFD_OFFSET = 14"
definition MAX_KEYS :: int where "MAX_KEYS = 1024"
definition MAX_KEY_BYTES :: int where "MAX_KEY_BYTES = 256"
definition MAX_VALUE_BYTES :: int where "MAX_VALUE_BYTES = 256"

section \<open>Identifiers\<close>

text \<open>
  \<open>toUpperCase\<close> as far as the pattern can tell: outside ASCII only U+FB00 (the ligature \<open>ff\<close>)
  upper-cases to a string of pattern characters, \<open>FF\<close>; every other code unit upper-cases to a string
  with a code unit the pattern refuses, as it itself is.
\<close>

definition upper_units :: "nat \<Rightarrow> jstr" where
  "upper_units c = (if c = 0xFB00 then [70, 70] else [ascii_upper c])"

definition js_upper :: "jstr \<Rightarrow> jstr" where
  "js_upper s = concat (map upper_units s)"

definition is_upper_hex :: "nat \<Rightarrow> bool" where
  "is_upper_hex c \<longleftrightarrow> is_digit c \<or> (65 \<le> c \<and> c \<le> 70)"

definition UUID_PATTERN :: "jstr \<Rightarrow> bool" where
  "UUID_PATTERN s \<longleftrightarrow> length s = 36 \<and>
     list_all (\<lambda>i. if i \<in> {8, 13, 18, 23} then s ! i = 45 else is_upper_hex (s ! i)) [0..<36]"

definition normalizeContentIdentifier :: "jstr \<Rightarrow> jstr option" where
  "normalizeContentIdentifier v = (let upper = js_upper (jtrim v) in if UUID_PATTERN upper then Some upper else None)"

section \<open>Stills\<close>

definition readAppleMakerNoteContentIdentifier :: "byte list \<Rightarrow> jstr option parsed" where
  "readAppleMakerNoteContentIdentifier makerNote =
     (if \<not> asciiEquals makerNote 0 APPLE_MAKER_NOTE_HEADER then Inr None
      else rbind (if asciiEquals makerNote 12 (js ''MM'') then Inr False
                  else if asciiEquals makerNote 12 (js ''II'') then Inr True else Inl Structure_invalid) (\<lambda>littleEndian.
        let reader = \<lparr>tif_bytes = makerNote, tif_littleEndian = littleEndian, tif_visited = []\<rparr> in
        rbind (readIfd reader APPLE_MAKER_NOTE_IFD_OFFSET) (\<lambda>(entries, reader).
          case map_of entries APPLE_CONTENT_IDENTIFIER_TAG of
            None \<Rightarrow> Inr None
          | Some entry \<Rightarrow>
              if ent_type entry \<noteq> 2 then Inr None
              else rbind (tiff_ascii reader entry) (\<lambda>s. Inr (normalizeContentIdentifier s)))))"

definition readExifContentIdentifier :: "byte list \<Rightarrow> jstr option parsed" where
  "readExifContentIdentifier tiff =
     rbind (readExifSummary tiff) (\<lambda>summary.
       case exf_makerNote summary of
         None \<Rightarrow> Inr None
       | Some (start, stop) \<Rightarrow> readAppleMakerNoteContentIdentifier (subarray tiff start stop))"

definition readJpegContentIdentifier :: "byte list \<Rightarrow> jstr option parsed" where
  "readJpegContentIdentifier head =
     rbind (readJpegExifTiff head) (\<lambda>tiff. case tiff of None \<Rightarrow> Inr None | Some t \<Rightarrow> readExifContentIdentifier t)"

definition exifItemTiff :: "byte list \<Rightarrow> byte list parsed" where
  "exifItemTiff item =
     rbind (u32be item 0) (\<lambda>skip.
       if skip > int (length item) - 4 then Inl Offset_invalid else Inr (subarray item (4 + skip) (int (length item))))"

definition readHeifExifTiff :: "byte_reader \<Rightarrow> byte list option parsed" where
  "readHeifExifTiff reader =
     rbind (readTopLevelBox reader (js ''meta'') maxMetaBoxBytes) (\<lambda>meta.
       case meta of
         None \<Rightarrow> Inl Structure_invalid
       | Some (_, bytes) \<Rightarrow>
           rbind (parseHeifMeta bytes) (\<lambda>metaParsed.
             case findHeifExifItemId metaParsed of
               None \<Rightarrow> Inr None
             | Some exifId \<Rightarrow> rbind (readHeifItem reader bytes metaParsed exifId maxItemBytes) (\<lambda>item.
                 rbind (exifItemTiff item) (\<lambda>tiff. Inr (Some tiff)))))"

definition readHeifContentIdentifier :: "byte_reader \<Rightarrow> jstr option parsed" where
  "readHeifContentIdentifier reader =
     rbind (readHeifExifTiff reader) (\<lambda>tiff. case tiff of None \<Rightarrow> Inr None | Some t \<Rightarrow> readExifContentIdentifier t)"

section \<open>Movies\<close>

definition metaChildren :: "byte list \<Rightarrow> box_header \<Rightarrow> box_header list parsed" where
  "metaChildren bytes meta =
     (let fullBox = listBoxes bytes (box_contentStart meta + 4) (box_end meta) 0 in
      case listBoxes bytes (box_contentStart meta) (box_end meta) 0 of
        Inr plain \<Rightarrow> if list_ex (\<lambda>b. box_type b = js ''hdlr'' \<or> box_type b = js ''keys'') plain then Inr plain else fullBox
      | Inl _ \<Rightarrow> fullBox)"

text \<open>The keys from \<open>index\<close> on, \<open>n\<close> of them; the result is the index of the first identifier key.\<close>

fun find_key :: "byte list \<Rightarrow> int \<Rightarrow> nat \<Rightarrow> int \<Rightarrow> int \<Rightarrow> int option \<Rightarrow> int option parsed" where
  "find_key moovBytes keysEnd 0 index cursor keyIndex = Inr keyIndex"
| "find_key moovBytes keysEnd (Suc n) index cursor keyIndex =
     (if cursor + 8 > keysEnd then Inl Truncated
      else rbind (u32be moovBytes cursor) (\<lambda>sz.
        if sz < 8 \<or> cursor + sz > keysEnd then Inl Box_invalid
        else rbind (if keyIndex = None then rbind (fourCc moovBytes (cursor + 4)) (\<lambda>namespace.
              Inr (if namespace = js ''mdta'' \<and> sz - 8 = int (length QUICKTIME_CONTENT_IDENTIFIER_KEY) \<and>
                     sz - 8 \<le> MAX_KEY_BYTES \<and> asciiEquals moovBytes (cursor + 8) QUICKTIME_CONTENT_IDENTIFIER_KEY
                   then Some index else None))
            else Inr keyIndex) (\<lambda>keyIndex.
          find_key moovBytes keysEnd n (index + 1) (cursor + sz) keyIndex)))"

fun find_value :: "byte list \<Rightarrow> int \<Rightarrow> box_header list \<Rightarrow> jstr option parsed" where
  "find_value moovBytes keyIndex [] = Inr None"
| "find_value moovBytes keyIndex (entry # entries) =
     rbind (u32be moovBytes (box_start entry + 4)) (\<lambda>index.
       if index \<noteq> keyIndex then find_value moovBytes keyIndex entries
       else rbind (listBoxes moovBytes (box_contentStart entry) (box_end entry) 0) (\<lambda>boxes.
         case List.find (\<lambda>b. box_type b = js ''data'') boxes of
           None \<Rightarrow> Inl Structure_invalid
         | Some data \<Rightarrow>
             if box_contentStart data + 8 > box_end data then Inl Structure_invalid
             else rbind (u32be moovBytes (box_contentStart data)) (\<lambda>indicator.
               if indicator \<noteq> 1 then Inr None
               else let valueStart = box_contentStart data + 8 in
                 if box_end data - valueStart > MAX_VALUE_BYTES then Inl Limit_exceeded
                 else Inr (case utf8_decode (subarray moovBytes valueStart (box_end data)) of
                     None \<Rightarrow> None
                   | Some s \<Rightarrow> normalizeContentIdentifier s))))"

definition readKeyedContentIdentifier :: "byte list \<Rightarrow> box_header \<Rightarrow> jstr option parsed" where
  "readKeyedContentIdentifier moovBytes meta =
     rbind (metaChildren moovBytes meta) (\<lambda>children.
       case (List.find (\<lambda>b. box_type b = js ''keys'') children, List.find (\<lambda>b. box_type b = js ''ilst'') children) of
         (Some keys, Some ilst) \<Rightarrow>
           let cursor = box_contentStart keys + 4 in
           rbind (u32be moovBytes cursor) (\<lambda>count.
             let cursor = cursor + 4 in
             if count > MAX_KEYS then Inl Limit_exceeded
             else rbind (find_key moovBytes (box_end keys) (nat count) 1 cursor None) (\<lambda>keyIndex.
               case keyIndex of
                 None \<Rightarrow> Inr None
               | Some k \<Rightarrow> rbind (listBoxes moovBytes (box_contentStart ilst) (box_end ilst) 0) (\<lambda>entries.
                   find_value moovBytes k entries)))
       | _ \<Rightarrow> Inr None)"

fun first_identifier :: "byte list \<Rightarrow> box_header list \<Rightarrow> jstr option parsed" where
  "first_identifier moovBytes [] = Inr None"
| "first_identifier moovBytes (meta # metas) =
     rbind (readKeyedContentIdentifier moovBytes meta) (\<lambda>identifier.
       case identifier of None \<Rightarrow> first_identifier moovBytes metas | Some i \<Rightarrow> Inr (Some i))"

definition readQuickTimeContentIdentifier :: "byte list \<Rightarrow> jstr option parsed" where
  "readQuickTimeContentIdentifier moovBytes =
     rbind (parseBoxHeader moovBytes 0 (int (length moovBytes)) False 0) (\<lambda>moov.
       if box_type moov \<noteq> js ''moov'' then Inl Structure_invalid
       else rbind (listBoxes moovBytes (box_contentStart moov) (box_end moov) 0) (\<lambda>children.
         rbind (rmap (\<lambda>udta. rbind (listBoxes moovBytes (box_contentStart udta) (box_end udta) 0) (\<lambda>boxes.
               Inr (filter (\<lambda>b. box_type b = js ''meta'') boxes)))
             (filter (\<lambda>b. box_type b = js ''udta'') children)) (\<lambda>udta_metas.
           let metas = filter (\<lambda>b. box_type b = js ''meta'') children @ concat udta_metas in
           first_identifier moovBytes (take 4 metas))))"

section \<open>Canonical identifiers\<close>

lemma UUID_PATTERN_units:
  assumes "UUID_PATTERN s" and "c \<in> set s"
  shows "is_digit c \<or> (65 \<le> c \<and> c \<le> 70) \<or> c = 45"
proof -
  have p: "length s = 36" "\<forall>i \<in> set [0..<36]. if i \<in> {8, 13, 18, 23} then s ! i = 45 else is_upper_hex (s ! i)"
    using assms(1) unfolding UUID_PATTERN_def list_all_iff by blast+
  obtain i where i: "i < 36" "s ! i = c" using assms(2) p(1) by (auto simp: in_set_conv_nth)
  then have "if i \<in> {8, 13, 18, 23} then s ! i = 45 else is_upper_hex (s ! i)" using p(2) by (metis atLeast0LessThan lessThan_iff set_upt)
  then show ?thesis using i(2) by (auto simp: is_upper_hex_def simp del: insert_iff split: if_splits)
qed

lemma js_upper_id: "(\<And>c. c \<in> set s \<Longrightarrow> \<not> is_lower c \<and> c \<noteq> 0xFB00) \<Longrightarrow> js_upper s = s"
  by (induction s) (auto simp: js_upper_def upper_units_def ascii_upper_def)

lemma jtrim_id: "s \<noteq> [] \<Longrightarrow> \<not> is_js_space (hd s) \<Longrightarrow> \<not> is_js_space (last s) \<Longrightarrow> jtrim s = s"
  by (simp add: jtrim_def dropWhile_hd_false hd_rev)

lemma normalize_canonical:
  assumes "UUID_PATTERN u"
  shows "normalizeContentIdentifier u = Some u"
proof -
  have "length u = 36" using assms unfolding UUID_PATTERN_def by blast
  then have ne: "u \<noteq> []" by auto
  have u: "\<not> is_lower c \<and> c \<noteq> 0xFB00 \<and> \<not> is_js_space c" if "c \<in> set u" for c
    using UUID_PATTERN_units [OF assms that] by (auto simp: is_lower_def is_js_space_def is_digit_def)
  have "jtrim u = u" using ne u by (intro jtrim_id) auto
  moreover have "js_upper u = u" using u by (intro js_upper_id) auto
  ultimately show ?thesis using assms by (simp add: normalizeContentIdentifier_def)
qed

lemma normalize_Some: "normalizeContentIdentifier v = Some u \<Longrightarrow> UUID_PATTERN u"
  by (auto simp: normalizeContentIdentifier_def Let_def split: if_splits)

text \<open>No identifier, or a canonical one.\<close>

definition canonical :: "jstr option parsed \<Rightarrow> bool" where
  "canonical r \<longleftrightarrow> (case r of Inr (Some u) \<Rightarrow> UUID_PATTERN u | _ \<Rightarrow> True)"

lemma canonical_simps [simp]: "canonical (Inl e)" "canonical (Inr None)" "canonical (Inr (Some u)) = UUID_PATTERN u"
  by (simp_all add: canonical_def)

lemma canonical_bind: "(\<And>x. m = Inr x \<Longrightarrow> canonical (f x)) \<Longrightarrow> canonical (rbind m f)"
  by (cases m) auto

lemma canonical_normalize: "canonical (Inr (normalizeContentIdentifier v))"
  by (cases "normalizeContentIdentifier v") (auto dest: normalize_Some)

lemma canonical_makerNote: "canonical (readAppleMakerNoteContentIdentifier note)"
  by (auto simp: readAppleMakerNoteContentIdentifier_def Let_def canonical_normalize intro!: canonical_bind split: option.split)

lemma canonical_exif: "canonical (readExifContentIdentifier tiff)"
  by (auto simp: readExifContentIdentifier_def canonical_makerNote intro!: canonical_bind split: option.split)

lemma canonical_value: "canonical (find_value bytes k entries)"
  by (induction entries) (auto simp: Let_def canonical_normalize intro!: canonical_bind split: option.split)

lemma canonical_keyed: "canonical (readKeyedContentIdentifier bytes meta)"
  by (auto simp: readKeyedContentIdentifier_def Let_def canonical_value intro!: canonical_bind split: option.split)

lemma canonical_first: "canonical (first_identifier bytes metas)"
proof (induction metas)
  case (Cons meta metas)
  have "canonical (readKeyedContentIdentifier bytes meta)" by (rule canonical_keyed)
  with Cons show ?case by (auto intro!: canonical_bind split: option.split)
qed simp

text \<open>C19: the pairing of a still and a movie compares canonical identifiers. Whatever bytes they are given,
  the JPEG, HEIF and QuickTime readers return an error, nothing, or an upper-case UUID of 36
  characters, and normalising such a UUID again gives itself.\<close>

theorem content_identifiers_canonical:
  "canonical (readJpegContentIdentifier head) \<and> canonical (readHeifContentIdentifier reader) \<and>
   canonical (readQuickTimeContentIdentifier moovBytes) \<and>
   (UUID_PATTERN u = (normalizeContentIdentifier u = Some u))"
  using canonical_exif canonical_first normalize_canonical normalize_Some
  by (auto simp: readJpegContentIdentifier_def readHeifContentIdentifier_def readQuickTimeContentIdentifier_def Let_def
      intro!: canonical_bind split: option.split)

end
