(* ===== verification/Signature.thy ===== *)
theory Signature
  imports MediaBytes
begin

unbundle bit_operations_syntax

text \<open>
  Container detection from leading bytes, PNG animation control and GIF frame counting
  (\<open>services/backend-production/src/publishing/processing/signature.ts\<close>). \<open>sniffSignature\<close> looks at
  the head alone; the PNG walk reads chunk headers through a \<open>ByteReader\<close>; the two GIF loops count their
  blocks up to \<open>GIF_MAX_BLOCKS\<close>.
\<close>

datatype sniffed_media_type = Sniffed_jpeg | Sniffed_png | Sniffed_webp | Sniffed_gif | Sniffed_heic | Sniffed_heif |
  Sniffed_avif | Sniffed_quicktime | Sniffed_mp4 | Sniffed_tiff | Sniffed_raw | Sniffed_unknown

record media_signature =
  sig_type :: sniffed_media_type
  sig_animated :: bool

definition HEIC_BRANDS :: "jstr list" where
  "HEIC_BRANDS = map js [''heic'', ''heix'', ''heim'', ''heis'']"

definition HEIF_SEQUENCE_BRANDS :: "jstr list" where
  "HEIF_SEQUENCE_BRANDS = map js [''msf1'', ''hevc'', ''hevx'', ''hevm'', ''hevs'']"

definition MP4_BRANDS :: "jstr list" where
  "MP4_BRANDS = map js [''isom'', ''iso2'', ''iso3'', ''iso4'', ''iso5'', ''iso6'', ''mp41'', ''mp42'', ''avc1'',
     ''M4V '', ''MSNV'', ''dash'']"

definition RAW_ISOBMFF_BRANDS :: "jstr list" where
  "RAW_ISOBMFF_BRANDS = map js [''crx '']"

definition sniffed :: "sniffed_media_type \<Rightarrow> bool \<Rightarrow> media_signature" where
  "sniffed ty animated = \<lparr>sig_type = ty, sig_animated = animated\<rparr>"

text \<open>The compatible brands from \<open>off\<close> on.\<close>

function more_brands :: "byte list \<Rightarrow> int \<Rightarrow> int \<Rightarrow> jstr list parsed" where
  "more_brands head available off =
     (if off + 4 \<le> available then
        rbind (fourCc head off) (\<lambda>b. rbind (more_brands head available (off + 4)) (\<lambda>bs. Inr (b # bs)))
      else Inr [])"
  by pat_completeness auto
termination by (relation "measure (\<lambda>(_, available, off). nat (available - off))") auto

declare more_brands.simps [simp del]

definition brands_type :: "jstr list \<Rightarrow> media_signature" where
  "brands_type brands =
     (let has = (\<lambda>brand_set. \<exists>b \<in> set brands. b \<in> set brand_set); major = hd brands in
      if major \<in> set RAW_ISOBMFF_BRANDS then sniffed Sniffed_raw False
      else if major = js ''qt  '' then sniffed Sniffed_quicktime False
      else if js ''avis'' \<in> set brands then sniffed Sniffed_avif True
      else if major = js ''avif'' \<or> js ''avif'' \<in> set brands then sniffed Sniffed_avif False
      else if has HEIF_SEQUENCE_BRANDS then sniffed (if has HEIC_BRANDS then Sniffed_heic else Sniffed_heif) True
      else if has HEIC_BRANDS then sniffed Sniffed_heic False
      else if js ''mif1'' \<in> set brands then sniffed Sniffed_heif False
      else if has MP4_BRANDS then sniffed Sniffed_mp4 False
      else if js ''qt  '' \<in> set brands then sniffed Sniffed_quicktime False
      else sniffed Sniffed_unknown False)"

definition sniffFileTypeBox :: "byte list \<Rightarrow> media_signature parsed" where
  "sniffFileTypeBox head =
     rbind (u32be head 0) (\<lambda>box_size.
       if box_size < 16 \<or> box_size mod 4 \<noteq> 0 \<or> box_size > 4096 then Inr (sniffed Sniffed_unknown False)
       else let available = min box_size (int (length head)) in
         rbind (fourCc head 8) (\<lambda>major.
           rbind (more_brands head available 16) (\<lambda>brands. Inr (brands_type (major # brands)))))"

definition sniffSignature :: "byte list \<Rightarrow> media_signature parsed" where
  "sniffSignature head =
     (let n = length head in
      if n \<ge> 3 \<and> byte_at head 0 = 0xff \<and> byte_at head 1 = 0xd8 then
        Inr (if byte_at head 2 = 0xff then sniffed Sniffed_jpeg False else sniffed Sniffed_unknown False)
      else if n \<ge> 8 \<and> byte_at head 0 = 0x89 \<and> asciiEquals head 1 (js ''PNG'' @ [13, 10, 26, 10]) then
        Inr (sniffed Sniffed_png False)
      else if asciiEquals head 0 (js ''GIF87a'') \<or> asciiEquals head 0 (js ''GIF89a'') then
        Inr (sniffed Sniffed_gif False)
      else if asciiEquals head 0 (js ''RIFF'') \<and> asciiEquals head 8 (js ''WEBP'') then
        Inr (sniffed Sniffed_webp (asciiEquals head 12 (js ''VP8X'') \<and> n > 20 \<and> byte_at head 20 AND 0x02 \<noteq> 0))
      else if n \<ge> 12 \<and> asciiEquals head 4 (js ''ftyp'') then sniffFileTypeBox head
      else if asciiEquals head 0 (js ''II*'' @ [0]) \<or> asciiEquals head 0 (js ''MM'' @ [0] @ js ''*'') \<or>
         asciiEquals head 0 (js ''II+'' @ [0]) \<or> asciiEquals head 0 (js ''MM'' @ [0] @ js ''+'') then
        Inr (sniffed Sniffed_tiff False)
      else if asciiEquals head 0 (js ''IIRO'') \<or> asciiEquals head 0 (js ''IIRS'') \<or>
         asciiEquals head 0 (js ''IIU'' @ [0]) \<or> asciiEquals head 0 (js ''FUJIFILMCCD-RAW'') then
        Inr (sniffed Sniffed_raw False)
      else Inr (sniffed Sniffed_unknown False))"

section \<open>PNG\<close>

definition PNG_MAX_CHUNKS_BEFORE_IMAGE_DATA :: nat where "PNG_MAX_CHUNKS_BEFORE_IMAGE_DATA = 4096"
definition PNG_MAX_CHUNK_LENGTH :: int where "PNG_MAX_CHUNK_LENGTH = 0x7fffffff"

function png_loop :: "byte_reader \<Rightarrow> nat \<Rightarrow> int \<Rightarrow> bool parsed" where
  "png_loop reader index off =
     (if index < PNG_MAX_CHUNKS_BEFORE_IMAGE_DATA then
        rbind (rdr_read reader off 8) (\<lambda>header.
          rbind (u32be header 0) (\<lambda>len.
            rbind (fourCc header 4) (\<lambda>ty.
              if len > PNG_MAX_CHUNK_LENGTH \<or> \<not> (length ty = 4 \<and> list_all is_alpha ty) then Inl Structure_invalid
              else if index = 0 \<and> ty \<noteq> js ''IHDR'' then Inl Structure_invalid
              else if ty = js ''acTL'' then Inr True
              else if ty = js ''IDAT'' then Inr False
              else if ty = js ''IEND'' then Inl Structure_invalid
              else if off + (12 + len) > rdr_size reader then Inl Truncated
              else png_loop reader (Suc index) (off + (12 + len)))))
      else Inl Limit_exceeded)"
  by pat_completeness auto
termination by (relation "measure (\<lambda>(_, index, _). PNG_MAX_CHUNKS_BEFORE_IMAGE_DATA - index)") auto

declare png_loop.simps [simp del]

definition pngHasAnimationControl :: "byte_reader \<Rightarrow> bool parsed" where
  "pngHasAnimationControl reader = png_loop reader 0 8"

section \<open>GIF\<close>

definition GIF_MAX_BLOCKS :: nat where "GIF_MAX_BLOCKS = 100000"

function skip_sub_blocks :: "byte list \<Rightarrow> nat \<Rightarrow> int \<Rightarrow> int parsed" where
  "skip_sub_blocks bytes blocks cursor =
     (if blocks < GIF_MAX_BLOCKS then
        if cursor \<ge> int (length bytes) then Inl Truncated
        else let len = byte_at bytes cursor; cursor = cursor + (1 + len) in
          if len = 0 then Inr cursor else skip_sub_blocks bytes (Suc blocks) cursor
      else Inl Limit_exceeded)"
  by pat_completeness auto
termination by (relation "measure (\<lambda>(_, blocks, _). GIF_MAX_BLOCKS - blocks)") auto

declare skip_sub_blocks.simps [simp del]

definition skipGifSubBlocks :: "byte list \<Rightarrow> int \<Rightarrow> int parsed" where
  "skipGifSubBlocks bytes off = skip_sub_blocks bytes 0 off"

text \<open>The size of the colour table a flags byte announces.\<close>

definition color_table :: "int \<Rightarrow> int" where
  "color_table flags = (if flags AND 0x80 \<noteq> 0 then 3 * js_shl 1 (nat ((flags AND 0x07) + 1)) else 0)"

function gif_loop :: "byte list \<Rightarrow> int \<Rightarrow> nat \<Rightarrow> int \<Rightarrow> int \<Rightarrow> int parsed" where
  "gif_loop bytes stopAt blocks cursor frames =
     (if blocks < GIF_MAX_BLOCKS then
        if cursor \<ge> int (length bytes) then Inl Truncated
        else let introducer = byte_at bytes cursor in
          if introducer = 0x3b then Inr frames
          else if introducer = 0x21 then
            rbind (skipGifSubBlocks bytes (cursor + 2)) (\<lambda>cursor. gif_loop bytes stopAt (Suc blocks) cursor frames)
          else if introducer = 0x2c then
            let frames = frames + 1 in
            if frames \<ge> stopAt then Inr frames
            else if cursor + 10 > int (length bytes) then Inl Truncated
            else let localFlags = byte_at bytes (cursor + 9); cursor = cursor + 10 + color_table localFlags in
              rbind (skipGifSubBlocks bytes (cursor + 1)) (\<lambda>cursor. gif_loop bytes stopAt (Suc blocks) cursor frames)
          else Inl Structure_invalid
      else Inl Limit_exceeded)"
  by pat_completeness auto
termination by (relation "measure (\<lambda>(_, _, blocks, _, _). GIF_MAX_BLOCKS - blocks)") auto

declare gif_loop.simps [simp del]

definition countGifFrames :: "byte list \<Rightarrow> int \<Rightarrow> int parsed" where
  "countGifFrames bytes stopAt =
     (if \<not> (asciiEquals bytes 0 (js ''GIF87a'') \<or> asciiEquals bytes 0 (js ''GIF89a'')) \<or> length bytes < 13
      then Inl Structure_invalid
      else gif_loop bytes stopAt 0 (13 + color_table (byte_at bytes 10)) 0)"

section \<open>Declared types\<close>

definition declaredTypeMatches :: "jstr \<Rightarrow> sniffed_media_type \<Rightarrow> bool" where
  "declaredTypeMatches declared detected = (case detected of
       Sniffed_jpeg \<Rightarrow> declared = js ''image/jpeg''
     | Sniffed_png \<Rightarrow> declared = js ''image/png''
     | Sniffed_webp \<Rightarrow> declared = js ''image/webp''
     | Sniffed_heic \<Rightarrow> declared = js ''image/heic'' \<or> declared = js ''image/heif''
     | Sniffed_heif \<Rightarrow> declared = js ''image/heic'' \<or> declared = js ''image/heif''
     | Sniffed_quicktime \<Rightarrow> declared = js ''video/quicktime'' \<or> declared = js ''video/mp4''
     | Sniffed_mp4 \<Rightarrow> declared = js ''video/quicktime'' \<or> declared = js ''video/mp4''
     | _ \<Rightarrow> False)"

section \<open>What the sniffer sees\<close>

lemma asciiEquals_iff:
  "asciiEquals bytes off text \<longleftrightarrow> 0 \<le> off \<and> off + int (length text) \<le> int (length bytes) \<and>
     map unat (bytes_at bytes off (length text)) = text"
proof (cases "0 \<le> off \<and> off + int (length text) \<le> int (length bytes)")
  case True
  have b: "byte_at bytes (off + int i) = int (text ! i) \<longleftrightarrow> unat (bytes ! (nat off + i)) = text ! i"
    if "i < length text" for i
  proof -
    have "byte_at bytes (off + int i) = uint (bytes ! (nat off + i))"
      using True that byte_at_bounds(3) [of "off + int i" bytes] by (simp add: nat_add_distrib)
    then show ?thesis unfolding uint_nat by (simp only: of_nat_eq_iff)
  qed
  have "asciiEquals bytes off text \<longleftrightarrow> (\<forall>i < length text. byte_at bytes (off + int i) = int (text ! i))"
    using True by (auto simp: asciiEquals_def list_all_iff)
  also have "\<dots> \<longleftrightarrow> (\<forall>i < length text. unat (bytes ! (nat off + i)) = text ! i)" using b by blast
  also have "\<dots> \<longleftrightarrow> map unat (bytes_at bytes off (length text)) = text"
  proof -
    have "bytes_at bytes off (length text) = map (\<lambda>i. bytes ! (nat off + i)) [0..<length text]"
      using True by (intro bytes_at_eq) auto
    then show ?thesis unfolding list_eq_iff_nth_eq [of _ "text"] by simp
  qed
  finally show ?thesis using True by simp
qed (auto simp: asciiEquals_def)

lemma asciiEquals_conj:
  "asciiEquals bytes off text \<longleftrightarrow> 0 \<le> off \<and> off + int (length text) \<le> int (length bytes) \<and>
     list_all (\<lambda>i. byte_at bytes (off + int i) = int (text ! i)) [0..<length text]"
  by (simp add: asciiEquals_def)

lemma map_unat_eq_iff: "map unat xs = map unat ys \<longleftrightarrow> xs = (ys :: byte list)"
  by (rule inj_map_eq_map) (simp add: inj_on_def word_unat_eq_iff)

lemma take_ascii: "length xs = n \<Longrightarrow> take n head = xs \<longleftrightarrow> asciiEquals head 0 (map unat xs)"
proof -
  assume n: "length xs = n"
  have "take (length xs) head = xs \<Longrightarrow> length xs \<le> length head" by (metis length_take min.cobounded1)
  then show ?thesis unfolding asciiEquals_iff n [symmetric] by (auto simp: map_unat_eq_iff bytes_at_def)
qed

text \<open>ASCII text as bytes.\<close>

definition ascii_bytes :: "string \<Rightarrow> byte list" where
  "ascii_bytes s = map (\<lambda>c. word_of_nat (of_char c)) s"

lemma length_ascii_bytes [simp]: "length (ascii_bytes s) = length s"
  by (simp add: ascii_bytes_def)

lemma unat_ascii_bytes: "map unat (ascii_bytes s) = js s"
proof -
  have "unat (word_of_nat (of_char c) :: byte) = of_char c" for c :: char
    by (simp add: unat_of_nat of_char_mod_256 take_bit_eq_mod)
  then show ?thesis by (simp add: ascii_bytes_def js_def)
qed

lemma asciiEquals_js:
  "asciiEquals bytes off (js s) \<longleftrightarrow> 0 \<le> off \<and> off + int (length s) \<le> int (length bytes) \<and>
     bytes_at bytes off (length s) = ascii_bytes s"
  unfolding asciiEquals_iff by (simp flip: unat_ascii_bytes add: map_unat_eq_iff)

lemma bytes_at_0: "bytes_at bytes 0 n = take n bytes"
  by (simp add: bytes_at_def)

lemma more_brands_total: "0 \<le> off \<Longrightarrow> available \<le> int (length head) \<Longrightarrow> \<exists>bs. more_brands head available off = Inr bs"
proof (induction head available off rule: more_brands.induct)
  case (1 head available off)
  then show ?case
    by (cases "off + 4 \<le> available") (auto simp: more_brands.simps [of _ _ off] fourCc_def rbind_Inr_iff)
qed

lemma sniffFileTypeBox_total: "12 \<le> length head \<Longrightarrow> \<exists>s. sniffFileTypeBox head = Inr s"
  using more_brands_total [of 16 _ head]
  by (auto simp: sniffFileTypeBox_def u32be_value fourCc_def rbind_Inr_iff Let_def)

lemma brands_type_family:
  "sig_type (brands_type bs) \<in> {Sniffed_raw, Sniffed_quicktime, Sniffed_avif, Sniffed_heic, Sniffed_heif, Sniffed_mp4, Sniffed_unknown}"
  by (auto simp: brands_type_def sniffed_def Let_def)

lemma sniffFileTypeBox_family:
  "sniffFileTypeBox head = Inr s \<Longrightarrow>
     sig_type s \<in> {Sniffed_raw, Sniffed_quicktime, Sniffed_avif, Sniffed_heic, Sniffed_heif, Sniffed_mp4, Sniffed_unknown}"
  using brands_type_family by (auto simp: sniffFileTypeBox_def Let_def rbind_Inr_iff sniffed_def split: if_splits)

definition is_ftyp :: "byte list \<Rightarrow> bool" where
  "is_ftyp head \<longleftrightarrow> 12 \<le> length head \<and> bytes_at head 4 4 = ascii_bytes ''ftyp''"

lemma declared_families:
  "declaredTypeMatches (js ''image/jpeg'') t \<longleftrightarrow> t = Sniffed_jpeg"
  "declaredTypeMatches (js ''image/png'') t \<longleftrightarrow> t = Sniffed_png"
  "declaredTypeMatches (js ''image/webp'') t \<longleftrightarrow> t = Sniffed_webp"
  "declaredTypeMatches (js ''image/heic'') t \<longleftrightarrow> t = Sniffed_heic \<or> t = Sniffed_heif"
  "declaredTypeMatches (js ''image/heif'') t \<longleftrightarrow> t = Sniffed_heic \<or> t = Sniffed_heif"
  "declaredTypeMatches (js ''video/mp4'') t \<longleftrightarrow> t = Sniffed_quicktime \<or> t = Sniffed_mp4"
  "declaredTypeMatches (js ''video/quicktime'') t \<longleftrightarrow> t = Sniffed_quicktime \<or> t = Sniffed_mp4"
  by (cases t; simp add: declaredTypeMatches_def js_def)+

lemma ftyp_family_declared:
  assumes "sig_type s \<in> {Sniffed_raw, Sniffed_quicktime, Sniffed_avif, Sniffed_heic, Sniffed_heif, Sniffed_mp4, Sniffed_unknown}"
    and "is_ftyp head" and "\<not> A" and "\<not> P" and "\<not> W"
  shows "(declaredTypeMatches (js ''image/jpeg'') (sig_type s) \<longleftrightarrow> A \<and> B) \<and>
     (declaredTypeMatches (js ''image/png'') (sig_type s) \<longleftrightarrow> P) \<and>
     (declaredTypeMatches (js ''image/webp'') (sig_type s) \<longleftrightarrow> W) \<and>
     (\<exists>declared \<in> {js ''image/heic'', js ''image/heif'', js ''video/mp4'', js ''video/quicktime''}.
        declaredTypeMatches declared (sig_type s) \<and> \<not> is_ftyp head) = False"
  using assms by (auto simp: declared_families)

text \<open>C18: sniffing never throws, and what a declared type may be matched with is decided by the leading
  bytes: JPEG exactly by \<open>FF D8 FF\<close>, PNG exactly by its eight-byte signature, WebP exactly by \<open>RIFF\<close>
  and \<open>WEBP\<close>, while a HEIC, HEIF or video declaration is only ever matched by an \<open>ftyp\<close> box, which
  no JPEG, PNG or WebP declaration matches.\<close>

theorem declared_type_sound:
  "\<exists>s. sniffSignature head = Inr s \<and>
     (declaredTypeMatches (js ''image/jpeg'') (sig_type s) \<longleftrightarrow> take 3 head = [0xff, 0xd8, 0xff]) \<and>
     (declaredTypeMatches (js ''image/png'') (sig_type s) \<longleftrightarrow> take 8 head = [0x89] @ ascii_bytes ''PNG'' @ [13, 10, 26, 10]) \<and>
     (declaredTypeMatches (js ''image/webp'') (sig_type s) \<longleftrightarrow>
        take 4 head = ascii_bytes ''RIFF'' \<and> bytes_at head 8 4 = ascii_bytes ''WEBP'') \<and>
     (\<exists>declared \<in> {js ''image/heic'', js ''image/heif'', js ''video/mp4'', js ''video/quicktime''}.
        declaredTypeMatches declared (sig_type s) \<and> \<not> is_ftyp head) = False"
proof -
  let ?n = "length head" and ?b = "byte_at head"
  let ?A = "?n \<ge> 3 \<and> ?b 0 = 0xff \<and> ?b 1 = 0xd8"
  let ?P = "?n \<ge> 8 \<and> ?b 0 = 0x89 \<and> asciiEquals head 1 (js ''PNG'' @ [13, 10, 26, 10])"
  let ?G = "asciiEquals head 0 (js ''GIF87a'') \<or> asciiEquals head 0 (js ''GIF89a'')"
  let ?W = "asciiEquals head 0 (js ''RIFF'') \<and> asciiEquals head 8 (js ''WEBP'')"
  have hd0: "?b 0 = uint (hd head)" if "head \<noteq> []" using that by (simp add: byte_at_def hd_conv_nth)
  have j: "take 3 head = [0xff, 0xd8, 0xff] \<longleftrightarrow> ?A \<and> ?b 2 = 0xff"
    by (subst take_ascii) (simp_all add: asciiEquals_conj upt_rec)
  have p: "take 8 head = [0x89] @ ascii_bytes ''PNG'' @ [13, 10, 26, 10] \<longleftrightarrow> ?P"
    by (subst take_ascii) (simp_all add: asciiEquals_conj upt_rec unat_ascii_bytes js_def, auto)
  have w: "take 4 head = ascii_bytes ''RIFF'' \<and> bytes_at head 8 4 = ascii_bytes ''WEBP'' \<longleftrightarrow> ?W"
  proof -
    have l: "length ''WEBP'' = 4" by simp
    have "bytes_at head 8 4 = ascii_bytes ''WEBP'' \<Longrightarrow> length (take 4 (drop 8 head)) = 4"
      unfolding bytes_at_def by simp
    then have "bytes_at head 8 4 = ascii_bytes ''WEBP'' \<longleftrightarrow> asciiEquals head 8 (js ''WEBP'')"
      unfolding asciiEquals_js l by auto
    moreover have "take 4 head = ascii_bytes ''RIFF'' \<longleftrightarrow> asciiEquals head 0 (js ''RIFF'')"
      using take_ascii [of "ascii_bytes ''RIFF''" 4 head] by (simp add: unat_ascii_bytes)
    ultimately show ?thesis by simp
  qed
  have g0: "?G \<Longrightarrow> ?b 0 = 71" and w0: "?W \<Longrightarrow> ?b 0 = 82"
    unfolding asciiEquals_conj by (auto simp: js_def upt_rec)
  consider "?A" | "\<not> ?A" "?P" | "\<not> ?A" "\<not> ?P" "?G" | "\<not> ?A" "\<not> ?P" "\<not> ?G" "?W" | "\<not> ?A" "\<not> ?P" "\<not> ?G" "\<not> ?W"
    by blast
  then show ?thesis
  proof cases
    case 1
    then have "\<not> ?P" "\<not> ?W" using w0 by auto
    moreover have "sniffSignature head = Inr (if ?b 2 = 0xff then sniffed Sniffed_jpeg False else sniffed Sniffed_unknown False)"
      unfolding sniffSignature_def Let_def if_P [OF 1] ..
    ultimately show ?thesis using 1 unfolding j p w by (simp add: sniffed_def declared_families)
  next
    case 2
    then have "\<not> ?W" using w0 by auto
    moreover have "sniffSignature head = Inr (sniffed Sniffed_png False)"
      unfolding sniffSignature_def Let_def if_not_P [OF 2(1)] if_P [OF 2(2)] ..
    ultimately show ?thesis using 2 unfolding j p w by (simp add: sniffed_def declared_families)
  next
    case 3
    then have "\<not> ?W" using w0 g0 by auto
    moreover have "sniffSignature head = Inr (sniffed Sniffed_gif False)"
      unfolding sniffSignature_def Let_def if_not_P [OF 3(1)] if_not_P [OF 3(2)] if_P [OF 3(3)] ..
    ultimately show ?thesis using 3 unfolding j p w by (auto simp: sniffed_def declared_families)
  next
    case 4
    have "\<exists>a. sniffSignature head = Inr (sniffed Sniffed_webp a)"
      unfolding sniffSignature_def Let_def if_not_P [OF 4(1)] if_not_P [OF 4(2)] if_not_P [OF 4(3)] if_P [OF 4(4)] by blast
    with 4 show ?thesis unfolding j p w by (auto simp: sniffed_def declared_families)
  next
    case 5
    show ?thesis
    proof (cases "?n \<ge> 12 \<and> asciiEquals head 4 (js ''ftyp'')")
      case True
      then obtain s where s: "sniffFileTypeBox head = Inr s" using sniffFileTypeBox_total by auto
      have l: "length ''ftyp'' = 4" by simp
      have "is_ftyp head" using True unfolding is_ftyp_def asciiEquals_js l by simp
      moreover have "sniffSignature head = Inr s"
        unfolding sniffSignature_def Let_def if_not_P [OF 5(1)] if_not_P [OF 5(2)] if_not_P [OF 5(3)] if_not_P [OF 5(4)]
          if_P [OF True] s ..
      ultimately show ?thesis
        unfolding j p w using ftyp_family_declared [OF sniffFileTypeBox_family [OF s] _ 5(1,2,4)] by blast
    next
      case False
      have "\<exists>t \<in> {Sniffed_tiff, Sniffed_raw, Sniffed_unknown}. sniffSignature head = Inr (sniffed t False)"
        unfolding sniffSignature_def Let_def if_not_P [OF 5(1)] if_not_P [OF 5(2)] if_not_P [OF 5(3)] if_not_P [OF 5(4)]
          if_not_P [OF False] by simp
      with 5 show ?thesis unfolding j p w by (auto simp: sniffed_def declared_families)
    qed
  qed
qed

section \<open>File type boxes\<close>

lemma u32be_split: "length xs = 4 \<Longrightarrow> off = int (length pre) \<Longrightarrow> u32be (pre @ xs @ post) off = Inr (be_value xs)"
  by (simp add: u32be_value bytes_at_def)

lemma fourCc_split: "length xs = 4 \<Longrightarrow> off = int (length pre) \<Longrightarrow> fourCc (pre @ xs @ post) off = Inr (map unat xs)"
  by (simp add: fourCc_value bytes_at_def)

lemma more_brands_split:
  assumes "list_all (\<lambda>c. length c = 4) cs" and "off = int (length pre)"
    and "off + 4 * int (length cs) \<le> available" and "available < off + 4 * int (length cs) + 4"
  shows "more_brands (pre @ concat cs @ post) available off = Inr (map (map unat) cs)"
  using assms
proof (induction cs arbitrary: pre off)
  case Nil
  then show ?case by (subst more_brands.simps) simp
next
  case (Cons c cs)
  have "fourCc (pre @ concat (c # cs) @ post) off = Inr (map unat c)"
    using fourCc_split [of c off pre "concat cs @ post"] Cons.prems by simp
  moreover have "more_brands (pre @ concat (c # cs) @ post) available (off + 4) = Inr (map (map unat) cs)"
    using Cons.IH [of "off + 4" "pre @ c"] Cons.prems by simp
  ultimately show ?case using Cons.prems by (subst more_brands.simps) simp
qed

definition ftyp_head :: "int \<Rightarrow> byte list \<Rightarrow> byte list \<Rightarrow> byte list list \<Rightarrow> byte list \<Rightarrow> byte list" where
  "ftyp_head box_size major minor cs rest =
     be_bytes 4 box_size @ ascii_bytes ''ftyp'' @ major @ minor @ concat cs @ rest"

lemma ftyp_head_first:
  assumes "0 \<le> box_size" and "box_size \<le> 4096"
  shows "byte_at (ftyp_head box_size major minor cs rest) 0 = 0"
proof -
  have "hd (be_bytes 4 box_size) = 0" using assms by (simp add: numeral_eq_Suc)
  then show ?thesis by (simp add: ftyp_head_def byte_at_def nth_append flip: hd_conv_nth) (simp add: numeral_eq_Suc)
qed

lemma sniff_ftyp:
  assumes "length major = 4" and "length minor = 4" and "list_all (\<lambda>c. length c = 4) cs"
    and "16 \<le> box_size" and "box_size \<le> 4096" and "box_size mod 4 = 0"
    and "min box_size (int (length (ftyp_head box_size major minor cs rest))) div 4 = 4 + int (length cs)"
  shows "sniffSignature (ftyp_head box_size major minor cs rest) = Inr (brands_type (map (map unat) (major # cs)))"
proof -
  let ?h = "ftyp_head box_size major minor cs rest"
  have b0: "byte_at ?h 0 = 0" using ftyp_head_first assms(4,5) by auto
  have na: "\<not> asciiEquals ?h 0 (c # t)" if "c \<noteq> 0" for c t
    using that b0 unfolding asciiEquals_conj by (simp add: upt_rec)
  have len: "length ?h \<ge> 16" using assms(1,2) by (simp add: ftyp_head_def)
  have f: "asciiEquals ?h 4 (js ''ftyp'')"
    using len unfolding asciiEquals_js by (simp add: ftyp_head_def bytes_at_def)
  have s: "sniffSignature ?h = sniffFileTypeBox ?h"
    using b0 f len na by (simp add: sniffSignature_def js_def)
  have "u32be ?h 0 = Inr (be_value (be_bytes 4 box_size))" unfolding ftyp_head_def by (rule u32be_split [of _ _ "[]", simplified]) auto
  then have u: "u32be ?h 0 = Inr box_size" using assms(4,5) by (simp add: be_value_be_bytes)
  have m: "fourCc ?h 8 = Inr (map unat major)"
    using fourCc_split [of major 8 "be_bytes 4 box_size @ ascii_bytes ''ftyp''" "minor @ concat cs @ rest"] assms(1)
    by (simp add: ftyp_head_def)
  have "16 + 4 * int (length cs) \<le> min box_size (int (length ?h))" "min box_size (int (length ?h)) < 20 + 4 * int (length cs)"
    using assms(7) by linarith+
  then have "more_brands ?h (min box_size (int (length ?h))) 16 = Inr (map (map unat) cs)"
    using more_brands_split [of cs 16 "be_bytes 4 box_size @ ascii_bytes ''ftyp'' @ major @ minor"
        "min box_size (int (length ?h))" rest] assms(1-3)
    by (simp add: ftyp_head_def)
  then show ?thesis using assms(4-6) unfolding s by (simp add: sniffFileTypeBox_def u m Let_def)
qed

text \<open>An \<open>ftyp\<close> box is classified by its brands. For a head that begins with an \<open>ftyp\<close> box of a
  plausible size, the major brand and exactly the compatible brands that lie completely in both the box
  and the head decide, by the precedence of \<open>brands_type\<close>; the minor version and what follows do not
  matter.\<close>

theorem ftyp_brands:
  assumes "length major = 4" and "length minor = 4" and "list_all (\<lambda>c. length c = 4) cs"
    and "16 \<le> box_size" and "box_size \<le> 4096" and "box_size mod 4 = 0"
    and "min box_size (int (length (ftyp_head box_size major minor cs rest))) div 4 = 4 + int (length cs)"
  shows "sniffSignature (ftyp_head box_size major minor cs rest) = Inr (brands_type (map (map unat) (major # cs)))"
  by (rule sniff_ftyp [OF assms])

theorem ftyp_brands_witness:
  "sniffSignature (ftyp_head 24 (ascii_bytes ''mif1'') [0, 0, 0, 0] [ascii_bytes ''heic'', ascii_bytes ''hevc''] []) =
     Inr (sniffed Sniffed_heic True)"
proof -
  have "sniffSignature (ftyp_head 24 (ascii_bytes ''mif1'') [0, 0, 0, 0] [ascii_bytes ''heic'', ascii_bytes ''hevc''] []) =
     Inr (brands_type (map (map unat) (ascii_bytes ''mif1'' # [ascii_bytes ''heic'', ascii_bytes ''hevc''])))"
    by (rule ftyp_brands) (simp_all add: ftyp_head_def)
  then show ?thesis
    by (simp add: unat_ascii_bytes brands_type_def js_def RAW_ISOBMFF_BRANDS_def HEIF_SEQUENCE_BRANDS_def HEIC_BRANDS_def)
qed

section \<open>PNG chunks\<close>

text \<open>A chunk: type, data and checksum.\<close>

type_synonym png_chunk = "byte list \<times> byte list \<times> byte list"

fun chunk_ok :: "png_chunk \<Rightarrow> bool" where
  "chunk_ok (ty, data, crc) \<longleftrightarrow> length ty = 4 \<and> list_all is_alpha (map unat ty) \<and> length data \<le> 0x7fffffff \<and> length crc = 4"

fun encode_chunk :: "png_chunk \<Rightarrow> byte list" where
  "encode_chunk (ty, data, crc) = be_bytes 4 (int (length data)) @ ty @ data @ crc"

context byte_source begin

lemma read_at:
  assumes "content = pre @ xs @ post" and "int (length content) \<le> MAX_SAFE_INTEGER"
    and "off = int (length pre)" and "n = int (length xs)"
  shows "rdr_read rd off n = Inr xs"
  using assms by (simp add: read_content assertRange_def is_safe_integer_def MAX_SAFE_INTEGER_def)

lemma png_loop_step:
  assumes "content = pre @ encode_chunk (ty, data, crc) @ post" and "chunk_ok (ty, data, crc)"
    and "int (length content) \<le> MAX_SAFE_INTEGER" and "off = int (length pre)"
    and "index < PNG_MAX_CHUNKS_BEFORE_IMAGE_DATA" and "index = 0 \<longrightarrow> map unat ty = js ''IHDR''"
  shows "png_loop rd index off =
    (if map unat ty = js ''acTL'' then Inr True
     else if map unat ty = js ''IDAT'' then Inr False
     else if map unat ty = js ''IEND'' then Inl Structure_invalid
     else png_loop rd (Suc index) (off + 12 + int (length data)))"
proof -
  let ?h = "be_bytes 4 (int (length data)) @ ty"
  have r: "rdr_read rd off 8 = Inr ?h"
    by (rule read_at [OF _ assms(3,4), where post = "data @ crc @ post"]) (use assms(1,2) in auto)
  have u: "u32be ?h 0 = Inr (int (length data))"
    using u32be_split [of "be_bytes 4 (int (length data))" 0 "[]" ty] assms(2) by (simp add: be_value_be_bytes)
  have f: "fourCc ?h 4 = Inr (map unat ty)"
    using fourCc_split [of ty 4 "be_bytes 4 (int (length data))" "[]"] assms(2) by simp
  have "int (length content) = off + 12 + int (length data) + int (length post)" using assms(1,2,4) by simp
  then show ?thesis
    using assms(2,5,6) r u f size_content
    by (cases "index = 0"; subst png_loop.simps) (simp_all add: PNG_MAX_CHUNK_LENGTH_def add.assoc)
qed

lemma png_loop_chunks:
  assumes "content = pre @ concat (map encode_chunk cs) @ encode_chunk c @ post" and "list_all chunk_ok (cs @ [c])"
    and "int (length content) \<le> MAX_SAFE_INTEGER" and "off = int (length pre)"
    and "index + length cs < PNG_MAX_CHUNKS_BEFORE_IMAGE_DATA"
    and "index = 0 \<longrightarrow> map unat (fst (hd (cs @ [c]))) = js ''IHDR''"
    and "list_all (\<lambda>x. map unat (fst x) \<notin> {js ''acTL'', js ''IDAT'', js ''IEND''}) cs"
    and "map unat (fst c) \<in> {js ''acTL'', js ''IDAT''}"
  shows "png_loop rd index off = Inr (map unat (fst c) = js ''acTL'')"
  using assms
proof (induction cs arbitrary: pre index off)
  case Nil
  obtain ty data crc where c: "c = (ty, data, crc)" by (cases c) auto
  show ?case
    using png_loop_step [of pre ty data crc post off index] Nil.prems by (auto simp: c)
next
  case (Cons x cs)
  obtain ty data crc where x: "x = (ty, data, crc)" by (cases x) auto
  have "png_loop rd index off = png_loop rd (Suc index) (off + 12 + int (length data))"
    using png_loop_step [of pre ty data crc "concat (map encode_chunk cs) @ encode_chunk c @ post" off index] Cons.prems
    by (simp add: x)
  also have "\<dots> = Inr (map unat (fst c) = js ''acTL'')"
    by (rule Cons.IH [of "pre @ encode_chunk x"]) (use Cons.prems x in auto)
  finally show ?case .
qed

end

text \<open>On a well-formed PNG that starts with \<open>IHDR\<close>, \<open>pngHasAnimationControl\<close> tells whether the first
  of its \<open>acTL\<close> and \<open>IDAT\<close> chunks is an \<open>acTL\<close>: true exactly for an animated PNG, whatever the other
  chunks before it (fewer than 4096) and whatever follows it in the file.\<close>

theorem png_animation_decided:
  assumes "length signature = 8" and "content = signature @ concat (map encode_chunk cs) @ encode_chunk c @ rest"
    and "list_all chunk_ok (cs @ [c])" and "int (length content) \<le> MAX_SAFE_INTEGER" and "length cs < 4096"
    and "map unat (fst (hd (cs @ [c]))) = js ''IHDR''"
    and "list_all (\<lambda>x. map unat (fst x) \<notin> {js ''acTL'', js ''IDAT'', js ''IEND''}) cs"
    and "map unat (fst c) \<in> {js ''acTL'', js ''IDAT''}"
  shows "pngHasAnimationControl (bufferByteReader content) = Inr (map unat (fst c) = js ''acTL'')"
  unfolding pngHasAnimationControl_def
  by (rule buffer.png_loop_chunks [OF assms(2,3,4) _ _ _ assms(7,8)])
    (use assms(1,5,6) in \<open>auto simp: PNG_MAX_CHUNKS_BEFORE_IMAGE_DATA_def\<close>)

theorem png_animation_decided_witness:
  "pngHasAnimationControl (bufferByteReader ([1, 2, 3, 4, 5, 6, 7, 8] @
     concat (map encode_chunk [(ascii_bytes ''IHDR'', [9], [0, 0, 0, 0])]) @
     encode_chunk (ascii_bytes ''acTL'', [], [0, 0, 0, 0]) @ [7])) = Inr True"
proof -
  have "pngHasAnimationControl (bufferByteReader ([1, 2, 3, 4, 5, 6, 7, 8] @
     concat (map encode_chunk [(ascii_bytes ''IHDR'', [9], [0, 0, 0, 0])]) @
     encode_chunk (ascii_bytes ''acTL'', [], [0, 0, 0, 0]) @ [7])) =
     Inr (map unat (fst (ascii_bytes ''acTL'', [] :: byte list, [0, 0, 0, 0] :: byte list)) = js ''acTL'')"
    by (rule png_animation_decided [OF _ refl])
      (simp_all add: unat_ascii_bytes MAX_SAFE_INTEGER_def, simp_all add: js_def is_alpha_def is_upper_def is_lower_def)
  then show ?thesis by (simp add: unat_ascii_bytes)
qed

section \<open>GIF streams\<close>

text \<open>Data sub-blocks and the blocks of a stream, as a writer has them.\<close>

definition encode_sub_blocks :: "byte list list \<Rightarrow> byte list" where
  "encode_sub_blocks ds = concat (map (\<lambda>d. word_of_nat (length d) # d) ds) @ [0]"

definition sub_blocks_ok :: "byte list list \<Rightarrow> bool" where
  "sub_blocks_ok ds \<longleftrightarrow> list_all (\<lambda>d. 0 < length d \<and> length d < 256) ds \<and> length ds < 100000"

datatype gif_block =
    Gif_extension byte "byte list list"
  | Gif_image "byte list" byte "byte list" byte "byte list list"

fun encode_gif_block :: "gif_block \<Rightarrow> byte list" where
  "encode_gif_block (Gif_extension label ds) = 0x21 # label # encode_sub_blocks ds"
| "encode_gif_block (Gif_image frame flags table lzw ds) = 0x2c # frame @ flags # table @ lzw # encode_sub_blocks ds"

fun gif_block_ok :: "gif_block \<Rightarrow> bool" where
  "gif_block_ok (Gif_extension label ds) = sub_blocks_ok ds"
| "gif_block_ok (Gif_image frame flags table lzw ds) =
     (length frame = 8 \<and> int (length table) = color_table (uint flags) \<and> sub_blocks_ok ds)"

fun is_image :: "gif_block \<Rightarrow> bool" where
  "is_image (Gif_image frame flags table lzw ds) = True"
| "is_image (Gif_extension label ds) = False"

lemma byte_at_split: "off = int (length pre) \<Longrightarrow> byte_at (pre @ b # post) off = uint b"
  by (simp add: byte_at_def)

lemma skip_sub_blocks_split:
  assumes "list_all (\<lambda>d. 0 < length d \<and> length d < 256) ds" and "blocks + length ds < GIF_MAX_BLOCKS"
    and "off = int (length pre)"
  shows "skip_sub_blocks (pre @ encode_sub_blocks ds @ post) blocks off = Inr (off + int (length (encode_sub_blocks ds)))"
  using assms
proof (induction ds arbitrary: pre off blocks)
  case Nil
  then show ?case
    by (subst skip_sub_blocks.simps) (simp add: encode_sub_blocks_def byte_at_split)
next
  case (Cons d ds)
  let ?n = "word_of_nat (length d) :: byte"
  have n: "uint ?n = int (length d)" using Cons.prems(1) by (simp add: unsigned_of_nat take_bit_eq_mod)
  have e: "encode_sub_blocks (d # ds) = ?n # d @ encode_sub_blocks ds" by (simp add: encode_sub_blocks_def)
  have "byte_at (pre @ encode_sub_blocks (d # ds) @ post) off = int (length d)"
    using byte_at_split [of off pre ?n "d @ encode_sub_blocks ds @ post"] Cons.prems(3) n by (simp add: e)
  moreover have "skip_sub_blocks (pre @ encode_sub_blocks (d # ds) @ post) (Suc blocks) (off + (1 + int (length d))) =
      Inr (off + (1 + int (length d)) + int (length (encode_sub_blocks ds)))"
    using Cons.IH [of "Suc blocks" "off + (1 + int (length d))" "pre @ ?n # d"] Cons.prems by (simp add: e)
  ultimately show ?case
    using Cons.prems by (subst skip_sub_blocks.simps) (simp add: e add.assoc)
qed

lemma skipGifSubBlocks_split:
  assumes "sub_blocks_ok ds" and "off = int (length pre)"
  shows "skipGifSubBlocks (pre @ encode_sub_blocks ds @ post) off = Inr (off + int (length (encode_sub_blocks ds)))"
  using assms skip_sub_blocks_split [of ds 0 off pre post]
  by (simp add: skipGifSubBlocks_def sub_blocks_ok_def GIF_MAX_BLOCKS_def)

lemma gif_loop_extension:
  assumes "bytes = pre @ encode_gif_block (Gif_extension label ds) @ post" and "sub_blocks_ok ds"
    and "off = int (length pre)" and "blocks < GIF_MAX_BLOCKS"
  shows "gif_loop bytes stopAt blocks off frames =
    gif_loop bytes stopAt (Suc blocks) (off + int (length (encode_gif_block (Gif_extension label ds)))) frames"
proof -
  have i: "byte_at bytes off = 0x21" unfolding assms(1) using byte_at_split [OF assms(3)] by simp
  have "skipGifSubBlocks bytes (off + 2) = Inr (off + 2 + int (length (encode_sub_blocks ds)))"
    using skipGifSubBlocks_split [of ds "off + 2" "pre @ [0x21, label]" post] assms(1-3) by simp
  with i assms show ?thesis by (subst gif_loop.simps) (simp add: Let_def add.assoc)
qed

lemma gif_loop_image:
  assumes "bytes = pre @ encode_gif_block (Gif_image frame flags table lzw ds) @ post"
    and "gif_block_ok (Gif_image frame flags table lzw ds)" and "off = int (length pre)" and "blocks < GIF_MAX_BLOCKS"
  shows "gif_loop bytes stopAt blocks off frames = (if frames + 1 \<ge> stopAt then Inr (frames + 1)
    else gif_loop bytes stopAt (Suc blocks) (off + int (length (encode_gif_block (Gif_image frame flags table lzw ds)))) (frames + 1))"
proof -
  have i: "byte_at bytes off = 0x2c" unfolding assms(1) using byte_at_split [OF assms(3)] by simp
  have f: "byte_at bytes (off + 9) = uint flags"
    using byte_at_split [of "off + 9" "pre @ 0x2c # frame" flags "table @ lzw # encode_sub_blocks ds @ post"] assms(1-3) by simp
  have "skipGifSubBlocks bytes (off + 10 + color_table (uint flags) + 1) =
      Inr (off + 10 + color_table (uint flags) + 1 + int (length (encode_sub_blocks ds)))"
    using skipGifSubBlocks_split [of ds "off + 10 + color_table (uint flags) + 1" "pre @ 0x2c # frame @ flags # table @ [lzw]" post]
      assms(1-3) by simp
  with i f assms show ?thesis by (subst gif_loop.simps) (simp add: Let_def add_ac)
qed

lemma gif_loop_blocks:
  assumes "bytes = pre @ concat (map encode_gif_block bs) @ 0x3b # post" and "list_all gif_block_ok bs"
    and "off = int (length pre)" and "blocks + length bs < GIF_MAX_BLOCKS" and "frames < stopAt"
  shows "gif_loop bytes stopAt blocks off frames = Inr (min stopAt (frames + int (length (filter is_image bs))))"
  using assms
proof (induction bs arbitrary: pre off blocks frames)
  case Nil
  have "byte_at bytes off = 0x3b" using byte_at_split [OF Nil.prems(3)] Nil.prems(1) by simp
  with Nil.prems show ?case by (subst gif_loop.simps) simp
next
  case (Cons b bs)
  have split: "bytes = pre @ encode_gif_block b @ concat (map encode_gif_block bs) @ 0x3b # post"
    using Cons.prems(1) by simp
  have IH: "gif_loop bytes stopAt (Suc blocks) (off + int (length (encode_gif_block b))) n =
      Inr (min stopAt (n + int (length (filter is_image bs))))" if "n < stopAt" for n
    by (rule Cons.IH [of "pre @ encode_gif_block b"]) (use Cons.prems split that in auto)
  show ?case
  proof (cases b)
    case (Gif_extension label ds)
    with gif_loop_extension [OF split [unfolded Gif_extension]] IH [of frames] Cons.prems show ?thesis by simp
  next
    case (Gif_image frame flags table lzw ds)
    with gif_loop_image [OF split [unfolded Gif_image]] IH [of "frames + 1"] Cons.prems show ?thesis
      by (auto simp: min_def)
  qed
qed

definition encode_gif :: "string \<Rightarrow> byte list \<Rightarrow> byte \<Rightarrow> byte list \<Rightarrow> byte list \<Rightarrow> gif_block list \<Rightarrow> byte list" where
  "encode_gif version screen flags tail table bs =
     ascii_bytes version @ screen @ flags # tail @ table @ concat (map encode_gif_block bs) @ [0x3b]"

text \<open>\<open>countGifFrames\<close> counts frames: on a well-formed GIF, with or without colour tables and with any
  extensions between the images, it returns the number of image descriptors, or \<open>stopAt\<close> when there
  are more; what follows the trailer is not read.\<close>

theorem gif_frames_counted:
  assumes "version \<in> {''GIF87a'', ''GIF89a''}" and "length screen = 4" and "length tail = 2"
    and "int (length table) = color_table (uint flags)" and "list_all gif_block_ok bs" and "length bs < 100000"
    and "1 \<le> stopAt"
  shows "countGifFrames (encode_gif version screen flags tail table bs @ rest) stopAt =
    Inr (min stopAt (int (length (filter is_image bs))))"
proof -
  let ?b = "encode_gif version screen flags tail table bs @ rest"
  have v: "length version = 6" using assms(1) by auto
  have "asciiEquals ?b 0 (js version)"
    using assms(1) unfolding asciiEquals_js by (auto simp: encode_gif_def bytes_at_def)
  then have a: "asciiEquals ?b 0 (js ''GIF87a'') \<or> asciiEquals ?b 0 (js ''GIF89a'')" using assms(1) by auto
  have l: "\<not> length ?b < 13" using assms(2,3) v by (simp add: encode_gif_def)
  have f: "byte_at ?b 10 = uint flags"
    using byte_at_split [of 10 "ascii_bytes version @ screen" flags] assms(2) v by (simp add: encode_gif_def)
  have "gif_loop ?b stopAt 0 (13 + color_table (uint flags)) 0 = Inr (min stopAt (0 + int (length (filter is_image bs))))"
    by (rule gif_loop_blocks [of _ "ascii_bytes version @ screen @ flags # tail @ table" _ rest])
      (use assms v in \<open>auto simp: encode_gif_def GIF_MAX_BLOCKS_def\<close>)
  then show ?thesis using a l f by (simp add: countGifFrames_def)
qed

theorem gif_frames_counted_witness:
  "countGifFrames (encode_gif ''GIF89a'' [1, 0, 1, 0] 0 [0, 0] [] [Gif_extension 0xf9 [[1, 2, 3, 4]],
     Gif_image [0, 0, 0, 0, 1, 0, 1, 0] 0 [] 2 [[5, 6]], Gif_image [0, 0, 0, 0, 1, 0, 1, 0] 0 [] 2 [[7]]] @ []) 2 = Inr 2"
  by (subst gif_frames_counted) (simp_all add: color_table_def sub_blocks_ok_def)

end
