(* ===== verification/MotionPhoto.thy ===== *)
theory MotionPhoto
  imports HeifMeta Jpeg Signature Utf8Decode
begin

text \<open>
  Google Motion Photo containers
  (\<open>services/backend-production/src/publishing/processing/motion-photo.ts\<close>): XMP packets from JPEG and
  HEIF, the bounded XML tokenizer, the container directory and the layout of the embedded video. The
  tokenizer's cursor is the text that remains. A \<open>Map\<close> is an association list in insertion order.
\<close>

definition container_namespace :: jstr where
  "container_namespace = js ''http://ns.google.com/photos/1.0/container/''"

definition item_namespace :: jstr where
  "item_namespace = js ''http://ns.google.com/photos/1.0/container/item/''"

definition maxXmpBytes :: int where "maxXmpBytes = 1024 * 1024"
definition maxXmlEvents :: nat where "maxXmlEvents = 20000"
definition maxAttributes :: nat where "maxAttributes = 64"
definition maxDirectoryItems :: nat where "maxDirectoryItems = 16"
definition maxExtendedChunks :: nat where "maxExtendedChunks = 64"
definition maxDecimalDigits :: nat where "maxDecimalDigits = 15"

definition MAIN_XMP_HEADER :: jstr where "MAIN_XMP_HEADER = js ''http://ns.adobe.com/xap/1.0/'' @ [0]"
definition EXTENDED_XMP_HEADER :: jstr where "EXTENDED_XMP_HEADER = js ''http://ns.adobe.com/xmp/extension/'' @ [0]"

definition decodeUtf8 :: "byte list \<Rightarrow> jstr parsed" where
  "decodeUtf8 bytes =
     (if int (length bytes) > maxXmpBytes then Inl Limit_exceeded
      else case utf8_decode bytes of None \<Rightarrow> Inl Structure_invalid | Some s \<Rightarrow> Inr s)"

text \<open>\<open>Map.set\<close>: a new key goes to the end, a known one keeps its place.\<close>

fun map_set :: "'k \<Rightarrow> 'v \<Rightarrow> ('k \<times> 'v) list \<Rightarrow> ('k \<times> 'v) list" where
  "map_set k v [] = [(k, v)]"
| "map_set k v ((a, b) # ps) = (if a = k then (k, v) # ps else (a, b) # map_set k v ps)"

lemma map_of_map_set: "map_of (map_set k v ps) = (map_of ps)(k \<mapsto> v)"
  by (induction ps) auto

lemma keys_map_set: "set (map fst (map_set k v ps)) = insert k (set (map fst ps))"
proof (induction ps)
  case (Cons p ps)
  obtain a b where p: "p = (a, b)" by (cases p)
  show ?case by (cases "a = k") (simp_all add: p Cons.IH insert_commute del: set_map)
qed simp

lemma distinct_map_set: "distinct (map fst ps) \<Longrightarrow> distinct (map fst (map_set k v ps))"
proof (induction ps)
  case (Cons p ps)
  obtain a b where p: "p = (a, b)" by (cases p)
  show ?case using Cons by (cases "a = k") (simp_all add: p keys_map_set del: set_map)
qed simp

section \<open>Extended XMP\<close>

record extended_xmp =
  exm_total :: int
  exm_buffer :: "byte list"
  exm_chunks :: "(int \<times> int) list"

fun covers_from :: "int \<Rightarrow> (int \<times> int) list \<Rightarrow> int option" where
  "covers_from covered [] = Some covered"
| "covers_from covered ((start, stop) # chunks) =
     (if start > covered then None else covers_from (max covered stop) chunks)"

definition coversWholePacket :: "extended_xmp \<Rightarrow> bool" where
  "coversWholePacket entry \<longleftrightarrow> covers_from 0 (sort_key fst (exm_chunks entry)) = Some (exm_total entry)"

text \<open>\<open>buffer.set(data, offset)\<close> for data that fits.\<close>

definition buffer_set :: "byte list \<Rightarrow> byte list \<Rightarrow> int \<Rightarrow> byte list" where
  "buffer_set buffer data off = take (nat off) buffer @ data @ drop (nat off + length data) buffer"

text \<open>One chunk into the packets collected so far.\<close>

definition add_chunk ::
    "(jstr \<times> extended_xmp) list \<Rightarrow> jstr \<Rightarrow> int \<Rightarrow> int \<Rightarrow> byte list \<Rightarrow> (jstr \<times> extended_xmp) list parsed" where
  "add_chunk extended guid total_bytes off data =
     (if total_bytes > maxXmpBytes \<or> off + int (length data) > total_bytes then Inl Limit_exceeded
      else rbind (case map_of extended guid of
          Some entry \<Rightarrow> Inr entry
        | None \<Rightarrow> if length extended \<ge> 4 then Inl Limit_exceeded
                  else Inr \<lparr>exm_total = total_bytes, exm_buffer = replicate (nat total_bytes) 0, exm_chunks = []\<rparr>) (\<lambda>entry.
        if exm_total entry \<noteq> total_bytes \<or> length (exm_chunks entry) \<ge> maxExtendedChunks then Inl Structure_invalid
        else let stop = off + int (length data) in
          if (off, stop) \<in> set (exm_chunks entry) then
            (if subarray (exm_buffer entry) off stop = data then Inr (map_set guid entry extended) else Inl Structure_invalid)
          else if list_ex (\<lambda>(a, b). off < b \<and> a < stop) (exm_chunks entry) then Inl Structure_invalid
          else Inr (map_set guid (entry\<lparr>exm_buffer := buffer_set (exm_buffer entry) data off,
            exm_chunks := exm_chunks entry @ [(off, stop)]\<rparr>) extended)))"

fun collect_xmp ::
    "byte list \<Rightarrow> jpeg_segment list \<Rightarrow> jstr list \<Rightarrow> (jstr \<times> extended_xmp) list \<Rightarrow> (jstr list \<times> (jstr \<times> extended_xmp) list) parsed" where
  "collect_xmp head [] packets extended = Inr (packets, extended)"
| "collect_xmp head (s # segments) packets extended =
     (if seg_marker s \<noteq> 0xe1 then collect_xmp head segments packets extended
      else if asciiEquals head (seg_dataStart s) MAIN_XMP_HEADER then
        rbind (decodeUtf8 (subarray head (seg_dataStart s + int (length MAIN_XMP_HEADER)) (seg_dataEnd s))) (\<lambda>packet.
          collect_xmp head segments (packets @ [packet]) extended)
      else if asciiEquals head (seg_dataStart s) EXTENDED_XMP_HEADER then
        let start = seg_dataStart s + int (length EXTENDED_XMP_HEADER) in
        if start + 40 > seg_dataEnd s then Inl Truncated
        else let guid = map unat (subarray head start (start + 32)) in
          rbind (u32be head (start + 32)) (\<lambda>total_bytes.
            rbind (u32be head (start + 36)) (\<lambda>off.
              rbind (add_chunk extended guid total_bytes off (subarray head (start + 40) (seg_dataEnd s))) (\<lambda>extended.
                collect_xmp head segments packets extended)))
      else collect_xmp head segments packets extended)"

definition readJpegXmpPackets :: "byte list \<Rightarrow> jstr list parsed" where
  "readJpegXmpPackets head =
     rbind (listJpegSegments head) (\<lambda>segments.
       rbind (collect_xmp head segments [] []) (\<lambda>(packets, extended).
         rbind (rmap (\<lambda>(_, entry). decodeUtf8 (exm_buffer entry)) (filter (\<lambda>(_, entry). coversWholePacket entry) extended))
           (\<lambda>whole. Inr (packets @ whole))))"

definition readHeifXmpPackets :: "byte_reader \<Rightarrow> jstr list parsed" where
  "readHeifXmpPackets reader =
     rbind (readTopLevelBox reader (js ''meta'') maxMetaBoxBytes) (\<lambda>meta.
       case meta of
         None \<Rightarrow> Inl Structure_invalid
       | Some (_, bytes) \<Rightarrow>
           rbind (parseHeifMeta bytes) (\<lambda>metaParsed.
             rmap (\<lambda>item. rbind (readHeifItem reader bytes metaParsed (itm_id item) maxXmpBytes) decodeUtf8)
               (filter (\<lambda>item. itm_type item = js ''mime'' \<and> itm_contentType item = Some (js ''application/rdf+xml''))
                 (hmt_items metaParsed))))"

section \<open>XML events\<close>

datatype xml_kind = Xml_open | Xml_close | Xml_text

record xml_element =
  xml_kind :: xml_kind
  xml_name :: jstr
  xml_attributes :: "(jstr \<times> jstr) list"
  xml_selfClosing :: bool
  xml_text :: jstr

definition name_start :: "nat \<Rightarrow> bool" where
  "name_start c \<longleftrightarrow> is_alpha c \<or> c = 95"

definition name_char :: "nat \<Rightarrow> bool" where
  "name_char c \<longleftrightarrow> is_alpha c \<or> is_digit c \<or> c = 95 \<or> c = 46 \<or> c = 45"

text \<open>The sticky match of \<open>NAME\<close>: a name, with a second one after a colon when there is one.\<close>

definition readName :: "jstr \<Rightarrow> jstr parsed" where
  "readName rest =
     (case rest of
        c # cs \<Rightarrow>
          if name_start c then
            let first = c # takeWhile name_char cs in
            Inr (case dropWhile name_char cs of
                colon # d # ds \<Rightarrow> if colon = 58 \<and> name_start d then first @ [58, d] @ takeWhile name_char ds else first
              | _ \<Rightarrow> first)
          else Inl Structure_invalid
      | [] \<Rightarrow> Inl Structure_invalid)"

text \<open>The entity after an ampersand: its character and the units it takes.\<close>

definition entity :: "jstr \<Rightarrow> (nat \<times> nat) option" where
  "entity cs =
     (if starts_with cs (js ''amp;'') then Some (38, 4)
      else if starts_with cs (js ''lt;'') then Some (60, 3)
      else if starts_with cs (js ''gt;'') then Some (62, 3)
      else if starts_with cs (js ''quot;'') then Some (34, 5)
      else if starts_with cs (js ''apos;'') then Some (39, 5)
      else None)"

function decodeEntities :: "jstr \<Rightarrow> jstr" where
  "decodeEntities [] = []"
| "decodeEntities (c # cs) =
     (if c = 38 then (case entity cs of Some (d, n) \<Rightarrow> d # decodeEntities (drop n cs) | None \<Rightarrow> c # decodeEntities cs)
      else c # decodeEntities cs)"
  by pat_completeness auto
termination by (relation "measure length") auto

text \<open>\<open>indexOf\<close> of a string in what remains.\<close>

fun sub_index :: "jstr \<Rightarrow> jstr \<Rightarrow> nat option" where
  "sub_index marker [] = (if marker = [] then Some 0 else None)"
| "sub_index marker (x # xs) = (if starts_with (x # xs) marker then Some 0 else map_option Suc (sub_index marker xs))"

definition skipTo :: "jstr \<Rightarrow> jstr \<Rightarrow> nat parsed" where
  "skipTo marker rest = (case sub_index marker rest of None \<Rightarrow> Inl Structure_invalid | Some i \<Rightarrow> Inr i)"

definition push_event :: "xml_element \<Rightarrow> xml_element list \<Rightarrow> xml_element list parsed" where
  "push_event event events = (if length events \<ge> maxXmlEvents then Inl Limit_exceeded else Inr (events @ [event]))"

definition text_element :: "jstr \<Rightarrow> xml_element" where
  "text_element s = \<lparr>xml_kind = Xml_text, xml_name = [], xml_attributes = [], xml_selfClosing = False, xml_text = s\<rparr>"

definition skip_space :: "jstr \<Rightarrow> jstr" where
  "skip_space rest = dropWhile is_js_space rest"

lemma readName_length: "readName rest = Inr n \<Longrightarrow> n \<noteq> [] \<and> rest \<noteq> []"
  by (auto simp: readName_def Let_def split: list.splits if_splits)

lemma length_skip_space: "length (skip_space rest) \<le> length rest"
  by (simp add: skip_space_def length_dropWhile_le)

text \<open>The attributes of a tag; the result is the attributes, whether it closes itself, and what remains.\<close>

function tag_loop :: "bool \<Rightarrow> jstr \<Rightarrow> (jstr \<times> jstr) list \<Rightarrow> ((jstr \<times> jstr) list \<times> bool \<times> jstr) parsed" where
  "tag_loop closing rest attributes =
     (let rest = skip_space rest in
      if rest = [] then Inl Structure_invalid
      else if hd rest = 62 then Inr (attributes, False, tl rest)
      else if starts_with rest (js ''/>'') \<and> \<not> closing then Inr (attributes, True, drop 2 rest)
      else if closing \<or> length attributes \<ge> maxAttributes then Inl Structure_invalid
      else rbind (readName rest) (\<lambda>attribute.
        let rest = skip_space (drop (length attribute) rest) in
        if rest = [] \<or> hd rest \<noteq> 61 then Inl Structure_invalid
        else let rest = skip_space (tl rest) in
          if rest = [] \<or> (hd rest \<noteq> 34 \<and> hd rest \<noteq> 39) then Inl Structure_invalid
          else rbind (skipTo [hd rest] (tl rest)) (\<lambda>stop.
            tag_loop closing (drop (stop + 1) (tl rest))
              (map_set attribute (decodeEntities (take stop (tl rest))) attributes))))"
  by pat_completeness auto
termination
proof (relation "measure (\<lambda>(_, rest, _). length rest)", goal_cases)
  case (2 closing rest attributes r1 attribute r2 r3 stop)
  have "length r1 \<le> length rest" "length r2 \<le> length r1" "length r3 \<le> length r2" "r3 \<noteq> []"
    using 2 length_skip_space [of rest] length_skip_space [of "drop (length attribute) r1"] length_skip_space [of "tl r2"]
    by auto
  then have "length (drop (stop + 1) (tl r3)) < length rest" by (cases r3) auto
  then show ?case by simp
qed simp

declare tag_loop.simps [simp del]

lemma tag_loop_shorter: "tag_loop closing rest attributes = Inr (a, b, r) \<Longrightarrow> length r < length rest"
proof (induction closing rest attributes arbitrary: a b r rule: tag_loop.induct)
  case (1 closing rest attributes)
  let ?r1 = "skip_space rest"
  have r1: "length ?r1 \<le> length rest" by (rule length_skip_space)
  show ?case
  proof (cases "?r1 = [] \<or> hd ?r1 = 62 \<or> (starts_with ?r1 (js ''/>'') \<and> \<not> closing)")
    case True
    with "1.prems" r1 show ?thesis
      by (subst (asm) tag_loop.simps) (auto simp: Let_def split: if_splits, (cases ?r1; simp)+)
  next
    case False
    then have n: "?r1 \<noteq> []" "\<not> hd ?r1 = 62" "\<not> (starts_with ?r1 (js ''/>'') \<and> \<not> closing)" by auto
    have m: "\<not> (closing \<or> length attributes \<ge> maxAttributes)"
      using "1.prems" n by (subst (asm) tag_loop.simps) (auto simp: Let_def)
    then obtain name where name: "readName ?r1 = Inr name"
      using "1.prems" n by (subst (asm) tag_loop.simps) (auto simp: Let_def rbind_Inr_iff)
    let ?r2 = "skip_space (drop (length name) ?r1)"
    have c2: "\<not> (?r2 = [] \<or> hd ?r2 \<noteq> 61)"
      using "1.prems" n m name by (subst (asm) tag_loop.simps) (simp add: Let_def split: if_splits)
    let ?r3 = "skip_space (tl ?r2)"
    have c3: "\<not> (?r3 = [] \<or> (hd ?r3 \<noteq> 34 \<and> hd ?r3 \<noteq> 39))"
      using "1.prems" n m name c2 by (subst (asm) tag_loop.simps) (simp add: Let_def split: if_splits)
    obtain stop where stop: "skipTo [hd ?r3] (tl ?r3) = Inr stop"
      "tag_loop closing (drop (stop + 1) (tl ?r3)) (map_set name (decodeEntities (take stop (tl ?r3))) attributes) = Inr (a, b, r)"
      using "1.prems" n m name c2 c3 by (subst (asm) tag_loop.simps) (auto simp: Let_def rbind_Inr_iff simp del: tag_loop.simps)
    have "length r < length (drop (stop + 1) (tl ?r3))"
      by (rule "1.IH" [OF refl n m name refl c2 refl c3 stop])
    moreover have "length ?r3 \<le> length ?r2" "length ?r2 \<le> length ?r1"
      using length_skip_space [of "tl ?r2"] length_skip_space [of "drop (length name) ?r1"] by auto
    ultimately show ?thesis using r1 by simp
  qed
qed

function xml_loop :: "jstr \<Rightarrow> xml_element list \<Rightarrow> xml_element list parsed" where
  "xml_loop rest events =
     (if rest = [] then Inr events
      else case index_of 60 rest of
        None \<Rightarrow> push_event (text_element (decodeEntities rest)) events
      | Some i \<Rightarrow>
          rbind (if i > 0 then push_event (text_element (decodeEntities (take i rest))) events else Inr events) (\<lambda>events.
            let r = drop i rest in
            if starts_with r (js ''<!--'') then rbind (skipTo (js ''-->'') (drop 4 r)) (\<lambda>e. xml_loop (drop (4 + e + 3) r) events)
            else if starts_with r (js ''<![CDATA['') then
              rbind (skipTo (js '']]>'') (drop 9 r)) (\<lambda>e.
                rbind (push_event (text_element (take e (drop 9 r))) events) (\<lambda>events. xml_loop (drop (9 + e + 3) r) events))
            else if starts_with r (js ''<?'') then rbind (skipTo (js ''?>'') (drop 2 r)) (\<lambda>e. xml_loop (drop (2 + e + 2) r) events)
            else if starts_with r (js ''<!'') then Inl Structure_invalid
            else
              let r = tl r; closing = (r \<noteq> [] \<and> hd r = 47); r = (if closing then tl r else r) in
              rbind (readName r) (\<lambda>name.
                rbind (tag_loop closing (drop (length name) r) []) (\<lambda>(attributes, selfClosing, r').
                  rbind (push_event \<lparr>xml_kind = (if closing then Xml_close else Xml_open), xml_name = name,
                    xml_attributes = attributes, xml_selfClosing = selfClosing, xml_text = []\<rparr> events) (\<lambda>events.
                      xml_loop r' events)))))"
  by pat_completeness auto
termination
proof (relation "measure (\<lambda>(rest, _). length rest)", goal_cases)
  case (5 rest events i events' r r1 closing r2 name x attributes y selfClosing r' events'')
  have "length r' < length r2" using 5 tag_loop_shorter [of closing "drop (length name) r2" "[]"] by (auto simp: le_diff_conv)
  moreover have "length r2 \<le> length rest" using 5 by (simp split: if_splits)
  ultimately show ?case by simp
qed (auto simp: index_of_Some)

declare xml_loop.simps [simp del]

definition tokenizeXml :: "jstr \<Rightarrow> xml_element list parsed" where
  "tokenizeXml xmp = (if int (length xmp) > maxXmpBytes then Inl Limit_exceeded else xml_loop xmp [])"

section \<open>The container directory\<close>

record directory_item =
  dir_mime :: jstr
  dir_semantic :: jstr
  dir_length :: "int option"
  dir_padding :: int

definition MIME_PATTERN :: "jstr \<Rightarrow> bool" where
  "MIME_PATTERN s \<longleftrightarrow> (case index_of 47 s of
       None \<Rightarrow> False
     | Some i \<Rightarrow> 0 < i \<and> list_all is_lower (take i s) \<and>
         (let t = drop (Suc i) s in 1 \<le> length t \<and> length t \<le> 64 \<and>
            list_all (\<lambda>c. is_lower c \<or> is_digit c \<or> c = 46 \<or> c = 43 \<or> c = 45) t))"

definition SEMANTIC_PATTERN :: "jstr \<Rightarrow> bool" where
  "SEMANTIC_PATTERN s \<longleftrightarrow> 1 \<le> length s \<and> length s \<le> 32 \<and> list_all is_alpha s"

definition digits_value :: "jstr \<Rightarrow> int" where
  "digits_value s = foldl (\<lambda>v c. v * 10 + (int c - 48)) 0 s"

definition decimal :: "jstr option \<Rightarrow> int option parsed" where
  "decimal v = (case v of
       None \<Rightarrow> Inr None
     | Some s \<Rightarrow> let trimmed = jtrim s in
         if \<not> (1 \<le> length trimmed \<and> length trimmed \<le> maxDecimalDigits \<and> list_all is_digit trimmed) then Inl Structure_invalid
         else Inr (Some (digits_value trimmed)))"

type_synonym namespaces = "(jstr \<times> jstr) list"

fun bind_attributes :: "(jstr \<times> jstr) list \<Rightarrow> namespaces \<Rightarrow> namespaces parsed" where
  "bind_attributes [] ns = Inr ns"
| "bind_attributes ((name, v) # attributes) ns =
     (if \<not> starts_with name (js ''xmlns:'') then bind_attributes attributes ns
      else let prefix = drop 6 name in
        case map_of ns prefix of
          Some bound \<Rightarrow> if bound \<noteq> v then Inl Structure_invalid else bind_attributes attributes (map_set prefix v ns)
        | None \<Rightarrow> bind_attributes attributes (map_set prefix v ns))"

fun bind_namespaces :: "xml_element list \<Rightarrow> namespaces \<Rightarrow> namespaces parsed" where
  "bind_namespaces [] ns = Inr ns"
| "bind_namespaces (event # events) ns = rbind (bind_attributes (xml_attributes event) ns) (bind_namespaces events)"

definition resolve :: "namespaces \<Rightarrow> jstr \<Rightarrow> (jstr \<times> jstr) option" where
  "resolve ns qualified = (case index_of 58 qualified of
       None \<Rightarrow> None
     | Some colon \<Rightarrow> map_option (\<lambda>uri. (uri, drop (Suc colon) qualified)) (map_of ns (take colon qualified)))"

definition isElement :: "namespaces \<Rightarrow> xml_element \<Rightarrow> jstr \<Rightarrow> jstr \<Rightarrow> bool" where
  "isElement ns event uri local_name \<longleftrightarrow> resolve ns (xml_name event) = Some (uri, local_name)"

fun attribute_fields :: "namespaces \<Rightarrow> (jstr \<times> jstr) list \<Rightarrow> (jstr \<times> jstr) list \<Rightarrow> (jstr \<times> jstr) list" where
  "attribute_fields ns [] found = found"
| "attribute_fields ns ((name, v) # attributes) found = attribute_fields ns attributes
     (case resolve ns name of Some (uri, field) \<Rightarrow> if uri = item_namespace then map_set field v found else found | None \<Rightarrow> found)"

text \<open>The events inside an item, up to its closing tag; the result is the fields and the events after it.\<close>

fun element_fields ::
    "namespaces \<Rightarrow> xml_element list \<Rightarrow> nat \<Rightarrow> jstr option \<Rightarrow> (jstr \<times> jstr) list \<Rightarrow> (jstr \<times> jstr) list \<times> xml_element list" where
  "element_fields ns [] itemDepth field found = (found, [])"
| "element_fields ns (inner # events) itemDepth field found =
     (case xml_kind inner of
        Xml_open \<Rightarrow>
          element_fields ns events (if xml_selfClosing inner then itemDepth else Suc itemDepth)
            (case resolve ns (xml_name inner) of
               Some (uri, f) \<Rightarrow> if itemDepth = 0 \<and> uri = item_namespace then Some f else None
             | None \<Rightarrow> None) found
      | Xml_text \<Rightarrow>
          element_fields ns events itemDepth field
            (case field of Some f \<Rightarrow> if jtrim (xml_text inner) \<noteq> [] then map_set f (jtrim (xml_text inner)) found else found
             | None \<Rightarrow> found)
      | Xml_close \<Rightarrow>
          if itemDepth = 0 then (found, events) else element_fields ns events (itemDepth - 1) None found)"

lemma element_fields_shorter: "length (snd (element_fields ns events itemDepth field found)) \<le> length events"
  by (induction ns events itemDepth field found rule: element_fields.induct)
    (auto simp: le_SucI split: xml_kind.splits)

definition field_or :: "jstr option \<Rightarrow> jstr" where
  "field_or f = (case f of None \<Rightarrow> [] | Some s \<Rightarrow> s)"

definition read_item :: "(jstr \<times> jstr) list \<Rightarrow> directory_item list \<Rightarrow> directory_item list parsed" where
  "read_item found items =
     (if length items \<ge> maxDirectoryItems then Inl Limit_exceeded
      else let mime = field_or (map_of found (js ''Mime'')); semantic = field_or (map_of found (js ''Semantic'')) in
        if \<not> MIME_PATTERN mime \<or> \<not> SEMANTIC_PATTERN semantic then Inl Structure_invalid
        else rbind (decimal (map_of found (js ''Length''))) (\<lambda>len.
          rbind (decimal (map_of found (js ''Padding''))) (\<lambda>padding.
            Inr (items @ [\<lparr>dir_mime = mime, dir_semantic = semantic, dir_length = len,
              dir_padding = (case padding of None \<Rightarrow> 0 | Some p \<Rightarrow> p)\<rparr>]))))"

function directory_loop ::
    "namespaces \<Rightarrow> xml_element list \<Rightarrow> nat \<Rightarrow> directory_item list \<Rightarrow> directory_item list parsed" where
  "directory_loop ns [] depth items = Inr items"
| "directory_loop ns (event # events) depth items =
     (if xml_kind event = Xml_close then (if depth = 0 then Inr items else directory_loop ns events (depth - 1) items)
      else if xml_kind event \<noteq> Xml_open then directory_loop ns events depth items
      else if \<not> isElement ns event container_namespace (js ''Item'') then
        directory_loop ns events (if xml_selfClosing event then depth else Suc depth) items
      else case (if xml_selfClosing event then (attribute_fields ns (xml_attributes event) [], events)
                 else element_fields ns events 0 None (attribute_fields ns (xml_attributes event) [])) of
        (found, events') \<Rightarrow> rbind (read_item found items) (\<lambda>items. directory_loop ns events' depth items))"
  by pat_completeness auto
termination
proof (relation "measure (\<lambda>(_, events, _). length events)", goal_cases)
  case (5 ns event events depth items found events' items')
  have "length events' \<le> length events"
    using 5 element_fields_shorter [of ns events 0 None "attribute_fields ns (xml_attributes event) []"]
    by (auto split: if_splits dest: arg_cong [of _ _ snd])
  then show ?case by simp
qed auto

fun events_after :: "(xml_element \<Rightarrow> bool) \<Rightarrow> xml_element list \<Rightarrow> (xml_element \<times> xml_element list) option" where
  "events_after P [] = None"
| "events_after P (event # events) = (if P event then Some (event, events) else events_after P events)"

definition readMotionPhotoDirectory :: "jstr \<Rightarrow> directory_item list option parsed" where
  "readMotionPhotoDirectory xmp =
     rbind (tokenizeXml xmp) (\<lambda>events.
       rbind (bind_namespaces events []) (\<lambda>ns.
         case events_after (\<lambda>event. xml_kind event = Xml_open \<and> isElement ns event container_namespace (js ''Directory'')) events of
           None \<Rightarrow> Inr None
         | Some (directory, events) \<Rightarrow>
             if xml_selfClosing directory then Inl Structure_invalid
             else rbind (directory_loop ns events 0 []) (\<lambda>items. Inr (Some items))))"

section \<open>The embedded video\<close>

datatype primary_type = Primary_jpeg | Primary_heic | Primary_heif

record motion_layout =
  lay_primaryLength :: int
  lay_videoType :: jstr
  lay_videoStart :: int
  lay_videoLength :: int

definition PRIMARY_MIMES :: "primary_type \<Rightarrow> jstr list" where
  "PRIMARY_MIMES p = (case p of Primary_jpeg \<Rightarrow> [js ''image/jpeg''] | _ \<Rightarrow> [js ''image/heic'', js ''image/heif''])"

text \<open>The sum of the items after the primary; every one of them declares a positive length.\<close>

fun trailing_from :: "int \<Rightarrow> directory_item list \<Rightarrow> int parsed" where
  "trailing_from trailing [] = Inr trailing"
| "trailing_from trailing (item # items) =
     (case dir_length item of
        None \<Rightarrow> Inl Structure_invalid
      | Some len \<Rightarrow> if len \<le> 0 then Inl Structure_invalid else trailing_from (trailing + (len + dir_padding item)) items)"

definition directory_shape :: "primary_type \<Rightarrow> directory_item list \<Rightarrow> bool" where
  "directory_shape primaryType items \<longleftrightarrow>
     (let primary = hd items; video = last items in
      \<not> (dir_semantic primary \<noteq> js ''Primary'' \<or> dir_semantic video \<noteq> js ''MotionPhoto'' \<or>
         length (filter (\<lambda>i. dir_semantic i = js ''Primary'') items) \<noteq> 1 \<or>
         length (filter (\<lambda>i. dir_semantic i = js ''MotionPhoto'') items) \<noteq> 1 \<or>
         dir_mime primary \<notin> set (PRIMARY_MIMES primaryType) \<or>
         (dir_mime video \<noteq> js ''video/mp4'' \<and> dir_mime video \<noteq> js ''video/quicktime'') \<or> dir_padding video \<noteq> 0) \<and>
      \<not> (primaryType \<noteq> Primary_jpeg \<and> dir_padding primary \<noteq> 8))"

text \<open>What stands directly before the video: an \<open>mpvd\<close> header, or the end of the JPEG.\<close>

definition junction_ok :: "byte_reader \<Rightarrow> primary_type \<Rightarrow> int \<Rightarrow> int \<Rightarrow> int \<Rightarrow> bool parsed" where
  "junction_ok reader primaryType primaryLength videoStart videoLength =
     (if primaryType \<noteq> Primary_jpeg then
        rbind (rdr_read reader (videoStart - 8) 8) (\<lambda>header. rbind (u32be header 0) (\<lambda>sz.
          if sz \<noteq> videoLength + 8 then Inr False else rbind (fourCc header 4) (\<lambda>ty. Inr (ty = js ''mpvd''))))
      else rbind (rdr_read reader (primaryLength - 2) 2) (\<lambda>tail. Inr (byte_at tail 0 = 0xff \<and> byte_at tail 1 = 0xd9)))"

definition locateMotionPhotoVideo ::
    "byte_reader \<Rightarrow> primary_type \<Rightarrow> directory_item list \<Rightarrow> motion_layout parsed" where
  "locateMotionPhotoVideo reader primaryType items =
     (if length items < 2 \<or> \<not> directory_shape primaryType items then Inl Structure_invalid
      else rbind (trailing_from (dir_padding (hd items)) (tl items)) (\<lambda>trailing.
        if \<not> is_safe_integer trailing \<or> trailing \<ge> rdr_size reader then Inl Structure_invalid
        else let primaryLength = rdr_size reader - trailing in
          if dir_length (hd items) \<notin> {None, Some 0, Some primaryLength} then Inl Structure_invalid
          else let videoLength = the (dir_length (last items)); videoStart = rdr_size reader - videoLength in
            if videoLength < 24 then Inl Structure_invalid
            else rbind (junction_ok reader primaryType primaryLength videoStart videoLength) (\<lambda>ok.
              if \<not> ok then Inl Structure_invalid
              else rbind (rdr_read reader videoStart (min 64 videoLength)) (\<lambda>head.
                rbind (sniffSignature head) (\<lambda>signature. rbind (fourCc head 4) (\<lambda>brand.
                  if brand \<noteq> js ''ftyp'' \<or> (sig_type signature \<noteq> Sniffed_mp4 \<and> sig_type signature \<noteq> Sniffed_quicktime)
                  then Inl Structure_invalid
                  else rbind (readTopLevelBoxes reader videoStart (rdr_size reader)) (\<lambda>boxes.
                    if \<not> list_ex (\<lambda>b. box_type b = js ''moov'') boxes then Inl Structure_invalid
                    else Inr \<lparr>lay_primaryLength = primaryLength, lay_videoType = dir_mime (last items),
                      lay_videoStart = videoStart, lay_videoLength = videoLength\<rparr>)))))))"

end
