(* ===== verification/MotionGuarantees.thy ===== *)
theory MotionGuarantees
  imports MotionPhoto
begin

text \<open>
  What the Motion Photo parsers guarantee about untrusted bytes: extended XMP packets are reassembled
  without loss, the directory is bounded, and a located video is the end of the file.
\<close>

section \<open>Reassembly\<close>

lemma covers_from_iff:
  assumes "sorted (map fst ss)" and "\<forall>(a, b) \<in> set ss. a \<le> b \<and> b \<le> n" and "c \<le> n"
  shows "covers_from c ss = Some n \<longleftrightarrow> (\<forall>i. c \<le> i \<longrightarrow> i < n \<longrightarrow> (\<exists>(a, b) \<in> set ss. a \<le> i \<and> i < b))"
  using assms
proof (induction ss arbitrary: c)
  case Nil
  then show ?case by auto
next
  case (Cons s ss)
  obtain a b where s: "s = (a, b)" by (cases s)
  have ab: "a \<le> b" "b \<le> n" using Cons.prems(2) by (auto simp: s)
  show ?case
  proof (cases "a > c")
    case True
    have "\<not> (\<exists>(x, y) \<in> set (s # ss). x \<le> c \<and> c < y)" using True Cons.prems(1) by (auto simp: s)
    moreover have "c < n" using True ab by simp
    ultimately show ?thesis using True by (auto simp: s)
  next
    case False
    have "covers_from c (s # ss) = Some n \<longleftrightarrow> covers_from (max c b) ss = Some n" using False by (simp add: s)
    also have "\<dots> \<longleftrightarrow> (\<forall>i. max c b \<le> i \<longrightarrow> i < n \<longrightarrow> (\<exists>(a, b) \<in> set ss. a \<le> i \<and> i < b))"
      using Cons.prems ab by (intro Cons.IH) auto
    also have "\<dots> \<longleftrightarrow> (\<forall>i. c \<le> i \<longrightarrow> i < n \<longrightarrow> (\<exists>(a, b) \<in> set (s # ss). a \<le> i \<and> i < b))"
      using False by (force simp: s)
    finally show ?thesis .
  qed
qed

text \<open>The coverage test of a reassembled packet, one pass over the chunks sorted by start, is the
  declarative one: it succeeds exactly when every byte of the packet lies in some received chunk.\<close>

theorem coverage_is_union:
  assumes "\<forall>(a, b) \<in> set (exm_chunks e). a \<le> b \<and> b \<le> exm_total e" and "0 \<le> exm_total e"
  shows "coversWholePacket e \<longleftrightarrow> (\<forall>i. 0 \<le> i \<longrightarrow> i < exm_total e \<longrightarrow> (\<exists>(a, b) \<in> set (exm_chunks e). a \<le> i \<and> i < b))"
  using covers_from_iff [of "sort_key fst (exm_chunks e)" "exm_total e" 0] assms
  by (simp add: coversWholePacket_def)

theorem coverage_is_union_witness:
  "coversWholePacket \<lparr>exm_total = 3, exm_buffer = [7, 8, 9], exm_chunks = [(1, 3), (0, 1)]\<rparr>"
proof -
  have "\<exists>(a, b) \<in> {(1, 3), (0, 1)}. a \<le> i \<and> i < b" if "0 \<le> i" "i < 3" for i :: int
    using that by auto
  then show ?thesis
    using coverage_is_union [of "\<lparr>exm_total = 3, exm_buffer = [7, 8, 9], exm_chunks = [(1, 3), (0, 1)]\<rparr>"] by simp
qed

text \<open>A packet being reassembled, and the chunk messages already in it.\<close>

definition packet_ok :: "extended_xmp \<Rightarrow> (int \<times> byte list) set \<Rightarrow> bool" where
  "packet_ok e received \<longleftrightarrow> int (length (exm_buffer e)) = exm_total e \<and>
     (\<forall>(off, data) \<in> received. 0 \<le> off \<and> off + int (length data) \<le> exm_total e \<and>
        (off, off + int (length data)) \<in> set (exm_chunks e) \<and>
        subarray (exm_buffer e) off (off + int (length data)) = data)"

lemma length_buffer_set: "0 \<le> off \<Longrightarrow> off + int (length data) \<le> int (length buffer) \<Longrightarrow> length (buffer_set buffer data off) = length buffer"
  by (auto simp: buffer_set_def)

lemma buffer_set_same:
  assumes "0 \<le> off" and "off + int (length data) \<le> int (length buffer)"
  shows "subarray (buffer_set buffer data off) off (off + int (length data)) = data"
  using assms subarray_take_drop [of off "int (length data)" "buffer_set buffer data off"]
  by (simp add: buffer_set_def)

lemma buffer_set_other:
  assumes "0 \<le> off" and "off + int (length data) \<le> int (length buffer)" and "0 \<le> a" and "a \<le> b" and "b \<le> int (length buffer)"
    and "\<not> (off < b \<and> a < off + int (length data))"
  shows "subarray (buffer_set buffer data off) a b = subarray buffer a b"
proof (rule nth_equalityI)
  have l: "length (buffer_set buffer data off) = length buffer" using assms(1,2) by (rule length_buffer_set)
  then show "length (subarray (buffer_set buffer data off) a b) = length (subarray buffer a b)" by (simp add: subarray_def)
  fix i assume "i < length (subarray (buffer_set buffer data off) a b)"
  then have i: "nat a + i < nat b" "nat a + i < length buffer" using l assms(3,5) by (auto simp: subarray_def)
  have "nat a + i < nat off \<or> nat off + length data \<le> nat a + i" using assms(1,3,6) i by linarith
  then have "buffer_set buffer data off ! (nat a + i) = buffer ! (nat a + i)"
    using assms(1,2) i by (auto simp: buffer_set_def nth_append)
  with i l show "subarray (buffer_set buffer data off) a b ! i = subarray buffer a b ! i"
    by (simp add: subarray_def)
qed

lemma add_chunk_ok:
  assumes "add_chunk extended guid n off data = Inr extended'" and "0 \<le> off"
    and "\<forall>g e. map_of extended g = Some e \<longrightarrow> packet_ok e (received g)"
    and "\<forall>g. map_of extended g = None \<longrightarrow> received g = {}"
  shows "(\<forall>g e. map_of extended' g = Some e \<longrightarrow> packet_ok e ((received(guid := insert (off, data) (received guid))) g)) \<and>
    (\<forall>g. map_of extended' g = None \<longrightarrow> (received(guid := insert (off, data) (received guid))) g = {})"
proof -
  let ?stop = "off + int (length data)"
  obtain entry where entry: "(case map_of extended guid of Some entry \<Rightarrow> Inr entry
      | None \<Rightarrow> if length extended \<ge> 4 then Inl Limit_exceeded
                else Inr \<lparr>exm_total = n, exm_buffer = replicate (nat n) 0, exm_chunks = []\<rparr>) = Inr entry"
    and fits: "?stop \<le> n" and total: "exm_total entry = n"
    and step: "if (off, ?stop) \<in> set (exm_chunks entry)
        then subarray (exm_buffer entry) off ?stop = data \<and> extended' = map_set guid entry extended
        else \<not> list_ex (\<lambda>(a, b). off < b \<and> a < ?stop) (exm_chunks entry) \<and>
          extended' = map_set guid (entry\<lparr>exm_buffer := buffer_set (exm_buffer entry) data off,
            exm_chunks := exm_chunks entry @ [(off, ?stop)]\<rparr>) extended"
    using assms(1) by (auto simp: add_chunk_def Let_def rbind_Inr_iff split: if_splits)
  have old: "packet_ok entry (received guid)"
    using entry assms(2-4) fits by (auto simp: packet_ok_def split: option.splits if_splits)
  then have len: "int (length (exm_buffer entry)) = n" using total by (simp add: packet_ok_def)
  obtain new where new: "extended' = map_set guid new extended" "packet_ok new (insert (off, data) (received guid))"
  proof (cases "(off, ?stop) \<in> set (exm_chunks entry)")
    case True
    then show ?thesis using that [of entry] step old assms(2) fits total by (simp add: packet_ok_def)
  next
    case False
    let ?new = "entry\<lparr>exm_buffer := buffer_set (exm_buffer entry) data off, exm_chunks := exm_chunks entry @ [(off, ?stop)]\<rparr>"
    have disjoint: "\<not> (off < b \<and> a < ?stop)" if "(a, b) \<in> set (exm_chunks entry)" for a b
      using that step False by (auto simp: list_ex_iff)
    have kept: "subarray (exm_buffer ?new) o' (o' + int (length d')) = d'" if "(o', d') \<in> received guid" for o' d'
    proof -
      have h: "0 \<le> o'" "o' + int (length d') \<le> n" "(o', o' + int (length d')) \<in> set (exm_chunks entry)"
          "subarray (exm_buffer entry) o' (o' + int (length d')) = d'"
        using old that total by (auto simp: packet_ok_def)
      show ?thesis
        using buffer_set_other [of off data "exm_buffer entry" o' "o' + int (length d')"] assms(2) fits len h disjoint [OF h(3)] by simp
    qed
    have "packet_ok ?new (insert (off, data) (received guid))"
      using old kept assms(2) fits len total buffer_set_same [of off data "exm_buffer entry"]
        length_buffer_set [of off data "exm_buffer entry"]
      by (auto simp: packet_ok_def)
    then show ?thesis using that [of ?new] step False by simp
  qed
  then show ?thesis using assms(3,4) by (auto simp: map_of_map_set split: if_splits)
qed

text \<open>Chunk messages, one after another.\<close>

fun add_chunks ::
    "(jstr \<times> extended_xmp) list \<Rightarrow> (jstr \<times> int \<times> int \<times> byte list) list \<Rightarrow> (jstr \<times> extended_xmp) list parsed" where
  "add_chunks extended [] = Inr extended"
| "add_chunks extended ((guid, n, off, data) # messages) =
     rbind (add_chunk extended guid n off data) (\<lambda>extended. add_chunks extended messages)"

lemma add_chunks_ok:
  assumes "add_chunks extended messages = Inr extended'" and "\<forall>(g, n, off, data) \<in> set messages. 0 \<le> off"
    and "\<forall>g e. map_of extended g = Some e \<longrightarrow> packet_ok e (received g)"
    and "\<forall>g. map_of extended g = None \<longrightarrow> received g = {}"
  shows "\<exists>received'. (\<forall>g. received g \<subseteq> received' g) \<and> (\<forall>(g, n, off, data) \<in> set messages. (off, data) \<in> received' g) \<and>
    (\<forall>g e. map_of extended' g = Some e \<longrightarrow> packet_ok e (received' g)) \<and>
    (\<forall>g. map_of extended' g = None \<longrightarrow> received' g = {})"
  using assms
proof (induction messages arbitrary: extended received)
  case Nil
  then show ?case by auto
next
  case (Cons m messages)
  obtain guid n off data where m: "m = (guid, n, off, data)" by (cases m) auto
  obtain ext1 where ext1: "add_chunk extended guid n off data = Inr ext1" "add_chunks ext1 messages = Inr extended'"
    using Cons.prems(1) by (auto simp: m rbind_Inr_iff)
  let ?r = "received(guid := insert (off, data) (received guid))"
  have s: "\<forall>g e. map_of ext1 g = Some e \<longrightarrow> packet_ok e (?r g)" "\<forall>g. map_of ext1 g = None \<longrightarrow> ?r g = {}"
    using add_chunk_ok [OF ext1(1) _ Cons.prems(3,4)] Cons.prems(2) by (auto simp: m)
  have nonneg: "\<forall>(g, n, off, data) \<in> set messages. 0 \<le> off" using Cons.prems(2) by simp
  obtain received' where r: "\<forall>g. ?r g \<subseteq> received' g"
      "\<forall>(g, n, off, data) \<in> set messages. (off, data) \<in> received' g"
      "\<forall>g e. map_of extended' g = Some e \<longrightarrow> packet_ok e (received' g)" "\<forall>g. map_of extended' g = None \<longrightarrow> received' g = {}"
    using Cons.IH [OF ext1(2) nonneg s] by blast
  have "(off, data) \<in> received' guid" using r(1) by (metis fun_upd_same insert_subset)
  moreover have "received g \<subseteq> received' g" for g using r(1) by (metis fun_upd_apply insert_subset)
  ultimately show ?case using r(2-4) by (auto simp: m intro!: exI [of _ received'])
qed

text \<open>No chunk of extended XMP is ever lost or overwritten. When a sequence of chunk messages is
  accepted, then for each of them the packet of its GUID exists and holds exactly its bytes at its
  offset, repeats included: overlapping, conflicting or oversized chunks were refused.\<close>

theorem xmp_chunks_kept:
  assumes "add_chunks [] messages = Inr extended" and "\<forall>(g, n, off, data) \<in> set messages. 0 \<le> off"
    and "(guid, n, off, data) \<in> set messages"
  shows "\<exists>e. map_of extended guid = Some e \<and> off + int (length data) \<le> exm_total e \<and>
    subarray (exm_buffer e) off (off + int (length data)) = data"
proof -
  obtain received where r: "\<forall>(g, n, off, data) \<in> set messages. (off, data) \<in> received g"
      "\<forall>g e. map_of extended g = Some e \<longrightarrow> packet_ok e (received g)" "\<forall>g. map_of extended g = None \<longrightarrow> received g = {}"
    using add_chunks_ok [OF assms(1,2), of "\<lambda>_. {}"] by auto
  have m: "(off, data) \<in> received guid" using r(1) assms(3) by auto
  then obtain e where "map_of extended guid = Some e" using r(3) by (cases "map_of extended guid") auto
  moreover from this have "packet_ok e (received guid)" using r(2) by blast
  ultimately show ?thesis using m unfolding packet_ok_def by blast
qed

theorem xmp_chunks_kept_witness:
  "\<exists>e. map_of [([1], \<lparr>exm_total = 3, exm_buffer = [7, 8, 9], exm_chunks = [(1, 3), (0, 1)]\<rparr>)] [1] = Some e \<and>
     subarray (exm_buffer e) 1 3 = [8, 9]"
proof -
  have "add_chunks [] [([1], 3, 1, [8, 9]), ([1], 3, 0, [7]), ([1], 3, 1, [8, 9])] =
      Inr [([1], \<lparr>exm_total = 3, exm_buffer = [7, 8, 9], exm_chunks = [(1, 3), (0, 1)]\<rparr>)]"
    by (simp add: add_chunk_def maxXmpBytes_def maxExtendedChunks_def buffer_set_def subarray_def numeral_3_eq_3 numeral_2_eq_2)
  from xmp_chunks_kept [OF this, of "[1]" 3 1 "[8, 9]"] show ?thesis by simp
qed

section \<open>The directory\<close>

definition item_ok :: "directory_item \<Rightarrow> bool" where
  "item_ok i \<longleftrightarrow> MIME_PATTERN (dir_mime i) \<and> SEMANTIC_PATTERN (dir_semantic i) \<and>
     (\<forall>n. dir_length i = Some n \<longrightarrow> 0 \<le> n \<and> n < 10 ^ 15) \<and> 0 \<le> dir_padding i \<and> dir_padding i < 10 ^ 15"

lemma digits_value_bounds: "list_all is_digit s \<Longrightarrow> 0 \<le> digits_value s \<and> digits_value s < 10 ^ length s"
proof (induction s rule: rev_induct)
  case (snoc c s)
  then show ?case by (auto simp: digits_value_def is_digit_def)
qed (simp add: digits_value_def)

lemma decimal_bounds: "decimal v = Inr (Some n) \<Longrightarrow> 0 \<le> n \<and> n < 10 ^ 15"
proof -
  assume "decimal v = Inr (Some n)"
  then obtain s where s: "list_all is_digit (jtrim s)" "length (jtrim s) \<le> 15" "n = digits_value (jtrim s)"
    by (auto simp: decimal_def Let_def maxDecimalDigits_def split: option.splits if_splits)
  have "(10 :: int) ^ length (jtrim s) \<le> 10 ^ 15" using s(2) by (intro power_increasing) auto
  with digits_value_bounds [OF s(1)] s(3) show ?thesis by auto
qed

lemma read_item_ok:
  assumes "read_item found items = Inr items'" and "list_all item_ok items"
  shows "list_all item_ok items' \<and> length items' \<le> maxDirectoryItems"
proof -
  obtain len padding where d: "decimal (map_of found (js ''Length'')) = Inr len" "decimal (map_of found (js ''Padding'')) = Inr padding"
    and m: "MIME_PATTERN (field_or (map_of found (js ''Mime'')))" "SEMANTIC_PATTERN (field_or (map_of found (js ''Semantic'')))"
    and l: "length items < maxDirectoryItems"
    and i: "items' = items @ [\<lparr>dir_mime = field_or (map_of found (js ''Mime'')), dir_semantic = field_or (map_of found (js ''Semantic'')),
      dir_length = len, dir_padding = (case padding of None \<Rightarrow> 0 | Some p \<Rightarrow> p)\<rparr>]"
    using assms(1) by (auto simp: read_item_def Let_def rbind_Inr_iff split: if_splits)
  have "0 \<le> n \<and> n < 10 ^ 15" if "len = Some n" for n using decimal_bounds d(1) that by simp
  moreover have "0 \<le> (case padding of None \<Rightarrow> 0 | Some p \<Rightarrow> p) \<and> (case padding of None \<Rightarrow> 0 | Some p \<Rightarrow> p) < 10 ^ 15"
    using decimal_bounds d(2) by (cases padding) auto
  ultimately show ?thesis using assms(2) m l i by (simp add: item_ok_def)
qed

lemma directory_loop_ok:
  assumes "directory_loop ns events depth items = Inr items'" and "list_all item_ok items" and "length items \<le> maxDirectoryItems"
  shows "list_all item_ok items' \<and> length items' \<le> maxDirectoryItems"
  using assms
proof (induction ns events depth items rule: directory_loop.induct)
  case (2 ns event events depth items)
  show ?case
  proof (cases "xml_kind event = Xml_open \<and> isElement ns event container_namespace (js ''Item'')")
    case False
    with 2 show ?thesis by (auto split: if_splits)
  next
    case True
    obtain found events' where p: "(if xml_selfClosing event then (attribute_fields ns (xml_attributes event) [], events)
        else element_fields ns events 0 None (attribute_fields ns (xml_attributes event) [])) = (found, events')"
      by (metis surj_pair)
    obtain items1 where i: "read_item found items = Inr items1" "directory_loop ns events' depth items1 = Inr items'"
      using "2.prems"(1) True p by (auto simp: rbind_Inr_iff simp del: if_split)
    have k: "xml_kind event \<noteq> Xml_close" "\<not> xml_kind event \<noteq> Xml_open" "\<not> \<not> isElement ns event container_namespace (js ''Item'')"
      using True by auto
    from "2.IH"(4) [OF k p [symmetric] i(1) i(2)] read_item_ok [OF i(1) "2.prems"(2)] show ?thesis by simp
  qed
qed simp

text \<open>A container directory read from untrusted XMP has at most sixteen items, each with a media type
  and a semantic of the accepted shapes and a length and padding of at most fifteen decimal digits, so
  the layout arithmetic on them stays in the safe integers.\<close>

theorem directory_items_bounded:
  assumes "readMotionPhotoDirectory xmp = Inr (Some items)"
  shows "length items \<le> 16 \<and> list_all item_ok items"
proof -
  obtain ns events where "directory_loop ns events 0 [] = Inr items"
    using assms by (auto simp: readMotionPhotoDirectory_def rbind_Inr_iff split: option.splits if_splits)
  from directory_loop_ok [OF this] show ?thesis by (simp add: maxDirectoryItems_def)
qed

section \<open>The layout\<close>

definition declared_length :: "directory_item \<Rightarrow> int" where
  "declared_length i = (case dir_length i of None \<Rightarrow> 0 | Some n \<Rightarrow> n) + dir_padding i"

lemma trailing_from_sum:
  assumes "trailing_from t items = Inr total_bytes"
  shows "total_bytes = t + sum_list (map declared_length items) \<and> list_all (\<lambda>i. \<exists>n > 0. dir_length i = Some n) items"
  using assms
proof (induction items arbitrary: t)
  case (Cons i items)
  obtain n where n: "dir_length i = Some n" "0 < n" "trailing_from (t + (n + dir_padding i)) items = Inr total_bytes"
    using Cons.prems by (auto split: option.splits if_splits)
  from Cons.IH [OF n(3)] n show ?case by (simp add: declared_length_def)
qed simp

context byte_source begin

lemma located_video:
  assumes "locateMotionPhotoVideo rd primaryType items = Inr lay"
  shows "2 \<le> length items \<and> directory_shape primaryType items \<and>
    lay_primaryLength lay + dir_padding (hd items) + sum_list (map declared_length (tl items)) = int (length content) \<and>
    0 < lay_primaryLength lay \<and> 24 \<le> lay_videoLength lay \<and>
    dir_length (last items) = Some (lay_videoLength lay) \<and> lay_videoType lay = dir_mime (last items) \<and>
    lay_videoStart lay + lay_videoLength lay = int (length content) \<and> 0 \<le> lay_videoStart lay \<and>
    fourCc (drop (nat (lay_videoStart lay)) content) 4 = Inr (js ''ftyp'') \<and>
    (\<exists>boxes. tiles (lay_videoStart lay) (int (length content)) boxes \<and> (\<exists>b \<in> set boxes. box_type b = js ''moov''))"
proof -
  have g: "2 \<le> length items" "directory_shape primaryType items"
    using assms by (auto simp: locateMotionPhotoVideo_def split: if_splits)
  obtain t where t: "trailing_from (dir_padding (hd items)) (tl items) = Inr t" "t < rdr_size rd"
    using assms g by (auto simp: locateMotionPhotoVideo_def rbind_Inr_iff Let_def split: if_splits)
  let ?v = "the (dir_length (last items))"
  obtain head signature brand boxes where h: "\<not> ?v < 24" "rdr_read rd (rdr_size rd - ?v) (min 64 ?v) = Inr head"
      "fourCc head 4 = Inr brand" "brand = js ''ftyp''"
      "readTopLevelBoxes rd (rdr_size rd - ?v) (rdr_size rd) = Inr boxes" "list_ex (\<lambda>b. box_type b = js ''moov'') boxes"
      "lay = \<lparr>lay_primaryLength = rdr_size rd - t, lay_videoType = dir_mime (last items),
         lay_videoStart = rdr_size rd - ?v, lay_videoLength = ?v\<rparr>"
    using assms g t by (auto simp: locateMotionPhotoVideo_def rbind_Inr_iff Let_def split: if_splits)
  note r = read_Inr [OF h(2)]
  have "last items \<in> set (tl items)" using g(1) by (cases items) auto
  then obtain n where n: "dir_length (last items) = Some n"
    using trailing_from_sum [OF t(1)] by (auto simp: list_all_iff)
  have "tiles (rdr_size rd - ?v) (rdr_size rd) boxes"
    using readTopLevelBoxes_tiles(1) [OF h(5)] r(1) size_content h(1) by simp
  moreover have "fourCc (drop (nat (rdr_size rd - ?v)) content) 4 = Inr (js ''ftyp'')"
  proof -
    have "head = take (nat (min 64 ?v)) (drop (nat (rdr_size rd - ?v)) content)" using r(5) by simp
    moreover have "8 \<le> nat (min 64 ?v)" using h(1) by simp
    ultimately have "bytes_at head 4 4 = bytes_at (drop (nat (rdr_size rd - ?v)) content) 4 4"
      by (simp add: bytes_at_def drop_take)
    with h(3,4) show ?thesis
      using \<open>head = _\<close> by (auto simp: fourCc_value split: if_splits)
  qed
  ultimately show ?thesis
    using g h(1,6) r(1) n t(2) trailing_from_sum [OF t(1)] size_content
    unfolding h(7) by (auto simp: list_ex_iff)
qed

end

text \<open>C21: a located Motion Photo video is accounted for to the byte. The primary image, the paddings and the
  declared lengths of the other items add up to the file; the video is the last item, ends at the end
  of the file, is at least 24 bytes long and begins with an \<open>ftyp\<close> box; and from its start to the end
  of the file the bytes are an exact tiling by boxes, a \<open>moov\<close> among them.\<close>

theorem motion_layout_sound:
  assumes "locateMotionPhotoVideo (bufferByteReader content) primaryType items = Inr lay"
  shows "2 \<le> length items \<and> directory_shape primaryType items \<and>
    lay_primaryLength lay + dir_padding (hd items) + sum_list (map declared_length (tl items)) = int (length content) \<and>
    0 < lay_primaryLength lay \<and> 24 \<le> lay_videoLength lay \<and>
    dir_length (last items) = Some (lay_videoLength lay) \<and> lay_videoType lay = dir_mime (last items) \<and>
    lay_videoStart lay + lay_videoLength lay = int (length content) \<and> 0 \<le> lay_videoStart lay \<and>
    fourCc (drop (nat (lay_videoStart lay)) content) 4 = Inr (js ''ftyp'') \<and>
    (\<exists>boxes. tiles (lay_videoStart lay) (int (length content)) boxes \<and> (\<exists>b \<in> set boxes. box_type b = js ''moov''))"
  by (rule buffer.located_video [OF assms])

definition sample_motion :: "byte list" where
  "sample_motion = [0xff, 0xd9, 0, 0, 0, 16, 102, 116, 121, 112, 105, 115, 111, 109, 0, 0, 0, 0, 0, 0, 0, 8, 109, 111, 111, 118]"

definition sample_directory :: "directory_item list" where
  "sample_directory = [\<lparr>dir_mime = js ''image/jpeg'', dir_semantic = js ''Primary'', dir_length = None, dir_padding = 0\<rparr>,
     \<lparr>dir_mime = js ''video/mp4'', dir_semantic = js ''MotionPhoto'', dir_length = Some 24, dir_padding = 0\<rparr>]"

lemma sample_motion_boxes:
  "readTopLevelBoxes (bufferByteReader sample_motion) 2 26 = Inr
    [\<lparr>box_type = js ''ftyp'', box_start = 2, box_headerSize = 8, box_size = 16, box_end = 18, box_contentStart = 10\<rparr>,
     \<lparr>box_type = js ''moov'', box_start = 18, box_headerSize = 8, box_size = 8, box_end = 26, box_contentStart = 26\<rparr>]"
proof -
  let ?r = "bufferByteReader sample_motion"
  have r: "rdr_read ?r 2 24 = Inr (drop 2 sample_motion)" "rdr_read ?r 18 8 = Inr [0, 0, 0, 8, 109, 111, 111, 118]"
    by (simp_all add: bufferByteReader_def sample_motion_def assertRange_def is_safe_integer_def MAX_SAFE_INTEGER_def subarray_def)
  have u: "u32be (drop 2 sample_motion) 0 = Inr 16" "u32be [0, 0, 0, 8, 109, 111, 111, 118] 0 = Inr 8"
      "fourCc (drop 2 sample_motion) 4 = Inr (js ''ftyp'')" "fourCc [0, 0, 0, 8, 109, 111, 111, 118] 4 = Inr (js ''moov'')"
    by (simp_all add: u32be_value fourCc_value bytes_at_def be_value_def sample_motion_def js_def)
  have n: "js ''ftyp'' \<noteq> js ''uuid''" "js ''moov'' \<noteq> js ''uuid''" by (simp_all add: js_def)
  have p: "parseBoxHeader (drop 2 sample_motion) 2 26 True 2 = Inr \<lparr>box_type = js ''ftyp'', box_start = 2, box_headerSize = 8,
       box_size = 16, box_end = 18, box_contentStart = 10\<rparr>"
    "parseBoxHeader [0, 0, 0, 8, 109, 111, 111, 118] 18 26 True 18 = Inr \<lparr>box_type = js ''moov'', box_start = 18,
       box_headerSize = 8, box_size = 8, box_end = 26, box_contentStart = 26\<rparr>"
    by (simp_all add: parseBoxHeader_def u box_sizes_def n)
  show ?thesis
    unfolding readTopLevelBoxes_def
    by (subst topLevel_loop.simps, simp add: r u p maxTopLevelBoxes_def, subst topLevel_loop.simps,
        simp add: r u p maxTopLevelBoxes_def, subst topLevel_loop.simps, simp)
qed

lemma sample_motion_head: "drop 2 sample_motion = ftyp_head 16 (ascii_bytes ''isom'') [0, 0, 0, 0] [] (drop 18 sample_motion)"
  by (simp add: sample_motion_def ftyp_head_def ascii_bytes_def numeral_eq_Suc)

theorem motion_layout_sound_witness:
  "\<exists>lay. locateMotionPhotoVideo (bufferByteReader sample_motion) Primary_jpeg sample_directory = Inr lay \<and>
     lay_primaryLength lay + dir_padding (hd sample_directory) + 24 = int (length sample_motion)"
proof -
  let ?r = "bufferByteReader sample_motion"
  have r: "rdr_read ?r 2 24 = Inr (drop 2 sample_motion)" "rdr_read ?r 0 2 = Inr [0xff, 0xd9]" "rdr_size ?r = 26"
    by (simp_all add: bufferByteReader_def sample_motion_def assertRange_def is_safe_integer_def MAX_SAFE_INTEGER_def subarray_def)
  have f: "fourCc (drop 2 sample_motion) 4 = Inr (js ''ftyp'')"
    by (simp add: fourCc_value bytes_at_def sample_motion_def js_def)
  have m: "sig_type (brands_type [js ''isom'']) = Sniffed_mp4"
    unfolding brands_type_def Let_def
    by (simp add: js_def sniffed_def RAW_ISOBMFF_BRANDS_def HEIF_SEQUENCE_BRANDS_def HEIC_BRANDS_def MP4_BRANDS_def)
  have s: "sniffSignature (drop 2 sample_motion) = Inr (brands_type [js ''isom''])"
    using sniff_ftyp [of "ascii_bytes ''isom''" "[0, 0, 0, 0]" "[]" 16 "drop 18 sample_motion", folded sample_motion_head]
    by (simp add: unat_ascii_bytes) (simp add: sample_motion_def)
  have d: "directory_shape Primary_jpeg sample_directory"
    by (simp add: directory_shape_def sample_directory_def PRIMARY_MIMES_def) (simp add: js_def)
  obtain lay where l: "locateMotionPhotoVideo ?r Primary_jpeg sample_directory = Inr lay"
    using s m d by (auto simp: locateMotionPhotoVideo_def sample_directory_def r f junction_ok_def sample_motion_boxes
        is_safe_integer_def MAX_SAFE_INTEGER_def byte_at_def)
  from motion_layout_sound [OF l] l show ?thesis
    by (auto simp: sample_directory_def declared_length_def)
qed

end
