(* ===== verification/MotionWritten.thy ===== *)
theory MotionWritten
  imports MotionGuarantees
begin

text \<open>
  A writer of container directories, and the proof that the tokenizer and the directory reader of
  \<open>MotionPhoto\<close> give back what it writes.
\<close>

section \<open>Writing\<close>

fun digits :: "nat \<Rightarrow> jstr" where
  "digits n = (if n < 10 then [48 + n] else digits (n div 10) @ [48 + n mod 10])"

declare digits.simps [simp del]

definition attribute_text :: "jstr \<times> jstr \<Rightarrow> jstr" where
  "attribute_text a = 32 # fst a @ 61 # 34 # snd a @ [34]"

definition item_attributes :: "directory_item \<Rightarrow> (jstr \<times> jstr) list" where
  "item_attributes i = [(js ''i:Mime'', dir_mime i), (js ''i:Semantic'', dir_semantic i)] @
     (case dir_length i of None \<Rightarrow> [] | Some n \<Rightarrow> [(js ''i:Length'', digits (nat n))]) @ [(js ''i:Padding'', digits (nat (dir_padding i)))]"

definition item_text :: "directory_item \<Rightarrow> jstr" where
  "item_text i = 60 # js ''c:Item'' @ concat (map attribute_text (item_attributes i)) @ [47, 62]"

definition directory_attributes :: "(jstr \<times> jstr) list" where
  "directory_attributes = [(js ''xmlns:c'', container_namespace), (js ''xmlns:i'', item_namespace)]"

definition directory_text :: "directory_item list \<Rightarrow> jstr" where
  "directory_text items = 60 # js ''c:Directory'' @ concat (map attribute_text directory_attributes) @ [62] @
     concat (map item_text items) @ 60 # 47 # js ''c:Directory'' @ [62]"

section \<open>Numbers\<close>

lemma digits_ok: "list_all is_digit (digits n) \<and> digits n \<noteq> []"
proof (induction n rule: digits.induct)
  case (1 n)
  have "is_digit (48 + n mod 10)" "n < 10 \<Longrightarrow> is_digit (48 + n)" by (simp_all add: is_digit_def)
  with 1 show ?case by (subst (1 2) digits.simps) simp
qed

lemma digits_value_digits: "digits_value (digits n) = int n"
proof (induction n rule: digits.induct)
  case (1 n)
  show ?case
  proof (cases "n < 10")
    case False
    then have "digits_value (digits n) = int (n div 10) * 10 + int (n mod 10)"
      using 1 by (subst digits.simps) (simp add: digits_value_def)
    also have "\<dots> = int n" by (simp add: zdiv_int zmod_int)
    finally show ?thesis .
  qed (simp add: digits.simps digits_value_def)
qed

lemma length_digits: "n < 10 ^ Suc k \<Longrightarrow> length (digits n) \<le> Suc k"
proof (induction k arbitrary: n)
  case 0
  then show ?case by (simp add: digits.simps)
next
  case (Suc k)
  show ?case
  proof (cases "n < 10")
    case False
    have "length (digits (n div 10)) \<le> Suc k" using Suc.prems by (intro Suc.IH) (simp add: less_mult_imp_div_less)
    with False show ?thesis by (subst digits.simps) simp
  qed (simp add: digits.simps)
qed

lemma jtrim_plain: "list_all (\<lambda>c. \<not> is_js_space c) s \<Longrightarrow> jtrim s = s"
  by (cases "s = []") (auto simp: jtrim_def dropWhile_hd_false hd_rev list_all_iff)

lemma decimal_digits:
  assumes "0 \<le> n" and "n < 10 ^ 15"
  shows "decimal (Some (digits (nat n))) = Inr (Some n)"
proof -
  have "list_all (\<lambda>c. \<not> is_js_space c) (digits (nat n))"
    using digits_ok [of "nat n"] by (auto simp: list_all_iff is_digit_def is_js_space_def)
  then have t: "jtrim (digits (nat n)) = digits (nat n)" by (rule jtrim_plain)
  have "length (digits (nat n)) \<le> Suc 14" using assms by (intro length_digits) (simp add: nat_less_iff)
  moreover have "1 \<le> length (digits (nat n))" using digits_ok [of "nat n"] by (cases "digits (nat n)") auto
  ultimately show ?thesis
    using digits_ok [of "nat n"] assms by (simp add: decimal_def t maxDecimalDigits_def digits_value_digits)
qed

section \<open>Attributes\<close>

text \<open>An attribute the tokenizer reads back: its name is one it matches, its value has no quote and no
  ampersand.\<close>

definition attribute_ok :: "jstr \<times> jstr \<Rightarrow> bool" where
  "attribute_ok a \<longleftrightarrow> (\<forall>r. readName (fst a @ 61 # r) = Inr (fst a)) \<and> fst a \<noteq> [] \<and> name_start (hd (fst a)) \<and>
     34 \<notin> set (snd a) \<and> 38 \<notin> set (snd a)"

lemma decodeEntities_plain: "38 \<notin> set s \<Longrightarrow> decodeEntities s = s"
  by (induction s) auto

lemma sub_index_unit: "c \<notin> set v \<Longrightarrow> sub_index [c] (v @ c # rest) = Some (length v)"
  by (induction v) auto

lemma skip_space_start: "name_start c \<or> c \<in> {34, 47, 61, 62} \<Longrightarrow> skip_space (c # cs) = c # cs"
  by (auto simp: skip_space_def is_js_space_def name_start_def is_alpha_def is_upper_def is_lower_def)

lemma name_start_not: "name_start c \<Longrightarrow> c \<noteq> 62 \<and> c \<noteq> 47 \<and> c \<noteq> 32 \<and> c \<noteq> 33 \<and> c \<noteq> 63"
  by (auto simp: name_start_def is_alpha_def is_upper_def is_lower_def)

lemma tag_loop_attribute:
  assumes "attribute_ok a" and "length attributes < maxAttributes"
  shows "tag_loop False (attribute_text a @ rest) attributes = tag_loop False rest (map_set (fst a) (snd a) attributes)"
proof -
  obtain n v where a: "a = (n, v)" by (cases a)
  obtain c cs where n: "n = c # cs" "name_start c" using assms(1) by (cases n) (auto simp: attribute_ok_def a)
  let ?tail = "61 # 34 # v @ 34 # rest"
  have s1: "skip_space (32 # n @ ?tail) = n @ ?tail"
    using skip_space_start [of c "cs @ ?tail"] n by (simp add: skip_space_def is_js_space_def)
  have nm: "readName (n @ ?tail) = Inr n" using assms(1) by (auto simp: attribute_ok_def a)
  have q: "34 \<notin> set v" "38 \<notin> set v" using assms(1) by (auto simp: attribute_ok_def a)
  have k: "skipTo [34] (v @ 34 # rest) = Inr (length v)" using sub_index_unit [OF q(1)] by (simp add: skipTo_def)
  have st: "\<not> starts_with (n @ ?tail) (js ''/>'')" "hd (n @ ?tail) \<noteq> 62" "n @ ?tail \<noteq> []"
    using name_start_not [OF n(2)] by (simp_all add: n(1) js_def)
  have "tag_loop False (32 # n @ ?tail) attributes =
      tag_loop False rest (map_set n (decodeEntities v) attributes)"
    using assms(2) st
    by (subst tag_loop.simps) (simp add: Let_def s1 nm skip_space_start k)
  then show ?thesis by (simp add: a attribute_text_def decodeEntities_plain [OF q(2)])
qed

lemma tag_loop_attributes:
  assumes "list_all attribute_ok as" and "length attributes + length as \<le> maxAttributes"
    and "distinct (map fst as)" and "fst ` set attributes \<inter> fst ` set as = {}"
  shows "tag_loop False (concat (map attribute_text as) @ rest) attributes = tag_loop False rest (attributes @ as)"
  using assms
proof (induction as arbitrary: attributes)
  case (Cons a as)
  have "map_set (fst a) (snd a) attributes = attributes @ [a]"
  proof -
    have "fst a \<notin> fst ` set attributes" using Cons.prems(4) by auto
    then show ?thesis by (induction attributes) auto
  qed
  then have "tag_loop False (concat (map attribute_text (a # as)) @ rest) attributes =
      tag_loop False (concat (map attribute_text as) @ rest) (attributes @ [a])"
    using tag_loop_attribute [of a attributes "concat (map attribute_text as) @ rest"] Cons.prems by simp
  also have "\<dots> = tag_loop False rest ((attributes @ [a]) @ as)"
    by (rule Cons.IH) (use Cons.prems in auto)
  finally show ?case by simp
qed simp

lemma tag_loop_ends:
  "tag_loop closing (62 # rest) attributes = Inr (attributes, False, rest)"
  "tag_loop False (47 # 62 # rest) attributes = Inr (attributes, True, rest)"
  by (subst tag_loop.simps, simp add: skip_space_start js_def)+

section \<open>Tags\<close>

lemma xml_loop_tag:
  assumes "\<And>r. d = hd r \<Longrightarrow> r \<noteq> [] \<Longrightarrow> readName (name @ r) = Inr name" and "name \<noteq> []" and "name_start (hd name)"
    and "tag_loop False (d # r) [] = Inr (attributes, selfClosing, rest)" and "length events < maxXmlEvents"
  shows "xml_loop (60 # name @ d # r) events = xml_loop rest (events @ [\<lparr>xml_kind = Xml_open, xml_name = name,
    xml_attributes = attributes, xml_selfClosing = selfClosing, xml_text = []\<rparr>])"
proof -
  have n: "hd name \<noteq> 47" "hd name \<noteq> 33" "hd name \<noteq> 63" using name_start_not [OF assms(3)] by auto
  have nm: "readName (name @ d # r) = Inr name" using assms(1) [of "d # r"] by simp
  have h: "\<exists>c cs. name = c # cs" using assms(2) by (cases name) auto
  have st: "\<not> starts_with (60 # name @ d # r) (js ''<!--'')" "\<not> starts_with (60 # name @ d # r) (js ''<![CDATA['')"
      "\<not> starts_with (60 # name @ d # r) (js ''<?'')" "\<not> starts_with (60 # name @ d # r) (js ''<!'')"
    using n h by (auto simp: js_def)
  show ?thesis
    using assms(2,5) n by (subst xml_loop.simps) (simp add: Let_def st nm assms(4) push_event_def)
qed

lemma xml_loop_close:
  assumes "readName (name @ 62 # rest) = Inr name" and "length events < maxXmlEvents"
  shows "xml_loop (60 # 47 # name @ 62 # rest) events = xml_loop rest (events @ [\<lparr>xml_kind = Xml_close, xml_name = name,
    xml_attributes = [], xml_selfClosing = False, xml_text = []\<rparr>])"
proof -
  have st: "\<not> starts_with (60 # 47 # name @ 62 # rest) (js ''<!--'')" "\<not> starts_with (60 # 47 # name @ 62 # rest) (js ''<![CDATA['')"
      "\<not> starts_with (60 # 47 # name @ 62 # rest) (js ''<?'')" "\<not> starts_with (60 # 47 # name @ 62 # rest) (js ''<!'')"
    by (simp_all add: js_def)
  show ?thesis
    using assms by (subst xml_loop.simps) (simp add: Let_def st tag_loop_ends push_event_def)
qed

section \<open>The written directory\<close>

lemmas name_defs = readName_def js_def name_start_def name_char_def is_alpha_def is_upper_def is_lower_def is_digit_def

lemma written_names:
  "readName (js ''i:Mime'' @ 61 # r) = Inr (js ''i:Mime'')" "readName (js ''i:Semantic'' @ 61 # r) = Inr (js ''i:Semantic'')"
  "readName (js ''i:Length'' @ 61 # r) = Inr (js ''i:Length'')" "readName (js ''i:Padding'' @ 61 # r) = Inr (js ''i:Padding'')"
  "readName (js ''xmlns:c'' @ 61 # r) = Inr (js ''xmlns:c'')" "readName (js ''xmlns:i'' @ 61 # r) = Inr (js ''xmlns:i'')"
  "readName (js ''c:Item'' @ 32 # r) = Inr (js ''c:Item'')" "readName (js ''c:Directory'' @ 32 # r) = Inr (js ''c:Directory'')"
  "readName (js ''c:Directory'' @ 62 # r) = Inr (js ''c:Directory'')"
  by (simp_all add: name_defs)

lemma written_starts:
  "name_start (hd (js ''i:Mime''))" "name_start (hd (js ''i:Semantic''))" "name_start (hd (js ''i:Length''))"
  "name_start (hd (js ''i:Padding''))" "name_start (hd (js ''xmlns:c''))" "name_start (hd (js ''xmlns:i''))"
  "name_start (hd (js ''c:Item''))" "name_start (hd (js ''c:Directory''))"
  by (simp_all add: name_defs)

lemma js_ne: "js (c # cs) \<noteq> []"
  by (simp add: js_def)

lemma directory_attributes_ok: "list_all attribute_ok directory_attributes"
  by (simp add: directory_attributes_def attribute_ok_def written_names written_starts js_ne)
    (simp add: container_namespace_def item_namespace_def js_def)

lemma MIME_PATTERN_plain: "MIME_PATTERN s \<Longrightarrow> 34 \<notin> set s \<and> 38 \<notin> set s"
proof -
  assume "MIME_PATTERN s"
  then obtain i where i: "index_of 47 s = Some i" "list_all is_lower (take i s)"
      "list_all (\<lambda>c. is_lower c \<or> is_digit c \<or> c = 46 \<or> c = 43 \<or> c = 45) (drop (Suc i) s)"
    by (auto simp: MIME_PATTERN_def Let_def split: option.splits)
  have e: "s = take i s @ s ! i # drop (Suc i) s" using index_of_Some [OF i(1)] by (intro id_take_nth_drop) simp
  have "c \<in> set (take i s) \<or> c = s ! i \<or> c \<in> set (drop (Suc i) s)" if "c \<in> set s" for c
    using that by (subst (asm) e) auto
  with i(2,3) index_of_Some [OF i(1)] show ?thesis
    by (fastforce simp: list_all_iff is_lower_def is_digit_def)
qed

lemma item_attributes_ok:
  assumes "item_ok i"
  shows "list_all attribute_ok (item_attributes i)"
proof -
  have d: "34 \<notin> set (digits n) \<and> 38 \<notin> set (digits n)" for n
    using digits_ok [of n] by (auto simp: list_all_iff is_digit_def)
  have "34 \<notin> set (dir_semantic i) \<and> 38 \<notin> set (dir_semantic i)"
    using assms by (auto simp: item_ok_def SEMANTIC_PATTERN_def list_all_iff is_alpha_def is_upper_def is_lower_def)
  moreover have "34 \<notin> set (dir_mime i) \<and> 38 \<notin> set (dir_mime i)"
    using assms MIME_PATTERN_plain by (simp add: item_ok_def)
  ultimately show ?thesis
    using d by (simp add: item_attributes_def attribute_ok_def written_names written_starts js_ne split: option.split)
qed

definition item_event :: "directory_item \<Rightarrow> xml_element" where
  "item_event i = \<lparr>xml_kind = Xml_open, xml_name = js ''c:Item'', xml_attributes = item_attributes i, xml_selfClosing = True, xml_text = []\<rparr>"

definition directory_event :: xml_element where
  "directory_event = \<lparr>xml_kind = Xml_open, xml_name = js ''c:Directory'', xml_attributes = directory_attributes,
     xml_selfClosing = False, xml_text = []\<rparr>"

definition close_event :: xml_element where
  "close_event = \<lparr>xml_kind = Xml_close, xml_name = js ''c:Directory'', xml_attributes = [], xml_selfClosing = False, xml_text = []\<rparr>"

lemma attributes_start: "as \<noteq> [] \<Longrightarrow> \<exists>r. concat (map attribute_text as) = 32 # r"
  by (cases as) (auto simp: attribute_text_def)

lemma item_attributes_shape:
  "item_attributes i \<noteq> []" "length (item_attributes i) \<le> 4" "distinct (map fst (item_attributes i))"
  by (simp_all add: item_attributes_def split: option.split) (simp_all add: js_def)

lemma xml_loop_item:
  assumes "item_ok i" and "length events < maxXmlEvents"
  shows "xml_loop (item_text i @ rest) events = xml_loop rest (events @ [item_event i])"
proof -
  obtain r where r: "concat (map attribute_text (item_attributes i)) = 32 # r"
    using attributes_start item_attributes_shape(1) by blast
  have "tag_loop False (concat (map attribute_text (item_attributes i)) @ 47 # 62 # rest) [] = Inr (item_attributes i, True, rest)"
    using tag_loop_attributes [OF item_attributes_ok [OF assms(1)], of "[]" "47 # 62 # rest"] item_attributes_shape [of i]
    by (simp add: maxAttributes_def tag_loop_ends)
  then have t: "tag_loop False (32 # (r @ 47 # 62 # rest)) [] = Inr (item_attributes i, True, rest)" by (simp add: r)
  have nm: "readName (js ''c:Item'' @ s) = Inr (js ''c:Item'')" if "32 = hd s" "s \<noteq> []" for s
    using written_names(7) [of "tl s"] that by (cases s) auto
  show ?thesis
    using xml_loop_tag [OF nm js_ne written_starts(7) t assms(2)] by (simp add: item_text_def r item_event_def)
qed

lemma xml_loop_items:
  assumes "list_all item_ok items" and "length events + length items \<le> maxXmlEvents"
  shows "xml_loop (concat (map item_text items) @ rest) events = xml_loop rest (events @ map item_event items)"
  using assms by (induction items arbitrary: events) (simp_all add: xml_loop_item)

lemma xml_loop_directory:
  assumes "list_all item_ok items" and "length items \<le> 16"
  shows "xml_loop (directory_text items) [] = Inr (directory_event # map item_event items @ [close_event])"
proof -
  let ?body = "concat (map item_text items) @ 60 # 47 # js ''c:Directory'' @ [62]"
  obtain r where r: "concat (map attribute_text directory_attributes) = 32 # r"
    using attributes_start [of directory_attributes] by (auto simp: directory_attributes_def)
  have "tag_loop False (concat (map attribute_text directory_attributes) @ 62 # ?body) [] = Inr (directory_attributes, False, ?body)"
    using tag_loop_attributes [OF directory_attributes_ok, of "[]" "62 # ?body"]
    by (simp add: maxAttributes_def tag_loop_ends) (simp add: directory_attributes_def js_def)
  then have t: "tag_loop False (32 # (r @ 62 # ?body)) [] = Inr (directory_attributes, False, ?body)" by (simp add: r)
  have nm: "readName (js ''c:Directory'' @ s) = Inr (js ''c:Directory'')" if "32 = hd s" "s \<noteq> []" for s
    using written_names(8) [of "tl s"] that by (cases s) auto
  have "xml_loop (directory_text items) [] = xml_loop ?body [directory_event]"
    using xml_loop_tag [OF nm js_ne written_starts(8) t, of "[]"] by (simp add: directory_text_def r directory_event_def maxXmlEvents_def)
  also have "\<dots> = xml_loop (60 # 47 # js ''c:Directory'' @ [62]) (directory_event # map item_event items)"
    using xml_loop_items [OF assms(1), of "[directory_event]"] assms(2) by (simp add: maxXmlEvents_def)
  also have "\<dots> = xml_loop [] ((directory_event # map item_event items) @ [close_event])"
    unfolding close_event_def by (rule xml_loop_close [OF written_names(9)]) (use assms(2) in \<open>simp add: maxXmlEvents_def\<close>)
  finally show ?thesis by (simp add: xml_loop.simps)
qed

definition written_namespaces :: namespaces where
  "written_namespaces = [(js ''c'', container_namespace), (js ''i'', item_namespace)]"

lemma bind_written: "bind_namespaces (directory_event # map item_event items @ [close_event]) [] = Inr written_namespaces"
proof -
  have d: "bind_attributes directory_attributes [] = Inr written_namespaces"
    by (simp add: directory_attributes_def written_namespaces_def js_def)
  have i: "bind_attributes (item_attributes i) ns = Inr ns" for i ns
    by (simp add: item_attributes_def js_def split: option.split)
  have "bind_namespaces (map item_event items @ [close_event]) ns = Inr ns" for ns
    by (induction items) (simp_all add: item_event_def close_event_def i)
  then show ?thesis by (simp add: directory_event_def d)
qed

lemma resolve_written:
  "resolve written_namespaces (js ''c:Item'') = Some (container_namespace, js ''Item'')"
  "resolve written_namespaces (js ''c:Directory'') = Some (container_namespace, js ''Directory'')"
  "resolve written_namespaces (js ''i:Mime'') = Some (item_namespace, js ''Mime'')"
  "resolve written_namespaces (js ''i:Semantic'') = Some (item_namespace, js ''Semantic'')"
  "resolve written_namespaces (js ''i:Length'') = Some (item_namespace, js ''Length'')"
  "resolve written_namespaces (js ''i:Padding'') = Some (item_namespace, js ''Padding'')"
  by (simp_all add: resolve_def written_namespaces_def js_def)

lemma field_keys:
  "js ''Mime'' \<noteq> js ''Semantic''" "js ''Mime'' \<noteq> js ''Length''" "js ''Mime'' \<noteq> js ''Padding''"
  "js ''Semantic'' \<noteq> js ''Length''" "js ''Semantic'' \<noteq> js ''Padding''" "js ''Length'' \<noteq> js ''Padding''"
  by (simp_all add: js_def)

lemma read_written_item:
  assumes "item_ok i" and "length items < maxDirectoryItems"
  shows "read_item (attribute_fields written_namespaces (item_attributes i) []) items = Inr (items @ [i])"
proof -
  have len: "decimal (map_option (\<lambda>n. digits (nat n)) (dir_length i)) = Inr (dir_length i)"
    using assms(1) decimal_digits by (cases "dir_length i") (auto simp: decimal_def item_ok_def)
  have pad: "decimal (Some (digits (nat (dir_padding i)))) = Inr (Some (dir_padding i))"
    using assms(1) by (intro decimal_digits) (auto simp: item_ok_def)
  have "attribute_fields written_namespaces (item_attributes i) [] =
      [(js ''Mime'', dir_mime i), (js ''Semantic'', dir_semantic i)] @
      (case dir_length i of None \<Rightarrow> [] | Some n \<Rightarrow> [(js ''Length'', digits (nat n))]) @ [(js ''Padding'', digits (nat (dir_padding i)))]"
    by (simp add: item_attributes_def resolve_written field_keys split: option.split)
  moreover have "i = \<lparr>dir_mime = dir_mime i, dir_semantic = dir_semantic i, dir_length = dir_length i, dir_padding = dir_padding i\<rparr>"
    by simp
  ultimately show ?thesis
    using assms len pad
    by (cases "dir_length i") (simp_all add: read_item_def field_or_def item_ok_def field_keys field_keys [symmetric])
qed

lemma directory_loop_written:
  assumes "list_all item_ok items" and "length done + length items \<le> maxDirectoryItems"
  shows "directory_loop written_namespaces (map item_event items @ [close_event]) 0 done = Inr (done @ items)"
  using assms
proof (induction items arbitrary: "done")
  case (Cons i items)
  have "directory_loop written_namespaces (map item_event items @ [close_event]) 0 (done @ [i]) = Inr ((done @ [i]) @ items)"
    by (rule Cons.IH) (use Cons.prems in auto)
  moreover have "read_item (attribute_fields written_namespaces (item_attributes i) []) done = Inr (done @ [i])"
    using Cons.prems by (intro read_written_item) auto
  ultimately show ?case by (simp add: item_event_def [of i] isElement_def resolve_written)
qed (simp add: close_event_def)

lemma directory_written_raw:
  assumes "list_all item_ok items" and "length items \<le> 16" and "int (length (directory_text items)) \<le> maxXmpBytes"
  shows "readMotionPhotoDirectory (directory_text items) = Inr (Some items)"
  using assms xml_loop_directory [OF assms(1,2)] bind_written [of items] directory_loop_written [OF assms(1), of "[]"]
  by (simp add: readMotionPhotoDirectory_def tokenizeXml_def maxDirectoryItems_def)
    (simp add: directory_event_def isElement_def resolve_written)

text \<open>C20: a container directory that is written is read. For up to sixteen items of the accepted shapes, the
  XMP text with one self-closing \<open>Item\<close> element each, its fields as namespaced attributes, goes
  through the tokenizer, the namespace table and the directory reader back to exactly those items.\<close>

theorem directory_written:
  assumes "list_all item_ok items" and "length items \<le> 16" and "int (length (directory_text items)) \<le> maxXmpBytes"
  shows "readMotionPhotoDirectory (directory_text items) = Inr (Some items)"
  by (rule directory_written_raw [OF assms])

lemma sample_directory_ok: "list_all item_ok sample_directory" "length sample_directory \<le> 16"
    "int (length (directory_text sample_directory)) \<le> maxXmpBytes"
proof -
  show "list_all item_ok sample_directory"
    by (simp add: sample_directory_def item_ok_def MIME_PATTERN_def SEMANTIC_PATTERN_def js_def name_defs)
  show "length sample_directory \<le> 16" by (simp add: sample_directory_def)
  show "int (length (directory_text sample_directory)) \<le> maxXmpBytes"
    by (simp add: sample_directory_def directory_text_def item_text_def item_attributes_def attribute_text_def
        directory_attributes_def container_namespace_def item_namespace_def digits.simps maxXmpBytes_def)
qed

theorem directory_written_witness:
  "readMotionPhotoDirectory (directory_text sample_directory) = Inr (Some sample_directory)"
  by (rule directory_written [OF sample_directory_ok])

theorem directory_items_bounded_witness:
  "list_all item_ok sample_directory \<and> length sample_directory \<le> 16"
  using directory_items_bounded [OF directory_written_raw [OF sample_directory_ok]] by blast

end
