(* ===== verification/CsvImport.thy ===== *)
theory CsvImport
  imports Utf8Decode
begin

text \<open>
  The CSV tables of a catalog import
  (\<open>services/catalog-importer/src/parsing/csv.ts\<close>): strict UTF-8, one newline style per file, the
  quoted-field scanner and the header check. The scanner's index is the text that remains and its local
  variables are the record \<open>csv_scan\<close>. A diagnostic keeps its code, category, row and header; its
  message text and its file name, which only name the failure, are left out. Reading the directory and
  building the bundle from the tables are not part of this theory.
\<close>

datatype csv_code = CSV_INVALID_ENCODING | CSV_NEWLINE_STYLE_MISMATCH | CSV_MALFORMED | CSV_RESOURCE_LIMIT | CSV_HEADER_MISMATCH
datatype csv_category = CONTAINER_CSV | TABULAR_ROW_VALIDATION | HEADER_LAYOUT

record csv_diagnostic =
  dia_code :: csv_code
  dia_category :: csv_category
  dia_row :: "nat option"
  dia_header :: "jstr option"

type_synonym 'a csv = "csv_diagnostic + 'a"

definition failCsv :: "csv_code \<Rightarrow> csv_category \<Rightarrow> nat option \<Rightarrow> 'a csv" where
  "failCsv code category row = Inl \<lparr>dia_code = code, dia_category = category, dia_row = row, dia_header = None\<rparr>"

definition maximumRowsPerFile :: nat where "maximumRowsPerFile = 10000"

definition strictUtf8 :: "byte list \<Rightarrow> jstr csv" where
  "strictUtf8 bytes = (case utf8_decode bytes of None \<Rightarrow> failCsv CSV_INVALID_ENCODING CONTAINER_CSV None | Some s \<Rightarrow> Inr s)"

section \<open>Newlines\<close>

text \<open>The loop of \<open>assertSingleNewlineStyle\<close>; true when it does not fail.\<close>

fun single_style :: "jstr \<Rightarrow> bool \<Rightarrow> bool \<Rightarrow> bool" where
  "single_style [] sawLf sawCrLf \<longleftrightarrow> True"
| "single_style (c # cs) sawLf sawCrLf \<longleftrightarrow>
     (if c = 13 then
        (case cs of
           [] \<Rightarrow> False
         | d # ds \<Rightarrow> if d \<noteq> 10 then False else if sawLf then False else single_style ds sawLf True)
      else if c = 10 then (if sawCrLf then False else single_style cs True sawCrLf)
      else if sawLf \<and> sawCrLf then False else single_style cs sawLf sawCrLf)"

definition assertSingleNewlineStyle :: "jstr \<Rightarrow> unit csv" where
  "assertSingleNewlineStyle s =
     (if single_style s False False then Inr () else failCsv CSV_NEWLINE_STYLE_MISMATCH CONTAINER_CSV None)"

section \<open>The scanner\<close>

record csv_row =
  csv_values :: "jstr list"
  csv_rowNumber :: nat

record csv_scan =
  scn_rows :: "csv_row list"
  scn_row :: "jstr list"
  scn_cell :: jstr
  scn_quoted :: bool
  scn_afterQuote :: bool
  scn_physicalRow :: nat
  scn_rowStart :: nat

definition initial_scan :: csv_scan where
  "initial_scan = \<lparr>scn_rows = [], scn_row = [], scn_cell = [], scn_quoted = False, scn_afterQuote = False,
     scn_physicalRow = 1, scn_rowStart = 1\<rparr>"

text \<open>The end of a row at a newline.\<close>

definition end_row :: "csv_scan \<Rightarrow> csv_scan csv" where
  "end_row st =
     (let rows = scn_rows st @ [\<lparr>csv_values = scn_row st @ [scn_cell st], csv_rowNumber = scn_rowStart st\<rparr>] in
      if length rows > maximumRowsPerFile then failCsv CSV_RESOURCE_LIMIT CONTAINER_CSV None
      else Inr (st\<lparr>scn_rows := rows, scn_row := [], scn_cell := [], scn_afterQuote := False,
        scn_physicalRow := scn_physicalRow st + 1, scn_rowStart := scn_physicalRow st + 1\<rparr>))"

definition finish_scan :: "csv_scan \<Rightarrow> csv_row list csv" where
  "finish_scan st =
     (if scn_quoted st then failCsv CSV_MALFORMED TABULAR_ROW_VALIDATION (Some (scn_rowStart st))
      else if scn_cell st \<noteq> [] \<or> scn_row st \<noteq> []
      then Inr (scn_rows st @ [\<lparr>csv_values = scn_row st @ [scn_cell st], csv_rowNumber = scn_rowStart st\<rparr>])
      else Inr (scn_rows st))"

function scan_loop :: "jstr \<Rightarrow> csv_scan \<Rightarrow> csv_row list csv" where
  "scan_loop [] st = finish_scan st"
| "scan_loop (c # cs) st =
     (if scn_quoted st then
        (if c = 34 then
           (if cs \<noteq> [] \<and> hd cs = 34 then scan_loop (tl cs) (st\<lparr>scn_cell := scn_cell st @ [34]\<rparr>)
            else scan_loop cs (st\<lparr>scn_quoted := False, scn_afterQuote := True\<rparr>))
         else if c = 10 then
           scan_loop cs (st\<lparr>scn_cell := scn_cell st @ [c], scn_physicalRow := scn_physicalRow st + 1\<rparr>)
         else if c = 13 then
           scan_loop (tl cs) (st\<lparr>scn_cell := scn_cell st @ [c, 10], scn_physicalRow := scn_physicalRow st + 1\<rparr>)
         else scan_loop cs (st\<lparr>scn_cell := scn_cell st @ [c]\<rparr>))
      else if scn_afterQuote st \<and> c \<noteq> 44 \<and> c \<noteq> 10 \<and> c \<noteq> 13
      then failCsv CSV_MALFORMED TABULAR_ROW_VALIDATION (Some (scn_physicalRow st))
      else if c = 34 then
        (if scn_cell st \<noteq> [] \<or> scn_afterQuote st then failCsv CSV_MALFORMED TABULAR_ROW_VALIDATION (Some (scn_physicalRow st))
         else scan_loop cs (st\<lparr>scn_quoted := True\<rparr>))
      else if c = 44 then
        scan_loop cs (st\<lparr>scn_row := scn_row st @ [scn_cell st], scn_cell := [], scn_afterQuote := False\<rparr>)
      else if c = 10 then rbind (end_row st) (scan_loop cs)
      else if c = 13 then rbind (end_row st) (scan_loop (tl cs))
      else scan_loop cs (st\<lparr>scn_cell := scn_cell st @ [c]\<rparr>))"
  by pat_completeness auto
termination by (relation "measure (\<lambda>(cs, _). length cs)") auto

definition parseCsv :: "jstr \<Rightarrow> csv_row list csv" where
  "parseCsv input =
     (let s = (if starts_with input [0xFEFF] then drop 1 input else input) in
      rbind (assertSingleNewlineStyle s) (\<lambda>_. scan_loop s initial_scan))"

section \<open>Tables\<close>

text \<open>\<open>replaceAll("\r\n", "\n")\<close>.\<close>

fun crlf_to_lf :: "jstr \<Rightarrow> jstr" where
  "crlf_to_lf (c # d # cs) = (if c = 13 \<and> d = 10 then 10 # crlf_to_lf cs else c # crlf_to_lf (d # cs))"
| "crlf_to_lf cs = cs"

record table_row =
  tbl_values :: "(jstr \<times> jstr) list"
  tbl_row :: nat

fun first_mismatch :: "jstr list \<Rightarrow> jstr list \<Rightarrow> nat \<Rightarrow> nat option" where
  "first_mismatch [] headers i = None"
| "first_mismatch (e # expected) headers i =
     (if headers = [] \<or> hd headers \<noteq> e then Some i else first_mismatch expected (tl headers) (Suc i))"

definition table_object :: "jstr list \<Rightarrow> bool \<Rightarrow> csv_row \<Rightarrow> table_row csv" where
  "table_object headers v2 row =
     (if length (csv_values row) \<noteq> length headers then failCsv CSV_MALFORMED TABULAR_ROW_VALIDATION (Some (csv_rowNumber row))
      else Inr \<lparr>tbl_values = zip headers (map (\<lambda>v. if v2 then crlf_to_lf v else v) (csv_values row)),
        tbl_row = csv_rowNumber row\<rparr>)"

definition tableObjects :: "jstr \<Rightarrow> jstr list \<Rightarrow> bool \<Rightarrow> table_row list csv" where
  "tableObjects input expectedHeaders v2 =
     rbind (parseCsv input) (\<lambda>rows. case rows of
         [] \<Rightarrow> failCsv CSV_HEADER_MISMATCH HEADER_LAYOUT None
       | header # body \<Rightarrow>
           let headers = csv_values header in
           if \<not> distinct headers then failCsv CSV_HEADER_MISMATCH HEADER_LAYOUT (Some 1)
           else if headers \<noteq> expectedHeaders then
             Inl \<lparr>dia_code = CSV_HEADER_MISMATCH, dia_category = HEADER_LAYOUT, dia_row = Some 1,
               dia_header = (let i = (case first_mismatch expectedHeaders headers 0 of None \<Rightarrow> 0 | Some i \<Rightarrow> i) in
                 if i < length expectedHeaders then Some (expectedHeaders ! i) else None)\<rparr>
           else rmap (table_object headers v2) body)"

section \<open>Writing\<close>

text \<open>Text that uses one newline style only.\<close>

fun crlf_only :: "jstr \<Rightarrow> bool" where
  "crlf_only [] \<longleftrightarrow> True"
| "crlf_only [c] \<longleftrightarrow> c \<noteq> 13 \<and> c \<noteq> 10"
| "crlf_only (c # d # cs) \<longleftrightarrow> (if c = 13 then d = 10 \<and> crlf_only cs else c \<noteq> 10 \<and> crlf_only (d # cs))"

definition style_text :: "bool \<Rightarrow> jstr \<Rightarrow> bool" where
  "style_text crlf s \<longleftrightarrow> (if crlf then crlf_only s else 13 \<notin> set s)"

definition newline :: "bool \<Rightarrow> jstr" where
  "newline crlf = (if crlf then [13, 10] else [10])"

definition escape_quotes :: "jstr \<Rightarrow> jstr" where
  "escape_quotes s = concat (map (\<lambda>c. if c = 34 then [34, 34] else [c]) s)"

definition plain_cell :: "jstr \<Rightarrow> bool" where
  "plain_cell s \<longleftrightarrow> set s \<inter> {34, 44, 10, 13} = {}"

text \<open>A cell is written quoted, or bare when nothing in it needs quotes.\<close>

type_synonym written_cell = "bool \<times> jstr"

fun cell_ok :: "bool \<Rightarrow> written_cell \<Rightarrow> bool" where
  "cell_ok crlf (quote, s) \<longleftrightarrow> style_text crlf s \<and> (quote \<or> plain_cell s)"

fun cell_text :: "written_cell \<Rightarrow> jstr" where
  "cell_text (quote, s) = (if quote then 34 # escape_quotes s @ [34] else s)"

fun cells_text :: "written_cell list \<Rightarrow> jstr" where
  "cells_text [] = []"
| "cells_text [c] = cell_text c"
| "cells_text (c # cs) = cell_text c @ 44 # cells_text cs"

definition row_text :: "bool \<Rightarrow> written_cell list \<Rightarrow> jstr" where
  "row_text crlf cells = cells_text cells @ newline crlf"

definition row_ok :: "bool \<Rightarrow> written_cell list \<Rightarrow> bool" where
  "row_ok crlf cells \<longleftrightarrow> cells \<noteq> [] \<and> list_all (cell_ok crlf) cells"

text \<open>The physical lines a row takes, and the rows a reader should see.\<close>

definition line_breaks :: "jstr \<Rightarrow> nat" where
  "line_breaks s = count_list s 10"

definition row_lines :: "written_cell list \<Rightarrow> nat" where
  "row_lines cells = sum_list (map (line_breaks \<circ> snd) cells) + 1"

fun rows_from :: "nat \<Rightarrow> written_cell list list \<Rightarrow> csv_row list" where
  "rows_from n [] = []"
| "rows_from n (cells # rows) = \<lparr>csv_values = map snd cells, csv_rowNumber = n\<rparr> # rows_from (n + row_lines cells) rows"

section \<open>One newline style\<close>

lemma crlf_only_append: "crlf_only a \<Longrightarrow> crlf_only b \<Longrightarrow> crlf_only (a @ b)"
proof (induction a rule: crlf_only.induct)
  case (2 c) then show ?case by (cases b) auto
qed (auto split: if_splits)

lemma style_append: "style_text crlf a \<Longrightarrow> style_text crlf b \<Longrightarrow> style_text crlf (a @ b)"
  by (auto simp: style_text_def crlf_only_append)

lemma style_single: "c \<noteq> 13 \<Longrightarrow> c \<noteq> 10 \<Longrightarrow> style_text crlf [c]"
  by (simp add: style_text_def)

lemma style_nil [simp]: "style_text crlf []"
  by (simp add: style_text_def)

lemma style_newline: "style_text crlf (newline crlf)"
  by (simp add: style_text_def newline_def)

lemma escape_quotes_Nil [simp]: "escape_quotes [] = []"
  by (simp add: escape_quotes_def)

lemma escape_quotes_Cons [simp]: "escape_quotes (c # s) = (if c = 34 then 34 # 34 # escape_quotes s else c # escape_quotes s)"
  by (simp add: escape_quotes_def)

lemma crlf_only_cons: "c \<noteq> 13 \<Longrightarrow> c \<noteq> 10 \<Longrightarrow> crlf_only (c # s) \<longleftrightarrow> crlf_only s"
  by (cases s) auto

lemma crlf_only_lf [simp]: "\<not> crlf_only (10 # s)"
  by (cases s) auto

lemma style_escape: "style_text crlf s \<Longrightarrow> style_text crlf (escape_quotes s)"
proof (cases crlf)
  case True
  have "crlf_only s \<Longrightarrow> crlf_only (escape_quotes s)"
    by (induction s rule: crlf_only.induct) (auto simp: crlf_only_cons split: if_splits)
  then show "style_text crlf s \<Longrightarrow> ?thesis" using True by (simp add: style_text_def)
next
  case False
  have "13 \<notin> set s \<Longrightarrow> 13 \<notin> set (escape_quotes s)" by (induction s) auto
  then show "style_text crlf s \<Longrightarrow> ?thesis" using False by (simp add: style_text_def)
qed

lemma style_cell: "cell_ok crlf c \<Longrightarrow> style_text crlf (cell_text c)"
proof (cases c)
  case (Pair quote s)
  assume ok: "cell_ok crlf c"
  have "style_text crlf ([34] @ escape_quotes s @ [34])"
    by (rule style_append [OF style_single style_append [OF style_escape style_single]]) (use ok Pair in auto)
  then show ?thesis using ok Pair by auto
qed

lemma style_cells: "list_all (cell_ok crlf) cells \<Longrightarrow> style_text crlf (cells_text cells)"
proof (induction cells rule: cells_text.induct)
  case (3 c d cs)
  have "style_text crlf (cell_text c @ [44] @ cells_text (d # cs))"
    by (rule style_append [OF style_cell style_append [OF style_single]]) (use 3 in auto)
  then show ?case by simp
qed (auto simp: style_cell)

lemma style_rows: "list_all (row_ok crlf) rows \<Longrightarrow> style_text crlf (concat (map (row_text crlf) rows))"
  by (induction rows) (auto simp: row_ok_def row_text_def intro!: style_append style_cells style_newline)

lemma single_style_text: "style_text crlf s \<Longrightarrow> single_style s (\<not> crlf \<and> sawLf) (crlf \<and> sawCrLf)"
proof (cases crlf)
  case True
  have "crlf_only s \<Longrightarrow> single_style s False b" for b
    by (induction s arbitrary: b rule: crlf_only.induct) (auto split: if_splits)
  then show "style_text crlf s \<Longrightarrow> ?thesis" using True by (simp add: style_text_def)
next
  case False
  have "13 \<notin> set s \<Longrightarrow> single_style s b False" for b by (induction s arbitrary: b) auto
  then show "style_text crlf s \<Longrightarrow> ?thesis" using False by (simp add: style_text_def)
qed

section \<open>The scanner on written text\<close>

lemma scan_quoted:
  assumes "style_text crlf s" "scn_quoted st"
  shows "scan_loop (escape_quotes s @ rest) st =
    scan_loop rest (st\<lparr>scn_cell := scn_cell st @ s, scn_physicalRow := scn_physicalRow st + line_breaks s\<rparr>)"
proof (cases crlf)
  case True
  have "crlf_only s \<Longrightarrow> scn_quoted st \<Longrightarrow> scan_loop (escape_quotes s @ rest) st =
    scan_loop rest (st\<lparr>scn_cell := scn_cell st @ s, scn_physicalRow := scn_physicalRow st + line_breaks s\<rparr>)"
    by (induction s arbitrary: st rule: crlf_only.induct) (auto simp: line_breaks_def split: if_splits)
  then show ?thesis using True assms by (simp add: style_text_def)
next
  case False
  have "13 \<notin> set s \<Longrightarrow> scn_quoted st \<Longrightarrow> scan_loop (escape_quotes s @ rest) st =
    scan_loop rest (st\<lparr>scn_cell := scn_cell st @ s, scn_physicalRow := scn_physicalRow st + line_breaks s\<rparr>)"
    by (induction s arbitrary: st) (auto simp: line_breaks_def)
  then show ?thesis using False assms by (simp add: style_text_def)
qed

lemma scan_plain:
  assumes "plain_cell s" "\<not> scn_quoted st" "\<not> scn_afterQuote st"
  shows "scan_loop (s @ rest) st = scan_loop rest (st\<lparr>scn_cell := scn_cell st @ s\<rparr>)"
  using assms by (induction s arbitrary: st) (auto simp: plain_cell_def)

lemma plain_line_breaks: "plain_cell s \<Longrightarrow> line_breaks s = 0"
  by (induction s) (auto simp: plain_cell_def line_breaks_def)

lemma scan_cell:
  assumes "cell_ok crlf c" "rest \<noteq> []" "hd rest \<noteq> 34"
  shows "scan_loop (cell_text c @ rest)
      \<lparr>scn_rows = rows, scn_row = r, scn_cell = [], scn_quoted = False, scn_afterQuote = False, scn_physicalRow = p, scn_rowStart = n\<rparr> =
    scan_loop rest
      \<lparr>scn_rows = rows, scn_row = r, scn_cell = snd c, scn_quoted = False, scn_afterQuote = fst c,
        scn_physicalRow = p + line_breaks (snd c), scn_rowStart = n\<rparr>"
proof (cases c)
  case (Pair quote s)
  show ?thesis
  proof (cases quote)
    case True
    then show ?thesis using assms Pair by (auto simp: scan_quoted [of crlf])
  next
    case False
    then show ?thesis using assms Pair by (auto simp: scan_plain plain_line_breaks)
  qed
qed

lemma scan_cells:
  assumes "list_all (cell_ok crlf) cells" "cells \<noteq> []" "Suc (length rows) \<le> maximumRowsPerFile"
  shows "scan_loop (cells_text cells @ newline crlf @ rest)
      \<lparr>scn_rows = rows, scn_row = r, scn_cell = [], scn_quoted = False, scn_afterQuote = False, scn_physicalRow = p, scn_rowStart = n\<rparr> =
    scan_loop rest
      \<lparr>scn_rows = rows @ [\<lparr>csv_values = r @ map snd cells, csv_rowNumber = n\<rparr>], scn_row = [], scn_cell = [],
        scn_quoted = False, scn_afterQuote = False, scn_physicalRow = p + row_lines cells, scn_rowStart = p + row_lines cells\<rparr>"
  using assms
proof (induction cells arbitrary: r p rule: cells_text.induct)
  case (2 c)
  then show ?case
    by (cases crlf) (auto simp: scan_cell [of crlf] newline_def end_row_def row_lines_def)
next
  case (3 c d cs)
  have "scan_loop (cells_text (c # d # cs) @ newline crlf @ rest)
      \<lparr>scn_rows = rows, scn_row = r, scn_cell = [], scn_quoted = False, scn_afterQuote = False, scn_physicalRow = p, scn_rowStart = n\<rparr> =
    scan_loop (44 # (cells_text (d # cs) @ newline crlf @ rest))
      \<lparr>scn_rows = rows, scn_row = r, scn_cell = snd c, scn_quoted = False, scn_afterQuote = fst c,
        scn_physicalRow = p + line_breaks (snd c), scn_rowStart = n\<rparr>"
    using 3 by (simp add: scan_cell [of crlf])
  then show ?case using 3 by (simp add: row_lines_def add.assoc)
qed auto

lemma scan_rows:
  assumes "list_all (row_ok crlf) rows" "length done + length rows \<le> maximumRowsPerFile"
  shows "scan_loop (concat (map (row_text crlf) rows))
      \<lparr>scn_rows = done, scn_row = [], scn_cell = [], scn_quoted = False, scn_afterQuote = False, scn_physicalRow = n, scn_rowStart = n\<rparr> =
    Inr (done @ rows_from n rows)"
  using assms
proof (induction rows arbitrary: "done" n)
  case Nil then show ?case by (simp add: finish_scan_def)
next
  case (Cons cells rows)
  have "scan_loop (concat (map (row_text crlf) (cells # rows)))
      \<lparr>scn_rows = done, scn_row = [], scn_cell = [], scn_quoted = False, scn_afterQuote = False, scn_physicalRow = n, scn_rowStart = n\<rparr> =
    scan_loop (concat (map (row_text crlf) rows))
      \<lparr>scn_rows = done @ [\<lparr>csv_values = map snd cells, csv_rowNumber = n\<rparr>], scn_row = [], scn_cell = [], scn_quoted = False,
        scn_afterQuote = False, scn_physicalRow = n + row_lines cells, scn_rowStart = n + row_lines cells\<rparr>"
    using Cons.prems by (simp add: row_text_def row_ok_def scan_cells)
  then show ?case using Cons by simp
qed

text \<open>C29: A table written row by row reads back: with LF or CRLF newlines, with or without a byte order
  mark, each cell bare or quoted as the writer chose (a quoted cell may hold commas, doubled quotes and
  line breaks of the file's style), \<open>parseCsv\<close> returns exactly the cells that were written, each row with
  the physical line it starts on.\<close>

theorem csv_written:
  assumes "list_all (row_ok crlf) rows" "length rows \<le> maximumRowsPerFile"
    "bom \<or> \<not> starts_with (concat (map (row_text crlf) rows)) [0xFEFF]"
  shows "parseCsv ((if bom then [0xFEFF] else []) @ concat (map (row_text crlf) rows)) = Inr (rows_from 1 rows)"
proof -
  let ?s = "concat (map (row_text crlf) rows)"
  have style: "assertSingleNewlineStyle ?s = Inr ()"
    using single_style_text [OF style_rows [OF assms(1)], of False False] by (simp add: assertSingleNewlineStyle_def)
  have scan: "scan_loop ?s initial_scan = Inr (rows_from 1 rows)"
    using scan_rows [OF assms(1), of "[]" 1] assms(2) by (simp add: initial_scan_def)
  show ?thesis using assms(3) style scan by (cases bom) (auto simp: parseCsv_def)
qed

definition sample_table :: "written_cell list list" where
  "sample_table = [[(False, js ''id''), (True, js ''title'')], [(False, js ''a1''), (True, js ''x, '' @ [34, 13, 10])], [(False, []), (False, js ''y'')]]"

lemma csv_written_witness:
  "parseCsv ((if True then [0xFEFF] else []) @ concat (map (row_text True) sample_table)) = Inr (rows_from 1 sample_table) \<and>
   map csv_rowNumber (rows_from 1 sample_table) = [1, 2, 4]"
proof -
  have ok: "list_all (row_ok True) sample_table"
    by (simp add: sample_table_def row_ok_def style_text_def plain_cell_def js_def)
  have n: "length sample_table \<le> maximumRowsPerFile" by (simp add: sample_table_def maximumRowsPerFile_def)
  have r: "map csv_rowNumber (rows_from 1 sample_table) = [1, 2, 4]"
    by (simp add: sample_table_def row_lines_def line_breaks_def js_def)
  show ?thesis using csv_written [OF ok n, of True] r by simp
qed

section \<open>Rows and tables\<close>

definition scan_located :: "csv_scan \<Rightarrow> bool" where
  "scan_located st \<longleftrightarrow>
     sorted_wrt (<) (map csv_rowNumber (scn_rows st)) \<and> (\<forall>r\<in>set (scn_rows st). csv_rowNumber r < scn_rowStart st) \<and>
     scn_rowStart st \<le> scn_physicalRow st \<and> length (scn_rows st) \<le> maximumRowsPerFile \<and>
     (scn_rows st = [] \<longrightarrow> scn_rowStart st = 1) \<and> (scn_rows st \<noteq> [] \<longrightarrow> csv_rowNumber (hd (scn_rows st)) = 1)"

definition rows_located :: "csv_row list \<Rightarrow> bool" where
  "rows_located rows \<longleftrightarrow>
     sorted_wrt (<) (map csv_rowNumber rows) \<and> length rows \<le> Suc maximumRowsPerFile \<and>
     (rows \<noteq> [] \<longrightarrow> csv_rowNumber (hd rows) = 1)"

lemma scan_located_cong [simp]:
  "scan_located (st\<lparr>scn_cell := c\<rparr>) = scan_located st" "scan_located (st\<lparr>scn_row := r\<rparr>) = scan_located st"
  "scan_located (st\<lparr>scn_quoted := q\<rparr>) = scan_located st" "scan_located (st\<lparr>scn_afterQuote := a\<rparr>) = scan_located st"
  by (simp_all add: scan_located_def)

lemma scan_located_line [simp]: "scan_located st \<Longrightarrow> scan_located (st\<lparr>scn_cell := c, scn_physicalRow := Suc (scn_physicalRow st)\<rparr>)"
  by (simp add: scan_located_def)

lemma end_row_located:
  assumes "end_row st = Inr st'" "scan_located st"
  shows "scan_located st'"
proof -
  have "\<forall>r\<in>set (scn_rows st). csv_rowNumber r < Suc (scn_physicalRow st)"
    using assms(2) by (fastforce simp: scan_located_def)
  then show ?thesis using assms
    by (cases "scn_rows st = []") (auto simp: end_row_def failCsv_def Let_def scan_located_def sorted_wrt_append split: if_splits)
qed

lemma finish_scan_located:
  assumes "finish_scan st = Inr rows" "scan_located st"
  shows "rows_located rows"
  using assms by (cases "scn_rows st = []")
    (auto simp: finish_scan_def failCsv_def scan_located_def rows_located_def sorted_wrt_append split: if_splits)

lemma scan_loop_located: "scan_loop cs st = Inr rows \<Longrightarrow> scan_located st \<Longrightarrow> rows_located rows"
proof (induction cs st rule: scan_loop.induct)
  case (1 st) then show ?case by (auto intro: finish_scan_located)
next
  case (2 c cs st)
  note IH = "2.IH" and loop = "2.prems"(1) and located = "2.prems"(2)
  consider (quote) "scn_quoted st" "c = 34" | (lf) "scn_quoted st" "c = 10" | (cr) "scn_quoted st" "c = 13"
    | (char) "scn_quoted st" "c \<noteq> 34" "c \<noteq> 10" "c \<noteq> 13" | (bare) "\<not> scn_quoted st" by blast
  then show ?case
  proof cases
    case quote
    show ?thesis
    proof (cases "cs \<noteq> [] \<and> hd cs = 34")
      case True then show ?thesis using IH(1) [OF quote True] loop located quote by simp
    next
      case False then show ?thesis using IH(2) [OF quote False] loop located quote by auto
    qed
  next
    case lf then show ?thesis using IH(3) [OF lf(1)] loop located by simp
  next
    case cr then show ?thesis using IH(4) [OF cr(1)] loop located by simp
  next
    case char then show ?thesis using IH(5) [OF char] loop located by simp
  next
    case bare
    then have not_after: "\<not> (scn_afterQuote st \<and> c \<noteq> 44 \<and> c \<noteq> 10 \<and> c \<noteq> 13)" using loop by (auto simp: failCsv_def split: if_splits)
    consider "c = 34" | "c = 44" | "c = 10" | "c = 13" | (char) "c \<noteq> 34" "c \<noteq> 44" "c \<noteq> 10" "c \<noteq> 13" by blast
    then show ?thesis
    proof cases
      case 1
      then have "\<not> (scn_cell st \<noteq> [] \<or> scn_afterQuote st)" using loop bare by (auto simp: failCsv_def split: if_splits)
      then show ?thesis using IH(6) [OF bare not_after 1] loop located bare not_after 1 by simp
    next
      case 2 then show ?thesis using IH(7) [OF bare not_after _ 2] loop located bare by simp
    next
      case 3
      then obtain st' where row: "end_row st = Inr st'" "scan_loop cs st' = Inr rows" using loop bare by (auto simp: rbind_Inr_iff)
      show ?thesis using IH(8) [OF bare not_after _ _ 3 row(1)] 3 row located by (simp add: end_row_located)
    next
      case 4
      then obtain st' where row: "end_row st = Inr st'" "scan_loop (tl cs) st' = Inr rows" using loop bare by (auto simp: rbind_Inr_iff)
      show ?thesis using IH(9) [OF bare not_after _ _ _ 4 row(1)] 4 row located by (simp add: end_row_located)
    next
      case char then show ?thesis using IH(10) [OF bare not_after char] loop located bare not_after by simp
    qed
  qed
qed

lemma parseCsv_located: "parseCsv input = Inr rows \<Longrightarrow> rows_located rows"
  by (auto simp: parseCsv_def Let_def rbind_Inr_iff initial_scan_def scan_located_def intro: scan_loop_located)

lemma table_object_row:
  "table_object headers v2 row = Inr r \<Longrightarrow> map fst (tbl_values r) = headers \<and> tbl_row r = csv_rowNumber row"
  by (auto simp: table_object_def failCsv_def split: if_splits)

lemma tableObjects_InrE:
  assumes "tableObjects input expectedHeaders v2 = Inr table"
  obtains header body where "parseCsv input = Inr (header # body)" "distinct expectedHeaders"
    "csv_values header = expectedHeaders" "rmap (table_object expectedHeaders v2) body = Inr table"
proof -
  obtain rows where rows: "parseCsv input = Inr rows" using assms by (auto simp: tableObjects_def rbind_Inr_iff)
  show ?thesis
  proof (cases rows)
    case Nil then show ?thesis using assms rows by (simp add: tableObjects_def failCsv_def)
  next
    case (Cons header body)
    then show ?thesis using assms rows
      by (auto simp: tableObjects_def failCsv_def Let_def split: if_splits intro!: that [of header body])
  qed
qed

lemma table_objects_rows:
  "rmap (table_object headers v2) body = Inr rows \<Longrightarrow>
    (\<forall>r\<in>set rows. map fst (tbl_values r) = headers) \<and> map tbl_row rows = map csv_rowNumber body"
  by (induction body arbitrary: rows) (auto simp: rbind_Inr_iff dest: table_object_row)

text \<open>A table that is accepted has the shape its importer asked for: its header is duplicate-free and is
  exactly the expected header row, every row carries exactly one value per header in that order, there are
  at most 10,000 rows, and the rows are located at strictly increasing physical lines below the header.\<close>

theorem table_shape:
  assumes "tableObjects input expectedHeaders v2 = Inr table"
  shows "distinct expectedHeaders \<and> (\<forall>r\<in>set table. map fst (tbl_values r) = expectedHeaders) \<and>
    length table \<le> maximumRowsPerFile \<and> sorted_wrt (<) (1 # map tbl_row table)"
proof -
  obtain header body where rows: "parseCsv input = Inr (header # body)" "distinct expectedHeaders"
      "csv_values header = expectedHeaders" "rmap (table_object expectedHeaders v2) body = Inr table"
    using assms by (rule tableObjects_InrE)
  note shape = table_objects_rows [OF rows(4)] and located = parseCsv_located [OF rows(1)]
  have "length table = length body" using shape by (metis length_map)
  then show ?thesis using rows shape located by (auto simp: rows_located_def)
qed

definition sample_csv :: jstr where
  "sample_csv = js ''id,title'' @ [13, 10] @ js ''a1,'' @ [34, 13, 10, 34, 34, 34, 13, 10] @ js ''a2,y''"

lemma table_shape_witness:
  "\<exists>t. tableObjects sample_csv [js ''id'', js ''title''] True = Inr t \<and> map tbl_row t = [2, 4] \<and>
    (\<forall>r\<in>set t. map fst (tbl_values r) = [js ''id'', js ''title''])"
proof -
  let ?t = "[\<lparr>tbl_values = [(js ''id'', js ''a1''), (js ''title'', [10, 34])], tbl_row = 2\<rparr>,
    \<lparr>tbl_values = [(js ''id'', js ''a2''), (js ''title'', js ''y'')], tbl_row = 4\<rparr>]"
  have t: "tableObjects sample_csv [js ''id'', js ''title''] True = Inr ?t"
    by (simp add: tableObjects_def parseCsv_def assertSingleNewlineStyle_def initial_scan_def end_row_def finish_scan_def
      table_object_def maximumRowsPerFile_def sample_csv_def js_def)
  show ?thesis using t table_shape [OF t] by auto
qed

end
