(* ===== verification/DraftContent.thy ===== *)
theory DraftContent
  imports Prelude "HOL-Library.List_Lexorder" "HOL-Library.Multiset"
begin

text \<open>
  What an autosaved draft holds (\<open>apps/web/features/publishing/draft-autosave.ts\<close>, with the draft types of
  \<open>packages/contracts/src/work-publishing-schemas.ts\<close> as far as the autosave reads them), the
  emptiness test and the comparison of two contents that ignores the order of keys. A JSON number is its printed
  form, which is what \<open>JSON.stringify\<close> compares; the fields the autosave never looks at (authorship, visibility,
  cover, mentions) are the JSON fields \<open>con_rest\<close>.
\<close>

datatype json = JNull | JBool bool | JNum jstr | JStr jstr | JArr "json list" | JObj "(jstr \<times> json) list"

record draft_content =
  con_title :: jstr
  con_body :: jstr
  con_items :: "json list"
  con_rest :: "(jstr \<times> json) list"

definition isEmptyText :: "jstr \<Rightarrow> bool" where
  "isEmptyText s \<longleftrightarrow> jtrim s = []"

definition isEmptyDraftContent :: "draft_content \<Rightarrow> bool" where
  "isEmptyDraftContent c \<longleftrightarrow> isEmptyText (con_title c) \<and> isEmptyText (con_body c) \<and> con_items c = []"

text \<open>\<open>Object.keys(value).sort()\<close> orders the keys by their code units.\<close>

fun canonical_json :: "json \<Rightarrow> json" where
  "canonical_json (JArr vs) = JArr (map canonical_json vs)"
| "canonical_json (JObj fs) = JObj (sort_key fst (map (\<lambda>(k, v). (k, canonical_json v)) fs))"
| "canonical_json v = v"

definition content_json :: "draft_content \<Rightarrow> json" where
  "content_json c = JObj ((js ''title'', JStr (con_title c)) # (js ''body'', JStr (con_body c)) # (js ''items'', JArr (con_items c)) # con_rest c)"

definition sameDraftContent :: "draft_content \<Rightarrow> draft_content \<Rightarrow> bool" where
  "sameDraftContent left right \<longleftrightarrow> canonical_json (content_json left) = canonical_json (content_json right)"

section \<open>Equality up to the order of keys\<close>

text \<open>The same value with the fields of each object in any order, at every depth.\<close>

inductive json_same :: "json \<Rightarrow> json \<Rightarrow> bool" where
  same_leaf: "json_same v v"
| same_array: "list_all2 json_same vs ws \<Longrightarrow> json_same (JArr vs) (JArr ws)"
| same_object: "mset fs = mset gs \<Longrightarrow> list_all2 (\<lambda>f g. fst f = fst g \<and> json_same (snd f) (snd g)) gs hs \<Longrightarrow> json_same (JObj fs) (JObj hs)"

text \<open>No object names a field twice.\<close>

fun json_keys_distinct :: "json \<Rightarrow> bool" where
  "json_keys_distinct (JArr vs) \<longleftrightarrow> list_all json_keys_distinct vs"
| "json_keys_distinct (JObj fs) \<longleftrightarrow> distinct (map fst fs) \<and> list_all (\<lambda>f. json_keys_distinct (snd f)) fs"
| "json_keys_distinct v \<longleftrightarrow> True"


definition canonical_field :: "jstr \<times> json \<Rightarrow> jstr \<times> json" where
  "canonical_field f = (fst f, canonical_json (snd f))"

lemma canonical_object: "canonical_json (JObj fs) = JObj (sort_key fst (map canonical_field fs))"
proof -
  have "(\<lambda>(k, v). (k, canonical_json v)) = canonical_field" by (auto simp: canonical_field_def fun_eq_iff)
  then show ?thesis by simp
qed

declare canonical_json.simps(2) [simp del]

lemma fst_canonical_field [simp]: "fst \<circ> canonical_field = fst"
  by (auto simp: canonical_field_def)

lemma sort_key_same_keys:
  assumes "mset xs = mset ys" "distinct (map fst xs)"
  shows "sort_key fst xs = sort_key fst ys"
proof (rule sort_key_inj_key_eq)
  show "mset xs = mset (sort_key fst ys)" using assms(1) by simp
  show "inj_on fst (set xs)" using assms(2) by (simp add: distinct_map)
qed simp

lemma same_canonical: "json_same a b \<Longrightarrow> json_keys_distinct a \<Longrightarrow> canonical_json a = canonical_json b"
proof (induction rule: json_same.induct)
  case (same_array vs ws)
  then show ?case by (auto simp: list_all2_conv_all_nth list_all_length intro: nth_equalityI)
next
  case (same_object fs gs hs)
  have keys: "set gs = set fs" "mset (map fst gs) = mset (map fst fs)"
    using same_object(1) by (auto simp: mset_map dest: mset_eq_setD)
  have distinct: "distinct (map fst gs)" "\<forall>g\<in>set gs. json_keys_distinct (snd g)"
    using same_object.prems keys mset_eq_imp_distinct_iff [OF keys(2)] by (auto simp: list_all_iff)
  have "map canonical_field gs = map canonical_field hs"
    using same_object(2) distinct(2) by (auto simp: canonical_field_def list_all2_conv_all_nth intro!: nth_equalityI)
  moreover have "sort_key fst (map canonical_field fs) = sort_key fst (map canonical_field gs)"
    using same_object(1) same_object.prems by (intro sort_key_same_keys) (simp_all add: mset_map)
  ultimately show ?case by (simp add: canonical_object)
qed simp

lemma mset_map_pair:
  assumes "mset (map f xs) = mset (map f ys)"
  shows "\<exists>zs. mset xs = mset zs \<and> map f zs = map f ys"
  using assms
proof (induction ys arbitrary: xs)
  case Nil then show ?case by simp
next
  case (Cons y ys)
  have "set (map f xs) = set (map f (y # ys))" by (rule mset_eq_setD [OF Cons.prems])
  then have "f y \<in> set (map f xs)" by simp
  then obtain x where x: "x \<in> set xs" "f x = f y" by auto
  have xs: "mset xs = add_mset x (mset (remove1 x xs))" using x(1) by simp
  have "add_mset (f x) (mset (map f (remove1 x xs))) = add_mset (f y) (mset (map f ys))"
    using Cons.prems by (simp only: mset_map xs image_mset_add_mset list.map mset.simps)
  then have "mset (map f (remove1 x xs)) = mset (map f ys)" by (simp only: x(2) add_mset_add_mset_same_iff)
  then obtain zs where zs: "mset (remove1 x xs) = mset zs" "map f zs = map f ys" using Cons.IH by blast
  have "mset xs = mset (x # zs)" by (simp only: xs zs mset.simps)
  then show ?case using zs(2) x(2) by (intro exI [of _ "x # zs"]) simp
qed

lemma canonical_same: "canonical_json a = canonical_json b \<Longrightarrow> json_same a b"
proof (induction a arbitrary: b)
  case (JArr vs)
  obtain ws where b: "b = JArr ws" "map canonical_json vs = map canonical_json ws"
    using JArr.prems by (cases b) (auto simp: canonical_object)
  have "list_all2 json_same vs ws"
    using JArr.IH b(2) by (auto simp: list_all2_conv_all_nth map_equality_iff)
  then show ?case using b by (auto intro: json_same.intros)
next
  case (JObj fs)
  obtain gs where b: "b = JObj gs" "sort_key fst (map canonical_field fs) = sort_key fst (map canonical_field gs)"
    using JObj.prems by (cases b) (auto simp: canonical_object)
  then have "mset (map canonical_field fs) = mset (map canonical_field gs)" by (metis mset_sort)
  then obtain fs' where fs': "mset fs = mset fs'" "map canonical_field fs' = map canonical_field gs" using mset_map_pair by blast
  have "set fs' = set fs" using fs'(1) by (metis mset_eq_setD)
  then have same: "f \<in> set fs' \<Longrightarrow> canonical_json (snd f) = canonical_json v \<Longrightarrow> json_same (snd f) v" for f v
    using JObj.IH [of f "snd f" v] by (cases f) (auto simp: snds.simps)
  have "list_all2 (\<lambda>f g. fst f = fst g \<and> json_same (snd f) (snd g)) fs' gs"
    using fs'(2) by (auto simp: list_all2_conv_all_nth map_equality_iff canonical_field_def intro!: same)
  then show ?case using b fs' by (auto intro: json_same.intros)
qed (case_tac b; auto simp: canonical_object intro: json_same.intros)+

text \<open>C28: Two contents whose objects name no field twice are the same content for the autosave exactly when they are
  equal up to the order of the fields of their objects, at every depth: nothing else is compared, and nothing is
  ignored.\<close>

theorem same_content_is_equality_up_to_key_order:
  assumes "json_keys_distinct (content_json left)"
  shows "sameDraftContent left right \<longleftrightarrow> json_same (content_json left) (content_json right)"
  using assms same_canonical canonical_same unfolding sameDraftContent_def by blast

lemma same_content_is_equality_up_to_key_order_witness:
  "let a = JObj [(js ''x'', JNull), (js ''y'', JBool True)]; b = JObj [(js ''y'', JBool True), (js ''x'', JNull)];
       c = \<lparr>con_title = js ''t'', con_body = [], con_items = [a], con_rest = []\<rparr>;
       d = \<lparr>con_title = js ''t'', con_body = [], con_items = [b], con_rest = []\<rparr>
   in sameDraftContent c d \<longleftrightarrow> json_same (content_json c) (content_json d)"
  unfolding Let_def by (rule same_content_is_equality_up_to_key_order) (simp add: content_json_def js_def)

lemma same_content_refl [simp]: "sameDraftContent c c"
  by (simp add: sameDraftContent_def)

end
