(* ===== verification/DraftAutosave.thy ===== *)
theory DraftAutosave
  imports DraftContent
begin

text \<open>
  The saved-draft autosave (\<open>apps/web/features/publishing/draft-autosave.ts\<close>): the state of
  \<open>createDraftAutosave\<close> as a record, one definition per function, and the coroutines the asynchronous functions
  leave behind.

  An \<open>async\<close> function runs until its first \<open>await\<close>; what remains of it is a \<open>run\<close>. The runs of \<open>save\<close>
  are the list \<open>au_runs\<close> (the code keeps no such list: that it never holds more than one is a theorem), the calls of
  \<open>ensureDraft\<close> and \<open>resolveCreatedDraft\<close> that wait are \<open>au_ensuring\<close> and \<open>au_resolving\<close>. Requests,
  callbacks and returned values are appended to \<open>au_log\<close>; which error \<open>ensureDraft\<close> throws (\<open>lastCreateError\<close>) is left out. The non-null assertions of the source read an option; where
  one would fail the log gets \<open>NullRead\<close> (in \<open>save\<close>) or \<open>ResolveNullRead\<close> (in \<open>resolveCreatedDraft\<close>). Timers are armed or not, without their delay; a step is told whether the
  confirmed account is this autosave's (\<open>env_account\<close>), the time and the next request identity. Callbacks and store
  listeners do not call back into the autosave and do not throw.
\<close>

datatype autosave_status = Idle | Pending | Saving | Saved | Conflict | ErrorStatus | Reconciling

datatype save_kind = Autosave | Snapshot

record publishing_draft =
  drf_id :: jstr
  drf_revision :: nat
  drf_content :: draft_content
  drf_conflict :: "json option"

record create_command =
  cmd_requestId :: jstr
  cmd_createContent :: draft_content
  cmd_createDevice :: "jstr option"

record save_command =
  cmd_baseRevision :: nat
  cmd_content :: draft_content
  cmd_device :: "jstr option"

record port_error =
  per_status :: nat
  per_code :: "jstr option"
  per_message :: "jstr option"
  per_outcomeUnknown :: bool

record autosave_error =
  ase_code :: "jstr option"
  ase_message :: jstr

record pending_create =
  pcr_command :: create_command
  pcr_version :: nat

record lost_save =
  lst_draftId :: jstr
  lst_content :: draft_content
  lst_version :: nat
  lst_base :: nat

datatype run =
  RunCreate save_kind pending_create
| RunCreated save_kind bool
| RunSave save_kind jstr save_command nat nat
| RunRead lost_save "save_kind option"
| RunReconciled "save_kind option"
| RunDone

datatype ensure_wait = EnsureWait | EnsureCreate | EnsureFlush | EnsureDone

datatype answer = Drafted publishing_draft | ConflictDrafted publishing_draft json | Failed port_error

datatype effect =
  CreateRequest create_command
| SaveRequest save_kind jstr save_command
| ReadRequest jstr
| DraftCreated publishing_draft
| DraftSaved publishing_draft
| EnsureReturned "jstr option"
| ResolveReturned "jstr option"
| ResolveFailed
| ResolveNullRead
| NullRead

record autosave =
  au_status :: autosave_status
  au_draftId :: "jstr option"
  au_revision :: "nat option"
  au_editVersion :: nat
  au_savedVersion :: nat
  au_conflict :: "json option"
  au_error :: "autosave_error option"
  au_lastSavedAt :: "nat option"
  au_latest :: "draft_content option"
  au_timer :: bool
  au_inFlight :: bool
  au_queued :: "save_kind option"
  au_pendingCreate :: "pending_create option"
  au_unreconciled :: "lost_save option"
  au_suspended :: bool
  au_disposed :: bool
  au_runs :: "run list"
  au_ensuring :: "ensure_wait list"
  au_resolving :: nat
  au_log :: "effect list"

record autosave_config =
  cfg_manualOnly :: bool
  cfg_deviceClass :: "jstr option"

record autosave_env =
  env_account :: bool
  env_now :: nat
  env_requestId :: jstr

section \<open>Helpers\<close>

definition unknownMessage :: jstr where
  "unknownMessage = [0x4FDD, 0x5B58, 0x7ED3, 0x679C, 0x5C1A, 0x672A, 0x786E, 0x8BA4, 0xFF0C, 0x8BF7, 0x91CD, 0x8BD5]"

definition failedMessage :: jstr where
  "failedMessage = [0x4FDD, 0x5B58, 0x5931, 0x8D25, 0xFF0C, 0x8BF7, 0x91CD, 0x8BD5]"

definition errorOf :: "port_error \<Rightarrow> jstr \<Rightarrow> autosave_error" where
  "errorOf e fallback = \<lparr>ase_code = per_code e, ase_message = (case per_message e of None \<Rightarrow> fallback | Some m \<Rightarrow> m)\<rparr>"

definition isAccountError :: "port_error \<Rightarrow> bool" where
  "isAccountError e \<longleftrightarrow> per_status e = 401"

definition createDraftAutosave :: "publishing_draft option \<Rightarrow> autosave" where
  "createDraftAutosave initial =
     \<lparr>au_status = (case initial of None \<Rightarrow> Idle | Some d \<Rightarrow> if drf_conflict d \<noteq> None then Conflict else Saved),
      au_draftId = map_option drf_id initial, au_revision = map_option drf_revision initial,
      au_editVersion = 0, au_savedVersion = 0, au_conflict = Option.bind initial drf_conflict, au_error = None,
      au_lastSavedAt = None, au_latest = map_option drf_content initial, au_timer = False, au_inFlight = False,
      au_queued = None, au_pendingCreate = None, au_unreconciled = None, au_suspended = False, au_disposed = False,
      au_runs = [], au_ensuring = [], au_resolving = 0, au_log = []\<rparr>"

definition emit :: "effect \<Rightarrow> autosave \<Rightarrow> autosave" where
  "emit out st = st\<lparr>au_log := au_log st @ [out]\<rparr>"

definition clearTimer :: "autosave \<Rightarrow> autosave" where
  "clearTimer st = st\<lparr>au_timer := False\<rparr>"

text \<open>Whether requests may be sent now; an account change suspends.\<close>

definition accountConfirmed :: "autosave_env \<Rightarrow> autosave \<Rightarrow> bool \<times> autosave" where
  "accountConfirmed env st =
     (if au_suspended st then (False, st)
      else if \<not> env_account env then (False, clearTimer (st\<lparr>au_suspended := True\<rparr>))
      else (True, st))"

definition settledStatus :: "autosave \<Rightarrow> autosave_status" where
  "settledStatus st = (if au_editVersion st > au_savedVersion st then Pending else Saved)"

definition schedule :: "autosave_config \<Rightarrow> autosave \<Rightarrow> autosave" where
  "schedule cfg st =
     (let st = clearTimer st in
      if cfg_manualOnly cfg then st
      else if au_disposed st \<or> au_suspended st \<or> au_status st = Conflict then st
      else st\<lparr>au_timer := True\<rparr>)"

definition markSaved :: "autosave_config \<Rightarrow> autosave_env \<Rightarrow> publishing_draft \<Rightarrow> nat \<Rightarrow> autosave \<Rightarrow> autosave" where
  "markSaved cfg env draft version st =
     (let st = emit (DraftSaved draft) st;
          st = st\<lparr>au_draftId := Some (drf_id draft), au_revision := Some (drf_revision draft),
            au_savedVersion := max (au_savedVersion st) version, au_error := None, au_conflict := None,
            au_lastSavedAt := Some (env_now env)\<rparr>;
          st = st\<lparr>au_status := settledStatus st\<rparr> in
      if au_status st = Pending \<and> \<not> au_timer st \<and> au_queued st = None then schedule cfg st else st)"

section \<open>Creating\<close>

text \<open>\<open>create\<close> up to its \<open>await\<close>: a command whose outcome is unknown is replayed as it was.\<close>

definition create_begin ::
  "autosave_config \<Rightarrow> autosave_env \<Rightarrow> save_kind \<Rightarrow> draft_content \<Rightarrow> nat \<Rightarrow> autosave \<Rightarrow> autosave \<times> run" where
  "create_begin cfg env kind content version st =
     (let frozen = (case au_pendingCreate st of
            Some p \<Rightarrow> p
          | None \<Rightarrow> \<lparr>pcr_command = \<lparr>cmd_requestId = env_requestId env, cmd_createContent = content, cmd_createDevice = cfg_deviceClass cfg\<rparr>,
              pcr_version = version\<rparr>) in
      (emit (CreateRequest (pcr_command frozen)) (st\<lparr>au_pendingCreate := Some frozen\<rparr>), RunCreate kind frozen))"

text \<open>The version a created draft confirms.\<close>

definition created_version :: "publishing_draft \<Rightarrow> pending_create \<Rightarrow> autosave \<Rightarrow> nat" where
  "created_version draft frozen st =
     (if sameDraftContent (drf_content draft) (cmd_createContent (pcr_command frozen)) then pcr_version frozen else au_savedVersion st)"

text \<open>The rest of \<open>create\<close>, and whether it returns a draft.\<close>

definition create_drafted ::
  "autosave_config \<Rightarrow> autosave_env \<Rightarrow> pending_create \<Rightarrow> publishing_draft \<Rightarrow> autosave \<Rightarrow> autosave \<times> bool" where
  "create_drafted cfg env frozen draft st =
     (if au_disposed st then (st, False)
      else let st = emit (DraftCreated draft) (st\<lparr>au_pendingCreate := None\<rparr>) in
        if drf_conflict draft \<noteq> None then
          (let st = emit (DraftSaved draft) st in
           (st\<lparr>au_draftId := Some (drf_id draft), au_revision := Some (drf_revision draft), au_status := Conflict,
              au_conflict := drf_conflict draft, au_error := None\<rparr>, True))
        else (markSaved cfg env draft (created_version draft frozen st) st, True))"

definition create_failed ::
  "autosave_env \<Rightarrow> port_error \<Rightarrow> autosave \<Rightarrow> autosave \<times> bool" where
  "create_failed env err st =
     (if au_disposed st then (st, False)
      else let st = (if \<not> per_outcomeUnknown err then st\<lparr>au_pendingCreate := None\<rparr> else st);
               (confirmed, st) = (if isAccountError err then accountConfirmed env st else (True, st)) in
        if \<not> confirmed then (st\<lparr>au_status := Pending, au_error := None\<rparr>, False)
        else (st\<lparr>au_status := ErrorStatus,
                au_error := Some (errorOf err (if per_outcomeUnknown err then unknownMessage else failedMessage))\<rparr>, False))"

section \<open>Reconciling\<close>

text \<open>\<open>reconcile\<close> up to its \<open>await\<close>; \<open>resume\<close> is the save that goes on afterwards, if one does.\<close>

definition reconcile_begin :: "autosave_env \<Rightarrow> lost_save \<Rightarrow> save_kind option \<Rightarrow> autosave \<Rightarrow> autosave \<times> run" where
  "reconcile_begin env lost resume st =
     (let (confirmed, st) = accountConfirmed env st in
      if \<not> confirmed then
        (st\<lparr>au_unreconciled := Some lost, au_status := ErrorStatus, au_error := Some \<lparr>ase_code = None, ase_message = unknownMessage\<rparr>\<rparr>,
         RunReconciled resume)
      else
        (emit (ReadRequest (lst_draftId lost)) (st\<lparr>au_unreconciled := None, au_status := Reconciling\<rparr>), RunRead lost resume))"

definition reconcile_read :: "autosave_config \<Rightarrow> autosave_env \<Rightarrow> lost_save \<Rightarrow> publishing_draft \<Rightarrow> autosave \<Rightarrow> autosave" where
  "reconcile_read cfg env lost draft st =
     (if au_disposed st then st
      else if drf_revision draft \<noteq> lst_base lost \<and> sameDraftContent (drf_content draft) (lst_content lost)
      then markSaved cfg env draft (lst_version lost) st
      else st\<lparr>au_status := (if drf_conflict draft \<noteq> None then Conflict else ErrorStatus), au_conflict := drf_conflict draft,
             au_error := (if drf_conflict draft \<noteq> None then None else Some \<lparr>ase_code = None, ase_message = failedMessage\<rparr>)\<rparr>)"

definition reconcile_failed :: "port_error \<Rightarrow> autosave \<Rightarrow> autosave" where
  "reconcile_failed err st =
     (if au_disposed st then st
      else st\<lparr>au_status := ErrorStatus, au_error := Some (errorOf err unknownMessage)\<rparr>)"

section \<open>Saving\<close>

text \<open>\<open>save\<close> from the command to the request.\<close>

definition save_write :: "autosave_config \<Rightarrow> save_kind \<Rightarrow> autosave \<Rightarrow> autosave \<times> run" where
  "save_write cfg kind st =
     (case (au_draftId st, au_revision st, au_latest st) of
        (Some draftId, Some base, Some content) \<Rightarrow>
          (let command = \<lparr>cmd_baseRevision = base, cmd_content = content, cmd_device = cfg_deviceClass cfg\<rparr> in
           (emit (SaveRequest kind draftId command) st, RunSave kind draftId command (au_editVersion st) base))
      | _ \<Rightarrow> (emit NullRead st, RunDone))"

text \<open>\<open>save\<close> once no lost save is left to learn about.\<close>

definition save_latest :: "autosave_config \<Rightarrow> autosave_env \<Rightarrow> save_kind \<Rightarrow> autosave \<Rightarrow> autosave \<times> run" where
  "save_latest cfg env kind st =
     (case au_latest st of
        None \<Rightarrow> (st, RunDone)
      | Some content \<Rightarrow>
          if au_status st = Conflict then (st, RunDone)
          else if au_draftId st = None then
            (if isEmptyDraftContent content then (st\<lparr>au_status := Idle, au_savedVersion := au_editVersion st\<rparr>, RunDone)
             else create_begin cfg env kind content (au_editVersion st) (st\<lparr>au_status := Saving, au_error := None\<rparr>))
          else if kind = Autosave \<and> au_editVersion st \<le> au_savedVersion st then (st\<lparr>au_status := Saved\<rparr>, RunDone)
          else save_write cfg kind (st\<lparr>au_status := Saving, au_error := None\<rparr>))"

definition save :: "autosave_config \<Rightarrow> autosave_env \<Rightarrow> save_kind \<Rightarrow> autosave \<Rightarrow> autosave \<times> run" where
  "save cfg env kind st =
     (let (confirmed, st) = accountConfirmed env st in
      if \<not> confirmed then (st, RunDone)
      else case au_unreconciled st of
          Some lost \<Rightarrow> reconcile_begin env lost (Some kind) st
        | None \<Rightarrow> save_latest cfg env kind st)"

text \<open>The answer of the write.\<close>

definition save_drafted :: "autosave_config \<Rightarrow> autosave_env \<Rightarrow> publishing_draft \<Rightarrow> nat \<Rightarrow> autosave \<Rightarrow> autosave" where
  "save_drafted cfg env draft sentVersion st = (if au_disposed st then st else markSaved cfg env draft sentVersion st)"

definition save_conflicted :: "publishing_draft \<Rightarrow> json \<Rightarrow> autosave \<Rightarrow> autosave" where
  "save_conflicted draft conflict st =
     (if au_disposed st then st
      else let st = emit (DraftSaved draft) (clearTimer st) in
        st\<lparr>au_status := Conflict, au_revision := Some (drf_revision draft), au_conflict := Some conflict, au_error := None\<rparr>)"

definition save_failed :: "autosave_env \<Rightarrow> port_error \<Rightarrow> lost_save \<Rightarrow> autosave \<Rightarrow> autosave \<times> run" where
  "save_failed env err lost st =
     (if au_disposed st then (st, RunDone)
      else if per_outcomeUnknown err then reconcile_begin env lost None st
      else
        (let (confirmed, st) = (if isAccountError err then accountConfirmed env st else (True, st)) in
         if \<not> confirmed then (st\<lparr>au_status := Pending, au_error := None\<rparr>, RunDone)
         else (st\<lparr>au_status := ErrorStatus, au_error := Some (errorOf err failedMessage)\<rparr>, RunDone)))"

section \<open>Flushing and resuming\<close>

definition flush :: "autosave_config \<Rightarrow> autosave_env \<Rightarrow> save_kind \<Rightarrow> autosave \<Rightarrow> autosave" where
  "flush cfg env kind st =
     (if au_disposed st then st
      else let st = clearTimer st in
        if au_inFlight st then
          st\<lparr>au_queued := Some (if au_queued st = Some Snapshot \<or> kind = Snapshot then Snapshot else Autosave)\<rparr>
        else let (st, r) = save cfg env kind st in st\<lparr>au_inFlight := True, au_runs := au_runs st @ [r]\<rparr>)"

text \<open>The answer of a port call, for the run that awaits it.\<close>

fun run_answered :: "autosave_config \<Rightarrow> autosave_env \<Rightarrow> run \<Rightarrow> answer \<Rightarrow> autosave \<Rightarrow> (autosave \<times> run) option" where
  "run_answered cfg env (RunCreate kind frozen) (Drafted draft) st =
     (let (st, created) = create_drafted cfg env frozen draft st in Some (st, RunCreated kind created))"
| "run_answered cfg env (RunCreate kind frozen) (Failed err) st =
     (let (st, created) = create_failed env err st in Some (st, RunCreated kind created))"
| "run_answered cfg env (RunSave kind draftId command sent base) (Drafted draft) st = Some (save_drafted cfg env draft sent st, RunDone)"
| "run_answered cfg env (RunSave kind draftId command sent base) (ConflictDrafted draft conflict) st = Some (save_conflicted draft conflict st, RunDone)"
| "run_answered cfg env (RunSave kind draftId command sent base) (Failed err) st =
     Some (save_failed env err \<lparr>lst_draftId = draftId, lst_content = cmd_content command, lst_version = sent, lst_base = base\<rparr> st)"
| "run_answered cfg env (RunRead lost resume) (Drafted draft) st = Some (reconcile_read cfg env lost draft st, RunReconciled resume)"
| "run_answered cfg env (RunRead lost resume) (Failed err) st = Some (reconcile_failed err st, RunReconciled resume)"
| "run_answered cfg env r ans st = None"

text \<open>A \<open>save\<close> goes on after \<open>create\<close> or \<open>reconcile\<close> has returned.\<close>

fun run_continues :: "autosave_config \<Rightarrow> autosave_env \<Rightarrow> run \<Rightarrow> autosave \<Rightarrow> (autosave \<times> run) option" where
  "run_continues cfg env (RunCreated kind created) st =
     Some (if \<not> created \<or> kind \<noteq> Snapshot then (st, RunDone) else save_write cfg kind st)"
| "run_continues cfg env (RunReconciled None) st = Some (st, RunDone)"
| "run_continues cfg env (RunReconciled (Some kind)) st =
     Some (if au_disposed st \<or> (au_status st \<noteq> Saved \<and> au_status st \<noteq> Pending) then (st, RunDone) else save_latest cfg env kind st)"
| "run_continues cfg env r st = None"

definition remove_at :: "nat \<Rightarrow> 'a list \<Rightarrow> 'a list" where
  "remove_at i xs = take i xs @ drop (Suc i) xs"

text \<open>The calls of \<open>ensureDraft\<close> that awaited the run which ended.\<close>

fun flight_over :: "ensure_wait \<Rightarrow> ensure_wait" where
  "flight_over EnsureWait = EnsureCreate"
| "flight_over EnsureFlush = EnsureDone"
| "flight_over w = w"

text \<open>The \<open>finally\<close> of \<open>flush\<close>.\<close>

definition run_finished :: "autosave_config \<Rightarrow> autosave_env \<Rightarrow> nat \<Rightarrow> autosave \<Rightarrow> autosave" where
  "run_finished cfg env i st =
     (let queued = au_queued st;
          st = st\<lparr>au_inFlight := False, au_queued := None, au_runs := remove_at i (au_runs st),
            au_ensuring := map flight_over (au_ensuring st)\<rparr> in
      case queued of
        None \<Rightarrow> st
      | Some kind \<Rightarrow>
          if au_disposed st \<or> au_suspended st then st
          else if kind = Snapshot \<or> (au_status st \<noteq> ErrorStatus \<and> au_status st \<noteq> Conflict \<and> au_status st \<noteq> Reconciling)
          then flush cfg env kind st
          else st)"

section \<open>The operations of the controller\<close>

definition edit :: "autosave_config \<Rightarrow> draft_content \<Rightarrow> autosave \<Rightarrow> autosave" where
  "edit cfg content st =
     (if au_disposed st then st
      else if cfg_manualOnly cfg \<and> (case au_latest st of None \<Rightarrow> False | Some c \<Rightarrow> sameDraftContent c content) then st
      else
        (let st = st\<lparr>au_latest := Some content\<rparr>;
             editVersion = au_editVersion st + 1 in
         if cfg_manualOnly cfg \<and> au_draftId st = None \<and> au_pendingCreate st = None \<and> isEmptyDraftContent content
         then st\<lparr>au_editVersion := editVersion, au_savedVersion := editVersion, au_status := Idle\<rparr>
         else if au_status st = Conflict then st\<lparr>au_editVersion := editVersion\<rparr>
         else schedule cfg
           (st\<lparr>au_editVersion := editVersion,
              au_status := (if au_status st = Saving \<or> au_status st = Reconciling then au_status st else Pending)\<rparr>)))"

definition saveNow :: "autosave_config \<Rightarrow> autosave_env \<Rightarrow> autosave \<Rightarrow> autosave" where
  "saveNow cfg env st = flush cfg env (if cfg_manualOnly cfg then Autosave else Snapshot) st"

definition retry :: "autosave_config \<Rightarrow> autosave_env \<Rightarrow> autosave \<Rightarrow> autosave" where
  "retry cfg env st = (if au_status st \<noteq> ErrorStatus then st else flush cfg env Autosave st)"

text \<open>\<open>ensureDraft\<close>, in the parts between its awaits; \<open>EnsureReturned None\<close> is the error it throws.\<close>

definition ensure_create :: "autosave_config \<Rightarrow> autosave_env \<Rightarrow> autosave \<Rightarrow> autosave" where
  "ensure_create cfg env st =
     (if au_draftId st \<noteq> None then emit (EnsureReturned (au_draftId st)) st
      else let disposed = au_disposed st; st = flush cfg env Autosave st in
        st\<lparr>au_ensuring := au_ensuring st @ [if disposed then EnsureDone else EnsureFlush]\<rparr>)"

definition ensureDraft :: "autosave_config \<Rightarrow> autosave_env \<Rightarrow> autosave \<Rightarrow> autosave" where
  "ensureDraft cfg env st =
     (if au_draftId st \<noteq> None then emit (EnsureReturned (au_draftId st)) st
      else if (case au_latest st of None \<Rightarrow> True | Some c \<Rightarrow> isEmptyDraftContent c) then emit (EnsureReturned None) st
      else if au_inFlight st then st\<lparr>au_ensuring := au_ensuring st @ [EnsureWait]\<rparr>
      else ensure_create cfg env st)"

definition ensure_continues :: "autosave_config \<Rightarrow> autosave_env \<Rightarrow> nat \<Rightarrow> autosave \<Rightarrow> autosave" where
  "ensure_continues cfg env i st =
     (case au_ensuring st ! i of
        EnsureCreate \<Rightarrow> ensure_create cfg env (st\<lparr>au_ensuring := remove_at i (au_ensuring st)\<rparr>)
      | EnsureDone \<Rightarrow> emit (EnsureReturned (au_draftId st)) (st\<lparr>au_ensuring := remove_at i (au_ensuring st)\<rparr>)
      | _ \<Rightarrow> st)"

definition adoptDraft :: "autosave_config \<Rightarrow> publishing_draft \<Rightarrow> draft_content \<Rightarrow> autosave \<Rightarrow> autosave" where
  "adoptDraft cfg draft content st =
     (let st = clearTimer (emit (DraftSaved draft) st);
          st = st\<lparr>au_latest := Some content, au_draftId := Some (drf_id draft), au_revision := Some (drf_revision draft),
            au_conflict := drf_conflict draft, au_error := None,
            au_status := (if drf_conflict draft \<noteq> None then Conflict else Saved),
            au_savedVersion := (if sameDraftContent (drf_content draft) content then au_editVersion st else au_savedVersion st)\<rparr> in
      if drf_conflict draft = None \<and> au_editVersion st > au_savedVersion st
      then schedule cfg (st\<lparr>au_status := Pending\<rparr>) else st)"

definition hasUnsavedChanges :: "autosave \<Rightarrow> bool" where
  "hasUnsavedChanges st \<longleftrightarrow>
     au_editVersion st > au_savedVersion st \<or> au_status st = Saving \<or> au_status st = Reconciling \<or>
     au_status st = ErrorStatus \<or> au_status st = Conflict"

definition suspend :: "autosave \<Rightarrow> autosave" where
  "suspend st = clearTimer (st\<lparr>au_suspended := True\<rparr>)"

definition resume :: "autosave_config \<Rightarrow> autosave_env \<Rightarrow> autosave \<Rightarrow> autosave" where
  "resume cfg env st =
     (if au_disposed st then st
      else let (confirmed, st) = accountConfirmed env (st\<lparr>au_suspended := False\<rparr>) in
        if \<not> confirmed then st
        else if au_unreconciled st \<noteq> None then (if cfg_manualOnly cfg then st else flush cfg env Autosave st)
        else if au_status st \<noteq> Conflict \<and> au_status st \<noteq> ErrorStatus \<and> au_editVersion st > au_savedVersion st
        then schedule cfg (st\<lparr>au_status := Pending\<rparr>)
        else st)"

text \<open>\<open>idle()\<close> resolves when no save is in flight.\<close>

definition autosave_idle :: "autosave \<Rightarrow> bool" where
  "autosave_idle st \<longleftrightarrow> \<not> au_inFlight st"

definition resolveCreatedDraft :: "autosave_env \<Rightarrow> autosave \<Rightarrow> autosave" where
  "resolveCreatedDraft env st =
     (case (au_draftId st, au_pendingCreate st) of
        (None, Some p) \<Rightarrow>
          if \<not> env_account env then emit ResolveFailed st
          else emit (CreateRequest (pcr_command p)) (st\<lparr>au_resolving := au_resolving st + 1\<rparr>)
      | (existing, _) \<Rightarrow> emit (ResolveReturned existing) st)"

text \<open>The answer \<open>resolveCreatedDraft\<close> awaited. It reads \<open>pendingCreate\<close> again, which may be null by then.\<close>

definition resolve_drafted :: "autosave_config \<Rightarrow> autosave_env \<Rightarrow> publishing_draft \<Rightarrow> autosave \<Rightarrow> autosave" where
  "resolve_drafted cfg env draft st =
     (let st = st\<lparr>au_resolving := au_resolving st - 1\<rparr> in
      case au_pendingCreate st of
        None \<Rightarrow> emit ResolveNullRead st
      | Some p \<Rightarrow>
          (let st = st\<lparr>au_pendingCreate := None\<rparr>;
               st = (if au_disposed st then st
                 else let st = emit (DraftCreated draft) st in markSaved cfg env draft (created_version draft p st) st) in
           emit (ResolveReturned (Some (drf_id draft))) st))"

definition resolve_failed :: "autosave \<Rightarrow> autosave" where
  "resolve_failed st = emit ResolveFailed (st\<lparr>au_resolving := au_resolving st - 1\<rparr>)"

definition dispose :: "autosave \<Rightarrow> autosave" where
  "dispose st = clearTimer (st\<lparr>au_disposed := True\<rparr>)"

section \<open>Events\<close>

datatype event =
  Edit draft_content
| SaveNow
| Retry
| EnsureDraft
| AdoptDraft publishing_draft draft_content
| Suspend
| Resume
| ResolveCreated
| Dispose
| TimerFires
| RunAnswered nat answer
| RunContinues nat
| RunFinished nat
| EnsureContinues nat
| ResolveAnswered answer

text \<open>One turn of the event loop; \<open>None\<close> when the event cannot happen.\<close>

definition resume_run :: "nat \<Rightarrow> autosave \<Rightarrow> (run \<Rightarrow> (autosave \<times> run) option) \<Rightarrow> autosave option" where
  "resume_run i st f =
     (if i < length (au_runs st)
      then map_option (\<lambda>(st', r). st'\<lparr>au_runs := (au_runs st')[i := r]\<rparr>) (f (au_runs st ! i)) else None)"

fun handle :: "autosave_config \<Rightarrow> autosave_env \<Rightarrow> event \<Rightarrow> autosave \<Rightarrow> autosave option" where
  "handle cfg env (Edit content) st = Some (edit cfg content st)"
| "handle cfg env SaveNow st = Some (saveNow cfg env st)"
| "handle cfg env Retry st = Some (retry cfg env st)"
| "handle cfg env EnsureDraft st = Some (ensureDraft cfg env st)"
| "handle cfg env (AdoptDraft draft content) st = Some (adoptDraft cfg draft content st)"
| "handle cfg env Suspend st = Some (suspend st)"
| "handle cfg env Resume st = Some (resume cfg env st)"
| "handle cfg env ResolveCreated st = Some (resolveCreatedDraft env st)"
| "handle cfg env Dispose st = Some (dispose st)"
| "handle cfg env TimerFires st = (if au_timer st then Some (flush cfg env Autosave (st\<lparr>au_timer := False\<rparr>)) else None)"
| "handle cfg env (RunAnswered i ans) st = resume_run i st (\<lambda>r. run_answered cfg env r ans st)"
| "handle cfg env (RunContinues i) st = resume_run i st (\<lambda>r. run_continues cfg env r st)"
| "handle cfg env (RunFinished i) st =
     (if i < length (au_runs st) \<and> au_runs st ! i = RunDone then Some (run_finished cfg env i st) else None)"
| "handle cfg env (EnsureContinues i) st =
     (if i < length (au_ensuring st) \<and> au_ensuring st ! i \<in> {EnsureCreate, EnsureDone} then Some (ensure_continues cfg env i st) else None)"
| "handle cfg env (ResolveAnswered ans) st =
     (if au_resolving st = 0 then None
      else case ans of Drafted draft \<Rightarrow> Some (resolve_drafted cfg env draft st) | Failed err \<Rightarrow> Some (resolve_failed st) | _ \<Rightarrow> None)"

inductive autosave_step :: "autosave_config \<Rightarrow> event \<Rightarrow> autosave \<Rightarrow> autosave \<Rightarrow> bool" for cfg where
  step: "handle cfg env e st = Some st' \<Longrightarrow> autosave_step cfg e st st'"

inductive autosave_reachable :: "autosave_config \<Rightarrow> autosave \<Rightarrow> bool" for cfg where
  start: "autosave_reachable cfg (createDraftAutosave initial)"
| later: "autosave_reachable cfg st \<Longrightarrow> autosave_step cfg e st st' \<Longrightarrow> autosave_reachable cfg st'"

inductive_cases autosave_stepE: "autosave_step cfg e st st'"

end
