(* ===== verification/AutosaveInvariant.thy ===== *)
theory AutosaveInvariant
  imports DraftAutosave
begin

text \<open>
  The invariant of the autosave's state, kept by every event, and what it says: the saved marker never passes the edit
  counter, a status that reports everything saved is true, no save runs beside another, no timer outlives the cases
  it is for, and the values the code asserts to be non-null are.
\<close>

section \<open>The invariant\<close>

text \<open>Each conjunct names the fields it is about, so that an operation leaves the others to be matched as they are.\<close>

fun pending_ok :: "pending_create option \<Rightarrow> nat \<Rightarrow> draft_content option \<Rightarrow> bool" where
  "pending_ok None version latest \<longleftrightarrow> True"
| "pending_ok (Some p) version latest \<longleftrightarrow> pcr_version p \<le> version \<and> latest \<noteq> None"

fun lost_ok :: "lost_save option \<Rightarrow> nat \<Rightarrow> jstr option \<Rightarrow> bool" where
  "lost_ok None version draftId \<longleftrightarrow> True"
| "lost_ok (Some l) version draftId \<longleftrightarrow> lst_version l \<le> version \<and> draftId \<noteq> None"

fun draft_ok :: "jstr option \<Rightarrow> nat option \<Rightarrow> draft_content option \<Rightarrow> bool" where
  "draft_ok None revision latest \<longleftrightarrow> revision = None"
| "draft_ok (Some d) revision latest \<longleftrightarrow> revision \<noteq> None \<and> latest \<noteq> None"

fun status_ok :: "autosave_status \<Rightarrow> nat \<Rightarrow> nat \<Rightarrow> jstr option \<Rightarrow> bool" where
  "status_ok Idle saved version draftId \<longleftrightarrow> saved = version"
| "status_ok Saved saved version draftId \<longleftrightarrow> saved = version"
| "status_ok Conflict saved version draftId \<longleftrightarrow> draftId \<noteq> None"
| "status_ok s saved version draftId \<longleftrightarrow> True"

definition timer_ok :: "autosave_config \<Rightarrow> bool \<Rightarrow> bool \<Rightarrow> bool \<Rightarrow> bool" where
  "timer_ok cfg timer disposed suspended \<longleftrightarrow> (timer \<longrightarrow> \<not> cfg_manualOnly cfg \<and> \<not> disposed \<and> \<not> suspended)"

definition log_ok :: "effect list \<Rightarrow> bool" where
  "log_ok log \<longleftrightarrow> NullRead \<notin> set log"

definition autosave_core :: "autosave_config \<Rightarrow> autosave \<Rightarrow> bool" where
  "autosave_core cfg st \<longleftrightarrow>
     au_savedVersion st \<le> au_editVersion st \<and>
     pending_ok (au_pendingCreate st) (au_editVersion st) (au_latest st) \<and>
     lost_ok (au_unreconciled st) (au_editVersion st) (au_draftId st) \<and>
     draft_ok (au_draftId st) (au_revision st) (au_latest st) \<and>
     status_ok (au_status st) (au_savedVersion st) (au_editVersion st) (au_draftId st) \<and>
     timer_ok cfg (au_timer st) (au_disposed st) (au_suspended st) \<and>
     log_ok (au_log st)"

lemma timer_ok_off [simp]: "timer_ok cfg False disposed suspended"
  by (simp add: timer_ok_def)

lemma timer_ok_on: "timer_ok cfg True disposed suspended \<longleftrightarrow> \<not> cfg_manualOnly cfg \<and> \<not> disposed \<and> \<not> suspended"
  by (simp add: timer_ok_def)

lemma log_ok_append [simp]: "log_ok (log @ es) \<longleftrightarrow> log_ok log \<and> NullRead \<notin> set es"
  by (auto simp: log_ok_def)

lemma pending_ok_mono: "pending_ok p version latest \<Longrightarrow> version \<le> version' \<Longrightarrow> (latest \<noteq> None \<Longrightarrow> latest' \<noteq> None) \<Longrightarrow> pending_ok p version' latest'"
  by (cases p) auto

lemma lost_ok_mono: "lost_ok l version draftId \<Longrightarrow> version \<le> version' \<Longrightarrow> (draftId \<noteq> None \<Longrightarrow> draftId' \<noteq> None) \<Longrightarrow> lost_ok l version' draftId'"
  by (cases l) auto

lemma draft_ok_latest: "draft_ok draftId revision latest \<Longrightarrow> latest' \<noteq> None \<Longrightarrow> draft_ok draftId revision latest'"
  by (cases draftId) auto

text \<open>What a waiting run relies on.\<close>

fun run_ok :: "autosave \<Rightarrow> run \<Rightarrow> bool" where
  "run_ok st (RunCreate kind p) \<longleftrightarrow> pcr_version p \<le> au_editVersion st \<and> au_latest st \<noteq> None"
| "run_ok st (RunCreated kind created) \<longleftrightarrow> (created \<longrightarrow> au_draftId st \<noteq> None)"
| "run_ok st (RunSave kind draftId command sent base) \<longleftrightarrow> sent \<le> au_editVersion st \<and> au_draftId st \<noteq> None"
| "run_ok st (RunRead lost cont) \<longleftrightarrow> lst_version lost \<le> au_editVersion st \<and> au_draftId st \<noteq> None"
| "run_ok st (RunReconciled cont) \<longleftrightarrow> True"
| "run_ok st RunDone \<longleftrightarrow> True"

definition autosave_inv :: "autosave_config \<Rightarrow> autosave \<Rightarrow> bool" where
  "autosave_inv cfg st \<longleftrightarrow>
     autosave_core cfg st \<and> list_all (run_ok st) (au_runs st) \<and> length (au_runs st) = (if au_inFlight st then 1 else 0) \<and>
     (au_queued st \<noteq> None \<longrightarrow> au_inFlight st)"

text \<open>What no operation takes back.\<close>

definition grows :: "autosave \<Rightarrow> autosave \<Rightarrow> bool" where
  "grows st st' \<longleftrightarrow>
     au_editVersion st \<le> au_editVersion st' \<and> (au_draftId st \<noteq> None \<longrightarrow> au_draftId st' \<noteq> None) \<and>
     (au_latest st \<noteq> None \<longrightarrow> au_latest st' \<noteq> None) \<and>
     au_runs st' = au_runs st \<and> au_inFlight st' = au_inFlight st \<and> au_queued st' = au_queued st"

definition keeps :: "autosave_config \<Rightarrow> autosave \<Rightarrow> autosave \<Rightarrow> bool" where
  "keeps cfg st st' \<longleftrightarrow> autosave_core cfg st' \<and> grows st st'"

lemma keeps_trans: "keeps cfg st st' \<Longrightarrow> keeps cfg st' st'' \<Longrightarrow> keeps cfg st st''"
  by (auto simp: keeps_def grows_def)

lemma keeps_refl: "autosave_core cfg st \<Longrightarrow> keeps cfg st st"
  by (auto simp: keeps_def grows_def)

lemma run_ok_grows: "grows st st' \<Longrightarrow> run_ok st r \<Longrightarrow> run_ok st' r"
  by (cases r) (auto simp: grows_def)

lemma keepsI: "autosave_core cfg st' \<Longrightarrow> grows st st' \<Longrightarrow> keeps cfg st st'"
  by (simp add: keeps_def)

lemma keeps_core: "keeps cfg st st' \<Longrightarrow> autosave_core cfg st'"
  by (simp add: keeps_def)

lemma emit_keeps: "autosave_core cfg st \<Longrightarrow> e \<noteq> NullRead \<Longrightarrow> keeps cfg st (emit e st)"
  by (simp add: keeps_def grows_def autosave_core_def emit_def)

lemma clearTimer_keeps: "autosave_core cfg st \<Longrightarrow> keeps cfg st (clearTimer st)"
  by (simp add: keeps_def grows_def autosave_core_def clearTimer_def)

lemma schedule_keeps:
  assumes "autosave_core cfg st"
  shows "keeps cfg st (schedule cfg st)"
proof (cases "cfg_manualOnly cfg \<or> au_disposed st \<or> au_suspended st \<or> au_status st = Conflict")
  case True
  then have "schedule cfg st = clearTimer st" by (auto simp: schedule_def clearTimer_def Let_def)
  then show ?thesis using assms by (simp add: clearTimer_keeps)
next
  case False
  then show ?thesis using assms
    by (simp add: schedule_def clearTimer_def Let_def keeps_def grows_def autosave_core_def timer_ok_on)
qed

lemma status_update_keeps:
  assumes "autosave_core cfg st" "status_ok s (au_savedVersion st) (au_editVersion st) (au_draftId st)"
  shows "keeps cfg st (st\<lparr>au_status := s, au_error := e\<rparr>)"
  using assms by (simp add: keeps_def grows_def autosave_core_def)

lemma markSaved_keeps:
  assumes "autosave_core cfg st" "version \<le> au_editVersion st" "au_latest st \<noteq> None"
  shows "keeps cfg st (markSaved cfg env draft version st)"
proof -
  let ?st1 = "(emit (DraftSaved draft) st)\<lparr>au_draftId := Some (drf_id draft), au_revision := Some (drf_revision draft),
            au_savedVersion := max (au_savedVersion st) version, au_error := None, au_conflict := None,
            au_lastSavedAt := Some (env_now env)\<rparr>"
  define st2 where "st2 = ?st1\<lparr>au_status := settledStatus ?st1\<rparr>"
  have status: "status_ok (settledStatus ?st1) (max (au_savedVersion st) version) (au_editVersion st) (Some (drf_id draft))"
    using assms by (auto simp: settledStatus_def emit_def autosave_core_def)
  have lost: "lost_ok (au_unreconciled st) (au_editVersion st) (Some (drf_id draft))"
    using assms(1) by (auto simp: autosave_core_def elim: lost_ok_mono)
  have st2: "keeps cfg st st2"
    using assms status lost by (simp add: st2_def keeps_def grows_def autosave_core_def emit_def)
  have "markSaved cfg env draft version st = (if au_status st2 = Pending \<and> \<not> au_timer st2 \<and> au_queued st2 = None then schedule cfg st2 else st2)"
    by (simp add: st2_def markSaved_def emit_def Let_def)
  then show ?thesis using st2 keeps_trans [OF st2 schedule_keeps [OF keeps_core [OF st2]]] by simp
qed

lemma accountConfirmed_keeps:
  assumes "autosave_core cfg st" "accountConfirmed env st = (c, st')"
  shows "keeps cfg st st'"
  using assms by (auto simp: keeps_def grows_def autosave_core_def accountConfirmed_def clearTimer_def split: if_splits)

lemma create_begin_keeps:
  assumes "autosave_core cfg st" "version \<le> au_editVersion st" "au_latest st \<noteq> None" "create_begin cfg env kind content version st = (st', r)"
  shows "keeps cfg st st' \<and> run_ok st' r"
proof (cases "au_pendingCreate st")
  case None
  then show ?thesis using assms by (auto simp: create_begin_def emit_def Let_def keeps_def grows_def autosave_core_def)
next
  case (Some p)
  then show ?thesis using assms by (auto simp: create_begin_def emit_def Let_def keeps_def grows_def autosave_core_def)
qed


lemma created_version_bound: "autosave_core cfg st \<Longrightarrow> pcr_version p \<le> au_editVersion st \<Longrightarrow> created_version d p st \<le> au_editVersion st"
  by (simp add: created_version_def autosave_core_def)

lemma create_drafted_keeps:
  assumes core: "autosave_core cfg st" and p: "pcr_version p \<le> au_editVersion st" "au_latest st \<noteq> None"
    and r: "create_drafted cfg env p draft st = (st', c)"
  shows "keeps cfg st st' \<and> run_ok st' (RunCreated kind c)"
proof (cases "au_disposed st")
  case True
  then show ?thesis using core r by (auto simp: create_drafted_def keeps_refl)
next
  case False
  let ?st1 = "emit (DraftCreated draft) (st\<lparr>au_pendingCreate := None\<rparr>)"
  have st1: "keeps cfg st ?st1" using core by (simp add: keeps_def grows_def autosave_core_def emit_def)
  show ?thesis
  proof (cases "drf_conflict draft = None")
    case True
    then have st': "st' = markSaved cfg env draft (created_version draft p ?st1) ?st1" "c"
      using r False by (auto simp: create_drafted_def Let_def)
    have "created_version draft p ?st1 \<le> au_editVersion ?st1"
      using keeps_core [OF st1] p by (intro created_version_bound) (simp_all add: emit_def)
    then have "keeps cfg ?st1 st'"
      unfolding st'(1) using keeps_core [OF st1] p by (intro markSaved_keeps) (simp_all add: emit_def)
    moreover have "au_draftId st' \<noteq> None"
      unfolding st' by (simp add: markSaved_def schedule_def clearTimer_def Let_def)
    ultimately show ?thesis using keeps_trans [OF st1] by simp
  next
    case conflict: False
    have lost: "lost_ok (au_unreconciled st) (au_editVersion st) (Some (drf_id draft))"
      using core by (auto simp: autosave_core_def elim: lost_ok_mono)
    show ?thesis using r False conflict core p lost
      by (auto simp: create_drafted_def Let_def keeps_def grows_def autosave_core_def emit_def)
  qed
qed

lemma create_failed_keeps:
  assumes core: "autosave_core cfg st" and r: "create_failed env err st = (st', c)"
  shows "keeps cfg st st' \<and> run_ok st' (RunCreated kind c)"
proof (cases "au_disposed st")
  case True
  then show ?thesis using core r by (auto simp: create_failed_def keeps_refl)
next
  case False
  let ?st1 = "if \<not> per_outcomeUnknown err then st\<lparr>au_pendingCreate := None\<rparr> else st"
  obtain b st2 where st2: "(if isAccountError err then accountConfirmed env ?st1 else (True, ?st1)) = (b, st2)" by fastforce
  have st1: "keeps cfg st ?st1" using core by (auto simp: keeps_def grows_def autosave_core_def)
  have "keeps cfg ?st1 st2"
    using st2 accountConfirmed_keeps [OF keeps_core [OF st1]] keeps_refl [OF keeps_core [OF st1]] by (metis Pair_inject)
  then have "keeps cfg st st2" by (rule keeps_trans [OF st1])
  moreover have "\<exists>s e. st' = st2\<lparr>au_status := s, au_error := e\<rparr> \<and> s \<in> {Pending, ErrorStatus} \<and> \<not> c"
    using r False st2 by (auto simp: create_failed_def Let_def split: if_splits prod.splits)
  ultimately show ?thesis
    using status_update_keeps [OF keeps_core] keeps_trans by (fastforce simp: )
qed


lemma reconcile_begin_keeps:
  assumes core: "autosave_core cfg st" and l: "lst_version l \<le> au_editVersion st" "au_draftId st \<noteq> None"
    and r: "reconcile_begin env l cont st = (st', r)"
  shows "keeps cfg st st' \<and> run_ok st' r"
proof -
  obtain b st1 where st1: "accountConfirmed env st = (b, st1)" by fastforce
  have k: "keeps cfg st st1" by (rule accountConfirmed_keeps [OF core st1])
  have l1: "lst_version l \<le> au_editVersion st1" "au_draftId st1 \<noteq> None" using k l by (auto simp: keeps_def grows_def)
  have "keeps cfg st1 st' \<and> run_ok st' r"
    using r st1 keeps_core [OF k] l1
    by (auto simp: reconcile_begin_def keeps_def grows_def autosave_core_def emit_def split: if_splits)
  then show ?thesis using keeps_trans [OF k] by blast
qed

lemma reconcile_read_keeps:
  assumes core: "autosave_core cfg st" and l: "lst_version l \<le> au_editVersion st" "au_draftId st \<noteq> None"
  shows "keeps cfg st (reconcile_read cfg env l draft st)"
proof -
  have "au_latest st \<noteq> None" using core l by (cases "au_draftId st") (auto simp: autosave_core_def)
  then have marked: "keeps cfg st (markSaved cfg env draft (lst_version l) st)" using core l by (intro markSaved_keeps)
  show ?thesis
    using core l marked by (auto simp: reconcile_read_def keeps_refl keeps_def grows_def autosave_core_def)
qed

lemma reconcile_failed_keeps: "autosave_core cfg st \<Longrightarrow> keeps cfg st (reconcile_failed err st)"
  by (auto simp: reconcile_failed_def keeps_refl intro: status_update_keeps)

lemma save_write_keeps:
  assumes core: "autosave_core cfg st" and d: "au_draftId st \<noteq> None" and r: "save_write cfg kind st = (st', r)"
  shows "keeps cfg st st' \<and> run_ok st' r"
proof -
  obtain d' b c where s: "au_draftId st = Some d'" "au_revision st = Some b" "au_latest st = Some c"
    using core d by (cases "au_draftId st") (auto simp: autosave_core_def)
  then show ?thesis using core r by (auto simp: save_write_def Let_def keeps_def grows_def autosave_core_def emit_def)
qed

lemma save_latest_keeps:
  assumes core: "autosave_core cfg st" and r: "save_latest cfg env kind st = (st', r)"
  shows "keeps cfg st st' \<and> run_ok st' r"
proof (cases "au_latest st = None \<or> au_status st = Conflict")
  case True
  then show ?thesis using core r by (auto simp: save_latest_def keeps_refl split: option.splits)
next
  case False
  then obtain c where c: "au_latest st = Some c" "au_status st \<noteq> Conflict" by auto
  let ?st1 = "st\<lparr>au_status := Saving, au_error := None\<rparr>"
  have k: "keeps cfg st ?st1" by (rule status_update_keeps [OF core]) simp
  show ?thesis
  proof (cases "au_draftId st")
    case None
    show ?thesis
    proof (cases "isEmptyDraftContent c")
      case True
      then show ?thesis using c None r core
        by (auto simp: save_latest_def keeps_def grows_def autosave_core_def)
    next
      case False
      then have "keeps cfg ?st1 st' \<and> run_ok st' r"
        using c None r keeps_core [OF k]
        by (intro create_begin_keeps [where version = "au_editVersion st" and content = c and env = env and kind = kind])
          (auto simp: save_latest_def)
      then show ?thesis using keeps_trans [OF k] by blast
    qed
  next
    case (Some d)
    show ?thesis
    proof (cases "kind = Autosave \<and> au_editVersion st \<le> au_savedVersion st")
      case True
      then have "st' = st\<lparr>au_status := Saved\<rparr>" "r = RunDone" using c Some r by (auto simp: save_latest_def)
      then show ?thesis using True core by (auto simp: keeps_def grows_def autosave_core_def)
    next
      case False
      then have "save_write cfg kind ?st1 = (st', r)" using c Some r by (auto simp: save_latest_def)
      then have "keeps cfg ?st1 st' \<and> run_ok st' r" using Some by (intro save_write_keeps [OF keeps_core [OF k]]) auto
      then show ?thesis using keeps_trans [OF k] by blast
    qed
  qed
qed

lemma save_keeps:
  assumes core: "autosave_core cfg st" and r: "save cfg env kind st = (st', r)"
  shows "keeps cfg st st' \<and> run_ok st' r"
proof -
  obtain b st1 where st1: "accountConfirmed env st = (b, st1)" by fastforce
  have k: "keeps cfg st st1" by (rule accountConfirmed_keeps [OF core st1])
  show ?thesis
  proof (cases b)
    case False
    then show ?thesis using r st1 k by (simp add: save_def)
  next
    case True
    show ?thesis
    proof (cases "au_unreconciled st1")
      case None
      then show ?thesis using r st1 True save_latest_keeps [OF keeps_core [OF k]] keeps_trans [OF k] by (simp add: save_def)
    next
      case (Some l)
      then have "lst_version l \<le> au_editVersion st1" "au_draftId st1 \<noteq> None" using keeps_core [OF k] by (auto simp: autosave_core_def)
      then show ?thesis using r st1 True Some reconcile_begin_keeps [OF keeps_core [OF k]] keeps_trans [OF k] by (simp add: save_def)
    qed
  qed
qed

lemma save_failed_keeps:
  assumes core: "autosave_core cfg st" and l: "lst_version l \<le> au_editVersion st" "au_draftId st \<noteq> None"
    and r: "save_failed env err l st = (st', r)"
  shows "keeps cfg st st' \<and> run_ok st' r"
proof (cases "au_disposed st")
  case True
  then show ?thesis using core r by (auto simp: save_failed_def keeps_refl)
next
  case False
  show ?thesis
  proof (cases "per_outcomeUnknown err")
    case True
    then show ?thesis using r False reconcile_begin_keeps [OF core l] by (simp add: save_failed_def)
  next
    case known: False
    obtain b st1 where st1: "(if isAccountError err then accountConfirmed env st else (True, st)) = (b, st1)" by fastforce
    have k: "keeps cfg st st1"
      using st1 accountConfirmed_keeps [OF core] keeps_refl [OF core] by (auto split: if_splits)
    obtain s e where s: "st' = st1\<lparr>au_status := s, au_error := e\<rparr>" "s \<in> {Pending, ErrorStatus}" "r = RunDone"
      using r False known st1 by (auto simp: save_failed_def split: if_splits prod.splits)
    have "keeps cfg st1 st'" unfolding s(1) using s(2) by (intro status_update_keeps [OF keeps_core [OF k]]) auto
    then show ?thesis using keeps_trans [OF k] s(3) by simp
  qed
qed


section \<open>Every event keeps the invariant\<close>

lemma run_answered_keeps:
  assumes core: "autosave_core cfg st" and ok: "run_ok st r" and r: "run_answered cfg env r ans st = Some (st', r')"
  shows "keeps cfg st st' \<and> run_ok st' r'"
proof (cases r)
  case (RunCreate kind p)
  then show ?thesis
    using core ok r create_drafted_keeps [OF core] create_failed_keeps [OF core] by (cases ans) (auto split: prod.splits)
next
  case (RunSave kind d command sent base)
  have latest: "au_latest st \<noteq> None" using core ok RunSave by (cases "au_draftId st") (auto simp: autosave_core_def)
  have conflict: "keeps cfg st (save_conflicted draft c st)" for draft c
    using core ok RunSave keeps_refl [OF core] latest
    by (auto simp: save_conflicted_def Let_def emit_def clearTimer_def keeps_def grows_def autosave_core_def)
  have saved: "keeps cfg st (save_drafted cfg env draft sent st)" for draft
    using core ok RunSave latest by (auto simp: save_drafted_def keeps_refl intro: markSaved_keeps)
  have lost: "lst_version \<lparr>lst_draftId = d, lst_content = c, lst_version = sent, lst_base = base\<rparr> \<le> au_editVersion st" for c
    using ok RunSave by simp
  show ?thesis
    using ok r RunSave saved conflict save_failed_keeps [OF core lost] by (cases ans) auto
next
  case (RunRead l cont)
  then show ?thesis
    using core ok r by (cases ans) (auto intro: reconcile_read_keeps reconcile_failed_keeps)
qed (use r in auto)

lemma run_continues_keeps:
  assumes core: "autosave_core cfg st" and ok: "run_ok st r" and r: "run_continues cfg env r st = Some (st', r')"
  shows "keeps cfg st st' \<and> run_ok st' r'"
proof (cases r)
  case (RunCreated kind c)
  then show ?thesis using core ok r save_write_keeps [OF core] by (auto simp: keeps_refl split: if_splits)
next
  case (RunReconciled cont)
  then show ?thesis using core r save_latest_keeps [OF core] by (cases cont) (auto simp: keeps_refl split: if_splits)
qed (use r in auto)

lemma autosave_keeps_inv: "autosave_inv cfg st \<Longrightarrow> keeps cfg st st' \<Longrightarrow> autosave_inv cfg st'"
proof -
  assume inv: "autosave_inv cfg st" and k: "keeps cfg st st'"
  have "grows st st'" using k by (simp add: keeps_def)
  then have "list_all (run_ok st') (au_runs st)" using inv run_ok_grows by (simp add: autosave_inv_def list_all_iff)
  then show ?thesis using inv k by (simp add: autosave_inv_def keeps_def grows_def)
qed

lemma inv_core: "autosave_inv cfg st \<Longrightarrow> autosave_core cfg st"
  by (simp add: autosave_inv_def)

lemma runs_update_inv:
  assumes "autosave_inv cfg st" "keeps cfg st st'" "run_ok st' r"
  shows "autosave_inv cfg (st'\<lparr>au_runs := (au_runs st')[i := r]\<rparr>)"
proof -
  have inv: "autosave_inv cfg st'" by (rule autosave_keeps_inv [OF assms(1,2)])
  have same: "run_ok (st'\<lparr>au_runs := rs\<rparr>) q = run_ok st' q" for rs q by (cases q) auto
  have "list_all (run_ok st') ((au_runs st')[i := r])"
    using inv assms(3) by (cases "i < length (au_runs st')") (auto simp: autosave_inv_def list_all_length nth_list_update)
  then show ?thesis using inv same by (simp add: autosave_inv_def autosave_core_def list_all_iff)
qed

lemma resume_run_inv:
  assumes inv: "autosave_inv cfg st" and st': "resume_run i st f = Some st'"
    and f: "\<And>r s q. run_ok st r \<Longrightarrow> f r = Some (s, q) \<Longrightarrow> keeps cfg st s \<and> run_ok s q"
  shows "autosave_inv cfg st'"
proof -
  obtain s q where s: "i < length (au_runs st)" "f (au_runs st ! i) = Some (s, q)" "st' = s\<lparr>au_runs := (au_runs s)[i := q]\<rparr>"
    using st' by (auto simp: resume_run_def split: if_splits)
  have "run_ok st (au_runs st ! i)" using inv s(1) by (simp add: autosave_inv_def list_all_length)
  then show ?thesis using f s(2,3) runs_update_inv [OF inv] by blast
qed

lemma flush_inv:
  assumes inv: "autosave_inv cfg st"
  shows "autosave_inv cfg (flush cfg env kind st)"
proof (cases "au_disposed st")
  case True then show ?thesis using inv by (simp add: flush_def)
next
  case False
  let ?st1 = "clearTimer st"
  have inv1: "autosave_inv cfg ?st1" by (rule autosave_keeps_inv [OF inv clearTimer_keeps [OF inv_core [OF inv]]])
  have same1: "run_ok (?st1\<lparr>au_queued := q\<rparr>) r = run_ok ?st1 r" for q r by (cases r) auto
  have q: "au_inFlight ?st1 \<Longrightarrow> autosave_inv cfg (?st1\<lparr>au_queued := q\<rparr>)" for q
    using inv1 same1 by (simp add: autosave_inv_def autosave_core_def list_all_iff)
  obtain st2 r where save: "save cfg env kind ?st1 = (st2, r)" by fastforce
  have k: "keeps cfg ?st1 st2" "run_ok st2 r" using save_keeps [OF inv_core [OF inv1] save] by auto
  have same: "run_ok (st2\<lparr>au_inFlight := b, au_runs := rs\<rparr>) q = run_ok st2 q" for b rs q by (cases q) auto
  have flight: "\<not> au_inFlight ?st1 \<Longrightarrow> autosave_inv cfg (st2\<lparr>au_inFlight := True, au_runs := au_runs st2 @ [r]\<rparr>)"
    using inv1 autosave_keeps_inv [OF inv1 k(1)] k same by (auto simp: autosave_inv_def keeps_def grows_def autosave_core_def)
  show ?thesis using False q flight save by (simp add: flush_def Let_def)
qed

lemma field_keeps:
  "autosave_core cfg st \<Longrightarrow> keeps cfg st (st\<lparr>au_ensuring := w\<rparr>)" "autosave_core cfg st \<Longrightarrow> keeps cfg st (st\<lparr>au_resolving := n\<rparr>)"
  by (simp_all add: keeps_def grows_def autosave_core_def)

lemma run_finished_inv:
  assumes inv: "autosave_inv cfg st" and i: "i < length (au_runs st)"
  shows "autosave_inv cfg (run_finished cfg env i st)"
proof -
  let ?st1 = "st\<lparr>au_inFlight := False, au_queued := None, au_runs := remove_at i (au_runs st), au_ensuring := map flight_over (au_ensuring st)\<rparr>"
  have "length (au_runs st) = 1" using inv i by (auto simp: autosave_inv_def split: if_splits)
  then have "remove_at i (au_runs st) = []" using i by (simp add: remove_at_def)
  then have "autosave_inv cfg ?st1" using inv by (simp add: autosave_inv_def autosave_core_def)
  then show ?thesis by (auto simp: run_finished_def Let_def flush_inv split: option.splits)
qed

lemma ensure_create_inv:
  assumes inv: "autosave_inv cfg st"
  shows "autosave_inv cfg (ensure_create cfg env st)"
  using inv autosave_keeps_inv [OF inv emit_keeps [OF inv_core [OF inv]]]
    autosave_keeps_inv [OF flush_inv [OF inv] field_keeps(1) [OF inv_core [OF flush_inv [OF inv]]]]
  by (simp add: ensure_create_def Let_def)

lemma edit_keeps:
  assumes core: "autosave_core cfg st"
  shows "keeps cfg st (edit cfg content st)"
proof -
  let ?st1 = "st\<lparr>au_latest := Some content\<rparr>"
  have p: "pending_ok (au_pendingCreate st) (au_editVersion st + 1) (Some content)"
    using core by (auto simp: autosave_core_def elim: pending_ok_mono)
  have l: "lost_ok (au_unreconciled st) (au_editVersion st + 1) (au_draftId st)"
    using core by (auto simp: autosave_core_def elim: lost_ok_mono)
  have d: "draft_ok (au_draftId st) (au_revision st) (Some content)"
    using core by (auto simp: autosave_core_def elim: draft_ok_latest)
  have conflict: "au_status st = Conflict \<Longrightarrow> au_draftId st \<noteq> None" using core by (auto simp: autosave_core_def)
  have a: "keeps cfg st (?st1\<lparr>au_editVersion := au_editVersion st + 1, au_savedVersion := au_editVersion st + 1, au_status := Idle\<rparr>)"
    using core p l d by (simp add: keeps_def grows_def autosave_core_def)
  have b: "au_status st = Conflict \<Longrightarrow> keeps cfg st (?st1\<lparr>au_editVersion := au_editVersion st + 1\<rparr>)"
    using core p l d conflict by (simp add: keeps_def grows_def autosave_core_def)
  define st2 where "st2 = ?st1\<lparr>au_editVersion := au_editVersion st + 1,
      au_status := (if au_status st = Saving \<or> au_status st = Reconciling then au_status st else Pending)\<rparr>"
  have c: "keeps cfg st st2" using core p l d by (auto simp: st2_def keeps_def grows_def autosave_core_def)
  have c: "keeps cfg st (schedule cfg st2)" by (rule keeps_trans [OF c schedule_keeps [OF keeps_core [OF c]]])
  have eq: "edit cfg content st =
      (if au_disposed st \<or> cfg_manualOnly cfg \<and> (case au_latest st of None \<Rightarrow> False | Some c \<Rightarrow> sameDraftContent c content) then st
       else if cfg_manualOnly cfg \<and> au_draftId st = None \<and> au_pendingCreate st = None \<and> isEmptyDraftContent content
       then ?st1\<lparr>au_editVersion := au_editVersion st + 1, au_savedVersion := au_editVersion st + 1, au_status := Idle\<rparr>
       else if au_status st = Conflict then ?st1\<lparr>au_editVersion := au_editVersion st + 1\<rparr> else schedule cfg st2)"
    by (simp add: edit_def Let_def st2_def)
  show ?thesis unfolding eq using keeps_refl [OF core] a b c by simp
qed


lemma adoptDraft_keeps:
  assumes core: "autosave_core cfg st"
  shows "keeps cfg st (adoptDraft cfg draft content st)"
proof -
  define st1 where "st1 = (clearTimer (emit (DraftSaved draft) st))\<lparr>au_latest := Some content, au_draftId := Some (drf_id draft),
      au_revision := Some (drf_revision draft), au_conflict := drf_conflict draft, au_error := None,
      au_status := (if drf_conflict draft \<noteq> None then Conflict else Saved),
      au_savedVersion := (if sameDraftContent (drf_content draft) content then au_editVersion st else au_savedVersion st)\<rparr>"
  have le: "au_savedVersion st1 \<le> au_editVersion st1" using core by (simp add: st1_def autosave_core_def clearTimer_def emit_def)
  have fields: "pending_ok (au_pendingCreate st) (au_editVersion st) (Some content)" "lost_ok (au_unreconciled st) (au_editVersion st) (Some (drf_id draft))"
    using core by (auto simp: autosave_core_def elim: pending_ok_mono lost_ok_mono)
  have pending: "keeps cfg st (st1\<lparr>au_status := Pending\<rparr>)"
    using core fields by (simp add: st1_def keeps_def grows_def autosave_core_def clearTimer_def emit_def)
  have settled: "drf_conflict draft \<noteq> None \<or> \<not> au_editVersion st1 > au_savedVersion st1 \<Longrightarrow> keeps cfg st st1"
    using core fields le by (auto simp: st1_def keeps_def grows_def autosave_core_def clearTimer_def emit_def)
  have eq: "adoptDraft cfg draft content st =
      (if drf_conflict draft = None \<and> au_editVersion st1 > au_savedVersion st1 then schedule cfg (st1\<lparr>au_status := Pending\<rparr>) else st1)"
    by (simp add: adoptDraft_def Let_def st1_def clearTimer_def emit_def)
  show ?thesis
    unfolding eq using settled keeps_trans [OF pending schedule_keeps [OF keeps_core [OF pending]]] by simp
qed

lemma suspend_keeps: "autosave_core cfg st \<Longrightarrow> keeps cfg st (suspend st)"
  and dispose_keeps: "autosave_core cfg st \<Longrightarrow> keeps cfg st (dispose st)"
  by (simp_all add: suspend_def dispose_def clearTimer_def keeps_def grows_def autosave_core_def)

lemma resume_inv:
  assumes inv: "autosave_inv cfg st"
  shows "autosave_inv cfg (resume cfg env st)"
proof -
  let ?st0 = "st\<lparr>au_suspended := False\<rparr>"
  obtain b st1 where st1: "accountConfirmed env ?st0 = (b, st1)" by fastforce
  have k0: "keeps cfg st ?st0" using inv_core [OF inv] by (auto simp: keeps_def grows_def autosave_core_def timer_ok_def)
  have k: "keeps cfg st st1" by (rule keeps_trans [OF k0 accountConfirmed_keeps [OF keeps_core [OF k0] st1]])
  have inv1: "autosave_inv cfg st1" by (rule autosave_keeps_inv [OF inv k])
  have p: "keeps cfg st1 (st1\<lparr>au_status := Pending\<rparr>)"
    using inv_core [OF inv1] by (simp add: keeps_def grows_def autosave_core_def)
  have s: "autosave_inv cfg (schedule cfg (st1\<lparr>au_status := Pending\<rparr>))"
    by (rule autosave_keeps_inv [OF inv1 keeps_trans [OF p schedule_keeps [OF keeps_core [OF p]]]])
  show ?thesis using inv inv1 flush_inv [OF inv1] s st1 by (simp add: resume_def)
qed

lemma resolveCreatedDraft_keeps: "autosave_core cfg st \<Longrightarrow> keeps cfg st (resolveCreatedDraft env st)"
  by (auto simp: resolveCreatedDraft_def keeps_def grows_def autosave_core_def emit_def split: option.splits)

lemma resolve_drafted_keeps:
  assumes core: "autosave_core cfg st"
  shows "keeps cfg st (resolve_drafted cfg env draft st)"
proof (cases "au_pendingCreate st")
  case None
  then show ?thesis using core by (simp add: resolve_drafted_def Let_def keeps_def grows_def autosave_core_def emit_def)
next
  case (Some p)
  let ?st1 = "st\<lparr>au_resolving := au_resolving st - 1, au_pendingCreate := None\<rparr>"
  let ?st2 = "emit (DraftCreated draft) ?st1"
  have k1: "keeps cfg st ?st1" using core by (simp add: keeps_def grows_def autosave_core_def)
  have k2: "keeps cfg st ?st2" by (rule keeps_trans [OF k1 emit_keeps [OF keeps_core [OF k1]]]) simp
  have p: "pcr_version p \<le> au_editVersion ?st2" "au_latest ?st2 \<noteq> None" using core Some by (auto simp: autosave_core_def emit_def)
  have k3: "keeps cfg ?st2 (markSaved cfg env draft (created_version draft p ?st2) ?st2)"
    using keeps_core [OF k2] p by (intro markSaved_keeps created_version_bound)
  define st3 where "st3 = (if au_disposed st then ?st1 else markSaved cfg env draft (created_version draft p ?st2) ?st2)"
  have k4: "keeps cfg st st3" using k1 keeps_trans [OF k2 k3] by (simp add: st3_def)
  have "resolve_drafted cfg env draft st = emit (ResolveReturned (Some (drf_id draft))) st3"
    using Some by (simp add: resolve_drafted_def Let_def st3_def)
  then show ?thesis using keeps_trans [OF k4 emit_keeps [OF keeps_core [OF k4]]] by simp
qed

lemma resolve_failed_keeps: "autosave_core cfg st \<Longrightarrow> keeps cfg st (resolve_failed st)"
  by (simp add: resolve_failed_def emit_def keeps_def grows_def autosave_core_def)

lemma ensureDraft_inv:
  assumes inv: "autosave_inv cfg st"
  shows "autosave_inv cfg (ensureDraft cfg env st)"
  using inv autosave_keeps_inv [OF inv emit_keeps [OF inv_core [OF inv]]] autosave_keeps_inv [OF inv field_keeps(1) [OF inv_core [OF inv]]]
    ensure_create_inv [OF inv]
  by (simp add: ensureDraft_def)

lemma ensure_continues_inv:
  assumes inv: "autosave_inv cfg st"
  shows "autosave_inv cfg (ensure_continues cfg env i st)"
proof -
  let ?st1 = "st\<lparr>au_ensuring := remove_at i (au_ensuring st)\<rparr>"
  have inv1: "autosave_inv cfg ?st1" by (rule autosave_keeps_inv [OF inv field_keeps(1) [OF inv_core [OF inv]]])
  show ?thesis using inv ensure_create_inv [OF inv1] autosave_keeps_inv [OF inv1 emit_keeps [OF inv_core [OF inv1]]]
    by (simp add: ensure_continues_def split: ensure_wait.splits)
qed

lemma handle_inv:
  assumes inv: "autosave_inv cfg st" and h: "handle cfg env e st = Some st'"
  shows "autosave_inv cfg st'"
proof (cases e)
  case TimerFires
  have "autosave_inv cfg (st\<lparr>au_timer := False\<rparr>)"
    using autosave_keeps_inv [OF inv clearTimer_keeps [OF inv_core [OF inv]]] by (simp add: clearTimer_def)
  then show ?thesis using h TimerFires by (auto intro: flush_inv split: if_splits)
next
  case (RunAnswered i ans)
  then show ?thesis using h run_answered_keeps [OF inv_core [OF inv]] by (auto intro: resume_run_inv [OF inv])
next
  case (RunContinues i)
  then show ?thesis using h run_continues_keeps [OF inv_core [OF inv]] by (auto intro: resume_run_inv [OF inv])
next
  case (ResolveAnswered ans)
  then show ?thesis using h autosave_keeps_inv [OF inv] resolve_drafted_keeps [OF inv_core [OF inv]] resolve_failed_keeps [OF inv_core [OF inv]]
    by (auto split: if_splits answer.splits)
qed (use h inv inv_core [OF inv] in \<open>auto simp: saveNow_def retry_def intro: flush_inv ensureDraft_inv resume_inv ensure_continues_inv run_finished_inv
    autosave_keeps_inv [OF inv] edit_keeps adoptDraft_keeps suspend_keeps dispose_keeps resolveCreatedDraft_keeps split: if_splits\<close>)

lemma start_inv: "autosave_inv cfg (createDraftAutosave initial)"
  by (auto simp: createDraftAutosave_def autosave_inv_def autosave_core_def log_ok_def split: option.splits)

lemma autosave_reachable_inv: "autosave_reachable cfg st \<Longrightarrow> autosave_inv cfg st"
  by (induction rule: autosave_reachable.induct) (auto elim: autosave_stepE intro: start_inv handle_inv)

end
