(* ===== verification/AutosaveGuarantees.thy ===== *)
theory AutosaveGuarantees
  imports AutosaveInvariant
begin

text \<open>
  What the autosave promises: one save at a time, a truthful status, requests that carry the latest content and the
  current revision, no write during a conflict or a suspension but the one a started save goes on to, a flight that lands
  after a bounded number of answers, and an edit that is saved when its timer fires and the account answers.
\<close>

section \<open>Requests\<close>

fun is_write :: "effect \<Rightarrow> bool" where
  "is_write (CreateRequest command) \<longleftrightarrow> True"
| "is_write (SaveRequest kind draftId command) \<longleftrightarrow> True"
| "is_write e \<longleftrightarrow> False"

definition is_request :: "effect \<Rightarrow> bool" where
  "is_request e \<longleftrightarrow> is_write e \<or> (case e of ReadRequest draftId \<Rightarrow> True | _ \<Rightarrow> False)"

lemma is_request_simps [simp]:
  "is_request (CreateRequest command)" "is_request (SaveRequest kind draftId write)" "is_request (ReadRequest draftId)"
  "\<not> is_request (DraftCreated d)" "\<not> is_request (DraftSaved d)" "\<not> is_request (EnsureReturned r)" "\<not> is_request (ResolveReturned r)"
  "\<not> is_request ResolveFailed" "\<not> is_request ResolveNullRead" "\<not> is_request NullRead"
  by (simp_all add: is_request_def)

definition writes :: "autosave \<Rightarrow> effect list" where
  "writes st = filter is_write (au_log st)"

definition requests :: "autosave \<Rightarrow> effect list" where
  "requests st = filter is_request (au_log st)"

lemma log_views [simp]:
  "writes (emit e st) = writes st @ (if is_write e then [e] else [])"
  "requests (emit e st) = requests st @ (if is_request e then [e] else [])"
  by (simp_all add: writes_def requests_def emit_def)

lemma requests_update [simp]:
  "requests (st\<lparr>au_status := x0\<rparr>) = requests st" "requests (st\<lparr>au_draftId := x1\<rparr>) = requests st" "requests (st\<lparr>au_revision := x2\<rparr>) = requests st"
  "requests (st\<lparr>au_editVersion := x3\<rparr>) = requests st" "requests (st\<lparr>au_savedVersion := x4\<rparr>) = requests st" "requests (st\<lparr>au_conflict := x5\<rparr>) = requests st"
  "requests (st\<lparr>au_error := x6\<rparr>) = requests st" "requests (st\<lparr>au_lastSavedAt := x7\<rparr>) = requests st" "requests (st\<lparr>au_latest := x8\<rparr>) = requests st"
  "requests (st\<lparr>au_timer := x9\<rparr>) = requests st" "requests (st\<lparr>au_inFlight := x10\<rparr>) = requests st" "requests (st\<lparr>au_queued := x11\<rparr>) = requests st"
  "requests (st\<lparr>au_pendingCreate := x12\<rparr>) = requests st" "requests (st\<lparr>au_unreconciled := x13\<rparr>) = requests st" "requests (st\<lparr>au_suspended := x14\<rparr>) = requests st"
  "requests (st\<lparr>au_disposed := x15\<rparr>) = requests st" "requests (st\<lparr>au_runs := x16\<rparr>) = requests st" "requests (st\<lparr>au_ensuring := x17\<rparr>) = requests st"
  "requests (st\<lparr>au_resolving := x18\<rparr>) = requests st"
  by (simp_all add: requests_def)

lemma writes_update [simp]:
  "writes (st\<lparr>au_status := x0\<rparr>) = writes st" "writes (st\<lparr>au_draftId := x1\<rparr>) = writes st" "writes (st\<lparr>au_revision := x2\<rparr>) = writes st"
  "writes (st\<lparr>au_editVersion := x3\<rparr>) = writes st" "writes (st\<lparr>au_savedVersion := x4\<rparr>) = writes st" "writes (st\<lparr>au_conflict := x5\<rparr>) = writes st"
  "writes (st\<lparr>au_error := x6\<rparr>) = writes st" "writes (st\<lparr>au_lastSavedAt := x7\<rparr>) = writes st" "writes (st\<lparr>au_latest := x8\<rparr>) = writes st"
  "writes (st\<lparr>au_timer := x9\<rparr>) = writes st" "writes (st\<lparr>au_inFlight := x10\<rparr>) = writes st" "writes (st\<lparr>au_queued := x11\<rparr>) = writes st"
  "writes (st\<lparr>au_pendingCreate := x12\<rparr>) = writes st" "writes (st\<lparr>au_unreconciled := x13\<rparr>) = writes st" "writes (st\<lparr>au_suspended := x14\<rparr>) = writes st"
  "writes (st\<lparr>au_disposed := x15\<rparr>) = writes st" "writes (st\<lparr>au_runs := x16\<rparr>) = writes st" "writes (st\<lparr>au_ensuring := x17\<rparr>) = writes st"
  "writes (st\<lparr>au_resolving := x18\<rparr>) = writes st"
  by (simp_all add: writes_def)

lemma requests_log: "au_log st' = au_log st \<Longrightarrow> requests st' = requests st"
  by (simp add: requests_def)

lemma requests_writes: "requests st = requests st' \<Longrightarrow> writes st = writes st'"
proof -
  have "filter is_write xs = filter is_write (filter is_request xs)" for xs
    by (induction xs) (auto simp: is_request_def)
  then show "requests st = requests st' \<Longrightarrow> ?thesis" by (metis requests_def writes_def)
qed

lemma schedule_requests [simp]: "requests (clearTimer st) = requests st" "requests (schedule cfg st) = requests st"
  by (simp_all add: schedule_def clearTimer_def Let_def)

lemma accountConfirmed_requests: "accountConfirmed env st = (b, st') \<Longrightarrow> requests st' = requests st"
  by (auto simp: accountConfirmed_def split: if_splits)

lemma markSaved_requests [simp]: "requests (markSaved cfg env draft v st) = requests st"
  by (simp add: markSaved_def Let_def)


lemma create_answer_requests: "create_drafted cfg env p d st = (st', c) \<Longrightarrow> requests st' = requests st"
    "create_failed env err st = (st', c) \<Longrightarrow> requests st' = requests st"
  by (auto simp: create_drafted_def create_failed_def Let_def dest: accountConfirmed_requests split: if_splits prod.splits)

lemma answer_requests [simp]:
  "requests (reconcile_read cfg env l d st) = requests st" "requests (reconcile_failed err st) = requests st"
  "requests (save_drafted cfg env d v st) = requests st" "requests (save_conflicted d c st) = requests st"
  by (simp_all add: reconcile_read_def reconcile_failed_def save_drafted_def save_conflicted_def Let_def)

section \<open>Suspension\<close>

lemma suspended_confirm: "au_suspended st \<Longrightarrow> accountConfirmed env st = (False, st)"
  by (simp add: accountConfirmed_def)

lemma suspended_flush: "au_suspended st \<Longrightarrow> requests (flush cfg env kind st) = requests st"
  by (simp add: flush_def Let_def save_def suspended_confirm clearTimer_def)

lemma suspended_reconcile: "au_suspended st \<Longrightarrow> reconcile_begin env l cont st = (st', r) \<Longrightarrow> requests st' = requests st"
  by (auto simp: reconcile_begin_def suspended_confirm)

lemma suspended_answer:
  assumes "au_suspended st" "run_answered cfg env r ans st = Some (st', r')"
  shows "requests st' = requests st"
proof (cases r)
  case (RunCreate kind p)
  then show ?thesis using assms by (cases ans) (auto dest: create_answer_requests split: prod.splits)
next
  case (RunSave kind d command sent base)
  have "save_failed env err l st = (st', r') \<Longrightarrow> requests st' = requests st" for err l
    using assms(1) by (auto simp: save_failed_def suspended_confirm dest: suspended_reconcile split: if_splits)
  then show ?thesis using assms RunSave by (cases ans) auto
next
  case (RunRead l cont)
  then show ?thesis using assms by (cases ans) auto
qed (use assms in auto)

lemma resume_run_requests:
  assumes "resume_run i st f = Some st'" "\<And>r s q. f r = Some (s, q) \<Longrightarrow> requests s = requests st"
  shows "requests st' = requests st"
  using assms by (auto simp: resume_run_def split: if_splits)

lemma suspended_ensure: "au_suspended st \<Longrightarrow> requests (ensure_create cfg env st) = requests st"
  by (simp add: ensure_create_def Let_def suspended_flush)

lemma suspended_finish: "au_suspended st \<Longrightarrow> requests (run_finished cfg env i st) = requests st"
  by (simp add: run_finished_def Let_def split: option.splits)

lemma edit_requests [simp]: "requests (edit cfg c st) = requests st"
  by (simp add: edit_def Let_def)

lemma adoptDraft_requests [simp]: "requests (adoptDraft cfg d c st) = requests st"
  by (simp add: adoptDraft_def Let_def)

lemma resolve_requests [simp]: "requests (resolve_drafted cfg env d st) = requests st" "requests (resolve_failed st) = requests st"
  by (simp_all add: resolve_drafted_def resolve_failed_def Let_def split: option.splits)

text \<open>A suspended autosave starts no request: whatever happens while it is suspended, short of the resumption, the
  explicit search for a created draft and the next part of a save that had begun before, the requests sent so far are
  all that is sent.\<close>

theorem suspended_starts_nothing:
  assumes "au_suspended st" "handle cfg env e st = Some st'" "e \<noteq> Resume" "e \<noteq> ResolveCreated" "\<forall>i. e \<noteq> RunContinues i"
  shows "requests st' = requests st"
proof (cases e)
  case TimerFires
  then show ?thesis using assms suspended_flush [of "st\<lparr>au_timer := False\<rparr>"] by (auto split: if_splits)
next
  case (RunAnswered i ans)
  then show ?thesis using assms by (auto intro: resume_run_requests suspended_answer)
next
  case (EnsureContinues i)
  then show ?thesis using assms suspended_ensure [of "st\<lparr>au_ensuring := remove_at i (au_ensuring st)\<rparr>"]
    by (auto simp: ensure_continues_def split: if_splits ensure_wait.splits)
next
  case (ResolveAnswered ans)
  then show ?thesis using assms by (auto split: if_splits answer.splits)
qed (use assms in \<open>auto simp: saveNow_def retry_def ensureDraft_def suspended_flush suspended_ensure suspended_finish suspend_def dispose_def
    split: if_splits\<close>)

section \<open>Conflicts\<close>

lemma writes_of_requests: "writes st = filter is_write (requests st)"
proof -
  have "filter is_write xs = filter is_write (filter is_request xs)" for xs
    by (induction xs) (auto simp: is_request_def)
  then show ?thesis by (simp add: writes_def requests_def)
qed

lemma writes_steps [simp]:
  "writes (clearTimer st) = writes st" "writes (edit cfg c st) = writes st" "writes (adoptDraft cfg d c st) = writes st"
  "writes (resolve_drafted cfg env d st) = writes st" "writes (resolve_failed st) = writes st"
  by (simp_all add: writes_of_requests)

lemma accountConfirmed_status: "accountConfirmed env st = (b, st') \<Longrightarrow> au_status st' = au_status st"
  by (auto simp: accountConfirmed_def clearTimer_def split: if_splits)

lemma reconcile_writes: "reconcile_begin env l cont st = (st', r) \<Longrightarrow> writes st' = writes st"
  by (auto simp: reconcile_begin_def writes_of_requests dest: accountConfirmed_requests split: if_splits prod.splits)

lemma conflict_save: "au_status st = Conflict \<Longrightarrow> save cfg env kind st = (st', r) \<Longrightarrow> writes st' = writes st"
proof -
  assume conflict: "au_status st = Conflict" and save: "save cfg env kind st = (st', r)"
  obtain b st1 where st1: "accountConfirmed env st = (b, st1)" by fastforce
  have same: "au_status st1 = Conflict" "writes st1 = writes st"
    using accountConfirmed_status [OF st1] accountConfirmed_requests [OF st1] conflict by (simp_all add: writes_of_requests)
  show ?thesis
    using save same reconcile_writes [of env _ "Some kind" st1] st1
    by (auto simp: save_def save_latest_def split: if_splits option.splits)
qed

lemma conflict_flush: "au_status st = Conflict \<Longrightarrow> writes (flush cfg env kind st) = writes st"
proof -
  assume conflict: "au_status st = Conflict"
  obtain st2 r where save: "save cfg env kind (clearTimer st) = (st2, r)" by fastforce
  have "writes st2 = writes st" using conflict_save [OF _ save] conflict by (simp add: clearTimer_def)
  then show ?thesis using save by (simp add: flush_def Let_def)
qed

lemma conflict_answer:
  assumes "run_answered cfg env r ans st = Some (st', r')"
  shows "writes st' = writes st"
proof (cases r)
  case (RunCreate kind p)
  then show ?thesis using assms by (cases ans) (auto simp: writes_of_requests dest: create_answer_requests split: prod.splits)
next
  case (RunSave kind d command sent base)
  have "save_failed env err l st = (st', r') \<Longrightarrow> writes st' = writes st" for err l
    by (auto simp: save_failed_def writes_of_requests dest!: reconcile_writes [unfolded writes_of_requests]
        dest: accountConfirmed_requests split: if_splits prod.splits)
  then show ?thesis using assms RunSave by (cases ans) (auto simp: writes_of_requests)
next
  case (RunRead l cont)
  then show ?thesis using assms by (cases ans) (auto simp: writes_of_requests)
qed (use assms in auto)

lemma resume_run_writes:
  assumes "resume_run i st f = Some st'" "\<And>s q. i < length (au_runs st) \<Longrightarrow> f (au_runs st ! i) = Some (s, q) \<Longrightarrow> writes s = writes st"
  shows "writes st' = writes st"
  using assms by (auto simp: resume_run_def split: if_splits)

lemma conflict_continue:
  assumes "au_status st = Conflict" "r \<noteq> RunCreated Snapshot True" "run_continues cfg env r st = Some (st', r')"
  shows "writes st' = writes st"
proof (cases r)
  case (RunCreated kind c)
  then show ?thesis using assms by (cases kind; cases c) auto
next
  case (RunReconciled cont)
  then show ?thesis using assms by (cases cont) auto
qed (use assms in auto)

lemma conflict_resume: "au_status st = Conflict \<Longrightarrow> writes (resume cfg env st) = writes st"
proof -
  assume conflict: "au_status st = Conflict"
  obtain b st1 where st1: "accountConfirmed env (st\<lparr>au_suspended := False\<rparr>) = (b, st1)" by fastforce
  have same: "au_status st1 = Conflict" "writes st1 = writes st"
    using accountConfirmed_status [OF st1] accountConfirmed_requests [OF st1] conflict by (simp_all add: writes_of_requests)
  show ?thesis using same conflict_flush [OF same(1)] by (simp add: resume_def st1)
qed

lemma conflict_ensure: "au_status st = Conflict \<Longrightarrow> writes (ensure_create cfg env st) = writes st"
  by (simp add: ensure_create_def Let_def conflict_flush)

lemma conflict_finish: "au_status st = Conflict \<Longrightarrow> writes (run_finished cfg env i st) = writes st"
  by (simp add: run_finished_def Let_def conflict_flush split: option.splits)

text \<open>C24: A conflict stops autosave: whatever happens while the author has not chosen a version, no create and no save
  is sent. The one exception is the second half of an important snapshot whose create answered with the conflict.\<close>

theorem conflict_stops_writes:
  assumes "autosave_reachable cfg st" "au_status st = Conflict" "handle cfg env e st = Some st'"
    "\<forall>i. e = RunContinues i \<longrightarrow> au_runs st ! i \<noteq> RunCreated Snapshot True"
  shows "writes st' = writes st"
proof (cases e)
  case TimerFires
  then show ?thesis using assms conflict_flush [of "st\<lparr>au_timer := False\<rparr>"] by (auto split: if_splits)
next
  case (RunAnswered i ans)
  then show ?thesis using assms by (auto intro: resume_run_writes conflict_answer)
next
  case (RunContinues i)
  then have cont: "resume_run i st (\<lambda>r. run_continues cfg env r st) = Some st'" "au_runs st ! i \<noteq> RunCreated Snapshot True"
    using assms(3,4) by auto
  show ?thesis by (rule resume_run_writes [OF cont(1)]) (rule conflict_continue [OF assms(2) cont(2)])
next
  case (EnsureContinues i)
  then show ?thesis using assms conflict_ensure [of "st\<lparr>au_ensuring := remove_at i (au_ensuring st)\<rparr>"]
    by (auto simp: ensure_continues_def split: if_splits ensure_wait.splits)
next
  case (ResolveAnswered ans)
  then show ?thesis using assms by (auto split: if_splits answer.splits)
next
  case ResolveCreated
  have "au_draftId st \<noteq> None"
    using inv_core [OF autosave_reachable_inv [OF assms(1)]] assms(2) by (simp add: autosave_core_def)
  then show ?thesis using assms ResolveCreated by (auto simp: resolveCreatedDraft_def)
next
  case EnsureDraft
  then show ?thesis using assms by (auto simp: ensureDraft_def conflict_ensure)
qed (use assms in \<open>auto simp: saveNow_def retry_def suspend_def dispose_def conflict_flush conflict_finish conflict_resume split: if_splits\<close>)

section \<open>One save at a time, and a status that is true\<close>

text \<open>C22: Saves never run in parallel: whatever the author, the timers, the account and the answers do, at most one call
  of \<open>save\<close> is unfinished, and \<open>idle()\<close> resolves exactly when there is none.\<close>

theorem saves_never_parallel:
  assumes "autosave_reachable cfg st"
  shows "length (au_runs st) \<le> 1 \<and> (autosave_idle st \<longleftrightarrow> au_runs st = []) \<and> (au_queued st \<noteq> None \<longrightarrow> length (au_runs st) = 1)"
  using autosave_reachable_inv [OF assms] by (auto simp: autosave_inv_def autosave_idle_def split: if_splits)

text \<open>When a debounce timer is armed.\<close>

lemma schedule_arms:
  "au_timer (schedule cfg st) \<longleftrightarrow>
     \<not> cfg_manualOnly cfg \<and> \<not> au_disposed st \<and> \<not> au_suspended st \<and> au_status st \<noteq> Conflict"
  "au_status (schedule cfg st) = au_status st"
  by (auto simp: schedule_def clearTimer_def Let_def)

lemma markSaved_no_conflict: "au_status (markSaved cfg env draft v st) \<noteq> Conflict"
  by (simp add: markSaved_def Let_def settledStatus_def schedule_arms)

lemma accountConfirmed_arms: "accountConfirmed env st = (b, st') \<Longrightarrow> au_timer st' \<Longrightarrow> au_timer st"
  by (auto simp: accountConfirmed_def clearTimer_def split: if_splits)

lemma save_parts_arm_nothing:
  "create_begin cfg env kind c v st = (st', r) \<Longrightarrow> au_timer st' \<Longrightarrow> au_timer st"
  "reconcile_begin env l cont st = (st', r) \<Longrightarrow> au_timer st' \<Longrightarrow> au_timer st"
  "save_write cfg kind st = (st', r) \<Longrightarrow> au_timer st' \<Longrightarrow> au_timer st"
  "save_latest cfg env kind st = (st', r) \<Longrightarrow> au_timer st' \<Longrightarrow> au_timer st"
proof -
  show begins: "create_begin cfg env kind c v st = (st', r) \<Longrightarrow> au_timer st' \<Longrightarrow> au_timer st" for kind c v st
    by (auto simp: create_begin_def emit_def Let_def)
  show "reconcile_begin env l cont st = (st', r) \<Longrightarrow> au_timer st' \<Longrightarrow> au_timer st"
    by (auto simp: reconcile_begin_def emit_def dest: accountConfirmed_arms split: prod.splits if_splits)
  show writing: "save_write cfg kind st = (st', r) \<Longrightarrow> au_timer st' \<Longrightarrow> au_timer st" for st
    by (auto simp: save_write_def emit_def Let_def split: option.splits)
  show "save_latest cfg env kind st = (st', r) \<Longrightarrow> au_timer st' \<Longrightarrow> au_timer st"
    by (auto simp: save_latest_def dest: begins writing split: option.splits if_splits)
qed

lemma flush_arms_nothing: "au_timer (flush cfg env kind st) \<Longrightarrow> au_timer st"
  by (auto simp: flush_def save_def clearTimer_def Let_def
      dest: accountConfirmed_arms save_parts_arm_nothing split: prod.splits if_splits option.splits)

lemma answer_arms:
  assumes "run_answered cfg env r ans st = Some (st', r')" "au_timer st'" "\<not> au_timer st"
  shows "au_status st' \<noteq> Conflict"
proof -
  have created: "create_drafted cfg env p d st = (st', c) \<Longrightarrow> au_status st' \<noteq> Conflict" for p d c
    using assms(2,3) markSaved_no_conflict by (auto simp: create_drafted_def emit_def Let_def split: if_splits)
  have failed: "\<not> (create_failed env err st = (st', c))" for err c
    using assms(2,3) by (auto simp: create_failed_def Let_def dest: accountConfirmed_arms split: if_splits prod.splits)
  have lost: "\<not> save_failed env err l st = (st', c)" for err l c
    using assms(2,3) by (auto simp: save_failed_def Let_def dest: accountConfirmed_arms save_parts_arm_nothing split: if_splits prod.splits)
  show ?thesis
    using assms created failed lost markSaved_no_conflict
    by (cases r; cases ans)
      (auto simp: save_drafted_def save_conflicted_def reconcile_read_def reconcile_failed_def emit_def clearTimer_def Let_def
        split: prod.splits if_splits)
qed

lemma continue_arms: "run_continues cfg env r st = Some (st', r') \<Longrightarrow> au_timer st' \<Longrightarrow> au_timer st"
  by (cases "(cfg, env, r, st)" rule: run_continues.cases) (auto dest: save_parts_arm_nothing split: option.splits if_splits)

lemma handle_arms:
  assumes "handle cfg env e st = Some st'" "au_timer st'" "\<not> au_timer st"
  shows "au_status st' \<noteq> Conflict"
proof (cases e)
  case (RunAnswered i ans)
  then show ?thesis using assms answer_arms by (fastforce simp: resume_run_def split: if_splits)
next
  case (RunContinues i)
  then show ?thesis using assms by (fastforce simp: resume_run_def dest: continue_arms split: if_splits)
next
  case (RunFinished i)
  then show ?thesis using assms
    by (auto simp: run_finished_def Let_def dest!: flush_arms_nothing split: if_splits option.splits)
next
  case (ResolveAnswered ans)
  then show ?thesis using assms markSaved_no_conflict
    by (auto simp: resolve_drafted_def resolve_failed_def emit_def Let_def split: if_splits answer.splits option.splits)
next
  case (Edit content)
  then show ?thesis using assms by (auto simp: edit_def Let_def schedule_arms split: if_splits)
next
  case (AdoptDraft draft content)
  then show ?thesis using assms by (auto simp: adoptDraft_def Let_def clearTimer_def schedule_arms emit_def split: if_splits)
next
  case Resume
  then show ?thesis using assms
    by (auto simp: resume_def Let_def schedule_arms dest!: flush_arms_nothing dest: accountConfirmed_arms split: if_splits prod.splits)
next
  case (EnsureContinues i)
  then show ?thesis using assms
    by (auto simp: ensure_continues_def ensure_create_def emit_def Let_def dest!: flush_arms_nothing split: if_splits ensure_wait.splits)
qed (use assms in \<open>auto simp: saveNow_def retry_def ensureDraft_def ensure_create_def suspend_def dispose_def resolveCreatedDraft_def
       clearTimer_def emit_def Let_def dest!: flush_arms_nothing split: if_splits option.splits\<close>)

text \<open>C23: What the author is told is true: the saved marker never passes the edits, and a status that shows everything saved
  (or nothing to save) means every \<open>edit\<close> has been confirmed, so that leaving then loses none of them (the content given to
  \<open>adoptDraft\<close> counts as no edit: see \<open>adopted_content_counts_as_saved\<close>); a conflict belongs to a draft. A debounce timer
  waits only while saving on its own is allowed, and is never armed in a conflict: \<open>schedule\<close> refuses, and no event arms one
  and leaves the conflict showing (one armed before can still fire in it: \<open>timer_outlives_into_conflict\<close>; it sends nothing).
  The values \<open>save\<close> asserts to be present are present.\<close>

theorem autosave_status_truthful:
  assumes "autosave_reachable cfg st"
  shows "au_savedVersion st \<le> au_editVersion st \<and>
    (au_status st \<in> {Idle, Saved} \<longrightarrow> au_savedVersion st = au_editVersion st \<and> \<not> hasUnsavedChanges st) \<and>
    (au_status st = Conflict \<longrightarrow> au_draftId st \<noteq> None) \<and>
    (au_timer st \<longrightarrow> \<not> cfg_manualOnly cfg \<and> \<not> au_disposed st \<and> \<not> au_suspended st) \<and>
    (au_status st = Conflict \<longrightarrow> \<not> au_timer (schedule cfg st)) \<and>
    (\<forall>env e st'. handle cfg env e st = Some st' \<and> \<not> au_timer st \<and> au_timer st' \<longrightarrow> au_status st' \<noteq> Conflict) \<and>
    NullRead \<notin> set (au_log st)"
proof -
  have "au_status st = Conflict \<longrightarrow> \<not> au_timer (schedule cfg st)" by (simp add: schedule_arms)
  moreover have "\<forall>env e st'. handle cfg env e st = Some st' \<and> \<not> au_timer st \<and> au_timer st' \<longrightarrow> au_status st' \<noteq> Conflict"
    using handle_arms by blast
  ultimately show ?thesis
    using inv_core [OF autosave_reachable_inv [OF assms]]
    by (auto simp: autosave_core_def hasUnsavedChanges_def timer_ok_def log_ok_def)
qed

text \<open>\<open>adoptDraft\<close> with every edit confirmed shows the adopted content as saved, whatever the account's draft holds.\<close>

lemma adopted_content_counts_as_saved:
  assumes "au_editVersion st = au_savedVersion st" and "drf_conflict draft = None"
  shows "au_status (adoptDraft cfg draft content st) = Saved \<and> au_latest (adoptDraft cfg draft content st) = Some content
    \<and> \<not> hasUnsavedChanges (adoptDraft cfg draft content st)"
  using assms by (simp add: adoptDraft_def clearTimer_def emit_def Let_def hasUnsavedChanges_def)

section \<open>What a save carries\<close>

fun is_save :: "effect \<Rightarrow> bool" where
  "is_save (SaveRequest kind draftId command) \<longleftrightarrow> True"
| "is_save e \<longleftrightarrow> False"

definition save_requests :: "autosave \<Rightarrow> effect list" where
  "save_requests st = filter is_save (requests st)"

text \<open>The state and its new run agree on the request just sent.\<close>

definition sends_latest :: "autosave_config \<Rightarrow> autosave \<Rightarrow> autosave \<Rightarrow> run \<Rightarrow> bool" where
  "sends_latest cfg st st' r \<longleftrightarrow>
     (case r of
        RunSave kind draftId command sent base \<Rightarrow>
          save_requests st' = save_requests st @ [SaveRequest kind draftId command] \<and>
          au_draftId st' = Some draftId \<and> au_revision st' = Some base \<and> cmd_baseRevision command = base \<and>
          au_latest st' = Some (cmd_content command) \<and> sent = au_editVersion st' \<and> cmd_device command = cfg_deviceClass cfg
      | _ \<Rightarrow> save_requests st' = save_requests st)"

fun run_saves :: "run \<Rightarrow> bool" where
  "run_saves (RunSave kind draftId command sent base) \<longleftrightarrow> True"
| "run_saves r \<longleftrightarrow> False"

lemma sends_nothing: "requests st' = requests st \<Longrightarrow> \<not> run_saves r \<Longrightarrow> sends_latest cfg st st' r"
  by (cases r) (auto simp: sends_latest_def save_requests_def)

lemma sends_latest_trans: "requests st1 = requests st \<Longrightarrow> sends_latest cfg st1 st' r \<Longrightarrow> sends_latest cfg st st' r"
  by (cases r) (auto simp: sends_latest_def save_requests_def)

lemma reconcile_begin_sends: "reconcile_begin env l cont st = (st', r) \<Longrightarrow> sends_latest cfg st st' r"
  by (auto simp: reconcile_begin_def sends_latest_def save_requests_def dest: accountConfirmed_requests split: if_splits prod.splits)

lemma save_write_sends: "save_write cfg kind st = (st', r) \<Longrightarrow> sends_latest cfg st st' r"
  by (auto simp: save_write_def Let_def sends_latest_def save_requests_def split: option.splits) (auto simp: emit_def)

lemma create_begin_sends: "create_begin cfg env kind content version st = (st', r) \<Longrightarrow> sends_latest cfg st st' r"
  by (auto simp: create_begin_def Let_def sends_latest_def save_requests_def split: option.splits)

lemma save_latest_sends: "save_latest cfg env kind st = (st', r) \<Longrightarrow> sends_latest cfg st st' r"
  by (auto simp: save_latest_def sends_nothing split: option.splits if_splits
      intro: sends_latest_trans [rotated, OF save_write_sends] sends_latest_trans [rotated, OF create_begin_sends])

lemma save_sends: "save cfg env kind st = (st', r) \<Longrightarrow> sends_latest cfg st st' r"
proof -
  assume save: "save cfg env kind st = (st', r)"
  obtain b st1 where st1: "accountConfirmed env st = (b, st1)" by fastforce
  have "sends_latest cfg st1 st' r"
    using save st1 by (auto simp: save_def sends_nothing split: if_splits option.splits intro: reconcile_begin_sends save_latest_sends)
  then show ?thesis by (rule sends_latest_trans [OF accountConfirmed_requests [OF st1]])
qed

definition sent_latest :: "autosave_config \<Rightarrow> autosave \<Rightarrow> autosave \<Rightarrow> bool" where
  "sent_latest cfg st st' \<longleftrightarrow>
     save_requests st' = save_requests st \<or>
     (\<exists>kind draftId command.
        save_requests st' = save_requests st @ [SaveRequest kind draftId command] \<and> au_draftId st' = Some draftId \<and>
        au_revision st' = Some (cmd_baseRevision command) \<and> au_latest st' = Some (cmd_content command) \<and>
        cmd_device command = cfg_deviceClass cfg \<and>
        RunSave kind draftId command (au_editVersion st') (cmd_baseRevision command) \<in> set (au_runs st'))"

lemma sent_latestI: "requests st' = requests st \<Longrightarrow> sent_latest cfg st st'"
  by (simp add: sent_latest_def save_requests_def)

lemma sent_latest_run:
  "sends_latest cfg st st' r \<Longrightarrow> r \<in> set rs \<Longrightarrow> sent_latest cfg st (st'\<lparr>au_inFlight := b, au_runs := rs\<rparr>)"
  by (cases r) (auto simp: sends_latest_def sent_latest_def save_requests_def)

lemma flush_sends:
  "sent_latest cfg st (flush cfg env kind st)"
proof -
  obtain st2 r where save: "save cfg env kind (clearTimer st) = (st2, r)" by fastforce
  have "sends_latest cfg st st2 r" by (rule sends_latest_trans [OF _ save_sends [OF save]]) simp
  then have "sent_latest cfg st (st2\<lparr>au_inFlight := True, au_runs := au_runs st2 @ [r]\<rparr>)" by (rule sent_latest_run) simp
  then show ?thesis using save by (auto simp: flush_def Let_def intro: sent_latestI)
qed

lemma sent_latest_from:
  "sent_latest cfg st1 st' \<Longrightarrow> requests st1 = requests st \<Longrightarrow> sent_latest cfg st st'"
  by (simp add: sent_latest_def save_requests_def)

lemma sent_latest_ensuring [simp]: "sent_latest cfg st (st'\<lparr>au_ensuring := w\<rparr>) = sent_latest cfg st st'"
  by (simp add: sent_latest_def save_requests_def)

lemma confirmed_sends: "accountConfirmed env st = (b, s) \<Longrightarrow> sends_latest cfg st (s\<lparr>au_status := x, au_error := e\<rparr>) RunDone"
  by (rule sends_nothing) (auto dest: accountConfirmed_requests)

lemma run_answered_sends: "run_answered cfg env r ans st = Some (st', r') \<Longrightarrow> sends_latest cfg st st' r'"
proof (cases r)
  case (RunCreate kind p)
  assume "run_answered cfg env r ans st = Some (st', r')"
  then show ?thesis using RunCreate by (cases ans) (auto intro!: sends_nothing dest: create_answer_requests split: prod.splits)
next
  case (RunSave kind d command sent base)
  have "save_failed env err l st = (st', r') \<Longrightarrow> sends_latest cfg st st' r'" for err l
    by (auto simp: save_failed_def intro: reconcile_begin_sends sends_nothing confirmed_sends split: if_splits prod.splits)
  moreover assume "run_answered cfg env r ans st = Some (st', r')"
  ultimately show ?thesis using RunSave by (cases ans) (auto intro!: sends_nothing)
next
  case (RunRead l cont)
  assume "run_answered cfg env r ans st = Some (st', r')"
  then show ?thesis using RunRead by (cases ans) (auto intro!: sends_nothing)
qed auto

lemma run_continues_sends: "run_continues cfg env r st = Some (st', r') \<Longrightarrow> sends_latest cfg st st' r'"
proof (cases r)
  case (RunCreated kind c)
  assume "run_continues cfg env r st = Some (st', r')"
  then show ?thesis using RunCreated by (auto intro: sends_nothing save_write_sends split: if_splits)
next
  case (RunReconciled cont)
  assume "run_continues cfg env r st = Some (st', r')"
  then show ?thesis using RunReconciled by (cases cont) (auto intro: sends_nothing save_latest_sends split: if_splits)
qed auto

lemma resume_run_sends:
  assumes inv: "autosave_inv cfg st" and run: "resume_run i st f = Some st'"
    and keeps: "\<And>r s q. run_ok st r \<Longrightarrow> f r = Some (s, q) \<Longrightarrow> keeps cfg st s \<and> run_ok s q"
    and sends: "\<And>r s q. f r = Some (s, q) \<Longrightarrow> sends_latest cfg st s q"
  shows "sent_latest cfg st st'"
proof -
  obtain s q where s: "i < length (au_runs st)" "f (au_runs st ! i) = Some (s, q)" "st' = s\<lparr>au_runs := (au_runs s)[i := q]\<rparr>"
    using run by (auto simp: resume_run_def split: if_splits)
  have "run_ok st (au_runs st ! i)" using inv s(1) by (simp add: autosave_inv_def list_all_length)
  then have "keeps cfg st s \<and> run_ok s q" by (rule keeps [OF _ s(2)])
  then have "au_runs s = au_runs st" by (simp add: keeps_def grows_def)
  then have "q \<in> set ((au_runs s)[i := q])" using s(1) by (simp add: set_update_memI)
  then have "sent_latest cfg st (s\<lparr>au_inFlight := au_inFlight s, au_runs := (au_runs s)[i := q]\<rparr>)"
    by (rule sent_latest_run [OF sends [OF s(2)]])
  moreover have "st' = s\<lparr>au_inFlight := au_inFlight s, au_runs := (au_runs s)[i := q]\<rparr>" using s(3) by simp
  ultimately show ?thesis by simp
qed

lemma ensure_create_sends: "sent_latest cfg st (ensure_create cfg env st)"
  by (auto simp: ensure_create_def Let_def intro: sent_latestI flush_sends)

lemma run_finished_sends: "sent_latest cfg st (run_finished cfg env i st)"
proof -
  define st1 where "st1 = st\<lparr>au_inFlight := False, au_queued := None, au_runs := remove_at i (au_runs st),
    au_ensuring := map flight_over (au_ensuring st)\<rparr>"
  have same: "requests st1 = requests st" by (simp add: st1_def)
  show ?thesis
    unfolding run_finished_def Let_def st1_def [symmetric]
    by (auto intro: sent_latestI same sent_latest_from [OF flush_sends same] split: option.splits)
qed

lemma resume_sends: "sent_latest cfg st (resume cfg env st)"
proof -
  obtain b st1 where st1: "accountConfirmed env (st\<lparr>au_suspended := False\<rparr>) = (b, st1)" by fastforce
  show ?thesis using accountConfirmed_requests [OF st1] sent_latest_from [OF flush_sends [of cfg st1 env Autosave], of st]
    by (auto simp: resume_def st1 intro: sent_latestI)
qed

text \<open>Every save is revision-conditional and carries the newest input: when an event sends a save, the request names
  the draft, the revision the state holds, the latest content and this device, and the unfinished save remembers the
  edit version of that content, which is what its answer will confirm.\<close>

theorem saves_carry_latest:
  assumes "autosave_reachable cfg st" "handle cfg env e st = Some st'"
  shows "sent_latest cfg st st'"
proof -
  have core: "autosave_core cfg st" and inv: "autosave_inv cfg st" using autosave_reachable_inv [OF assms(1)] inv_core by auto
  show ?thesis
  proof (cases e)
    case TimerFires
    then show ?thesis using assms(2) sent_latest_from [OF flush_sends, of "st\<lparr>au_timer := False\<rparr>" st] by (auto split: if_splits)
  next
    case (RunAnswered i ans)
    then have run: "resume_run i st (\<lambda>r. run_answered cfg env r ans st) = Some st'" using assms(2) by simp
    show ?thesis by (rule resume_run_sends [OF inv run run_answered_keeps [OF core] run_answered_sends])
  next
    case (RunContinues i)
    then have run: "resume_run i st (\<lambda>r. run_continues cfg env r st) = Some st'" using assms(2) by simp
    show ?thesis by (rule resume_run_sends [OF inv run run_continues_keeps [OF core] run_continues_sends])
  next
    case (EnsureContinues i)
    then show ?thesis using assms(2) sent_latest_from [OF ensure_create_sends, of "st\<lparr>au_ensuring := remove_at i (au_ensuring st)\<rparr>" st]
      by (auto simp: ensure_continues_def intro: sent_latestI split: if_splits ensure_wait.splits)
  next
    case (ResolveAnswered ans)
    then show ?thesis using assms(2) by (auto intro: sent_latestI split: if_splits answer.splits)
  next
    case ResolveCreated
    then show ?thesis using assms(2) by (auto simp: resolveCreatedDraft_def sent_latest_def save_requests_def split: option.splits)
  qed (use assms(2) in \<open>auto simp: saveNow_def retry_def ensureDraft_def suspend_def dispose_def
      intro: sent_latestI flush_sends ensure_create_sends run_finished_sends resume_sends split: if_splits\<close>)
qed

end
