(* ===== verification/AutosaveLiveness.thy ===== *)
theory AutosaveLiveness
  imports AutosaveGuarantees
begin

text \<open>
  What the autosave gets done: a save in flight lands after a bounded number of answers, an edit is saved when its timer
  fires and the account answers; and the runs in which a save that had begun goes on although the autosave was suspended
  or in conflict meanwhile.
\<close>

section \<open>Flights land\<close>

fun run_rank :: "run \<Rightarrow> nat" where
  "run_rank RunDone = 0"
| "run_rank (RunReconciled None) = 1"
| "run_rank (RunRead lost None) = 2"
| "run_rank (RunSave kind draftId command sent base) = 3"
| "run_rank (RunCreated kind created) = 4"
| "run_rank (RunCreate kind p) = 5"
| "run_rank (RunReconciled (Some kind)) = 6"
| "run_rank (RunRead lost (Some kind)) = 7"

definition flight_measure :: "autosave \<Rightarrow> nat" where
  "flight_measure st = (if au_queued st = None then 0 else 9) + sum_list (map (\<lambda>r. run_rank r + 1) (au_runs st))"

fun flight_event :: "event \<Rightarrow> bool" where
  "flight_event (RunAnswered i ans) \<longleftrightarrow> True"
| "flight_event (RunContinues i) \<longleftrightarrow> True"
| "flight_event (RunFinished i) \<longleftrightarrow> True"
| "flight_event e \<longleftrightarrow> False"

lemma run_rank_max: "run_rank r \<le> 7"
  by (cases r rule: run_rank.cases) auto

lemma reconcile_begin_rank: "reconcile_begin env l cont st = (st', r) \<Longrightarrow> run_rank r \<le> (if cont = None then 2 else 7)"
  by (cases cont) (auto simp: reconcile_begin_def split: if_splits prod.splits)

lemma save_write_rank: "save_write cfg kind st = (st', r) \<Longrightarrow> run_rank r \<le> 3"
  by (auto simp: save_write_def Let_def split: option.splits)

lemma save_latest_rank: "save_latest cfg env kind st = (st', r) \<Longrightarrow> run_rank r \<le> 5"
  by (auto simp: save_latest_def create_begin_def Let_def split: option.splits if_splits dest!: save_write_rank)

lemma run_answered_rank: "run_answered cfg env r ans st = Some (st', r') \<Longrightarrow> run_rank r' < run_rank r"
proof (cases r)
  case (RunCreate kind p)
  assume "run_answered cfg env r ans st = Some (st', r')"
  then show ?thesis using RunCreate by (cases ans) (auto split: prod.splits)
next
  case (RunSave kind d command sent base)
  have "save_failed env err l st = (st', r') \<Longrightarrow> run_rank r' < 3" for err l
    by (auto simp: save_failed_def dest: reconcile_begin_rank split: if_splits prod.splits)
  moreover assume "run_answered cfg env r ans st = Some (st', r')"
  ultimately show ?thesis using RunSave by (cases ans) auto
next
  case (RunRead l cont)
  assume "run_answered cfg env r ans st = Some (st', r')"
  then show ?thesis using RunRead by (cases ans; cases cont) auto
qed auto

lemma run_continues_rank: "run_continues cfg env r st = Some (st', r') \<Longrightarrow> run_rank r' < run_rank r"
proof (cases r)
  case (RunCreated kind c)
  assume "run_continues cfg env r st = Some (st', r')"
  then show ?thesis using RunCreated by (auto dest: save_write_rank split: if_splits)
next
  case (RunReconciled cont)
  assume "run_continues cfg env r st = Some (st', r')"
  then show ?thesis using RunReconciled by (cases cont) (auto dest: save_latest_rank split: if_splits)
qed auto

lemma one_run:
  assumes "autosave_inv cfg st" "i < length (au_runs st)"
  obtains r where "au_runs st = [r]" "i = 0" "au_inFlight st"
  using assms by (cases "au_runs st") (auto simp: autosave_inv_def split: if_splits)

lemma resume_run_measure:
  assumes inv: "autosave_inv cfg st" and run: "resume_run i st f = Some st'"
    and keeps: "\<And>r s q. run_ok st r \<Longrightarrow> f r = Some (s, q) \<Longrightarrow> keeps cfg st s \<and> run_ok s q"
    and rank: "\<And>r s q. f r = Some (s, q) \<Longrightarrow> run_rank q < run_rank r"
  shows "flight_measure st' < flight_measure st"
proof -
  obtain s q where s: "i < length (au_runs st)" "f (au_runs st ! i) = Some (s, q)" "st' = s\<lparr>au_runs := (au_runs s)[i := q]\<rparr>"
    using run by (auto simp: resume_run_def split: if_splits)
  obtain r where r: "au_runs st = [r]" "i = 0" by (rule one_run [OF inv s(1)])
  have f: "f r = Some (s, q)" using s(2) r by simp
  have "run_ok st r" using inv r by (simp add: autosave_inv_def)
  then have "keeps cfg st s \<and> run_ok s q" using f by (rule keeps)
  then have same: "au_runs s = [r]" "au_queued s = au_queued st" using r by (simp_all add: keeps_def grows_def)
  show ?thesis using rank [OF f] r same s(3) by (simp add: flight_measure_def)
qed

lemma run_finished_measure:
  assumes inv: "autosave_inv cfg st" and i: "i < length (au_runs st)"
  shows "flight_measure (run_finished cfg env i st) < flight_measure st"
proof -
  obtain r where r: "au_runs st = [r]" "i = 0" by (rule one_run [OF inv i])
  define st1 where "st1 = st\<lparr>au_inFlight := False, au_queued := None, au_runs := remove_at i (au_runs st),
    au_ensuring := map flight_over (au_ensuring st)\<rparr>"
  have st1: "au_runs st1 = []" "au_queued st1 = None" "\<not> au_inFlight st1" using r by (simp_all add: st1_def remove_at_def)
  have core1: "autosave_core cfg (clearTimer st1)"
    using inv_core [OF inv] by (simp add: st1_def clearTimer_def autosave_core_def)
  have flushed: "flight_measure (flush cfg env kind st1) \<le> 8" for kind
  proof -
    obtain st2 q where save: "save cfg env kind (clearTimer st1) = (st2, q)" by fastforce
    have "keeps cfg (clearTimer st1) st2" using save_keeps [OF core1 save] by simp
    then have "au_runs st2 = []" "au_queued st2 = None" using st1 by (simp_all add: keeps_def grows_def clearTimer_def)
    then show ?thesis using st1 save run_rank_max [of q]
      by (simp add: flush_def Let_def flight_measure_def clearTimer_def)
  qed
  have zero: "flight_measure st1 = 0" using st1 by (simp add: flight_measure_def)
  show ?thesis
  proof (cases "au_queued st")
    case None
    then show ?thesis using r zero unfolding run_finished_def Let_def st1_def [symmetric] by (simp add: flight_measure_def)
  next
    case (Some kind)
    have nine: "9 < flight_measure st" using Some r by (simp add: flight_measure_def)
    show ?thesis using Some nine zero flushed [of kind] unfolding run_finished_def Let_def st1_def [symmetric]
      by (auto intro: le_less_trans)
  qed
qed

lemma flight_event_measure:
  assumes inv: "autosave_inv cfg st" and e: "flight_event e" "handle cfg env e st = Some st'"
  shows "flight_measure st' < flight_measure st"
proof (cases e)
  case (RunAnswered i ans)
  then have run: "resume_run i st (\<lambda>r. run_answered cfg env r ans st) = Some st'" using e by simp
  show ?thesis by (rule resume_run_measure [OF inv run run_answered_keeps [OF inv_core [OF inv]] run_answered_rank])
next
  case (RunContinues i)
  then have run: "resume_run i st (\<lambda>r. run_continues cfg env r st) = Some st'" using e by simp
  show ?thesis by (rule resume_run_measure [OF inv run run_continues_keeps [OF inv_core [OF inv]] run_continues_rank])
next
  case (RunFinished i)
  then show ?thesis using e run_finished_measure [OF inv] by (auto split: if_splits)
qed (use e in auto)

text \<open>A number of answers and continuations in a row.\<close>

inductive flight_path :: "autosave_config \<Rightarrow> nat \<Rightarrow> autosave \<Rightarrow> autosave \<Rightarrow> bool" for cfg where
  here: "flight_path cfg 0 st st"
| on: "flight_path cfg n st st' \<Longrightarrow> flight_event e \<Longrightarrow> handle cfg env e st' = Some st'' \<Longrightarrow> flight_path cfg (Suc n) st st''"

lemma flight_path_measure:
  "flight_path cfg n st st' \<Longrightarrow> autosave_inv cfg st \<Longrightarrow> autosave_inv cfg st' \<and> n + flight_measure st' \<le> flight_measure st"
proof (induction rule: flight_path.induct)
  case (on n st st' e env st'')
  then show ?case using flight_event_measure [of cfg st' e env st''] handle_inv [of cfg st' env e st''] by auto
qed simp

lemma flight_measure_max: "autosave_inv cfg st \<Longrightarrow> flight_measure st \<le> 17"
proof (cases "au_runs st")
  case Nil
  then show ?thesis by (simp add: flight_measure_def)
next
  case (Cons r rs)
  assume "autosave_inv cfg st"
  then have "rs = []" using Cons by (auto simp: autosave_inv_def split: if_splits)
  then show ?thesis using Cons run_rank_max [of r] by (simp add: flight_measure_def)
qed

lemma flight_progress:
  assumes inv: "autosave_inv cfg st" and flight: "au_inFlight st"
  shows "\<exists>e st'. flight_event e \<and> handle cfg env e st = Some st'"
proof -
  obtain r where r: "au_runs st = [r]" using inv flight by (cases "au_runs st") (auto simp: autosave_inv_def)
  have answered: "handle cfg env (RunAnswered 0 ans) st = map_option (\<lambda>(st', q). st'\<lparr>au_runs := (au_runs st')[0 := q]\<rparr>) (run_answered cfg env r ans st)" for ans
    using r by (simp add: resume_run_def)
  have continued: "handle cfg env (RunContinues 0) st = map_option (\<lambda>(st', q). st'\<lparr>au_runs := (au_runs st')[0 := q]\<rparr>) (run_continues cfg env r st)"
    using r by (simp add: resume_run_def)
  let ?err = "\<lparr>per_status = 0, per_code = None, per_message = None, per_outcomeUnknown = False\<rparr>"
  have answerable: "(\<exists>x. run_answered cfg env r (Failed ?err) st = Some x) \<Longrightarrow> ?thesis"
    using answered [of "Failed ?err"] by (intro exI [of _ "RunAnswered 0 (Failed ?err)"]) auto
  have continuable: "(\<exists>x. run_continues cfg env r st = Some x) \<Longrightarrow> ?thesis"
    using continued by (intro exI [of _ "RunContinues 0"]) auto
  show ?thesis
  proof (cases r)
    case (RunReconciled cont)
    then show ?thesis by (intro continuable) (cases cont; simp)
  next
    case RunDone
    then show ?thesis using r by (intro exI [of _ "RunFinished 0"]) auto
  next
    case (RunCreated kind c)
    then show ?thesis by (intro continuable) simp
  next
    case (RunCreate kind p)
    then show ?thesis by (intro answerable) (simp split: prod.splits)
  next
    case (RunSave kind d command sent base)
    then show ?thesis by (intro answerable) simp
  next
    case (RunRead l cont)
    then show ?thesis by (intro answerable) simp
  qed
qed

text \<open>C25: Saving ends: from any state the author can bring about, at most 17 answers and continuations happen before no save
  is in flight, the follow-up of a coalesced edit included, and until then one of them can always happen; so once the
  requests are answered, with whatever outcomes, \<open>idle()\<close> resolves.\<close>

theorem flights_land:
  assumes "autosave_reachable cfg st" "flight_path cfg n st st'"
  shows "n \<le> 17 \<and> (autosave_idle st' \<or> (\<forall>env. \<exists>e st''. flight_event e \<and> handle cfg env e st' = Some st''))"
proof -
  have inv: "autosave_inv cfg st" by (rule autosave_reachable_inv [OF assms(1)])
  have path: "autosave_inv cfg st'" "n + flight_measure st' \<le> flight_measure st" using flight_path_measure [OF assms(2) inv] by auto
  have "n \<le> 17" using path(2) flight_measure_max [OF inv] by simp
  moreover have "autosave_idle st' \<or> (\<forall>env. \<exists>e st''. flight_event e \<and> handle cfg env e st' = Some st'')"
    using flight_progress [OF path(1)] unfolding autosave_idle_def by blast
  ultimately show ?thesis ..
qed

section \<open>An edit is saved\<close>

fun run_events :: "autosave_config \<Rightarrow> (autosave_env \<times> event) list \<Rightarrow> autosave \<Rightarrow> autosave option" where
  "run_events cfg [] st = Some st"
| "run_events cfg ((env, e) # es) st = Option.bind (handle cfg env e st) (run_events cfg es)"

lemma run_events_reachable: "autosave_reachable cfg st \<Longrightarrow> run_events cfg es st = Some st' \<Longrightarrow> autosave_reachable cfg st'"
proof (induction es arbitrary: st)
  case (Cons p es)
  obtain env e where p: "p = (env, e)" by fastforce
  obtain s where s: "handle cfg env e st = Some s" "run_events cfg es s = Some st'"
    using Cons.prems(2) by (auto simp: p bind_eq_Some_conv)
  show ?case by (rule Cons.IH [OF autosave_reachable.later [OF Cons.prems(1) autosave_step.step [OF s(1)]] s(2)])
qed simp

lemma edit_schedules:
  assumes "\<not> cfg_manualOnly cfg" "\<not> au_disposed st" "\<not> au_suspended st" "au_status st \<noteq> Conflict" "\<not> au_inFlight st"
  shows "edit cfg content st =
    st\<lparr>au_latest := Some content, au_editVersion := au_editVersion st + 1, au_timer := True,
       au_status := (if au_status st = Saving \<or> au_status st = Reconciling then au_status st else Pending)\<rparr>"
  using assms by (simp add: edit_def schedule_def clearTimer_def Let_def)

text \<open>C26: Editing leads to saving: from any quiet state of a draft that saves on its own (not suspended, not in conflict, no
  lost save to learn about), an edit arms the timer; when the timer fires while the account is confirmed, one save is
  sent with the new content on the current revision; and when the account answers it as saved, everything is saved: the
  status says so, the marker has reached the edit and the next save will be based on the revision of the answer.\<close>

theorem edit_is_saved:
  assumes "autosave_reachable cfg st" "\<not> cfg_manualOnly cfg" "\<not> au_disposed st" "\<not> au_suspended st" "autosave_idle st"
    "au_status st \<noteq> Conflict" "au_draftId st = Some d" "au_unreconciled st = None" "env_account env"
  shows "\<exists>st' base. au_revision st = Some base \<and>
    run_events cfg [(env1, Edit content), (env, TimerFires), (env2, RunAnswered 0 (Drafted draft)), (env3, RunFinished 0)] st = Some st' \<and>
    save_requests st' = save_requests st @
      [SaveRequest Autosave d \<lparr>cmd_baseRevision = base, cmd_content = content, cmd_device = cfg_deviceClass cfg\<rparr>] \<and>
    au_status st' = Saved \<and> au_savedVersion st' = au_editVersion st + 1 \<and> \<not> hasUnsavedChanges st' \<and>
    au_revision st' = Some (drf_revision draft) \<and> autosave_idle st'"
proof -
  have inv: "autosave_inv cfg st" by (rule autosave_reachable_inv [OF assms(1)])
  obtain base where base: "au_revision st = Some base" using inv_core [OF inv] assms(7) by (auto simp: autosave_core_def)
  have quiet: "au_runs st = []" "\<not> au_inFlight st" "au_queued st = None"
    using inv assms(5) by (auto simp: autosave_inv_def autosave_idle_def)
  have le: "au_savedVersion st \<le> au_editVersion st" using inv_core [OF inv] by (simp add: autosave_core_def)
  note step1 = edit_schedules [OF assms(2-4,6) quiet(2), of content]
  show ?thesis
    using assms quiet base le
    by (simp add: step1 flush_def save_def accountConfirmed_def clearTimer_def save_latest_def save_write_def Let_def emit_def
        resume_run_def save_drafted_def markSaved_def settledStatus_def run_finished_def remove_at_def
        hasUnsavedChanges_def autosave_idle_def save_requests_def requests_def)
qed

section \<open>Runs\<close>

definition sample_config :: autosave_config where
  "sample_config = \<lparr>cfg_manualOnly = False, cfg_deviceClass = None\<rparr>"

definition sample_env :: autosave_env where
  "sample_env = \<lparr>env_account = True, env_now = 5, env_requestId = js ''r1''\<rparr>"

definition sample_content :: "string \<Rightarrow> draft_content" where
  "sample_content t = \<lparr>con_title = js t, con_body = [], con_items = [], con_rest = []\<rparr>"

definition sample_draft :: "json option \<Rightarrow> publishing_draft" where
  "sample_draft conflict = \<lparr>drf_id = js ''d'', drf_revision = 3, drf_content = sample_content ''a'', drf_conflict = conflict\<rparr>"

definition sample_start :: "json option \<Rightarrow> autosave" where
  "sample_start conflict = createDraftAutosave (Some (sample_draft conflict))"

definition sample_saving :: autosave where
  "sample_saving = saveNow sample_config sample_env (edit sample_config (sample_content ''b'') (sample_start None))"

definition sample_suspended :: autosave where
  "sample_suspended = suspend (edit sample_config (sample_content ''b'') (sample_start None))"

lemmas sample_defs = sample_config_def sample_env_def sample_content_def sample_draft_def sample_start_def createDraftAutosave_def

lemma sample_start_reachable: "autosave_reachable cfg (sample_start conflict)"
  unfolding sample_start_def by (rule autosave_reachable.start)

lemma reachable_handle: "autosave_reachable cfg st \<Longrightarrow> handle cfg env e st = Some st' \<Longrightarrow> autosave_reachable cfg st'"
  by (rule autosave_reachable.later [OF _ autosave_step.step])

lemma sample_edit_reachable: "autosave_reachable sample_config (edit sample_config (sample_content ''b'') (sample_start None))"
  by (rule reachable_handle [OF sample_start_reachable, where e = "Edit (sample_content ''b'')" and env = sample_env]) simp

lemma sample_saving_reachable: "autosave_reachable sample_config sample_saving"
  unfolding sample_saving_def
  by (rule reachable_handle [OF sample_edit_reachable, where e = SaveNow and env = sample_env]) simp

lemmas autosave_eval = sample_defs saveNow_def flush_def save_def accountConfirmed_def clearTimer_def save_latest_def save_write_def
  edit_def schedule_def suspend_def emit_def Let_def

lemma sample_saving_run: "\<exists>c. au_runs sample_saving = [RunSave Snapshot (js ''d'') c 1 3]" "au_inFlight sample_saving"
  by (simp_all add: sample_saving_def autosave_eval)

lemma saves_never_parallel_witness:
  "length (au_runs sample_saving) \<le> 1 \<and> (autosave_idle sample_saving \<longleftrightarrow> au_runs sample_saving = []) \<and> au_runs sample_saving \<noteq> []"
  using saves_never_parallel [OF sample_saving_reachable] sample_saving_run by auto

lemma autosave_status_truthful_witness:
  "au_status (sample_start None) = Saved \<and> \<not> hasUnsavedChanges (sample_start None)"
proof -
  have "au_status (sample_start None) = Saved" by (simp add: sample_defs)
  then show ?thesis using autosave_status_truthful [OF sample_start_reachable [of sample_config None]] by simp
qed

text \<open>A timer an edit armed while the answer of a lost save is looked for is still armed when the conflict shows.\<close>

lemma timer_outlives_into_conflict:
  "\<exists>st. run_events sample_config
       [(sample_env, Edit (sample_content ''c'')),
        (sample_env, RunAnswered 0 (Failed \<lparr>per_status = 0, per_code = None, per_message = None, per_outcomeUnknown = True\<rparr>)),
        (sample_env, RunAnswered 0 (Drafted (sample_draft (Some theirs))))] sample_saving = Some st
     \<and> au_status st = Conflict \<and> au_timer st"
  by (simp add: sample_saving_def autosave_eval resume_run_def save_failed_def reconcile_begin_def reconcile_read_def)

lemma saves_carry_latest_witness:
  "\<exists>st'. handle sample_config sample_env (RunAnswered 0 (Drafted (sample_draft None))) sample_saving = Some st' \<and>
     sent_latest sample_config sample_saving st'"
proof -
  obtain c where c: "au_runs sample_saving = [RunSave Snapshot (js ''d'') c 1 3]" using sample_saving_run by blast
  have "handle sample_config sample_env (RunAnswered 0 (Drafted (sample_draft None))) sample_saving \<noteq> None"
    using c by (simp add: resume_run_def)
  then show ?thesis using saves_carry_latest [OF sample_saving_reachable] by fastforce
qed

lemma suspended_starts_nothing_witness:
  "requests (saveNow sample_config sample_env sample_suspended) = requests sample_suspended"
proof -
  have "au_suspended sample_suspended" by (simp add: sample_suspended_def suspend_def clearTimer_def)
  then show ?thesis by (rule suspended_starts_nothing [of _ sample_config sample_env SaveNow]) simp_all
qed

lemma conflict_stops_writes_witness:
  "writes (saveNow sample_config sample_env (sample_start (Some JNull))) = writes (sample_start (Some JNull))"
proof -
  have "au_status (sample_start (Some JNull)) = Conflict" by (simp add: sample_defs)
  then show ?thesis
    by (rule conflict_stops_writes [OF sample_start_reachable [of sample_config], where e = SaveNow and env = sample_env]) simp_all
qed

lemma flights_land_witness:
  "\<exists>n st'. flight_path sample_config n sample_saving st' \<and> 0 < n \<and> n \<le> 17"
proof -
  obtain c where c: "au_runs sample_saving = [RunSave Snapshot (js ''d'') c 1 3]" using sample_saving_run by blast
  have "handle sample_config sample_env (RunAnswered 0 (Drafted (sample_draft None))) sample_saving \<noteq> None"
    using c by (simp add: resume_run_def)
  then obtain st' where "handle sample_config sample_env (RunAnswered 0 (Drafted (sample_draft None))) sample_saving = Some st'" by blast
  then have path: "flight_path sample_config (Suc 0) sample_saving st'"
    by (rule flight_path.on [OF flight_path.here, rotated]) simp
  show ?thesis using path flights_land [OF sample_saving_reachable path] by blast
qed

lemma edit_is_saved_witness:
  "\<exists>st' base. run_events sample_config [(sample_env, Edit (sample_content ''b'')), (sample_env, TimerFires),
      (sample_env, RunAnswered 0 (Drafted (sample_draft None))), (sample_env, RunFinished 0)] (sample_start None) = Some st' \<and>
    save_requests st' = [SaveRequest Autosave (js ''d'') \<lparr>cmd_baseRevision = base, cmd_content = sample_content ''b'', cmd_device = None\<rparr>] \<and>
    au_status st' = Saved"
proof -
  have start: "autosave_reachable sample_config (sample_start None)" by (rule sample_start_reachable)
  have hyps: "\<not> cfg_manualOnly sample_config" "\<not> au_disposed (sample_start None)" "\<not> au_suspended (sample_start None)"
      "autosave_idle (sample_start None)" "au_status (sample_start None) \<noteq> Conflict" "au_draftId (sample_start None) = Some (js ''d'')"
      "au_unreconciled (sample_start None) = None" "env_account sample_env"
    by (simp_all add: sample_defs autosave_idle_def)
  have unsent: "save_requests (sample_start None) = []" "cfg_deviceClass sample_config = None"
    by (simp_all add: save_requests_def requests_def sample_defs)
  show ?thesis
    using edit_is_saved [OF start hyps, of sample_env "sample_content ''b''" sample_env "sample_draft None" sample_env]
    unfolding unsent append_Nil by blast
qed

section \<open>A save that had begun goes on\<close>

text \<open>The account is checked when a save begins and before a lost save is read, but not between the create and the write of
  an important snapshot: suspended meanwhile, the autosave still sends the write.\<close>

lemma snapshot_goes_on_while_suspended:
  "\<exists>st st'. autosave_reachable sample_config st \<and> au_suspended st \<and>
     handle sample_config (sample_env\<lparr>env_account := False\<rparr>) (RunContinues 0) st = Some st' \<and> save_requests st' \<noteq> save_requests st"
proof -
  let ?es = "[(sample_env, Edit (sample_content ''a'')), (sample_env, SaveNow), (sample_env, Suspend),
    (sample_env\<lparr>env_account := False\<rparr>, RunAnswered 0 (Drafted (sample_draft None)))]"
  have "\<exists>st st'. run_events sample_config ?es (createDraftAutosave None) = Some st \<and> au_suspended st \<and>
     handle sample_config (sample_env\<lparr>env_account := False\<rparr>) (RunContinues 0) st = Some st' \<and> save_requests st' \<noteq> save_requests st"
    by (simp add: autosave_eval isEmptyDraftContent_def isEmptyText_def jtrim_def is_js_space_def js_def create_begin_def
        resume_run_def create_drafted_def markSaved_def settledStatus_def created_version_def save_requests_def requests_def)
  then show ?thesis using run_events_reachable [OF autosave_reachable.start] by blast
qed

text \<open>And when the create answers that the draft is in conflict, the write is sent all the same; answered as saved, it ends
  the conflict without the author's choice.\<close>

lemma snapshot_goes_on_in_conflict:
  "\<exists>st st' st''. autosave_reachable sample_config st \<and> au_status st = Conflict \<and>
     handle sample_config sample_env (RunContinues 0) st = Some st' \<and> save_requests st' \<noteq> save_requests st \<and>
     handle sample_config sample_env (RunAnswered 0 (Drafted (sample_draft None))) st' = Some st'' \<and> au_status st'' = Saved"
proof -
  let ?es = "[(sample_env, Edit (sample_content ''a'')), (sample_env, SaveNow),
    (sample_env, RunAnswered 0 (Drafted (sample_draft (Some JNull))))]"
  have "\<exists>st st' st''. run_events sample_config ?es (createDraftAutosave None) = Some st \<and> au_status st = Conflict \<and>
     handle sample_config sample_env (RunContinues 0) st = Some st' \<and> save_requests st' \<noteq> save_requests st \<and>
     handle sample_config sample_env (RunAnswered 0 (Drafted (sample_draft None))) st' = Some st'' \<and> au_status st'' = Saved"
    by (simp add: autosave_eval isEmptyDraftContent_def isEmptyText_def jtrim_def is_js_space_def js_def create_begin_def
        resume_run_def create_drafted_def save_drafted_def markSaved_def settledStatus_def created_version_def save_requests_def requests_def)
  then show ?thesis using run_events_reachable [OF autosave_reachable.start] by blast
qed

end
