(* ===== verification/Staging.thy ===== *)
theory Staging
  imports Prelude "HOL-Library.Multiset"
begin

text \<open>
  Selection staging (\<open>apps/web/features/publishing/import-grouping.ts\<close>): identified files are grouped into
  logical items, held in a batch until the author confirms it, and resolved by explicit choices. A \<open>File\<close> is its
  object identity (a number); a \<open>Map\<close> that is only looked up is a partial function. A key factory is a sequence of
  keys with the number drawn so far, which the operations that draw keys pass on. Identifying a file by its bytes
  (\<open>identifyFile\<close>) is not part of this theory.
\<close>

type_synonym file_ref = nat

datatype still_type = Still_jpeg | Still_png | Still_webp | Still_heic | Still_heif
datatype motion_type = Motion_quicktime | Motion_mp4
datatype file_origin = Origin_picker | Origin_drop | Origin_paste
datatype client_source = Source_picker | Source_drop | Source_clipboard

definition selectionSourceOf :: "file_origin \<Rightarrow> client_source" where
  "selectionSourceOf origin = (case origin of Origin_paste \<Rightarrow> Source_clipboard | Origin_picker \<Rightarrow> Source_picker | Origin_drop \<Rightarrow> Source_drop)"

datatype unsupported_reason = Empty_file | Unreadable | Animated_image | Raw_or_tiff | Unsupported_type | Independent_video

record motion_container =
  mpc_primaryLength :: nat
  mpc_videoType :: motion_type
  mpc_videoStart :: nat
  mpc_videoLength :: nat
  mpc_stillTimeMs :: "nat option"

record still =
  stl_file :: file_ref
  stl_type :: still_type
  stl_orientation :: "nat option"
  stl_contentIdentifier :: "jstr option"
  stl_appleMakerNote :: bool
  stl_motionPhoto :: "motion_container option"
  stl_motionPhotoInvalid :: bool

record motion =
  mot_file :: file_ref
  mot_type :: motion_type
  mot_contentIdentifier :: "jstr option"
  mot_audioTracks :: nat
  mot_stillTimeMs :: "nat option"

datatype identified = IdStill still | IdMotion motion | IdUnsupported file_ref unsupported_reason

fun identified_file :: "identified \<Rightarrow> file_ref" where
  "identified_file (IdStill s) = stl_file s"
| "identified_file (IdMotion m) = mot_file m"
| "identified_file (IdUnsupported f r) = f"

datatype logical_source = StaticSource still | PairSource still motion | ContainerSource still

type_synonym key = jstr

datatype staged_entry =
  Ready key logical_source bool
| NeedsCounterpart key still
| NeedsStill key motion
| Ambiguous key "still list" "motion list"
| ContainerInvalid key still
| Unsupported key file_ref unsupported_reason

record staging_batch =
  bat_origin :: file_origin
  bat_original :: bool
  bat_entries :: "staged_entry list"
  bat_fileOrigins :: "file_ref \<Rightarrow> file_origin option"

fun entry_key :: "staged_entry \<Rightarrow> key" where
  "entry_key (Ready k src p) = k"
| "entry_key (NeedsCounterpart k s) = k"
| "entry_key (NeedsStill k m) = k"
| "entry_key (Ambiguous k ss ms) = k"
| "entry_key (ContainerInvalid k s) = k"
| "entry_key (Unsupported k f r) = k"

type_synonym key_factory = "nat \<Rightarrow> key"

section \<open>Grouping\<close>

datatype placeholder = PlacedEntry staged_entry | PlacedGroup jstr

type_synonym groups = "jstr \<Rightarrow> (still list \<times> motion list) option"

definition add_to_group :: "jstr \<Rightarrow> still list \<Rightarrow> motion list \<Rightarrow> placeholder list \<times> groups \<Rightarrow> placeholder list \<times> groups" where
  "add_to_group identifier ss ms = (\<lambda>(ps, g).
     case g identifier of
       None \<Rightarrow> (ps @ [PlacedGroup identifier], g(identifier \<mapsto> (ss, ms)))
     | Some (ss', ms') \<Rightarrow> (ps, g(identifier \<mapsto> (ss' @ ss, ms' @ ms))))"

text \<open>One file of the first loop of \<open>groupIdentifiedFiles\<close>.\<close>

fun place_file :: "key_factory \<Rightarrow> identified \<Rightarrow> placeholder list \<times> groups \<Rightarrow> nat \<Rightarrow> (placeholder list \<times> groups) \<times> nat" where
  "place_file newKey (IdUnsupported f r) (ps, g) n = ((ps @ [PlacedEntry (Unsupported (newKey n) f r)], g), n + 1)"
| "place_file newKey (IdStill s) (ps, g) n =
     (if stl_motionPhoto s \<noteq> None then ((ps @ [PlacedEntry (Ready (newKey n) (ContainerSource s) False)], g), n + 1)
      else if stl_motionPhotoInvalid s then ((ps @ [PlacedEntry (ContainerInvalid (newKey n) s)], g), n + 1)
      else case stl_contentIdentifier s of
          None \<Rightarrow> ((ps @ [PlacedEntry (Ready (newKey n) (StaticSource s) False)], g), n + 1)
        | Some identifier \<Rightarrow> (add_to_group identifier [s] [] (ps, g), n))"
| "place_file newKey (IdMotion m) (ps, g) n =
     (case mot_contentIdentifier m of
        None \<Rightarrow> ((ps @ [PlacedEntry (Unsupported (newKey n) (mot_file m) Independent_video)], g), n + 1)
      | Some identifier \<Rightarrow> (add_to_group identifier [] [m] (ps, g), n))"

fun place_files :: "key_factory \<Rightarrow> identified list \<Rightarrow> placeholder list \<times> groups \<Rightarrow> nat \<Rightarrow> (placeholder list \<times> groups) \<times> nat" where
  "place_files newKey [] st n = (st, n)"
| "place_files newKey (f # fs) st n = (let (st, n) = place_file newKey f st n in place_files newKey fs st n)"

fun with_keys :: "key_factory \<Rightarrow> (key \<Rightarrow> 'a \<Rightarrow> staged_entry) \<Rightarrow> 'a list \<Rightarrow> nat \<Rightarrow> staged_entry list \<times> nat" where
  "with_keys newKey f [] n = ([], n)"
| "with_keys newKey f (x # xs) n = (let (es, n') = with_keys newKey f xs (n + 1) in (f (newKey n) x # es, n'))"

text \<open>The entries of one group, in the second loop.\<close>

definition group_entries :: "key_factory \<Rightarrow> still list \<times> motion list \<Rightarrow> nat \<Rightarrow> staged_entry list \<times> nat" where
  "group_entries newKey = (\<lambda>(ss, ms) n.
     if length ss = 1 \<and> length ms = 1 then ([Ready (newKey n) (PairSource (hd ss) (hd ms)) False], n + 1)
     else if ss \<noteq> [] \<and> ms \<noteq> [] then ([Ambiguous (newKey n) ss ms], n + 1)
     else let (es1, n) = with_keys newKey NeedsCounterpart ss n; (es2, n) = with_keys newKey NeedsStill ms n in (es1 @ es2, n))"

fun expand :: "key_factory \<Rightarrow> groups \<Rightarrow> placeholder list \<Rightarrow> nat \<Rightarrow> staged_entry list \<times> nat" where
  "expand newKey g [] n = ([], n)"
| "expand newKey g (PlacedEntry e # ps) n = (let (es, n) = expand newKey g ps n in (e # es, n))"
| "expand newKey g (PlacedGroup identifier # ps) n =
     (let (es1, n) = (case g identifier of None \<Rightarrow> ([], n) | Some grp \<Rightarrow> group_entries newKey grp n);
          (es2, n) = expand newKey g ps n in (es1 @ es2, n))"

definition groupIdentifiedFiles :: "key_factory \<Rightarrow> identified list \<Rightarrow> nat \<Rightarrow> staged_entry list \<times> nat" where
  "groupIdentifiedFiles newKey files n =
     (let ((ps, g), n) = place_files newKey files ([], \<lambda>_. None) n in expand newKey g ps n)"

section \<open>Batches\<close>

fun mark_pasted :: "staged_entry \<Rightarrow> staged_entry" where
  "mark_pasted (Ready k src p) = Ready k src True"
| "mark_pasted e = e"

definition markPasted :: "staged_entry list \<Rightarrow> file_origin \<Rightarrow> staged_entry list" where
  "markPasted entries origin = map (\<lambda>e. if origin = Origin_paste then mark_pasted e else e) entries"

fun origins_of :: "identified list \<Rightarrow> file_origin \<Rightarrow> (file_ref \<Rightarrow> file_origin option) \<Rightarrow> file_ref \<Rightarrow> file_origin option" where
  "origins_of [] origin m = m"
| "origins_of (f # fs) origin m = origins_of fs origin (m(identified_file f \<mapsto> origin))"

definition createStagingBatch :: "key_factory \<Rightarrow> identified list \<Rightarrow> file_origin \<Rightarrow> nat \<Rightarrow> staging_batch \<times> nat" where
  "createStagingBatch newKey files origin n =
     (let (entries, n) = groupIdentifiedFiles newKey files n in
      (\<lparr>bat_origin = origin, bat_original = False, bat_entries = markPasted entries origin,
        bat_fileOrigins = origins_of files origin (\<lambda>_. None)\<rparr>, n))"

fun source_files :: "logical_source \<Rightarrow> file_ref list" where
  "source_files (StaticSource s) = [stl_file s]"
| "source_files (PairSource s m) = [stl_file s, mot_file m]"
| "source_files (ContainerSource s) = [stl_file s]"

fun entryFiles :: "staged_entry \<Rightarrow> file_ref list" where
  "entryFiles (Ready k src p) = source_files src"
| "entryFiles (NeedsCounterpart k s) = [stl_file s]"
| "entryFiles (ContainerInvalid k s) = [stl_file s]"
| "entryFiles (NeedsStill k m) = [mot_file m]"
| "entryFiles (Ambiguous k ss ms) = map stl_file ss @ map mot_file ms"
| "entryFiles (Unsupported k f r) = [f]"

fun entry_waits :: "staged_entry \<Rightarrow> bool" where
  "entry_waits (NeedsCounterpart k s) \<longleftrightarrow> True"
| "entry_waits (NeedsStill k m) \<longleftrightarrow> True"
| "entry_waits (Ambiguous k ss ms) \<longleftrightarrow> True"
| "entry_waits e \<longleftrightarrow> False"

fun entry_halves :: "staged_entry \<Rightarrow> identified list" where
  "entry_halves (NeedsCounterpart k s) = [IdStill s]"
| "entry_halves (NeedsStill k m) = [IdMotion m]"
| "entry_halves (Ambiguous k ss ms) = map IdStill ss @ map IdMotion ms"
| "entry_halves e = []"

fun key_by_file :: "staged_entry list \<Rightarrow> (file_ref \<Rightarrow> key option) \<Rightarrow> file_ref \<Rightarrow> key option" where
  "key_by_file [] m = m"
| "key_by_file (NeedsCounterpart k s # es) m = key_by_file es (m(stl_file s \<mapsto> k))"
| "key_by_file (NeedsStill k x # es) m = key_by_file es (m(mot_file x \<mapsto> k))"
| "key_by_file (e # es) m = key_by_file es m"

fun with_key :: "key \<Rightarrow> staged_entry \<Rightarrow> staged_entry" where
  "with_key k (Ready k' src p) = Ready k src p"
| "with_key k (NeedsCounterpart k' s) = NeedsCounterpart k s"
| "with_key k (NeedsStill k' m) = NeedsStill k m"
| "with_key k (Ambiguous k' ss ms) = Ambiguous k ss ms"
| "with_key k (ContainerInvalid k' s) = ContainerInvalid k s"
| "with_key k (Unsupported k' f r) = Unsupported k f r"

text \<open>\<open>reuse\<close>: the first key of a waiting half among the entry's files that is not used yet.\<close>

fun reuse :: "(file_ref \<Rightarrow> key option) \<Rightarrow> staged_entry \<Rightarrow> file_ref list \<Rightarrow> key list \<Rightarrow> staged_entry \<times> key list" where
  "reuse keyByFile e [] used = (e, used)"
| "reuse keyByFile e (f # fs) used =
     (case keyByFile f of
        Some k \<Rightarrow> if k \<notin> set used then (with_key k e, used @ [k]) else reuse keyByFile e fs used
      | None \<Rightarrow> reuse keyByFile e fs used)"

fun keeps_new_key :: "staged_entry \<Rightarrow> bool" where
  "keeps_new_key (Unsupported k f r) \<longleftrightarrow> True"
| "keeps_new_key (Ambiguous k ss ms) \<longleftrightarrow> True"
| "keeps_new_key (ContainerInvalid k s) \<longleftrightarrow> True"
| "keeps_new_key e \<longleftrightarrow> False"

definition mark_if_pasted :: "file_ref list \<Rightarrow> staged_entry \<Rightarrow> staged_entry" where
  "mark_if_pasted pasted e = (if list_ex (\<lambda>f. f \<in> set pasted) (entryFiles e) then mark_pasted e else e)"

fun regroup :: "(file_ref \<Rightarrow> key option) \<Rightarrow> file_ref list \<Rightarrow> staged_entry list \<Rightarrow> key list \<Rightarrow> staged_entry list" where
  "regroup keyByFile pasted [] used = []"
| "regroup keyByFile pasted (e # es) used =
     (let (kept, used) = (if keeps_new_key e then (e, used) else reuse keyByFile e (entryFiles e) used) in
      mark_if_pasted pasted kept # regroup keyByFile pasted es used)"

definition staged_files :: "staging_batch \<Rightarrow> file_ref list" where
  "staged_files batch = concat (map entryFiles (bat_entries batch))"

fun known_origins :: "identified list \<Rightarrow> file_origin \<Rightarrow> (file_ref \<Rightarrow> file_origin option) \<Rightarrow> file_ref \<Rightarrow> file_origin option" where
  "known_origins [] origin m = m"
| "known_origins (f # fs) origin m =
     known_origins fs origin (if m (identified_file f) = None then m(identified_file f \<mapsto> origin) else m)"

definition addToStagingBatch ::
  "key_factory \<Rightarrow> staging_batch option \<Rightarrow> identified list \<Rightarrow> file_origin \<Rightarrow> nat \<Rightarrow> staging_batch \<times> nat" where
  "addToStagingBatch newKey optional_batch files origin n =
     (case optional_batch of
        None \<Rightarrow> createStagingBatch newKey files origin n
      | Some batch \<Rightarrow>
          (let incoming = filter (\<lambda>f. identified_file f \<notin> set (staged_files batch)) files;
               pasted = (if origin = Origin_paste then map identified_file incoming else []);
               waiting = filter entry_waits (bat_entries batch);
               halves = concat (map entry_halves waiting);
               (entries, n) = groupIdentifiedFiles newKey (halves @ incoming) n;
               regrouped = regroup (key_by_file waiting (\<lambda>_. None)) pasted entries [] in
           (batch\<lparr>bat_fileOrigins := known_origins incoming origin (bat_fileOrigins batch),
              bat_entries := filter (\<lambda>e. \<not> entry_waits e) (bat_entries batch) @ regrouped\<rparr>, n)))"

definition setBatchOriginal :: "staging_batch \<Rightarrow> bool \<Rightarrow> staging_batch" where
  "setBatchOriginal batch original = batch\<lparr>bat_original := original\<rparr>"

text \<open>A file of the photos-only import.\<close>

fun static_entry :: "file_origin \<Rightarrow> key \<Rightarrow> identified \<Rightarrow> staged_entry" where
  "static_entry origin k (IdUnsupported f r) = Unsupported k f r"
| "static_entry origin k (IdMotion m) = Unsupported k (mot_file m) Independent_video"
| "static_entry origin k (IdStill s) =
     (if stl_motionPhotoInvalid s then Unsupported k (stl_file s) Unreadable
      else Ready k (StaticSource s) (origin = Origin_paste))"

definition addStaticPhotosToStaging ::
  "key_factory \<Rightarrow> staging_batch option \<Rightarrow> identified list \<Rightarrow> file_origin \<Rightarrow> nat \<Rightarrow> staging_batch \<times> nat" where
  "addStaticPhotosToStaging newKey optional_batch files origin n =
     (let old = (case optional_batch of None \<Rightarrow> [] | Some b \<Rightarrow> bat_entries b);
          staged = concat (map entryFiles old);
          incoming = filter (\<lambda>f. identified_file f \<notin> set staged) files;
          (entries, n) = with_keys newKey (static_entry origin) incoming n in
      (\<lparr>bat_origin = (case optional_batch of None \<Rightarrow> origin | Some b \<Rightarrow> bat_origin b),
        bat_original = (case optional_batch of None \<Rightarrow> False | Some b \<Rightarrow> bat_original b),
        bat_entries = old @ entries,
        bat_fileOrigins = origins_of incoming origin (case optional_batch of None \<Rightarrow> (\<lambda>_. None) | Some b \<Rightarrow> bat_fileOrigins b)\<rparr>, n))"

section \<open>Choices\<close>

definition replaceEntry :: "staging_batch \<Rightarrow> key \<Rightarrow> staged_entry list \<Rightarrow> staging_batch" where
  "replaceEntry batch k replacement =
     batch\<lparr>bat_entries := concat (map (\<lambda>e. if entry_key e = k then replacement else [e]) (bat_entries batch))\<rparr>"

datatype choice_error = Entry_missing | Choice_invalid | Pairing_mismatch

definition findEntry :: "staging_batch \<Rightarrow> key \<Rightarrow> staged_entry option" where
  "findEntry batch k = find (\<lambda>e. entry_key e = k) (bat_entries batch)"

definition removeStagedEntry :: "staging_batch \<Rightarrow> key \<Rightarrow> choice_error + staging_batch" where
  "removeStagedEntry batch k =
     (case findEntry batch k of Some e \<Rightarrow> Inr (replaceEntry batch k []) | None \<Rightarrow> Inl Entry_missing)"

definition as_photo :: "still \<Rightarrow> still" where
  "as_photo s = s\<lparr>stl_motionPhoto := None, stl_motionPhotoInvalid := False\<rparr>"

definition keepStagedStillAsPhoto :: "staging_batch \<Rightarrow> key \<Rightarrow> choice_error + staging_batch" where
  "keepStagedStillAsPhoto batch k =
     (case findEntry batch k of
        None \<Rightarrow> Inl Entry_missing
      | Some (NeedsCounterpart _ s) \<Rightarrow> Inr (replaceEntry batch k [Ready k (StaticSource (as_photo s)) False])
      | Some (ContainerInvalid _ s) \<Rightarrow> Inr (replaceEntry batch k [Ready k (StaticSource (as_photo s)) False])
      | Some e \<Rightarrow> Inl Choice_invalid)"

definition attachStagedCounterpart :: "staging_batch \<Rightarrow> key \<Rightarrow> identified \<Rightarrow> choice_error + staging_batch" where
  "attachStagedCounterpart batch k counterpart =
     (case findEntry batch k of
        None \<Rightarrow> Inl Entry_missing
      | Some (NeedsCounterpart _ s) \<Rightarrow>
          (case counterpart of
             IdMotion m \<Rightarrow>
               if mot_contentIdentifier m \<noteq> stl_contentIdentifier s then Inl Pairing_mismatch
               else Inr (replaceEntry batch k [Ready k (PairSource s m) False])
           | _ \<Rightarrow> Inl Choice_invalid)
      | Some (NeedsStill _ m) \<Rightarrow>
          (case counterpart of
             IdStill s \<Rightarrow>
               if stl_motionPhoto s \<noteq> None then Inl Choice_invalid
               else if stl_contentIdentifier s \<noteq> mot_contentIdentifier m then Inl Pairing_mismatch
               else Inr (replaceEntry batch k [Ready k (PairSource s m) False])
           | _ \<Rightarrow> Inl Choice_invalid)
      | Some e \<Rightarrow> Inl Choice_invalid)"

definition drop_at :: "nat \<Rightarrow> 'a list \<Rightarrow> 'a list" where
  "drop_at i xs = take i xs @ drop (Suc i) xs"

definition resolveStagedAmbiguity ::
  "key_factory \<Rightarrow> staging_batch \<Rightarrow> key \<Rightarrow> nat \<Rightarrow> nat \<Rightarrow> nat \<Rightarrow> choice_error + (staging_batch \<times> nat)" where
  "resolveStagedAmbiguity newKey batch k stillIndex motionIndex n =
     (case findEntry batch k of
        None \<Rightarrow> Inl Entry_missing
      | Some (Ambiguous _ ss ms) \<Rightarrow>
          if stillIndex \<ge> length ss \<or> motionIndex \<ge> length ms then Inl Choice_invalid
          else
            (let (rest1, n) = with_keys newKey NeedsCounterpart (drop_at stillIndex ss) n;
                 (rest2, n) = with_keys newKey NeedsStill (drop_at motionIndex ms) n in
             Inr (replaceEntry batch k (Ready k (PairSource (ss ! stillIndex) (ms ! motionIndex)) False # rest1 @ rest2), n))
      | Some e \<Rightarrow> Inl Choice_invalid)"

section \<open>Confirming\<close>

record staging_count =
  cnt_ready :: nat
  cnt_unresolved :: nat
  cnt_unsupported :: nat
  cnt_total :: nat
  cnt_withinLimit :: bool
  cnt_overBy :: nat

fun is_ready :: "staged_entry \<Rightarrow> bool" where
  "is_ready (Ready k src p) \<longleftrightarrow> True"
| "is_ready e \<longleftrightarrow> False"

fun is_unsupported :: "staged_entry \<Rightarrow> bool" where
  "is_unsupported (Unsupported k f r) \<longleftrightarrow> True"
| "is_unsupported e \<longleftrightarrow> False"

fun count_loop :: "staged_entry list \<Rightarrow> nat \<Rightarrow> nat \<Rightarrow> nat \<Rightarrow> nat \<times> nat \<times> nat" where
  "count_loop [] ready unresolved unsupported = (ready, unresolved, unsupported)"
| "count_loop (e # es) ready unresolved unsupported =
     (if is_ready e then count_loop es (ready + 1) unresolved unsupported
      else if is_unsupported e then count_loop es ready unresolved (unsupported + 1)
      else count_loop es ready (unresolved + 1) unsupported)"

definition countStaging :: "staging_batch \<Rightarrow> nat \<Rightarrow> nat \<Rightarrow> staging_count" where
  "countStaging batch existingItems maxItems =
     (let (ready, unresolved, unsupported) = count_loop (bat_entries batch) 0 0 0; total_items = existingItems + ready in
      \<lparr>cnt_ready = ready, cnt_unresolved = unresolved, cnt_unsupported = unsupported, cnt_total = total_items,
       cnt_withinLimit = (total_items \<le> maxItems), cnt_overBy = total_items - maxItems\<rparr>)"

datatype quality_mode = Standard | Original | Legacy

record confirmed_source =
  cfm_key :: key
  cfm_source :: logical_source
  cfm_qualityMode :: quality_mode
  cfm_notCameraOriginal :: bool
  cfm_clientSource :: client_source

datatype confirm_error = Items_over_limit | Nothing_ready

definition entrySelectionSource :: "staging_batch \<Rightarrow> logical_source \<Rightarrow> bool \<Rightarrow> client_source" where
  "entrySelectionSource batch src pasted =
     (let origins = List.map_filter (bat_fileOrigins batch) (source_files src) in
      if pasted \<or> Origin_paste \<in> set origins then Source_clipboard
      else let known = (case origins of [] \<Rightarrow> bat_origin batch | x # _ \<Rightarrow> x) in
        if known = Origin_paste then Source_picker else selectionSourceOf known)"

fun confirm_entry :: "staging_batch \<Rightarrow> staged_entry \<Rightarrow> confirmed_source list" where
  "confirm_entry batch (Ready k src p) =
     (let clientSource = entrySelectionSource batch src p in
      [\<lparr>cfm_key = k, cfm_source = src, cfm_qualityMode = (if bat_original batch then Original else Standard),
        cfm_notCameraOriginal = (clientSource = Source_clipboard), cfm_clientSource = clientSource\<rparr>])"
| "confirm_entry batch e = []"

definition confirmStaging ::
  "staging_batch \<Rightarrow> nat \<Rightarrow> nat \<Rightarrow> confirm_error + (confirmed_source list \<times> staging_batch option)" where
  "confirmStaging batch existingItems maxItems =
     (let count = countStaging batch existingItems maxItems in
      if cnt_ready count = 0 then Inl Nothing_ready
      else if \<not> cnt_withinLimit count then Inl Items_over_limit
      else
        (let waiting = filter (\<lambda>e. \<not> is_ready e \<and> \<not> is_unsupported e) (bat_entries batch) in
         Inr (concat (map (confirm_entry batch) (bat_entries batch)),
           if waiting = [] then None else Some (batch\<lparr>bat_original := False, bat_entries := waiting\<rparr>))))"

text \<open>The SHA-256 of the identifier is a parameter.\<close>

fun pairingDigest :: "(jstr \<Rightarrow> jstr) \<Rightarrow> logical_source \<Rightarrow> jstr option" where
  "pairingDigest contentIdentifierSha256 (PairSource s m) =
     (case stl_contentIdentifier s of None \<Rightarrow> None | Some identifier \<Rightarrow> if identifier = [] then None else Some (contentIdentifierSha256 identifier))"
| "pairingDigest contentIdentifierSha256 src = None"

end
