(* ===== verification/StagingInvariant.thy ===== *)
theory StagingInvariant
  imports Staging
begin

text \<open>
  What staging keeps: keys are unique and a still and a motion are paired only when they carry the same content identifier,
  whatever picks and choices the author makes; and every file is staged once, as long as no pick lists one twice and no
  counterpart is attached that is staged already.
\<close>

section \<open>Files of a grouping\<close>

definition entries_files :: "staged_entry list \<Rightarrow> file_ref multiset" where
  "entries_files es = mset (concat (map entryFiles es))"

lemma entries_files_simps [simp]:
  "entries_files [] = {#}" "entries_files (e # es) = mset (entryFiles e) + entries_files es"
  "entries_files (es @ fs) = entries_files es + entries_files fs"
  by (simp_all add: entries_files_def)

definition group_files :: "groups \<Rightarrow> jstr \<Rightarrow> file_ref multiset" where
  "group_files g i = (case g i of None \<Rightarrow> {#} | Some (ss, ms) \<Rightarrow> mset (map stl_file ss) + mset (map mot_file ms))"

fun placed_files :: "groups \<Rightarrow> placeholder list \<Rightarrow> file_ref multiset" where
  "placed_files g [] = {#}"
| "placed_files g (PlacedEntry e # ps) = mset (entryFiles e) + placed_files g ps"
| "placed_files g (PlacedGroup i # ps) = group_files g i + placed_files g ps"

fun placed_groups :: "placeholder list \<Rightarrow> jstr list" where
  "placed_groups [] = []"
| "placed_groups (PlacedEntry e # ps) = placed_groups ps"
| "placed_groups (PlacedGroup i # ps) = i # placed_groups ps"

fun placed_entries :: "placeholder list \<Rightarrow> staged_entry list" where
  "placed_entries [] = []"
| "placed_entries (PlacedEntry e # ps) = e # placed_entries ps"
| "placed_entries (PlacedGroup i # ps) = placed_entries ps"

lemma placed_append [simp]:
  "placed_files g (ps @ qs) = placed_files g ps + placed_files g qs"
  "placed_groups (ps @ qs) = placed_groups ps @ placed_groups qs"
  "placed_entries (ps @ qs) = placed_entries ps @ placed_entries qs"
  by (induction ps rule: placed_groups.induct) (simp_all add: add.assoc)

definition groups_ok :: "placeholder list \<times> groups \<Rightarrow> bool" where
  "groups_ok = (\<lambda>(ps, g). distinct (placed_groups ps) \<and> set (placed_groups ps) = dom g)"

lemma groups_ok_entry [simp]: "groups_ok (ps @ [PlacedEntry e], g) = groups_ok (ps, g)"
  by (simp add: groups_ok_def)

lemma group_files_upd [simp]:
  "group_files (g(i \<mapsto> (ss, ms))) j = (if j = i then mset (map stl_file ss) + mset (map mot_file ms) else group_files g j)"
  by (simp add: group_files_def)

lemma placed_files_other: "i \<notin> set (placed_groups ps) \<Longrightarrow> placed_files (g(i \<mapsto> (ss, ms))) ps = placed_files g ps"
  by (induction ps rule: placed_groups.induct) auto

lemma placed_files_update:
  "i \<in> set (placed_groups ps) \<Longrightarrow> distinct (placed_groups ps) \<Longrightarrow>
    placed_files (g(i \<mapsto> (ss, ms))) ps + group_files g i = placed_files g ps + mset (map stl_file ss) + mset (map mot_file ms)"
proof (induction ps rule: placed_groups.induct)
  case (3 j ps)
  show ?case
  proof (cases "i = j")
    case True
    then have "placed_files (g(j \<mapsto> (ss, ms))) ps = placed_files g ps" using 3 by (simp add: placed_files_other)
    then show ?thesis using True by (simp add: ac_simps del: fun_upd_apply)
  next
    case False
    then show ?thesis using 3 by (simp add: ac_simps del: fun_upd_apply)
  qed
qed (auto simp: ac_simps)

lemma add_to_group_conserves:
  assumes "groups_ok st"
  shows "groups_ok (add_to_group i ss ms st) \<and>
    placed_files (snd (add_to_group i ss ms st)) (fst (add_to_group i ss ms st)) =
      placed_files (snd st) (fst st) + mset (map stl_file ss) + mset (map mot_file ms)"
proof -
  obtain ps g where st: "st = (ps, g)" by fastforce
  show ?thesis
  proof (cases "g i")
    case None
    then have "i \<notin> set (placed_groups ps)" using assms st by (auto simp: groups_ok_def)
    then show ?thesis using None assms st
      by (auto simp: add_to_group_def groups_ok_def placed_files_other ac_simps)
  next
    case (Some x)
    obtain ss' ms' where x: "x = (ss', ms')" by fastforce
    have mem: "i \<in> set (placed_groups ps)" "distinct (placed_groups ps)" using assms st Some by (auto simp: groups_ok_def dom_def)
    have "placed_files (g(i \<mapsto> (ss' @ ss, ms' @ ms))) ps + group_files g i =
        placed_files g ps + mset (map stl_file (ss' @ ss)) + mset (map mot_file (ms' @ ms))"
      by (rule placed_files_update [OF mem])
    then have "placed_files (g(i \<mapsto> (ss' @ ss, ms' @ ms))) ps = placed_files g ps + mset (map stl_file ss) + mset (map mot_file ms)"
      using Some x by (simp add: group_files_def ac_simps)
    moreover have "dom (g(i \<mapsto> (ss' @ ss, ms' @ ms))) = dom g" using Some by auto
    ultimately show ?thesis using Some x assms st by (simp add: add_to_group_def groups_ok_def)
  qed
qed

lemma place_file_conserves:
  assumes "groups_ok st" "place_file newKey f st n = (st', n')"
  shows "groups_ok st' \<and> placed_files (snd st') (fst st') = placed_files (snd st) (fst st) + {# identified_file f #}"
proof -
  obtain ps g where st: "st = (ps, g)" by fastforce
  show ?thesis
  proof (cases f)
    case (IdStill s)
    then show ?thesis using assms st add_to_group_conserves [OF assms(1), of _ "[s]" "[]"]
      by (auto split: if_splits option.splits)
  next
    case (IdMotion m)
    then show ?thesis using assms st add_to_group_conserves [OF assms(1), of _ "[]" "[m]"]
      by (auto split: option.splits)
  next
    case (IdUnsupported x r)
    then show ?thesis using assms st by auto
  qed
qed

lemma place_files_conserves:
  assumes "groups_ok st" "place_files newKey fs st n = (st', n')"
  shows "groups_ok st' \<and> placed_files (snd st') (fst st') = placed_files (snd st) (fst st) + mset (map identified_file fs)"
  using assms
proof (induction fs arbitrary: st n)
  case (Cons f fs)
  obtain st1 n1 where st1: "place_file newKey f st n = (st1, n1)" by fastforce
  have one: "groups_ok st1 \<and> placed_files (snd st1) (fst st1) = placed_files (snd st) (fst st) + {# identified_file f #}"
    by (rule place_file_conserves [OF Cons.prems(1) st1])
  have "place_files newKey fs st1 n1 = (st', n')" using Cons.prems(2) st1 by simp
  then show ?case using Cons.IH [of st1 n1] one by simp
qed simp

lemma with_keys_files:
  "with_keys newKey f xs n = (es, n') \<Longrightarrow> (\<And>k x. entryFiles (f k x) = [h x]) \<Longrightarrow> entries_files es = mset (map h xs)"
  by (induction xs arbitrary: es n) (auto split: prod.splits)

lemma group_entries_files:
  assumes "group_entries newKey (ss, ms) n = (es, n')"
  shows "entries_files es = mset (map stl_file ss) + mset (map mot_file ms)"
proof (cases "length ss = 1 \<and> length ms = 1")
  case True
  then obtain s m where "ss = [s]" "ms = [m]" by (auto simp: length_Suc_conv)
  then show ?thesis using assms by (auto simp: group_entries_def)
next
  case False
  obtain es1 n1 where es1: "with_keys newKey NeedsCounterpart ss n = (es1, n1)" by fastforce
  obtain es2 n2 where es2: "with_keys newKey NeedsStill ms n1 = (es2, n2)" by fastforce
  have "entries_files es1 = mset (map stl_file ss)" "entries_files es2 = mset (map mot_file ms)"
    by (rule with_keys_files [OF es1], simp) (rule with_keys_files [OF es2], simp)
  then show ?thesis using assms False es1 es2 by (auto simp: group_entries_def split: if_splits)
qed

lemma expand_files: "expand newKey g ps n = (es, n') \<Longrightarrow> entries_files es = placed_files g ps"
proof (induction ps arbitrary: es n n' rule: placed_groups.induct)
  case (3 i ps)
  obtain es1 n1 where one: "(case g i of None \<Rightarrow> ([], n) | Some grp \<Rightarrow> group_entries newKey grp n) = (es1, n1)" by fastforce
  obtain es2 n2 where two: "expand newKey g ps n1 = (es2, n2)" by fastforce
  have "entries_files es1 = group_files g i"
    using one by (auto simp: group_files_def group_entries_files split: option.splits)
  then show ?case using 3 one two by (auto simp del: group_files_def)
qed (auto split: prod.splits)

lemma grouping_files:
  "groupIdentifiedFiles newKey files n = (es, n') \<Longrightarrow> entries_files es = mset (map identified_file files)"
proof -
  assume grouped: "groupIdentifiedFiles newKey files n = (es, n')"
  obtain ps g n1 where placed: "place_files newKey files ([], \<lambda>_. None) n = ((ps, g), n1)" by (metis surj_pair)
  have "groups_ok ([], \<lambda>_. None)" by (simp add: groups_ok_def)
  then have "placed_files g ps = mset (map identified_file files)" using place_files_conserves [OF _ placed] by simp
  then show ?thesis using grouped placed expand_files by (simp add: groupIdentifiedFiles_def)
qed

section \<open>Pairs are proven by their identifier\<close>

text \<open>A still that waits for its counterpart carries an identifier and no container of its own.\<close>

definition still_half :: "jstr \<Rightarrow> still \<Rightarrow> bool" where
  "still_half i s \<longleftrightarrow> stl_contentIdentifier s = Some i \<and> stl_motionPhoto s = None"

definition motion_half :: "jstr \<Rightarrow> motion \<Rightarrow> bool" where
  "motion_half i m \<longleftrightarrow> mot_contentIdentifier m = Some i"

fun entry_ok :: "staged_entry \<Rightarrow> bool" where
  "entry_ok (Ready k (PairSource s m) p) \<longleftrightarrow> (\<exists>i. still_half i s \<and> motion_half i m)"
| "entry_ok (Ready k (ContainerSource s) p) \<longleftrightarrow> stl_motionPhoto s \<noteq> None"
| "entry_ok (Ready k (StaticSource s) p) \<longleftrightarrow> \<not> stl_motionPhotoInvalid s"
| "entry_ok (NeedsCounterpart k s) \<longleftrightarrow> (\<exists>i. still_half i s)"
| "entry_ok (NeedsStill k m) \<longleftrightarrow> (\<exists>i. motion_half i m)"
| "entry_ok (Ambiguous k ss ms) \<longleftrightarrow> ss \<noteq> [] \<and> ms \<noteq> [] \<and> (\<exists>i. list_all (still_half i) ss \<and> list_all (motion_half i) ms)"
| "entry_ok (ContainerInvalid k s) \<longleftrightarrow> stl_motionPhoto s = None"
| "entry_ok (Unsupported k f r) \<longleftrightarrow> True"

definition placed_ok :: "placeholder list \<times> groups \<Rightarrow> bool" where
  "placed_ok = (\<lambda>(ps, g). list_all entry_ok (placed_entries ps) \<and>
     (\<forall>i ss ms. g i = Some (ss, ms) \<longrightarrow> list_all (still_half i) ss \<and> list_all (motion_half i) ms))"

lemma placed_ok_entry [simp]: "placed_ok (ps @ [PlacedEntry e], g) \<longleftrightarrow> entry_ok e \<and> placed_ok (ps, g)"
  by (auto simp: placed_ok_def)

lemma add_to_group_ok:
  "placed_ok (ps, g) \<Longrightarrow> list_all (still_half i) ss \<Longrightarrow> list_all (motion_half i) ms \<Longrightarrow> placed_ok (add_to_group i ss ms (ps, g))"
  by (cases "g i") (auto simp: placed_ok_def add_to_group_def split: prod.splits)

lemma place_file_ok:
  assumes "placed_ok st" "place_file newKey f st n = (st', n')"
  shows "placed_ok st'"
proof -
  obtain ps g where st: "st = (ps, g)" by fastforce
  show ?thesis
  proof (cases f)
    case (IdStill s)
    have "placed_ok (add_to_group i [s] [] (ps, g))" if "still_half i s" for i
      using that assms(1) st by (intro add_to_group_ok) auto
    then show ?thesis using assms st IdStill by (auto simp: still_half_def split: if_splits option.splits)
  next
    case (IdMotion m)
    have "placed_ok (add_to_group i [] [m] (ps, g))" if "motion_half i m" for i
      using that assms(1) st by (intro add_to_group_ok) auto
    then show ?thesis using assms st IdMotion by (auto simp: motion_half_def split: option.splits)
  next
    case (IdUnsupported x r)
    then show ?thesis using assms st by auto
  qed
qed

lemma place_files_ok: "placed_ok st \<Longrightarrow> place_files newKey fs st n = (st', n') \<Longrightarrow> placed_ok st'"
proof (induction fs arbitrary: st n)
  case (Cons f fs)
  obtain st1 n1 where st1: "place_file newKey f st n = (st1, n1)" by fastforce
  show ?case using Cons.IH [OF place_file_ok [OF Cons.prems(1) st1]] Cons.prems(2) st1 by simp
qed simp

lemma with_keys_ok: "with_keys newKey f xs n = (es, n') \<Longrightarrow> (\<And>k x. x \<in> set xs \<Longrightarrow> entry_ok (f k x)) \<Longrightarrow> list_all entry_ok es"
  by (induction xs arbitrary: es n) (auto split: prod.splits)

lemma group_entries_ok:
  assumes "group_entries newKey (ss, ms) n = (es, n')" "list_all (still_half i) ss" "list_all (motion_half i) ms"
  shows "list_all entry_ok es"
proof (cases "length ss = 1 \<and> length ms = 1")
  case True
  then obtain s m where "ss = [s]" "ms = [m]" by (auto simp: length_Suc_conv)
  then show ?thesis using assms by (auto simp: group_entries_def)
next
  case False
  obtain es1 n1 where es1: "with_keys newKey NeedsCounterpart ss n = (es1, n1)" by fastforce
  obtain es2 n2 where es2: "with_keys newKey NeedsStill ms n1 = (es2, n2)" by fastforce
  have "list_all entry_ok es1" by (rule with_keys_ok [OF es1]) (use assms in \<open>auto simp: list_all_iff\<close>)
  moreover have "list_all entry_ok es2" by (rule with_keys_ok [OF es2]) (use assms in \<open>auto simp: list_all_iff\<close>)
  ultimately have ok: "list_all entry_ok (es1 @ es2)" by simp
  show ?thesis using assms False es1 es2 ok by (auto simp: group_entries_def split: if_splits)
qed

lemma expand_ok: "placed_ok (ps, g) \<Longrightarrow> expand newKey g ps n = (es, n') \<Longrightarrow> list_all entry_ok es"
proof (induction ps arbitrary: es n n' rule: placed_groups.induct)
  case (3 i ps)
  obtain es1 n1 where one: "(case g i of None \<Rightarrow> ([], n) | Some grp \<Rightarrow> group_entries newKey grp n) = (es1, n1)" by fastforce
  obtain es2 n2 where two: "expand newKey g ps n1 = (es2, n2)" by fastforce
  have es1: "list_all entry_ok es1"
  proof (cases "g i")
    case None then show ?thesis using one by auto
  next
    case (Some grp)
    obtain ss ms where grp: "grp = (ss, ms)" by fastforce
    have "list_all (still_half i) ss" "list_all (motion_half i) ms" using 3(2) Some grp by (auto simp: placed_ok_def)
    then show ?thesis using one Some grp group_entries_ok by simp
  qed
  have "placed_ok (ps, g)" using 3(2) by (simp add: placed_ok_def)
  then have "list_all entry_ok es2" using 3(1) two by blast
  then show ?case using 3(3) one two es1 by auto
qed (auto simp: placed_ok_def split: prod.splits)

lemma grouping_ok: "groupIdentifiedFiles newKey files n = (es, n') \<Longrightarrow> list_all entry_ok es"
proof -
  assume grouped: "groupIdentifiedFiles newKey files n = (es, n')"
  obtain ps g n1 where placed: "place_files newKey files ([], \<lambda>_. None) n = ((ps, g), n1)" by (metis surj_pair)
  have "placed_ok ([], \<lambda>_. None)" by (simp add: placed_ok_def)
  then have "placed_ok (ps, g)" using placed by (rule place_files_ok)
  then show ?thesis using grouped placed expand_ok by (simp add: groupIdentifiedFiles_def)
qed

section \<open>Keys\<close>

lemma add_to_group_entries [simp]: "placed_entries (fst (add_to_group i ss ms (ps, g))) = placed_entries ps"
  by (cases "g i") (auto simp: add_to_group_def)

lemma place_file_keys:
  assumes "place_file newKey f st n = (st', n')"
  shows "n \<le> n' \<and> map entry_key (placed_entries (fst st')) = map entry_key (placed_entries (fst st)) @ map newKey [n..<n']"
proof -
  obtain ps g where st: "st = (ps, g)" by fastforce
  show ?thesis
  proof (cases f)
    case (IdStill s)
    show ?thesis
    proof (cases "stl_motionPhoto s = None \<and> \<not> stl_motionPhotoInvalid s \<and> stl_contentIdentifier s \<noteq> None")
      case True
      then obtain i where "st' = add_to_group i [s] [] (ps, g)" "n' = n" using assms st IdStill by auto
      then show ?thesis using st by simp
    next
      case False
      then show ?thesis using assms st IdStill by (auto split: if_splits option.splits)
    qed
  next
    case (IdMotion m)
    show ?thesis
    proof (cases "mot_contentIdentifier m")
      case (Some i)
      then have "st' = add_to_group i [] [m] (ps, g)" "n' = n" using assms st IdMotion by auto
      then show ?thesis using st by simp
    next
      case None
      then show ?thesis using assms st IdMotion by auto
    qed
  next
    case (IdUnsupported x r)
    then show ?thesis using assms st by auto
  qed
qed

lemma upt_split: "n \<le> n1 \<Longrightarrow> n1 \<le> n' \<Longrightarrow> [n..<n'] = [n..<n1] @ [n1..<n']"
  by (metis le_Suc_ex upt_add_eq_append)

lemma place_files_keys:
  "place_files newKey fs st n = (st', n') \<Longrightarrow>
    n \<le> n' \<and> map entry_key (placed_entries (fst st')) = map entry_key (placed_entries (fst st)) @ map newKey [n..<n']"
proof (induction fs arbitrary: st n)
  case (Cons f fs)
  obtain st1 n1 where st1: "place_file newKey f st n = (st1, n1)" by fastforce
  have rest: "n1 \<le> n' \<and> map entry_key (placed_entries (fst st')) = map entry_key (placed_entries (fst st1)) @ map newKey [n1..<n']"
    using Cons.IH [of st1 n1] Cons.prems st1 by simp
  then show ?case using place_file_keys [OF st1] upt_split [of n n1 n'] by simp
qed simp

lemma with_keys_keys:
  "with_keys newKey f xs n = (es, n') \<Longrightarrow> (\<And>k x. entry_key (f k x) = k) \<Longrightarrow> n \<le> n' \<and> map entry_key es = map newKey [n..<n']"
proof (induction xs arbitrary: es n)
  case (Cons x xs)
  obtain es1 where es1: "with_keys newKey f xs (n + 1) = (es1, n')" using Cons.prems(1) by (auto split: prod.splits)
  have "n + 1 \<le> n' \<and> map entry_key es1 = map newKey [n + 1..<n']" by (rule Cons.IH [OF es1 Cons.prems(2)])
  then show ?case using Cons.prems es1 by (auto simp: upt_conv_Cons)
qed simp

lemma group_entries_keys:
  assumes "group_entries newKey (ss, ms) n = (es, n')"
  shows "n \<le> n' \<and> map entry_key es = map newKey [n..<n']"
proof -
  obtain es1 n1 where es1: "with_keys newKey NeedsCounterpart ss n = (es1, n1)" by fastforce
  obtain es2 n2 where es2: "with_keys newKey NeedsStill ms n1 = (es2, n2)" by fastforce
  have k1: "n \<le> n1 \<and> map entry_key es1 = map newKey [n..<n1]" by (rule with_keys_keys [OF es1]) simp
  have k2: "n1 \<le> n2 \<and> map entry_key es2 = map newKey [n1..<n2]" by (rule with_keys_keys [OF es2]) simp
  show ?thesis using assms es1 es2 k1 k2 upt_split [of n n1 n2] by (auto simp: group_entries_def split: if_splits)
qed

lemma expand_keys:
  "expand newKey g ps n = (es, n') \<Longrightarrow>
    n \<le> n' \<and> mset (map entry_key es) = mset (map entry_key (placed_entries ps)) + mset (map newKey [n..<n'])"
proof (induction ps arbitrary: es n n' rule: placed_groups.induct)
  case (3 i ps)
  obtain es1 n1 where one: "(case g i of None \<Rightarrow> ([], n) | Some grp \<Rightarrow> group_entries newKey grp n) = (es1, n1)" by fastforce
  obtain es2 n2 where two: "expand newKey g ps n1 = (es2, n2)" by fastforce
  have k1: "n \<le> n1 \<and> map entry_key es1 = map newKey [n..<n1]"
  proof (cases "g i")
    case (Some grp)
    obtain ss ms where grp: "grp = (ss, ms)" by fastforce
    show ?thesis by (rule group_entries_keys [of newKey ss ms]) (use one Some grp in simp)
  qed (use one in auto)
  have k2: "n1 \<le> n' \<and> mset (map entry_key es2) = mset (map entry_key (placed_entries ps)) + mset (map newKey [n1..<n'])"
    using 3 one two by auto
  have "mset (map entry_key es) = mset (map entry_key es1) + mset (map entry_key es2)" using 3(2) one two by auto
  then show ?case using k1 k2 upt_split [of n n1 n'] by (simp add: ac_simps)
next
  case (2 e ps)
  then show ?case by (auto split: prod.splits)
qed simp

lemma grouping_keys:
  assumes "groupIdentifiedFiles newKey files n = (es, n')"
  shows "n \<le> n' \<and> mset (map entry_key es) = mset (map newKey [n..<n'])"
proof -
  obtain ps g n1 where placed: "place_files newKey files ([], \<lambda>_. None) n = ((ps, g), n1)" by (metis surj_pair)
  have one: "n \<le> n1 \<and> map entry_key (placed_entries ps) = map newKey [n..<n1]" using place_files_keys [OF placed] by simp
  have "expand newKey g ps n1 = (es, n')" using assms placed by (simp add: groupIdentifiedFiles_def)
  then have "n1 \<le> n' \<and> mset (map entry_key es) = mset (map newKey [n..<n1]) + mset (map newKey [n1..<n'])"
    using expand_keys one by metis
  then show ?thesis using one upt_split [of n n1 n'] by simp
qed

section \<open>Adding a later pick\<close>

lemma with_key_views [simp]:
  "entryFiles (with_key k e) = entryFiles e" "entry_ok (with_key k e) = entry_ok e" "entry_key (with_key k e) = k"
  "entryFiles (mark_pasted e) = entryFiles e" "entry_key (mark_pasted e) = entry_key e"
proof -
  show "entryFiles (with_key k e) = entryFiles e" by (cases e) auto
  show "entry_ok (with_key k e) = entry_ok e"
  proof (cases e)
    case (Ready k' src p) then show ?thesis by (cases src) auto
  qed auto
  show "entry_key (with_key k e) = k" by (cases e) auto
  show "entryFiles (mark_pasted e) = entryFiles e" by (cases e) auto
  show "entry_key (mark_pasted e) = entry_key e" by (cases e) auto
qed

lemma mark_pasted_ok [simp]: "entry_ok (mark_pasted e) = entry_ok e"
proof (cases e)
  case (Ready k src p) then show ?thesis by (cases src) auto
qed auto

lemma mark_if_pasted_views [simp]:
  "entryFiles (mark_if_pasted pasted e) = entryFiles e" "entry_key (mark_if_pasted pasted e) = entry_key e"
  "entry_ok (mark_if_pasted pasted e) = entry_ok e"
  by (simp_all add: mark_if_pasted_def)

lemma reuse_result:
  assumes "reuse m e fs used = (kept, used')"
  shows "entryFiles kept = entryFiles e \<and> entry_ok kept = entry_ok e \<and>
    (kept = e \<and> used' = used \<or> (\<exists>k. k \<in> ran m \<and> k \<notin> set used \<and> entry_key kept = k \<and> used' = used @ [k]))"
  using assms
proof (induction fs)
  case (Cons f fs)
  then show ?case by (cases "m f") (auto split: if_splits intro: ranI)
qed auto

definition keep_step :: "(file_ref \<Rightarrow> key option) \<Rightarrow> staged_entry \<Rightarrow> key list \<Rightarrow> staged_entry \<times> key list" where
  "keep_step m e used = (if keeps_new_key e then (e, used) else reuse m e (entryFiles e) used)"

lemma keep_step_result:
  assumes "keep_step m e used = (kept, used')"
  shows "entryFiles kept = entryFiles e \<and> entry_ok kept = entry_ok e \<and>
    (kept = e \<and> used' = used \<or> (\<exists>k. k \<in> ran m \<and> k \<notin> set used \<and> entry_key kept = k \<and> used' = used @ [k]))"
  using assms reuse_result [of m e "entryFiles e" used] by (auto simp: keep_step_def split: if_splits)

lemma regroup_step: "regroup m pasted (e # es) used =
    (let (kept, used) = keep_step m e used in mark_if_pasted pasted kept # regroup m pasted es used)"
  by (simp add: keep_step_def)

declare regroup.simps(2) [simp del]

lemma regroup_files: "entries_files (regroup m pasted es used) = entries_files es"
proof (induction es arbitrary: used)
  case (Cons e es)
  obtain kept used' where k: "keep_step m e used = (kept, used')" by fastforce
  show ?case using keep_step_result [OF k] Cons k by (simp add: regroup_step)
qed simp

lemma regroup_ok: "list_all entry_ok (regroup m pasted es used) = list_all entry_ok es"
proof (induction es arbitrary: used)
  case (Cons e es)
  obtain kept used' where k: "keep_step m e used = (kept, used')" by fastforce
  show ?case using keep_step_result [OF k] Cons k by (simp add: regroup_step)
qed simp

lemma regroup_keys:
  "distinct (map entry_key es) \<Longrightarrow> set (map entry_key es) \<inter> (ran m \<union> set used) = {} \<Longrightarrow>
    distinct (map entry_key (regroup m pasted es used)) \<and>
    set (map entry_key (regroup m pasted es used)) \<subseteq> set (map entry_key es) \<union> (ran m - set used)"
proof (induction es arbitrary: used)
  case (Cons e es)
  obtain kept used' where k: "keep_step m e used = (kept, used')" by fastforce
  have rest: "regroup m pasted (e # es) used = mark_if_pasted pasted kept # regroup m pasted es used'" using k by (simp add: regroup_step)
  have disj: "set (map entry_key es) \<inter> (ran m \<union> set used') = {}" "set used \<subseteq> set used'"
    using Cons.prems keep_step_result [OF k] by auto
  have IH: "distinct (map entry_key (regroup m pasted es used'))"
      "set (map entry_key (regroup m pasted es used')) \<subseteq> set (map entry_key es) \<union> (ran m - set used')"
    using Cons.IH [OF _ disj(1)] Cons.prems(1) by auto
  define new where "new = set (map entry_key (regroup m pasted es used'))"
  have new: "new \<subseteq> set (map entry_key es) \<union> (ran m - set used')" "distinct (map entry_key (regroup m pasted es used'))"
    using IH by (simp_all only: new_def)
  have e: "entry_key e \<notin> set (map entry_key es)" "entry_key e \<notin> ran m" using Cons.prems by auto
  have head: "entry_key kept \<notin> new \<and> entry_key kept \<in> insert (entry_key e) (ran m - set used)"
    using keep_step_result [OF k] new(1) e disj(1) by auto
  have keys: "map entry_key (regroup m pasted (e # es) used) = entry_key kept # map entry_key (regroup m pasted es used')"
    by (simp add: rest)
  have "new \<subseteq> set (map entry_key es) \<union> (ran m - set used)" using new(1) disj(2) by blast
  then show ?case using head new(2) unfolding keys new_def by auto
qed simp

lemma key_by_file_ran: "ran (key_by_file es m) \<subseteq> ran m \<union> entry_key ` set es"
proof (induction es m rule: key_by_file.induct)
  case (2 k s es m)
  have "ran (m(stl_file s \<mapsto> k)) \<subseteq> insert k (ran m)" by (auto simp: ran_def)
  then show ?case using 2 by (auto simp del: fun_upd_apply)
next
  case (3 k x es m)
  have "ran (m(mot_file x \<mapsto> k)) \<subseteq> insert k (ran m)" by (auto simp: ran_def)
  then show ?case using 3 by (auto simp del: fun_upd_apply)
qed auto

lemma halves_files: "entry_waits e \<Longrightarrow> map identified_file (entry_halves e) = entryFiles e"
  by (cases e) auto

text \<open>The invariant of a batch, with the number of keys drawn so far.\<close>

definition batch_ok :: "key_factory \<Rightarrow> nat \<Rightarrow> staging_batch \<Rightarrow> bool" where
  "batch_ok newKey n batch \<longleftrightarrow>
     list_all entry_ok (bat_entries batch) \<and> distinct (map entry_key (bat_entries batch)) \<and>
     distinct (staged_files batch) \<and> set (map entry_key (bat_entries batch)) \<subseteq> newKey ` {..<n}"

text \<open>The same with the uniqueness of files only where \<open>clean\<close> says so: it needs picks without repetition.\<close>

definition batch_inv :: "bool \<Rightarrow> key_factory \<Rightarrow> nat \<Rightarrow> staging_batch \<Rightarrow> bool" where
  "batch_inv clean newKey n batch \<longleftrightarrow>
     list_all entry_ok (bat_entries batch) \<and> distinct (map entry_key (bat_entries batch)) \<and>
     (clean \<longrightarrow> distinct (staged_files batch)) \<and> set (map entry_key (bat_entries batch)) \<subseteq> newKey ` {..<n}"

lemma batch_ok_inv: "batch_ok newKey n batch \<longleftrightarrow> batch_inv True newKey n batch"
  by (simp add: batch_ok_def batch_inv_def)

lemma batch_inv_mono: "batch_inv clean newKey n batch \<Longrightarrow> (clean' \<Longrightarrow> clean) \<Longrightarrow> batch_inv clean' newKey n batch"
  by (auto simp: batch_inv_def)

lemma staged_files_mset: "mset (staged_files batch) = entries_files (bat_entries batch)"
  by (simp add: staged_files_def entries_files_def)

lemma entries_files_filter:
  "entries_files es = entries_files (filter P es) + entries_files (filter (\<lambda>e. \<not> P e) es)"
  by (induction es) (auto simp: ac_simps)

lemma distinct_mset_sub:
  assumes sub: "mset xs \<subseteq># mset ys" and ys: "distinct ys"
  shows "distinct xs"
  unfolding distinct_count_atmost_1
proof
  fix a
  have "count (mset xs) a \<le> 1"
    using mset_subset_eq_count [OF sub, of a] ys [unfolded distinct_count_atmost_1, rule_format, of a] by (cases "a \<in> set ys"; simp only: if_True if_False)
  moreover have "a \<in> set xs \<Longrightarrow> 1 \<le> count (mset xs) a" "a \<notin> set xs \<Longrightarrow> count (mset xs) a = 0" by auto
  ultimately show "count (mset xs) a = (if a \<in> set xs then 1 else 0)" by (cases "a \<in> set xs") (simp_all add: le_antisym)
qed

lemma createStagingBatch_ok:
  assumes key: "inj newKey" and create: "createStagingBatch newKey files origin n = (batch, n')"
    and files: "clean \<Longrightarrow> distinct (map identified_file files)"
  shows "batch_inv clean newKey n' batch \<and> mset (staged_files batch) = mset (map identified_file files)"
proof -
  obtain es where es: "groupIdentifiedFiles newKey files n = (es, n')" "bat_entries batch = markPasted es origin"
    using create by (auto simp: createStagingBatch_def split: prod.splits)
  have views: "entries_files (markPasted es origin) = entries_files es" "list_all entry_ok (markPasted es origin) = list_all entry_ok es"
      "map entry_key (markPasted es origin) = map entry_key es"
    by (induction es) (auto simp: markPasted_def)
  have keys: "n \<le> n'" "mset (map entry_key es) = mset (map newKey [n..<n'])" using grouping_keys [OF es(1)] by auto
  have "distinct (map newKey [n..<n'])" using key by (simp add: distinct_map inj_on_def inj_def)
  then have "distinct (map entry_key es)" using keys(2) mset_eq_imp_distinct_iff by blast
  moreover have "set (map entry_key es) = newKey ` {n..<n'}" using mset_eq_setD [OF keys(2)] by simp
  moreover have "mset (staged_files batch) = mset (map identified_file files)"
    using grouping_files [OF es(1)] views es(2) by (simp add: staged_files_mset)
  moreover from this have "clean \<Longrightarrow> distinct (staged_files batch)" using files mset_eq_imp_distinct_iff by blast
  ultimately show ?thesis using grouping_ok [OF es(1)] views es(2) by (auto simp: batch_inv_def)
qed

lemma inj_keys_distinct: "inj newKey \<Longrightarrow> distinct (map newKey [n..<n'])"
  by (simp add: distinct_map inj_on_def inj_def)

lemma fresh_apart:
  fixes n :: nat
  shows "inj newKey \<Longrightarrow> newKey ` {n..<n'} \<inter> newKey ` {..<n} = {}"
  by (auto simp: inj_eq)

lemma adding_ok:
  assumes key: "inj newKey" and ok: "batch_inv clean newKey n batch" and files: "clean \<Longrightarrow> distinct (map identified_file files)"
    and add: "addToStagingBatch newKey (Some batch) files origin n = (batch', n')"
  shows "batch_inv clean newKey n' batch' \<and>
    mset (staged_files batch') = mset (staged_files batch) +
      mset (filter (\<lambda>f. f \<notin> set (staged_files batch)) (map identified_file files))"
proof -
  define incoming where "incoming = filter (\<lambda>f. identified_file f \<notin> set (staged_files batch)) files"
  define waiting where "waiting = filter entry_waits (bat_entries batch)"
  define kept where "kept = filter (\<lambda>e. \<not> entry_waits e) (bat_entries batch)"
  define m where "m = key_by_file waiting (\<lambda>_. None)"
  define pasted where "pasted = (if origin = Origin_paste then map identified_file incoming else [])"
  obtain es where es: "groupIdentifiedFiles newKey (concat (map entry_halves waiting) @ incoming) n = (es, n')"
      "bat_entries batch' = kept @ regroup m pasted es []"
    using add by (auto simp: addToStagingBatch_def Let_def incoming_def waiting_def kept_def m_def pasted_def split: prod.splits)
  have halves: "map identified_file (concat (map entry_halves waiting)) = concat (map entryFiles waiting)"
    using halves_files by (auto simp: map_concat waiting_def comp_def intro!: arg_cong [where f = concat] map_cong)
  have "entries_files es = mset (map identified_file (concat (map entry_halves waiting))) + mset (map identified_file incoming)"
    using grouping_files [OF es(1)] by simp
  then have es_files: "entries_files es = entries_files waiting + mset (map identified_file incoming)"
    unfolding halves by (simp add: entries_files_def)
  have split: "entries_files (bat_entries batch) = entries_files waiting + entries_files kept"
    unfolding waiting_def kept_def by (rule entries_files_filter)
  have total: "mset (staged_files batch') = mset (staged_files batch) + mset (map identified_file incoming)"
    unfolding staged_files_mset es(2) split by (simp add: regroup_files es_files ac_simps)
  have names: "map identified_file incoming = filter (\<lambda>f. f \<notin> set (staged_files batch)) (map identified_file files)"
    by (simp add: incoming_def filter_map comp_def)
  have "clean \<Longrightarrow> distinct (staged_files batch @ map identified_file incoming)"
    using ok files unfolding names by (auto simp: batch_inv_def)
  moreover have "mset (staged_files batch') = mset (staged_files batch @ map identified_file incoming)" using total by simp
  ultimately have distinct: "clean \<Longrightarrow> distinct (staged_files batch')" using mset_eq_imp_distinct_iff by blast
  have keys: "n \<le> n'" "mset (map entry_key es) = mset (map newKey [n..<n'])" using grouping_keys [OF es(1)] by auto
  have fresh: "distinct (map entry_key es)" "set (map entry_key es) = newKey ` {n..<n'}"
    using inj_keys_distinct [OF key] mset_eq_imp_distinct_iff [OF keys(2)] mset_eq_setD [OF keys(2)] by simp_all
  have old: "entry_key ` set (bat_entries batch) \<subseteq> newKey ` {..<n}" "distinct (map entry_key (bat_entries batch))"
    using ok by (auto simp: batch_inv_def)
  have ranm: "ran m \<subseteq> entry_key ` set waiting" using key_by_file_ran [of waiting "\<lambda>_. None"] by (auto simp: m_def)
  have apart: "newKey ` {n..<n'} \<inter> newKey ` {..<n} = {}" by (rule fresh_apart [OF key])
  have "set (map entry_key es) \<inter> (ran m \<union> set []) = {}"
    using ranm old(1) apart fresh(2) by (auto simp: waiting_def)
  then have regrouped: "distinct (map entry_key (regroup m pasted es []))"
      "set (map entry_key (regroup m pasted es [])) \<subseteq> set (map entry_key es) \<union> (ran m - set [])"
    using regroup_keys [OF fresh(1)] by blast+
  have kept_waiting: "entry_key ` set kept \<inter> entry_key ` set waiting = {}"
    using old(2) by (auto simp: kept_def waiting_def distinct_map inj_on_def)
  have kept_keys: "distinct (map entry_key kept)" "entry_key ` set kept \<subseteq> newKey ` {..<n}"
    using old by (auto simp: kept_def distinct_map inj_on_def)
  have part: "entry_key ` set kept \<inter> set (map entry_key (regroup m pasted es [])) = {}"
  proof -
    have "entry_key ` set kept \<inter> (newKey ` {n..<n'} \<union> ran m) = {}" using ranm kept_waiting kept_keys(2) apart by blast
    moreover have "set (map entry_key (regroup m pasted es [])) \<subseteq> newKey ` {n..<n'} \<union> ran m" using regrouped(2) fresh(2) by simp
    ultimately show ?thesis by blast
  qed
  have grow: "newKey ` {n..<n'} \<union> newKey ` {..<n} \<subseteq> newKey ` {..<n'}" using keys(1) by auto
  have "entry_key ` set waiting \<subseteq> newKey ` {..<n}" using old(1) by (auto simp: waiting_def)
  moreover have "set (map entry_key (regroup m pasted es [])) \<subseteq> newKey ` {n..<n'} \<union> ran m" using regrouped(2) fresh(2) by simp
  ultimately have "set (map entry_key (regroup m pasted es [])) \<subseteq> newKey ` {..<n'}"
    using ranm grow by (meson Un_least le_sup_iff order_trans)
  moreover have "entry_key ` set kept \<subseteq> newKey ` {..<n'}" using kept_keys(2) grow by (meson le_sup_iff order_trans)
  ultimately have "batch_inv clean newKey n' batch'"
    using ok distinct kept_keys(1) regrouped(1) part grouping_ok [OF es(1)]
    by (simp add: batch_inv_def es(2) regroup_ok) (auto simp: kept_def list_all_iff)
  then show ?thesis using total names by simp
qed

section \<open>The photos-only import\<close>

lemma static_entry_views [simp]:
  "entry_key (static_entry origin k f) = k" "entryFiles (static_entry origin k f) = [identified_file f]"
  "entry_ok (static_entry origin k f)"
  by (cases f; simp)+

lemma adding_static_ok:
  assumes key: "inj newKey" and files: "clean \<Longrightarrow> distinct (map identified_file files)"
    and ok: "case batch of None \<Rightarrow> True | Some b \<Rightarrow> batch_inv clean newKey n b"
    and add: "addStaticPhotosToStaging newKey batch files origin n = (batch', n')"
  shows "batch_inv clean newKey n' batch'"
proof -
  define old where "old = (case batch of None \<Rightarrow> [] | Some b \<Rightarrow> bat_entries b)"
  define incoming where "incoming = filter (\<lambda>f. identified_file f \<notin> set (concat (map entryFiles old))) files"
  obtain es where es: "with_keys newKey (static_entry origin) incoming n = (es, n')" "bat_entries batch' = old @ es"
    using add unfolding addStaticPhotosToStaging_def Let_def old_def [symmetric] incoming_def [symmetric] by (auto split: prod.splits)
  have old: "list_all entry_ok old" "distinct (map entry_key old)" "clean \<Longrightarrow> distinct (concat (map entryFiles old))"
      "set (map entry_key old) \<subseteq> newKey ` {..<n}"
    using ok by (auto simp: old_def batch_inv_def staged_files_def split: option.splits)
  have keys: "n \<le> n'" "map entry_key es = map newKey [n..<n']" using with_keys_keys [OF es(1)] by auto
  have "entries_files es = mset (map identified_file incoming)" by (rule with_keys_files [OF es(1)]) simp
  moreover have "clean \<Longrightarrow> distinct (map identified_file incoming)" using files by (simp add: incoming_def distinct_map inj_on_def)
  moreover have "set (map identified_file incoming) \<inter> set (concat (map entryFiles old)) = {}" by (auto simp: incoming_def)
  ultimately have "clean \<Longrightarrow> distinct (concat (map entryFiles old) @ concat (map entryFiles es))"
    using old(3) mset_eq_imp_distinct_iff mset_eq_setD unfolding entries_files_def by (metis distinct_append inf_commute)
  moreover have "list_all entry_ok es" by (rule with_keys_ok [OF es(1)]) simp
  moreover have "distinct (map entry_key (old @ es))"
  proof -
    have "newKey ` {n..<n'} \<inter> newKey ` {..<n} = {}" by (rule fresh_apart [OF key])
    then have "set (map entry_key old) \<inter> newKey ` {n..<n'} = {}" using old(4) by blast
    then show ?thesis using old(2) inj_keys_distinct [OF key, of n n'] by (simp only: map_append keys(2) distinct_append) simp
  qed
  moreover have "newKey ` {n..<n'} \<union> newKey ` {..<n} \<subseteq> newKey ` {..<n'}" using keys(1) by auto
  then have "set (map entry_key old) \<union> set (map entry_key es) \<subseteq> newKey ` {..<n'}"
    using old(4) unfolding keys(2) set_map set_upt by (meson le_sup_iff order_trans)
  ultimately show ?thesis using old(1) es(2) by (simp add: batch_inv_def staged_files_def)
qed

section \<open>Choices\<close>

lemma findEntry_Some: "findEntry batch k = Some e \<Longrightarrow> e \<in> set (bat_entries batch) \<and> entry_key e = k"
  by (auto simp: findEntry_def find_Some_iff)

lemma findEntry_split:
  assumes "findEntry batch k = Some e" "distinct (map entry_key (bat_entries batch))"
  obtains pre post where "bat_entries batch = pre @ e # post" "entry_key e = k"
    "\<And>es. bat_entries (replaceEntry batch k es) = pre @ es @ post" "k \<notin> entry_key ` set (pre @ post)"
proof -
  have e: "e \<in> set (bat_entries batch)" "entry_key e = k"
    using findEntry_Some [OF assms(1)] by auto
  then obtain pre post where split: "bat_entries batch = pre @ e # post" by (meson split_list)
  have other: "k \<notin> entry_key ` set (pre @ post)" using assms(2) split e(2) by auto
  have same: "concat (map (\<lambda>x. if entry_key x = k then es else [x]) xs) = xs" if "k \<notin> entry_key ` set xs" for es xs
    using that by (induction xs) auto
  have apart: "k \<notin> entry_key ` set pre" "k \<notin> entry_key ` set post" using other by auto
  have "bat_entries (replaceEntry batch k es) = pre @ es @ post" for es
    using e(2) by (simp add: replaceEntry_def split same [OF apart(1)] same [OF apart(2)])
  then show thesis using that split e(2) other by blast
qed

lemma replaceEntry_ok:
  assumes key: "inj newKey" and ok: "batch_inv clean newKey n batch" and found: "findEntry batch k = Some e" and n: "n \<le> n'"
    and es: "list_all entry_ok es" "distinct (map entry_key es)" "set (map entry_key es) \<subseteq> insert k (newKey ` {n..<n'})"
    and files: "entries_files es \<subseteq># mset (entryFiles e) + mset fs" "distinct fs" "clean \<Longrightarrow> set fs \<inter> set (staged_files batch) = {}"
  shows "batch_inv clean newKey n' (replaceEntry batch k es)"
proof -
  have keys: "distinct (map entry_key (bat_entries batch))" "set (map entry_key (bat_entries batch)) \<subseteq> newKey ` {..<n}"
    using ok by (auto simp: batch_inv_def)
  obtain pre post where split: "bat_entries batch = pre @ e # post" "entry_key e = k"
      "bat_entries (replaceEntry batch k es) = pre @ es @ post" "k \<notin> entry_key ` set (pre @ post)"
    using findEntry_split [OF found keys(1)] by metis
  have apart: "newKey ` {n..<n'} \<inter> newKey ` {..<n} = {}" by (rule fresh_apart [OF key])
  have es_other: "set (map entry_key es) \<inter> entry_key ` set (pre @ post) = {}"
    using es(3) keys(2) split(1,4) apart by (auto 0 4)
  have "distinct (map entry_key (pre @ es @ post))" using keys(1) split(1) es(2) es_other by auto
  moreover have "set (map entry_key (pre @ es @ post)) \<subseteq> newKey ` {..<n'}"
  proof -
    have grow: "newKey ` {n..<n'} \<subseteq> newKey ` {..<n'}" "newKey ` {..<n} \<subseteq> newKey ` {..<n'}" using n by auto
    have "k \<in> newKey ` {..<n}" using keys(2) split(1,2) by auto
    then have "insert k (newKey ` {n..<n'}) \<subseteq> newKey ` {..<n'}" using grow by (meson insert_subset subsetD)
    then have "set (map entry_key es) \<subseteq> newKey ` {..<n'}" using es(3) by (rule order_trans [rotated])
    moreover have "set (map entry_key (bat_entries batch)) \<subseteq> newKey ` {..<n'}" using keys(2) grow(2) by (rule order_trans)
    ultimately show ?thesis by (simp add: split(1))
  qed
  moreover have "distinct (staged_files (replaceEntry batch k es))" if clean
  proof -
    define rest where "rest = entries_files pre + entries_files post"
    have "mset (staged_files (replaceEntry batch k es)) = entries_files es + rest"
      by (simp add: staged_files_mset split(3) rest_def ac_simps)
    moreover have "mset (staged_files batch @ fs) = mset (entryFiles e) + mset fs + rest"
      by (simp add: staged_files_mset split(1) rest_def ac_simps)
    ultimately have sub: "mset (staged_files (replaceEntry batch k es)) \<subseteq># mset (staged_files batch @ fs)"
      using subset_mset.add_right_mono [OF files(1), of rest] by simp
    have "distinct (staged_files batch @ fs)" using ok files(2) files(3)[OF that] that by (auto simp: batch_inv_def)
    then show ?thesis by (rule distinct_mset_sub [OF sub])
  qed
  ultimately show ?thesis using ok es(1) split by (auto simp: batch_inv_def)
qed

lemma found_ok: "batch_inv clean newKey n batch \<Longrightarrow> findEntry batch k = Some e \<Longrightarrow> entry_ok e \<and> entry_key e = k \<and> set (entryFiles e) \<subseteq> set (staged_files batch)"
  by (drule findEntry_Some) (auto simp: batch_inv_def list_all_iff staged_files_def)

lemma removed_ok:
  assumes "inj newKey" "batch_inv clean newKey n batch" "removeStagedEntry batch k = Inr batch'"
  shows "batch_inv clean newKey n batch'"
proof -
  obtain e where "findEntry batch k = Some e" "batch' = replaceEntry batch k []"
    using assms(3) by (auto simp: removeStagedEntry_def split: option.splits)
  then show ?thesis using replaceEntry_ok [OF assms(1,2), of k e n "[]" "[]"] by simp
qed

lemma kept_as_photo_ok:
  assumes "inj newKey" "batch_inv clean newKey n batch" "keepStagedStillAsPhoto batch k = Inr batch'"
  shows "batch_inv clean newKey n batch'"
proof -
  obtain e s where e: "findEntry batch k = Some e" "batch' = replaceEntry batch k [Ready k (StaticSource (as_photo s)) False]"
      "entryFiles e = [stl_file s]"
    using assms(3) by (auto simp: keepStagedStillAsPhoto_def split: option.splits staged_entry.splits)
  then show ?thesis using replaceEntry_ok [OF assms(1,2) e(1), of n "[Ready k (StaticSource (as_photo s)) False]" "[]"]
    by (simp add: as_photo_def)
qed

lemma attached_ok:
  assumes "inj newKey" "batch_inv clean newKey n batch" "attachStagedCounterpart batch k counterpart = Inr batch'"
  shows "(\<exists>s m i. still_half i s \<and> motion_half i m \<and> batch' = replaceEntry batch k [Ready k (PairSource s m) False] \<and>
      (findEntry batch k = Some (NeedsCounterpart k s) \<and> counterpart = IdMotion m \<or>
       findEntry batch k = Some (NeedsStill k m) \<and> counterpart = IdStill s)) \<and>
    ((clean \<longrightarrow> identified_file counterpart \<notin> set (staged_files batch)) \<longrightarrow> batch_inv clean newKey n batch')"
proof -
  obtain e where e: "findEntry batch k = Some e" using assms(3) by (auto simp: attachStagedCounterpart_def split: option.splits)
  have ok: "entry_ok e" "entry_key e = k" using found_ok [OF assms(2) e] by auto
  obtain s m i where pair: "still_half i s" "motion_half i m" "batch' = replaceEntry batch k [Ready k (PairSource s m) False]"
      "e = NeedsCounterpart k s \<and> counterpart = IdMotion m \<or> e = NeedsStill k m \<and> counterpart = IdStill s"
    using assms(3) e ok
    by (auto simp: attachStagedCounterpart_def still_half_def motion_half_def split: staged_entry.splits identified.splits if_splits)
  have "batch_inv clean newKey n batch'" if fresh: "clean \<longrightarrow> identified_file counterpart \<notin> set (staged_files batch)"
    unfolding pair(3)
    by (rule replaceEntry_ok [OF assms(1,2) e, of n _ "[identified_file counterpart]"])
      (use pair fresh in \<open>auto simp: add_mset_commute\<close>)
  then show ?thesis using pair e by blast
qed

lemma drop_at_mset: "i < length xs \<Longrightarrow> add_mset (xs ! i) (mset (drop_at i xs)) = mset xs"
  by (metis drop_at_def id_take_nth_drop mset_append mset.simps(2) union_mset_add_mset_right)

lemma drop_at_set: "set (drop_at i xs) \<subseteq> set xs"
  by (auto simp: drop_at_def dest: in_set_takeD in_set_dropD)

lemma resolved_ok:
  assumes key: "inj newKey" and ok: "batch_inv clean newKey n batch"
    and resolve: "resolveStagedAmbiguity newKey batch k i j n = Inr (batch', n')"
  shows "batch_inv clean newKey n' batch' \<and> mset (staged_files batch') = mset (staged_files batch)"
proof -
  obtain k' ss ms where e: "findEntry batch k = Some (Ambiguous k' ss ms)" and ij: "i < length ss" "j < length ms"
    using resolve by (auto simp: resolveStagedAmbiguity_def split: option.splits staged_entry.splits if_splits)
  obtain es1 n1 where es1: "with_keys newKey NeedsCounterpart (drop_at i ss) n = (es1, n1)" by fastforce
  obtain es2 n2 where es2: "with_keys newKey NeedsStill (drop_at j ms) n1 = (es2, n2)" by fastforce
  define es where "es = Ready k (PairSource (ss ! i) (ms ! j)) False # es1 @ es2"
  have result: "batch' = replaceEntry batch k es" "n' = n2"
    using resolve e ij es1 es2 by (auto simp: resolveStagedAmbiguity_def es_def)
  have e_ok: "entry_ok (Ambiguous k' ss ms)" "k' = k" using found_ok [OF ok e] by auto
  obtain x where halves: "list_all (still_half x) ss" "list_all (motion_half x) ms" using e_ok(1) by auto
  have k1: "n \<le> n1 \<and> map entry_key es1 = map newKey [n..<n1]" by (rule with_keys_keys [OF es1]) simp
  have k2: "n1 \<le> n2 \<and> map entry_key es2 = map newKey [n1..<n2]" by (rule with_keys_keys [OF es2]) simp
  have "map entry_key es = k # map newKey [n..<n2]" using k1 k2 upt_split [of n n1 n2] by (simp add: es_def)
  moreover have "k \<notin> newKey ` {n..<n2}"
  proof -
    have "k \<in> newKey ` {..<n}" using findEntry_Some [OF e] ok by (auto simp: batch_inv_def)
    then show ?thesis using fresh_apart [OF key, of n n2] by blast
  qed
  ultimately have keys: "distinct (map entry_key es)" "set (map entry_key es) \<subseteq> insert k (newKey ` {n..<n2})"
    using inj_keys_distinct [OF key] by auto
  have "list_all entry_ok es1" by (rule with_keys_ok [OF es1]) (use halves drop_at_set in \<open>fastforce simp: list_all_iff\<close>)
  moreover have "list_all entry_ok es2" by (rule with_keys_ok [OF es2]) (use halves drop_at_set in \<open>fastforce simp: list_all_iff\<close>)
  moreover have "still_half x (ss ! i)" "motion_half x (ms ! j)" using halves ij by (auto simp: list_all_length)
  ultimately have entries: "list_all entry_ok es" by (auto simp: es_def)
  have f1: "entries_files es1 = mset (map stl_file (drop_at i ss))" by (rule with_keys_files [OF es1]) simp
  have f2: "entries_files es2 = mset (map mot_file (drop_at j ms))" by (rule with_keys_files [OF es2]) simp
  have s1: "mset (map stl_file ss) = add_mset (stl_file (ss ! i)) (mset (map stl_file (drop_at i ss)))"
    by (metis drop_at_mset [OF ij(1)] image_mset_add_mset mset_map)
  have s2: "mset (map mot_file ms) = add_mset (mot_file (ms ! j)) (mset (map mot_file (drop_at j ms)))"
    by (metis drop_at_mset [OF ij(2)] image_mset_add_mset mset_map)
  have files: "entries_files es = mset (entryFiles (Ambiguous k' ss ms))"
    unfolding es_def entries_files_simps entryFiles.simps source_files.simps mset_append s1 s2 f1 f2 mset.simps
    by (rule multiset_eqI) (simp only: count_union count_add_mset count_empty split: if_split, simp)
  have batch: "batch_inv clean newKey n' batch'"
    unfolding result by (rule replaceEntry_ok [OF key ok e, of _ _ "[]"]) (use k1 k2 keys entries files in auto)
  have "distinct (map entry_key (bat_entries batch))" using ok by (simp add: batch_inv_def)
  then obtain pre post where "bat_entries batch = pre @ Ambiguous k' ss ms # post" "bat_entries (replaceEntry batch k es) = pre @ es @ post"
    using findEntry_split [OF e] by metis
  then have "mset (staged_files batch') = mset (staged_files batch)"
    using files unfolding result(1) staged_files_mset by (simp add: ac_simps)
  then show ?thesis using batch by simp
qed

section \<open>Confirming\<close>

lemma count_loop_counts:
  "count_loop es r u x =
    (r + length (filter is_ready es), u + length (filter (\<lambda>e. \<not> is_ready e \<and> \<not> is_unsupported e) es), x + length (filter is_unsupported es))"
proof (induction es arbitrary: r u x)
  case (Cons e es)
  have "\<not> (is_ready e \<and> is_unsupported e)" by (cases e) auto
  then show ?case using Cons by auto
qed simp

fun ready_source :: "staged_entry \<Rightarrow> logical_source list" where
  "ready_source (Ready k src p) = [src]"
| "ready_source e = []"

lemma confirmed_views:
  "map cfm_key (concat (map (confirm_entry batch) es)) = map entry_key (filter is_ready es)"
  "map cfm_source (concat (map (confirm_entry batch) es)) = concat (map ready_source es)"
  "length (concat (map (confirm_entry batch) es)) = length (filter is_ready es)"
  "\<forall>c\<in>set (concat (map (confirm_entry batch) es)). cfm_qualityMode c = (if bat_original batch then Original else Standard) \<and>
     (cfm_notCameraOriginal c \<longleftrightarrow> cfm_clientSource c = Source_clipboard)"
proof (induction es)
  case (Cons e es)
  { case 1 then show ?case using Cons by (cases e) (auto simp: Let_def) }
  { case 2 then show ?case using Cons by (cases e) (auto simp: Let_def) }
  { case 3 then show ?case using Cons by (cases e) (auto simp: Let_def) }
  { case 4 then show ?case using Cons by (cases e) (auto simp: Let_def) }
qed auto

lemma ready_files: "entries_files (filter is_ready es) = mset (concat (map source_files (concat (map ready_source es))))"
proof (induction es)
  case (Cons e es)
  then show ?case by (cases e) simp_all
qed simp

lemma unsupported_not_ready: "is_unsupported e \<Longrightarrow> \<not> is_ready e"
  by (cases e) auto

lemma confirm_partition:
  "entries_files es = mset (concat (map source_files (concat (map ready_source es)))) +
    entries_files (filter (\<lambda>e. \<not> is_ready e \<and> \<not> is_unsupported e) es) + entries_files (filter is_unsupported es)"
proof -
  let ?rest = "filter (\<lambda>e. \<not> is_ready e) es"
  have "filter is_unsupported ?rest = filter is_unsupported es" using unsupported_not_ready by (auto intro: filter_cong)
  moreover have "filter (\<lambda>e. \<not> is_unsupported e) ?rest = filter (\<lambda>e. \<not> is_ready e \<and> \<not> is_unsupported e) es"
    by (simp add: conj_commute)
  ultimately have "entries_files ?rest = entries_files (filter is_unsupported es) +
      entries_files (filter (\<lambda>e. \<not> is_ready e \<and> \<not> is_unsupported e) es)"
    using entries_files_filter [of ?rest is_unsupported] by simp
  then show ?thesis using entries_files_filter [of es is_ready] ready_files [of es]
    by (simp only: add.assoc add.commute add.left_commute)
qed

lemma confirm_ok:
  assumes "batch_inv clean newKey n batch" "confirmStaging batch existing maxItems = Inr (confirmed, remaining)"
  shows "confirmed \<noteq> [] \<and> existing + length confirmed \<le> maxItems \<and>
    map cfm_key confirmed = map entry_key (filter is_ready (bat_entries batch)) \<and>
    (\<forall>c\<in>set confirmed. cfm_qualityMode c = (if bat_original batch then Original else Standard)) \<and>
    mset (staged_files batch) = mset (concat (map (source_files \<circ> cfm_source) confirmed)) +
      (case remaining of None \<Rightarrow> {#} | Some rest \<Rightarrow> mset (staged_files rest)) + entries_files (filter is_unsupported (bat_entries batch)) \<and>
    (case remaining of None \<Rightarrow> True | Some rest \<Rightarrow> batch_inv clean newKey n rest \<and> bat_original rest = False)"
proof -
  let ?es = "bat_entries batch"
  define waiting where "waiting = filter (\<lambda>e. \<not> is_ready e \<and> \<not> is_unsupported e) ?es"
  have counts: "cnt_ready (countStaging batch existing maxItems) = length (filter is_ready ?es)"
      "cnt_withinLimit (countStaging batch existing maxItems) = (existing + length (filter is_ready ?es) \<le> maxItems)"
    by (simp_all add: countStaging_def count_loop_counts Let_def)
  have fin: "length (filter is_ready ?es) \<noteq> 0" "existing + length (filter is_ready ?es) \<le> maxItems"
      "confirmed = concat (map (confirm_entry batch) ?es)"
      "remaining = (if waiting = [] then None else Some (batch\<lparr>bat_original := False, bat_entries := waiting\<rparr>))"
    using assms(2) by (auto simp: confirmStaging_def Let_def counts waiting_def split: if_splits)
  have rest: "(case remaining of None \<Rightarrow> {#} | Some rest \<Rightarrow> mset (staged_files rest)) = entries_files waiting"
    by (simp add: fin(4) staged_files_mset)
  have sources: "map (source_files \<circ> cfm_source) confirmed = map source_files (concat (map ready_source ?es))"
    using confirmed_views(2) [of batch ?es] by (metis fin(3) map_map)
  have files: "mset (staged_files batch) = mset (concat (map (source_files \<circ> cfm_source) confirmed)) + entries_files waiting +
      entries_files (filter is_unsupported ?es)"
    unfolding sources staged_files_mset waiting_def by (rule confirm_partition)
  have "distinct (concat (map entryFiles waiting))" if clean
  proof (rule distinct_mset_sub)
    have "entries_files waiting \<subseteq># mset (staged_files batch)" unfolding files
      by (rule subset_mset.order_trans [OF mset_subset_eq_add_right mset_subset_eq_add_left])
    then show "mset (concat (map entryFiles waiting)) \<subseteq># mset (staged_files batch)" by (simp only: entries_files_def)
    show "distinct (staged_files batch)" using assms(1) that by (simp add: batch_inv_def)
  qed
  then have kept: "case remaining of None \<Rightarrow> True | Some rest \<Rightarrow> batch_inv clean newKey n rest \<and> bat_original rest = False"
    using assms(1) by (auto simp: fin(4) batch_inv_def staged_files_def waiting_def list_all_iff distinct_map inj_on_def)
  have "length confirmed = length (filter is_ready ?es)" by (simp only: fin(3) confirmed_views(3))
  moreover have "confirmed \<noteq> []" using calculation fin(1) by auto
  moreover have "map cfm_key confirmed = map entry_key (filter is_ready ?es)" by (simp only: fin(3) confirmed_views(1))
  moreover have "\<forall>c\<in>set confirmed. cfm_qualityMode c = (if bat_original batch then Original else Standard)"
    using confirmed_views(4) [of batch ?es] unfolding fin(3) by blast
  ultimately show ?thesis using fin(2) files kept unfolding rest by simp
qed

section \<open>Every batch\<close>

text \<open>
  The batches an author can bring about, with the number of keys drawn and whether no pick so far listed a file twice and no
  attached counterpart was staged already.
\<close>

inductive staged :: "key_factory \<Rightarrow> nat \<Rightarrow> bool \<Rightarrow> staging_batch option \<Rightarrow> bool" for newKey where
  nothing_staged: "staged newKey n True None"
| added: "staged newKey n clean b \<Longrightarrow> addToStagingBatch newKey b files origin n = (b', n') \<Longrightarrow>
    staged newKey n' (clean \<and> distinct (map identified_file files)) (Some b')"
| added_static: "staged newKey n clean b \<Longrightarrow> addStaticPhotosToStaging newKey b files origin n = (b', n') \<Longrightarrow>
    staged newKey n' (clean \<and> distinct (map identified_file files)) (Some b')"
| quality: "staged newKey n clean (Some b) \<Longrightarrow> staged newKey n clean (Some (setBatchOriginal b original))"
| removed: "staged newKey n clean (Some b) \<Longrightarrow> removeStagedEntry b k = Inr b' \<Longrightarrow> staged newKey n clean (Some b')"
| kept_photo: "staged newKey n clean (Some b) \<Longrightarrow> keepStagedStillAsPhoto b k = Inr b' \<Longrightarrow> staged newKey n clean (Some b')"
| attached: "staged newKey n clean (Some b) \<Longrightarrow> attachStagedCounterpart b k c = Inr b' \<Longrightarrow>
    staged newKey n (clean \<and> identified_file c \<notin> set (staged_files b)) (Some b')"
| resolved: "staged newKey n clean (Some b) \<Longrightarrow> resolveStagedAmbiguity newKey b k i j n = Inr (b', n') \<Longrightarrow> staged newKey n' clean (Some b')"
| confirmed: "staged newKey n clean (Some b) \<Longrightarrow> confirmStaging b existing maxItems = Inr (c, b') \<Longrightarrow> staged newKey n clean b'"

lemma set_original_ok: "batch_inv clean newKey n b \<Longrightarrow> batch_inv clean newKey n (setBatchOriginal b original)"
  by (simp add: setBatchOriginal_def batch_inv_def staged_files_def)

lemma staged_ok:
  "staged newKey n clean b \<Longrightarrow> inj newKey \<Longrightarrow> case b of None \<Rightarrow> True | Some b \<Rightarrow> batch_inv clean newKey n b"
proof (induction rule: staged.induct)
  case (added n clean b files origin b' n')
  let ?clean = "clean \<and> distinct (map identified_file files)"
  show ?case
  proof (cases b)
    case None
    then have "createStagingBatch newKey files origin n = (b', n')" using added(2) by (simp add: addToStagingBatch_def)
    then show ?thesis using createStagingBatch_ok [OF added.prems, of _ _ _ _ _ ?clean] by simp
  next
    case (Some old)
    then have "batch_inv ?clean newKey n old" "addToStagingBatch newKey (Some old) files origin n = (b', n')"
      using added batch_inv_mono [of clean newKey n old ?clean] by auto
    then have "batch_inv ?clean newKey n' b'" using adding_ok [OF added.prems, of ?clean n old files] by blast
    then show ?thesis by simp
  qed
next
  case (added_static n clean b files origin b' n')
  let ?clean = "clean \<and> distinct (map identified_file files)"
  have "case b of None \<Rightarrow> True | Some b \<Rightarrow> batch_inv ?clean newKey n b"
    using added_static.IH added_static.prems batch_inv_mono [of clean newKey n _ ?clean] by (auto split: option.splits)
  then show ?case using adding_static_ok [OF added_static.prems _ _ added_static(2), of ?clean] by simp
next
  case (removed n clean b k b')
  then show ?case using removed_ok [OF removed.prems _ removed(2)] by simp
next
  case (kept_photo n clean b k b')
  then show ?case using kept_as_photo_ok [OF kept_photo.prems _ kept_photo(2)] by simp
next
  case (attached n clean b k c b')
  let ?clean = "clean \<and> identified_file c \<notin> set (staged_files b)"
  have "batch_inv ?clean newKey n b" using attached batch_inv_mono [of clean newKey n b ?clean] by auto
  then show ?case using attached_ok [OF attached.prems _ attached(2), of ?clean] by simp
next
  case (resolved n clean b k i j b' n')
  then have "batch_inv clean newKey n b" by simp
  then show ?case using resolved_ok [OF resolved.prems _ resolved(2)] by simp
next
  case (confirmed n clean b existing maxItems c b')
  then have "batch_inv clean newKey n b" by simp
  then show ?case using confirm_ok [OF _ confirmed(2)] by (cases b') simp_all
qed (auto simp: set_original_ok)

text \<open>C33: Whatever an author picks, resolves, removes, attaches and confirms, a batch gives no key twice and shows a Live pair
  only for a still and a motion that carry one content identifier; the halves that wait carry an identifier, an ambiguous group
  holds stills and motions of one identifier, and a container entry has its container. A file is staged twice only if some
  pick listed one file twice or a counterpart that was staged already was attached (\<open>clean\<close> says neither happened): the code
  checks neither.\<close>

theorem staged_batches_sound:
  assumes "inj newKey" "staged newKey n clean (Some batch)"
  shows "distinct (map entry_key (bat_entries batch)) \<and>
    (\<forall>k s m p. Ready k (PairSource s m) p \<in> set (bat_entries batch) \<longrightarrow>
      stl_contentIdentifier s \<noteq> None \<and> stl_contentIdentifier s = mot_contentIdentifier m) \<and>
    list_all entry_ok (bat_entries batch) \<and> (clean \<longrightarrow> distinct (staged_files batch))"
proof -
  have ok: "batch_inv clean newKey n batch" using staged_ok [OF assms(2,1)] by simp
  then have "entry_ok e" if "e \<in> set (bat_entries batch)" for e using that by (auto simp: batch_inv_def list_all_iff)
  then show ?thesis using ok by (fastforce simp: batch_inv_def still_half_def motion_half_def)
qed

text \<open>Adding a later pick loses no file and stages none twice: the staged files afterwards are exactly those staged before
  and the picked files that were not, each once; and the batch keeps its invariant, so halves chosen in separate picks
  pair by identifier, waiting entries keep their keys and no key is used twice.\<close>

theorem adding_conserves_files:
  assumes "inj newKey" "batch_ok newKey n batch" "distinct (map identified_file files)"
    "addToStagingBatch newKey (Some batch) files origin n = (batch', n')"
  shows "batch_ok newKey n' batch' \<and>
    mset (staged_files batch') = mset (staged_files batch) +
      mset (filter (\<lambda>f. f \<notin> set (staged_files batch)) (map identified_file files))"
  unfolding batch_ok_inv by (rule adding_ok [OF assms(1) assms(2) [unfolded batch_ok_inv] assms(3,4)])

text \<open>C34: Confirming takes every ready entry or refuses as a whole: when it succeeds the work stays within its limit, exactly the
  ready entries are confirmed, in order, under the batch's quality mode; every staged file is confirmed, still waiting or
  was unsupported, none twice; and what waits stays staged with the quality switch reset and the invariant kept.\<close>

theorem confirm_takes_ready:
  assumes "batch_ok newKey n batch" "confirmStaging batch existing maxItems = Inr (confirmed, remaining)"
  shows "confirmed \<noteq> [] \<and> existing + length confirmed \<le> maxItems \<and>
    map cfm_key confirmed = map entry_key (filter is_ready (bat_entries batch)) \<and>
    (\<forall>c\<in>set confirmed. cfm_qualityMode c = (if bat_original batch then Original else Standard)) \<and>
    mset (staged_files batch) = mset (concat (map (source_files \<circ> cfm_source) confirmed)) +
      (case remaining of None \<Rightarrow> {#} | Some rest \<Rightarrow> mset (staged_files rest)) + entries_files (filter is_unsupported (bat_entries batch)) \<and>
    (case remaining of None \<Rightarrow> True | Some rest \<Rightarrow> batch_ok newKey n rest \<and> bat_original rest = False)"
  using assms unfolding batch_ok_inv by (rule confirm_ok)

section \<open>A batch\<close>

definition sample_key :: "nat \<Rightarrow> key" where
  "sample_key n = [n]"

lemma sample_key_inj: "inj sample_key"
  by (simp add: sample_key_def inj_def)

definition sample_still :: "nat \<Rightarrow> still" where
  "sample_still f = \<lparr>stl_file = f, stl_type = Still_heic, stl_orientation = None, stl_contentIdentifier = Some (js ''A''),
     stl_appleMakerNote = True, stl_motionPhoto = None, stl_motionPhotoInvalid = False\<rparr>"

definition sample_motion :: "nat \<Rightarrow> motion" where
  "sample_motion f = \<lparr>mot_file = f, mot_type = Motion_quicktime, mot_contentIdentifier = Some (js ''A''), mot_audioTracks = 1, mot_stillTimeMs = None\<rparr>"

definition sample_batch :: staging_batch where
  "sample_batch = fst (addToStagingBatch sample_key None [IdStill (sample_still 1)] Origin_picker 0)"

definition sample_pair_batch :: staging_batch where
  "sample_pair_batch = fst (addToStagingBatch sample_key (Some sample_batch) [IdStill (sample_still 1), IdMotion (sample_motion 2)] Origin_drop 1)"

lemma sample_batch_entries: "bat_entries sample_batch = [NeedsCounterpart [0] (sample_still 1)]"
  by (simp add: sample_batch_def addToStagingBatch_def createStagingBatch_def groupIdentifiedFiles_def add_to_group_def group_entries_def
      markPasted_def sample_still_def sample_key_def Let_def)

lemma sample_batch_staged:
  "addToStagingBatch sample_key None [IdStill (sample_still 1)] Origin_picker 0 = (sample_batch, 1)"
  by (simp add: sample_batch_def addToStagingBatch_def createStagingBatch_def groupIdentifiedFiles_def add_to_group_def group_entries_def
      sample_still_def Let_def)

lemma sample_pair_entries:
  "bat_entries sample_pair_batch = [Ready [0] (PairSource (sample_still 1) (sample_motion 2)) False]"
  by (simp add: sample_pair_batch_def addToStagingBatch_def staged_files_def sample_batch_entries groupIdentifiedFiles_def add_to_group_def
      group_entries_def regroup_step keep_step_def mark_if_pasted_def sample_still_def sample_motion_def sample_key_def Let_def)

lemma sample_pair_staged:
  "addToStagingBatch sample_key (Some sample_batch) [IdStill (sample_still 1), IdMotion (sample_motion 2)] Origin_drop 1 = (sample_pair_batch, 2)"
  by (simp add: sample_pair_batch_def addToStagingBatch_def staged_files_def sample_batch_entries groupIdentifiedFiles_def add_to_group_def
      group_entries_def sample_still_def sample_motion_def Let_def)

lemma sample_reachable: "staged sample_key 1 True (Some sample_batch)" "staged sample_key 2 True (Some sample_pair_batch)"
proof -
  show one: "staged sample_key 1 True (Some sample_batch)"
    using staged.added [OF staged.nothing_staged sample_batch_staged] by simp
  show "staged sample_key 2 True (Some sample_pair_batch)"
    using staged.added [OF one sample_pair_staged] by (simp add: sample_still_def sample_motion_def)
qed

lemma staged_batches_sound_witness:
  "bat_entries sample_pair_batch = [Ready [0] (PairSource (sample_still 1) (sample_motion 2)) False] \<and>
   distinct (staged_files sample_pair_batch)"
  using staged_batches_sound [OF sample_key_inj sample_reachable(2)] sample_pair_entries by simp

lemma adding_conserves_files_witness:
  "mset (staged_files sample_pair_batch) = mset (staged_files sample_batch) + {#2#}"
proof -
  have "batch_ok sample_key 1 sample_batch" using staged_ok [OF sample_reachable(1) sample_key_inj] by (simp add: batch_ok_inv)
  then show ?thesis
    using adding_conserves_files [OF sample_key_inj _ _ sample_pair_staged]
    by (simp add: staged_files_def sample_batch_entries sample_still_def sample_motion_def)
qed

lemma confirm_takes_ready_witness:
  "\<exists>confirmed. confirmStaging sample_pair_batch 8 9 = Inr (confirmed, None) \<and> map cfm_key confirmed = [[0]]"
proof -
  have ok: "batch_ok sample_key 2 sample_pair_batch" using staged_ok [OF sample_reachable(2) sample_key_inj] by (simp add: batch_ok_inv)
  obtain c where c: "confirmStaging sample_pair_batch 8 9 = Inr (c, None)"
    by (simp add: confirmStaging_def countStaging_def sample_pair_entries Let_def)
  show ?thesis using confirm_takes_ready [OF ok c] c by (simp add: sample_pair_entries)
qed

end
