(* ===== verification/PublishingText.thy ===== *)
theory PublishingText
  imports Prelude
begin

text \<open>
  The counting rule for the text of a work (\<open>packages/contracts/src/work-publishing-text.ts\<close>), shared by the
  contracts, the Web counters and the Backend: line breaks, trimming, length in code points, and the issues of a
  title, a body and a whole work. A string is its UTF-16 code units; \<open>[...value]\<close> and a regular expression with the
  \<open>u\<close> flag see its code points.
\<close>

section \<open>Code points\<close>

definition high_surrogate :: "nat \<Rightarrow> bool" where
  "high_surrogate c \<longleftrightarrow> 0xD800 \<le> c \<and> c \<le> 0xDBFF"

definition low_surrogate :: "nat \<Rightarrow> bool" where
  "low_surrogate c \<longleftrightarrow> 0xDC00 \<le> c \<and> c \<le> 0xDFFF"

fun code_points :: "jstr \<Rightarrow> nat list" where
  "code_points [] = []"
| "code_points [c] = [c]"
| "code_points (c # d # cs) =
     (if high_surrogate c \<and> low_surrogate d then (0x10000 + (c - 0xD800) * 0x400 + (d - 0xDC00)) # code_points cs
      else c # code_points (d # cs))"

definition codePointLength :: "jstr \<Rightarrow> nat" where
  "codePointLength s = length (code_points s)"

definition hasInvalidPublishingCharacters :: "jstr \<Rightarrow> bool" where
  "hasInvalidPublishingCharacters s \<longleftrightarrow> 0 \<in> set s \<or> list_ex (\<lambda>c. 0xD800 \<le> c \<and> c \<le> 0xDFFF) (code_points s)"

section \<open>Normalisation\<close>

function normalizePublishingLineBreaks :: "jstr \<Rightarrow> jstr" where
  "normalizePublishingLineBreaks [] = []"
| "normalizePublishingLineBreaks (c # cs) =
     (if c = 13 then 10 # normalizePublishingLineBreaks (if cs \<noteq> [] \<and> hd cs = 10 then tl cs else cs)
      else c # normalizePublishingLineBreaks cs)"
  by pat_completeness auto
termination by (relation "measure length") (auto simp: le_diff_conv)

definition normalizePublishingTitle :: "jstr \<Rightarrow> jstr" where
  "normalizePublishingTitle s = jtrim (normalizePublishingLineBreaks s)"

definition normalizePublishingBody :: "jstr \<Rightarrow> jstr" where
  "normalizePublishingBody s = jtrim (normalizePublishingLineBreaks s)"

datatype text_issue = Invalid_characters | Line_break | Too_long

record text_rule =
  rul_maximum :: nat
  rul_singleLine :: bool
  rul_rawAllowance :: "nat option"

record text_check =
  chk_value :: jstr
  chk_length :: nat
  chk_issue :: "text_issue option"

definition checkPublishingText :: "jstr \<Rightarrow> text_rule \<Rightarrow> text_check" where
  "checkPublishingText raw rule =
     (let text = jtrim (normalizePublishingLineBreaks raw);
          len = codePointLength text;
          allowance = (case rul_rawAllowance rule of None \<Rightarrow> 0 | Some n \<Rightarrow> n) in
      \<lparr>chk_value = text, chk_length = len,
       chk_issue =
         (if hasInvalidPublishingCharacters raw then Some Invalid_characters
          else if len > rul_maximum rule \<or> codePointLength raw > rul_maximum rule + allowance then Some Too_long
          else if rul_singleLine rule \<and> 10 \<in> set text then Some Line_break
          else None)\<rparr>)"

definition WORK_TITLE_MAXIMUM :: nat where "WORK_TITLE_MAXIMUM = 200"
definition WORK_BODY_MAXIMUM :: nat where "WORK_BODY_MAXIMUM = 10000"
definition DRAFT_TEXT_RAW_ALLOWANCE :: nat where "DRAFT_TEXT_RAW_ALLOWANCE = 2000"
definition WORK_ITEMS_HARD_MAXIMUM :: nat where "WORK_ITEMS_HARD_MAXIMUM = 500"

definition publishingTitleRule :: text_rule where
  "publishingTitleRule = \<lparr>rul_maximum = WORK_TITLE_MAXIMUM, rul_singleLine = True, rul_rawAllowance = Some DRAFT_TEXT_RAW_ALLOWANCE\<rparr>"

definition publishingBodyRule :: text_rule where
  "publishingBodyRule = \<lparr>rul_maximum = WORK_BODY_MAXIMUM, rul_singleLine = False, rul_rawAllowance = Some DRAFT_TEXT_RAW_ALLOWANCE\<rparr>"

definition checkPublishingTitle :: "jstr \<Rightarrow> text_check" where
  "checkPublishingTitle raw = checkPublishingText raw publishingTitleRule"

definition checkPublishingBody :: "jstr \<Rightarrow> text_check" where
  "checkPublishingBody raw = checkPublishingText raw publishingBodyRule"

datatype content_issue = Empty_work | Title_too_long | Title_line_break | Body_too_long | Items_limit

definition publishingContentIssues :: "jstr \<Rightarrow> jstr \<Rightarrow> nat \<Rightarrow> nat \<Rightarrow> content_issue list" where
  "publishingContentIssues title_text body_text itemCount maxItems =
     (let title = checkPublishingTitle title_text; body = checkPublishingBody body_text in
      (if chk_length title = 0 \<and> chk_length body = 0 \<and> itemCount = 0 then [Empty_work] else []) @
      (if chk_issue title = Some Too_long then [Title_too_long] else []) @
      (if chk_issue title = Some Line_break then [Title_line_break] else []) @
      (if chk_issue body = Some Too_long then [Body_too_long] else []) @
      (if itemCount > maxItems \<or> itemCount > WORK_ITEMS_HARD_MAXIMUM then [Items_limit] else []))"

section \<open>Code points of normalised text\<close>

definition surrogate :: "nat \<Rightarrow> bool" where
  "surrogate c \<longleftrightarrow> 0xD800 \<le> c \<and> c \<le> 0xDFFF"

lemma code_points_cons: "\<not> high_surrogate c \<Longrightarrow> code_points (c # s) = c # code_points s"
  by (cases s) auto

lemma code_points_append: "\<not> surrogate c \<Longrightarrow> code_points (s @ c # t) = code_points s @ c # code_points t"
  by (induction s rule: code_points.induct)
    (auto simp: code_points_cons surrogate_def high_surrogate_def low_surrogate_def)

lemma code_points_length: "length (code_points s) \<le> length s"
  by (induction s rule: code_points.induct) auto

lemma code_points_Nil_iff [simp]: "code_points s = [] \<longleftrightarrow> s = []"
  by (cases s rule: code_points.cases) auto

lemma space_not_surrogate: "is_js_space c \<Longrightarrow> \<not> surrogate c"
  by (auto simp: is_js_space_def surrogate_def)

lemma code_points_spaces: "\<forall>c\<in>set t. is_js_space c \<Longrightarrow> code_points (s @ t) = code_points s @ t"
proof (induction t arbitrary: s)
  case (Cons c t)
  then have "code_points (s @ c # t) = code_points s @ c # code_points ([] @ t)" by (simp add: code_points_append space_not_surrogate)
  also have "code_points ([] @ t) = t" using Cons by (subst Cons.IH) auto
  finally show ?case .
qed simp

lemma code_points_spaces_front: "\<forall>c\<in>set t. is_js_space c \<Longrightarrow> code_points (t @ s) = t @ code_points s"
  by (induction t) (auto simp: code_points_cons high_surrogate_def is_js_space_def)

lemma trim_split:
  obtains a b where "s = a @ jtrim s @ b" "\<forall>c\<in>set a. is_js_space c" "\<forall>c\<in>set b. is_js_space c"
proof -
  let ?t = "dropWhile is_js_space s"
  have s: "s = takeWhile is_js_space s @ ?t" by simp
  have "rev ?t = takeWhile is_js_space (rev ?t) @ dropWhile is_js_space (rev ?t)" by simp
  then have t: "?t = jtrim s @ rev (takeWhile is_js_space (rev ?t))"
    unfolding jtrim_def by (metis rev_append rev_rev_ident)
  show thesis
    by (rule that [of "takeWhile is_js_space s" "rev (takeWhile is_js_space (rev ?t))"])
      (use s t in \<open>auto dest: set_takeWhileD\<close>)
qed

lemma code_points_trim:
  obtains a b where "code_points s = a @ code_points (jtrim s) @ b"
proof -
  obtain a b where s: "s = a @ jtrim s @ b" "\<forall>c\<in>set a. is_js_space c" "\<forall>c\<in>set b. is_js_space c" by (rule trim_split)
  have "code_points s = a @ code_points (jtrim s) @ b"
    by (subst s(1)) (simp add: code_points_spaces_front [OF s(2)] code_points_spaces [OF s(3)])
  then show thesis by (rule that)
qed

text \<open>Normalising line breaks works on code points as it does on code units.\<close>

lemma line_breaks_head: "normalizePublishingLineBreaks (d # ds) = (if d = 13 then 10 else d) # tl (normalizePublishingLineBreaks (d # ds))"
  by simp

lemma code_points_unpaired:
  "\<not> (high_surrogate c \<and> s \<noteq> [] \<and> low_surrogate (hd s)) \<Longrightarrow> code_points (c # s) = c # code_points s"
  by (cases s) auto

lemma code_points_line_breaks: "code_points (normalizePublishingLineBreaks s) = normalizePublishingLineBreaks (code_points s)"
proof (induction s rule: length_induct)
  case (1 s)
  show ?case
  proof (cases s)
    case (Cons c cs)
    have IH: "length t \<le> length cs \<Longrightarrow> code_points (normalizePublishingLineBreaks t) = normalizePublishingLineBreaks (code_points t)" for t
      using 1 Cons by simp
    show ?thesis
    proof (cases "c = 13")
      case True
      have "code_points s = 13 # code_points cs" using True Cons by (simp add: code_points_cons high_surrogate_def)
      moreover have "(code_points cs \<noteq> [] \<and> hd (code_points cs) = 10) = (cs \<noteq> [] \<and> hd cs = 10)"
        by (cases cs rule: code_points.cases) (auto simp: high_surrogate_def)
      moreover have "cs \<noteq> [] \<Longrightarrow> hd cs = 10 \<Longrightarrow> tl (code_points cs) = code_points (tl cs)"
        by (cases cs) (auto simp: code_points_cons high_surrogate_def)
      ultimately show ?thesis using True Cons IH [of cs] IH [of "tl cs"]
        by (auto simp: code_points_cons high_surrogate_def)
    next
      case False
      show ?thesis
      proof (cases "high_surrogate c \<and> cs \<noteq> [] \<and> low_surrogate (hd cs)")
        case True
        then obtain d ds where ds: "cs = d # ds" "low_surrogate d" "d \<noteq> 13" by (cases cs) (auto simp: low_surrogate_def)
        then show ?thesis using True False Cons IH [of ds] by simp
      next
        case unpaired: False
        have "\<not> (high_surrogate c \<and> normalizePublishingLineBreaks cs \<noteq> [] \<and> low_surrogate (hd (normalizePublishingLineBreaks cs)))"
          using unpaired by (cases cs) (auto simp: low_surrogate_def)
        then show ?thesis using unpaired False Cons IH [of cs] by (simp add: code_points_unpaired)
      qed
    qed
  qed simp
qed

lemma line_breaks_chars: "set (normalizePublishingLineBreaks s) \<subseteq> insert 10 (set s - {13})"
proof (induction s rule: length_induct)
  case (1 s)
  show ?case
  proof (cases s)
    case (Cons c cs)
    have IH: "set (normalizePublishingLineBreaks t) \<subseteq> insert 10 (set t - {13})" if "t = cs \<or> t = tl cs" for t
      using that Cons by (intro 1 [rule_format]) (auto simp: le_imp_less_Suc)
    define rest where "rest = (if cs \<noteq> [] \<and> hd cs = 10 then tl cs else cs)"
    have rest: "set (normalizePublishingLineBreaks rest) \<subseteq> insert 10 (set cs - {13})"
      using IH [of cs] IH [of "tl cs"] by (cases cs) (auto simp: rest_def simp del: normalizePublishingLineBreaks.simps)
    have "normalizePublishingLineBreaks s = (if c = 13 then 10 # normalizePublishingLineBreaks rest else c # normalizePublishingLineBreaks cs)"
      by (simp add: Cons rest_def)
    then show ?thesis using rest IH [of cs] Cons by auto
  qed simp
qed

lemma line_breaks_id: "13 \<notin> set s \<Longrightarrow> normalizePublishingLineBreaks s = s"
  by (induction s rule: normalizePublishingLineBreaks.induct) auto

lemma line_breaks_shorter: "length (normalizePublishingLineBreaks s) \<le> length s"
  by (induction s rule: normalizePublishingLineBreaks.induct) (auto split: if_splits)

text \<open>The normalised text has no more code points than the raw text, and no invalid one that was not there.\<close>

lemma normalised_points:
  obtains a b where "normalizePublishingLineBreaks (code_points raw) = a @ code_points (jtrim (normalizePublishingLineBreaks raw)) @ b"
  by (rule code_points_trim [of "normalizePublishingLineBreaks raw"]) (auto simp: code_points_line_breaks)

lemma normalised_length: "codePointLength (jtrim (normalizePublishingLineBreaks raw)) \<le> codePointLength raw"
proof (rule normalised_points [of raw])
  fix a b
  assume "normalizePublishingLineBreaks (code_points raw) = a @ code_points (jtrim (normalizePublishingLineBreaks raw)) @ b"
  then have "length (code_points (jtrim (normalizePublishingLineBreaks raw))) \<le> length (normalizePublishingLineBreaks (code_points raw))" by simp
  then show ?thesis using line_breaks_shorter [of "code_points raw"] by (simp add: codePointLength_def)
qed

lemma normalised_valid:
  assumes "\<not> hasInvalidPublishingCharacters raw"
  shows "\<not> hasInvalidPublishingCharacters (jtrim (normalizePublishingLineBreaks raw))"
proof (rule normalised_points [of raw])
  fix a b
  assume points: "normalizePublishingLineBreaks (code_points raw) = a @ code_points (jtrim (normalizePublishingLineBreaks raw)) @ b"
  have "set (code_points (jtrim (normalizePublishingLineBreaks raw))) \<subseteq> insert 10 (set (code_points raw))"
    using line_breaks_chars [of "code_points raw"] unfolding points by auto
  moreover have "set (jtrim (normalizePublishingLineBreaks raw)) \<subseteq> insert 10 (set raw)"
    using set_jtrim line_breaks_chars by fast
  ultimately show ?thesis using assms by (auto simp: hasInvalidPublishingCharacters_def list_ex_iff)
qed

section \<open>Accepted text\<close>

text \<open>Text that passes the rule is in normal form: the stored value has no carriage return, no NUL and no lone surrogate,
  neither end is white space, it is within the maximum of code points (and so a value within the older UTF-16 bound
  always is), a single-line value has no line break, and checking the stored value again accepts it and changes nothing.\<close>

theorem accepted_text_is_normal:
  assumes "chk_issue (checkPublishingText raw rule) = None"
  shows "let v = chk_value (checkPublishingText raw rule) in
    13 \<notin> set v \<and> \<not> hasInvalidPublishingCharacters v \<and> (v \<noteq> [] \<longrightarrow> \<not> is_js_space (hd v) \<and> \<not> is_js_space (last v)) \<and>
    codePointLength v \<le> rul_maximum rule \<and> (rul_singleLine rule \<longrightarrow> 10 \<notin> set v) \<and>
    checkPublishingText v rule = checkPublishingText raw rule"
proof -
  define v where "v = jtrim (normalizePublishingLineBreaks raw)"
  have valid: "\<not> hasInvalidPublishingCharacters raw" and len: "codePointLength v \<le> rul_maximum rule"
    and single: "rul_singleLine rule \<longrightarrow> 10 \<notin> set v"
    using assms by (auto simp: checkPublishingText_def Let_def v_def split: if_splits)
  have cr: "13 \<notin> set v" using set_jtrim [of "normalizePublishingLineBreaks raw"] line_breaks_chars [of raw] by (auto simp: v_def)
  have again: "jtrim (normalizePublishingLineBreaks v) = v" using line_breaks_id [OF cr] by (simp add: v_def jtrim_idem)
  have invalid: "\<not> hasInvalidPublishingCharacters v" unfolding v_def by (rule normalised_valid [OF valid])
  have "\<not> codePointLength raw > rul_maximum rule + (case rul_rawAllowance rule of None \<Rightarrow> 0 | Some n \<Rightarrow> n)"
    using assms unfolding checkPublishingText_def Let_def by (auto split: if_splits)
  then have "checkPublishingText v rule = checkPublishingText raw rule"
    using valid invalid len single again normalised_length [of v]
    unfolding checkPublishingText_def Let_def v_def [symmetric] by simp
  moreover have "chk_value (checkPublishingText raw rule) = v" by (simp add: checkPublishingText_def Let_def v_def)
  moreover have "v \<noteq> [] \<longrightarrow> \<not> is_js_space (hd v) \<and> \<not> is_js_space (last v)" using jtrim_edges by (simp add: v_def)
  ultimately show ?thesis using cr invalid len single by simp
qed

definition sample_title :: jstr where
  "sample_title = [32] @ js ''a'' @ [13, 10] @ js ''b'' @ [13]"

lemma accepted_text_is_normal_witness:
  "chk_value (checkPublishingText sample_title publishingBodyRule) = js ''a'' @ [10] @ js ''b'' \<and>
   checkPublishingText (js ''a'' @ [10] @ js ''b'') publishingBodyRule = checkPublishingText sample_title publishingBodyRule"
proof -
  have check: "chk_issue (checkPublishingText sample_title publishingBodyRule) = None"
      "chk_value (checkPublishingText sample_title publishingBodyRule) = js ''a'' @ [10] @ js ''b''"
    by (simp_all add: sample_title_def checkPublishingText_def Let_def jtrim_def is_js_space_def js_def codePointLength_def
        hasInvalidPublishingCharacters_def high_surrogate_def publishingBodyRule_def WORK_BODY_MAXIMUM_def DRAFT_TEXT_RAW_ALLOWANCE_def)
  show ?thesis using accepted_text_is_normal [OF check(1)] check(2) by (simp add: Let_def)
qed

text \<open>Content within the older UTF-16 bound stays valid.\<close>

lemma codePointLength_units: "codePointLength s \<le> length s"
  by (simp add: codePointLength_def code_points_length)

lemma older_bound_accepted:
  assumes "length raw \<le> rul_maximum rule" "\<not> hasInvalidPublishingCharacters raw" "\<not> rul_singleLine rule"
  shows "chk_issue (checkPublishingText raw rule) = None"
  using assms codePointLength_units [of raw] normalised_length [of raw]
  by (simp add: checkPublishingText_def Let_def not_less trans_le_add1)

end
