(* ===== verification/Sha256.thy ===== *)
theory Sha256
  imports MediaBytes
begin

unbundle bit_operations_syntax

text \<open>
  The browser's incremental SHA-256 (\<open>apps/web/features/publishing/sha256.ts\<close>): the class \<open>Sha256\<close> as a
  record, its block buffer with what earlier blocks left in it, and the operations \<open>update\<close>, \<open>digestHex\<close> and
  \<open>compress\<close>. A \<open>Uint32Array\<close> entry is a 32-bit word: the shifts and bitwise operators of the source work modulo
  2^32 whatever the sign of their intermediate results, and every sum is exact before it is cut to 32 bits. Streaming a
  Blob is the list of its chunks; the abort signal and the progress callback are left out.
\<close>

text \<open>The round constants, by the rows of the source.\<close>

definition K :: "32 word list" where
  "K = concat [
    [0x428a2f98, 0x71374491, 0xb5c0fbcf, 0xe9b5dba5, 0x3956c25b, 0x59f111f1],
    [0x923f82a4, 0xab1c5ed5, 0xd807aa98, 0x12835b01, 0x243185be, 0x550c7dc3],
    [0x72be5d74, 0x80deb1fe, 0x9bdc06a7, 0xc19bf174, 0xe49b69c1, 0xefbe4786],
    [0x0fc19dc6, 0x240ca1cc, 0x2de92c6f, 0x4a7484aa, 0x5cb0a9dc, 0x76f988da],
    [0x983e5152, 0xa831c66d, 0xb00327c8, 0xbf597fc7, 0xc6e00bf3, 0xd5a79147],
    [0x06ca6351, 0x14292967, 0x27b70a85, 0x2e1b2138, 0x4d2c6dfc, 0x53380d13],
    [0x650a7354, 0x766a0abb, 0x81c2c92e, 0x92722c85, 0xa2bfe8a1, 0xa81a664b],
    [0xc24b8b70, 0xc76c51a3, 0xd192e819, 0xd6990624, 0xf40e3585, 0x106aa070],
    [0x19a4c116, 0x1e376c08, 0x2748774c, 0x34b0bcb5, 0x391c0cb3, 0x4ed8aa4a],
    [0x5b9cca4f, 0x682e6ff3, 0x748f82ee, 0x78a5636f, 0x84c87814, 0x8cc70208],
    [0x90befffa, 0xa4506ceb, 0xbef9a3f7, 0xc67178f2]]"

definition INITIAL :: "32 word list" where
  "INITIAL = [0x6a09e667, 0xbb67ae85, 0x3c6ef372, 0xa54ff53a, 0x510e527f, 0x9b05688c, 0x1f83d9ab, 0x5be0cd19]"

record sha256 =
  sha_state :: "32 word list"
  sha_block :: "byte list"
  sha_blockLength :: nat
  sha_totalBytes :: nat
  sha_finished :: bool

definition new_sha256 :: sha256 where
  "new_sha256 = \<lparr>sha_state = INITIAL, sha_block = replicate 64 0, sha_blockLength = 0, sha_totalBytes = 0, sha_finished = False\<rparr>"

section \<open>Compression\<close>

text \<open>The word read at a byte position, and the message schedule.\<close>

definition load_word :: "byte list \<Rightarrow> nat \<Rightarrow> 32 word" where
  "load_word data at =
     push_bit 24 (ucast (data ! at)) OR push_bit 16 (ucast (data ! (at + 1))) OR push_bit 8 (ucast (data ! (at + 2))) OR ucast (data ! (at + 3))"

definition sigma0 :: "32 word \<Rightarrow> 32 word" where
  "sigma0 a = (drop_bit 7 a OR push_bit 25 a) XOR (drop_bit 18 a OR push_bit 14 a) XOR drop_bit 3 a"

definition sigma1 :: "32 word \<Rightarrow> 32 word" where
  "sigma1 b = (drop_bit 17 b OR push_bit 15 b) XOR (drop_bit 19 b OR push_bit 13 b) XOR drop_bit 10 b"

text \<open>The loop from 16 to 64; \<open>w\<close> holds the entries written so far.\<close>

fun schedule_words :: "nat \<Rightarrow> 32 word list \<Rightarrow> 32 word list" where
  "schedule_words 0 w = w"
| "schedule_words (Suc n) w =
     (let index = length w in
      schedule_words n (w @ [w ! (index - 16) + sigma0 (w ! (index - 15)) + w ! (index - 7) + sigma1 (w ! (index - 2))]))"

definition message_words :: "byte list \<Rightarrow> nat \<Rightarrow> 32 word list" where
  "message_words data at = schedule_words 48 (map (\<lambda>index. load_word data (at + index * 4)) [0..<16])"

type_synonym registers = "32 word \<times> 32 word \<times> 32 word \<times> 32 word \<times> 32 word \<times> 32 word \<times> 32 word \<times> 32 word"

text \<open>One turn of the second loop.\<close>

fun sha_round :: "32 word \<Rightarrow> 32 word \<Rightarrow> registers \<Rightarrow> registers" where
  "sha_round k w (a, b, c, d, e, f, g, h) =
     (let t1 = h + ((drop_bit 6 e OR push_bit 26 e) XOR (drop_bit 11 e OR push_bit 21 e) XOR (drop_bit 25 e OR push_bit 7 e)) +
            ((e AND f) XOR (NOT e AND g)) + k + w;
          t2 = ((drop_bit 2 a OR push_bit 30 a) XOR (drop_bit 13 a OR push_bit 19 a) XOR (drop_bit 22 a OR push_bit 10 a)) +
            ((a AND b) XOR (a AND c) XOR (b AND c)) in
      (t1 + t2, a, b, c, d + t1, e, f, g))"

fun rounds :: "32 word list \<Rightarrow> 32 word list \<Rightarrow> registers \<Rightarrow> registers" where
  "rounds (k # ks) (w # ws) r = rounds ks ws (sha_round k w r)"
| "rounds ks ws r = r"

definition compress :: "32 word list \<Rightarrow> byte list \<Rightarrow> nat \<Rightarrow> 32 word list" where
  "compress s data at =
     (let (a, b, c, d, e, f, g, h) = rounds K (message_words data at) (s ! 0, s ! 1, s ! 2, s ! 3, s ! 4, s ! 5, s ! 6, s ! 7) in
      [s ! 0 + a, s ! 1 + b, s ! 2 + c, s ! 3 + d, s ! 4 + e, s ! 5 + f, s ! 6 + g, s ! 7 + h])"

section \<open>Absorbing\<close>

text \<open>\<open>Uint8Array.prototype.set\<close>.\<close>

definition block_set :: "byte list \<Rightarrow> byte list \<Rightarrow> nat \<Rightarrow> byte list" where
  "block_set block data at = take at block @ data @ drop (at + length data) block"

text \<open>The loop over whole blocks of the data.\<close>

function absorb_loop :: "32 word list \<Rightarrow> byte list \<Rightarrow> nat \<Rightarrow> 32 word list \<times> nat" where
  "absorb_loop s data off = (if off + 64 \<le> length data then absorb_loop (compress s data off) data (off + 64) else (s, off))"
  by pat_completeness auto
termination by (relation "measure (\<lambda>(s, data, off). length data - off)") auto

declare absorb_loop.simps [simp del]

datatype sha_error = Already_finished

text \<open>What \<open>update\<close> does first when bytes are buffered: the offset it continues from.\<close>

definition fill_block :: "sha256 \<Rightarrow> byte list \<Rightarrow> sha256 \<times> nat" where
  "fill_block h data =
     (if sha_blockLength h > 0 then
        (let taken = min (64 - sha_blockLength h) (length data);
             h = h\<lparr>sha_block := block_set (sha_block h) (take taken data) (sha_blockLength h),
               sha_blockLength := sha_blockLength h + taken\<rparr> in
         (if sha_blockLength h = 64 then h\<lparr>sha_state := compress (sha_state h) (sha_block h) 0, sha_blockLength := 0\<rparr> else h, taken))
      else (h, 0))"

definition sha_update :: "sha256 \<Rightarrow> byte list \<Rightarrow> sha_error + sha256" where
  "sha_update h data =
     (if sha_finished h then Inl Already_finished
      else
        (let (h, off) = fill_block (h\<lparr>sha_totalBytes := sha_totalBytes h + length data\<rparr>) data;
             (s, off) = absorb_loop (sha_state h) data off;
             h = h\<lparr>sha_state := s\<rparr> in
         Inr (if off < length data
              then h\<lparr>sha_block := block_set (sha_block h) (drop off data) 0, sha_blockLength := length data - off\<rparr>
              else h)))"

section \<open>The digest\<close>

definition hex_digit :: "nat \<Rightarrow> nat" where
  "hex_digit n = (if n < 10 then 48 + n else 87 + n)"

text \<open>\<open>toString(16)\<close> and \<open>padStart\<close>.\<close>

fun nat_hex :: "nat \<Rightarrow> jstr" where
  "nat_hex n = (if n < 16 then [hex_digit n] else nat_hex (n div 16) @ [hex_digit (n mod 16)])"

declare nat_hex.simps [simp del]

definition padStart :: "jstr \<Rightarrow> nat \<Rightarrow> nat \<Rightarrow> jstr" where
  "padStart s n c = replicate (n - length s) c @ s"

definition word_bytes :: "nat \<Rightarrow> byte list" where
  "word_bytes n = map (\<lambda>i. word_of_nat (n div 256 ^ (3 - i))) [0..<4]"

text \<open>The padding with the bit length: \<open>setUint32\<close> writes its argument modulo 2^32, big endian.\<close>

definition sha_padding :: "sha256 \<Rightarrow> byte list" where
  "sha_padding h =
     (let size = (if sha_blockLength h < 56 then 64 - sha_blockLength h else 128 - sha_blockLength h);
          bits = sha_totalBytes h * 8 in
      block_set (block_set (block_set (replicate size 0) [0x80] 0) (word_bytes (bits div 2 ^ 32)) (size - 8))
        (word_bytes (bits mod 2 ^ 32)) (size - 4))"

definition digestHex :: "sha256 \<Rightarrow> sha_error + (jstr \<times> sha256)" where
  "digestHex h =
     (if sha_finished h then Inl Already_finished
      else
        (case sha_update h (sha_padding h) of
           Inl err \<Rightarrow> Inl err
         | Inr h' \<Rightarrow>
             Inr (concat (map (\<lambda>w. padStart (nat_hex (unat w)) 8 48) (sha_state h')),
               h'\<lparr>sha_totalBytes := sha_totalBytes h, sha_finished := True\<rparr>)))"

fun update_all :: "sha256 \<Rightarrow> byte list list \<Rightarrow> sha_error + sha256" where
  "update_all h [] = Inr h"
| "update_all h (c # cs) = rbind (sha_update h c) (\<lambda>h. update_all h cs)"

definition sha256Hex :: "byte list \<Rightarrow> sha_error + jstr" where
  "sha256Hex data = rbind (sha_update new_sha256 data) (\<lambda>h. rbind (digestHex h) (\<lambda>(hex, _). Inr hex))"

definition HASH_CHUNK_BYTES :: nat where "HASH_CHUNK_BYTES = 4 * 1024 * 1024"

text \<open>The chunks a Blob is read in.\<close>

function blob_chunks :: "nat \<Rightarrow> byte list \<Rightarrow> byte list list" where
  "blob_chunks n blob = (if blob = [] \<or> n = 0 then [] else take n blob # blob_chunks n (drop n blob))"
  by pat_completeness auto
termination by (relation "measure (\<lambda>(n, blob). length blob)") auto

declare blob_chunks.simps [simp del]

definition sha256HexOfBlob :: "byte list \<Rightarrow> sha_error + jstr" where
  "sha256HexOfBlob blob =
     rbind (update_all new_sha256 (blob_chunks HASH_CHUNK_BYTES blob)) (\<lambda>h. rbind (digestHex h) (\<lambda>(hex, _). Inr hex))"

end
