(* ===== verification/Sha256Spec.thy ===== *)
theory Sha256Spec
  imports Sha256
begin

unbundle bit_operations_syntax

text \<open>
  SHA-256 as FIPS 180-4 defines it (word rotations, the recursive message schedule, the round as a function of the round
  number, one padded message cut into blocks), and the proof that the incremental class computes it however its input is
  cut into chunks.
\<close>

section \<open>The standard\<close>

definition ch :: "32 word \<Rightarrow> 32 word \<Rightarrow> 32 word \<Rightarrow> 32 word" where
  "ch x y z = (x AND y) XOR (NOT x AND z)"

definition maj :: "32 word \<Rightarrow> 32 word \<Rightarrow> 32 word \<Rightarrow> 32 word" where
  "maj x y z = (x AND y) XOR (x AND z) XOR (y AND z)"

definition Sigma0 :: "32 word \<Rightarrow> 32 word" where
  "Sigma0 x = word_rotr 2 x XOR word_rotr 13 x XOR word_rotr 22 x"

definition Sigma1 :: "32 word \<Rightarrow> 32 word" where
  "Sigma1 x = word_rotr 6 x XOR word_rotr 11 x XOR word_rotr 25 x"

definition fips_sigma0 :: "32 word \<Rightarrow> 32 word" where
  "fips_sigma0 x = word_rotr 7 x XOR word_rotr 18 x XOR drop_bit 3 x"

definition fips_sigma1 :: "32 word \<Rightarrow> 32 word" where
  "fips_sigma1 x = word_rotr 17 x XOR word_rotr 19 x XOR drop_bit 10 x"

text \<open>A block of 64 bytes as big-endian words, and the message schedule.\<close>

definition block_word :: "byte list \<Rightarrow> nat \<Rightarrow> 32 word" where
  "block_word block t =
     word_of_nat (unat (block ! (4 * t)) * 2 ^ 24 + unat (block ! (4 * t + 1)) * 2 ^ 16 + unat (block ! (4 * t + 2)) * 2 ^ 8 + unat (block ! (4 * t + 3)))"

fun fips_w :: "byte list \<Rightarrow> nat \<Rightarrow> 32 word" where
  "fips_w block t =
     (if t < 16 then block_word block t
      else fips_sigma1 (fips_w block (t - 2)) + fips_w block (t - 7) + fips_sigma0 (fips_w block (t - 15)) + fips_w block (t - 16))"

declare fips_w.simps [simp del]

fun fips_round :: "32 word \<Rightarrow> 32 word \<Rightarrow> registers \<Rightarrow> registers" where
  "fips_round k w (a, b, c, d, e, f, g, h) =
     (let T1 = h + Sigma1 e + ch e f g + k + w; T2 = Sigma0 a + maj a b c in (T1 + T2, a, b, c, d + T1, e, f, g))"

primrec fips_rounds :: "byte list \<Rightarrow> nat \<Rightarrow> registers \<Rightarrow> registers" where
  "fips_rounds block 0 r = r"
| "fips_rounds block (Suc t) r = fips_round (K ! t) (fips_w block t) (fips_rounds block t r)"

definition fips_block :: "32 word list \<Rightarrow> byte list \<Rightarrow> 32 word list" where
  "fips_block H block =
     (let (a, b, c, d, e, f, g, h) = fips_rounds block 64 (H ! 0, H ! 1, H ! 2, H ! 3, H ! 4, H ! 5, H ! 6, H ! 7) in
      [H ! 0 + a, H ! 1 + b, H ! 2 + c, H ! 3 + d, H ! 4 + e, H ! 5 + f, H ! 6 + g, H ! 7 + h])"

text \<open>The blocks of a text; a remainder of less than a block is left.\<close>

function fips_blocks :: "32 word list \<Rightarrow> byte list \<Rightarrow> 32 word list" where
  "fips_blocks H text = (if length text < 64 then H else fips_blocks (fips_block H (take 64 text)) (drop 64 text))"
  by pat_completeness auto
termination by (relation "measure (\<lambda>(H, text). length text)") auto

declare fips_blocks.simps [simp del]

text \<open>The message, a one bit, the least number of zero bits, and the length of the message in bits as 64 bits.\<close>

definition fips_pad :: "byte list \<Rightarrow> byte list" where
  "fips_pad msg =
     msg @ [0x80] @ replicate (nat ((55 - int (length msg)) mod 64)) 0 @
     map (\<lambda>i. word_of_nat (8 * length msg div 256 ^ (7 - i))) [0..<8]"

definition word_hex :: "32 word \<Rightarrow> jstr" where
  "word_hex w = map (\<lambda>i. hex_digit (unat w div 16 ^ (7 - i) mod 16)) [0..<8]"

definition fips_sha256 :: "byte list \<Rightarrow> jstr" where
  "fips_sha256 msg = concat (map word_hex (fips_blocks INITIAL (fips_pad msg)))"

section \<open>Compression\<close>

lemma rotate_32:
  assumes "0 < n" "n < 32"
  shows "drop_bit n x OR push_bit (32 - n) x = word_rotr n (x :: 32 word)"
proof (rule bit_word_eqI)
  fix m
  assume "m < LENGTH(32)"
  then have m: "m < 32" by simp
  show "bit (drop_bit n x OR push_bit (32 - n) x) m = bit (word_rotr n x) m"
  proof (cases "m + n < 32")
    case True
    moreover have "\<not> 32 - n \<le> m" using True assms by simp
    ultimately show ?thesis using m assms by (simp add: bit_or_iff bit_drop_bit_eq bit_push_bit_iff bit_word_rotr_iff add.commute)
  next
    case False
    then have "\<not> bit x (m + n)" by (auto dest: bit_imp_le_length)
    moreover have "(m + n) mod 32 = m - (32 - n)" "32 - n \<le> m" using False m assms by (simp_all add: mod_if)
    ultimately show ?thesis using False m assms
      by (simp add: bit_or_iff bit_drop_bit_eq bit_push_bit_iff bit_word_rotr_iff add.commute)
  qed
qed

lemma sigma_rotations:
  "sigma0 x = fips_sigma0 x" "sigma1 x = fips_sigma1 x"
  "(drop_bit 6 x OR push_bit 26 x) XOR (drop_bit 11 x OR push_bit 21 x) XOR (drop_bit 25 x OR push_bit 7 x) = Sigma1 x"
  "(drop_bit 2 x OR push_bit 30 x) XOR (drop_bit 13 x OR push_bit 19 x) XOR (drop_bit 22 x OR push_bit 10 x) = Sigma0 x"
  using rotate_32 [of 7 x] rotate_32 [of 18 x] rotate_32 [of 17 x] rotate_32 [of 19 x] rotate_32 [of 6 x] rotate_32 [of 11 x]
    rotate_32 [of 25 x] rotate_32 [of 2 x] rotate_32 [of 13 x] rotate_32 [of 22 x]
  by (simp_all add: sigma0_def sigma1_def fips_sigma0_def fips_sigma1_def Sigma0_def Sigma1_def)

lemma sha_round_fips: "sha_round k w r = fips_round k w r"
proof -
  obtain a b c d e f g h where r: "r = (a, b, c, d, e, f, g, h)" by (metis surj_pair)
  show ?thesis unfolding r sha_round.simps fips_round.simps sigma_rotations(3,4) ch_def maj_def ..
qed

text \<open>Four bytes as one word.\<close>

lemma bytes_word:
  fixes a b c d :: byte
  shows "push_bit 24 (ucast a) OR push_bit 16 (ucast b) OR push_bit 8 (ucast c) OR ucast d =
    (word_of_nat (unat a * 2 ^ 24 + unat b * 2 ^ 16 + unat c * 2 ^ 8 + unat d) :: 32 word)"
proof -
  have split: "push_bit 8 x OR ucast y = push_bit 8 x + (ucast y :: 32 word)" for x :: "32 word" and y :: byte
  proof (rule disjunctive_add [symmetric])
    fix n
    show "\<not> bit (push_bit 8 x) n \<or> \<not> bit (ucast y :: 32 word) n"
      by (auto simp: bit_push_bit_iff bit_ucast_iff dest: bit_imp_le_length)
  qed
  have "push_bit 24 (ucast a) OR push_bit 16 (ucast b) OR push_bit 8 (ucast c) OR ucast d =
      (push_bit 8 (push_bit 8 (push_bit 8 (ucast a) OR ucast b) OR ucast c) OR ucast d :: 32 word)"
    by (simp add: push_bit_push_bit or.assoc)
  also have "\<dots> = push_bit 8 (push_bit 8 (push_bit 8 (ucast a) + ucast b) + ucast c) + ucast d" by (simp only: split)
  also have "\<dots> = word_of_nat (unat a * 2 ^ 24 + unat b * 2 ^ 16 + unat c * 2 ^ 8 + unat d)"
    by (simp add: push_bit_eq_mult algebra_simps unsigned_of_nat)
  finally show ?thesis .
qed

lemma load_word_block:
  assumes "at + 64 \<le> length data" "t < 16"
  shows "load_word data (at + t * 4) = block_word (take 64 (drop at data)) t"
  using assms by (simp add: load_word_def bytes_word block_word_def mult.commute add.assoc)

lemma schedule_words_fips:
  assumes "w = map (fips_w block) [0..<length w]" "16 \<le> length w"
  shows "schedule_words n w = map (fips_w block) [0..<length w + n]"
  using assms
proof (induction n arbitrary: w)
  case (Suc n)
  have at: "w ! i = fips_w block i" if "i < length w" for i using that Suc.prems(1) by (metis add_0 nth_map_upt diff_zero)
  define next_word where "next_word = w ! (length w - 16) + sigma0 (w ! (length w - 15)) + w ! (length w - 7) + sigma1 (w ! (length w - 2))"
  have "next_word = fips_w block (length w)"
    using Suc.prems(2) at by (subst fips_w.simps) (simp add: next_word_def sigma_rotations add_ac)
  then have "w @ [next_word] = map (fips_w block) [0..<length (w @ [next_word])]" using Suc.prems(1) by simp
  then show ?case using Suc.IH [of "w @ [next_word]"] Suc.prems(2) by (simp add: Let_def next_word_def [symmetric])
qed simp

lemma message_words_fips:
  assumes "at + 64 \<le> length data"
  shows "message_words data at = map (fips_w (take 64 (drop at data))) [0..<64]"
proof -
  let ?w = "map (\<lambda>index. load_word data (at + index * 4)) [0..<16]"
  have "?w = map (fips_w (take 64 (drop at data))) [0..<length ?w]"
    using assms by (simp add: load_word_block fips_w.simps [of _ t for t] del: upt_rec_numeral)
  then show ?thesis using schedule_words_fips [of ?w _ 48] by (simp add: message_words_def del: upt_rec_numeral)
qed

lemma rounds_append:
  "length ks = length ws \<Longrightarrow> rounds (ks @ ks') (ws @ ws') r = rounds ks' ws' (rounds ks ws r)"
  by (induction ks ws arbitrary: r rule: list_induct2) simp_all

lemma rounds_fips:
  "n \<le> 64 \<Longrightarrow> rounds (take n K) (map (fips_w block) [0..<n]) r = fips_rounds block n r"
proof (induction n)
  case (Suc n)
  have "length K = 64" by (simp add: K_def)
  then show ?case using Suc by (simp add: take_Suc_conv_app_nth rounds_append sha_round_fips)
qed simp

lemma compress_fips:
  assumes "at + 64 \<le> length data"
  shows "compress s data at = fips_block s (take 64 (drop at data))"
proof -
  have "length K = 64" by (simp add: K_def)
  then show ?thesis
    using rounds_fips [of 64] assms by (simp add: compress_def fips_block_def message_words_fips del: upt_rec_numeral)
qed

section \<open>Absorbing\<close>

lemma fips_blocks_short [simp]: "length x < 64 \<Longrightarrow> fips_blocks H x = H"
  by (simp add: fips_blocks.simps)

lemma fips_blocks_append:
  "64 dvd length x \<Longrightarrow> fips_blocks H (x @ y) = fips_blocks (fips_blocks H x) y"
proof (induction H x rule: fips_blocks.induct)
  case (1 H x)
  show ?case
  proof (cases "x = []")
    case False
    with "1.prems" have long: "64 \<le> length x" by (auto dest: dvd_imp_le)
    with "1.prems" have "64 dvd length (drop 64 x)" by simp
    then show ?thesis using 1 long by (simp add: fips_blocks.simps [of _ "x @ y"] fips_blocks.simps [of H x])
  qed simp
qed

lemma fips_blocks_block [simp]: "length x = 64 \<Longrightarrow> fips_blocks H x = fips_block H x"
  by (subst fips_blocks.simps) simp

lemma absorb_loop_fips:
  "off \<le> length data \<Longrightarrow>
   absorb_loop s data off =
     (fips_blocks s (take (length data - off - (length data - off) mod 64) (drop off data)), length data - (length data - off) mod 64)"
proof (induction s data off rule: absorb_loop.induct)
  case (1 s data off)
  define n where "n = length data - off - (length data - off) mod 64"
  show ?case
  proof (cases "off + 64 \<le> length data")
    case True
    then have m: "(length data - off) mod 64 = (length data - (off + 64)) mod 64" by (metis add.commute le_mod_geq le_diff_conv2 "1.prems" diff_diff_left)
    have le: "(length data - (off + 64)) mod 64 \<le> length data - (off + 64)" by simp
    have n: "n = 64 + (length data - (off + 64) - (length data - (off + 64)) mod 64)" using True m le unfolding n_def by linarith
    have "take n (drop off data) = take 64 (drop off data) @ take (length data - (off + 64) - (length data - (off + 64)) mod 64) (drop (off + 64) data)"
      unfolding n by (simp add: take_add add.commute)
    moreover have "length data - (off + (length data - (off + 64)) mod 64) = n" using m by (simp add: n_def)
    ultimately show ?thesis using 1 True m
      by (simp add: absorb_loop.simps [of s] compress_fips fips_blocks_append)
  next
    case False
    then show ?thesis using "1.prems" by (simp add: absorb_loop.simps [of s])
  qed
qed

text \<open>An instance that has taken the bytes \<open>d\<close>: whole blocks are compressed, the rest is at the front of the block buffer.\<close>

definition buffered :: "sha256 \<Rightarrow> byte list \<Rightarrow> bool" where
  "buffered h d \<longleftrightarrow>
     \<not> sha_finished h \<and> length (sha_block h) = 64 \<and> sha_blockLength h = length d mod 64 \<and>
     sha_state h = fips_blocks INITIAL (take (length d - length d mod 64) d) \<and>
     take (sha_blockLength h) (sha_block h) = drop (length d - length d mod 64) d"

lemma bufferedI:
  assumes "d = full @ rest" "64 dvd length full" "length rest < 64" "\<not> sha_finished h" "length (sha_block h) = 64"
    "sha_blockLength h = length rest" "sha_state h = fips_blocks INITIAL full" "take (length rest) (sha_block h) = rest"
  shows "buffered h d"
proof -
  have "length d mod 64 = length rest" using assms(1-3) by (auto elim!: dvdE)
  then show ?thesis using assms by (simp add: buffered_def)
qed

lemma bufferedE:
  assumes "buffered h d"
  obtains full rest where "d = full @ rest" "64 dvd length full" "length rest < 64" "\<not> sha_finished h" "length (sha_block h) = 64"
    "sha_blockLength h = length rest" "sha_state h = fips_blocks INITIAL full" "take (length rest) (sha_block h) = rest"
proof
  let ?n = "length d - length d mod 64"
  show "d = take ?n d @ drop ?n d" by simp
  have "length (take ?n d) = ?n" by simp
  then show "64 dvd length (take ?n d)" by (simp only: dvd_minus_mod)
qed (use assms in \<open>auto simp: buffered_def\<close>)

lemma fill_block_buffered:
  assumes "buffered h d" "fill_block h data = (h', off)"
  shows "off \<le> length data \<and> buffered h' (d @ take off data) \<and> (off < length data \<longrightarrow> sha_blockLength h' = 0) \<and>
    sha_totalBytes h' = sha_totalBytes h"
  using assms(1)
proof (rule bufferedE)
  fix full rest
  assume d: "d = full @ rest" "64 dvd length full" "length rest < 64" "\<not> sha_finished h" "length (sha_block h) = 64"
    "sha_blockLength h = length rest" "sha_state h = fips_blocks INITIAL full" "take (length rest) (sha_block h) = rest"
  define t where "t = min (64 - length rest) (length data)"
  show ?thesis
  proof (cases "rest = [] \<or> length rest + length data < 64")
    case True
    show ?thesis
    proof (cases "rest = []")
      case True
      then show ?thesis using assms d by (auto simp: fill_block_def)
    next
      case False
      then have h': "h' = h\<lparr>sha_block := rest @ data @ drop (length rest + length data) (sha_block h), sha_blockLength := length rest + length data\<rparr>"
        and off: "off = length data"
        using True assms(2) d by (auto simp: fill_block_def block_set_def min_def Let_def)
      have "buffered h' (full @ rest @ data)"
        by (rule bufferedI [of _ full "rest @ data"]) (use True False d in \<open>auto simp: h'\<close>)
      then show ?thesis using d off h' by simp
    qed
  next
    case False
    then have t: "length rest + t = 64" "t \<le> length data" using d(3) by (auto simp: t_def)
    then have h': "h' = h\<lparr>sha_block := rest @ take t data, sha_state := compress (sha_state h) (rest @ take t data) 0, sha_blockLength := 0\<rparr>"
      and off: "off = t"
      using False assms(2) d by (auto simp: fill_block_def block_set_def Let_def t_def [symmetric])
    have len: "64 - length rest = t" using t by simp
    have "buffered h' (full @ rest @ take t data)"
      by (rule bufferedI [of _ "full @ rest @ take t data" "[]"]) (use d t len in \<open>auto simp: h' compress_fips fips_blocks_append\<close>)
    then show ?thesis using d t off h' by simp
  qed
qed

text \<open>Taking the bytes \<open>data\<close> after the bytes \<open>d\<close>.\<close>

lemma sha_update_buffered:
  assumes "buffered h d" "sha_totalBytes h = length d"
  shows "\<exists>h'. sha_update h data = Inr h' \<and> buffered h' (d @ data) \<and> sha_totalBytes h' = length (d @ data)"
proof -
  define g where "g = h\<lparr>sha_totalBytes := sha_totalBytes h + length data\<rparr>"
  have "buffered g d" using assms(1) by (auto simp: g_def buffered_def)
  moreover obtain h1 off where fill: "fill_block g data = (h1, off)" by force
  ultimately have h1: "off \<le> length data" "buffered h1 (d @ take off data)" "off < length data \<longrightarrow> sha_blockLength h1 = 0"
    "sha_totalBytes h1 = length (d @ data)"
    using fill_block_buffered [of g d data h1 off] assms(2) by (simp_all add: g_def)
  have unfinished: "\<not> sha_finished h" using assms(1) by (simp add: buffered_def)
  show ?thesis
  proof (cases "off < length data")
    case False
    then have "off = length data" using h1 by simp
    then have "sha_update h data = Inr h1" using unfinished fill
      by (simp add: sha_update_def g_def [symmetric] absorb_loop.simps)
    then show ?thesis using h1 \<open>off = length data\<close> by simp
  next
    case True
    define r where "r = (length data - off) mod 64"
    define n where "n = length data - off - r"
    have r: "r < 64" "r \<le> length data - off" by (simp_all add: r_def)
    have whole_n: "64 dvd n" unfolding n_def r_def by (rule dvd_minus_mod)
    have len: "length data - (off + r) = n" by (simp add: n_def)
    have ends: "length data - r = off + n" using r(2) h1(1) by (simp add: n_def)
    have "length (d @ take off data) mod 64 = 0" and state: "sha_state h1 = fips_blocks INITIAL (d @ take off data)"
      and block: "length (sha_block h1) = 64" "\<not> sha_finished h1"
      using h1 True by (auto simp: buffered_def)
    then have whole: "64 dvd length (d @ take off data)" by (simp only: mod_eq_0_iff_dvd)
    have loop: "absorb_loop (sha_state h1) data off = (fips_blocks INITIAL (d @ take (off + n) data), off + n)"
      using h1(1) whole ends by (simp add: absorb_loop_fips state fips_blocks_append [symmetric] take_add r_def [symmetric] len)
    define h2 where "h2 = (let h = h1\<lparr>sha_state := fips_blocks INITIAL (d @ take (off + n) data)\<rparr> in
      if off + n < length data then h\<lparr>sha_block := block_set (sha_block h) (drop (off + n) data) 0, sha_blockLength := length data - (off + n)\<rparr> else h)"
    have "sha_update h data = Inr h2" using unfinished fill loop
      by (simp add: sha_update_def g_def [symmetric] h2_def Let_def)
    moreover have "buffered h2 (d @ data)"
    proof (rule bufferedI [of _ "d @ take (off + n) data" "drop (off + n) data"])
      show "64 dvd length (d @ take (off + n) data)" using dvd_add [OF whole whole_n] ends h1(1) by (simp add: add.assoc)
      show "length (drop (off + n) data) < 64" using r ends by simp
    qed (use r ends h1 block True in \<open>auto simp: h2_def block_set_def Let_def\<close>)
    ultimately show ?thesis using h1(4) by (simp add: h2_def Let_def)
  qed
qed

lemma update_all_buffered:
  "buffered h d \<Longrightarrow> sha_totalBytes h = length d \<Longrightarrow>
   \<exists>h'. update_all h chunks = Inr h' \<and> buffered h' (d @ concat chunks) \<and> sha_totalBytes h' = length (d @ concat chunks)"
proof (induction chunks arbitrary: h d)
  case (Cons c cs)
  obtain h1 where "sha_update h c = Inr h1" "buffered h1 (d @ c)" "sha_totalBytes h1 = length (d @ c)"
    using sha_update_buffered [OF Cons.prems] by blast
  then show ?case using Cons.IH [of h1 "d @ c"] by simp
qed simp

lemma new_sha256_buffered: "buffered new_sha256 []"
  by (simp add: buffered_def new_sha256_def)

section \<open>The digest\<close>

text \<open>The two \<open>setUint32\<close> calls write the length as one 64-bit number.\<close>

lemma length_bytes:
  "word_bytes (n div 2 ^ 32) @ word_bytes (n mod 2 ^ 32) = map (\<lambda>i. word_of_nat (n div 256 ^ (7 - i))) [0..<8]"
proof -
  have low: "(word_of_nat (n mod 2 ^ 32 div 256 ^ j) :: byte) = word_of_nat (n div 256 ^ j)" if "j < 4" for j
  proof -
    have "(256 :: nat) ^ j = 2 ^ (8 * j)" by (simp add: power_mult)
    then have div: "m div 256 ^ j = drop_bit (8 * j) m" for m :: nat by (simp add: drop_bit_eq_div)
    have "n mod 2 ^ 32 div 256 ^ j = take_bit (32 - 8 * j) (n div 256 ^ j)"
      unfolding div take_bit_eq_mod [symmetric] by (rule drop_bit_take_bit)
    then show ?thesis using that by (simp add: word_of_nat_eq_iff min_def)
  qed
  have high: "n div 2 ^ 32 div 256 ^ j = n div 256 ^ (j + 4)" for j
    by (simp add: power_add div_mult2_eq [symmetric] mult.commute)
  have "word_bytes (n mod 2 ^ 32) = map (\<lambda>i. word_of_nat (n div 256 ^ (7 - i))) [4..<8]"
    unfolding word_bytes_def by (rule nth_equalityI) (auto simp: low [simplified] simp del: upt_rec_numeral)
  moreover have "word_bytes (n div 2 ^ 32) = map (\<lambda>i. word_of_nat (n div 256 ^ (7 - i))) [0..<4]"
    unfolding word_bytes_def by (rule nth_equalityI) (auto simp: high [simplified] Suc_diff_le simp del: upt_rec_numeral)
  moreover have "[0..<8] = [0..<4] @ [4..<8]" using upt_add_eq_append [of 0 4 4] by simp
  ultimately show ?thesis by (simp only: map_append)
qed

lemma sha_padding_layout:
  assumes "length hi = 4" "length lo = 4"
  shows "block_set (block_set (block_set (replicate (9 + z) 0) [x] 0) hi (9 + z - 8)) lo (9 + z - 4) = x # replicate z 0 @ hi @ lo"
proof -
  have "replicate (z + 8) (0 :: byte) = replicate z 0 @ replicate 8 0" by (rule replicate_add)
  moreover have "replicate (9 + z) (0 :: byte) = 0 # replicate (z + 8) 0" by (simp add: numeral_eq_Suc)
  ultimately have zeros: "replicate (9 + z) (0 :: byte) = 0 # replicate z 0 @ replicate 8 0" by simp
  have "block_set (replicate (9 + z) 0) [x] 0 = x # replicate z 0 @ replicate 8 0" unfolding zeros by (simp add: block_set_def)
  moreover have "drop (5 + z) (x # replicate z 0 @ replicate 8 0) = replicate 4 0" by (simp add: numeral_eq_Suc)
  then have "block_set (x # replicate z 0 @ replicate 8 0) hi (9 + z - 8) = x # replicate z 0 @ hi @ replicate 4 0"
    using assms by (simp add: block_set_def)
  moreover have "take (5 + z) (x # replicate z 0 @ hi @ replicate 4 0) = x # replicate z 0 @ hi"
    using assms(1) by (simp add: numeral_eq_Suc)
  then have "block_set (x # replicate z 0 @ hi @ replicate 4 0) lo (9 + z - 4) = x # replicate z 0 @ hi @ lo"
    using assms by (simp add: block_set_def)
  ultimately show ?thesis by simp
qed

lemma sha_padding_fips:
  assumes "buffered h d" "sha_totalBytes h = length d"
  shows "d @ sha_padding h = fips_pad d"
proof -
  define b where "b = length d mod 64"
  define size where "size = (if b < 56 then 64 - b else 128 - b)"
  have b: "b < 64" "sha_blockLength h = b" using assms by (simp_all add: b_def buffered_def)
  have size: "9 \<le> size" using b by (auto simp: size_def)
  have four: "length (word_bytes n) = 4" for n by (simp add: word_bytes_def)
  have "(55 - int (length d)) mod 64 = (55 - int b) mod 64" by (simp add: b_def zmod_int mod_diff_right_eq)
  also have "\<dots> = int size - 9"
  proof (cases "b < 56")
    case False
    have "(55 - int b) mod 64 = (119 - int b) mod 64" using mod_add_self2 [of "55 - int b" 64] by simp
    then show ?thesis using False b by (simp add: size_def)
  qed (simp add: size_def)
  finally have zeros: "nat ((55 - int (length d)) mod 64) = size - 9" by simp
  have "word_bytes (8 * length d div 2 ^ 32) @ word_bytes (8 * length d mod 2 ^ 32) =
      map (\<lambda>i. word_of_nat (8 * length d div 256 ^ (7 - i))) [0..<8]"
    by (rule length_bytes)
  moreover have "sha_padding h = block_set (block_set (block_set (replicate size 0) [0x80] 0)
      (word_bytes (8 * length d div 2 ^ 32)) (size - 8)) (word_bytes (8 * length d mod 2 ^ 32)) (size - 4)"
    by (simp only: sha_padding_def Let_def b(2) assms(2) size_def mult.commute [of 8])
  moreover obtain z where "size = 9 + z" using size by (auto simp: le_iff_add)
  ultimately show ?thesis using sha_padding_layout [OF four four, of z]
    by (simp add: fips_pad_def zeros sha_padding_layout four del: upt_rec_numeral)
qed

lemma padStart_hex:
  "n < 16 ^ Suc k \<Longrightarrow> padStart (nat_hex n) (Suc k) 48 = map (\<lambda>i. hex_digit (n div 16 ^ (k - i) mod 16)) [0..<Suc k]"
proof (induction k arbitrary: n)
  case 0
  then show ?case by (simp add: nat_hex.simps padStart_def)
next
  case (Suc k)
  have "map (\<lambda>i. hex_digit (n div 16 ^ (Suc k - i) mod 16)) [0..<Suc (Suc k)] =
      map (\<lambda>i. hex_digit (n div 16 div 16 ^ (k - i) mod 16)) [0..<Suc k] @ [hex_digit (n mod 16)]"
    by (simp add: div_mult2_eq Suc_diff_le del: upt_Suc add: upt_Suc_append)
  also have "\<dots> = padStart (nat_hex (n div 16)) (Suc k) 48 @ [hex_digit (n mod 16)]"
    using Suc.IH [of "n div 16"] Suc.prems by (simp add: less_mult_imp_div_less del: upt_Suc)
  also have "\<dots> = padStart (nat_hex n) (Suc (Suc k)) 48"
    by (cases "n < 16") (simp_all add: padStart_def nat_hex.simps [of n] nat_hex.simps [of 0] hex_digit_def replicate_append_same)
  finally show ?case by simp
qed

lemma word_hex_printed: "padStart (nat_hex (unat w)) 8 48 = word_hex (w :: 32 word)"
proof -
  have "unat w < 16 ^ Suc 7" using unsigned_less [of w] by simp
  then show ?thesis using padStart_hex [of "unat w" 7] by (simp add: word_hex_def del: upt_Suc upt_rec_numeral)
qed

lemma fips_pad_whole: "64 dvd length (fips_pad d)"
proof -
  have "(9 + int (length d) + (55 - int (length d)) mod 64) mod 64 = 0" by (simp add: mod_simps)
  moreover have "int (length (fips_pad d)) = 9 + int (length d) + (55 - int (length d)) mod 64" by (simp add: fips_pad_def)
  ultimately show ?thesis by presburger
qed

lemma digestHex_buffered:
  assumes "buffered h d" "sha_totalBytes h = length d"
  shows "\<exists>h'. digestHex h = Inr (fips_sha256 d, h') \<and> sha_finished h' \<and> sha_totalBytes h' = length d"
proof -
  obtain h1 where h1: "sha_update h (sha_padding h) = Inr h1" "buffered h1 (fips_pad d)"
    using sha_update_buffered [OF assms, of "sha_padding h"] sha_padding_fips [OF assms] by auto
  have "sha_state h1 = fips_blocks INITIAL (fips_pad d)" using h1(2) fips_pad_whole [of d] by (simp add: buffered_def)
  then show ?thesis using assms h1(1)
    by (simp add: digestHex_def buffered_def word_hex_printed fips_sha256_def cong: map_cong)
qed

lemma finished_refuses: "sha_finished h \<Longrightarrow> sha_update h data = Inl Already_finished \<and> digestHex h = Inl Already_finished"
  by (simp add: sha_update_def digestHex_def)

lemma rbind_Inr_right: "rbind x Inr = x"
  by (cases x) simp_all

text \<open>The chunks of a Blob are the Blob.\<close>

lemma concat_blob_chunks: "0 < n \<Longrightarrow> concat (blob_chunks n blob) = blob"
proof (induction n blob rule: blob_chunks.induct)
  case (1 n blob)
  then show ?case by (cases "blob = []") (simp add: blob_chunks.simps [of n "[]"], simp add: blob_chunks.simps [of n blob])
qed

lemma blob_chunks_bounded: "list_all (\<lambda>c. length c \<le> n) (blob_chunks n blob)"
proof (induction n blob rule: blob_chunks.induct)
  case (1 n blob)
  then show ?case by (cases "blob = [] \<or> n = 0") (simp_all add: blob_chunks.simps [of n blob])
qed

text \<open>C27: The incremental SHA-256 of the browser computes the function of FIPS 180-4 whatever its input is cut into: an
  instance that takes the chunks one after another never fails, its digest is the standard's digest of their
  concatenation, and afterwards the instance refuses every further update and digest.\<close>

theorem incremental_sha256_is_fips:
  "\<exists>h h'. update_all new_sha256 chunks = Inr h \<and> digestHex h = Inr (fips_sha256 (concat chunks), h') \<and>
     sha_update h' data = Inl Already_finished \<and> digestHex h' = Inl Already_finished"
proof -
  obtain h where h: "update_all new_sha256 chunks = Inr h" "buffered h (concat chunks)" "sha_totalBytes h = length (concat chunks)"
    using update_all_buffered [OF new_sha256_buffered, of chunks] by (auto simp: new_sha256_def)
  then show ?thesis using digestHex_buffered [OF h(2,3)] finished_refuses by blast
qed

text \<open>Hashing a Blob in bounded chunks gives the same digest as hashing its bytes at once, the standard's digest of the
  bytes, and no chunk that is read is longer than the bound.\<close>

theorem blob_digest_is_fips:
  "sha256HexOfBlob blob = Inr (fips_sha256 blob) \<and> sha256Hex blob = Inr (fips_sha256 blob) \<and>
   list_all (\<lambda>c. length c \<le> HASH_CHUNK_BYTES) (blob_chunks HASH_CHUNK_BYTES blob)"
proof -
  have digest: "rbind (update_all new_sha256 chunks) (\<lambda>h. rbind (digestHex h) (\<lambda>(hex, _). Inr hex)) = Inr (fips_sha256 (concat chunks))"
    for chunks
    using update_all_buffered [OF new_sha256_buffered, of chunks] by (auto simp: new_sha256_def dest: digestHex_buffered)
  have "0 < HASH_CHUNK_BYTES" by (simp add: HASH_CHUNK_BYTES_def)
  then show ?thesis
    using digest [of "blob_chunks HASH_CHUNK_BYTES blob"] digest [of "[blob]"] blob_chunks_bounded
    by (simp add: sha256HexOfBlob_def sha256Hex_def concat_blob_chunks rbind_Inr_right)
qed

end
