(* ===== verification/SubmissionReconcile.thy ===== *)
theory SubmissionReconcile
  imports DraftContent
begin

text \<open>
  The explicit submission of the publishing editor (\<open>apps/web/features/publishing/submission-reconcile.ts\<close>): the
  controller of \<open>createSubmissionController\<close> as a record, its functions as state transformers, and the asynchronous
  functions \<open>send\<close> and \<open>reconcile\<close> as the part before their \<open>await\<close> and one continuation per answer. The command
  without its request identity and the receipt without its own are JSON values that are only passed on. The state keeps
  the calls made to the account; whether the external store notifies its listeners is left out.
\<close>

section \<open>State\<close>

record submission_command =
  cmd_requestId :: jstr
  cmd_input :: json

record submission_receipt =
  rct_requestId :: jstr
  rct_body :: json

datatype submission_state =
    Sub_idle
  | Submitting (sub_request: jstr)
  | Reconciling (sub_request: jstr)
  | Unconfirmed (sub_request: jstr) jstr
  | Confirmed submission_receipt
  | Not_ready "jstr list"
  | Submit_failed "jstr option" jstr

text \<open>What the port throws, as far as \<open>shape\<close> reads it: a code and a message that are strings, and the unknown outcome.\<close>

record submit_error =
  sbe_code :: "jstr option"
  sbe_message :: "jstr option"
  sbe_outcomeUnknown :: bool

datatype submit_answer = Submit_confirmed submission_receipt | Submit_not_ready "jstr list" | Submit_threw submit_error

text \<open>\<open>None\<close>: the read threw; \<open>Some None\<close>: no receipt.\<close>

type_synonym receipt_answer = "submission_receipt option option"

datatype port_call = Submit_call submission_command | Receipt_call jstr

text \<open>An asynchronous function that waits for the port.\<close>

datatype sub_wait = Send_wait submission_command | Reconcile_wait jstr

record submission =
  sub_store :: submission_state
  sub_command :: "submission_command option"
  sub_disposed :: bool
  sub_waits :: "sub_wait list"
  sub_calls :: "port_call list"

definition unconfirmedMessage :: jstr where
  "unconfirmedMessage =
     [0x6682, 0x65F6, 0x65E0, 0x6CD5, 0x786E, 0x8BA4, 0x53D1, 0x5E03, 0x7ED3, 0x679C, 0xFF0C, 0x8BF7, 0x68C0, 0x67E5, 0x540E, 0x91CD, 0x8BD5]"

definition sub_failedMessage :: jstr where
  "sub_failedMessage = [0x53D1, 0x5E03, 0x5931, 0x8D25, 0xFF0C, 0x8BF7, 0x91CD, 0x8BD5]"

definition createSubmissionController :: submission where
  "createSubmissionController = \<lparr>sub_store = Sub_idle, sub_command = None, sub_disposed = False, sub_waits = [], sub_calls = []\<rparr>"

section \<open>Operations\<close>

definition sub_set :: "submission_state \<Rightarrow> submission \<Rightarrow> submission" where
  "sub_set next st = (if sub_disposed st then st else st\<lparr>sub_store := next\<rparr>)"

definition sub_await :: "port_call \<Rightarrow> sub_wait \<Rightarrow> submission \<Rightarrow> submission" where
  "sub_await call w st = st\<lparr>sub_calls := sub_calls st @ [call], sub_waits := sub_waits st @ [w]\<rparr>"

text \<open>\<open>reconcile\<close> up to its \<open>await\<close>, and after it.\<close>

definition reconcile :: "jstr \<Rightarrow> submission \<Rightarrow> submission" where
  "reconcile requestId st = sub_await (Receipt_call requestId) (Reconcile_wait requestId) (sub_set (Reconciling requestId) st)"

definition reconcile_answered :: "jstr \<Rightarrow> receipt_answer \<Rightarrow> submission \<Rightarrow> submission" where
  "reconcile_answered requestId ans st =
     (case ans of
        None \<Rightarrow> sub_set (Unconfirmed requestId unconfirmedMessage) st
      | Some found \<Rightarrow>
          (if sub_disposed st then st
           else case found of
             Some receipt \<Rightarrow>
               (if rct_requestId receipt = requestId then sub_set (Confirmed receipt) st
                else sub_set (Unconfirmed requestId unconfirmedMessage) st)
           | None \<Rightarrow> sub_set (Unconfirmed requestId unconfirmedMessage) st))"

definition send :: "submission_command \<Rightarrow> submission \<Rightarrow> submission" where
  "send frozen st = sub_await (Submit_call frozen) (Send_wait frozen) (sub_set (Submitting (cmd_requestId frozen)) st)"

definition send_answered :: "submission_command \<Rightarrow> submit_answer \<Rightarrow> submission \<Rightarrow> submission" where
  "send_answered frozen ans st =
     (if sub_disposed st then st
      else case ans of
        Submit_threw err \<Rightarrow>
          (if sbe_outcomeUnknown err then reconcile (cmd_requestId frozen) st
           else sub_set (Submit_failed (sbe_code err) (case sbe_message err of Some m \<Rightarrow> m | None \<Rightarrow> sub_failedMessage)) st)
      | Submit_confirmed receipt \<Rightarrow> sub_set (Confirmed receipt) st
      | Submit_not_ready itemKeys \<Rightarrow> sub_set (Not_ready itemKeys) st)"

fun sub_busy :: "submission_state \<Rightarrow> bool" where
  "sub_busy (Submitting _) \<longleftrightarrow> True"
| "sub_busy (Reconciling _) \<longleftrightarrow> True"
| "sub_busy (Confirmed _) \<longleftrightarrow> True"
| "sub_busy _ \<longleftrightarrow> False"

fun is_unconfirmed :: "submission_state \<Rightarrow> bool" where
  "is_unconfirmed (Unconfirmed _ _) \<longleftrightarrow> True"
| "is_unconfirmed _ \<longleftrightarrow> False"

fun sub_refused :: "submission_state \<Rightarrow> bool" where
  "sub_refused (Not_ready _) \<longleftrightarrow> True"
| "sub_refused (Submit_failed _ _) \<longleftrightarrow> True"
| "sub_refused _ \<longleftrightarrow> False"

text \<open>\<open>submit\<close>: \<open>fresh\<close> is what \<open>options.requestId()\<close> returns.\<close>

definition submit :: "jstr \<Rightarrow> json \<Rightarrow> submission \<Rightarrow> submission" where
  "submit fresh input st =
     (if sub_disposed st \<or> sub_busy (sub_store st) \<or> is_unconfirmed (sub_store st) then st
      else (let command = \<lparr>cmd_requestId = fresh, cmd_input = input\<rparr> in send command (st\<lparr>sub_command := Some command\<rparr>)))"

definition sub_retry :: "submission \<Rightarrow> submission" where
  "sub_retry st =
     (if sub_disposed st \<or> \<not> is_unconfirmed (sub_store st) then st
      else case sub_command st of None \<Rightarrow> st | Some command \<Rightarrow> send command st)"

definition checkAgain :: "submission \<Rightarrow> submission" where
  "checkAgain st =
     (if sub_disposed st \<or> \<not> is_unconfirmed (sub_store st) then st else reconcile (sub_request (sub_store st)) st)"

definition sub_reset :: "submission \<Rightarrow> submission" where
  "sub_reset st = (if sub_refused (sub_store st) then sub_set Sub_idle (st\<lparr>sub_command := None\<rparr>) else st)"

definition reportFailure :: "jstr option \<Rightarrow> jstr \<Rightarrow> submission \<Rightarrow> submission" where
  "reportFailure code message st =
     (if sub_store st \<noteq> Sub_idle \<and> \<not> sub_refused (sub_store st) then st
      else sub_set (Submit_failed code message) (st\<lparr>sub_command := None\<rparr>))"

definition sub_dispose :: "submission \<Rightarrow> submission" where
  "sub_dispose st = st\<lparr>sub_disposed := True\<rparr>"

section \<open>Steps\<close>

datatype sub_event =
    Submit_event jstr json
  | Retry_event
  | Check_again
  | Reset_event
  | Report_failure "jstr option" jstr
  | Dispose_event
  | Submit_answered nat submit_answer
  | Receipt_answered nat receipt_answer

definition sub_remove :: "nat \<Rightarrow> submission \<Rightarrow> submission" where
  "sub_remove i st = st\<lparr>sub_waits := take i (sub_waits st) @ drop (Suc i) (sub_waits st)\<rparr>"

fun sub_handle :: "sub_event \<Rightarrow> submission \<Rightarrow> submission option" where
  "sub_handle (Submit_event fresh input) st = Some (submit fresh input st)"
| "sub_handle Retry_event st = Some (sub_retry st)"
| "sub_handle Check_again st = Some (checkAgain st)"
| "sub_handle Reset_event st = Some (sub_reset st)"
| "sub_handle (Report_failure code message) st = Some (reportFailure code message st)"
| "sub_handle Dispose_event st = Some (sub_dispose st)"
| "sub_handle (Submit_answered i ans) st =
     (if i < length (sub_waits st) then
        (case sub_waits st ! i of Send_wait frozen \<Rightarrow> Some (send_answered frozen ans (sub_remove i st)) | _ \<Rightarrow> None)
      else None)"
| "sub_handle (Receipt_answered i ans) st =
     (if i < length (sub_waits st) then
        (case sub_waits st ! i of Reconcile_wait requestId \<Rightarrow> Some (reconcile_answered requestId ans (sub_remove i st)) | _ \<Rightarrow> None)
      else None)"

inductive sub_run :: "sub_event list \<Rightarrow> submission \<Rightarrow> bool" where
  start: "sub_run [] createSubmissionController"
| step: "sub_run es st \<Longrightarrow> sub_handle e st = Some st' \<Longrightarrow> sub_run (es @ [e]) st'"

inductive_cases sub_run_snocE: "sub_run (es @ [e]) st"

section \<open>Invariant\<close>

text \<open>What waits is what the status says, for the command that is kept; a disposed controller may still wait once.\<close>

fun waits_for :: "submission_state \<Rightarrow> submission_command option \<Rightarrow> sub_wait list" where
  "waits_for (Submitting _) (Some c) = [Send_wait c]"
| "waits_for (Reconciling r) _ = [Reconcile_wait r]"
| "waits_for _ _ = []"

fun command_matches :: "submission_state \<Rightarrow> submission_command option \<Rightarrow> bool" where
  "command_matches (Submitting r) c \<longleftrightarrow> (\<exists>x. c = Some x \<and> cmd_requestId x = r)"
| "command_matches (Reconciling r) c \<longleftrightarrow> (\<exists>x. c = Some x \<and> cmd_requestId x = r)"
| "command_matches (Unconfirmed r _) c \<longleftrightarrow> (\<exists>x. c = Some x \<and> cmd_requestId x = r)"
| "command_matches _ _ \<longleftrightarrow> True"

definition sub_inv :: "submission \<Rightarrow> bool" where
  "sub_inv st \<longleftrightarrow>
     length (sub_waits st) \<le> 1 \<and>
     (\<not> sub_disposed st \<longrightarrow> command_matches (sub_store st) (sub_command st) \<and> sub_waits st = waits_for (sub_store st) (sub_command st))"

lemmas sub_ops =
  sub_set_def sub_await_def reconcile_def reconcile_answered_def send_def send_answered_def submit_def sub_retry_def checkAgain_def
  sub_reset_def reportFailure_def sub_dispose_def sub_remove_def Let_def

lemma waits_short: "length (waits_for s c) \<le> 1"
  by (cases "(s, c)" rule: waits_for.cases) auto

lemma sub_inv_waiting:
  assumes "sub_inv st" "i < length (sub_waits st)"
  shows "i = 0" "sub_waits st = [sub_waits st ! i]" "sub_waits (sub_remove i st) = []"
  using assms by (auto simp: sub_inv_def sub_remove_def length_Suc_conv le_Suc_eq)

lemma sub_inv_send_wait:
  assumes "sub_inv st" "sub_waits st = [Send_wait c]" "\<not> sub_disposed st"
  shows "sub_store st = Submitting (cmd_requestId c)" "sub_command st = Some c"
  using assms by (cases "(sub_store st, sub_command st)" rule: waits_for.cases; auto simp: sub_inv_def)+

lemma sub_inv_reconcile_wait:
  assumes "sub_inv st" "sub_waits st = [Reconcile_wait r]" "\<not> sub_disposed st"
  shows "sub_store st = Reconciling r" "\<exists>c. sub_command st = Some c \<and> cmd_requestId c = r"
  using assms by (cases "(sub_store st, sub_command st)" rule: waits_for.cases; auto simp: sub_inv_def)+

lemma sub_inv_quiet:
  assumes "sub_inv st" "\<not> sub_disposed st" "\<not> sub_busy (sub_store st)"
  shows "sub_waits st = []"
  using assms by (cases "sub_store st") (auto simp: sub_inv_def)

lemma sub_inv_unconfirmed:
  assumes "sub_inv st" "\<not> sub_disposed st" "sub_store st = Unconfirmed r m"
  shows "\<exists>c. sub_command st = Some c \<and> cmd_requestId c = r"
  using assms by (auto simp: sub_inv_def)

lemma sub_inv_start: "sub_inv createSubmissionController"
  by (simp add: sub_inv_def createSubmissionController_def)

lemma sub_handle_inv:
  assumes "sub_inv st" "sub_handle e st = Some st'"
  shows "sub_inv st'"
proof (cases "sub_disposed st")
  case True
  then show ?thesis using assms
    by (cases e) (auto simp: sub_ops sub_inv_def split: if_splits sub_wait.splits option.splits)
next
  case False
  show ?thesis
  proof (cases e)
    case (Submit_answered i ans)
    with assms(2) obtain c where c: "i < length (sub_waits st)" "sub_waits st ! i = Send_wait c"
      "st' = send_answered c ans (sub_remove i st)"
      by (auto split: if_splits sub_wait.splits)
    with assms(1) have "sub_waits st = [Send_wait c]" using sub_inv_waiting(2) by fastforce
    with sub_inv_send_wait [OF assms(1) _ False] c False show ?thesis
      by (auto simp: sub_ops sub_inv_def split: submit_answer.splits)
  next
    case (Receipt_answered i ans)
    with assms(2) obtain r where r: "i < length (sub_waits st)" "sub_waits st ! i = Reconcile_wait r"
      "st' = reconcile_answered r ans (sub_remove i st)"
      by (auto split: if_splits sub_wait.splits)
    with assms(1) have "sub_waits st = [Reconcile_wait r]" using sub_inv_waiting(2) by fastforce
    with sub_inv_reconcile_wait [OF assms(1) _ False] r False show ?thesis
      by (auto simp: sub_ops sub_inv_def split: option.splits)
  qed (use assms False in \<open>cases "sub_store st"; auto simp: sub_ops sub_inv_def split: if_splits option.splits\<close>)+
qed

lemma sub_run_inv: "sub_run es st \<Longrightarrow> sub_inv st"
  by (induction rule: sub_run.induct) (auto intro: sub_inv_start sub_handle_inv)

end
