(* ===== verification/SubmissionGuarantees.thy ===== *)
theory SubmissionGuarantees
  imports SubmissionReconcile
begin

text \<open>
  What the submission controller promises: nothing is sent but by an explicit submit or an explicit retry of the very
  command whose answer was lost, and only after its receipt was read; one request identity never names two commands; and
  the controller implements an author's intent that is open from a submit to its refusal or its publication, which is
  final.
\<close>

section \<open>What was sent\<close>

fun sent :: "port_call list \<Rightarrow> submission_command list" where
  "sent [] = []"
| "sent (Submit_call c # calls) = c # sent calls"
| "sent (Receipt_call r # calls) = sent calls"

lemma sent_append [simp]: "sent (xs @ ys) = sent xs @ sent ys"
  by (induction xs rule: sent.induct) auto

text \<open>A command under way is the last one sent; once its answer is lost, the last call read its receipt.\<close>

definition sent_inv :: "sub_event list \<Rightarrow> submission \<Rightarrow> bool" where
  "sent_inv es st \<longleftrightarrow>
     (\<not> sub_disposed st \<longrightarrow>
        (case sub_store st of
           Submitting r \<Rightarrow> sub_calls st \<noteq> [] \<and> Some (last (sub_calls st)) = map_option Submit_call (sub_command st)
         | Reconciling r \<Rightarrow> sub_calls st \<noteq> [] \<and> last (sub_calls st) = Receipt_call r \<and> sent (sub_calls st) \<noteq> [] \<and> sub_command st = Some (last (sent (sub_calls st)))
         | Unconfirmed r _ \<Rightarrow> sub_calls st \<noteq> [] \<and> last (sub_calls st) = Receipt_call r \<and> sent (sub_calls st) \<noteq> [] \<and> sub_command st = Some (last (sent (sub_calls st)))
         | _ \<Rightarrow> True)) \<and>
     (\<forall>c \<in> set (sent (sub_calls st)). Submit_event (cmd_requestId c) (cmd_input c) \<in> set es) \<and>
     (\<forall>c. sub_command st = Some c \<longrightarrow> Submit_event (cmd_requestId c) (cmd_input c) \<in> set es)"

lemma sent_last: "calls \<noteq> [] \<Longrightarrow> last calls = Submit_call c \<Longrightarrow> sent calls \<noteq> [] \<and> last (sent calls) = c"
  by (induction calls rule: rev_induct) auto

lemma sent_inv_start: "sent_inv [] createSubmissionController"
  by (simp add: sent_inv_def createSubmissionController_def)

lemma sent_inv_step:
  assumes "sub_inv st" "sent_inv es st" "sub_handle e st = Some st'"
  shows "sent_inv (es @ [e]) st'"
proof (cases "sub_disposed st")
  case True
  then show ?thesis using assms
    by (cases e) (auto simp: sub_ops sent_inv_def split: if_splits sub_wait.splits option.splits)
next
  case False
  show ?thesis
  proof (cases e)
    case (Submit_answered i ans)
    with assms(3) obtain c where c: "i < length (sub_waits st)" "sub_waits st ! i = Send_wait c"
      "st' = send_answered c ans (sub_remove i st)"
      by (auto split: if_splits sub_wait.splits)
    with assms(1) have "sub_waits st = [Send_wait c]" using sub_inv_waiting(2) by fastforce
    note st = sub_inv_send_wait [OF assms(1) this False]
    with assms(2) False have "sent (sub_calls st) \<noteq> [] \<and> last (sent (sub_calls st)) = c"
      by (intro sent_last) (auto simp: sent_inv_def)
    with st c assms(2) False Submit_answered show ?thesis
      by (auto simp: sub_ops sent_inv_def split: submit_answer.splits)
  next
    case (Receipt_answered i ans)
    with assms(3) obtain r where r: "i < length (sub_waits st)" "sub_waits st ! i = Reconcile_wait r"
      "st' = reconcile_answered r ans (sub_remove i st)"
      by (auto split: if_splits sub_wait.splits)
    with assms(1) have "sub_waits st = [Reconcile_wait r]" using sub_inv_waiting(2) by fastforce
    with sub_inv_reconcile_wait [OF assms(1) _ False] r assms(2) False Receipt_answered show ?thesis
      by (auto simp: sub_ops sent_inv_def split: option.splits)
  qed (use assms False in \<open>cases "sub_store st"; auto simp: sub_ops sent_inv_def sub_inv_def split: if_splits option.splits\<close>)+
qed

lemma sub_run_sent_inv: "sub_run es st \<Longrightarrow> sent_inv es st"
  by (induction rule: sub_run.induct) (auto intro: sent_inv_start sent_inv_step dest: sub_run_inv)

text \<open>A step that calls \<open>submit\<close> is an explicit submit or a retry.\<close>

lemma step_sends:
  assumes "sub_inv st" "sub_handle e st = Some st'"
  shows "(\<exists>call. sub_calls st' = sub_calls st @ call) \<and>
    (sent (sub_calls st') \<noteq> sent (sub_calls st) \<longrightarrow>
       (\<exists>c. sub_calls st' = sub_calls st @ [Submit_call c] \<and> \<not> sub_disposed st \<and>
          (e = Submit_event (cmd_requestId c) (cmd_input c) \<and> \<not> sub_busy (sub_store st) \<and> \<not> is_unconfirmed (sub_store st) \<or>
           e = Retry_event \<and> is_unconfirmed (sub_store st) \<and> sub_command st = Some c)))"
  using assms(2) by (cases e) (auto simp: sub_ops split: if_splits sub_wait.splits option.splits submit_answer.splits)

text \<open>C30: Nothing is ever resubmitted automatically: a step that sends a command is an explicit submit while no answer is
  outstanding or unknown, or an explicit retry in the state unconfirmed that sends the very command sent last, after the
  receipt of that command was read. When the request identities of the submits are distinct, one request identity never
  names two different commands.\<close>

theorem sends_are_explicit:
  assumes "sub_run es st" "sub_handle e st = Some st'"
  shows "(sent (sub_calls st') = sent (sub_calls st) \<or>
      (\<exists>c. sub_calls st' = sub_calls st @ [Submit_call c] \<and>
         (e = Submit_event (cmd_requestId c) (cmd_input c) \<and> sub_waits st = [] \<and> \<not> is_unconfirmed (sub_store st) \<or>
          e = Retry_event \<and> is_unconfirmed (sub_store st) \<and> c = last (sent (sub_calls st)) \<and>
            last (sub_calls st) = Receipt_call (cmd_requestId c)))) \<and>
    (distinct [r. Submit_event r input \<leftarrow> es] \<longrightarrow>
       (\<forall>c \<in> set (sent (sub_calls st)). \<forall>c' \<in> set (sent (sub_calls st)). cmd_requestId c = cmd_requestId c' \<longrightarrow> c = c'))"
proof (intro conjI impI ballI)
  have inv: "sub_inv st" and hist: "sent_inv es st" using assms(1) by (simp_all add: sub_run_inv sub_run_sent_inv)
  show "sent (sub_calls st') = sent (sub_calls st) \<or>
      (\<exists>c. sub_calls st' = sub_calls st @ [Submit_call c] \<and>
         (e = Submit_event (cmd_requestId c) (cmd_input c) \<and> sub_waits st = [] \<and> \<not> is_unconfirmed (sub_store st) \<or>
          e = Retry_event \<and> is_unconfirmed (sub_store st) \<and> c = last (sent (sub_calls st)) \<and>
            last (sub_calls st) = Receipt_call (cmd_requestId c)))"
  proof (rule disjCI)
    assume "\<not> (\<exists>c. sub_calls st' = sub_calls st @ [Submit_call c] \<and>
         (e = Submit_event (cmd_requestId c) (cmd_input c) \<and> sub_waits st = [] \<and> \<not> is_unconfirmed (sub_store st) \<or>
          e = Retry_event \<and> is_unconfirmed (sub_store st) \<and> c = last (sent (sub_calls st)) \<and>
            last (sub_calls st) = Receipt_call (cmd_requestId c)))"
    moreover have "\<exists>r m. sub_store st = Unconfirmed r m" if "is_unconfirmed (sub_store st)"
      using that by (cases "sub_store st") auto
    ultimately show "sent (sub_calls st') = sent (sub_calls st)"
      using step_sends [OF inv assms(2)] sub_inv_quiet [OF inv] hist sub_inv_unconfirmed [OF inv]
      by (fastforce simp: sent_inv_def)
  qed
next
  fix c c'
  assume "distinct [r. Submit_event r input \<leftarrow> es]" "c \<in> set (sent (sub_calls st))" "c' \<in> set (sent (sub_calls st))"
    and same: "cmd_requestId c = cmd_requestId c'"
  then have "Submit_event (cmd_requestId c) (cmd_input c) \<in> set es" "Submit_event (cmd_requestId c) (cmd_input c') \<in> set es"
    using sub_run_sent_inv [OF assms(1)] by (auto simp: sent_inv_def)
  moreover have "x = y" if "Submit_event r x \<in> set xs" "Submit_event r y \<in> set xs" "distinct [r. Submit_event r input \<leftarrow> xs]" for r x y xs
    using that
  proof (induction xs)
    case (Cons e es)
    have "r \<in> set [r. Submit_event r input \<leftarrow> es]" if "Submit_event r z \<in> set es" for z using that by force
    then show ?case using Cons by (cases e) auto
  qed simp
  ultimately have "cmd_input c = cmd_input c'" using \<open>distinct _\<close> by blast
  with same show "c = c'" by simp
qed

lemma sends_are_explicit_witness:
  "let e = Submit_event [1] (JStr [2]); lost = Submit_answered 0 (Submit_threw \<lparr>sbe_code = None, sbe_message = None, sbe_outcomeUnknown = True\<rparr>);
       es = [e, lost, Receipt_answered 0 (Some None)] in
   \<exists>st st'. sub_run es st \<and> sub_handle Retry_event st = Some st' \<and>
     sub_calls st' = [Submit_call \<lparr>cmd_requestId = [1], cmd_input = JStr [2]\<rparr>, Receipt_call [1], Submit_call \<lparr>cmd_requestId = [1], cmd_input = JStr [2]\<rparr>] \<and>
     last (sub_calls st) = Receipt_call [1]"
proof -
  let ?e = "Submit_event [1] (JStr [2])"
  let ?lost = "Submit_answered 0 (Submit_threw \<lparr>sbe_code = None, sbe_message = None, sbe_outcomeUnknown = True\<rparr>)"
  let ?read = "Receipt_answered 0 (Some None)"
  define s1 where "s1 = the (sub_handle ?e createSubmissionController)"
  define s2 where "s2 = the (sub_handle ?lost s1)"
  define s3 where "s3 = the (sub_handle ?read s2)"
  define s4 where "s4 = the (sub_handle Retry_event s3)"
  note run = s1_def s2_def s3_def s4_def sub_ops createSubmissionController_def
  have "sub_run [?e] s1" using sub_run.step [OF sub_run.start, of ?e s1] by (simp add: run)
  then have "sub_run [?e, ?lost] s2" using sub_run.step [of "[?e]" s1 ?lost s2] by (simp add: run)
  then have "sub_run [?e, ?lost, ?read] s3" using sub_run.step [of "[?e, ?lost]" s2 ?read s3] by (simp add: run)
  moreover have handle: "sub_handle Retry_event s3 = Some s4" by (simp add: run)
  ultimately have "sent (sub_calls s4) = sent (sub_calls s3) \<or>
      (\<exists>c. sub_calls s4 = sub_calls s3 @ [Submit_call c] \<and> last (sub_calls s3) = Receipt_call (cmd_requestId c))"
    using sends_are_explicit [of "[?e, ?lost, ?read]" s3 Retry_event s4] by auto
  moreover have "sub_calls s4 = [Submit_call \<lparr>cmd_requestId = [1], cmd_input = JStr [2]\<rparr>, Receipt_call [1], Submit_call \<lparr>cmd_requestId = [1], cmd_input = JStr [2]\<rparr>]"
    "sub_calls s3 = [Submit_call \<lparr>cmd_requestId = [1], cmd_input = JStr [2]\<rparr>, Receipt_call [1]]"
    by (simp_all add: run)
  ultimately show ?thesis using \<open>sub_run [?e, ?lost, ?read] s3\<close> handle by auto
qed

section \<open>An author's intent\<close>

text \<open>The contract: an intent is opened by a submit, refused, or published; publication is final.\<close>

datatype intent = No_intent | Open_intent submission_command | Published submission_receipt

inductive intent_step :: "intent \<Rightarrow> intent \<Rightarrow> bool" where
  stutter: "intent_step s s"
| opened: "intent_step No_intent (Open_intent c)"
| refused: "intent_step (Open_intent c) No_intent"
| published: "intent_step (Open_intent c) (Published r)"

inductive_simps intent_step_simps: "intent_step s t"

text \<open>The intent a controller stands for.\<close>

fun intent_of_state :: "submission_state \<Rightarrow> submission_command option \<Rightarrow> intent" where
  "intent_of_state (Submitting r) (Some c) = Open_intent c"
| "intent_of_state (Reconciling r) (Some c) = Open_intent c"
| "intent_of_state (Unconfirmed r m) (Some c) = Open_intent c"
| "intent_of_state (Confirmed r) _ = Published r"
| "intent_of_state _ _ = No_intent"

definition intent_of :: "submission \<Rightarrow> intent" where
  "intent_of st = intent_of_state (sub_store st) (sub_command st)"

lemma intent_simulated:
  assumes "sub_inv st" "sub_handle e st = Some st'"
  shows "intent_step (intent_of st) (intent_of st')"
proof (cases "sub_disposed st")
  case True
  have "sub_refused s \<Longrightarrow> intent_of_state s c = No_intent" for s c by (cases s) auto
  with True show ?thesis using assms(2)
    by (cases e) (auto simp: sub_ops intent_of_def intent_step_simps split: if_splits sub_wait.splits option.splits)
next
  case False
  show ?thesis
  proof (cases e)
    case (Submit_answered i ans)
    with assms(2) obtain c where c: "i < length (sub_waits st)" "sub_waits st ! i = Send_wait c"
      "st' = send_answered c ans (sub_remove i st)"
      by (auto split: if_splits sub_wait.splits)
    with assms(1) have "sub_waits st = [Send_wait c]" using sub_inv_waiting(2) by fastforce
    with sub_inv_send_wait [OF assms(1) _ False] c False show ?thesis
      by (auto simp: sub_ops intent_of_def intent_step_simps split: submit_answer.splits)
  next
    case (Receipt_answered i ans)
    with assms(2) obtain r where r: "i < length (sub_waits st)" "sub_waits st ! i = Reconcile_wait r"
      "st' = reconcile_answered r ans (sub_remove i st)"
      by (auto split: if_splits sub_wait.splits)
    with assms(1) have "sub_waits st = [Reconcile_wait r]" using sub_inv_waiting(2) by fastforce
    with sub_inv_reconcile_wait [OF assms(1) _ False] r False show ?thesis
      by (auto simp: sub_ops intent_of_def intent_step_simps split: option.splits)
  next
    case Retry_event
    with assms False show ?thesis
      by (cases "sub_store st"; cases "sub_command st") (auto simp: sub_ops intent_of_def intent_step_simps sub_inv_def)
  next
    case Check_again
    with assms False show ?thesis
      by (cases "sub_store st"; cases "sub_command st") (auto simp: sub_ops intent_of_def intent_step_simps sub_inv_def)
  next
    case (Submit_event fresh input)
    with assms(2) False show ?thesis
      by (cases "sub_store st") (auto simp: sub_ops intent_of_def intent_step_simps)
  next
    case Reset_event
    with assms(2) False show ?thesis
      by (cases "sub_store st") (auto simp: sub_ops intent_of_def intent_step_simps)
  next
    case (Report_failure code message)
    with assms(2) False show ?thesis
      by (cases "sub_store st") (auto simp: sub_ops intent_of_def intent_step_simps)
  next
    case Dispose_event
    with assms(2) False show ?thesis
      by (cases "sub_store st") (auto simp: sub_ops intent_of_def intent_step_simps)
  qed
qed

text \<open>C31: The controller implements the author's intent: every step of a reachable controller opens an intent, keeps it,
  refuses it or publishes it, and a published intent stays published with the same receipt, without another call to the
  account, whatever happens next.\<close>

theorem submission_refines_intent:
  assumes "sub_run es st" "sub_handle e st = Some st'"
  shows "intent_step (intent_of st) (intent_of st') \<and>
    (intent_of st = Published receipt \<longrightarrow> intent_of st' = Published receipt \<and> (\<not> sub_disposed st \<longrightarrow> sub_calls st' = sub_calls st \<and> sub_waits st' = []))"
proof (intro conjI impI)
  have inv: "sub_inv st" using assms(1) by (rule sub_run_inv)
  show step: "intent_step (intent_of st) (intent_of st')" by (rule intent_simulated [OF inv assms(2)])
  assume pub: "intent_of st = Published receipt"
  then show "intent_of st' = Published receipt" using step by (simp add: intent_step_simps)
  assume live: "\<not> sub_disposed st"
  have "\<exists>r. sub_store st = Confirmed r" using pub
    by (cases "(sub_store st, sub_command st)" rule: intent_of_state.cases) (auto simp: intent_of_def)
  with inv live assms(2) show "sub_calls st' = sub_calls st" "sub_waits st' = []"
    by (cases e; auto simp: sub_ops sub_inv_def)+
qed

lemma submission_refines_intent_witness:
  "let r = \<lparr>rct_requestId = [1], rct_body = JNull\<rparr>; es = [Submit_event [1] JNull, Submit_answered 0 (Submit_confirmed r)] in
   \<exists>st st'. sub_run es st \<and> intent_of st = Published r \<and> sub_handle (Submit_event [2] JNull) st = Some st' \<and> intent_of st' = Published r"
proof -
  let ?r = "\<lparr>rct_requestId = [1], rct_body = JNull\<rparr>"
  let ?e = "Submit_event [1] JNull" and ?a = "Submit_answered 0 (Submit_confirmed ?r)" and ?again = "Submit_event [2] JNull"
  define s1 where "s1 = the (sub_handle ?e createSubmissionController)"
  define s2 where "s2 = the (sub_handle ?a s1)"
  note run = s1_def s2_def sub_ops createSubmissionController_def
  have "sub_run [?e] s1" using sub_run.step [OF sub_run.start, of ?e s1] by (simp add: run)
  then have reached: "sub_run [?e, ?a] s2" using sub_run.step [of "[?e]" s1 ?a s2] by (simp add: run)
  have "intent_of s2 = Published ?r" by (simp add: run intent_of_def)
  moreover obtain s3 where "sub_handle ?again s2 = Some s3" by simp
  moreover have "intent_of s3 = Published ?r"
    using submission_refines_intent [OF reached \<open>sub_handle ?again s2 = Some s3\<close>] \<open>intent_of s2 = _\<close> by blast
  ultimately show ?thesis using reached unfolding Let_def by blast
qed

section \<open>Waiting ends\<close>

fun wait_rank :: "sub_wait \<Rightarrow> nat" where
  "wait_rank (Send_wait _) = 2"
| "wait_rank (Reconcile_wait _) = 1"

fun is_answer :: "sub_event \<Rightarrow> bool" where
  "is_answer (Submit_answered i ans) \<longleftrightarrow> True"
| "is_answer (Receipt_answered i ans) \<longleftrightarrow> True"
| "is_answer _ \<longleftrightarrow> False"

text \<open>Every answer brings the controller nearer to a state in which it waits for nothing; there are at most two.\<close>

lemma answers_settle:
  assumes "sub_run es st" "sub_handle e st = Some st'" "is_answer e"
  shows "sum_list (map wait_rank (sub_waits st')) < sum_list (map wait_rank (sub_waits st)) \<and> sum_list (map wait_rank (sub_waits st)) \<le> 2"
proof -
  have inv: "sub_inv st" using assms(1) by (rule sub_run_inv)
  from assms(2,3) obtain w where "i < length (sub_waits st) \<Longrightarrow> sub_waits st ! i = w" and "length (sub_waits st) \<noteq> 0" for i
    using sub_inv_waiting(1) [OF inv] by (cases e) (fastforce split: if_splits)+
  then have "sub_waits st = [w]" using inv by (auto simp: sub_inv_def le_Suc_eq length_Suc_conv)
  with assms(2,3) show ?thesis
    by (cases e; cases w) (auto simp: sub_ops split: if_splits option.splits submit_answer.splits)
qed

end
