(* ===== verification/EditReadiness.thy ===== *)
theory EditReadiness
  imports Prelude
begin

text \<open>
  Readiness of edit derivatives (\<open>apps/web/features/publishing/edit-readiness.ts\<close>): the derivation signatures of a draft's
  items, what an answer says of an item, the derivative paths, and the tracker of \<open>createEditReadinessTracker\<close> as a record
  with one definition per function and one continuation per \<open>await\<close>. A number is its printed form, which is what
  \<open>JSON.stringify\<close> compares; a signature is the value it prints. The function \<open>options.content\<close> is an argument of every
  operation that calls it. The ghost field \<open>er_told\<close> keeps, for the statements only, the checks that were answered and the
  calls of \<open>markPending\<close>.
\<close>

section \<open>Derivation signatures\<close>

record media_crop =
  crp_x :: jstr
  crp_y :: jstr
  crp_width :: jstr
  crp_height :: jstr

record draft_item =
  itm_key :: jstr
  itm_rotation :: nat
  itm_crop :: "media_crop option"

record album =
  alb_items :: "draft_item list"
  alb_coverKey :: "jstr option"
  alb_coverCrop :: "media_crop option"

type_synonym signature = "nat \<times> media_crop option \<times> media_crop option"

definition derivationSignature :: "draft_item \<Rightarrow> album \<Rightarrow> signature option" where
  "derivationSignature item content =
     (let coverCrop = (if alb_coverKey content = Some (itm_key item) then alb_coverCrop content else None) in
      if itm_rotation item = 0 \<and> itm_crop item = None \<and> coverCrop = None then None
      else Some (itm_rotation item, itm_crop item, coverCrop))"

text \<open>\<open>Object.fromEntries\<close>: a repeated key keeps its place and takes the later value; keys that are array indices come
  first, in their numeric order.\<close>

fun object_put :: "jstr \<Rightarrow> 'v \<Rightarrow> (jstr \<times> 'v) list \<Rightarrow> (jstr \<times> 'v) list" where
  "object_put k v [] = [(k, v)]"
| "object_put k v ((k', v') # fs) = (if k' = k then (k, v) # fs else (k', v') # object_put k v fs)"

definition decimal_value :: "jstr \<Rightarrow> nat" where
  "decimal_value s = foldl (\<lambda>n c. 10 * n + (c - 48)) 0 s"

definition array_index :: "jstr \<Rightarrow> bool" where
  "array_index s \<longleftrightarrow> s \<noteq> [] \<and> list_all is_digit s \<and> (hd s \<noteq> 48 \<or> length s = 1) \<and> decimal_value s < 2 ^ 32 - 1"

definition fromEntries :: "(jstr \<times> 'v) list \<Rightarrow> (jstr \<times> 'v) list" where
  "fromEntries fs =
     (let obj = fold (\<lambda>(k, v). object_put k v) fs [] in
      sort_key (decimal_value \<circ> fst) (filter (array_index \<circ> fst) obj) @ filter (\<lambda>f. \<not> array_index (fst f)) obj)"

type_synonym signatures = "(jstr \<times> signature option) list"

definition derivationSignatures :: "album \<Rightarrow> signatures" where
  "derivationSignatures content = fromEntries (map (\<lambda>item. (itm_key item, derivationSignature item content)) (alb_items content))"

definition needsDerivation :: "album \<Rightarrow> bool" where
  "needsDerivation content = list_ex (\<lambda>item. derivationSignature item content \<noteq> None) (alb_items content)"

section \<open>Answers\<close>

record readiness_answer =
  ans_ready :: bool
  ans_pending :: "jstr list"
  ans_failed :: "jstr list"
  ans_editKeys :: "jstr \<rightharpoonup> jstr"
  ans_signatures :: signatures

datatype readiness_status = Idle | Checking | Ready | Not_ready | Unavailable

record readiness_state =
  rds_status :: readiness_status
  rds_answered :: "readiness_answer option"

definition IDLE_EDIT_READINESS :: readiness_state where
  "IDLE_EDIT_READINESS = \<lparr>rds_status = Idle, rds_answered = None\<rparr>"

datatype item_derivation = Derives_none | Derives_pending | Derives_failed | Derives_ready

definition answer_covers :: "readiness_answer \<Rightarrow> jstr \<Rightarrow> signature option \<Rightarrow> bool" where
  "answer_covers answer key signature \<longleftrightarrow> map_of (ans_signatures answer) key = Some signature"

definition itemDerivation :: "draft_item \<Rightarrow> album \<Rightarrow> readiness_state option \<Rightarrow> item_derivation" where
  "itemDerivation item content state =
     (let signature = derivationSignature item content in
      case Option.bind state rds_answered of
        None \<Rightarrow> if signature = None then Derives_none else Derives_pending
      | Some answer \<Rightarrow>
          (if \<not> answer_covers answer (itm_key item) signature then (if signature = None then Derives_none else Derives_pending)
           else if itm_key item \<in> set (ans_pending answer) then Derives_pending
           else if itm_key item \<in> set (ans_failed answer) then Derives_failed
           else if signature = None then Derives_none else Derives_ready))"

definition itemEditKey :: "draft_item \<Rightarrow> album \<Rightarrow> readiness_state option \<Rightarrow> jstr option" where
  "itemEditKey item content state =
     (if itemDerivation item content state = Derives_ready
      then Option.bind (Option.bind state rds_answered) (\<lambda>answer. ans_editKeys answer (itm_key item)) else None)"

text \<open>The pattern of a derivative path: a fixed root, 32 lower-case hexadecimal digits, the derivative, and \<open>base\<close> or an
  edit key of 32 digits; the result is the captured part before the last segment.\<close>

definition lower_hex :: "nat \<Rightarrow> bool" where
  "lower_hex c \<longleftrightarrow> is_digit c \<or> 97 \<le> c \<and> c \<le> 102"

definition media_root :: jstr where
  "media_root = js ''/api/community/publishing/media/media-item-''"

definition derivative_names :: "jstr list" where
  "derivative_names = [js ''thumb'', js ''display'', js ''full'', js ''motion'', js ''cover'']"

definition edit_segment :: "jstr \<Rightarrow> bool" where
  "edit_segment s \<longleftrightarrow> s = js ''base'' \<or> length s = 32 \<and> list_all lower_hex s"

definition match_derivative :: "jstr \<Rightarrow> jstr option" where
  "match_derivative src =
     (let root = length media_root; rest = drop (root + 32) src in
      if \<not> starts_with src media_root \<or> length (take 32 (drop root src)) \<noteq> 32 \<or> \<not> list_all lower_hex (take 32 (drop root src)) then None
      else
        map_option (\<lambda>name. take (root + 32) src @ [47] @ name)
          (find (\<lambda>name. starts_with rest ([47] @ name @ [47]) \<and> edit_segment (drop (length name + 2) rest)) derivative_names))"

definition withEditKey :: "jstr \<Rightarrow> jstr \<Rightarrow> jstr" where
  "withEditKey src editKey = (case match_derivative src of None \<Rightarrow> src | Some prefix \<Rightarrow> prefix @ [47] @ editKey)"

section \<open>The tracker\<close>

definition EDIT_READINESS_DEBOUNCE_MS :: nat where "EDIT_READINESS_DEBOUNCE_MS = 1000"
definition EDIT_READINESS_POLL_MS :: "nat list" where "EDIT_READINESS_POLL_MS = [1000, 2000, 3000, 5000]"
definition EDIT_READINESS_MAX_FAILURES :: nat where "EDIT_READINESS_MAX_FAILURES = 5"

text \<open>What \<open>check\<close> resolves to, without the signatures. \<open>Told_answer\<close> is an answered check with the content it was asked
  about; \<open>Marked\<close> is a call of \<open>markPending\<close>, with the content the tracker read in it: the account was asked about the
  content that had been submitted, which may be an earlier one.\<close>

record account_answer =
  acc_ready :: bool
  acc_pending :: "jstr list"
  acc_failed :: "jstr list"
  acc_editKeys :: "jstr \<rightharpoonup> jstr"

datatype told = Told_answer album account_answer | Marked album "jstr list"

record flight =
  flt_id :: nat
  flt_content :: album
  flt_signatures :: signatures

record tracker =
  er_store :: readiness_state
  er_disposed :: bool
  er_timer :: "nat option"
  er_run :: nat
  er_pollAttempt :: nat
  er_failures :: nat
  er_forced :: bool
  er_scheduledKey :: "signatures option option"
  er_flights :: "flight list"
  er_told :: "told list"

definition createEditReadinessTracker :: tracker where
  "createEditReadinessTracker =
     \<lparr>er_store = IDLE_EDIT_READINESS, er_disposed = False, er_timer = None, er_run = 0, er_pollAttempt = 0, er_failures = 0,
      er_forced = False, er_scheduledKey = None, er_flights = [], er_told = []\<rparr>"

text \<open>The empty string of no content is \<open>None\<close>.\<close>

definition contentKey :: "album option \<Rightarrow> signatures option" where
  "contentKey content = map_option derivationSignatures content"

definition er_clearTimer :: "tracker \<Rightarrow> tracker" where
  "er_clearTimer st = st\<lparr>er_timer := None\<rparr>"

definition er_set :: "readiness_status \<Rightarrow> readiness_answer option \<Rightarrow> tracker \<Rightarrow> tracker" where
  "er_set status answered st = (if er_disposed st then st else st\<lparr>er_store := \<lparr>rds_status = status, rds_answered = answered\<rparr>\<rparr>)"

definition wanted :: "tracker \<Rightarrow> album option \<Rightarrow> bool" where
  "wanted st content = (case content of None \<Rightarrow> False | Some c \<Rightarrow> er_forced st \<or> needsDerivation c)"

definition er_later :: "nat \<Rightarrow> tracker \<Rightarrow> tracker" where
  "er_later ms st = (er_clearTimer st)\<lparr>er_timer := Some ms\<rparr>"

abbreviation er_answered :: "tracker \<Rightarrow> readiness_answer option" where
  "er_answered st \<equiv> rds_answered (er_store st)"

abbreviation er_status :: "tracker \<Rightarrow> readiness_status" where
  "er_status st \<equiv> rds_status (er_store st)"

text \<open>\<open>ask\<close> up to its \<open>await\<close>.\<close>

definition ask :: "album option \<Rightarrow> tracker \<Rightarrow> tracker" where
  "ask content st =
     (if er_disposed st \<or> \<not> wanted st content then st
      else
        (let c = the content; st = st\<lparr>er_run := er_run st + 1\<rparr>; st' = er_set Checking (er_answered st) st in
         st'\<lparr>er_flights := er_flights st' @ [\<lparr>flt_id = er_run st, flt_content = c, flt_signatures = derivationSignatures c\<rparr>]\<rparr>))"

text \<open>The three ways the awaited check ends.\<close>

definition check_threw :: "flight \<Rightarrow> tracker \<Rightarrow> tracker" where
  "check_threw f st =
     (if er_disposed st \<or> flt_id f \<noteq> er_run st then st
      else
        (let st = st\<lparr>er_failures := er_failures st + 1\<rparr> in
         if er_failures st \<ge> EDIT_READINESS_MAX_FAILURES then er_set Unavailable (er_answered st) st
         else er_later (EDIT_READINESS_POLL_MS ! (length EDIT_READINESS_POLL_MS - 1)) st))"

definition check_null :: "flight \<Rightarrow> tracker \<Rightarrow> tracker" where
  "check_null f st =
     (if er_disposed st \<or> flt_id f \<noteq> er_run st then st
      else er_set (if er_answered st = None then Idle else er_status st) (er_answered st) st)"

definition check_answered :: "flight \<Rightarrow> account_answer \<Rightarrow> tracker \<Rightarrow> tracker" where
  "check_answered f answer st =
     (if er_disposed st \<or> flt_id f \<noteq> er_run st then st
      else
        (let st = st\<lparr>er_failures := 0, er_forced := er_forced st \<and> \<not> acc_ready answer\<rparr>;
             st = er_set (if acc_ready answer then Ready else Not_ready)
               (Some \<lparr>ans_ready = acc_ready answer, ans_pending = acc_pending answer, ans_failed = acc_failed answer,
                  ans_editKeys = acc_editKeys answer, ans_signatures = flt_signatures f\<rparr>) st in
         if acc_pending answer \<noteq> [] then
           er_later (EDIT_READINESS_POLL_MS ! min (er_pollAttempt st) (length EDIT_READINESS_POLL_MS - 1))
             (st\<lparr>er_pollAttempt := er_pollAttempt st + 1\<rparr>)
         else st))"

definition er_schedule :: "album option \<Rightarrow> tracker \<Rightarrow> tracker" where
  "er_schedule content st =
     (let key = contentKey content; answered = er_answered st in
      if er_disposed st then st
      else if Some key = er_scheduledKey st \<and>
        (er_timer st \<noteq> None \<or> er_status st = Checking \<or> (\<exists>a. answered = Some a \<and> Some (ans_signatures a) = key)) then st
      else
        (let st = st\<lparr>er_scheduledKey := Some key, er_pollAttempt := 0, er_failures := 0, er_run := er_run st + 1\<rparr> in
         if \<not> wanted st content then
           (let st = er_clearTimer st in if er_status st = Checking then er_set Idle answered st else st)
         else er_later EDIT_READINESS_DEBOUNCE_MS st))"

definition er_poke :: "album option \<Rightarrow> tracker \<Rightarrow> tracker" where
  "er_poke content st =
     (if er_disposed st \<or> er_timer st \<noteq> None \<or> er_status st = Checking \<or> \<not> wanted st content then st
      else ask content (st\<lparr>er_pollAttempt := 0\<rparr>))"

definition markPending :: "album option \<Rightarrow> jstr list \<Rightarrow> tracker \<Rightarrow> tracker" where
  "markPending content itemKeys st =
     (case content of
        None \<Rightarrow> st
      | Some c \<Rightarrow>
          if er_disposed st then st
          else
            (let st = st\<lparr>er_forced := True\<rparr>;
                 st = er_set Not_ready
                   (Some \<lparr>ans_ready = False, ans_pending = itemKeys, ans_failed = [],
                      ans_editKeys = (case er_answered st of None \<Rightarrow> Map.empty | Some a \<Rightarrow> ans_editKeys a),
                      ans_signatures = derivationSignatures c\<rparr>) st;
                 st = st\<lparr>er_scheduledKey := Some (contentKey content), er_pollAttempt := 1, er_failures := 0, er_run := er_run st + 1\<rparr> in
             er_later (EDIT_READINESS_POLL_MS ! 0) st))"

definition er_dispose :: "tracker \<Rightarrow> tracker" where
  "er_dispose st = er_clearTimer (st\<lparr>er_disposed := True\<rparr>)"

section \<open>Steps\<close>

text \<open>The continuation of a check removes it from the ones in flight; answered checks and calls of \<open>markPending\<close> are kept in
  \<open>er_told\<close>.\<close>

datatype readiness_event =
    Schedule
  | Poke
  | Mark_pending "jstr list"
  | Dispose
  | Timer_fires
  | Check_threw nat
  | Check_null nat
  | Check_answered nat account_answer

definition er_land :: "nat \<Rightarrow> tracker \<Rightarrow> tracker" where
  "er_land i st = st\<lparr>er_flights := take i (er_flights st) @ drop (Suc i) (er_flights st)\<rparr>"

definition er_tell :: "told \<Rightarrow> tracker \<Rightarrow> tracker" where
  "er_tell t st = st\<lparr>er_told := er_told st @ [t]\<rparr>"

fun er_handle :: "album option \<Rightarrow> readiness_event \<Rightarrow> tracker \<Rightarrow> tracker option" where
  "er_handle content Schedule st = Some (er_schedule content st)"
| "er_handle content Poke st = Some (er_poke content st)"
| "er_handle content (Mark_pending keys) st =
     Some (markPending content keys (case content of None \<Rightarrow> st | Some c \<Rightarrow> er_tell (Marked c keys) st))"
| "er_handle content Dispose st = Some (er_dispose st)"
| "er_handle content Timer_fires st = (if er_timer st = None then None else Some (ask content (st\<lparr>er_timer := None\<rparr>)))"
| "er_handle content (Check_threw i) st =
     (if i < length (er_flights st) then Some (check_threw (er_flights st ! i) (er_land i st)) else None)"
| "er_handle content (Check_null i) st =
     (if i < length (er_flights st) then Some (check_null (er_flights st ! i) (er_land i st)) else None)"
| "er_handle content (Check_answered i answer) st =
     (if i < length (er_flights st)
      then Some (check_answered (er_flights st ! i) answer (er_tell (Told_answer (flt_content (er_flights st ! i)) answer) (er_land i st)))
      else None)"

inductive er_reachable :: "tracker \<Rightarrow> bool" where
  start: "er_reachable createEditReadinessTracker"
| step: "er_reachable st \<Longrightarrow> er_handle content e st = Some st' \<Longrightarrow> er_reachable st'"

lemmas er_ops =
  er_clearTimer_def er_set_def er_later_def ask_def check_threw_def check_null_def check_answered_def er_schedule_def er_poke_def
  markPending_def er_dispose_def er_land_def er_tell_def Let_def

end
