(* ===== verification/ReadinessGuarantees.thy ===== *)
theory ReadinessGuarantees
  imports EditReadiness "HOL-Library.Multiset"
begin

text \<open>
  What the readiness tracker promises: an item is shown ready only when an answered check said so of this very edit, or when
  a refused submission did not name it; one
  request counts at a time, never beside a waiting poll, and polls are bounded; an edit that settles is confirmed by the
  next answer. The last section holds the state in which a check that could not be asked leaves the tracker.
\<close>

section \<open>Signatures as a map\<close>

lemma map_of_object_put: "map_of (object_put k v fs) = (map_of fs)(k \<mapsto> v)"
  by (induction k v fs rule: object_put.induct) auto

lemma keys_object_put: "fst ` set (object_put k v fs) = insert k (fst ` set fs)"
  by (induction k v fs rule: object_put.induct) auto

lemma distinct_object_put: "distinct (map fst fs) \<Longrightarrow> distinct (map fst (object_put k v fs))"
proof (induction k v fs rule: object_put.induct)
  case (2 k v k' v' fs)
  have "k' \<notin> fst ` set (object_put k v fs)" if "k' \<noteq> k" using 2(2) that by (simp add: keys_object_put)
  with 2 show ?case by auto
qed simp

lemma fold_object_put:
  "distinct (map fst obj) \<Longrightarrow>
   distinct (map fst (fold (\<lambda>(k, v). object_put k v) fs obj)) \<and>
   map_of (fold (\<lambda>(k, v). object_put k v) fs obj) = map_of obj ++ map_of (rev fs)"
  by (induction fs arbitrary: obj) (auto simp: distinct_object_put map_of_object_put)

text \<open>Reordering the fields of an object keeps what they hold.\<close>

lemma map_of_fromEntries: "map_of (fromEntries fs) = map_of (rev fs)"
proof -
  define obj where "obj = fold (\<lambda>(k, v). object_put k v) fs []"
  have obj: "distinct (map fst obj)" "map_of obj = map_of (rev fs)" using fold_object_put [of "[]" fs] by (simp_all add: obj_def)
  have entries: "fromEntries fs = sort_key (decimal_value \<circ> fst) (filter (array_index \<circ> fst) obj) @ filter (\<lambda>f. \<not> array_index (fst f)) obj"
    by (simp add: fromEntries_def obj_def Let_def)
  have same: "mset (fromEntries fs) = mset obj" unfolding entries by (induction obj) auto
  then have "set (fromEntries fs) = set obj" by (rule mset_eq_setD)
  moreover have "distinct (map fst (fromEntries fs))" using obj(1) same by (metis mset_eq_imp_distinct_iff mset_map)
  ultimately have "map_of (fromEntries fs) k = Some v \<longleftrightarrow> map_of obj k = Some v" for k v using obj(1) by simp
  then have "map_of (fromEntries fs) k = map_of obj k" for k by (metis not_Some_eq)
  then show ?thesis using obj(2) by auto
qed

lemma derivationSignatures_lookup:
  assumes "map_of (derivationSignatures c) k = Some sig"
  shows "\<exists>item \<in> set (alb_items c). itm_key item = k \<and> derivationSignature item c = sig"
  using map_of_SomeD [of "rev (map (\<lambda>item. (itm_key item, derivationSignature item c)) (alb_items c))" k sig] assms
  by (auto simp: derivationSignatures_def map_of_fromEntries)

lemma derivationSignatures_distinct:
  assumes "distinct (map itm_key (alb_items c))" "item \<in> set (alb_items c)"
  shows "map_of (derivationSignatures c) (itm_key item) = Some (derivationSignature item c)"
proof -
  let ?fs = "rev (map (\<lambda>item. (itm_key item, derivationSignature item c)) (alb_items c))"
  have "map fst ?fs = rev (map itm_key (alb_items c))" by (simp add: rev_map comp_def)
  then have "distinct (map fst ?fs)" using assms(1) by (simp only: distinct_rev)
  then show ?thesis using assms(2) by (auto simp: derivationSignatures_def map_of_fromEntries intro!: map_of_is_SomeI)
qed

section \<open>Invariant\<close>

fun told_content :: "told \<Rightarrow> album" where
  "told_content (Told_answer c a) = c"
| "told_content (Marked c keys) = c"

fun told_ready :: "told \<Rightarrow> bool" where
  "told_ready (Told_answer c a) = acc_ready a"
| "told_ready (Marked c keys) = False"

fun told_names :: "told \<Rightarrow> jstr set" where
  "told_names (Told_answer c a) = set (acc_pending a) \<union> set (acc_failed a)"
| "told_names (Marked c keys) = set keys"

text \<open>Identities of the checks in flight.\<close>

abbreviation flight_ids :: "tracker \<Rightarrow> nat list" where
  "flight_ids st \<equiv> map flt_id (er_flights st)"

text \<open>The answer that is shown is that of a check or written by \<open>markPending\<close>; checks in flight are numbered; a poll waits only beside no live check.\<close>

definition shown_told :: "tracker \<Rightarrow> bool" where
  "shown_told st \<longleftrightarrow>
     (case er_answered st of None \<Rightarrow> True
      | Some a \<Rightarrow> \<exists>t \<in> set (er_told st). ans_signatures a = derivationSignatures (told_content t) \<and> set (ans_pending a) \<union> set (ans_failed a) = told_names t
          \<and> ans_ready a = told_ready t)"

definition flights_numbered :: "tracker \<Rightarrow> bool" where
  "flights_numbered st \<longleftrightarrow>
     (\<forall>f \<in> set (er_flights st). flt_signatures f = derivationSignatures (flt_content f) \<and> flt_id f \<le> er_run st) \<and> distinct (flight_ids st)"

definition poll_waits :: "tracker \<Rightarrow> bool" where
  "poll_waits st \<longleftrightarrow>
     (case er_timer st of None \<Rightarrow> True
      | Some ms \<Rightarrow> ms \<in> set EDIT_READINESS_POLL_MS \<and> er_run st \<notin> set (flight_ids st) \<and> er_failures st < EDIT_READINESS_MAX_FAILURES \<and> \<not> er_disposed st)"

definition er_inv :: "tracker \<Rightarrow> bool" where
  "er_inv st \<longleftrightarrow> shown_told st \<and> flights_numbered st \<and> poll_waits st"

lemmas er_inv_defs = er_inv_def shown_told_def flights_numbered_def poll_waits_def

lemma er_inv_start: "er_inv createEditReadinessTracker"
  by (simp add: er_inv_defs createEditReadinessTracker_def IDLE_EDIT_READINESS_def)

lemma poll_delays [simp]:
  "EDIT_READINESS_POLL_MS ! min n (length EDIT_READINESS_POLL_MS - 1) \<in> set EDIT_READINESS_POLL_MS"
  "EDIT_READINESS_POLL_MS ! (length EDIT_READINESS_POLL_MS - 1) \<in> set EDIT_READINESS_POLL_MS"
  "EDIT_READINESS_POLL_MS ! 0 \<in> set EDIT_READINESS_POLL_MS" "EDIT_READINESS_DEBOUNCE_MS \<in> set EDIT_READINESS_POLL_MS"
  "0 < EDIT_READINESS_MAX_FAILURES"
  by (rule nth_mem, simp_all add: EDIT_READINESS_POLL_MS_def EDIT_READINESS_DEBOUNCE_MS_def EDIT_READINESS_MAX_FAILURES_def)

lemma ask_inv: "er_inv st \<Longrightarrow> er_timer st = None \<Longrightarrow> er_inv (ask content st)"
  by (auto simp: er_inv_defs ask_def er_set_def Let_def split: option.splits)

lemmas poll_delays_Suc [simp] = poll_delays(1,2) [unfolded One_nat_def]

text \<open>A new run makes every check in flight stale.\<close>

lemma stale_ids: "flights_numbered st \<Longrightarrow> Suc (er_run st) \<notin> set (flight_ids st)"
  by (force simp: flights_numbered_def)

lemma er_schedule_inv:
  assumes "er_inv st" "\<not> er_disposed st"
  shows "er_inv (er_schedule content st)"
proof -
  define st1 where "st1 = st\<lparr>er_scheduledKey := Some (contentKey content), er_pollAttempt := 0, er_failures := 0, er_run := er_run st + 1\<rparr>"
  have "er_schedule content st = st \<or> er_schedule content st = er_clearTimer st1 \<or>
      er_schedule content st = er_set Idle (er_answered st) (er_clearTimer st1) \<or> er_schedule content st = er_later EDIT_READINESS_DEBOUNCE_MS st1"
    unfolding er_schedule_def st1_def Let_def by (simp only: assms(2) if_False split: if_split) blast
  moreover have "er_inv (er_clearTimer st1)" "er_inv (er_set Idle (er_answered st) (er_clearTimer st1))"
    "er_inv (er_later EDIT_READINESS_DEBOUNCE_MS st1)"
    using assms stale_ids [of st] by (auto simp: st1_def er_inv_defs er_set_def er_clearTimer_def er_later_def le_SucI split: option.splits)
  ultimately show ?thesis using assms(1) by metis
qed

lemma markPending_inv:
  assumes "er_inv st"
  shows "er_inv (markPending (Some c) keys (er_tell (Marked c keys) st))"
  using assms stale_ids [of st]
  by (auto simp: markPending_def Let_def er_inv_defs er_set_def er_clearTimer_def er_later_def er_tell_def le_SucI split: option.splits)

lemma set_removed: "set (take i xs @ drop (Suc i) xs) \<subseteq> set xs"
  by (auto dest: in_set_takeD in_set_dropD)

lemma distinct_removed:
  "i < length xs \<Longrightarrow> distinct xs \<Longrightarrow> distinct (take i xs @ drop (Suc i) xs) \<and> xs ! i \<notin> set (take i xs @ drop (Suc i) xs)"
  by (subst (asm) id_take_nth_drop [of i xs]) auto

text \<open>When a check lands, it is removed; if it was the live one, none is left and no poll waits.\<close>

lemma land_inv:
  assumes "er_inv st" "i < length (er_flights st)"
  shows "er_inv (er_land i st)"
    "flt_id (er_flights st ! i) = er_run st \<Longrightarrow> er_run st \<notin> set (flight_ids (er_land i st)) \<and> er_timer st = None"
    "flt_signatures (er_flights st ! i) = derivationSignatures (flt_content (er_flights st ! i))"
proof -
  let ?ids = "flight_ids st"
  have ids: "flight_ids (er_land i st) = take i ?ids @ drop (Suc i) ?ids" by (simp add: er_land_def take_map drop_map)
  have "distinct ?ids" "i < length ?ids" using assms by (simp_all add: er_inv_defs)
  note removed = distinct_removed [OF this(2,1)] set_removed [of i ?ids]
  have sub: "set (er_flights (er_land i st)) \<subseteq> set (er_flights st)" using set_removed [of i "er_flights st"] by (simp add: er_land_def)
  show "er_inv (er_land i st)"
    using assms sub removed ids by (auto simp: er_inv_def shown_told_def flights_numbered_def poll_waits_def er_land_def split: option.splits)
  show "er_run st \<notin> set (flight_ids (er_land i st)) \<and> er_timer st = None" if "flt_id (er_flights st ! i) = er_run st"
  proof -
    have "?ids ! i = er_run st" "er_run st \<in> set ?ids" using that assms(2) nth_mem [of i ?ids] by simp_all
    then show ?thesis using removed(1) assms(1) unfolding ids by (auto simp: er_inv_def poll_waits_def split: option.splits)
  qed
  show "flt_signatures (er_flights st ! i) = derivationSignatures (flt_content (er_flights st ! i))"
    using assms nth_mem [OF assms(2)] by (auto simp: er_inv_defs)
qed

lemma landed_inv:
  assumes "er_inv st" "flt_id f = er_run st \<longrightarrow> er_run st \<notin> set (flight_ids st) \<and> er_timer st = None"
    "flt_signatures f = derivationSignatures (flt_content f)"
  shows "er_inv (check_threw f st)" "er_inv (check_null f st)"
    "er_inv (check_answered f answer (er_tell (Told_answer (flt_content f) answer) st))"
proof -
  show "er_inv (check_null f st)" using assms(1) by (auto simp: er_inv_defs check_null_def er_set_def split: option.splits)
  show "er_inv (check_threw f st)" using assms(1,2)
    by (auto simp: er_inv_defs check_threw_def Let_def er_set_def er_later_def er_clearTimer_def split: option.splits)
  have "er_inv (er_tell (Told_answer (flt_content f) answer) st)"
    using assms(1) by (auto simp: er_inv_defs er_tell_def split: option.splits)
  then show "er_inv (check_answered f answer (er_tell (Told_answer (flt_content f) answer) st))" using assms(2,3)
    by (auto simp: er_inv_defs check_answered_def Let_def er_set_def er_later_def er_clearTimer_def er_tell_def split: option.splits)
qed

lemma er_handle_inv:
  assumes "er_inv st" "er_handle content e st = Some st'"
  shows "er_inv st'"
proof (cases e)
  case Schedule
  have "er_schedule content st = st" if "er_disposed st" using that by (simp add: er_schedule_def)
  with Schedule assms show ?thesis by (cases "er_disposed st") (auto intro: er_schedule_inv)
next
  case Timer_fires
  have "er_inv (st\<lparr>er_timer := None\<rparr>)" using assms(1) by (auto simp: er_inv_defs split: option.splits)
  with Timer_fires assms(2) show ?thesis by (auto split: if_splits intro: ask_inv)
next
  case Poke
  have "er_inv (st\<lparr>er_pollAttempt := 0\<rparr>)" using assms(1) by (auto simp: er_inv_defs split: option.splits)
  with Poke assms show ?thesis by (auto simp: er_poke_def split: if_splits intro!: ask_inv)
next
  case (Mark_pending keys)
  show ?thesis
  proof (cases content)
    case None
    with Mark_pending assms show ?thesis by (simp add: markPending_def)
  next
    case (Some c)
    with Mark_pending assms(2) have "st' = markPending (Some c) keys (er_tell (Marked c keys) st)" by simp
    then show ?thesis using markPending_inv [OF assms(1)] by blast
  qed
next
  case Dispose
  with assms show ?thesis by (auto simp: er_dispose_def er_clearTimer_def er_inv_defs split: option.splits)
next
  case (Check_threw i)
  with assms(2) have "i < length (er_flights st)" "st' = check_threw (er_flights st ! i) (er_land i st)" by (auto split: if_splits)
  with land_inv [OF assms(1)] show ?thesis by (auto intro!: landed_inv simp: er_land_def)
next
  case (Check_null i)
  with assms(2) have "i < length (er_flights st)" "st' = check_null (er_flights st ! i) (er_land i st)" by (auto split: if_splits)
  with land_inv [OF assms(1)] show ?thesis by (auto intro!: landed_inv simp: er_land_def)
next
  case (Check_answered i answer)
  with assms(2) have "i < length (er_flights st)"
    "st' = check_answered (er_flights st ! i) answer (er_tell (Told_answer (flt_content (er_flights st ! i)) answer) (er_land i st))"
    by (auto split: if_splits)
  with land_inv [OF assms(1)] show ?thesis by (auto intro!: landed_inv(3) simp: er_land_def)
qed

lemma er_reachable_inv: "er_reachable st \<Longrightarrow> er_inv st"
  by (induction rule: er_reachable.induct) (auto intro: er_inv_start er_handle_inv)

section \<open>Guarantees\<close>

text \<open>C32: An item is shown with its edit derivatives ready only when a check of a content with an item of this key and this
  derivation (rotation, crop, cover crop) was answered and named the item neither pending nor failed, or when \<open>markPending\<close>,
  after a refused submission that did not name the item, read a content with that item and derivation. So an edit made after a
  check was asked is never covered by its answer; an edit made between a submission and its refusal is, although nothing
  has confirmed it (\<open>marked_without_check\<close>). When the answer shown says everything is ready, it is that of a check.\<close>

theorem ready_was_confirmed:
  assumes "er_reachable st" "itemDerivation item content (Some (er_store st)) = Derives_ready"
  shows "derivationSignature item content \<noteq> None \<and>
    ((\<exists>asked answer. Told_answer asked answer \<in> set (er_told st) \<and>
        itm_key item \<notin> set (acc_pending answer) \<union> set (acc_failed answer) \<and>
        (\<exists>i \<in> set (alb_items asked). itm_key i = itm_key item \<and> derivationSignature i asked = derivationSignature item content))
     \<or> ((\<forall>a. er_answered st = Some a \<longrightarrow> \<not> ans_ready a) \<and>
        (\<exists>read keys. Marked read keys \<in> set (er_told st) \<and> itm_key item \<notin> set keys \<and>
          (\<exists>i \<in> set (alb_items read). itm_key i = itm_key item \<and> derivationSignature i read = derivationSignature item content))))"
proof -
  obtain a where a: "er_answered st = Some a" "answer_covers a (itm_key item) (derivationSignature item content)"
    "itm_key item \<notin> set (ans_pending a) \<union> set (ans_failed a)" "derivationSignature item content \<noteq> None"
    using assms(2) by (auto simp: itemDerivation_def Let_def split: option.splits if_splits)
  moreover obtain t where t: "t \<in> set (er_told st)" "ans_signatures a = derivationSignatures (told_content t)"
    "set (ans_pending a) \<union> set (ans_failed a) = told_names t" "ans_ready a = told_ready t"
    using er_reachable_inv [OF assms(1)] a(1) by (auto simp: er_inv_def shown_told_def)
  moreover have same: "\<exists>i \<in> set (alb_items (told_content t)). itm_key i = itm_key item
      \<and> derivationSignature i (told_content t) = derivationSignature item content"
    using derivationSignatures_lookup [of "told_content t" "itm_key item"] a(2) t(2) by (force simp: answer_covers_def)
  ultimately show ?thesis
  proof (cases t)
    case (Told_answer asked answer)
    then have "itm_key item \<notin> set (acc_pending answer) \<union> set (acc_failed answer)" using a(3) t(3) by simp
    then show ?thesis using a(4) t(1) same unfolding Told_answer told_content.simps by blast
  next
    case (Marked read keys)
    then have "itm_key item \<notin> set keys" "\<forall>b. er_answered st = Some b \<longrightarrow> \<not> ans_ready b" using a(1,3) t(3,4) by simp_all
    then show ?thesis using a(4) t(1) same unfolding Marked told_content.simps by blast
  qed
qed

text \<open>At most one check counts at any time: of the checks in flight at most one carries the current run, none while a
  poll waits, every delay is one of the four documented ones (at most five seconds), and no poll waits after five failures
  in a row or after disposal.\<close>

theorem one_check_counts:
  assumes "er_reachable st"
  shows "length (filter (\<lambda>f. flt_id f = er_run st) (er_flights st)) \<le> 1 \<and>
    (\<forall>ms. er_timer st = Some ms \<longrightarrow>
       ms \<in> {1000, 2000, 3000, 5000} \<and> er_failures st < 5 \<and> \<not> er_disposed st \<and>
       (\<forall>f \<in> set (er_flights st). \<forall>answer. check_answered f answer st = st \<and> check_threw f st = st \<and> check_null f st = st))"
proof -
  have inv: "er_inv st" using assms by (rule er_reachable_inv)
  have "distinct (flight_ids st)" using inv by (simp add: er_inv_def flights_numbered_def)
  then have "distinct (map flt_id (filter (\<lambda>f. flt_id f = er_run st) (er_flights st)))" by (rule distinct_map_filter)
  then have "length (filter (\<lambda>f. flt_id f = er_run st) (er_flights st)) = card (flt_id ` set (filter (\<lambda>f. flt_id f = er_run st) (er_flights st)))"
    by (metis distinct_card length_map set_map)
  also have "\<dots> \<le> card {er_run st}" by (rule card_mono) auto
  finally have "length (filter (\<lambda>f. flt_id f = er_run st) (er_flights st)) \<le> 1" by simp
  moreover have "ms \<in> {1000, 2000, 3000, 5000} \<and> er_failures st < 5 \<and> \<not> er_disposed st \<and> er_run st \<notin> set (flight_ids st)"
    if "er_timer st = Some ms" for ms
    using inv that by (simp add: er_inv_def poll_waits_def EDIT_READINESS_POLL_MS_def EDIT_READINESS_MAX_FAILURES_def)
  moreover have "check_answered f answer st = st \<and> check_threw f st = st \<and> check_null f st = st"
    if "f \<in> set (er_flights st)" "er_run st \<notin> set (flight_ids st)" for f answer
  proof -
    have "flt_id f \<noteq> er_run st" using that by force
    then show ?thesis by (simp add: check_answered_def check_threw_def check_null_def)
  qed
  ultimately show ?thesis by blast
qed

text \<open>An edit that settles is confirmed: after a schedule for content that needs derivatives and is not scheduled yet, the
  debounce timer asks about that content, and when the account answers that all is ready, the tracker is ready and every
  item of the content is shown ready or needs nothing.\<close>

theorem settled_edit_is_confirmed:
  assumes "er_reachable st" "\<not> er_disposed st" "needsDerivation c" "er_scheduledKey st \<noteq> Some (contentKey (Some c))"
    "distinct (map itm_key (alb_items c))"
    "acc_ready answer" "acc_pending answer = []" "acc_failed answer = []"
  shows "\<exists>st1 st2 st3. er_handle (Some c) Schedule st = Some st1 \<and> er_handle (Some c) Timer_fires st1 = Some st2 \<and>
    er_handle now (Check_answered (length (er_flights st)) answer) st2 = Some st3 \<and> er_status st3 = Ready \<and>
    (\<forall>item \<in> set (alb_items c). itemDerivation item c (Some (er_store st3)) \<in> {Derives_none, Derives_ready})"
proof -
  define st1 where "st1 = er_schedule (Some c) st"
  define st2 where "st2 = ask (Some c) (st1\<lparr>er_timer := None\<rparr>)"
  define f where "f = \<lparr>flt_id = er_run st + 2, flt_content = c, flt_signatures = derivationSignatures c\<rparr>"
  have st1: "st1 = er_later EDIT_READINESS_DEBOUNCE_MS
      (st\<lparr>er_scheduledKey := Some (contentKey (Some c)), er_pollAttempt := 0, er_failures := 0, er_run := er_run st + 1\<rparr>)"
    using assms(2-4) by (simp add: st1_def er_schedule_def wanted_def)
  have st2: "er_flights st2 = er_flights st @ [f]" "er_run st2 = er_run st + 2" "\<not> er_disposed st2"
    using assms(2,3) by (simp_all add: st2_def st1 ask_def er_set_def er_later_def er_clearTimer_def wanted_def f_def Let_def)
  define st3 where "st3 = check_answered f answer (er_tell (Told_answer (flt_content f) answer) (er_land (length (er_flights st)) st2))"
  have store: "er_store st3 = \<lparr>rds_status = Ready, rds_answered = Some \<lparr>ans_ready = True, ans_pending = [], ans_failed = [],
      ans_editKeys = acc_editKeys answer, ans_signatures = derivationSignatures c\<rparr>\<rparr>"
    using st2 assms(6-8) by (simp add: st3_def check_answered_def er_tell_def er_land_def er_set_def f_def)
  have "er_handle (Some c) Timer_fires st1 = Some st2" by (simp add: st2_def) (simp add: st1 er_later_def)
  moreover have "er_handle now (Check_answered (length (er_flights st)) answer) st2 = Some st3" using st2 by (simp add: st3_def)
  moreover have "itemDerivation item c (Some (er_store st3)) \<in> {Derives_none, Derives_ready}" if "item \<in> set (alb_items c)" for item
    using derivationSignatures_distinct [OF assms(5) that] by (simp add: itemDerivation_def store answer_covers_def Let_def)
  ultimately show ?thesis using store st1_def by auto
qed

section \<open>Derivative paths\<close>

lemma find_unique: "x \<in> set xs \<Longrightarrow> P x \<Longrightarrow> (\<And>y. y \<in> set xs \<Longrightarrow> P y \<Longrightarrow> y = x) \<Longrightarrow> find P xs = Some x"
proof (induction xs)
  case (Cons a xs)
  then show ?case by (metis find.simps(2) list.set_intros(1,2) set_ConsD)
qed simp

lemma match_derivative_written:
  assumes "length item = 32" "list_all lower_hex item" "name \<in> set derivative_names" "edit_segment key"
  shows "match_derivative (media_root @ item @ [47] @ name @ [47] @ key) = Some (media_root @ item @ [47] @ name)"
proof -
  let ?rest = "[47] @ name @ [47] @ key"
  have upto: "takeWhile (\<lambda>c. c \<noteq> 47) (m @ [47] @ zs) = m" if "m \<in> set derivative_names" for m zs
  proof -
    have "47 \<notin> set m" using that by (auto simp: derivative_names_def js_def)
    then show ?thesis by (induction m) auto
  qed
  have unique: "n = name" if name: "n \<in> set derivative_names" and starts: "starts_with ?rest ([47] @ n @ [47])" for n
  proof -
    obtain ys where "name @ [47] @ key = n @ [47] @ ys" using starts by (auto simp: starts_with_append)
    then show ?thesis using upto [OF name, of ys] upto [OF assms(3), of key] by simp
  qed
  have "find (\<lambda>n. starts_with ?rest ([47] @ n @ [47]) \<and> edit_segment (drop (length n + 2) ?rest)) derivative_names = Some name"
    by (rule find_unique) (use assms(3,4) unique in \<open>auto simp: starts_with_append\<close>)
  then show ?thesis using assms(1,2) by (simp add: match_derivative_def Let_def starts_with_append)
qed

text \<open>The path of a confirmed edit: another edit key only replaces the last segment, and any other path stays as it is.\<close>

lemma withEditKey_written:
  assumes "length item = 32" "list_all lower_hex item" "name \<in> set derivative_names" "edit_segment key"
  shows "withEditKey (media_root @ item @ [47] @ name @ [47] @ key) editKey = media_root @ item @ [47] @ name @ [47] @ editKey"
  using match_derivative_written [OF assms] by (simp add: withEditKey_def)

section \<open>A check that could not be asked\<close>

text \<open>After an answer has been shown, a check that resolves to nothing leaves the status at checking: no check counts and no
  poll waits, every poke returns at once, and so does a schedule for the same signatures.\<close>

lemma null_check_blocks:
  assumes "er_status st = Checking" "er_timer st = None"
  shows "er_poke content st = st" "er_scheduledKey st = Some (contentKey content) \<Longrightarrow> er_schedule content st = st"
  using assms by (simp_all add: er_poke_def er_schedule_def Let_def)

lemma null_check_stays_checking:
  assumes "flt_id f = er_run st" "\<not> er_disposed st" "er_answered st \<noteq> None"
  shows "er_status (check_null f st) = er_status st"
  using assms by (simp only: check_null_def er_set_def) simp

lemma check_null_keeps:
  "er_timer (check_null f st) = er_timer st" "er_flights (check_null f st) = er_flights st"
  "er_scheduledKey (check_null f st) = er_scheduledKey st"
  by (simp_all add: check_null_def er_set_def)

section \<open>A run\<close>

text \<open>A rotated photo is scheduled, asked about and answered ready; then it is turned again, and the second check resolves to
  nothing because another account was active.\<close>

definition turned :: "nat \<Rightarrow> album" where
  "turned r = \<lparr>alb_items = [\<lparr>itm_key = js ''a'', itm_rotation = r, itm_crop = None\<rparr>], alb_coverKey = None, alb_coverCrop = None\<rparr>"

definition all_ready :: account_answer where
  "all_ready = \<lparr>acc_ready = True, acc_pending = [], acc_failed = [], acc_editKeys = Map.empty\<rparr>"

definition run1 :: tracker where
  "run1 = the (er_handle (Some (turned 90)) Timer_fires (the (er_handle (Some (turned 90)) Schedule createEditReadinessTracker)))"

definition run2 :: tracker where
  "run2 = the (er_handle None (Check_answered 0 all_ready) run1)"

definition run3 :: tracker where
  "run3 = the (er_handle (Some (turned 180)) Timer_fires (the (er_handle (Some (turned 180)) Schedule run2)))"

definition run4 :: tracker where
  "run4 = the (er_handle None (Check_null 0) run3)"

lemma turned_needs [simp]: "0 < r \<Longrightarrow> needsDerivation (turned r)"
  by (simp add: needsDerivation_def turned_def derivationSignature_def)

lemma turned_keys [simp]: "map itm_key (alb_items (turned r)) = [js ''a'']"
  by (simp add: turned_def)

lemma turned_signatures:
  "0 < r \<Longrightarrow> derivationSignatures (turned r) = [(js ''a'', Some (r, None, None))]"
  by (simp add: derivationSignatures_def turned_def fromEntries_def derivationSignature_def array_index_def js_def is_digit_def)

text \<open>After \<open>markPending\<close> alone, with no check answered, an edit its keys leave out is shown ready.\<close>

lemma marked_without_check:
  "\<exists>st. er_handle (Some (turned 90)) (Mark_pending []) createEditReadinessTracker = Some st \<and>
     itemDerivation (hd (alb_items (turned 90))) (turned 90) (Some (er_store st)) = Derives_ready \<and>
     (\<forall>asked answer. Told_answer asked answer \<notin> set (er_told st))"
  by (simp add: markPending_def createEditReadinessTracker_def er_tell_def er_set_def er_later_def er_clearTimer_def Let_def
      itemDerivation_def turned_signatures answer_covers_def)
    (simp add: turned_def derivationSignature_def)

lemma run1_eq:
  "run1 = \<lparr>er_store = \<lparr>rds_status = Checking, rds_answered = None\<rparr>, er_disposed = False, er_timer = None, er_run = 2, er_pollAttempt = 0,
     er_failures = 0, er_forced = False, er_scheduledKey = Some (Some [(js ''a'', Some (90, None, None))]),
     er_flights = [\<lparr>flt_id = 2, flt_content = turned 90, flt_signatures = [(js ''a'', Some (90, None, None))]\<rparr>], er_told = []\<rparr>"
  by (simp add: run1_def er_schedule_def ask_def er_set_def er_later_def er_clearTimer_def wanted_def contentKey_def Let_def
      createEditReadinessTracker_def IDLE_EDIT_READINESS_def turned_signatures)

lemma run2_eq:
  "run2 = \<lparr>er_store = \<lparr>rds_status = Ready, rds_answered = Some \<lparr>ans_ready = True, ans_pending = [], ans_failed = [], ans_editKeys = Map.empty,
       ans_signatures = [(js ''a'', Some (90, None, None))]\<rparr>\<rparr>, er_disposed = False, er_timer = None, er_run = 2, er_pollAttempt = 0,
     er_failures = 0, er_forced = False, er_scheduledKey = Some (Some [(js ''a'', Some (90, None, None))]),
     er_flights = [], er_told = [Told_answer (turned 90) all_ready]\<rparr>"
  by (simp add: run2_def run1_eq check_answered_def er_tell_def er_land_def er_set_def all_ready_def)

lemma run3_eq:
  "er_status run3 = Checking \<and> er_timer run3 = None \<and> \<not> er_disposed run3 \<and> er_answered run3 \<noteq> None \<and>
   map flt_id (er_flights run3) = [er_run run3] \<and> er_scheduledKey run3 = Some (contentKey (Some (turned 180)))"
  by (simp add: run3_def run2_eq er_schedule_def ask_def er_set_def er_later_def er_clearTimer_def wanted_def contentKey_def Let_def turned_signatures)

lemma runs_reachable: "er_reachable run1" "er_reachable run2" "er_reachable run3" "er_reachable run4"
proof -
  have schedule: "er_handle (Some c) Schedule st = Some (the (er_handle (Some c) Schedule st))" for c st by simp
  have timer: "er_handle (Some (turned r)) Timer_fires st' = Some (the (er_handle (Some (turned r)) Timer_fires st'))"
    if "st' = the (er_handle (Some (turned r)) Schedule st)" "0 < r" "\<not> er_disposed st"
      "er_scheduledKey st \<noteq> Some (contentKey (Some (turned r)))" for st st' r
    using that by (simp add: er_schedule_def wanted_def er_later_def Let_def)
  show one: "er_reachable run1" unfolding run1_def
    by (rule er_reachable.step [OF er_reachable.step [OF er_reachable.start schedule] timer [OF refl]])
      (simp_all add: createEditReadinessTracker_def)
  show two: "er_reachable run2" 
    by (rule er_reachable.step [OF one, of None "Check_answered 0 all_ready"]) (simp add: run2_def run1_eq)
  show three: "er_reachable run3" unfolding run3_def
    by (rule er_reachable.step [OF er_reachable.step [OF two schedule] timer [OF refl]]) (simp_all add: run2_eq contentKey_def turned_signatures)
  show "er_reachable run4"
  proof (rule er_reachable.step [OF three, of None "Check_null 0"])
    have "0 < length (er_flights run3)" using run3_eq by (cases "er_flights run3") auto
    then show "er_handle None (Check_null 0) run3 = Some run4" by (simp add: run4_def)
  qed
qed

text \<open>So the tracker can stay at checking with nothing under way: pokes and schedules of the unchanged content do nothing.\<close>

lemma checking_for_ever:
  "er_reachable run4 \<and> er_status run4 = Checking \<and> er_timer run4 = None \<and> er_flights run4 = [] \<and>
   er_poke (Some (turned 180)) run4 = run4 \<and> er_schedule (Some (turned 180)) run4 = run4"
proof -
  have flights: "\<exists>f. er_flights run3 = [f] \<and> flt_id f = er_run run3" using run3_eq by auto
  then have "run4 = check_null (er_flights run3 ! 0) (er_land 0 run3)" by (auto simp: run4_def)
  moreover obtain f where "er_flights run3 = [f]" "flt_id f = er_run run3" using flights by blast
  ultimately have run4: "run4 = check_null f (run3\<lparr>er_flights := []\<rparr>)" "flt_id f = er_run run3" by (simp_all add: er_land_def)
  have "er_timer run4 = er_timer (run3\<lparr>er_flights := []\<rparr>)" "er_flights run4 = er_flights (run3\<lparr>er_flights := []\<rparr>)"
    "er_scheduledKey run4 = er_scheduledKey (run3\<lparr>er_flights := []\<rparr>)"
    unfolding run4(1) by (rule check_null_keeps)+
  moreover have "er_status run4 = er_status (run3\<lparr>er_flights := []\<rparr>)"
    unfolding run4(1) by (rule null_check_stays_checking) (use run3_eq run4(2) in simp_all)
  ultimately have "er_status run4 = Checking" "er_timer run4 = None" "er_flights run4 = []" "er_scheduledKey run4 = Some (contentKey (Some (turned 180)))"
    using run3_eq by simp_all
  then show ?thesis using null_check_blocks [of run4] runs_reachable(4) by auto
qed

section \<open>Witnesses\<close>

lemma ready_was_confirmed_witness:
  "er_reachable run2 \<and> itemDerivation (hd (alb_items (turned 90))) (turned 90) (Some (er_store run2)) = Derives_ready \<and>
   (\<exists>asked answer. Told_answer asked answer \<in> set (er_told run2) \<and> js ''a'' \<notin> set (acc_pending answer))"
proof -
  have ready: "itemDerivation (hd (alb_items (turned 90))) (turned 90) (Some (er_store run2)) = Derives_ready"
    by (simp add: itemDerivation_def run2_eq turned_def derivationSignature_def answer_covers_def Let_def)
  have key: "itm_key (hd (alb_items (turned 90))) = js ''a''" by (simp add: turned_def)
  have "\<exists>a. er_answered run2 = Some a \<and> ans_ready a" by (simp add: run2_eq)
  then show ?thesis using ready_was_confirmed [OF runs_reachable(2) ready] runs_reachable(2) ready unfolding key by blast
qed

lemma one_check_counts_witness:
  "er_reachable run1 \<and> length (er_flights run1) = 1 \<and> length (filter (\<lambda>f. flt_id f = er_run run1) (er_flights run1)) \<le> 1"
  using one_check_counts [OF runs_reachable(1)] runs_reachable(1) by (simp add: run1_eq)

lemma settled_edit_is_confirmed_witness:
  "\<exists>st3. er_status st3 = Ready \<and> itemDerivation (hd (alb_items (turned 180))) (turned 180) (Some (er_store st3)) \<in> {Derives_none, Derives_ready}"
proof -
  have "\<exists>st1 st2 st3. er_handle (Some (turned 180)) Schedule run2 = Some st1 \<and> er_handle (Some (turned 180)) Timer_fires st1 = Some st2 \<and>
    er_handle None (Check_answered (length (er_flights run2)) all_ready) st2 = Some st3 \<and> er_status st3 = Ready \<and>
    (\<forall>item \<in> set (alb_items (turned 180)). itemDerivation item (turned 180) (Some (er_store st3)) \<in> {Derives_none, Derives_ready})"
    by (rule settled_edit_is_confirmed [OF runs_reachable(2)])
      (simp_all add: run2_eq contentKey_def turned_signatures all_ready_def)
  moreover have "hd (alb_items (turned 180)) \<in> set (alb_items (turned 180))" by (simp add: turned_def)
  ultimately show ?thesis by metis
qed

end
