(* ===== verification/StructuredClone.thy ===== *)
theory StructuredClone
  imports Prelude Complex_Main
begin

text \<open>
  Values the browser hands back as it copied them (structured clones: history entries, IndexedDB records), and how the sources
  read untrusted ones. A finite JavaScript number is a rational; a \<open>Blob\<close> is its identity and its size. An array and a
  \<open>Blob\<close> are objects without the properties the sources ask for.
\<close>

section \<open>Values\<close>

datatype js_number = Not_a_number | Infinity_number bool | Finite rat

datatype hvalue = H_undefined | H_null | H_bool bool | H_number js_number | H_string jstr | H_array "hvalue list" | H_object "(jstr \<times> hvalue) list" | H_blob nat nat

type_synonym fields = "(jstr \<times> hvalue) list"

text \<open>\<open>typeof value === "object"\<close> without \<open>null\<close>, and a property of such a value.\<close>

fun is_object :: "hvalue \<Rightarrow> bool" where
  "is_object (H_array vs) \<longleftrightarrow> True"
| "is_object (H_object fs) \<longleftrightarrow> True"
| "is_object (H_blob i n) \<longleftrightarrow> True"
| "is_object v \<longleftrightarrow> False"

definition field :: "fields \<Rightarrow> string \<Rightarrow> hvalue" where
  "field fs name = (case map_of fs (js name) of Some v \<Rightarrow> v | None \<Rightarrow> H_undefined)"

fun fields_of :: "hvalue \<Rightarrow> fields" where
  "fields_of (H_object fs) = fs"
| "fields_of v = []"

definition key_value :: "string \<Rightarrow> hvalue \<Rightarrow> jstr \<times> hvalue" where "key_value name v = (js name, v)"
definition number_value :: "rat \<Rightarrow> hvalue" where "number_value r = H_number (Finite r)"
definition optional_field :: "string \<Rightarrow> hvalue option \<Rightarrow> fields" where
  "optional_field name v = (case v of None \<Rightarrow> [] | Some x \<Rightarrow> [key_value name x])"

section \<open>Reading\<close>

definition string_value :: "hvalue \<Rightarrow> jstr option" where
  "string_value v = (case v of H_string s \<Rightarrow> Some s | _ \<Rightarrow> None)"

definition lower_hex :: "nat \<Rightarrow> bool" where
  "lower_hex c \<longleftrightarrow> is_digit c \<or> 97 \<le> c \<and> c \<le> 102"

text \<open>\<open>/^prefix[0-9a-f]{32}$/\<close>.\<close>

definition hex_id :: "string \<Rightarrow> jstr \<Rightarrow> bool" where
  "hex_id prefix s \<longleftrightarrow> take (length prefix) s = js prefix \<and> length s = length prefix + 32 \<and> list_all lower_hex (drop (length prefix) s)"

section \<open>Facts\<close>

lemma js_eq_iff [simp]: "js s = js t \<longleftrightarrow> s = t"
proof -
  have "inj (of_char :: char \<Rightarrow> nat)" by (rule injI) simp
  then show ?thesis by (simp add: js_def inj_map_eq_map)
qed

lemma field_simps [simp]:
  "field [] name = H_undefined"
  "field (key_value key x # fs) name = (if key = name then x else field fs name)"
  "optional_field key None = []" "optional_field key (Some x) = [key_value key x]"
  by (auto simp: field_def key_value_def optional_field_def split: option.split)

end
