(* ===== verification/UploadTypes.thy ===== *)
theory UploadTypes
  imports Staging DraftContent
begin

text \<open>
  The data of the upload manager (\<open>apps/web/features/publishing/upload-manager.ts\<close>): item and component views, failures,
  the internal item records, the account's view of an item, and what is computed from a view alone. A failure keeps its
  code and whether its outcome is unknown; its product text is left out. A \<open>Blob\<close> is a picked file, a slice of one, or an
  output of the preprocessing with its size. Ports outside the file appear as the values they answer with.
\<close>

section \<open>Views\<close>

datatype item_phase =
    Waiting | Preprocessing | Needs_choice | Registering | Queued | Uploading | Uploaded | Processing | Ready_item | Failed_item | Paused
  | Cleanup | Cancelled | Missing_local

datatype component_phase = Preparing | C_queued | C_uploading | C_received | C_failed | C_paused | C_missing_local | C_cancelled

datatype role = Role_still | Role_motion | Role_package

datatype item_kind = Kind_static | Kind_live

datatype content_type = Still_content still_type | Motion_content motion_type | Other_content jstr

datatype standard_outcome = Optimized | Retained

record failure =
  fl_code :: jstr
  fl_outcomeUnknown :: bool

text \<open>What a port throws, as far as \<open>failureFrom\<close> reads it: a number \<open>status\<close>, a string \<open>code\<close>, whether \<open>message\<close> is a string.\<close>

record port_error =
  pe_status :: "nat option"
  pe_code :: "jstr option"
  pe_hasMessage :: bool
  pe_outcomeUnknown :: bool

text \<open>The account's view of an item.\<close>

datatype server_component_state = Sc_awaiting | Sc_receiving | Sc_received | Sc_verified | Sc_rejected | Sc_cancelled
datatype server_item_state = Si_awaiting_upload | Si_processing | Si_ready | Si_failed | Si_cancelled | Si_purged

datatype failure_code =
    Unsupported_type_code | Decode_failed | Dimensions_exceeded | Duration_exceeded | Stream_layout_unsupported | Animated_image_unsupported
  | Pairing_mismatch | Size_mismatch | Processing_timeout | Processing_failed

record server_component =
  sc_id :: jstr
  sc_role :: role
  sc_state :: server_component_state
  sc_byteSize :: nat

record server_item =
  si_id :: jstr
  si_state :: server_item_state
  si_failureCode :: "failure_code option"
  si_components :: "server_component list"

record component_view =
  cv_role :: role
  cv_contentType :: "content_type option"
  cv_byteSize :: nat
  cv_bytesSent :: nat
  cv_standardOutcome :: "standard_outcome option"
  cv_phase :: component_phase
  cv_failure :: "failure option"

record item_view =
  iv_key :: key
  iv_kind :: item_kind
  iv_qualityMode :: quality_mode
  iv_notCameraOriginal :: bool
  iv_phase :: item_phase
  iv_itemId :: "jstr option"
  iv_components :: "component_view list"
  iv_failure :: "failure option"
  iv_choice :: "jstr option"
  iv_recoverable :: bool
  iv_serverItem :: "server_item option"

section \<open>Records\<close>

datatype blob = File_blob file_ref | Slice_blob file_ref nat nat | Made_blob nat nat

record prepared_component =
  pc_role :: role
  pc_blob :: blob
  pc_contentType :: content_type
  pc_standardOutcome :: "standard_outcome option"

datatype client_pairing = Pairing_container "nat option" | Pairing_identifier jstr "nat option"

text \<open>\<open>ir_hashes\<close> holds the roles whose hash was begun; a poll timer keeps the delay and the epoch of its callback.\<close>

record item_record =
  ir_view :: item_view
  ir_source :: "logical_source option"
  ir_epoch :: nat
  ir_prepared :: "prepared_component list option"
  ir_pairing :: "client_pairing option"
  ir_metadata :: "json option"
  ir_clientSource :: "client_source option"
  ir_registerRequestId :: "jstr option"
  ir_componentIds :: "role \<rightharpoonup> jstr"
  ir_transfers :: "role \<rightharpoonup> jstr"
  ir_hashes :: "role \<Rightarrow> bool"
  ir_pollTimer :: "(nat \<times> nat) option"
  ir_pollAttempt :: nat
  ir_draftId :: "jstr option"

definition POLL_DELAYS_MS :: "nat list" where
  "POLL_DELAYS_MS = [1000, 2000, 3000, 5000, 8000, 13000, 20000, 30000]"

definition is_terminal :: "item_phase \<Rightarrow> bool" where
  "is_terminal p \<longleftrightarrow> p \<in> {Ready_item, Cancelled, Cleanup}"

definition componentView :: "role \<Rightarrow> component_phase \<Rightarrow> component_view" where
  "componentView role phase =
     \<lparr>cv_role = role, cv_contentType = None, cv_byteSize = 0, cv_bytesSent = 0, cv_standardOutcome = None, cv_phase = phase, cv_failure = None\<rparr>"

fun source_kind :: "logical_source \<Rightarrow> item_kind" where
  "source_kind (StaticSource s) = Kind_static"
| "source_kind (PairSource s m) = Kind_live"
| "source_kind (ContainerSource s) = Kind_live"

fun source_still :: "logical_source \<Rightarrow> still" where
  "source_still (StaticSource s) = s"
| "source_still (PairSource s m) = s"
| "source_still (ContainerSource s) = s"

fun rolesOf :: "logical_source \<Rightarrow> bool \<Rightarrow> role list" where
  "rolesOf (StaticSource s) original = [Role_still]"
| "rolesOf (ContainerSource s) original = (if original then [Role_package] else [Role_still, Role_motion])"
| "rolesOf (PairSource s m) original = [Role_still, Role_motion]"

section \<open>Failures\<close>

fun nat_decimal :: "nat \<Rightarrow> jstr" where
  "nat_decimal n = (if n < 10 then [48 + n] else nat_decimal (n div 10) @ [48 + n mod 10])"

declare nat_decimal.simps [simp del]

definition up_failure :: "string \<Rightarrow> bool \<Rightarrow> failure" where
  "up_failure code unknown = \<lparr>fl_code = js code, fl_outcomeUnknown = unknown\<rparr>"

definition failureFrom :: "port_error \<Rightarrow> failure \<Rightarrow> failure" where
  "failureFrom err fallback =
     (case pe_status err of
        None \<Rightarrow> fallback
      | Some status \<Rightarrow>
          (if \<not> pe_hasMessage err then fallback
           else \<lparr>fl_code = (case pe_code err of Some code \<Rightarrow> code
                  | None \<Rightarrow> if status = 0 then js ''network'' else js ''http_'' @ nat_decimal status),
                fl_outcomeUnknown = pe_outcomeUnknown err\<rparr>))"

definition is_account_error :: "port_error \<Rightarrow> bool" where
  "is_account_error err \<longleftrightarrow> pe_status err = Some 401"

definition is_not_found :: "port_error \<Rightarrow> bool" where
  "is_not_found err \<longleftrightarrow> pe_status err = Some 404"

definition RETRYABLE_PROCESSING :: "failure_code list" where
  "RETRYABLE_PROCESSING = [Size_mismatch, Processing_timeout, Processing_failed]"

fun failure_code_text :: "failure_code \<Rightarrow> string" where
  "failure_code_text Unsupported_type_code = ''unsupported_type''"
| "failure_code_text Decode_failed = ''decode_failed''"
| "failure_code_text Dimensions_exceeded = ''dimensions_exceeded''"
| "failure_code_text Duration_exceeded = ''duration_exceeded''"
| "failure_code_text Stream_layout_unsupported = ''stream_layout_unsupported''"
| "failure_code_text Animated_image_unsupported = ''animated_image_unsupported''"
| "failure_code_text Pairing_mismatch = ''pairing_mismatch''"
| "failure_code_text Size_mismatch = ''size_mismatch''"
| "failure_code_text Processing_timeout = ''processing_timeout''"
| "failure_code_text Processing_failed = ''processing_failed''"

definition canRetryProcessing :: "item_view \<Rightarrow> bool" where
  "canRetryProcessing item \<longleftrightarrow>
     iv_itemId item \<noteq> None \<and>
     (case iv_serverItem item of
        None \<Rightarrow> False
      | Some s \<Rightarrow> si_state s = Si_failed \<and> (case si_failureCode s of None \<Rightarrow> False | Some code \<Rightarrow> code \<in> set RETRYABLE_PROCESSING))"

section \<open>Phases\<close>

definition find_component :: "role \<Rightarrow> component_view list \<Rightarrow> component_view option" where
  "find_component r = find (\<lambda>c. cv_role c = r)"

definition find_server :: "role \<Rightarrow> server_component list \<Rightarrow> server_component option" where
  "find_server r = find (\<lambda>c. sc_role c = r)"

text \<open>The phase \<open>derivePhase\<close> gives an item from the phases of its components.\<close>

definition phase_of :: "component_phase list \<Rightarrow> item_phase" where
  "phase_of phases =
     (if C_uploading \<in> set phases then Uploading
      else if C_queued \<in> set phases then Queued
      else if C_failed \<in> set phases then Failed_item
      else if C_paused \<in> set phases then Paused
      else if C_missing_local \<in> set phases then Missing_local
      else if list_all (\<lambda>p. p = C_received) phases then Uploaded
      else Queued)"

text \<open>The phases it leaves alone.\<close>

definition phase_kept :: "item_view \<Rightarrow> bool" where
  "phase_kept v \<longleftrightarrow>
     is_terminal (iv_phase v) \<or> iv_phase v \<in> {Needs_choice, Waiting, Preprocessing, Registering, Processing} \<or>
     iv_phase v = Failed_item \<and> iv_itemId v = None \<or>
     (case iv_serverItem v of None \<Rightarrow> False | Some s \<Rightarrow> si_state s = Si_failed)"

section \<open>Summaries\<close>

record upload_summary =
  us_total :: nat
  us_preparing :: nat
  us_needsChoice :: nat
  us_queued :: nat
  us_uploading :: nat
  us_uploaded :: nat
  us_processing :: nat
  us_ready :: nat
  us_failed :: nat
  us_paused :: nat
  us_missingLocal :: nat
  us_bytesSent :: nat
  us_bytesTotal :: nat
  us_active :: bool
  us_unfinished :: bool
  us_blocking :: nat

definition count_phases :: "item_phase list \<Rightarrow> item_view list \<Rightarrow> nat" where
  "count_phases phases items = length (filter (\<lambda>v. iv_phase v \<in> set phases) items)"

fun sum_components :: "component_view list \<Rightarrow> nat \<times> nat \<Rightarrow> nat \<times> nat" where
  "sum_components [] (sent, bytes) = (sent, bytes)"
| "sum_components (c # cs) (sent, bytes) =
     sum_components cs (sent + (if cv_phase c = C_received then cv_byteSize c else cv_bytesSent c), bytes + cv_byteSize c)"

definition summarizeUploads :: "item_view list \<Rightarrow> upload_summary" where
  "summarizeUploads items =
     (let live = filter (\<lambda>v. iv_phase v \<noteq> Cancelled \<and> iv_phase v \<noteq> Cleanup) items;
          (bytesSent, bytesTotal) = fold (\<lambda>v. sum_components (iv_components v)) live (0, 0);
          preparing = count_phases [Waiting, Preprocessing, Registering] items;
          queued = count_phases [Queued] items;
          uploading = count_phases [Uploading] items;
          uploaded = count_phases [Uploaded] items;
          processing = count_phases [Processing] items;
          paused = count_phases [Paused] items;
          unready = filter (\<lambda>v. iv_phase v \<noteq> Ready_item) live in
      \<lparr>us_total = length live, us_preparing = preparing, us_needsChoice = count_phases [Needs_choice] items, us_queued = queued,
       us_uploading = uploading, us_uploaded = uploaded, us_processing = processing, us_ready = count_phases [Ready_item] items,
       us_failed = count_phases [Failed_item] items, us_paused = paused, us_missingLocal = count_phases [Missing_local] items,
       us_bytesSent = bytesSent, us_bytesTotal = bytesTotal,
       us_active = (preparing + queued + uploading + uploaded + processing + paused > 0),
       us_unfinished = (unready \<noteq> []), us_blocking = length unready\<rparr>)"

end
