(* ===== verification/LocalRecovery.thy ===== *)
theory LocalRecovery
  imports StructuredClone UploadTypes "HOL-Library.List_Lexorder"
begin

text \<open>
  Same-browser recovery of saved drafts (\<open>apps/web/features/publishing/local-recovery.ts\<close>): the check of stored records, the
  IndexedDB backend (two object stores as association lists in key order, IndexedDB's order on arrays of strings), the store
  over it, and the plan of a restore. What the browser may answer to a call of \<open>save\<close> (the estimate, a failed
  transaction, the last byte of a blob) is an argument.
\<close>

section \<open>Records\<close>

record recovery_component =
  rc_role :: role
  rc_componentId :: jstr
  rc_contentType :: jstr
  rc_standardOutcome :: hvalue
  rc_blob :: nat
  rc_byteSize :: nat

record recovery_record =
  rr_accountId :: jstr
  rr_draftId :: jstr
  rr_itemKey :: jstr
  rr_itemId :: jstr
  rr_kind :: item_kind
  rr_qualityMode :: quality_mode
  rr_components :: "recovery_component list"
  rr_savedAt :: js_number

definition RECOVERY_MAX_TOTAL_BYTES :: nat where "RECOVERY_MAX_TOTAL_BYTES = 2 * 1024 * 1024 * 1024"
definition RECOVERY_QUOTA_FRACTION :: rat where "RECOVERY_QUOTA_FRACTION = 1 / 2"

definition recordBytes :: "recovery_record \<Rightarrow> nat" where
  "recordBytes r = sum_list (map rc_byteSize (rr_components r))"

fun role_name :: "role \<Rightarrow> string" where
  "role_name Role_still = ''still''"
| "role_name Role_motion = ''motion''"
| "role_name Role_package = ''package''"

definition component_value :: "recovery_component \<Rightarrow> hvalue" where
  "component_value c = H_object
     [key_value ''role'' (H_string (js (role_name (rc_role c)))), key_value ''componentId'' (H_string (rc_componentId c)),
      key_value ''contentType'' (H_string (rc_contentType c)), key_value ''byteSize'' (number_value (of_nat (rc_byteSize c))),
      key_value ''standardOutcome'' (rc_standardOutcome c), key_value ''blob'' (H_blob (rc_blob c) (rc_byteSize c))]"

definition kind_value :: "item_kind \<Rightarrow> hvalue" where
  "kind_value k = H_string (js (case k of Kind_static \<Rightarrow> ''static'' | Kind_live \<Rightarrow> ''live''))"

definition mode_value :: "quality_mode \<Rightarrow> hvalue" where
  "mode_value m = H_string (js (case m of Standard \<Rightarrow> ''standard'' | Original \<Rightarrow> ''original'' | Legacy \<Rightarrow> ''legacy''))"

definition record_value :: "recovery_record \<Rightarrow> hvalue" where
  "record_value r = H_object
     [key_value ''accountId'' (H_string (rr_accountId r)), key_value ''draftId'' (H_string (rr_draftId r)),
      key_value ''itemKey'' (H_string (rr_itemKey r)), key_value ''itemId'' (H_string (rr_itemId r)), key_value ''kind'' (kind_value (rr_kind r)),
      key_value ''qualityMode'' (mode_value (rr_qualityMode r)), key_value ''components'' (H_array (map component_value (rr_components r))),
      key_value ''savedAt'' (H_number (rr_savedAt r))]"

section \<open>The check of a stored value\<close>

definition item_key_char :: "nat \<Rightarrow> bool" where
  "item_key_char c \<longleftrightarrow> is_alpha c \<or> is_digit c \<or> c = 95 \<or> c = 45"

definition item_key_ok :: "jstr \<Rightarrow> bool" where
  "item_key_ok s \<longleftrightarrow> 1 \<le> length s \<and> length s \<le> 64 \<and> list_all item_key_char s"

definition as_role :: "hvalue \<Rightarrow> role option" where
  "as_role v = find (\<lambda>r. v = H_string (js (role_name r))) [Role_still, Role_motion, Role_package]"

definition as_kind :: "hvalue \<Rightarrow> item_kind option" where
  "as_kind v = find (\<lambda>k. v = kind_value k) [Kind_static, Kind_live]"

definition as_mode :: "hvalue \<Rightarrow> quality_mode option" where
  "as_mode v = find (\<lambda>m. v = mode_value m) [Standard, Original]"

definition parse_component :: "hvalue \<Rightarrow> recovery_component option" where
  "parse_component v =
     (let fs = fields_of v in
      if \<not> is_object v then None
      else case (as_role (field fs ''role''), string_value (field fs ''componentId''), string_value (field fs ''contentType''), field fs ''blob'') of
        (Some rl, Some componentId, Some contentType, H_blob b n) \<Rightarrow>
          (if hex_id ''media-component-'' componentId \<and> field fs ''byteSize'' = number_value (of_nat n)
           then Some \<lparr>rc_role = rl, rc_componentId = componentId, rc_contentType = contentType,
                  rc_standardOutcome = field fs ''standardOutcome'', rc_blob = b, rc_byteSize = n\<rparr>
           else None)
      | _ \<Rightarrow> None)"

fun parse_components :: "hvalue list \<Rightarrow> recovery_component list option" where
  "parse_components [] = Some []"
| "parse_components (v # vs) =
     (case parse_component v of None \<Rightarrow> None | Some c \<Rightarrow> (case parse_components vs of None \<Rightarrow> None | Some cs \<Rightarrow> Some (c # cs)))"

definition parseRecoveryRecord :: "hvalue \<Rightarrow> jstr \<Rightarrow> jstr \<Rightarrow> recovery_record option" where
  "parseRecoveryRecord v accountId draftId =
     (let fs = fields_of v in
      if \<not> is_object v \<or> field fs ''accountId'' \<noteq> H_string accountId \<or> field fs ''draftId'' \<noteq> H_string draftId then None
      else case (string_value (field fs ''itemKey''), string_value (field fs ''itemId''), as_kind (field fs ''kind''), as_mode (field fs ''qualityMode''),
                 field fs ''savedAt'', field fs ''components'') of
        (Some itemKey, Some itemId, Some kind, Some mode, H_number savedAt, H_array components) \<Rightarrow>
          (if item_key_ok itemKey \<and> hex_id ''media-item-'' itemId \<and> 1 \<le> length components \<and> length components \<le> 2
           then (case parse_components components of
                   None \<Rightarrow> None
                 | Some cs \<Rightarrow> Some \<lparr>rr_accountId = accountId, rr_draftId = draftId, rr_itemKey = itemKey, rr_itemId = itemId, rr_kind = kind,
                     rr_qualityMode = mode, rr_components = cs, rr_savedAt = savedAt\<rparr>)
           else None)
      | _ \<Rightarrow> None)"

definition validIdentity :: "jstr \<Rightarrow> jstr \<Rightarrow> bool" where
  "validIdentity accountId draftId \<longleftrightarrow> hex_id ''user-'' accountId \<and> hex_id ''work-draft-'' draftId"

section \<open>The IndexedDB backend\<close>

type_synonym idb_key = "jstr list"
type_synonym object_store = "(idb_key \<times> hvalue) list"

record idb =
  db_items :: object_store
  db_sizes :: object_store

fun store_put :: "idb_key \<Rightarrow> hvalue \<Rightarrow> object_store \<Rightarrow> object_store" where
  "store_put k v [] = [(k, v)]"
| "store_put k v ((k', v') # es) =
     (if k = k' then (k, v) # es else if k < k' then (k, v) # (k', v') # es else (k', v') # store_put k v es)"

definition store_delete :: "idb_key \<Rightarrow> object_store \<Rightarrow> object_store" where
  "store_delete k = filter (\<lambda>e. fst e \<noteq> k)"

definition backend_put :: "idb_key \<Rightarrow> recovery_record \<Rightarrow> nat \<Rightarrow> idb \<Rightarrow> idb" where
  "backend_put k r bytes db =
     db\<lparr>db_items := store_put k (record_value r) (db_items db), db_sizes := store_put k (number_value (of_nat bytes)) (db_sizes db)\<rparr>"

definition backend_get :: "idb_key \<Rightarrow> idb \<Rightarrow> hvalue" where
  "backend_get k db = (case map_of (db_items db) k of Some v \<Rightarrow> v | None \<Rightarrow> H_undefined)"

definition backend_delete :: "idb_key \<Rightarrow> idb \<Rightarrow> idb" where
  "backend_delete k db = \<lparr>db_items = store_delete k (db_items db), db_sizes = store_delete k (db_sizes db)\<rparr>"

text \<open>\<open>IDBKeyRange.bound([...prefix, ""], [...prefix, "\uffff"])\<close>.\<close>

definition backend_list :: "idb_key \<Rightarrow> idb \<Rightarrow> hvalue list" where
  "backend_list prefix db = map snd (filter (\<lambda>e. prefix @ [[]] \<le> fst e \<and> fst e \<le> prefix @ [[0xFFFF]]) (db_items db))"

definition size_number :: "hvalue \<Rightarrow> rat" where
  "size_number v = (case v of H_number (Finite r) \<Rightarrow> r | _ \<Rightarrow> 0)"

definition totalBytes :: "idb \<Rightarrow> rat" where
  "totalBytes db = sum_list (map (size_number \<circ> snd) (db_sizes db))"

section \<open>The store\<close>

definition recovery_key :: "recovery_record \<Rightarrow> idb_key" where
  "recovery_key r = [rr_accountId r, rr_draftId r, rr_itemKey r]"

text \<open>What the browser answers during a \<open>save\<close>: \<open>None\<close> for no estimator, else the quota and the usage it
  estimates; whether a transaction fails; the length of the last slice of a blob (\<open>None\<close>: it cannot be read).\<close>

record save_answers =
  sv_estimate :: "(rat option \<times> rat option) option"
  sv_failsTotal :: bool
  sv_failsPut :: bool
  sv_failsGet :: bool
  sv_failsDelete :: bool
  sv_tail :: "nat \<Rightarrow> nat option"

text \<open>What \<open>save\<close> checks before its first transaction, and what it decides on the total it reads.\<close>

definition save_asks :: "save_answers \<Rightarrow> recovery_record \<Rightarrow> bool" where
  "save_asks env r \<longleftrightarrow>
     validIdentity (rr_accountId r) (rr_draftId r) \<and>
     parseRecoveryRecord (record_value r) (rr_accountId r) (rr_draftId r) \<noteq> None \<and>
     (case sv_estimate env of Some (Some quota, Some used) \<Rightarrow> True | _ \<Rightarrow> False)"

definition save_room :: "save_answers \<Rightarrow> recovery_record \<Rightarrow> idb \<Rightarrow> bool" where
  "save_room env r db \<longleftrightarrow>
     (case sv_estimate env of
        Some (Some quota, Some used) \<Rightarrow>
          \<not> sv_failsTotal env \<and>
          \<not> (of_nat (recordBytes r) > max 0 (quota - used) * RECOVERY_QUOTA_FRACTION) \<and>
          \<not> (totalBytes db + of_nat (recordBytes r) > of_nat RECOVERY_MAX_TOTAL_BYTES)
      | _ \<Rightarrow> False)"

definition save_admitted :: "save_answers \<Rightarrow> recovery_record \<Rightarrow> idb \<Rightarrow> bool" where
  "save_admitted env r db \<longleftrightarrow> save_asks env r \<and> save_room env r db"

fun tails_read :: "(nat \<Rightarrow> nat option) \<Rightarrow> recovery_component list \<Rightarrow> bool option" where
  "tails_read tail [] = Some True"
| "tails_read tail (c # cs) =
     (if rc_byteSize c = 0 then tails_read tail cs
      else case tail (rc_blob c) of None \<Rightarrow> None | Some n \<Rightarrow> if n \<noteq> 1 then Some False else tails_read tail cs)"

text \<open>
  \<open>save\<close> awaits four transactions: the total, the \<open>put\<close>, the \<open>get\<close> and, when the record is not there intact, the
  \<open>delete\<close>. \<open>others n\<close> is what the rest of the program (other saves among it) does to the database before the n-th.
\<close>

definition save_checked :: "(nat \<Rightarrow> idb \<Rightarrow> idb) \<Rightarrow> save_answers \<Rightarrow> recovery_record \<Rightarrow> idb \<Rightarrow> bool \<times> idb" where
  "save_checked others env r db =
     (let k = recovery_key r;
          dropped = (if sv_failsDelete env then others 3 db else backend_delete k (others 3 db)) in
      if sv_failsGet env then (False, db)
      else case parseRecoveryRecord (backend_get k db) (rr_accountId r) (rr_draftId r) of
        None \<Rightarrow> (False, dropped)
      | Some stored \<Rightarrow>
          (if rr_itemId stored \<noteq> rr_itemId r \<or> length (rr_components stored) \<noteq> length (rr_components r) then (False, dropped)
           else case tails_read (sv_tail env) (rr_components stored) of
             None \<Rightarrow> (False, db)
           | Some False \<Rightarrow> (False, dropped)
           | Some True \<Rightarrow> (True, db)))"

definition save_record :: "(nat \<Rightarrow> idb \<Rightarrow> idb) \<Rightarrow> save_answers \<Rightarrow> recovery_record \<Rightarrow> idb \<Rightarrow> bool \<times> idb" where
  "save_record others env r db =
     (if \<not> save_asks env r then (False, db)
      else
        (let counted = others 0 db in
         if \<not> save_room env r counted then (False, counted)
         else
           (let before = others 1 counted in
            if sv_failsPut env then (False, before)
            else save_checked others env r (others 2 (backend_put (recovery_key r) r (recordBytes r) before)))))"

definition remove_record :: "jstr \<Rightarrow> jstr \<Rightarrow> jstr \<Rightarrow> idb \<Rightarrow> idb" where
  "remove_record accountId draftId itemKey db =
     (if \<not> validIdentity accountId draftId then db else backend_delete [accountId, draftId, itemKey] db)"

text \<open>\<open>list\<close>: what is not a record of the draft is deleted under the key it names.\<close>

fun list_values :: "jstr \<Rightarrow> jstr \<Rightarrow> hvalue list \<Rightarrow> idb \<Rightarrow> recovery_record list \<times> idb" where
  "list_values accountId draftId [] db = ([], db)"
| "list_values accountId draftId (v # vs) db =
     (case parseRecoveryRecord v accountId draftId of
        Some r \<Rightarrow> (let (rs, db) = list_values accountId draftId vs db in (r # rs, db))
      | None \<Rightarrow>
          (case string_value (field (fields_of v) ''itemKey'') of
             Some itemKey \<Rightarrow> list_values accountId draftId vs (backend_delete [accountId, draftId, itemKey] db)
           | None \<Rightarrow> list_values accountId draftId vs db))"

definition list_records :: "jstr \<Rightarrow> jstr \<Rightarrow> idb \<Rightarrow> recovery_record list \<times> idb" where
  "list_records accountId draftId db =
     (if \<not> validIdentity accountId draftId then ([], db)
      else list_values accountId draftId (backend_list [accountId, draftId] db) db)"

definition clearDraft :: "jstr \<Rightarrow> jstr \<Rightarrow> idb \<Rightarrow> idb" where
  "clearDraft accountId draftId db =
     (let (rs, db) = list_records accountId draftId db in
      fold (\<lambda>r. remove_record accountId draftId (rr_itemKey r)) rs db)"

section \<open>The plan of a restore\<close>

datatype restore_disposition = On_account | Recoverable | Must_reselect | Unavailable

record plan_entry =
  pl_itemKey :: jstr
  pl_disposition :: restore_disposition
  pl_record :: "recovery_record option"
  pl_serverItem :: "server_item option"

text \<open>\<open>legacy\<close> tells the items whose \<open>qualityMode\<close> on the account is \<open>legacy\<close>.\<close>

definition covers :: "recovery_record \<Rightarrow> server_component \<Rightarrow> bool" where
  "covers r c \<longleftrightarrow> list_ex (\<lambda>local. rc_componentId local = sc_id c \<and> rc_byteSize local = sc_byteSize c) (rr_components r)"

definition missing_components :: "server_item \<Rightarrow> server_component list" where
  "missing_components s = filter (\<lambda>c. sc_state c \<notin> {Sc_received, Sc_verified}) (si_components s)"

definition plan_item :: "(server_item \<Rightarrow> bool) \<Rightarrow> server_item list \<Rightarrow> recovery_record list \<Rightarrow> jstr \<times> jstr option \<Rightarrow> plan_entry" where
  "plan_item legacy servers records = (\<lambda>(key, itemId).
     let serverItem = (case itemId of None \<Rightarrow> None | Some i \<Rightarrow> find (\<lambda>s. si_id s = i) servers);
         local = find (\<lambda>r. rr_itemKey r = key \<and> Some (rr_itemId r) = itemId) records in
     case serverItem of
       None \<Rightarrow> \<lparr>pl_itemKey = key, pl_disposition = (if itemId = None then Must_reselect else Unavailable), pl_record = None, pl_serverItem = None\<rparr>
     | Some s \<Rightarrow>
         (if si_state s \<in> {Si_cancelled, Si_purged} then
            \<lparr>pl_itemKey = key, pl_disposition = Unavailable, pl_record = None, pl_serverItem = Some s\<rparr>
          else if si_state s \<in> {Si_ready, Si_processing} \<or> legacy s then
            \<lparr>pl_itemKey = key, pl_disposition = On_account, pl_record = None, pl_serverItem = Some s\<rparr>
          else
            (let covered = (case local of None \<Rightarrow> False | Some r \<Rightarrow> list_all (covers r) (missing_components s)) in
             \<lparr>pl_itemKey = key, pl_disposition = (if covered then Recoverable else Must_reselect),
              pl_record = (if covered then local else None), pl_serverItem = Some s\<rparr>)))"

definition planDraftRestore :: "(server_item \<Rightarrow> bool) \<Rightarrow> (jstr \<times> jstr option) list \<Rightarrow> server_item list \<Rightarrow> recovery_record list \<Rightarrow> plan_entry list" where
  "planDraftRestore legacy items servers records = map (plan_item legacy servers records) items"

end
