(* ===== verification/UploadState.thy ===== *)
theory UploadState
  imports LocalRecovery
begin

text \<open>
  The state of the upload manager (\<open>class UploadManager\<close> of \<open>apps/web/features/publishing/upload-manager.ts\<close>) and the
  operations everything else is made of: patches, polling, phases, pausing, transfers and their queue. Item records are
  objects: \<open>up_heap\<close> holds every record ever made, \<open>up_records\<close> the \<open>Map\<close> from keys to records together with the array
  \<open>order\<close>, which lists the same keys in the same order. Publishing a snapshot is left out: the snapshot is a function of
  the state. \<open>up_port\<close> holds the transfers the transfer port runs, \<open>up_calls\<close> the calls made with the account confirmed
  at that moment.
\<close>

section \<open>State\<close>

datatype upload_status = Active | Paused_manager | Disposed
datatype pause_reason = Pause_account | Pause_offline

datatype holder = Draft_holder jstr | Session_holder jstr

record register_command =
  rg_requestId :: jstr
  rg_holder :: holder
  rg_kind :: item_kind
  rg_qualityMode :: quality_mode
  rg_processingProfile :: "jstr option"
  rg_components :: "(role \<times> nat \<times> content_type \<times> standard_outcome option) list"
  rg_clientPairing :: "client_pairing option"
  rg_metadata :: "json option"
  rg_clientSource :: "client_source option"

datatype upload_call =
    Call_holder
  | Call_register register_command
  | Call_item jstr
  | Call_cancel jstr jstr
  | Call_reset jstr role jstr
  | Call_start jstr jstr blob
  | Call_save jstr key "(role \<times> jstr \<times> blob) list"
  | Call_remove jstr key
  | Call_list jstr

text \<open>An asynchronous function of an item: what it awaits, its record and the epoch it started in; \<open>tk_slot\<close> marks the
  ones started by \<open>pumpPreprocess\<close>, which hold a preprocessing slot until they end.\<close>

datatype step =
    Await_still blob
  | Await_motion prepared_component
  | Await_metadata "prepared_component list"
  | Await_holder bool
  | Await_register holder bool
  | Await_hash role jstr server_item
  | Await_settle_read role failure
  | Await_cancel
  | Await_reset_processing jstr role "role list" "role list"
  | Await_processing_read "role list" port_error
  | Await_restart_read jstr role
  | Await_restart_reset role
  | Await_restart_again role port_error
  | Await_poll_read
  | Await_store jstr
  | Await_end

record upload_task =
  tk_slot :: bool
  tk_uid :: nat
  tk_epoch :: nat
  tk_step :: step

record port_transfer =
  pt_id :: jstr
  pt_uid :: nat
  pt_role :: role
  pt_epoch :: nat

text \<open>What \<open>fetchItem\<close> resolves to.\<close>

datatype fetched = F_null | F_item server_item | F_gone | F_account | F_error port_error

text \<open>A \<open>detachFromHolder\<close> that reads its items: the records with their epochs, the ones whose read is awaited, and the reads
  answered so far.\<close>

record detaching =
  dt_records :: "(nat \<times> nat) list"
  dt_awaited :: "nat list"
  dt_reads :: "(nat \<times> fetched) list"

text \<open>A draft that is reopened: its items, the account's items, and the identities of those of the legacy quality mode. A
  checkpoint keeps what an item is made of. Under way are a \<open>restoreDraft\<close> that lists the local records, and a
  \<open>restoreCheckpoint\<close> that reads an item, with the entries left to it.\<close>

record draft_item =
  di_key :: key
  di_itemId :: "jstr option"
  di_kind :: item_kind
  di_qualityMode :: quality_mode
  di_clipboard :: bool

record restored_draft =
  rd_id :: jstr
  rd_items :: "draft_item list"
  rd_servers :: "server_item list"
  rd_legacy :: "jstr list"

record checkpoint_entry =
  cp_view :: item_view
  cp_source :: "logical_source option"
  cp_prepared :: "prepared_component list option"
  cp_pairing :: "client_pairing option"
  cp_metadata :: "json option"
  cp_clientSource :: "client_source option"
  cp_registerRequestId :: "jstr option"

datatype restoring = Lists_draft restored_draft | Reads_entry key nat nat "checkpoint_entry list"

text \<open>\<open>up_session\<close> is \<open>None\<close> without a bound session, else whether its save mode is \<open>saved\<close>.\<close>

record uploads =
  up_status :: upload_status
  up_pauseReason :: "pause_reason option"
  up_heap :: "item_record list"
  up_records :: "(key \<times> nat) list"
  up_session :: "bool option"
  up_draftId :: "jstr option"
  up_preprocessQueue :: "key list"
  up_preprocessRunning :: nat
  up_transferQueue :: "(key \<times> role) list"
  up_transferRunning :: nat
  up_pollingEnabled :: bool
  up_holderChanging :: bool
  up_ignored :: nat
  up_requests :: nat
  up_attempts :: nat
  up_port :: "port_transfer list"
  up_tasks :: "upload_task list"
  up_detaching :: "detaching list"
  up_restoring :: "restoring list"
  up_calls :: "(jstr option \<times> upload_call) list"

text \<open>The options of the manager, and what its synchronous ports answer now: the confirmed account, and the error
  \<open>uploadHeaders\<close> or \<open>uploadEndpoint\<close> throws for an attempt.\<close>

record upload_world =
  uw_accountId :: jstr
  uw_requestId :: "nat \<Rightarrow> jstr"
  uw_attemptId :: "nat \<Rightarrow> jstr"
  uw_preprocessConcurrency :: nat
  uw_transferConcurrency :: nat
  uw_hasher :: bool
  uw_recovery :: bool
  uw_fileSize :: "file_ref \<Rightarrow> nat"
  uw_identifierSha256 :: "jstr \<Rightarrow> jstr"
  uw_account :: "jstr option"
  uw_headers :: "jstr \<Rightarrow> port_error option"

definition new_upload_manager :: uploads where
  "new_upload_manager =
     \<lparr>up_status = Active, up_pauseReason = None, up_heap = [], up_records = [], up_session = None, up_draftId = None,
      up_preprocessQueue = [], up_preprocessRunning = 0, up_transferQueue = [], up_transferRunning = 0, up_pollingEnabled = True,
      up_holderChanging = False, up_ignored = 0, up_requests = 0, up_attempts = 0, up_port = [], up_tasks = [], up_detaching = [], up_restoring = [],
      up_calls = []\<rparr>"

abbreviation rec_of :: "uploads \<Rightarrow> nat \<Rightarrow> item_record" where
  "rec_of st u \<equiv> up_heap st ! u"

abbreviation view_of :: "uploads \<Rightarrow> nat \<Rightarrow> item_view" where
  "view_of st u \<equiv> ir_view (rec_of st u)"

definition lookup_record :: "uploads \<Rightarrow> key \<Rightarrow> nat option" where
  "lookup_record st k = map_of (up_records st) k"

definition upd :: "nat \<Rightarrow> (item_record \<Rightarrow> item_record) \<Rightarrow> uploads \<Rightarrow> uploads" where
  "upd u f st = st\<lparr>up_heap := (up_heap st)[u := f (rec_of st u)]\<rparr>"

definition patch :: "nat \<Rightarrow> (item_view \<Rightarrow> item_view) \<Rightarrow> uploads \<Rightarrow> uploads" where
  "patch u f = upd u (\<lambda>r. r\<lparr>ir_view := f (ir_view r)\<rparr>)"

definition patchComponent :: "nat \<Rightarrow> role \<Rightarrow> (component_view \<Rightarrow> component_view) \<Rightarrow> uploads \<Rightarrow> uploads" where
  "patchComponent u rl f = patch u (\<lambda>v. v\<lparr>iv_components := map (\<lambda>c. if cv_role c = rl then f c else c) (iv_components v)\<rparr>)"

definition note_call :: "upload_world \<Rightarrow> upload_call \<Rightarrow> uploads \<Rightarrow> uploads" where
  "note_call w call st = st\<lparr>up_calls := up_calls st @ [(uw_account w, call)]\<rparr>"

definition alive :: "uploads \<Rightarrow> nat \<Rightarrow> nat \<Rightarrow> bool" where
  "alive st u epoch \<longleftrightarrow>
     up_status st \<noteq> Disposed \<and> ir_epoch (rec_of st u) = epoch \<and> lookup_record st (iv_key (view_of st u)) = Some u"

definition renew :: "nat \<Rightarrow> uploads \<Rightarrow> uploads" where
  "renew u = upd u (\<lambda>r. r\<lparr>ir_epoch := ir_epoch r + 1\<rparr>)"

definition fail :: "nat \<Rightarrow> failure \<Rightarrow> uploads \<Rightarrow> uploads" where
  "fail u failure = patch u (\<lambda>v. v\<lparr>iv_phase := Failed_item, iv_failure := Some failure\<rparr>)"

definition draw_request :: "upload_world \<Rightarrow> uploads \<Rightarrow> jstr \<times> uploads" where
  "draw_request w st = (uw_requestId w (up_requests st), st\<lparr>up_requests := up_requests st + 1\<rparr>)"

section \<open>Polling and phases\<close>

definition schedulePoll :: "nat \<Rightarrow> uploads \<Rightarrow> uploads" where
  "schedulePoll u st =
     (if \<not> up_pollingEnabled st \<or> up_status st \<noteq> Active \<or> ir_pollTimer (rec_of st u) \<noteq> None \<or> iv_itemId (view_of st u) = None then st
      else upd u (\<lambda>r. r\<lparr>ir_pollTimer := Some (POLL_DELAYS_MS ! min (ir_pollAttempt r) (length POLL_DELAYS_MS - 1), ir_epoch r),
             ir_pollAttempt := ir_pollAttempt r + 1\<rparr>) st)"

definition stopPolling :: "nat \<Rightarrow> uploads \<Rightarrow> uploads" where
  "stopPolling u = upd u (\<lambda>r. r\<lparr>ir_pollTimer := None\<rparr>)"

definition derivePhase :: "nat \<Rightarrow> uploads \<Rightarrow> uploads" where
  "derivePhase u st =
     (let v = view_of st u in
      if phase_kept v then st
      else
        (let next = phase_of (map cv_phase (iv_components v));
             failed = find (\<lambda>c. cv_phase c = C_failed) (iv_components v);
             st = patch u (\<lambda>v. v\<lparr>iv_phase := next, iv_failure := (if next = Failed_item then Option.bind failed cv_failure else None)\<rparr>) st in
         if next = Uploaded then schedulePoll u st else st))"

section \<open>Pausing\<close>

definition role_list :: "role list" where "role_list = [Role_still, Role_motion, Role_package]"

definition running_ids :: "item_record \<Rightarrow> jstr list" where
  "running_ids r = List.map_filter (ir_transfers r) role_list"

text \<open>Aborting what a record transfers: the port drops each transfer and one slot is counted free for each.\<close>

definition abort_record :: "nat \<Rightarrow> uploads \<Rightarrow> uploads" where
  "abort_record u st =
     (let ids = running_ids (rec_of st u);
          st = st\<lparr>up_port := filter (\<lambda>t. pt_id t \<notin> set ids) (up_port st), up_transferRunning := up_transferRunning st - length ids\<rparr> in
      upd u (\<lambda>r. r\<lparr>ir_transfers := \<lambda>_. None\<rparr>) st)"

definition pause_component :: "nat \<Rightarrow> (role \<Rightarrow> bool) \<Rightarrow> component_view \<Rightarrow> uploads \<Rightarrow> uploads" where
  "pause_component u sending c st =
     (if cv_phase c = C_uploading \<or> cv_phase c = C_queued then
        patchComponent u (cv_role c) (\<lambda>x. x\<lparr>cv_phase := C_paused,
          cv_failure := Some (up_failure ''paused'' (cv_phase c = C_uploading \<or> sending (cv_role c)))\<rparr>) st
      else st)"

definition pause_record :: "nat \<Rightarrow> uploads \<Rightarrow> uploads" where
  "pause_record u st =
     (let st = stopPolling u st;
          st = (if iv_phase (view_of st u) = Preprocessing then patch u (\<lambda>v. v\<lparr>iv_phase := Waiting\<rparr>) (renew u st) else st);
          sending = (\<lambda>rl. ir_transfers (rec_of st u) rl \<noteq> None);
          st = abort_record u st;
          st = (if iv_itemId (view_of st u) \<noteq> None \<and> \<not> is_terminal (iv_phase (view_of st u))
                then fold (pause_component u sending) (iv_components (view_of st u)) st else st) in
      derivePhase u st)"

definition pause :: "pause_reason \<Rightarrow> uploads \<Rightarrow> uploads" where
  "pause reason st =
     (if up_status st = Disposed then st
      else
        (let st = st\<lparr>up_status := Paused_manager, up_pauseReason := Some reason\<rparr>;
             st = fold pause_record (map snd (up_records st)) st in
         st\<lparr>up_transferQueue := [], up_preprocessQueue := []\<rparr>))"

definition own_account :: "upload_world \<Rightarrow> bool" where
  "own_account w \<longleftrightarrow> uw_account w = Some (uw_accountId w)"

definition guardAccount :: "upload_world \<Rightarrow> uploads \<Rightarrow> bool \<times> uploads" where
  "guardAccount w st = (if own_account w then (True, st) else (False, pause Pause_account st))"

section \<open>Transfers\<close>

definition startTransfer :: "upload_world \<Rightarrow> nat \<Rightarrow> role \<Rightarrow> uploads \<Rightarrow> uploads" where
  "startTransfer w u rl st =
     (let r = rec_of st u in
      case (ir_componentIds r rl, Option.bind (ir_prepared r) (find (\<lambda>c. pc_role c = rl)), find_component rl (iv_components (ir_view r))) of
        (Some componentId, Some prepared, Some component) \<Rightarrow>
          (if cv_phase component \<noteq> C_queued then st
           else
             (let attempt = uw_attemptId w (up_attempts st); st = st\<lparr>up_attempts := up_attempts st + 1\<rparr> in
              case uw_headers w attempt of
                Some err \<Rightarrow>
                  (if is_account_error err then pause Pause_account st
                   else derivePhase u (patchComponent u rl (\<lambda>c. c\<lparr>cv_phase := C_failed,
                     cv_failure := Some (failureFrom err (up_failure ''transfer_failed'' False))\<rparr>) st))
              | None \<Rightarrow>
                  (let transferId = componentId @ [46] @ attempt;
                       st = upd u (\<lambda>r. r\<lparr>ir_transfers := (ir_transfers r)(rl \<mapsto> transferId),
                              ir_hashes := (ir_hashes r)(rl := ir_hashes r rl \<or> uw_hasher w)\<rparr>) st;
                       st = st\<lparr>up_transferRunning := up_transferRunning st + 1\<rparr>;
                       st = patchComponent u rl (\<lambda>c. c\<lparr>cv_phase := C_uploading, cv_bytesSent := 0, cv_failure := None\<rparr>) st;
                       st = derivePhase u st;
                       st = note_call w (Call_start transferId componentId (pc_blob prepared)) st in
                   st\<lparr>up_port := up_port st @ [\<lparr>pt_id = transferId, pt_uid = u, pt_role = rl, pt_epoch = ir_epoch (rec_of st u)\<rparr>]\<rparr>)))
      | _ \<Rightarrow> st)"

lemma queue_kept [simp]:
  "up_transferQueue (upd u f st) = up_transferQueue st"
  "up_transferQueue (patch u g st) = up_transferQueue st"
  "up_transferQueue (patchComponent u rl h st) = up_transferQueue st"
  "up_transferQueue (note_call w call st) = up_transferQueue st"
  "up_transferQueue (schedulePoll u st) = up_transferQueue st"
  "up_transferQueue (derivePhase u st) = up_transferQueue st"
  by (simp_all add: upd_def patch_def patchComponent_def note_call_def schedulePoll_def derivePhase_def Let_def)

lemma pause_queue: "up_transferQueue (pause reason st) = (if up_status st = Disposed then up_transferQueue st else [])"
  by (simp add: pause_def Let_def)

lemma startTransfer_queue: "length (up_transferQueue (startTransfer w u rl st)) \<le> length (up_transferQueue st)"
  by (auto simp: startTransfer_def Let_def pause_queue split: option.splits)

text \<open>The loop takes one component off the queue in every turn.\<close>

function pumpTransfers :: "upload_world \<Rightarrow> uploads \<Rightarrow> uploads" where
  "pumpTransfers w st =
     (if up_status st = Active \<and> up_transferRunning st < uw_transferConcurrency w \<and> up_transferQueue st \<noteq> [] then
        (let (own, st) = guardAccount w st in
         if \<not> own then st
         else
           (let (k, rl) = hd (up_transferQueue st); st = st\<lparr>up_transferQueue := tl (up_transferQueue st)\<rparr> in
            case lookup_record st k of
              None \<Rightarrow> pumpTransfers w st
            | Some u \<Rightarrow> pumpTransfers w (startTransfer w u rl st)))
      else st)"
  by pat_completeness auto
termination
proof (relation "measure (\<lambda>(w, st). length (up_transferQueue st))", goal_cases)
  case (3 w st x own st1 y k rl st2 u)
  then show ?case
    using startTransfer_queue [of w u rl "st1\<lparr>up_transferQueue := tl (up_transferQueue st1)\<rparr>"]
    by (auto simp: guardAccount_def Let_def split: if_splits intro: le_less_trans)
qed (auto simp: guardAccount_def Let_def split: if_splits)

declare pumpTransfers.simps [simp del]

definition enqueueTransfer :: "upload_world \<Rightarrow> nat \<Rightarrow> role \<Rightarrow> uploads \<Rightarrow> uploads" where
  "enqueueTransfer w u rl st =
     (let k = iv_key (view_of st u) in
      if (k, rl) \<in> set (up_transferQueue st) then st
      else
        (let st = derivePhase u (patchComponent u rl (\<lambda>c. c\<lparr>cv_phase := C_queued, cv_failure := None\<rparr>) st) in
         pumpTransfers w (st\<lparr>up_transferQueue := up_transferQueue st @ [(k, rl)]\<rparr>)))"

definition abortTransfers :: "upload_world \<Rightarrow> nat \<Rightarrow> uploads \<Rightarrow> uploads" where
  "abortTransfers w u st = pumpTransfers w (abort_record u st)"

definition drop_queued :: "key \<Rightarrow> uploads \<Rightarrow> uploads" where
  "drop_queued k st = st\<lparr>up_transferQueue := filter (\<lambda>q. fst q \<noteq> k) (up_transferQueue st)\<rparr>"

definition polls_after_resume :: "uploads \<Rightarrow> nat \<Rightarrow> bool" where
  "polls_after_resume st u \<longleftrightarrow> iv_phase (view_of st u) \<in> {Uploaded, Processing}"

definition resume :: "upload_world \<Rightarrow> uploads \<Rightarrow> uploads" where
  "resume w st =
     (if up_status st \<noteq> Paused_manager then st
      else
        (let st = st\<lparr>up_status := Active, up_pauseReason := None\<rparr>;
             st = fold (\<lambda>u st. if polls_after_resume st u then schedulePoll u st else st) (map snd (up_records st)) st in
         pumpTransfers w st))"

end
