(* ===== verification/UploadManager.thy ===== *)
theory UploadManager
  imports UploadState
begin

text \<open>
  The operations of the upload manager (\<open>apps/web/features/publishing/upload-manager.ts\<close>). An asynchronous function is
  cut at its awaits: each part is a definition that returns the state and what it awaits next (\<open>None\<close>: it has ended).
  A promise that is resolved and the function that awaits it continue in one step.
\<close>

type_synonym progress = "uploads \<times> step option"

section \<open>Local copies and the account's view\<close>

definition forgetLocalCopy :: "upload_world \<Rightarrow> nat \<Rightarrow> uploads \<Rightarrow> uploads" where
  "forgetLocalCopy w u st =
     (let draftId = (case ir_draftId (rec_of st u) of Some d \<Rightarrow> Some d | None \<Rightarrow> up_draftId st);
          st = (case draftId of
                  Some d \<Rightarrow> if uw_recovery w \<and> up_session st = Some True then note_call w (Call_remove d (iv_key (view_of st u))) st else st
                | None \<Rightarrow> st) in
      if iv_recoverable (view_of st u) then patch u (\<lambda>v. v\<lparr>iv_recoverable := False\<rparr>) st else st)"

definition merge_component :: "nat \<Rightarrow> role option \<Rightarrow> server_component \<Rightarrow> uploads \<Rightarrow> uploads" where
  "merge_component u keepFailedRole server st =
     (case find_component (sc_role server) (iv_components (view_of st u)) of
        None \<Rightarrow> st
      | Some local \<Rightarrow>
          (if sc_state server \<in> {Sc_received, Sc_verified} \<and> Some (sc_role server) \<noteq> keepFailedRole then
             patchComponent u (sc_role server) (\<lambda>c. c\<lparr>cv_phase := C_received, cv_byteSize := sc_byteSize server,
               cv_bytesSent := sc_byteSize server, cv_failure := None\<rparr>) st
           else if sc_state server = Sc_cancelled then patchComponent u (sc_role server) (\<lambda>c. c\<lparr>cv_phase := C_cancelled\<rparr>) st
           else if sc_state server = Sc_rejected \<and> cv_phase local \<noteq> C_failed then
             patchComponent u (sc_role server) (\<lambda>c. c\<lparr>cv_phase := C_failed, cv_failure := Some (up_failure ''rejected'' False)\<rparr>) st
           else if cv_phase local = C_missing_local \<or> cv_byteSize local = 0 then
             patchComponent u (sc_role server) (\<lambda>c. c\<lparr>cv_byteSize := sc_byteSize server\<rparr>) st
           else st))"

definition server_failure :: "server_item \<Rightarrow> failure" where
  "server_failure item = up_failure (failure_code_text (case si_failureCode item of Some c \<Rightarrow> c | None \<Rightarrow> Processing_failed)) False"

definition applyServerItem :: "upload_world \<Rightarrow> nat \<Rightarrow> server_item \<Rightarrow> bool \<Rightarrow> role option \<Rightarrow> uploads \<Rightarrow> uploads" where
  "applyServerItem w u item transferContext keepFailedRole st =
     (let st = patch u (\<lambda>v. v\<lparr>iv_serverItem := Some item, iv_itemId := Some (si_id item)\<rparr>) st;
          st = fold (merge_component u keepFailedRole) (si_components item) st in
      case si_state item of
        Si_ready \<Rightarrow>
          (let st = stopPolling u st;
               st = patch u (\<lambda>v. v\<lparr>iv_phase := Ready_item, iv_failure := None\<rparr>) st;
               st = forgetLocalCopy w u st in
           upd u (\<lambda>r. r\<lparr>ir_prepared := None, ir_hashes := \<lambda>_. False\<rparr>) st)
      | Si_processing \<Rightarrow> schedulePoll u (forgetLocalCopy w u (patch u (\<lambda>v. v\<lparr>iv_phase := Processing\<rparr>) st))
      | Si_failed \<Rightarrow> patch u (\<lambda>v. v\<lparr>iv_phase := Failed_item, iv_failure := Some (server_failure item)\<rparr>) (stopPolling u st)
      | Si_cancelled \<Rightarrow> forgetLocalCopy w u (patch u (\<lambda>v. v\<lparr>iv_phase := Cancelled\<rparr>) (stopPolling u st))
      | Si_purged \<Rightarrow> forgetLocalCopy w u (patch u (\<lambda>v. v\<lparr>iv_phase := Cancelled\<rparr>) (stopPolling u st))
      | Si_awaiting_upload \<Rightarrow>
          (let st = derivePhase u st in
           if transferContext \<and> iv_phase (view_of st u) = Uploaded then schedulePoll u st else st))"

definition fail_unreceived :: "component_view \<Rightarrow> component_view" where
  "fail_unreceived c = (if cv_phase c = C_received then c else c\<lparr>cv_phase := C_failed, cv_failure := None\<rparr>)"

definition markUnavailable :: "upload_world \<Rightarrow> nat \<Rightarrow> uploads \<Rightarrow> uploads" where
  "markUnavailable w u st =
     (let st = drop_queued (iv_key (view_of st u)) (abortTransfers w u (stopPolling u st));
          st = forgetLocalCopy w u st in
      patch u (\<lambda>v. v\<lparr>iv_phase := Failed_item, iv_failure := Some (up_failure ''unavailable'' False),
        iv_components := map fail_unreceived (iv_components v)\<rparr>) st)"

definition cancelOnAccount :: "upload_world \<Rightarrow> jstr \<Rightarrow> uploads \<Rightarrow> uploads" where
  "cancelOnAccount w itemId st =
     (if \<not> own_account w then st
      else (let (requestId, st) = draw_request w st in note_call w (Call_cancel itemId requestId) st))"

definition requeue_component :: "component_view \<Rightarrow> component_view" where
  "requeue_component c = c\<lparr>cv_phase := C_queued, cv_bytesSent := 0, cv_failure := None\<rparr>"

definition abandonRegistration :: "upload_world \<Rightarrow> nat \<Rightarrow> failure \<Rightarrow> uploads \<Rightarrow> uploads" where
  "abandonRegistration w u failure st =
     (let itemId = iv_itemId (view_of st u);
          st = stopPolling u (abortTransfers w u (renew u st));
          st = forgetLocalCopy w u (drop_queued (iv_key (view_of st u)) st);
          st = upd u (\<lambda>r. r\<lparr>ir_componentIds := \<lambda>_. None, ir_registerRequestId := None, ir_hashes := \<lambda>_. False, ir_draftId := None\<rparr>) st;
          st = patch u (\<lambda>v. v\<lparr>iv_itemId := None, iv_serverItem := None, iv_recoverable := False, iv_phase := Failed_item,
                 iv_failure := Some failure, iv_components := map requeue_component (iv_components v)\<rparr>) st in
      case itemId of None \<Rightarrow> st | Some i \<Rightarrow> cancelOnAccount w i st)"

text \<open>\<open>fetchItem\<close>: what is awaited, and what its answer tells. Without an item it resolves to \<open>null\<close> and its callers return.\<close>

definition fetch_begin :: "upload_world \<Rightarrow> nat \<Rightarrow> step \<Rightarrow> uploads \<Rightarrow> progress" where
  "fetch_begin w u next st =
     (case iv_itemId (view_of st u) of None \<Rightarrow> (st, None) | Some i \<Rightarrow> (note_call w (Call_item i) st, Some next))"

definition fetch_answered :: "uploads \<Rightarrow> nat \<Rightarrow> nat \<Rightarrow> port_error + server_item \<Rightarrow> fetched" where
  "fetch_answered st u epoch ans =
     (if \<not> alive st u epoch then F_null
      else case ans of
        Inr item \<Rightarrow> F_item item
      | Inl err \<Rightarrow> if is_account_error err then F_account else if is_not_found err then F_gone else F_error err)"

section \<open>Registration\<close>

definition waitForAccount :: "nat \<Rightarrow> uploads \<Rightarrow> uploads" where
  "waitForAccount u st = pause Pause_account (patch u (\<lambda>v. v\<lparr>iv_phase := Waiting, iv_failure := None\<rparr>) st)"

definition register :: "upload_world \<Rightarrow> nat \<Rightarrow> nat \<Rightarrow> uploads \<Rightarrow> progress" where
  "register w u epoch st =
     (if ir_prepared (rec_of st u) = None then (st, None)
      else if \<not> own_account w then (waitForAccount u st, None)
      else
        (let st = patch u (\<lambda>v. v\<lparr>iv_phase := Registering, iv_failure := None\<rparr>) st in
         case up_session st of
           Some saved \<Rightarrow> (note_call w Call_holder st, Some (Await_holder saved))
         | None \<Rightarrow> if alive st u epoch then (fail u (up_failure ''holder_unavailable'' False) st, None) else (st, None)))"

fun blob_size :: "upload_world \<Rightarrow> blob \<Rightarrow> nat" where
  "blob_size w (File_blob f) = uw_fileSize w f"
| "blob_size w (Slice_blob f start stop) = min stop (uw_fileSize w f) - start"
| "blob_size w (Made_blob b n) = n"

definition register_command_of :: "upload_world \<Rightarrow> item_record \<Rightarrow> prepared_component list \<Rightarrow> jstr \<Rightarrow> holder \<Rightarrow> register_command" where
  "register_command_of w r prepared requestId holder =
     (let standard = (iv_qualityMode (ir_view r) = Standard) in
      \<lparr>rg_requestId = requestId, rg_holder = holder, rg_kind = iv_kind (ir_view r), rg_qualityMode = (if standard then Standard else Original),
       rg_processingProfile =
         (if standard then Some (if iv_kind (ir_view r) = Kind_static then js ''standard-image-v1'' else js ''standard-live-v1'') else None),
       rg_components = map (\<lambda>c. (pc_role c, blob_size w (pc_blob c), pc_contentType c, if standard then pc_standardOutcome c else None)) prepared,
       rg_clientPairing = ir_pairing r, rg_metadata = ir_metadata r, rg_clientSource = ir_clientSource r\<rparr>)"

definition register_held :: "upload_world \<Rightarrow> nat \<Rightarrow> nat \<Rightarrow> bool \<Rightarrow> port_error + holder \<Rightarrow> uploads \<Rightarrow> progress" where
  "register_held w u epoch saved ans st =
     (if \<not> alive st u epoch then (st, None)
      else case ans of
        Inl err \<Rightarrow>
          (if is_account_error err \<or> \<not> own_account w then (waitForAccount u st, None)
           else (fail u (failureFrom err (up_failure ''holder_unavailable'' False)) st, None))
      | Inr holder \<Rightarrow>
          (if \<not> own_account w then (waitForAccount u st, None)
           else
             (let (requestId, st) = (case ir_registerRequestId (rec_of st u) of Some i \<Rightarrow> (i, st) | None \<Rightarrow> draw_request w st);
                  st = upd u (\<lambda>r. r\<lparr>ir_registerRequestId := Some requestId\<rparr>) st;
                  prepared = (case ir_prepared (rec_of st u) of Some p \<Rightarrow> p | None \<Rightarrow> []) in
              (note_call w (Call_register (register_command_of w (rec_of st u) prepared requestId holder)) st, Some (Await_register holder saved)))))"

definition push_task :: "bool \<Rightarrow> nat \<Rightarrow> nat \<Rightarrow> step \<Rightarrow> uploads \<Rightarrow> uploads" where
  "push_task slot u epoch stp st = st\<lparr>up_tasks := up_tasks st @ [\<lparr>tk_slot = slot, tk_uid = u, tk_epoch = epoch, tk_step = stp\<rparr>]\<rparr>"

text \<open>An ended function still ends its promise; only \<open>pumpPreprocess\<close> waits for that.\<close>

definition park :: "bool \<Rightarrow> nat \<Rightarrow> nat \<Rightarrow> progress \<Rightarrow> uploads" where
  "park slot u epoch p =
     (case snd p of Some stp \<Rightarrow> push_task slot u epoch stp (fst p)
      | None \<Rightarrow> if slot then push_task slot u epoch Await_end (fst p) else fst p)"

definition storeLocalCopy :: "upload_world \<Rightarrow> nat \<Rightarrow> nat \<Rightarrow> bool \<Rightarrow> uploads \<Rightarrow> uploads" where
  "storeLocalCopy w u epoch saved st =
     (let r = rec_of st u in
      case (ir_draftId r, ir_prepared r, iv_itemId (ir_view r)) of
        (Some draftId, Some prepared, Some itemId) \<Rightarrow>
          (if up_holderChanging st \<or> \<not> uw_recovery w \<or> \<not> saved then st
           else
             (let copies = List.map_filter (\<lambda>c. map_option (\<lambda>i. (pc_role c, i, pc_blob c)) (ir_componentIds r (pc_role c))) prepared in
              push_task False u epoch (Await_store draftId) (note_call w (Call_save draftId (iv_key (ir_view r)) copies) st)))
      | _ \<Rightarrow> st)"

definition store_answered :: "upload_world \<Rightarrow> nat \<Rightarrow> nat \<Rightarrow> jstr \<Rightarrow> bool \<Rightarrow> uploads \<Rightarrow> progress" where
  "store_answered w u epoch draftId stored st =
     (if \<not> alive st u epoch \<or> up_holderChanging st \<or> up_draftId st \<noteq> Some draftId \<or> ir_draftId (rec_of st u) \<noteq> Some draftId \<or>
        is_terminal (iv_phase (view_of st u)) \<or> iv_phase (view_of st u) = Processing
      then ((if stored then note_call w (Call_remove draftId (iv_key (view_of st u))) st else st), None)
      else (patch u (\<lambda>v. v\<lparr>iv_recoverable := stored\<rparr>) st, None))"

definition send_component :: "upload_world \<Rightarrow> nat \<Rightarrow> server_component \<Rightarrow> uploads \<Rightarrow> uploads" where
  "send_component w u server st =
     (if sc_state server = Sc_awaiting then enqueueTransfer w u (sc_role server) st
      else if sc_state server = Sc_receiving then
        patchComponent u (sc_role server) (\<lambda>c. c\<lparr>cv_phase := C_paused, cv_failure := Some (up_failure ''paused'' True)\<rparr>) st
      else st)"

definition server_ids :: "server_item \<Rightarrow> role \<Rightarrow> jstr option" where
  "server_ids item = map_of (rev (map (\<lambda>c. (sc_role c, sc_id c)) (si_components item)))"

definition register_answered :: "upload_world \<Rightarrow> nat \<Rightarrow> nat \<Rightarrow> holder \<Rightarrow> bool \<Rightarrow> port_error + server_item \<Rightarrow> uploads \<Rightarrow> progress" where
  "register_answered w u epoch holder saved ans st =
     (case ans of
        Inl err \<Rightarrow>
          (if \<not> alive st u epoch then (st, None)
           else if is_account_error err then (waitForAccount u st, None)
           else (fail u (failureFrom err (up_failure ''register_failed'' True)) st, None))
      | Inr item \<Rightarrow>
          (if \<not> alive st u epoch then
             (let st = st\<lparr>up_ignored := up_ignored st + 1\<rparr> in
              (if iv_phase (view_of st u) \<in> {Cancelled, Cleanup} then cancelOnAccount w (si_id item) st else st, None))
           else
             (let st = upd u (\<lambda>r. r\<lparr>ir_componentIds := server_ids item,
                     ir_draftId := (case holder of Draft_holder d \<Rightarrow> Some d | Session_holder s \<Rightarrow> None)\<rparr>) st;
                  st = patch u (\<lambda>v. v\<lparr>iv_itemId := Some (si_id item), iv_phase := Queued\<rparr>) st;
                  st = storeLocalCopy w u epoch saved st;
                  st = applyServerItem w u item False None st;
                  st = fold (send_component w u) (si_components item) st in
              (derivePhase u st, None))))"

section \<open>Preprocessing\<close>

fun motion_blob :: "logical_source \<Rightarrow> blob" where
  "motion_blob (PairSource s m) = File_blob (mot_file m)"
| "motion_blob (ContainerSource s) =
     (case stl_motionPhoto s of
        Some c \<Rightarrow> Slice_blob (stl_file s) (mpc_videoStart c) (mpc_videoStart c + mpc_videoLength c)
      | None \<Rightarrow> File_blob (stl_file s))"
| "motion_blob (StaticSource s) = File_blob (stl_file s)"

definition still_blob :: "still \<Rightarrow> blob" where
  "still_blob s = (case stl_motionPhoto s of Some c \<Rightarrow> Slice_blob (stl_file s) 0 (mpc_primaryLength c) | None \<Rightarrow> File_blob (stl_file s))"

definition original_component :: "role \<Rightarrow> file_ref \<Rightarrow> content_type \<Rightarrow> prepared_component" where
  "original_component rl f t = \<lparr>pc_role = rl, pc_blob = File_blob f, pc_contentType = t, pc_standardOutcome = None\<rparr>"

fun originalComponents :: "logical_source \<Rightarrow> prepared_component list" where
  "originalComponents (StaticSource s) = [original_component Role_still (stl_file s) (Still_content (stl_type s))]"
| "originalComponents (ContainerSource s) = [original_component Role_package (stl_file s) (Still_content (stl_type s))]"
| "originalComponents (PairSource s m) =
     [original_component Role_still (stl_file s) (Still_content (stl_type s)), original_component Role_motion (mot_file m) (Motion_content (mot_type m))]"

fun pairingFor :: "upload_world \<Rightarrow> logical_source \<Rightarrow> client_pairing option" where
  "pairingFor w (StaticSource s) = None"
| "pairingFor w (ContainerSource s) = Some (Pairing_container (Option.bind (stl_motionPhoto s) mpc_stillTimeMs))"
| "pairingFor w (PairSource s m) =
     map_option (\<lambda>digest. Pairing_identifier digest (mot_stillTimeMs m)) (pairingDigest (uw_identifierSha256 w) (PairSource s m))"

definition needsChoice :: "nat \<Rightarrow> jstr \<Rightarrow> uploads \<Rightarrow> uploads" where
  "needsChoice u reason = patch u (\<lambda>v. v\<lparr>iv_phase := Needs_choice, iv_choice := Some reason,
     iv_components := map (\<lambda>c. c\<lparr>cv_phase := Preparing\<rparr>) (iv_components v)\<rparr>)"

definition prepare :: "upload_world \<Rightarrow> nat \<Rightarrow> uploads \<Rightarrow> progress" where
  "prepare w u st =
     (case ir_source (rec_of st u) of
        None \<Rightarrow> (st, None)
      | Some source \<Rightarrow>
          (if iv_qualityMode (view_of st u) = Original then (st, Some (Await_metadata (originalComponents source)))
           else (st, Some (Await_still (still_blob (source_still source))))))"

text \<open>What the preprocessing workers answer.\<close>

datatype still_result = Still_optimized blob still_type | Still_retained | Still_unsupported jstr | Still_failed jstr
datatype motion_result = Motion_optimized blob | Motion_retained | Motion_unsupported jstr | Motion_failed jstr

definition FINAL_MOTION_REASONS :: "jstr list" where
  "FINAL_MOTION_REASONS = [js ''stream_layout_unsupported'', js ''duration_exceeded'']"

definition is_retainable :: "still_type \<Rightarrow> bool" where
  "is_retainable t \<longleftrightarrow> t \<in> {Still_jpeg, Still_png, Still_webp}"

text \<open>\<open>stillComponent\<close> and \<open>motionComponent\<close>: the component, or \<open>None\<close> after the item moved to a choice or a failure.\<close>

definition stillComponent :: "nat \<Rightarrow> blob \<Rightarrow> still_type \<Rightarrow> still_result \<Rightarrow> uploads \<Rightarrow> prepared_component option \<times> uploads" where
  "stillComponent u blob t result st =
     (case result of
        Still_optimized out ot \<Rightarrow>
          (Some \<lparr>pc_role = Role_still, pc_blob = out, pc_contentType = Still_content ot, pc_standardOutcome = Some Optimized\<rparr>, st)
      | Still_retained \<Rightarrow>
          (if is_retainable t
           then (Some \<lparr>pc_role = Role_still, pc_blob = blob, pc_contentType = Still_content t, pc_standardOutcome = Some Retained\<rparr>, st)
           else (None, needsChoice u (js ''standard_not_smaller'') st))
      | Still_unsupported reason \<Rightarrow> (None, needsChoice u reason st)
      | Still_failed reason \<Rightarrow> (None, fail u \<lparr>fl_code = reason, fl_outcomeUnknown = False\<rparr> st))"

definition motionComponent :: "nat \<Rightarrow> motion_result \<Rightarrow> uploads \<Rightarrow> prepared_component option \<times> uploads" where
  "motionComponent u result st =
     (case result of
        Motion_optimized out \<Rightarrow>
          (Some \<lparr>pc_role = Role_motion, pc_blob = out, pc_contentType = Motion_content Motion_mp4, pc_standardOutcome = Some Optimized\<rparr>, st)
      | Motion_retained \<Rightarrow> (None, needsChoice u (js ''standard_not_smaller'') st)
      | Motion_unsupported reason \<Rightarrow>
          (None, if reason \<in> set FINAL_MOTION_REASONS then fail u \<lparr>fl_code = reason, fl_outcomeUnknown = False\<rparr> st else needsChoice u reason st)
      | Motion_failed reason \<Rightarrow> (None, fail u \<lparr>fl_code = reason, fl_outcomeUnknown = False\<rparr> st))"

text \<open>\<open>prepare\<close> after the components are there: the metadata is awaited if the item is still being preprocessed.\<close>

definition prepared_now :: "nat \<Rightarrow> nat \<Rightarrow> prepared_component list \<Rightarrow> uploads \<Rightarrow> progress" where
  "prepared_now u epoch cs st =
     (if \<not> alive st u epoch \<or> iv_phase (view_of st u) \<noteq> Preprocessing then (st, None) else (st, Some (Await_metadata cs)))"

definition still_answered :: "upload_world \<Rightarrow> nat \<Rightarrow> nat \<Rightarrow> blob \<Rightarrow> still_result \<Rightarrow> uploads \<Rightarrow> progress" where
  "still_answered w u epoch blob result st =
     (case ir_source (rec_of st u) of
        None \<Rightarrow> (st, None)
      | Some source \<Rightarrow>
          (case stillComponent u blob (stl_type (source_still source)) result st of
             (None, st) \<Rightarrow> (st, None)
           | (Some c, st) \<Rightarrow> if source_kind source = Kind_static then prepared_now u epoch [c] st else (st, Some (Await_motion c))))"

definition motion_answered :: "upload_world \<Rightarrow> nat \<Rightarrow> nat \<Rightarrow> prepared_component \<Rightarrow> motion_result \<Rightarrow> uploads \<Rightarrow> progress" where
  "motion_answered w u epoch still result st =
     (case motionComponent u result st of (None, st) \<Rightarrow> (st, None) | (Some c, st) \<Rightarrow> prepared_now u epoch [still, c] st)"

text \<open>Preprocessing that throws: an abort is silent, as is a stale answer.\<close>

definition prepare_threw :: "nat \<Rightarrow> nat \<Rightarrow> bool \<Rightarrow> uploads \<Rightarrow> progress" where
  "prepare_threw u epoch aborted st =
     (if \<not> alive st u epoch \<or> aborted then (st, None) else (fail u (up_failure ''preprocess_failed'' False) st, None))"

definition prepared_view :: "upload_world \<Rightarrow> prepared_component \<Rightarrow> component_view" where
  "prepared_view w c =
     \<lparr>cv_role = pc_role c, cv_contentType = Some (pc_contentType c), cv_byteSize = blob_size w (pc_blob c), cv_bytesSent = 0,
      cv_standardOutcome = pc_standardOutcome c, cv_phase = C_queued, cv_failure = None\<rparr>"

definition metadata_answered :: "upload_world \<Rightarrow> nat \<Rightarrow> nat \<Rightarrow> prepared_component list \<Rightarrow> json option \<Rightarrow> uploads \<Rightarrow> progress" where
  "metadata_answered w u epoch cs metadata st =
     (if \<not> alive st u epoch \<or> iv_phase (view_of st u) \<noteq> Preprocessing then (st, None)
      else
        (let st = upd u (\<lambda>r. r\<lparr>ir_prepared := Some cs, ir_pairing := Option.bind (ir_source r) (pairingFor w), ir_metadata := metadata\<rparr>) st;
             st = patch u (\<lambda>v. v\<lparr>iv_components := map (prepared_view w) cs\<rparr>) st in
         register w u epoch st))"

lemma preprocess_queue_kept [simp]:
  "up_preprocessQueue (upd u f st) = up_preprocessQueue st"
  "up_preprocessQueue (patch u g st) = up_preprocessQueue st"
  "up_preprocessQueue (note_call w call st) = up_preprocessQueue st"
  "up_preprocessQueue (fail u err st) = up_preprocessQueue st"
  "up_preprocessQueue (push_task slot u epoch stp st) = up_preprocessQueue st"
  by (simp_all add: upd_def patch_def note_call_def fail_def push_task_def)

lemma pause_preprocess_queue: "up_preprocessQueue (pause reason st) = (if up_status st = Disposed then up_preprocessQueue st else [])"
  by (simp add: pause_def Let_def)

lemma register_preprocess_queue: "length (up_preprocessQueue (fst (register w u epoch st))) \<le> length (up_preprocessQueue st)"
  by (auto simp: register_def waitForAccount_def pause_preprocess_queue Let_def split: option.splits)

lemma park_preprocess_queue: "up_preprocessQueue (park slot u epoch p) = up_preprocessQueue (fst p)"
  by (simp add: park_def split: option.splits)

lemma prepare_state: "fst (prepare w u st) = st"
  by (simp add: prepare_def split: option.splits)

function pumpPreprocess :: "upload_world \<Rightarrow> uploads \<Rightarrow> uploads" where
  "pumpPreprocess w st =
     (if up_status st = Active \<and> up_preprocessRunning st < uw_preprocessConcurrency w \<and> up_preprocessQueue st \<noteq> [] then
        (let k = hd (up_preprocessQueue st); st = st\<lparr>up_preprocessQueue := tl (up_preprocessQueue st)\<rparr> in
         case lookup_record st k of
           None \<Rightarrow> pumpPreprocess w st
         | Some u \<Rightarrow>
             (if iv_phase (view_of st u) \<noteq> Waiting then pumpPreprocess w st
              else if ir_prepared (rec_of st u) \<noteq> None then
                pumpPreprocess w (park False u (ir_epoch (rec_of st u)) (register w u (ir_epoch (rec_of st u)) st))
              else
                (let st = st\<lparr>up_preprocessRunning := up_preprocessRunning st + 1\<rparr>;
                     st = patch u (\<lambda>v. v\<lparr>iv_phase := Preprocessing\<rparr>) st in
                 pumpPreprocess w (park True u (ir_epoch (rec_of st u)) (prepare w u st)))))
      else st)"
  by pat_completeness auto
termination
  by (relation "measure (\<lambda>(w, st). length (up_preprocessQueue st))")
    (auto simp: park_preprocess_queue prepare_state Let_def intro!: le_less_trans [OF register_preprocess_queue])

declare pumpPreprocess.simps [simp del]

section \<open>Transfers that end\<close>

definition settleTransfer ::
  "upload_world \<Rightarrow> nat \<Rightarrow> role \<Rightarrow> jstr \<Rightarrow> nat \<Rightarrow> bool \<Rightarrow> port_error + (jstr \<times> server_item) \<Rightarrow> uploads \<Rightarrow> progress" where
  "settleTransfer w u rl transferId epoch stalled outcome st =
     (if \<not> alive st u epoch \<or> ir_transfers (rec_of st u) rl \<noteq> Some transferId then (st\<lparr>up_ignored := up_ignored st + 1\<rparr>, None)
      else
        (let st = upd u (\<lambda>r. r\<lparr>ir_transfers := (ir_transfers r)(rl := None)\<rparr>) st;
             st = st\<lparr>up_transferRunning := up_transferRunning st - 1\<rparr>;
             st = pumpTransfers w st in
         case outcome of
           Inl err \<Rightarrow>
             (if is_account_error err then (pause Pause_account st, None)
              else fetch_begin w u (Await_settle_read rl
                (if stalled then up_failure ''stalled'' True else failureFrom err (up_failure ''network'' True))) st)
         | Inr (sha256, item) \<Rightarrow> (st, Some (Await_hash rl sha256 item))))"

definition hash_answered :: "upload_world \<Rightarrow> nat \<Rightarrow> nat \<Rightarrow> jstr \<Rightarrow> server_item \<Rightarrow> jstr option \<Rightarrow> uploads \<Rightarrow> progress" where
  "hash_answered w u epoch sha256 item expected st =
     (if \<not> alive st u epoch then (st\<lparr>up_ignored := up_ignored st + 1\<rparr>, None)
      else if expected \<noteq> None \<and> expected \<noteq> Some sha256 then (abandonRegistration w u (up_failure ''integrity_mismatch'' False) st, None)
      else (applyServerItem w u item True None st, None))"

definition received_by :: "role \<Rightarrow> server_item \<Rightarrow> bool" where
  "received_by rl item \<longleftrightarrow> (case find_server rl (si_components item) of None \<Rightarrow> False | Some s \<Rightarrow> sc_state s \<in> {Sc_received, Sc_verified})"

definition settle_read :: "upload_world \<Rightarrow> nat \<Rightarrow> role \<Rightarrow> failure \<Rightarrow> fetched \<Rightarrow> uploads \<Rightarrow> progress" where
  "settle_read w u rl failure read st =
     (case read of
        F_null \<Rightarrow> (st, None)
      | F_account \<Rightarrow> (pause Pause_account st, None)
      | F_gone \<Rightarrow> (markUnavailable w u st, None)
      | F_item item \<Rightarrow>
          (if received_by rl item then (applyServerItem w u item True None st, None)
           else (applyServerItem w u item True (Some rl) (patchComponent u rl (\<lambda>c. c\<lparr>cv_phase := C_failed, cv_failure := Some failure\<rparr>) st), None))
      | F_error err \<Rightarrow> (derivePhase u (patchComponent u rl (\<lambda>c. c\<lparr>cv_phase := C_failed, cv_failure := Some failure\<rparr>) st), None))"

definition poll_read :: "upload_world \<Rightarrow> nat \<Rightarrow> fetched \<Rightarrow> uploads \<Rightarrow> progress" where
  "poll_read w u read st =
     (case read of
        F_null \<Rightarrow> (st, None)
      | F_account \<Rightarrow> (pause Pause_account st, None)
      | F_gone \<Rightarrow> (markUnavailable w u st, None)
      | F_error err \<Rightarrow> (schedulePoll u st, None)
      | F_item item \<Rightarrow>
          (let st = applyServerItem w u item False None st in
           (if iv_phase (view_of st u) \<in> {Uploaded, Processing} then schedulePoll u st else st, None)))"

end
