(* ===== verification/UploadEditing.thy ===== *)
theory UploadEditing
  imports UploadManager
begin

text \<open>
  What the editor asks of the upload manager: adding, choosing, cancelling, retrying, continuing, changing the holder,
  releasing, polling (\<open>apps/web/features/publishing/upload-manager.ts\<close>).
\<close>

section \<open>Items\<close>

definition new_record :: "confirmed_source \<Rightarrow> item_record" where
  "new_record c =
     (let source = cfm_source c; original = (cfm_qualityMode c = Original) in
      \<lparr>ir_view =
         \<lparr>iv_key = cfm_key c, iv_kind = source_kind source, iv_qualityMode = cfm_qualityMode c,
          iv_notCameraOriginal = cfm_notCameraOriginal c, iv_phase = Waiting, iv_itemId = None,
          iv_components = map (\<lambda>rl. componentView rl Preparing) (rolesOf source original), iv_failure = None, iv_choice = None,
          iv_recoverable = False, iv_serverItem = None\<rparr>,
       ir_source = Some source, ir_epoch = 0, ir_prepared = None, ir_pairing = None, ir_metadata = None,
       ir_clientSource = Some (cfm_clientSource c), ir_registerRequestId = None, ir_componentIds = \<lambda>_. None, ir_transfers = \<lambda>_. None,
       ir_hashes = \<lambda>_. False, ir_pollTimer = None, ir_pollAttempt = 0, ir_draftId = None\<rparr>)"

definition add_one :: "confirmed_source \<Rightarrow> uploads \<Rightarrow> uploads" where
  "add_one c st =
     (if lookup_record st (cfm_key c) \<noteq> None then st
      else st\<lparr>up_heap := up_heap st @ [new_record c], up_records := up_records st @ [(cfm_key c, length (up_heap st))],
             up_preprocessQueue := up_preprocessQueue st @ [cfm_key c]\<rparr>)"

definition addConfirmed :: "upload_world \<Rightarrow> confirmed_source list \<Rightarrow> uploads \<Rightarrow> uploads" where
  "addConfirmed w confirmed st = (if up_status st = Disposed then st else pumpPreprocess w (fold add_one confirmed st))"

definition chooseOriginal :: "upload_world \<Rightarrow> key \<Rightarrow> uploads \<Rightarrow> uploads" where
  "chooseOriginal w k st =
     (case lookup_record st k of
        None \<Rightarrow> st
      | Some u \<Rightarrow>
          (case ir_source (rec_of st u) of
             None \<Rightarrow> st
           | Some source \<Rightarrow>
               (if iv_phase (view_of st u) \<noteq> Needs_choice then st
                else
                  (let st = renew u st;
                       st = patch u (\<lambda>v. v\<lparr>iv_qualityMode := Original, iv_phase := Waiting, iv_choice := None, iv_failure := None,
                              iv_components := map (\<lambda>rl. componentView rl Preparing) (rolesOf source True)\<rparr>) st;
                       st = upd u (\<lambda>r. r\<lparr>ir_prepared := None\<rparr>) st in
                   pumpPreprocess w (st\<lparr>up_preprocessQueue := up_preprocessQueue st @ [k]\<rparr>)))))"

definition cancel_component :: "component_view \<Rightarrow> component_view" where
  "cancel_component c = (if cv_phase c = C_received then c else c\<lparr>cv_phase := C_cancelled\<rparr>)"

text \<open>The part of \<open>cancelItem\<close> before its \<open>await\<close>, and the part after it.\<close>

definition cancel_end :: "upload_world \<Rightarrow> nat \<Rightarrow> uploads \<Rightarrow> uploads" where
  "cancel_end w u st = forgetLocalCopy w u (patch u (\<lambda>v. v\<lparr>iv_phase := Cancelled\<rparr>) st)"

definition cancelItem :: "upload_world \<Rightarrow> key \<Rightarrow> uploads \<Rightarrow> uploads" where
  "cancelItem w k st =
     (case lookup_record st k of
        None \<Rightarrow> st
      | Some u \<Rightarrow>
          (if iv_phase (view_of st u) \<in> {Cancelled, Cleanup} then st
           else
             (let st = stopPolling u (abortTransfers w u (renew u st));
                  st = drop_queued k (st\<lparr>up_preprocessQueue := filter (\<lambda>q. q \<noteq> k) (up_preprocessQueue st)\<rparr>);
                  itemId = iv_itemId (view_of st u);
                  st = patch u (\<lambda>v. v\<lparr>iv_phase := (if itemId = None then Cancelled else Cleanup),
                         iv_components := map cancel_component (iv_components v)\<rparr>) st in
              case itemId of
                None \<Rightarrow> cancel_end w u st
              | Some i \<Rightarrow> push_task False u (ir_epoch (rec_of st u)) Await_cancel (cancelOnAccount w i st))))"

definition forget :: "key \<Rightarrow> uploads \<Rightarrow> uploads" where
  "forget k st =
     (case lookup_record st k of
        None \<Rightarrow> st
      | Some u \<Rightarrow>
          if iv_phase (view_of st u) \<noteq> Cancelled then st else st\<lparr>up_records := filter (\<lambda>e. fst e \<noteq> k) (up_records st)\<rparr>)"

section \<open>Retries\<close>

definition has_prepared :: "uploads \<Rightarrow> nat \<Rightarrow> role \<Rightarrow> bool" where
  "has_prepared st u rl \<longleftrightarrow> (case ir_prepared (rec_of st u) of None \<Rightarrow> False | Some cs \<Rightarrow> list_ex (\<lambda>c. pc_role c = rl) cs)"

definition reset_component :: "upload_world \<Rightarrow> jstr \<Rightarrow> role \<Rightarrow> step \<Rightarrow> uploads \<Rightarrow> progress" where
  "reset_component w itemId rl next st =
     (let (requestId, st) = draw_request w st in (note_call w (Call_reset itemId rl requestId) st, Some next))"

definition queue_component :: "nat \<Rightarrow> role \<Rightarrow> uploads \<Rightarrow> uploads" where
  "queue_component u rl = patchComponent u rl (\<lambda>c. c\<lparr>cv_phase := C_queued, cv_failure := None, cv_bytesSent := 0\<rparr>)"

definition resume_if_paused :: "upload_world \<Rightarrow> uploads \<Rightarrow> uploads" where
  "resume_if_paused w st = (if up_status st = Paused_manager then resume w st else st)"

text \<open>\<open>restartComponent\<close> and what follows each of its awaits.\<close>

definition restartComponent :: "upload_world \<Rightarrow> nat \<Rightarrow> role \<Rightarrow> uploads \<Rightarrow> progress" where
  "restartComponent w u rl st =
     (if \<not> has_prepared st u rl then
        (derivePhase u (patchComponent u rl (\<lambda>c. c\<lparr>cv_phase := C_missing_local, cv_failure := Some (up_failure ''missing_local'' False)\<rparr>) st), None)
      else
        (let (own, st) = guardAccount w st in
         if \<not> own then (st, None)
         else
           (let itemId = (case iv_itemId (view_of st u) of Some i \<Rightarrow> i | None \<Rightarrow> []) in
            fetch_begin w u (Await_restart_read itemId rl) (derivePhase u (queue_component u rl (resume_if_paused w st))))))"

definition fail_component :: "nat \<Rightarrow> role \<Rightarrow> failure \<Rightarrow> uploads \<Rightarrow> uploads" where
  "fail_component u rl failure st = derivePhase u (patchComponent u rl (\<lambda>c. c\<lparr>cv_phase := C_failed, cv_failure := Some failure\<rparr>) st)"

definition reset_refused :: "port_error \<Rightarrow> failure" where
  "reset_refused err = failureFrom err (up_failure ''reset_refused'' False)"

definition restart_read :: "upload_world \<Rightarrow> nat \<Rightarrow> jstr \<Rightarrow> role \<Rightarrow> fetched \<Rightarrow> uploads \<Rightarrow> progress" where
  "restart_read w u itemId rl read st =
     (case read of
        F_null \<Rightarrow> (st, None)
      | F_account \<Rightarrow> (pause Pause_account st, None)
      | F_gone \<Rightarrow> (markUnavailable w u st, None)
      | F_error err \<Rightarrow> (fail_component u rl (failureFrom err (up_failure ''network'' True)) st, None)
      | F_item item \<Rightarrow>
          (case find_server rl (si_components item) of
             Some server \<Rightarrow>
               (if si_state item \<noteq> Si_awaiting_upload \<or> sc_state server \<in> {Sc_received, Sc_verified} then
                  (applyServerItem w u item True None
                    (if si_state item = Si_failed then patchComponent u rl (\<lambda>c. c\<lparr>cv_phase := C_failed, cv_failure := None\<rparr>) st else st), None)
                else if sc_state server \<noteq> Sc_awaiting then reset_component w itemId rl (Await_restart_reset rl) st
                else (enqueueTransfer w u rl st, None))
           | None \<Rightarrow>
               (applyServerItem w u item True None
                 (if si_state item = Si_failed then patchComponent u rl (\<lambda>c. c\<lparr>cv_phase := C_failed, cv_failure := None\<rparr>) st else st), None)))"

text \<open>The end of \<open>restartComponent\<close> with the item after a reset or a second read.\<close>

definition restart_finish :: "upload_world \<Rightarrow> nat \<Rightarrow> nat \<Rightarrow> role \<Rightarrow> server_item \<Rightarrow> uploads \<Rightarrow> progress" where
  "restart_finish w u epoch rl item st =
     (if \<not> alive st u epoch then (st, None)
      else
        (let st = applyServerItem w u item False None st in
         case find_server rl (si_components item) of
           None \<Rightarrow> (st, None)
         | Some server \<Rightarrow> if sc_state server \<noteq> Sc_awaiting then (st, None) else (enqueueTransfer w u rl st, None)))"

definition restart_reset :: "upload_world \<Rightarrow> nat \<Rightarrow> nat \<Rightarrow> role \<Rightarrow> port_error + server_item \<Rightarrow> uploads \<Rightarrow> progress" where
  "restart_reset w u epoch rl ans st =
     (case ans of
        Inr item \<Rightarrow> restart_finish w u epoch rl item st
      | Inl err \<Rightarrow>
          (if \<not> alive st u epoch then (st, None)
           else if is_account_error err then (pause Pause_account st, None)
           else fetch_begin w u (Await_restart_again rl err) st))"

definition restart_again :: "upload_world \<Rightarrow> nat \<Rightarrow> nat \<Rightarrow> role \<Rightarrow> port_error \<Rightarrow> fetched \<Rightarrow> uploads \<Rightarrow> progress" where
  "restart_again w u epoch rl err again st =
     (case again of
        F_null \<Rightarrow> (st, None)
      | F_item item \<Rightarrow>
          (let refreshed = map_option sc_state (find_server rl (si_components item)) in
           if refreshed = Some Sc_awaiting then restart_finish w u epoch rl item st
           else if refreshed \<in> {Some Sc_received, Some Sc_verified} then (applyServerItem w u item True None st, None)
           else (applyServerItem w u item True (Some rl)
                   (patchComponent u rl (\<lambda>c. c\<lparr>cv_phase := C_failed, cv_failure := Some (reset_refused err)\<rparr>) st), None))
      | _ \<Rightarrow> (fail_component u rl (reset_refused err) st, None))"

definition retryComponent :: "upload_world \<Rightarrow> key \<Rightarrow> role \<Rightarrow> uploads \<Rightarrow> uploads" where
  "retryComponent w k rl st =
     (case lookup_record st k of
        None \<Rightarrow> st
      | Some u \<Rightarrow>
          (let v = view_of st u in
           if up_status st = Disposed \<or>
              (case find_component rl (iv_components v) of None \<Rightarrow> True | Some c \<Rightarrow> cv_phase c \<noteq> C_failed \<and> cv_phase c \<noteq> C_paused) \<or>
              iv_itemId v = None \<or> (case iv_serverItem v of None \<Rightarrow> False | Some s \<Rightarrow> si_state s = Si_failed)
           then st
           else park False u (ir_epoch (rec_of st u)) (restartComponent w u rl st)))"

text \<open>\<open>retryProcessing\<close>: the components with local bytes are reset one after another, then sent again.\<close>

definition retryProcessing :: "upload_world \<Rightarrow> key \<Rightarrow> uploads \<Rightarrow> uploads" where
  "retryProcessing w k st =
     (case lookup_record st k of
        None \<Rightarrow> st
      | Some u \<Rightarrow>
          (let roles = filter (has_prepared st u) (map cv_role (iv_components (view_of st u))) in
           if up_status st = Disposed \<or> \<not> canRetryProcessing (view_of st u) then st
           else if roles = [] then fail u (up_failure ''missing_local'' False) st
           else
             (let (own, st) = guardAccount w st in
              if \<not> own then st
              else
                (let st = resume_if_paused w st;
                     epoch = ir_epoch (rec_of st u);
                     itemId = (case iv_itemId (view_of st u) of Some i \<Rightarrow> i | None \<Rightarrow> []);
                     st = fold (queue_component u) roles (stopPolling u st);
                     st = patch u (\<lambda>v. v\<lparr>iv_phase := Queued, iv_failure := None\<rparr>) st in
                 park False u epoch (reset_component w itemId (hd roles) (Await_reset_processing itemId (hd roles) (tl roles) roles) st)))))"

definition processing_refused :: "upload_world \<Rightarrow> nat \<Rightarrow> role list \<Rightarrow> bool \<Rightarrow> port_error \<Rightarrow> server_item option \<Rightarrow> uploads \<Rightarrow> progress" where
  "processing_refused w u roles nothing_reset err read st =
     (let st = fold (\<lambda>rl. patchComponent u rl (\<lambda>c. c\<lparr>cv_phase := C_failed, cv_failure := None\<rparr>)) roles st;
          st = (case read of Some item \<Rightarrow> applyServerItem w u item False None st | None \<Rightarrow> st);
          code = Option.bind (iv_serverItem (view_of st u)) si_failureCode;
          st = (case code of
                  Some c \<Rightarrow> if is_account_error err \<and> nothing_reset then fail u (up_failure (failure_code_text c) False) st
                            else fail u (reset_refused err) st
                | None \<Rightarrow> fail u (reset_refused err) st) in
      (if is_account_error err then pause Pause_account st else st, None))"

definition reset_processing ::
  "upload_world \<Rightarrow> nat \<Rightarrow> nat \<Rightarrow> jstr \<Rightarrow> role \<Rightarrow> role list \<Rightarrow> role list \<Rightarrow> port_error + server_item \<Rightarrow> uploads \<Rightarrow> progress" where
  "reset_processing w u epoch itemId rl todo roles ans st =
     (if \<not> alive st u epoch then (st, None)
      else case ans of
        Inl err \<Rightarrow>
          (if is_account_error err then processing_refused w u roles (rl = hd roles) err None st
           else if iv_itemId (view_of st u) = None then processing_refused w u roles False err None st
           else fetch_begin w u (Await_processing_read roles err) st)
      | Inr item \<Rightarrow>
          (case todo of
             next # rest \<Rightarrow> reset_component w itemId next (Await_reset_processing itemId next rest roles) st
           | [] \<Rightarrow>
               (fold (\<lambda>server st. if sc_state server = Sc_awaiting \<and> sc_role server \<in> set roles then enqueueTransfer w u (sc_role server) st else st)
                 (si_components item) (applyServerItem w u item False None st), None)))"

definition processing_read :: "upload_world \<Rightarrow> nat \<Rightarrow> nat \<Rightarrow> role list \<Rightarrow> port_error \<Rightarrow> fetched \<Rightarrow> uploads \<Rightarrow> progress" where
  "processing_read w u epoch roles err read st =
     (if \<not> alive st u epoch then (st, None)
      else processing_refused w u roles False err (case read of F_item item \<Rightarrow> Some item | _ \<Rightarrow> None) st)"

definition retryRegistration :: "upload_world \<Rightarrow> key \<Rightarrow> uploads \<Rightarrow> uploads" where
  "retryRegistration w k st =
     (case lookup_record st k of
        None \<Rightarrow> st
      | Some u \<Rightarrow>
          (if iv_phase (view_of st u) \<noteq> Failed_item \<or> iv_itemId (view_of st u) \<noteq> None then st
           else if ir_prepared (rec_of st u) = None then
             pumpPreprocess w (patch u (\<lambda>v. v\<lparr>iv_phase := Waiting, iv_failure := None\<rparr>)
               (st\<lparr>up_preprocessQueue := up_preprocessQueue st @ [k]\<rparr>))
           else
             (let st = (case iv_failure (view_of st u) of
                          Some failure \<Rightarrow> if fl_outcomeUnknown failure then st else upd u (\<lambda>r. r\<lparr>ir_registerRequestId := None\<rparr>) st
                        | None \<Rightarrow> st) in
              park False u (ir_epoch (rec_of st u)) (register w u (ir_epoch (rec_of st u)) st))))"

definition stopped_component :: "component_view \<Rightarrow> bool" where
  "stopped_component c \<longleftrightarrow>
     cv_phase c = C_paused \<or>
     cv_phase c = C_failed \<and>
       (case cv_failure c of None \<Rightarrow> False | Some f \<Rightarrow> fl_code f = js ''network'' \<or> fl_code f = js ''stalled'' \<or> fl_outcomeUnknown f)"

definition continue_record :: "upload_world \<Rightarrow> key \<Rightarrow> uploads \<Rightarrow> uploads" where
  "continue_record w k st =
     (case lookup_record st k of
        None \<Rightarrow> st
      | Some u \<Rightarrow>
          (let st = (if iv_phase (view_of st u) = Waiting \<and> k \<notin> set (up_preprocessQueue st)
                     then st\<lparr>up_preprocessQueue := up_preprocessQueue st @ [k]\<rparr> else st);
               st = (if iv_phase (view_of st u) = Failed_item \<and> iv_itemId (view_of st u) = None \<and>
                        (case iv_failure (view_of st u) of None \<Rightarrow> False | Some f \<Rightarrow> fl_outcomeUnknown f)
                     then retryRegistration w k st else st) in
           fold (\<lambda>c st. if stopped_component c then retryComponent w k (cv_role c) st else st) (iv_components (view_of st u)) st))"

definition continueUploads :: "upload_world \<Rightarrow> uploads \<Rightarrow> uploads" where
  "continueUploads w st =
     (if up_status st = Disposed then st
      else
        (let (own, st) = guardAccount w st in
         if \<not> own then st
         else pumpPreprocess w (fold (continue_record w) (map fst (up_records st)) (resume w st))))"

section \<open>Changing the holder\<close>

definition suspend_registering :: "nat \<Rightarrow> uploads \<Rightarrow> uploads" where
  "suspend_registering u st =
     (if iv_phase (view_of st u) = Registering then patch u (\<lambda>v. v\<lparr>iv_phase := Waiting\<rparr>) (renew u st) else st)"

definition suspendForHolderChange :: "uploads \<Rightarrow> uploads" where
  "suspendForHolderChange st =
     (if up_status st = Disposed then st
      else
        (let st = (pause Pause_offline st)\<lparr>up_holderChanging := True\<rparr> in
         fold suspend_registering (map snd (up_records st)) st))"

definition cancelHolderChange :: "uploads \<Rightarrow> uploads" where
  "cancelHolderChange st = st\<lparr>up_holderChanging := False\<rparr>"

text \<open>\<open>detachFromHolder\<close> up to its reads; an item without an identity is not read.\<close>

definition detach_stop :: "upload_world \<Rightarrow> nat \<Rightarrow> uploads \<Rightarrow> uploads" where
  "detach_stop w u st = stopPolling u (abortTransfers w u (renew u st))"

definition detach_call :: "upload_world \<Rightarrow> nat \<Rightarrow> uploads \<Rightarrow> uploads" where
  "detach_call w u st = (case iv_itemId (view_of st u) of None \<Rightarrow> st | Some i \<Rightarrow> note_call w (Call_item i) st)"

definition detachFromHolder :: "upload_world \<Rightarrow> uploads \<Rightarrow> uploads" where
  "detachFromHolder w st =
     (if up_status st = Disposed then st
      else
        (let us = filter (\<lambda>u. iv_phase (view_of st u) \<notin> {Cancelled, Cleanup}) (map snd (up_records st));
             st = fold (detach_stop w) us st;
             st = st\<lparr>up_transferQueue := [], up_preprocessQueue := []\<rparr>;
             st = fold (detach_call w) us st in
         st\<lparr>up_detaching := up_detaching st @
           [\<lparr>dt_records = map (\<lambda>u. (u, ir_epoch (rec_of st u))) us,
             dt_awaited = filter (\<lambda>u. iv_itemId (view_of st u) \<noteq> None) us, dt_reads = []\<rparr>]\<rparr>))"

definition detach_component :: "bool \<Rightarrow> component_view \<Rightarrow> component_view" where
  "detach_component hasBytes c = c\<lparr>cv_bytesSent := 0, cv_failure := None, cv_phase := (if hasBytes then Preparing else C_missing_local)\<rparr>"

definition detach_renews :: "nat \<Rightarrow> uploads \<Rightarrow> uploads" where
  "detach_renews u st =
     (let st = upd u (\<lambda>r. r\<lparr>ir_componentIds := \<lambda>_. None, ir_registerRequestId := None, ir_hashes := \<lambda>_. False, ir_draftId := None\<rparr>) st;
          hasBytes = (ir_prepared (rec_of st u) \<noteq> None \<or> ir_source (rec_of st u) \<noteq> None);
          st = patch u (\<lambda>v. v\<lparr>iv_itemId := None, iv_serverItem := None, iv_recoverable := False,
                 iv_failure := (if hasBytes then None else Some (up_failure ''missing_local'' False)),
                 iv_phase := (if hasBytes then Waiting else Missing_local),
                 iv_components := map (detach_component hasBytes) (iv_components v)\<rparr>) st in
      if hasBytes then st\<lparr>up_preprocessQueue := up_preprocessQueue st @ [iv_key (view_of st u)]\<rparr> else st)"

definition detach_record :: "upload_world \<Rightarrow> (nat \<times> fetched) list \<Rightarrow> nat \<times> nat \<Rightarrow> uploads \<Rightarrow> uploads" where
  "detach_record w reads = (\<lambda>(u, epoch) st.
     if \<not> alive st u epoch then st
     else
       (let kept = (iv_itemId (view_of st u) = None \<and>
              (iv_phase (view_of st u) = Needs_choice \<or> iv_phase (view_of st u) = Failed_item \<and> ir_prepared (rec_of st u) = None));
            renewed = (if kept then st else detach_renews u st) in
        case map_of reads u of
          Some (F_item item) \<Rightarrow>
            (if si_state item \<notin> {Si_cancelled, Si_purged} then
               applyServerItem w u item False None
                 (patch u (\<lambda>v. v\<lparr>iv_recoverable := False\<rparr>) (upd u (\<lambda>r. r\<lparr>ir_draftId := None\<rparr>) st))
             else renewed)
        | Some F_gone \<Rightarrow> renewed
        | None \<Rightarrow> renewed
        | Some _ \<Rightarrow> st))"

definition detach_finish :: "upload_world \<Rightarrow> detaching \<Rightarrow> uploads \<Rightarrow> uploads" where
  "detach_finish w d st =
     (let st = fold (detach_record w (dt_reads d)) (dt_records d) st;
          st = st\<lparr>up_holderChanging := False\<rparr>;
          st = (if up_status st = Paused_manager \<and> up_pauseReason st = Some Pause_offline then resume w st else st) in
      pumpPreprocess w st)"

section \<open>The whole manager\<close>

definition release_record :: "upload_world \<Rightarrow> nat \<Rightarrow> uploads \<Rightarrow> uploads" where
  "release_record w u st = stopPolling u (abortTransfers w u (renew u st))"

definition release :: "upload_world \<Rightarrow> uploads \<Rightarrow> uploads" where
  "release w st =
     (fold (release_record w) (map snd (up_records st)) st)\<lparr>up_records := [], up_preprocessQueue := [], up_transferQueue := []\<rparr>"

definition interrupted :: "item_view \<Rightarrow> bool" where
  "interrupted v \<longleftrightarrow>
     iv_phase v = Waiting \<or> iv_phase v = Registering \<or>
     list_ex (\<lambda>c. cv_phase c \<in> {C_paused, C_queued, C_uploading}) (iv_components v)"

definition resumeIfIdle :: "upload_world \<Rightarrow> uploads \<Rightarrow> bool \<times> uploads" where
  "resumeIfIdle w st =
     (if up_status st \<noteq> Paused_manager then (up_status st = Active, st)
      else if list_ex (\<lambda>u. interrupted (view_of st u)) (map snd (up_records st)) then (False, st)
      else (True, resume w st))"

definition dispose :: "uploads \<Rightarrow> uploads" where
  "dispose st =
     (if up_status st = Disposed then st
      else
        (let st = (pause Pause_account st)\<lparr>up_status := Disposed\<rparr>;
             st = fold renew (map snd (up_records st)) st in
         st\<lparr>up_port := []\<rparr>))"

definition setPolling :: "bool \<Rightarrow> uploads \<Rightarrow> uploads" where
  "setPolling enabled st =
     fold (\<lambda>u st. if \<not> enabled then stopPolling u st else if polls_after_resume st u then schedulePoll u st else st)
       (map snd (up_records st)) (st\<lparr>up_pollingEnabled := enabled\<rparr>)"

end
