(* ===== verification/UploadRestore.thy ===== *)
theory UploadRestore
  imports UploadEditing
begin

text \<open>
  Leaving and reopening a draft in the upload manager (\<open>apps/web/features/publishing/upload-manager.ts\<close>): the entries of the draft's
  content and of a checkpoint, and the two restores, cut at their awaits. A stored content type that is none of the source's
  literals is kept as its text; a stored outcome that is none of them counts as absent.
\<close>

section \<open>Leaving\<close>

definition live_records :: "uploads \<Rightarrow> nat list" where
  "live_records st = filter (\<lambda>u. iv_phase (view_of st u) \<notin> {Cancelled, Cleanup}) (map snd (up_records st))"

definition checkpoint_of :: "item_record \<Rightarrow> checkpoint_entry" where
  "checkpoint_of r =
     \<lparr>cp_view = ir_view r, cp_source = (if ir_prepared r = None then ir_source r else None), cp_prepared = ir_prepared r,
      cp_pairing = ir_pairing r, cp_metadata = ir_metadata r, cp_clientSource = ir_clientSource r, cp_registerRequestId = ir_registerRequestId r\<rparr>"

definition checkpoint :: "uploads \<Rightarrow> checkpoint_entry list" where
  "checkpoint st = map (\<lambda>u. checkpoint_of (rec_of st u)) (live_records st)"

text \<open>The pending label of an item without an identity is its kind.\<close>

definition draftItems :: "uploads \<Rightarrow> draft_item list" where
  "draftItems st = map (\<lambda>u. let v = view_of st u in
     \<lparr>di_key = iv_key v, di_itemId = iv_itemId v, di_kind = iv_kind v, di_qualityMode = iv_qualityMode v, di_clipboard = iv_notCameraOriginal v\<rparr>)
     (live_records st)"

definition localStill :: "uploads \<Rightarrow> key \<Rightarrow> blob option" where
  "localStill st k =
     (case lookup_record st k of
        None \<Rightarrow> None
      | Some u \<Rightarrow>
          (case ir_source (rec_of st u) of
             Some source \<Rightarrow> Some (File_blob (stl_file (source_still source)))
           | None \<Rightarrow> map_option pc_blob (Option.bind (ir_prepared (rec_of st u)) (find (\<lambda>c. pc_role c \<noteq> Role_motion)))))"

section \<open>Reopening a checkpoint\<close>

definition append_record :: "key \<Rightarrow> item_record \<Rightarrow> uploads \<Rightarrow> uploads" where
  "append_record k r st = st\<lparr>up_heap := up_heap st @ [r], up_records := up_records st @ [(k, length (up_heap st))]\<rparr>"

definition checkpoint_record :: "uploads \<Rightarrow> checkpoint_entry \<Rightarrow> item_record" where
  "checkpoint_record st e =
     \<lparr>ir_view = cp_view e, ir_source = cp_source e, ir_epoch = 0, ir_prepared = cp_prepared e, ir_pairing = cp_pairing e,
      ir_metadata = cp_metadata e, ir_clientSource = cp_clientSource e, ir_registerRequestId = cp_registerRequestId e,
      ir_componentIds = (case iv_serverItem (cp_view e) of Some s \<Rightarrow> server_ids s | None \<Rightarrow> (\<lambda>_. None)),
      ir_transfers = \<lambda>_. None, ir_hashes = \<lambda>_. False, ir_pollTimer = None, ir_pollAttempt = 0, ir_draftId = up_draftId st\<rparr>"

definition restore_local :: "nat \<Rightarrow> uploads \<Rightarrow> uploads" where
  "restore_local u st =
     (let has = (ir_prepared (rec_of st u) \<noteq> None \<or> ir_source (rec_of st u) \<noteq> None) in
      if iv_phase (view_of st u) = Needs_choice then st
      else patch u (\<lambda>v. v\<lparr>iv_phase := (if has then Waiting else Missing_local), iv_recoverable := has\<rparr>) st)"

text \<open>The loop of \<open>restoreCheckpoint\<close> up to its next await.\<close>

fun restore_entries :: "upload_world \<Rightarrow> checkpoint_entry list \<Rightarrow> uploads \<Rightarrow> uploads" where
  "restore_entries w [] st = st"
| "restore_entries w (e # es) st =
     (let k = iv_key (cp_view e); u = length (up_heap st) in
      if lookup_record st k \<noteq> None then restore_entries w es st
      else
        (let st = append_record k (checkpoint_record st e) st in
         case iv_itemId (cp_view e) of
           None \<Rightarrow> restore_entries w es (restore_local u st)
         | Some i \<Rightarrow> (note_call w (Call_item i) st)\<lparr>up_restoring := up_restoring st @ [Reads_entry k u 0 es]\<rparr>))"

definition restoreCheckpoint :: "upload_world \<Rightarrow> checkpoint_entry list \<Rightarrow> uploads \<Rightarrow> uploads" where
  "restoreCheckpoint w entries st = restore_entries w entries (pause Pause_offline st)"

definition pause_restored :: "nat \<Rightarrow> component_view \<Rightarrow> uploads \<Rightarrow> uploads" where
  "pause_restored u c st =
     (if cv_phase c \<noteq> C_received \<and> ir_prepared (rec_of st u) \<noteq> None
      then patchComponent u (cv_role c) (\<lambda>x. x\<lparr>cv_phase := C_paused, cv_failure := None\<rparr>) st else st)"

definition gone_for_good :: "fetched \<Rightarrow> bool" where
  "gone_for_good read \<longleftrightarrow> (case read of F_gone \<Rightarrow> True | F_item item \<Rightarrow> si_state item \<in> {Si_cancelled, Si_purged} | _ \<Rightarrow> False)"

definition restored_read :: "upload_world \<Rightarrow> nat \<Rightarrow> fetched \<Rightarrow> uploads \<Rightarrow> uploads" where
  "restored_read w u read st =
     (if gone_for_good read then
        restore_local u (patch u (\<lambda>v. v\<lparr>iv_itemId := None, iv_serverItem := None\<rparr>)
          (upd u (\<lambda>r. r\<lparr>ir_registerRequestId := None, ir_componentIds := \<lambda>_. None\<rparr>) st))
      else case read of
        F_item item \<Rightarrow>
          (let st = applyServerItem w u item False None (upd u (\<lambda>r. r\<lparr>ir_componentIds := server_ids item\<rparr>) st) in
           derivePhase u (fold (pause_restored u) (iv_components (view_of st u)) st))
      | _ \<Rightarrow> fail u (up_failure ''network'' True) st)"

definition restore_answered :: "upload_world \<Rightarrow> key \<Rightarrow> nat \<Rightarrow> nat \<Rightarrow> checkpoint_entry list \<Rightarrow> port_error + server_item \<Rightarrow> uploads \<Rightarrow> uploads" where
  "restore_answered w k u epoch rest ans st =
     (let read = fetch_answered st u epoch ans in
      if lookup_record st k = None then st
      else
        (let (own, st) = guardAccount w st in
         if \<not> own then st else restore_entries w rest (restored_read w u read st)))"

section \<open>Reopening a draft\<close>

definition content_type_of :: "jstr \<Rightarrow> content_type" where
  "content_type_of t =
     (if t = js ''image/jpeg'' then Still_content Still_jpeg else if t = js ''image/png'' then Still_content Still_png
      else if t = js ''image/webp'' then Still_content Still_webp else if t = js ''image/heic'' then Still_content Still_heic
      else if t = js ''image/heif'' then Still_content Still_heif else if t = js ''video/quicktime'' then Motion_content Motion_quicktime
      else if t = js ''video/mp4'' then Motion_content Motion_mp4 else Other_content t)"

definition outcome_of :: "hvalue \<Rightarrow> standard_outcome option" where
  "outcome_of v = (if v = H_string (js ''optimized'') then Some Optimized else if v = H_string (js ''retained'') then Some Retained else None)"

definition recovered_component :: "recovery_component \<Rightarrow> prepared_component" where
  "recovered_component c =
     \<lparr>pc_role = rc_role c, pc_blob = Made_blob (rc_blob c) (rc_byteSize c), pc_contentType = content_type_of (rc_contentType c),
      pc_standardOutcome = outcome_of (rc_standardOutcome c)\<rparr>"

definition draft_record :: "restored_draft \<Rightarrow> draft_item \<Rightarrow> plan_entry \<Rightarrow> item_record" where
  "draft_record d content e =
     (let roles = (case pl_serverItem e of
            Some s \<Rightarrow> map sc_role (si_components s)
          | None \<Rightarrow> if di_kind content = Kind_live then [Role_still, Role_motion] else [Role_still]) in
      \<lparr>ir_view =
         \<lparr>iv_key = pl_itemKey e, iv_kind = di_kind content, iv_qualityMode = di_qualityMode content, iv_notCameraOriginal = di_clipboard content,
          iv_phase = Missing_local, iv_itemId = di_itemId content, iv_components = map (\<lambda>rl. componentView rl C_missing_local) roles,
          iv_failure = None, iv_choice = None, iv_recoverable = (pl_disposition e = Recoverable), iv_serverItem = pl_serverItem e\<rparr>,
       ir_source = None, ir_epoch = 0, ir_prepared = map_option (\<lambda>r. map recovered_component (rr_components r)) (pl_record e),
       ir_pairing = None, ir_metadata = None, ir_clientSource = (if di_clipboard content then Some Source_clipboard else None),
       ir_registerRequestId = None,
       ir_componentIds = (case pl_serverItem e of Some s \<Rightarrow> server_ids s | None \<Rightarrow> (\<lambda>_. None)),
       ir_transfers = \<lambda>_. None, ir_hashes = \<lambda>_. False, ir_pollTimer = None, ir_pollAttempt = 0, ir_draftId = Some (rd_id d)\<rparr>)"

definition restored_component :: "nat \<Rightarrow> server_item \<Rightarrow> restore_disposition \<Rightarrow> component_view \<Rightarrow> uploads \<Rightarrow> uploads" where
  "restored_component u server disposition c st =
     (if cv_phase c = C_received then st
      else if disposition = Recoverable then
        patchComponent u (cv_role c) (\<lambda>x. x\<lparr>cv_phase := C_paused,
          cv_byteSize := (case find_server (cv_role c) (si_components server) of Some s \<Rightarrow> sc_byteSize s | None \<Rightarrow> 0),
          cv_failure := Some (up_failure ''paused'' False)\<rparr>) st
      else patchComponent u (cv_role c) (\<lambda>x. x\<lparr>cv_phase := C_missing_local, cv_failure := Some (up_failure ''missing_local'' False)\<rparr>) st)"

definition restore_entry :: "upload_world \<Rightarrow> restored_draft \<Rightarrow> plan_entry \<Rightarrow> uploads \<Rightarrow> uploads" where
  "restore_entry w d e st =
     (if lookup_record st (pl_itemKey e) \<noteq> None then st
      else case find (\<lambda>i. di_key i = pl_itemKey e) (rd_items d) of
        None \<Rightarrow> st
      | Some content \<Rightarrow>
          (let u = length (up_heap st); st = append_record (pl_itemKey e) (draft_record d content e) st in
           if pl_disposition e = Unavailable then fail u (up_failure ''unavailable'' False) st
           else case pl_serverItem e of
             None \<Rightarrow> st
           | Some server \<Rightarrow>
               (let st = applyServerItem w u server False None st in
                if pl_disposition e \<in> {Recoverable, Must_reselect}
                then derivePhase u (fold (restored_component u server (pl_disposition e)) (iv_components (view_of st u)) st) else st)))"

definition restore_listed :: "upload_world \<Rightarrow> restored_draft \<Rightarrow> bool \<Rightarrow> recovery_record list \<Rightarrow> uploads \<Rightarrow> uploads" where
  "restore_listed w d recovery records st =
     (let plan = planDraftRestore (\<lambda>s. si_id s \<in> set (rd_legacy d)) (map (\<lambda>i. (di_key i, di_itemId i)) (rd_items d)) (rd_servers d) records;
          stale = filter (\<lambda>r. Some r \<notin> set (map pl_record plan)) records;
          st = (if recovery then fold (\<lambda>r. note_call w (Call_remove (rd_id d) (rr_itemKey r))) stale st else st) in
      fold (restore_entry w d) plan st)"

definition restoreDraft :: "upload_world \<Rightarrow> restored_draft \<Rightarrow> uploads \<Rightarrow> uploads" where
  "restoreDraft w d st =
     (let st = st\<lparr>up_draftId := Some (rd_id d)\<rparr> in
      if up_session st = Some True \<and> uw_recovery w
      then (note_call w (Call_list (rd_id d)) st)\<lparr>up_restoring := up_restoring st @ [Lists_draft d]\<rparr>
      else restore_listed w d False [] st)"

end
