(* ===== verification/UploadSteps.thy ===== *)
theory UploadSteps
  imports UploadRestore
begin

text \<open>
  The steps of the upload manager as a whole: an operation, an answer, a timer, a settled transfer. The step relation
  lets every step see another confirmed account and other upload headers; everything else of the options stays.
\<close>

section \<open>Steps\<close>

datatype task_answer =
    A_still still_result
  | A_motion motion_result
  | A_threw bool
  | A_metadata "json option"
  | A_holder "port_error + holder"
  | A_item "port_error + server_item"
  | A_hash "jstr option"
  | A_saved bool
  | A_end

text \<open>The continuation of a task with its answer; \<open>None\<close> for an answer of another kind. A worker whose signal was aborted
  only throws, and a hash that was not begun is nothing.\<close>

fun task_continue :: "upload_world \<Rightarrow> upload_task \<Rightarrow> task_answer \<Rightarrow> uploads \<Rightarrow> progress option" where
  "task_continue w t (A_still result) st =
     (case tk_step t of
        Await_still blob \<Rightarrow>
          if ir_epoch (rec_of st (tk_uid t)) = tk_epoch t then Some (still_answered w (tk_uid t) (tk_epoch t) blob result st) else None
      | _ \<Rightarrow> None)"
| "task_continue w t (A_motion result) st =
     (case tk_step t of
        Await_motion still \<Rightarrow>
          if ir_epoch (rec_of st (tk_uid t)) = tk_epoch t then Some (motion_answered w (tk_uid t) (tk_epoch t) still result st) else None
      | _ \<Rightarrow> None)"
| "task_continue w t (A_threw aborted) st =
     (case tk_step t of
        Await_still blob \<Rightarrow> Some (prepare_threw (tk_uid t) (tk_epoch t) aborted st)
      | Await_motion still \<Rightarrow> Some (prepare_threw (tk_uid t) (tk_epoch t) aborted st)
      | _ \<Rightarrow> None)"
| "task_continue w t (A_metadata metadata) st =
     (case tk_step t of Await_metadata cs \<Rightarrow> Some (metadata_answered w (tk_uid t) (tk_epoch t) cs metadata st) | _ \<Rightarrow> None)"
| "task_continue w t (A_holder ans) st =
     (case tk_step t of Await_holder saved \<Rightarrow> Some (register_held w (tk_uid t) (tk_epoch t) saved ans st) | _ \<Rightarrow> None)"
| "task_continue w t (A_hash expected) st =
     (case tk_step t of
        Await_hash rl sha256 item \<Rightarrow>
          if expected \<noteq> None \<and> \<not> uw_hasher w then None else Some (hash_answered w (tk_uid t) (tk_epoch t) sha256 item expected st)
      | _ \<Rightarrow> None)"
| "task_continue w t (A_saved stored) st =
     (case tk_step t of Await_store draftId \<Rightarrow> Some (store_answered w (tk_uid t) (tk_epoch t) draftId stored st) | _ \<Rightarrow> None)"
| "task_continue w t A_end st = (case tk_step t of Await_cancel \<Rightarrow> Some (cancel_end w (tk_uid t) st, None) | _ \<Rightarrow> None)"
| "task_continue w t (A_item ans) st =
     (let u = tk_uid t; epoch = tk_epoch t; read = fetch_answered st u epoch ans in
      case tk_step t of
        Await_register holder saved \<Rightarrow> Some (register_answered w u epoch holder saved ans st)
      | Await_settle_read rl failure \<Rightarrow> Some (settle_read w u rl failure read st)
      | Await_reset_processing itemId rl todo roles \<Rightarrow> Some (reset_processing w u epoch itemId rl todo roles ans st)
      | Await_processing_read roles err \<Rightarrow> Some (processing_read w u epoch roles err read st)
      | Await_restart_read itemId rl \<Rightarrow> Some (restart_read w u itemId rl read st)
      | Await_restart_reset rl \<Rightarrow> Some (restart_reset w u epoch rl ans st)
      | Await_restart_again rl err \<Rightarrow> Some (restart_again w u epoch rl err read st)
      | Await_poll_read \<Rightarrow> Some (poll_read w u read st)
      | _ \<Rightarrow> None)"

datatype upload_event =
    Add_confirmed "confirmed_source list"
  | Choose_original key
  | Cancel_item key
  | Forget_item key
  | Retry_component key role
  | Retry_processing key
  | Retry_registration key
  | Continue_uploads
  | Suspend_holder
  | Cancel_holder_change
  | Detach_holder
  | Pause_uploads pause_reason
  | Release_all
  | Resume_if_idle
  | Dispose_manager
  | Bind_session "bool option"
  | Set_draft "jstr option"
  | Set_polling bool
  | Poll_fires nat
  | Progressed nat nat
  | Settled nat bool "port_error + (jstr \<times> server_item)"
  | Answered nat task_answer
  | Slot_ends nat
  | Detach_read nat nat "port_error + server_item"
  | Detach_ends nat
  | Restore_draft restored_draft
  | Restore_listed nat "recovery_record list"
  | Restore_checkpoint "checkpoint_entry list"
  | Restore_read nat "port_error + server_item"

definition drop_nth :: "nat \<Rightarrow> 'a list \<Rightarrow> 'a list" where
  "drop_nth i xs = take i xs @ drop (Suc i) xs"

text \<open>\<open>onProgress\<close> and \<open>onSettled\<close> of a transfer the port runs.\<close>

definition transfer_progress :: "port_transfer \<Rightarrow> nat \<Rightarrow> uploads \<Rightarrow> uploads" where
  "transfer_progress t sent st =
     (if \<not> alive st (pt_uid t) (pt_epoch t) \<or> ir_transfers (rec_of st (pt_uid t)) (pt_role t) \<noteq> Some (pt_id t) then st
      else patchComponent (pt_uid t) (pt_role t) (\<lambda>c. c\<lparr>cv_bytesSent := sent\<rparr>) st)"

definition poll_fires :: "upload_world \<Rightarrow> nat \<Rightarrow> nat \<Rightarrow> uploads \<Rightarrow> uploads" where
  "poll_fires w u epoch st =
     (let st = upd u (\<lambda>r. r\<lparr>ir_pollTimer := None\<rparr>) st in
      if \<not> alive st u epoch \<or> up_status st \<noteq> Active then st else park False u epoch (fetch_begin w u Await_poll_read st))"

text \<open>The reads that are still out.\<close>

definition detach_wants :: "detaching \<Rightarrow> nat list" where
  "detach_wants d = filter (\<lambda>u. map_of (dt_reads d) u = None) (dt_awaited d)"

fun up_handle :: "upload_world \<Rightarrow> upload_event \<Rightarrow> uploads \<Rightarrow> uploads option" where
  "up_handle w (Add_confirmed cs) st = Some (addConfirmed w cs st)"
| "up_handle w (Choose_original k) st = Some (chooseOriginal w k st)"
| "up_handle w (Cancel_item k) st = Some (cancelItem w k st)"
| "up_handle w (Forget_item k) st = Some (forget k st)"
| "up_handle w (Retry_component k rl) st = Some (retryComponent w k rl st)"
| "up_handle w (Retry_processing k) st = Some (retryProcessing w k st)"
| "up_handle w (Retry_registration k) st = Some (retryRegistration w k st)"
| "up_handle w Continue_uploads st = Some (continueUploads w st)"
| "up_handle w Suspend_holder st = Some (suspendForHolderChange st)"
| "up_handle w Cancel_holder_change st = Some (cancelHolderChange st)"
| "up_handle w Detach_holder st = Some (detachFromHolder w st)"
| "up_handle w (Pause_uploads reason) st = Some (pause reason st)"
| "up_handle w Release_all st = Some (release w st)"
| "up_handle w Resume_if_idle st = Some (snd (resumeIfIdle w st))"
| "up_handle w Dispose_manager st = Some (dispose st)"
| "up_handle w (Bind_session s) st = Some (st\<lparr>up_session := s\<rparr>)"
| "up_handle w (Set_draft d) st = Some (st\<lparr>up_draftId := d\<rparr>)"
| "up_handle w (Set_polling enabled) st = Some (setPolling enabled st)"
| "up_handle w (Poll_fires u) st =
     (if u < length (up_heap st) then
        (case ir_pollTimer (rec_of st u) of None \<Rightarrow> None | Some (delay, epoch) \<Rightarrow> Some (poll_fires w u epoch st))
      else None)"
| "up_handle w (Progressed i sent) st = (if i < length (up_port st) then Some (transfer_progress (up_port st ! i) sent st) else None)"
| "up_handle w (Settled i stalled outcome) st =
     (if i < length (up_port st) then
        (let t = up_port st ! i in
         Some (park False (pt_uid t) (pt_epoch t)
           (settleTransfer w (pt_uid t) (pt_role t) (pt_id t) (pt_epoch t) stalled outcome (st\<lparr>up_port := drop_nth i (up_port st)\<rparr>))))
      else None)"
| "up_handle w (Answered i ans) st =
     (if i < length (up_tasks st) then
        (let t = up_tasks st ! i in
         map_option (park (tk_slot t) (tk_uid t) (tk_epoch t)) (task_continue w t ans (st\<lparr>up_tasks := drop_nth i (up_tasks st)\<rparr>)))
      else None)"
| "up_handle w (Slot_ends i) st =
     (if i < length (up_tasks st) \<and> tk_slot (up_tasks st ! i) \<and> tk_step (up_tasks st ! i) = Await_end then
        Some (pumpPreprocess w (st\<lparr>up_tasks := drop_nth i (up_tasks st), up_preprocessRunning := up_preprocessRunning st - 1\<rparr>))
      else None)"
| "up_handle w (Detach_read i u ans) st =
     (if i < length (up_detaching st) \<and> u \<in> set (detach_wants (up_detaching st ! i)) then
        (let d = up_detaching st ! i;
             read = fetch_answered st u (the (map_of (dt_records d) u)) ans in
         Some (st\<lparr>up_detaching := (up_detaching st)[i := d\<lparr>dt_reads := dt_reads d @ [(u, read)]\<rparr>]\<rparr>))
      else None)"
| "up_handle w (Detach_ends i) st =
     (if i < length (up_detaching st) \<and> detach_wants (up_detaching st ! i) = [] then
        Some (detach_finish w (up_detaching st ! i) (st\<lparr>up_detaching := drop_nth i (up_detaching st)\<rparr>))
      else None)"
| "up_handle w (Restore_draft d) st = Some (restoreDraft w d st)"
| "up_handle w (Restore_checkpoint entries) st = Some (restoreCheckpoint w entries st)"
| "up_handle w (Restore_listed i records) st =
     (if i < length (up_restoring st) then
        (case up_restoring st ! i of
           Lists_draft d \<Rightarrow> Some (restore_listed w d True records (st\<lparr>up_restoring := drop_nth i (up_restoring st)\<rparr>))
         | Reads_entry k u epoch rest \<Rightarrow> None)
      else None)"
| "up_handle w (Restore_read i ans) st =
     (if i < length (up_restoring st) then
        (case up_restoring st ! i of
           Reads_entry k u epoch rest \<Rightarrow> Some (restore_answered w k u epoch rest ans (st\<lparr>up_restoring := drop_nth i (up_restoring st)\<rparr>))
         | Lists_draft d \<Rightarrow> None)
      else None)"

inductive upload_reachable :: "upload_world \<Rightarrow> uploads \<Rightarrow> bool" for w where
  start: "upload_reachable w new_upload_manager"
| step: "upload_reachable w st \<Longrightarrow> up_handle (w\<lparr>uw_account := account, uw_headers := headers\<rparr>) e st = Some st' \<Longrightarrow> upload_reachable w st'"

end
