(* ===== verification/UploadInvariant.thy ===== *)
theory UploadInvariant
  imports UploadSteps
begin

text \<open>
  The invariant of the upload manager's transfers. Most operations change views, tasks and timers only: they keep the
  skeleton, on which the invariant depends. The others start, end or abort transfers; a start is the only one that adds to
  what runs, and it is guarded.
\<close>

section \<open>The skeleton\<close>

text \<open>The calls that write to the account and are promised to be made for its own account only.\<close>

fun guarded_call :: "upload_call \<Rightarrow> bool" where
  "guarded_call (Call_register c) \<longleftrightarrow> True"
| "guarded_call (Call_cancel i r) \<longleftrightarrow> True"
| "guarded_call (Call_start t c b) \<longleftrightarrow> True"
| "guarded_call _ \<longleftrightarrow> False"

definition guarded :: "uploads \<Rightarrow> (jstr option \<times> upload_call) list" where
  "guarded st = filter (guarded_call \<circ> snd) (up_calls st)"

record skeleton =
  sk_status :: upload_status
  sk_records :: "(key \<times> nat) list"
  sk_transfers :: "(role \<rightharpoonup> jstr) list"
  sk_running :: nat
  sk_port :: "port_transfer list"
  sk_queue :: "(key \<times> role) list"

definition skel :: "uploads \<Rightarrow> skeleton" where
  "skel st =
     \<lparr>sk_status = up_status st, sk_records = up_records st, sk_transfers = map ir_transfers (up_heap st),
      sk_running = up_transferRunning st, sk_port = up_port st, sk_queue = up_transferQueue st\<rparr>"

lemma skel_fields:
  assumes "skel st' = skel st"
  shows "up_status st' = up_status st" "up_records st' = up_records st" "up_transferRunning st' = up_transferRunning st"
    "up_port st' = up_port st" "up_transferQueue st' = up_transferQueue st" "length (up_heap st') = length (up_heap st)"
  using assms by (auto simp: skel_def dest: map_eq_imp_length_eq)

named_theorems skel_keeps \<open>operations that keep the skeleton\<close>

lemma skel_upd:
  assumes "ir_transfers (f (rec_of st u)) = ir_transfers (rec_of st u)"
  shows "skel (upd u f st) = skel st"
proof -
  have "map ir_transfers ((up_heap st)[u := f (rec_of st u)]) = map ir_transfers (up_heap st)"
  proof (cases "u < length (up_heap st)")
    case True
    then show ?thesis using assms by (metis list_update_id map_update nth_map)
  next
    case False
    then show ?thesis by (simp add: list_update_beyond)
  qed
  then show ?thesis by (simp add: skel_def upd_def)
qed

lemma skel_patch [skel_keeps]: "skel (patch u f st) = skel st"
  unfolding patch_def by (rule skel_upd) simp

lemma skel_patchComponent [skel_keeps]: "skel (patchComponent u rl g st) = skel st"
  by (simp add: patchComponent_def skel_patch)

lemma skel_note [skel_keeps]: "skel (note_call w call st) = skel st" "skel (push_task slot u epoch stp st) = skel st"
  by (simp_all add: note_call_def push_task_def skel_def)

lemma skel_record_ops [skel_keeps]:
  "skel (renew u st) = skel st" "skel (stopPolling u st) = skel st" "skel (schedulePoll u st) = skel st" "skel (fail u failure st) = skel st"
  by (simp_all add: renew_def stopPolling_def schedulePoll_def fail_def skel_upd skel_patch)

lemma skel_derivePhase [skel_keeps]: "skel (derivePhase u st) = skel st"
  by (simp add: derivePhase_def Let_def skel_keeps)

lemma skel_pause_component [skel_keeps]: "skel (pause_component u sending c st) = skel st"
  by (simp add: pause_component_def skel_keeps)

lemma skel_fold:
  assumes "\<And>x st. skel (f x st) = skel st"
  shows "skel (fold f xs st) = skel st"
  using assms by (induction xs arbitrary: st) simp_all

lemma skel_more [skel_keeps]: "skel (st\<lparr>up_tasks := ts\<rparr>) = skel st" "skel (st\<lparr>up_ignored := n\<rparr>) = skel st"
  "skel (st\<lparr>up_holderChanging := b\<rparr>) = skel st" "skel (st\<lparr>up_preprocessQueue := q\<rparr>) = skel st"
  "skel (st\<lparr>up_preprocessRunning := n\<rparr>) = skel st" "skel (st\<lparr>up_requests := n\<rparr>) = skel st" "skel (st\<lparr>up_attempts := n\<rparr>) = skel st"
  "skel (st\<lparr>up_detaching := ds\<rparr>) = skel st" "skel (st\<lparr>up_restoring := qs\<rparr>) = skel st" "skel (st\<lparr>up_session := s\<rparr>) = skel st" "skel (st\<lparr>up_draftId := d\<rparr>) = skel st"
  "skel (st\<lparr>up_pollingEnabled := b\<rparr>) = skel st"
  by (simp_all add: skel_def)

lemma skel_draw: "draw_request w st = (i, st') \<Longrightarrow> skel st' = skel st"
  by (auto simp: draw_request_def skel_keeps)

lemma skel_account_ops [skel_keeps]:
  "skel (forgetLocalCopy w u st) = skel st"
  "skel (merge_component u keep server st) = skel st"
  "skel (cancelOnAccount w i st) = skel st"
  "skel (storeLocalCopy w u epoch saved st) = skel st"
  by (simp_all add: forgetLocalCopy_def merge_component_def cancelOnAccount_def draw_request_def storeLocalCopy_def skel_keeps Let_def
      split: option.split)

lemma skel_view_ops [skel_keeps]:
  "skel (needsChoice u reason st) = skel st"
  "skel (fail_component u rl failure st) = skel st"
  "skel (queue_component u rl st) = skel st"
  "skel (suspend_registering u st) = skel st"
  "skel (detach_call w u st) = skel st"
  by (simp_all add: needsChoice_def fail_component_def queue_component_def suspend_registering_def detach_call_def skel_keeps split: option.split)

lemma skel_apply [skel_keeps]: "skel (applyServerItem w u item ctx keep st) = skel st"
proof -
  have fold: "skel (fold (merge_component u keep) cs st) = skel st" for cs st by (rule skel_fold) (rule skel_keeps)
  have drop: "skel (upd u (\<lambda>r. r\<lparr>ir_prepared := None, ir_hashes := h\<rparr>) st) = skel st" for st h by (rule skel_upd) simp
  show ?thesis
    by (simp add: applyServerItem_def Let_def skel_keeps fold drop split: server_item_state.split)
qed

section \<open>The invariant\<close>

text \<open>A transfer is an entry: record, role and transfer identity. \<open>tracked\<close> are the ones the records of the map hold.\<close>

type_synonym entry = "nat \<times> role \<times> jstr"

definition entry_of :: "port_transfer \<Rightarrow> entry" where
  "entry_of t = (pt_uid t, pt_role t, pt_id t)"

definition tracked :: "skeleton \<Rightarrow> entry set" where
  "tracked sk = {(u, rl, i). u \<in> snd ` set (sk_records sk) \<and> u < length (sk_transfers sk) \<and> (sk_transfers sk ! u) rl = Some i}"

text \<open>What takes a transfer slot: what the port runs, and what a record still holds although the port has ended it.\<close>

definition load :: "port_transfer list \<Rightarrow> entry set \<Rightarrow> nat" where
  "load port T = length port + card (T - entry_of ` set port)"

definition sk_inv :: "nat \<Rightarrow> skeleton \<Rightarrow> bool" where
  "sk_inv limit sk \<longleftrightarrow>
     distinct (map fst (sk_records sk)) \<and> (\<forall>e \<in> set (sk_records sk). snd e < length (sk_transfers sk)) \<and>
     load (sk_port sk) (tracked sk) \<le> sk_running sk \<and> sk_running sk \<le> limit \<and> (sk_status sk \<noteq> Active \<longrightarrow> tracked sk = {})"

abbreviation up_inv :: "upload_world \<Rightarrow> uploads \<Rightarrow> bool" where
  "up_inv w st \<equiv> sk_inv (uw_transferConcurrency w) (skel st)"

text \<open>A free slot and a queued component do not meet in an active manager.\<close>

definition no_wait :: "nat \<Rightarrow> skeleton \<Rightarrow> bool" where
  "no_wait limit sk \<longleftrightarrow> (sk_status sk = Active \<longrightarrow> limit \<le> sk_running sk \<or> sk_queue sk = [])"

lemma UNIV_role: "(UNIV :: role set) = set role_list"
proof -
  have "rl \<in> set role_list" for rl by (cases rl) (simp_all add: role_list_def)
  then show ?thesis by auto
qed

lemma finite_tracked [simp]: "finite (tracked sk)"
proof -
  have "tracked sk \<subseteq> (\<lambda>(u, rl). (u, rl, the ((sk_transfers sk ! u) rl))) ` (snd ` set (sk_records sk) \<times> UNIV)"
    by (force simp: tracked_def image_iff)
  then show ?thesis by (rule finite_subset) (simp add: UNIV_role)
qed

section \<open>Transfers that end\<close>

text \<open>Aborting a record frees exactly as many slots as it is counted to hold.\<close>

lemma length_split: "length (filter P xs) + length (filter (\<lambda>x. \<not> P x) xs) = length xs"
  by (induction xs) auto

lemma load_abort:
  assumes "finite T" "T = S \<union> R" "S \<inter> R = {}" "\<And>e. e \<in> R \<Longrightarrow> snd (snd e) \<in> ids"
  shows "load (filter (\<lambda>t. pt_id t \<notin> ids) port) S + card R \<le> load port T"
proof -
  let ?E = "entry_of ` set port" and ?kept = "filter (\<lambda>t. pt_id t \<notin> ids) port" and ?gone = "filter (\<lambda>t. \<not> pt_id t \<notin> ids) port"
  have finite: "finite S" "finite R" using assms(1,2) by auto
  have "S - entry_of ` set ?kept \<subseteq> (S - ?E) \<union> (S \<inter> entry_of ` set ?gone)" by auto
  then have "card (S - entry_of ` set ?kept) \<le> card ((S - ?E) \<union> (S \<inter> entry_of ` set ?gone))"
    using finite by (intro card_mono) auto
  also have "\<dots> \<le> card (S - ?E) + card (S \<inter> entry_of ` set ?gone)" by (rule card_Un_le)
  finally have kept: "card (S - entry_of ` set ?kept) \<le> card (S - ?E) + card (S \<inter> entry_of ` set ?gone)" .
  have "R \<inter> ?E \<subseteq> entry_of ` set ?gone" using assms(4) by (fastforce simp: entry_of_def)
  then have "(S \<inter> entry_of ` set ?gone) \<union> (R \<inter> ?E) \<subseteq> entry_of ` set ?gone" by auto
  then have "card ((S \<inter> entry_of ` set ?gone) \<union> (R \<inter> ?E)) \<le> card (entry_of ` set ?gone)" by (intro card_mono) auto
  also have "\<dots> \<le> length ?gone" by (rule le_trans [OF card_image_le card_length]) simp
  finally have "card (S \<inter> entry_of ` set ?gone) + card (R \<inter> ?E) \<le> length ?gone"
    using finite assms(3) by (subst (asm) card_Un_disjoint) auto
  moreover have "card (T - ?E) = card (S - ?E) + card (R - ?E)"
    unfolding assms(2) Un_Diff using finite assms(3) by (intro card_Un_disjoint) auto
  moreover have "card R = card (R - ?E) + card (R \<inter> ?E)" using finite by (metis card_Diff_subset_Int Diff_Int2 add.commute card_Int_Diff)
  moreover have "length ?kept + length ?gone = length port" by (rule length_split)
  ultimately show ?thesis using kept unfolding load_def by linarith
qed

definition drop_transfers :: "nat \<Rightarrow> skeleton \<Rightarrow> skeleton" where
  "drop_transfers u sk =
     (let ids = List.map_filter (sk_transfers sk ! u) role_list in
      sk\<lparr>sk_transfers := (sk_transfers sk)[u := \<lambda>_. None], sk_running := sk_running sk - length ids,
        sk_port := filter (\<lambda>t. pt_id t \<notin> set ids) (sk_port sk)\<rparr>)"

lemma skel_abort_record:
  assumes "u < length (up_heap st)"
  shows "skel (abort_record u st) = drop_transfers u (skel st)"
  using assms by (simp add: abort_record_def drop_transfers_def running_ids_def skel_def upd_def Let_def map_update)

lemma tracked_drop: "tracked (drop_transfers u sk) = {e \<in> tracked sk. fst e \<noteq> u}"
proof -
  have "((sk_transfers sk)[u := \<lambda>_. None] ! v) = (if v = u then \<lambda>_. None else sk_transfers sk ! v)" if "v < length (sk_transfers sk)" for v
    using that by (cases "u = v") simp_all
  then show ?thesis by (auto simp: tracked_def drop_transfers_def Let_def split: if_splits)
qed

text \<open>What a record in the map holds.\<close>

lemma tracked_of_record:
  assumes "u \<in> snd ` set (sk_records sk)" "u < length (sk_transfers sk)"
  shows "card {e \<in> tracked sk. fst e = u} = length (List.map_filter (sk_transfers sk ! u) role_list)"
    "snd ` snd ` {e \<in> tracked sk. fst e = u} \<subseteq> set (List.map_filter (sk_transfers sk ! u) role_list)"
proof -
  let ?tr = "sk_transfers sk ! u" and ?rs = "filter (\<lambda>rl. (sk_transfers sk ! u) rl \<noteq> None) role_list"
  have all: "rl \<in> set role_list" for rl using UNIV_role by auto
  have eq: "{e \<in> tracked sk. fst e = u} = (\<lambda>rl. (u, rl, the (?tr rl))) ` set ?rs"
    using assms all by (force simp: tracked_def image_iff)
  have "distinct ?rs" by (simp add: role_list_def)
  moreover have "inj_on (\<lambda>rl. (u, rl, the (?tr rl))) (set ?rs)" by (rule inj_onI) simp
  ultimately have "card {e \<in> tracked sk. fst e = u} = length ?rs" unfolding eq by (simp only: card_image distinct_card)
  then show "card {e \<in> tracked sk. fst e = u} = length (List.map_filter ?tr role_list)" by (simp add: map_filter_def)
  show "snd ` snd ` {e \<in> tracked sk. fst e = u} \<subseteq> set (List.map_filter ?tr role_list)"
    unfolding eq by (force simp: map_filter_def image_iff)
qed

lemma drop_transfers_inv:
  assumes "sk_inv limit sk" "u \<in> snd ` set (sk_records sk)"
  shows "sk_inv limit (drop_transfers u sk)"
proof -
  let ?ids = "List.map_filter (sk_transfers sk ! u) role_list"
  have u: "u < length (sk_transfers sk)" using assms by (auto simp: sk_inv_def)
  let ?R = "{e \<in> tracked sk. fst e = u}" and ?S = "{e \<in> tracked sk. fst e \<noteq> u}"
  have "snd (snd e) \<in> set ?ids" if "e \<in> ?R" for e using tracked_of_record(2) [OF assms(2) u] that by blast
  then have "load (filter (\<lambda>t. pt_id t \<notin> set ?ids) (sk_port sk)) ?S + card ?R \<le> load (sk_port sk) (tracked sk)"
    by (intro load_abort) auto
  moreover have "card ?R = length ?ids" by (rule tracked_of_record(1) [OF assms(2) u])
  ultimately show ?thesis using assms(1)
    by (auto simp: sk_inv_def tracked_drop) (auto simp: drop_transfers_def Let_def)
qed

lemma in_records: "lookup_record st k = Some u \<Longrightarrow> u \<in> snd ` set (up_records st)"
  by (force simp: lookup_record_def dest: map_of_SomeD)

lemma alive_in_records: "alive st u epoch \<Longrightarrow> u \<in> snd ` set (up_records st)"
  by (auto simp: alive_def intro: in_records)

lemma record_bound: "up_inv w st \<Longrightarrow> u \<in> snd ` set (up_records st) \<Longrightarrow> u < length (up_heap st)"
  by (auto simp: sk_inv_def skel_def)

lemma abort_record_inv:
  assumes "up_inv w st" "u \<in> snd ` set (up_records st)"
  shows "up_inv w (abort_record u st)" "up_records (abort_record u st) = up_records st" "up_status (abort_record u st) = up_status st"
    "tracked (skel (abort_record u st)) = {e \<in> tracked (skel st). fst e \<noteq> u}"
proof -
  have eq: "skel (abort_record u st) = drop_transfers u (skel st)" using assms by (simp add: skel_abort_record record_bound)
  moreover have "u \<in> snd ` set (sk_records (skel st))" using assms(2) by (simp add: skel_def)
  ultimately show "up_inv w (abort_record u st)" "tracked (skel (abort_record u st)) = {e \<in> tracked (skel st). fst e \<noteq> u}"
    using drop_transfers_inv [OF assms(1)] by (simp_all add: tracked_drop)
  show "up_records (abort_record u st) = up_records st" "up_status (abort_record u st) = up_status st"
    by (simp_all add: abort_record_def Let_def upd_def)
qed

section \<open>Pausing\<close>

lemma skel_pause_record:
  assumes "u < length (up_heap st)"
  shows "skel (pause_record u st) = drop_transfers u (skel st)"
proof -
  define st1 where "st1 = (let st = stopPolling u st in if iv_phase (view_of st u) = Preprocessing then patch u (\<lambda>v. v\<lparr>iv_phase := Waiting\<rparr>) (renew u st) else st)"
  have st1: "skel st1 = skel st" by (simp add: st1_def Let_def skel_keeps)
  then have "u < length (up_heap st1)" using assms skel_fields(6) by metis
  then have "skel (abort_record u st1) = drop_transfers u (skel st)" by (simp add: skel_abort_record st1)
  moreover have "skel (fold (pause_component u sending) cs st) = skel st" for sending cs st by (rule skel_fold) (rule skel_keeps)
  ultimately show ?thesis by (simp add: pause_record_def Let_def skel_keeps st1_def [unfolded Let_def, symmetric])
qed

text \<open>Aborting one record after another.\<close>

lemma drop_transfers_fields [simp]:
  "sk_records (drop_transfers u sk) = sk_records sk" "sk_status (drop_transfers u sk) = sk_status sk"
  "sk_queue (drop_transfers u sk) = sk_queue sk" "length (sk_transfers (drop_transfers u sk)) = length (sk_transfers sk)"
  by (simp_all add: drop_transfers_def Let_def)

lemma skel_fold_pause:
  "(\<forall>u \<in> set us. u < length (up_heap st)) \<Longrightarrow> skel (fold pause_record us st) = fold drop_transfers us (skel st)"
proof (induction us arbitrary: st)
  case (Cons u us)
  have "length (sk_transfers (skel (pause_record u st))) = length (sk_transfers (skel st))" using Cons.prems by (simp add: skel_pause_record)
  then have "length (up_heap (pause_record u st)) = length (up_heap st)" by (simp add: skel_def)
  then show ?case using Cons by (simp add: skel_pause_record)
qed simp

lemma fold_drop_transfers:
  assumes "sk_inv limit sk" "set us \<subseteq> snd ` set (sk_records sk)"
  shows "sk_inv limit (fold drop_transfers us sk) \<and> tracked (fold drop_transfers us sk) = {e \<in> tracked sk. fst e \<notin> set us} \<and>
    sk_records (fold drop_transfers us sk) = sk_records sk \<and> sk_status (fold drop_transfers us sk) = sk_status sk"
  using assms
proof (induction us arbitrary: sk)
  case (Cons u us)
  have "sk_inv limit (drop_transfers u sk)" using Cons.prems by (intro drop_transfers_inv) auto
  with Cons show ?case by (auto simp: tracked_drop)
qed simp

text \<open>A pause ends every transfer of the map.\<close>

lemma tracked_status [simp]: "tracked (sk\<lparr>sk_status := s\<rparr>) = tracked sk" "tracked (sk\<lparr>sk_queue := q\<rparr>) = tracked sk"
  by (simp_all add: tracked_def)

lemma tracked_records: "fst ` tracked sk \<subseteq> snd ` set (sk_records sk)"
  by (force simp: tracked_def)

lemma drop_transfers_status: "drop_transfers u (sk\<lparr>sk_status := s\<rparr>) = (drop_transfers u sk)\<lparr>sk_status := s\<rparr>"
  by (simp add: drop_transfers_def Let_def)

lemma fold_drop_status: "fold drop_transfers us (sk\<lparr>sk_status := s\<rparr>) = (fold drop_transfers us sk)\<lparr>sk_status := s\<rparr>"
  by (induction us arbitrary: sk) (simp_all add: drop_transfers_status)

lemma pause_inv:
  assumes "up_inv w st"
  shows "up_inv w (pause reason st)" "no_wait limit (skel (pause reason st)) \<or> up_status st = Disposed"
    "up_records (pause reason st) = up_records st" "length (up_heap (pause reason st)) = length (up_heap st)"
    "up_status (pause reason st) = (if up_status st = Disposed then Disposed else Paused_manager)"
proof -
  define us where "us = map snd (up_records st)"
  define st1 where "st1 = st\<lparr>up_status := Paused_manager, up_pauseReason := Some reason\<rparr>"
  define sk where "sk = fold drop_transfers us ((skel st)\<lparr>sk_status := Active\<rparr>)"
  have bound: "\<forall>u \<in> set us. u < length (up_heap st)" using assms by (auto simp: us_def sk_inv_def skel_def)
  then have "\<forall>u \<in> set us. u < length (up_heap st1)" by (simp add: st1_def)
  then have "skel (fold pause_record us st1) = fold drop_transfers us (skel st1)" by (rule skel_fold_pause)
  moreover have "skel st1 = (skel st)\<lparr>sk_status := Active\<rparr>\<lparr>sk_status := Paused_manager\<rparr>" by (simp add: st1_def skel_def)
  ultimately have skel1: "skel (fold pause_record us st1) = sk\<lparr>sk_status := Paused_manager\<rparr>"
    by (simp only: sk_def fold_drop_status)
  have "sk_inv (uw_transferConcurrency w) ((skel st)\<lparr>sk_status := Active\<rparr>)" using assms by (simp add: sk_inv_def)
  moreover have us: "set us = snd ` set (sk_records ((skel st)\<lparr>sk_status := Active\<rparr>))" by (simp add: us_def skel_def)
  ultimately have dropped: "sk_inv (uw_transferConcurrency w) sk" "tracked sk = {e \<in> tracked (skel st). fst e \<notin> set us}"
    "sk_records sk = sk_records ((skel st)\<lparr>sk_status := Active\<rparr>)"
    using fold_drop_transfers [of _ "(skel st)\<lparr>sk_status := Active\<rparr>" us] by (simp_all add: sk_def)
  moreover have "fst ` tracked (skel st) \<subseteq> set us" using tracked_records [of "skel st"] us by simp
  ultimately have sk: "sk_inv (uw_transferConcurrency w) sk" "tracked sk = {}" "sk_records sk = up_records st"
    by (auto simp: skel_def)
  have eq: "skel (pause reason st) = (if up_status st = Disposed then skel st else sk\<lparr>sk_status := Paused_manager, sk_queue := []\<rparr>)"
  proof -
    have "map snd (up_records st1) = us" by (simp add: st1_def us_def)
    then have "pause reason st = (if up_status st = Disposed then st else (fold pause_record us st1)\<lparr>up_transferQueue := [], up_preprocessQueue := []\<rparr>)"
      by (simp only: pause_def Let_def st1_def [symmetric])
    moreover have "skel (x\<lparr>up_transferQueue := [], up_preprocessQueue := []\<rparr>) = (skel x)\<lparr>sk_queue := []\<rparr>" for x by (simp add: skel_def)
    ultimately show ?thesis by (simp add: skel1)
  qed
  show "up_inv w (pause reason st)" using assms sk by (auto simp: eq sk_inv_def)
  show "no_wait limit (skel (pause reason st)) \<or> up_status st = Disposed" by (simp add: eq no_wait_def)
  have "sk_records (skel (pause reason st)) = up_records st" using sk(3) by (simp add: eq) (simp add: skel_def)
  then show "up_records (pause reason st) = up_records st" by (simp add: skel_def)
  have "sk_status (skel (pause reason st)) = (if up_status st = Disposed then Disposed else Paused_manager)" by (simp add: eq) (simp add: skel_def)
  then show "up_status (pause reason st) = (if up_status st = Disposed then Disposed else Paused_manager)" by (simp add: skel_def)
  have "length (sk_transfers (fold drop_transfers us x)) = length (sk_transfers x)" for us x
    by (induction us arbitrary: x) simp_all
  then have "length (sk_transfers (skel (pause reason st))) = length (up_heap st)" by (simp add: eq sk_def) (simp add: skel_def)
  then show "length (up_heap (pause reason st)) = length (up_heap st)" by (simp add: skel_def)
qed

section \<open>Transfers that start\<close>

definition add_transfer :: "nat \<Rightarrow> role \<Rightarrow> port_transfer \<Rightarrow> skeleton \<Rightarrow> skeleton" where
  "add_transfer u rl t sk =
     sk\<lparr>sk_transfers := (sk_transfers sk)[u := (sk_transfers sk ! u)(rl \<mapsto> pt_id t)], sk_running := sk_running sk + 1, sk_port := sk_port sk @ [t]\<rparr>"

lemma startTransfer_cases:
  obtains "startTransfer w u rl st = st"
  | "startTransfer w u rl st = pause Pause_account (st\<lparr>up_attempts := up_attempts st + 1\<rparr>)"
  | "skel (startTransfer w u rl st) = skel st"
  | t where "u < length (up_heap st) \<Longrightarrow> skel (startTransfer w u rl st) = add_transfer u rl t (skel st)" "pt_uid t = u" "pt_role t = rl"
proof -
  have add: "skel (upd u (\<lambda>r. r\<lparr>ir_transfers := (ir_transfers r)(rl \<mapsto> i), ir_hashes := h r\<rparr>) st') =
      (skel st')\<lparr>sk_transfers := (sk_transfers (skel st'))[u := (sk_transfers (skel st') ! u)(rl \<mapsto> i)]\<rparr>"
    if "u < length (up_heap st')" for i h st'
    using that by (simp add: skel_def upd_def map_update)
  have run: "skel (st'\<lparr>up_transferRunning := n\<rparr>) = (skel st')\<lparr>sk_running := n\<rparr>" "skel (st'\<lparr>up_port := p\<rparr>) = (skel st')\<lparr>sk_port := p\<rparr>" for st' n p
    by (simp_all add: skel_def)
  show ?thesis
  proof (cases "startTransfer w u rl st = st \<or> startTransfer w u rl st = pause Pause_account (st\<lparr>up_attempts := up_attempts st + 1\<rparr>)
      \<or> skel (startTransfer w u rl st) = skel st")
    case False
    then obtain componentId prepared component where "ir_componentIds (rec_of st u) rl = Some componentId"
      "Option.bind (ir_prepared (rec_of st u)) (find (\<lambda>c. pc_role c = rl)) = Some prepared"
      "find_component rl (iv_components (view_of st u)) = Some component" "cv_phase component = C_queued"
      "uw_headers w (uw_attemptId w (up_attempts st)) = None"
      unfolding startTransfer_def Let_def by (auto simp: skel_keeps split: option.splits if_splits)
    then have start: "startTransfer w u rl st =
      (let st0 = st\<lparr>up_attempts := up_attempts st + 1\<rparr>;
           transferId = componentId @ [46] @ uw_attemptId w (up_attempts st);
           st1 = upd u (\<lambda>r. r\<lparr>ir_transfers := (ir_transfers r)(rl \<mapsto> transferId), ir_hashes := (ir_hashes r)(rl := ir_hashes r rl \<or> uw_hasher w)\<rparr>) st0;
           st2 = st1\<lparr>up_transferRunning := up_transferRunning st1 + 1\<rparr>;
           st3 = note_call w (Call_start transferId componentId (pc_blob prepared))
                  (derivePhase u (patchComponent u rl (\<lambda>c. c\<lparr>cv_phase := C_uploading, cv_bytesSent := 0, cv_failure := None\<rparr>) st2)) in
       st3\<lparr>up_port := up_port st3 @ [\<lparr>pt_id = transferId, pt_uid = u, pt_role = rl, pt_epoch = ir_epoch (rec_of st3 u)\<rparr>]\<rparr>)"
      by (simp add: startTransfer_def Let_def)
    show ?thesis
    proof (rule that(4))
      define st0 where "st0 = st\<lparr>up_attempts := up_attempts st + 1\<rparr>"
      define transferId where "transferId = componentId @ [46] @ uw_attemptId w (up_attempts st)"
      define st1 where "st1 = upd u (\<lambda>r. r\<lparr>ir_transfers := (ir_transfers r)(rl \<mapsto> transferId), ir_hashes := (ir_hashes r)(rl := ir_hashes r rl \<or> uw_hasher w)\<rparr>) st0"
      define st2 where "st2 = st1\<lparr>up_transferRunning := up_transferRunning st1 + 1\<rparr>"
      define st3 where "st3 = note_call w (Call_start transferId componentId (pc_blob prepared))
        (derivePhase u (patchComponent u rl (\<lambda>c. c\<lparr>cv_phase := C_uploading, cv_bytesSent := 0, cv_failure := None\<rparr>) st2))"
      define t where "t = \<lparr>pt_id = transferId, pt_uid = u, pt_role = rl, pt_epoch = ir_epoch (rec_of st3 u)\<rparr>"
      have final: "startTransfer w u rl st = st3\<lparr>up_port := up_port st3 @ [t]\<rparr>"
        unfolding start Let_def t_def st3_def st2_def st1_def st0_def transferId_def by (rule refl)
      show "pt_uid t = u" "pt_role t = rl" by (simp_all add: t_def)
      assume u: "u < length (up_heap st)"
      have sk0: "skel st0 = skel st" by (simp add: st0_def skel_keeps)
      have "up_transferRunning st1 = sk_running (skel st)" by (simp add: st1_def upd_def st0_def skel_def)
      moreover have "skel st1 = (skel st)\<lparr>sk_transfers := (sk_transfers (skel st))[u := (sk_transfers (skel st) ! u)(rl \<mapsto> transferId)]\<rparr>"
        using u unfolding st1_def by (subst add) (simp_all add: sk0 st0_def [symmetric], simp add: st0_def)
      moreover have "skel st3 = skel st2" by (simp add: st3_def skel_keeps)
      ultimately have sk3: "skel st3 = (skel st)\<lparr>sk_transfers := (sk_transfers (skel st))[u := (sk_transfers (skel st) ! u)(rl \<mapsto> transferId)], sk_running := sk_running (skel st) + 1\<rparr>"
        by (simp add: st2_def run)
      then have "up_port st3 = up_port st" by (simp add: skel_def)
      then show "skel (startTransfer w u rl st) = add_transfer u rl t (skel st)"
        unfolding final run sk3 by (simp add: add_transfer_def t_def) (simp add: skel_def)
    qed
  qed (use that in blast)
qed

lemma add_transfer_inv:
  assumes "sk_inv limit sk" "sk_status sk = Active" "sk_running sk < limit" "u \<in> snd ` set (sk_records sk)" "pt_uid t = u" "pt_role t = rl"
  shows "sk_inv limit (add_transfer u rl t sk)"
proof -
  let ?e = "entry_of t" and ?E = "entry_of ` set (sk_port sk)"
  have u: "u < length (sk_transfers sk)" using assms(1,4) by (auto simp: sk_inv_def)
  have "tracked (add_transfer u rl t sk) \<subseteq> insert ?e (tracked sk)"
  proof
    fix e assume "e \<in> tracked (add_transfer u rl t sk)"
    then obtain v rl' i where e: "e = (v, rl', i)" "v \<in> snd ` set (sk_records sk)" "v < length (sk_transfers sk)"
      "((sk_transfers sk)[u := (sk_transfers sk ! u)(rl \<mapsto> pt_id t)] ! v) rl' = Some i"
      by (auto simp: tracked_def add_transfer_def)
    then show "e \<in> insert ?e (tracked sk)" using assms(5,6) u
      by (cases "v = u") (auto simp: tracked_def entry_of_def split: if_splits)
  qed
  then have "tracked (add_transfer u rl t sk) - insert ?e ?E \<subseteq> tracked sk - ?E" by auto
  then have "card (tracked (add_transfer u rl t sk) - insert ?e ?E) \<le> card (tracked sk - ?E)" by (intro card_mono) auto
  then have "load (sk_port sk @ [t]) (tracked (add_transfer u rl t sk)) \<le> load (sk_port sk) (tracked sk) + 1" by (simp add: load_def)
  with assms(1-3) show ?thesis by (auto simp: sk_inv_def) (auto simp: add_transfer_def)
qed

lemma startTransfer_inv:
  assumes "up_inv w st" "up_status st = Active" "up_transferRunning st < uw_transferConcurrency w" "u \<in> snd ` set (up_records st)"
  shows "up_inv w (startTransfer w u rl st)" "up_records (startTransfer w u rl st) = up_records st"
    "length (up_heap (startTransfer w u rl st)) = length (up_heap st)" "up_status (startTransfer w u rl st) \<noteq> Disposed"
proof -
  have "up_inv w (startTransfer w u rl st) \<and> up_records (startTransfer w u rl st) = up_records st \<and>
    length (up_heap (startTransfer w u rl st)) = length (up_heap st) \<and> up_status (startTransfer w u rl st) \<noteq> Disposed"
  proof (cases rule: startTransfer_cases [of w u rl st])
    case 1
    then show ?thesis using assms by simp
  next
    case 2
    have inv: "up_inv w (st\<lparr>up_attempts := up_attempts st + 1\<rparr>)" using assms(1) by (simp add: skel_keeps)
    show ?thesis using 2 pause_inv(1,3-5) [OF inv] assms(2) by simp
  next
    case 3
    then show ?thesis using assms skel_fields [OF 3] by simp
  next
    case (4 t)
    have sk: "skel (startTransfer w u rl st) = add_transfer u rl t (skel st)" by (rule 4(1)) (rule record_bound [OF assms(1,4)])
    have "up_inv w (startTransfer w u rl st)" unfolding sk
      by (rule add_transfer_inv) (use assms 4 in \<open>simp_all add: skel_def\<close>)
    moreover have "sk_records (skel (startTransfer w u rl st)) = up_records st" "sk_status (skel (startTransfer w u rl st)) = Active"
      "length (sk_transfers (skel (startTransfer w u rl st))) = length (up_heap st)"
      unfolding sk using assms(2) by (simp_all add: add_transfer_def) (simp_all add: skel_def)
    ultimately show ?thesis by (simp add: skel_def)
  qed
  then show "up_inv w (startTransfer w u rl st)" "up_records (startTransfer w u rl st) = up_records st"
    "length (up_heap (startTransfer w u rl st)) = length (up_heap st)" "up_status (startTransfer w u rl st) \<noteq> Disposed"
    by simp_all
qed

end
