(* ===== verification/UploadKeeps.thy ===== *)
theory UploadKeeps
  imports UploadInvariant
begin

text \<open>
  Every operation of the upload manager keeps \<open>ok\<close>: the invariant of the transfers, no queued component beside a free slot,
  the account's calls made with its own account only, and one preprocessing slot for each task that holds one. \<open>ok\<close> names the
  records of the map, which most operations keep, and the number of slots held by tasks that are running just now.
\<close>

section \<open>The invariant of the whole\<close>

definition mine :: "upload_world \<Rightarrow> uploads \<Rightarrow> bool" where
  "mine w st \<longleftrightarrow> (\<forall>c \<in> set (guarded st). fst c = Some (uw_accountId w))"

definition slots :: "uploads \<Rightarrow> nat" where
  "slots st = length (filter tk_slot (up_tasks st))"

definition slots_ok :: "upload_world \<Rightarrow> nat \<Rightarrow> uploads \<Rightarrow> bool" where
  "slots_ok w n st \<longleftrightarrow> slots st + n = up_preprocessRunning st \<and> up_preprocessRunning st \<le> uw_preprocessConcurrency w"

definition sound :: "upload_world \<Rightarrow> nat \<Rightarrow> (key \<times> nat) list \<Rightarrow> uploads \<Rightarrow> bool" where
  "sound w n rs st \<longleftrightarrow> up_inv w st \<and> up_records st = rs \<and> mine w st \<and> slots_ok w n st"

definition ok :: "upload_world \<Rightarrow> nat \<Rightarrow> (key \<times> nat) list \<Rightarrow> uploads \<Rightarrow> bool" where
  "ok w n rs st \<longleftrightarrow> sound w n rs st \<and> no_wait (uw_transferConcurrency w) (skel st)"

definition okp :: "upload_world \<Rightarrow> nat \<Rightarrow> (key \<times> nat) list \<Rightarrow> progress \<Rightarrow> bool" where
  "okp w n rs p \<longleftrightarrow> ok w n rs (fst p)"

named_theorems ok_intros \<open>operations that keep the invariant\<close>

lemma ok_sound: "ok w n rs st \<Longrightarrow> sound w n rs st"
  by (simp add: ok_def)

lemma ok_records: "ok w n rs st \<Longrightarrow> up_records st = rs"
  by (simp add: ok_def sound_def)

lemma sound_inv: "sound w n rs st \<Longrightarrow> up_inv w st"
  by (simp add: sound_def)

lemma ok_alive: "ok w n rs st \<Longrightarrow> alive st u epoch \<Longrightarrow> u \<in> snd ` set rs"
  using alive_in_records [of st u epoch] ok_records [of w n rs st] by simp

lemma ok_lookup: "ok w n rs st \<Longrightarrow> lookup_record st k = Some u \<Longrightarrow> u \<in> snd ` set rs"
  using in_records [of st k u] ok_records [of w n rs st] by simp

text \<open>What the invariant reads beside the skeleton.\<close>

definition frame :: "uploads \<Rightarrow> (jstr option \<times> upload_call) list \<times> upload_task list \<times> nat" where
  "frame st = (guarded st, up_tasks st, up_preprocessRunning st)"

lemma frame_calls: "up_calls st' = up_calls st \<Longrightarrow> up_tasks st' = up_tasks st \<Longrightarrow> up_preprocessRunning st' = up_preprocessRunning st \<Longrightarrow> frame st' = frame st"
  by (simp add: frame_def guarded_def)

lemma sound_frame:
  assumes "sound w n rs st" "frame st' = frame st" "up_inv w st'" "up_records st' = up_records st"
  shows "sound w n rs st'"
  using assms by (simp add: sound_def frame_def mine_def slots_ok_def slots_def)

lemma ok_frame:
  assumes "ok w n rs st" "skel st' = skel st" "frame st' = frame st"
  shows "ok w n rs st'"
proof -
  have "up_records st' = up_records st" by (rule skel_fields(2)) (rule assms)
  with assms sound_frame [of w n rs st st'] show ?thesis by (simp add: ok_def sound_def)
qed

section \<open>Branches\<close>

lemma ok_branch [ok_intros]:
  "(b \<Longrightarrow> ok w n rs x) \<Longrightarrow> (\<not> b \<Longrightarrow> ok w n rs y) \<Longrightarrow> ok w n rs (if b then x else y)"
  "(a = None \<Longrightarrow> ok w n rs x) \<Longrightarrow> (\<And>z. a = Some z \<Longrightarrow> ok w n rs (f z)) \<Longrightarrow> ok w n rs (case a of None \<Rightarrow> x | Some z \<Rightarrow> f z)"
  "(b \<Longrightarrow> okp w n rs p) \<Longrightarrow> (\<not> b \<Longrightarrow> okp w n rs q) \<Longrightarrow> okp w n rs (if b then p else q)"
  "(a = None \<Longrightarrow> okp w n rs p) \<Longrightarrow> (\<And>z. a = Some z \<Longrightarrow> okp w n rs (g z)) \<Longrightarrow> okp w n rs (case a of None \<Rightarrow> p | Some z \<Rightarrow> g z)"
  "ok w n rs st \<Longrightarrow> okp w n rs (st, c)"
  by (auto simp: okp_def split: option.split)

lemma ok_fold [ok_intros]:
  assumes "ok w n rs st" "\<And>x st. x \<in> set xs \<Longrightarrow> ok w n rs st \<Longrightarrow> ok w n rs (f x st)"
  shows "ok w n rs (fold f xs st)"
  using assms by (induction xs arbitrary: st) auto

section \<open>Views, tasks and the log\<close>

lemma ok_upd [ok_intros]:
  "ok w n rs st \<Longrightarrow> ir_transfers (f (rec_of st u)) = ir_transfers (rec_of st u) \<Longrightarrow> ok w n rs (upd u f st)"
  by (erule ok_frame) (simp_all add: skel_upd, simp add: upd_def frame_def guarded_def)

lemma ok_fields [ok_intros]:
  assumes "ok w n rs st"
  shows "ok w n rs (st\<lparr>up_ignored := i\<rparr>)" "ok w n rs (st\<lparr>up_holderChanging := b\<rparr>)" "ok w n rs (st\<lparr>up_preprocessQueue := q\<rparr>)"
    "ok w n rs (st\<lparr>up_requests := i\<rparr>)" "ok w n rs (st\<lparr>up_attempts := i\<rparr>)"
    "ok w n rs (st\<lparr>up_detaching := ds\<rparr>)" "ok w n rs (st\<lparr>up_restoring := qs\<rparr>)" "ok w n rs (st\<lparr>up_session := s\<rparr>)" "ok w n rs (st\<lparr>up_draftId := d\<rparr>)" "ok w n rs (st\<lparr>up_pollingEnabled := b\<rparr>)"
  by (rule ok_frame [OF assms], simp add: skel_keeps, simp add: frame_def guarded_def)+

lemma ok_queue [ok_intros]: "ok w n rs st \<Longrightarrow> ok w n rs (drop_queued k st)"
  "ok w n rs st \<Longrightarrow> ok w n rs (st\<lparr>up_transferQueue := [], up_preprocessQueue := []\<rparr>)"
  by (auto simp: ok_def sound_def no_wait_def sk_inv_def skel_def tracked_def drop_queued_def mine_def guarded_def slots_ok_def slots_def)

lemma ok_note [ok_intros]:
  assumes "ok w n rs st" "guarded_call call \<Longrightarrow> own_account w"
  shows "ok w n rs (note_call w call st)"
proof -
  have "mine w (note_call w call st)" using assms by (auto simp: ok_def sound_def mine_def guarded_def note_call_def own_account_def)
  moreover have "up_records (note_call w call st) = up_records st" "slots_ok w n (note_call w call st) = slots_ok w n st"
    by (simp_all add: note_call_def slots_ok_def slots_def)
  ultimately show ?thesis using assms(1) by (simp add: ok_def sound_def skel_keeps)
qed

lemma ok_push [ok_intros]: "ok w n rs st \<Longrightarrow> ok w n rs (push_task False u epoch stp st)"
  by (simp add: ok_def sound_def skel_keeps mine_def slots_ok_def slots_def) (simp add: push_task_def guarded_def)

lemma ok_push_slot: "ok w (Suc n) rs st \<Longrightarrow> ok w n rs (push_task True u epoch stp st)"
  by (simp add: ok_def sound_def skel_keeps mine_def slots_ok_def slots_def) (simp add: push_task_def guarded_def)

lemma ok_park: "okp w (if slot then Suc n else n) rs p \<Longrightarrow> ok w n rs (park slot u epoch p)"
  by (auto simp: okp_def park_def intro: ok_push ok_push_slot split: option.split if_splits)

lemma ok_park_free [ok_intros]: "okp w n rs p \<Longrightarrow> ok w n rs (park False u epoch p)"
  by (rule ok_park) simp

lemma ok_patch [ok_intros]: "ok w n rs st \<Longrightarrow> ok w n rs (patch u f st)"
  unfolding patch_def by (rule ok_upd) simp_all

lemma ok_views [ok_intros]:
  assumes "ok w n rs st"
  shows "ok w n rs (patchComponent u rl g st)" "ok w n rs (renew u st)" "ok w n rs (stopPolling u st)" "ok w n rs (fail u failure st)"
    "ok w n rs (needsChoice u reason st)"
  unfolding patchComponent_def renew_def stopPolling_def fail_def needsChoice_def by (intro ok_intros assms | simp)+

lemma ok_schedulePoll [ok_intros]: "ok w n rs st \<Longrightarrow> ok w n rs (schedulePoll u st)"
  unfolding schedulePoll_def by (intro ok_intros | simp)+

lemma ok_derivePhase [ok_intros]: "ok w n rs st \<Longrightarrow> ok w n rs (derivePhase u st)"
  unfolding derivePhase_def Let_def by (intro ok_intros)

lemma ok_components [ok_intros]:
  assumes "ok w n rs st"
  shows "ok w n rs (fail_component u rl failure st)" "ok w n rs (queue_component u rl st)" "ok w n rs (suspend_registering u st)"
  unfolding fail_component_def queue_component_def suspend_registering_def by (intro ok_intros assms)+

lemma ok_draw [ok_intros]: "ok w n rs st \<Longrightarrow> (\<And>i. ok w n rs (f i (st\<lparr>up_requests := up_requests st + 1\<rparr>))) \<Longrightarrow>
    ok w n rs (case draw_request w st of (i, st) \<Rightarrow> f i st)"
  "(\<And>i. okp w n rs (g i (st\<lparr>up_requests := up_requests st + 1\<rparr>))) \<Longrightarrow> okp w n rs (case draw_request w st of (i, st) \<Rightarrow> g i st)"
  by (simp_all add: draw_request_def)

lemma ok_calls [ok_intros]:
  assumes "ok w n rs st"
  shows "ok w n rs (forgetLocalCopy w u st)" "ok w n rs (cancelOnAccount w i st)" "ok w n rs (storeLocalCopy w u epoch saved st)" "ok w n rs (detach_call w u st)"
  unfolding forgetLocalCopy_def cancelOnAccount_def storeLocalCopy_def detach_call_def Let_def case_prod_beta draw_request_def fst_conv snd_conv
  by (intro ok_intros assms | simp add: assms)+

lemma ok_merge [ok_intros]: "ok w n rs st \<Longrightarrow> ok w n rs (merge_component u keep server st)"
  unfolding merge_component_def by (intro ok_intros)

lemma ok_apply [ok_intros]:
  assumes "ok w n rs st"
  shows "ok w n rs (applyServerItem w u item ctx keep st)"
  unfolding applyServerItem_def Let_def by (cases "si_state item"; simp only: server_item_state.case; (intro ok_intros assms | simp)+)

section \<open>Pausing and starting\<close>

lemma frame_record_ops [simp]:
  "frame (upd u f st) = frame st" "frame (patch u g st) = frame st" "frame (patchComponent u rl h st) = frame st" "frame (renew u st) = frame st"
  "frame (stopPolling u st) = frame st" "frame (schedulePoll u st) = frame st" "frame (derivePhase u st) = frame st" "frame (abort_record u st) = frame st"
  "frame (pause_component u sending c st) = frame st"
  by (simp_all add: frame_def guarded_def upd_def patch_def patchComponent_def renew_def stopPolling_def schedulePoll_def derivePhase_def
      abort_record_def pause_component_def Let_def)

lemma frame_fold: "(\<And>x st. frame (f x st) = frame st) \<Longrightarrow> frame (fold f xs st) = frame st"
  by (induction xs arbitrary: st) simp_all

lemma frame_fields [simp]:
  "frame (st\<lparr>up_status := s\<rparr>) = frame st" "frame (st\<lparr>up_pauseReason := p\<rparr>) = frame st" "frame (st\<lparr>up_transferQueue := q\<rparr>) = frame st"
  "frame (st\<lparr>up_preprocessQueue := pq\<rparr>) = frame st" "frame (st\<lparr>up_attempts := i\<rparr>) = frame st" "frame (st\<lparr>up_transferRunning := i\<rparr>) = frame st"
  "frame (st\<lparr>up_port := ts\<rparr>) = frame st" "frame (st\<lparr>up_records := rs\<rparr>) = frame st"
  by (simp_all add: frame_def guarded_def)

lemma frame_pause: "frame (pause reason st) = frame st"
proof -
  have "frame (pause_record u st) = frame st" for u st by (simp add: pause_record_def Let_def frame_fold)
  then show ?thesis by (simp add: pause_def Let_def frame_fold)
qed

lemma sound_pause:
  assumes "sound w n rs st"
  shows "ok w n rs (pause reason st)"
proof -
  note inv = pause_inv [OF sound_inv [OF assms], where reason = reason]
  have "sound w n rs (pause reason st)" by (rule sound_frame [OF assms frame_pause inv(1,3)])
  moreover have "up_status (pause reason st) \<noteq> Active" using inv(5) by simp
  ultimately show ?thesis by (simp add: ok_def no_wait_def) (simp add: skel_def)
qed

lemma ok_pause [ok_intros]: "ok w n rs st \<Longrightarrow> ok w n rs (pause reason st)"
  by (rule sound_pause) (rule ok_sound)

lemma ok_guard [ok_intros]:
  "(own_account w \<Longrightarrow> ok w n rs (f True st)) \<Longrightarrow> (\<not> own_account w \<Longrightarrow> ok w n rs (f False (pause Pause_account st))) \<Longrightarrow>
    ok w n rs (case guardAccount w st of (own, st) \<Rightarrow> f own st)"
  "(own_account w \<Longrightarrow> okp w n rs (g True st)) \<Longrightarrow> (\<not> own_account w \<Longrightarrow> okp w n rs (g False (pause Pause_account st))) \<Longrightarrow>
    okp w n rs (case guardAccount w st of (own, st) \<Rightarrow> g own st)"
  by (auto simp: guardAccount_def)

lemma ok_waitForAccount [ok_intros]: "ok w n rs st \<Longrightarrow> ok w n rs (waitForAccount u st)"
  unfolding waitForAccount_def by (intro ok_intros)

text \<open>A start makes one more call, with its own account.\<close>

lemma startTransfer_frame:
  "\<exists>calls. frame (startTransfer w u rl st) = (guarded st @ calls, up_tasks st, up_preprocessRunning st) \<and> (\<forall>c \<in> set calls. fst c = uw_account w)"
proof -
  have noted: "frame (note_call w call st) = (guarded st @ (if guarded_call call then [(uw_account w, call)] else []), up_tasks st, up_preprocessRunning st)" for call st
    by (simp add: frame_def note_call_def guarded_def)
  have parts: "guarded st = fst (frame st)" "up_tasks st = fst (snd (frame st))" "up_preprocessRunning st = snd (snd (frame st))" for st
    by (simp_all add: frame_def)
  have keep: "\<exists>calls. frame st = (fst (frame st) @ calls, snd (frame st)) \<and> (\<forall>c \<in> set calls. fst c = uw_account w)" for st
    by (rule exI [of _ "[]"]) simp
  show ?thesis
    unfolding startTransfer_def Let_def
    by (auto simp: noted parts frame_pause keep split: option.split)
qed

lemma startTransfer_sound:
  assumes "sound w n rs st" "up_status st = Active" "up_transferRunning st < uw_transferConcurrency w" "u \<in> snd ` set rs" "own_account w"
  shows "sound w n rs (startTransfer w u rl st)" "up_status (startTransfer w u rl st) \<noteq> Disposed"
proof -
  have rs: "up_records st = rs" and inv: "up_inv w st" using assms(1) by (simp_all add: sound_def)
  note started = startTransfer_inv [OF inv assms(2,3), of u rl, unfolded rs, OF assms(4)]
  obtain calls where calls: "frame (startTransfer w u rl st) = (guarded st @ calls, up_tasks st, up_preprocessRunning st)"
    "\<forall>c \<in> set calls. fst c = uw_account w"
    using startTransfer_frame by blast
  have "mine w (startTransfer w u rl st)" using assms(1,5) calls by (auto simp: sound_def mine_def frame_def own_account_def)
  moreover have "slots_ok w n (startTransfer w u rl st)" using assms(1) calls(1) by (simp add: sound_def slots_ok_def slots_def frame_def)
  ultimately show "sound w n rs (startTransfer w u rl st)" using started(1,2) by (simp add: sound_def)
  show "up_status (startTransfer w u rl st) \<noteq> Disposed" by (rule started(4))
qed

lemma pump_ok: "sound w n rs st \<Longrightarrow> ok w n rs (pumpTransfers w st)"
proof (induction w st rule: pumpTransfers.induct)
  case (1 w st)
  show ?case
  proof (cases "up_status st = Active \<and> up_transferRunning st < uw_transferConcurrency w \<and> up_transferQueue st \<noteq> []")
    case False
    then have "pumpTransfers w st = st" by (subst pumpTransfers.simps) (rule if_not_P)
    moreover have "no_wait (uw_transferConcurrency w) (skel st)" using False by (auto simp: no_wait_def skel_def)
    ultimately show ?thesis using "1.prems" by (simp add: ok_def)
  next
    case busy: True
    show ?thesis
    proof (cases "own_account w")
      case False
      then have "pumpTransfers w st = pause Pause_account st" using busy by (simp add: pumpTransfers.simps [of w st] guardAccount_def)
      then show ?thesis using sound_pause [OF "1.prems"] by simp
    next
      case own: True
      obtain k rl where hd: "hd (up_transferQueue st) = (k, rl)" by force
      define st1 where "st1 = st\<lparr>up_transferQueue := tl (up_transferQueue st)\<rparr>"
      have "up_inv w st1" using sound_inv [OF "1.prems"] by (simp add: st1_def sk_inv_def skel_def tracked_def)
      then have st1: "sound w n rs st1" by (rule sound_frame [OF "1.prems", rotated]) (simp_all add: st1_def)
      have unfold: "pumpTransfers w st = (case lookup_record st1 k of None \<Rightarrow> pumpTransfers w st1 | Some u \<Rightarrow> pumpTransfers w (startTransfer w u rl st1))"
        unfolding st1_def using busy own hd by (simp add: pumpTransfers.simps [of w st] guardAccount_def Let_def)
      have guard: "(True, st) = guardAccount w st" using own by (simp add: guardAccount_def)
      show ?thesis
      proof (cases "lookup_record st1 k")
        case None
        note "1.IH"(1) [OF busy guard refl _ hd [symmetric] refl st1_def None st1]
        then show ?thesis by (simp add: unfold None)
      next
        case (Some u)
        have "u \<in> snd ` set (up_records st1)" using Some by (rule in_records)
        then have "u \<in> snd ` set rs" using st1 by (simp add: sound_def)
        then have "sound w n rs (startTransfer w u rl st1)"
          by (intro startTransfer_sound [OF st1] own) (use busy in \<open>simp_all add: st1_def\<close>)
        note "1.IH"(2) [OF busy guard refl _ hd [symmetric] refl st1_def Some this]
        then show ?thesis by (simp add: unfold Some)
      qed
    qed
  qed
qed

section \<open>The transfer queue\<close>

lemma skel_queue_status: "skel (st\<lparr>up_transferQueue := q\<rparr>) = (skel st)\<lparr>sk_queue := q\<rparr>"
  "skel (st\<lparr>up_status := s, up_pauseReason := p\<rparr>) = (skel st)\<lparr>sk_status := s\<rparr>"
  by (simp_all add: skel_def)

lemma sound_same:
  assumes "sound w n rs st" "skel st' = skel st" "frame st' = frame st"
  shows "sound w n rs st'"
proof (rule sound_frame [OF assms(1,3)])
  show "up_inv w st'" using assms(1,2) by (simp add: sound_def)
  show "up_records st' = up_records st" by (rule skel_fields(2)) (rule assms)
qed

lemma abort_ok [ok_intros]:
  assumes "ok w n rs st" "u \<in> snd ` set rs"
  shows "ok w n rs (abortTransfers w u st)"
proof -
  note s = ok_sound [OF assms(1)]
  have "u \<in> snd ` set (up_records st)" using assms(2) ok_records [OF assms(1)] by simp
  note aborted = abort_record_inv [OF sound_inv [OF s] this]
  have "sound w n rs (abort_record u st)" by (rule sound_frame [OF s _ aborted(1,2)]) simp
  then show ?thesis unfolding abortTransfers_def by (rule pump_ok)
qed

lemma enqueue_ok [ok_intros]:
  assumes "ok w n rs st"
  shows "ok w n rs (enqueueTransfer w u rl st)"
proof -
  have queued: "sound w n rs (st\<lparr>up_transferQueue := q\<rparr>)" if "ok w n rs st" for st q
  proof (rule sound_frame [OF ok_sound [OF that]])
    show "up_inv w (st\<lparr>up_transferQueue := q\<rparr>)" using sound_inv [OF ok_sound [OF that]] by (simp add: skel_queue_status sk_inv_def)
  qed simp_all
  show ?thesis unfolding enqueueTransfer_def Let_def by (intro ok_intros pump_ok queued assms)
qed

lemma resume_ok [ok_intros]:
  assumes "ok w n rs st"
  shows "ok w n rs (resume w st)"
proof (cases "up_status st = Paused_manager")
  case True
  define st1 where "st1 = st\<lparr>up_status := Active, up_pauseReason := None\<rparr>"
  have "up_inv w st1" using sound_inv [OF ok_sound [OF assms]] by (simp add: st1_def skel_queue_status sk_inv_def)
  then have "sound w n rs st1" by (rule sound_frame [OF ok_sound [OF assms], rotated]) (simp_all add: st1_def)
  moreover have "skel (fold (\<lambda>u st. if polls_after_resume st u then schedulePoll u st else st) us st1) = skel st1" for us
    by (rule skel_fold) (simp add: skel_keeps)
  moreover have "frame (fold (\<lambda>u st. if polls_after_resume st u then schedulePoll u st else st) us st1) = frame st1" for us
    by (rule frame_fold) simp
  ultimately have "sound w n rs (fold (\<lambda>u st. if polls_after_resume st u then schedulePoll u st else st) us st1)" for us
    by (rule sound_same)
  then show ?thesis using True by (simp add: resume_def Let_def st1_def pump_ok)
qed (simp add: resume_def assms)

lemma resume_if_paused_ok [ok_intros]: "ok w n rs st \<Longrightarrow> ok w n rs (resume_if_paused w st)"
  unfolding resume_if_paused_def by (intro ok_intros)

lemma resumeIfIdle_ok: "ok w n rs st \<Longrightarrow> ok w n rs (snd (resumeIfIdle w st))"
  by (simp add: resumeIfIdle_def resume_ok)

lemma fetch_ok [ok_intros]: "ok w n rs st \<Longrightarrow> okp w n rs (fetch_begin w u next st)"
  unfolding fetch_begin_def by (intro ok_intros) simp_all

section \<open>Answers\<close>

lemma markUnavailable_ok [ok_intros]: "ok w n rs st \<Longrightarrow> u \<in> snd ` set rs \<Longrightarrow> ok w n rs (markUnavailable w u st)"
  unfolding markUnavailable_def Let_def by (intro ok_intros)

lemma abandon_ok [ok_intros]: "ok w n rs st \<Longrightarrow> u \<in> snd ` set rs \<Longrightarrow> ok w n rs (abandonRegistration w u failure st)"
  unfolding abandonRegistration_def Let_def by (intro ok_intros | simp)+

lemma register_ok [ok_intros]: "ok w n rs st \<Longrightarrow> okp w n rs (register w u epoch st)"
  unfolding register_def Let_def by (intro ok_intros) simp_all

lemma send_ok [ok_intros]: "ok w n rs st \<Longrightarrow> ok w n rs (send_component w u server st)"
  unfolding send_component_def by (intro ok_intros)

lemma register_held_ok [ok_intros]:
  assumes "ok w n rs st"
  shows "okp w n rs (register_held w u epoch saved ans st)"
proof (cases ans)
  case (Inl err)
  show ?thesis unfolding Inl register_held_def sum.case by (intro ok_intros assms)
next
  case (Inr holder)
  have draw: "okp w n rs (case (case ir_registerRequestId (rec_of st u) of Some i \<Rightarrow> (i, st) | None \<Rightarrow> draw_request w st) of (i, st) \<Rightarrow> g i st)"
    if "\<And>i st. ok w n rs st \<Longrightarrow> okp w n rs (g i st)" for g
    using assms that ok_fields(4) [OF assms] by (simp add: draw_request_def split: option.split)
  show ?thesis unfolding Inr register_held_def sum.case Let_def by (intro ok_intros draw assms) simp_all
qed

lemma register_answered_ok [ok_intros]:
  assumes "ok w n rs st"
  shows "okp w n rs (register_answered w u epoch holder saved ans st)"
  unfolding register_answered_def Let_def by (cases ans; simp only: sum.case) (intro ok_intros assms | simp)+

lemma store_answered_ok [ok_intros]: "ok w n rs st \<Longrightarrow> okp w n rs (store_answered w u epoch draftId stored st)"
  unfolding store_answered_def by (intro ok_intros) simp_all

lemma settle_read_ok [ok_intros]:
  assumes "ok w n rs st" "read \<noteq> F_null \<Longrightarrow> u \<in> snd ` set rs"
  shows "okp w n rs (settle_read w u rl failure read st)"
  unfolding settle_read_def using assms(2) by (cases read; simp only: fetched.case) (intro ok_intros assms(1) | simp)+

lemma poll_read_ok [ok_intros]:
  assumes "ok w n rs st" "read \<noteq> F_null \<Longrightarrow> u \<in> snd ` set rs"
  shows "okp w n rs (poll_read w u read st)"
  unfolding poll_read_def Let_def using assms(2) by (cases read; simp only: fetched.case) (intro ok_intros assms(1) | simp)+

lemma hash_answered_ok [ok_intros]: "ok w n rs st \<Longrightarrow> okp w n rs (hash_answered w u epoch sha256 item expected st)"
  unfolding hash_answered_def by (intro ok_intros) (auto dest: ok_alive)

end
