(* ===== verification/UploadRuns.thy ===== *)
theory UploadRuns
  imports UploadKeeps
begin

text \<open>
  The invariant along the runs of the upload manager: preprocessing, settled transfers, retries, holder changes, releases, and
  every step of \<open>upload_reachable\<close>.
\<close>

section \<open>Preprocessing\<close>

lemma prepared_now_ok [ok_intros]: "ok w n rs st \<Longrightarrow> okp w n rs (prepared_now u epoch cs st)"
  unfolding prepared_now_def by (intro ok_intros)

lemma stillComponent_ok: "ok w n rs st \<Longrightarrow> ok w n rs (snd (stillComponent u blob t result st))"
  by (cases result) (simp_all add: stillComponent_def ok_views)

lemma motionComponent_ok: "ok w n rs st \<Longrightarrow> ok w n rs (snd (motionComponent u result st))"
  by (cases result) (simp_all add: motionComponent_def ok_views)

lemma still_answered_ok [ok_intros]:
  assumes "ok w n rs st"
  shows "okp w n rs (still_answered w u epoch blob result st)"
proof (cases "ir_source (rec_of st u)")
  case (Some source)
  obtain c st' where eq: "stillComponent u blob (stl_type (source_still source)) result st = (c, st')" by force
  then have "ok w n rs st'" using stillComponent_ok [OF assms, of u blob "stl_type (source_still source)" result] by simp
  then show ?thesis unfolding still_answered_def Some option.case eq prod.case by (intro ok_intros)
qed (simp add: still_answered_def okp_def assms)

lemma motion_answered_ok [ok_intros]:
  assumes "ok w n rs st"
  shows "okp w n rs (motion_answered w u epoch still result st)"
proof -
  obtain c st' where eq: "motionComponent u result st = (c, st')" by force
  then have "ok w n rs st'" using motionComponent_ok [OF assms, of u result] by simp
  then show ?thesis unfolding motion_answered_def eq prod.case by (intro ok_intros)
qed

lemma prepare_threw_ok [ok_intros]: "ok w n rs st \<Longrightarrow> okp w n rs (prepare_threw u epoch aborted st)"
  unfolding prepare_threw_def by (intro ok_intros)

lemma metadata_answered_ok [ok_intros]: "ok w n rs st \<Longrightarrow> okp w n rs (metadata_answered w u epoch cs metadata st)"
  unfolding metadata_answered_def Let_def by (intro ok_intros) simp_all

lemma take_slot:
  assumes "ok w n rs st" "up_preprocessRunning st < uw_preprocessConcurrency w"
  shows "ok w (Suc n) rs (st\<lparr>up_preprocessRunning := up_preprocessRunning st + 1\<rparr>)"
  using assms by (simp add: ok_def sound_def mine_def guarded_def slots_ok_def slots_def skel_keeps)

lemma free_slot:
  assumes "ok w (Suc n) rs st"
  shows "ok w n rs (st\<lparr>up_preprocessRunning := up_preprocessRunning st - 1\<rparr>)"
  using assms by (auto simp: ok_def sound_def mine_def guarded_def slots_ok_def slots_def skel_keeps)

lemma pumpPreprocess_ok [ok_intros]: "ok w n rs st \<Longrightarrow> ok w n rs (pumpPreprocess w st)"
proof (induction w st rule: pumpPreprocess.induct)
  case (1 w st)
  show ?case
  proof (cases "up_status st = Active \<and> up_preprocessRunning st < uw_preprocessConcurrency w \<and> up_preprocessQueue st \<noteq> []")
    case False
    then have "pumpPreprocess w st = st" by (subst pumpPreprocess.simps) (rule if_not_P)
    then show ?thesis using "1.prems" by simp
  next
    case busy: True
    define k where "k = hd (up_preprocessQueue st)"
    define st1 where "st1 = st\<lparr>up_preprocessQueue := tl (up_preprocessQueue st)\<rparr>"
    have st1: "ok w n rs st1" unfolding st1_def by (intro ok_intros "1.prems")
    note unfold = pumpPreprocess.simps [of w st, unfolded if_P [OF busy] Let_def, folded k_def, folded st1_def]
    show ?thesis
    proof (cases "lookup_record st1 k")
      case None
      then show ?thesis using "1.IH"(1) [OF busy k_def st1_def None st1] by (simp add: unfold)
    next
      case (Some u)
      note IH = "1.IH"(2-4) [OF busy k_def st1_def Some]
      consider "iv_phase (view_of st1 u) \<noteq> Waiting" | "iv_phase (view_of st1 u) = Waiting" "ir_prepared (rec_of st1 u) \<noteq> None"
        | "iv_phase (view_of st1 u) = Waiting" "ir_prepared (rec_of st1 u) = None" by blast
      then show ?thesis
      proof cases
        case 1
        then show ?thesis using IH(1) [OF 1 st1] Some by (simp add: unfold)
      next
        case 2
        have "ok w n rs (park False u (ir_epoch (rec_of st1 u)) (register w u (ir_epoch (rec_of st1 u)) st1))" by (intro ok_intros st1)
        then show ?thesis using IH(2) 2 Some by (simp add: unfold)
      next
        case 3
        define st2 where "st2 = patch u (\<lambda>v. v\<lparr>iv_phase := Preprocessing\<rparr>) (st1\<lparr>up_preprocessRunning := up_preprocessRunning st1 + 1\<rparr>)"
        have "ok w (Suc n) rs st2" unfolding st2_def by (intro ok_intros take_slot st1) (use busy in \<open>simp add: st1_def\<close>)
        then have "ok w n rs (park True u (ir_epoch (rec_of st2 u)) (prepare w u st2))" by (intro ok_park) (simp add: okp_def prepare_state)
        then show ?thesis using IH(3) 3 Some by (simp add: unfold st2_def)
      qed
    qed
  qed
qed

section \<open>Settled transfers\<close>

text \<open>The port forgets a transfer; the record lets go of it and frees its slot, unless the answer is stale.\<close>

lemma load_drop:
  assumes "i < length port" "finite T"
  shows "load (drop_nth i port) T \<le> load port T"
    "e \<in> T \<Longrightarrow> entry_of (port ! i) = e \<Longrightarrow> load (drop_nth i port) (T - {e}) + 1 \<le> load port T"
proof -
  have parts: "port = take i port @ port ! i # drop (Suc i) port" using assms(1) by (rule id_take_nth_drop)
  then have E: "entry_of ` set port = insert (entry_of (port ! i)) (entry_of ` set (drop_nth i port))" (is "?E = insert ?e ?E'")
    by (metis drop_nth_def image_Un image_insert list.set(2) set_append Un_insert_right)
  have len: "length port = Suc (length (drop_nth i port))" using assms by (simp add: drop_nth_def)
  have "card (T - ?E') \<le> card (insert ?e (T - ?E))" using assms(2) unfolding E by (intro card_mono) auto
  also have "\<dots> \<le> Suc (card (T - ?E))" using assms(2) by (simp add: card_insert_if)
  finally have "card (T - ?E') \<le> Suc (card (T - ?E))" .
  then show "load (drop_nth i port) T \<le> load port T" using len by (simp add: load_def)
  assume T: "e \<in> T" "entry_of (port ! i) = e"
  have "T - {e} - ?E' = T - ?E" unfolding E using T(2) by auto
  then show "load (drop_nth i port) (T - {e}) + 1 \<le> load port T" using len by (simp add: load_def)
qed

definition settle_entry :: "nat \<Rightarrow> role \<Rightarrow> skeleton \<Rightarrow> skeleton" where
  "settle_entry u rl sk = sk\<lparr>sk_transfers := (sk_transfers sk)[u := (sk_transfers sk ! u)(rl := None)], sk_running := sk_running sk - 1\<rparr>"

lemma tracked_settle:
  assumes "u \<in> snd ` set (sk_records sk)" "u < length (sk_transfers sk)" "(sk_transfers sk ! u) rl = Some i"
  shows "tracked (settle_entry u rl sk) = tracked sk - {(u, rl, i)}" "(u, rl, i) \<in> tracked sk"
proof -
  have "((sk_transfers sk)[u := (sk_transfers sk ! u)(rl := None)] ! v) = (if v = u then (sk_transfers sk ! u)(rl := None) else sk_transfers sk ! v)"
    if "v < length (sk_transfers sk)" for v using that by (cases "u = v") simp_all
  then show "tracked (settle_entry u rl sk) = tracked sk - {(u, rl, i)}" "(u, rl, i) \<in> tracked sk"
    using assms by (auto simp: tracked_def settle_entry_def split: if_splits)
qed

lemma settle_inv:
  assumes "sk_inv limit sk" "i < length (sk_port sk)" "t = sk_port sk ! i"
  shows "sk_inv limit (sk\<lparr>sk_port := drop_nth i (sk_port sk)\<rparr>)"
    "pt_uid t \<in> snd ` set (sk_records sk) \<Longrightarrow> (sk_transfers sk ! pt_uid t) (pt_role t) = Some (pt_id t) \<Longrightarrow>
      sk_inv limit (settle_entry (pt_uid t) (pt_role t) (sk\<lparr>sk_port := drop_nth i (sk_port sk)\<rparr>))"
proof -
  let ?sk = "sk\<lparr>sk_port := drop_nth i (sk_port sk)\<rparr>"
  have same: "tracked ?sk = tracked sk" by (simp add: tracked_def)
  show dropped: "sk_inv limit ?sk"
    using assms(1) load_drop(1) [OF assms(2), of "tracked sk"] unfolding sk_inv_def same by simp
  assume held: "pt_uid t \<in> snd ` set (sk_records sk)" "(sk_transfers sk ! pt_uid t) (pt_role t) = Some (pt_id t)"
  have "pt_uid t < length (sk_transfers sk)" using assms(1) held(1) by (auto simp: sk_inv_def)
  note settled = tracked_settle [of "pt_uid t" ?sk "pt_role t" "pt_id t", simplified, OF held(1) this held(2), unfolded same]
  have "load (drop_nth i (sk_port sk)) (tracked sk - {entry_of t}) + 1 \<le> load (sk_port sk) (tracked sk)"
    using settled(2) by (intro load_drop(2) assms) (simp_all add: entry_of_def assms(3))
  then show "sk_inv limit (settle_entry (pt_uid t) (pt_role t) ?sk)"
    using assms(1) unfolding sk_inv_def settled(1) by (simp add: settle_entry_def entry_of_def) linarith
qed

lemma settle_ok:
  assumes "ok w n rs st" "i < length (up_port st)" "t = up_port st ! i" "st1 = st\<lparr>up_port := drop_nth i (up_port st)\<rparr>"
  shows "okp w n rs (settleTransfer w (pt_uid t) (pt_role t) (pt_id t) (pt_epoch t) stalled outcome st1)"
proof -
  let ?u = "pt_uid t" and ?rl = "pt_role t"
  have skel1: "skel st1 = (skel st)\<lparr>sk_port := drop_nth i (sk_port (skel st))\<rparr>" by (simp add: assms(4) skel_def)
  have port: "i < length (sk_port (skel st))" "t = sk_port (skel st) ! i" using assms by (simp_all add: skel_def)
  note inv = settle_inv [OF sound_inv [OF ok_sound [OF assms(1)]] port, folded skel1]
  have sound1: "sound w n rs st1" by (rule sound_frame [OF ok_sound [OF assms(1)] _ inv(1)]) (simp_all add: assms(4))
  then have ok1: "ok w n rs st1" using assms(1) by (simp add: ok_def no_wait_def skel1)
  show ?thesis
  proof (cases "alive st1 ?u (pt_epoch t) \<and> ir_transfers (rec_of st1 ?u) ?rl = Some (pt_id t)")
    case True
    define st2 where "st2 = (let st = upd ?u (\<lambda>r. r\<lparr>ir_transfers := (ir_transfers r)(?rl := None)\<rparr>) st1 in st\<lparr>up_transferRunning := up_transferRunning st - 1\<rparr>)"
    have u: "?u \<in> snd ` set (sk_records (skel st))" using ok_alive [OF ok1, of ?u "pt_epoch t"] True ok_records [OF assms(1)] by (simp add: skel_def)
    have len: "?u < length (up_heap st1)" using record_bound [OF sound_inv [OF sound1]] u by (simp add: assms(4) skel_def)
    then have "(sk_transfers (skel st) ! ?u) ?rl = Some (pt_id t)" using True by (simp add: assms(4) skel_def)
    note settled = inv(2) [OF u this]
    have "skel st2 = settle_entry ?u ?rl (skel st1)" using len by (simp add: st2_def skel_def upd_def settle_entry_def map_update Let_def)
    then have "up_inv w st2" using settled by simp
    then have "sound w n rs st2" by (rule sound_frame [OF sound1, rotated]) (simp_all add: st2_def Let_def, simp add: upd_def)
    then have pumped: "ok w n rs (pumpTransfers w st2)" by (rule pump_ok)
    have "settleTransfer w ?u ?rl (pt_id t) (pt_epoch t) stalled outcome st1 =
      (let st = pumpTransfers w st2 in
       case outcome of
         Inl err \<Rightarrow>
           (if is_account_error err then (pause Pause_account st, None)
            else fetch_begin w ?u (Await_settle_read ?rl (if stalled then up_failure ''stalled'' True else failureFrom err (up_failure ''network'' True))) st)
       | Inr (sha256, item) \<Rightarrow> (st, Some (Await_hash ?rl sha256 item)))"
      unfolding settleTransfer_def st2_def Let_def using True by (simp only: simp_thms if_False)
    then show ?thesis using pumped by (cases outcome) (auto simp: Let_def intro!: ok_intros)
  next
    case False
    then show ?thesis unfolding settleTransfer_def using ok1 by (auto intro!: ok_intros)
  qed
qed

section \<open>Retries\<close>

lemma reset_component_ok [ok_intros]: "ok w n rs st \<Longrightarrow> okp w n rs (reset_component w itemId rl next st)"
  unfolding reset_component_def Let_def by (intro ok_intros) simp_all

lemma restartComponent_ok [ok_intros]: "ok w n rs st \<Longrightarrow> okp w n rs (restartComponent w u rl st)"
  unfolding restartComponent_def Let_def by (intro ok_intros)

lemma restart_read_ok [ok_intros]:
  assumes "ok w n rs st" "read \<noteq> F_null \<Longrightarrow> u \<in> snd ` set rs"
  shows "okp w n rs (restart_read w u itemId rl read st)"
  unfolding restart_read_def using assms(2) by (cases read; simp only: fetched.case) (intro ok_intros assms(1) | simp)+

lemma restart_finish_ok [ok_intros]: "ok w n rs st \<Longrightarrow> okp w n rs (restart_finish w u epoch rl item st)"
  unfolding restart_finish_def Let_def by (intro ok_intros)

lemma restart_reset_ok [ok_intros]: "ok w n rs st \<Longrightarrow> okp w n rs (restart_reset w u epoch rl ans st)"
  unfolding restart_reset_def by (cases ans; simp only: sum.case; intro ok_intros; assumption)

lemma restart_again_ok [ok_intros]: "ok w n rs st \<Longrightarrow> okp w n rs (restart_again w u epoch rl err again st)"
  unfolding restart_again_def Let_def by (cases again; simp only: fetched.case; intro ok_intros; assumption)

lemma retryComponent_ok [ok_intros]: "ok w n rs st \<Longrightarrow> ok w n rs (retryComponent w k rl st)"
  unfolding retryComponent_def Let_def by (intro ok_intros)

lemma retryProcessing_ok [ok_intros]: "ok w n rs st \<Longrightarrow> ok w n rs (retryProcessing w k st)"
  unfolding retryProcessing_def Let_def by (intro ok_intros)

lemma processing_refused_ok [ok_intros]: "ok w n rs st \<Longrightarrow> okp w n rs (processing_refused w u roles nothing_reset err read st)"
  unfolding processing_refused_def Let_def by (intro ok_intros)

lemma reset_processing_ok [ok_intros]:
  assumes "ok w n rs st"
  shows "okp w n rs (reset_processing w u epoch itemId rl todo roles ans st)"
  unfolding reset_processing_def
  by (cases ans; cases todo; simp only: sum.case list.case; intro ok_intros assms)

lemma processing_read_ok [ok_intros]: "ok w n rs st \<Longrightarrow> okp w n rs (processing_read w u epoch roles err read st)"
  unfolding processing_read_def by (intro ok_intros)

lemma retryRegistration_ok [ok_intros]: "ok w n rs st \<Longrightarrow> ok w n rs (retryRegistration w k st)"
  unfolding retryRegistration_def Let_def by (intro ok_intros) simp_all

lemma continue_record_ok [ok_intros]: "ok w n rs st \<Longrightarrow> ok w n rs (continue_record w k st)"
  unfolding continue_record_def Let_def by (intro ok_intros)

lemma continueUploads_ok [ok_intros]: "ok w n rs st \<Longrightarrow> ok w n rs (continueUploads w st)"
  unfolding continueUploads_def Let_def by (intro ok_intros)

section \<open>Items that come and go\<close>

lemma load_mono: "finite T \<Longrightarrow> S \<subseteq> T \<Longrightarrow> load port S \<le> load port T"
  by (simp add: load_def card_mono Diff_mono)

lemma cut_records_ok:
  assumes "ok w n rs st" "set rs' \<subseteq> set rs" "distinct (map fst rs')"
  shows "ok w n rs' (st\<lparr>up_records := rs'\<rparr>)"
proof -
  let ?sk = "skel (st\<lparr>up_records := rs'\<rparr>)"
  have skel: "?sk = (skel st)\<lparr>sk_records := rs'\<rparr>" by (simp add: skel_def)
  note inv = sound_inv [OF ok_sound [OF assms(1)]] and rs = ok_records [OF assms(1)]
  have sub: "tracked ?sk \<subseteq> tracked (skel st)" using image_mono [OF assms(2), of snd] rs unfolding tracked_def skel by (simp add: skel_def) blast
  have "\<forall>e \<in> set rs'. snd e < length (sk_transfers (skel st))" using inv rs assms(2) by (auto simp: sk_inv_def skel_def)
  then have "up_inv w (st\<lparr>up_records := rs'\<rparr>)"
    using inv load_mono [OF finite_tracked sub, of "sk_port (skel st)"] sub assms(3) unfolding sk_inv_def by (auto simp: skel)
  moreover have "no_wait (uw_transferConcurrency w) ?sk = no_wait (uw_transferConcurrency w) (skel st)" by (simp add: no_wait_def skel)
  ultimately show ?thesis using assms(1) by (simp add: ok_def sound_def mine_def guarded_def slots_ok_def slots_def)
qed

lemma records_distinct: "ok w n rs st \<Longrightarrow> distinct (map fst rs)"
  using sound_inv [OF ok_sound, of w n rs st] ok_records [of w n rs st] by (simp add: sk_inv_def skel_def)

definition okx :: "upload_world \<Rightarrow> nat \<Rightarrow> uploads \<Rightarrow> bool" where
  "okx w n st \<longleftrightarrow> ok w n (up_records st) st"

lemma okx_ok: "okx w n st \<Longrightarrow> ok w n (up_records st) st"
  by (simp add: okx_def)

lemma ok_okx: "ok w n rs st \<Longrightarrow> okx w n st"
  using ok_records [of w n rs st] by (simp add: okx_def)

lemma forget_ok: "ok w n rs st \<Longrightarrow> okx w n (forget k st)"
proof -
  assume ok: "ok w n rs st"
  have "distinct (map fst (filter P rs))" for P
    using records_distinct [OF ok] by (induction rs) auto
  then have "ok w n (filter P rs) (st\<lparr>up_records := filter P rs\<rparr>)" for P by (intro cut_records_ok [OF ok]) auto
  then show ?thesis using ok_okx [OF ok] ok_records [OF ok] by (auto simp: forget_def intro: ok_okx split: option.split)
qed

lemma append_ok:
  assumes "okx w n st" "lookup_record st k = None" "ir_transfers r = (\<lambda>_. None)"
  shows "okx w n (append_record k r st)"
proof -
  have ok: "ok w n (up_records st) st" using assms(1) by (rule okx_ok)
  define st1 where "st1 = append_record k r st"
  have skel: "skel st1 = (skel st)\<lparr>sk_records := up_records st @ [(k, length (up_heap st))], sk_transfers := sk_transfers (skel st) @ [\<lambda>_. None]\<rparr>"
    by (simp add: st1_def append_record_def skel_def assms(3))
  note inv = sound_inv [OF ok_sound [OF ok]]
  have len: "length (sk_transfers (skel st)) = length (up_heap st)" "sk_records (skel st) = up_records st" by (simp_all add: skel_def)
  have bound: "\<forall>e \<in> set (up_records st). snd e < length (up_heap st)" using inv len by (simp add: sk_inv_def)
  have "tracked (skel st1) = tracked (skel st)"
    using bound by (auto simp: tracked_def skel nth_append len split: if_splits)
  moreover have "k \<notin> fst ` set (up_records st)" using assms(2) by (simp add: lookup_record_def map_of_eq_None_iff)
  ultimately have "up_inv w st1"
    using inv bound len(1) unfolding sk_inv_def by (auto simp: skel len(2))
  moreover have "no_wait (uw_transferConcurrency w) (skel st1) = no_wait (uw_transferConcurrency w) (skel st)" by (simp add: no_wait_def skel)
  moreover have "frame st1 = frame st" by (simp add: st1_def append_record_def frame_def guarded_def)
  ultimately show ?thesis using ok unfolding okx_def st1_def [symmetric]
    by (simp add: ok_def sound_def frame_def mine_def slots_ok_def slots_def)
qed

lemma add_one_ok: "okx w n st \<Longrightarrow> okx w n (add_one c st)"
proof (cases "lookup_record st (cfm_key c) = None")
  case True
  assume "okx w n st"
  then have "okx w n (append_record (cfm_key c) (new_record c) st)" using True by (rule append_ok) (simp add: new_record_def Let_def)
  then have "okx w n ((append_record (cfm_key c) (new_record c) st)\<lparr>up_preprocessQueue := up_preprocessQueue st @ [cfm_key c]\<rparr>)"
    by (rule ok_okx [OF ok_fields(3) [OF okx_ok]])
  then show ?thesis using True by (simp add: add_one_def append_record_def)
qed (simp add: add_one_def)

lemma addConfirmed_ok:
  assumes "okx w n st"
  shows "okx w n (addConfirmed w cs st)"
proof -
  have "okx w n (fold add_one cs st)" using assms by (induction cs arbitrary: st) (simp_all add: add_one_ok)
  then show ?thesis using assms by (auto simp: addConfirmed_def intro: ok_okx pumpPreprocess_ok okx_ok)
qed

lemma chooseOriginal_ok [ok_intros]: "ok w n rs st \<Longrightarrow> ok w n rs (chooseOriginal w k st)"
  unfolding chooseOriginal_def Let_def by (intro ok_intros) simp_all

lemma cancel_end_ok [ok_intros]: "ok w n rs st \<Longrightarrow> ok w n rs (cancel_end w u st)"
  unfolding cancel_end_def by (intro ok_intros)

lemma cancelItem_ok [ok_intros]: "ok w n rs st \<Longrightarrow> ok w n rs (cancelItem w k st)"
  unfolding cancelItem_def Let_def by (intro ok_intros) (auto intro: ok_lookup)

section \<open>The holder and the whole\<close>

lemma suspend_ok [ok_intros]: "ok w n rs st \<Longrightarrow> ok w n rs (suspendForHolderChange st)"
  unfolding suspendForHolderChange_def Let_def by (intro ok_intros)

lemma in_live: "u \<in> set (filter P (map snd rs)) \<Longrightarrow> u \<in> snd ` set rs"
  by auto

lemma detachFromHolder_ok [ok_intros]:
  assumes "ok w n rs st"
  shows "ok w n rs (detachFromHolder w st)"
  unfolding detachFromHolder_def Let_def detach_stop_def ok_records [OF assms]
  by (intro ok_intros assms in_live; assumption)

lemma detach_renews_ok [ok_intros]: "ok w n rs st \<Longrightarrow> ok w n rs (detach_renews u st)"
  unfolding detach_renews_def Let_def by (intro ok_intros) simp_all

lemma detach_record_ok [ok_intros]:
  assumes "ok w n rs st"
  shows "ok w n rs (detach_record w reads x st)"
proof -
  obtain u epoch where x: "x = (u, epoch)" by force
  have renewed: "ok w n rs (if kept then st else detach_renews u st)" for kept by (intro ok_intros assms)
  show ?thesis
  proof (cases "map_of reads u")
    case None
    then show ?thesis using renewed assms by (simp add: detach_record_def x Let_def)
  next
    case (Some read)
    then show ?thesis using renewed assms unfolding detach_record_def x prod.case Let_def Some option.case
      by (cases read; simp only: fetched.case; (intro ok_intros | simp)+)
  qed
qed

lemma detach_finish_ok [ok_intros]: "ok w n rs st \<Longrightarrow> ok w n rs (detach_finish w d st)"
  unfolding detach_finish_def Let_def by (intro ok_intros)

lemma release_ok:
  assumes "ok w n rs st"
  shows "okx w n (release w st)"
proof -
  define st1 where "st1 = fold (release_record w) (map snd (up_records st)) st"
  have "ok w n rs st1" unfolding st1_def release_record_def ok_records [OF assms] by (intro ok_intros assms) auto
  then have "ok w n rs (st1\<lparr>up_transferQueue := [], up_preprocessQueue := []\<rparr>)" by (rule ok_queue)
  then have "ok w n [] (st1\<lparr>up_transferQueue := [], up_preprocessQueue := []\<rparr>\<lparr>up_records := []\<rparr>)" by (rule cut_records_ok) simp_all
  then have "okx w n (st1\<lparr>up_transferQueue := [], up_preprocessQueue := []\<rparr>\<lparr>up_records := []\<rparr>)" by (rule ok_okx)
  moreover have "st1\<lparr>up_transferQueue := [], up_preprocessQueue := []\<rparr>\<lparr>up_records := []\<rparr> = release w st" unfolding release_def st1_def [symmetric] by (cases st1) simp
  ultimately show ?thesis by simp
qed

lemma dispose_ok [ok_intros]:
  assumes "ok w n rs st"
  shows "ok w n rs (dispose st)"
proof -
  define st1 where "st1 = (pause Pause_account st)\<lparr>up_status := Disposed\<rparr>"
  have paused: "ok w n rs (pause Pause_account st)" by (intro ok_intros assms)
  have none: "tracked (skel (pause Pause_account st)) = {}"
    using sound_inv [OF ok_sound [OF paused]] pause_inv(5) [OF sound_inv [OF ok_sound [OF assms]], of Pause_account]
    by (auto simp: sk_inv_def) (auto simp: skel_def split: if_splits)
  have skel: "skel (st'\<lparr>up_port := []\<rparr>) = (skel st')\<lparr>sk_port := []\<rparr>" "skel (st'\<lparr>up_status := s\<rparr>) = (skel st')\<lparr>sk_status := s\<rparr>" for st' s
    by (simp_all add: skel_def)
  have st1: "ok w n rs st1"
    using paused none by (simp add: st1_def ok_def sound_def sk_inv_def skel no_wait_def mine_def guarded_def slots_ok_def slots_def)
  have "ok w n rs (st'\<lparr>up_port := []\<rparr>)" if ok: "ok w n rs st'" "tracked (skel st') = {}" for st'
  proof -
    have "tracked ((skel st')\<lparr>sk_port := []\<rparr>) = {}" using ok(2) by (simp add: tracked_def)
    then show ?thesis using ok by (auto simp: ok_def sound_def sk_inv_def skel no_wait_def mine_def guarded_def slots_ok_def slots_def load_def)
  qed
  moreover have "skel (fold renew us st1) = skel st1" for us by (rule skel_fold) (rule skel_keeps)
  moreover have "tracked (skel st1) = {}" using none by (simp add: st1_def skel)
  moreover have "ok w n rs (fold renew us st1)" for us by (intro ok_intros st1)
  ultimately show ?thesis using assms by (simp add: dispose_def Let_def st1_def [symmetric])
qed

lemma setPolling_ok [ok_intros]: "ok w n rs st \<Longrightarrow> ok w n rs (setPolling enabled st)"
  unfolding setPolling_def by (intro ok_intros)

section \<open>Restoring\<close>

lemma restore_local_ok [ok_intros]: "ok w n rs st \<Longrightarrow> ok w n rs (restore_local u st)"
  unfolding restore_local_def Let_def by (intro ok_intros)

lemma pause_restored_ok [ok_intros]: "ok w n rs st \<Longrightarrow> ok w n rs (pause_restored u c st)"
  unfolding pause_restored_def by (intro ok_intros)

lemma restored_component_ok [ok_intros]: "ok w n rs st \<Longrightarrow> ok w n rs (restored_component u server disposition c st)"
  unfolding restored_component_def by (intro ok_intros)

lemma restored_read_ok [ok_intros]:
  assumes "ok w n rs st"
  shows "ok w n rs (restored_read w u read st)"
  unfolding restored_read_def Let_def by (cases read; simp only: fetched.case) (intro ok_intros assms | simp)+

lemma restore_entries_ok: "okx w n st \<Longrightarrow> okx w n (restore_entries w es st)"
proof (induction w es st rule: restore_entries.induct)
  case (2 w e es st)
  show ?case
  proof (cases "lookup_record st (iv_key (cp_view e)) = None")
    case True
    define st1 where "st1 = append_record (iv_key (cp_view e)) (checkpoint_record st e) st"
    have st1: "okx w n st1" unfolding st1_def using "2.prems" True by (rule append_ok) (simp add: checkpoint_record_def)
    show ?thesis
    proof (cases "iv_itemId (cp_view e)")
      case None
      have "okx w n (restore_local (length (up_heap st)) st1)" by (rule ok_okx [OF restore_local_ok [OF okx_ok [OF st1]]])
      then show ?thesis using "2.IH"(2) [OF refl refl _ st1_def None] True None by (simp add: st1_def Let_def)
    next
      case (Some i)
      have "okx w n ((note_call w (Call_item i) st1)\<lparr>up_restoring := up_restoring st1 @ [q]\<rparr>)" for q
        by (rule ok_okx [where rs = "up_records st1"]) (intro ok_intros okx_ok [OF st1], simp)
      then show ?thesis using True Some by (simp add: st1_def Let_def)
    qed
  next
    case False
    then show ?thesis using "2.IH"(1) [OF refl refl] "2.prems" by (simp add: Let_def)
  qed
qed simp

lemma restoreCheckpoint_ok: "okx w n st \<Longrightarrow> okx w n (restoreCheckpoint w es st)"
  unfolding restoreCheckpoint_def by (rule restore_entries_ok [OF ok_okx [OF ok_pause [OF okx_ok]]])

lemma restore_answered_ok:
  assumes "okx w n st"
  shows "okx w n (restore_answered w k u epoch rest ans st)"
proof -
  note ok = okx_ok [OF assms]
  have "okx w n (restored_read w u read st)" for read by (rule ok_okx [OF restored_read_ok [OF ok]])
  moreover have "okx w n (pause Pause_account st)" by (rule ok_okx [OF ok_pause [OF ok]])
  ultimately show ?thesis using assms by (simp add: restore_answered_def guardAccount_def Let_def restore_entries_ok)
qed

lemma restore_entry_ok:
  assumes "okx w n st"
  shows "okx w n (restore_entry w d e st)"
proof (cases "lookup_record st (pl_itemKey e) = None")
  case True
  show ?thesis
  proof (cases "find (\<lambda>i. di_key i = pl_itemKey e) (rd_items d)")
    case (Some content)
    define st1 where "st1 = append_record (pl_itemKey e) (draft_record d content e) st"
    have "okx w n st1" unfolding st1_def using assms True by (rule append_ok) (simp add: draft_record_def Let_def)
    note st1 = okx_ok [OF this]
    show ?thesis unfolding restore_entry_def Let_def Some option.case st1_def [symmetric] using True
      by (simp del: fold_simps) (auto intro!: ok_okx [where rs = "up_records st1"] ok_intros st1)
  qed (use assms in \<open>simp add: restore_entry_def\<close>)
qed (use assms in \<open>simp add: restore_entry_def\<close>)

lemma restore_listed_ok:
  assumes "okx w n st"
  shows "okx w n (restore_listed w d recovery records st)"
proof -
  have noted: "okx w n (fold (\<lambda>r. note_call w (Call_remove i (rr_itemKey r))) rs st)" for i and rs :: "recovery_record list"
    by (rule ok_okx [where rs = "up_records st"]) (intro ok_intros okx_ok [OF assms], simp_all)
  have "okx w n (fold (restore_entry w d) plan st')" if "okx w n st'" for plan st'
    using that by (induction plan arbitrary: st') (simp_all add: restore_entry_ok)
  then show ?thesis using noted assms by (simp add: restore_listed_def Let_def)
qed

lemma restoreDraft_ok:
  assumes "okx w n st"
  shows "okx w n (restoreDraft w d st)"
proof -
  have "okx w n (st\<lparr>up_draftId := Some (rd_id d)\<rparr>)" by (rule ok_okx [where rs = "up_records st"]) (intro ok_intros okx_ok [OF assms])
  note named = restore_listed_ok [OF this] okx_ok [OF this]
  have "okx w n ((note_call w (Call_list (rd_id d)) (st\<lparr>up_draftId := Some (rd_id d)\<rparr>))\<lparr>up_restoring := q\<rparr>)" for q
    by (rule ok_okx [where rs = "up_records (st\<lparr>up_draftId := Some (rd_id d)\<rparr>)"]) (intro ok_intros named(2), simp)
  then show ?thesis using named(1) by (simp add: restoreDraft_def Let_def)
qed

section \<open>Steps\<close>

lemma fetched_alive: "fetch_answered st u epoch ans \<noteq> F_null \<Longrightarrow> alive st u epoch"
  by (rule ccontr) (simp add: fetch_answered_def)

lemma task_continue_ok:
  assumes "ok w n rs st" "task_continue w t ans st = Some p"
  shows "okp w n rs p"
proof -
  note alive = ok_alive [OF assms(1) fetched_alive]
  note keeps = assms(1) still_answered_ok motion_answered_ok prepare_threw_ok metadata_answered_ok register_held_ok hash_answered_ok store_answered_ok
    cancel_end_ok register_answered_ok reset_processing_ok processing_read_ok restart_reset_ok restart_again_ok
  show ?thesis
  proof (cases ans)
    case (A_item i)
    show ?thesis using assms(2) alive unfolding A_item
      by (auto simp: Let_def split: step.splits
          intro!: keeps settle_read_ok poll_read_ok restart_read_ok)
  qed (use assms(2) in \<open>auto simp: ok_branch(5) split: step.splits if_splits intro!: keeps ok_branch(5)\<close>)
qed

lemma filter_drop_nth: "i < length xs \<Longrightarrow> length (filter P xs) = length (filter P (drop_nth i xs)) + (if P (xs ! i) then 1 else 0)"
proof (induction xs arbitrary: i)
  case (Cons x xs)
  then show ?case by (cases i) (simp_all add: drop_nth_def)
qed simp

lemma ok_dropped_task:
  assumes "ok w n rs st" "i < length (up_tasks st)"
  shows "ok w (if tk_slot (up_tasks st ! i) then Suc n else n) rs (st\<lparr>up_tasks := drop_nth i (up_tasks st)\<rparr>)"
proof -
  have "length (filter tk_slot (up_tasks st)) = length (filter tk_slot (drop_nth i (up_tasks st))) + (if tk_slot (up_tasks st ! i) then 1 else 0)"
    by (rule filter_drop_nth) (rule assms)
  then show ?thesis using assms(1)
    by (cases "tk_slot (up_tasks st ! i)") (simp_all add: ok_def sound_def mine_def guarded_def slots_ok_def slots_def skel_keeps)
qed

lemma handle_ok:
  assumes "okx w 0 st" "up_handle w e st = Some st'"
  shows "okx w 0 st'"
proof -
  note ok = okx_ok [OF assms(1)]
  show ?thesis
  proof (cases e)
    case (Add_confirmed cs)
    then show ?thesis using assms(2) addConfirmed_ok [OF assms(1), of cs] by simp
  next
    case (Forget_item k)
    then show ?thesis using assms(2) forget_ok [OF ok, of k] by simp
  next
    case Release_all
    then show ?thesis using assms(2) release_ok [OF ok] by simp
  next
    case (Settled i stalled outcome)
    then have "i < length (up_port st)" and st': "st' = park False (pt_uid (up_port st ! i)) (pt_epoch (up_port st ! i))
        (settleTransfer w (pt_uid (up_port st ! i)) (pt_role (up_port st ! i)) (pt_id (up_port st ! i)) (pt_epoch (up_port st ! i)) stalled outcome
          (st\<lparr>up_port := drop_nth i (up_port st)\<rparr>))"
      using assms(2) by (auto simp: Let_def split: if_splits)
    then show ?thesis using settle_ok [OF ok _ refl refl] by (intro ok_okx [where rs = "up_records st"]) (simp add: ok_park_free)
  next
    case (Answered i ans)
    then obtain p where i: "i < length (up_tasks st)" and p: "task_continue w (up_tasks st ! i) ans (st\<lparr>up_tasks := drop_nth i (up_tasks st)\<rparr>) = Some p"
      and st': "st' = park (tk_slot (up_tasks st ! i)) (tk_uid (up_tasks st ! i)) (tk_epoch (up_tasks st ! i)) p"
      using assms(2) by (auto simp: Let_def split: if_splits)
    show ?thesis unfolding st' by (rule ok_okx, rule ok_park, rule task_continue_ok [OF ok_dropped_task [OF ok i] p])
  next
    case (Slot_ends i)
    then have i: "i < length (up_tasks st)" "tk_slot (up_tasks st ! i)"
      and st': "st' = pumpPreprocess w (st\<lparr>up_tasks := drop_nth i (up_tasks st), up_preprocessRunning := up_preprocessRunning st - 1\<rparr>)"
      using assms(2) by (auto split: if_splits)
    have "ok w (Suc 0) (up_records st) (st\<lparr>up_tasks := drop_nth i (up_tasks st)\<rparr>)" using ok_dropped_task [OF ok i(1)] i(2) by simp
    from free_slot [OF this] show ?thesis unfolding st' by (intro ok_okx pumpPreprocess_ok) simp
  next
    case (Poll_fires u)
    then obtain delay epoch where st': "st' = poll_fires w u epoch st" using assms(2) by (auto split: if_splits option.splits)
    show ?thesis unfolding st' poll_fires_def Let_def by (rule ok_okx [where rs = "up_records st"]) (intro ok_intros ok, simp_all)
  next
    case (Progressed i sent)
    then have st': "st' = transfer_progress (up_port st ! i) sent st" using assms(2) by (simp split: if_splits)
    show ?thesis unfolding st' transfer_progress_def by (rule ok_okx [where rs = "up_records st"]) (intro ok_intros ok)
  next
    case (Restore_draft d)
    then show ?thesis using assms(2) restoreDraft_ok [OF assms(1), of d] by simp
  next
    case (Restore_checkpoint entries)
    then show ?thesis using assms(2) restoreCheckpoint_ok [OF assms(1), of entries] by simp
  next
    case (Restore_listed i records)
    then obtain d where "st' = restore_listed w d True records (st\<lparr>up_restoring := drop_nth i (up_restoring st)\<rparr>)"
      using assms(2) by (auto split: if_splits restoring.splits)
    then show ?thesis using restore_listed_ok [OF ok_okx [OF ok_fields(7) [OF ok]]] by simp
  next
    case (Restore_read i ans)
    then obtain k u epoch rest where "st' = restore_answered w k u epoch rest ans (st\<lparr>up_restoring := drop_nth i (up_restoring st)\<rparr>)"
      using assms(2) by (auto split: if_splits restoring.splits)
    then show ?thesis using restore_answered_ok [OF ok_okx [OF ok_fields(7) [OF ok]]] by simp
  next
    case (Detach_ends i)
    then have st': "st' = detach_finish w (up_detaching st ! i) (st\<lparr>up_detaching := drop_nth i (up_detaching st)\<rparr>)" using assms(2) by (simp split: if_splits)
    show ?thesis unfolding st' by (rule ok_okx [where rs = "up_records st"]) (intro ok_intros ok)
  qed (use assms(2) in \<open>auto simp: Let_def cancelHolderChange_def split: if_splits intro!: ok_okx [where rs = "up_records st"] ok ok_intros resumeIfIdle_ok\<close>)
qed

text \<open>What a step changes of the options leaves the invariant alone.\<close>

lemma okx_world: "okx (w\<lparr>uw_account := account, uw_headers := headers\<rparr>) n st \<longleftrightarrow> okx w n st"
  by (simp add: okx_def ok_def sound_def mine_def slots_ok_def)

lemma okx_start: "okx w 0 new_upload_manager"
  by (simp add: okx_def ok_def sound_def new_upload_manager_def skel_def sk_inv_def tracked_def load_def mine_def guarded_def slots_ok_def slots_def no_wait_def case_prod_unfold)

lemma reachable_ok: "upload_reachable w st \<Longrightarrow> okx w 0 st"
proof (induction rule: upload_reachable.induct)
  case (step st headers account e st')
  then have "okx (w\<lparr>uw_account := account, uw_headers := headers\<rparr>) 0 st" by (simp add: okx_world)
  from handle_ok [OF this step.hyps(2)] show ?case by (simp add: okx_world)
qed (rule okx_start)

end
