(* ===== verification/UploadGuarantees.thy ===== *)
theory UploadGuarantees
  imports UploadRuns
begin

text \<open>
  What the upload manager guarantees in every reachable state, and a run that shows where its cancellation is not a fence.
\<close>

section \<open>Guarantees\<close>

text \<open>A transfer of an item the manager knows is counted.\<close>

lemma transfer_counted:
  assumes "upload_reachable w st" "lookup_record st k = Some u" "ir_transfers (rec_of st u) rl = Some i"
  shows "1 \<le> up_transferRunning st"
proof -
  note inv = sound_inv [OF ok_sound [OF okx_ok [OF reachable_ok [OF assms(1)]]]]
  have "u \<in> snd ` set (up_records st)" using assms(2) by (rule in_records)
  moreover from this have "u < length (up_heap st)" by (rule record_bound [OF inv])
  ultimately have e: "(u, rl, i) \<in> tracked (skel st)" using assms(3) by (simp add: tracked_def skel_def)
  have "1 \<le> load (sk_port (skel st)) (tracked (skel st))"
  proof (cases "(u, rl, i) \<in> entry_of ` set (sk_port (skel st))")
    case True
    then have "sk_port (skel st) \<noteq> []" by auto
    then show ?thesis by (cases "sk_port (skel st)") (simp_all add: load_def)
  next
    case False
    then have "0 < card (tracked (skel st) - entry_of ` set (sk_port (skel st)))" using e by (auto simp: card_gt_0_iff)
    then show ?thesis by (simp add: load_def)
  qed
  also have "\<dots> \<le> sk_running (skel st)" using inv unfolding sk_inv_def by blast
  finally show ?thesis by (simp add: skel_def)
qed


text \<open>C36: Items are registered, sent and cancelled with the manager's own account confirmed, whatever account is confirmed in
  between.\<close>

lemma own_account_writes:
  assumes "upload_reachable w st" "(account, call) \<in> set (up_calls st)"
    "(\<exists>c. call = Call_register c) \<or> (\<exists>i r. call = Call_cancel i r) \<or> (\<exists>i c b. call = Call_start i c b)"
  shows "account = Some (uw_accountId w)"
proof -
  have "mine w st" using okx_ok [OF reachable_ok [OF assms(1)]] by (simp add: ok_def sound_def)
  moreover have "(account, call) \<in> set (guarded st)" using assms(2,3) by (auto simp: guarded_def)
  ultimately show ?thesis unfolding mine_def by fastforce
qed

text \<open>C37: An answer to a suspended function of an item (a metadata read, the holder, a registration, a read, a reset, a hash, a
  stored copy, a worker that threw) that comes after its item moved on ends the function and changes no item, no queue, no
  transfer and no task. Three kinds of answer are not fenced by the epoch and are left out: a worker's result (an aborted worker
  only throws), the end of a cancellation that \<open>cancelItem\<close> awaits, and the reads of \<open>restoreCheckpoint\<close>, which are no tasks
  here and do revive an item (\<open>late_restore_revives\<close>).\<close>

lemma stale_answer_fenced:
  assumes "\<not> alive st (tk_uid t) (tk_epoch t)" "task_continue w t ans st = Some p"
    "\<And>result. ans \<noteq> A_still result" "\<And>result. ans \<noteq> A_motion result" "ans \<noteq> A_end"
  shows "snd p = None \<and> up_heap (fst p) = up_heap st \<and> up_records (fst p) = up_records st \<and> up_status (fst p) = up_status st \<and>
    up_port (fst p) = up_port st \<and> up_tasks (fst p) = up_tasks st \<and> up_transferQueue (fst p) = up_transferQueue st \<and>
    up_preprocessQueue (fst p) = up_preprocessQueue st"
proof -
  have stale: "fetch_answered st (tk_uid t) (tk_epoch t) a = F_null" for a using assms(1) by (simp add: fetch_answered_def)
  show ?thesis
  proof (cases ans)
    case (A_item i)
    show ?thesis using assms(1,2) unfolding A_item
      by (cases i)
        (auto simp: Let_def stale register_answered_def settle_read_def reset_processing_def processing_read_def restart_read_def restart_reset_def
          restart_finish_def restart_again_def poll_read_def cancelOnAccount_def draw_request_def note_call_def split: step.splits if_splits)
  qed (use assms in \<open>auto simp: prepare_threw_def metadata_answered_def register_held_def hash_answered_def store_answered_def note_call_def
      split: step.splits if_splits\<close>)
qed

section \<open>A run\<close>

text \<open>One transfer slot, and an original Live Photo of two components.\<close>

definition sample_world :: upload_world where
  "sample_world =
     \<lparr>uw_accountId = js ''me'', uw_requestId = \<lambda>n. js ''r'' @ [n], uw_attemptId = \<lambda>n. [n], uw_preprocessConcurrency = 1,
      uw_transferConcurrency = 1, uw_hasher = True, uw_recovery = True, uw_fileSize = \<lambda>f. 1000 + f, uw_identifierSha256 = \<lambda>i. i,
      uw_account = Some (js ''me''), uw_headers = \<lambda>a. None\<rparr>"

definition sample_pair :: confirmed_source where
  "sample_pair =
     \<lparr>cfm_key = js ''k'',
      cfm_source = PairSource
        \<lparr>stl_file = 1, stl_type = Still_heic, stl_orientation = None, stl_contentIdentifier = Some (js ''id''), stl_appleMakerNote = True,
         stl_motionPhoto = None, stl_motionPhotoInvalid = False\<rparr>
        \<lparr>mot_file = 2, mot_type = Motion_quicktime, mot_contentIdentifier = Some (js ''id''), mot_audioTracks = 1, mot_stillTimeMs = None\<rparr>,
      cfm_qualityMode = Original, cfm_notCameraOriginal = False, cfm_clientSource = Source_picker\<rparr>"

definition sample_item :: server_item where
  "sample_item = \<lparr>si_id = js ''i'', si_state = Si_awaiting_upload, si_failureCode = None,
     si_components = [\<lparr>sc_id = js ''s'', sc_role = Role_still, sc_state = Sc_awaiting, sc_byteSize = 1001\<rparr>,
       \<lparr>sc_id = js ''m'', sc_role = Role_motion, sc_state = Sc_awaiting, sc_byteSize = 1002\<rparr>]\<rparr>"

fun up_run :: "upload_world \<Rightarrow> upload_event list \<Rightarrow> uploads \<Rightarrow> uploads option" where
  "up_run w [] st = Some st"
| "up_run w (e # es) st = (case up_handle w e st of None \<Rightarrow> None | Some st' \<Rightarrow> up_run w es st')"

lemma up_run_reachable:
  assumes "upload_reachable w st" "up_run w es st = Some st'"
  shows "upload_reachable w st'"
  using assms
proof (induction es arbitrary: st)
  case (Cons e es)
  then obtain st1 where st1: "up_handle w e st = Some st1" "up_run w es st1 = Some st'" by (auto split: option.splits)
  moreover have "w = w\<lparr>uw_account := uw_account w, uw_headers := uw_headers w\<rparr>" by simp
  ultimately have "upload_reachable w st1" using Cons.prems(1) upload_reachable.step by metis
  then show ?case using st1(2) by (rule Cons.IH)
qed simp

text \<open>The item is registered and its two components are queued: the still is sent, the motion waits.\<close>

definition sample_start :: uploads where
  "sample_start = the (up_run sample_world
     [Bind_session (Some True), Add_confirmed [sample_pair], Answered 0 (A_metadata None), Answered 0 (A_holder (Inr (Draft_holder (js ''d''))))]
     new_upload_manager)"

definition sample_registered :: uploads where
  "sample_registered =
     patch 0 (\<lambda>v. v\<lparr>iv_itemId := Some (si_id sample_item), iv_phase := Queued\<rparr>)
       (upd 0 (\<lambda>r. r\<lparr>ir_componentIds := server_ids sample_item, ir_draftId := Some (js ''d'')\<rparr>) (sample_start\<lparr>up_tasks := drop_nth 0 (up_tasks sample_start)\<rparr>))"

definition sample_applied :: uploads where
  "sample_applied = applyServerItem sample_world 0 sample_item False None (storeLocalCopy sample_world 0 0 True sample_registered)"

definition sample_sending :: uploads where
  "sample_sending = send_component sample_world 0 (si_components sample_item ! 1) (send_component sample_world 0 (si_components sample_item ! 0) sample_applied)"

definition sample_sent :: uploads where
  "sample_sent = push_task True 0 0 Await_end (derivePhase 0 sample_sending)"

lemma sample_start_run: "up_run sample_world
     [Bind_session (Some True), Add_confirmed [sample_pair], Answered 0 (A_metadata None), Answered 0 (A_holder (Inr (Draft_holder (js ''d''))))]
     new_upload_manager = Some sample_start"
proof -
  have "up_run sample_world
     [Bind_session (Some True), Add_confirmed [sample_pair], Answered 0 (A_metadata None), Answered 0 (A_holder (Inr (Draft_holder (js ''d''))))]
     new_upload_manager \<noteq> None" (is "?run \<noteq> None") by code_simp
  then have "?run = Some (the ?run)" by simp
  then show ?thesis by (simp only: sample_start_def)
qed

lemma sample_start_task: "length (up_tasks sample_start) = 1 \<and>
    up_tasks sample_start ! 0 = \<lparr>tk_slot = True, tk_uid = 0, tk_epoch = 0, tk_step = Await_register (Draft_holder (js ''d'')) True\<rparr> \<and>
    alive sample_start 0 0"
  by code_simp

lemma sample_sent_reachable: "upload_reachable sample_world sample_sent"
proof -
  let ?st = "sample_start\<lparr>up_tasks := drop_nth 0 (up_tasks sample_start)\<rparr>"
  have alive: "alive ?st 0 0" using sample_start_task by (simp add: alive_def lookup_record_def)
  have items: "si_components sample_item = [si_components sample_item ! 0, si_components sample_item ! 1]" by (simp add: sample_item_def)
  have "register_answered sample_world 0 0 (Draft_holder (js ''d'')) True (Inr sample_item) ?st = (derivePhase 0 sample_sending, None)"
    unfolding register_answered_def sum.case Let_def holder.case
    using alive by (subst items) (simp add: sample_sending_def sample_applied_def sample_registered_def)
  then have "up_handle sample_world (Answered 0 (A_item (Inr sample_item))) sample_start = Some sample_sent"
    using sample_start_task by (simp add: Let_def park_def sample_sent_def)
  then have "up_run sample_world [Answered 0 (A_item (Inr sample_item))] sample_start = Some sample_sent" by simp
  moreover have "upload_reachable sample_world sample_start" by (rule up_run_reachable [OF upload_reachable.start sample_start_run])
  ultimately show ?thesis by (rule up_run_reachable [rotated])
qed

text \<open>Cancelling that item aborts the still and then, before its queued components are dropped, gives the free slot to its
  own motion: the cancelled item keeps sending, and what that transfer answers is not fenced.\<close>

lemma cancelled_item_sends:
  "upload_reachable sample_world (cancelItem sample_world (js ''k'') sample_sent) \<and>
   (let st = cancelItem sample_world (js ''k'') sample_sent in
    map pt_id (up_port sample_sent) = [js ''s.'' @ [0]] \<and> iv_phase (view_of st 0) = Cleanup \<and>
    map pt_id (up_port st) = [js ''m.'' @ [1]] \<and> list_all (\<lambda>t. alive st (pt_uid t) (pt_epoch t) \<and> ir_transfers (rec_of st 0) Role_motion = Some (pt_id t)) (up_port st))"
proof -
  have "up_run sample_world [Cancel_item (js ''k'')] sample_sent = Some (cancelItem sample_world (js ''k'') sample_sent)" by simp
  then have "upload_reachable sample_world (cancelItem sample_world (js ''k'') sample_sent)" by (rule up_run_reachable [OF sample_sent_reachable])
  moreover have "let st = cancelItem sample_world (js ''k'') sample_sent in
    map pt_id (up_port sample_sent) = [js ''s.'' @ [0]] \<and> iv_phase (view_of st 0) = Cleanup \<and>
    map pt_id (up_port st) = [js ''m.'' @ [1]] \<and> list_all (\<lambda>t. alive st (pt_uid t) (pt_epoch t) \<and> ir_transfers (rec_of st 0) Role_motion = Some (pt_id t)) (up_port st)"
    by code_simp
  ultimately show ?thesis by simp
qed

section \<open>The guarantees at this run\<close>


lemma own_account_writes_witness: "fst (last (up_calls sample_sent)) = Some (js ''me'') \<and> (case snd (last (up_calls sample_sent)) of Call_start i c b \<Rightarrow> c = js ''s'' | _ \<Rightarrow> False)"
proof -
  have start: "case snd (last (up_calls sample_sent)) of Call_start i c b \<Rightarrow> c = js ''s'' | _ \<Rightarrow> False" by code_simp
  then have kind: "\<exists>i c b. snd (last (up_calls sample_sent)) = Call_start i c b" by (auto split: upload_call.splits)
  have "up_calls sample_sent \<noteq> []" by code_simp
  then have "(fst (last (up_calls sample_sent)), snd (last (up_calls sample_sent))) \<in> set (up_calls sample_sent)" by simp
  then have "fst (last (up_calls sample_sent)) = Some (uw_accountId sample_world)"
    using kind by (intro own_account_writes [OF sample_sent_reachable]) blast+
  then show ?thesis using start by (simp add: sample_world_def)
qed

text \<open>The item of the first run is cancelled while its registration is awaited; then the registration is answered.\<close>

definition sample_cancelled :: uploads where
  "sample_cancelled = cancelItem sample_world (js ''k'') sample_start"

lemma sample_cancelled_task:
  "up_tasks sample_cancelled = [\<lparr>tk_slot = True, tk_uid = 0, tk_epoch = 0, tk_step = Await_register (Draft_holder (js ''d'')) True\<rparr>]
   \<and> \<not> alive sample_cancelled 0 0"
  by code_simp

lemma stale_answer_fenced_witness:
  "upload_reachable sample_world sample_cancelled \<and>
   (\<exists>st. task_continue sample_world (hd (up_tasks sample_cancelled)) (A_item (Inr sample_item)) sample_cancelled = Some (st, None) \<and>
     up_heap st = up_heap sample_cancelled \<and> up_port st = up_port sample_cancelled \<and> up_tasks st = up_tasks sample_cancelled)"
proof -
  have start: "upload_reachable sample_world sample_start" by (rule up_run_reachable [OF upload_reachable.start sample_start_run])
  have "up_run sample_world [Cancel_item (js ''k'')] sample_start = Some sample_cancelled" by (simp add: sample_cancelled_def)
  then have reachable: "upload_reachable sample_world sample_cancelled" by (rule up_run_reachable [OF start])
  define t where "t = hd (up_tasks sample_cancelled)"
  have t: "t = \<lparr>tk_slot = True, tk_uid = 0, tk_epoch = 0, tk_step = Await_register (Draft_holder (js ''d'')) True\<rparr>"
    using sample_cancelled_task by (simp add: t_def)
  obtain p where p: "task_continue sample_world t (A_item (Inr sample_item)) sample_cancelled = Some p" by (simp add: t Let_def)
  have "\<not> alive sample_cancelled (tk_uid t) (tk_epoch t)" using sample_cancelled_task by (simp add: t)
  from stale_answer_fenced [OF this p] show ?thesis using reachable p by (cases p) (simp add: t_def)
qed

end
