(* ===== verification/RecoveryGuarantees.thy ===== *)
theory RecoveryGuarantees
  imports LocalRecovery
begin

text \<open>
  What the local recovery store guarantees: a saved record is listed again as it was, the stores stay in step whatever else writes meanwhile, and within
  the total when nobody else adds bytes; nothing of another account or draft is listed, and a restore plan counts local bytes only where they cover what the
  account lacks.
\<close>

section \<open>Records\<close>

definition component_ok :: "recovery_component \<Rightarrow> bool" where
  "component_ok c \<longleftrightarrow> hex_id ''media-component-'' (rc_componentId c)"

definition record_ok :: "recovery_record \<Rightarrow> bool" where
  "record_ok r \<longleftrightarrow> item_key_ok (rr_itemKey r) \<and> hex_id ''media-item-'' (rr_itemId r) \<and> rr_qualityMode r \<noteq> Legacy \<and>
     1 \<le> length (rr_components r) \<and> length (rr_components r) \<le> 2 \<and> list_all component_ok (rr_components r)"

lemma value_reads [simp]:
  "as_role (H_string (js (role_name rl))) = Some rl" "as_kind (kind_value k) = Some k" "as_mode (mode_value m) = (if m = Legacy then None else Some m)"
  "string_value (H_string s) = Some s"
proof -
  show "as_role (H_string (js (role_name rl))) = Some rl" by (cases rl) (simp_all add: as_role_def)
  show "as_kind (kind_value k) = Some k" by (cases k) (simp_all add: as_kind_def kind_value_def)
  show "as_mode (mode_value m) = (if m = Legacy then None else Some m)" by (cases m) (simp_all add: as_mode_def mode_value_def)
qed (simp add: string_value_def)

lemma component_written: "parse_component (component_value c) = (if component_ok c then Some c else None)"
  by (cases c) (simp add: parse_component_def component_value_def component_ok_def Let_def)

lemma components_written: "parse_components (map component_value cs) = (if list_all component_ok cs then Some cs else None)"
  by (induction cs) (auto simp: component_written)

lemma record_written:
  "parseRecoveryRecord (record_value r) (rr_accountId r) (rr_draftId r) = (if record_ok r then Some r else None)"
  by (cases r) (simp add: parseRecoveryRecord_def record_value_def record_ok_def components_written Let_def)

lemma component_read: "parse_component v = Some c \<Longrightarrow> component_ok c"
  by (auto simp: parse_component_def component_ok_def Let_def split: option.splits hvalue.splits if_splits)

lemma components_read: "parse_components vs = Some cs \<Longrightarrow> length cs = length vs \<and> list_all component_ok cs"
  by (induction vs arbitrary: cs) (auto dest: component_read split: option.splits)

lemma mode_read: "as_mode v = Some m \<Longrightarrow> m \<noteq> Legacy"
  by (auto simp: as_mode_def split: if_splits)

lemma record_read:
  assumes "parseRecoveryRecord v a d = Some r"
  shows "record_ok r \<and> rr_accountId r = a \<and> rr_draftId r = d"
  using assms components_read mode_read by (fastforce simp: parseRecoveryRecord_def record_ok_def Let_def split: option.splits hvalue.splits if_splits)

section \<open>Object stores\<close>

definition store_ok :: "object_store \<Rightarrow> bool" where
  "store_ok es \<longleftrightarrow> sorted_wrt (<) (map fst es)"

lemma put_keys: "fst ` set (store_put k v es) = insert k (fst ` set es)"
  by (induction k v es rule: store_put.induct) auto

lemma store_ok_Cons: "store_ok ((k, v) # es) \<longleftrightarrow> (\<forall>x \<in> fst ` set es. k < x) \<and> store_ok es"
  by (simp add: store_ok_def)

lemma put_ok: "store_ok es \<Longrightarrow> store_ok (store_put k v es)"
proof (induction k v es rule: store_put.induct)
  case (2 k v k' v' es)
  show ?case
  proof (cases "k = k' \<or> k < k'")
    case True
    then show ?thesis using 2(2) by (auto simp: store_ok_Cons intro: less_trans)
  next
    case False
    then have "k' < k" "store_put k v ((k', v') # es) = (k', v') # store_put k v es" by auto
    moreover have "store_ok (store_put k v es)" using 2 False by (simp add: store_ok_Cons)
    ultimately show ?thesis using 2(2) by (simp only: store_ok_Cons put_keys) auto
  qed
qed (simp add: store_ok_def)

lemma map_of_put: "map_of (store_put k v es) = (map_of es)(k \<mapsto> v)"
  if "store_ok es" for es
  using that
proof (induction k v es rule: store_put.induct)
  case (2 k v k' v' es)
  then show ?case
  proof (cases "k < k'")
    case True
    then have "map_of es k = None"
      using 2(2) by (auto simp: store_ok_def map_of_eq_None_iff dest: less_trans)
    then show ?thesis using True by auto
  next
    case False
    then show ?thesis using 2 by (auto simp: store_ok_def fun_upd_twist)
  qed
qed simp

lemma delete_ok: "store_ok es \<Longrightarrow> store_ok (store_delete k es)"
  by (induction es) (auto simp: store_ok_def store_delete_def)

lemma map_of_delete: "map_of (store_delete k es) = (map_of es)(k := None)"
  by (induction es) (auto simp: store_delete_def)

lemma store_distinct: "store_ok es \<Longrightarrow> distinct (map fst es)"
  unfolding store_ok_def by (induction "map fst es" arbitrary: es) (auto simp: strict_sorted_iff)

section \<open>The database\<close>

text \<open>The two object stores hold the same keys, in key order, and sizes are sizes.\<close>

definition idb_ok :: "idb \<Rightarrow> bool" where
  "idb_ok db \<longleftrightarrow> store_ok (db_items db) \<and> store_ok (db_sizes db) \<and> fst ` set (db_items db) = fst ` set (db_sizes db) \<and>
     (\<forall>e \<in> set (db_sizes db). 0 \<le> size_number (snd e))"

abbreviation total_of :: "object_store \<Rightarrow> rat" where
  "total_of es \<equiv> sum_list (map (size_number \<circ> snd) es)"

lemma total_put: "(\<forall>e \<in> set es. 0 \<le> size_number (snd e)) \<Longrightarrow> total_of (store_put k v es) \<le> total_of es + size_number v"
  by (induction k v es rule: store_put.induct) auto

lemma total_delete: "(\<forall>e \<in> set es. 0 \<le> size_number (snd e)) \<Longrightarrow> total_of (store_delete k es) \<le> total_of es"
  by (induction es) (auto simp: store_delete_def)

lemma put_values: "e \<in> set (store_put k v es) \<Longrightarrow> e = (k, v) \<or> e \<in> set es"
  by (induction k v es rule: store_put.induct) (auto split: if_splits)

lemma size_number_nat [simp]: "size_number (number_value r) = r"
  by (simp add: size_number_def number_value_def)

lemma backend_put_ok:
  assumes "idb_ok db"
  shows "idb_ok (backend_put k r n db)" "totalBytes (backend_put k r n db) \<le> totalBytes db + of_nat n"
    "map_of (db_items (backend_put k r n db)) = (map_of (db_items db))(k \<mapsto> record_value r)"
proof -
  have "\<forall>e \<in> set (store_put k (number_value (of_nat n)) (db_sizes db)). 0 \<le> size_number (snd e)"
    using assms put_values by (fastforce simp: idb_ok_def)
  then show "idb_ok (backend_put k r n db)" using assms by (simp add: idb_ok_def backend_put_def put_ok put_keys)
  show "totalBytes (backend_put k r n db) \<le> totalBytes db + of_nat n"
    using total_put [of "db_sizes db" k "number_value (of_nat n)"] assms by (simp add: totalBytes_def backend_put_def idb_ok_def)
  show "map_of (db_items (backend_put k r n db)) = (map_of (db_items db))(k \<mapsto> record_value r)"
    using assms by (simp add: backend_put_def map_of_put idb_ok_def)
qed

lemma backend_delete_ok:
  assumes "idb_ok db"
  shows "idb_ok (backend_delete k db)" "totalBytes (backend_delete k db) \<le> totalBytes db"
    "map_of (db_items (backend_delete k db)) = (map_of (db_items db))(k := None)"
proof -
  have "fst ` set (store_delete k es) = fst ` set es - {k}" for es by (auto simp: store_delete_def image_iff)
  then show "idb_ok (backend_delete k db)" using assms by (simp add: idb_ok_def backend_delete_def delete_ok) (auto simp: store_delete_def)
  show "totalBytes (backend_delete k db) \<le> totalBytes db"
    using total_delete [of "db_sizes db" k] assms by (simp add: totalBytes_def backend_delete_def idb_ok_def)
qed (simp add: backend_delete_def map_of_delete)

section \<open>Listing\<close>

lemma list_values_records: "fst (list_values a d vs db) = List.map_filter (\<lambda>v. parseRecoveryRecord v a d) vs"
  by (induction a d vs db rule: list_values.induct) (auto simp: map_filter_def split: option.split prod.split)

lemma list_values_ok:
  "idb_ok db \<Longrightarrow> idb_ok (snd (list_values a d vs db)) \<and> totalBytes (snd (list_values a d vs db)) \<le> totalBytes db"
proof (induction a d vs db rule: list_values.induct)
  case (2 a d v vs db)
  show ?case
  proof (cases "parseRecoveryRecord v a d")
    case (Some r)
    obtain rs db' where "list_values a d vs db = (rs, db')" by force
    then show ?thesis using "2.IH"(3) [OF Some "2.prems"] Some by simp
  next
    case None
    show ?thesis
    proof (cases "string_value (field (fields_of v) ''itemKey'')")
      case None': None
      show ?thesis using "2.IH"(1) [OF None None' "2.prems"] None None' by simp
    next
      case (Some i)
      have "totalBytes (backend_delete [a, d, i] db) \<le> totalBytes db" by (rule backend_delete_ok(2) [OF "2.prems"])
      then show ?thesis using "2.IH"(2) [OF None Some backend_delete_ok(1) [OF "2.prems"]] None Some by simp
    qed
  qed
qed simp

lemma prefix_range: "([a, d] :: idb_key) @ [[]] \<le> k \<Longrightarrow> k \<le> [a, d] @ [[0xFFFF]] \<Longrightarrow> take 2 k = [a, d]"
  by (cases k; cases "tl k") (auto dest: less_asym)

lemma key_in_range:
  assumes "item_key_ok i"
  shows "[a, d] @ [[]] \<le> [a, d, i] \<and> [a, d, i] \<le> [a, d] @ [[0xFFFF]]"
proof -
  have "c < 0xFFFF" if "item_key_char c" for c using that by (auto simp: item_key_char_def is_alpha_def is_upper_def is_lower_def is_digit_def)
  then have "hd i < 0xFFFF" "i \<noteq> []" using assms by (cases i; auto simp: item_key_ok_def)+
  then show ?thesis by (cases i) (auto simp: le_less)
qed

lemma listed_at:
  assumes "validIdentity a d" and "item_key_ok i"
    and "map_of (db_items db) [a, d, i] = Some v" and "parseRecoveryRecord v a d = Some r"
  shows "r \<in> set (fst (list_records a d db))"
proof -
  have "([a, d, i], v) \<in> set (db_items db)" using assms(3) by (simp add: map_of_SomeD)
  moreover have "[a, d] @ [[]] \<le> [a, d, i] \<and> [a, d, i] \<le> [a, d] @ [[0xFFFF]]" by (rule key_in_range [OF assms(2)])
  ultimately have "v \<in> set (backend_list [a, d] db)" by (force simp: backend_list_def)
  then show ?thesis using assms(1,4) by (force simp: list_records_def list_values_records map_filter_def)
qed

lemma listed_iff:
  assumes "idb_ok db" "validIdentity a d"
  shows "map_of (db_items db) [a, d, i] = Some (record_value r) \<Longrightarrow> record_ok r \<Longrightarrow> rr_accountId r = a \<Longrightarrow> rr_draftId r = d \<Longrightarrow> rr_itemKey r = i \<Longrightarrow>
    r \<in> set (fst (list_records a d db))"
  using listed_at [OF assms(2), of i db "record_value r" r] record_written [of r] by (auto simp: record_ok_def)

lemma list_reads_own:
  assumes "v \<in> set (backend_list [a, d] db)"
  shows "\<exists>k. (k, v) \<in> set (db_items db) \<and> take 2 k = [a, d]"
  using assms prefix_range by (fastforce simp: backend_list_def)

section \<open>Guarantees\<close>

lemma save_checked_cases:
  assumes "save_checked others env r db = (stored, db')"
  shows "db' = db \<or> db' = others 3 db \<or> db' = backend_delete (recovery_key r) (others 3 db)"
    and "stored \<Longrightarrow> db' = db \<and> (\<exists>r'. parseRecoveryRecord (backend_get (recovery_key r) db) (rr_accountId r) (rr_draftId r) = Some r'
      \<and> rr_itemId r' = rr_itemId r \<and> length (rr_components r') = length (rr_components r) \<and> tails_read (sv_tail env) (rr_components r') = Some True)"
  using assms by (auto simp: save_checked_def Let_def split: if_splits option.splits bool.splits)

text \<open>What holds before the others' steps and is kept by them and by the save's own \<open>put\<close> and \<open>delete\<close> holds at the end.\<close>

lemma save_steps:
  assumes s: "save_record others env r db = (stored, db')" and start: "P db"
    and others: "\<And>n d. P d \<Longrightarrow> P (others n d)"
    and put: "\<And>d. P d \<Longrightarrow> P (backend_put (recovery_key r) r (recordBytes r) d)"
    and delete: "\<And>d. P d \<Longrightarrow> P (backend_delete (recovery_key r) d)"
  shows "P db'"
proof -
  let ?put = "others 2 (backend_put (recovery_key r) r (recordBytes r) (others 1 (others 0 db)))"
  have P: "P (others 0 db)" "P (others 1 (others 0 db))" "P ?put" "P (others 3 ?put)" using start by (intro others put; assumption?)+
  have "db' = db \<or> db' = others 0 db \<or> db' = others 1 (others 0 db) \<or> save_checked others env r ?put = (stored, db')"
    using s by (auto simp: save_record_def Let_def split: if_splits)
  then show ?thesis using save_checked_cases(1)[of others env r ?put stored db'] start P delete[OF P(4)] by auto
qed

text \<open>With nobody adding bytes meanwhile the bound that was checked on the total holds after the \<open>put\<close>.\<close>

lemma save_total:
  assumes ok: "idb_ok db" and total: "totalBytes db \<le> of_nat RECOVERY_MAX_TOTAL_BYTES"
    and s: "save_record others env r db = (stored, db')"
    and others: "\<And>n d. idb_ok d \<Longrightarrow> idb_ok (others n d) \<and> totalBytes (others n d) \<le> totalBytes d"
  shows "totalBytes db' \<le> of_nat RECOVERY_MAX_TOTAL_BYTES"
proof -
  define d0 d1 d2 where "d0 = others 0 db" and "d1 = others 1 d0"
    and "d2 = others 2 (backend_put (recovery_key r) r (recordBytes r) d1)"
  note o0 = others[OF ok, of 0, folded d0_def]
  note o1 = others[OF conjunct1[OF o0], of 1, folded d1_def]
  note put = backend_put_ok[OF conjunct1[OF o1], of "recovery_key r" r "recordBytes r"]
  note o2 = others[OF put(1), of 2, folded d2_def]
  note o3 = others[OF conjunct1[OF o2], of 3]
  note del = backend_delete_ok(2)[OF conjunct1[OF o3], of "recovery_key r"]
  show ?thesis
  proof (cases "save_asks env r \<and> save_room env r d0 \<and> \<not> sv_failsPut env")
    case True
    then have c: "save_checked others env r d2 = (stored, db')" using s by (simp add: save_record_def d0_def d1_def d2_def)
    have "totalBytes d0 + of_nat (recordBytes r) \<le> of_nat RECOVERY_MAX_TOTAL_BYTES"
      using True by (auto simp: save_room_def split: option.splits if_splits)
    then have "totalBytes d2 \<le> of_nat RECOVERY_MAX_TOTAL_BYTES" using o1 put(2) o2 by linarith
    then show ?thesis using save_checked_cases(1)[OF c] o3 del by auto
  next
    case False
    then have "db' = db \<or> db' = d0 \<or> db' = d1" using s by (auto simp: save_record_def Let_def d0_def d1_def split: if_splits)
    then show ?thesis using total o0 o1 by auto
  qed
qed

text \<open>C39: Whatever else uses the database while a \<open>save\<close> awaits its transactions (keeping the two object stores in step),
  they stay in step, and a record under another key that nobody else touches is not touched. A \<open>save\<close> that reports success had
  a well-formed record, and a record of the same item with as many components, whose bytes are there, is listed for the account
  and draft; it is exactly the saved one if nobody else wrote under its key between the \<open>put\<close> and the \<open>get\<close>. The total
  stays within two gigabytes if nobody else adds bytes meanwhile, which nothing in the code prevents
  (\<open>two_saves_pass_the_total\<close>).\<close>

lemma save_sound:
  assumes "idb_ok db" and others: "\<And>n d. idb_ok d \<Longrightarrow> idb_ok (others n d)" and s: "save_record others env r db = (stored, db')"
  shows "idb_ok db' \<and>
    (\<forall>k. k \<noteq> recovery_key r \<and> (\<forall>n d. idb_ok d \<longrightarrow> map_of (db_items (others n d)) k = map_of (db_items d) k) \<longrightarrow>
       map_of (db_items db') k = map_of (db_items db) k) \<and>
    (stored \<longrightarrow> record_ok r \<and>
       (\<exists>r' \<in> set (fst (list_records (rr_accountId r) (rr_draftId r) db')). rr_itemId r' = rr_itemId r \<and>
          length (rr_components r') = length (rr_components r) \<and> tails_read (sv_tail env) (rr_components r') = Some True)) \<and>
    (stored \<and> (\<forall>d. idb_ok d \<longrightarrow> map_of (db_items (others 2 d)) (recovery_key r) = map_of (db_items d) (recovery_key r)) \<longrightarrow>
       r \<in> set (fst (list_records (rr_accountId r) (rr_draftId r) db'))) \<and>
    ((\<forall>n d. idb_ok d \<longrightarrow> totalBytes (others n d) \<le> totalBytes d) \<and> totalBytes db \<le> of_nat RECOVERY_MAX_TOTAL_BYTES \<longrightarrow>
       totalBytes db' \<le> of_nat RECOVERY_MAX_TOTAL_BYTES)"
proof (intro conjI allI impI)
  let ?key = "recovery_key r"
  show ok': "idb_ok db'" by (rule save_steps[OF s, where P = idb_ok]) (simp_all add: assms(1) others backend_put_ok backend_delete_ok)
  show "map_of (db_items db') k = map_of (db_items db) k"
    if k: "k \<noteq> ?key \<and> (\<forall>n d. idb_ok d \<longrightarrow> map_of (db_items (others n d)) k = map_of (db_items d) k)" for k
  proof -
    have "idb_ok db' \<and> map_of (db_items db') k = map_of (db_items db) k"
      by (rule save_steps[OF s, where P = "\<lambda>d. idb_ok d \<and> map_of (db_items d) k = map_of (db_items db) k"]) (use assms(1) others k in \<open>auto simp: backend_put_ok backend_delete_ok\<close>)
    then show ?thesis by simp
  qed
  have finished: "record_ok r \<and> (\<exists>r'. r' \<in> set (fst (list_records (rr_accountId r) (rr_draftId r) db')) \<and> rr_itemId r' = rr_itemId r
        \<and> length (rr_components r') = length (rr_components r) \<and> tails_read (sv_tail env) (rr_components r') = Some True)
      \<and> ((\<forall>d. idb_ok d \<longrightarrow> map_of (db_items (others 2 d)) ?key = map_of (db_items d) ?key) \<longrightarrow>
           r \<in> set (fst (list_records (rr_accountId r) (rr_draftId r) db')))" if stored
  proof -
    define d1 d2 where "d1 = others 1 (others 0 db)" and "d2 = others 2 (backend_put ?key r (recordBytes r) d1)"
    have d1: "idb_ok d1" using assms(1) others by (simp add: d1_def)
    have asks: "save_asks env r" and c: "save_checked others env r d2 = (True, db')"
      using s that by (auto simp: save_record_def d1_def d2_def Let_def split: if_splits)
    have db': "db' = d2" using save_checked_cases(2)[OF c] by simp
    obtain r' where r': "parseRecoveryRecord (backend_get ?key d2) (rr_accountId r) (rr_draftId r) = Some r'"
        "rr_itemId r' = rr_itemId r" "length (rr_components r') = length (rr_components r)" "tails_read (sv_tail env) (rr_components r') = Some True"
      using save_checked_cases(2)[OF c] by auto
    have valid: "validIdentity (rr_accountId r) (rr_draftId r)" and r: "record_ok r"
      using asks by (auto simp: save_asks_def record_written split: if_splits)
    obtain v where v: "map_of (db_items d2) ?key = Some v" "parseRecoveryRecord v (rr_accountId r) (rr_draftId r) = Some r'"
      using r'(1) by (cases "map_of (db_items d2) ?key") (auto simp: backend_get_def parseRecoveryRecord_def)
    have listed: "r' \<in> set (fst (list_records (rr_accountId r) (rr_draftId r) db'))"
      using listed_at[OF valid _ v[unfolded recovery_key_def]] r by (simp add: db' record_ok_def)
    have "r' = r" if "\<forall>d. idb_ok d \<longrightarrow> map_of (db_items (others 2 d)) ?key = map_of (db_items d) ?key"
    proof -
      have "map_of (db_items d2) ?key = Some (record_value r)" using that backend_put_ok[OF d1] by (simp add: d2_def)
      then show ?thesis using v r record_written[of r] by simp
    qed
    then show ?thesis using r r' listed by blast
  qed
  show "record_ok r" if stored using finished that by blast
  show "\<exists>r' \<in> set (fst (list_records (rr_accountId r) (rr_draftId r) db')). rr_itemId r' = rr_itemId r \<and>
      length (rr_components r') = length (rr_components r) \<and> tails_read (sv_tail env) (rr_components r') = Some True" if stored
    using finished that by blast
  show "r \<in> set (fst (list_records (rr_accountId r) (rr_draftId r) db'))"
    if "stored \<and> (\<forall>d. idb_ok d \<longrightarrow> map_of (db_items (others 2 d)) ?key = map_of (db_items d) ?key)"
    using finished that by blast
  show "totalBytes db' \<le> of_nat RECOVERY_MAX_TOTAL_BYTES"
    if "(\<forall>n d. idb_ok d \<longrightarrow> totalBytes (others n d) \<le> totalBytes d) \<and> totalBytes db \<le> of_nat RECOVERY_MAX_TOTAL_BYTES"
    using save_total[OF assms(1) _ s] others that by blast
qed

text \<open>What is listed for a draft was stored under that account and draft and passed the check; nothing else is read.\<close>

lemma list_sound:
  assumes "idb_ok db" "r \<in> set (fst (list_records a d db))"
  shows "record_ok r \<and> rr_accountId r = a \<and> rr_draftId r = d \<and> (\<exists>k v. map_of (db_items db) k = Some v \<and> take 2 k = [a, d] \<and> parseRecoveryRecord v a d = Some r) \<and>
    idb_ok (snd (list_records a d db)) \<and> totalBytes (snd (list_records a d db)) \<le> totalBytes db"
proof -
  have valid: "validIdentity a d" using assms(2) by (auto simp: list_records_def split: if_splits)
  then have "r \<in> set (List.map_filter (\<lambda>v. parseRecoveryRecord v a d) (backend_list [a, d] db))"
    using assms(2) by (simp add: list_records_def list_values_records)
  then obtain v where v: "v \<in> set (backend_list [a, d] db)" "parseRecoveryRecord v a d = Some r" by (auto simp: map_filter_def)
  obtain k where k: "(k, v) \<in> set (db_items db)" "take 2 k = [a, d]" using list_reads_own [OF v(1)] by blast
  have "map_of (db_items db) k = Some v" using k(1) assms(1) by (intro map_of_is_SomeI store_distinct) (simp_all add: idb_ok_def)
  then show ?thesis using record_read [OF v(2)] v(2) k(2) list_values_ok [OF assms(1)] valid by (auto simp: list_records_def)
qed

text \<open>A restore plan has one entry for each item of the draft, in order. Local bytes are planned only for an item
  the account still waits for or has failed, and only when they are registered for that very item and cover every component the
  account has not received; nothing else keeps a local record.\<close>

lemma plan_sound:
  "map pl_itemKey (planDraftRestore legacy items servers records) = map fst items \<and>
   (\<forall>e \<in> set (planDraftRestore legacy items servers records).
     (pl_record e \<noteq> None) = (pl_disposition e = Recoverable) \<and>
     (\<forall>r. pl_record e = Some r \<longrightarrow>
       r \<in> set records \<and> rr_itemKey r = pl_itemKey e \<and>
       (\<exists>s \<in> set servers. pl_serverItem e = Some s \<and> si_id s = rr_itemId r \<and> si_state s \<in> {Si_awaiting_upload, Si_failed} \<and> \<not> legacy s \<and>
         (\<forall>c \<in> set (si_components s). sc_state c \<in> {Sc_received, Sc_verified} \<or>
            (\<exists>local \<in> set (rr_components r). rc_componentId local = sc_id c \<and> rc_byteSize local = sc_byteSize c)))))" (is "_ \<and> (\<forall>e \<in> _. ?P e)")
proof -
  have keys: "pl_itemKey (plan_item legacy servers records x) = fst x" for x
    by (cases x) (auto simp: plan_item_def Let_def split: option.split)
  have one: "?P e"
    if e: "e = plan_item legacy servers records (key, itemId)" for e key itemId
  proof (cases "pl_record e")
    case None
    then show ?thesis unfolding e by (auto simp: plan_item_def Let_def split: option.splits if_splits)
  next
    case (Some r)
    obtain i s where i: "itemId = Some i" and s: "find (\<lambda>s. si_id s = i) servers = Some s"
      and state: "si_state s \<notin> {Si_cancelled, Si_purged}" "si_state s \<notin> {Si_ready, Si_processing}" "\<not> legacy s"
      and r: "find (\<lambda>r. rr_itemKey r = key \<and> Some (rr_itemId r) = itemId) records = Some r" and covered: "list_all (covers r) (missing_components s)"
      and disp: "pl_disposition e = Recoverable" "pl_serverItem e = Some s" "pl_itemKey e = key"
      using Some unfolding e by (auto simp: plan_item_def Let_def split: option.splits if_splits)
    have "s \<in> set servers" "si_id s = i" using s by (auto simp: find_Some_iff)
    moreover have "r \<in> set records" "rr_itemKey r = key" "rr_itemId r = i" using r i by (auto simp: find_Some_iff)
    moreover have "si_state s \<in> {Si_awaiting_upload, Si_failed}" using state by (cases "si_state s") simp_all
    moreover have "\<forall>c \<in> set (si_components s). sc_state c \<in> {Sc_received, Sc_verified} \<or>
        (\<exists>local \<in> set (rr_components r). rc_componentId local = sc_id c \<and> rc_byteSize local = sc_byteSize c)"
      using covered by (auto simp: missing_components_def covers_def list_all_iff list_ex_iff)
    ultimately show ?thesis using Some disp state(3) by auto
  qed
  show ?thesis
  proof (intro conjI ballI)
    show "map pl_itemKey (planDraftRestore legacy items servers records) = map fst items" by (simp add: planDraftRestore_def keys)
  next
    fix e assume "e \<in> set (planDraftRestore legacy items servers records)"
    then obtain key itemId where "e = plan_item legacy servers records (key, itemId)" by (auto simp: planDraftRestore_def)
    note e = one [OF this]
    show "(pl_record e \<noteq> None) = (pl_disposition e = Recoverable)" using e by (rule conjunct1)
    show "\<forall>r. pl_record e = Some r \<longrightarrow>
       r \<in> set records \<and> rr_itemKey r = pl_itemKey e \<and>
       (\<exists>s \<in> set servers. pl_serverItem e = Some s \<and> si_id s = rr_itemId r \<and> si_state s \<in> {Si_awaiting_upload, Si_failed} \<and> \<not> legacy s \<and>
         (\<forall>c \<in> set (si_components s). sc_state c \<in> {Sc_received, Sc_verified} \<or>
            (\<exists>local \<in> set (rr_components r). rc_componentId local = sc_id c \<and> rc_byteSize local = sc_byteSize c)))" using e by (rule conjunct2)
  qed
qed

section \<open>Two saves at once\<close>

definition sample_recovery :: "string \<Rightarrow> recovery_record" where
  "sample_recovery key =
     \<lparr>rr_accountId = js ''user-0123456789abcdef0123456789abcdef'', rr_draftId = js ''work-draft-0123456789abcdef0123456789abcdef'',
      rr_itemKey = js key, rr_itemId = js ''media-item-0123456789abcdef0123456789abcdef'', rr_kind = Kind_static, rr_qualityMode = Original,
      rr_components = [\<lparr>rc_role = Role_still, rc_componentId = js ''media-component-0123456789abcdef0123456789abcdef'',
        rc_contentType = js ''image/jpeg'', rc_standardOutcome = H_undefined, rc_blob = 1, rc_byteSize = 8\<rparr>], rr_savedAt = Finite 0\<rparr>"

definition sample_db :: idb where
  "sample_db = \<lparr>db_items = [([js ''z''], H_null)], db_sizes = [([js ''z''], number_value (of_nat RECOVERY_MAX_TOTAL_BYTES - 10))]\<rparr>"

definition sample_answers :: save_answers where
  "sample_answers = \<lparr>sv_estimate = Some (Some 1000, Some 0), sv_failsTotal = False, sv_failsPut = False, sv_failsGet = False, sv_failsDelete = False,
     sv_tail = \<lambda>b. Some 1\<rparr>"

lemma sample_recovery_ok: "record_ok (sample_recovery ''a'') \<and> record_ok (sample_recovery ''b'') \<and>
    validIdentity (rr_accountId (sample_recovery k)) (rr_draftId (sample_recovery k))"
proof -
  have "hex_id ''user-'' (js ''user-0123456789abcdef0123456789abcdef'')" "hex_id ''work-draft-'' (js ''work-draft-0123456789abcdef0123456789abcdef'')"
    "hex_id ''media-item-'' (js ''media-item-0123456789abcdef0123456789abcdef'')"
    "hex_id ''media-component-'' (js ''media-component-0123456789abcdef0123456789abcdef'')" by code_simp+
  moreover have "item_key_ok (js ''a'')" "item_key_ok (js ''b'')" by code_simp+
  ultimately show ?thesis by (simp add: record_ok_def sample_recovery_def component_ok_def validIdentity_def)
qed

lemma sample_admitted:
  "totalBytes db + 8 \<le> of_nat RECOVERY_MAX_TOTAL_BYTES \<Longrightarrow> k = ''a'' \<or> k = ''b'' \<Longrightarrow> save_admitted sample_answers (sample_recovery k) db"
  using sample_recovery_ok [of k] by (auto simp: save_admitted_def save_asks_def save_room_def record_written sample_answers_def RECOVERY_QUOTA_FRACTION_def)
    (simp_all add: recordBytes_def sample_recovery_def)

text \<open>The total is read before the record is put: two saves under way at once are both admitted and pass it together.\<close>

lemma two_saves_pass_the_total:
  "save_admitted sample_answers (sample_recovery ''a'') sample_db \<and> save_admitted sample_answers (sample_recovery ''b'') sample_db \<and>
   totalBytes (backend_put (recovery_key (sample_recovery ''b'')) (sample_recovery ''b'') 8
     (backend_put (recovery_key (sample_recovery ''a'')) (sample_recovery ''a'') 8 sample_db)) > of_nat RECOVERY_MAX_TOTAL_BYTES"
proof -
  have total: "totalBytes sample_db = of_nat RECOVERY_MAX_TOTAL_BYTES - 10" by (simp add: totalBytes_def sample_db_def)
  have "recovery_key (sample_recovery ''a'') < [js ''z'']" "recovery_key (sample_recovery ''b'') < [js ''z'']"
    "recovery_key (sample_recovery ''a'') < recovery_key (sample_recovery ''b'')"
    by (simp_all add: recovery_key_def sample_recovery_def js_def)
  then have "totalBytes (backend_put (recovery_key (sample_recovery ''b'')) (sample_recovery ''b'') 8
     (backend_put (recovery_key (sample_recovery ''a'')) (sample_recovery ''a'') 8 sample_db)) = totalBytes sample_db + 16"
    by (auto simp: totalBytes_def backend_put_def sample_db_def)
  then show ?thesis using sample_admitted [of sample_db] total by simp
qed

section \<open>Examples\<close>

definition empty_db :: idb where "empty_db = \<lparr>db_items = [], db_sizes = []\<rparr>"

lemma empty_db_ok: "idb_ok empty_db" "totalBytes empty_db = 0"
  by (simp_all add: idb_ok_def empty_db_def store_ok_def totalBytes_def)

definition saved_db :: idb where
  "saved_db = backend_put (recovery_key (sample_recovery ''a'')) (sample_recovery ''a'') 8 empty_db"

lemma sample_saved: "save_record (\<lambda>_ d. d) sample_answers (sample_recovery ''a'') empty_db = (True, saved_db)"
proof -
  have admitted: "save_admitted sample_answers (sample_recovery ''a'') empty_db"
    by (rule sample_admitted) (simp_all add: empty_db_ok RECOVERY_MAX_TOTAL_BYTES_def)
  have read: "parseRecoveryRecord (record_value (sample_recovery ''a'')) (rr_accountId (sample_recovery ''a'')) (rr_draftId (sample_recovery ''a'')) = Some (sample_recovery ''a'')"
    using sample_recovery_ok by (simp add: record_written)
  have bytes: "recordBytes (sample_recovery ''a'') = 8" by (simp add: recordBytes_def sample_recovery_def)
  have got: "backend_get (recovery_key (sample_recovery ''a'')) saved_db = record_value (sample_recovery ''a'')"
    by (simp add: backend_get_def saved_db_def backend_put_def empty_db_def)
  have tails: "tails_read (sv_tail sample_answers) (rr_components (sample_recovery ''a'')) = Some True"
    by (simp add: sample_answers_def sample_recovery_def)
  have "save_checked (\<lambda>_ d. d) sample_answers (sample_recovery ''a'') saved_db = (True, saved_db)"
    using read got tails by (simp add: save_checked_def Let_def) (simp add: sample_answers_def)
  then show ?thesis using admitted bytes by (simp add: save_record_def save_admitted_def saved_db_def) (simp add: sample_answers_def)
qed

lemma save_sound_witness:
  "idb_ok saved_db \<and> totalBytes saved_db \<le> of_nat RECOVERY_MAX_TOTAL_BYTES \<and>
   sample_recovery ''a'' \<in> set (fst (list_records (rr_accountId (sample_recovery ''a'')) (rr_draftId (sample_recovery ''a'')) saved_db))"
  using save_sound [OF empty_db_ok(1) _ sample_saved] by (simp add: empty_db_ok)

lemma saved_db_listed:
  "idb_ok saved_db" "sample_recovery ''a'' \<in> set (fst (list_records (rr_accountId (sample_recovery ''a'')) (rr_draftId (sample_recovery ''a'')) saved_db))"
proof -
  have r: "record_ok (sample_recovery ''a'')" "validIdentity (rr_accountId (sample_recovery ''a'')) (rr_draftId (sample_recovery ''a''))"
    using sample_recovery_ok by blast+
  show ok: "idb_ok saved_db" unfolding saved_db_def by (rule backend_put_ok(1) [OF empty_db_ok(1)])
  have "map_of (db_items saved_db) (recovery_key (sample_recovery ''a'')) = Some (record_value (sample_recovery ''a''))"
    by (simp add: saved_db_def backend_put_def empty_db_def)
  then show "sample_recovery ''a'' \<in> set (fst (list_records (rr_accountId (sample_recovery ''a'')) (rr_draftId (sample_recovery ''a'')) saved_db))"
    by (intro listed_iff [OF ok r(2), where i = "rr_itemKey (sample_recovery ''a'')"]) (simp_all add: r recovery_key_def)
qed

lemma list_sound_witness:
  "record_ok (sample_recovery ''a'') \<and> idb_ok (snd (list_records (rr_accountId (sample_recovery ''a'')) (rr_draftId (sample_recovery ''a'')) saved_db))"
  using list_sound [OF saved_db_listed] by blast

lemma plan_sound_witness:
  "map pl_itemKey (planDraftRestore (\<lambda>s. False) [(js ''a'', Some (js ''i'')), (js ''b'', None)] [] []) = [js ''a'', js ''b'']"
  using plan_sound [of "\<lambda>s. False" "[(js ''a'', Some (js ''i'')), (js ''b'', None)]" "[]" "[]"] by simp

end
