(* ===== verification/RestoreGuarantees.thy ===== *)
theory RestoreGuarantees
  imports UploadRestore RecoveryGuarantees
begin

text \<open>
  Reopening a draft loses nothing of it: the items of the manager are the items of the draft's content, whatever the account
  and this browser still have of them.
\<close>

section \<open>What a restore leaves of a view\<close>

definition shape :: "item_view \<Rightarrow> draft_item \<times> bool" where
  "shape v =
     (\<lparr>di_key = iv_key v, di_itemId = iv_itemId v, di_kind = iv_kind v, di_qualityMode = iv_qualityMode v, di_clipboard = iv_notCameraOriginal v\<rparr>,
      iv_phase v \<notin> {Cancelled, Cleanup})"

definition shapes :: "uploads \<Rightarrow> (key \<times> nat) list \<times> (draft_item \<times> bool) list" where
  "shapes st = (up_records st, map (shape \<circ> ir_view) (up_heap st))"

named_theorems shape_keeps \<open>operations that keep the shapes\<close>

lemma shape_fold: "(\<And>x st. shapes (f x st) = shapes st) \<Longrightarrow> shapes (fold f xs st) = shapes st"
  by (induction xs arbitrary: st) simp_all

lemma shapes_upd: "shape (ir_view (f (rec_of st u))) = shape (view_of st u) \<Longrightarrow> shapes (upd u f st) = shapes st"
proof -
  assume keep: "shape (ir_view (f (rec_of st u))) = shape (view_of st u)"
  have "map (shape \<circ> ir_view) ((up_heap st)[u := f (rec_of st u)]) = map (shape \<circ> ir_view) (up_heap st)"
  proof (cases "u < length (up_heap st)")
    case True
    have "map (shape \<circ> ir_view) ((up_heap st)[u := f (rec_of st u)]) = (map (shape \<circ> ir_view) (up_heap st))[u := shape (ir_view (f (rec_of st u)))]"
      by (simp add: map_update)
    also have "\<dots> = map (shape \<circ> ir_view) (up_heap st)" unfolding keep using True by (intro list_update_same_conv [THEN iffD2]) simp_all
    finally show ?thesis .
  qed (simp add: list_update_beyond)
  then show ?thesis by (simp add: shapes_def upd_def)
qed

lemma shapes_patch: "shape (f (view_of st u)) = shape (view_of st u) \<Longrightarrow> shapes (patch u f st) = shapes st"
  unfolding patch_def by (rule shapes_upd) simp

lemma shapes_simple [shape_keeps]:
  "shapes (patchComponent u rl g st) = shapes st" "shapes (stopPolling u st) = shapes st" "shapes (schedulePoll u st) = shapes st"
  "shapes (note_call w call st) = shapes st"
  by (simp_all add: patchComponent_def shapes_patch shape_def stopPolling_def schedulePoll_def shapes_upd note_call_def shapes_def [of "_\<lparr>up_calls := _\<rparr>"])
    (simp add: shapes_def)

lemma phase_of_live: "phase_of ps \<notin> {Cancelled, Cleanup}"
  by (simp add: phase_of_def)

lemma shapes_derivePhase [shape_keeps]: "shapes (derivePhase u st) = shapes st"
proof (cases "phase_kept (view_of st u)")
  case False
  then have "iv_phase (view_of st u) \<notin> {Cancelled, Cleanup}" by (auto simp: phase_kept_def is_terminal_def)
  then have patched: "shapes (patch u (\<lambda>v. v\<lparr>iv_phase := p, iv_failure := h\<rparr>) st) = shapes st" if "p \<notin> {Cancelled, Cleanup}" for p h
    using that by (intro shapes_patch) (simp add: shape_def)
  show ?thesis using phase_of_live by (simp add: derivePhase_def Let_def shape_keeps patched)
qed (simp add: derivePhase_def)

lemma shapes_forget [shape_keeps]: "shapes (forgetLocalCopy w u st) = shapes st"
  by (simp add: forgetLocalCopy_def Let_def shape_keeps shapes_patch shape_def split: option.split)

lemma shapes_merge [shape_keeps]: "shapes (merge_component u keep server st) = shapes st"
  by (simp add: merge_component_def shape_keeps split: option.split)

lemma shapes_restored [shape_keeps]: "shapes (restored_component u server disposition c st) = shapes st"
  by (simp add: restored_component_def shape_keeps)

lemma shapes_at: "shapes st' = shapes st \<Longrightarrow> u < length (up_heap st) \<Longrightarrow> shape (view_of st' u) = shape (view_of st u)"
proof -
  assume eq: "shapes st' = shapes st" and u: "u < length (up_heap st)"
  then have maps: "map (shape \<circ> ir_view) (up_heap st') = map (shape \<circ> ir_view) (up_heap st)" by (simp add: shapes_def)
  then have "u < length (up_heap st')" using u by (metis length_map)
  then show ?thesis using arg_cong [OF maps, of "\<lambda>xs. xs ! u"] u by simp
qed

lemma shapes_live_patch:
  assumes "shapes st' = shapes st" "u < length (up_heap st)" "iv_phase (view_of st u) \<notin> {Cancelled, Cleanup}" "p \<notin> {Cancelled, Cleanup}"
  shows "shapes (patch u (\<lambda>v. v\<lparr>iv_phase := p\<rparr>) st') = shapes st" "shapes (patch u (\<lambda>v. v\<lparr>iv_phase := p, iv_failure := h\<rparr>) st') = shapes st"
proof -
  have "iv_phase (view_of st' u) \<notin> {Cancelled, Cleanup}" using shapes_at [OF assms(1,2)] assms(3) by (simp add: shape_def)
  then have "shapes (patch u (\<lambda>v. v\<lparr>iv_phase := p\<rparr>) st') = shapes st'" "shapes (patch u (\<lambda>v. v\<lparr>iv_phase := p, iv_failure := h\<rparr>) st') = shapes st'"
    using assms(4) by (intro shapes_patch; simp add: shape_def)+
  then show "shapes (patch u (\<lambda>v. v\<lparr>iv_phase := p\<rparr>) st') = shapes st" "shapes (patch u (\<lambda>v. v\<lparr>iv_phase := p, iv_failure := h\<rparr>) st') = shapes st"
    using assms(1) by simp_all
qed

lemma shapes_apply:
  assumes "u < length (up_heap st)" "iv_phase (view_of st u) \<notin> {Cancelled, Cleanup}" "iv_itemId (view_of st u) = Some (si_id item)"
    "si_state item \<notin> {Si_cancelled, Si_purged}"
  shows "shapes (applyServerItem w u item ctx keep st) = shapes st"
proof -
  define st1 where "st1 = fold (merge_component u keep) (si_components item) (patch u (\<lambda>v. v\<lparr>iv_serverItem := Some item, iv_itemId := Some (si_id item)\<rparr>) st)"
  have "shapes (patch u (\<lambda>v. v\<lparr>iv_serverItem := Some item, iv_itemId := Some (si_id item)\<rparr>) st) = shapes st"
    by (rule shapes_patch) (simp add: shape_def assms(3))
  then have st1: "shapes st1 = shapes st" unfolding st1_def by (simp add: shape_fold shape_keeps)
  have stop: "shapes (stopPolling u st1) = shapes st" by (simp add: shape_keeps st1)
  note live = shapes_live_patch [OF st1 assms(1,2)] shapes_live_patch [OF stop assms(1,2)]
  have drop: "shapes (upd u (\<lambda>r. r\<lparr>ir_prepared := None, ir_hashes := h\<rparr>) st') = shapes st'" for h st' by (rule shapes_upd) simp
  show ?thesis unfolding applyServerItem_def Let_def st1_def [symmetric]
    using assms(4) by (cases "si_state item") (simp_all add: shape_keeps live drop st1)
qed

section \<open>Reopening a draft\<close>

lemma shapes_append:
  "shapes (append_record k r st) = (up_records st @ [(k, length (up_heap st))], map (shape \<circ> ir_view) (up_heap st) @ [shape (ir_view r)])"
  by (simp add: append_record_def shapes_def)

lemma plan_server:
  assumes "e = plan_item legacy servers records (k, i)"
  shows "pl_itemKey e = k" "pl_serverItem e = Some s \<Longrightarrow> i = Some (si_id s)"
    "pl_serverItem e = Some s \<Longrightarrow> pl_disposition e \<noteq> Unavailable \<Longrightarrow> si_state s \<notin> {Si_cancelled, Si_purged}"
  using assms by (auto simp: plan_item_def Let_def find_Some_iff split: option.splits if_splits)

text \<open>One entry of the plan adds exactly its item.\<close>

lemma restore_entry_adds:
  assumes "e = plan_item legacy servers records (di_key content, di_itemId content)" "lookup_record st (di_key content) = None"
    "find (\<lambda>i. di_key i = di_key content) (rd_items d) = Some content"
  shows "shapes (restore_entry w d e st) =
    (up_records st @ [(di_key content, length (up_heap st))], map (shape \<circ> ir_view) (up_heap st) @ [(content, True)])"
proof -
  note plan = plan_server [OF assms(1)]
  define u where "u = length (up_heap st)"
  define st1 where "st1 = append_record (di_key content) (draft_record d content e) st"
  have view: "view_of st1 u = ir_view (draft_record d content e)" by (simp add: st1_def append_record_def u_def)
  have "shape (ir_view (draft_record d content e)) = (content, True)" using plan(1) by (cases content) (simp add: draft_record_def shape_def Let_def)
  then have st1: "shapes st1 = (up_records st @ [(di_key content, length (up_heap st))], map (shape \<circ> ir_view) (up_heap st) @ [(content, True)])"
    by (simp add: st1_def shapes_append)
  have u: "u < length (up_heap st1)" by (simp add: st1_def append_record_def u_def)
  have live: "iv_phase (view_of st1 u) \<notin> {Cancelled, Cleanup}" by (simp add: view draft_record_def Let_def)
  have id: "iv_itemId (view_of st1 u) = di_itemId content" by (simp add: view draft_record_def Let_def)
  have "shapes (restore_entry w d e st) = shapes st1"
  proof (cases "pl_disposition e = Unavailable")
    case True
    have "shapes (fail u (up_failure ''unavailable'' False) st1) = shapes st1"
      unfolding fail_def by (rule shapes_live_patch(2) [OF refl u live]) simp
    then show ?thesis using True plan(1) assms(2,3) by (simp add: restore_entry_def st1_def u_def Let_def)
  next
    case available: False
    show ?thesis
    proof (cases "pl_serverItem e")
      case None
      then show ?thesis using available plan(1) assms(2,3) by (simp add: restore_entry_def st1_def Let_def)
    next
      case (Some s)
      have applied: "shapes (applyServerItem w u s False None st1) = shapes st1"
        by (rule shapes_apply [OF u live]) (use plan(2,3) [OF Some] available id in simp_all)
      have "shapes (fold (restored_component u s disposition) cs st') = shapes st'" for disposition cs st' by (rule shape_fold) (rule shape_keeps)
      then have "shapes (derivePhase u (fold (restored_component u s disposition) cs (applyServerItem w u s False None st1))) = shapes st1" for disposition cs
        by (simp add: shape_keeps applied)
      then show ?thesis using available Some plan(1) assms(2,3) applied by (simp add: restore_entry_def st1_def [symmetric] u_def [symmetric] Let_def)
    qed
  qed
  then show ?thesis by (simp add: st1)
qed

lemma draftItems_shapes:
  assumes "snd (shapes st) = map (\<lambda>c. (c, True)) cs" "map snd (up_records st) = [0..<length cs]"
  shows "draftItems st = cs"
proof -
  have len: "length (up_heap st) = length cs" using arg_cong [OF assms(1), of length] by (simp add: shapes_def)
  have at: "shape (view_of st u) = (cs ! u, True)" if "u < length cs" for u
    using arg_cong [OF assms(1), of "\<lambda>xs. xs ! u"] that len by (simp add: shapes_def)
  then have "iv_phase (view_of st u) \<notin> {Cancelled, Cleanup}" if "u < length cs" for u using that by (force simp: shape_def)
  then have "filter (\<lambda>u. iv_phase (view_of st u) \<notin> {Cancelled, Cleanup}) [0..<length cs] = [0..<length cs]" by (intro filter_True) simp
  then have "draftItems st = map (\<lambda>u. fst (shape (view_of st u))) [0..<length cs]"
    by (simp add: draftItems_def live_records_def assms(2) shape_def Let_def)
  also have "\<dots> = map ((!) cs) [0..<length cs]" using at by (intro map_cong) simp_all
  finally show ?thesis by (simp add: map_nth)
qed

text \<open>C38: Reopening a draft in an empty manager: whatever the account answers about its items and whatever was stored in this
  browser, the content of the draft is unchanged, item by item, so saving it again loses nothing.\<close>

lemma reopened_draft_kept:
  assumes "up_records st = []" "up_heap st = []" "distinct (map di_key (rd_items d))"
  shows "draftItems (restore_listed w d recovery records st) = rd_items d"
proof -
  let ?plan = "plan_item (\<lambda>s. si_id s \<in> set (rd_legacy d)) (rd_servers d) records"
  let ?entry = "\<lambda>c. ?plan (di_key c, di_itemId c)"
  have walk: "snd (shapes (fold (restore_entry w d) (map ?entry cs) st')) = map (\<lambda>c. (c, True)) (before @ cs) \<and>
      map fst (up_records (fold (restore_entry w d) (map ?entry cs) st')) = map di_key (before @ cs) \<and>
      map snd (up_records (fold (restore_entry w d) (map ?entry cs) st')) = [0..<length (before @ cs)]"
    if "snd (shapes st') = map (\<lambda>c. (c, True)) before" "map fst (up_records st') = map di_key before" "map snd (up_records st') = [0..<length before]"
      "rd_items d = before @ cs" for cs before st'
    using that
  proof (induction cs arbitrary: before st')
    case (Cons c cs)
    have new: "di_key c \<notin> di_key ` set before" using Cons.prems(4) assms(3) by auto
    then have lookup: "lookup_record st' (di_key c) = None"
      using Cons.prems(2) by (metis image_set lookup_record_def map_of_eq_None_iff)
    have found: "find (\<lambda>i. di_key i = di_key c) (rd_items d) = Some c"
    proof -
      have "find (\<lambda>i. di_key i = di_key c) (before @ c # cs) = Some c" using new by (induction before) auto
      then show ?thesis using Cons.prems(4) by simp
    qed
    note one = restore_entry_adds [OF refl lookup found, of w "\<lambda>s. si_id s \<in> set (rd_legacy d)" "rd_servers d" records]
    have heap: "length (up_heap st') = length before" using arg_cong [OF Cons.prems(1), of length] by (simp add: shapes_def)
    have "snd (shapes (restore_entry w d (?entry c) st')) = map (\<lambda>c. (c, True)) (before @ [c])" using one Cons.prems(1) by (simp add: shapes_def)
    moreover have records: "up_records (restore_entry w d (?entry c) st') = up_records st' @ [(di_key c, length before)]"
      using one heap by (simp add: shapes_def)
    ultimately show ?case using Cons.IH [of "restore_entry w d (?entry c) st'" "before @ [c]"] Cons.prems(2-4) by simp
  qed simp
  have noted: "up_records (fold (\<lambda>r. note_call w (Call_remove i (rr_itemKey r))) rs st) = [] \<and> up_heap (fold (\<lambda>r. note_call w (Call_remove i (rr_itemKey r))) rs st) = []"
    for i and rs :: "recovery_record list"
    using assms(1,2) by (induction rs arbitrary: st) (simp_all add: note_call_def)
  have plan: "planDraftRestore (\<lambda>s. si_id s \<in> set (rd_legacy d)) (map (\<lambda>i. (di_key i, di_itemId i)) (rd_items d)) (rd_servers d) records = map ?entry (rd_items d)"
    by (simp add: planDraftRestore_def)
  have "draftItems (fold (restore_entry w d) (map ?entry (rd_items d)) st') = rd_items d" if "up_records st' = [] \<and> up_heap st' = []" for st'
    using walk [of st' "[]" "rd_items d"] that by (intro draftItems_shapes) (simp_all add: shapes_def)
  then show ?thesis using noted assms(1,2) by (simp add: restore_listed_def plan Let_def)
qed

definition sample_draft_items :: "draft_item list" where
  "sample_draft_items =
     [\<lparr>di_key = js ''a'', di_itemId = Some (js ''i1''), di_kind = Kind_live, di_qualityMode = Standard, di_clipboard = False\<rparr>,
      \<lparr>di_key = js ''b'', di_itemId = None, di_kind = Kind_static, di_qualityMode = Original, di_clipboard = True\<rparr>]"

lemma reopened_draft_kept_witness:
  "\<forall>w servers. draftItems (restore_listed w \<lparr>rd_id = js ''d'', rd_items = sample_draft_items, rd_servers = servers, rd_legacy = []\<rparr> True [] new_upload_manager) =
     sample_draft_items"
proof (intro allI)
  fix w servers
  show "draftItems (restore_listed w \<lparr>rd_id = js ''d'', rd_items = sample_draft_items, rd_servers = servers, rd_legacy = []\<rparr> True [] new_upload_manager) =
     sample_draft_items"
    by (subst reopened_draft_kept) (simp_all add: new_upload_manager_def sample_draft_items_def)
qed

text \<open>\<open>restoreCheckpoint\<close> does not look whether its item is still the one it added: a read that turns out stale, because
  the item was cancelled meanwhile, marks the item as failed and as one whose outcome is unknown.\<close>

lemma late_restore_revives:
  assumes "u < length (up_heap st)" "iv_phase (view_of st u) = Cancelled"
  shows "iv_phase (view_of (restored_read w u F_null st) u) = Failed_item"
  using assms by (simp add: restored_read_def gone_for_good_def fail_def patch_def upd_def)

end
