(* ===== verification/ProductHistory.thy ===== *)
theory ProductHistory
  imports PublishingText StructuredClone
begin

text \<open>
  The browser history of the product shell (\<open>apps/web/features/product-shell/product-history.ts\<close>): the state stored with
  a history entry, the reader that accepts what the browser hands back, and the links of the entries. A \<open>Location\<close> is its path, the pairs
  \<open>URLSearchParams\<close> reads from its query, and its hash; a link is the \<open>Location\<close> it opens.
\<close>

section \<open>States\<close>

datatype primary_destination = Home | Discussion | User_page

datatype content_target = Catalog_target jstr | Work_target jstr

datatype editor_target = New_target "jstr option" | Draft_target jstr | Existing_target jstr

text \<open>The tab of a profile is the value that was read, which \<open>String\<close> turned into a tab's name.\<close>

datatype product_history =
    Primary_state primary_destination "jstr option" "jstr option" "rat option"
  | Detail_state content_target rat primary_destination rat
  | Viewer_state content_target rat jstr primary_destination rat
  | Settings_state primary_destination
  | Topic_state rat jstr
  | Profile_state "jstr option" jstr hvalue rat primary_destination rat
  | Editor_state editor_target primary_destination rat

definition PRODUCT_SHELL_HISTORY_VERSION :: rat where "PRODUCT_SHELL_HISTORY_VERSION = 2"

fun destination_name :: "primary_destination \<Rightarrow> jstr" where
  "destination_name Home = js ''home''"
| "destination_name Discussion = js ''discussion''"
| "destination_name User_page = js ''user''"

definition as_destination :: "hvalue \<Rightarrow> primary_destination option" where
  "as_destination v =
     (if v = H_string (js ''home'') then Some Home else if v = H_string (js ''discussion'') then Some Discussion
      else if v = H_string (js ''user'') then Some User_page else None)"

definition boundedScrollTop :: "js_number \<Rightarrow> rat" where
  "boundedScrollTop n = (case n of Finite r \<Rightarrow> max 0 r | _ \<Rightarrow> 0)"

definition nonempty_id :: "jstr option \<Rightarrow> jstr option" where
  "nonempty_id i = (case i of Some s \<Rightarrow> if s = [] then None else Some s | None \<Rightarrow> None)"

definition primaryHistoryState :: "primary_destination \<Rightarrow> js_number option \<Rightarrow> jstr option \<Rightarrow> jstr option \<Rightarrow> product_history" where
  "primaryHistoryState destination scrollTop focusTopicId focusCatalogId =
     Primary_state destination (nonempty_id focusCatalogId) (if destination = Discussion then nonempty_id focusTopicId else None)
       (map_option boundedScrollTop scrollTop)"

definition detailHistoryState :: "content_target \<Rightarrow> primary_destination \<Rightarrow> js_number \<Rightarrow> js_number \<Rightarrow> product_history" where
  "detailHistoryState target sourceDestination sourceScrollTop detailScrollTop =
     Detail_state target (boundedScrollTop detailScrollTop) sourceDestination (boundedScrollTop sourceScrollTop)"

definition viewerHistoryState :: "content_target \<Rightarrow> jstr \<Rightarrow> primary_destination \<Rightarrow> js_number \<Rightarrow> js_number \<Rightarrow> product_history" where
  "viewerHistoryState target mediaId sourceDestination sourceScrollTop detailScrollTop =
     Viewer_state target (boundedScrollTop detailScrollTop) mediaId sourceDestination (boundedScrollTop sourceScrollTop)"

definition settingsHistoryState :: "primary_destination \<Rightarrow> product_history" where
  "settingsHistoryState sourceDestination = Settings_state sourceDestination"

definition topicHistoryState :: "jstr \<Rightarrow> js_number \<Rightarrow> product_history" where
  "topicHistoryState topicId sourceScrollTop = Topic_state (boundedScrollTop sourceScrollTop) topicId"

definition profileHistoryState :: "jstr option \<Rightarrow> jstr \<Rightarrow> hvalue \<Rightarrow> js_number \<Rightarrow> primary_destination \<Rightarrow> js_number \<Rightarrow> product_history" where
  "profileHistoryState authorId entryId tab scroll sourceDestination sourceScrollTop =
     Profile_state authorId entryId tab (boundedScrollTop scroll) sourceDestination (boundedScrollTop sourceScrollTop)"

definition editorHistoryState :: "editor_target \<Rightarrow> primary_destination \<Rightarrow> js_number \<Rightarrow> product_history" where
  "editorHistoryState editorTarget sourceDestination sourceScrollTop =
     Editor_state editorTarget sourceDestination (boundedScrollTop sourceScrollTop)"

section \<open>Storing a state\<close>

definition destination_value :: "primary_destination \<Rightarrow> hvalue" where "destination_value d = H_string (destination_name d)"

fun target_value :: "content_target \<Rightarrow> hvalue" where
  "target_value (Catalog_target i) = H_object [key_value ''type'' (H_string (js ''catalog'')), key_value ''id'' (H_string i)]"
| "target_value (Work_target i) = H_object [key_value ''type'' (H_string (js ''work'')), key_value ''id'' (H_string i)]"

fun editor_value :: "editor_target \<Rightarrow> hvalue" where
  "editor_value (New_target t) = H_object (key_value ''type'' (H_string (js ''new'')) # optional_field ''threadId'' (map_option H_string t))"
| "editor_value (Draft_target i) = H_object [key_value ''type'' (H_string (js ''draft'')), key_value ''id'' (H_string i)]"
| "editor_value (Existing_target i) = H_object [key_value ''type'' (H_string (js ''work'')), key_value ''id'' (H_string i)]"

definition kind_version :: "string \<Rightarrow> fields" where
  "kind_version kind = [key_value ''kind'' (H_string (js kind)), key_value ''version'' (number_value PRODUCT_SHELL_HISTORY_VERSION)]"

fun state_fields :: "product_history \<Rightarrow> fields" where
  "state_fields (Primary_state d cat topic scroll) =
     key_value ''destination'' (destination_value d) # optional_field ''focusCatalogId'' (map_option H_string cat) @
     optional_field ''focusTopicId'' (map_option H_string topic) @ optional_field ''scrollTop'' (map_option number_value scroll) @ kind_version ''primary''"
| "state_fields (Detail_state t detail d source) =
     [key_value ''target'' (target_value t), key_value ''detailScrollTop'' (number_value detail), key_value ''sourceDestination'' (destination_value d),
      key_value ''sourceScrollTop'' (number_value source)] @ kind_version ''detail''"
| "state_fields (Viewer_state t detail media d source) =
     [key_value ''target'' (target_value t), key_value ''detailScrollTop'' (number_value detail), key_value ''mediaId'' (H_string media),
      key_value ''sourceDestination'' (destination_value d), key_value ''sourceScrollTop'' (number_value source)] @ kind_version ''viewer''"
| "state_fields (Settings_state d) = key_value ''sourceDestination'' (destination_value d) # kind_version ''settings''"
| "state_fields (Topic_state source topic) =
     [key_value ''sourceDestination'' (destination_value Discussion), key_value ''sourceHomeFeed'' (H_string (js ''topics'')),
      key_value ''sourceScrollTop'' (number_value source), key_value ''topicId'' (H_string topic)] @ kind_version ''topic''"
| "state_fields (Profile_state author entry tab scroll d source) =
     [key_value ''authorId'' (case author of None \<Rightarrow> H_null | Some a \<Rightarrow> H_string a), key_value ''entryId'' (H_string entry), key_value ''tab'' tab,
      key_value ''profileScrollTop'' (number_value scroll), key_value ''sourceDestination'' (destination_value d),
      key_value ''sourceScrollTop'' (number_value source)] @ kind_version ''profile''"
| "state_fields (Editor_state t d source) =
     [key_value ''editorTarget'' (editor_value t), key_value ''sourceDestination'' (destination_value d),
      key_value ''sourceScrollTop'' (number_value source)] @ kind_version ''editor''"

definition productHistoryKeys :: "jstr list" where
  "productHistoryKeys = map js [''target'', ''editorTarget'', ''authorId'', ''entryId'', ''tab'', ''profileScrollTop'', ''destination'', ''catalogId'',
     ''detailScrollTop'', ''focusCatalogId'', ''focusTopicId'', ''kind'', ''mediaId'', ''scrollTop'', ''sourceDestination'', ''sourceHomeFeed'',
     ''sourceScrollTop'', ''topicId'', ''version'']"

text \<open>What the runtime keeps in the entry stays, but for the keys of the product; an array keeps nothing.\<close>

definition mergeProductHistoryState :: "hvalue \<Rightarrow> product_history \<Rightarrow> hvalue" where
  "mergeProductHistoryState runtimeState productState =
     H_object (filter (\<lambda>e. fst e \<notin> set productHistoryKeys) (fields_of runtimeState) @ state_fields productState)"

section \<open>Reading a state\<close>

definition scroll_value :: "hvalue \<Rightarrow> rat option" where
  "scroll_value v = (case v of H_number (Finite r) \<Rightarrow> if 0 \<le> r then Some r else None | _ \<Rightarrow> None)"

text \<open>\<open>String(tab)\<close> as far as it can be the name of a tab: a string, or an array of one value, which is written as that
  value is. Every longer array has a comma, every other value another text.\<close>

fun tab_text :: "hvalue \<Rightarrow> jstr option" where
  "tab_text (H_string s) = Some s"
| "tab_text (H_array [v]) = tab_text v"
| "tab_text v = None"

definition PROFILE_TABS :: "jstr list" where
  "PROFILE_TABS = map js [''works'', ''favorites'', ''likes'', ''history'', ''comments'']"

definition tab_ok :: "hvalue \<Rightarrow> bool" where
  "tab_ok v \<longleftrightarrow> (case tab_text v of None \<Rightarrow> False | Some s \<Rightarrow> s \<in> set PROFILE_TABS)"

definition identifier_ok :: "jstr \<Rightarrow> bool" where
  "identifier_ok s \<longleftrightarrow> s \<noteq> [] \<and> length s \<le> 128 \<and> \<not> list_ex is_js_space s"

definition parseTarget :: "hvalue \<Rightarrow> content_target option" where
  "parseTarget v =
     (if \<not> is_object v then None
      else case string_value (field (fields_of v) ''id'') of
        None \<Rightarrow> None
      | Some i \<Rightarrow>
          (if \<not> identifier_ok i then None
           else if field (fields_of v) ''type'' = H_string (js ''catalog'') then Some (Catalog_target i)
           else if field (fields_of v) ''type'' = H_string (js ''work'') \<and> hex_id ''work-'' i then Some (Work_target i)
           else None))"

definition parseEditorTarget :: "hvalue \<Rightarrow> editor_target option" where
  "parseEditorTarget v =
     (if \<not> is_object v then None
      else if field (fields_of v) ''type'' = H_string (js ''new'') then
        (case string_value (field (fields_of v) ''threadId'') of
           Some t \<Rightarrow> Some (New_target (if hex_id ''thread-'' t then Some t else None))
         | None \<Rightarrow> Some (New_target None))
      else case string_value (field (fields_of v) ''id'') of
        None \<Rightarrow> None
      | Some i \<Rightarrow>
          (if field (fields_of v) ''type'' = H_string (js ''draft'') \<and> hex_id ''work-draft-'' i then Some (Draft_target i)
           else if field (fields_of v) ''type'' = H_string (js ''work'') \<and> hex_id ''work-'' i then Some (Existing_target i)
           else None))"

definition author_value :: "hvalue \<Rightarrow> jstr option option" where
  "author_value v = (case v of H_null \<Rightarrow> Some None | H_string s \<Rightarrow> if hex_id ''user-'' s then Some (Some s) else None | _ \<Rightarrow> None)"

definition parse_profile :: "fields \<Rightarrow> product_history option" where
  "parse_profile fs =
     (case (author_value (field fs ''authorId''), string_value (field fs ''entryId''), scroll_value (field fs ''profileScrollTop''),
            as_destination (field fs ''sourceDestination''), scroll_value (field fs ''sourceScrollTop'')) of
        (Some authorId, Some entryId, Some scroll, Some destination, Some source) \<Rightarrow>
          if entryId \<noteq> [] \<and> length entryId \<le> 128 \<and> tab_ok (field fs ''tab'')
          then Some (profileHistoryState authorId entryId (field fs ''tab'') (Finite scroll) destination (Finite source)) else None
      | _ \<Rightarrow> None)"

definition parse_editor :: "fields \<Rightarrow> product_history option" where
  "parse_editor fs =
     (case (parseEditorTarget (field fs ''editorTarget''), as_destination (field fs ''sourceDestination''), scroll_value (field fs ''sourceScrollTop'')) of
        (Some target, Some destination, Some source) \<Rightarrow> Some (editorHistoryState target destination (Finite source))
      | _ \<Rightarrow> None)"

text \<open>An optional field: absent, well-formed, or a reason to refuse.\<close>

definition optional_scroll :: "hvalue \<Rightarrow> rat option option" where
  "optional_scroll v = (if v = H_undefined then Some None else map_option Some (scroll_value v))"

definition optional_id :: "hvalue \<Rightarrow> jstr option option" where
  "optional_id v =
     (if v = H_undefined then Some None
      else case string_value v of Some s \<Rightarrow> if s = [] then None else Some (Some s) | None \<Rightarrow> None)"

definition parse_primary :: "primary_destination \<Rightarrow> fields \<Rightarrow> product_history option" where
  "parse_primary destination fs =
     (case optional_scroll (field fs ''scrollTop'') of
        None \<Rightarrow> None
      | Some scroll \<Rightarrow>
          (if field fs ''focusTopicId'' \<noteq> H_undefined \<and> destination \<noteq> Discussion then None
           else case optional_id (field fs ''focusTopicId'') of
             None \<Rightarrow> None
           | Some topic \<Rightarrow>
               (case optional_id (field fs ''focusCatalogId'') of
                  None \<Rightarrow> None
                | Some catalog \<Rightarrow> Some (primaryHistoryState destination (map_option Finite scroll) topic catalog))))"

definition history_target :: "fields \<Rightarrow> content_target option" where
  "history_target fs =
     (case parseTarget (field fs ''target'') of
        Some t \<Rightarrow> Some t
      | None \<Rightarrow>
          (case string_value (field fs ''catalogId'') of
             Some i \<Rightarrow> parseTarget (target_value (Catalog_target i))
           | None \<Rightarrow> None))"

definition parse_detail :: "fields \<Rightarrow> product_history option" where
  "parse_detail fs =
     (case (history_target fs, as_destination (field fs ''sourceDestination''), scroll_value (field fs ''sourceScrollTop''),
            scroll_value (field fs ''detailScrollTop'')) of
        (Some target, Some destination, Some source, Some detail) \<Rightarrow>
          Some (detailHistoryState target destination (Finite source) (Finite detail))
      | _ \<Rightarrow> None)"

definition parse_viewer :: "fields \<Rightarrow> product_history option" where
  "parse_viewer fs =
     (case (history_target fs, string_value (field fs ''mediaId''), as_destination (field fs ''sourceDestination''),
            scroll_value (field fs ''sourceScrollTop''), scroll_value (field fs ''detailScrollTop'')) of
        (Some target, Some media, Some destination, Some source, Some detail) \<Rightarrow>
          if media \<noteq> [] then Some (viewerHistoryState target media destination (Finite source) (Finite detail)) else None
      | _ \<Rightarrow> None)"

definition parse_topic :: "fields \<Rightarrow> product_history option" where
  "parse_topic fs =
     (case (string_value (field fs ''topicId''), scroll_value (field fs ''sourceScrollTop'')) of
        (Some topic, Some source) \<Rightarrow>
          if as_destination (field fs ''sourceDestination'') = Some Discussion \<and> field fs ''sourceHomeFeed'' = H_string (js ''topics'') \<and> topic \<noteq> []
          then Some (topicHistoryState topic (Finite source)) else None
      | _ \<Rightarrow> None)"

definition parseProductHistoryState :: "hvalue \<Rightarrow> product_history option" where
  "parseProductHistoryState v =
     (let fs = fields_of v; kind = field fs ''kind'' in
      if \<not> is_object v then None
      else if field fs ''version'' \<noteq> number_value PRODUCT_SHELL_HISTORY_VERSION \<and> field fs ''version'' \<noteq> number_value 1 then None
      else if kind = H_string (js ''profile'') then parse_profile fs
      else if kind = H_string (js ''editor'') then parse_editor fs
      else if kind = H_string (js ''primary'') then
        (case as_destination (field fs ''destination'') of None \<Rightarrow> None | Some d \<Rightarrow> parse_primary d fs)
      else if kind = H_string (js ''detail'') then parse_detail fs
      else if kind = H_string (js ''viewer'') then parse_viewer fs
      else if kind = H_string (js ''settings'') then map_option settingsHistoryState (as_destination (field fs ''sourceDestination''))
      else if kind = H_string (js ''topic'') then parse_topic fs
      else None)"

section \<open>Links\<close>

type_synonym parameters = "(jstr \<times> jstr) list"

record location =
  loc_pathname :: jstr
  loc_search :: parameters
  loc_hash :: jstr

text \<open>\<open>URLSearchParams\<close>: deleting a name, setting it (the first occurrence is replaced, the others go), and reading it.\<close>

definition param_delete :: "string \<Rightarrow> parameters \<Rightarrow> parameters" where
  "param_delete name ps = filter (\<lambda>e. fst e \<noteq> js name) ps"

fun param_set :: "string \<Rightarrow> jstr \<Rightarrow> parameters \<Rightarrow> parameters" where
  "param_set name v [] = [(js name, v)]"
| "param_set name v (e # es) = (if fst e = js name then (js name, v) # param_delete name es else e # param_set name v es)"

definition param_all :: "string \<Rightarrow> parameters \<Rightarrow> jstr list" where
  "param_all name ps = map snd (filter (\<lambda>e. fst e = js name) ps)"

definition param_has :: "string \<Rightarrow> parameters \<Rightarrow> bool" where
  "param_has name ps \<longleftrightarrow> param_all name ps \<noteq> []"

definition param_get :: "string \<Rightarrow> parameters \<Rightarrow> jstr option" where
  "param_get name ps = (case param_all name ps of [] \<Rightarrow> None | v # vs \<Rightarrow> Some v)"

definition product_parameters :: "string list" where
  "product_parameters = [''catalogId'', ''workId'', ''authorId'', ''draftId'', ''image'']"

definition drop_product_parameters :: "parameters \<Rightarrow> parameters" where
  "drop_product_parameters ps = fold param_delete product_parameters ps"

definition primaryLocation :: "location \<Rightarrow> location" where
  "primaryLocation l = l\<lparr>loc_search := drop_product_parameters (loc_search l), loc_hash := []\<rparr>"

definition settingsLocation :: "location \<Rightarrow> location" where
  "settingsLocation l = (primaryLocation l)\<lparr>loc_hash := js ''#settings''\<rparr>"

text \<open>\<open>encodeURIComponent\<close>: UTF-8, percent-encoded; a lone surrogate throws a \<open>URIError\<close> (\<open>None\<close>).\<close>

definition utf8_of_code_point :: "nat \<Rightarrow> nat list" where
  "utf8_of_code_point c =
     (if c < 0x80 then [c]
      else if c < 0x800 then [0xC0 + c div 0x40, 0x80 + c mod 0x40]
      else if c < 0x10000 then [0xE0 + c div 0x1000, 0x80 + c div 0x40 mod 0x40, 0x80 + c mod 0x40]
      else [0xF0 + c div 0x40000, 0x80 + c div 0x1000 mod 0x40, 0x80 + c div 0x40 mod 0x40, 0x80 + c mod 0x40])"

definition upper_hex_digit :: "nat \<Rightarrow> nat" where
  "upper_hex_digit d = (if d < 10 then 48 + d else 55 + d)"

definition uri_unreserved :: "nat \<Rightarrow> bool" where
  "uri_unreserved c \<longleftrightarrow> is_alpha c \<or> is_digit c \<or> c \<in> set (js ''-_.!~*'') \<or> c = 39 \<or> c = 40 \<or> c = 41"

definition encode_code_point :: "nat \<Rightarrow> jstr" where
  "encode_code_point c =
     (if uri_unreserved c then [c] else concat (map (\<lambda>b. [37, upper_hex_digit (b div 16), upper_hex_digit (b mod 16)]) (utf8_of_code_point c)))"

definition encodeURIComponent :: "jstr \<Rightarrow> jstr option" where
  "encodeURIComponent s =
     (let cs = code_points s in
      if list_ex (\<lambda>c. high_surrogate c \<or> low_surrogate c) cs then None else Some (concat (map encode_code_point cs)))"

definition topicLocation :: "location \<Rightarrow> jstr \<Rightarrow> location option" where
  "topicLocation l topicId = map_option (\<lambda>t. (primaryLocation l)\<lparr>loc_hash := js ''#topic-'' @ t\<rparr>) (encodeURIComponent topicId)"

fun target_parameter :: "content_target \<Rightarrow> parameters \<Rightarrow> parameters" where
  "target_parameter (Catalog_target i) ps = param_set ''catalogId'' i ps"
| "target_parameter (Work_target i) ps = param_set ''workId'' i ps"

definition contentParameters :: "location \<Rightarrow> content_target \<Rightarrow> parameters" where
  "contentParameters l target = target_parameter target (drop_product_parameters (loc_search l))"

definition detailLocation :: "location \<Rightarrow> content_target \<Rightarrow> location" where
  "detailLocation l target = l\<lparr>loc_search := contentParameters l target, loc_hash := js ''#detail''\<rparr>"

definition viewerLocation :: "location \<Rightarrow> content_target \<Rightarrow> jstr \<Rightarrow> location" where
  "viewerLocation l target mediaId =
     l\<lparr>loc_search := param_set ''image'' mediaId (contentParameters l target), loc_hash := js ''#viewer''\<rparr>"

definition profileLocation :: "location \<Rightarrow> jstr option \<Rightarrow> location" where
  "profileLocation l authorId =
     (let p = primaryLocation l in
      p\<lparr>loc_search := (case authorId of None \<Rightarrow> loc_search p | Some a \<Rightarrow> if a = [] then loc_search p else param_set ''authorId'' a (loc_search p)),
        loc_hash := js ''#profile''\<rparr>)"

fun sameEditorTarget :: "editor_target \<Rightarrow> editor_target \<Rightarrow> bool" where
  "sameEditorTarget (New_target t) right \<longleftrightarrow> (case right of New_target t' \<Rightarrow> True | _ \<Rightarrow> False)"
| "sameEditorTarget (Draft_target i) right \<longleftrightarrow> right = Draft_target i"
| "sameEditorTarget (Existing_target i) right \<longleftrightarrow> right = Existing_target i"

definition editorLocation :: "location \<Rightarrow> editor_target \<Rightarrow> location" where
  "editorLocation l target =
     (let p = primaryLocation l in
      p\<lparr>loc_search := (case target of Existing_target i \<Rightarrow> param_set ''workId'' i (loc_search p) | _ \<Rightarrow> loc_search p), loc_hash := js ''#editor''\<rparr>)"

fun sameEditorLink :: "editor_target \<Rightarrow> editor_target \<Rightarrow> bool" where
  "sameEditorLink (Existing_target i) (Existing_target j) \<longleftrightarrow> i = j"
| "sameEditorLink left (Existing_target j) \<longleftrightarrow> False"
| "sameEditorLink (Existing_target i) right \<longleftrightarrow> False"
| "sameEditorLink left right \<longleftrightarrow> True"

definition directEditorTargetFromLocation :: "location \<Rightarrow> editor_target option" where
  "directEditorTargetFromLocation l =
     (let ps = loc_search l; works = param_all ''workId'' ps in
      if loc_hash l \<noteq> js ''#editor'' then None
      else if param_has ''catalogId'' ps \<or> param_has ''authorId'' ps \<or> param_has ''image'' ps \<or> param_has ''draftId'' ps then None
      else if length works > 1 then None
      else case works of [] \<Rightarrow> Some (New_target None) | i # _ \<Rightarrow> parseEditorTarget (editor_value (Existing_target i)))"

definition directContentFromLocation :: "location \<Rightarrow> content_target option" where
  "directContentFromLocation l =
     (let ps = loc_search l in
      if param_has ''authorId'' ps \<or> length (param_all ''catalogId'' ps) + length (param_all ''workId'' ps) \<noteq> 1 then None
      else case param_get ''workId'' ps of
        Some i \<Rightarrow> parseTarget (target_value (Work_target i))
      | None \<Rightarrow> (case param_get ''catalogId'' ps of Some i \<Rightarrow> parseTarget (target_value (Catalog_target i)) | None \<Rightarrow> None))"

text \<open>\<open>None\<close> for \<open>undefined\<close>, \<open>Some None\<close> for \<open>null\<close> (the own profile).\<close>

definition directAuthorFromLocation :: "location \<Rightarrow> jstr option option" where
  "directAuthorFromLocation l =
     (let ps = loc_search l in
      if param_has ''catalogId'' ps \<or> param_has ''workId'' ps \<or> length (param_all ''authorId'' ps) > 1 then None
      else case param_get ''authorId'' ps of
        Some i \<Rightarrow> if hex_id ''user-'' i then Some (Some i) else if i = [] \<and> loc_hash l = js ''#profile'' then Some None else None
      | None \<Rightarrow> if loc_hash l = js ''#profile'' then Some None else None)"

definition directIdentifierFromLocation :: "location \<Rightarrow> string \<Rightarrow> jstr option" where
  "directIdentifierFromLocation l name =
     (case param_all name (loc_search l) of [i] \<Rightarrow> if identifier_ok i then Some i else None | _ \<Rightarrow> None)"

definition directCatalogIdFromLocation :: "location \<Rightarrow> jstr option" where
  "directCatalogIdFromLocation l = directIdentifierFromLocation l ''catalogId''"

definition directMediaIdFromLocation :: "location \<Rightarrow> jstr option" where
  "directMediaIdFromLocation l = directIdentifierFromLocation l ''image''"

end
