(* ===== verification/HistoryGuarantees.thy ===== *)
theory HistoryGuarantees
  imports ProductHistory
begin

text \<open>
  What the history of the product shell guarantees: a stored state is read back as it was, whatever else the runtime keeps in
  the entry; whatever the browser hands back is read as a well-formed state or refused; and a link opens what it names.
\<close>

section \<open>Well-formed states\<close>

text \<open>The states the interfaces of \<open>product-history.ts\<close> declare, written out apart from the reader: an identifier is a
  prefix and 32 lower-case hexadecimal digits (of a catalogue entry, at most 128 characters without white space), a scroll position is not
  negative, and the tab is one of the names of \<open>ProfileTab\<close>.\<close>

definition public_id :: "string \<Rightarrow> jstr \<Rightarrow> bool" where
  "public_id prefix i \<longleftrightarrow> (\<exists>digits. i = js prefix @ digits \<and> length digits = 32 \<and> set digits \<subseteq> set (js ''0123456789abcdef''))"

definition catalog_id :: "jstr \<Rightarrow> bool" where
  "catalog_id i \<longleftrightarrow> 0 < length i \<and> length i < 129 \<and> (\<forall>c \<in> set i. \<not> is_js_space c)"

fun declared_tab :: "hvalue \<Rightarrow> bool" where
  "declared_tab (H_string s) \<longleftrightarrow> s = js ''works'' \<or> s = js ''favorites'' \<or> s = js ''likes'' \<or> s = js ''history'' \<or> s = js ''comments''"
| "declared_tab v \<longleftrightarrow> False"

fun target_ok :: "content_target \<Rightarrow> bool" where
  "target_ok (Catalog_target i) \<longleftrightarrow> catalog_id i"
| "target_ok (Work_target i) \<longleftrightarrow> public_id ''work-'' i"

fun editor_ok :: "editor_target \<Rightarrow> bool" where
  "editor_ok (New_target t) \<longleftrightarrow> (case t of None \<Rightarrow> True | Some i \<Rightarrow> public_id ''thread-'' i)"
| "editor_ok (Draft_target i) \<longleftrightarrow> public_id ''work-draft-'' i"
| "editor_ok (Existing_target i) \<longleftrightarrow> public_id ''work-'' i"

fun state_ok :: "product_history \<Rightarrow> bool" where
  "state_ok (Primary_state d catalog topic scroll) \<longleftrightarrow>
     catalog \<noteq> Some [] \<and> topic \<noteq> Some [] \<and> (topic = None \<or> d = Discussion) \<and> (case scroll of None \<Rightarrow> True | Some r \<Rightarrow> 0 \<le> r)"
| "state_ok (Detail_state t detail d source) \<longleftrightarrow> target_ok t \<and> 0 \<le> detail \<and> 0 \<le> source"
| "state_ok (Viewer_state t detail media d source) \<longleftrightarrow> target_ok t \<and> 0 \<le> detail \<and> 0 \<le> source \<and> media \<noteq> []"
| "state_ok (Settings_state d) \<longleftrightarrow> True"
| "state_ok (Topic_state source topic) \<longleftrightarrow> 0 \<le> source \<and> topic \<noteq> []"
| "state_ok (Profile_state author entry tab scroll d source) \<longleftrightarrow>
     (case author of None \<Rightarrow> True | Some a \<Rightarrow> public_id ''user-'' a) \<and> entry \<noteq> [] \<and> length entry \<le> 128 \<and> declared_tab tab \<and> 0 \<le> scroll \<and> 0 \<le> source"
| "state_ok (Editor_state t d source) \<longleftrightarrow> editor_ok t \<and> 0 \<le> source"

text \<open>What the reader admits beyond them: \<open>String(candidate.tab)\<close> writes an array of one value as that value, so a tab's name
  may come in any number of arrays of one.\<close>

fun boxed :: "nat \<Rightarrow> hvalue \<Rightarrow> hvalue" where
  "boxed 0 v = v"
| "boxed (Suc n) v = H_array [boxed n v]"

fun box_tab :: "nat \<Rightarrow> product_history \<Rightarrow> product_history" where
  "box_tab n (Profile_state author entry tab scroll d source) = Profile_state author entry (boxed n tab) scroll d source"
| "box_tab n s = s"

lemma hex_digits: "set (js ''0123456789abcdef'') = {c. lower_hex c}"
proof -
  have "set (js ''0123456789abcdef'') = {48..57} \<union> {97..102}" by code_simp
  also have "\<dots> = {c. lower_hex c}" by (auto simp: lower_hex_def is_digit_def)
  finally show ?thesis .
qed

lemma public_id_read [simp]: "public_id prefix i = hex_id prefix i"
proof
  assume "public_id prefix i"
  then show "hex_id prefix i" unfolding public_id_def hex_digits by (auto simp: hex_id_def list_all_iff js_def)
next
  assume "hex_id prefix i"
  then have "i = js prefix @ drop (length prefix) i" "length (drop (length prefix) i) = 32" "set (drop (length prefix) i) \<subseteq> {c. lower_hex c}"
    by (auto simp: hex_id_def list_all_iff) (metis append_take_drop_id)
  then show "public_id prefix i" unfolding public_id_def hex_digits by blast
qed

lemma catalog_id_read [simp]: "catalog_id i = identifier_ok i"
  by (auto simp: catalog_id_def identifier_ok_def list_ex_iff)

lemma declared_tab_text: "declared_tab v \<Longrightarrow> tab_ok (boxed n v)"
proof -
  assume ok: "declared_tab v"
  have "tab_text (boxed n v) = tab_text v" by (induction n) simp_all
  then show ?thesis using ok by (cases v) (auto simp: tab_ok_def PROFILE_TABS_def)
qed

lemma tab_unboxed:
  assumes "tab_ok v"
  shows "\<exists>n w. v = boxed n w \<and> declared_tab w"
proof -
  obtain s where s: "tab_text v = Some s" "s \<in> set PROFILE_TABS" using assms by (auto simp: tab_ok_def split: option.splits)
  from s(1) have "\<exists>n. v = boxed n (H_string s)"
  proof (induction v rule: tab_text.induct)
    case (1 t)
    then show ?case by (intro exI [of _ 0]) simp
  next
    case (2 v)
    then obtain n where "v = boxed n (H_string s)" by auto
    then show ?case by (intro exI [of _ "Suc n"]) simp
  qed simp_all
  moreover have "declared_tab (H_string s)" using s(2) by (auto simp: PROFILE_TABS_def)
  ultimately show ?thesis by blast
qed

lemma hex_identifier:
  assumes "hex_id prefix i" "\<not> list_ex is_js_space (js prefix)" "length prefix \<le> 96"
  shows "identifier_ok i"
proof -
  have "i = js prefix @ drop (length prefix) i" using assms(1) by (metis append_take_drop_id hex_id_def)
  moreover have "lower_hex c \<Longrightarrow> \<not> is_js_space c" for c by (auto simp: lower_hex_def is_digit_def is_js_space_def)
  then have "\<not> list_ex is_js_space (drop (length prefix) i)" using assms(1) by (auto simp: hex_id_def list_all_iff list_ex_iff)
  ultimately have "\<not> list_ex is_js_space i" using assms(2) by (metis list_ex_append)
  then show ?thesis using assms(1,3) by (auto simp: identifier_ok_def hex_id_def)
qed

lemma work_identifier: "hex_id ''work-'' i \<Longrightarrow> identifier_ok i"
  by (erule hex_identifier) (simp_all add: js_def is_js_space_def)

section \<open>Fields\<close>

lemma field_merged:
  assumes "js name \<in> set productHistoryKeys"
  shows "field (filter (\<lambda>e. fst e \<notin> set productHistoryKeys) fs @ gs) name = field gs name"
proof -
  have "map_of (filter (\<lambda>e. fst e \<notin> set productHistoryKeys) fs) (js name) = None" using assms by (auto simp: map_of_eq_None_iff)
  then show ?thesis by (simp add: field_def map_add_def)
qed

lemma stored_values [simp]:
  "as_destination (destination_value d) = Some d"
  "scroll_value (number_value r) = (if 0 \<le> r then Some r else None)"
  "string_value (H_string s) = Some s" "string_value H_undefined = None"
  "0 \<le> r \<Longrightarrow> boundedScrollTop (Finite r) = r"
  "author_value (case a of None \<Rightarrow> H_null | Some i \<Rightarrow> H_string i) = (case a of None \<Rightarrow> Some None | Some i \<Rightarrow> if hex_id ''user-'' i then Some (Some i) else None)"
  by (cases d; simp add: as_destination_def destination_value_def)
    (simp_all add: scroll_value_def number_value_def string_value_def boundedScrollTop_def author_value_def split: option.split)

lemma target_read: "parseTarget (target_value t) = (if target_ok t then Some t else None)"
  by (cases t) (auto simp: parseTarget_def dest: work_identifier)

lemma editor_read: "editor_ok t \<Longrightarrow> parseEditorTarget (editor_value t) = Some t"
  by (cases t) (auto simp: parseEditorTarget_def split: option.splits)

lemma undefined_neq: "number_value r \<noteq> H_undefined"
  by (simp add: number_value_def)

section \<open>Stored states are read back\<close>

lemma parse_merged:
  "parseProductHistoryState (mergeProductHistoryState runtime s) = parseProductHistoryState (H_object (state_fields s))"
proof -
  define fs where "fs = filter (\<lambda>e. fst e \<notin> set productHistoryKeys) (fields_of runtime) @ state_fields s"
  have same: "field fs name = field (state_fields s) name" if "js name \<in> set productHistoryKeys" for name
    unfolding fs_def using that by (rule field_merged)
  have keys: "field fs ''target'' = field (state_fields s) ''target''" "field fs ''editorTarget'' = field (state_fields s) ''editorTarget''"
    "field fs ''authorId'' = field (state_fields s) ''authorId''" "field fs ''entryId'' = field (state_fields s) ''entryId''"
    "field fs ''tab'' = field (state_fields s) ''tab''" "field fs ''profileScrollTop'' = field (state_fields s) ''profileScrollTop''"
    "field fs ''destination'' = field (state_fields s) ''destination''" "field fs ''catalogId'' = field (state_fields s) ''catalogId''"
    "field fs ''detailScrollTop'' = field (state_fields s) ''detailScrollTop''" "field fs ''focusCatalogId'' = field (state_fields s) ''focusCatalogId''"
    "field fs ''focusTopicId'' = field (state_fields s) ''focusTopicId''" "field fs ''kind'' = field (state_fields s) ''kind''"
    "field fs ''mediaId'' = field (state_fields s) ''mediaId''" "field fs ''scrollTop'' = field (state_fields s) ''scrollTop''"
    "field fs ''sourceDestination'' = field (state_fields s) ''sourceDestination''" "field fs ''sourceHomeFeed'' = field (state_fields s) ''sourceHomeFeed''"
    "field fs ''sourceScrollTop'' = field (state_fields s) ''sourceScrollTop''" "field fs ''topicId'' = field (state_fields s) ''topicId''"
    "field fs ''version'' = field (state_fields s) ''version''"
    by (intro same; simp add: productHistoryKeys_def)+
  have parts: "parse_profile fs = parse_profile (state_fields s)" "parse_editor fs = parse_editor (state_fields s)"
    "parse_primary d fs = parse_primary d (state_fields s)" "parse_detail fs = parse_detail (state_fields s)"
    "parse_viewer fs = parse_viewer (state_fields s)" "parse_topic fs = parse_topic (state_fields s)" for d
    unfolding parse_profile_def parse_editor_def parse_primary_def parse_detail_def parse_viewer_def parse_topic_def history_target_def keys by (rule refl)+
  show ?thesis unfolding parseProductHistoryState_def mergeProductHistoryState_def fs_def [symmetric] Let_def fields_of.simps keys parts by simp
qed

lemma history_written:
  assumes "state_ok s"
  shows "parseProductHistoryState (mergeProductHistoryState runtime (box_tab n s)) = Some (box_tab n s)"
proof -
  note readers = parseProductHistoryState_def kind_version_def Let_def
  have "parseProductHistoryState (H_object (state_fields (box_tab n s))) = Some (box_tab n s)"
  proof (cases s)
    case (Primary_state d catalog topic scroll)
    then show ?thesis using assms
      by (cases catalog; cases topic; cases scroll)
        (simp_all add: readers parse_primary_def optional_scroll_def optional_id_def primaryHistoryState_def nonempty_id_def undefined_neq)
  next
    case (Detail_state t detail d source)
    then show ?thesis using assms by (simp add: readers parse_detail_def history_target_def target_read detailHistoryState_def)
  next
    case (Viewer_state t detail media d source)
    then show ?thesis using assms by (simp add: readers parse_viewer_def history_target_def target_read viewerHistoryState_def)
  next
    case (Settings_state d)
    then show ?thesis by (simp add: readers settingsHistoryState_def)
  next
    case (Topic_state source topic)
    then show ?thesis using assms by (simp add: readers parse_topic_def topicHistoryState_def)
  next
    case (Profile_state author entry tab scroll d source)
    then show ?thesis using assms declared_tab_text [of tab n] by (auto simp: readers parse_profile_def profileHistoryState_def split: option.splits)
  next
    case (Editor_state t d source)
    then show ?thesis using assms by (simp add: readers parse_editor_def editor_read editorHistoryState_def)
  qed
  then show ?thesis by (simp only: parse_merged)
qed

section \<open>What is read is well-formed\<close>

lemma read_targets:
  "parseTarget v = Some t \<Longrightarrow> target_ok t" "history_target fs = Some t \<Longrightarrow> target_ok t" "parseEditorTarget v = Some e \<Longrightarrow> editor_ok e"
proof -
  show target: "parseTarget v = Some t \<Longrightarrow> target_ok t" for v
    by (auto simp: parseTarget_def split: option.splits if_splits)
  show "history_target fs = Some t \<Longrightarrow> target_ok t"
    by (auto simp: history_target_def dest: target split: option.splits)
  show "parseEditorTarget v = Some e \<Longrightarrow> editor_ok e"
    by (auto simp: parseEditorTarget_def split: option.splits if_splits)
qed

lemma scroll_read: "scroll_value v = Some r \<Longrightarrow> 0 \<le> r"
  by (auto simp: scroll_value_def split: hvalue.splits js_number.splits if_splits)

lemma bounded_nonneg [simp]: "0 \<le> boundedScrollTop n"
  by (cases n) (simp_all add: boundedScrollTop_def)

lemma author_read: "author_value v = Some a \<Longrightarrow> a = None \<or> (\<exists>i. a = Some i \<and> hex_id ''user-'' i)"
  by (auto simp: author_value_def split: hvalue.splits if_splits)

lemma optional_read: "optional_id v = Some i \<Longrightarrow> i \<noteq> Some []" "optional_scroll v = Some r \<Longrightarrow> (case r of None \<Rightarrow> True | Some x \<Rightarrow> 0 \<le> x)"
  by (auto simp: optional_id_def optional_scroll_def dest: scroll_read split: option.splits if_splits)

lemma profile_read:
  assumes "parse_profile fs = Some s"
  shows "\<exists>n r. state_ok r \<and> s = box_tab n r"
proof -
  obtain author entry scroll d source where
    s: "s = Profile_state author entry (field fs ''tab'') scroll d source" and
    parts: "author = None \<or> (\<exists>i. author = Some i \<and> hex_id ''user-'' i)" "entry \<noteq> []" "length entry \<le> 128" "0 \<le> scroll" "0 \<le> source" and
    "tab_ok (field fs ''tab'')"
    using assms by (auto simp: parse_profile_def profileHistoryState_def dest: author_read scroll_read split: option.splits if_splits)
  then obtain n w where w: "field fs ''tab'' = boxed n w" "declared_tab w" using tab_unboxed by blast
  then have "state_ok (Profile_state author entry w scroll d source) \<and> s = box_tab n (Profile_state author entry w scroll d source)"
    using s parts by (auto split: option.splits)
  then show ?thesis by blast
qed

lemma primary_read: "parse_primary d fs = Some s \<Longrightarrow> state_ok s"
  by (auto simp: parse_primary_def primaryHistoryState_def nonempty_id_def optional_id_def boundedScrollTop_def split: option.splits if_splits)

lemma simple_read:
  "parse_editor fs = Some s \<Longrightarrow> state_ok s" "parse_detail fs = Some s \<Longrightarrow> state_ok s" "parse_viewer fs = Some s \<Longrightarrow> state_ok s"
  "parse_topic fs = Some s \<Longrightarrow> state_ok s"
  by (auto simp: parse_editor_def parse_detail_def parse_viewer_def parse_topic_def editorHistoryState_def detailHistoryState_def
      viewerHistoryState_def topicHistoryState_def intro: read_targets split: option.splits if_splits)

lemma unboxed [simp]: "box_tab 0 s = s"
  by (cases s) simp_all

lemma history_read:
  assumes "parseProductHistoryState v = Some s"
  shows "\<exists>n r. state_ok r \<and> s = box_tab n r"
proof (cases "parse_profile (fields_of v) = Some s")
  case True
  then show ?thesis by (rule profile_read)
next
  case False
  then have "state_ok s" using assms
    by (auto simp: parseProductHistoryState_def Let_def settingsHistoryState_def dest: primary_read simple_read split: option.splits if_splits)
  then show ?thesis by (intro exI [of _ 0] exI [of _ s]) simp
qed


section \<open>Links\<close>

lemma param_all_simps [simp]:
  "param_all n (param_delete m ps) = (if n = m then [] else param_all n ps)"
  "param_all n (param_set m v ps) = (if n = m then [v] else param_all n ps)"
proof -
  show delete: "param_all n (param_delete m ps) = (if n = m then [] else param_all n ps)" for ps
    by (induction ps) (auto simp: param_all_def param_delete_def)
  show "param_all n (param_set m v ps) = (if n = m then [v] else param_all n ps)"
    using delete by (induction ps) (auto simp: param_all_def)
qed

lemma param_all_dropped [simp]:
  "param_all n (drop_product_parameters ps) = (if n \<in> set product_parameters then [] else param_all n ps)"
  by (simp add: drop_product_parameters_def product_parameters_def)

lemmas link_defs = editorLocation_def primaryLocation_def detailLocation_def viewerLocation_def profileLocation_def contentParameters_def
  directEditorTargetFromLocation_def directContentFromLocation_def directAuthorFromLocation_def directMediaIdFromLocation_def
  directIdentifierFromLocation_def param_has_def param_get_def product_parameters_def Let_def

lemma editor_links_open:
  assumes "editor_ok t"
  shows "directEditorTargetFromLocation (editorLocation l t) = Some (case t of Existing_target i \<Rightarrow> Existing_target i | _ \<Rightarrow> New_target None)"
    "(editorLocation l t = editorLocation l u) = sameEditorLink t u"
    "sameEditorLink t (the (directEditorTargetFromLocation (editorLocation l t)))"
proof -
  show opens: "directEditorTargetFromLocation (editorLocation l t) = Some (case t of Existing_target i \<Rightarrow> Existing_target i | _ \<Rightarrow> New_target None)"
    using assms editor_read [OF assms] by (cases t) (simp_all add: link_defs del: editor_value.simps)
  have works: "param_all ''workId'' (loc_search (editorLocation l u)) = (case u of Existing_target i \<Rightarrow> [i] | _ \<Rightarrow> [])" for u
    by (cases u) (simp_all add: editorLocation_def primaryLocation_def product_parameters_def)
  have "sameEditorLink t u" if "editorLocation l t = editorLocation l u"
  proof -
    have "(case t of Existing_target i \<Rightarrow> [i] | _ \<Rightarrow> []) = (case u of Existing_target i \<Rightarrow> [i] | _ \<Rightarrow> [])"
      by (simp only: works [symmetric] that)
    then show ?thesis by (cases t; cases u) simp_all
  qed
  moreover have "editorLocation l t = editorLocation l u" if "sameEditorLink t u"
    using that by (cases t; cases u) (simp_all add: editorLocation_def Let_def)
  ultimately show "(editorLocation l t = editorLocation l u) = sameEditorLink t u" by blast
  show "sameEditorLink t (the (directEditorTargetFromLocation (editorLocation l t)))"
    unfolding opens by (cases t) simp_all
qed

lemma content_links_open:
  assumes "target_ok t"
  shows "directContentFromLocation (detailLocation l t) = Some t" "directContentFromLocation (viewerLocation l t m) = Some t"
    "identifier_ok m \<Longrightarrow> directMediaIdFromLocation (viewerLocation l t m) = Some m" "directMediaIdFromLocation (detailLocation l t) = None"
    "directAuthorFromLocation (viewerLocation l t m) = None" "directEditorTargetFromLocation (viewerLocation l t m) = None"
  using assms target_read [of t] by (cases t; simp add: link_defs del: target_value.simps)+

lemma profile_links_open:
  assumes "author = None \<or> (\<exists>i. author = Some i \<and> hex_id ''user-'' i)"
  shows "directAuthorFromLocation (profileLocation l author) = Some author" "directContentFromLocation (profileLocation l author) = None"
    "directEditorTargetFromLocation (profileLocation l author) = None"
proof -
  have "i \<noteq> []" if "hex_id ''user-'' i" for i using that by (auto simp: hex_id_def)
  then show "directAuthorFromLocation (profileLocation l author) = Some author" "directContentFromLocation (profileLocation l author) = None"
    "directEditorTargetFromLocation (profileLocation l author) = None"
    using assms by (auto simp: link_defs)
qed

text \<open>A link opens what it names and nothing else: the editor, a work or a catalogue entry, one of its pictures, an author's
  page. The links of two editor targets are the same exactly for \<open>sameEditorLink\<close>; the link of a private draft
  is the link of a new work.\<close>

lemma links_open:
  assumes "editor_ok e" "target_ok t" "identifier_ok m" "author = None \<or> (\<exists>i. author = Some i \<and> hex_id ''user-'' i)"
  shows "sameEditorLink e (the (directEditorTargetFromLocation (editorLocation l e))) \<and>
    (editorLocation l e = editorLocation l e') = sameEditorLink e e' \<and> editorLocation l (Draft_target i) = editorLocation l (New_target None) \<and>
    directContentFromLocation (detailLocation l t) = Some t \<and> directContentFromLocation (viewerLocation l t m) = Some t \<and>
    directMediaIdFromLocation (viewerLocation l t m) = Some m \<and> directMediaIdFromLocation (detailLocation l t) = None \<and>
    directAuthorFromLocation (profileLocation l author) = Some author \<and> directContentFromLocation (profileLocation l author) = None \<and>
    directAuthorFromLocation (viewerLocation l t m) = None \<and> directEditorTargetFromLocation (viewerLocation l t m) = None \<and>
    directEditorTargetFromLocation (profileLocation l author) = None"
  by (intro conjI editor_links_open [OF assms(1)] content_links_open [OF assms(2)] profile_links_open [OF assms(4)] assms(3))
    (simp add: editorLocation_def)

section \<open>Examples\<close>

definition sample_work_id :: jstr where
  "sample_work_id = js ''work-0123456789abcdef0123456789abcdef''"

definition sample_location :: location where
  "sample_location = \<lparr>loc_pathname = js ''/'', loc_search = [(js ''lang'', js ''en''), (js ''authorId'', js ''x''), (js ''image'', js ''y'')], loc_hash = js ''#viewer''\<rparr>"

lemma sample_work_ok: "hex_id ''work-'' sample_work_id"
  by code_simp

lemma links_open_witness:
  "directContentFromLocation (viewerLocation sample_location (Work_target sample_work_id) (js ''m1'')) = Some (Work_target sample_work_id) \<and>
   sameEditorLink (Existing_target sample_work_id) (the (directEditorTargetFromLocation (editorLocation sample_location (Existing_target sample_work_id))))"
proof -
  have "editor_ok (Existing_target sample_work_id)" "target_ok (Work_target sample_work_id)" using sample_work_ok by simp_all
  moreover have "identifier_ok (js ''m1'')" by (simp add: identifier_ok_def js_def is_js_space_def)
  ultimately show ?thesis
    using links_open [of "Existing_target sample_work_id" "Work_target sample_work_id" "js ''m1''" None sample_location] by simp
qed

text \<open>An entry of the first version, with a catalogue id instead of a target.\<close>

definition sample_entry :: hvalue where
  "sample_entry = H_object [key_value ''catalogId'' (H_string (js ''c1'')), key_value ''kind'' (H_string (js ''detail'')),
     key_value ''sourceDestination'' (H_string (js ''home'')), key_value ''sourceScrollTop'' (number_value 12),
     key_value ''detailScrollTop'' (number_value 0), key_value ''version'' (number_value 1)]"

lemma sample_entry_read: "parseProductHistoryState sample_entry = Some (Detail_state (Catalog_target (js ''c1'')) 0 Home 12)"
proof -
  have "identifier_ok (js ''c1'')" by (simp add: identifier_ok_def js_def is_js_space_def)
  then have "parseTarget (target_value (Catalog_target (js ''c1''))) = Some (Catalog_target (js ''c1''))" by (simp add: target_read del: target_value.simps)
  moreover have "as_destination (H_string (js ''home'')) = Some Home" by (simp add: as_destination_def)
  moreover have "parseTarget H_undefined = None" by (simp add: parseTarget_def)
  ultimately show ?thesis
    by (simp add: parseProductHistoryState_def sample_entry_def Let_def parse_detail_def history_target_def detailHistoryState_def
        del: target_value.simps)
qed

definition sample_profile :: product_history where
  "sample_profile = Profile_state None (js ''e1'') (H_string (js ''likes'')) 7 User_page 3"


text \<open>\<open>String(candidate.tab)\<close> admits an array of one name as the tab.\<close>

lemma array_tab_accepted: "tab_ok (H_array [H_string (js ''works'')])"
  by (simp add: tab_ok_def PROFILE_TABS_def)

end
