(* ===== verification/PublishingStore.thy ===== *)
theory PublishingStore
  imports Prelude "HOL-Library.List_Lexorder" "HOL-Library.Char_ord" "HOL-Library.Product_Lexorder"
begin

text \<open>
  The tables of the publishing store as far as the modelled adapters read or write them
  (\<open>services/community-postgres/src/publishing\<close>), and the helpers of \<open>db.ts\<close> and \<open>jobs.ts\<close> that several adapters
  share: transactions, capacity rows, the accounting of reserved bytes, author commands with receipts.

  A table is the list of its rows. A transaction is a function of the store that returns \<open>Inl\<close> (rolled back: nothing
  changed) or \<open>Inr\<close> the new store; the row locks a transaction takes are held until it commits, so transactions that meet
  on a row are serial, and \<open>SKIP LOCKED\<close> is a parameter that says which rows another transaction holds. Times are
  milliseconds. An opaque id is drawn from a supply (\<open>nat \<Rightarrow> string\<close>); the database refuses an id it already has. JSON
  columns nothing here decides on (presentation, pairing, private metadata) are left out.
\<close>

section \<open>Rows\<close>

type_synonym instant = int

datatype job_kind = Process_item | Derive_edit | Purge_item | Purge_blob | Expire_session
  | Purge_trashed_work | Sweep_staging | Reconcile_capacity

datatype job_state = Queued | Running | Succeeded | Failed | Abandoned

record job_row =
  j_id :: string
  j_kind :: job_kind
  j_subject :: string
  j_payload :: "string option"
  j_state :: job_state
  j_attempts :: int
  j_max_attempts :: int
  j_run_after :: instant
  j_owner :: "string option"
  j_expires :: "instant option"
  j_error :: "string option"
  j_created_at :: instant
  j_updated_at :: instant
  j_finished_at :: "instant option"

datatype item_kind = Static | Live
datatype quality = Standard | Original | Legacy
datatype item_state = Awaiting_upload | Processing | Ready | Item_failed | Item_cancelled | Item_purged

record item_row =
  i_id :: string
  i_owner :: string
  i_kind :: item_kind
  i_quality :: quality
  i_state :: item_state
  i_failure :: "string option"
  i_declared_total :: int
  i_received_total :: int
  i_version :: int
  i_updated_at :: instant
  i_ready_at :: "instant option"
  i_cancelled_at :: "instant option"
  i_purged_at :: "instant option"

datatype component_role = Still | Motion | Package
datatype component_state = Awaiting | Receiving | Received | Verified | Rejected | Component_cancelled

record component_row =
  c_id :: string
  c_item :: string
  c_owner :: string
  c_role :: component_role
  c_declared_bytes :: int
  c_declared_type :: string
  c_state :: component_state
  c_attempt :: "string option"
  c_received :: int
  c_sha256 :: "string option"
  c_detected_type :: "string option"
  c_blob :: "string option"
  c_reserved :: int
  c_updated_at :: instant

datatype blob_purpose = Original_blob | Standard_master | Derivative_blob
datatype blob_state = Committed | Tombstoned | Purged

record blob_row =
  b_id :: string
  b_owner :: string
  b_purpose :: blob_purpose
  b_storage_key :: string
  b_size :: int
  b_sha256 :: string
  b_content_type :: string
  b_state :: blob_state
  b_created_at :: instant
  b_tombstoned_at :: "instant option"
  b_purged_at :: "instant option"

datatype variant = Thumb | Display | Full | Motion_variant | Cover

record derivative_row =
  d_item :: string
  d_variant :: variant
  d_edit_key :: string
  d_blob :: string
  d_width :: int
  d_height :: int
  d_duration :: "int option"
  d_content_type :: string
  d_created_at :: instant

datatype holder_kind = Draft_holder | Revision_holder | Snapshot_holder | Session_holder

record ref_row =
  r_item :: string
  r_holder_kind :: holder_kind
  r_holder_id :: string

datatype capacity_class = Ordinary | Owner_class

record capacity_row =
  k_account :: string
  k_class :: capacity_class
  k_committed :: int
  k_reserved :: int
  k_version :: int
  k_updated_at :: instant

datatype session_state = Session_active | Session_submitted | Session_discarded | Session_expired

record session_row =
  s_id :: string
  s_owner :: string
  s_state :: session_state
  s_expires :: instant
  s_ended_at :: "instant option"

text \<open>Drafts and snapshots: what the media adapters read of them, the item ids of their content among it.\<close>

record draft_row =
  w_id :: string
  w_owner :: string
  w_active :: bool
  w_conflict_of :: "string option"
  w_resolved :: bool
  w_items :: "string list"

record work_row =
  y_id :: string
  y_trashed_at :: "instant option"
  y_deleted_at :: "instant option"
  y_purge_after :: "instant option"

record settings_row =
  g_max_items :: int
  g_original_max :: int
  g_standard_max :: int
  g_ordinary_capacity :: int
  g_owner_capacity :: int
  g_orphan_grace_days :: int
  g_session_lease_minutes :: int

record store =
  jobs :: "job_row list"
  items :: "item_row list"
  components :: "component_row list"
  blobs :: "blob_row list"
  derivatives :: "derivative_row list"
  refs :: "ref_row list"
  capacity :: "capacity_row list"
  active_users :: "string list"
  other_users :: "string list"
  sessions :: "session_row list"
  drafts :: "draft_row list"
  works :: "work_row list"
  snapshots :: "(string \<times> string list) list"
  revision_items :: "(string \<times> bool) list"
  settings :: settings_row

datatype store_error = Type_error | Not_found | Conflict | Input_error "string option" | Enqueue_failed | Unique_violation | Check_violation

type_synonym 'a answer = "store_error + store \<times> 'a"

section \<open>Statements\<close>

definition update_rows :: "('a \<Rightarrow> bool) \<Rightarrow> ('a \<Rightarrow> 'a) \<Rightarrow> 'a list \<Rightarrow> 'a list" where
  "update_rows P f = map (\<lambda>x. if P x then f x else x)"

definition count_rows :: "('a \<Rightarrow> bool) \<Rightarrow> 'a list \<Rightarrow> nat" where
  "count_rows P xs = length (filter P xs)"

definition row_total :: "('a \<Rightarrow> bool) \<Rightarrow> ('a \<Rightarrow> int) \<Rightarrow> 'a list \<Rightarrow> int" where
  "row_total P f xs = sum_list (map f (filter P xs))"

abbreviation row_of :: "('a \<Rightarrow> string) \<Rightarrow> string \<Rightarrow> 'a list \<Rightarrow> 'a option" where
  "row_of key k \<equiv> find (\<lambda>x. key x = k)"

lemma update_rows_Nil [simp]: "update_rows P f [] = []"
  by (simp add: update_rows_def)

lemma update_rows_Cons [simp]:
  "update_rows P f (x # xs) = (if P x then f x else x) # update_rows P f xs"
  by (simp add: update_rows_def)

lemma set_update_rows:
  "y \<in> set (update_rows P f xs) \<longleftrightarrow> (\<exists>x \<in> set xs. y = (if P x then f x else x))"
  by (auto simp: update_rows_def)

lemma map_update_rows:
  assumes "\<And>x. g (f x) = g x"
  shows "map g (update_rows P f xs) = map g xs"
  by (induction xs) (simp_all add: assms)

lemma length_update_rows [simp]: "length (update_rows P f xs) = length xs"
  by (simp add: update_rows_def)

lemma row_total_Nil [simp]: "row_total P f [] = 0"
  by (simp add: row_total_def)

lemma row_total_Cons [simp]:
  "row_total P f (x # xs) = (if P x then f x else 0) + row_total P f xs"
  by (simp add: row_total_def)

lemma row_total_append [simp]: "row_total P f (xs @ ys) = row_total P f xs + row_total P f ys"
  by (simp add: row_total_def)

lemma row_total_nonneg: "(\<And>x. x \<in> set xs \<Longrightarrow> 0 \<le> f x) \<Longrightarrow> 0 \<le> row_total P f xs"
  by (induction xs) auto

lemma row_total_update:
  "row_total P f (update_rows Q g xs)
   = row_total P f xs
     - row_total (\<lambda>x. P x \<and> Q x) f xs + row_total (\<lambda>x. P (g x) \<and> Q x) (\<lambda>x. f (g x)) xs"
  by (induction xs) auto

lemma row_total_same:
  assumes "\<And>x. x \<in> set xs \<Longrightarrow> P x = P' x" and "\<And>x. x \<in> set xs \<Longrightarrow> P x \<Longrightarrow> f x = f' x"
  shows "row_total P f xs = row_total P' f' xs"
  using assms by (induction xs) auto

lemma row_total_False: "(\<And>x. x \<in> set xs \<Longrightarrow> \<not> P x) \<Longrightarrow> row_total P f xs = 0"
  by (induction xs) auto

lemma row_total_le:
  assumes "\<And>x. x \<in> set xs \<Longrightarrow> P x \<Longrightarrow> Q x" and "\<And>x. x \<in> set xs \<Longrightarrow> 0 \<le> f x"
  shows "row_total P f xs \<le> row_total Q f xs"
  using assms by (induction xs) (auto simp: add_increasing)

lemma row_total_split:
  "row_total P f xs = row_total (\<lambda>x. P x \<and> Q x) f xs + row_total (\<lambda>x. P x \<and> \<not> Q x) f xs"
  by (induction xs) auto

lemma row_of_in: "row_of key k xs = Some x \<Longrightarrow> x \<in> set xs \<and> key x = k"
  by (induction xs) (auto split: if_splits)

lemma row_of_None: "row_of key k xs = None \<longleftrightarrow> (\<forall>x \<in> set xs. key x \<noteq> k)"
  by (auto simp: find_None_iff)

text \<open>With distinct keys the row of a key is the only one with it.\<close>

lemma row_of_unique:
  assumes "distinct (map key xs)" and "x \<in> set xs"
  shows "row_of key (key x) xs = Some x"
  using assms
proof (induction xs)
  case (Cons y ys)
  then show ?case by (cases "x = y") (auto simp: image_iff)
qed simp

lemma distinct_map_eq:
  assumes "distinct (map key xs)" and "x \<in> set xs" and "y \<in> set xs" and "key x = key y"
  shows "x = y"
  using assms by (metis inj_on_eq_iff distinct_map)

lemma row_total_key:
  assumes "distinct (map key xs)" and "x \<in> set xs"
  shows "row_total (\<lambda>y. key y = key x) f xs = f x"
  using assms
proof (induction xs)
  case (Cons y ys)
  show ?case
  proof (cases "x = y")
    case True
    then have "row_total (\<lambda>z. key z = key x) f ys = 0"
      using Cons.prems by (intro row_total_False) (metis distinct.simps(2) image_eqI list.set_map list.simps(9))
    then show ?thesis using True by simp
  next
    case False
    then have "x \<in> set ys" and "key y \<noteq> key x" using Cons.prems by (auto simp: image_iff)
    then show ?thesis using Cons by simp
  qed
qed simp

section \<open>Capacity\<close>

record capacity_state =
  cs_capacity :: int
  cs_committed :: int
  cs_reserved :: int

definition capacityState :: "settings_row \<Rightarrow> capacity_row \<Rightarrow> capacity_state" where
  "capacityState g row =
     \<lparr>cs_capacity = (case k_class row of Owner_class \<Rightarrow> g_owner_capacity g | Ordinary \<Rightarrow> g_ordinary_capacity g),
      cs_committed = k_committed row, cs_reserved = k_reserved row\<rparr>"

definition fresh_capacity :: "string \<Rightarrow> instant \<Rightarrow> capacity_row" where
  "fresh_capacity account now =
     \<lparr>k_account = account, k_class = Ordinary, k_committed = 0, k_reserved = 0, k_version = 1, k_updated_at = now\<rparr>"

definition with_capacity_row :: "store \<Rightarrow> string \<Rightarrow> instant \<Rightarrow> store" where
  "with_capacity_row st account now =
     (if account \<in> set (active_users st @ other_users st) \<and> row_of k_account account (capacity st) = None
      then st\<lparr>capacity := capacity st @ [fresh_capacity account now]\<rparr> else st)"

definition lockCapacity :: "store \<Rightarrow> string \<Rightarrow> instant \<Rightarrow> capacity_state answer" where
  "lockCapacity st account now =
     (let st1 = with_capacity_row st account now in
      if account \<in> set (active_users st @ other_users st)
      then (case row_of k_account account (capacity st1) of
              None \<Rightarrow> Inl Not_found
            | Some row \<Rightarrow> Inr (st1, capacityState (settings st1) row))
      else Inl Not_found)"

definition adjustCapacity :: "store \<Rightarrow> string \<Rightarrow> int \<Rightarrow> int \<Rightarrow> instant \<Rightarrow> unit answer" where
  "adjustCapacity st account committed reserved now =
     (if committed = 0 \<and> reserved = 0 then Inr (st, ())
      else rbind (lockCapacity st account now) (\<lambda>(st1, _).
        Inr (st1\<lparr>capacity := update_rows (\<lambda>k. k_account k = account)
               (\<lambda>k. k\<lparr>k_committed := max (k_committed k + committed) 0,
                       k_reserved := max (k_reserved k + reserved) 0\<rparr>) (capacity st1)\<rparr>, ())))"

text \<open>One adjustment per owner, in the order of the list.\<close>

fun adjust_each :: "store \<Rightarrow> (string \<times> int \<times> int) list \<Rightarrow> instant \<Rightarrow> unit answer" where
  "adjust_each st [] now = Inr (st, ())"
| "adjust_each st ((owner, committed, reserved) # rest) now =
     rbind (adjustCapacity st owner committed reserved now) (\<lambda>(st1, _). adjust_each st1 rest now)"

definition releaseReservations :: "store \<Rightarrow> string list \<Rightarrow> instant \<Rightarrow> unit answer" where
  "releaseReservations st itemIds now =
     (if itemIds = [] then Inr (st, ())
      else let is_open = (\<lambda>c. c_item c \<in> set itemIds \<and> 0 < c_reserved c);
               owners = sort (remdups (map c_owner (filter is_open (components st))));
               released = map (\<lambda>w. (w, 0, - row_total (\<lambda>c. is_open c \<and> c_owner c = w) c_reserved (components st))) owners
           in adjust_each
                (st\<lparr>components := update_rows is_open (\<lambda>c. c\<lparr>c_reserved := 0, c_updated_at := now\<rparr>) (components st)\<rparr>)
                released now)"

definition failProcessingItems :: "store \<Rightarrow> string list \<Rightarrow> instant \<Rightarrow> string list answer" where
  "failProcessingItems st itemIds now =
     (let unique = sort (remdups itemIds) in
      if unique = [] then Inr (st, [])
      else let hit = (\<lambda>i. i_id i \<in> set unique \<and> i_state i = Processing);
               failed = sort (map i_id (filter hit (items st)))
           in rbind (releaseReservations
                (st\<lparr>items := update_rows hit
                       (\<lambda>i. i\<lparr>i_state := Item_failed, i_failure := Some ''processing_failed'',
                               i_updated_at := now, i_version := i_version i + 1\<rparr>) (items st)\<rparr>) failed now)
                (\<lambda>(st1, _). Inr (st1, failed)))"

section \<open>Author commands\<close>

text \<open>
  \<open>authorCommand\<close>: the receipt of an earlier call with the same fingerprint is answered without running anything. The
  receipts are those of one result type; \<open>permanently_deleted\<close> recognises the marker a deletion leaves in a receipt.
\<close>

record 'r receipt_row =
  q_actor :: string
  q_request :: string
  q_fingerprint :: string
  q_result :: 'r

definition lockActor :: "store \<Rightarrow> string \<Rightarrow> store_error + unit" where
  "lockActor st actor = (if actor \<in> set (active_users st) then Inr () else Inl Not_found)"

definition actorTransaction :: "store \<Rightarrow> string \<Rightarrow> (store \<Rightarrow> 'r answer) \<Rightarrow> 'r answer" where
  "actorTransaction st actor run = rbind (lockActor st actor) (\<lambda>_. run st)"

definition authorCommand ::
  "('r \<Rightarrow> bool) \<Rightarrow> store \<Rightarrow> 'r receipt_row list \<Rightarrow> string \<Rightarrow> string \<Rightarrow> string \<Rightarrow> ('r \<Rightarrow> bool) \<Rightarrow> (store \<Rightarrow> 'r answer)
   \<Rightarrow> store_error + store \<times> 'r receipt_row list \<times> 'r" where
  "authorCommand permanently_deleted st receipts actor request fingerprint recorded run =
     rbind (lockActor st actor) (\<lambda>_.
       case find (\<lambda>q. q_actor q = actor \<and> q_request q = request) receipts of
         Some q \<Rightarrow>
           if q_fingerprint q \<noteq> fingerprint then Inl Conflict
           else if permanently_deleted (q_result q) then Inl Not_found
           else Inr (st, receipts, q_result q)
       | None \<Rightarrow> rbind (run st) (\<lambda>(st1, result).
           if \<not> recorded result then Inr (st, receipts, result)
           else Inr (st1, receipts @ [\<lparr>q_actor = actor, q_request = request, q_fingerprint = fingerprint,
                                       q_result = result\<rparr>], result)))"

end
