(* ===== verification/JobQueue.thy ===== *)
theory JobQueue
  imports PublishingStore
begin

text \<open>
  The durable job queue (\<open>services/community-postgres/src/publishing/jobs.ts\<close>, and the two operator commands of
  \<open>operator.ts\<close>): enqueueing, claims under a lease, renewal, completion, release, failure with backoff, and the requeue of
  expired leases.

  The payload column is the text of its JSON; \<open>digest\<close> is the database's \<open>md5\<close>. In \<open>insertJob\<close> the two statements of a
  round see what other transactions committed before them: \<open>between k\<close> is applied before the k-th statement (the identity
  when the transaction is alone). \<open>skip\<close> says which job rows another transaction holds (\<open>SKIP LOCKED\<close>).
\<close>

section \<open>Identifiers and delays\<close>

definition lower_or_digit :: "char \<Rightarrow> bool" where
  "lower_or_digit c \<longleftrightarrow> (CHR ''a'' \<le> c \<and> c \<le> CHR ''z'') \<or> (CHR ''0'' \<le> c \<and> c \<le> CHR ''9'')"

definition job_subject_ok :: "string \<Rightarrow> bool" where
  "job_subject_ok s = (case s of [] \<Rightarrow> False
     | c # rest \<Rightarrow> lower_or_digit c \<and> list_all (\<lambda>d. lower_or_digit d \<or> d = CHR ''-'') rest \<and> length rest \<le> 127)"

definition job_error_code_ok :: "string \<Rightarrow> bool" where
  "job_error_code_ok s = (case s of [] \<Rightarrow> False
     | c # rest \<Rightarrow> (CHR ''a'' \<le> c \<and> c \<le> CHR ''z'')
         \<and> list_all (\<lambda>d. lower_or_digit d \<or> d = CHR ''_'') rest \<and> length rest \<le> 63)"

definition backoff_base_ms :: int where "backoff_base_ms = 30000"
definition backoff_max_ms :: int where "backoff_max_ms = 60 * 60 * 1000"

definition jobBackoffMs :: "int \<Rightarrow> int" where
  "jobBackoffMs attempts =
     min (backoff_base_ms * 2 ^ nat (min (max (attempts - 1) 0) 20)) backoff_max_ms"

section \<open>Enqueueing\<close>

record enqueue =
  e_kind :: job_kind
  e_subject :: string
  e_payload :: "string option"
  e_run_after :: "instant option"
  e_max_attempts :: "int option"

definition default_max_attempts :: int where "default_max_attempts = 5"

definition active_job :: "job_row \<Rightarrow> bool" where
  "active_job j \<longleftrightarrow> j_state j = Queued \<or> j_state j = Running"

definition payload_text :: "string option \<Rightarrow> string" where
  "payload_text p = (case p of None \<Rightarrow> ''{}'' | Some t \<Rightarrow> t)"

definition same_work :: "(string \<Rightarrow> string) \<Rightarrow> job_kind \<Rightarrow> string \<Rightarrow> string option \<Rightarrow> job_row \<Rightarrow> bool" where
  "same_work digest kind subject payload j \<longleftrightarrow>
     j_kind j = kind \<and> j_subject j = subject
     \<and> digest (payload_text (j_payload j)) = digest (payload_text payload)"

definition new_job :: "string \<Rightarrow> enqueue \<Rightarrow> instant \<Rightarrow> job_row" where
  "new_job jid job now =
     \<lparr>j_id = jid, j_kind = e_kind job, j_subject = e_subject job, j_payload = e_payload job, j_state = Queued,
      j_attempts = 0,
      j_max_attempts = (case e_max_attempts job of None \<Rightarrow> default_max_attempts | Some m \<Rightarrow> m),
      j_run_after = (case e_run_after job of None \<Rightarrow> now | Some t \<Rightarrow> t),
      j_owner = None, j_expires = None, j_error = None,
      j_created_at = now, j_updated_at = now, j_finished_at = None\<rparr>"

fun insert_rounds ::
  "(string \<Rightarrow> string) \<Rightarrow> (nat \<Rightarrow> store \<Rightarrow> store) \<Rightarrow> (nat \<Rightarrow> string) \<Rightarrow> store \<Rightarrow> enqueue \<Rightarrow> instant \<Rightarrow> nat \<Rightarrow> nat
   \<Rightarrow> (string \<times> bool) answer" where
  "insert_rounds digest between draw st job now round 0 = Inl Enqueue_failed"
| "insert_rounds digest between draw st job now round (Suc n) =
     (let st1 = between (2 * round) st;
          equal = (\<lambda>j. same_work digest (e_kind job) (e_subject job) (e_payload job) j \<and> active_job j)
      in if \<exists>j \<in> set (jobs st1). equal j
         then (let st2 = between (2 * round + 1) st1 in
               case find equal (jobs st2) of
                 Some j \<Rightarrow> Inr (st2, (j_id j, False))
               | None \<Rightarrow> insert_rounds digest between draw st2 job now (round + 1) n)
         else if draw round \<in> set (map j_id (jobs st1)) then Inl Unique_violation
         else Inr (st1\<lparr>jobs := jobs st1 @ [new_job (draw round) job now]\<rparr>, (draw round, True)))"

definition insertJob ::
  "(string \<Rightarrow> string) \<Rightarrow> (nat \<Rightarrow> store \<Rightarrow> store) \<Rightarrow> (nat \<Rightarrow> string) \<Rightarrow> store \<Rightarrow> enqueue \<Rightarrow> instant
   \<Rightarrow> (string \<times> bool) answer" where
  "insertJob digest between draw st job now =
     (if \<not> job_subject_ok (e_subject job) then Inl Type_error
      else if (case e_max_attempts job of None \<Rightarrow> False | Some m \<Rightarrow> m < 1 \<or> 1000 < m) then Inl Type_error
      else insert_rounds digest between draw st job now 0 3)"

text \<open>Inside a transaction that holds what it needs, and as an operation of the port.\<close>

abbreviation insert_alone ::
  "(string \<Rightarrow> string) \<Rightarrow> (nat \<Rightarrow> string) \<Rightarrow> store \<Rightarrow> enqueue \<Rightarrow> instant \<Rightarrow> (string \<times> bool) answer" where
  "insert_alone digest draw \<equiv> insertJob digest (\<lambda>_ st. st) draw"

definition enqueueJob ::
  "(string \<Rightarrow> string) \<Rightarrow> (nat \<Rightarrow> string) \<Rightarrow> store \<Rightarrow> enqueue \<Rightarrow> instant \<Rightarrow> (string \<times> bool) answer" where
  "enqueueJob digest draw st job now = insert_alone digest draw st job now"

abbreviation plain_job :: "job_kind \<Rightarrow> string \<Rightarrow> enqueue" where
  "plain_job kind subject \<equiv>
     \<lparr>e_kind = kind, e_subject = subject, e_payload = None, e_run_after = None, e_max_attempts = None\<rparr>"

section \<open>Claims and leases\<close>

record claim =
  q_id :: string
  q_kind :: job_kind
  q_subject :: string
  q_payload :: "string option"
  q_attempts :: int
  q_max_attempts :: int
  q_owner :: string
  q_expires :: instant

record claim_options =
  o_owner :: string
  o_limit :: int
  o_lease_ms :: int
  o_kinds :: "job_kind list option"

definition claimOf :: "job_row \<Rightarrow> claim" where
  "claimOf j =
     \<lparr>q_id = j_id j, q_kind = j_kind j, q_subject = j_subject j, q_payload = j_payload j,
      q_attempts = j_attempts j, q_max_attempts = j_max_attempts j,
      q_owner = (case j_owner j of None \<Rightarrow> '''' | Some w \<Rightarrow> w),
      q_expires = (case j_expires j of None \<Rightarrow> 0 | Some t \<Rightarrow> t)\<rparr>"

definition claimable :: "(string \<Rightarrow> bool) \<Rightarrow> claim_options \<Rightarrow> instant \<Rightarrow> job_row \<Rightarrow> bool" where
  "claimable skip opts now j \<longleftrightarrow>
     j_state j = Queued \<and> j_run_after j \<le> now
     \<and> (case o_kinds opts of None \<Rightarrow> True | Some ks \<Rightarrow> j_kind j \<in> set ks) \<and> \<not> skip (j_id j)"

definition next_jobs :: "(string \<Rightarrow> bool) \<Rightarrow> claim_options \<Rightarrow> instant \<Rightarrow> job_row list \<Rightarrow> string list" where
  "next_jobs skip opts now rows =
     map j_id (take (nat (o_limit opts)) (sort_key (\<lambda>j. (j_run_after j, j_id j)) (filter (claimable skip opts now) rows)))"

definition start_job :: "claim_options \<Rightarrow> instant \<Rightarrow> job_row \<Rightarrow> job_row" where
  "start_job opts now j = j\<lparr>j_state := Running, j_attempts := j_attempts j + 1, j_owner := Some (o_owner opts),
     j_expires := Some (now + o_lease_ms opts), j_updated_at := now, j_finished_at := None\<rparr>"

definition claimJobs :: "(string \<Rightarrow> bool) \<Rightarrow> store \<Rightarrow> claim_options \<Rightarrow> instant \<Rightarrow> claim list answer" where
  "claimJobs skip st opts now =
     (if length (o_owner opts) < 1 \<or> 128 < length (o_owner opts) then Inl Type_error
      else if o_limit opts < 1 \<or> 100 < o_limit opts then Inl Type_error
      else if o_lease_ms opts < 1 then Inl Type_error
      else if o_kinds opts = Some [] then Inr (st, [])
      else let ids = next_jobs skip opts now (jobs st);
               rows = update_rows (\<lambda>j. j_id j \<in> set ids) (start_job opts now) (jobs st)
           in Inr (st\<lparr>jobs := rows\<rparr>,
                   map claimOf (sort_key (\<lambda>j. (j_run_after j, j_id j)) (filter (\<lambda>j. j_id j \<in> set ids) rows))))"

definition holds_lease :: "string \<Rightarrow> string \<Rightarrow> job_row \<Rightarrow> bool" where
  "holds_lease jid owner j \<longleftrightarrow> j_id j = jid \<and> j_state j = Running \<and> j_owner j = Some owner"

text \<open>An update of the row a lease holds; the answer is whether there was one.\<close>

definition with_lease :: "store \<Rightarrow> string \<Rightarrow> string \<Rightarrow> (job_row \<Rightarrow> job_row) \<Rightarrow> bool answer" where
  "with_lease st jid owner f =
     Inr (st\<lparr>jobs := update_rows (holds_lease jid owner) f (jobs st)\<rparr>, count_rows (holds_lease jid owner) (jobs st) = 1)"

definition renewJobLease :: "store \<Rightarrow> string \<Rightarrow> string \<Rightarrow> int \<Rightarrow> instant \<Rightarrow> bool answer" where
  "renewJobLease st jid owner leaseMs now =
     (if leaseMs < 1 then Inl Type_error
      else with_lease st jid owner (\<lambda>j. j\<lparr>j_expires := Some (now + leaseMs), j_updated_at := now\<rparr>))"

definition completeJob :: "store \<Rightarrow> string \<Rightarrow> string \<Rightarrow> instant \<Rightarrow> bool answer" where
  "completeJob st jid owner now =
     with_lease st jid owner (\<lambda>j. j\<lparr>j_state := Succeeded, j_expires := None, j_finished_at := Some now, j_updated_at := now\<rparr>)"

definition releaseJob :: "store \<Rightarrow> string \<Rightarrow> string \<Rightarrow> instant \<Rightarrow> bool answer" where
  "releaseJob st jid owner now =
     with_lease st jid owner (\<lambda>j. j\<lparr>j_state := Queued, j_attempts := max (j_attempts j - 1) 0, j_run_after := now,
       j_owner := None, j_expires := None, j_updated_at := now\<rparr>)"

datatype failure_outcome = Lease_lost | Retry_scheduled | Job_failed

definition retry_row :: "string \<Rightarrow> instant \<Rightarrow> instant \<Rightarrow> job_row \<Rightarrow> job_row" where
  "retry_row code at now j = j\<lparr>j_state := Queued, j_run_after := at, j_error := Some code, j_owner := None,
     j_expires := None, j_updated_at := now\<rparr>"

definition failed_row :: "string \<Rightarrow> instant \<Rightarrow> job_row \<Rightarrow> job_row" where
  "failed_row code now j = j\<lparr>j_state := Failed, j_error := Some code, j_expires := None,
     j_finished_at := Some now, j_updated_at := now\<rparr>"

definition failJob ::
  "store \<Rightarrow> string \<Rightarrow> string \<Rightarrow> string \<Rightarrow> bool \<Rightarrow> instant \<Rightarrow> failure_outcome answer" where
  "failJob st jid owner code retryable now =
     (if \<not> job_error_code_ok code then Inl Type_error
      else case find (holds_lease jid owner) (jobs st) of
        None \<Rightarrow> Inr (st, Lease_lost)
      | Some j \<Rightarrow>
          if retryable \<and> j_attempts j < j_max_attempts j
          then Inr (st\<lparr>jobs := update_rows (\<lambda>k. j_id k = jid)
                        (retry_row code (now + jobBackoffMs (j_attempts j)) now) (jobs st)\<rparr>, Retry_scheduled)
          else let st1 = st\<lparr>jobs := update_rows (\<lambda>k. j_id k = jid) (failed_row code now) (jobs st)\<rparr> in
            if j_kind j = Process_item
            then rbind (failProcessingItems st1 [j_subject j] now) (\<lambda>(st2, _). Inr (st2, Job_failed))
            else Inr (st1, Job_failed))"

section \<open>Expired leases\<close>

definition lease_expired :: "instant \<Rightarrow> job_row \<Rightarrow> bool" where
  "lease_expired now j \<longleftrightarrow>
     j_state j = Running \<and> (case j_expires j of None \<Rightarrow> False | Some t \<Rightarrow> t < now)"

definition expiry_order :: "job_row \<Rightarrow> instant \<times> string" where
  "expiry_order j = (case j_expires j of None \<Rightarrow> 0 | Some t \<Rightarrow> t, j_id j)"

definition expire_row :: "instant \<Rightarrow> job_row \<Rightarrow> job_row" where
  "expire_row now j =
     (let retry = j_attempts j < j_max_attempts j in
      j\<lparr>j_state := if retry then Queued else Failed,
        j_run_after := if retry then now else j_run_after j,
        j_finished_at := if retry then None else Some now,
        j_error := Some ''lease_expired'', j_owner := None, j_expires := None, j_updated_at := now\<rparr>)"

text \<open>The items of jobs about to fail for good are locked first; the jobs of the others stay for the next pass.\<close>

definition final_subjects :: "store \<Rightarrow> instant \<Rightarrow> int \<Rightarrow> string list" where
  "final_subjects st now limit =
     (let due = (\<lambda>j. lease_expired now j \<and> j_kind j = Process_item \<and> j_max_attempts j \<le> j_attempts j);
          candidates = remdups (map j_subject (take (nat limit) (sort_key expiry_order (filter due (jobs st)))))
      in filter (\<lambda>k. k \<in> set candidates) (map i_id (items st)))"

definition takes_expired :: "(string \<Rightarrow> bool) \<Rightarrow> instant \<Rightarrow> string list \<Rightarrow> job_row \<Rightarrow> bool" where
  "takes_expired skip now locked j \<longleftrightarrow> lease_expired now j \<and> \<not> skip (j_id j)
     \<and> (j_kind j \<noteq> Process_item \<or> j_attempts j < j_max_attempts j \<or> j_subject j \<in> set locked)"

definition expired_jobs :: "(string \<Rightarrow> bool) \<Rightarrow> store \<Rightarrow> instant \<Rightarrow> int \<Rightarrow> string list" where
  "expired_jobs skip st now limit =
     map j_id (take (nat limit) (sort_key expiry_order
       (filter (takes_expired skip now (final_subjects st now limit)) (jobs st))))"

definition requeueExpiredJobs :: "(string \<Rightarrow> bool) \<Rightarrow> store \<Rightarrow> instant \<Rightarrow> int \<Rightarrow> nat answer" where
  "requeueExpiredJobs skip st now limit =
     (if limit < 1 then Inl Type_error
      else let expired = expired_jobs skip st now limit;
               rows = update_rows (\<lambda>j. j_id j \<in> set expired) (expire_row now) (jobs st);
               failed = filter (\<lambda>j. j_id j \<in> set expired \<and> j_kind j = Process_item \<and> j_state j = Failed) rows
           in rbind (failProcessingItems (st\<lparr>jobs := rows\<rparr>) (map j_subject failed) now)
                (\<lambda>(st1, _). Inr (st1, length expired)))"

section \<open>Operator commands\<close>

definition retryJob :: "(string \<Rightarrow> string) \<Rightarrow> store \<Rightarrow> string \<Rightarrow> instant \<Rightarrow> job_row answer" where
  "retryJob digest st jid now =
     (case row_of j_id jid (jobs st) of
        None \<Rightarrow> Inl Not_found
      | Some j \<Rightarrow>
          if j_state j \<noteq> Failed \<and> j_state j \<noteq> Abandoned then Inl Conflict
          else if \<exists>o' \<in> set (jobs st). j_id o' \<noteq> jid
                    \<and> same_work digest (j_kind j) (j_subject j) (j_payload j) o' \<and> active_job o'
          then Inl Conflict
          else let again = j\<lparr>j_state := Queued, j_attempts := 0, j_run_after := now, j_owner := None,
                             j_expires := None, j_error := None, j_finished_at := None, j_updated_at := now\<rparr>
               in Inr (st\<lparr>jobs := update_rows (\<lambda>k. j_id k = jid) (\<lambda>_. again) (jobs st)\<rparr>, again))"

definition abandonJob :: "store \<Rightarrow> string \<Rightarrow> instant \<Rightarrow> job_row answer" where
  "abandonJob st jid now =
     (case row_of j_id jid (jobs st) of
        None \<Rightarrow> Inl Not_found
      | Some j \<Rightarrow>
          if j_state j \<noteq> Queued \<and> j_state j \<noteq> Failed then Inl Conflict
          else let gone = j\<lparr>j_state := Abandoned, j_owner := None, j_expires := None,
                            j_finished_at := Some now, j_updated_at := now\<rparr>;
                   st1 = st\<lparr>jobs := update_rows (\<lambda>k. j_id k = jid) (\<lambda>_. gone) (jobs st)\<rparr>
               in if j_kind j = Process_item
                  then rbind (failProcessingItems st1 [j_subject j] now) (\<lambda>(st2, _). Inr (st2, gone))
                  else Inr (st1, gone))"

end
