(* ===== verification/JobWorker.thy ===== *)
theory JobWorker
  imports JobQueue
begin

text \<open>
  The publishing job worker (\<open>services/backend-production/src/publishing/worker.ts\<close>): \<open>class PublishingWorker\<close> as a record,
  its asynchronous functions cut at their awaits. The objects \<open>ActiveRun\<close> are kept in a list, by the index they were created
  at, since a promise of an earlier run may still be waiting when the same job runs again. A step reads the clock once
  (\<open>now\<close>) and returns the calls it makes of the queue; the answers come back as events, at any time and in any order.
  A timer is what its flag says: it may fire at any time while it is armed. The log lines are left out.
\<close>

section \<open>Failure classes\<close>

text \<open>What was thrown: nothing but the class name and the \<open>code\<close> of an \<open>Error\<close> is looked at.\<close>

datatype thrown = Not_an_error | Thrown (error_name: string) (error_code: "string option")

definition short_code_ok :: "string \<Rightarrow> bool" where
  "short_code_ok s = (case s of [] \<Rightarrow> False
     | c # rest \<Rightarrow> (CHR ''a'' \<le> c \<and> c \<le> CHR ''z'')
         \<and> list_all (\<lambda>d. lower_or_digit d \<or> d = CHR ''_'') rest \<and> length rest \<le> 31)"

definition codeOf :: "thrown \<Rightarrow> string option" where
  "codeOf e = (case e of Thrown n (Some c) \<Rightarrow> if short_code_ok c then Some c else None | _ \<Rightarrow> None)"

definition classifyPublishingJobError :: "thrown \<Rightarrow> string \<times> bool" where
  "classifyPublishingJobError e =
     (case e of Not_an_error \<Rightarrow> (''unexpected_error'', True)
      | Thrown name _ \<Rightarrow>
        let code = codeOf e in
        if name = ''MediaToolError''
        then ((case code of None \<Rightarrow> ''media_tool_failure'' | Some c \<Rightarrow> ''media_tool_'' @ c), True)
        else if name = ''PublishingMediaStoreError''
        then ((case code of None \<Rightarrow> ''media_store_failure'' | Some c \<Rightarrow> ''media_store_'' @ c), True)
        else if name = ''MediaProcessingUnavailableError'' then (''processing_unavailable'', True)
        else if name = ''PublishingJobSystemError''
        then ((case code of None \<Rightarrow> ''system_failure'' | Some c \<Rightarrow> c), True)
        else if name = ''CommunityStoreUnavailableError'' then (''database_unavailable'', True)
        else if name = ''CommunityConflictError'' then (''state_conflict'', True)
        else if name = ''MediaProcessingInputError'' then (''processing_input_invalid'', False)
        else if name = ''CommunityNotFoundError'' then (''subject_not_found'', False)
        else if name = ''CommunityInputError'' then (''invalid_job_input'', False)
        else (''unexpected_error'', True))"

section \<open>Configuration\<close>

record worker_options =
  wo_concurrency :: "int option"
  wo_owner :: "string option"
  wo_kinds :: "job_kind list option"
  wo_maintenance :: "bool option"
  wo_poll :: "int option"
  wo_lease :: "int option"
  wo_renew :: "int option"
  wo_shutdown_grace :: "int option"
  wo_abort_grace :: "int option"
  wo_requeue :: "int option"
  wo_cleanup :: "int option"
  wo_sweep :: "int option"
  wo_reconcile :: "int option"
  wo_limit :: "int option"

record worker_config =
  wc_concurrency :: int
  wc_owner :: string
  wc_kinds :: "job_kind list option"
  wc_maintenance :: bool
  wc_poll :: int
  wc_lease :: int
  wc_renew :: int
  wc_safety :: int
  wc_shutdown_grace :: int
  wc_abort_grace :: int
  wc_requeue :: int
  wc_cleanup :: int
  wc_sweep :: int
  wc_reconcile :: int
  wc_limit :: int

definition owner_char :: "char \<Rightarrow> bool" where
  "owner_char c \<longleftrightarrow> lower_or_digit c \<or> (CHR ''A'' \<le> c \<and> c \<le> CHR ''Z'')"

definition owner_ok :: "string \<Rightarrow> bool" where
  "owner_ok s = (case s of [] \<Rightarrow> False
     | c # rest \<Rightarrow> owner_char c \<and> list_all (\<lambda>d. owner_char d \<or> d \<in> set ''._:-'') rest \<and> length rest \<le> 99)"

definition max_safe_integer :: int where "max_safe_integer = 2 ^ 53 - 1"

text \<open>\<open>None\<close>: the constructor throws. A number option is an integer here; a fraction throws as a negative one does.\<close>

definition positive :: "int option \<Rightarrow> int \<Rightarrow> int option" where
  "positive value fallback =
     (let result = (case value of None \<Rightarrow> fallback | Some v \<Rightarrow> v) in
      if max_safe_integer < abs result \<or> result < 1 then None else Some result)"

definition newWorker :: "string \<Rightarrow> worker_options \<Rightarrow> worker_config option" where
  "newWorker random_owner opts =
     Option.bind (positive (wo_concurrency opts) 1) (\<lambda>concurrency. if 4 < concurrency then None else
     (let owner = (case wo_owner opts of None \<Rightarrow> random_owner | Some w \<Rightarrow> w) in if \<not> owner_ok owner then None else
     Option.bind (positive (wo_poll opts) 1000) (\<lambda>poll.
     Option.bind (positive (wo_lease opts) (5 * 60 * 1000)) (\<lambda>lease.
     Option.bind (positive (wo_renew opts) (max 1 (lease div 3))) (\<lambda>renew. if lease \<le> renew then None else
     Option.bind (positive (wo_shutdown_grace opts) 30000) (\<lambda>shutdown_grace.
     Option.bind (positive (wo_abort_grace opts) 5000) (\<lambda>abort_grace.
     Option.bind (positive (wo_requeue opts) 30000) (\<lambda>requeue.
     Option.bind (positive (wo_cleanup opts) 60000) (\<lambda>cleanup.
     Option.bind (positive (wo_sweep opts) (60 * 60 * 1000)) (\<lambda>sweep.
     Option.bind (positive (wo_reconcile opts) (6 * 60 * 60 * 1000)) (\<lambda>reconcile.
     Option.bind (positive (wo_limit opts) 100) (\<lambda>limit.
       Some \<lparr>wc_concurrency = concurrency, wc_owner = owner, wc_kinds = wo_kinds opts,
             wc_maintenance = (case wo_maintenance opts of None \<Rightarrow> True | Some b \<Rightarrow> b),
             wc_poll = poll, wc_lease = lease, wc_renew = renew,
             wc_safety = min 30000 (min (lease div 10) ((lease - renew) div 2)),
             wc_shutdown_grace = shutdown_grace, wc_abort_grace = abort_grace, wc_requeue = requeue,
             wc_cleanup = cleanup, wc_sweep = sweep, wc_reconcile = reconcile, wc_limit = limit\<rparr>))))))))))))"

section \<open>State\<close>

datatype abort_reason = Shutdown_abort | Lease_abort

datatype run_stage = At_start | At_handler | At_complete | At_fail | At_on_failed | At_release | At_end | Over

record active_run =
  run_claim :: claim
  run_until :: instant
  run_renew_timer :: bool
  run_deadline :: "instant option"
  run_settled :: bool
  run_finished :: bool
  run_aborted :: "abort_reason option"
  run_stage :: run_stage
  run_renewing :: "instant option"

datatype phase = Idle | Working | Stopping | Stopped

datatype tick_stage = Maintaining nat instant bool bool | Claiming bool int | Tick_over

datatype shutdown_stage = No_shutdown | Waiting_grace | Waiting_aborted "nat list" | Waiting_released "nat list"
  | Waiting_releases | Shutdown_over

record worker =
  wk_phase :: phase
  wk_heap :: "active_run list"
  wk_runs :: "(string \<times> nat) list"
  wk_poll :: "int option"
  wk_tick :: "tick_stage option"
  wk_rerun :: bool
  wk_streak :: nat
  wk_seq :: nat
  wk_next :: "instant list"
  wk_shutdown :: shutdown_stage

definition worker0 :: worker where
  "worker0 = \<lparr>wk_phase = Idle, wk_heap = [], wk_runs = [], wk_poll = None, wk_tick = None, wk_rerun = False,
     wk_streak = 0, wk_seq = 0, wk_next = [0, 0, 0, 0], wk_shutdown = No_shutdown\<rparr>"

datatype release_origin = Of_execute nat | Of_shutdown nat | Of_unrun

datatype port_call =
    Claim_call claim_options
  | Renew_call nat string string int
  | Complete_call nat string string
  | Fail_call nat string string string bool
  | Release_call release_origin string string
  | Requeue_call int
  | Cleanup_call instant int
  | Enqueue_call instant job_kind string

datatype handler_result = Completed_result | Failed_result string bool

text \<open>What may happen to a worker. The rejection of a call is \<open>None\<close>.\<close>

datatype worker_event =
    Start | Stop
  | Poll_timer | Tick_continue | Maintained bool | Claimed "claim list option" | Tick_finally
  | Run_begins nat | Handler_returned nat handler_result | Handler_threw nat thrown
  | Completed nat | Fail_recorded nat "failure_outcome option" | On_failed_done nat | Released release_origin
  | Run_finally nat
  | Renew_timer nat | Renewed nat "bool option" | Deadline_timer nat
  | Shutdown_continue

definition upd_run :: "nat \<Rightarrow> (active_run \<Rightarrow> active_run) \<Rightarrow> worker \<Rightarrow> worker" where
  "upd_run r f w = w\<lparr>wk_heap := (if r < length (wk_heap w) then (wk_heap w)[r := f (wk_heap w ! r)] else wk_heap w)\<rparr>"

text \<open>A promise of a run that no longer counts does nothing.\<close>

definition gone :: "active_run \<Rightarrow> bool" where
  "gone run \<longleftrightarrow> run_finished run \<or> run_settled run \<or> run_aborted run \<noteq> None"

fun base36_digit :: "nat \<Rightarrow> char" where
  "base36_digit n = (if n < 10 then char_of (48 + n) else char_of (87 + n))"

fun base36 :: "nat \<Rightarrow> string" where
  "base36 n = (if n < 36 then [base36_digit n] else base36 (n div 36) @ [base36_digit (n mod 36)])"

declare base36.simps [simp del]

definition lease_label :: "string \<Rightarrow> nat \<Rightarrow> string" where
  "lease_label owner k = owner @ ''.'' @ base36 k"

section \<open>Runs\<close>

definition armDeadline :: "worker_config \<Rightarrow> active_run \<Rightarrow> active_run" where
  "armDeadline cfg run = run\<lparr>run_deadline := Some (run_until run - wc_safety cfg)\<rparr>"

definition scheduleRenewal :: "active_run \<Rightarrow> active_run" where
  "scheduleRenewal run = run\<lparr>run_renew_timer := True\<rparr>"

definition clearRunTimers :: "active_run \<Rightarrow> active_run" where
  "clearRunTimers run = run\<lparr>run_renew_timer := False, run_deadline := None\<rparr>"

definition abort_run :: "abort_reason \<Rightarrow> active_run \<Rightarrow> active_run" where
  "abort_run reason run = (case run_aborted run of None \<Rightarrow> run\<lparr>run_aborted := Some reason\<rparr> | Some _ \<Rightarrow> run)"

definition loseLease :: "active_run \<Rightarrow> active_run" where
  "loseLease run = abort_run Lease_abort run"

definition startRun :: "worker_config \<Rightarrow> claim \<Rightarrow> worker \<Rightarrow> worker" where
  "startRun cfg q w =
     (let run = \<lparr>run_claim = q, run_until = q_expires q, run_renew_timer = False, run_deadline = None,
                 run_settled = False, run_finished = False, run_aborted = None, run_stage = At_start,
                 run_renewing = None\<rparr>
      in w\<lparr>wk_heap := wk_heap w @ [armDeadline cfg (scheduleRenewal run)],
           wk_runs := wk_runs w @ [(q_id q, length (wk_heap w))]\<rparr>)"

definition schedule :: "int \<Rightarrow> worker \<Rightarrow> worker" where
  "schedule delay w = (if wk_phase w = Working then w\<lparr>wk_poll := Some delay\<rparr> else w)"

definition wake :: "worker \<Rightarrow> worker" where
  "wake w = (if wk_phase w \<noteq> Working then w
     else if wk_tick w \<noteq> None then w\<lparr>wk_rerun := True\<rparr> else schedule 0 w)"

definition runFinally :: "nat \<Rightarrow> worker \<Rightarrow> worker" where
  "runFinally r w =
     (let run = wk_heap w ! r;
          w1 = upd_run r (\<lambda>run. (clearRunTimers run)\<lparr>run_finished := True, run_stage := Over\<rparr>) w
      in wake (w1\<lparr>wk_runs := filter (\<lambda>(key, _). key \<noteq> q_id (run_claim run)) (wk_runs w1)\<rparr>))"

definition lease_call_release :: "release_origin \<Rightarrow> claim \<Rightarrow> port_call" where
  "lease_call_release origin q = Release_call origin (q_id q) (q_owner q)"

definition record_outcome :: "nat \<Rightarrow> handler_result \<Rightarrow> worker \<Rightarrow> worker \<times> port_call list" where
  "record_outcome r result w =
     (let q = run_claim (wk_heap w ! r) in
      case result of
        Completed_result \<Rightarrow>
          (upd_run r (\<lambda>run. run\<lparr>run_settled := True, run_stage := At_complete\<rparr>) w,
           [Complete_call r (q_id q) (q_owner q)])
      | Failed_result code retryable \<Rightarrow>
          (upd_run r (\<lambda>run. run\<lparr>run_settled := True, run_stage := At_fail\<rparr>) w,
           [Fail_call r (q_id q) (q_owner q) (if job_error_code_ok code then code else ''unexpected_error'') retryable]))"

definition handlerReturned :: "nat \<Rightarrow> handler_result \<Rightarrow> worker \<Rightarrow> worker \<times> port_call list" where
  "handlerReturned r result w =
     (if run_settled (wk_heap w ! r) then (upd_run r (\<lambda>run. run\<lparr>run_stage := At_end\<rparr>) w, [])
      else record_outcome r result w)"

definition handlerThrew :: "nat \<Rightarrow> thrown \<Rightarrow> worker \<Rightarrow> worker \<times> port_call list" where
  "handlerThrew r e w =
     (let run = wk_heap w ! r in
      if run_settled run then (upd_run r (\<lambda>run. run\<lparr>run_stage := At_end\<rparr>) w, [])
      else case run_aborted run of
        Some Shutdown_abort \<Rightarrow>
          (upd_run r (\<lambda>run. run\<lparr>run_settled := True, run_stage := At_release\<rparr>) w,
           [lease_call_release (Of_execute r) (run_claim run)])
      | Some Lease_abort \<Rightarrow> (upd_run r (\<lambda>run. run\<lparr>run_stage := At_end\<rparr>) w, [])
      | None \<Rightarrow> (case classifyPublishingJobError e of (code, retryable) \<Rightarrow> record_outcome r (Failed_result code retryable) w))"

definition failRecorded :: "bool \<Rightarrow> nat \<Rightarrow> failure_outcome option \<Rightarrow> worker \<Rightarrow> worker" where
  "failRecorded has_on_failed r outcome w =
     upd_run r (\<lambda>run. run\<lparr>run_stage := if outcome = Some Job_failed \<and> has_on_failed then At_on_failed else At_end\<rparr>) w"

section \<open>Leases\<close>

definition deadlineTimer :: "worker_config \<Rightarrow> instant \<Rightarrow> nat \<Rightarrow> worker \<Rightarrow> worker" where
  "deadlineTimer cfg now r w =
     upd_run r (\<lambda>run.
       case run_deadline run of None \<Rightarrow> run
       | Some abortAt \<Rightarrow>
           let fired = run\<lparr>run_deadline := None\<rparr> in
           if gone run then fired
           else if now < abortAt then armDeadline cfg fired
           else loseLease fired) w"

definition renew :: "worker_config \<Rightarrow> instant \<Rightarrow> nat \<Rightarrow> worker \<Rightarrow> worker \<times> port_call list" where
  "renew cfg now r w =
     (let run = wk_heap w ! r; fired = (\<lambda>run. run\<lparr>run_renew_timer := False\<rparr>) in
      if gone run then (upd_run r fired w, [])
      else (upd_run r (\<lambda>run. (fired run)\<lparr>run_renewing := Some now\<rparr>) w,
            [Renew_call r (q_id (run_claim run)) (q_owner (run_claim run)) (wc_lease cfg)]))"

definition renewed :: "worker_config \<Rightarrow> instant \<Rightarrow> bool option \<Rightarrow> active_run \<Rightarrow> active_run" where
  "renewed cfg now held run =
     (case run_renewing run of None \<Rightarrow> run
      | Some sent \<Rightarrow>
        let run1 = run\<lparr>run_renewing := None\<rparr> in
        if gone run then run1
        else
          let run2 = (if held = Some True then armDeadline cfg (run1\<lparr>run_until := sent + wc_lease cfg\<rparr>) else run1) in
          if held = Some False \<or> run_until run2 - wc_safety cfg \<le> now then loseLease run2
          else scheduleRenewal run2)"

section \<open>Polling\<close>

definition due_at :: "worker \<Rightarrow> nat \<Rightarrow> instant" where
  "due_at w k = (if k < length (wk_next w) then wk_next w ! k else 0)"

definition interval :: "worker_config \<Rightarrow> nat \<Rightarrow> int" where
  "interval cfg k = (if k = 0 then wc_requeue cfg else if k = 1 then wc_cleanup cfg
     else if k = 2 then wc_sweep cfg else wc_reconcile cfg)"

text \<open>The later calls of \<open>maintain\<close> pass the clock it read when it began; the first is made at that very time.\<close>

definition maintenance_call :: "worker_config \<Rightarrow> nat \<Rightarrow> instant \<Rightarrow> port_call" where
  "maintenance_call cfg k at =
     (if k = 0 then Requeue_call (wc_limit cfg) else if k = 1 then Cleanup_call at (wc_limit cfg)
      else if k = 2 then Enqueue_call at Sweep_staging ''staging'' else Enqueue_call at Reconcile_capacity ''media-store'')"

text \<open>The k-th step of \<open>maintain\<close>, with the clock \<open>maintain\<close> read when it began.\<close>

definition maintain_step :: "worker_config \<Rightarrow> nat \<Rightarrow> instant \<Rightarrow> bool \<Rightarrow> worker \<Rightarrow> worker \<times> port_call list" where
  "maintain_step cfg k at failure w =
     (if at < due_at w k then (w\<lparr>wk_tick := Some (Maintaining k at failure False)\<rparr>, [])
      else (w\<lparr>wk_next := (wk_next w)[k := at + interval cfg k], wk_tick := Some (Maintaining k at failure True)\<rparr>,
            [maintenance_call cfg k at]))"

definition finish_tick :: "bool \<Rightarrow> worker \<Rightarrow> worker" where
  "finish_tick healthy w = w\<lparr>wk_streak := if healthy then 0 else wk_streak w + 1, wk_tick := Some Tick_over\<rparr>"

definition claim_part :: "worker_config \<Rightarrow> bool \<Rightarrow> worker \<Rightarrow> worker \<times> port_call list" where
  "claim_part cfg healthy w =
     (let free = wc_concurrency cfg - int (length (wk_runs w)) in
      if wk_phase w = Working \<and> 0 < free
      then let k = wk_seq w + 1 in
        (w\<lparr>wk_seq := k, wk_tick := Some (Claiming healthy free)\<rparr>,
         [Claim_call \<lparr>o_owner = lease_label (wc_owner cfg) k, o_limit = free, o_lease_ms = wc_lease cfg,
                      o_kinds = wc_kinds cfg\<rparr>])
      else (finish_tick healthy w, []))"

definition maintain_next :: "worker_config \<Rightarrow> nat \<Rightarrow> instant \<Rightarrow> bool \<Rightarrow> worker \<Rightarrow> worker \<times> port_call list" where
  "maintain_next cfg k at failure w =
     (if k + 1 < 4 then maintain_step cfg (k + 1) at failure w else claim_part cfg (\<not> failure) w)"

definition runTick :: "worker_config \<Rightarrow> instant \<Rightarrow> worker \<Rightarrow> worker \<times> port_call list" where
  "runTick cfg now w =
     (if wk_phase w \<noteq> Working then (w, [])
      else if wk_tick w \<noteq> None then (w\<lparr>wk_rerun := True\<rparr>, [])
      else if wc_maintenance cfg then maintain_step cfg 0 now False w
      else claim_part cfg True w)"

fun take_claims :: "worker_config \<Rightarrow> int \<Rightarrow> nat \<Rightarrow> claim list \<Rightarrow> worker \<Rightarrow> worker \<times> port_call list" where
  "take_claims cfg free index [] w = (w, [])"
| "take_claims cfg free index (q # qs) w =
     (if wk_phase w = Working \<and> int index < free \<and> q_id q \<notin> fst ` set (wk_runs w)
      then take_claims cfg free (index + 1) qs (startRun cfg q w)
      else (case take_claims cfg free (index + 1) qs w of
              (w1, calls) \<Rightarrow> (w1, lease_call_release Of_unrun q # calls)))"

definition claimed :: "worker_config \<Rightarrow> claim list option \<Rightarrow> worker \<Rightarrow> worker \<times> port_call list" where
  "claimed cfg answer w =
     (case wk_tick w of
        Some (Claiming healthy free) \<Rightarrow>
          (case answer of
             None \<Rightarrow> (finish_tick False w, [])
           | Some qs \<Rightarrow> (case take_claims cfg free 0 qs w of (w1, calls) \<Rightarrow> (finish_tick healthy w1, calls)))
      | _ \<Rightarrow> (w, []))"

definition max_error_backoff_ms :: int where "max_error_backoff_ms = 30000"

definition tickFinally :: "worker_config \<Rightarrow> worker \<Rightarrow> worker" where
  "tickFinally cfg w =
     (let w1 = w\<lparr>wk_tick := None\<rparr> in
      if wk_phase w \<noteq> Working then w1
      else if wk_rerun w then schedule 0 (w1\<lparr>wk_rerun := False\<rparr>)
      else schedule (if wk_streak w = 0 then wc_poll cfg
                     else min max_error_backoff_ms (wc_poll cfg * 2 ^ min (wk_streak w) 15)) w1)"

section \<open>Starting and stopping\<close>

definition start :: "worker \<Rightarrow> worker" where
  "start w = (if wk_phase w \<noteq> Idle then w else schedule 0 (w\<lparr>wk_phase := Working\<rparr>))"

definition stop :: "worker \<Rightarrow> worker" where
  "stop w =
     (if wk_shutdown w \<noteq> No_shutdown then w
      else if wk_phase w = Idle then w\<lparr>wk_phase := Stopped, wk_shutdown := Shutdown_over\<rparr>
      else w\<lparr>wk_phase := Stopping, wk_poll := None, wk_shutdown := Waiting_grace\<rparr>)"

definition upd_runs :: "nat list \<Rightarrow> (active_run \<Rightarrow> active_run) \<Rightarrow> worker \<Rightarrow> worker" where
  "upd_runs rs f w = fold (\<lambda>r. upd_run r f) rs w"

text \<open>The parts of \<open>shutdown\<close> after each wait; a wait ends when what it waits for has settled or its time is over.\<close>

definition shutdown_continue :: "worker \<Rightarrow> worker \<times> port_call list" where
  "shutdown_continue w =
     (case wk_shutdown w of
        Waiting_grace \<Rightarrow>
          if wk_runs w = [] then (w\<lparr>wk_shutdown := Waiting_releases\<rparr>, [])
          else let remaining = map snd (wk_runs w) in
            ((upd_runs remaining (abort_run Shutdown_abort) w)\<lparr>wk_shutdown := Waiting_aborted remaining\<rparr>, [])
      | Waiting_aborted remaining \<Rightarrow>
          let unsettled = filter (\<lambda>r. \<not> run_settled (wk_heap w ! r)) remaining in
            ((upd_runs unsettled (\<lambda>run. run\<lparr>run_settled := True\<rparr>) w)\<lparr>wk_shutdown := Waiting_released remaining\<rparr>,
             map (\<lambda>r. lease_call_release (Of_shutdown r) (run_claim (wk_heap w ! r))) unsettled)
      | Waiting_released remaining \<Rightarrow>
          ((upd_runs remaining clearRunTimers w)\<lparr>wk_shutdown := Waiting_releases\<rparr>, [])
      | Waiting_releases \<Rightarrow> (w\<lparr>wk_phase := Stopped, wk_shutdown := Shutdown_over\<rparr>, [])
      | _ \<Rightarrow> (w, []))"

section \<open>Steps\<close>

text \<open>When an event can happen, and what it does.\<close>

definition stage_is :: "worker \<Rightarrow> nat \<Rightarrow> run_stage \<Rightarrow> bool" where
  "stage_is w r s \<longleftrightarrow> r < length (wk_heap w) \<and> run_stage (wk_heap w ! r) = s"

fun can_happen :: "worker_event \<Rightarrow> worker \<Rightarrow> bool" where
  "can_happen Start w = True"
| "can_happen Stop w = True"
| "can_happen Poll_timer w \<longleftrightarrow> wk_poll w \<noteq> None"
| "can_happen Tick_continue w = (case wk_tick w of Some (Maintaining k at f waiting) \<Rightarrow> \<not> waiting | _ \<Rightarrow> False)"
| "can_happen (Maintained ok) w = (case wk_tick w of Some (Maintaining k at f waiting) \<Rightarrow> waiting | _ \<Rightarrow> False)"
| "can_happen (Claimed a) w = (case wk_tick w of Some (Claiming h f) \<Rightarrow> True | _ \<Rightarrow> False)"
| "can_happen Tick_finally w \<longleftrightarrow> wk_tick w = Some Tick_over"
| "can_happen (Run_begins r) w = stage_is w r At_start"
| "can_happen (Handler_returned r a) w = stage_is w r At_handler"
| "can_happen (Handler_threw r e) w = stage_is w r At_handler"
| "can_happen (Completed r) w = stage_is w r At_complete"
| "can_happen (Fail_recorded r a) w = stage_is w r At_fail"
| "can_happen (On_failed_done r) w = stage_is w r At_on_failed"
| "can_happen (Released origin) w = (case origin of Of_execute r \<Rightarrow> stage_is w r At_release | _ \<Rightarrow> True)"
| "can_happen (Run_finally r) w = stage_is w r At_end"
| "can_happen (Renew_timer r) w \<longleftrightarrow> r < length (wk_heap w) \<and> run_renew_timer (wk_heap w ! r)"
| "can_happen (Renewed r held) w \<longleftrightarrow> r < length (wk_heap w) \<and> run_renewing (wk_heap w ! r) \<noteq> None"
| "can_happen (Deadline_timer r) w \<longleftrightarrow> r < length (wk_heap w) \<and> run_deadline (wk_heap w ! r) \<noteq> None"
| "can_happen Shutdown_continue w \<longleftrightarrow> wk_shutdown w \<noteq> No_shutdown \<and> wk_shutdown w \<noteq> Shutdown_over"

definition set_stage :: "nat \<Rightarrow> run_stage \<Rightarrow> worker \<Rightarrow> worker" where
  "set_stage r s = upd_run r (\<lambda>run. run\<lparr>run_stage := s\<rparr>)"

fun worker_step :: "worker_config \<Rightarrow> bool \<Rightarrow> instant \<Rightarrow> worker_event \<Rightarrow> worker \<Rightarrow> worker \<times> port_call list" where
  "worker_step cfg onf now Start w = (start w, [])"
| "worker_step cfg onf now Stop w = (stop w, [])"
| "worker_step cfg onf now Poll_timer w = runTick cfg now (w\<lparr>wk_poll := None\<rparr>)"
| "worker_step cfg onf now Tick_continue w =
     (case wk_tick w of Some (Maintaining k at failure _) \<Rightarrow> maintain_next cfg k at failure w | _ \<Rightarrow> (w, []))"
| "worker_step cfg onf now (Maintained ok) w =
     (case wk_tick w of Some (Maintaining k at failure _) \<Rightarrow> maintain_next cfg k at (failure \<or> \<not> ok) w | _ \<Rightarrow> (w, []))"
| "worker_step cfg onf now (Claimed a) w = claimed cfg a w"
| "worker_step cfg onf now Tick_finally w = (tickFinally cfg w, [])"
| "worker_step cfg onf now (Run_begins r) w = (set_stage r At_handler w, [])"
| "worker_step cfg onf now (Handler_returned r a) w = handlerReturned r a w"
| "worker_step cfg onf now (Handler_threw r e) w = handlerThrew r e w"
| "worker_step cfg onf now (Completed r) w = (set_stage r At_end w, [])"
| "worker_step cfg onf now (Fail_recorded r a) w = (failRecorded onf r a w, [])"
| "worker_step cfg onf now (On_failed_done r) w = (set_stage r At_end w, [])"
| "worker_step cfg onf now (Released origin) w =
     (case origin of Of_execute r \<Rightarrow> set_stage r At_end w | _ \<Rightarrow> w, [])"
| "worker_step cfg onf now (Run_finally r) w = (runFinally r w, [])"
| "worker_step cfg onf now (Renew_timer r) w = renew cfg now r w"
| "worker_step cfg onf now (Renewed r held) w = (upd_run r (renewed cfg now held) w, [])"
| "worker_step cfg onf now (Deadline_timer r) w = (deadlineTimer cfg now r w, [])"
| "worker_step cfg onf now Shutdown_continue w = shutdown_continue w"

end
