(* ===== verification/JobCleanup.thy ===== *)
theory JobCleanup
  imports JobQueue
begin

text \<open>
  Cleanup scheduling (\<open>scheduleCleanup\<close> of \<open>services/community-postgres/src/publishing/jobs.ts\<close>): edit derivatives nothing
  needs are released, the sessions, trashed works, items and blobs whose time has come get a job, and succeeded jobs are kept
  for a week. \<open>skip\<close> says which rows another transaction holds, \<open>draw\<close> supplies the identifiers.

  \<open>needed\<close> stands for \<open>derivativeNeededSql\<close>: it reads the JSON contents of drafts, snapshots and revisions through a
  function of the database.
\<close>

definition hour_ms :: int where "hour_ms = 60 * 60 * 1000"
definition day_ms :: int where "day_ms = 24 * 60 * 60 * 1000"

definition blob_purge_delay :: int where "blob_purge_delay = hour_ms"
definition succeeded_job_retention :: int where "succeeded_job_retention = 7 * day_ms"

section \<open>Derivatives nothing needs\<close>

definition held_by_active_session :: "store \<Rightarrow> string \<Rightarrow> bool" where
  "held_by_active_session st itemId \<longleftrightarrow>
     (\<exists>r \<in> set (refs st). r_item r = itemId \<and> r_holder_kind r = Session_holder
        \<and> (\<exists>s \<in> set (sessions st). s_id s = r_holder_id r \<and> s_state s = Session_active))"

definition unused_derivative ::
  "(store \<Rightarrow> item_row \<Rightarrow> derivative_row \<Rightarrow> bool) \<Rightarrow> store \<Rightarrow> instant \<Rightarrow> derivative_row \<Rightarrow> bool" where
  "unused_derivative needed st now d \<longleftrightarrow>
     d_edit_key d \<noteq> ''base'' \<and> d_created_at d < now - blob_purge_delay
     \<and> (\<exists>i \<in> set (items st). i_id i = d_item d \<and> i_state i = Ready
          \<and> \<not> held_by_active_session st (i_id i) \<and> \<not> needed st i d)"

definition releaseUnusedDerivatives ::
  "(store \<Rightarrow> item_row \<Rightarrow> derivative_row \<Rightarrow> bool) \<Rightarrow> (string \<Rightarrow> bool) \<Rightarrow> store \<Rightarrow> instant \<Rightarrow> int \<Rightarrow> store" where
  "releaseUnusedDerivatives needed skip st now limit =
     (let candidates = remdups (map d_item (take (nat limit) (sort_key (\<lambda>d. (d_created_at d, d_item d))
                         (filter (unused_derivative needed st now) (derivatives st)))));
          locked = filter (\<lambda>k. k \<in> set candidates \<and> \<not> skip k) (map i_id (items st))
      in st\<lparr>derivatives := filter (\<lambda>d. \<not> (d_item d \<in> set locked \<and> unused_derivative needed st now d)) (derivatives st)\<rparr>)"

section \<open>Jobs for what is due\<close>

definition open_or_unresolved :: "store \<Rightarrow> job_kind \<Rightarrow> string \<Rightarrow> bool" where
  "open_or_unresolved st kind subject \<longleftrightarrow>
     (\<exists>j \<in> set (jobs st). j_kind j = kind \<and> j_subject j = subject \<and> j_state j \<in> {Queued, Running, Failed, Abandoned})"

text \<open>One \<open>INSERT ... SELECT ... ON CONFLICT DO NOTHING\<close>; the row constraints of the table are checked.\<close>

fun scheduleKind ::
  "(string \<Rightarrow> string) \<Rightarrow> (nat \<Rightarrow> string) \<Rightarrow> job_kind \<Rightarrow> string list \<Rightarrow> instant \<Rightarrow> store \<Rightarrow> nat answer" where
  "scheduleKind digest draw kind [] now st = Inr (st, 0)"
| "scheduleKind digest draw kind (s # ss) now st =
     (if \<exists>j \<in> set (jobs st). same_work digest kind s None j \<and> active_job j
      then scheduleKind digest (\<lambda>n. draw (n + 1)) kind ss now st
      else if \<not> job_subject_ok s then Inl Check_violation
      else if draw 0 \<in> set (map j_id (jobs st)) then Inl Unique_violation
      else rbind (scheduleKind digest (\<lambda>n. draw (n + 1)) kind ss now
                    (st\<lparr>jobs := jobs st @ [new_job (draw 0) (plain_job kind s) now]\<rparr>))
             (\<lambda>(st1, n). Inr (st1, n + 1)))"

definition earliest :: "int \<Rightarrow> ('a \<Rightarrow> instant \<times> string) \<Rightarrow> 'a list \<Rightarrow> 'a list" where
  "earliest limit order rows = take (nat limit) (sort_key order rows)"

definition expired_sessions :: "store \<Rightarrow> instant \<Rightarrow> int \<Rightarrow> string list" where
  "expired_sessions st now limit =
     map s_id (earliest limit (\<lambda>s. (s_expires s, s_id s))
       (filter (\<lambda>s. s_state s = Session_active \<and> s_expires s < now
                    \<and> \<not> open_or_unresolved st Expire_session (s_id s)) (sessions st)))"

definition purge_time :: "work_row \<Rightarrow> instant" where
  "purge_time y = (case y_purge_after y of None \<Rightarrow> 0 | Some t \<Rightarrow> t)"

definition due_trashed_works :: "store \<Rightarrow> instant \<Rightarrow> int \<Rightarrow> string list" where
  "due_trashed_works st now limit =
     map y_id (earliest limit (\<lambda>y. (purge_time y, y_id y))
       (filter (\<lambda>y. y_trashed_at y \<noteq> None \<and> y_deleted_at y = None
                    \<and> (case y_purge_after y of None \<Rightarrow> False | Some t \<Rightarrow> t \<le> now)
                    \<and> \<not> open_or_unresolved st Purge_trashed_work (y_id y)) (works st)))"

definition last_change :: "store \<Rightarrow> item_row \<Rightarrow> instant" where
  "last_change st i = fold (\<lambda>c t. max (c_updated_at c) t) (filter (\<lambda>c. c_item c = i_id i) (components st)) (i_updated_at i)"

definition grace_over :: "store \<Rightarrow> instant \<Rightarrow> item_row \<Rightarrow> bool" where
  "grace_over st now i \<longleftrightarrow> last_change st i < now - g_orphan_grace_days (settings st) * day_ms"

definition has_refs :: "store \<Rightarrow> string \<Rightarrow> bool" where
  "has_refs st itemId \<longleftrightarrow> (\<exists>r \<in> set (refs st). r_item r = itemId)"

definition orphaned_items :: "store \<Rightarrow> instant \<Rightarrow> int \<Rightarrow> string list" where
  "orphaned_items st now limit =
     map i_id (earliest limit (\<lambda>i. (i_updated_at i, i_id i))
       (filter (\<lambda>i. i_state i \<noteq> Item_purged \<and> \<not> has_refs st (i_id i)
                    \<and> (i_state i = Item_cancelled \<or> grace_over st now i)
                    \<and> \<not> open_or_unresolved st Purge_item (i_id i)) (items st)))"

definition kept_item :: "store \<Rightarrow> string \<Rightarrow> bool" where
  "kept_item st itemId \<longleftrightarrow> (\<exists>i \<in> set (items st). i_id i = itemId \<and> i_state i \<noteq> Item_purged)"

definition blob_used :: "store \<Rightarrow> string \<Rightarrow> bool" where
  "blob_used st blobId \<longleftrightarrow>
     (\<exists>c \<in> set (components st). c_blob c = Some blobId \<and> kept_item st (c_item c))
     \<or> (\<exists>d \<in> set (derivatives st). d_blob d = blobId \<and> kept_item st (d_item d))"

definition unused_blobs :: "store \<Rightarrow> instant \<Rightarrow> int \<Rightarrow> string list" where
  "unused_blobs st now limit =
     map b_id (earliest limit (\<lambda>b. (b_created_at b, b_id b))
       (filter (\<lambda>b. ((b_state b = Tombstoned
                        \<and> (case b_tombstoned_at b of None \<Rightarrow> False | Some t \<Rightarrow> t < now - blob_purge_delay))
                     \<or> (b_state b = Committed \<and> b_created_at b < now - blob_purge_delay \<and> \<not> blob_used st (b_id b)))
                    \<and> \<not> open_or_unresolved st Purge_blob (b_id b)) (blobs st)))"

section \<open>Retention and the whole pass\<close>

definition finish_time :: "job_row \<Rightarrow> instant" where
  "finish_time j = (case j_finished_at j of None \<Rightarrow> 0 | Some t \<Rightarrow> t)"

definition doomed :: "(string \<Rightarrow> bool) \<Rightarrow> instant \<Rightarrow> int \<Rightarrow> job_row list \<Rightarrow> string list" where
  "doomed skip now limit rows =
     map j_id (earliest limit (\<lambda>j. (finish_time j, j_id j))
       (filter (\<lambda>j. j_state j = Succeeded \<and> \<not> skip (j_id j)
                    \<and> (case j_finished_at j of None \<Rightarrow> False | Some t \<Rightarrow> t < now - succeeded_job_retention)) rows))"

text \<open>The transaction that schedules and the whole operation.\<close>

definition schedule_due ::
  "(string \<Rightarrow> string) \<Rightarrow> (string \<Rightarrow> bool) \<Rightarrow> (nat \<Rightarrow> string) \<Rightarrow> store \<Rightarrow> instant \<Rightarrow> int \<Rightarrow> nat list answer" where
  "schedule_due digest skip draw st0 now limit =
     (let ids = (\<lambda>k n. draw (k * nat limit + n))
      in rbind (scheduleKind digest (ids 0) Expire_session (expired_sessions st0 now limit) now st0) (\<lambda>(st1, expireSession).
         rbind (scheduleKind digest (ids 1) Purge_trashed_work (due_trashed_works st1 now limit) now st1)
           (\<lambda>(st2, purgeTrashedWork).
         rbind (scheduleKind digest (ids 2) Purge_item (orphaned_items st2 now limit) now st2) (\<lambda>(st3, purgeItem).
         rbind (scheduleKind digest (ids 3) Purge_blob (unused_blobs st3 now limit) now st3) (\<lambda>(st4, purgeBlob).
         let gone = doomed skip now limit (jobs st4) in
         Inr (st4\<lparr>jobs := filter (\<lambda>j. j_id j \<notin> set gone) (jobs st4)\<rparr>,
              [expireSession, purgeTrashedWork, purgeItem, purgeBlob]))))))"

text \<open>
  The release of derivatives commits on its own, before the transaction that schedules: it stays when that one fails.
  \<open>between\<close> is what other transactions commit in the meantime (the identity when there are none).
\<close>

definition scheduleCleanup ::
  "(string \<Rightarrow> string) \<Rightarrow> (store \<Rightarrow> item_row \<Rightarrow> derivative_row \<Rightarrow> bool) \<Rightarrow> (store \<Rightarrow> store) \<Rightarrow> (string \<Rightarrow> bool)
   \<Rightarrow> (nat \<Rightarrow> string) \<Rightarrow> store \<Rightarrow> instant \<Rightarrow> int \<Rightarrow> store \<times> (store_error + nat list)" where
  "scheduleCleanup digest needed between skip draw st now limit =
     (if limit < 1 then (st, Inl Type_error)
      else let st0 = between (releaseUnusedDerivatives needed skip st now limit) in
        case schedule_due digest skip draw st0 now limit of
          Inl e \<Rightarrow> (st0, Inl e)
        | Inr (st1, counts) \<Rightarrow> (st1, Inr counts))"

end
