(* ===== verification/JobFleet.thy ===== *)
theory JobFleet
  imports JobWorker JobCleanup
begin

text \<open>
  Workers on one queue: several \<open>PublishingWorker\<close>s (\<open>services/backend-production/src/publishing/worker.ts\<close>) and the queue
  they share through \<open>PublishingWorkerPort\<close> (\<open>job-handlers.ts\<close>). A call is sent, served by the queue at some later time with
  the clock it was sent with, and answered at some later time still; a call may be rejected, also after it took effect (a
  lost response). One clock is read by all workers and never goes back. Whatever else uses the store may do so between any
  two steps as long as it leaves every lease as it is.
\<close>

section \<open>The port\<close>

record 's queue_port =
  p_claim :: "(string \<Rightarrow> bool) \<Rightarrow> 's \<Rightarrow> claim_options \<Rightarrow> instant \<Rightarrow> store_error + 's \<times> claim list"
  p_renew :: "'s \<Rightarrow> string \<Rightarrow> string \<Rightarrow> int \<Rightarrow> instant \<Rightarrow> store_error + 's \<times> bool"
  p_complete :: "'s \<Rightarrow> string \<Rightarrow> string \<Rightarrow> instant \<Rightarrow> store_error + 's \<times> bool"
  p_release :: "'s \<Rightarrow> string \<Rightarrow> string \<Rightarrow> instant \<Rightarrow> store_error + 's \<times> bool"
  p_fail :: "'s \<Rightarrow> string \<Rightarrow> string \<Rightarrow> string \<Rightarrow> bool \<Rightarrow> instant \<Rightarrow> store_error + 's \<times> failure_outcome"
  p_requeue :: "(string \<Rightarrow> bool) \<Rightarrow> 's \<Rightarrow> instant \<Rightarrow> int \<Rightarrow> store_error + 's \<times> nat"
  p_cleanup :: "(string \<Rightarrow> bool) \<Rightarrow> (nat \<Rightarrow> string) \<Rightarrow> 's \<Rightarrow> instant \<Rightarrow> int \<Rightarrow> 's \<times> (store_error + nat list)"
  p_enqueue :: "(nat \<Rightarrow> string) \<Rightarrow> 's \<Rightarrow> enqueue \<Rightarrow> instant \<Rightarrow> store_error + 's \<times> (string \<times> bool)"

definition served :: "'s \<Rightarrow> bool \<Rightarrow> store_error + 's \<times> 'a \<Rightarrow> ('a option \<Rightarrow> worker_event) \<Rightarrow> 's \<times> worker_event" where
  "served st lost result reply =
     (case result of Inl e \<Rightarrow> (st, reply None) | Inr (st', a) \<Rightarrow> (st', reply (if lost then None else Some a)))"

fun serve :: "'s queue_port \<Rightarrow> (string \<Rightarrow> bool) \<Rightarrow> (nat \<Rightarrow> string) \<Rightarrow> bool \<Rightarrow> 's \<Rightarrow> port_call \<Rightarrow> instant \<Rightarrow> 's \<times> worker_event" where
  "serve P skip draw lost st (Claim_call opts) now = served st lost (p_claim P skip st opts now) Claimed"
| "serve P skip draw lost st (Renew_call r jid owner ms) now =
     served st lost (p_renew P st jid owner ms now) (Renewed r)"
| "serve P skip draw lost st (Complete_call r jid owner) now =
     served st lost (p_complete P st jid owner now) (\<lambda>_. Completed r)"
| "serve P skip draw lost st (Fail_call r jid owner code retryable) now =
     served st lost (p_fail P st jid owner code retryable now) (Fail_recorded r)"
| "serve P skip draw lost st (Release_call origin jid owner) now =
     served st lost (p_release P st jid owner now) (\<lambda>_. Released origin)"
| "serve P skip draw lost st (Requeue_call limit) now =
     served st lost (p_requeue P skip st now limit) (\<lambda>a. Maintained (a \<noteq> None))"
| "serve P skip draw lost st (Cleanup_call at limit) now =
     (case p_cleanup P skip draw st at limit of (st', a) \<Rightarrow> (st', Maintained (\<not> lost \<and> (case a of Inl e \<Rightarrow> False | Inr counts \<Rightarrow> True))))"
| "serve P skip draw lost st (Enqueue_call at kind subject) now =
     served st lost (p_enqueue P draw st (plain_job kind subject) at) (\<lambda>a. Maintained (a \<noteq> None))"

section \<open>The fleet\<close>

record mail =
  m_worker :: nat
  m_call :: port_call
  m_sent :: instant
  m_answer :: "worker_event option"

record 's fleet =
  f_store :: 's
  f_clock :: instant
  f_workers :: "worker list"
  f_mail :: "nat \<Rightarrow> mail option"
  f_next :: nat

definition fleet0 :: "'s \<Rightarrow> instant \<Rightarrow> nat \<Rightarrow> 's fleet" where
  "fleet0 st now n = \<lparr>f_store = st, f_clock = now, f_workers = replicate n worker0, f_mail = (\<lambda>_. None), f_next = 0\<rparr>"

definition send :: "nat \<Rightarrow> instant \<Rightarrow> port_call list \<Rightarrow> 's fleet \<Rightarrow> 's fleet" where
  "send i now calls f =
     f\<lparr>f_mail := (\<lambda>k. if f_next f \<le> k \<and> k < f_next f + length calls
                      then Some \<lparr>m_worker = i, m_call = calls ! (k - f_next f), m_sent = now, m_answer = None\<rparr>
                      else f_mail f k),
       f_next := f_next f + length calls\<rparr>"

text \<open>Worker \<open>i\<close> takes an event at the clock of the fleet.\<close>

definition at_worker :: "worker_config list \<Rightarrow> nat \<Rightarrow> worker_event \<Rightarrow> 's fleet \<Rightarrow> 's fleet" where
  "at_worker cfgs i e f =
     (case worker_step (cfgs ! i) True (f_clock f) e (f_workers f ! i) of
        (w, calls) \<Rightarrow> send i (f_clock f) calls (f\<lparr>f_workers := (f_workers f)[i := w]\<rparr>))"

fun local_event :: "worker_event \<Rightarrow> bool" where
  "local_event (Maintained ok) = False"
| "local_event (Claimed a) = False"
| "local_event (Completed r) = False"
| "local_event (Fail_recorded r a) = False"
| "local_event (Released origin) = False"
| "local_event (Renewed r held) = False"
| "local_event e = True"

datatype fleet_event =
    Time_passes int
  | Local nat worker_event
  | Serve nat bool "string list" "string list"
  | Deliver nat

text \<open>
  A step of the fleet; \<open>None\<close>: it cannot happen. \<open>Serve k lost skip ids\<close> serves the call of mail \<open>k\<close>, with the rows other
  transactions hold and the identifiers drawn.
\<close>

definition fleet_event_step :: "'s queue_port \<Rightarrow> worker_config list \<Rightarrow> fleet_event \<Rightarrow> 's fleet \<Rightarrow> 's fleet option" where
  "fleet_event_step P cfgs ev f =
     (case ev of
        Time_passes d \<Rightarrow> if 0 \<le> d then Some (f\<lparr>f_clock := f_clock f + d\<rparr>) else None
      | Local i e \<Rightarrow>
          if i < length (f_workers f) \<and> local_event e \<and> can_happen e (f_workers f ! i) then Some (at_worker cfgs i e f)
          else None
      | Serve k lost skip ids \<Rightarrow>
          (case f_mail f k of
             None \<Rightarrow> None
           | Some m \<Rightarrow>
               if m_answer m \<noteq> None then None
               else (case serve P (\<lambda>jid. jid \<in> set skip) (\<lambda>n. if n < length ids then ids ! n else '''') lost
                            (f_store f) (m_call m) (m_sent m) of
                       (st, reply) \<Rightarrow>
                         Some (f\<lparr>f_store := st, f_mail := (f_mail f)(k \<mapsto> m\<lparr>m_answer := Some reply\<rparr>)\<rparr>)))
      | Deliver k \<Rightarrow>
          (case f_mail f k of
             None \<Rightarrow> None
           | Some m \<Rightarrow>
               (case m_answer m of
                  None \<Rightarrow> None
                | Some e \<Rightarrow>
                    if can_happen e (f_workers f ! m_worker m)
                    then Some (at_worker cfgs (m_worker m) e (f\<lparr>f_mail := (f_mail f)(k := None)\<rparr>)) else None)))"

text \<open>
  The reachable states. \<open>lease st jid\<close> is the lease on a job: who holds it and until when. Initially no worker of the fleet
  holds one.
\<close>

inductive fleet_reachable ::
  "'s queue_port \<Rightarrow> ('s \<Rightarrow> bool) \<Rightarrow> ('s \<Rightarrow> string \<Rightarrow> (string \<times> instant) option) \<Rightarrow> worker_config list \<Rightarrow> 's fleet \<Rightarrow> bool"
  for P good lease cfgs where
  Begin: "good st \<Longrightarrow>
     (\<And>jid owner t i n. lease st jid = Some (owner, t) \<Longrightarrow> i < length cfgs \<Longrightarrow> owner \<noteq> lease_label (wc_owner (cfgs ! i)) n) \<Longrightarrow>
     fleet_reachable P good lease cfgs (fleet0 st now (length cfgs))"
| Happens: "fleet_reachable P good lease cfgs f \<Longrightarrow> fleet_event_step P cfgs ev f = Some f' \<Longrightarrow>
     fleet_reachable P good lease cfgs f'"
| Others: "fleet_reachable P good lease cfgs f \<Longrightarrow> good st \<Longrightarrow> (\<And>jid. lease st jid = lease (f_store f) jid) \<Longrightarrow>
     fleet_reachable P good lease cfgs (f\<lparr>f_store := st\<rparr>)"

inductive_cases fleet_reachableE: "fleet_reachable P good lease cfgs f"

text \<open>Run \<open>r\<close> of worker \<open>i\<close> works on its job: nothing has ended or aborted it.\<close>

definition the_run :: "'s fleet \<Rightarrow> nat \<Rightarrow> nat \<Rightarrow> active_run" where
  "the_run f i r = wk_heap (f_workers f ! i) ! r"

definition is_run :: "'s fleet \<Rightarrow> nat \<Rightarrow> nat \<Rightarrow> bool" where
  "is_run f i r \<longleftrightarrow> i < length (f_workers f) \<and> r < length (wk_heap (f_workers f ! i))"

definition working :: "'s fleet \<Rightarrow> nat \<Rightarrow> nat \<Rightarrow> bool" where
  "working f i r \<longleftrightarrow> is_run f i r \<and> \<not> gone (the_run f i r)"

end
