(* ===== verification/WorkerFacts.thy ===== *)
theory WorkerFacts
  imports JobFleet "HOL-Library.Multiset"
begin

text \<open>
  What one step of a worker does, as far as its leases are concerned: what stays of every run, which calls it makes and for
  which runs, and the invariant of a worker on its own. Everything but a claim that is answered and a renewal that is
  answered is \<open>quiet\<close>: it leaves the deadline of every run where it is and revives none.
\<close>

section \<open>Updates of runs\<close>

abbreviation runs_of :: "worker \<Rightarrow> nat" where
  "runs_of w \<equiv> length (wk_heap w)"

lemma length_upd_run [simp]: "runs_of (upd_run r f w) = runs_of w"
  by (simp add: upd_run_def)

lemma nth_upd_run [simp]:
  "k < runs_of w \<Longrightarrow> wk_heap (upd_run r f w) ! k = (if k = r then f (wk_heap w ! k) else wk_heap w ! k)"
  by (simp add: upd_run_def nth_list_update)

lemma upd_run_rest [simp]:
  "wk_phase (upd_run r f w) = wk_phase w" "wk_runs (upd_run r f w) = wk_runs w" "wk_poll (upd_run r f w) = wk_poll w"
  "wk_tick (upd_run r f w) = wk_tick w" "wk_seq (upd_run r f w) = wk_seq w" "wk_shutdown (upd_run r f w) = wk_shutdown w"
  "wk_rerun (upd_run r f w) = wk_rerun w" "wk_next (upd_run r f w) = wk_next w" "wk_streak (upd_run r f w) = wk_streak w"
  by (simp_all add: upd_run_def)

lemma upd_runs_Nil [simp]: "upd_runs [] f w = w"
  by (simp add: upd_runs_def)

lemma upd_runs_Cons [simp]: "upd_runs (r # rs) f w = upd_runs rs f (upd_run r f w)"
  by (simp add: upd_runs_def)

lemma upd_runs_rest [simp]:
  "runs_of (upd_runs rs f w) = runs_of w" "wk_phase (upd_runs rs f w) = wk_phase w"
  "wk_runs (upd_runs rs f w) = wk_runs w" "wk_tick (upd_runs rs f w) = wk_tick w"
  "wk_seq (upd_runs rs f w) = wk_seq w" "wk_shutdown (upd_runs rs f w) = wk_shutdown w"
  by (induction rs arbitrary: w) simp_all

lemma nth_upd_runs:
  assumes "\<And>x. f (f x) = f x" and "k < runs_of w"
  shows "wk_heap (upd_runs rs f w) ! k = (if k \<in> set rs then f (wk_heap w ! k) else wk_heap w ! k)"
  using assms(2) by (induction rs arbitrary: w) (simp_all add: assms(1))

lemma schedule_rest [simp]:
  "wk_heap (schedule d w) = wk_heap w" "wk_runs (schedule d w) = wk_runs w" "wk_seq (schedule d w) = wk_seq w"
  "wk_tick (schedule d w) = wk_tick w" "wk_shutdown (schedule d w) = wk_shutdown w" "wk_phase (schedule d w) = wk_phase w"
  by (simp_all add: schedule_def)

lemma wake_rest [simp]:
  "wk_heap (wake w) = wk_heap w" "wk_runs (wake w) = wk_runs w" "wk_seq (wake w) = wk_seq w"
  "wk_tick (wake w) = wk_tick w" "wk_shutdown (wake w) = wk_shutdown w" "wk_phase (wake w) = wk_phase w"
  by (simp_all add: wake_def)

lemma finish_tick_rest [simp]:
  "wk_heap (finish_tick h w) = wk_heap w" "wk_runs (finish_tick h w) = wk_runs w" "wk_seq (finish_tick h w) = wk_seq w"
  "wk_tick (finish_tick h w) = Some Tick_over" "wk_shutdown (finish_tick h w) = wk_shutdown w"
  "wk_phase (finish_tick h w) = wk_phase w"
  by (simp_all add: finish_tick_def)

lemma abort_run_rest [simp]:
  "run_claim (abort_run e x) = run_claim x" "run_until (abort_run e x) = run_until x"
  "run_renewing (abort_run e x) = run_renewing x" "run_renew_timer (abort_run e x) = run_renew_timer x"
  "run_settled (abort_run e x) = run_settled x" "run_stage (abort_run e x) = run_stage x"
  "run_finished (abort_run e x) = run_finished x" "gone (abort_run e x)"
  "abort_run e (abort_run e x) = abort_run e x"
  by (simp_all add: abort_run_def gone_def split: option.splits)

section \<open>The invariant of a worker\<close>

fun remaining_of :: "shutdown_stage \<Rightarrow> nat list" where
  "remaining_of (Waiting_aborted rs) = rs"
| "remaining_of (Waiting_released rs) = rs"
| "remaining_of _ = []"

definition worker_inv :: "worker_config \<Rightarrow> worker \<Rightarrow> bool" where
  "worker_inv cfg w \<longleftrightarrow>
     (\<forall>r < runs_of w. run_renew_timer (wk_heap w ! r) \<longrightarrow> run_renewing (wk_heap w ! r) = None)
     \<and> (\<forall>r < runs_of w. run_stage (wk_heap w ! r) = Over \<longleftrightarrow> r \<notin> snd ` set (wk_runs w))
     \<and> (\<forall>(key, r) \<in> set (wk_runs w). r < runs_of w \<and> key = q_id (run_claim (wk_heap w ! r)))
     \<and> distinct (map fst (wk_runs w))
     \<and> set (remaining_of (wk_shutdown w)) \<subseteq> {..< runs_of w}
     \<and> int (length (wk_runs w)) \<le> wc_concurrency cfg
     \<and> (case wk_tick w of Some (Claiming healthy free) \<Rightarrow> free + int (length (wk_runs w)) \<le> wc_concurrency cfg | _ \<Rightarrow> True)"

lemma worker_invI:
  assumes "\<And>r. r < runs_of w \<Longrightarrow> run_renew_timer (wk_heap w ! r) \<Longrightarrow> run_renewing (wk_heap w ! r) = None"
    and "\<And>r. r < runs_of w \<Longrightarrow> run_stage (wk_heap w ! r) = Over \<longleftrightarrow> r \<notin> snd ` set (wk_runs w)"
    and "\<And>key r. (key, r) \<in> set (wk_runs w) \<Longrightarrow> r < runs_of w \<and> key = q_id (run_claim (wk_heap w ! r))"
    and "distinct (map fst (wk_runs w))"
    and "set (remaining_of (wk_shutdown w)) \<subseteq> {..< runs_of w}"
    and "int (length (wk_runs w)) \<le> wc_concurrency cfg"
    and "\<And>healthy free. wk_tick w = Some (Claiming healthy free) \<Longrightarrow> free + int (length (wk_runs w)) \<le> wc_concurrency cfg"
  shows "worker_inv cfg w"
  using assms unfolding worker_inv_def by (auto split: option.splits tick_stage.splits)

lemma worker_inv_timer:
  "worker_inv cfg w \<Longrightarrow> r < runs_of w \<Longrightarrow> run_renew_timer (wk_heap w ! r) \<Longrightarrow> run_renewing (wk_heap w ! r) = None"
  unfolding worker_inv_def by blast

lemma worker_inv_stage:
  "worker_inv cfg w \<Longrightarrow> r < runs_of w \<Longrightarrow> run_stage (wk_heap w ! r) = Over \<longleftrightarrow> r \<notin> snd ` set (wk_runs w)"
  unfolding worker_inv_def by blast

lemma worker_inv_runs:
  "worker_inv cfg w \<Longrightarrow> (key, r) \<in> set (wk_runs w) \<Longrightarrow> r < runs_of w \<and> key = q_id (run_claim (wk_heap w ! r))"
  unfolding worker_inv_def by blast

lemma worker_inv_rest:
  "worker_inv cfg w \<Longrightarrow> distinct (map fst (wk_runs w))"
  "worker_inv cfg w \<Longrightarrow> set (remaining_of (wk_shutdown w)) \<subseteq> {..< runs_of w}"
  "worker_inv cfg w \<Longrightarrow> int (length (wk_runs w)) \<le> wc_concurrency cfg"
  unfolding worker_inv_def by blast+

lemma worker_inv_claiming:
  "worker_inv cfg w \<Longrightarrow> wk_tick w = Some (Claiming healthy free) \<Longrightarrow> free + int (length (wk_runs w)) \<le> wc_concurrency cfg"
  unfolding worker_inv_def by simp

text \<open>A change of one run, or of the fields no clause looks at.\<close>

lemma worker_inv_upd_run:
  assumes inv: "worker_inv cfg w"
    and "run_renew_timer (f (wk_heap w ! r)) \<Longrightarrow> run_renewing (f (wk_heap w ! r)) = None"
    and "run_stage (f (wk_heap w ! r)) = Over \<longleftrightarrow> run_stage (wk_heap w ! r) = Over"
    and "run_claim (f (wk_heap w ! r)) = run_claim (wk_heap w ! r)"
  shows "worker_inv cfg (upd_run r f w)"
proof (rule worker_invI)
  fix key k assume "(key, k) \<in> set (wk_runs (upd_run r f w))"
  then show "k < runs_of (upd_run r f w) \<and> key = q_id (run_claim (wk_heap (upd_run r f w) ! k))"
    using worker_inv_runs[OF inv] assms(4) by auto
qed (use assms worker_inv_timer[OF inv] worker_inv_stage[OF inv] worker_inv_rest[OF inv] worker_inv_claiming[OF inv] in auto)

lemma worker_inv_upd_runs:
  assumes "worker_inv cfg w"
    and "\<And>x. (run_renew_timer x \<longrightarrow> run_renewing x = None) \<Longrightarrow> run_renew_timer (f x) \<Longrightarrow> run_renewing (f x) = None"
    and "\<And>x. run_stage (f x) = run_stage x" and "\<And>x. run_claim (f x) = run_claim x"
    and "set rs \<subseteq> {..< runs_of w}"
  shows "worker_inv cfg (upd_runs rs f w)"
  using assms(1,5)
proof (induction rs arbitrary: w)
  case (Cons r rs)
  have "worker_inv cfg (upd_run r f w)"
    using Cons.prems worker_inv_timer[OF Cons.prems(1)] assms(2-4) by (intro worker_inv_upd_run) auto
  then show ?case using Cons by simp
qed simp

lemma worker_inv_same:
  assumes "worker_inv cfg w" and "wk_heap w' = wk_heap w" and "wk_runs w' = wk_runs w"
    and "set (remaining_of (wk_shutdown w')) \<subseteq> {..< runs_of w}"
    and "\<And>healthy free. wk_tick w' = Some (Claiming healthy free) \<Longrightarrow> free + int (length (wk_runs w)) \<le> wc_concurrency cfg"
  shows "worker_inv cfg w'"
  using assms unfolding worker_inv_def by (auto split: option.splits tick_stage.splits)

lemma worker_inv_keep:
  assumes "worker_inv cfg w" and "wk_heap w' = wk_heap w" and "wk_runs w' = wk_runs w"
    and "wk_shutdown w' = wk_shutdown w" and "wk_tick w' = wk_tick w"
  shows "worker_inv cfg w'"
  using assms(1) unfolding worker_inv_def assms(2-5) .

lemma worker_inv0: "0 \<le> wc_concurrency cfg \<Longrightarrow> worker_inv cfg worker0"
  by (rule worker_invI) (simp_all add: worker0_def)

section \<open>Quiet steps\<close>

definition token :: "active_run \<Rightarrow> string \<times> string" where
  "token run = (q_owner (run_claim run), q_id (run_claim run))"

text \<open>The calls a step makes: settling calls for runs it ends, one renewal for a run without one, one claim with a new label.\<close>

fun call_ok :: "worker_config \<Rightarrow> instant \<Rightarrow> worker \<Rightarrow> worker \<Rightarrow> port_call \<Rightarrow> bool" where
  "call_ok cfg now w w' (Claim_call opts) \<longleftrightarrow>
     o_owner opts = lease_label (wc_owner cfg) (wk_seq w + 1) \<and> o_lease_ms opts = wc_lease cfg \<and> wk_seq w' = wk_seq w + 1
     \<and> 0 < o_limit opts"
| "call_ok cfg now w w' (Renew_call r jid owner ms) \<longleftrightarrow>
     r < runs_of w \<and> token (wk_heap w ! r) = (owner, jid) \<and> ms = wc_lease cfg
     \<and> run_renewing (wk_heap w ! r) = None \<and> run_renewing (wk_heap w' ! r) = Some now"
| "call_ok cfg now w w' (Complete_call r jid owner) \<longleftrightarrow>
     r < runs_of w \<and> token (wk_heap w ! r) = (owner, jid) \<and> gone (wk_heap w' ! r)"
| "call_ok cfg now w w' (Fail_call r jid owner code retryable) \<longleftrightarrow>
     r < runs_of w \<and> token (wk_heap w ! r) = (owner, jid) \<and> gone (wk_heap w' ! r)"
| "call_ok cfg now w w' (Release_call origin jid owner) \<longleftrightarrow>
     (\<exists>r < runs_of w. token (wk_heap w ! r) = (owner, jid) \<and> gone (wk_heap w' ! r))"
| "call_ok cfg now w w' (Requeue_call limit) = True"
| "call_ok cfg now w w' (Cleanup_call at limit) = True"
| "call_ok cfg now w w' (Enqueue_call at kind subject) = True"

fun is_release :: "port_call \<Rightarrow> bool" where
  "is_release (Release_call origin jid owner) = True"
| "is_release c = False"

definition same_run :: "active_run \<Rightarrow> active_run \<Rightarrow> bool" where
  "same_run x y \<longleftrightarrow> run_claim y = run_claim x \<and> run_until y = run_until x \<and> (gone x \<longrightarrow> gone y)"

definition quiet :: "worker_config \<Rightarrow> instant \<Rightarrow> worker \<Rightarrow> worker \<Rightarrow> port_call list \<Rightarrow> bool" where
  "quiet cfg now w w' calls \<longleftrightarrow>
     runs_of w' = runs_of w
     \<and> (\<forall>r < runs_of w. same_run (wk_heap w ! r) (wk_heap w' ! r))
     \<and> (\<forall>r < runs_of w. run_renewing (wk_heap w' ! r) = run_renewing (wk_heap w ! r)
           \<or> (\<exists>jid owner ms. calls = [Renew_call r jid owner ms]))
     \<and> list_all (call_ok cfg now w w') calls
     \<and> (length calls \<le> 1 \<or> list_all is_release calls)
     \<and> (wk_seq w' = wk_seq w \<or> (\<exists>opts. calls = [Claim_call opts] \<and> wk_seq w' = wk_seq w + 1))"

lemma same_run_refl [simp]: "same_run x x"
  by (simp add: same_run_def)

lemma same_run_trans: "same_run x y \<Longrightarrow> same_run y z \<Longrightarrow> same_run x z"
  by (auto simp: same_run_def)

lemma same_run_token: "same_run x y \<Longrightarrow> token y = token x"
  by (simp add: same_run_def token_def)

lemma same_run_simps [simp]:
  "same_run x (x\<lparr>run_settled := True\<rparr>)" "same_run x (x\<lparr>run_settled := True, run_stage := st\<rparr>)"
  "same_run x (x\<lparr>run_stage := st\<rparr>)" "same_run x (x\<lparr>run_deadline := d\<rparr>)" "same_run x (x\<lparr>run_renew_timer := b\<rparr>)"
  "same_run x (x\<lparr>run_renew_timer := b, run_renewing := n\<rparr>)" "same_run x (abort_run e x)" "same_run x (clearRunTimers x)"
  "same_run x (abort_run e (x\<lparr>run_deadline := d\<rparr>))"
  "same_run x ((clearRunTimers x)\<lparr>run_finished := True, run_stage := st\<rparr>)"
  by (auto simp: same_run_def gone_def clearRunTimers_def abort_run_def split: option.splits)

text \<open>Steps that leave the runs alone and make no call of theirs.\<close>

lemma quiet_still:
  assumes "wk_heap w' = wk_heap w" and "wk_seq w' = wk_seq w"
  shows "quiet cfg now w w' []"
  using assms by (simp add: quiet_def)

lemma quiet_upd_run:
  assumes "same_run (wk_heap w ! r) (f (wk_heap w ! r))"
    and "run_renewing (f (wk_heap w ! r)) = run_renewing (wk_heap w ! r)"
    and "wk_heap w' = wk_heap (upd_run r f w)" and "wk_seq w' = wk_seq w"
  shows "quiet cfg now w w' []"
proof -
  have "runs_of w' = runs_of w" using assms(3) by simp
  then show ?thesis using assms by (simp add: quiet_def)
qed

lemma quiet_upd:
  assumes "same_run (wk_heap w ! r) (f (wk_heap w ! r))"
    and "run_renewing (f (wk_heap w ! r)) = run_renewing (wk_heap w ! r)"
  shows "quiet cfg now w (upd_run r f w) []"
  using assms by (intro quiet_upd_run[of w r f]) simp_all

lemma quiet_upd_call:
  assumes "same_run (wk_heap w ! r) (f (wk_heap w ! r))"
    and "run_renewing (f (wk_heap w ! r)) = run_renewing (wk_heap w ! r) \<or> (\<exists>jid owner ms. c = Renew_call r jid owner ms)"
    and "call_ok cfg now w (upd_run r f w) c"
    and "\<And>opts. c \<noteq> Claim_call opts"
  shows "quiet cfg now w (upd_run r f w) [c]"
  using assms by (simp add: quiet_def)

lemma quiet_maintain_step: "case maintain_step cfg k at fl w of (w', calls) \<Rightarrow> quiet cfg now w w' calls"
  by (auto simp: maintain_step_def maintenance_call_def quiet_def)

lemma quiet_claim_part: "case claim_part cfg h w of (w', calls) \<Rightarrow> quiet cfg now w w' calls"
  by (auto simp: claim_part_def quiet_def Let_def)

lemma quiet_maintain_next: "case maintain_next cfg k at fl w of (w', calls) \<Rightarrow> quiet cfg now w w' calls"
  using quiet_maintain_step quiet_claim_part by (simp add: maintain_next_def)

lemma quiet_heap_only:
  "case p of (w', calls) \<Rightarrow> quiet cfg now w1 w' calls \<Longrightarrow> wk_heap w1 = wk_heap w \<Longrightarrow> wk_seq w1 = wk_seq w
   \<Longrightarrow> case p of (w', calls) \<Rightarrow> quiet cfg now w w' calls"
proof -
  have "call_ok cfg now w1 w' c = call_ok cfg now w w' c" if "wk_heap w1 = wk_heap w" "wk_seq w1 = wk_seq w" for c w'
    using that by (cases c) simp_all
  moreover assume "case p of (w', calls) \<Rightarrow> quiet cfg now w1 w' calls" "wk_heap w1 = wk_heap w" "wk_seq w1 = wk_seq w"
  ultimately show ?thesis by (auto simp: quiet_def list_all_iff)
qed

lemma quiet_runTick: "case runTick cfg n (w\<lparr>wk_poll := None\<rparr>) of (w', calls) \<Rightarrow> quiet cfg now w w' calls"
proof -
  have "case runTick cfg n w1 of (w', calls) \<Rightarrow> quiet cfg now w1 w' calls" for w1
    using quiet_maintain_step quiet_claim_part by (simp add: runTick_def quiet_still)
  then show ?thesis by (rule quiet_heap_only) simp_all
qed

lemma quiet_record_outcome:
  "r < runs_of w \<Longrightarrow> case record_outcome r a w of (w', calls) \<Rightarrow> quiet cfg now w w' calls"
  by (cases a) (auto simp: record_outcome_def Let_def token_def gone_def intro!: quiet_upd_call)

lemma quiet_handlerReturned:
  "r < runs_of w \<Longrightarrow> case handlerReturned r a w of (w', calls) \<Rightarrow> quiet cfg now w w' calls"
  using quiet_record_outcome[of r w] by (auto simp: handlerReturned_def intro!: quiet_upd)

lemma quiet_handlerThrew:
  assumes "r < runs_of w"
  shows "case handlerThrew r e w of (w', calls) \<Rightarrow> quiet cfg now w w' calls"
proof -
  have ended: "quiet cfg now w (upd_run r (\<lambda>run. run\<lparr>run_stage := At_end\<rparr>) w) []"
    by (rule quiet_upd) simp_all
  have given: "quiet cfg now w (upd_run r (\<lambda>run. run\<lparr>run_settled := True, run_stage := At_release\<rparr>) w)
    [lease_call_release (Of_execute r) (run_claim (wk_heap w ! r))]"
    using assms by (intro quiet_upd_call) (auto simp: lease_call_release_def token_def gone_def)
  show ?thesis
    using ended given quiet_record_outcome[OF assms, of cfg now "case classifyPublishingJobError e of (c, b) \<Rightarrow> Failed_result c b"]
    by (cases "classifyPublishingJobError e")
       (auto simp: handlerThrew_def Let_def split: option.splits abort_reason.splits prod.splits)
qed

lemma quiet_renew:
  assumes inv: "worker_inv cfg w" and r: "r < runs_of w" "run_renew_timer (wk_heap w ! r)"
  shows "case renew cfg now r w of (w', calls) \<Rightarrow> quiet cfg now w w' calls"
proof -
  have "quiet cfg now w (upd_run r (\<lambda>run. run\<lparr>run_renew_timer := False, run_renewing := Some now\<rparr>) w)
    [Renew_call r (q_id (run_claim (wk_heap w ! r))) (q_owner (run_claim (wk_heap w ! r))) (wc_lease cfg)]"
    using r worker_inv_timer[OF inv r(1)] by (intro quiet_upd_call) (auto simp: token_def)
  then show ?thesis
    by (auto simp: renew_def Let_def intro!: quiet_upd)
qed

lemma quiet_deadlineTimer: "quiet cfg now w (deadlineTimer cfg t r w) []"
  unfolding deadlineTimer_def
  by (rule quiet_upd_run[of w r])
     (auto simp: Let_def armDeadline_def loseLease_def split: option.split)

lemma quiet_runFinally: "quiet cfg now w (runFinally r w) []"
  unfolding runFinally_def Let_def
  by (rule quiet_upd_run[of w r]) (simp_all add: clearRunTimers_def same_run_def gone_def)

lemma quiet_upd_runs:
  assumes "\<And>x. f (f x) = f x" and "\<And>x. same_run x (f x)" and "\<And>x. run_renewing (f x) = run_renewing x"
    and "wk_heap w' = wk_heap (upd_runs rs f w)" and "wk_seq w' = wk_seq w"
  shows "quiet cfg now w w' []"
  using assms(2,3,5) nth_upd_runs[of f, OF assms(1)] by (simp add: quiet_def assms(4))

lemma quiet_shutdown:
  assumes inv: "worker_inv cfg w"
  shows "case shutdown_continue w of (w', calls) \<Rightarrow> quiet cfg now w w' calls"
proof (cases "wk_shutdown w")
  case (Waiting_aborted rs)
  let ?f = "\<lambda>run. run\<lparr>run_settled := True\<rparr>"
  let ?u = "filter (\<lambda>r. \<not> run_settled (wk_heap w ! r)) rs"
  let ?w = "(upd_runs ?u ?f w)\<lparr>wk_shutdown := Waiting_released rs\<rparr>"
  let ?calls = "map (\<lambda>r. lease_call_release (Of_shutdown r) (run_claim (wk_heap w ! r))) ?u"
  have rs: "set rs \<subseteq> {..< runs_of w}" using worker_inv_rest(2)[OF inv] Waiting_aborted by simp
  have still: "quiet cfg now w ?w []" by (rule quiet_upd_runs[of ?f _ ?u]) simp_all
  have gone: "gone (wk_heap ?w ! r)" if "r \<in> set ?u" for r
    using that rs nth_upd_runs[of ?f r w ?u] by (auto simp: gone_def)
  have "list_all (call_ok cfg now w ?w) ?calls" and "list_all is_release ?calls"
    using gone rs by (auto simp: list_all_iff lease_call_release_def token_def)
  then have "quiet cfg now w ?w ?calls"
    using still unfolding quiet_def by auto
  then show ?thesis by (simp add: shutdown_continue_def Waiting_aborted Let_def)
next
  case Waiting_grace
  then show ?thesis
    using quiet_upd_runs[of "abort_run Shutdown_abort" "(upd_runs (map snd (wk_runs w)) (abort_run Shutdown_abort) w)\<lparr>wk_shutdown := Waiting_aborted (map snd (wk_runs w))\<rparr>"
        "map snd (wk_runs w)" w]
    by (auto simp: shutdown_continue_def Let_def intro!: quiet_still)
next
  case (Waiting_released rs)
  then show ?thesis
    by (auto simp: shutdown_continue_def Let_def clearRunTimers_def same_run_def gone_def
             intro!: quiet_upd_runs[of clearRunTimers _ rs])
qed (auto simp: shutdown_continue_def intro!: quiet_still)

fun loud :: "worker_event \<Rightarrow> bool" where
  "loud (Claimed (Some qs)) = True"
| "loud (Renewed r held) = True"
| "loud e = False"

lemma quiet_set_stage [simp]: "quiet cfg now w (set_stage r s w) []"
  unfolding set_stage_def by (rule quiet_upd_run[of w r]) simp_all

lemma quiet_failRecorded: "quiet cfg now w (failRecorded onf r a w) []"
  unfolding failRecorded_def by (rule quiet_upd_run[of w r]) simp_all

text \<open>Answers are delivered by the fleet: only what the worker starts itself needs to be able to happen.\<close>

theorem quiet_step:
  assumes "worker_inv cfg w" and "local_event e \<Longrightarrow> can_happen e w" and "\<not> loud e"
  shows "case worker_step cfg onf now e w of (w', calls) \<Rightarrow> quiet cfg now w w' calls"
proof (cases e)
  case (Claimed a)
  then have "a = None" using assms(3) by (cases a) auto
  then show ?thesis
    using Claimed by (auto simp: claimed_def intro!: quiet_still split: option.split tick_stage.split)
next
  case (Released origin)
  then show ?thesis by (cases origin) (auto intro!: quiet_still)
next
  case Tick_continue
  then show ?thesis using quiet_maintain_next by (auto split: option.split tick_stage.split intro!: quiet_still)
next
  case (Maintained ok)
  then show ?thesis using quiet_maintain_next by (auto split: option.split tick_stage.split intro!: quiet_still)
next
  case (Handler_returned r a)
  then show ?thesis using quiet_handlerReturned assms(2) by (simp add: stage_is_def)
next
  case (Handler_threw r x)
  then show ?thesis using quiet_handlerThrew assms(2) by (simp add: stage_is_def)
next
  case (Renew_timer r)
  then show ?thesis using quiet_renew[OF assms(1)] assms(2) by simp
qed (use assms quiet_runTick quiet_shutdown[OF assms(1)] quiet_deadlineTimer quiet_runFinally quiet_failRecorded in
     \<open>auto intro!: quiet_still simp: start_def stop_def tickFinally_def Let_def\<close>)

section \<open>Answered claims and renewals\<close>

text \<open>A new run begins with the deadline of its claim; the claims that start none are given rest.\<close>

definition new_run :: "worker_config \<Rightarrow> claim \<Rightarrow> active_run" where
  "new_run cfg q = \<lparr>run_claim = q, run_until = q_expires q, run_renew_timer = True,
     run_deadline = Some (q_expires q - wc_safety cfg), run_settled = False, run_finished = False, run_aborted = None,
     run_stage = At_start, run_renewing = None\<rparr>"

lemma startRun_rest [simp]:
  "wk_heap (startRun cfg q w) = wk_heap w @ [new_run cfg q]"
  "wk_runs (startRun cfg q w) = wk_runs w @ [(q_id q, runs_of w)]"
  "wk_phase (startRun cfg q w) = wk_phase w" "wk_tick (startRun cfg q w) = wk_tick w"
  "wk_seq (startRun cfg q w) = wk_seq w" "wk_shutdown (startRun cfg q w) = wk_shutdown w"
  by (simp_all add: startRun_def new_run_def armDeadline_def scheduleRenewal_def Let_def)

lemma take_claims_spec:
  assumes "take_claims cfg free index qs w = (w', calls)"
  shows "\<exists>new rest. wk_heap w' = wk_heap w @ map (new_run cfg) new
     \<and> calls = map (lease_call_release Of_unrun) rest \<and> mset qs = mset new + mset rest
     \<and> wk_runs w' = wk_runs w @ zip (map q_id new) [runs_of w ..< runs_of w + length new]
     \<and> wk_seq w' = wk_seq w \<and> wk_phase w' = wk_phase w \<and> wk_tick w' = wk_tick w \<and> wk_shutdown w' = wk_shutdown w
     \<and> distinct (map q_id new) \<and> set (map q_id new) \<inter> fst ` set (wk_runs w) = {}
     \<and> (new = [] \<or> int index + int (length new) \<le> free)"
  using assms
proof (induction qs arbitrary: index w calls)
  case Nil
  then show ?case by (intro exI[of _ "[]"]) simp
next
  case (Cons q qs)
  show ?case
  proof (cases "wk_phase w = Working \<and> int index < free \<and> q_id q \<notin> fst ` set (wk_runs w)")
    case True
    then have eq: "take_claims cfg free (index + 1) qs (startRun cfg q w) = (w', calls)" using Cons.prems by simp
    obtain new rest where *: "wk_heap w' = wk_heap (startRun cfg q w) @ map (new_run cfg) new"
        "calls = map (lease_call_release Of_unrun) rest" "mset qs = mset new + mset rest"
        "wk_runs w' = wk_runs (startRun cfg q w) @ zip (map q_id new) [Suc (runs_of w) ..< Suc (runs_of w) + length new]"
        "wk_seq w' = wk_seq w" "wk_phase w' = wk_phase w" "wk_tick w' = wk_tick w" "wk_shutdown w' = wk_shutdown w"
        "distinct (map q_id new)" "set (map q_id new) \<inter> fst ` set (wk_runs (startRun cfg q w)) = {}"
        "new = [] \<or> int (index + 1) + int (length new) \<le> free"
      using Cons.IH[OF eq] by auto
    have "wk_runs w' = wk_runs w @ zip (map q_id (q # new)) [runs_of w ..< runs_of w + length (q # new)]"
      using *(4) upt_conv_Cons[of "runs_of w" "runs_of w + length (q # new)"] by (simp del: upt_Suc)
    then show ?thesis
      using * True by (intro exI[of _ "q # new"] exI[of _ rest]) (auto simp del: upt_Suc)
  next
    case False
    obtain w1 calls1 where eq: "take_claims cfg free (index + 1) qs w = (w1, calls1)" by (cases "take_claims cfg free (index + 1) qs w")
    then have w1: "w1 = w'" and calls: "calls = lease_call_release Of_unrun q # calls1"
      using Cons.prems False by auto
    obtain new rest where "wk_heap w' = wk_heap w @ map (new_run cfg) new"
        "calls1 = map (lease_call_release Of_unrun) rest" "mset qs = mset new + mset rest"
        "wk_runs w' = wk_runs w @ zip (map q_id new) [runs_of w ..< runs_of w + length new]"
        "wk_seq w' = wk_seq w" "wk_phase w' = wk_phase w" "wk_tick w' = wk_tick w" "wk_shutdown w' = wk_shutdown w"
        "distinct (map q_id new)" "set (map q_id new) \<inter> fst ` set (wk_runs w) = {}"
        "new = [] \<or> int (index + 1) + int (length new) \<le> free"
      using Cons.IH[OF eq[unfolded w1]] by auto
    then show ?thesis
      using calls by (intro exI[of _ new] exI[of _ "q # rest"]) auto
  qed
qed

lemma claimed_spec:
  assumes "claimed cfg (Some qs) w = (w', calls)"
  obtains (taken) new rest where "wk_heap w' = wk_heap w @ map (new_run cfg) new"
      "calls = map (lease_call_release Of_unrun) rest" "mset qs = mset new + mset rest" "wk_seq w' = wk_seq w"
    | (ignored) "wk_heap w' = wk_heap w" "calls = []" "wk_seq w' = wk_seq w"
proof (cases "\<exists>h free. wk_tick w = Some (Claiming h free)")
  case True
  then obtain h free where tick: "wk_tick w = Some (Claiming h free)" by auto
  obtain w1 c1 where t: "take_claims cfg free 0 qs w = (w1, c1)" by (cases "take_claims cfg free 0 qs w")
  then have "w' = finish_tick h w1" "calls = c1" using assms tick by (auto simp: claimed_def)
  then show thesis using take_claims_spec[OF t] by (auto intro: taken)
next
  case False
  then have "w' = w" "calls = []" using assms by (auto simp: claimed_def split: option.splits tick_stage.splits)
  then show thesis by (intro ignored) simp_all
qed

text \<open>A renewal that is answered: the run may lose its lease, and its deadline moves only when the queue granted it.\<close>

lemma renewed_claim [simp]: "run_claim (renewed cfg now held x) = run_claim x"
  by (simp add: renewed_def loseLease_def armDeadline_def scheduleRenewal_def Let_def split: option.split)

lemma renewed_gone: "gone x \<Longrightarrow> gone (renewed cfg now held x)"
  by (simp add: renewed_def gone_def Let_def split: option.split)

lemma renewed_until:
  "run_until (renewed cfg now held x) =
     (if run_renewing x \<noteq> None \<and> \<not> gone x \<and> held = Some True then the (run_renewing x) + wc_lease cfg else run_until x)"
  by (auto simp: renewed_def loseLease_def armDeadline_def scheduleRenewal_def Let_def split: option.split)

lemma renewed_renewing [simp]: "run_renewing (renewed cfg now held x) = None"
  by (simp add: renewed_def loseLease_def armDeadline_def scheduleRenewal_def Let_def split: option.split)

lemma renewed_stage [simp]: "run_stage (renewed cfg now held x) = run_stage x"
  by (simp add: renewed_def loseLease_def armDeadline_def scheduleRenewal_def Let_def split: option.split)

section \<open>Every step keeps the invariant\<close>

lemma inv_maintain_step: "worker_inv cfg w \<Longrightarrow> worker_inv cfg (fst (maintain_step cfg k at fl w))"
  by (rule worker_inv_same[of cfg w]) (auto simp: maintain_step_def split: if_splits dest: worker_inv_rest(2))

lemma inv_finish_tick: "worker_inv cfg w \<Longrightarrow> worker_inv cfg (finish_tick h w)"
  by (rule worker_inv_same[of cfg w]) (auto dest: worker_inv_rest(2))

lemma inv_claim_part: "worker_inv cfg w \<Longrightarrow> worker_inv cfg (fst (claim_part cfg h w))"
  by (rule worker_inv_same[of cfg w]) (auto simp: claim_part_def Let_def split: if_splits dest: worker_inv_rest(2))

lemma inv_maintain_next: "worker_inv cfg w \<Longrightarrow> worker_inv cfg (fst (maintain_next cfg k at fl w))"
  by (simp add: maintain_next_def inv_maintain_step inv_claim_part)

lemma inv_runTick:
  assumes "worker_inv cfg w"
  shows "worker_inv cfg (fst (runTick cfg now (w\<lparr>wk_poll := None\<rparr>)))"
proof -
  have w1: "worker_inv cfg (w\<lparr>wk_poll := None\<rparr>)" by (rule worker_inv_keep[OF assms]) simp_all
  have "worker_inv cfg (w\<lparr>wk_poll := None, wk_rerun := True\<rparr>)" by (rule worker_inv_keep[OF assms]) simp_all
  then show ?thesis using w1 by (simp add: runTick_def inv_maintain_step inv_claim_part)
qed

lemma inv_wake: "worker_inv cfg w \<Longrightarrow> worker_inv cfg (wake w)"
  by (erule worker_inv_keep) simp_all

lemma inv_tickFinally: "worker_inv cfg w \<Longrightarrow> worker_inv cfg (tickFinally cfg w)"
  by (rule worker_inv_same[of cfg w]) (auto simp: tickFinally_def Let_def split: if_splits dest: worker_inv_rest(2))

lemma inv_record_outcome:
  "worker_inv cfg w \<Longrightarrow> stage_is w r At_handler \<Longrightarrow> worker_inv cfg (fst (record_outcome r a w))"
  by (cases a) (auto simp: record_outcome_def Let_def stage_is_def intro!: worker_inv_upd_run dest: worker_inv_timer)

lemma inv_handlerReturned:
  "worker_inv cfg w \<Longrightarrow> stage_is w r At_handler \<Longrightarrow> worker_inv cfg (fst (handlerReturned r a w))"
  by (auto simp: handlerReturned_def inv_record_outcome stage_is_def intro!: worker_inv_upd_run dest: worker_inv_timer)

lemma inv_handlerThrew:
  "worker_inv cfg w \<Longrightarrow> stage_is w r At_handler \<Longrightarrow> worker_inv cfg (fst (handlerThrew r e w))"
  by (cases "classifyPublishingJobError e")
     (auto simp: handlerThrew_def Let_def inv_record_outcome stage_is_def split: option.split abort_reason.split
           intro!: worker_inv_upd_run dest: worker_inv_timer)

lemma inv_set_stage:
  "worker_inv cfg w \<Longrightarrow> stage_is w r s \<Longrightarrow> s \<noteq> Over \<Longrightarrow> s' \<noteq> Over \<Longrightarrow> worker_inv cfg (set_stage r s' w)"
  by (auto simp: set_stage_def stage_is_def intro!: worker_inv_upd_run dest: worker_inv_timer)

lemma inv_renew:
  "worker_inv cfg w \<Longrightarrow> r < runs_of w \<Longrightarrow> worker_inv cfg (fst (renew cfg now r w))"
  by (auto simp: renew_def Let_def intro!: worker_inv_upd_run)

lemma inv_renewed: "worker_inv cfg w \<Longrightarrow> worker_inv cfg (upd_run r (renewed cfg now held) w)"
  by (rule worker_inv_upd_run) simp_all

lemma inv_deadlineTimer: "worker_inv cfg w \<Longrightarrow> r < runs_of w \<Longrightarrow> worker_inv cfg (deadlineTimer cfg now r w)"
  unfolding deadlineTimer_def
  by (rule worker_inv_upd_run)
     (auto simp: Let_def armDeadline_def loseLease_def split: option.splits if_splits dest: worker_inv_timer)

lemma inv_runFinally:
  assumes inv: "worker_inv cfg w" and r: "stage_is w r At_end"
  shows "worker_inv cfg (runFinally r w)"
proof -
  let ?key = "q_id (run_claim (wk_heap w ! r))"
  let ?w = "upd_run r (\<lambda>run. (clearRunTimers run)\<lparr>run_finished := True, run_stage := Over\<rparr>) w"
  let ?w' = "?w\<lparr>wk_runs := filter (\<lambda>(key, _). key \<noteq> ?key) (wk_runs w)\<rparr>"
  have "r \<in> snd ` set (wk_runs w)" using worker_inv_stage[OF inv, of r] r by (auto simp: stage_is_def)
  then have here: "(?key, r) \<in> set (wk_runs w)" using worker_inv_runs[OF inv] by fastforce
  then have only: "key \<noteq> ?key \<longleftrightarrow> k \<noteq> r" if "(key, k) \<in> set (wk_runs w)" for key k
    using that worker_inv_runs[OF inv that] eq_key_imp_eq_value[OF worker_inv_rest(1)[OF inv]] by metis
  have fewer: "length (filter (\<lambda>(key, _). key \<noteq> ?key) (wk_runs w)) \<le> length (wk_runs w)" by (rule length_filter_le)
  have "worker_inv cfg ?w'"
  proof (rule worker_invI)
    fix k assume "k < runs_of ?w'"
    then show "run_stage (wk_heap ?w' ! k) = Over \<longleftrightarrow> k \<notin> snd ` set (wk_runs ?w')"
      using worker_inv_stage[OF inv, of k] only by (auto simp: image_iff)
  next
    fix key k assume "(key, k) \<in> set (wk_runs ?w')"
    then show "k < runs_of ?w' \<and> key = q_id (run_claim (wk_heap ?w' ! k))"
      using worker_inv_runs[OF inv] by (auto simp: clearRunTimers_def)
  next
    show "distinct (map fst (wk_runs ?w'))"
      using worker_inv_rest(1)[OF inv] by (simp add: distinct_map_filter)
  next
    show "int (length (wk_runs ?w')) \<le> wc_concurrency cfg"
      using order_trans[OF zle_int[THEN iffD2, OF fewer] worker_inv_rest(3)[OF inv]] by simp
  next
    fix h free assume "wk_tick ?w' = Some (Claiming h free)"
    then show "free + int (length (wk_runs ?w')) \<le> wc_concurrency cfg"
      using order_trans[OF add_left_mono[OF zle_int[THEN iffD2, OF fewer]] worker_inv_claiming[OF inv, of h free]] by simp
  qed (use worker_inv_timer[OF inv] worker_inv_rest(2)[OF inv] in \<open>auto simp: clearRunTimers_def split: if_splits\<close>)
  then show ?thesis by (simp add: runFinally_def Let_def inv_wake)
qed

lemma inv_take_claims:
  assumes inv: "worker_inv cfg w" and tick: "wk_tick w = Some (Claiming h free)"
    and t: "take_claims cfg free 0 qs w = (w', calls)"
  shows "worker_inv cfg (finish_tick b w')"
proof -
  obtain new rest where *: "wk_heap w' = wk_heap w @ map (new_run cfg) new"
      "wk_runs w' = wk_runs w @ zip (map q_id new) [runs_of w ..< runs_of w + length new]"
      "wk_tick w' = wk_tick w" "wk_shutdown w' = wk_shutdown w"
      "distinct (map q_id new)" "set (map q_id new) \<inter> fst ` set (wk_runs w) = {}"
      "new = [] \<or> int 0 + int (length new) \<le> free"
    using take_claims_spec[OF t] by auto
  have snd_new: "snd ` set (zip (map q_id new) [runs_of w ..< runs_of w + length new]) = {runs_of w ..< runs_of w + length new}"
    by (metis length_map length_upt diff_add_inverse set_map map_snd_zip set_upt)
  show ?thesis
  proof (rule worker_invI)
    fix r assume "r < runs_of (finish_tick b w')"
    then consider (old) "r < runs_of w" | (new) "runs_of w \<le> r" "r < runs_of w + length new" using *(1) by force
    note case_r = this
    show "run_renew_timer (wk_heap (finish_tick b w') ! r) \<Longrightarrow> run_renewing (wk_heap (finish_tick b w') ! r) = None"
      using case_r by cases (auto simp: *(1) nth_append new_run_def dest: worker_inv_timer[OF inv])
    show "run_stage (wk_heap (finish_tick b w') ! r) = Over \<longleftrightarrow> r \<notin> snd ` set (wk_runs (finish_tick b w'))"
      using case_r worker_inv_stage[OF inv, of r] worker_inv_runs[OF inv]
      by cases (auto simp: *(1,2) nth_append new_run_def snd_new image_Un)
  next
    fix key r assume "(key, r) \<in> set (wk_runs (finish_tick b w'))"
    then consider "(key, r) \<in> set (wk_runs w)"
      | "(key, r) \<in> set (zip (map q_id new) [runs_of w ..< runs_of w + length new])" using *(2) by auto
    then show "r < runs_of (finish_tick b w') \<and> key = q_id (run_claim (wk_heap (finish_tick b w') ! r))"
    proof cases
      case 2
      then obtain n where "n < length new" "key = q_id (new ! n)" "r = runs_of w + n" by (auto simp: set_zip)
      then show ?thesis by (simp add: *(1) nth_append new_run_def)
    qed (use worker_inv_runs[OF inv, of key r] in \<open>auto simp: *(1) nth_append\<close>)
  next
    show "distinct (map fst (wk_runs (finish_tick b w')))"
      using worker_inv_rest(1)[OF inv] *(5,6) by (auto simp: *(2) map_fst_zip_take)
  next
    show "set (remaining_of (wk_shutdown (finish_tick b w'))) \<subseteq> {..< runs_of (finish_tick b w')}"
      using worker_inv_rest(2)[OF inv] by (auto simp: *(1,4))
  next
    show "int (length (wk_runs (finish_tick b w'))) \<le> wc_concurrency cfg"
      using *(7) worker_inv_claiming[OF inv tick] worker_inv_rest(3)[OF inv] by (auto simp: *(2))
  qed simp
qed

lemma inv_claimed:
  assumes "worker_inv cfg w"
  shows "worker_inv cfg (fst (claimed cfg a w))"
  using assms inv_finish_tick[OF assms]
  by (auto simp: claimed_def inv_take_claims split: option.split tick_stage.split prod.split)

lemma inv_shutdown_continue:
  assumes inv: "worker_inv cfg w"
  shows "worker_inv cfg (fst (shutdown_continue w))"
proof -
  have set_shutdown: "worker_inv cfg (w'\<lparr>wk_shutdown := sd\<rparr>)" "worker_inv cfg (w'\<lparr>wk_phase := ph, wk_shutdown := sd\<rparr>)"
    if "worker_inv cfg w'" "set (remaining_of sd) \<subseteq> {..< runs_of w'}" for w' sd ph
    using that worker_inv_claiming[OF that(1)] by (auto intro!: worker_inv_same[OF that(1)])
  have runs: "set (map snd (wk_runs w)) \<subseteq> {..< runs_of w}"
    using worker_inv_runs[OF inv] by auto
  have upd: "worker_inv cfg (upd_runs rs f w)" if "set rs \<subseteq> {..< runs_of w}"
      "f = abort_run Shutdown_abort \<or> f = (\<lambda>run. run\<lparr>run_settled := True\<rparr>) \<or> f = clearRunTimers" for rs f
    using that by (intro worker_inv_upd_runs[OF inv]) (auto simp: clearRunTimers_def)
  note rem = worker_inv_rest(2)[OF inv]
  show ?thesis
  proof (cases "wk_shutdown w")
    case Waiting_grace
    then show ?thesis
      using runs by (simp add: shutdown_continue_def Let_def set_shutdown upd inv)
  next
    case (Waiting_aborted rs)
    then show ?thesis
      using rem by (auto simp: shutdown_continue_def Let_def intro!: set_shutdown upd inv)
  next
    case (Waiting_released rs)
    then show ?thesis
      using rem by (auto simp: shutdown_continue_def Let_def intro!: set_shutdown upd inv)
  qed (use inv in \<open>auto simp: shutdown_continue_def intro!: set_shutdown\<close>)
qed

lemma inv_start_stop: "worker_inv cfg w \<Longrightarrow> worker_inv cfg (start w)" "worker_inv cfg w \<Longrightarrow> worker_inv cfg (stop w)"
proof -
  assume inv: "worker_inv cfg w"
  show "worker_inv cfg (start w)"
    by (rule worker_inv_keep[OF inv]) (simp_all add: start_def)
  show "worker_inv cfg (stop w)"
    by (rule worker_inv_same[OF inv]) (use worker_inv_rest(2)[OF inv] worker_inv_claiming[OF inv] in \<open>auto simp: stop_def split: if_splits\<close>)
qed

theorem inv_step:
  assumes inv: "worker_inv cfg w" and can: "can_happen e w"
  shows "worker_inv cfg (fst (worker_step cfg onf now e w))"
proof (cases e)
  case (Renew_timer r)
  then show ?thesis using inv can by (simp add: inv_renew)
next
  case (Fail_recorded r a)
  then show ?thesis
    using inv can by (auto simp: failRecorded_def stage_is_def intro!: worker_inv_upd_run dest: worker_inv_timer)
next
  case (Released origin)
  then show ?thesis using inv can by (cases origin) (auto intro: inv_set_stage)
qed (use inv can in \<open>auto simp: inv_start_stop inv_runTick inv_maintain_next inv_claimed inv_tickFinally inv_handlerReturned
       inv_handlerThrew inv_runFinally inv_renewed inv_deadlineTimer inv_shutdown_continue
       intro: inv_set_stage split: option.split tick_stage.split\<close>)

end
