(* ===== verification/FleetInvariant.thy ===== *)
theory FleetInvariant
  imports WorkerFacts
begin

text \<open>
  The contract of the queue as a locale, and the invariant of a fleet on any queue that keeps it: labels are used by one
  claim call, a lease token (label and job) belongs to one run, a run that works is backed by its lease in the store until
  its deadline has passed, and no call that would end a lease is under way for a run that works.
\<close>

section \<open>The contract\<close>

locale leased_queue =
  fixes P :: "'s queue_port" and good :: "'s \<Rightarrow> bool" and lease :: "'s \<Rightarrow> string \<Rightarrow> (string \<times> instant) option"
  assumes claim_law: "good st \<Longrightarrow> p_claim P skip st opts now = Inr (st', qs) \<Longrightarrow>
      good st' \<and> distinct (map q_id qs)
      \<and> (\<forall>q \<in> set qs. lease st (q_id q) = None \<and> lease st' (q_id q) = Some (o_owner opts, now + o_lease_ms opts)
            \<and> q_owner q = o_owner opts \<and> q_expires q = now + o_lease_ms opts)
      \<and> (\<forall>jid. jid \<notin> q_id ` set qs \<longrightarrow> lease st' jid = lease st jid)"
    and renew_law: "good st \<Longrightarrow> p_renew P st jid owner ms now = Inr (st', held) \<Longrightarrow>
      good st' \<and> (if held then (\<exists>t. lease st jid = Some (owner, t)) \<and> lease st' = (lease st)(jid \<mapsto> (owner, now + ms))
                  else lease st' = lease st)"
    and complete_law: "good st \<Longrightarrow> p_complete P st jid owner now = Inr (st', ok) \<Longrightarrow>
      good st' \<and> (lease st' = lease st \<or> (\<exists>t. lease st jid = Some (owner, t)) \<and> lease st' = (lease st)(jid := None))"
    and release_law: "good st \<Longrightarrow> p_release P st jid owner now = Inr (st', ok) \<Longrightarrow>
      good st' \<and> (lease st' = lease st \<or> (\<exists>t. lease st jid = Some (owner, t)) \<and> lease st' = (lease st)(jid := None))"
    and fail_law: "good st \<Longrightarrow> p_fail P st jid owner code retryable now = Inr (st', outcome) \<Longrightarrow>
      good st' \<and> (lease st' = lease st \<or> (\<exists>t. lease st jid = Some (owner, t)) \<and> lease st' = (lease st)(jid := None))"
    and requeue_law: "good st \<Longrightarrow> p_requeue P skip st now limit = Inr (st', n) \<Longrightarrow>
      good st' \<and> (\<forall>jid. lease st' jid = lease st jid
                      \<or> (lease st' jid = None \<and> (\<exists>owner t. lease st jid = Some (owner, t) \<and> t < now)))"
    and cleanup_law: "good st \<Longrightarrow> p_cleanup P skip draw st now limit = (st', u) \<Longrightarrow> good st' \<and> lease st' = lease st"
    and enqueue_law: "good st \<Longrightarrow> p_enqueue P draw st job now = Inr (st', a) \<Longrightarrow> good st' \<and> lease st' = lease st"

section \<open>The invariant\<close>

definition waiting_claim :: "'s fleet \<Rightarrow> nat \<Rightarrow> nat \<Rightarrow> claim \<Rightarrow> bool" where
  "waiting_claim f k i q \<longleftrightarrow>
     (\<exists>m qs. f_mail f k = Some m \<and> m_worker m = i \<and> m_answer m = Some (Claimed (Some qs)) \<and> q \<in> set qs)"

definition asked :: "'s fleet \<Rightarrow> nat \<Rightarrow> string \<Rightarrow> bool" where
  "asked f k label \<longleftrightarrow>
     (\<exists>m opts. f_mail f k = Some m \<and> m_answer m = None \<and> m_call m = Claim_call opts \<and> o_owner opts = label)"

fun settles :: "port_call \<Rightarrow> (string \<times> string) option" where
  "settles (Complete_call r jid owner) = Some (owner, jid)"
| "settles (Fail_call r jid owner code retryable) = Some (owner, jid)"
| "settles (Release_call origin jid owner) = Some (owner, jid)"
| "settles c = None"

definition settling :: "'s fleet \<Rightarrow> string \<times> string \<Rightarrow> bool" where
  "settling f tok \<longleftrightarrow> (\<exists>k m. f_mail f k = Some m \<and> m_answer m = None \<and> settles (m_call m) = Some tok)"

definition claim_token :: "claim \<Rightarrow> string \<times> string" where
  "claim_token q = (q_owner q, q_id q)"

type_synonym 's lease_of = "'s \<Rightarrow> string \<Rightarrow> (string \<times> instant) option"

definition used :: "'s lease_of \<Rightarrow> 's fleet \<Rightarrow> string \<Rightarrow> bool" where
  "used lease f label \<longleftrightarrow>
     (\<exists>jid t. lease (f_store f) jid = Some (label, t))
     \<or> (\<exists>i r. is_run f i r \<and> fst (token (the_run f i r)) = label)
     \<or> (\<exists>k i q. waiting_claim f k i q \<and> q_owner q = label)
     \<or> (\<exists>jid. settling f (label, jid))"

definition backed :: "'s lease_of \<Rightarrow> 's fleet \<Rightarrow> string \<times> string \<Rightarrow> instant \<Rightarrow> bool" where
  "backed lease f tok until \<longleftrightarrow>
     (\<exists>t. lease (f_store f) (snd tok) = Some (fst tok, t) \<and> until \<le> t) \<or> until < f_clock f"

definition shape :: "worker_config list \<Rightarrow> 's fleet \<Rightarrow> bool" where
  "shape cfgs f \<longleftrightarrow>
     length (f_workers f) = length cfgs
     \<and> (\<forall>i. i < length cfgs \<longrightarrow> worker_inv (cfgs ! i) (f_workers f ! i))
     \<and> (\<forall>k m. f_mail f k = Some m \<longrightarrow> k < f_next f)
     \<and> (\<forall>k m. f_mail f k = Some m \<longrightarrow> m_worker m < length cfgs)
     \<and> (\<forall>k m. f_mail f k = Some m \<longrightarrow> m_sent m \<le> f_clock f)
     \<and> (\<forall>k m opts. f_mail f k = Some m \<longrightarrow> m_call m = Claim_call opts \<longrightarrow> o_lease_ms opts = wc_lease (cfgs ! m_worker m))
     \<and> (\<forall>k m r held. f_mail f k = Some m \<longrightarrow> m_answer m = Some (Renewed r held) \<longrightarrow> (\<exists>jid owner ms. m_call m = Renew_call r jid owner ms))"

definition labels :: "'s lease_of \<Rightarrow> worker_config list \<Rightarrow> 's fleet \<Rightarrow> bool" where
  "labels lease cfgs f \<longleftrightarrow>
     (\<forall>i n. i < length cfgs \<longrightarrow> wk_seq (f_workers f ! i) < n \<longrightarrow> \<not> used lease f (lease_label (wc_owner (cfgs ! i)) n))
     \<and> (\<forall>i n k. i < length cfgs \<longrightarrow> wk_seq (f_workers f ! i) < n \<longrightarrow> \<not> asked f k (lease_label (wc_owner (cfgs ! i)) n))
     \<and> (\<forall>k label. asked f k label \<longrightarrow> \<not> used lease f label)
     \<and> (\<forall>k k' label. asked f k label \<longrightarrow> asked f k' label \<longrightarrow> k' = k)"

definition tokens :: "'s fleet \<Rightarrow> bool" where
  "tokens f \<longleftrightarrow>
     (\<forall>i r j s. is_run f i r \<longrightarrow> is_run f j s \<longrightarrow> token (the_run f i r) = token (the_run f j s) \<longrightarrow> (i, r) = (j, s))
     \<and> (\<forall>i r k j q. is_run f i r \<longrightarrow> waiting_claim f k j q \<longrightarrow> token (the_run f i r) \<noteq> claim_token q)
     \<and> (\<forall>k i q k' j q'. waiting_claim f k i q \<longrightarrow> waiting_claim f k' j q' \<longrightarrow> claim_token q = claim_token q' \<longrightarrow> k = k')
     \<and> (\<forall>k m qs. f_mail f k = Some m \<longrightarrow> m_answer m = Some (Claimed (Some qs)) \<longrightarrow> distinct (map claim_token qs))
     \<and> (\<forall>i r. settling f (token (the_run f i r)) \<longrightarrow> is_run f i r \<longrightarrow> gone (the_run f i r))
     \<and> (\<forall>tok k i q. settling f tok \<longrightarrow> waiting_claim f k i q \<longrightarrow> claim_token q \<noteq> tok)"

definition leases :: "'s lease_of \<Rightarrow> worker_config list \<Rightarrow> 's fleet \<Rightarrow> bool" where
  "leases lease cfgs f \<longleftrightarrow>
     (\<forall>i r. working f i r \<longrightarrow> backed lease f (token (the_run f i r)) (run_until (the_run f i r)))
     \<and> (\<forall>i r. working f i r \<longrightarrow> run_until (the_run f i r) \<le> f_clock f + wc_lease (cfgs ! i))
     \<and> (\<forall>k i q. waiting_claim f k i q \<longrightarrow> backed lease f (claim_token q) (q_expires q))
     \<and> (\<forall>k i q. waiting_claim f k i q \<longrightarrow> q_expires q \<le> f_clock f + wc_lease (cfgs ! i))"

definition renewals :: "'s lease_of \<Rightarrow> worker_config list \<Rightarrow> 's fleet \<Rightarrow> bool" where
  "renewals lease cfgs f \<longleftrightarrow>
     (\<forall>k m r jid owner ms. f_mail f k = Some m \<longrightarrow> m_call m = Renew_call r jid owner ms \<longrightarrow> is_run f (m_worker m) r)
     \<and> (\<forall>k m r jid owner ms. f_mail f k = Some m \<longrightarrow> m_call m = Renew_call r jid owner ms \<longrightarrow> token (the_run f (m_worker m) r) = (owner, jid))
     \<and> (\<forall>k m r jid owner ms. f_mail f k = Some m \<longrightarrow> m_call m = Renew_call r jid owner ms \<longrightarrow> ms = wc_lease (cfgs ! m_worker m))
     \<and> (\<forall>k m r jid owner ms. f_mail f k = Some m \<longrightarrow> m_call m = Renew_call r jid owner ms \<longrightarrow> run_renewing (the_run f (m_worker m) r) = Some (m_sent m))
     \<and> (\<forall>k m r jid owner ms. f_mail f k = Some m \<longrightarrow> m_call m = Renew_call r jid owner ms \<longrightarrow> \<not> gone (the_run f (m_worker m) r) \<longrightarrow> run_until (the_run f (m_worker m) r) \<le> m_sent m + ms)
     \<and> (\<forall>k m r jid owner ms. f_mail f k = Some m \<longrightarrow> m_call m = Renew_call r jid owner ms \<longrightarrow> m_answer m = Some (Renewed r (Some True)) \<longrightarrow> \<not> gone (the_run f (m_worker m) r) \<longrightarrow> backed lease f (owner, jid) (m_sent m + ms))
     \<and> (\<forall>k m r jid owner ms k' m' jid' owner' ms'. f_mail f k = Some m \<longrightarrow> m_call m = Renew_call r jid owner ms \<longrightarrow> f_mail f k' = Some m' \<longrightarrow> m_worker m' = m_worker m \<longrightarrow> m_call m' = Renew_call r jid' owner' ms' \<longrightarrow> k' = k)"

definition fleet_inv :: "'s lease_of \<Rightarrow> worker_config list \<Rightarrow> 's fleet \<Rightarrow> bool" where
  "fleet_inv lease cfgs f \<longleftrightarrow>
     shape cfgs f \<and> labels lease cfgs f \<and> tokens f \<and> leases lease cfgs f \<and> renewals lease cfgs f"

section \<open>Introducing and using the parts\<close>

lemma shapeI:
  assumes "length (f_workers f) = length cfgs"
    and "\<And>i. i < length cfgs \<Longrightarrow> worker_inv (cfgs ! i) (f_workers f ! i)"
    and "\<And>k m. f_mail f k = Some m \<Longrightarrow> k < f_next f"
    and "\<And>k m. f_mail f k = Some m \<Longrightarrow> m_worker m < length cfgs"
    and "\<And>k m. f_mail f k = Some m \<Longrightarrow> m_sent m \<le> f_clock f"
    and "\<And>k m opts. f_mail f k = Some m \<Longrightarrow> m_call m = Claim_call opts \<Longrightarrow> o_lease_ms opts = wc_lease (cfgs ! m_worker m)"
    and "\<And>k m r held. f_mail f k = Some m \<Longrightarrow> m_answer m = Some (Renewed r held) \<Longrightarrow> (\<exists>jid owner ms. m_call m = Renew_call r jid owner ms)"
  shows "shape cfgs f"
  unfolding shape_def by (intro conjI allI impI; rule assms; assumption)

lemma shapeD:
  assumes inv: "shape cfgs f"
  shows "length (f_workers f) = length cfgs"
    and "i < length cfgs \<Longrightarrow> worker_inv (cfgs ! i) (f_workers f ! i)"
    and "f_mail f k = Some m \<Longrightarrow> k < f_next f"
    and "f_mail f k = Some m \<Longrightarrow> m_worker m < length cfgs"
    and "f_mail f k = Some m \<Longrightarrow> m_sent m \<le> f_clock f"
    and "f_mail f k = Some m \<Longrightarrow> m_call m = Claim_call opts \<Longrightarrow> o_lease_ms opts = wc_lease (cfgs ! m_worker m)"
    and "f_mail f k = Some m \<Longrightarrow> m_answer m = Some (Renewed r held) \<Longrightarrow> (\<exists>jid owner ms. m_call m = Renew_call r jid owner ms)"
proof -
  note unfolded = inv[unfolded shape_def]
  show "length (f_workers f) = length cfgs"
    by (rule unfolded[THEN conjunct1])
  show "i < length cfgs \<Longrightarrow> worker_inv (cfgs ! i) (f_workers f ! i)"
    by (rule unfolded[THEN conjunct2, THEN conjunct1, rule_format])
  show "f_mail f k = Some m \<Longrightarrow> k < f_next f"
    by (rule unfolded[THEN conjunct2, THEN conjunct2, THEN conjunct1, rule_format])
  show "f_mail f k = Some m \<Longrightarrow> m_worker m < length cfgs"
    by (rule unfolded[THEN conjunct2, THEN conjunct2, THEN conjunct2, THEN conjunct1, rule_format])
  show "f_mail f k = Some m \<Longrightarrow> m_sent m \<le> f_clock f"
    by (rule unfolded[THEN conjunct2, THEN conjunct2, THEN conjunct2, THEN conjunct2, THEN conjunct1, rule_format])
  show "f_mail f k = Some m \<Longrightarrow> m_call m = Claim_call opts \<Longrightarrow> o_lease_ms opts = wc_lease (cfgs ! m_worker m)"
    by (rule unfolded[THEN conjunct2, THEN conjunct2, THEN conjunct2, THEN conjunct2, THEN conjunct2, THEN conjunct1, rule_format])
  show "f_mail f k = Some m \<Longrightarrow> m_answer m = Some (Renewed r held) \<Longrightarrow> (\<exists>jid owner ms. m_call m = Renew_call r jid owner ms)"
    by (rule unfolded[THEN conjunct2, THEN conjunct2, THEN conjunct2, THEN conjunct2, THEN conjunct2, THEN conjunct2, rule_format])
qed

lemma labelsI:
  assumes "\<And>i n. i < length cfgs \<Longrightarrow> wk_seq (f_workers f ! i) < n \<Longrightarrow> \<not> used lease f (lease_label (wc_owner (cfgs ! i)) n)"
    and "\<And>i n k. i < length cfgs \<Longrightarrow> wk_seq (f_workers f ! i) < n \<Longrightarrow> \<not> asked f k (lease_label (wc_owner (cfgs ! i)) n)"
    and "\<And>k label. asked f k label \<Longrightarrow> \<not> used lease f label"
    and "\<And>k k' label. asked f k label \<Longrightarrow> asked f k' label \<Longrightarrow> k' = k"
  shows "labels lease cfgs f"
  unfolding labels_def by (intro conjI allI impI; rule assms; assumption)

lemma labelsD:
  assumes inv: "labels lease cfgs f"
  shows "i < length cfgs \<Longrightarrow> wk_seq (f_workers f ! i) < n \<Longrightarrow> \<not> used lease f (lease_label (wc_owner (cfgs ! i)) n)"
    and "i < length cfgs \<Longrightarrow> wk_seq (f_workers f ! i) < n \<Longrightarrow> \<not> asked f k (lease_label (wc_owner (cfgs ! i)) n)"
    and "asked f k label \<Longrightarrow> \<not> used lease f label"
    and "asked f k label \<Longrightarrow> asked f k' label \<Longrightarrow> k' = k"
proof -
  note unfolded = inv[unfolded labels_def]
  show "i < length cfgs \<Longrightarrow> wk_seq (f_workers f ! i) < n \<Longrightarrow> \<not> used lease f (lease_label (wc_owner (cfgs ! i)) n)"
    by (rule unfolded[THEN conjunct1, rule_format])
  show "i < length cfgs \<Longrightarrow> wk_seq (f_workers f ! i) < n \<Longrightarrow> \<not> asked f k (lease_label (wc_owner (cfgs ! i)) n)"
    by (rule unfolded[THEN conjunct2, THEN conjunct1, rule_format])
  show "asked f k label \<Longrightarrow> \<not> used lease f label"
    by (rule unfolded[THEN conjunct2, THEN conjunct2, THEN conjunct1, rule_format])
  show "asked f k label \<Longrightarrow> asked f k' label \<Longrightarrow> k' = k"
    by (rule unfolded[THEN conjunct2, THEN conjunct2, THEN conjunct2, rule_format])
qed

lemma tokensI:
  assumes "\<And>i r j s. is_run f i r \<Longrightarrow> is_run f j s \<Longrightarrow> token (the_run f i r) = token (the_run f j s) \<Longrightarrow> (i, r) = (j, s)"
    and "\<And>i r k j q. is_run f i r \<Longrightarrow> waiting_claim f k j q \<Longrightarrow> token (the_run f i r) \<noteq> claim_token q"
    and "\<And>k i q k' j q'. waiting_claim f k i q \<Longrightarrow> waiting_claim f k' j q' \<Longrightarrow> claim_token q = claim_token q' \<Longrightarrow> k = k'"
    and "\<And>k m qs. f_mail f k = Some m \<Longrightarrow> m_answer m = Some (Claimed (Some qs)) \<Longrightarrow> distinct (map claim_token qs)"
    and "\<And>i r. settling f (token (the_run f i r)) \<Longrightarrow> is_run f i r \<Longrightarrow> gone (the_run f i r)"
    and "\<And>tok k i q. settling f tok \<Longrightarrow> waiting_claim f k i q \<Longrightarrow> claim_token q \<noteq> tok"
  shows "tokens f"
  unfolding tokens_def by (intro conjI allI impI; rule assms; assumption)

lemma tokensD:
  assumes inv: "tokens f"
  shows "is_run f i r \<Longrightarrow> is_run f j s \<Longrightarrow> token (the_run f i r) = token (the_run f j s) \<Longrightarrow> (i, r) = (j, s)"
    and "is_run f i r \<Longrightarrow> waiting_claim f k j q \<Longrightarrow> token (the_run f i r) \<noteq> claim_token q"
    and "waiting_claim f k i q \<Longrightarrow> waiting_claim f k' j q' \<Longrightarrow> claim_token q = claim_token q' \<Longrightarrow> k = k'"
    and "f_mail f k = Some m \<Longrightarrow> m_answer m = Some (Claimed (Some qs)) \<Longrightarrow> distinct (map claim_token qs)"
    and "settling f (token (the_run f i r)) \<Longrightarrow> is_run f i r \<Longrightarrow> gone (the_run f i r)"
    and "settling f tok \<Longrightarrow> waiting_claim f k i q \<Longrightarrow> claim_token q \<noteq> tok"
proof -
  note unfolded = inv[unfolded tokens_def]
  show "is_run f i r \<Longrightarrow> is_run f j s \<Longrightarrow> token (the_run f i r) = token (the_run f j s) \<Longrightarrow> (i, r) = (j, s)"
    by (rule unfolded[THEN conjunct1, rule_format])
  show "is_run f i r \<Longrightarrow> waiting_claim f k j q \<Longrightarrow> token (the_run f i r) \<noteq> claim_token q"
    by (rule unfolded[THEN conjunct2, THEN conjunct1, rule_format])
  show "waiting_claim f k i q \<Longrightarrow> waiting_claim f k' j q' \<Longrightarrow> claim_token q = claim_token q' \<Longrightarrow> k = k'"
    by (rule unfolded[THEN conjunct2, THEN conjunct2, THEN conjunct1, rule_format])
  show "f_mail f k = Some m \<Longrightarrow> m_answer m = Some (Claimed (Some qs)) \<Longrightarrow> distinct (map claim_token qs)"
    by (rule unfolded[THEN conjunct2, THEN conjunct2, THEN conjunct2, THEN conjunct1, rule_format])
  show "settling f (token (the_run f i r)) \<Longrightarrow> is_run f i r \<Longrightarrow> gone (the_run f i r)"
    by (rule unfolded[THEN conjunct2, THEN conjunct2, THEN conjunct2, THEN conjunct2, THEN conjunct1, rule_format])
  show "settling f tok \<Longrightarrow> waiting_claim f k i q \<Longrightarrow> claim_token q \<noteq> tok"
    by (rule unfolded[THEN conjunct2, THEN conjunct2, THEN conjunct2, THEN conjunct2, THEN conjunct2, rule_format])
qed

lemma leasesI:
  assumes "\<And>i r. working f i r \<Longrightarrow> backed lease f (token (the_run f i r)) (run_until (the_run f i r))"
    and "\<And>i r. working f i r \<Longrightarrow> run_until (the_run f i r) \<le> f_clock f + wc_lease (cfgs ! i)"
    and "\<And>k i q. waiting_claim f k i q \<Longrightarrow> backed lease f (claim_token q) (q_expires q)"
    and "\<And>k i q. waiting_claim f k i q \<Longrightarrow> q_expires q \<le> f_clock f + wc_lease (cfgs ! i)"
  shows "leases lease cfgs f"
  unfolding leases_def by (intro conjI allI impI; rule assms; assumption)

lemma leasesD:
  assumes inv: "leases lease cfgs f"
  shows "working f i r \<Longrightarrow> backed lease f (token (the_run f i r)) (run_until (the_run f i r))"
    and "working f i r \<Longrightarrow> run_until (the_run f i r) \<le> f_clock f + wc_lease (cfgs ! i)"
    and "waiting_claim f k i q \<Longrightarrow> backed lease f (claim_token q) (q_expires q)"
    and "waiting_claim f k i q \<Longrightarrow> q_expires q \<le> f_clock f + wc_lease (cfgs ! i)"
proof -
  note unfolded = inv[unfolded leases_def]
  show "working f i r \<Longrightarrow> backed lease f (token (the_run f i r)) (run_until (the_run f i r))"
    by (rule unfolded[THEN conjunct1, rule_format])
  show "working f i r \<Longrightarrow> run_until (the_run f i r) \<le> f_clock f + wc_lease (cfgs ! i)"
    by (rule unfolded[THEN conjunct2, THEN conjunct1, rule_format])
  show "waiting_claim f k i q \<Longrightarrow> backed lease f (claim_token q) (q_expires q)"
    by (rule unfolded[THEN conjunct2, THEN conjunct2, THEN conjunct1, rule_format])
  show "waiting_claim f k i q \<Longrightarrow> q_expires q \<le> f_clock f + wc_lease (cfgs ! i)"
    by (rule unfolded[THEN conjunct2, THEN conjunct2, THEN conjunct2, rule_format])
qed

lemma renewalsI:
  assumes "\<And>k m r jid owner ms. f_mail f k = Some m \<Longrightarrow> m_call m = Renew_call r jid owner ms \<Longrightarrow> is_run f (m_worker m) r"
    and "\<And>k m r jid owner ms. f_mail f k = Some m \<Longrightarrow> m_call m = Renew_call r jid owner ms \<Longrightarrow> token (the_run f (m_worker m) r) = (owner, jid)"
    and "\<And>k m r jid owner ms. f_mail f k = Some m \<Longrightarrow> m_call m = Renew_call r jid owner ms \<Longrightarrow> ms = wc_lease (cfgs ! m_worker m)"
    and "\<And>k m r jid owner ms. f_mail f k = Some m \<Longrightarrow> m_call m = Renew_call r jid owner ms \<Longrightarrow> run_renewing (the_run f (m_worker m) r) = Some (m_sent m)"
    and "\<And>k m r jid owner ms. f_mail f k = Some m \<Longrightarrow> m_call m = Renew_call r jid owner ms \<Longrightarrow> \<not> gone (the_run f (m_worker m) r) \<Longrightarrow> run_until (the_run f (m_worker m) r) \<le> m_sent m + ms"
    and "\<And>k m r jid owner ms. f_mail f k = Some m \<Longrightarrow> m_call m = Renew_call r jid owner ms \<Longrightarrow> m_answer m = Some (Renewed r (Some True)) \<Longrightarrow> \<not> gone (the_run f (m_worker m) r) \<Longrightarrow> backed lease f (owner, jid) (m_sent m + ms)"
    and "\<And>k m r jid owner ms k' m' jid' owner' ms'. f_mail f k = Some m \<Longrightarrow> m_call m = Renew_call r jid owner ms \<Longrightarrow> f_mail f k' = Some m' \<Longrightarrow> m_worker m' = m_worker m \<Longrightarrow> m_call m' = Renew_call r jid' owner' ms' \<Longrightarrow> k' = k"
  shows "renewals lease cfgs f"
  unfolding renewals_def by (intro conjI allI impI; rule assms; assumption)

lemma renewalsD:
  assumes inv: "renewals lease cfgs f"
  shows "f_mail f k = Some m \<Longrightarrow> m_call m = Renew_call r jid owner ms \<Longrightarrow> is_run f (m_worker m) r"
    and "f_mail f k = Some m \<Longrightarrow> m_call m = Renew_call r jid owner ms \<Longrightarrow> token (the_run f (m_worker m) r) = (owner, jid)"
    and "f_mail f k = Some m \<Longrightarrow> m_call m = Renew_call r jid owner ms \<Longrightarrow> ms = wc_lease (cfgs ! m_worker m)"
    and "f_mail f k = Some m \<Longrightarrow> m_call m = Renew_call r jid owner ms \<Longrightarrow> run_renewing (the_run f (m_worker m) r) = Some (m_sent m)"
    and "f_mail f k = Some m \<Longrightarrow> m_call m = Renew_call r jid owner ms \<Longrightarrow> \<not> gone (the_run f (m_worker m) r) \<Longrightarrow> run_until (the_run f (m_worker m) r) \<le> m_sent m + ms"
    and "f_mail f k = Some m \<Longrightarrow> m_call m = Renew_call r jid owner ms \<Longrightarrow> m_answer m = Some (Renewed r (Some True)) \<Longrightarrow> \<not> gone (the_run f (m_worker m) r) \<Longrightarrow> backed lease f (owner, jid) (m_sent m + ms)"
    and "f_mail f k = Some m \<Longrightarrow> m_call m = Renew_call r jid owner ms \<Longrightarrow> f_mail f k' = Some m' \<Longrightarrow> m_worker m' = m_worker m \<Longrightarrow> m_call m' = Renew_call r jid' owner' ms' \<Longrightarrow> k' = k"
proof -
  note unfolded = inv[unfolded renewals_def]
  show "f_mail f k = Some m \<Longrightarrow> m_call m = Renew_call r jid owner ms \<Longrightarrow> is_run f (m_worker m) r"
    by (rule unfolded[THEN conjunct1, rule_format])
  show "f_mail f k = Some m \<Longrightarrow> m_call m = Renew_call r jid owner ms \<Longrightarrow> token (the_run f (m_worker m) r) = (owner, jid)"
    by (rule unfolded[THEN conjunct2, THEN conjunct1, rule_format])
  show "f_mail f k = Some m \<Longrightarrow> m_call m = Renew_call r jid owner ms \<Longrightarrow> ms = wc_lease (cfgs ! m_worker m)"
    by (rule unfolded[THEN conjunct2, THEN conjunct2, THEN conjunct1, rule_format])
  show "f_mail f k = Some m \<Longrightarrow> m_call m = Renew_call r jid owner ms \<Longrightarrow> run_renewing (the_run f (m_worker m) r) = Some (m_sent m)"
    by (rule unfolded[THEN conjunct2, THEN conjunct2, THEN conjunct2, THEN conjunct1, rule_format])
  show "f_mail f k = Some m \<Longrightarrow> m_call m = Renew_call r jid owner ms \<Longrightarrow> \<not> gone (the_run f (m_worker m) r) \<Longrightarrow> run_until (the_run f (m_worker m) r) \<le> m_sent m + ms"
    by (rule unfolded[THEN conjunct2, THEN conjunct2, THEN conjunct2, THEN conjunct2, THEN conjunct1, rule_format])
  show "f_mail f k = Some m \<Longrightarrow> m_call m = Renew_call r jid owner ms \<Longrightarrow> m_answer m = Some (Renewed r (Some True)) \<Longrightarrow> \<not> gone (the_run f (m_worker m) r) \<Longrightarrow> backed lease f (owner, jid) (m_sent m + ms)"
    by (rule unfolded[THEN conjunct2, THEN conjunct2, THEN conjunct2, THEN conjunct2, THEN conjunct2, THEN conjunct1, rule_format])
  show "f_mail f k = Some m \<Longrightarrow> m_call m = Renew_call r jid owner ms \<Longrightarrow> f_mail f k' = Some m' \<Longrightarrow> m_worker m' = m_worker m \<Longrightarrow> m_call m' = Renew_call r jid' owner' ms' \<Longrightarrow> k' = k"
    by (rule unfolded[THEN conjunct2, THEN conjunct2, THEN conjunct2, THEN conjunct2, THEN conjunct2, THEN conjunct2, rule_format])
qed

lemma fleet_invD:
  assumes "fleet_inv lease cfgs f"
  shows "shape cfgs f" and "labels lease cfgs f" and "tokens f" and "leases lease cfgs f" and "renewals lease cfgs f"
  using assms unfolding fleet_inv_def by blast+

section \<open>Time, other users of the store, and mail that is gone\<close>

text \<open>The parts of the invariant for a fleet that differs in nothing a part looks at.\<close>

lemma fleet_views:
  assumes "f_workers f' = f_workers f" and "f_mail f' = f_mail f"
  shows "is_run f' = is_run f" "the_run f' = the_run f" "waiting_claim f' = waiting_claim f" "asked f' = asked f"
    "settling f' = settling f" "working f' = working f"
  using assms by (auto simp: fun_eq_iff is_run_def the_run_def waiting_claim_def asked_def settling_def working_def)

lemma used_same:
  assumes "f_workers f' = f_workers f" and "f_mail f' = f_mail f" and "lease (f_store f') = lease (f_store f)"
  shows "used lease f' = used lease f"
  unfolding fun_eq_iff used_def fleet_views[OF assms(1,2)] assms(3) by simp

lemma fleet_inv_time:
  assumes inv: "fleet_inv lease cfgs f" and d: "0 \<le> d"
  shows "fleet_inv lease cfgs (f\<lparr>f_clock := f_clock f + d\<rparr>)"
proof -
  define f' where "f' = f\<lparr>f_clock := f_clock f + d\<rparr>"
  have fields: "f_workers f' = f_workers f" "f_mail f' = f_mail f" "f_store f' = f_store f" "f_next f' = f_next f"
      "f_clock f' = f_clock f + d"
    by (simp_all add: f'_def)
  note views = fleet_views[OF fields(1,2)] used_same[OF fields(1,2), of lease, unfolded fields(3), OF refl]
  have kept: "backed lease f tok t \<Longrightarrow> backed lease f' tok t" for tok t
    using d by (auto simp: backed_def fields)
  have le: "t \<le> f_clock f + c \<Longrightarrow> t \<le> f_clock f' + c" "t \<le> f_clock f \<Longrightarrow> t \<le> f_clock f'" for t c
    using d by (simp_all add: fields(5))
  note D = fleet_invD[OF inv]
  have "shape cfgs f'"
    by (rule shapeI; (unfold fields(1,2,4))?; (rule le)?; meson shapeD[OF D(1)])
  moreover have "labels lease cfgs f'" using D(2) unfolding labels_def fields views .
  moreover have "tokens f'" using D(3) unfolding tokens_def fields views .
  moreover have "leases lease cfgs f'"
    by (rule leasesI; (unfold views)?; (rule kept le)?; meson leasesD[OF D(4)])
  moreover have "renewals lease cfgs f'"
    by (rule renewalsI; (unfold views fields(2))?; (rule kept)?; meson renewalsD[OF D(5)])
  ultimately show ?thesis by (simp add: fleet_inv_def f'_def)
qed

lemma fleet_inv_others:
  assumes inv: "fleet_inv lease cfgs f" and same: "lease st = lease (f_store f)"
  shows "fleet_inv lease cfgs (f\<lparr>f_store := st\<rparr>)"
proof -
  define f' where "f' = f\<lparr>f_store := st\<rparr>"
  have fields: "f_workers f' = f_workers f" "f_mail f' = f_mail f" "f_next f' = f_next f" "f_clock f' = f_clock f"
    by (simp_all add: f'_def)
  have st: "lease (f_store f') = lease (f_store f)" by (simp add: f'_def same)
  have kept: "backed lease f' = backed lease f" by (simp add: fun_eq_iff backed_def st fields)
  show ?thesis
    using inv unfolding fleet_inv_def shape_def labels_def tokens_def leases_def renewals_def f'_def[symmetric]
      fields fleet_views[OF fields(1,2)] used_same[OF fields(1,2) st] kept .
qed

text \<open>Tokens: fewer claims wait, and a call that would end a lease is one of a run that has ended.\<close>

lemma tokens_less:
  assumes old: "tokens f"
    and runs: "\<And>i r. is_run f' i r \<Longrightarrow> is_run f i r" "\<And>i r. is_run f' i r \<Longrightarrow> token (the_run f' i r) = token (the_run f i r)"
      "\<And>i r. is_run f' i r \<Longrightarrow> gone (the_run f i r) \<Longrightarrow> gone (the_run f' i r)"
    and waiting: "\<And>k i q. waiting_claim f' k i q \<Longrightarrow> waiting_claim f k i q"
    and answers: "\<And>k m qs. f_mail f' k = Some m \<Longrightarrow> m_answer m = Some (Claimed (Some qs)) \<Longrightarrow> distinct (map claim_token qs)"
    and settled: "\<And>tok. settling f' tok \<Longrightarrow> settling f tok
                   \<or> (\<exists>i r. is_run f i r \<and> token (the_run f i r) = tok \<and> gone (the_run f' i r))"
  shows "tokens f'"
proof (rule tokensI)
  note T = tokensD[OF old]
  fix i r j s assume "is_run f' i r" "is_run f' j s" "token (the_run f' i r) = token (the_run f' j s)"
  then show "(i, r) = (j, s)" using T(1)[of i r j s] runs(1,2) by simp
next
  fix i r k j q assume "is_run f' i r" "waiting_claim f' k j q"
  then show "token (the_run f' i r) \<noteq> claim_token q" using tokensD(2)[OF old] runs(1,2) waiting by metis
next
  fix k i q k' j q' assume "waiting_claim f' k i q" "waiting_claim f' k' j q'" "claim_token q = claim_token q'"
  then show "k = k'" using tokensD(3)[OF old] waiting by blast
next
  fix i r assume a: "settling f' (token (the_run f' i r))" "is_run f' i r"
  have tok: "token (the_run f' i r) = token (the_run f i r)" and r: "is_run f i r" using runs a(2) by simp_all
  from settled[OF a(1)] show "gone (the_run f' i r)"
  proof
    assume "settling f (token (the_run f' i r))"
    then have "gone (the_run f i r)" using tokensD(5)[OF old] r tok by simp
    then show ?thesis using runs(3) a(2) by simp
  next
    assume "\<exists>j s. is_run f j s \<and> token (the_run f j s) = token (the_run f' i r) \<and> gone (the_run f' j s)"
    then show ?thesis using tokensD(1)[OF old _ r] tok by auto
  qed
next
  fix tok k i q assume a: "settling f' tok" "waiting_claim f' k i q"
  then show "claim_token q \<noteq> tok"
    using settled[OF a(1)] waiting[OF a(2)] tokensD(6)[OF old] tokensD(2)[OF old] by metis
qed (rule answers)

lemma fleet_inv_drop:
  assumes inv: "fleet_inv lease cfgs f"
  shows "fleet_inv lease cfgs (f\<lparr>f_mail := (f_mail f)(k := None)\<rparr>)"
proof -
  define f' where "f' = f\<lparr>f_mail := (f_mail f)(k := None)\<rparr>"
  have fields: "f_workers f' = f_workers f" "f_store f' = f_store f" "f_next f' = f_next f" "f_clock f' = f_clock f"
    by (simp_all add: f'_def)
  have mail: "f_mail f' l = Some m \<Longrightarrow> f_mail f l = Some m" for l m by (simp add: f'_def split: if_splits)
  have runs: "is_run f' = is_run f" "the_run f' = the_run f" "working f' = working f"
    by (auto simp: fun_eq_iff is_run_def the_run_def working_def fields)
  have less: "waiting_claim f' l i q \<Longrightarrow> waiting_claim f l i q" "asked f' l label \<Longrightarrow> asked f l label"
      "settling f' tok \<Longrightarrow> settling f tok" for l i q label tok
    using mail unfolding waiting_claim_def asked_def settling_def by blast+
  then have used: "used lease f' label \<Longrightarrow> used lease f label" for label
    unfolding used_def runs fields by blast
  have kept: "backed lease f' = backed lease f" by (simp add: fun_eq_iff backed_def fields)
  note D = fleet_invD[OF inv]
  have "shape cfgs f'"
    by (rule shapeI; (unfold fields)?; meson shapeD[OF D(1)] mail)
  moreover have "labels lease cfgs f'"
    by (rule labelsI; (unfold fields)?; meson labelsD[OF D(2)] less used)
  moreover have "tokens f'"
    by (rule tokens_less[OF D(3)]; (unfold runs)?; meson less tokensD(4)[OF D(3)] mail)
  moreover have "leases lease cfgs f'"
    by (rule leasesI; (unfold runs kept fields)?; meson leasesD[OF D(4)] less)
  moreover have "renewals lease cfgs f'"
    by (rule renewalsI; (unfold runs kept)?; meson renewalsD[OF D(5)] mail)
  ultimately show ?thesis by (simp add: fleet_inv_def f'_def)
qed

end
