(* ===== verification/FleetKeeps.thy ===== *)
theory FleetKeeps
  imports FleetInvariant
begin

text \<open>
  Every step of the fleet keeps its invariant: a quiet step of a worker, an answered claim, an answered renewal, and the
  queue serving a call under the laws of its contract.
\<close>

section \<open>A quiet step of a worker\<close>

definition after :: "nat \<Rightarrow> worker \<Rightarrow> port_call list \<Rightarrow> 's fleet \<Rightarrow> 's fleet" where
  "after i w calls f = send i (f_clock f) calls (f\<lparr>f_workers := (f_workers f)[i := w]\<rparr>)"

lemma at_worker_after:
  "at_worker cfgs i e f = (case worker_step (cfgs ! i) True (f_clock f) e (f_workers f ! i) of (w, calls) \<Rightarrow> after i w calls f)"
  by (simp add: at_worker_def after_def)

lemma after_fields [simp]:
  "f_store (after i w calls f) = f_store f" "f_clock (after i w calls f) = f_clock f"
  "f_workers (after i w calls f) = (f_workers f)[i := w]" "f_next (after i w calls f) = f_next f + length calls"
  by (simp_all add: after_def send_def)

lemma after_mail:
  assumes "shape cfgs f" and "f_mail (after i w calls f) k = Some m"
  obtains (old) "f_mail f k = Some m"
    | (new) n where "n < length calls" "k = f_next f + n"
        "m = \<lparr>m_worker = i, m_call = calls ! n, m_sent = f_clock f, m_answer = None\<rparr>"
proof (cases "f_next f \<le> k \<and> k < f_next f + length calls")
  case True
  then have "m = \<lparr>m_worker = i, m_call = calls ! (k - f_next f), m_sent = f_clock f, m_answer = None\<rparr>"
    using assms(2) by (simp add: after_def send_def)
  then show thesis using True by (intro new[of "k - f_next f"]) auto
next
  case False
  then have "f_mail f k = Some m" using assms(2) by (simp add: after_def send_def split: if_splits)
  then show thesis by (rule old)
qed

lemma after_old_mail:
  assumes "shape cfgs f" and "f_mail f k = Some m"
  shows "f_mail (after i w calls f) k = Some m"
  using shapeD(3)[OF assms] assms(2) by (simp add: after_def send_def)

lemma after_waiting:
  assumes "shape cfgs f"
  shows "waiting_claim (after i w calls f) k j q \<longleftrightarrow> waiting_claim f k j q"
proof
  assume "waiting_claim (after i w calls f) k j q"
  then obtain m qs where "f_mail (after i w calls f) k = Some m" "m_worker m = j"
      "m_answer m = Some (Claimed (Some qs))" "q \<in> set qs"
    by (auto simp: waiting_claim_def)
  then show "waiting_claim f k j q"
    using after_mail[OF assms] by (metis mail.select_convs(4) option.distinct(1) waiting_claim_def)
next
  show "waiting_claim f k j q \<Longrightarrow> waiting_claim (after i w calls f) k j q"
    using after_old_mail[OF assms] unfolding waiting_claim_def by blast
qed

lemma after_asked:
  assumes "shape cfgs f"
  shows "asked (after i w calls f) k label \<longleftrightarrow> asked f k label
     \<or> (\<exists>n opts. n < length calls \<and> k = f_next f + n \<and> calls ! n = Claim_call opts \<and> o_owner opts = label)"
proof
  assume "asked (after i w calls f) k label"
  then obtain m opts where m: "f_mail (after i w calls f) k = Some m" "m_answer m = None"
      "m_call m = Claim_call opts" "o_owner opts = label"
    by (auto simp: asked_def)
  from assms m(1) show "asked f k label \<or> (\<exists>n opts. n < length calls \<and> k = f_next f + n
      \<and> calls ! n = Claim_call opts \<and> o_owner opts = label)"
    by (cases rule: after_mail) (use m in \<open>auto simp: asked_def\<close>)
next
  assume "asked f k label \<or> (\<exists>n opts. n < length calls \<and> k = f_next f + n
      \<and> calls ! n = Claim_call opts \<and> o_owner opts = label)"
  then show "asked (after i w calls f) k label"
  proof
    assume "asked f k label"
    then show ?thesis using after_old_mail[OF assms] unfolding asked_def by blast
  qed (auto simp: asked_def after_def send_def)
qed

lemma after_settling:
  assumes "shape cfgs f" and "settling (after i w calls f) tok"
  shows "settling f tok \<or> (\<exists>c \<in> set calls. settles c = Some tok)"
proof -
  obtain k m where m: "f_mail (after i w calls f) k = Some m" "m_answer m = None" "settles (m_call m) = Some tok"
    using assms(2) by (auto simp: settling_def)
  from assms(1) m(1) show ?thesis
    by (cases rule: after_mail) (use m in \<open>auto simp: settling_def\<close>)
qed

lemma settles_call_ok:
  "call_ok cfg now w w' c \<Longrightarrow> settles c = Some tok \<Longrightarrow> \<exists>r < runs_of w. token (wk_heap w ! r) = tok \<and> gone (wk_heap w' ! r)"
  by (cases c) auto

lemma quietD:
  assumes "quiet cfg now w w' calls"
  shows "runs_of w' = runs_of w"
    and "r < runs_of w \<Longrightarrow> same_run (wk_heap w ! r) (wk_heap w' ! r)"
    and "r < runs_of w \<Longrightarrow> run_renewing (wk_heap w' ! r) = run_renewing (wk_heap w ! r)
           \<or> (\<exists>jid owner ms. calls = [Renew_call r jid owner ms])"
    and "c \<in> set calls \<Longrightarrow> call_ok cfg now w w' c"
    and "length calls \<le> 1 \<or> list_all is_release calls"
    and "wk_seq w' = wk_seq w \<or> (\<exists>opts. calls = [Claim_call opts] \<and> wk_seq w' = wk_seq w + 1)"
  using assms by (auto simp: quiet_def list_all_iff)

text \<open>A call that is not a release is the only one.\<close>

lemma quiet_single:
  assumes "quiet cfg now w w' calls" and "n < length calls" and "\<not> is_release (calls ! n)"
  shows "calls = [calls ! n]" and "n = 0"
proof -
  have "length calls \<le> 1" using quietD(5)[OF assms(1)] assms(2,3) by (auto simp: list_all_length)
  then show "calls = [calls ! n]" "n = 0" using assms(2) by (cases calls; simp)+
qed

section \<open>Labels of claims\<close>

lemma base36_digit_inj: "m < 36 \<Longrightarrow> n < 36 \<Longrightarrow> base36_digit m = base36_digit n \<Longrightarrow> m = n"
proof -
  assume a: "m < 36" "n < 36" "base36_digit m = base36_digit n"
  have val: "of_char (base36_digit k) = (if k < 10 then 48 + k else 87 + k)" if "k < 36" for k :: nat
    using that by (simp add: of_char_of)
  have "(if m < 10 then 48 + m else 87 + m) = (if n < 10 then 48 + n else 87 + n)"
    using val[OF a(1)] val[OF a(2)] a(3) by metis
  then show ?thesis by (simp split: if_splits)
qed

lemma base36_ne: "base36 n \<noteq> []"
  by (subst base36.simps) simp

lemma base36_inj: "base36 m = base36 n \<Longrightarrow> m = n"
proof (induction m arbitrary: n rule: less_induct)
  case (less m)
  have single: "base36 k = [c] \<Longrightarrow> k < 36" for k c
    using base36_ne[of "k div 36"] by (subst (asm) base36.simps) (auto split: if_splits)
  show ?case
  proof (cases "m < 36")
    case True
    then have b: "base36 m = [base36_digit m]" by (simp add: base36.simps)
    then have n: "n < 36" using less.prems single by metis
    then have "base36 n = [base36_digit n]" by (simp add: base36.simps)
    then show ?thesis using b less.prems base36_digit_inj True n by simp
  next
    case False
    then have b: "base36 m = base36 (m div 36) @ [base36_digit (m mod 36)]" by (subst base36.simps) simp
    have n: "\<not> n < 36"
      using b less.prems base36_ne[of "m div 36"] by (auto simp: base36.simps[of n] split: if_splits)
    then have "base36 n = base36 (n div 36) @ [base36_digit (n mod 36)]" by (subst base36.simps) simp
    then have "base36 (m div 36) = base36 (n div 36)" "base36_digit (m mod 36) = base36_digit (n mod 36)"
      using b less.prems by simp_all
    then have "m div 36 = n div 36" "m mod 36 = n mod 36"
      using less.IH[of "m div 36"] False base36_digit_inj by simp_all
    then show ?thesis by (metis div_mult_mod_eq)
  qed
qed

lemma base36_no_dot: "CHR ''.'' \<notin> set (base36 n)"
proof (induction n rule: less_induct)
  case (less n)
  have no_dot: "base36_digit k \<noteq> CHR ''.''" if "k < 36" for k
  proof
    assume "base36_digit k = CHR ''.''"
    then have "(of_char (base36_digit k) :: nat) = 46" by simp
    then show False using that by (simp add: of_char_of split: if_splits)
  qed
  then have last: "CHR ''.'' \<noteq> base36_digit (n mod 36)" "n < 36 \<Longrightarrow> CHR ''.'' \<noteq> base36_digit n"
    using no_dot[of "n mod 36"] no_dot[of n] by (metis mod_less_divisor zero_less_numeral)+
  show ?case
  proof (cases "n < 36")
    case True
    then show ?thesis using last(2) by (simp add: base36.simps[of n] del: base36_digit.simps)
  next
    case False
    then show ?thesis
      using last(1) less.IH[of "n div 36"] by (simp add: base36.simps[of n] del: base36_digit.simps)
  qed
qed

text \<open>Different workers or different claim calls never share a label.\<close>

lemma lease_label_inj:
  assumes "lease_label owner m = lease_label owner' n"
  shows "owner = owner'" and "m = n"
proof -
  have split: "xs = ys \<and> zs = ws" if "xs @ CHR ''.'' # zs = ys @ CHR ''.'' # ws"
      "CHR ''.'' \<notin> set zs" "CHR ''.'' \<notin> set ws" for xs ys zs ws
  proof -
    have "takeWhile (\<lambda>c. c \<noteq> CHR ''.'') (rev (us @ CHR ''.'' # vs)) = rev vs" if "CHR ''.'' \<notin> set vs" for us vs
      using that by (auto simp: takeWhile_append)
    then have "rev zs = rev ws" using that by metis
    then show ?thesis using that(1) by simp
  qed
  have "owner = owner' \<and> base36 m = base36 n"
    using assms by (intro split) (simp_all add: lease_label_def base36_no_dot)
  then show "owner = owner'" "m = n" using base36_inj by auto
qed

section \<open>Quiet steps keep the invariant\<close>

text \<open>What a worker's step leaves of the runs of the fleet, when every run keeps its claim and none is revived.\<close>

lemma after_runs:
  assumes "i < length (f_workers f)" and "runs_of w = runs_of (f_workers f ! i)"
  shows "is_run (after i w calls f) j r \<longleftrightarrow> is_run f j r"
    and "the_run (after i w calls f) j r = (if j = i then wk_heap w ! r else the_run f j r)"
  using assms by (auto simp: is_run_def the_run_def nth_list_update)

lemma used_after_subset:
  assumes shape: "shape cfgs f"
    and runs: "\<And>j r. is_run (after i w calls f) j r \<Longrightarrow> is_run f j r \<and> token (the_run (after i w calls f) j r) = token (the_run f j r)"
    and calls: "\<And>c tok. c \<in> set calls \<Longrightarrow> settles c = Some tok \<Longrightarrow> \<exists>j r. is_run f j r \<and> token (the_run f j r) = tok"
    and used: "used lease (after i w calls f) label"
  shows "used lease f label"
proof -
  consider jid t where "lease (f_store f) jid = Some (label, t)"
    | j r where "is_run (after i w calls f) j r" "fst (token (the_run (after i w calls f) j r)) = label"
    | k j q where "waiting_claim f k j q" "q_owner q = label"
    | jid where "settling (after i w calls f) (label, jid)"
    using used unfolding used_def after_fields after_waiting[OF shape] by blast
  then show ?thesis
  proof cases
    case (2 j r)
    then have "is_run f j r \<and> fst (token (the_run f j r)) = label" using runs[OF 2(1)] by simp
    then show ?thesis unfolding used_def by blast
  next
    case (4 jid)
    then show ?thesis
      using after_settling[OF shape 4] calls unfolding used_def by (metis fst_conv)
  qed (unfold used_def, blast+)
qed

lemma quiet_keeps:
  assumes inv: "fleet_inv lease cfgs f" and i: "i < length cfgs" and owners: "distinct (map wc_owner cfgs)"
    and q: "quiet (cfgs ! i) (f_clock f) (f_workers f ! i) w calls" and winv: "worker_inv (cfgs ! i) w"
  shows "fleet_inv lease cfgs (after i w calls f)"
proof -
  define f' where "f' = after i w calls f"
  note D = fleet_invD[OF inv] and Q = quietD[OF q]
  have iw: "i < length (f_workers f)" using i shapeD(1)[OF D(1)] by simp
  have isr: "is_run f' j r \<longleftrightarrow> is_run f j r" for j r unfolding f'_def by (rule after_runs(1)[OF iw Q(1)])
  have the: "the_run f' j r = (if j = i then wk_heap w ! r else the_run f j r)" for j r
    unfolding f'_def by (rule after_runs(2)[OF iw Q(1)])
  have old: "wk_heap (f_workers f ! i) ! r = the_run f i r" for r by (simp add: the_run_def)
  have same: "same_run (the_run f j r) (the_run f' j r)" if "is_run f j r" for j r
    using that Q(2)[of r] by (auto simp: the old is_run_def)
  have tok: "token (the_run f' j r) = token (the_run f j r)" and until: "run_until (the_run f' j r) = run_until (the_run f j r)"
    and gone: "gone (the_run f j r) \<Longrightarrow> gone (the_run f' j r)" if "is_run f j r" for j r
    using same[OF that] by (auto simp: same_run_def same_run_token)
  have settled: "\<exists>r. is_run f i r \<and> token (the_run f i r) = tok \<and> gone (the_run f' i r)"
    if "c \<in> set calls" "settles c = Some tok" for c tok
    using settles_call_ok[OF Q(4)[OF that(1)] that(2)] iw the[of i] unfolding old is_run_def by metis
  have fields: "f_store f' = f_store f" "f_clock f' = f_clock f" "f_workers f' = (f_workers f)[i := w]"
      "f_next f' = f_next f + length calls"
    by (simp_all add: f'_def)
  have mail: "f_mail f' k = Some m \<Longrightarrow> f_mail f k = Some m \<or>
      (\<exists>n < length calls. k = f_next f + n \<and> m = \<lparr>m_worker = i, m_call = calls ! n, m_sent = f_clock f, m_answer = None\<rparr>)" for k m
    unfolding f'_def using after_mail[OF D(1)] by metis
  have waiting: "waiting_claim f' k j q \<longleftrightarrow> waiting_claim f k j q" for k j q
    unfolding f'_def by (rule after_waiting[OF D(1)])
  have ask: "asked f' k label \<longleftrightarrow> asked f k label
     \<or> (\<exists>n opts. n < length calls \<and> k = f_next f + n \<and> calls ! n = Claim_call opts \<and> o_owner opts = label)" for k label
    unfolding f'_def by (rule after_asked[OF D(1)])
  have settling: "settling f' tok \<Longrightarrow> settling f tok \<or> (\<exists>c \<in> set calls. settles c = Some tok)" for tok
    unfolding f'_def by (rule after_settling[OF D(1)])
  have used: "used lease f' label \<Longrightarrow> used lease f label" for label
    unfolding f'_def
    by (rule used_after_subset[OF D(1), of i w calls]; (unfold f'_def[symmetric])?; meson isr tok settled)
  have kept: "backed lease f' = backed lease f" by (simp add: fun_eq_iff backed_def fields)
  have "shape cfgs f'"
  proof (rule shapeI)
    fix k m assume m: "f_mail f' k = Some m"
    show "k < f_next f'" using mail[OF m] by (auto simp: fields intro: trans_less_add1 shapeD(3)[OF D(1)])
    show "m_worker m < length cfgs" using mail[OF m] shapeD(4)[OF D(1)] i by auto
    show "m_sent m \<le> f_clock f'" using mail[OF m] shapeD(5)[OF D(1)] by (auto simp: fields)
    show "o_lease_ms opts = wc_lease (cfgs ! m_worker m)" if "m_call m = Claim_call opts" for opts
      using mail[OF m]
    proof
      assume "\<exists>n < length calls. k = f_next f + n
        \<and> m = \<lparr>m_worker = i, m_call = calls ! n, m_sent = f_clock f, m_answer = None\<rparr>"
      then show ?thesis using that Q(4) by (metis call_ok.simps(1) mail.select_convs(1,2) nth_mem)
    qed (rule shapeD(6)[OF D(1) _ that])
    show "\<exists>jid owner ms. m_call m = Renew_call r jid owner ms" if "m_answer m = Some (Renewed r held)" for r held
      using mail[OF m] shapeD(7)[OF D(1)] that by auto
  next
    show "worker_inv (cfgs ! j) (f_workers f' ! j)" if "j < length cfgs" for j
      using shapeD(2)[OF D(1) that] that winv iw by (cases "j = i") (simp_all add: fields)
  qed (simp add: fields shapeD(1)[OF D(1)])
  moreover have "labels lease cfgs f'"
  proof -
    have seq: "wk_seq (f_workers f ! j) \<le> wk_seq (f_workers f' ! j)" if "j < length cfgs" for j
      using Q(6) that iw shapeD(1)[OF D(1)] by (auto simp: fields nth_list_update)
    have new: "calls = [calls ! n] \<and> n = 0 \<and> label = lease_label (wc_owner (cfgs ! i)) (wk_seq (f_workers f ! i) + 1)
        \<and> wk_seq w = wk_seq (f_workers f ! i) + 1"
      if "n < length calls" "calls ! n = Claim_call opts" "o_owner opts = label" for n opts label
      using quiet_single[OF q that(1)] Q(4)[OF nth_mem[OF that(1)]] that(2,3) by auto
    show ?thesis
    proof (rule labelsI)
    fix j n assume j: "j < length cfgs" "wk_seq (f_workers f' ! j) < n"
    then have n: "wk_seq (f_workers f ! j) < n" using seq[OF j(1)] by simp
    then show "\<not> used lease f' (lease_label (wc_owner (cfgs ! j)) n)"
      using used labelsD(1)[OF D(2) j(1)] by blast
    show "\<not> asked f' k (lease_label (wc_owner (cfgs ! j)) n)" for k
    proof
      assume "asked f' k (lease_label (wc_owner (cfgs ! j)) n)"
      then obtain l opts where "l < length calls" "calls ! l = Claim_call opts"
          "o_owner opts = lease_label (wc_owner (cfgs ! j)) n"
        using ask labelsD(2)[OF D(2) j(1) n] by blast
      from new[OF this] have "wc_owner (cfgs ! j) = wc_owner (cfgs ! i)" "n = wk_seq w"
        using lease_label_inj by auto
      moreover from this have "j = i" using nth_eq_iff_index_eq[OF owners, of j i] i j(1) by simp
      ultimately show False using j(2) iw by (simp add: fields)
    qed
  next
    show "\<not> used lease f' label" if "asked f' k label" for k label
      using that[unfolded ask] labelsD(3)[OF D(2)] labelsD(1)[OF D(2) i, of "wk_seq (f_workers f ! i) + 1"] new used by force
    show "k' = k" if "asked f' k label" "asked f' k' label" for k k' label
    proof -
      have fresh: "\<not> asked f l (lease_label (wc_owner (cfgs ! i)) (wk_seq (f_workers f ! i) + 1))" for l
        using labelsD(2)[OF D(2) i] by simp
      show ?thesis using that[unfolded ask] labelsD(4)[OF D(2)] new fresh by metis
    qed
  qed
  qed
  moreover have "tokens f'"
  proof (rule tokens_less[OF D(3)])
    show "settling f tok \<or> (\<exists>i r. is_run f i r \<and> token (the_run f i r) = tok \<and> gone (the_run f' i r))"
      if "settling f' tok" for tok
      using settling[OF that] settled by blast
    show "distinct (map claim_token qs)" if "f_mail f' k = Some m" "m_answer m = Some (Claimed (Some qs))" for k m qs
      using mail[OF that(1)] tokensD(4)[OF D(3)] that(2) by auto
  qed (use isr tok gone waiting in auto)
  moreover have "leases lease cfgs f'"
  proof (rule leasesI)
    fix j r assume "working f' j r"
    then have r: "is_run f j r" and w: "working f j r" using gone[of j r] by (auto simp: working_def isr)
    show "backed lease f' (token (the_run f' j r)) (run_until (the_run f' j r))"
      using leasesD(1)[OF D(4) w] by (simp add: tok[OF r] until[OF r] kept)
    show "run_until (the_run f' j r) \<le> f_clock f' + wc_lease (cfgs ! j)"
      using leasesD(2)[OF D(4) w] by (simp add: until[OF r] fields)
  qed (use leasesD(3,4)[OF D(4)] in \<open>auto simp: waiting kept fields\<close>)
  moreover have "renewals lease cfgs f'"
  proof -
    have new: "calls = [Renew_call r jid owner ms] \<and> n = 0 \<and> is_run f i r \<and> token (the_run f i r) = (owner, jid)
        \<and> ms = wc_lease (cfgs ! i) \<and> run_renewing (the_run f i r) = None \<and> run_renewing (the_run f' i r) = Some (f_clock f)"
      if "n < length calls" "calls ! n = Renew_call r jid owner ms" for n r jid owner ms
      using quiet_single[OF q that(1)] Q(4)[OF nth_mem[OF that(1)]] that(2) iw by (auto simp: is_run_def the old)
    have which: "(f_mail f k = Some m \<and> run_renewing (the_run f (m_worker m) r) \<noteq> None)
        \<or> (calls = [Renew_call r jid owner ms] \<and> k = f_next f \<and> m_worker m = i \<and> m_sent m = f_clock f \<and> m_answer m = None)"
      if m: "f_mail f' k = Some m" "m_call m = Renew_call r jid owner ms" for k m r jid owner ms
      using mail[OF m(1)]
    proof
      assume "f_mail f k = Some m"
      then show ?thesis using renewalsD(4)[OF D(5) _ m(2)] by simp
    next
      assume "\<exists>n < length calls. k = f_next f + n
        \<and> m = \<lparr>m_worker = i, m_call = calls ! n, m_sent = f_clock f, m_answer = None\<rparr>"
      then show ?thesis using new m(2) by auto
    qed
    show ?thesis
    proof (rule renewalsI)
      fix k m r jid owner ms assume m: "f_mail f' k = Some m" "m_call m = Renew_call r jid owner ms"
      have common: "is_run f' (m_worker m) r \<and> token (the_run f' (m_worker m) r) = (owner, jid)
          \<and> ms = wc_lease (cfgs ! m_worker m) \<and> run_renewing (the_run f' (m_worker m) r) = Some (m_sent m)"
        using which[OF m]
      proof
        assume o: "f_mail f k = Some m \<and> run_renewing (the_run f (m_worker m) r) \<noteq> None"
        note R = renewalsD[OF D(5) conjunct1[OF o] m(2)]
        have "run_renewing (the_run f' (m_worker m) r) = run_renewing (the_run f (m_worker m) r)"
        proof (cases "m_worker m = i")
          case True
          have "calls \<noteq> [Renew_call r jid' owner' ms']" for jid' owner' ms'
            using new[of 0 r jid' owner' ms'] o True by auto
          then show ?thesis using Q(3)[of r] R(1) True by (auto simp: the old is_run_def)
        qed (simp add: the)
        then show ?thesis using R(1-4) tok[OF R(1)] isr by simp
      next
        assume n: "calls = [Renew_call r jid owner ms] \<and> k = f_next f \<and> m_worker m = i \<and> m_sent m = f_clock f \<and> m_answer m = None"
        then show ?thesis using new[of 0 r jid owner ms] tok[of i r] isr by auto
      qed
      then show "is_run f' (m_worker m) r" "token (the_run f' (m_worker m) r) = (owner, jid)" "ms = wc_lease (cfgs ! m_worker m)"
          "run_renewing (the_run f' (m_worker m) r) = Some (m_sent m)"
        by blast+
      have r: "is_run f (m_worker m) r" using common isr by blast
      show "run_until (the_run f' (m_worker m) r) \<le> m_sent m + ms" if live: "\<not> gone (the_run f' (m_worker m) r)"
        using which[OF m]
      proof
        assume "f_mail f k = Some m \<and> run_renewing (the_run f (m_worker m) r) \<noteq> None"
        then show ?thesis using renewalsD(5)[OF D(5) _ m(2)] live gone[OF r] until[OF r] by auto
      next
        assume n: "calls = [Renew_call r jid owner ms] \<and> k = f_next f \<and> m_worker m = i \<and> m_sent m = f_clock f \<and> m_answer m = None"
        have "working f (m_worker m) r" using live gone[OF r] r by (auto simp: working_def)
        from leasesD(2)[OF D(4) this] show ?thesis using until[OF r] common n by simp
      qed
      show "backed lease f' (owner, jid) (m_sent m + ms)"
        if a: "m_answer m = Some (Renewed r (Some True))" "\<not> gone (the_run f' (m_worker m) r)"
      proof -
        have "f_mail f k = Some m" using which[OF m] a(1) by auto
        then show ?thesis using renewalsD(6)[OF D(5) _ m(2) a(1)] a(2) gone[OF r] by (auto simp: kept)
      qed
      show "k' = k" if m': "f_mail f' k' = Some m'" "m_worker m' = m_worker m" "m_call m' = Renew_call r jid' owner' ms'"
        for k' m' jid' owner' ms'
        using which[OF m]
      proof
        assume o: "f_mail f k = Some m \<and> run_renewing (the_run f (m_worker m) r) \<noteq> None"
        have "f_mail f k' = Some m'"
          using which[OF m'(1,3)] new[of 0 r jid' owner' ms'] o m'(2) by auto
        then show ?thesis using renewalsD(7)[OF D(5) conjunct1[OF o] m(2) _ m'(2,3)] by blast
      next
        assume n: "calls = [Renew_call r jid owner ms] \<and> k = f_next f \<and> m_worker m = i \<and> m_sent m = f_clock f \<and> m_answer m = None"
        then have "run_renewing (the_run f (m_worker m') r) = None" using new[of 0 r jid owner ms] m'(2) by auto
        then show ?thesis using which[OF m'(1,3)] n by auto
      qed
    qed
  qed
  ultimately show ?thesis by (simp add: fleet_inv_def f'_def)
qed

end
