(* ===== verification/FleetServes.thy ===== *)
theory FleetServes
  imports FleetKeeps
begin

section \<open>The queue serves a call\<close>

definition answered :: "nat \<Rightarrow> mail \<Rightarrow> 's \<Rightarrow> worker_event \<Rightarrow> 's fleet \<Rightarrow> 's fleet" where
  "answered k m st reply f = f\<lparr>f_store := st, f_mail := (f_mail f)(k \<mapsto> m\<lparr>m_answer := Some reply\<rparr>)\<rparr>"

lemma answered_fields [simp]:
  "f_store (answered k m st reply f) = st" "f_clock (answered k m st reply f) = f_clock f"
  "f_workers (answered k m st reply f) = f_workers f" "f_next (answered k m st reply f) = f_next f"
  by (simp_all add: answered_def)

lemma mail_answered: "f_mail (answered k m st reply f) = (f_mail f)(k \<mapsto> m\<lparr>m_answer := Some reply\<rparr>)"
  by (simp add: answered_def)

lemma answered_runs [simp]:
  "is_run (answered k m st reply f) = is_run f" "the_run (answered k m st reply f) = the_run f"
  "working (answered k m st reply f) = working f"
  by (auto simp: fun_eq_iff is_run_def the_run_def working_def)

lemma answered_asked: "m_answer m = None \<Longrightarrow> f_mail f k = Some m \<Longrightarrow>
  asked (answered k m st reply f) k' label \<longleftrightarrow> k' \<noteq> k \<and> asked f k' label"
  by (auto simp: asked_def mail_answered)

lemma answered_settling: "settling (answered k m st reply f) tok \<Longrightarrow> settling f tok"
  by (auto simp: settling_def mail_answered split: if_splits)

lemma answered_waiting:
  assumes "m_answer m = None" and "f_mail f k = Some m"
  shows "waiting_claim (answered k m st reply f) k' j q \<longleftrightarrow> waiting_claim f k' j q
    \<or> (k' = k \<and> j = m_worker m \<and> (\<exists>qs. reply = Claimed (Some qs) \<and> q \<in> set qs))"
  using assms by (auto simp: waiting_claim_def mail_answered)

lemma answered_mail:
  assumes "f_mail (answered k m st reply f) k' = Some m'" and "f_mail f k = Some m"
  obtains (old) "k' \<noteq> k" "f_mail f k' = Some m'" | (this) "k' = k" "m' = m\<lparr>m_answer := Some reply\<rparr>" "f_mail f k' = Some m"
  using assms by (auto simp: mail_answered split: if_splits)

lemma usedI:
  "lease (f_store f) jid = Some (label, t) \<Longrightarrow> used lease f label"
  "is_run f i r \<Longrightarrow> used lease f (fst (token (the_run f i r)))"
  "waiting_claim f k i q \<Longrightarrow> used lease f (q_owner q)"
  "settling f (label, jid) \<Longrightarrow> used lease f label"
  unfolding used_def by blast+

lemma usedE:
  assumes "used lease f label"
  obtains jid t where "lease (f_store f) jid = Some (label, t)"
    | i r where "is_run f i r" "label = fst (token (the_run f i r))"
    | k i q where "waiting_claim f k i q" "label = q_owner q"
    | jid where "settling f (label, jid)"
  using assms unfolding used_def by blast

lemma answered_used:
  assumes labels: "\<And>jid t. lease st jid = Some (label, t) \<Longrightarrow> \<exists>t'. lease (f_store f) jid = Some (label, t')"
    and waiting: "\<And>k' j q. waiting_claim (answered k m st reply f) k' j q \<Longrightarrow> waiting_claim f k' j q"
    and used: "used lease (answered k m st reply f) label"
  shows "used lease f label"
  using used
proof (cases rule: usedE)
  case (1 jid t)
  then show ?thesis using labels[of jid t] usedI(1) by auto
next
  case (2 i r)
  then show ?thesis using usedI(2) by simp
next
  case (3 k' i q)
  then show ?thesis using usedI(3)[OF waiting[OF 3(1)]] by simp
next
  case (4 jid)
  then show ?thesis using usedI(4)[OF answered_settling[OF 4]] by simp
qed

lemma answered_shape:
  assumes shape: "shape cfgs f" and m: "f_mail f k = Some m"
    and renewed: "\<And>r held. reply = Renewed r held \<Longrightarrow> \<exists>jid owner ms. m_call m = Renew_call r jid owner ms"
  shows "shape cfgs (answered k m st reply f)"
proof (rule shapeI)
  let ?f = "answered k m st reply f"
  fix k' m' assume m': "f_mail ?f k' = Some m'"
  note S = shapeD[OF shape]
  show "k' < f_next ?f" "m_worker m' < length cfgs" "m_sent m' \<le> f_clock ?f"
    using m' m S(3,4,5) by (auto elim!: answered_mail)
  show "o_lease_ms opts = wc_lease (cfgs ! m_worker m')" if "m_call m' = Claim_call opts" for opts
    using m' m that S(6) by (auto elim!: answered_mail)
  show "\<exists>jid owner ms. m_call m' = Renew_call r jid owner ms" if "m_answer m' = Some (Renewed r held)" for r held
    using m' m that S(7) renewed by (auto elim!: answered_mail)
qed (use shapeD(1,2)[OF shape] in auto)

text \<open>
  An answer that brings no claim: it is enough that every run, waiting claim and granted renewal that is backed stays
  backed, and that no label becomes a lease.
\<close>

lemma answered_keeps:
  assumes inv: "fleet_inv lease cfgs f" and m: "f_mail f k = Some m" "m_answer m = None"
    and plain: "\<And>qs. reply = Claimed (Some qs) \<Longrightarrow> qs = []"
    and renewed: "\<And>r held. reply = Renewed r held \<Longrightarrow> \<exists>jid owner ms. m_call m = Renew_call r jid owner ms"
    and labels: "\<And>jid label t. lease st jid = Some (label, t) \<Longrightarrow> \<exists>t'. lease (f_store f) jid = Some (label, t')"
    and runs: "\<And>i r. working f i r \<Longrightarrow> backed lease f (token (the_run f i r)) (run_until (the_run f i r)) \<Longrightarrow>
      backed lease (answered k m st reply f) (token (the_run f i r)) (run_until (the_run f i r))"
    and claims: "\<And>k' i q. waiting_claim f k' i q \<Longrightarrow> backed lease f (claim_token q) (q_expires q) \<Longrightarrow>
      backed lease (answered k m st reply f) (claim_token q) (q_expires q)"
    and renewing: "\<And>k' m' r jid owner ms. k' \<noteq> k \<Longrightarrow> f_mail f k' = Some m' \<Longrightarrow> m_call m' = Renew_call r jid owner ms \<Longrightarrow>
      working f (m_worker m') r \<Longrightarrow> backed lease f (owner, jid) (m_sent m' + ms) \<Longrightarrow>
      backed lease (answered k m st reply f) (owner, jid) (m_sent m' + ms)"
    and granted: "\<And>r jid owner ms. m_call m = Renew_call r jid owner ms \<Longrightarrow> reply = Renewed r (Some True) \<Longrightarrow>
      backed lease (answered k m st reply f) (owner, jid) (m_sent m + ms)"
  shows "fleet_inv lease cfgs (answered k m st reply f)"
proof -
  define f' where "f' = answered k m st reply f"
  note D = fleet_invD[OF inv]
  have wait: "waiting_claim f' k' j q \<longleftrightarrow> waiting_claim f k' j q" for k' j q
    unfolding f'_def answered_waiting[OF m(2,1)] using plain by (metis empty_iff list.set(1))
  have used: "used lease f' label \<Longrightarrow> used lease f label" for label
    unfolding f'_def
  proof (rule answered_used)
    show "lease st jid = Some (label, t) \<Longrightarrow> \<exists>t'. lease (f_store f) jid = Some (label, t')" for jid t by (rule labels)
  qed (use wait in \<open>auto simp: f'_def\<close>)
  have ask: "asked f' k' label \<longleftrightarrow> k' \<noteq> k \<and> asked f k' label" for k' label
    unfolding f'_def by (rule answered_asked[OF m(2,1)])
  have fields: "f_workers f' = f_workers f" "f_clock f' = f_clock f" by (simp_all add: f'_def)
  have rs: "is_run f' = is_run f" "the_run f' = the_run f" "working f' = working f" by (simp_all add: f'_def)
  have "shape cfgs f'" unfolding f'_def by (rule answered_shape[OF D(1) m(1) renewed])
  moreover have "labels lease cfgs f'"
    by (rule labelsI; (unfold fields ask)?; meson labelsD[OF D(2)] used)
  moreover have "tokens f'"
  proof (rule tokens_less[OF D(3)])
    show "distinct (map claim_token qs)" if a: "f_mail f' k' = Some m'" "m_answer m' = Some (Claimed (Some qs))" for k' m' qs
      using a(1)[unfolded f'_def] m(1)
    proof (cases rule: answered_mail)
      case old
      show ?thesis using tokensD(4)[OF D(3) old(2) a(2)] .
    next
      case this
      then show ?thesis using a(2) plain[of qs] by simp
    qed
  qed (use wait answered_settling in \<open>auto simp: rs f'_def\<close>)
  moreover have "leases lease cfgs f'"
    by (rule leasesI; (unfold rs wait fields)?; (unfold f'_def)?; meson leasesD[OF D(4)] runs claims)
  moreover have "renewals lease cfgs f'"
  proof (rule renewalsI)
    fix k' m' r jid owner ms assume m': "f_mail f' k' = Some m'" "m_call m' = Renew_call r jid owner ms"
    have old: "\<exists>n. f_mail f k' = Some n \<and> m_worker n = m_worker m' \<and> m_call n = m_call m' \<and> m_sent n = m_sent m'"
      if "f_mail f' k' = Some m'" for k' m'
      using that[unfolded f'_def] m(1) by (cases rule: answered_mail) auto
    obtain n where n: "f_mail f k' = Some n" "m_worker n = m_worker m'" "m_call n = m_call m'" "m_sent n = m_sent m'"
      using old[OF m'(1)] by blast
    note R = renewalsD[OF D(5) n(1) n(3)[unfolded m'(2)]]
    show "is_run f' (m_worker m') r" "token (the_run f' (m_worker m') r) = (owner, jid)" "ms = wc_lease (cfgs ! m_worker m')"
        "run_renewing (the_run f' (m_worker m') r) = Some (m_sent m')"
      using R(1-4) by (simp_all add: rs n)
    show "run_until (the_run f' (m_worker m') r) \<le> m_sent m' + ms" if "\<not> gone (the_run f' (m_worker m') r)"
      using R(5) that by (simp add: rs n)
    show "backed lease f' (owner, jid) (m_sent m' + ms)"
      if a: "m_answer m' = Some (Renewed r (Some True))" "\<not> gone (the_run f' (m_worker m') r)"
      using m'(1)[unfolded f'_def] m(1)
    proof (cases rule: answered_mail)
      case old
      have "working f (m_worker m') r" using R(1) a(2) by (simp add: working_def rs n)
      then show ?thesis
        using renewing[OF old m'(2)] renewalsD(6)[OF D(5) old(2) m'(2) a(1)] a(2) by (simp add: rs f'_def)
    next
      case this
      then show ?thesis using granted[of r jid owner ms] m'(2) a(1) by (simp add: f'_def)
    qed
    show "k'' = k'" if m'': "f_mail f' k'' = Some m''" "m_worker m'' = m_worker m'" "m_call m'' = Renew_call r jid' owner' ms'"
      for k'' m'' jid' owner' ms'
      using old[OF m''(1)] m''(2,3) R(7) n(2) by metis
  qed
  ultimately show ?thesis by (simp add: fleet_inv_def f'_def)
qed

text \<open>A served claim: the label was asked for once and nothing used it.\<close>

lemma claim_keeps:
  assumes inv: "fleet_inv lease cfgs f" and m: "f_mail f k = Some m" "m_answer m = None" "m_call m = Claim_call opts"
    and ids: "distinct (map q_id qs)"
    and free: "\<And>q. q \<in> set qs \<Longrightarrow> lease (f_store f) (q_id q) = None"
    and new: "\<And>q. q \<in> set qs \<Longrightarrow> lease st (q_id q) = Some (o_owner opts, m_sent m + o_lease_ms opts)"
    and owner: "\<And>q. q \<in> set qs \<Longrightarrow> q_owner q = o_owner opts" "\<And>q. q \<in> set qs \<Longrightarrow> q_expires q = m_sent m + o_lease_ms opts"
    and rest: "\<And>jid. jid \<notin> q_id ` set qs \<Longrightarrow> lease st jid = lease (f_store f) jid"
    and reply: "reply = Claimed None \<or> reply = Claimed (Some qs)"
  shows "fleet_inv lease cfgs (answered k m st reply f)"
proof -
  define f' where "f' = answered k m st reply f"
  note D = fleet_invD[OF inv]
  have asked: "asked f k (o_owner opts)" using m by (auto simp: asked_def)
  have unused: "\<not> used lease f (o_owner opts)" using labelsD(3)[OF D(2) asked] .
  have wait: "waiting_claim f' k' j q \<Longrightarrow> waiting_claim f k' j q \<or> (k' = k \<and> j = m_worker m \<and> q \<in> set qs)" for k' j q
    unfolding f'_def answered_waiting[OF m(2,1)] using reply by auto
  have not_waiting: "q_owner q \<noteq> o_owner opts" if "waiting_claim f k' j q" for k' j q
    using usedI(3)[OF that, of lease] unused by auto
  have ask: "asked f' k' label \<longleftrightarrow> k' \<noteq> k \<and> asked f k' label" for k' label
    unfolding f'_def by (rule answered_asked[OF m(2,1)])
  have fields: "f_workers f' = f_workers f" "f_clock f' = f_clock f" "f_store f' = st" by (simp_all add: f'_def)
  have rs: "is_run f' = is_run f" "the_run f' = the_run f" "working f' = working f" by (simp_all add: f'_def)
  have settle: "settling f' tok \<Longrightarrow> settling f tok" for tok unfolding f'_def by (rule answered_settling)
  have not_settling: "tok \<noteq> claim_token q" if "settling f tok" "q \<in> set qs" for tok q
    using usedI(4)[of f "fst tok" "snd tok" lease] that unused owner(1)[OF that(2)] by (auto simp: claim_token_def)
  have not_run: "token (the_run f i r) \<noteq> claim_token q" if "is_run f i r" "q \<in> set qs" for i r q
    using usedI(2)[OF that(1), of lease] unused owner(1)[OF that(2)] by (auto simp: claim_token_def)
  have used: "used lease f label \<or> label = o_owner opts" if "used lease f' label" for label
    using that
  proof (cases rule: usedE)
    case (1 jid t)
    then show ?thesis
      using new rest usedI(1)[of lease f jid label t] by (cases "jid \<in> q_id ` set qs") (auto simp: fields)
  next
    case (2 i r)
    then show ?thesis using usedI(2)[of f i r] by (simp add: rs)
  next
    case (3 k' i q)
    then show ?thesis using wait[OF 3(1)] usedI(3) owner by auto
  next
    case (4 jid)
    then show ?thesis using usedI(4)[OF settle[OF 4]] by simp
  qed
  have kept: "backed lease f tok u \<Longrightarrow> backed lease f' tok u" for tok u
    using free rest[of "snd tok"] by (cases "snd tok \<in> q_id ` set qs") (auto simp: backed_def fields)
  have backed_new: "backed lease f' (claim_token q) (q_expires q)" if "q \<in> set qs" for q
    using new[OF that] owner[OF that] by (auto simp: backed_def claim_token_def fields)
  have "shape cfgs f'" unfolding f'_def by (rule answered_shape[OF D(1) m(1)]) (use reply in auto)
  moreover have "labels lease cfgs f'"
  proof (rule labelsI)
    fix i n assume i: "i < length cfgs" "wk_seq (f_workers f' ! i) < n"
    show "\<not> used lease f' (lease_label (wc_owner (cfgs ! i)) n)"
      using used labelsD(1,2)[OF D(2) i[unfolded fields]] asked by metis
  qed (use ask labelsD[OF D(2)] used asked fields in metis)+
  moreover have "tokens f'"
  proof (rule tokensI)
    show "token (the_run f' i r) \<noteq> claim_token q" if "is_run f' i r" "waiting_claim f' k' j q" for i r k' j q
      using that wait[OF that(2)] tokensD(2)[OF D(3)] not_run by (auto simp: rs)
    show "k1 = k2" if "waiting_claim f' k1 i q" "waiting_claim f' k2 j q'" "claim_token q = claim_token q'" for k1 i q k2 j q'
      using wait[OF that(1)] wait[OF that(2)] that(3) tokensD(3)[OF D(3)] not_waiting[of k2 j q'] not_waiting[of k1 i q] owner(1)
      by (auto simp: claim_token_def)
    show "distinct (map claim_token qs')" if a: "f_mail f' k' = Some m'" "m_answer m' = Some (Claimed (Some qs'))" for k' m' qs'
      using a(1)[unfolded f'_def] m(1)
    proof (cases rule: answered_mail)
      case old
      show ?thesis using tokensD(4)[OF D(3) old(2) a(2)] .
    next
      case this
      then have "qs' = qs" using a(2) reply by auto
      moreover have "map snd (map claim_token qs) = map q_id qs" by (simp add: claim_token_def)
      ultimately show ?thesis using ids distinct_map[of snd "map claim_token qs"] by metis
    qed
  next
    fix tok k' i q assume "settling f' tok" "waiting_claim f' k' i q"
    then show "claim_token q \<noteq> tok"
      using settle[of tok] wait[of k' i q] tokensD(6)[OF D(3)] not_settling by metis
  qed (use tokensD(1,5)[OF D(3)] settle in \<open>auto simp: rs\<close>)
  moreover have "leases lease cfgs f'"
  proof (rule leasesI)
    fix k' i q assume q: "waiting_claim f' k' i q"
    show "backed lease f' (claim_token q) (q_expires q)"
      using wait[OF q] leasesD(3)[OF D(4)] kept backed_new by blast
    show "q_expires q \<le> f_clock f' + wc_lease (cfgs ! i)"
      using wait[OF q] leasesD(4)[OF D(4)] owner(2) shapeD(5,6)[OF D(1) m(1)] m(3) by (auto simp: fields)
  qed (use leasesD(1,2)[OF D(4)] kept in \<open>auto simp: rs fields\<close>)
  moreover have "renewals lease cfgs f'"
  proof -
    have old: "f_mail f k' = Some m'" if "f_mail f' k' = Some m'" "m_call m' = Renew_call r jid ow ms" for k' m' r jid ow ms
      using that(1)[unfolded f'_def] m(1) by (cases rule: answered_mail) (use that(2) m(3) in auto)
    show ?thesis
    proof (rule renewalsI)
      fix k' m' r jid ow ms assume m': "f_mail f' k' = Some m'" "m_call m' = Renew_call r jid ow ms"
      note R = renewalsD[OF D(5) old[OF m'] m'(2)]
      show "is_run f' (m_worker m') r" "token (the_run f' (m_worker m') r) = (ow, jid)" "ms = wc_lease (cfgs ! m_worker m')"
          "run_renewing (the_run f' (m_worker m') r) = Some (m_sent m')"
          "\<not> gone (the_run f' (m_worker m') r) \<Longrightarrow> run_until (the_run f' (m_worker m') r) \<le> m_sent m' + ms"
          "m_answer m' = Some (Renewed r (Some True)) \<Longrightarrow> \<not> gone (the_run f' (m_worker m') r) \<Longrightarrow>
             backed lease f' (ow, jid) (m_sent m' + ms)"
        using R(1-6) kept by (simp_all add: rs)
      show "k'' = k'" if "f_mail f' k'' = Some m''" "m_worker m'' = m_worker m'" "m_call m'' = Renew_call r jid' ow' ms'"
        for k'' m'' jid' ow' ms'
        by (rule R(7)[OF old[OF that(1,3)] that(2,3)])
    qed
  qed
  ultimately show ?thesis by (simp add: fleet_inv_def f'_def)
qed

end
