(* ===== verification/FleetDelivers.thy ===== *)
theory FleetDelivers
  imports FleetServes
begin

text \<open>
  Answered claims become runs and answered renewals move deadlines; with the laws of the queue every reachable state of a
  fleet has the invariant.
\<close>

section \<open>An answered claim\<close>

lemma new_runs_keep:
  assumes inv: "fleet_inv lease cfgs f" and i: "i < length cfgs" and winv: "worker_inv (cfgs ! i) w"
    and heap: "wk_heap w = wk_heap (f_workers f ! i) @ map (new_run cfg) new" and seq: "wk_seq w = wk_seq (f_workers f ! i)"
    and calls: "calls = map (lease_call_release Of_unrun) unrun" and qs: "mset qs = mset new + mset unrun"
    and dist: "distinct (map claim_token qs)"
    and not_run: "\<And>j r q. is_run f j r \<Longrightarrow> q \<in> set qs \<Longrightarrow> token (the_run f j r) \<noteq> claim_token q"
    and not_waiting: "\<And>k j q' q. waiting_claim f k j q' \<Longrightarrow> q \<in> set qs \<Longrightarrow> claim_token q' \<noteq> claim_token q"
    and not_settling: "\<And>q. q \<in> set qs \<Longrightarrow> \<not> settling f (claim_token q)"
    and not_asked: "\<And>k q. q \<in> set qs \<Longrightarrow> \<not> asked f k (q_owner q)"
    and not_fresh: "\<And>j n q. j < length cfgs \<Longrightarrow> wk_seq (f_workers f ! j) < n \<Longrightarrow> q \<in> set qs \<Longrightarrow>
      q_owner q \<noteq> lease_label (wc_owner (cfgs ! j)) n"
    and backs: "\<And>q. q \<in> set qs \<Longrightarrow> backed lease f (claim_token q) (q_expires q)"
    and expires: "\<And>q. q \<in> set qs \<Longrightarrow> q_expires q \<le> f_clock f + wc_lease (cfgs ! i)"
  shows "fleet_inv lease cfgs (after i w calls f)"
proof -
  define f' where "f' = after i w calls f"
  let ?R = "runs_of (f_workers f ! i)"
  note D = fleet_invD[OF inv]
  have iw: "i < length (f_workers f)" using i shapeD(1)[OF D(1)] by simp
  have sets: "set qs = set new \<union> set unrun" using qs by (metis set_mset_mset set_mset_union)
  have dist2: "distinct (map claim_token (new @ unrun))"
  proof -
    have "mset (map claim_token (new @ unrun)) = mset (map claim_token qs)" using qs by simp
    then show ?thesis using dist mset_eq_imp_distinct_iff by blast
  qed
  have isr: "is_run f' j r \<longleftrightarrow> is_run f j r \<or> (j = i \<and> ?R \<le> r \<and> r < ?R + length new)" for j r
    using iw by (auto simp: f'_def is_run_def nth_list_update heap)
  have old: "the_run f' j r = the_run f j r" if "is_run f j r" for j r
    using that iw by (auto simp: f'_def the_run_def is_run_def nth_list_update heap nth_append)
  have fresh: "the_run f' i r = new_run cfg (new ! (r - ?R))" "new ! (r - ?R) \<in> set new" "\<not> is_run f i r"
    if "?R \<le> r" "r < ?R + length new" for r
    using that iw by (auto simp: f'_def the_run_def is_run_def heap nth_append)
  have new_run: "token (new_run cfg q) = claim_token q" "\<not> gone (new_run cfg q)" "run_until (new_run cfg q) = q_expires q" for q
    by (simp_all add: new_run_def token_def claim_token_def gone_def)
  have fields: "f_store f' = f_store f" "f_clock f' = f_clock f" "f_workers f' = (f_workers f)[i := w]"
      "f_next f' = f_next f + length calls"
    by (simp_all add: f'_def)
  have seqs: "wk_seq (f_workers f' ! j) = wk_seq (f_workers f ! j)" for j
    using seq iw by (cases "j = i") (simp_all add: fields)
  have mail: "f_mail f' k = Some m \<Longrightarrow> f_mail f k = Some m
      \<or> (\<exists>q \<in> set unrun. m_worker m = i \<and> m_call m = lease_call_release Of_unrun q \<and> m_sent m = f_clock f \<and> m_answer m = None
            \<and> k < f_next f')" for k m
    unfolding f'_def by (elim after_mail[OF D(1)]) (auto simp: calls)
  have waiting: "waiting_claim f' k j q \<longleftrightarrow> waiting_claim f k j q" for k j q
    unfolding f'_def by (rule after_waiting[OF D(1)])
  have ask: "asked f' k label \<longleftrightarrow> asked f k label" for k label
    unfolding f'_def after_asked[OF D(1)] by (auto simp: calls lease_call_release_def)
  have settling: "settling f' tok \<Longrightarrow> settling f tok \<or> (\<exists>q \<in> set unrun. tok = claim_token q)" for tok
    unfolding f'_def using after_settling[OF D(1)] by (fastforce simp: calls lease_call_release_def claim_token_def)
  have kept: "backed lease f' = backed lease f" by (simp add: fun_eq_iff backed_def fields)
  have used: "used lease f label \<or> (\<exists>q \<in> set qs. label = q_owner q)" if "used lease f' label" for label
    using that
  proof (cases rule: usedE)
    case (1 jid t)
    then show ?thesis using usedI(1)[of lease f jid label t] by (simp add: fields)
  next
    case (2 j r)
    then show ?thesis
      using usedI(2)[of f j r] old[of j r] fresh[of r] sets by (auto simp: isr new_run claim_token_def)
  next
    case (3 k j q)
    then show ?thesis using usedI(3) by (auto simp: waiting)
  next
    case (4 jid)
    then show ?thesis using settling[OF 4] usedI(4) sets by (auto simp: claim_token_def)
  qed
  have "shape cfgs f'"
  proof (rule shapeI)
    fix k m assume m: "f_mail f' k = Some m"
    show "k < f_next f'" using mail[OF m] shapeD(3)[OF D(1)] by (auto simp: fields intro: trans_less_add1)
    show "m_worker m < length cfgs" using mail[OF m] shapeD(4)[OF D(1)] i by auto
    show "m_sent m \<le> f_clock f'" using mail[OF m] shapeD(5)[OF D(1)] by (auto simp: fields)
    show "o_lease_ms opts = wc_lease (cfgs ! m_worker m)" if "m_call m = Claim_call opts" for opts
      using mail[OF m] shapeD(6)[OF D(1)] that by (auto simp: lease_call_release_def)
    show "\<exists>jid owner ms. m_call m = Renew_call r jid owner ms" if "m_answer m = Some (Renewed r held)" for r held
      using mail[OF m] shapeD(7)[OF D(1)] that by auto
  next
    show "worker_inv (cfgs ! j) (f_workers f' ! j)" if "j < length cfgs" for j
      using shapeD(2)[OF D(1) that] that winv iw by (cases "j = i") (simp_all add: fields)
  qed (simp add: fields shapeD(1)[OF D(1)])
  moreover have "labels lease cfgs f'"
    by (rule labelsI; (unfold ask seqs)?) (use labelsD[OF D(2)] used not_fresh not_asked in metis)+
  moreover have "tokens f'"
  proof (rule tokensI)
    have run_cases: "(is_run f j r \<and> the_run f' j r = the_run f j r)
        \<or> (j = i \<and> r - ?R < length new \<and> ?R \<le> r \<and> token (the_run f' j r) = claim_token (new ! (r - ?R)))"
      if "is_run f' j r" for j r
      using that old fresh(1)[of r] by (auto simp: isr new_run)
    have in_qs: "n < length new \<Longrightarrow> new ! n \<in> set qs" for n using sets by auto
    show "(j, r) = (l, s)" if a: "is_run f' j r" "is_run f' l s" "token (the_run f' j r) = token (the_run f' l s)" for j r l s
      using run_cases[OF a(1)] run_cases[OF a(2)]
    proof (elim disjE conjE)
      assume "is_run f j r" "the_run f' j r = the_run f j r" "is_run f l s" "the_run f' l s = the_run f l s"
      then show ?thesis using tokensD(1)[OF D(3), of j r l s] a(3) by simp
    next
      assume n: "j = i" "r - ?R < length new" "?R \<le> r" "token (the_run f' j r) = claim_token (new ! (r - ?R))"
        "l = i" "s - ?R < length new" "?R \<le> s" "token (the_run f' l s) = claim_token (new ! (s - ?R))"
      then have "map claim_token new ! (r - ?R) = map claim_token new ! (s - ?R)" using a(3) by simp
      then have "r - ?R = s - ?R" using nth_eq_iff_index_eq[of "map claim_token new"] dist2 n(2,6) by simp
      then show ?thesis using n by simp
    qed (use not_run in_qs a(3) in metis)+
    show "token (the_run f' j r) \<noteq> claim_token q" if "is_run f' j r" "waiting_claim f' k l q" for j r k l q
      using run_cases[OF that(1)] that(2) tokensD(2)[OF D(3)] not_waiting in_qs unfolding waiting by metis
    show "distinct (map claim_token qs)" if "f_mail f' k = Some m" "m_answer m = Some (Claimed (Some qs))" for k m qs
      using mail[OF that(1)] tokensD(4)[OF D(3)] that(2) by auto
    show "gone (the_run f' j r)" if a: "settling f' (token (the_run f' j r))" "is_run f' j r" for j r
      using run_cases[OF a(2)] settling[OF a(1)]
    proof (elim disjE conjE bexE)
      assume "is_run f j r" "the_run f' j r = the_run f j r" "settling f (token (the_run f' j r))"
      then show ?thesis using tokensD(5)[OF D(3)] by simp
    next
      fix q assume "is_run f j r" "the_run f' j r = the_run f j r" "q \<in> set unrun" "token (the_run f' j r) = claim_token q"
      then show ?thesis using not_run[of j r q] sets by auto
    next
      assume "r - ?R < length new" "token (the_run f' j r) = claim_token (new ! (r - ?R))" "settling f (token (the_run f' j r))"
      then show ?thesis using not_settling in_qs by metis
    next
      fix q assume n: "r - ?R < length new" "token (the_run f' j r) = claim_token (new ! (r - ?R))"
        "q \<in> set unrun" "token (the_run f' j r) = claim_token q"
      then have "claim_token q \<in> claim_token ` set new" by (metis image_eqI nth_mem)
      then show ?thesis using dist2 n(3) by auto
    qed
    show "claim_token q \<noteq> tok" if a: "settling f' tok" "waiting_claim f' k j q" for tok k j q
      using settling[OF a(1)] a(2) tokensD(6)[OF D(3)] not_waiting sets unfolding waiting by (metis UnI2)
  qed (use tokensD(3)[OF D(3)] in \<open>unfold waiting, blast\<close>)
  moreover have "leases lease cfgs f'"
  proof (rule leasesI)
    fix j r assume "working f' j r"
    then have r: "is_run f j r \<or> (j = i \<and> ?R \<le> r \<and> r < ?R + length new)" and live: "\<not> gone (the_run f' j r)"
      by (auto simp: working_def isr)
    have "backed lease f' (token (the_run f' j r)) (run_until (the_run f' j r))
        \<and> run_until (the_run f' j r) \<le> f_clock f' + wc_lease (cfgs ! j)"
      using r
    proof
      assume "is_run f j r"
      then have "working f j r" and "the_run f' j r = the_run f j r" using live old by (auto simp: working_def)
      then show ?thesis using leasesD(1,2)[OF D(4)] by (simp add: kept fields)
    next
      assume "j = i \<and> ?R \<le> r \<and> r < ?R + length new"
      then show ?thesis using fresh[of r] backs expires sets by (simp add: kept fields new_run)
    qed
    then show "backed lease f' (token (the_run f' j r)) (run_until (the_run f' j r))"
        "run_until (the_run f' j r) \<le> f_clock f' + wc_lease (cfgs ! j)"
      by blast+
  qed (use leasesD(3,4)[OF D(4)] in \<open>auto simp: waiting kept fields\<close>)
  moreover have "renewals lease cfgs f'"
  proof (rule renewalsI)
    have o: "f_mail f k = Some m" if "f_mail f' k = Some m" "m_call m = Renew_call r jid ow ms" for k m r jid ow ms
      using mail[OF that(1)] that(2) by (auto simp: lease_call_release_def)
    fix k m r jid ow ms assume m: "f_mail f' k = Some m" "m_call m = Renew_call r jid ow ms"
    note R = renewalsD[OF D(5) o[OF m] m(2)]
    show "is_run f' (m_worker m) r" "token (the_run f' (m_worker m) r) = (ow, jid)" "ms = wc_lease (cfgs ! m_worker m)"
        "run_renewing (the_run f' (m_worker m) r) = Some (m_sent m)"
        "\<not> gone (the_run f' (m_worker m) r) \<Longrightarrow> run_until (the_run f' (m_worker m) r) \<le> m_sent m + ms"
        "m_answer m = Some (Renewed r (Some True)) \<Longrightarrow> \<not> gone (the_run f' (m_worker m) r) \<Longrightarrow>
           backed lease f' (ow, jid) (m_sent m + ms)"
      using R(1-6) by (simp_all add: old[OF R(1)] isr kept)
    show "k' = k" if "f_mail f' k' = Some m'" "m_worker m' = m_worker m" "m_call m' = Renew_call r jid' ow' ms'"
      for k' m' jid' ow' ms'
      by (rule R(7)[OF o[OF that(1,3)] that(2,3)])
  qed
  ultimately show ?thesis by (simp add: fleet_inv_def f'_def)
qed

section \<open>An answered renewal\<close>

lemma renewed_keeps:
  assumes inv: "fleet_inv lease cfgs f" and m: "f_mail f k = Some m" "m_answer m = Some (Renewed r held)"
    and winv: "worker_inv (cfgs ! m_worker m) (upd_run r g (f_workers f ! m_worker m))"
    and g: "g = renewed (cfgs ! m_worker m) (f_clock f) held"
  shows "fleet_inv lease cfgs (after (m_worker m) (upd_run r g (f_workers f ! m_worker m)) [] (f\<lparr>f_mail := (f_mail f)(k := None)\<rparr>))"
proof -
  let ?i = "m_worker m"
  define d where "d = f\<lparr>f_mail := (f_mail f)(k := None)\<rparr>"
  define f' where "f' = after ?i (upd_run r g (f_workers f ! ?i)) [] d"
  have dinv: "fleet_inv lease cfgs d" unfolding d_def by (rule fleet_inv_drop[OF inv])
  note D = fleet_invD[OF inv] and E = fleet_invD[OF dinv]
  obtain jid owner ms where call: "m_call m = Renew_call r jid owner ms" using shapeD(7)[OF D(1) m] by blast
  note R = renewalsD[OF D(5) m(1) call]
  have i: "?i < length cfgs" using shapeD(4)[OF D(1) m(1)] .
  have dfields: "f_workers d = f_workers f" "f_clock d = f_clock f" "f_store d = f_store f" by (simp_all add: d_def)
  have iw: "?i < length (f_workers d)" using i shapeD(1)[OF D(1)] by (simp add: dfields)
  have dis: "is_run d = is_run f" "the_run d = the_run f" by (auto simp: fun_eq_iff is_run_def the_run_def dfields)
  have rlen: "r < runs_of (f_workers f ! ?i)" using R(1) by (simp add: is_run_def)
  have isr: "is_run f' j s \<longleftrightarrow> is_run f j s" for j s
    unfolding f'_def by (subst after_runs(1)[OF iw]) (simp_all add: dfields dis)
  have other: "the_run f' j s = the_run f j s" if "is_run f j s" "(j, s) \<noteq> (?i, r)" for j s
  proof -
    have "the_run f' j s = (if j = ?i then wk_heap (upd_run r g (f_workers f ! ?i)) ! s else the_run f j s)"
      unfolding f'_def by (subst after_runs(2)[OF iw]) (simp_all add: dfields dis)
    then show ?thesis using that by (auto simp: is_run_def the_run_def)
  qed
  have this_run: "the_run f' ?i r = g (the_run f ?i r)"
    unfolding f'_def by (subst after_runs(2)[OF iw]) (simp_all add: dfields rlen the_run_def)
  have tok: "token (the_run f' j s) = token (the_run f j s)" if "is_run f j s" for j s
    using other[OF that] this_run by (cases "(j, s) = (?i, r)") (auto simp: token_def g)
  have gone: "gone (the_run f j s) \<Longrightarrow> gone (the_run f' j s)" if "is_run f j s" for j s
    using other[OF that] this_run renewed_gone by (cases "(j, s) = (?i, r)") (auto simp: g)
  have fields: "f_store f' = f_store f" "f_clock f' = f_clock f" "f_mail f' = f_mail d" "f_next f' = f_next d"
      "f_workers f' = (f_workers f)[?i := upd_run r g (f_workers f ! ?i)]"
    by (simp_all add: f'_def dfields) (auto simp: after_def send_def fun_eq_iff)
  have maild: "f_mail d l = Some n \<Longrightarrow> f_mail f l = Some n \<and> l \<noteq> k" for l n by (simp add: d_def split: if_splits)
  have waiting: "waiting_claim f' = waiting_claim d" "asked f' = asked d" "settling f' = settling d"
    by (auto simp: fun_eq_iff waiting_claim_def asked_def settling_def fields)
  have kept: "backed lease f' = backed lease f" by (simp add: fun_eq_iff backed_def fields)
  have keptd: "backed lease d = backed lease f" by (simp add: fun_eq_iff backed_def dfields)
  have seqs: "wk_seq (f_workers f' ! j) = wk_seq (f_workers f ! j)" for j
    by (cases "j = ?i") (use iw in \<open>simp_all add: fields dfields\<close>)
  have used: "used lease f' label \<Longrightarrow> used lease d label" for label
    unfolding used_def fields waiting dfields isr dis using tok by metis
  have "shape cfgs f'"
  proof (rule shapeI)
    show "worker_inv (cfgs ! j) (f_workers f' ! j)" if "j < length cfgs" for j
      using shapeD(2)[OF D(1) that] that winv iw by (cases "j = ?i") (simp_all add: fields dfields)
  qed (use shapeD[OF E(1)] in \<open>simp_all add: fields dfields\<close>)
  moreover have "labels lease cfgs f'"
    by (rule labelsI; (unfold waiting seqs)?) (use labelsD[OF E(2), unfolded dfields] used in metis)+
  moreover have "tokens f'"
    by (rule tokens_less[OF E(3)]; (unfold isr dis waiting fields)?) (use tok gone tokensD(4)[OF E(3)] in auto)
  moreover have "leases lease cfgs f'"
  proof (rule leasesI)
    fix j s assume "working f' j s"
    then have s: "is_run f j s" "\<not> gone (the_run f' j s)" "working f j s"
      using gone[of j s] by (auto simp: working_def isr)
    have "backed lease f (token (the_run f j s)) (run_until (the_run f' j s))
        \<and> run_until (the_run f' j s) \<le> f_clock f + wc_lease (cfgs ! j)"
    proof (cases "(j, s) = (?i, r) \<and> held = Some True")
      case True
      then have until: "run_until (the_run f' j s) = m_sent m + wc_lease (cfgs ! ?i)"
        using this_run R(4) s(3) by (auto simp: g renewed_until working_def)
      have "backed lease f (owner, jid) (m_sent m + ms)"
        using R(6) m(2) True s(3) by (auto simp: working_def)
      then show ?thesis using True R(2,3) until shapeD(5)[OF D(1) m(1)] by auto
    next
      case False
      then have "run_until (the_run f' j s) = run_until (the_run f j s)"
        using this_run other[OF s(1)] by (cases "(j, s) = (?i, r)") (auto simp: g renewed_until)
      then show ?thesis using leasesD(1,2)[OF D(4) s(3)] by simp
    qed
    then show "backed lease f' (token (the_run f' j s)) (run_until (the_run f' j s))"
        "run_until (the_run f' j s) \<le> f_clock f' + wc_lease (cfgs ! j)"
      by (simp_all add: tok[OF s(1)] kept fields)
  qed (use leasesD(3,4)[OF E(4)] in \<open>auto simp: waiting kept keptd fields dfields\<close>)
  moreover have "renewals lease cfgs f'"
  proof (rule renewalsI)
    fix l n t jid' ow ms' assume n: "f_mail f' l = Some n" "m_call n = Renew_call t jid' ow ms'"
    have n': "f_mail f l = Some n" "l \<noteq> k" "f_mail d l = Some n" using n(1) maild by (auto simp: fields)
    note S = renewalsD[OF D(5) n'(1) n(2)]
    have "(m_worker n, t) \<noteq> (?i, r)" using R(7)[OF n'(1)] n(2) n'(2) by auto
    then have same: "the_run f' (m_worker n) t = the_run f (m_worker n) t" by (rule other[OF S(1)])
    show "is_run f' (m_worker n) t" "token (the_run f' (m_worker n) t) = (ow, jid')" "ms' = wc_lease (cfgs ! m_worker n)"
        "run_renewing (the_run f' (m_worker n) t) = Some (m_sent n)"
        "\<not> gone (the_run f' (m_worker n) t) \<Longrightarrow> run_until (the_run f' (m_worker n) t) \<le> m_sent n + ms'"
        "m_answer n = Some (Renewed t (Some True)) \<Longrightarrow> \<not> gone (the_run f' (m_worker n) t) \<Longrightarrow>
           backed lease f' (ow, jid') (m_sent n + ms')"
      using S(1-6) by (simp_all add: same isr kept)
    show "l' = l" if "f_mail f' l' = Some n'" "m_worker n' = m_worker n" "m_call n' = Renew_call t jid2 ow2 ms2"
      for l' n' jid2 ow2 ms2
      using S(7)[OF _ that(2,3), of l'] maild that(1) by (simp add: fields)
  qed
  ultimately show ?thesis by (simp add: fleet_inv_def f'_def d_def)
qed

end
