(* ===== verification/FleetRuns.thy ===== *)
theory FleetRuns
  imports FleetDelivers
begin

text \<open>
  Every reachable state of a fleet has the invariant, whatever queue it shares as long as the queue keeps its contract
  (the locale \<open>leased_queue\<close>), and what follows from it: no two runs of a job work while their leases last.
\<close>

section \<open>Serving under the contract\<close>

lemma same_leases_keep:
  assumes "fleet_inv lease cfgs f" and "f_mail f k = Some m" "m_answer m = None"
    and "\<And>qs. reply = Claimed (Some qs) \<Longrightarrow> qs = []" and "\<And>r. reply \<noteq> Renewed r (Some True)"
    and "\<And>r held. reply = Renewed r held \<Longrightarrow> \<exists>jid owner ms. m_call m = Renew_call r jid owner ms"
    and "lease st = lease (f_store f)"
  shows "fleet_inv lease cfgs (answered k m st reply f)"
  using assms(1-3)
proof (rule answered_keeps)
  have "backed lease (answered k m st reply f) = backed lease f" by (simp add: fun_eq_iff backed_def assms(7))
  then show "\<And>i r. backed lease f (token (the_run f i r)) (run_until (the_run f i r)) \<Longrightarrow>
      backed lease (answered k m st reply f) (token (the_run f i r)) (run_until (the_run f i r))"
    and "\<And>q. backed lease f (claim_token q) (q_expires q) \<Longrightarrow> backed lease (answered k m st reply f) (claim_token q) (q_expires q)"
    and "\<And>tok u. backed lease f tok u \<Longrightarrow> backed lease (answered k m st reply f) tok u"
    by simp_all
qed (use assms(4-7) in auto)

text \<open>A lease that goes because its holder ends it: no run that works and no waiting claim has it.\<close>

lemma ended_lease_keeps:
  assumes inv: "fleet_inv lease cfgs f" and m: "f_mail f k = Some m" "m_answer m = None"
    and settles: "settles (m_call m) = Some (owner, jid)"
    and reply: "\<And>a. reply \<noteq> Claimed a" "\<And>r held. reply \<noteq> Renewed r held"
    and held: "lease (f_store f) jid = Some (owner, t)" and st: "lease st = (lease (f_store f))(jid := None)"
  shows "fleet_inv lease cfgs (answered k m st reply f)"
proof -
  note D = fleet_invD[OF inv]
  have settling: "settling f (owner, jid)" using m settles by (auto simp: settling_def)
  have kept: "backed lease (answered k m st reply f) tok u" if "backed lease f tok u" "tok \<noteq> (owner, jid)" for tok u
    using that held by (cases tok) (auto simp: backed_def st)
  have run: "token (the_run f i r) \<noteq> (owner, jid)" if "working f i r" for i r
    using tokensD(5)[OF D(3), of i r] settling that by (auto simp: working_def)
  show ?thesis
    using inv m
  proof (rule answered_keeps)
    show "backed lease (answered k m st reply f) (claim_token q) (q_expires q)"
      if "waiting_claim f k' i q" "backed lease f (claim_token q) (q_expires q)" for k' i q
      using kept[OF that(2)] tokensD(6)[OF D(3) settling that(1)] by blast
    show "backed lease (answered k m st reply f) (ow, j) (m_sent m' + ms)"
      if "f_mail f k' = Some m'" "m_call m' = Renew_call r j ow ms" "working f (m_worker m') r"
         "backed lease f (ow, j) (m_sent m' + ms)" for k' m' r j ow ms
      using kept[OF that(4)] run[OF that(3)] renewalsD(2)[OF D(5) that(1,2)] by metis
  qed (use reply run kept st in \<open>auto split: if_splits\<close>)
qed

text \<open>Leases that go because they had expired.\<close>

lemma expired_leases_keep:
  assumes inv: "fleet_inv lease cfgs f" and m: "f_mail f k = Some m" "m_answer m = None"
    and reply: "\<And>a. reply \<noteq> Claimed a" "\<And>r held. reply \<noteq> Renewed r held"
    and st: "\<And>jid. lease st jid = lease (f_store f) jid
               \<or> (lease st jid = None \<and> (\<exists>owner t. lease (f_store f) jid = Some (owner, t) \<and> t < m_sent m))"
  shows "fleet_inv lease cfgs (answered k m st reply f)"
proof -
  have now: "m_sent m \<le> f_clock f" using shapeD(5)[OF fleet_invD(1)[OF inv] m(1)] .
  have kept: "backed lease (answered k m st reply f) tok u" if "backed lease f tok u" for tok u
    using that st[of "snd tok"] now by (auto simp: backed_def)
  show ?thesis
    using inv m
  proof (rule answered_keeps)
    show "\<exists>t'. lease (f_store f) jid = Some (label, t')" if "lease st jid = Some (label, t)" for jid label t
      using st[of jid] that by (metis option.distinct(1))
  qed (use reply kept in auto)
qed

text \<open>A renewal that is granted: the run it is for, if it works, has no later deadline.\<close>

lemma granted_renewal_keeps:
  assumes inv: "fleet_inv lease cfgs f" and m: "f_mail f k = Some m" "m_answer m = None"
    and call: "m_call m = Renew_call r jid owner ms" and reply: "reply = Renewed r (Some b) \<or> reply = Renewed r None"
    and held: "lease (f_store f) jid = Some (owner, t)" and st: "lease st = (lease (f_store f))(jid \<mapsto> (owner, m_sent m + ms))"
  shows "fleet_inv lease cfgs (answered k m st reply f)"
proof -
  note D = fleet_invD[OF inv]
  note R = renewalsD[OF D(5) m(1) call]
  have kept: "backed lease (answered k m st reply f) tok u" if "backed lease f tok u" "tok = (owner, jid) \<Longrightarrow> u \<le> m_sent m + ms" for tok u
    using that held by (cases tok) (auto simp: backed_def st)
  have me: "i = m_worker m \<and> l = r" if "is_run f i l" "token (the_run f i l) = (owner, jid)" for i l
    using tokensD(1)[OF D(3) that(1) R(1)] R(2) that(2) by simp
  show ?thesis
    using inv m
  proof (rule answered_keeps)
    show "backed lease (answered k m st reply f) (token (the_run f i l)) (run_until (the_run f i l))"
      if "working f i l" "backed lease f (token (the_run f i l)) (run_until (the_run f i l))" for i l
      using kept[OF that(2)] me[of i l] R(5) that(1) by (auto simp: working_def)
    show "backed lease (answered k m st reply f) (claim_token q) (q_expires q)"
      if "waiting_claim f k' i q" "backed lease f (claim_token q) (q_expires q)" for k' i q
      using kept[OF that(2)] tokensD(2)[OF D(3) R(1) that(1)] R(2) by metis
    show "backed lease (answered k m st reply f) (ow, j) (m_sent m' + ms')"
      if "k' \<noteq> k" "f_mail f k' = Some m'" "m_call m' = Renew_call l j ow ms'" "working f (m_worker m') l"
         "backed lease f (ow, j) (m_sent m' + ms')" for k' m' l j ow ms'
    proof (rule kept[OF that(5)])
      assume "(ow, j) = (owner, jid)"
      then have "m_worker m' = m_worker m \<and> l = r"
        using me[of "m_worker m'" l] renewalsD(1,2)[OF D(5) that(2,3)] by auto
      then show "m_sent m' + ms' \<le> m_sent m + ms" using R(7)[OF that(2)] that(1,3) by auto
    qed
    show "backed lease (answered k m st reply f) (ow, j) (m_sent m + ms')" if "m_call m = Renew_call l j ow ms'" for l j ow ms'
      using that call by (simp add: backed_def st)
  qed (use reply call held st in \<open>auto split: if_splits\<close>)
qed

context leased_queue
begin

lemma serve_keeps:
  assumes inv: "fleet_inv lease cfgs f" and good: "good (f_store f)" and m: "f_mail f k = Some m" "m_answer m = None"
    and serve: "serve P skip draw lost (f_store f) (m_call m) (m_sent m) = (st, reply)"
  shows "fleet_inv lease cfgs (answered k m st reply f) \<and> good st"
proof -
  have same: "fleet_inv lease cfgs (answered k m (f_store f) reply f)"
    if "\<And>qs. reply = Claimed (Some qs) \<Longrightarrow> qs = []" "\<And>r. reply \<noteq> Renewed r (Some True)"
       "\<And>r held. reply = Renewed r held \<Longrightarrow> \<exists>jid owner ms. m_call m = Renew_call r jid owner ms"
    by (rule same_leases_keep[OF inv m that refl])
  have settle: "fleet_inv lease cfgs (answered k m st reply f)"
    if "settles (m_call m) = Some (owner, jid)" "\<And>a. reply \<noteq> Claimed a" "\<And>r held. reply \<noteq> Renewed r held"
       "lease st = lease (f_store f)
         \<or> (\<exists>t. lease (f_store f) jid = Some (owner, t)) \<and> lease st = (lease (f_store f))(jid := None)" for owner jid
    using that(4) ended_lease_keeps[OF inv m that(1-3)] same_leases_keep[OF inv m] that(2,3) by metis
  show ?thesis
  proof (cases "m_call m")
    case (Claim_call opts)
    show ?thesis
    proof (cases "p_claim P skip (f_store f) opts (m_sent m)")
      case (Inl e)
      then show ?thesis using serve Claim_call same good by (auto simp: served_def)
    next
      case (Inr p)
      then obtain st' qs where p: "p_claim P skip (f_store f) opts (m_sent m) = Inr (st', qs)" by (cases p) auto
      then have "st = st'" "reply = Claimed None \<or> reply = Claimed (Some qs)"
        using serve Claim_call by (auto simp: served_def split: if_splits)
      then show ?thesis
        using claim_law[OF good p] claim_keeps[OF inv m Claim_call, of qs st reply] by auto
    qed
  next
    case (Renew_call r jid owner ms)
    show ?thesis
    proof (cases "p_renew P (f_store f) jid owner ms (m_sent m)")
      case (Inl e)
      then show ?thesis using serve Renew_call same good by (auto simp: served_def)
    next
      case (Inr p)
      then obtain st' held where p: "p_renew P (f_store f) jid owner ms (m_sent m) = Inr (st', held)" by (cases p) auto
      then have r: "st = st'" "reply = Renewed r (Some held) \<or> reply = Renewed r None"
        using serve Renew_call by (auto simp: served_def split: if_splits)
      show ?thesis
      proof (cases held)
        case True
        then show ?thesis
          using renew_law[OF good p] granted_renewal_keeps[OF inv m Renew_call r(2)] r(1) by auto
      next
        case False
        then show ?thesis
          using renew_law[OF good p] same_leases_keep[OF inv m, of reply st] r Renew_call by auto
      qed
    qed
  next
    case (Complete_call r jid owner)
    then show ?thesis
      using serve same good settle[of owner jid] complete_law[OF good]
      by (auto simp: served_def split: sum.splits prod.splits)
  next
    case (Fail_call r jid owner code retryable)
    then show ?thesis
      using serve same good settle[of owner jid] fail_law[OF good]
      by (auto simp: served_def split: sum.splits prod.splits)
  next
    case (Release_call origin jid owner)
    then show ?thesis
      using serve same good settle[of owner jid] release_law[OF good]
      by (auto simp: served_def split: sum.splits prod.splits)
  next
    case (Requeue_call limit)
    then show ?thesis
      using serve same good requeue_law[OF good] expired_leases_keep[OF inv m, of reply st]
      by (auto simp: served_def split: sum.splits prod.splits)
  next
    case (Cleanup_call at limit)
    then show ?thesis
      using serve same good cleanup_law[OF good] same_leases_keep[OF inv m, of reply st]
      by (auto simp: served_def split: sum.splits prod.splits)
  next
    case (Enqueue_call at kind subject)
    then show ?thesis
      using serve same good enqueue_law[OF good] same_leases_keep[OF inv m, of reply st]
      by (auto simp: served_def split: sum.splits prod.splits)
  qed
qed

end

section \<open>Workers take events\<close>

lemma quiet_worker_keeps:
  assumes inv: "fleet_inv lease cfgs f" and owners: "distinct (map wc_owner cfgs)" and i: "i < length cfgs"
    and can: "can_happen e (f_workers f ! i)" and q: "\<not> loud e"
  shows "fleet_inv lease cfgs (at_worker cfgs i e f)"
proof -
  obtain w calls where step: "worker_step (cfgs ! i) True (f_clock f) e (f_workers f ! i) = (w, calls)" by fastforce
  have winv: "worker_inv (cfgs ! i) (f_workers f ! i)" using shapeD(2)[OF fleet_invD(1)[OF inv] i] .
  have "quiet (cfgs ! i) (f_clock f) (f_workers f ! i) w calls"
    using quiet_step[OF winv can q, where onf=True and now="f_clock f"] step by simp
  moreover have "worker_inv (cfgs ! i) w" using inv_step[OF winv can, of True "f_clock f"] step by simp
  ultimately show ?thesis using quiet_keeps[OF inv i owners] step by (simp add: at_worker_after)
qed

lemma claims_delivered_keep:
  assumes inv: "fleet_inv lease cfgs f" and owners: "distinct (map wc_owner cfgs)"
    and m: "f_mail f k = Some m" "m_answer m = Some (Claimed (Some qs))"
    and can: "can_happen (Claimed (Some qs)) (f_workers f ! m_worker m)"
  shows "fleet_inv lease cfgs (at_worker cfgs (m_worker m) (Claimed (Some qs)) (f\<lparr>f_mail := (f_mail f)(k := None)\<rparr>))"
proof -
  let ?i = "m_worker m"
  define d where "d = f\<lparr>f_mail := (f_mail f)(k := None)\<rparr>"
  have dinv: "fleet_inv lease cfgs d" unfolding d_def by (rule fleet_inv_drop[OF inv])
  note D = fleet_invD[OF inv]
  have fields: "f_workers d = f_workers f" "f_clock d = f_clock f" "f_store d = f_store f" by (simp_all add: d_def)
  have i: "?i < length cfgs" using shapeD(4)[OF D(1) m(1)] .
  have waits: "waiting_claim f k ?i q" if "q \<in> set qs" for q using m that by (auto simp: waiting_claim_def)
  have runs: "is_run d = is_run f" "the_run d = the_run f" by (auto simp: fun_eq_iff is_run_def the_run_def fields)
  have less: "waiting_claim d l j q \<Longrightarrow> waiting_claim f l j q \<and> l \<noteq> k" "asked d l label \<Longrightarrow> asked f l label"
      "settling d tok \<Longrightarrow> settling f tok" for l j q label tok
    by (auto simp: d_def waiting_claim_def asked_def settling_def split: if_splits)
  have kept: "backed lease d = backed lease f" by (simp add: fun_eq_iff backed_def fields)
  obtain w calls where step: "claimed (cfgs ! ?i) (Some qs) (f_workers f ! ?i) = (w, calls)" by fastforce
  have winv: "worker_inv (cfgs ! ?i) w"
    using inv_step[OF shapeD(2)[OF D(1) i] can, of True "f_clock f"] step by simp
  have after: "at_worker cfgs ?i (Claimed (Some qs)) d = after ?i w calls d"
    by (simp add: at_worker_after fields step)
  show ?thesis
    using step
  proof (cases rule: claimed_spec)
    case (taken new rest)
    have "fleet_inv lease cfgs (after ?i w calls d)"
    proof (rule new_runs_keep[OF dinv i winv _ _ taken(2,3) tokensD(4)[OF D(3) m]])
      show "wk_heap w = wk_heap (f_workers d ! ?i) @ map (new_run (cfgs ! ?i)) new" "wk_seq w = wk_seq (f_workers d ! ?i)"
        using taken by (simp_all add: fields)
      fix q assume q: "q \<in> set qs"
      show "token (the_run d j r) \<noteq> claim_token q" if "is_run d j r" for j r
        using tokensD(2)[OF D(3) _ waits[OF q]] that by (simp add: runs)
      show "claim_token q' \<noteq> claim_token q" if "waiting_claim d l j q'" for l j q'
        using tokensD(3)[OF D(3) _ waits[OF q]] less(1)[OF that] by metis
      show "\<not> settling d (claim_token q)" using tokensD(6)[OF D(3) _ waits[OF q]] less(3) by blast
      show "\<not> asked d l (q_owner q)" for l
        using labelsD(3)[OF D(2)] less(2) usedI(3)[OF waits[OF q], of lease] by blast
      show "q_owner q \<noteq> lease_label (wc_owner (cfgs ! j)) n" if "j < length cfgs" "wk_seq (f_workers d ! j) < n" for j n
        using labelsD(1)[OF D(2) that[unfolded fields]] usedI(3)[OF waits[OF q], of lease] by metis
      show "backed lease d (claim_token q) (q_expires q)" "q_expires q \<le> f_clock d + wc_lease (cfgs ! ?i)"
        using leasesD(3,4)[OF D(4) waits[OF q]] by (simp_all add: kept fields)
    qed
    then show ?thesis using after by (simp add: d_def)
  next
    case ignored
    have "quiet (cfgs ! ?i) (f_clock d) (f_workers d ! ?i) w []"
      by (rule quiet_still) (simp_all add: fields ignored)
    then show ?thesis using quiet_keeps[OF dinv i owners _ winv, of "[]"] after ignored(2) by (simp add: d_def)
  qed
qed

lemma renewal_delivered_keeps:
  assumes inv: "fleet_inv lease cfgs f" and m: "f_mail f k = Some m" "m_answer m = Some (Renewed r held)"
    and can: "can_happen (Renewed r held) (f_workers f ! m_worker m)"
  shows "fleet_inv lease cfgs (at_worker cfgs (m_worker m) (Renewed r held) (f\<lparr>f_mail := (f_mail f)(k := None)\<rparr>))"
proof -
  note D = fleet_invD[OF inv]
  have i: "m_worker m < length cfgs" using shapeD(4)[OF D(1) m(1)] .
  have "worker_inv (cfgs ! m_worker m) (upd_run r (renewed (cfgs ! m_worker m) (f_clock f) held) (f_workers f ! m_worker m))"
    using inv_step[OF shapeD(2)[OF D(1) i] can, of True "f_clock f"] by simp
  from renewed_keeps[OF inv m this refl] show ?thesis by (simp add: at_worker_after)
qed

lemma delivered_keeps:
  assumes inv: "fleet_inv lease cfgs f" and owners: "distinct (map wc_owner cfgs)"
    and m: "f_mail f k = Some m" "m_answer m = Some e" and can: "can_happen e (f_workers f ! m_worker m)"
  shows "fleet_inv lease cfgs (at_worker cfgs (m_worker m) e (f\<lparr>f_mail := (f_mail f)(k := None)\<rparr>))"
proof (cases "loud e")
  case False
  then show ?thesis
    using quiet_worker_keeps[OF fleet_inv_drop[OF inv, of k] owners shapeD(4)[OF fleet_invD(1)[OF inv] m(1)], of e] can by simp
next
  case True
  then consider qs where "e = Claimed (Some qs)" | r held where "e = Renewed r held" by (cases e rule: loud.cases) auto
  then show ?thesis
  proof cases
    case 1
    then show ?thesis using claims_delivered_keep[OF inv owners m(1)] m(2) can by simp
  next
    case 2
    then show ?thesis using renewal_delivered_keeps[OF inv m(1)] m(2) can by simp
  qed
qed

section \<open>Reachable states\<close>

context leased_queue
begin

lemma fleet_step_keeps:
  assumes inv: "fleet_inv lease cfgs f" and good: "good (f_store f)" and owners: "distinct (map wc_owner cfgs)"
    and step: "fleet_event_step P cfgs ev f = Some f'"
  shows "fleet_inv lease cfgs f' \<and> good (f_store f')"
proof (cases ev)
  case (Time_passes d)
  then show ?thesis
    using step fleet_inv_time[OF inv] good by (auto simp: fleet_event_step_def split: if_splits)
next
  case (Local i e)
  then have i: "i < length cfgs" "local_event e" "can_happen e (f_workers f ! i)" and f': "f' = at_worker cfgs i e f"
    using step shapeD(1)[OF fleet_invD(1)[OF inv]] by (auto simp: fleet_event_step_def split: if_splits)
  have "\<not> loud e" using i(2) by (cases e rule: loud.cases) auto
  then show ?thesis
    using quiet_worker_keeps[OF inv owners i(1,3)] good f'
    by (auto simp: at_worker_after split: prod.splits)
next
  case (Serve k lost skip ids)
  then obtain m st reply where m: "f_mail f k = Some m" "m_answer m = None"
      and s: "serve P (\<lambda>jid. jid \<in> set skip) (\<lambda>n. if n < length ids then ids ! n else '''') lost (f_store f) (m_call m) (m_sent m)
              = (st, reply)"
      and f': "f' = answered k m st reply f"
    using step by (auto simp: fleet_event_step_def answered_def split: option.splits if_splits prod.splits)
  show ?thesis using serve_keeps[OF inv good m s] f' by simp
next
  case (Deliver k)
  then obtain m e where m: "f_mail f k = Some m" "m_answer m = Some e" and can: "can_happen e (f_workers f ! m_worker m)"
      and f': "f' = at_worker cfgs (m_worker m) e (f\<lparr>f_mail := (f_mail f)(k := None)\<rparr>)"
    using step by (auto simp: fleet_event_step_def split: option.splits if_splits)
  then show ?thesis
    using delivered_keeps[OF inv owners m can] good by (auto simp: at_worker_after split: prod.splits)
qed

lemma reachable_inv:
  assumes "fleet_reachable P good lease cfgs f" and "distinct (map wc_owner cfgs)"
    and "\<And>c. c \<in> set cfgs \<Longrightarrow> 0 \<le> wc_concurrency c"
  shows "fleet_inv lease cfgs f \<and> good (f_store f)"
  using assms(1)
proof induction
  case (Begin st now)
  let ?f = "fleet0 st now (length cfgs)"
  have none: "\<not> is_run ?f i r" "\<not> working ?f i r" "\<not> waiting_claim ?f k i q" "\<not> asked ?f k label" "\<not> settling ?f tok"
      "f_mail ?f k = None" for i r k q label tok
    by (auto simp: fleet0_def is_run_def working_def waiting_claim_def asked_def settling_def worker0_def)
  have used: "used lease ?f label \<Longrightarrow> \<exists>jid t. lease st jid = Some (label, t)" for label
    unfolding used_def using none by (auto simp: fleet0_def)
  have "shape cfgs ?f"
    by (rule shapeI) (use worker_inv0 assms(3) none in \<open>auto simp: fleet0_def\<close>)
  moreover have "labels lease cfgs ?f"
    by (rule labelsI; (simp add: none; fail)?) (use used Begin(2) in metis)
  moreover have "tokens ?f" "leases lease cfgs ?f" "renewals lease cfgs ?f"
    using none by (auto intro!: tokensI leasesI renewalsI)
  ultimately show ?case using Begin(1) by (simp add: fleet_inv_def) (simp add: fleet0_def)
next
  case (Happens f ev f')
  then show ?case using fleet_step_keeps assms(2) by blast
next
  case (Others f st)
  then have "lease st = lease (f_store f)" by (simp add: fun_eq_iff)
  then show ?case using Others fleet_inv_others[of lease cfgs f st] by auto
qed

text \<open>Two runs of one job never work at once while the leases they rely on last.\<close>

lemma runs_exclusive:
  assumes "fleet_reachable P good lease cfgs f" and "distinct (map wc_owner cfgs)"
    and "\<And>c. c \<in> set cfgs \<Longrightarrow> 0 \<le> wc_concurrency c"
    and run: "working f i r" "f_clock f \<le> run_until (the_run f i r)"
    and other: "working f j s" "f_clock f \<le> run_until (the_run f j s)"
    and job: "q_id (run_claim (the_run f i r)) = q_id (run_claim (the_run f j s))"
  shows "(i, r) = (j, s)"
proof -
  note D = fleet_invD[OF conjunct1[OF reachable_inv[OF assms(1-3)]]]
  have "backed lease f (token (the_run f i r)) (run_until (the_run f i r))"
       "backed lease f (token (the_run f j s)) (run_until (the_run f j s))"
    using leasesD(1)[OF D(4)] run(1) other(1) by blast+
  then have "token (the_run f i r) = token (the_run f j s)"
    using run(2) other(2) job by (auto simp: backed_def token_def)
  then show ?thesis using tokensD(1)[OF D(3), of i r j s] run(1) other(1) unfolding working_def by blast
qed

text \<open>A run that works before its deadline holds the lease in the store, for at least that long.\<close>

lemma run_holds_lease:
  assumes "fleet_reachable P good lease cfgs f" and "distinct (map wc_owner cfgs)"
    and "\<And>c. c \<in> set cfgs \<Longrightarrow> 0 \<le> wc_concurrency c"
    and "working f i r" "f_clock f \<le> run_until (the_run f i r)"
  shows "\<exists>t. lease (f_store f) (q_id (run_claim (the_run f i r))) = Some (q_owner (run_claim (the_run f i r)), t)
           \<and> run_until (the_run f i r) \<le> t"
  using leasesD(1)[OF fleet_invD(4)[OF conjunct1[OF reachable_inv[OF assms(1-3)]]] assms(4)] assms(5)
  by (auto simp: backed_def token_def)

end

end
