(* ===== verification/JobQueueFacts.thy ===== *)
theory JobQueueFacts
  imports JobCleanup "HOL-Library.Multiset"
begin

text \<open>
  What the operations of the job queue do to its rows: the invariant of the table (identifiers and active work are unique,
  attempts are counted within their bound, running rows carry a lease) and to the leases, one lemma per operation.
\<close>

section \<open>Invariant and leases\<close>

definition active_key :: "(string \<Rightarrow> string) \<Rightarrow> job_row \<Rightarrow> job_kind \<times> string \<times> string" where
  "active_key digest j = (j_kind j, j_subject j, digest (payload_text (j_payload j)))"

definition row_ok :: "job_row \<Rightarrow> bool" where
  "row_ok j \<longleftrightarrow> 1 \<le> j_max_attempts j \<and> j_max_attempts j \<le> 1000
     \<and> (j_state j = Queued \<longrightarrow> 0 \<le> j_attempts j \<and> j_attempts j < j_max_attempts j)
     \<and> (j_state j = Running \<longrightarrow> 1 \<le> j_attempts j \<and> j_attempts j \<le> j_max_attempts j
            \<and> j_owner j \<noteq> None \<and> j_expires j \<noteq> None)"

definition queue_inv :: "(string \<Rightarrow> string) \<Rightarrow> job_row list \<Rightarrow> bool" where
  "queue_inv digest rows \<longleftrightarrow>
     distinct (map j_id rows) \<and> (\<forall>j \<in> set rows. row_ok j)
     \<and> (\<forall>j \<in> set rows. \<forall>k \<in> set rows.
          active_job j \<longrightarrow> active_job k \<longrightarrow> active_key digest j = active_key digest k \<longrightarrow> j_id j = j_id k)"

definition lease_row :: "job_row \<Rightarrow> (string \<times> instant) option" where
  "lease_row j = (if j_state j = Running
     then (case (j_owner j, j_expires j) of (Some w, Some t) \<Rightarrow> Some (w, t) | _ \<Rightarrow> None) else None)"

definition lease_in :: "job_row list \<Rightarrow> string \<Rightarrow> (string \<times> instant) option" where
  "lease_in rows jid = Option.bind (row_of j_id jid rows) lease_row"

lemma queue_invI:
  assumes "distinct (map j_id rows)" and "\<And>j. j \<in> set rows \<Longrightarrow> row_ok j"
    and "\<And>j k. j \<in> set rows \<Longrightarrow> k \<in> set rows \<Longrightarrow> active_job j \<Longrightarrow> active_job k
           \<Longrightarrow> active_key digest j = active_key digest k \<Longrightarrow> j_id j = j_id k"
  shows "queue_inv digest rows"
  using assms unfolding queue_inv_def by blast

lemma queue_invD:
  assumes "queue_inv digest rows"
  shows "distinct (map j_id rows)" and "j \<in> set rows \<Longrightarrow> row_ok j"
    and "j \<in> set rows \<Longrightarrow> k \<in> set rows \<Longrightarrow> active_job j \<Longrightarrow> active_job k
           \<Longrightarrow> active_key digest j = active_key digest k \<Longrightarrow> j_id j = j_id k"
  using assms unfolding queue_inv_def by blast+

lemma same_work_key:
  "same_work digest kind subject payload j \<longleftrightarrow> active_key digest j = (kind, subject, digest (payload_text payload))"
  by (auto simp: same_work_def active_key_def)

section \<open>Updates, insertions and deletions of rows\<close>

lemma row_of_update:
  assumes "\<And>x. key (f x) = key x"
  shows "row_of key k (update_rows P f xs) = map_option (\<lambda>x. if P x then f x else x) (row_of key k xs)"
  by (induction xs) (simp_all add: assms)

lemma lease_in_update:
  assumes "\<And>x. j_id (f x) = j_id x"
  shows "lease_in (update_rows P f rows) jid
         = Option.bind (row_of j_id jid rows) (\<lambda>x. lease_row (if P x then f x else x))"
  by (cases "row_of j_id jid rows") (simp_all add: lease_in_def row_of_update[of j_id, OF assms])

text \<open>An update that keeps identifiers and work, revives nothing and leaves each row well formed keeps the invariant.\<close>

lemma update_keeps:
  assumes inv: "queue_inv digest rows"
    and ids: "\<And>x. j_id (f x) = j_id x" and keys: "\<And>x. active_key digest (f x) = active_key digest x"
    and active: "\<And>x. x \<in> set rows \<Longrightarrow> P x \<Longrightarrow> active_job (f x) \<Longrightarrow> active_job x"
    and rows: "\<And>x. x \<in> set rows \<Longrightarrow> P x \<Longrightarrow> row_ok x \<Longrightarrow> row_ok (f x)"
  shows "queue_inv digest (update_rows P f rows)"
proof (rule queue_invI)
  note I = queue_invD[OF inv]
  show "distinct (map j_id (update_rows P f rows))" using I(1) by (simp add: map_update_rows[of j_id, OF ids])
  fix j assume "j \<in> set (update_rows P f rows)"
  then show "row_ok j" using I(2) rows by (auto simp: set_update_rows)
next
  note I = queue_invD[OF inv]
  fix j k assume a: "j \<in> set (update_rows P f rows)" "k \<in> set (update_rows P f rows)"
    and act: "active_job j" "active_job k" and key: "active_key digest j = active_key digest k"
  from a obtain x y where x: "x \<in> set rows" "j = (if P x then f x else x)" and y: "y \<in> set rows" "k = (if P y then f y else y)"
    by (auto simp: set_update_rows)
  have "active_job x" "active_job y" "active_key digest x = active_key digest y"
    using x y act key active keys by (auto split: if_splits)
  then have "j_id x = j_id y" using I(3) x(1) y(1) by blast
  then show "j_id j = j_id k" using x y ids by simp
qed

lemma row_found:
  assumes "distinct (map j_id rows)" and "x \<in> set rows"
  shows "row_of j_id (j_id x) rows = Some x"
  using assms by (rule row_of_unique)

lemma append_keeps:
  assumes inv: "queue_inv digest rows" and new: "j_id n \<notin> j_id ` set rows" and ok: "row_ok n"
    and unique: "\<And>j. j \<in> set rows \<Longrightarrow> active_job j \<Longrightarrow> active_key digest j \<noteq> active_key digest n"
  shows "queue_inv digest (rows @ [n])"
proof (rule queue_invI)
  show "distinct (map j_id (rows @ [n]))" using queue_invD(1)[OF inv] new by auto
  show "row_ok j" if "j \<in> set (rows @ [n])" for j using queue_invD(2)[OF inv] ok that by auto
  fix j k assume a: "j \<in> set (rows @ [n])" "k \<in> set (rows @ [n])" "active_job j" "active_job k"
      "active_key digest j = active_key digest k"
  then consider "j \<in> set rows" "k \<in> set rows" | "j = n" "k = n" | "j = n" "k \<in> set rows" | "k = n" "j \<in> set rows" by auto
  then show "j_id j = j_id k"
  proof cases
    case 1
    then show ?thesis using queue_invD(3)[OF inv _ _ a(3-5)] by blast
  next
    case 3
    then show ?thesis using unique[of k] a(4,5) by auto
  next
    case 4
    then show ?thesis using unique[of j] a(3,5) by auto
  qed simp
qed

lemma lease_in_append:
  assumes "lease_row n = None" and "j_id n \<notin> j_id ` set rows"
  shows "lease_in (rows @ [n]) = lease_in rows"
proof
  fix jid
  show "lease_in (rows @ [n]) jid = lease_in rows jid"
    using assms(2) by (induction rows) (auto simp: lease_in_def assms(1))
qed

lemma filter_keeps:
  assumes "queue_inv digest rows"
  shows "queue_inv digest (filter Q rows)"
  using queue_invD[OF assms] by (intro queue_invI) (auto simp: distinct_map inj_on_def)

lemma lease_in_filter:
  assumes "distinct (map j_id rows)" and "\<And>j. j \<in> set rows \<Longrightarrow> \<not> Q j \<Longrightarrow> lease_row j = None"
  shows "lease_in (filter Q rows) = lease_in rows"
proof
  fix jid
  show "lease_in (filter Q rows) jid = lease_in rows jid"
    using assms
  proof (induction rows)
    case (Cons j rows)
    have "lease_in (filter Q rows) jid = None" if "j_id j = jid"
    proof -
      have "jid \<notin> j_id ` set (filter Q rows)" using Cons.prems(1) that by auto
      then have "row_of j_id jid (filter Q rows) = None" by (auto simp: row_of_None)
      then show ?thesis by (simp add: lease_in_def)
    qed
    then show ?case using Cons by (auto simp: lease_in_def)
  qed (simp add: lease_in_def)
qed

section \<open>What other tables' helpers leave alone\<close>

lemma lockCapacity_jobs: "lockCapacity st account now = Inr (st', c) \<Longrightarrow> jobs st' = jobs st"
  by (auto simp: lockCapacity_def with_capacity_row_def Let_def split: if_splits option.splits)

lemma adjustCapacity_jobs: "adjustCapacity st account committed reserved now = Inr (st', u) \<Longrightarrow> jobs st' = jobs st"
  by (auto simp: adjustCapacity_def rbind_Inr_iff lockCapacity_jobs split: if_splits)

lemma adjust_each_jobs: "adjust_each st owners now = Inr (st', u) \<Longrightarrow> jobs st' = jobs st"
  by (induction st owners now rule: adjust_each.induct) (auto simp: rbind_Inr_iff adjustCapacity_jobs)

lemma releaseReservations_jobs: "releaseReservations st ids now = Inr (st', u) \<Longrightarrow> jobs st' = jobs st"
  by (auto simp: releaseReservations_def Let_def dest!: adjust_each_jobs split: if_splits)

lemma failProcessingItems_jobs: "failProcessingItems st ids now = Inr (st', u) \<Longrightarrow> jobs st' = jobs st"
  by (auto simp: failProcessingItems_def Let_def rbind_Inr_iff dest!: releaseReservations_jobs split: if_splits)

section \<open>Under a lease\<close>

lemma holds_lease_row:
  assumes inv: "queue_inv digest rows" and x: "x \<in> set rows" "holds_lease jid owner x"
  shows "row_of j_id jid rows = Some x" and "\<exists>t. lease_row x = Some (owner, t)" and "row_ok x" and "j_state x = Running"
  using row_found[OF queue_invD(1)[OF inv] x(1)] queue_invD(2)[OF inv x(1)] x(2)
  by (auto simp: holds_lease_def lease_row_def row_ok_def)

lemma lease_held_by_row:
  assumes inv: "queue_inv digest rows" and l: "lease_in rows jid = Some (owner, t)"
  shows "\<exists>x \<in> set rows. holds_lease jid owner x"
  using l row_of_in[of j_id jid rows]
  by (auto simp: lease_in_def lease_row_def holds_lease_def bind_eq_Some_conv split: if_splits option.splits)

text \<open>An update of the row a lease holds.\<close>

lemma with_lease_spec:
  assumes inv: "queue_inv digest (jobs st)" and s: "with_lease st jid owner f = Inr (st', held)"
    and ids: "\<And>x. j_id (f x) = j_id x"
  shows "held \<longleftrightarrow> (\<exists>t. lease_in (jobs st) jid = Some (owner, t))"
    and "held \<Longrightarrow> \<exists>x. row_of j_id jid (jobs st) = Some x \<and> lease_in (jobs st') = (lease_in (jobs st))(jid := lease_row (f x))"
    and "\<not> held \<Longrightarrow> jobs st' = jobs st"
proof -
  have st': "jobs st' = update_rows (holds_lease jid owner) f (jobs st)"
    and held: "held \<longleftrightarrow> count_rows (holds_lease jid owner) (jobs st) = 1"
    using s by (auto simp: with_lease_def)
  have one: "length (filter (holds_lease jid owner) rows) = 1" if "distinct (map j_id rows)" "x \<in> set rows" "holds_lease jid owner x"
    for rows x
    using that
  proof (induction rows)
    case (Cons j rows)
    have "filter (holds_lease jid owner) rows = []" if "holds_lease jid owner j"
      using that Cons.prems(1) by (auto simp: filter_empty_conv holds_lease_def image_iff)
    then show ?case using Cons by auto
  qed simp
  have ex: "held \<longleftrightarrow> (\<exists>x \<in> set (jobs st). holds_lease jid owner x)"
  proof
    assume held
    then have "filter (holds_lease jid owner) (jobs st) \<noteq> []" using held by (auto simp: count_rows_def)
    then show "\<exists>x \<in> set (jobs st). holds_lease jid owner x" by (auto simp: filter_empty_conv)
  qed (use one[OF queue_invD(1)[OF inv]] held in \<open>auto simp: count_rows_def\<close>)
  show "held \<longleftrightarrow> (\<exists>t. lease_in (jobs st) jid = Some (owner, t))"
    using ex holds_lease_row[OF inv] lease_held_by_row[OF inv] by (fastforce simp: lease_in_def)
  show "\<not> held \<Longrightarrow> jobs st' = jobs st" using ex st' by (simp add: update_rows_def map_idI)
  assume held
  then obtain x where x: "x \<in> set (jobs st)" "holds_lease jid owner x" using ex by blast
  note row = holds_lease_row(1)[OF inv x]
  have "lease_in (jobs st') k = ((lease_in (jobs st))(jid := lease_row (f x))) k" for k
  proof (cases "k = jid")
    case True
    then show ?thesis using row x(2) by (simp add: st' lease_in_update[OF ids])
  next
    case False
    then have "\<not> holds_lease jid owner y" if "row_of j_id k (jobs st) = Some y" for y
      using row_of_in[OF that] by (auto simp: holds_lease_def)
    then show ?thesis using False unfolding st' lease_in_update[OF ids] by (cases "row_of j_id k (jobs st)") (auto simp: lease_in_def)
  qed
  then show "\<exists>x. row_of j_id jid (jobs st) = Some x \<and> lease_in (jobs st') = (lease_in (jobs st))(jid := lease_row (f x))"
    using row by blast
qed

lemma with_lease_keeps:
  assumes inv: "queue_inv digest (jobs st)" and s: "with_lease st jid owner f = Inr (st', held)"
    and same: "\<And>x. j_id (f x) = j_id x" "\<And>x. active_key digest (f x) = active_key digest x"
    and ok: "\<And>x. j_state x = Running \<Longrightarrow> row_ok x \<Longrightarrow> row_ok (f x)"
  shows "queue_inv digest (jobs st')"
proof -
  have "jobs st' = update_rows (holds_lease jid owner) f (jobs st)" using s by (auto simp: with_lease_def)
  then show ?thesis
    using update_keeps[OF inv same, of "holds_lease jid owner"] ok by (simp add: holds_lease_def active_job_def)
qed

end
