(* ===== verification/JobLaws.thy ===== *)
theory JobLaws
  imports JobQueueFacts
begin

text \<open>Every operation of the queue keeps the invariant of its table, and moves leases as its contract says.\<close>

section \<open>Renewal, completion, release\<close>

lemma renew_keeps:
  assumes inv: "queue_inv digest (jobs st)" and s: "renewJobLease st jid owner ms now = Inr (st', held)"
  shows "queue_inv digest (jobs st')"
    and "held \<Longrightarrow> (\<exists>t. lease_in (jobs st) jid = Some (owner, t))
               \<and> lease_in (jobs st') = (lease_in (jobs st))(jid \<mapsto> (owner, now + ms))"
    and "\<not> held \<Longrightarrow> jobs st' = jobs st"
proof -
  let ?f = "\<lambda>j. j\<lparr>j_expires := Some (now + ms), j_updated_at := now\<rparr>"
  have w: "with_lease st jid owner ?f = Inr (st', held)" using s by (auto simp: renewJobLease_def split: if_splits)
  show "queue_inv digest (jobs st')" by (rule with_lease_keeps[OF inv w]) (auto simp: active_key_def row_ok_def)
  note spec = with_lease_spec[OF inv w]
  show "\<not> held \<Longrightarrow> jobs st' = jobs st" using spec(3) by simp
  assume held
  then obtain x t where x: "row_of j_id jid (jobs st) = Some x" "lease_in (jobs st') = (lease_in (jobs st))(jid := lease_row (?f x))"
      "lease_in (jobs st) jid = Some (owner, t)"
    using spec(1,2) by auto
  then have "lease_row (?f x) = Some (owner, now + ms)"
    by (auto simp: lease_in_def lease_row_def split: if_splits option.splits)
  then show "(\<exists>t. lease_in (jobs st) jid = Some (owner, t)) \<and> lease_in (jobs st') = (lease_in (jobs st))(jid \<mapsto> (owner, now + ms))"
    using x by simp
qed

text \<open>An update under a lease that ends it.\<close>

lemma ending_update:
  assumes inv: "queue_inv digest (jobs st)" and w: "with_lease st jid owner f = Inr (st', held)"
    and ids: "\<And>x. j_id (f x) = j_id x" and ends: "\<And>x. lease_row (f x) = None"
  shows "lease_in (jobs st') = lease_in (jobs st)
      \<or> (\<exists>t. lease_in (jobs st) jid = Some (owner, t)) \<and> lease_in (jobs st') = (lease_in (jobs st))(jid := None)"
  using with_lease_spec[OF inv w ids] ends by (cases held) auto

lemma complete_keeps:
  assumes inv: "queue_inv digest (jobs st)" and s: "completeJob st jid owner now = Inr (st', held)"
  shows "queue_inv digest (jobs st')"
    and "lease_in (jobs st') = lease_in (jobs st)
      \<or> (\<exists>t. lease_in (jobs st) jid = Some (owner, t)) \<and> lease_in (jobs st') = (lease_in (jobs st))(jid := None)"
proof -
  show "queue_inv digest (jobs st')"
    by (rule with_lease_keeps[OF inv s[unfolded completeJob_def]]) (auto simp: active_key_def row_ok_def)
  show "lease_in (jobs st') = lease_in (jobs st)
      \<or> (\<exists>t. lease_in (jobs st) jid = Some (owner, t)) \<and> lease_in (jobs st') = (lease_in (jobs st))(jid := None)"
    by (rule ending_update[OF inv s[unfolded completeJob_def]]) (simp_all add: lease_row_def)
qed

lemma release_keeps:
  assumes inv: "queue_inv digest (jobs st)" and s: "releaseJob st jid owner now = Inr (st', held)"
  shows "queue_inv digest (jobs st')"
    and "lease_in (jobs st') = lease_in (jobs st)
      \<or> (\<exists>t. lease_in (jobs st) jid = Some (owner, t)) \<and> lease_in (jobs st') = (lease_in (jobs st))(jid := None)"
proof -
  show "queue_inv digest (jobs st')"
    by (rule with_lease_keeps[OF inv s[unfolded releaseJob_def]]) (auto simp: active_key_def row_ok_def)
  show "lease_in (jobs st') = lease_in (jobs st)
      \<or> (\<exists>t. lease_in (jobs st) jid = Some (owner, t)) \<and> lease_in (jobs st') = (lease_in (jobs st))(jid := None)"
    by (rule ending_update[OF inv s[unfolded releaseJob_def]]) (simp_all add: lease_row_def)
qed

section \<open>Failure\<close>

lemma update_one_lease:
  assumes row: "row_of j_id jid rows = Some x" and ids: "\<And>y. j_id (f y) = j_id y"
  shows "lease_in (update_rows (\<lambda>k. j_id k = jid) f rows) = (lease_in rows)(jid := lease_row (f x))"
proof
  fix k
  show "lease_in (update_rows (\<lambda>k. j_id k = jid) f rows) k = ((lease_in rows)(jid := lease_row (f x))) k"
  proof (cases "row_of j_id k rows")
    case None
    then show ?thesis using row unfolding lease_in_update[of f "\<lambda>k. j_id k = jid", OF ids] by (auto simp: lease_in_def)
  next
    case (Some y)
    then have "j_id y = k" using row_of_in by metis
    then show ?thesis using row Some unfolding lease_in_update[of f "\<lambda>k. j_id k = jid", OF ids] by (auto simp: lease_in_def)
  qed
qed

lemma row_shape_simps [simp]:
  "j_id (retry_row code at now j) = j_id j" "active_key digest (retry_row code at now j) = active_key digest j"
  "lease_row (retry_row code at now j) = None"
  "j_id (failed_row code now j) = j_id j" "active_key digest (failed_row code now j) = active_key digest j"
  "lease_row (failed_row code now j) = None" "\<not> active_job (failed_row code now j)"
  "j_id (expire_row now j) = j_id j" "active_key digest (expire_row now j) = active_key digest j"
  "lease_row (expire_row now j) = None"
  "j_id (start_job opts now j) = j_id j" "active_key digest (start_job opts now j) = active_key digest j"
  "lease_row (start_job opts now j) = Some (o_owner opts, now + o_lease_ms opts)"
  by (simp_all add: retry_row_def failed_row_def expire_row_def start_job_def Let_def active_key_def lease_row_def active_job_def)

lemma fail_keeps:
  assumes inv: "queue_inv digest (jobs st)" and s: "failJob st jid owner code retryable now = Inr (st', outcome)"
  shows "queue_inv digest (jobs st')"
    and "lease_in (jobs st') = lease_in (jobs st)
      \<or> (\<exists>t. lease_in (jobs st) jid = Some (owner, t)) \<and> lease_in (jobs st') = (lease_in (jobs st))(jid := None)"
proof -
  have "queue_inv digest (jobs st') \<and> (lease_in (jobs st') = lease_in (jobs st)
      \<or> (\<exists>t. lease_in (jobs st) jid = Some (owner, t)) \<and> lease_in (jobs st') = (lease_in (jobs st))(jid := None))"
  proof (cases "find (holds_lease jid owner) (jobs st)")
    case None
    then show ?thesis using s inv by (auto simp: failJob_def split: if_splits)
  next
    case (Some j)
    then have j: "j \<in> set (jobs st)" "holds_lease jid owner j" by (auto simp: find_Some_iff)
    note row = holds_lease_row[OF inv j]
    have lease: "\<exists>t. lease_in (jobs st) jid = Some (owner, t)" using row by (auto simp: lease_in_def)
    have same: "x = j" if "x \<in> set (jobs st)" "j_id x = jid" for x
      using row_found[OF queue_invD(1)[OF inv] that(1)] row(1) that(2) by simp
    have *: "queue_inv digest (update_rows (\<lambda>k. j_id k = jid) f (jobs st))
        \<and> lease_in (update_rows (\<lambda>k. j_id k = jid) f (jobs st)) = (lease_in (jobs st))(jid := None)"
      if f: "\<And>x. j_id (f x) = j_id x" "\<And>x. active_key digest (f x) = active_key digest x" "lease_row (f j) = None" "row_ok (f j)" for f
    proof
      show "queue_inv digest (update_rows (\<lambda>k. j_id k = jid) f (jobs st))"
        by (rule update_keeps[OF inv f(1,2)]) (use same f(4) row(4) in \<open>auto simp: active_job_def\<close>)
      show "lease_in (update_rows (\<lambda>k. j_id k = jid) f (jobs st)) = (lease_in (jobs st))(jid := None)"
        using update_one_lease[OF row(1) f(1)] f(3) by simp
    qed
    show ?thesis
    proof (cases "retryable \<and> j_attempts j < j_max_attempts j")
      case True
      have "row_ok (retry_row code (now + jobBackoffMs (j_attempts j)) now j)"
        using row(3,4) True by (simp add: row_ok_def retry_row_def)
      then show ?thesis
        using s Some lease True *[of "retry_row code (now + jobBackoffMs (j_attempts j)) now"]
        by (auto simp: failJob_def split: if_splits)
    next
      case False
      have "row_ok (failed_row code now j)" using row(3) by (simp add: row_ok_def failed_row_def)
      then show ?thesis
        using s Some lease False *[of "failed_row code now"]
        by (auto simp: failJob_def Let_def rbind_Inr_iff split: if_splits dest!: failProcessingItems_jobs)
    qed
  qed
  then show "queue_inv digest (jobs st')" "lease_in (jobs st') = lease_in (jobs st)
      \<or> (\<exists>t. lease_in (jobs st) jid = Some (owner, t)) \<and> lease_in (jobs st') = (lease_in (jobs st))(jid := None)"
    by auto
qed

section \<open>Claims\<close>

lemma next_jobs_claimable:
  assumes "jid \<in> set (next_jobs skip opts now rows)"
  shows "\<exists>j \<in> set rows. j_id j = jid \<and> claimable skip opts now j"
  using assms set_take_subset by (fastforce simp: next_jobs_def)

lemma distinct_map_sort_key: "distinct (map g (sort_key f xs)) = distinct (map g xs)"
  by (metis mset_map mset_sort mset_eq_imp_distinct_iff)

lemma claim_spec:
  assumes inv: "queue_inv digest (jobs st)" and s: "claimJobs skip st opts now = Inr (st', qs)"
  shows "queue_inv digest (jobs st')" and "distinct (map q_id qs)"
    and "\<forall>q \<in> set qs. lease_in (jobs st) (q_id q) = None
            \<and> lease_in (jobs st') (q_id q) = Some (o_owner opts, now + o_lease_ms opts)
            \<and> q_owner q = o_owner opts \<and> q_expires q = now + o_lease_ms opts"
    and "\<forall>jid. jid \<notin> q_id ` set qs \<longrightarrow> lease_in (jobs st') jid = lease_in (jobs st) jid"
proof -
  define ids where "ids = (if o_kinds opts = Some [] then [] else next_jobs skip opts now (jobs st))"
  define rows where "rows = update_rows (\<lambda>j. j_id j \<in> set ids) (start_job opts now) (jobs st)"
  have st': "jobs st' = rows"
    and qs: "qs = map claimOf (sort_key (\<lambda>j. (j_run_after j, j_id j)) (filter (\<lambda>j. j_id j \<in> set ids) rows))"
    using s by (auto simp: claimJobs_def Let_def ids_def rows_def update_rows_def sort_key_def split: if_splits)
  note I = queue_invD[OF inv]
  have queued: "j_state x = Queued" if "x \<in> set (jobs st)" "j_id x \<in> set ids" for x
    using next_jobs_claimable that distinct_map_eq[OF I(1) that(1)]
    by (fastforce simp: ids_def claimable_def split: if_splits)
  show kept: "queue_inv digest (jobs st')"
    unfolding st' rows_def
    by (rule update_keeps[OF inv]) (auto simp: queued active_job_def row_ok_def start_job_def active_key_def)
  have "distinct (map j_id (filter (\<lambda>j. j_id j \<in> set ids) rows))"
    using queue_invD(1)[OF kept] by (simp add: st' distinct_map inj_on_def)
  moreover have "map q_id qs = map j_id (sort_key (\<lambda>j. (j_run_after j, j_id j)) (filter (\<lambda>j. j_id j \<in> set ids) rows))"
    by (simp add: qs claimOf_def)
  ultimately show "distinct (map q_id qs)" by (simp only: distinct_map_sort_key)
  have taken: "\<exists>x \<in> set (jobs st). j_id x \<in> set ids \<and> q = claimOf (start_job opts now x)" if "q \<in> set qs" for q
    using that by (auto simp: qs rows_def set_update_rows)
  have all: "q_id ` set qs = set ids \<inter> j_id ` set (jobs st)"
    by (force simp: qs rows_def set_update_rows claimOf_def image_iff)
  show "\<forall>q \<in> set qs. lease_in (jobs st) (q_id q) = None
            \<and> lease_in (jobs st') (q_id q) = Some (o_owner opts, now + o_lease_ms opts)
            \<and> q_owner q = o_owner opts \<and> q_expires q = now + o_lease_ms opts"
  proof
    fix q assume "q \<in> set qs"
    then obtain x where x: "x \<in> set (jobs st)" "j_id x \<in> set ids" "q = claimOf (start_job opts now x)" using taken by blast
    have row: "row_of j_id (q_id q) (jobs st) = Some x" using row_found[OF I(1) x(1)] x(3) by (simp add: claimOf_def)
    then have "lease_in (jobs st) (q_id q) = None" using queued[OF x(1,2)] by (simp add: lease_in_def lease_row_def)
    moreover have "lease_in (jobs st') (q_id q) = Some (o_owner opts, now + o_lease_ms opts)"
      using row x(2) by (simp add: st' rows_def lease_in_update)
    ultimately show "lease_in (jobs st) (q_id q) = None
            \<and> lease_in (jobs st') (q_id q) = Some (o_owner opts, now + o_lease_ms opts)
            \<and> q_owner q = o_owner opts \<and> q_expires q = now + o_lease_ms opts"
      using x(3) by (simp add: claimOf_def start_job_def)
  qed
  show "\<forall>jid. jid \<notin> q_id ` set qs \<longrightarrow> lease_in (jobs st') jid = lease_in (jobs st) jid"
  proof (intro allI impI)
    fix jid assume "jid \<notin> q_id ` set qs"
    then have "jid \<notin> set ids" if "row_of j_id jid (jobs st) = Some x" for x
      using all row_of_in[OF that] by blast
    moreover have "lease_in (jobs st') jid = Option.bind (row_of j_id jid (jobs st)) (\<lambda>x. lease_row (if j_id x \<in> set ids then start_job opts now x else x))"
      by (simp add: st' rows_def lease_in_update)
    ultimately show "lease_in (jobs st') jid = lease_in (jobs st) jid"
      by (cases "row_of j_id jid (jobs st)") (auto simp: lease_in_def dest: row_of_in)
  qed
qed

section \<open>Expired leases\<close>

lemma requeue_keeps:
  assumes inv: "queue_inv digest (jobs st)" and s: "requeueExpiredJobs skip st now limit = Inr (st', n)"
  shows "queue_inv digest (jobs st')"
    and "lease_in (jobs st') jid = lease_in (jobs st) jid
      \<or> (lease_in (jobs st') jid = None \<and> (\<exists>owner t. lease_in (jobs st) jid = Some (owner, t) \<and> t < now))"
proof -
  define expired where "expired = expired_jobs skip st now limit"
  have st': "jobs st' = update_rows (\<lambda>j. j_id j \<in> set expired) (expire_row now) (jobs st)"
    using s by (auto simp: requeueExpiredJobs_def Let_def rbind_Inr_iff expired_def split: if_splits dest!: failProcessingItems_jobs)
  have due: "\<exists>j \<in> set (jobs st). j_id j = k \<and> lease_expired now j" if "k \<in> set expired" for k
    using that by (auto simp: expired_def expired_jobs_def takes_expired_def dest!: in_set_takeD)
  note I = queue_invD[OF inv]
  have expired: "lease_expired now x" if "x \<in> set (jobs st)" "j_id x \<in> set expired" for x
    using due[OF that(2)] distinct_map_eq[OF I(1) that(1)] by metis
  show "queue_inv digest (jobs st')"
    unfolding st'
    by (rule update_keeps[OF inv]) (auto simp: active_job_def row_ok_def expire_row_def active_key_def Let_def dest!: expired simp: lease_expired_def)
  have l: "lease_in (jobs st') jid = Option.bind (row_of j_id jid (jobs st)) (\<lambda>x. lease_row (if j_id x \<in> set expired then expire_row now x else x))"
    by (simp add: st' lease_in_update)
  show "lease_in (jobs st') jid = lease_in (jobs st) jid
      \<or> (lease_in (jobs st') jid = None \<and> (\<exists>owner t. lease_in (jobs st) jid = Some (owner, t) \<and> t < now))"
  proof (cases "row_of j_id jid (jobs st)")
    case None
    then show ?thesis by (simp add: l) (simp add: lease_in_def)
  next
    case (Some x)
    then have x: "x \<in> set (jobs st)" "j_id x = jid" using row_of_in[OF Some] by auto
    show ?thesis
    proof (cases "jid \<in> set expired")
      case True
      then have "lease_expired now x" using expired[OF x(1)] x(2) by simp
      moreover have "j_owner x \<noteq> None" using calculation I(2)[OF x(1)] by (auto simp: row_ok_def lease_expired_def)
      ultimately have "\<exists>owner t. lease_in (jobs st) jid = Some (owner, t) \<and> t < now"
        using Some by (auto simp: lease_in_def lease_row_def lease_expired_def split: option.splits)
      moreover have "lease_in (jobs st') jid = None" using l Some x True by simp
      ultimately show ?thesis by blast
    next
      case False
      then show ?thesis using Some x l by (simp add: lease_in_def)
    qed
  qed
qed

section \<open>New jobs\<close>

lemma new_job_simps [simp]:
  "j_id (new_job jid job now) = jid" "lease_row (new_job jid job now) = None" "active_job (new_job jid job now)"
  "active_key digest (new_job jid job now) = (e_kind job, e_subject job, digest (payload_text (e_payload job)))"
  by (simp_all add: new_job_def lease_row_def active_job_def active_key_def)

text \<open>Alone, the first round of an insertion decides.\<close>

lemma insert_alone_cases:
  assumes "insert_alone digest draw st job now = Inr (st', jid, created)"
  obtains (reused) j where "\<not> created" and "st' = st" and "j \<in> set (jobs st)" and "j_id j = jid" and "active_job j"
      and "active_key digest j = (e_kind job, e_subject job, digest (payload_text (e_payload job)))"
  | (created) created and "jobs st' = jobs st @ [new_job jid job now]" and "jid \<notin> j_id ` set (jobs st)"
      and "\<And>j. j \<in> set (jobs st) \<Longrightarrow> active_job j
             \<Longrightarrow> active_key digest j \<noteq> (e_kind job, e_subject job, digest (payload_text (e_payload job)))"
      and "\<And>m. e_max_attempts job = Some m \<Longrightarrow> 1 \<le> m \<and> m \<le> 1000"
      and "job_subject_ok (e_subject job)"
  using assms
proof (cases "\<exists>j \<in> set (jobs st). same_work digest (e_kind job) (e_subject job) (e_payload job) j \<and> active_job j")
  case True
  then obtain j where j: "find (\<lambda>j. same_work digest (e_kind job) (e_subject job) (e_payload job) j \<and> active_job j) (jobs st) = Some j"
    by (metis (no_types, lifting) find_None_iff not_None_eq)
  then have "j \<in> set (jobs st)" "same_work digest (e_kind job) (e_subject job) (e_payload job) j" "active_job j"
    by (auto simp: find_Some_iff)
  then show thesis
    using assms True j by (intro reused) (auto simp: insertJob_def numeral_3_eq_3 Let_def same_work_key split: if_splits)
next
  case False
  then show thesis
    using assms by (intro created) (auto simp: insertJob_def numeral_3_eq_3 Let_def same_work_key split: if_splits option.splits)
qed

lemma enqueue_keeps:
  assumes inv: "queue_inv digest (jobs st)" and s: "enqueueJob digest draw st job now = Inr (st', a)"
  shows "queue_inv digest (jobs st')" and "lease_in (jobs st') = lease_in (jobs st)"
proof -
  obtain jid created where a: "a = (jid, created)" by (cases a)
  have "queue_inv digest (jobs st') \<and> lease_in (jobs st') = lease_in (jobs st)"
    using s unfolding enqueueJob_def a
  proof (cases rule: insert_alone_cases)
    case created
    have "row_ok (new_job jid job now)"
      using created(5) by (auto simp: row_ok_def new_job_def default_max_attempts_def split: option.splits)
    then show ?thesis
      using append_keeps[OF inv, of "new_job jid job now"] lease_in_append[of "new_job jid job now"] created(2-4) by simp
  qed (use inv in simp)
  then show "queue_inv digest (jobs st')" "lease_in (jobs st') = lease_in (jobs st)" by simp_all
qed

section \<open>Cleanup\<close>

lemma scheduleKind_keeps:
  "queue_inv digest (jobs st) \<Longrightarrow> scheduleKind digest draw kind subjects now st = Inr (st', n)
   \<Longrightarrow> queue_inv digest (jobs st') \<and> lease_in (jobs st') = lease_in (jobs st)"
proof (induction digest draw kind subjects now st arbitrary: n rule: scheduleKind.induct)
  case (2 digest draw kind s ss now st)
  show ?case
  proof (cases "\<exists>j \<in> set (jobs st). same_work digest kind s None j \<and> active_job j")
    case True
    then show ?thesis using 2 by simp
  next
    case False
    let ?n = "new_job (draw 0) (plain_job kind s) now"
    have new: "job_subject_ok s" "draw 0 \<notin> j_id ` set (jobs st)" using 2(4) False by (auto split: if_splits)
    have "row_ok ?n" by (simp add: row_ok_def new_job_def default_max_attempts_def)
    then have "queue_inv digest (jobs st @ [?n])"
      using append_keeps[OF 2(3), of ?n] new(2) False by (auto simp: same_work_key)
    moreover have "lease_in (jobs st @ [?n]) = lease_in (jobs st)" using lease_in_append[of ?n] new(2) by simp
    ultimately show ?thesis using 2(2)[OF False] 2(4) False new by (auto simp: rbind_Inr_iff split: if_splits)
  qed
qed simp

lemma schedule_due_keeps:
  assumes inv: "queue_inv digest (jobs st0)" and s: "schedule_due digest skip draw st0 now limit = Inr (st', counts)"
  shows "queue_inv digest (jobs st')" and "lease_in (jobs st') = lease_in (jobs st0)"
proof -
  obtain st1 st2 st3 st4 n1 n2 n3 n4 i1 i2 i3 i4 s1 s2 s3 s4 where
      steps: "scheduleKind digest i1 Expire_session s1 now st0 = Inr (st1, n1)"
        "scheduleKind digest i2 Purge_trashed_work s2 now st1 = Inr (st2, n2)"
        "scheduleKind digest i3 Purge_item s3 now st2 = Inr (st3, n3)"
        "scheduleKind digest i4 Purge_blob s4 now st3 = Inr (st4, n4)"
      and st': "jobs st' = filter (\<lambda>j. j_id j \<notin> set (doomed skip now limit (jobs st4))) (jobs st4)"
    using s unfolding schedule_due_def Let_def by (auto simp: rbind_Inr_iff)
  have k: "queue_inv digest (jobs st4)" "lease_in (jobs st4) = lease_in (jobs st0)"
    using scheduleKind_keeps[OF _ steps(1)] scheduleKind_keeps[OF _ steps(2)] scheduleKind_keeps[OF _ steps(3)]
      scheduleKind_keeps[OF _ steps(4)] inv by simp_all
  have gone: "lease_row j = None" if j: "j \<in> set (jobs st4)" "j_id j \<in> set (doomed skip now limit (jobs st4))" for j
  proof -
    obtain x where "x \<in> set (jobs st4)" "j_id x = j_id j" "j_state x = Succeeded"
      using j(2) by (auto simp: doomed_def earliest_def dest!: in_set_takeD)
    then have "j = x" using distinct_map_eq[OF queue_invD(1)[OF k(1)] j(1)] by metis
    then show ?thesis using \<open>j_state x = Succeeded\<close> by (simp add: lease_row_def)
  qed
  show "queue_inv digest (jobs st')" using filter_keeps[OF k(1)] by (simp add: st')
  show "lease_in (jobs st') = lease_in (jobs st0)"
    unfolding st' k(2)[symmetric] by (rule lease_in_filter[OF queue_invD(1)[OF k(1)]]) (use gone in simp)
qed

lemma releaseUnusedDerivatives_jobs [simp]: "jobs (releaseUnusedDerivatives needed skip st now limit) = jobs st"
  by (simp add: releaseUnusedDerivatives_def Let_def)

text \<open>Both transactions, whether the second one fails or not.\<close>

lemma cleanup_keeps:
  assumes inv: "queue_inv digest (jobs st)"
    and s: "scheduleCleanup digest needed between skip draw st now limit = (st', counts)"
    and others: "\<And>u. jobs (between u) = jobs u"
  shows "queue_inv digest (jobs st')" and "lease_in (jobs st') = lease_in (jobs st)"
  using s inv schedule_due_keeps[of digest "between (releaseUnusedDerivatives needed skip st now limit)" skip draw now limit st']
  by (auto simp: scheduleCleanup_def Let_def others split: if_splits sum.splits prod.splits)

section \<open>Operator commands\<close>

lemma update_one:
  assumes "distinct (map j_id rows)" and "row_of j_id jid rows = Some j"
  shows "update_rows (\<lambda>k. j_id k = jid) (\<lambda>_. f j) rows = update_rows (\<lambda>k. j_id k = jid) f rows"
  unfolding update_rows_def
  using row_found[OF assms(1)] assms(2) by (intro map_cong) auto

lemma retryJob_keeps:
  assumes inv: "queue_inv digest (jobs st)" and s: "retryJob digest st jid now = Inr (st', j')"
  shows "queue_inv digest (jobs st')" and "lease_in (jobs st') = lease_in (jobs st)"
proof -
  let ?f = "\<lambda>j. j\<lparr>j_state := Queued, j_attempts := 0, j_run_after := now, j_owner := None,
                 j_expires := None, j_error := None, j_finished_at := None, j_updated_at := now\<rparr>"
  obtain j where j: "row_of j_id jid (jobs st) = Some j" and over: "\<not> active_job j"
      and none: "\<not> (\<exists>k \<in> set (jobs st). j_id k \<noteq> jid \<and> same_work digest (j_kind j) (j_subject j) (j_payload j) k \<and> active_job k)"
      and st': "jobs st' = update_rows (\<lambda>k. j_id k = jid) (\<lambda>_. ?f j) (jobs st)"
    using s by (auto simp: retryJob_def Let_def active_job_def split: option.splits if_splits)
  have free: "active_key digest k \<noteq> active_key digest j" if "k \<in> set (jobs st)" "j_id k \<noteq> jid" "active_job k" for k
    using none that by (auto simp: same_work_key active_key_def[of digest j])
  note I = queue_invD[OF inv]
  have jr: "j \<in> set (jobs st)" "j_id j = jid" using row_of_in[OF j] by auto
  have rows: "jobs st' = update_rows (\<lambda>k. j_id k = jid) ?f (jobs st)" using st' update_one[OF I(1) j, of ?f] by simp
  have same: "k = j" if "k \<in> set (jobs st)" "j_id k = jid" for k using distinct_map_eq[OF I(1) that(1) jr(1)] that(2) jr(2) by simp
  have key: "active_key digest (?f k) = active_key digest k" for k by (simp add: active_key_def)
  show "lease_in (jobs st') = lease_in (jobs st)"
    using update_one_lease[OF j, of ?f] over j by (auto simp: rows fun_eq_iff lease_in_def lease_row_def active_job_def)
  show "queue_inv digest (jobs st')"
  proof (rule queue_invI)
    show "distinct (map j_id (jobs st'))" using I(1) by (simp add: rows map_update_rows)
    show "row_ok k" if "k \<in> set (jobs st')" for k
    proof -
      have ok: "row_ok x \<Longrightarrow> row_ok (?f x)" for x by (simp add: row_ok_def)
      show ?thesis using that I(2) ok unfolding rows set_update_rows by (metis (no_types, lifting))
    qed
    fix a b assume a: "a \<in> set (jobs st')" "b \<in> set (jobs st')" "active_job a" "active_job b"
      "active_key digest a = active_key digest b"
    from a(1,2) obtain x y where x: "x \<in> set (jobs st)" "a = (if j_id x = jid then ?f x else x)"
        and y: "y \<in> set (jobs st)" "b = (if j_id y = jid then ?f y else y)"
      by (auto simp: rows set_update_rows)
    have keys: "active_key digest x = active_key digest y" using a(5) x(2) y(2) key by (auto split: if_splits)
    show "j_id a = j_id b"
    proof (cases "j_id x = jid"; cases "j_id y = jid")
      assume "j_id x \<noteq> jid" "j_id y \<noteq> jid"
      then show ?thesis using x y a(3,4) I(3)[OF x(1) y(1) _ _ keys] by simp
    next
      assume "j_id x = jid" "j_id y \<noteq> jid"
      then have "x = j" "active_job y" using same[OF x(1)] y(2) a(4) by simp_all
      then show ?thesis using free[OF y(1)] \<open>j_id y \<noteq> jid\<close> keys by simp
    next
      assume "j_id x \<noteq> jid" "j_id y = jid"
      then have "y = j" "active_job x" using same[OF y(1)] x(2) a(3) by simp_all
      then show ?thesis using free[OF x(1)] \<open>j_id x \<noteq> jid\<close> keys by simp
    next
      assume both: "j_id x = jid" "j_id y = jid"
      then have "j_id a = jid" "j_id b = jid" unfolding x(2) y(2) by simp_all
      then show ?thesis by simp
    qed
  qed
qed

lemma abandonJob_keeps:
  assumes inv: "queue_inv digest (jobs st)" and s: "abandonJob st jid now = Inr (st', j')"
  shows "queue_inv digest (jobs st')" and "lease_in (jobs st') = lease_in (jobs st)"
proof -
  let ?f = "\<lambda>j. j\<lparr>j_state := Abandoned, j_owner := None, j_expires := None, j_finished_at := Some now, j_updated_at := now\<rparr>"
  obtain j where j: "row_of j_id jid (jobs st) = Some j" and state: "j_state j = Queued \<or> j_state j = Failed"
      and st': "jobs st' = update_rows (\<lambda>k. j_id k = jid) (\<lambda>_. ?f j) (jobs st)"
    using s by (auto simp: abandonJob_def Let_def rbind_Inr_iff split: option.splits if_splits dest!: failProcessingItems_jobs)
  have rows: "jobs st' = update_rows (\<lambda>k. j_id k = jid) ?f (jobs st)"
    using st' update_one[OF queue_invD(1)[OF inv] j, of ?f] by simp
  show "lease_in (jobs st') = lease_in (jobs st)"
    using update_one_lease[OF j, of ?f] state j by (auto simp: rows fun_eq_iff lease_in_def lease_row_def)
  show "queue_inv digest (jobs st')"
    unfolding rows by (rule update_keeps[OF inv]) (auto simp: active_key_def active_job_def row_ok_def)
qed

end
