(* ===== verification/WorkerGuarantees.thy ===== *)
theory WorkerGuarantees
  imports WorkerFacts
begin

text \<open>
  What a worker guarantees on its own, whatever the queue answers and whenever timers fire: bounded concurrency, a deadline
  timer on every run that works, and at most one call that settles a run.
\<close>

section \<open>Steps with their calls\<close>

inductive worker_run :: "worker_config \<Rightarrow> worker \<Rightarrow> port_call list \<Rightarrow> bool" for cfg where
  Fresh: "worker_run cfg worker0 []"
| Steps: "worker_run cfg w calls \<Longrightarrow> can_happen e w \<Longrightarrow> worker_step cfg onf now e w = (w', new)
     \<Longrightarrow> worker_run cfg w' (calls @ new)"

inductive_cases worker_runE: "worker_run cfg w calls"

lemma worker_run_inv:
  assumes "worker_run cfg w calls" and "0 \<le> wc_concurrency cfg"
  shows "worker_inv cfg w"
  using assms
proof induction
  case (Steps w calls e onf now w' new)
  then show ?case using inv_step[of cfg w e onf now] by simp
qed (simp add: worker_inv0)

section \<open>Deadlines\<close>

definition armed :: "worker_config \<Rightarrow> active_run \<Rightarrow> bool" where
  "armed cfg x \<longleftrightarrow> (\<not> gone x \<longrightarrow> run_deadline x = Some (run_until x - wc_safety cfg))"

definition life :: "worker_config \<Rightarrow> worker \<Rightarrow> bool" where
  "life cfg w \<longleftrightarrow>
     (\<forall>r < runs_of w. armed cfg (wk_heap w ! r))
     \<and> (\<forall>rs. wk_shutdown w = Waiting_released rs \<longrightarrow> (\<forall>r \<in> set rs. run_settled (wk_heap w ! r)))
     \<and> distinct (remaining_of (wk_shutdown w))"

lemma lifeI:
  assumes "\<And>r. r < runs_of w \<Longrightarrow> armed cfg (wk_heap w ! r)"
    and "\<And>rs r. wk_shutdown w = Waiting_released rs \<Longrightarrow> r \<in> set rs \<Longrightarrow> run_settled (wk_heap w ! r)"
    and "distinct (remaining_of (wk_shutdown w))"
  shows "life cfg w"
  using assms unfolding life_def by blast

lemma lifeD:
  assumes "life cfg w"
  shows "r < runs_of w \<Longrightarrow> armed cfg (wk_heap w ! r)"
    and "wk_shutdown w = Waiting_released rs \<Longrightarrow> r \<in> set rs \<Longrightarrow> run_settled (wk_heap w ! r)"
    and "distinct (remaining_of (wk_shutdown w))"
  using assms unfolding life_def by blast+

lemma life_same:
  "life cfg w \<Longrightarrow> wk_heap w' = wk_heap w \<Longrightarrow> wk_shutdown w' = wk_shutdown w \<Longrightarrow> life cfg w'"
  unfolding life_def by simp

lemma life_upd_run:
  assumes "life cfg w" and "armed cfg (wk_heap w ! r) \<Longrightarrow> armed cfg (f (wk_heap w ! r))"
    and "run_settled (wk_heap w ! r) \<Longrightarrow> run_settled (f (wk_heap w ! r))"
  shows "life cfg (upd_run r f w)"
proof (rule lifeI)
  fix rs k assume "wk_shutdown (upd_run r f w) = Waiting_released rs" "k \<in> set rs"
  then have "run_settled (wk_heap w ! k)" using lifeD(2)[OF assms(1)] by simp
  then show "run_settled (wk_heap (upd_run r f w) ! k)"
    using assms(3) by (cases "k < runs_of w") (auto simp: upd_run_def nth_list_update)
qed (use assms lifeD[OF assms(1)] in auto)

lemma armed_simps [simp]:
  "armed cfg x \<Longrightarrow> armed cfg (x\<lparr>run_settled := True\<rparr>)"
  "armed cfg x \<Longrightarrow> armed cfg (x\<lparr>run_settled := True, run_stage := s\<rparr>)"
  "armed cfg x \<Longrightarrow> armed cfg (x\<lparr>run_stage := s\<rparr>)"
  "armed cfg x \<Longrightarrow> armed cfg (x\<lparr>run_renew_timer := b\<rparr>)"
  "armed cfg x \<Longrightarrow> armed cfg (x\<lparr>run_renew_timer := b, run_renewing := n\<rparr>)"
  "armed cfg (abort_run e x)" "armed cfg (new_run cfg q)"
  "armed cfg ((clearRunTimers x)\<lparr>run_finished := True, run_stage := s\<rparr>)"
  "run_settled x \<Longrightarrow> armed cfg (clearRunTimers x)"
  by (auto simp: armed_def gone_def new_run_def clearRunTimers_def abort_run_def split: option.splits)

lemma armed_renewed: "armed cfg x \<Longrightarrow> armed cfg (renewed cfg now held x)"
  by (auto simp: armed_def renewed_def loseLease_def abort_run_def armDeadline_def scheduleRenewal_def gone_def Let_def
           split: option.splits)

lemma settled_renewed: "run_settled x \<Longrightarrow> run_settled (renewed cfg now held x)"
  by (auto simp: renewed_def gone_def Let_def split: option.splits)

section \<open>Settling calls\<close>

fun settled_run :: "port_call \<Rightarrow> nat option" where
  "settled_run (Complete_call r jid owner) = Some r"
| "settled_run (Fail_call r jid owner code retryable) = Some r"
| "settled_run (Release_call (Of_execute r) jid owner) = Some r"
| "settled_run (Release_call (Of_shutdown r) jid owner) = Some r"
| "settled_run c = None"

definition settled :: "worker \<Rightarrow> nat \<Rightarrow> bool" where
  "settled w r \<longleftrightarrow> r < runs_of w \<and> run_settled (wk_heap w ! r)"

definition settling_calls :: "nat \<Rightarrow> port_call list \<Rightarrow> nat" where
  "settling_calls r calls = length (filter (\<lambda>c. settled_run c = Some r) calls)"

definition settles_once :: "worker \<Rightarrow> worker \<Rightarrow> port_call list \<Rightarrow> bool" where
  "settles_once w w' calls \<longleftrightarrow>
     (\<forall>r. settled w r \<longrightarrow> settled w' r \<and> settling_calls r calls = 0)
     \<and> (\<forall>r. \<not> settled w r \<longrightarrow> settling_calls r calls \<le> (if settled w' r then 1 else 0))"

lemma settling_calls_simps [simp]:
  "settling_calls r [] = 0"
  "settling_calls r (c # cs) = (if settled_run c = Some r then 1 else 0) + settling_calls r cs"
  "settling_calls r (cs @ ds) = settling_calls r cs + settling_calls r ds"
  by (simp_all add: settling_calls_def)

lemma settles_none:
  assumes "\<And>r. settled w r \<Longrightarrow> settled w' r" and "\<And>c. c \<in> set calls \<Longrightarrow> settled_run c = None"
  shows "settles_once w w' calls"
proof -
  have "settling_calls r calls = 0" for r using assms(2) by (auto simp: settling_calls_def filter_empty_conv)
  then show ?thesis using assms(1) by (simp add: settles_once_def)
qed

lemma settled_upd_run:
  "(run_settled (wk_heap w ! r) \<Longrightarrow> run_settled (f (wk_heap w ! r))) \<Longrightarrow> settled w k \<Longrightarrow> settled (upd_run r f w) k"
  by (auto simp: settled_def)

lemma settles_one:
  assumes "r < runs_of w" and "\<not> run_settled (wk_heap w ! r)" and "run_settled (f (wk_heap w ! r))"
    and "settled_run c = Some r"
  shows "settles_once w (upd_run r f w) [c]"
  using assms by (auto simp: settles_once_def settled_def)

section \<open>Every step\<close>

text \<open>Steps that leave the heap and the shutdown alone and settle nothing.\<close>

lemma keeps_heap:
  "wk_heap (fst (maintain_step cfg k at fl w)) = wk_heap w" "wk_shutdown (fst (maintain_step cfg k at fl w)) = wk_shutdown w"
  "wk_heap (fst (claim_part cfg h w)) = wk_heap w" "wk_shutdown (fst (claim_part cfg h w)) = wk_shutdown w"
  by (simp_all add: maintain_step_def claim_part_def Let_def)

lemma settles_nothing:
  "c \<in> set (snd (maintain_step cfg k at fl w)) \<Longrightarrow> settled_run c = None"
  "c \<in> set (snd (claim_part cfg h w)) \<Longrightarrow> settled_run c = None"
  by (auto simp: maintain_step_def maintenance_call_def claim_part_def Let_def split: if_splits)

definition good_step :: "worker_config \<Rightarrow> worker \<Rightarrow> worker \<times> port_call list \<Rightarrow> bool" where
  "good_step cfg w p \<longleftrightarrow> life cfg (fst p) \<and> settles_once w (fst p) (snd p)"

lemma good_stepI: "life cfg w' \<Longrightarrow> settles_once w w' calls \<Longrightarrow> good_step cfg w (w', calls)"
  by (simp add: good_step_def)

lemma good_same:
  assumes "life cfg w" and "wk_heap (fst p) = wk_heap w" and "wk_shutdown (fst p) = wk_shutdown w"
    and "\<And>c. c \<in> set (snd p) \<Longrightarrow> settled_run c = None"
  shows "good_step cfg w p"
  using life_same[OF assms(1-3)] assms(2,4) by (auto simp: good_step_def settled_def intro!: settles_none)

lemma good_maintain_step: "life cfg w \<Longrightarrow> good_step cfg w (maintain_step cfg k at fl w)"
  by (rule good_same) (auto simp: keeps_heap settles_nothing)

lemma good_claim_part: "life cfg w \<Longrightarrow> good_step cfg w (claim_part cfg h w)"
  by (rule good_same) (auto simp: keeps_heap settles_nothing)

lemma good_maintain_next: "life cfg w \<Longrightarrow> good_step cfg w (maintain_next cfg k at fl w)"
  by (simp add: maintain_next_def good_maintain_step good_claim_part)

lemma good_runTick: "life cfg w \<Longrightarrow> good_step cfg w (runTick cfg now (w\<lparr>wk_poll := None\<rparr>))"
  by (rule good_same) (auto simp: runTick_def keeps_heap dest: settles_nothing split: if_splits)

text \<open>One run changes and no call settles one, or one call settles the run that changes.\<close>

lemma good_upd_none:
  assumes "life cfg w" and "armed cfg (wk_heap w ! r) \<Longrightarrow> armed cfg (f (wk_heap w ! r))"
    and "run_settled (wk_heap w ! r) \<Longrightarrow> run_settled (f (wk_heap w ! r))"
    and "\<And>c. c \<in> set calls \<Longrightarrow> settled_run c = None"
  shows "good_step cfg w (upd_run r f w, calls)"
proof (rule good_stepI)
  show "life cfg (upd_run r f w)" using assms(1-3) by (rule life_upd_run)
  show "settles_once w (upd_run r f w) calls"
    by (rule settles_none) (use assms(3,4) settled_upd_run[of w r f] in simp_all)
qed

lemma good_upd_one:
  assumes "life cfg w" and "armed cfg (wk_heap w ! r) \<Longrightarrow> armed cfg (f (wk_heap w ! r))"
    and "run_settled (f (wk_heap w ! r))" and "r < runs_of w" and "\<not> run_settled (wk_heap w ! r)"
    and "settled_run c = Some r"
  shows "good_step cfg w (upd_run r f w, [c])"
proof (rule good_stepI)
  show "life cfg (upd_run r f w)" by (rule life_upd_run[OF assms(1)]) (use assms(2,3) in auto)
  show "settles_once w (upd_run r f w) [c]" using assms(4,5,3,6) by (rule settles_one)
qed

lemma good_set_stage: "life cfg w \<Longrightarrow> good_step cfg w (set_stage r s w, [])"
  unfolding set_stage_def by (rule good_upd_none) simp_all

lemma good_failRecorded: "life cfg w \<Longrightarrow> good_step cfg w (failRecorded onf r a w, [])"
  unfolding failRecorded_def by (rule good_upd_none) simp_all

lemma good_record_outcome:
  "life cfg w \<Longrightarrow> r < runs_of w \<Longrightarrow> \<not> run_settled (wk_heap w ! r) \<Longrightarrow> good_step cfg w (record_outcome r a w)"
  by (cases a) (auto simp: record_outcome_def Let_def intro!: good_upd_one)

lemma good_handlerReturned: "life cfg w \<Longrightarrow> r < runs_of w \<Longrightarrow> good_step cfg w (handlerReturned r a w)"
  by (auto simp: handlerReturned_def good_record_outcome intro!: good_upd_none)

lemma good_handlerThrew:
  assumes "life cfg w" and "r < runs_of w"
  shows "good_step cfg w (handlerThrew r e w)"
proof -
  have given: "good_step cfg w (upd_run r (\<lambda>run. run\<lparr>run_settled := True, run_stage := At_release\<rparr>) w,
      [lease_call_release (Of_execute r) (run_claim (wk_heap w ! r))])" if "\<not> run_settled (wk_heap w ! r)"
    using assms that by (intro good_upd_one) (simp_all add: lease_call_release_def)
  have ended: "good_step cfg w (upd_run r (\<lambda>run. run\<lparr>run_stage := At_end\<rparr>) w, [])"
    by (rule good_upd_none[OF assms(1)]) simp_all
  show ?thesis
    using given ended good_record_outcome[OF assms]
    by (cases "classifyPublishingJobError e")
       (auto simp: handlerThrew_def Let_def split: option.split abort_reason.split)
qed

lemma good_renew: "life cfg w \<Longrightarrow> good_step cfg w (renew cfg now r w)"
  by (auto simp: renew_def Let_def intro!: good_upd_none)

lemma good_renewed: "life cfg w \<Longrightarrow> good_step cfg w (upd_run r (renewed cfg now held) w, [])"
  by (rule good_upd_none) (auto simp: armed_renewed settled_renewed)

lemma good_deadlineTimer: "life cfg w \<Longrightarrow> good_step cfg w (deadlineTimer cfg now r w, [])"
  unfolding deadlineTimer_def
  by (rule good_upd_none)
     (auto simp: armed_def gone_def loseLease_def abort_run_def armDeadline_def Let_def split: option.splits)

lemma good_runFinally:
  assumes "life cfg w"
  shows "good_step cfg w (runFinally r w, [])"
proof -
  let ?w = "upd_run r (\<lambda>run. (clearRunTimers run)\<lparr>run_finished := True, run_stage := Over\<rparr>) w"
  have step: "good_step cfg w (?w, [])" by (rule good_upd_none[OF assms]) (auto simp: armed_def gone_def clearRunTimers_def)
  have "life cfg (runFinally r w)" using step life_same[of cfg ?w] by (simp add: good_step_def runFinally_def Let_def)
  then show ?thesis using step by (simp add: good_step_def settles_once_def settled_def runFinally_def Let_def)
qed

lemma good_claimed:
  assumes "life cfg w" and inv: "worker_inv cfg w"
  shows "good_step cfg w (claimed cfg a w)"
proof (cases "\<exists>h free qs. wk_tick w = Some (Claiming h free) \<and> a = Some qs")
  case True
  then obtain h free qs where tick: "wk_tick w = Some (Claiming h free)" and a: "a = Some qs" by blast
  obtain w1 calls where t: "take_claims cfg free 0 qs w = (w1, calls)" by fastforce
  obtain new rest where *: "wk_heap w1 = wk_heap w @ map (new_run cfg) new" "calls = map (lease_call_release Of_unrun) rest"
      "wk_shutdown w1 = wk_shutdown w"
    using take_claims_spec[OF t] by blast
  have "life cfg (finish_tick h w1)"
  proof (rule lifeI)
    fix rs r assume "wk_shutdown (finish_tick h w1) = Waiting_released rs" "r \<in> set rs"
    then show "run_settled (wk_heap (finish_tick h w1) ! r)"
      using lifeD(2)[OF assms(1), of rs r] worker_inv_rest(2)[OF inv] *(1,3) by (auto simp: nth_append)
  next
    show "distinct (remaining_of (wk_shutdown (finish_tick h w1)))" using lifeD(3)[OF assms(1)] *(3) by simp
  qed (use lifeD(1)[OF assms(1)] *(1) in \<open>auto simp: nth_append\<close>)
  moreover have "settles_once w (finish_tick h w1) calls"
    by (rule settles_none) (auto simp: settled_def *(1,2) nth_append lease_call_release_def)
  ultimately show ?thesis by (simp add: claimed_def tick a t good_step_def)
next
  case False
  then show ?thesis using assms(1) by (intro good_same) (auto simp: claimed_def split: option.splits tick_stage.splits)
qed

lemma distinct_runs:
  assumes inv: "worker_inv cfg w"
  shows "distinct (map snd (wk_runs w))"
proof -
  have "inj_on snd (set (wk_runs w))"
    by (rule inj_onI) (metis worker_inv_runs[OF inv] prod.collapse)
  moreover have "distinct (wk_runs w)" using worker_inv_rest(1)[OF inv] by (simp add: distinct_map)
  ultimately show ?thesis by (simp add: distinct_map)
qed

lemma life_upd_runs:
  assumes "life cfg w" and "\<And>x. armed cfg x \<Longrightarrow> armed cfg (f x)" and "\<And>x. run_settled x \<Longrightarrow> run_settled (f x)"
  shows "life cfg (upd_runs rs f w)"
  using assms(1) by (induction rs arbitrary: w) (auto intro: life_upd_run assms(2,3))

lemma settled_upd_runs:
  assumes "\<And>x. run_settled x \<Longrightarrow> run_settled (f x)" and "settled w k"
  shows "settled (upd_runs rs f w) k"
  using assms(2) by (induction rs arbitrary: w) (auto intro: settled_upd_run assms(1))

lemma good_shutdown:
  assumes l: "life cfg w" and inv: "worker_inv cfg w"
  shows "good_step cfg w (shutdown_continue w)"
proof (cases "wk_shutdown w")
  case Waiting_grace
  let ?w = "upd_runs (map snd (wk_runs w)) (abort_run Shutdown_abort) w"
  have "life cfg ?w" by (rule life_upd_runs[OF l]) simp_all
  then have "life cfg (?w\<lparr>wk_shutdown := Waiting_aborted (map snd (wk_runs w))\<rparr>)"
    using distinct_runs[OF inv] by (simp add: life_def)
  moreover have "settled ?w k" if "settled w k" for k using that by (intro settled_upd_runs) simp_all
  ultimately show ?thesis
    using l by (auto simp: shutdown_continue_def Waiting_grace Let_def good_step_def life_def settled_def intro!: settles_none)
next
  case (Waiting_aborted rs)
  let ?f = "\<lambda>run. run\<lparr>run_settled := True\<rparr>"
  let ?u = "filter (\<lambda>r. \<not> run_settled (wk_heap w ! r)) rs"
  let ?w = "upd_runs ?u ?f w"
  have rs: "set rs \<subseteq> {..< runs_of w}" "distinct rs" using worker_inv_rest(2)[OF inv] lifeD(3)[OF l] Waiting_aborted by auto
  have heap: "run_settled (wk_heap ?w ! k) \<longleftrightarrow> run_settled (wk_heap w ! k) \<or> k \<in> set ?u" if "k < runs_of w" for k
    using that nth_upd_runs[of ?f k w ?u] by auto
  have "life cfg ?w" by (rule life_upd_runs[OF l]) simp_all
  then have 1: "life cfg (?w\<lparr>wk_shutdown := Waiting_released rs\<rparr>)"
    using rs heap by (auto simp: life_def)
  have "settling_calls k (map (\<lambda>r. lease_call_release (Of_shutdown r) (run_claim (wk_heap w ! r))) us) = count_list us k" for k us
    by (induction us) (simp_all add: lease_call_release_def)
  moreover have "distinct us \<Longrightarrow> count_list us k = (if k \<in> set us then 1 else 0)" for us :: "nat list" and k
    by (induction us) auto
  then have "count_list ?u k = (if k \<in> set ?u then 1 else 0)" for k using rs(2) distinct_filter by blast
  ultimately have "settles_once w (?w\<lparr>wk_shutdown := Waiting_released rs\<rparr>)
      (map (\<lambda>r. lease_call_release (Of_shutdown r) (run_claim (wk_heap w ! r))) ?u)"
    using heap rs(1) by (auto simp: settles_once_def settled_def)
  then show ?thesis using 1 by (simp add: shutdown_continue_def Waiting_aborted Let_def good_step_def)
next
  case (Waiting_released rs)
  let ?w = "upd_runs rs clearRunTimers w"
  have heap: "wk_heap ?w ! k = (if k \<in> set rs then clearRunTimers (wk_heap w ! k) else wk_heap w ! k)" if "k < runs_of w" for k
    using that by (intro nth_upd_runs) (simp_all add: clearRunTimers_def)
  have "life cfg (?w\<lparr>wk_shutdown := Waiting_releases\<rparr>)"
    using heap lifeD(1)[OF l] lifeD(2)[OF l Waiting_released] by (intro lifeI) auto
  then show ?thesis
    by (auto simp: shutdown_continue_def Waiting_released Let_def good_step_def settled_def heap clearRunTimers_def
             intro!: settles_none)
next
  case Waiting_releases
  then show ?thesis
    using l by (auto simp: shutdown_continue_def good_step_def life_def settled_def intro!: settles_none)
qed (use l in \<open>auto simp: shutdown_continue_def intro!: good_same\<close>)

lemma good_step_always:
  assumes l: "life cfg w" and inv: "worker_inv cfg w" and can: "can_happen e w"
  shows "good_step cfg w (worker_step cfg onf now e w)"
proof (cases e)
  case Stop
  have "life cfg (stop w)" using l by (auto simp: life_def stop_def)
  then show ?thesis using Stop by (auto simp: good_step_def stop_def settled_def intro!: settles_none)
next
  case (Released origin)
  then show ?thesis using l by (cases origin) (auto simp: good_set_stage intro!: good_same)
qed (use l inv can in \<open>auto simp: good_set_stage good_failRecorded good_handlerReturned good_handlerThrew good_renew good_renewed
       good_deadlineTimer good_runFinally good_claimed good_shutdown good_runTick good_maintain_next stage_is_def start_def
       tickFinally_def Let_def intro!: good_same split: option.split tick_stage.split\<close>)

section \<open>The guarantees\<close>

definition configured :: "worker_config \<Rightarrow> bool" where
  "configured cfg \<longleftrightarrow> (\<exists>random_owner opts. newWorker random_owner opts = Some cfg)"

lemma configured_concurrency: "configured cfg \<Longrightarrow> 1 \<le> wc_concurrency cfg \<and> wc_concurrency cfg \<le> 4"
proof -
  assume "configured cfg"
  then have c: "(\<exists>opts :: worker_options. positive (wo_concurrency opts) 1 = Some (wc_concurrency cfg)) \<and> wc_concurrency cfg \<le> 4"
    by (clarsimp simp: configured_def newWorker_def Let_def bind_eq_Some_conv split: if_split_asm) blast
  have "positive v d = Some n \<Longrightarrow> 1 \<le> n" for v d n by (auto simp: positive_def Let_def split: if_splits)
  then show ?thesis using c by auto
qed

lemma worker_run_life:
  assumes run: "worker_run cfg w calls" and c: "0 \<le> wc_concurrency cfg"
  shows "life cfg w \<and> (\<forall>r. settling_calls r calls \<le> (if settled w r then 1 else 0))"
  using run
proof induction
  case Fresh
  then show ?case by (simp add: life_def worker0_def)
next
  case (Steps w calls e onf now w' new)
  have "good_step cfg w (w', new)"
    using good_step_always[of cfg w e onf now] worker_run_inv[OF Steps.hyps(1) c] Steps by simp
  then have l: "life cfg w'" and s: "settles_once w w' new" by (simp_all add: good_step_def)
  have "settling_calls r (calls @ new) \<le> (if settled w' r then 1 else 0)" for r
    using s Steps.IH[THEN conjunct2, rule_format, of r] by (cases "settled w r") (auto simp: settles_once_def split: if_splits)
  then show ?case using l by blast
qed

text \<open>Concrete runs, for examples.\<close>

fun worker_trace :: "worker_config \<Rightarrow> instant \<Rightarrow> worker_event list \<Rightarrow> worker \<Rightarrow> (worker \<times> port_call list) option" where
  "worker_trace cfg now [] w = Some (w, [])"
| "worker_trace cfg now (e # es) w =
     (if can_happen e w
      then (case worker_step cfg True now e w of (w1, new) \<Rightarrow>
              map_option (map_prod (\<lambda>x. x) ((@) new)) (worker_trace cfg now es w1))
      else None)"

lemma worker_trace_run:
  assumes "worker_run cfg w before" and "worker_trace cfg now es w = Some (w', calls)"
  shows "worker_run cfg w' (before @ calls)"
  using assms
proof (induction es arbitrary: w before calls)
  case (Cons e es)
  obtain w1 new where step: "worker_step cfg True now e w = (w1, new)" by fastforce
  then obtain later where later: "worker_trace cfg now es w1 = Some (w', later)" "calls = new @ later" "can_happen e w"
    using Cons.prems(2) by (auto split: if_splits)
  have "worker_run cfg w1 (before @ new)" using Cons.prems(1) later(3) step by (rule Steps)
  from Cons.IH[OF this later(1)] show ?case using later(2) by simp
qed simp

end
