(* ===== verification/JobLeases.thy ===== *)
theory JobLeases
  imports FleetRuns JobLaws WorkerGuarantees
begin

text \<open>
  The queue of the PostgreSQL adapter keeps the contract of leases, so a fleet of workers on it never works on one job twice
  at a time. The fleet of \<open>JobFleet\<close> runs over the operations of \<open>JobQueue\<close> and \<open>JobCleanup\<close>.
\<close>

section \<open>The port of the adapter\<close>

definition postgres_port :: "(string \<Rightarrow> string) \<Rightarrow> (store \<Rightarrow> item_row \<Rightarrow> derivative_row \<Rightarrow> bool) \<Rightarrow> store queue_port" where
  "postgres_port digest needed =
     \<lparr>p_claim = claimJobs, p_renew = renewJobLease, p_complete = completeJob, p_release = releaseJob, p_fail = failJob,
      p_requeue = requeueExpiredJobs, p_cleanup = scheduleCleanup digest needed (\<lambda>st. st), p_enqueue = enqueueJob digest\<rparr>"

abbreviation job_lease :: "store \<Rightarrow> string \<Rightarrow> (string \<times> instant) option" where
  "job_lease st \<equiv> lease_in (jobs st)"

abbreviation jobs_ok :: "(string \<Rightarrow> string) \<Rightarrow> store \<Rightarrow> bool" where
  "jobs_ok digest st \<equiv> queue_inv digest (jobs st)"

interpretation postgres: leased_queue "postgres_port digest needed" "jobs_ok digest" job_lease for digest needed
proof unfold_locales
  fix st st' skip opts now qs
  assume "jobs_ok digest st" "p_claim (postgres_port digest needed) skip st opts now = Inr (st', qs)"
  then show "jobs_ok digest st' \<and> distinct (map q_id qs)
      \<and> (\<forall>q \<in> set qs. job_lease st (q_id q) = None \<and> job_lease st' (q_id q) = Some (o_owner opts, now + o_lease_ms opts)
            \<and> q_owner q = o_owner opts \<and> q_expires q = now + o_lease_ms opts)
      \<and> (\<forall>jid. jid \<notin> q_id ` set qs \<longrightarrow> job_lease st' jid = job_lease st jid)"
    using claim_spec[of digest st skip opts now st' qs] by (simp add: postgres_port_def)
next
  fix st st' jid owner ms now held
  assume "jobs_ok digest st" "p_renew (postgres_port digest needed) st jid owner ms now = Inr (st', held)"
  then show "jobs_ok digest st' \<and> (if held then (\<exists>t. job_lease st jid = Some (owner, t))
        \<and> job_lease st' = (job_lease st)(jid \<mapsto> (owner, now + ms)) else job_lease st' = job_lease st)"
    using renew_keeps[of digest st jid owner ms now st' held] by (simp add: postgres_port_def)
next
  fix st st' jid owner now ok
  assume "jobs_ok digest st" "p_complete (postgres_port digest needed) st jid owner now = Inr (st', ok)"
  then show "jobs_ok digest st' \<and> (job_lease st' = job_lease st
      \<or> (\<exists>t. job_lease st jid = Some (owner, t)) \<and> job_lease st' = (job_lease st)(jid := None))"
    using complete_keeps[of digest st jid owner now st' ok] by (simp add: postgres_port_def)
next
  fix st st' jid owner now ok
  assume "jobs_ok digest st" "p_release (postgres_port digest needed) st jid owner now = Inr (st', ok)"
  then show "jobs_ok digest st' \<and> (job_lease st' = job_lease st
      \<or> (\<exists>t. job_lease st jid = Some (owner, t)) \<and> job_lease st' = (job_lease st)(jid := None))"
    using release_keeps[of digest st jid owner now st' ok] by (simp add: postgres_port_def)
next
  fix st st' jid owner code retryable now outcome
  assume "jobs_ok digest st" "p_fail (postgres_port digest needed) st jid owner code retryable now = Inr (st', outcome)"
  then show "jobs_ok digest st' \<and> (job_lease st' = job_lease st
      \<or> (\<exists>t. job_lease st jid = Some (owner, t)) \<and> job_lease st' = (job_lease st)(jid := None))"
    using fail_keeps[of digest st jid owner code retryable now st' outcome] by (simp add: postgres_port_def)
next
  fix st st' skip now limit n
  assume "jobs_ok digest st" "p_requeue (postgres_port digest needed) skip st now limit = Inr (st', n)"
  then show "jobs_ok digest st' \<and> (\<forall>jid. job_lease st' jid = job_lease st jid
      \<or> (job_lease st' jid = None \<and> (\<exists>owner t. job_lease st jid = Some (owner, t) \<and> t < now)))"
    using requeue_keeps[of digest st skip now limit st' n] by (simp add: postgres_port_def)
next
  fix st st' skip draw now limit counts
  assume "jobs_ok digest st" "p_cleanup (postgres_port digest needed) skip draw st now limit = (st', counts)"
  then show "jobs_ok digest st' \<and> job_lease st' = job_lease st"
    using cleanup_keeps[of digest st needed "\<lambda>st. st" skip draw now limit st' counts] by (simp add: postgres_port_def)
next
  fix st st' draw job now a
  assume "jobs_ok digest st" "p_enqueue (postgres_port digest needed) draw st job now = Inr (st', a)"
  then show "jobs_ok digest st' \<and> job_lease st' = job_lease st"
    using enqueue_keeps[of digest st draw job now st' a] by (simp add: postgres_port_def)
qed

section \<open>Runs of a fleet\<close>

abbreviation publishing_fleet ::
  "(string \<Rightarrow> string) \<Rightarrow> (store \<Rightarrow> item_row \<Rightarrow> derivative_row \<Rightarrow> bool) \<Rightarrow> worker_config list \<Rightarrow> store fleet \<Rightarrow> bool" where
  "publishing_fleet digest needed \<equiv> fleet_reachable (postgres_port digest needed) (jobs_ok digest) job_lease"

fun fleet_run :: "'s queue_port \<Rightarrow> worker_config list \<Rightarrow> fleet_event list \<Rightarrow> 's fleet \<Rightarrow> 's fleet option" where
  "fleet_run P cfgs [] f = Some f"
| "fleet_run P cfgs (ev # evs) f = Option.bind (fleet_event_step P cfgs ev f) (fleet_run P cfgs evs)"

lemma fleet_run_reachable:
  "fleet_reachable P good lease cfgs f \<Longrightarrow> fleet_run P cfgs evs f = Some f' \<Longrightarrow> fleet_reachable P good lease cfgs f'"
  by (induction evs arbitrary: f) (auto simp: bind_eq_Some_conv intro: Happens)

text \<open>Each worker of a fleet runs as a worker does on its own.\<close>

lemma fleet_workers_run:
  assumes "fleet_reachable P good lease cfgs f"
  shows "length (f_workers f) = length cfgs \<and> (\<forall>i < length cfgs. \<exists>calls. worker_run (cfgs ! i) (f_workers f ! i) calls)"
  using assms
proof induction
  case (Begin st now)
  have "worker_run (cfgs ! i) worker0 []" for i by (rule Fresh)
  then show ?case by (auto simp: fleet0_def)
next
  case (Happens f ev f')
  have moves: "length (f_workers (at_worker cfgs i e g)) = length cfgs
      \<and> (\<forall>k < length cfgs. \<exists>calls. worker_run (cfgs ! k) (f_workers (at_worker cfgs i e g) ! k) calls)"
    if "f_workers g = f_workers f" "can_happen e (f_workers f ! i)" for i e g
  proof -
    obtain w new where step: "worker_step (cfgs ! i) True (f_clock g) e (f_workers g ! i) = (w, new)" by fastforce
    then have "worker_run (cfgs ! i) (f_workers f ! i) calls \<Longrightarrow> worker_run (cfgs ! i) w (calls @ new)" for calls
      using that by (auto intro: Steps)
    moreover have "\<exists>calls. worker_run (cfgs ! k) ((f_workers f)[i := w] ! k) calls" if k: "k < length cfgs" for k
    proof -
      obtain calls where "worker_run (cfgs ! k) (f_workers f ! k) calls" using Happens.IH k by blast
      then show ?thesis using calculation k Happens.IH by (cases "k = i") auto
    qed
    ultimately show ?thesis using step that(1) Happens.IH by (simp add: at_worker_def send_def)
  qed
  show ?case
    using Happens.hyps(2) Happens.IH
    by (auto simp: fleet_event_step_def split: fleet_event.splits if_splits option.splits prod.splits intro!: moves[simplified])
next
  case (Others f st)
  then show ?case by simp
qed

lemma fleet_run_armed:
  assumes "fleet_reachable P good lease cfgs f" and "list_all configured cfgs" and "is_run f i r"
  shows "armed (cfgs ! i) (the_run f i r)"
proof -
  have i: "i < length cfgs" "r < runs_of (f_workers f ! i)"
    using assms(3) fleet_workers_run[OF assms(1)] by (auto simp: is_run_def)
  then obtain calls where run: "worker_run (cfgs ! i) (f_workers f ! i) calls" using fleet_workers_run[OF assms(1)] by blast
  have "0 \<le> wc_concurrency (cfgs ! i)"
    using configured_concurrency[of "cfgs ! i"] assms(2) i(1) by (fastforce simp: list_all_length)
  then show ?thesis using lifeD(1)[of "cfgs ! i"] worker_run_life[OF run] i(2) by (simp add: the_run_def)
qed

end
