(* ===== verification/JobWriters.thy ===== *)
theory JobWriters
  imports JobLaws
begin

text \<open>
  The statements of the other adapters that write the table of jobs
  (\<open>services/community-postgres/src/publishing/media.ts\<close> and \<open>works.ts\<close>): a cancelled item's purge is scheduled, and moved
  up when it was waiting; \<open>derive_edit\<close> jobs that still settle are removed when the content stopped needing them and moved up
  before a submission; a deleted work's queued purge is removed. Everything else these adapters write to the table goes
  through \<open>insertJob\<close>.

  \<open>editKey\<close> stands for the database's \<open>payload->>'editKey'\<close> on the text of a payload.
\<close>

section \<open>Cancelled items\<close>

text \<open>One round of the last loop of \<open>cancelItems\<close>.\<close>

definition hasten_row :: "instant \<Rightarrow> job_row \<Rightarrow> job_row" where
  "hasten_row now j = j\<lparr>j_run_after := min (j_run_after j) now, j_updated_at := now\<rparr>"

definition hasten_job :: "store \<Rightarrow> string \<Rightarrow> instant \<Rightarrow> store" where
  "hasten_job st jid now =
     st\<lparr>jobs := update_rows (\<lambda>j. j_id j = jid \<and> j_state j = Queued) (hasten_row now) (jobs st)\<rparr>"

definition purge_now :: "(string \<Rightarrow> string) \<Rightarrow> (nat \<Rightarrow> string) \<Rightarrow> store \<Rightarrow> string \<Rightarrow> instant \<Rightarrow> unit answer" where
  "purge_now digest draw st itemId now =
     rbind (insert_alone digest draw st (plain_job Purge_item itemId) now) (\<lambda>(st1, jid, created).
       Inr (if created then st1 else hasten_job st1 jid now, ()))"

fun purge_each :: "(string \<Rightarrow> string) \<Rightarrow> (nat \<Rightarrow> string) \<Rightarrow> store \<Rightarrow> string list \<Rightarrow> instant \<Rightarrow> unit answer" where
  "purge_each digest draw st [] now = Inr (st, ())"
| "purge_each digest draw st (k # ks) now =
     rbind (purge_now digest draw st k now) (\<lambda>(st1, _). purge_each digest (\<lambda>n. draw (n + 3)) st1 ks now)"

definition cancel_component :: "instant \<Rightarrow> component_row \<Rightarrow> component_row" where
  "cancel_component now c = c\<lparr>c_state := Component_cancelled, c_attempt := None, c_updated_at := now\<rparr>"

definition cancel_item :: "instant \<Rightarrow> item_row \<Rightarrow> item_row" where
  "cancel_item now i = i\<lparr>i_state := Item_cancelled,
     i_cancelled_at := (case i_cancelled_at i of None \<Rightarrow> Some now | Some t \<Rightarrow> Some t),
     i_updated_at := now, i_version := i_version i + 1\<rparr>"

definition cancel_targets :: "store \<Rightarrow> string list \<Rightarrow> bool \<Rightarrow> string list" where
  "cancel_targets st itemIds onlyUnreferenced =
     sort (map i_id (filter (\<lambda>i. i_id i \<in> set itemIds \<and> i_state i \<noteq> Item_purged
                                 \<and> (onlyUnreferenced \<longrightarrow> \<not> has_refs st (i_id i))) (items st)))"

definition cancelItems ::
  "(string \<Rightarrow> string) \<Rightarrow> (nat \<Rightarrow> string) \<Rightarrow> store \<Rightarrow> string list \<Rightarrow> bool \<Rightarrow> instant \<Rightarrow> (string list \<times> string list) answer" where
  "cancelItems digest draw st itemIds onlyUnreferenced now =
     (let targets = cancel_targets st itemIds onlyUnreferenced;
          receiving = sort (map c_id (filter (\<lambda>c. c_item c \<in> set targets \<and> c_state c = Receiving) (components st)))
      in if targets = [] then Inr (st, ([], []))
         else rbind (releaseReservations
                (st\<lparr>components := update_rows (\<lambda>c. c_item c \<in> set targets \<and> c_state c \<noteq> Component_cancelled)
                                     (cancel_component now) (components st),
                    items := update_rows (\<lambda>i. i_id i \<in> set targets \<and> i_state i \<noteq> Item_cancelled)
                                (cancel_item now) (items st)\<rparr>) targets now) (\<lambda>(st1, _).
              rbind (purge_each digest draw
                (st1\<lparr>refs := filter (\<lambda>r. \<not> (r_item r \<in> set targets \<and> r_holder_kind r \<in> {Draft_holder, Session_holder})) (refs st1)\<rparr>)
                targets now) (\<lambda>(st2, _). Inr (st2, (targets, receiving)))))"

section \<open>Edit derivatives that still settle\<close>

text \<open>\<open>(subject_id || '@' || (payload->>'editKey')) = ANY(wanted)\<close>, with SQL's null: \<open>None\<close>.\<close>

definition wanted_derivative :: "(string \<Rightarrow> string option) \<Rightarrow> string list \<Rightarrow> job_row \<Rightarrow> bool option" where
  "wanted_derivative editKey wanted j =
     (case editKey (payload_text (j_payload j)) of
        None \<Rightarrow> if wanted = [] then Some False else None
      | Some k \<Rightarrow> Some (j_subject j @ ''@'' @ k \<in> set wanted))"

definition drop_settling ::
  "(string \<Rightarrow> string option) \<Rightarrow> store \<Rightarrow> string list \<Rightarrow> string list \<Rightarrow> instant \<Rightarrow> store" where
  "drop_settling editKey st touched wanted now =
     st\<lparr>jobs := filter (\<lambda>j. \<not> (j_kind j = Derive_edit \<and> j_state j = Queued \<and> j_attempts j = 0 \<and> now < j_run_after j
                               \<and> j_subject j \<in> set touched \<and> wanted_derivative editKey wanted j = Some False)) (jobs st)\<rparr>"

definition settle_now :: "(string \<Rightarrow> string option) \<Rightarrow> store \<Rightarrow> string list \<Rightarrow> instant \<Rightarrow> store" where
  "settle_now editKey st wanted now =
     st\<lparr>jobs := update_rows (\<lambda>j. j_kind j = Derive_edit \<and> j_state j = Queued \<and> now < j_run_after j
                                 \<and> wanted_derivative editKey wanted j = Some True)
                  (\<lambda>j. j\<lparr>j_run_after := now, j_updated_at := now\<rparr>) (jobs st)\<rparr>"

text \<open>The end of \<open>ensureContentDerivatives\<close>; \<open>settle\<close> are the items of a draft change.\<close>

definition settle_jobs ::
  "(string \<Rightarrow> string option) \<Rightarrow> store \<Rightarrow> string list option \<Rightarrow> string list \<Rightarrow> string list \<Rightarrow> instant \<Rightarrow> store" where
  "settle_jobs editKey st settle contentIds wanted now =
     (case settle of
        Some itemIds \<Rightarrow>
          let touched = remdups (itemIds @ contentIds) in
          if touched \<noteq> [] then drop_settling editKey st touched wanted now else st
      | None \<Rightarrow> if wanted \<noteq> [] then settle_now editKey st wanted now else st)"

section \<open>Deleted works\<close>

definition drop_trash_purge :: "store \<Rightarrow> string \<Rightarrow> store" where
  "drop_trash_purge st workId =
     st\<lparr>jobs := filter (\<lambda>j. \<not> (j_kind j = Purge_trashed_work \<and> j_subject j = workId \<and> j_state j = Queued)) (jobs st)\<rparr>"

section \<open>What they keep\<close>

lemma same_leases_update:
  assumes ids: "\<And>x. j_id (f x) = j_id x" and same: "\<And>x. P x \<Longrightarrow> lease_row (f x) = lease_row x"
  shows "lease_in (update_rows P f rows) = lease_in rows"
proof
  fix k
  show "lease_in (update_rows P f rows) k = lease_in rows k"
    unfolding lease_in_update[of f, OF ids] by (cases "row_of j_id k rows") (simp_all add: lease_in_def same)
qed

text \<open>Deleting rows no worker runs.\<close>

lemma delete_keeps:
  assumes inv: "queue_inv digest rows" and idle: "\<And>j. Q j \<Longrightarrow> j_state j \<noteq> Running"
  shows "queue_inv digest (filter (\<lambda>j. \<not> Q j) rows) \<and> lease_in (filter (\<lambda>j. \<not> Q j) rows) = lease_in rows"
proof
  show "lease_in (filter (\<lambda>j. \<not> Q j) rows) = lease_in rows"
    by (rule lease_in_filter[OF queue_invD(1)[OF inv]]) (use idle in \<open>auto simp: lease_row_def\<close>)
qed (rule filter_keeps[OF inv])

lemma hasten_keeps:
  assumes "queue_inv digest (jobs st)"
  shows "queue_inv digest (jobs (hasten_job st jid now)) \<and> lease_in (jobs (hasten_job st jid now)) = lease_in (jobs st)"
proof -
  have "queue_inv digest (update_rows (\<lambda>j. j_id j = jid \<and> j_state j = Queued) (hasten_row now) (jobs st))"
    by (rule update_keeps[OF assms]) (simp_all add: hasten_row_def active_key_def active_job_def row_ok_def)
  moreover have "lease_in (update_rows (\<lambda>j. j_id j = jid \<and> j_state j = Queued) (hasten_row now) (jobs st)) = lease_in (jobs st)"
    by (rule same_leases_update) (simp_all add: hasten_row_def lease_row_def)
  ultimately show ?thesis by (simp add: hasten_job_def)
qed

lemma purge_now_keeps:
  assumes inv: "queue_inv digest (jobs st)" and s: "purge_now digest draw st k now = Inr (st', u)"
  shows "queue_inv digest (jobs st') \<and> lease_in (jobs st') = lease_in (jobs st)"
proof -
  obtain st1 jid created where e: "enqueueJob digest draw st (plain_job Purge_item k) now = Inr (st1, jid, created)"
      and st': "st' = (if created then st1 else hasten_job st1 jid now)"
    using s by (auto simp: purge_now_def rbind_Inr_iff enqueueJob_def)
  show ?thesis using enqueue_keeps[OF inv e] hasten_keeps[of digest st1 jid now] by (auto simp: st')
qed

lemma purge_each_keeps:
  "queue_inv digest (jobs st) \<Longrightarrow> purge_each digest draw st ks now = Inr (st', u)
   \<Longrightarrow> queue_inv digest (jobs st') \<and> lease_in (jobs st') = lease_in (jobs st)"
proof (induction digest draw st ks now rule: purge_each.induct)
  case (2 digest draw st k ks now)
  obtain st1 v where s: "purge_now digest draw st k now = Inr (st1, v)"
      "purge_each digest (\<lambda>n. draw (n + 3)) st1 ks now = Inr (st', u)"
    using 2(3) by (auto simp: rbind_Inr_iff)
  note k = purge_now_keeps[OF 2(2) s(1)]
  show ?case using 2(1)[OF s(1) refl conjunct1[OF k] s(2)] k by simp
qed simp

lemma cancelItems_keeps:
  assumes inv: "queue_inv digest (jobs st)" and s: "cancelItems digest draw st ids only now = Inr (st', a)"
  shows "queue_inv digest (jobs st')" and "lease_in (jobs st') = lease_in (jobs st)"
  using s inv
  by (auto simp: cancelItems_def Let_def rbind_Inr_iff split: if_splits dest!: purge_each_keeps[rotated] releaseReservations_jobs)

lemma settle_keeps:
  assumes inv: "queue_inv digest (jobs st)"
  shows "queue_inv digest (jobs (settle_jobs editKey st settle contentIds wanted now))"
    and "lease_in (jobs (settle_jobs editKey st settle contentIds wanted now)) = lease_in (jobs st)"
proof -
  have hurry: "queue_inv digest (jobs (settle_now editKey st wanted now))
      \<and> lease_in (jobs (settle_now editKey st wanted now)) = lease_in (jobs st)"
  proof -
    let ?hit = "\<lambda>j. j_kind j = Derive_edit \<and> j_state j = Queued \<and> now < j_run_after j
                    \<and> wanted_derivative editKey wanted j = Some True"
    let ?f = "\<lambda>j. j\<lparr>j_run_after := now, j_updated_at := now\<rparr>"
    have "queue_inv digest (update_rows ?hit ?f (jobs st))"
      by (rule update_keeps[OF inv]) (simp_all add: active_key_def active_job_def row_ok_def)
    moreover have "lease_in (update_rows ?hit ?f (jobs st)) = lease_in (jobs st)"
      by (rule same_leases_update) (simp_all add: lease_row_def)
    ultimately show ?thesis by (simp add: settle_now_def)
  qed
  have drop: "queue_inv digest (jobs (drop_settling editKey st touched wanted now))
      \<and> lease_in (jobs (drop_settling editKey st touched wanted now)) = lease_in (jobs st)" for touched wanted
    using delete_keeps[OF inv, where Q = "\<lambda>j. j_kind j = Derive_edit \<and> j_state j = Queued \<and> j_attempts j = 0 \<and> now < j_run_after j
        \<and> j_subject j \<in> set touched \<and> wanted_derivative editKey wanted j = Some False"] by (simp add: drop_settling_def)
  show "queue_inv digest (jobs (settle_jobs editKey st settle contentIds wanted now))"
    and "lease_in (jobs (settle_jobs editKey st settle contentIds wanted now)) = lease_in (jobs st)"
    using hurry drop inv by (simp_all add: settle_jobs_def Let_def split: option.split)
qed

lemma drop_trash_purge_keeps:
  assumes inv: "queue_inv digest (jobs st)"
  shows "queue_inv digest (jobs (drop_trash_purge st workId))" and "lease_in (jobs (drop_trash_purge st workId)) = lease_in (jobs st)"
proof -
  have "queue_inv digest (jobs (drop_trash_purge st workId)) \<and> lease_in (jobs (drop_trash_purge st workId)) = lease_in (jobs st)"
    using delete_keeps[OF inv, where Q = "\<lambda>j. j_kind j = Purge_trashed_work \<and> j_subject j = workId \<and> j_state j = Queued"]
    by (simp add: drop_trash_purge_def)
  then show "queue_inv digest (jobs (drop_trash_purge st workId))"
    and "lease_in (jobs (drop_trash_purge st workId)) = lease_in (jobs st)" by simp_all
qed

end
