(* ===== verification/JobGuarantees.thy ===== *)
theory JobGuarantees
  imports JobLeases JobWriters
begin

text \<open>What the publishing job queue, its worker and a fleet of workers guarantee.\<close>

section \<open>The table of jobs\<close>

text \<open>Any sequence of the operations that change the table, each on the store another one left.\<close>

inductive queue_history :: "(string \<Rightarrow> string) \<Rightarrow> store \<Rightarrow> bool"
  for digest where
  No_jobs: "jobs st = [] \<Longrightarrow> queue_history digest st"
| Rest_changes: "queue_history digest st \<Longrightarrow> jobs st' = jobs st \<Longrightarrow> queue_history digest st'"
| Enqueues: "queue_history digest st \<Longrightarrow> enqueueJob digest draw st job now = Inr (st', a) \<Longrightarrow> queue_history digest st'"
| Claims: "queue_history digest st \<Longrightarrow> claimJobs skip st opts now = Inr (st', qs) \<Longrightarrow> queue_history digest st'"
| Renews: "queue_history digest st \<Longrightarrow> renewJobLease st jid owner ms now = Inr (st', b) \<Longrightarrow> queue_history digest st'"
| Completes: "queue_history digest st \<Longrightarrow> completeJob st jid owner now = Inr (st', b) \<Longrightarrow> queue_history digest st'"
| Releases: "queue_history digest st \<Longrightarrow> releaseJob st jid owner now = Inr (st', b) \<Longrightarrow> queue_history digest st'"
| Fails: "queue_history digest st \<Longrightarrow> failJob st jid owner code retryable now = Inr (st', outcome) \<Longrightarrow> queue_history digest st'"
| Requeues: "queue_history digest st \<Longrightarrow> requeueExpiredJobs skip st now limit = Inr (st', n) \<Longrightarrow> queue_history digest st'"
| Cleans: "queue_history digest st \<Longrightarrow> schedule_due digest skip draw st now limit = Inr (st', counts) \<Longrightarrow> queue_history digest st'"
| Retries: "queue_history digest st \<Longrightarrow> retryJob digest st jid now = Inr (st', j) \<Longrightarrow> queue_history digest st'"
| Abandons: "queue_history digest st \<Longrightarrow> abandonJob st jid now = Inr (st', j) \<Longrightarrow> queue_history digest st'"
| Cancels: "queue_history digest st \<Longrightarrow> cancelItems digest draw st ids only now = Inr (st', a) \<Longrightarrow> queue_history digest st'"
| Hastens: "queue_history digest st \<Longrightarrow> queue_history digest (hasten_job st jid now)"
| Settles: "queue_history digest st \<Longrightarrow> queue_history digest (settle_jobs editKey st settle contentIds wanted now)"
| Deletes_work: "queue_history digest st \<Longrightarrow> queue_history digest (drop_trash_purge st workId)"

lemma queue_history_inv: "queue_history digest st \<Longrightarrow> jobs_ok digest st"
proof (induction rule: queue_history.induct)
  case (No_jobs st)
  then show ?case by (simp add: queue_inv_def)
next
  case (Hastens st jid now)
  then show ?case by (simp add: hasten_keeps)
qed ((rule enqueue_keeps(1) claim_spec(1) renew_keeps(1) complete_keeps(1) release_keeps(1) fail_keeps(1) requeue_keeps(1)
        schedule_due_keeps(1) retryJob_keeps(1) abandonJob_keeps(1) cancelItems_keeps(1) settle_keeps(1)
        drop_trash_purge_keeps(1); assumption) | simp)+

text \<open>C11: in every history of the table of jobs (the queue's operations, the cleanup pass, the operator's commands and the
  statements of the media and work adapters that write the table) a job identifier is used once, equal work (kind, subject and
  payload) is queued or running at most once, a queued job has an attempt left, and a running one is within its attempts and
  carries a lease.
\<close>

lemma queue_sound:
  assumes "queue_history digest st"
  shows "distinct (map j_id (jobs st))
    \<and> (\<forall>j \<in> set (jobs st). \<forall>k \<in> set (jobs st). active_job j \<and> active_job k
           \<and> same_work digest (j_kind j) (j_subject j) (j_payload j) k \<longrightarrow> j = k)
    \<and> (\<forall>j \<in> set (jobs st). j_max_attempts j \<le> 1000
           \<and> (j_state j = Queued \<longrightarrow> 0 \<le> j_attempts j \<and> j_attempts j < j_max_attempts j)
           \<and> (j_state j = Running \<longrightarrow> 1 \<le> j_attempts j \<and> j_attempts j \<le> j_max_attempts j
                \<and> j_owner j \<noteq> None \<and> j_expires j \<noteq> None))"
proof (intro conjI)
  note I = queue_invD[OF queue_history_inv[OF assms]]
  show "distinct (map j_id (jobs st))" by (rule I(1))
  show "\<forall>j \<in> set (jobs st). \<forall>k \<in> set (jobs st). active_job j \<and> active_job k
           \<and> same_work digest (j_kind j) (j_subject j) (j_payload j) k \<longrightarrow> j = k"
    using I(3) distinct_map_eq[OF I(1)] by (metis active_key_def same_work_key)
  show "\<forall>j \<in> set (jobs st). j_max_attempts j \<le> 1000
           \<and> (j_state j = Queued \<longrightarrow> 0 \<le> j_attempts j \<and> j_attempts j < j_max_attempts j)
           \<and> (j_state j = Running \<longrightarrow> 1 \<le> j_attempts j \<and> j_attempts j \<le> j_max_attempts j
                \<and> j_owner j \<noteq> None \<and> j_expires j \<noteq> None)"
    using I(2) by (simp add: row_ok_def)
qed

section \<open>A job that fails for good\<close>

lemma lockCapacity_media:
  "lockCapacity st account now = Inr (st', c) \<Longrightarrow> items st' = items st \<and> components st' = components st"
  by (auto simp: lockCapacity_def with_capacity_row_def Let_def split: if_splits option.splits)

lemma adjustCapacity_media:
  "adjustCapacity st account committed reserved now = Inr (st', u) \<Longrightarrow> items st' = items st \<and> components st' = components st"
  by (auto simp: adjustCapacity_def rbind_Inr_iff dest: lockCapacity_media split: if_splits)

lemma adjust_each_media:
  "adjust_each st owners now = Inr (st', u) \<Longrightarrow> items st' = items st \<and> components st' = components st"
  by (induction st owners now rule: adjust_each.induct) (fastforce simp: rbind_Inr_iff dest: adjustCapacity_media)+

text \<open>A capacity row once bytes have been given to its account: the counters never go below zero.\<close>

definition adjusted :: "int \<Rightarrow> int \<Rightarrow> capacity_row \<Rightarrow> capacity_row" where
  "adjusted committed reserved k =
     (if committed = 0 \<and> reserved = 0 then k
      else k\<lparr>k_committed := max (k_committed k + committed) 0, k_reserved := max (k_reserved k + reserved) 0\<rparr>)"

lemma row_of_append: "row_of key a xs = Some x \<Longrightarrow> row_of key a (xs @ ys) = Some x"
  by (induction xs) auto

lemma lockCapacity_rows:
  "lockCapacity st account now = Inr (st', c) \<Longrightarrow> row_of k_account a (capacity st) = Some k
   \<Longrightarrow> row_of k_account a (capacity st') = Some k"
  by (auto simp: lockCapacity_def with_capacity_row_def Let_def row_of_append split: if_splits option.splits)

lemma adjustCapacity_rows:
  assumes s: "adjustCapacity st account committed reserved now = Inr (st', u)" and k: "row_of k_account a (capacity st) = Some k"
  shows "row_of k_account a (capacity st') = Some (if a = account then adjusted committed reserved k else k)"
proof (cases "committed = 0 \<and> reserved = 0")
  case True
  then show ?thesis using s k by (simp add: adjustCapacity_def adjusted_def)
next
  case False
  let ?f = "\<lambda>k. k\<lparr>k_committed := max (k_committed k + committed) 0, k_reserved := max (k_reserved k + reserved) 0\<rparr>"
  obtain st1 c where l: "lockCapacity st account now = Inr (st1, c)"
      and st': "capacity st' = update_rows (\<lambda>k. k_account k = account) ?f (capacity st1)"
    using s False by (auto simp: adjustCapacity_def rbind_Inr_iff split: if_splits)
  have "row_of k_account a (capacity st') = map_option (\<lambda>x. if k_account x = account then ?f x else x) (row_of k_account a (capacity st1))"
    unfolding st' by (rule row_of_update) simp
  then show ?thesis using lockCapacity_rows[OF l k] row_of_in[OF k] False by (auto simp: adjusted_def)
qed

lemma adjust_each_rows:
  assumes "adjust_each st owners now = Inr (st', u)" and "distinct (map fst owners)" and "row_of k_account a (capacity st) = Some k"
  shows "row_of k_account a (capacity st')
         = Some (case map_of owners a of None \<Rightarrow> k | Some (committed, reserved) \<Rightarrow> adjusted committed reserved k)"
  using assms
proof (induction st owners now arbitrary: k rule: adjust_each.induct)
  case (2 st owner committed reserved rest now)
  obtain st1 v where s: "adjustCapacity st owner committed reserved now = Inr (st1, v)" "adjust_each st1 rest now = Inr (st', u)"
    using 2(2) by (auto simp: rbind_Inr_iff)
  have "map_of rest owner = None" using 2(3) by (auto simp: map_of_eq_None_iff)
  then show ?case
    using 2(1)[OF s(1) refl s(2) _ adjustCapacity_rows[OF s(1) 2(4)]] 2(3) by (auto split: option.split)
qed simp

text \<open>The bytes the open uploads of an item reserve for an account.\<close>

definition reserved_by :: "store \<Rightarrow> string \<Rightarrow> string \<Rightarrow> int" where
  "reserved_by st itemId account =
     row_total (\<lambda>c. c_item c = itemId \<and> c_owner c = account \<and> 0 < c_reserved c) c_reserved (components st)"

lemma releaseReservations_capacity:
  assumes s: "releaseReservations st ids now = Inr (st', u)" and ids: "set ids = {itemId}"
    and k: "row_of k_account a (capacity st) = Some k"
  shows "row_of k_account a (capacity st') = Some (adjusted 0 (- reserved_by st itemId a) k)"
proof -
  let ?open = "\<lambda>c. c_item c \<in> set ids \<and> 0 < c_reserved c"
  let ?owners = "sort (remdups (map c_owner (filter ?open (components st))))"
  let ?held = "\<lambda>w. row_total (\<lambda>c. ?open c \<and> c_owner c = w) c_reserved (components st)"
  obtain v where e: "adjust_each (st\<lparr>components := update_rows ?open (\<lambda>c. c\<lparr>c_reserved := 0, c_updated_at := now\<rparr>) (components st)\<rparr>)
      (map (\<lambda>w. (w, 0, - ?held w)) ?owners) now = Inr (st', v)"
    using s ids by (auto simp: releaseReservations_def Let_def split: if_splits)
  have held: "?held a = reserved_by st itemId a"
    unfolding reserved_by_def by (rule row_total_same) (auto simp: ids)
  have "map_of (map (\<lambda>w. (w, 0 :: int, - ?held w)) ws) a = (if a \<in> set ws then Some (0, - ?held a) else None)" for ws
    by (induction ws) auto
  moreover have "?held a = 0" if "a \<notin> set ?owners"
    using that by (intro row_total_False) auto
  ultimately have "(case map_of (map (\<lambda>w. (w, 0 :: int, - ?held w)) ?owners) a of None \<Rightarrow> k | Some (x, y) \<Rightarrow> adjusted x y k)
      = adjusted 0 (- ?held a) k"
    by (simp add: adjusted_def)
  moreover have "distinct (map fst (map (\<lambda>w. (w, 0 :: int, - ?held w)) ?owners))" by (simp add: o_def)
  ultimately show ?thesis using adjust_each_rows[OF e, of a k] k unfolding held by simp
qed

lemma releaseReservations_media:
  assumes "releaseReservations st ids now = Inr (st', u)"
  shows "items st' = items st" and "\<forall>c \<in> set (components st'). c_item c \<in> set ids \<longrightarrow> c_reserved c \<le> 0"
proof -
  show "items st' = items st"
    using assms by (auto simp: releaseReservations_def Let_def dest!: adjust_each_media split: if_splits)
  show "\<forall>c \<in> set (components st'). c_item c \<in> set ids \<longrightarrow> c_reserved c \<le> 0"
  proof
    fix c assume c: "c \<in> set (components st')"
    let ?open = "\<lambda>c. c_item c \<in> set ids \<and> 0 < c_reserved c"
    have "components st' = components st \<and> ids = []
        \<or> components st' = update_rows ?open (\<lambda>c. c\<lparr>c_reserved := 0, c_updated_at := now\<rparr>) (components st)"
      using assms by (auto simp: releaseReservations_def Let_def dest!: adjust_each_media split: if_splits)
    then show "c_item c \<in> set ids \<longrightarrow> c_reserved c \<le> 0"
    proof
      assume u: "components st' = update_rows ?open (\<lambda>c. c\<lparr>c_reserved := 0, c_updated_at := now\<rparr>) (components st)"
      then obtain x where x: "c = (if ?open x then x\<lparr>c_reserved := 0, c_updated_at := now\<rparr> else x)"
        using c by (auto simp: set_update_rows)
      then show ?thesis by (cases "?open x") (auto simp: x)
    qed simp
  qed
qed

lemma failProcessingItems_media:
  assumes "failProcessingItems st [k] now = Inr (st', u)"
  shows "\<forall>i \<in> set (items st'). i_id i = k \<longrightarrow> i_state i \<noteq> Processing"
    and "\<forall>i \<in> set (items st). i_id i = k \<and> i_state i = Processing \<longrightarrow>
           (\<forall>c \<in> set (components st'). c_item c = k \<longrightarrow> c_reserved c \<le> 0)"
    and "row_of k_account a (capacity st) = Some r \<Longrightarrow> row_of k_account a (capacity st')
           = Some (if \<exists>i \<in> set (items st). i_id i = k \<and> i_state i = Processing then adjusted 0 (- reserved_by st k a) r else r)"
proof -
  let ?hit = "\<lambda>i. i_id i = k \<and> i_state i = Processing"
  let ?fail = "\<lambda>i. i\<lparr>i_state := Item_failed, i_failure := Some ''processing_failed'', i_updated_at := now, i_version := i_version i + 1\<rparr>"
  obtain u' where r: "releaseReservations (st\<lparr>items := update_rows ?hit ?fail (items st)\<rparr>) (sort (map i_id (filter ?hit (items st)))) now
      = Inr (st', u')"
    using assms by (auto simp: failProcessingItems_def Let_def rbind_Inr_iff)
  have "items st' = update_rows ?hit ?fail (items st)" using releaseReservations_media(1)[OF r] by simp
  then have it: "\<exists>x. i = (if ?hit x then ?fail x else x)" if "i \<in> set (items st')" for i using that by (auto simp: set_update_rows)
  show "\<forall>i \<in> set (items st'). i_id i = k \<longrightarrow> i_state i \<noteq> Processing"
  proof (intro ballI impI)
    fix i assume "i \<in> set (items st')" and k: "i_id i = k"
    then obtain x where x: "i = (if ?hit x then ?fail x else x)" using it by blast
    show "i_state i \<noteq> Processing" using k unfolding x by (cases "?hit x") auto
  qed
  show "\<forall>i \<in> set (items st). i_id i = k \<and> i_state i = Processing \<longrightarrow>
           (\<forall>c \<in> set (components st'). c_item c = k \<longrightarrow> c_reserved c \<le> 0)"
    using releaseReservations_media(2)[OF r] by auto
  let ?ids = "sort (map i_id (filter ?hit (items st)))"
  assume row: "row_of k_account a (capacity st) = Some r"
  show "row_of k_account a (capacity st')
      = Some (if \<exists>i \<in> set (items st). i_id i = k \<and> i_state i = Processing then adjusted 0 (- reserved_by st k a) r else r)"
  proof (cases "\<exists>i \<in> set (items st). ?hit i")
    case True
    then have "set ?ids = {k}" by auto
    then show ?thesis using releaseReservations_capacity[OF r, of k a] row True by (simp add: reserved_by_def)
  next
    case False
    then have "?ids = []" by (simp add: filter_empty_conv)
    then have "capacity st' = capacity st" using r by (auto simp: releaseReservations_def)
    then show ?thesis using row False by auto
  qed
qed

lemma jobBackoff_bounds: "backoff_base_ms \<le> jobBackoffMs n \<and> jobBackoffMs n \<le> backoff_max_ms"
  by (simp add: jobBackoffMs_def backoff_base_ms_def backoff_max_ms_def)


section \<open>One worker\<close>

text \<open>C13: a configured worker runs at most its concurrency, which is between one and four, of pairwise different jobs; every run
  that works has its deadline timer set for the safety margin before its lease ends.
\<close>

lemma worker_bounded:
  assumes "worker_run cfg w calls" and "configured cfg"
  shows "int (length (wk_runs w)) \<le> wc_concurrency cfg \<and> 1 \<le> wc_concurrency cfg \<and> wc_concurrency cfg \<le> 4
    \<and> distinct (map fst (wk_runs w))
    \<and> (\<forall>r < length (wk_heap w). \<not> gone (wk_heap w ! r) \<longrightarrow>
          run_deadline (wk_heap w ! r) = Some (run_until (wk_heap w ! r) - wc_safety cfg))"
proof -
  have c: "0 \<le> wc_concurrency cfg" using configured_concurrency[OF assms(2)] by simp
  note inv = worker_run_inv[OF assms(1) c]
  show ?thesis
    using configured_concurrency[OF assms(2)] worker_inv_rest(1,3)[OF inv] lifeD(1)[OF conjunct1[OF worker_run_life[OF assms(1) c]]]
    by (simp add: armed_def)
qed

text \<open>C12: along every history of a worker, whatever the queue answers and the handlers do, at most one call settles a run (it
  completes, fails or releases the job), and none has been made for a run that still works.
\<close>

lemma run_settles_once:
  assumes "worker_run cfg w calls" and "configured cfg"
  shows "settling_calls r calls \<le> 1
    \<and> (r < length (wk_heap w) \<and> \<not> gone (wk_heap w ! r) \<longrightarrow> settling_calls r calls = 0)"
proof -
  have "0 \<le> wc_concurrency cfg" using configured_concurrency[OF assms(2)] by simp
  then have "settling_calls r calls \<le> (if settled w r then 1 else 0)" using worker_run_life[OF assms(1)] by blast
  then show ?thesis by (auto simp: settled_def gone_def split: if_splits)
qed

section \<open>A fleet\<close>

text \<open>C10: of two runs of one job in a fleet of workers on the queue, on one worker or two, at most one works within its lease: when
  both work, the deadline timer of one of them is overdue by more than its safety margin.
\<close>

lemma job_runs_exclusive:
  assumes "publishing_fleet digest needed cfgs f" and "distinct (map wc_owner cfgs)" and "list_all configured cfgs"
    and "working f i r" and "working f j s" and "(i, r) \<noteq> (j, s)"
    and "q_id (run_claim (the_run f i r)) = q_id (run_claim (the_run f j s))"
  shows "\<exists>(k, n) \<in> {(i, r), (j, s)}.
           run_deadline (the_run f k n) = Some (run_until (the_run f k n) - wc_safety (cfgs ! k))
           \<and> run_until (the_run f k n) < f_clock f"
proof -
  have c: "0 \<le> wc_concurrency c" if "c \<in> set cfgs" for c
    using assms(3) that configured_concurrency[of c] by (fastforce simp: list_all_iff)
  have timed: "run_deadline (the_run f k n) = Some (run_until (the_run f k n) - wc_safety (cfgs ! k))" if "working f k n" for k n
    using fleet_run_armed[OF assms(1,3)] that by (simp add: working_def armed_def)
  have "\<not> (f_clock f \<le> run_until (the_run f i r) \<and> f_clock f \<le> run_until (the_run f j s))"
    using postgres.runs_exclusive[OF assms(1,2) c assms(4) _ assms(5) _ assms(7)] assms(6) by blast
  then show ?thesis using timed[OF assms(4)] timed[OF assms(5)] by auto
qed

text \<open>
  A run that works within its lease is the one the queue names: the row of its job carries its label, until its deadline or
  later, so nobody else can settle or renew the job.
\<close>

lemma working_run_leased:
  assumes "publishing_fleet digest needed cfgs f" and "distinct (map wc_owner cfgs)" and "list_all configured cfgs"
    and "working f i r" and "f_clock f \<le> run_until (the_run f i r)"
  shows "\<exists>j t. row_of j_id (q_id (run_claim (the_run f i r))) (jobs (f_store f)) = Some j \<and> j_state j = Running
           \<and> j_owner j = Some (q_owner (run_claim (the_run f i r))) \<and> j_expires j = Some t \<and> run_until (the_run f i r) \<le> t"
proof -
  have c: "0 \<le> wc_concurrency c" if "c \<in> set cfgs" for c
    using assms(3) that configured_concurrency[of c] by (fastforce simp: list_all_iff)
  show ?thesis
    using postgres.run_holds_lease[OF assms(1,2) c assms(4,5)]
    by (auto simp: lease_in_def lease_row_def bind_eq_Some_conv split: if_splits option.splits)
qed

section \<open>Examples\<close>

text \<open>One queued job and two workers; the second maintains the queue.\<close>

definition plain_options :: "string \<Rightarrow> bool \<Rightarrow> worker_options" where
  "plain_options owner maintenance = \<lparr>wo_concurrency = None, wo_owner = Some owner, wo_kinds = None,
     wo_maintenance = Some maintenance, wo_poll = None, wo_lease = None, wo_renew = None, wo_shutdown_grace = None,
     wo_abort_grace = None, wo_requeue = None, wo_cleanup = None, wo_sweep = None, wo_reconcile = None, wo_limit = None\<rparr>"

definition plain_config :: "string \<Rightarrow> bool \<Rightarrow> worker_config" where
  "plain_config owner maintenance = \<lparr>wc_concurrency = 1, wc_owner = owner, wc_kinds = None, wc_maintenance = maintenance,
     wc_poll = 1000, wc_lease = 300000, wc_renew = 100000, wc_safety = 30000, wc_shutdown_grace = 30000,
     wc_abort_grace = 5000, wc_requeue = 30000, wc_cleanup = 60000, wc_sweep = 3600000, wc_reconcile = 21600000,
     wc_limit = 100\<rparr>"

definition one_job :: store where
  "one_job = \<lparr>jobs = [new_job ''j1'' (plain_job Sweep_staging ''staging'') 0], items = [], components = [], blobs = [],
     derivatives = [], refs = [], capacity = [], active_users = [], other_users = [], sessions = [], drafts = [], works = [],
     snapshots = [], revision_items = [],
     settings = \<lparr>g_max_items = 1, g_original_max = 1, g_standard_max = 1, g_ordinary_capacity = 1, g_owner_capacity = 1,
                  g_orphan_grace_days = 1, g_session_lease_minutes = 1\<rparr>\<rparr>"

abbreviation two_workers :: "worker_config list" where
  "two_workers \<equiv> [plain_config ''a'' False, plain_config ''b'' True]"

abbreviation all_needed :: "store \<Rightarrow> item_row \<Rightarrow> derivative_row \<Rightarrow> bool" where
  "all_needed \<equiv> \<lambda>_ _ _. True"

lemma plain_configured: "configured (plain_config ''a'' m)" "configured (plain_config ''b'' m)"
proof -
  have "newWorker '''' (plain_options ''a'' m) = Some (plain_config ''a'' m)"
       "newWorker '''' (plain_options ''b'' m) = Some (plain_config ''b'' m)"
    by (simp_all add: newWorker_def plain_options_def plain_config_def positive_def max_safe_integer_def owner_ok_def
          owner_char_def lower_or_digit_def)
  then show "configured (plain_config ''a'' m)" "configured (plain_config ''b'' m)" unfolding configured_def by blast+
qed

text \<open>
  The first worker takes the job and hangs beyond its lease without its timers firing; the second one requeues the job and takes
  it. Everything is computed by rewriting.
\<close>

definition overtaken_events :: "fleet_event list" where
  "overtaken_events =
     [Local 0 Start, Local 0 Poll_timer, Serve 0 False [] [], Deliver 0, Time_passes 400000,
      Local 1 Start, Local 1 Poll_timer, Serve 1 False [] [], Deliver 1, Serve 2 False [] [''c1''], Deliver 2,
      Serve 3 False [] [''j2''], Deliver 3, Serve 4 False [] [''j3''], Deliver 4, Serve 5 False [] [], Deliver 5]"

lemmas fleet_evaluation = fleet_event_step_def at_worker_def send_def fleet0_def worker0_def postgres_port_def served_def
  start_def schedule_def runTick_def maintain_step_def maintain_next_def claim_part_def due_at_def interval_def maintenance_call_def
  finish_tick_def claimed_def startRun_def armDeadline_def scheduleRenewal_def Let_def plain_config_def
  claimJobs_def next_jobs_def claimable_def start_job_def claimOf_def update_rows_def
  requeueExpiredJobs_def expired_jobs_def takes_expired_def final_subjects_def lease_expired_def expiry_order_def expire_row_def
  failProcessingItems_def scheduleCleanup_def schedule_due_def releaseUnusedDerivatives_def expired_sessions_def due_trashed_works_def
  orphaned_items_def unused_blobs_def doomed_def earliest_def enqueueJob_def insertJob_def same_work_def active_job_def
  payload_text_def new_job_def default_max_attempts_def job_subject_ok_def lower_or_digit_def lease_label_def base36.simps
  numeral_3_eq_3 one_job_def overtaken_events_def

lemma overtaken_run:
  "\<exists>f. fleet_run (postgres_port id all_needed) two_workers overtaken_events (fleet0 one_job 0 2) = Some f
     \<and> working f 0 0 \<and> working f 1 0 \<and> f_clock f = 400000
     \<and> q_id (run_claim (the_run f 0 0)) = ''j1'' \<and> q_id (run_claim (the_run f 1 0)) = ''j1''
     \<and> run_until (the_run f 0 0) = 300000 \<and> run_until (the_run f 1 0) = 700000"
  by (simp add: fleet_evaluation working_def is_run_def the_run_def gone_def)

lemma one_job_begins: "publishing_fleet id all_needed two_workers (fleet0 one_job 0 2)"
proof -
  have "row_ok (new_job ''j1'' (plain_job Sweep_staging ''staging'') 0)" by (simp add: row_ok_def new_job_def default_max_attempts_def)
  then have "jobs_ok id one_job" by (simp add: one_job_def queue_inv_def)
  moreover have "job_lease one_job jid = None" for jid by (simp add: one_job_def lease_in_def)
  ultimately show ?thesis using Begin[of "jobs_ok id" one_job job_lease two_workers _ 0] by (simp add: numeral_2_eq_2)
qed

lemma overtaken_reachable:
  obtains f where "publishing_fleet id all_needed two_workers f" and "working f 0 0" and "working f 1 0" and "f_clock f = 400000"
    and "q_id (run_claim (the_run f 0 0)) = ''j1''" and "q_id (run_claim (the_run f 1 0)) = ''j1''"
    and "run_until (the_run f 0 0) = 300000" and "run_until (the_run f 1 0) = 700000"
  using overtaken_run fleet_run_reachable[OF one_job_begins] by metis

lemma two_workers_ok: "distinct (map wc_owner two_workers)" "list_all configured two_workers"
  using plain_configured by (simp_all add: plain_config_def)

lemma job_runs_exclusive_witness:
  "\<exists>f. publishing_fleet id all_needed two_workers f \<and> working f 0 0 \<and> working f 1 0
     \<and> (\<exists>(k, n) \<in> {(0, 0), (1, 0)}.
          run_deadline (the_run f k n) = Some (run_until (the_run f k n) - wc_safety (two_workers ! k))
          \<and> run_until (the_run f k n) < f_clock f)"
proof -
  obtain f where f: "publishing_fleet id all_needed two_workers f" "working f 0 0" "working f 1 0"
      "q_id (run_claim (the_run f 0 0)) = q_id (run_claim (the_run f 1 0))"
    using overtaken_reachable by metis
  have "(0 :: nat, 0 :: nat) \<noteq> (1, 0)" by simp
  from job_runs_exclusive[OF f(1) two_workers_ok f(2,3) this f(4)] show ?thesis using f(1-3) by blast
qed

lemma working_run_leased_witness:
  "\<exists>f j t. publishing_fleet id all_needed two_workers f \<and> row_of j_id ''j1'' (jobs (f_store f)) = Some j
     \<and> j_state j = Running \<and> j_owner j = Some (q_owner (run_claim (the_run f 1 0))) \<and> j_expires j = Some t \<and> 700000 \<le> t"
proof -
  obtain f where f: "publishing_fleet id all_needed two_workers f" "working f 1 0" "f_clock f = 400000"
      "q_id (run_claim (the_run f 1 0)) = ''j1''" "run_until (the_run f 1 0) = 700000"
    using overtaken_reachable by metis
  have "f_clock f \<le> run_until (the_run f 1 0)" using f(3,5) by simp
  from working_run_leased[OF f(1) two_workers_ok f(2) this] show ?thesis using f by metis
qed

lemma example_worker_run:
  "\<exists>w calls. worker_trace (plain_config ''a'' False) 0
      [Start, Poll_timer,
       Claimed (Some [\<lparr>q_id = ''j1'', q_kind = Sweep_staging, q_subject = ''staging'', q_payload = None, q_attempts = 1,
                      q_max_attempts = 5, q_owner = ''a.1'', q_expires = 300000\<rparr>]),
       Run_begins 0, Handler_returned 0 Completed_result] worker0 = Some (w, calls)
     \<and> length (wk_runs w) = 1 \<and> settling_calls 0 calls = 1"
  by (simp add: fleet_evaluation stage_is_def set_stage_def upd_run_def handlerReturned_def record_outcome_def settling_calls_def)

lemma worker_bounded_witness:
  "\<exists>w calls. worker_run (plain_config ''a'' False) w calls \<and> length (wk_runs w) = 1 \<and> distinct (map fst (wk_runs w))"
proof -
  obtain w calls where w: "worker_run (plain_config ''a'' False) w calls" "length (wk_runs w) = 1"
    using example_worker_run worker_trace_run[OF Fresh] by fastforce
  from worker_bounded[OF w(1) plain_configured(1)] show ?thesis using w by blast
qed

lemma run_settles_once_witness:
  "\<exists>w calls. worker_run (plain_config ''a'' False) w calls \<and> settling_calls 0 calls = 1 \<and> settling_calls 0 calls \<le> 1"
proof -
  obtain w calls where w: "worker_run (plain_config ''a'' False) w calls" "settling_calls 0 calls = 1"
    using example_worker_run worker_trace_run[OF Fresh] by fastforce
  from run_settles_once[OF w(1) plain_configured(1), of 0] show ?thesis using w by blast
qed

text \<open>The job is claimed in the table on its own; a processing job fails for good in its last attempt.\<close>

definition claim_one :: claim_options where
  "claim_one = \<lparr>o_owner = ''a.1'', o_limit = 1, o_lease_ms = 300000, o_kinds = None\<rparr>"

lemma queue_sound_witness:
  "\<exists>st qs. claimJobs (\<lambda>_. False) one_job claim_one 0 = Inr (st, qs) \<and> length qs = 1 \<and> distinct (map j_id (jobs st))"
proof -
  have "\<exists>st qs. claimJobs (\<lambda>_. False) one_job claim_one 0 = Inr (st, qs) \<and> length qs = 1"
    by (simp add: fleet_evaluation claim_one_def)
  then obtain st qs where c: "claimJobs (\<lambda>_. False) one_job claim_one 0 = Inr (st, qs)" "length qs = 1" by blast
  have e: "enqueueJob id (\<lambda>_. ''j1'') (one_job\<lparr>jobs := []\<rparr>) (plain_job Sweep_staging ''staging'') 0 = Inr (one_job, ''j1'', True)"
    by (simp add: fleet_evaluation)
  have "queue_history id (one_job\<lparr>jobs := []\<rparr>)" by (rule No_jobs) simp
  from Enqueues[OF this e] have "queue_history id one_job" .
  from queue_sound[OF Claims[OF this c(1)]] show ?thesis using c by blast
qed

definition last_attempt :: store where
  "last_attempt = one_job\<lparr>
     jobs := [(new_job ''j1'' (plain_job Process_item ''i1'') 0)\<lparr>j_state := Running, j_attempts := 5, j_owner := Some ''a.1'',
                j_expires := Some 300000\<rparr>],
     items := [\<lparr>i_id = ''i1'', i_owner = ''u'', i_kind = Static, i_quality = Original, i_state = Processing, i_failure = None,
                i_declared_total = 7, i_received_total = 7, i_version = 1, i_updated_at = 0, i_ready_at = None,
                i_cancelled_at = None, i_purged_at = None\<rparr>],
     components := [\<lparr>c_id = ''c1'', c_item = ''i1'', c_owner = ''u'', c_role = Still, c_declared_bytes = 7,
                c_declared_type = ''image/jpeg'', c_state = Received, c_attempt = None, c_received = 7, c_sha256 = None,
                c_detected_type = None, c_blob = None, c_reserved = 7, c_updated_at = 0\<rparr>],
     capacity := [(fresh_capacity ''u'' 0)\<lparr>k_reserved := 10\<rparr>], active_users := [''u'']\<rparr>"


end
