(* ===== verification/Spec2Isabelle.thy ===== *)
theory Spec2Isabelle
  imports AuthTables AppleLivePhoto MotionWritten CsvImport AutosaveLiveness StagingInvariant PublishingText Sha256Spec SubmissionGuarantees ReadinessGuarantees UploadGuarantees RestoreGuarantees HistoryGuarantees JobGuarantees
begin

text \<open>
  A verification development for the community and publishing core of this repository: the parts of the TypeScript
  sources that decide who is signed in, what becomes of the pictures an author uploads, and what the browser keeps of a
  draft. Every theory translates named functions of one or a few source files; the theorems are about those functions.

  \<^bold>\<open>The program and what is modelled.\<close> The product is a web client (\<open>apps/web\<close>), an application package
  (\<open>services/api\<close>) behind HTTP handlers (\<open>services/backend-runtime\<close>), PostgreSQL adapters
  (\<open>services/community-postgres\<close>, \<open>services/catalog-postgres\<close>), a media worker
  (\<open>services/backend-production\<close>), an importer of catalogue bundles (\<open>services/catalog-importer\<close>), and shared contracts
  (\<open>packages/contracts\<close>). A person signs in through the authentication service; the publishing editor stages picked
  files, hashes and uploads them, saves the draft while the author edits, watches the edits become ready and submits the
  work; the worker checks and processes the untrusted bytes.

  \<^bold>\<open>Authentication\<close> (\<open>services/api/src/modules/community/application/auth\<close>).
  \<open>ContactCrypto\<close> is \<open>contact-crypto.ts\<close>; \<open>AuthPort\<close> is the row types and the unit of work of
  \<open>auth-port.ts\<close>, a record of operations over any store; \<open>MemoryAuthPort\<close> is the store of \<open>memory-auth-port.ts\<close>.
  \<open>AuthService\<close>, \<open>AuthOperations\<close> and \<open>AuthFactors\<close> are \<open>community-auth-service.ts\<close>: each transaction body is a
  definition and each public operation runs them in the order of the code. \<open>AuthStore\<close> states the contract of the store
  as the locales \<open>auth_store_core\<close> and \<open>auth_store\<close>, in which it is proved once that every transaction keeps a store
  invariant; \<open>AuthInvariant\<close> interprets them on the in-memory store. \<open>AuthRuns\<close> is the step relation of the service over
  that store, its steps single transactions in which the random ids drawn for new identity rows are not in use
  (\<open>fresh_draws\<close>), \<open>AuthGuarantees\<close> and \<open>AuthTables\<close> what the operations promise: uniqueness and bounds in every reachable
  state, sound sign-ins, lockout, one account per handoff, final sign-outs, the effect of factor changes.
  Hashing, encryption, random draws and the platform's URL parser are parameters (the record \<open>platform\<close>).

  \<^bold>\<open>The job queue and its workers\<close> (\<open>services/community-postgres/src/publishing\<close>,
  \<open>services/backend-production/src/publishing\<close>). \<open>PublishingStore\<close> is the tables the adapters share and the helpers of
  \<open>db.ts\<close> and \<open>jobs.ts\<close> (transactions, reserved bytes); \<open>JobQueue\<close> the operations of \<open>jobs.ts\<close> and the two job commands
  of \<open>operator.ts\<close>; \<open>JobCleanup\<close> its \<open>scheduleCleanup\<close>, whose release of unused derivatives commits on its own before
  the pass over the due rows; \<open>JobWriters\<close> the statements of \<open>media.ts\<close> and \<open>works.ts\<close> that write the table of jobs
  without \<open>insertJob\<close>. \<open>JobWorker\<close> is the class of \<open>worker.ts\<close>, and \<open>JobFleet\<close> several workers on one queue: calls are
  sent, served, answered, delayed and lost in any order. \<open>JobQueueFacts\<close> and \<open>JobLaws\<close> show that every operation keeps the
  invariant of the table and moves leases only as it may; \<open>WorkerFacts\<close> and \<open>WorkerGuarantees\<close> what a worker does on
  its own; \<open>FleetInvariant\<close> states the contract of a leased queue as a locale, under which \<open>FleetKeeps\<close>, \<open>FleetServes\<close>,
  \<open>FleetDelivers\<close> and \<open>FleetRuns\<close> prove once that two runs of a job never both work within their leases;
  \<open>JobLeases\<close> interprets it on the operations of the adapter, and \<open>JobGuarantees\<close> draws the conclusions. Assumed: one clock
  that all workers read and that never goes back; a rejected call may have taken effect; a timer may fire at any time while it
  is armed; whatever else uses the store leaves the leases as they are. The
  handlers of the jobs may return or throw at any time. The database's \<open>md5\<close>, its identifiers, the rows
  \<open>SKIP LOCKED\<close> passes over, the query \<open>derivativeNeededSql\<close> and the key of an edit are parameters.

  \<^bold>\<open>Untrusted media\<close> (\<open>services/backend-production/src/publishing/processing\<close>). \<open>MediaBytes\<close> (\<open>byte-reader.ts\<close>,
  \<open>errors.ts\<close>), \<open>Isobmff\<close> and \<open>HeifMeta\<close> (\<open>isobmff.ts\<close>), \<open>TiffExif\<close> (\<open>tiff-exif.ts\<close>), \<open>Signature\<close> (\<open>signature.ts\<close>),
  \<open>Jpeg\<close> (\<open>jpeg.ts\<close>), \<open>Utf8Decode\<close> (the standard decoder the parsers call), \<open>AppleLivePhoto\<close> (\<open>apple-live-photo.ts\<close>)
  and \<open>MotionPhoto\<close> (\<open>motion-photo.ts\<close>). A parser is a function from a list of bytes to a sum, \<open>Inl\<close> the error code it
  throws. Every loop of these files ends, so no fuel is used: a definition recurses on the remaining bytes, on a box
  count bounded by \<open>maxBoxes\<close>, or on the offsets not yet visited. \<open>MotionGuarantees\<close> and \<open>MotionWritten\<close> hold the facts
  about Motion Photo containers; the facts about the other formats stand in their theories: tilings, bounded chains,
  canonical identifiers, round trips with a writer.

  \<^bold>\<open>Catalogue tables\<close> (\<open>services/catalog-importer/src/parsing/csv.ts\<close>): \<open>CsvImport\<close>, with the round trip of a written
  table.

  \<^bold>\<open>The publishing editor\<close> (\<open>apps/web/features/publishing\<close>). An asynchronous function is cut at its awaits; what waits
  is kept in the state, an answer is an event, and any order of events the browser allows is a run. \<open>DraftContent\<close> and
  \<open>DraftAutosave\<close> are \<open>draft-autosave.ts\<close> (\<open>AutosaveInvariant\<close>, \<open>AutosaveGuarantees\<close>, \<open>AutosaveLiveness\<close>);
  \<open>Staging\<close> is \<open>import-grouping.ts\<close> (\<open>StagingInvariant\<close>); \<open>Sha256\<close> is \<open>sha256.ts\<close>, shown equal to FIPS 180-4 in
  \<open>Sha256Spec\<close>; \<open>SubmissionReconcile\<close> is \<open>submission-reconcile.ts\<close> (\<open>SubmissionGuarantees\<close>, a refinement of an
  abstract intent); \<open>EditReadiness\<close> is \<open>edit-readiness.ts\<close> (\<open>ReadinessGuarantees\<close>); \<open>PublishingText\<close> is
  \<open>packages/contracts/src/work-publishing-text.ts\<close>. \<open>UploadTypes\<close>, \<open>UploadState\<close>, \<open>UploadManager\<close>, \<open>UploadEditing\<close>,
  \<open>UploadRestore\<close> and \<open>UploadSteps\<close> are \<open>upload-manager.ts\<close>; \<open>UploadInvariant\<close>, \<open>UploadKeeps\<close> and \<open>UploadRuns\<close> carry
  its invariant through every step, \<open>UploadGuarantees\<close> and \<open>RestoreGuarantees\<close> state what it promises.
  \<open>LocalRecovery\<close> is \<open>local-recovery.ts\<close> over IndexedDB, whatever else writes to the database between the transactions of a
  \<open>save\<close> (\<open>RecoveryGuarantees\<close>); \<open>StructuredClone\<close> is what IndexedDB and
  the history hand back; \<open>ProductHistory\<close> is \<open>apps/web/features/product-shell/product-history.ts\<close>
  (\<open>HistoryGuarantees\<close>, where the declared states are stated apart from the reader). Where the code does not do what its
  comments promise, the theorem says what it does do: an item can be shown ready after \<open>markPending\<close> without a check of that
  edit, a timer of the autosave armed earlier can outlive into a conflict, the count of running transfers can exceed the
  transfers that run, two saves of a recovery record can pass the total together, and a stored tab may be an array.

  \<^bold>\<open>Conventions.\<close> A JavaScript string is a list of UTF-16 code units (\<open>jstr\<close>) where its units matter and a \<open>string\<close>
  where it is an identifier; a number used as an integer is \<open>int\<close> or \<open>nat\<close>, a 32-bit operation is done on words; a throw
  is \<open>Inl\<close>. Code outside \<open>src/\<close> (cryptography, timers, the network, the browser's codecs) is an argument of the
  definitions that use it. A timer may fire at any time from when it is armed, an answer may come at any time or never.
\<close>

end
